(* ===== verification/Prelude.thy ===== *)
theory Prelude
  imports Main "HOL-Library.Word"
begin

unbundle bit_operations_syntax

text \<open>
  Shared vocabulary of the development: the machine integer types of the code, the
  alignment arithmetic of src/src/util/util_math.hpp, and the generic facts on words and
  lists that the component theories share. The collection \<open>word_nat\<close> holds the
  no-overflow readings of word operations as natural numbers.
\<close>

named_theorems word_nat \<comment> \<open>word operations read as natural numbers\<close>

type_synonym u8 = "8 word"
type_synonym u16 = "16 word"
type_synonym u32 = "32 word"
type_synonym u64 = "64 word"

subsection \<open>Words as natural numbers\<close>

lemma unat_add_nowrap [word_nat]:
  fixes a b :: u64
  assumes "unat a + unat b < 2 ^ 64"
  shows "unat (a + b) = unat a + unat b"
  using assms by (simp add: unat_word_ariths)

lemma unat_sub_nowrap [word_nat]:
  fixes a b :: u64
  assumes "b \<le> a"
  shows "unat (a - b) = unat a - unat b"
  using assms by (simp add: unat_sub)

lemma unat_max64 [word_nat]:
  fixes a b :: u64
  shows "unat (max a b) = max (unat a) (unat b)"
  by (simp add: max_def word_le_nat_alt)

subsection \<open>Alignment\<close>

text \<open>The template \<open>align\<close>, at the width of its 64-bit instances.\<close>

definition align64 :: "u64 \<Rightarrow> u64 \<Rightarrow> u64" where
  "align64 what to = (what + to - 1) AND NOT (to - 1)"

definition is_pow2 :: "u64 \<Rightarrow> bool" where
  "is_pow2 a \<longleftrightarrow> (\<exists>k < 64. a = 2 ^ k)"

lemma and_not_mask_div:
  fixes x :: u64
  assumes "k < 64"
  shows "unat (x AND NOT (2 ^ k - 1)) = unat x div 2 ^ k * 2 ^ k"
proof -
  have "x AND NOT (2 ^ k - 1) = push_bit k (drop_bit k x)"
    by (rule bit_word_eqI) (auto simp: bit_simps mask_eq_exp_minus_1 [symmetric])
  moreover have "unat (push_bit k y) = unat y * 2 ^ k" if "unat y * 2 ^ k < 2 ^ 64" for y :: u64
    unfolding unsigned_push_bit_eq using that by (simp add: push_bit_eq_mult take_bit_eq_mod)
  moreover have "unat (drop_bit k x) * 2 ^ k < 2 ^ 64"
  proof -
    have "unat (drop_bit k x) * 2 ^ k \<le> unat x"
      unfolding unat_drop_bit_eq by (simp add: drop_bit_eq_div)
    also have "\<dots> < 2 ^ 64" using unsigned_less [of x, where 'a = nat] by simp
    finally show ?thesis .
  qed
  ultimately have "unat (x AND NOT (2 ^ k - 1)) = unat (drop_bit k x) * 2 ^ k"
    by metis
  then show ?thesis
    unfolding unat_drop_bit_eq by (simp add: drop_bit_eq_div)
qed

text \<open>
  The reading of \<open>align\<close> as natural-number arithmetic: for a power of two that does not
  push the sum past the width, the result is the least multiple of it above the argument.
\<close>

lemma unat_pow2:
  assumes "k < 64"
  shows "unat (2 ^ k :: u64) = 2 ^ k"
proof -
  have "(2 :: nat) ^ k < 2 ^ 64"
    using assms by (intro power_strict_increasing) auto
  then have "unat (of_nat (2 ^ k) :: u64) = 2 ^ k"
    by (subst unat_of_nat) (simp add: take_bit_eq_mod)
  then show ?thesis by simp
qed

lemma unat_align64:
  assumes k: "k < 64" and bound: "unat x + 2 ^ k < 2 ^ 64"
  shows "unat (align64 x (2 ^ k)) = (unat x + 2 ^ k - 1) div 2 ^ k * 2 ^ k"
proof -
  have sum: "unat (x + 2 ^ k) = unat x + 2 ^ k"
    using bound by (simp add: word_nat unat_pow2 [OF k])
  moreover have "(1 :: u64) \<le> x + 2 ^ k"
    unfolding word_le_nat_alt using sum by (simp add: Suc_le_eq)
  ultimately have "unat (x + 2 ^ k - 1) = unat x + 2 ^ k - 1"
    by (simp add: word_nat)
  then show ?thesis
    by (simp add: align64_def and_not_mask_div [OF k])
qed

lemma align64_bounds:
  assumes a: "is_pow2 a" and bound: "unat x + unat a < 2 ^ 64"
  shows "unat x \<le> unat (align64 x a)"
    and "unat (align64 x a) < unat x + unat a"
    and "unat a dvd unat (align64 x a)"
proof -
  obtain k where k: "k < 64" and [simp]: "a = 2 ^ k"
    using a by (auto simp: is_pow2_def)
  have ua: "unat a = 2 ^ k" using k by (simp add: unat_pow2)
  have eq: "unat (align64 x a) = (unat x + 2 ^ k - 1) div 2 ^ k * 2 ^ k"
    using unat_align64 [OF k] bound ua by simp
  let ?n = "unat x + 2 ^ k - 1" and ?p = "2 ^ k :: nat"
  have dm: "?n div ?p * ?p + ?n mod ?p = ?n" by (rule div_mult_mod_eq)
  have m: "?n mod ?p < ?p" by simp
  have p: "0 < ?p" by simp
  show "unat x \<le> unat (align64 x a)" using eq dm m p by linarith
  show "unat (align64 x a) < unat x + unat a" using eq dm p ua by linarith
  show "unat a dvd unat (align64 x a)" using eq ua by simp
qed

lemma align64_0: "is_pow2 a \<Longrightarrow> align64 0 a = 0"
  by (auto simp: is_pow2_def align64_def intro!: bit_word_eqI simp: bit_simps)

subsection \<open>Transition systems\<close>

text \<open>
  The components with interleaved operations are step relations. A predicate that holds
  initially and is kept by every step holds in every reachable state: proved once here and
  interpreted on each machine.
\<close>

inductive reachable_from :: "('s \<Rightarrow> bool) \<Rightarrow> ('s \<Rightarrow> 's \<Rightarrow> bool) \<Rightarrow> 's \<Rightarrow> bool"
  for start :: "'s \<Rightarrow> bool" and step :: "'s \<Rightarrow> 's \<Rightarrow> bool"
where
  reach_start: "start s \<Longrightarrow> reachable_from start step s"
| reach_step: "reachable_from start step s \<Longrightarrow> step s t \<Longrightarrow> reachable_from start step t"

locale invariant_machine =
  fixes start :: "'s \<Rightarrow> bool"
    and step :: "'s \<Rightarrow> 's \<Rightarrow> bool"
    and inv :: "'s \<Rightarrow> bool"
  assumes inv_start: "start s \<Longrightarrow> inv s"
    and inv_step: "inv s \<Longrightarrow> step s t \<Longrightarrow> inv t"
begin

lemma reachable_inv: "reachable_from start step s \<Longrightarrow> inv s"
  by (induction rule: reachable_from.induct) (auto intro: inv_start inv_step)

end

end
