(* ===== verification/FenceSet.thy ===== *)
theory FenceSet
  imports Prelude
begin

text \<open>
  Sets of fences: \<open>FenceSet\<close> of src/src/dxmt/dxmt_deptrack.hpp, four 64-bit words indexed by the
  generation (\<open>PARITY\<close>) and lane (\<open>LANE\<close>) of an encoder id, over the trailing-zero count of
  src/src/util/util_bit.hpp. The abstraction \<open>fences\<close> reads a fence set as a set of slots below
  256, one per fence of the pool; every operation is shown to be the set operation it stands for.
  The locale \<open>slot_set\<close> is the interface the dependency trackers use, and the fence set is its
  model.
\<close>

subsection \<open>Trailing zeros\<close>

definition tzcnt64 :: "u64 \<Rightarrow> nat" where
  "tzcnt64 n = length (takeWhile (\<lambda>i. \<not> bit n i) [0..<64])"

lemma bit64_imp_lt: "bit (n :: u64) i \<Longrightarrow> i < 64"
  using bit_imp_le_length [of n i] by simp

lemma ex_bit64: "n \<noteq> 0 \<Longrightarrow> \<exists>i < 64. bit (n :: u64) i"
  using bit64_imp_lt by (auto simp: bit_eq_iff)

lemma takeWhile_upt:
  fixes m :: nat and P :: "nat \<Rightarrow> bool"
  defines "t \<equiv> length (takeWhile (\<lambda>i. \<not> P i) [0..<m])"
  shows "i < t \<Longrightarrow> \<not> P i" and "k < m \<Longrightarrow> P k \<Longrightarrow> t < m \<and> P t"
proof -
  have le: "t \<le> m" unfolding t_def using length_takeWhile_le [of "\<lambda>i. \<not> P i" "[0..<m]"] by simp
  show none: "\<not> P i" if "i < t" for i
  proof -
    have "takeWhile (\<lambda>i. \<not> P i) [0..<m] ! i \<in> set (takeWhile (\<lambda>i. \<not> P i) [0..<m])"
      using that by (intro nth_mem) (simp add: t_def)
    moreover have "takeWhile (\<lambda>i. \<not> P i) [0..<m] ! i = i"
      using that le by (simp add: t_def takeWhile_nth)
    ultimately show ?thesis by (metis set_takeWhileD)
  qed
  show "t < m \<and> P t" if "k < m" "P k"
  proof -
    have "t \<le> k" using none [of k] that(2) by (cases "k < t") auto
    then have "t < m" using that(1) by simp
    then show ?thesis
      using nth_length_takeWhile [of "\<lambda>i. \<not> P i" "[0..<m]"] by (simp add: t_def)
  qed
qed

lemma tzcnt64_spec:
  assumes "n \<noteq> 0"
  shows "tzcnt64 n < 64" "bit n (tzcnt64 n)" "\<And>i. i < tzcnt64 n \<Longrightarrow> \<not> bit n i"
proof -
  obtain k where k: "k < 64" "bit n k" using ex_bit64 [OF assms] by auto
  from takeWhile_upt(2) [where P = "bit n", OF k]
  show "tzcnt64 n < 64" "bit n (tzcnt64 n)" by (simp_all only: tzcnt64_def)
  show "\<not> bit n i" if "i < tzcnt64 n" for i
    using takeWhile_upt(1) [where P = "bit n"] that unfolding tzcnt64_def .
qed

lemma tzcnt64_0: "tzcnt64 0 = 64"
  by (simp add: tzcnt64_def takeWhile_eq_all_conv [THEN iffD2])

text \<open>The loops over set bits clear the lowest one each time.\<close>

definition set_bits :: "u64 \<Rightarrow> nat list" where
  "set_bits n = filter (bit n) [0..<64]"

lemma set_set_bits: "set (set_bits n) = {i. bit n i}"
  unfolding set_bits_def set_filter set_upt by (auto dest: bit64_imp_lt)

lemma set_bits_0 [simp]: "set_bits 0 = []"
  unfolding set_bits_def by (rule filter_False) (intro ballI, simp)

lemma filter_split_at:
  assumes "t < m" "P t" "\<And>i. i < t \<Longrightarrow> \<not> P i"
  shows "filter P [0..<m] = t # filter (\<lambda>i. P i \<and> i \<noteq> t) [0..<m]"
proof -
  have s: "[0..<m] = [0..<t] @ t # [Suc t..<m]"
    using assms(1) by (metis less_imp_le_nat upt_add_eq_append upt_conv_Cons le_add_diff_inverse zero_le)
  have "filter P [0..<t] = []" "filter (\<lambda>i. P i \<and> i \<noteq> t) [0..<t] = []"
    using assms(3) by (auto simp: filter_empty_conv)
  moreover have "filter (\<lambda>i. P i \<and> i \<noteq> t) [Suc t..<m] = filter P [Suc t..<m]"
    by (rule filter_cong) auto
  ultimately show ?thesis using assms(2) by (simp add: s)
qed

lemma set_bits_clear_lowest:
  assumes "n \<noteq> 0"
  shows "set_bits n = tzcnt64 n # set_bits (n AND NOT (push_bit (tzcnt64 n) 1))"
proof -
  have "set_bits n = tzcnt64 n # filter (\<lambda>i. bit n i \<and> i \<noteq> tzcnt64 n) [0..<64]"
    unfolding set_bits_def
    by (rule filter_split_at) (use tzcnt64_spec [OF assms] in auto)
  also have "filter (\<lambda>i. bit n i \<and> i \<noteq> tzcnt64 n) [0..<64]
      = set_bits (n AND NOT (push_bit (tzcnt64 n) 1))"
    unfolding set_bits_def by (rule filter_cong) (auto simp: bit_simps)
  finally show ?thesis .
qed

subsection \<open>Slots\<close>

definition kLane :: nat where "kLane = 64"
definition kParity :: nat where "kParity = 4"
definition kParityLane :: nat where "kParityLane = kParity * kLane"

lemmas lane_consts [simp] = kLane_def kParity_def kParityLane_def

definition PARITY :: "u64 \<Rightarrow> nat" where
  "PARITY i = unat (drop_bit 6 i) mod kParity"

definition LANE :: "u64 \<Rightarrow> nat" where
  "LANE i = unat (i AND 63)"

definition slot :: "u64 \<Rightarrow> nat" where
  "slot i = PARITY i * kLane + LANE i"

lemma LANE_mod: "LANE i = unat i mod 64"
proof -
  have "i AND 63 = take_bit 6 i"
    by (simp add: take_bit_eq_mask mask_eq_exp_minus_1)
  moreover have "unat (take_bit 6 i) = unat i mod 64"
    unfolding unsigned_take_bit_eq by (simp add: take_bit_eq_mod)
  ultimately show ?thesis by (simp only: LANE_def)
qed

lemma PARITY_div: "PARITY i = unat i div 64 mod 4"
proof -
  have "unat (drop_bit 6 i) = unat i div 64"
    unfolding unat_drop_bit_eq by (simp add: drop_bit_eq_div)
  then show ?thesis by (simp add: PARITY_def)
qed

lemma slot_mod: "slot i = unat i mod 256"
proof -
  have "unat i mod 256 = 64 * (unat i div 64 mod 4) + unat i mod 64"
    using mod_mult2_eq [of "unat i" 64 4] by simp
  then show ?thesis by (simp add: slot_def LANE_mod PARITY_div)
qed

lemma slot_bounds: "PARITY i < 4" "LANE i < 64" "slot i < 256"
  by (simp_all add: LANE_mod PARITY_div slot_mod)

subsection \<open>The fence set\<close>

text \<open>\<open>storage_\<close> as the list of its four words.\<close>

type_synonym fence_set = "u64 list"

definition fs_ok :: "fence_set \<Rightarrow> bool" where
  "fs_ok s \<longleftrightarrow> length s = kParity"

definition fs_empty :: fence_set where
  "fs_empty = replicate kParity 0"

definition kAllLaneMask :: u64 where
  "kAllLaneMask = drop_bit (64 - kLane) (NOT 0)"

definition fs_set :: "u64 \<Rightarrow> fence_set \<Rightarrow> fence_set" where
  "fs_set i s = s[PARITY i := s ! PARITY i OR push_bit (LANE i) 1]"

definition fs_unset :: "u64 \<Rightarrow> fence_set \<Rightarrow> fence_set" where
  "fs_unset i s = s[PARITY i := s ! PARITY i AND (kAllLaneMask AND NOT (push_bit (LANE i) 1))]"

definition fs_singleton :: "u64 \<Rightarrow> fence_set" where
  "fs_singleton i = fs_set i fs_empty"

text \<open>\<open>fillGenerationBefore\<close>: the 64 ids that end one generation before the slot.\<close>

definition fs_fillGenerationBefore :: "nat \<Rightarrow> nat \<Rightarrow> fence_set \<Rightarrow> fence_set" where
  "fs_fillGenerationBefore parity lane s =
     (let idx = (parity + kParity + (kParity - 1)) * kLane + lane
      in fold (\<lambda>offset. fs_set (of_nat (idx - offset))) [0..<kLane] s)"

definition fs_test :: "fence_set \<Rightarrow> u64 \<Rightarrow> bool" where
  "fs_test s i \<longleftrightarrow> s ! PARITY i AND push_bit (LANE i) 1 \<noteq> 0"

definition fs_testAndSet :: "fence_set \<Rightarrow> u64 \<Rightarrow> bool \<times> fence_set" where
  "fs_testAndSet s i =
     (let P = PARITY i; LM = push_bit (LANE i) 1
      in if s ! P AND LM \<noteq> 0 then (True, s) else (False, s[P := s ! P OR LM]))"

definition fs_intersectedWith :: "fence_set \<Rightarrow> fence_set \<Rightarrow> bool" where
  "fs_intersectedWith s t \<longleftrightarrow> list_ex (\<lambda>i. s ! i AND t ! i \<noteq> 0) [0..<kParity]"

definition fs_contains :: "fence_set \<Rightarrow> fence_set \<Rightarrow> bool" where
  "fs_contains s t \<longleftrightarrow> \<not> list_ex (\<lambda>i. s ! i AND t ! i \<noteq> t ! i) [0..<kParity]"

definition fs_merge :: "fence_set \<Rightarrow> fence_set \<Rightarrow> fence_set" where
  "fs_merge s t = map (\<lambda>i. s ! i OR t ! i) [0..<kParity]"

definition fs_unionOf :: "fence_set \<Rightarrow> fence_set \<Rightarrow> fence_set" where
  "fs_unionOf s t = map (\<lambda>i. s ! i OR t ! i) [0..<kParity]"

definition fs_subtract :: "fence_set \<Rightarrow> fence_set \<Rightarrow> fence_set" where
  "fs_subtract s t = map (\<lambda>i. s ! i AND (kAllLaneMask AND NOT (t ! i))) [0..<kParity]"

definition fs_mergeWithLaneMaskOff :: "fence_set \<Rightarrow> fence_set \<Rightarrow> u64 \<Rightarrow> fence_set" where
  "fs_mergeWithLaneMaskOff s t lanes =
     map (\<lambda>i. s ! i OR (t ! i AND (kAllLaneMask AND NOT lanes))) [0..<kParity]"

definition fs_laneMask :: "fence_set \<Rightarrow> u64" where
  "fs_laneMask s = fold (\<lambda>i ret. ret OR s ! i) [0..<kParity] 0"

definition fs_is_empty :: "fence_set \<Rightarrow> bool" where
  "fs_is_empty s \<longleftrightarrow> fs_laneMask s = 0"

text \<open>The calls \<open>forEach\<close> makes, in order.\<close>

function for_lanes :: "nat \<Rightarrow> u64 \<Rightarrow> nat list" where
  "for_lanes P lanes =
     (if lanes = 0 then []
      else (let lane = tzcnt64 lanes
            in (P * kLane + lane) # for_lanes P (lanes AND NOT (push_bit lane 1))))"
  by pat_completeness auto
termination
  by (relation "measure (\<lambda>(P, lanes). length (set_bits lanes))")
    (auto simp: set_bits_clear_lowest)

definition fs_forEach :: "fence_set \<Rightarrow> nat list" where
  "fs_forEach s = concat (map (\<lambda>P. for_lanes P (s ! P)) [0..<kParity])"

text \<open>The two-set \<open>forEach\<close>: each call is tagged with whether \<open>fnPrior\<close> is the one called.\<close>

function for_lanes_prior :: "nat \<Rightarrow> u64 \<Rightarrow> u64 \<Rightarrow> (bool \<times> nat) list" where
  "for_lanes_prior P lanes lanes_prior =
     (if lanes OR lanes_prior = 0 then []
      else (let lane = tzcnt64 (lanes OR lanes_prior)
            in (lanes_prior AND push_bit lane 1 \<noteq> 0, P * kLane + lane)
               # for_lanes_prior P (lanes AND NOT (push_bit lane 1))
                                   (lanes_prior AND NOT (push_bit lane 1))))"
  by pat_completeness auto
termination
proof (relation "measure (\<lambda>(P, lanes, prior). length (set_bits (lanes OR prior)))")
  show "wf (measure (\<lambda>(P, lanes, prior). length (set_bits (lanes OR prior))))"
    by simp
  show "((P, lanes AND NOT (push_bit x 1), prior AND NOT (push_bit x 1)), P, lanes, prior)
      \<in> measure (\<lambda>(P, lanes, prior). length (set_bits (lanes OR prior)))"
    if "lanes OR prior \<noteq> 0" "x = tzcnt64 (lanes OR prior)" for P lanes prior x
    using that set_bits_clear_lowest [of "lanes OR prior"] by (simp add: bit.conj_disj_distrib2)
qed

definition fs_forEach_prior :: "fence_set \<Rightarrow> fence_set \<Rightarrow> (bool \<times> nat) list" where
  "fs_forEach_prior s prior =
     concat (map (\<lambda>P. for_lanes_prior P (s ! P) (prior ! P)) [0..<kParity])"

declare for_lanes.simps [simp del] for_lanes_prior.simps [simp del]

subsection \<open>Abstraction\<close>

definition fences :: "fence_set \<Rightarrow> nat set" where
  "fences s = {n. n < kParityLane \<and> bit (s ! (n div kLane)) (n mod kLane)}"

text \<open>A slot is a pair of a word index and a bit index.\<close>

lemma slot_pair:
  assumes "P < 4" "L < 64" "P' < 4" "L' < (64 :: nat)"
  shows "P * 64 + L = P' * 64 + L' \<longleftrightarrow> P = P' \<and> L = L'"
proof -
  have d: "(Q * 64 + M) div 64 = Q" if "M < 64" for Q M :: nat
    using that by simp
  show ?thesis using d [OF assms(2), of P] d [OF assms(4), of P'] by (metis add_left_cancel)
qed

lemma slot_split: "n = n div 64 * 64 + n mod (64 :: nat)"
  by simp

lemma in_fences: "n < 256 \<Longrightarrow> n \<in> fences s \<longleftrightarrow> bit (s ! (n div 64)) (n mod 64)"
  by (simp add: fences_def)

lemma fencesI: "P < 4 \<Longrightarrow> L < 64 \<Longrightarrow> P * 64 + L \<in> fences s \<longleftrightarrow> bit (s ! P) L"
  by (auto simp: fences_def)

lemma fences_eqI:
  assumes "\<And>P L. P < 4 \<Longrightarrow> L < 64 \<Longrightarrow> bit (s ! P) L \<longleftrightarrow> P * 64 + L \<in> A"
    and "\<And>n. n \<in> A \<Longrightarrow> n < 256"
  shows "fences s = A"
proof (rule set_eqI)
  fix n
  show "n \<in> fences s \<longleftrightarrow> n \<in> A"
  proof (cases "n < 256")
    case True
    then have "bit (s ! (n div 64)) (n mod 64) \<longleftrightarrow> n div 64 * 64 + n mod 64 \<in> A"
      by (intro assms(1)) auto
    with True show ?thesis by (simp add: in_fences)
  next
    case False
    then show ?thesis using assms(2) by (auto simp: fences_def)
  qed
qed

lemma fences_bound: "n \<in> fences s \<Longrightarrow> n < 256"
  by (simp add: fences_def)

lemma kAllLaneMask_eq [simp]: "kAllLaneMask = -1"
  by (simp add: kAllLaneMask_def)

lemma slot_eq_pair: "P < 4 \<Longrightarrow> L < 64 \<Longrightarrow> P * 64 + L = slot i \<longleftrightarrow> P = PARITY i \<and> L = LANE i"
  using slot_pair [of P L "PARITY i" "LANE i"] slot_bounds by (simp add: slot_def)

named_theorems fence_simps \<comment> \<open>the operations read as set operations on slots\<close>

lemma fences_empty [fence_simps]: "fences fs_empty = {}"
  by (rule fences_eqI) (auto simp: fs_empty_def)

lemma fences_set [fence_simps]: "fs_ok s \<Longrightarrow> fences (fs_set i s) = insert (slot i) (fences s)"
proof (rule fences_eqI)
  fix P L :: nat
  assume "fs_ok s" "P < 4" "L < 64"
  then show "bit (fs_set i s ! P) L \<longleftrightarrow> P * 64 + L \<in> insert (slot i) (fences s)"
    using slot_bounds [of i]
    by (auto simp: fs_set_def fs_ok_def fencesI slot_eq_pair nth_list_update bit_simps)
qed (auto dest: fences_bound simp: slot_bounds)

lemma fences_unset [fence_simps]: "fs_ok s \<Longrightarrow> fences (fs_unset i s) = fences s - {slot i}"
proof (rule fences_eqI)
  fix P L :: nat
  assume "fs_ok s" "P < 4" "L < 64"
  then show "bit (fs_unset i s ! P) L \<longleftrightarrow> P * 64 + L \<in> fences s - {slot i}"
    using slot_bounds [of i]
    by (auto simp: fs_unset_def fs_ok_def fencesI slot_eq_pair nth_list_update bit_simps)
qed (auto dest: fences_bound)

lemma and_exp_eq_0 [simp]: "(w :: u64) AND 2 ^ L = 0 \<longleftrightarrow> \<not> bit w L"
proof -
  have "w AND 2 ^ L \<noteq> 0 \<longleftrightarrow> (\<exists>n. bit (w AND 2 ^ L) n)"
    by (metis bit_0_eq bit_eqI bot_apply bot_bool_def)
  also have "\<dots> \<longleftrightarrow> bit w L"
    using bit64_imp_lt by (auto simp: bit_simps)
  finally show ?thesis by blast
qed

lemma fences_test [fence_simps]: "fs_test s i \<longleftrightarrow> slot i \<in> fences s"
  using slot_bounds [of i] by (simp add: fs_test_def slot_def fencesI)

lemma fences_testAndSet [fence_simps]:
  "fs_ok s \<Longrightarrow> fs_testAndSet s i = (slot i \<in> fences s, if slot i \<in> fences s then s else fs_set i s)"
  using fences_test [of s i] unfolding fs_testAndSet_def Let_def fs_test_def fs_set_def
  by (simp only: if_True if_False split: if_split) blast

lemma nth_map_4: "i < 4 \<Longrightarrow> map f [0..<kParity] ! i = f i"
  unfolding kParity_def by (simp only: nth_map_upt add_0 diff_zero length_upt)

lemma fences_merge [fence_simps]: "fences (fs_merge s t) = fences s \<union> fences t"
  by (rule fences_eqI)
    (auto simp: fs_merge_def nth_map_4 fencesI bit_simps dest: fences_bound simp del: kParity_def)

lemma fences_unionOf [fence_simps]: "fences (fs_unionOf s t) = fences s \<union> fences t"
  by (rule fences_eqI)
    (auto simp: fs_unionOf_def nth_map_4 fencesI bit_simps dest: fences_bound simp del: kParity_def)

lemma fences_subtract [fence_simps]: "fences (fs_subtract s t) = fences s - fences t"
  by (rule fences_eqI)
    (auto simp: fs_subtract_def nth_map_4 fencesI bit_simps dest: fences_bound simp del: kParity_def)

lemma fences_mergeWithLaneMaskOff [fence_simps]:
  "fences (fs_mergeWithLaneMaskOff s t lanes) = fences s \<union> {n \<in> fences t. \<not> bit lanes (n mod 64)}"
  by (rule fences_eqI)
    (auto simp: fs_mergeWithLaneMaskOff_def nth_map_4 fencesI bit_simps dest: fences_bound
      simp del: kParity_def)

lemma bit_fs_laneMask: "bit (fs_laneMask s) L \<longleftrightarrow> (\<exists>n \<in> fences s. n mod 64 = L)"
proof -
  have f: "bit (fold (\<lambda>i ret. ret OR s ! i) ps r) L \<longleftrightarrow> bit r L \<or> (\<exists>i \<in> set ps. bit (s ! i) L)" for ps r
    by (induction ps arbitrary: r) (auto simp: bit_simps)
  have "bit (fs_laneMask s) L \<longleftrightarrow> (\<exists>P < 4. bit (s ! P) L)"
    unfolding fs_laneMask_def f kParity_def by auto
  also have "\<dots> \<longleftrightarrow> (\<exists>n \<in> fences s. n mod 64 = L)"
  proof
    assume "\<exists>P < 4. bit (s ! P) L"
    then obtain P where P: "P < 4" "bit (s ! P) L" by auto
    then have "P * 64 + L \<in> fences s" "L < 64" using bit64_imp_lt by (auto simp: fencesI)
    then show "\<exists>n \<in> fences s. n mod 64 = L" by (intro bexI [of _ "P * 64 + L"]) auto
  next
    assume "\<exists>n \<in> fences s. n mod 64 = L"
    then obtain n where "n < 256" "bit (s ! (n div 64)) (n mod 64)" "n mod 64 = L"
      by (auto simp: fences_def)
    then show "\<exists>P < 4. bit (s ! P) L" by (intro exI [of _ "n div 64"]) auto
  qed
  finally show ?thesis .
qed

lemma fences_is_empty [fence_simps]: "fs_is_empty s \<longleftrightarrow> fences s = {}"
proof -
  have "fs_laneMask s = 0 \<longleftrightarrow> (\<forall>L. \<not> bit (fs_laneMask s) L)"
    by (metis bit_0_eq bit_eqI bot_apply bot_bool_def)
  then show ?thesis by (auto simp: fs_is_empty_def bit_fs_laneMask)
qed

lemma fences_word_ball: "(\<forall>P < 4. s ! P = t ! P) \<longleftrightarrow> fences s = fences t"
proof
  show "fences s = fences t" if "\<forall>P < 4. s ! P = t ! P"
    using that by (intro fences_eqI) (auto simp: fencesI dest: fences_bound)
  show "\<forall>P < 4. s ! P = t ! P" if eq: "fences s = fences t"
  proof (intro allI impI)
    fix P :: nat assume P: "P < 4"
    show "s ! P = t ! P"
    proof (rule bit_word_eqI)
      fix L assume "L < LENGTH(64)"
      then show "bit (s ! P) L \<longleftrightarrow> bit (t ! P) L"
        using fencesI [of P L s] fencesI [of P L t] P eq by simp
    qed
  qed
qed

lemma list_ex_4: "list_ex Q [0..<kParity] \<longleftrightarrow> (\<exists>P < 4. Q P)"
  by (auto simp: list_ex_iff simp del: kParity_def) (auto simp: kParity_def)

lemma fences_contains [fence_simps]: "fs_contains s t \<longleftrightarrow> fences t \<subseteq> fences s"
proof -
  have "fs_contains s t \<longleftrightarrow> (\<forall>P < 4. map (\<lambda>i. s ! i AND t ! i) [0..<kParity] ! P = t ! P)"
    by (auto simp: fs_contains_def list_ex_4 nth_map_4 simp del: kParity_def)
  also have "\<dots> \<longleftrightarrow> fences (map (\<lambda>i. s ! i AND t ! i) [0..<kParity]) = fences t"
    by (rule fences_word_ball)
  also have "fences (map (\<lambda>i. s ! i AND t ! i) [0..<kParity]) = fences s \<inter> fences t"
    by (rule fences_eqI)
      (auto simp: nth_map_4 fencesI bit_simps dest: fences_bound simp del: kParity_def)
  finally show ?thesis by blast
qed

lemma fences_intersectedWith [fence_simps]:
  "fs_intersectedWith s t \<longleftrightarrow> fences s \<inter> fences t \<noteq> {}"
proof -
  let ?m = "map (\<lambda>i. s ! i AND t ! i) [0..<kParity]"
  have "\<not> fs_intersectedWith s t \<longleftrightarrow> (\<forall>P < 4. ?m ! P = fs_empty ! P)"
    by (auto simp: fs_intersectedWith_def list_ex_4 nth_map_4 simp del: kParity_def)
      (auto simp: fs_empty_def)
  also have "\<dots> \<longleftrightarrow> fences ?m = {}" by (simp only: fences_word_ball fences_empty)
  also have "fences ?m = fences s \<inter> fences t"
    by (rule fences_eqI)
      (auto simp: nth_map_4 fencesI bit_simps dest: fences_bound simp del: kParity_def)
  finally show ?thesis by blast
qed

text \<open>Every operation yields four words.\<close>

lemma fs_ok_ops [simp]:
  "fs_ok fs_empty" "fs_ok s \<Longrightarrow> fs_ok (fs_set i s)" "fs_ok s \<Longrightarrow> fs_ok (fs_unset i s)"
  "fs_ok (fs_merge s t)" "fs_ok (fs_unionOf s t)" "fs_ok (fs_subtract s t)"
  "fs_ok (fs_mergeWithLaneMaskOff s t m)" "fs_ok (fs_singleton i)"
  by (simp_all add: fs_ok_def fs_empty_def fs_set_def fs_unset_def fs_merge_def fs_unionOf_def
      fs_subtract_def fs_mergeWithLaneMaskOff_def fs_singleton_def)

lemma for_lanes_eq: "for_lanes P lanes = map (\<lambda>l. P * kLane + l) (set_bits lanes)"
  by (induction P lanes rule: for_lanes.induct)
    (subst for_lanes.simps, auto simp: Let_def set_bits_clear_lowest simp del: kLane_def)

lemma for_lanes_prior_eq:
  "for_lanes_prior P lanes prior = map (\<lambda>l. (bit prior l, P * kLane + l)) (set_bits (lanes OR prior))"
proof (induction P lanes prior rule: for_lanes_prior.induct)
  case (1 P lanes prior)
  show ?case
  proof (cases "lanes OR prior = 0")
    case True
    then show ?thesis by (subst for_lanes_prior.simps) simp
  next
    case False
    let ?l = "tzcnt64 (lanes OR prior)"
    let ?c = "\<lambda>w. w AND NOT (push_bit ?l (1 :: u64))"
    have split: "?c lanes OR ?c prior = ?c (lanes OR prior)" by (rule bit.conj_disj_distrib2 [symmetric])
    have tail: "map (\<lambda>l. (bit (?c prior) l, P * kLane + l)) (set_bits (?c (lanes OR prior)))
        = map (\<lambda>l. (bit prior l, P * kLane + l)) (set_bits (?c (lanes OR prior)))"
      by (rule map_cong) (auto simp: set_set_bits bit_simps)
    have "for_lanes_prior P lanes prior = (prior AND push_bit ?l 1 \<noteq> 0, P * kLane + ?l)
        # for_lanes_prior P (?c lanes) (?c prior)"
      using False by (subst for_lanes_prior.simps) (simp add: Let_def)
    also have "\<dots> = (bit prior ?l, P * kLane + ?l)
        # map (\<lambda>l. (bit prior l, P * kLane + l)) (set_bits (?c (lanes OR prior)))"
      using tail "1.IH" [OF False refl] by (simp only: split) simp
    also have "\<dots> = map (\<lambda>l. (bit prior l, P * kLane + l)) (set_bits (lanes OR prior))"
      unfolding set_bits_clear_lowest [OF False] by simp
    finally show ?thesis .
  qed
qed

subsection \<open>The interface\<close>

text \<open>What the dependency trackers rely on: a set of slots grown one id at a time.\<close>

locale slot_set =
  fixes elems :: "'s \<Rightarrow> nat set"
    and ok :: "'s \<Rightarrow> bool"
    and none :: 's
    and add :: "'i \<Rightarrow> 's \<Rightarrow> 's"
    and mem :: "'s \<Rightarrow> 'i \<Rightarrow> bool"
    and slot_of :: "'i \<Rightarrow> nat"
  assumes ok_none: "ok none" and elems_none: "elems none = {}"
    and ok_add: "ok s \<Longrightarrow> ok (add i s)"
    and elems_add: "ok s \<Longrightarrow> elems (add i s) = insert (slot_of i) (elems s)"
    and mem_iff: "ok s \<Longrightarrow> mem s i \<longleftrightarrow> slot_of i \<in> elems s"
begin

lemma ok_fold_add: "ok s \<Longrightarrow> ok (fold add is s)"
  by (induction "is" arbitrary: s) (auto intro: ok_add)

lemma elems_fold_add: "ok s \<Longrightarrow> elems (fold add is s) = slot_of ` set is \<union> elems s"
  by (induction "is" arbitrary: s) (auto simp: ok_add elems_add)

lemma mem_fold_add: "mem (fold add is none) i \<longleftrightarrow> slot_of i \<in> slot_of ` set is"
  by (simp add: mem_iff ok_fold_add ok_none elems_fold_add elems_none)

end

interpretation fence_slots: slot_set fences fs_ok fs_empty fs_set fs_test slot
  by unfold_locales (simp_all add: fence_simps)

subsection \<open>The weak fence mask\<close>

definition weak_fence_mask :: "u64 \<Rightarrow> fence_set" where
  "weak_fence_mask i = fs_fillGenerationBefore (unat i mod kParityLane div kLane)
                         (unat i mod kParityLane mod kLane) fs_empty"

text \<open>It holds the slots of the 64 ids from 64 to 127 before an encoder.\<close>

lemma fs_ok_weak [simp]: "fs_ok (weak_fence_mask i)"
  unfolding weak_fence_mask_def fs_fillGenerationBefore_def Let_def
  using fence_slots.ok_fold_add [of fs_empty "map (\<lambda>k. of_nat (_ - k)) [0..<kLane]"]
  by (simp add: fold_map comp_def del: kLane_def)

lemma unat_of_nat_small: "n < 2 ^ 64 \<Longrightarrow> unat (of_nat n :: u64) = n"
  by (simp add: unat_of_nat take_bit_eq_mod)

lemma fences_weak: "fences (weak_fence_mask i) = (\<lambda>k. (unat i + 192 - k) mod 256) ` {..<64}"
proof -
  let ?s = "unat i mod 256"
  let ?idx = "(?s div 64 + 4 + 3) * 64 + ?s mod 64"
  let ?ids = "map (\<lambda>k. of_nat (?idx - k) :: u64) [0..<kLane]"
  have idx: "?idx = ?s + 448" by simp
  have "fences (weak_fence_mask i) = fences (fold fs_set ?ids fs_empty)"
    unfolding weak_fence_mask_def fs_fillGenerationBefore_def Let_def fold_map comp_def by simp
  also have "\<dots> = slot ` set ?ids"
    by (simp add: fence_slots.elems_fold_add fence_simps del: set_map kLane_def)
  also have "\<dots> = (\<lambda>k. (unat i + 192 - k) mod 256) ` {..<64}"
  proof -
    have "slot (of_nat (?idx - k)) = (unat i + 192 - k) mod 256" if "k < 64" for k
    proof -
      have "unat (of_nat (?idx - k) :: u64) = ?s + 448 - k"
        unfolding idx using pos_mod_bound by (intro unat_of_nat_small) (auto intro: le_less_trans [of _ "?s + 448"])
      moreover have "(?s + 448 - k) mod 256 = (unat i + 192 - k) mod 256"
      proof -
        have "?s + 448 - k = ?s + (192 - k) + 256" using that by simp
        then have "(?s + 448 - k) mod 256 = (?s + (192 - k)) mod 256" by (metis mod_add_self2)
        also have "\<dots> = (unat i + (192 - k)) mod 256" by (simp add: mod_simps)
        finally show ?thesis using that by simp
      qed
      ultimately show ?thesis by (simp add: slot_mod)
    qed
    moreover have "set ?ids = (\<lambda>k. of_nat (?idx - k)) ` {..<64}"
      by (simp add: atLeast0LessThan)
    ultimately show ?thesis by (auto simp: image_image)
  qed
  finally show ?thesis .
qed

subsection \<open>Properties\<close>

text \<open>Every \<open>FenceSet\<close> operation is the set operation it stands for, on slots (encoder ids
  modulo 256): set, unset, test, test-and-set, merge, union, subtract, masked merge,
  intersection and containment tests, emptiness.\<close>

theorem fence_set_operations:
  assumes "fs_ok s"
  shows "(fences (fs_set i s) = insert (slot i) (fences s))
     \<and> (fences (fs_unset i s) = fences s - {slot i})
     \<and> (fs_test s i \<longleftrightarrow> slot i \<in> fences s)
     \<and> (fst (fs_testAndSet s i) \<longleftrightarrow> slot i \<in> fences s)
     \<and> (fences (snd (fs_testAndSet s i)) = insert (slot i) (fences s))
     \<and> (fences (fs_merge s t) = fences s \<union> fences t)
     \<and> (fences (fs_unionOf s t) = fences s \<union> fences t)
     \<and> (fences (fs_subtract s t) = fences s - fences t)
     \<and> (fences (fs_mergeWithLaneMaskOff s t lanes) = fences s \<union> {n \<in> fences t. \<not> bit lanes (n mod 64)})
     \<and> (fs_intersectedWith s t \<longleftrightarrow> fences s \<inter> fences t \<noteq> {})
     \<and> (fs_contains s t \<longleftrightarrow> fences t \<subseteq> fences s)
     \<and> (fs_is_empty s \<longleftrightarrow> fences s = {})
     \<and> (slot i = unat i mod 256)"
  using assms by (auto simp: fence_simps slot_mod)

lemma fence_set_operations_witness:
  "fences (snd (fs_testAndSet fs_empty 300)) = insert (slot 300) (fences fs_empty)"
  using fence_set_operations [of fs_empty 300] by simp

text \<open>\<open>forEach\<close> calls its function once per member, in ascending slot order; the two-set form
  visits the members of either set once, and picks \<open>fnPrior\<close> exactly for those of the prior set.\<close>

theorem fence_set_forEach:
  "fs_forEach s = filter (\<lambda>n. n \<in> fences s) [0..<kParityLane]
   \<and> fs_forEach_prior s prior
     = map (\<lambda>n. (n \<in> fences prior, n)) (filter (\<lambda>n. n \<in> fences s \<union> fences prior) [0..<kParityLane])"
proof -
  have upt: "[0..<kParityLane] = concat (map (\<lambda>P. map (\<lambda>l. P * kLane + l) [0..<kLane]) [0..<kParity])"
    by (simp add: upt_rec)
  have bits: "filter (\<lambda>l. P * kLane + l \<in> fences t) [0..<kLane] = set_bits (t ! P)"
    if "P < 4" for P t
    unfolding set_bits_def kLane_def using that by (intro filter_cong) (auto simp: fencesI)
  have "map (\<lambda>P. for_lanes P (s ! P)) [0..<kParity]
      = map (\<lambda>P. filter (\<lambda>n. n \<in> fences s) (map (\<lambda>l. P * kLane + l) [0..<kLane])) [0..<kParity]"
    unfolding filter_map comp_def for_lanes_eq kParity_def by (rule map_cong) (simp_all only: bits set_upt atLeastLessThan_iff)
  then have one: "fs_forEach s = filter (\<lambda>n. n \<in> fences s) [0..<kParityLane]"
    unfolding fs_forEach_def upt filter_concat map_map comp_def by (simp only:)
  let ?Q = "\<lambda>n. n \<in> fences s \<union> fences prior"
  have either: "filter (\<lambda>l. ?Q (P * kLane + l)) [0..<kLane] = set_bits (s ! P OR prior ! P)"
    if "P < 4" for P
    unfolding set_bits_def kLane_def using that by (intro filter_cong) (auto simp: fencesI bit_simps)
  have "for_lanes_prior P (s ! P) (prior ! P)
      = map (\<lambda>n. (n \<in> fences prior, n)) (filter ?Q (map (\<lambda>l. P * kLane + l) [0..<kLane]))"
    if "P < 4" for P
    unfolding filter_map comp_def either [OF that] for_lanes_prior_eq map_map
    using that by (intro map_cong) (auto simp: fencesI set_set_bits dest: bit64_imp_lt)
  then have "map (\<lambda>P. for_lanes_prior P (s ! P) (prior ! P)) [0..<kParity]
      = map (\<lambda>P. map (\<lambda>n. (n \<in> fences prior, n)) (filter ?Q (map (\<lambda>l. P * kLane + l) [0..<kLane])))
          [0..<kParity]"
    unfolding kParity_def by (intro map_cong) (simp_all only: set_upt atLeastLessThan_iff)
  then have "fs_forEach_prior s prior
     = map (\<lambda>n. (n \<in> fences prior, n)) (filter ?Q [0..<kParityLane])"
    unfolding fs_forEach_prior_def upt filter_concat map_concat map_map comp_def by (simp only:)
  with one show ?thesis by blast
qed

end
