(* ===== verification/FenceLocality.thy ===== *)
theory FenceLocality
  imports FenceSet
begin

text \<open>
  Simplification of fence waits: \<open>FenceLocalityCheck\<close> of src/src/dxmt/dxmt_deptrack.cpp. An
  encoder must wait for its strong fences (the hazards found for its resources, less than 64
  encoders back) and for a weak fence per lane of the previous generation. Waits already implied
  by the waits of an encoder one waits for are left out; \<open>summary_\<close> holds the full set of each of
  the last 256 encoders.

  The main results, for a queue that encodes consecutive ids: every full wait is implied by the
  minimal waits, followed transitively; and any two encoders 64 or more apart are ordered.
\<close>

subsection \<open>The operation\<close>

definition full_fences :: "fence_set \<Rightarrow> u64 \<Rightarrow> fence_set" where
  "full_fences strong i = fs_mergeWithLaneMaskOff strong (weak_fence_mask i) (fs_laneMask strong)"

definition visit_fence :: "fence_set \<Rightarrow> u64 \<Rightarrow> fence_set \<Rightarrow> fence_set \<Rightarrow> fence_set \<times> fence_set" where
  "visit_fence full prev minimal accessible =
     (if fs_test full prev then
        (case fs_testAndSet accessible prev of
           (True, accessible') \<Rightarrow> (minimal, accessible')
         | (False, accessible') \<Rightarrow> (fs_set prev minimal, accessible'))
      else (minimal, accessible))"

fun simplify_loop :: "fence_set list \<Rightarrow> u64 \<Rightarrow> fence_set \<Rightarrow> nat list \<Rightarrow> fence_set \<Rightarrow> fence_set \<Rightarrow> fence_set" where
  "simplify_loop summary i full [] minimal accessible = minimal"
| "simplify_loop summary i full (offset # offsets) minimal accessible =
     (let prev = i - of_nat offset;
          (minimal', accessible1) = visit_fence full prev minimal accessible;
          accessible2 = (if fs_test accessible1 prev
                         then fs_merge accessible1 (summary ! (unat prev mod kParityLane))
                         else accessible1)
      in if fs_contains accessible2 full then minimal'
         else simplify_loop summary i full offsets minimal' accessible2)"

definition collectAndSimplifyWaits ::
  "fence_set list \<Rightarrow> fence_set \<Rightarrow> u64 \<Rightarrow> bool \<Rightarrow> fence_set \<times> fence_set list"
where
  "collectAndSimplifyWaits summary strong i implicit_pre_raster_wait =
     (let strong' = (if implicit_pre_raster_wait then fs_set (i - 1) strong else strong);
          full = full_fences strong' i;
          minimal = simplify_loop summary i full [1..<kParityLane] fs_empty fs_empty
      in (if implicit_pre_raster_wait then fs_unset (i - 1) minimal else minimal,
          summary[unat i mod kParityLane := full]))"

subsection \<open>Slots as encoders\<close>

text \<open>The encoders a set of slots stands for, seen from encoder \<open>i\<close>: those of the last 255.\<close>

definition dec :: "nat \<Rightarrow> nat set \<Rightarrow> nat set" where
  "dec i A = {j. j < i \<and> i < j + 256 \<and> j mod 256 \<in> A}"

lemma slot_inj: "i < j + 256 \<Longrightarrow> j < i \<Longrightarrow> i < j' + 256 \<Longrightarrow> j' < i \<Longrightarrow> j mod 256 = j' mod 256 \<Longrightarrow> j = (j' :: nat)"
proof -
  have aux: "a = b" if "a mod 256 = b mod 256" "a \<le> b" "b < a + 256" for a b :: nat
  proof -
    have "256 dvd b - a" using mod_eq_dvd_iff_nat [of a b 256] that by (simp add: eq_commute)
    moreover have "b - a < 256" using that by simp
    ultimately have "b - a = 0" using nat_dvd_not_less by blast
    then show ?thesis using that by simp
  qed
  show "i < j + 256 \<Longrightarrow> j < i \<Longrightarrow> i < j' + 256 \<Longrightarrow> j' < i \<Longrightarrow> j mod 256 = j' mod 256 \<Longrightarrow> j = j'"
    using aux [of j j'] aux [of j' j] by (cases "j \<le> j'") auto
qed

lemma dec_simps:
  "dec i {} = {}" "dec i (A \<union> B) = dec i A \<union> dec i B"
  "j < i \<Longrightarrow> i < j + 256 \<Longrightarrow> dec i (insert (j mod 256) A) = insert j (dec i A)"
  "j < i \<Longrightarrow> i < j + 256 \<Longrightarrow> dec i (A - {j mod 256}) = dec i A - {j}"
  by (auto simp: dec_def intro: slot_inj)

lemma dec_mono: "A \<subseteq> B \<Longrightarrow> dec i A \<subseteq> dec i B"
  by (auto simp: dec_def)

lemma mod_in_iff_dec: "j < i \<Longrightarrow> i < j + 256 \<Longrightarrow> j mod 256 \<in> A \<longleftrightarrow> j \<in> dec i A"
  by (auto simp: dec_def)

lemma prev_slot:
  assumes "256 \<le> unat i" "0 < k" "k < 256"
  shows "unat (i - of_nat k :: u64) = unat i - k" "slot (i - of_nat k) = (unat i - k) mod 256"
proof -
  have k: "unat (of_nat k :: u64) = k" using assms(3) by (intro unat_of_nat_small) simp
  show *: "unat (i - of_nat k) = unat i - k"
    using assms by (subst unat_sub_nowrap) (simp_all add: word_le_nat_alt k)
  then show "slot (i - of_nat k) = (unat i - k) mod 256" by (simp add: slot_mod)
qed

text \<open>\<open>near d i A\<close>: the slots name encoders at most \<open>d\<close> back only.\<close>

definition near :: "nat \<Rightarrow> nat \<Rightarrow> nat set \<Rightarrow> bool" where
  "near d i A \<longleftrightarrow> A \<subseteq> (\<lambda>k. (i - k) mod 256) ` {1..d}"

lemma near_dec: "near d i A \<Longrightarrow> d < 256 \<Longrightarrow> 256 \<le> i \<Longrightarrow> j \<in> dec i A \<Longrightarrow> i \<le> j + d"
proof -
  assume a: "near d i A" "d < 256" "256 \<le> i" "j \<in> dec i A"
  then obtain k where k: "1 \<le> k" "k \<le> d" "j mod 256 = (i - k) mod 256"
    by (fastforce simp: near_def dec_def)
  have "j = i - k"
    by (rule slot_inj [of i]) (use a k in \<open>auto simp: dec_def\<close>)
  then show "i \<le> j + d" using k(2) by simp
qed

lemma near_obtain:
  assumes "near d i A" "n \<in> A"
  obtains k where "1 \<le> k" "k \<le> d" "n = (i - k) mod 256"
proof -
  have "n \<in> (\<lambda>k. (i - k) mod 256) ` {1..d}" using assms unfolding near_def by blast
  then show ?thesis using that by (auto elim!: imageE)
qed

lemma near_empty [simp]: "near d i {}"
  by (simp add: near_def)

subsection \<open>The full set\<close>

lemma fs_ok_full [simp]: "fs_ok (full_fences strong i)"
  by (simp add: full_fences_def)

lemma weak_slots:
  assumes "256 \<le> unat i"
  shows "fences (weak_fence_mask i) = (\<lambda>k. (unat i - k) mod 256) ` {64..127}"
proof -
  have "(unat i + 192 - k) mod 256 = (unat i - (64 + k)) mod 256" if "k < 64" for k
  proof -
    have "unat i + 192 - k = unat i - (64 + k) + 256" using assms that by simp
    then show ?thesis by (metis mod_add_self2)
  qed
  then have "fences (weak_fence_mask i) = (\<lambda>k. (unat i - (64 + k)) mod 256) ` {..<64}"
    unfolding fences_weak by (intro image_cong) auto
  also have "\<dots> = (\<lambda>k. (unat i - k) mod 256) ` ((+) 64 ` {..<64})"
    by (simp only: image_image)
  also have "(+) 64 ` {..<64} = {64..127 :: nat}"
  proof (rule set_eqI)
    fix x :: nat
    show "x \<in> (+) 64 ` {..<64} \<longleftrightarrow> x \<in> {64..127}"
      by (simp only: image_iff) (rule iffI, force, rule bexI [of _ "x - 64"], auto)
  qed
  finally show ?thesis .
qed

lemma fences_full:
  "fences (full_fences strong i)
   = fences strong \<union> {n \<in> fences (weak_fence_mask i). \<forall>m \<in> fences strong. m mod 64 \<noteq> n mod 64}"
  by (auto simp: full_fences_def fence_simps bit_fs_laneMask)

lemma near_full:
  assumes "256 \<le> unat i" "near 63 (unat i) (fences strong)"
  shows "near 127 (unat i) (fences (full_fences strong i))"
proof -
  have "fences (weak_fence_mask i) \<subseteq> (\<lambda>k. (unat i - k) mod 256) ` {1..127}"
    unfolding weak_slots [OF assms(1)] by (intro image_mono) auto
  moreover have "fences strong \<subseteq> (\<lambda>k. (unat i - k) mod 256) ` {1..127}"
    using assms(2) unfolding near_def by (rule order_trans) (intro image_mono, auto)
  ultimately show ?thesis unfolding near_def fences_full by blast
qed

subsection \<open>One call\<close>

text \<open>\<open>H\<close> is the order established by earlier encoders. A summary is valid when the full waits it
  holds for the last 255 encoders are in that order.\<close>

definition summary_ok :: "nat \<Rightarrow> fence_set list \<Rightarrow> (nat \<times> nat) set \<Rightarrow> bool" where
  "summary_ok n summary H \<longleftrightarrow> length summary = kParityLane
     \<and> (\<forall>p. p < n \<longrightarrow> n < p + 256 \<longrightarrow>
          (p < 256 \<longrightarrow> fences (summary ! (p mod 256)) = {})
          \<and> near 127 p (fences (summary ! (p mod 256)))
          \<and> (\<forall>j \<in> dec p (fences (summary ! (p mod 256))). (j, p) \<in> H\<^sup>+))"

definition ordered_by :: "(nat \<times> nat) set \<Rightarrow> nat \<Rightarrow> nat set \<Rightarrow> nat set" where
  "ordered_by H i M = {j. (j, i) \<in> (H \<union> (\<lambda>m. (m, i)) ` M)\<^sup>+}"

lemma ordered_by_mono: "M \<subseteq> N \<Longrightarrow> ordered_by H i M \<subseteq> ordered_by H i N"
  unfolding ordered_by_def by (auto elim!: trancl_mono)

lemma ordered_byI: "m \<in> M \<Longrightarrow> m \<in> ordered_by H i M"
  by (auto simp: ordered_by_def)

lemma ordered_by_trans: "p \<in> ordered_by H i M \<Longrightarrow> (j, p) \<in> H\<^sup>+ \<Longrightarrow> j \<in> ordered_by H i M"
  unfolding ordered_by_def
  by (auto intro: trancl_trans trancl_mono [of "(j, p)" H])

lemma visit_fence_sets:
  assumes "fs_ok accessible" "fs_ok minimal" "visit_fence full prev minimal accessible = (minimal', accessible')"
  shows "fs_ok minimal'" "fs_ok accessible'"
    "fences accessible' = (if slot prev \<in> fences full then insert (slot prev) (fences accessible)
                           else fences accessible)"
    "fences minimal' = (if slot prev \<in> fences full - fences accessible
                        then insert (slot prev) (fences minimal) else fences minimal)"
  using assms by (auto simp: visit_fence_def fence_simps split: if_splits)

text \<open>The two halves of an iteration, on sets of slots: the visit of encoder \<open>p\<close>, then the merge of
  its summary.\<close>

lemma visit_ordered:
  assumes p: "p < n" "n < p + 256"
    and acc: "dec n A \<subseteq> ordered_by H n (dec n M)"
    and A': "A' = (if p mod 256 \<in> F then insert (p mod 256) A else A)"
    and M': "M' = (if p mod 256 \<in> F - A then insert (p mod 256) M else M)"
  shows "dec n A' \<subseteq> ordered_by H n (dec n M')"
proof (cases "p mod 256 \<in> F - A")
  case True
  then have "dec n A' = insert p (dec n A)" "dec n M' = insert p (dec n M)"
    unfolding A' M' using p by (simp_all add: dec_simps)
  moreover have "ordered_by H n (dec n M) \<subseteq> ordered_by H n (insert p (dec n M))"
    by (rule ordered_by_mono) blast
  ultimately show ?thesis using acc by (auto intro: ordered_byI)
next
  case False
  then have "A' = A" "M' = M" unfolding A' M' by auto
  then show ?thesis using acc by simp
qed

lemma summary_ordered:
  assumes p: "p < n" "n < p + 256" "n \<le> p + 127" and sum: "summary_ok n summary H"
    and acc: "dec n A \<subseteq> ordered_by H n X" and pA: "p mod 256 \<in> A"
  shows "dec n (A \<union> fences (summary ! (p mod 256))) \<subseteq> ordered_by H n X"
proof -
  let ?S = "fences (summary ! (p mod 256))"
  have pa: "p \<in> ordered_by H n X" using acc pA p by (auto simp: dec_def)
  have S: "near 127 p ?S" "\<forall>j \<in> dec p ?S. (j, p) \<in> H\<^sup>+" "p < 256 \<longrightarrow> ?S = {}"
    using sum p(1,2) unfolding summary_ok_def by blast+
  have "dec n ?S \<subseteq> ordered_by H n X"
  proof
    fix j assume j: "j \<in> dec n ?S"
    then have jS: "j mod 256 \<in> ?S" and jn: "j < n" "n < j + 256" by (simp_all add: dec_def)
    then have p256: "256 \<le> p" using S(3) by (metis emptyE not_less)
    obtain d where d: "1 \<le> d" "d \<le> 127" "j mod 256 = (p - d) mod 256"
      using near_obtain [OF S(1) jS] .
    have jp: "j = p - d"
      by (rule slot_inj [OF jn(2,1) _ _ d(3)]) (use d p p256 in linarith)+
    then have "j \<in> dec p ?S" using jS d p256 by (simp add: dec_def)
    then have "(j, p) \<in> H\<^sup>+" using S(2) by blast
    then show "j \<in> ordered_by H n X" using pa ordered_by_trans by blast
  qed
  then show ?thesis using acc by (simp add: dec_simps)
qed

lemma simplify_loop_step:
  assumes i: "256 \<le> unat i" "1 \<le> k" "k \<le> 127" and sum: "summary_ok (unat i) summary H"
    and ok: "fs_ok minimal" "fs_ok accessible"
    and acc: "dec (unat i) (fences accessible) \<subseteq> ordered_by H (unat i) (dec (unat i) (fences minimal))"
    and prev: "prev = i - of_nat k" and visit: "visit_fence full prev minimal accessible = (m1, a1)"
    and a2: "a2 = (if fs_test a1 prev then fs_merge a1 (summary ! (unat prev mod kParityLane)) else a1)"
  shows "fs_ok m1" "fs_ok a2"
    "dec (unat i) (fences a2) \<subseteq> ordered_by H (unat i) (dec (unat i) (fences m1))"
    "dec (unat i) (fences accessible) \<subseteq> dec (unat i) (fences a2)"
    "unat i - k \<in> dec (unat i) (fences full) \<Longrightarrow> unat i - k \<in> dec (unat i) (fences a2)"
proof -
  define p where "p = unat i - k"
  have p: "p < unat i" "unat i < p + 256" "unat i \<le> p + 127" using i by (auto simp: p_def)
  have sl: "slot prev = p mod 256" "unat prev = p" using prev_slot [OF i(1), of k] i prev by (auto simp: p_def)
  note v = visit_fence_sets [OF ok(2,1) visit, unfolded sl(1)]
  show "fs_ok m1" "fs_ok a2" using v(1,2) a2 by auto
  have a1: "dec (unat i) (fences a1) \<subseteq> ordered_by H (unat i) (dec (unat i) (fences m1))"
    by (rule visit_ordered [OF p(1,2) acc v(3,4)])
  have fa2: "fences a2 = (if p mod 256 \<in> fences a1 then fences a1 \<union> fences (summary ! (p mod 256))
                          else fences a1)"
    using a2 sl by (simp add: fence_simps)
  show "dec (unat i) (fences a2) \<subseteq> ordered_by H (unat i) (dec (unat i) (fences m1))"
    using a1 summary_ordered [OF p sum a1] fa2 by simp
  have "fences accessible \<subseteq> fences a2" using fa2 v(3) by auto
  then show "dec (unat i) (fences accessible) \<subseteq> dec (unat i) (fences a2)" by (rule dec_mono)
  show "unat i - k \<in> dec (unat i) (fences full) \<Longrightarrow> unat i - k \<in> dec (unat i) (fences a2)"
    unfolding p_def [symmetric] using fa2 v(3) by (simp add: dec_def)
qed

lemma simplify_loop_covers:
  assumes "256 \<le> unat i" "summary_ok (unat i) summary H"
    and near: "near 127 (unat i) (fences full)"
  shows "1 \<le> k \<Longrightarrow> k \<le> 127 \<Longrightarrow> fs_ok minimal \<Longrightarrow> fs_ok accessible
    \<Longrightarrow> dec (unat i) (fences accessible) \<subseteq> ordered_by H (unat i) (dec (unat i) (fences minimal))
    \<Longrightarrow> (\<forall>j \<in> dec (unat i) (fences full). unat i < j + k \<longrightarrow> j \<in> dec (unat i) (fences accessible))
    \<Longrightarrow> fs_ok (simplify_loop summary i full [k..<256] minimal accessible)
       \<and> dec (unat i) (fences full)
       \<subseteq> ordered_by H (unat i)
           (dec (unat i) (fences (simplify_loop summary i full [k..<256] minimal accessible)))"
proof (induction "127 - k" arbitrary: k minimal accessible)
  case (0 k)
  \<comment> \<open>offset 127, the last a full set can hold: the containment test succeeds\<close>
  define prev :: u64 where "prev = i - of_nat k"
  obtain m1 a1 where visit: "visit_fence full prev minimal accessible = (m1, a1)" by fastforce
  define a2 where "a2 = (if fs_test a1 prev then fs_merge a1 (summary ! (unat prev mod kParityLane)) else a1)"
  note s = simplify_loop_step [OF assms(1) "0.prems"(1,2) assms(2) "0.prems"(3-5) prev_def visit a2_def]
  have k: "k = 127" using "0" by simp
  have cov: "dec (unat i) (fences full) \<subseteq> dec (unat i) (fences a2)"
  proof
    fix j assume j: "j \<in> dec (unat i) (fences full)"
    have "unat i \<le> j + 127" using near_dec [OF near _ assms(1) j] by simp
    then consider "unat i < j + k" | "j = unat i - k" using k by linarith
    then show "j \<in> dec (unat i) (fences a2)"
      using s(4,5) "0.prems"(6) j by cases auto
  qed
  have "fences full \<subseteq> fences a2"
  proof
    fix n assume n: "n \<in> fences full"
    obtain d where d: "1 \<le> d" "d \<le> 127" "n = (unat i - d) mod 256"
      using near_obtain [OF near n] .
    then have "unat i - d \<in> dec (unat i) (fences full)"
      using n assms(1) by (auto simp: dec_def)
    then show "n \<in> fences a2" using cov d(3) by (auto simp: dec_def)
  qed
  then have "simplify_loop summary i full [k..<256] minimal accessible = m1"
    using k visit by (simp add: upt_conv_Cons Let_def prev_def [symmetric] a2_def [symmetric] fence_simps
        del: kParityLane_def) (simp add: a2_def prev_def k fence_simps split: if_splits)
  then show ?case using cov s(1,3) by auto
next
  case (Suc x k)
  define prev :: u64 where "prev = i - of_nat k"
  obtain m1 a1 where visit: "visit_fence full prev minimal accessible = (m1, a1)" by fastforce
  define a2 where "a2 = (if fs_test a1 prev then fs_merge a1 (summary ! (unat prev mod kParityLane)) else a1)"
  note s = simplify_loop_step [OF assms(1) Suc.prems(1,2) assms(2) Suc.prems(3-5) prev_def visit a2_def]
  have loop: "simplify_loop summary i full [k..<256] minimal accessible
      = (if fs_contains a2 full then m1 else simplify_loop summary i full [Suc k..<256] m1 a2)"
    using Suc.prems(2) visit by (simp add: upt_conv_Cons Let_def prev_def a2_def del: kParityLane_def)
  have cov: "\<forall>j \<in> dec (unat i) (fences full). unat i < j + Suc k \<longrightarrow> j \<in> dec (unat i) (fences a2)"
  proof (intro ballI impI)
    fix j assume j: "j \<in> dec (unat i) (fences full)" "unat i < j + Suc k"
    then consider "unat i < j + k" | "j = unat i - k" by (auto simp: dec_def) linarith
    then show "j \<in> dec (unat i) (fences a2)"
      using s(4,5) Suc.prems(6) j(1) by cases auto
  qed
  show ?case
  proof (cases "fs_contains a2 full")
    case True
    then have "dec (unat i) (fences full) \<subseteq> dec (unat i) (fences a2)"
      by (intro dec_mono) (simp add: fence_simps)
    then show ?thesis using True loop s(1,3) by auto
  next
    case False
    have "x = 127 - Suc k" "1 \<le> Suc k" "Suc k \<le> 127" using Suc.hyps(2) by auto
    from Suc.hyps(1) [OF this s(1,2,3) cov] show ?thesis using False loop by simp
  qed
qed

subsection \<open>A queue of encoders\<close>

text \<open>
  The argument encoding queue calls \<open>collectAndSimplifyWaits\<close> for consecutive ids, the first being
  \<open>kParityLane\<close>. The run records the waits issued, the implicit one included, and the full waits
  required.
\<close>

record locality_run =
  lr_summary :: "fence_set list"
  lr_next :: u64
  lr_waits :: "(nat \<times> nat) list"
  lr_required :: "(nat \<times> nat) list"

definition wait_pairs :: "u64 \<Rightarrow> fence_set \<Rightarrow> (nat \<times> nat) list" where
  "wait_pairs i s = map (\<lambda>j. (j, unat i)) (filter (\<lambda>j. fs_test s (of_nat j)) [unat i - 255..<unat i])"

definition locality_init :: locality_run where
  "locality_init = \<lparr> lr_summary = replicate kParityLane fs_empty, lr_next = of_nat kParityLane,
     lr_waits = [], lr_required = [] \<rparr>"

definition encode_step :: "fence_set \<times> bool \<Rightarrow> locality_run \<Rightarrow> locality_run" where
  "encode_step e r =
     (let i = lr_next r; (strong, implicit) = e;
          (minimal, summary') = collectAndSimplifyWaits (lr_summary r) strong i implicit
      in \<lparr> lr_summary = summary', lr_next = i + 1,
           lr_waits = wait_pairs i minimal @ (if implicit then [(unat i - 1, unat i)] else []) @ lr_waits r,
           lr_required = wait_pairs i (summary' ! (unat i mod kParityLane)) @ lr_required r \<rparr>)"

definition strong_near :: "u64 \<Rightarrow> fence_set \<Rightarrow> bool" where
  "strong_near i s \<longleftrightarrow> fs_ok s \<and> (\<forall>n \<in> fences s. n \<in> set (map (\<lambda>k. (unat i - k) mod 256) [1..<64]))"

fun strongs_near :: "u64 \<Rightarrow> (fence_set \<times> bool) list \<Rightarrow> bool" where
  "strongs_near i [] \<longleftrightarrow> True"
| "strongs_near i (e # es) \<longleftrightarrow> strong_near i (fst e) \<and> strongs_near (i + 1) es"

lemma set_wait_pairs:
  assumes "256 \<le> unat i"
  shows "set (wait_pairs i s) = (\<lambda>j. (j, unat i)) ` dec (unat i) (fences s)"
proof -
  have "fs_test s (of_nat j) \<longleftrightarrow> j mod 256 \<in> fences s" if "j < unat i" for j
  proof -
    have "j < 2 ^ 64" using that unsigned_less [of i, where 'a = nat] by simp
    then show ?thesis by (simp add: fence_simps slot_mod unat_of_nat_small)
  qed
  then have "{j \<in> {unat i - 255..<unat i}. fs_test s (of_nat j)} = dec (unat i) (fences s)"
    unfolding dec_def using assms by auto
  then show ?thesis unfolding wait_pairs_def set_map set_filter set_upt by simp
qed

lemma near_strong: "strong_near i s \<Longrightarrow> near 63 (unat i) (fences s)"
proof -
  assume "strong_near i s"
  moreover have "{1..<64} = {1..63 :: nat}" by auto
  ultimately show ?thesis unfolding strong_near_def near_def set_map set_upt by auto
qed

lemma slot_pred: "256 \<le> unat i \<Longrightarrow> slot (i - 1) = (unat i - 1) mod 256"
  using prev_slot(2) [of i 1] by simp

lemma near_set_pred:
  assumes "256 \<le> unat i" "fs_ok s" "near 63 (unat i) (fences s)"
  shows "near 63 (unat i) (fences (fs_set (i - 1) s))"
  using assms slot_pred [OF assms(1)] unfolding near_def by (auto simp: fence_simps)

lemma kParityLane_256: "kParityLane = 256"
  by simp

text \<open>One call, seen from the order of encoders: its waits imply the full set.\<close>

lemma collect_implies_full:
  assumes i: "256 \<le> unat i" and sum: "summary_ok (unat i) summary H"
    and strong: "strong_near i strong"
    and call: "collectAndSimplifyWaits summary strong i implicit = (minimal, summary')"
    and H': "H' = (\<lambda>j. (j, unat i)) ` dec (unat i) (fences minimal)
               \<union> (if implicit then {(unat i - 1, unat i)} else {}) \<union> H"
  defines "full \<equiv> full_fences (if implicit then fs_set (i - 1) strong else strong) i"
  shows "summary' = summary[unat i mod kParityLane := full]"
    and "near 63 (unat i) (fences (if implicit then fs_set (i - 1) strong else strong))"
    and "\<forall>j \<in> dec (unat i) (fences full). (j, unat i) \<in> H'\<^sup>+"
proof -
  let ?s = "if implicit then fs_set (i - 1) strong else strong"
  let ?m = "simplify_loop summary i full [1..<256] fs_empty fs_empty"
  show near: "near 63 (unat i) (fences ?s)"
    using near_strong [OF strong] near_set_pred [OF i] strong by (simp add: strong_near_def)
  have call': "minimal = (if implicit then fs_unset (i - 1) ?m else ?m)"
    "summary' = summary[unat i mod kParityLane := full]"
    using call unfolding collectAndSimplifyWaits_def Let_def full_def prod.inject
    by (simp_all only: kParityLane_256)
  then show "summary' = summary[unat i mod kParityLane := full]" by simp
  have n127: "near 127 (unat i) (fences full)"
    unfolding full_def by (rule near_full [OF i near])
  have "fs_ok ?m \<and> dec (unat i) (fences full) \<subseteq> ordered_by H (unat i) (dec (unat i) (fences ?m))"
    by (rule simplify_loop_covers [OF i sum n127]) (simp_all add: fence_simps dec_simps dec_def)
  moreover have "H \<union> (\<lambda>m. (m, unat i)) ` dec (unat i) (fences ?m) \<subseteq> H'" if "fs_ok ?m"
  proof -
    have "dec (unat i) (fences ?m) \<subseteq> (if implicit then insert (unat i - 1) (dec (unat i) (fences minimal))
                                    else dec (unat i) (fences minimal))"
      using dec_simps(4) [of "unat i - 1" "unat i" "fences ?m"] i that slot_pred [OF i]
      unfolding call'(1) by (auto simp: fence_simps)
    then show ?thesis unfolding H' by (auto split: if_splits)
  qed
  ultimately have "H \<union> (\<lambda>m. (m, unat i)) ` dec (unat i) (fences ?m) \<subseteq> H'"
    "dec (unat i) (fences full) \<subseteq> ordered_by H (unat i) (dec (unat i) (fences ?m))" by blast+
  then show "\<forall>j \<in> dec (unat i) (fences full). (j, unat i) \<in> H'\<^sup>+"
    unfolding ordered_by_def using trancl_mono by blast
qed

lemma summary_ok_update:
  assumes sum: "summary_ok n summary H" and "H \<subseteq> H'" "256 \<le> n"
    and full: "near 127 n (fences full)" "\<forall>j \<in> dec n (fences full). (j, n) \<in> H'\<^sup>+"
  shows "summary_ok (n + 1) (summary[n mod 256 := full]) H'"
  unfolding summary_ok_def
proof (intro conjI allI impI)
  show "length (summary[n mod 256 := full]) = kParityLane"
    using sum by (simp add: summary_ok_def)
  fix p assume p: "p < n + 1" "n + 1 < p + 256"
  have *: "(p < 256 \<longrightarrow> fences (summary[n mod 256 := full] ! (p mod 256)) = {})
      \<and> near 127 p (fences (summary[n mod 256 := full] ! (p mod 256)))
      \<and> (\<forall>j \<in> dec p (fences (summary[n mod 256 := full] ! (p mod 256))). (j, p) \<in> H'\<^sup>+)"
  proof (cases "p = n")
    case True
    then show ?thesis using assms sum by (simp add: summary_ok_def)
  next
    case False
    then have "p < n" using p by simp
    then have "p mod 256 \<noteq> n mod 256" using slot_inj [of "n + 1" p n] p by auto
    moreover have "(p < 256 \<longrightarrow> fences (summary ! (p mod 256)) = {})
      \<and> near 127 p (fences (summary ! (p mod 256)))
      \<and> (\<forall>j \<in> dec p (fences (summary ! (p mod 256))). (j, p) \<in> H\<^sup>+)"
      using sum p \<open>p < n\<close> unfolding summary_ok_def by simp
    ultimately show ?thesis using trancl_mono [OF _ assms(2)] by auto
  qed
  from * show "fences (summary[n mod 256 := full] ! (p mod 256)) = {}" if "p < 256" using that by blast
  from * show "near 127 p (fences (summary[n mod 256 := full] ! (p mod 256)))" by blast
  from * show "\<forall>j \<in> dec p (fences (summary[n mod 256 := full] ! (p mod 256))). (j, p) \<in> H'\<^sup>+"
    by blast
qed

lemma same_lane_next:
  fixes a k n :: nat
  assumes "(n - k) mod 64 = a mod 64" "1 \<le> k" "k \<le> 63" "a + 64 \<le> n" "n \<le> a + 127"
  shows "n - k = a + 64"
proof -
  have "64 dvd (n - k) - a"
    using mod_eq_dvd_iff_nat [of a "n - k" 64] assms by (simp add: eq_commute)
  then obtain q where q: "(n - k) - a = 64 * q" by (rule dvdE)
  have "0 < q" "q < 2" using q assms by linarith+
  then have "q = 1" by linarith
  then show ?thesis using q assms by linarith
qed

text \<open>The generation before: reached directly, or through the strong fence that shares its lane.\<close>

lemma far_ordered:
  assumes i: "256 \<le> unat i" and near: "near 63 (unat i) (fences s)"
    and full: "\<forall>j \<in> dec (unat i) (fences (full_fences s i)). (j, unat i) \<in> H'\<^sup>+"
    and old: "\<And>a b. 256 \<le> a \<Longrightarrow> a + 64 \<le> b \<Longrightarrow> b < unat i \<Longrightarrow> (a, b) \<in> H'\<^sup>+"
    and a: "256 \<le> a" "a + 64 \<le> unat i"
  shows "(a, unat i) \<in> H'\<^sup>+"
proof -
  have gen: "(a, unat i) \<in> H'\<^sup>+" if a: "256 \<le> a" "a + 64 \<le> unat i" "unat i \<le> a + 127" for a
  proof (cases "\<exists>m \<in> fences s. m mod 64 = a mod 256 mod 64")
    case False
    have "a mod 256 \<in> fences (weak_fence_mask i)"
      unfolding weak_slots [OF i] by (rule image_eqI [of _ _ "unat i - a"]) (use a in auto)
    then have "a \<in> dec (unat i) (fences (full_fences s i))"
      using False a unfolding fences_full by (auto simp: dec_def)
    then show ?thesis using full by blast
  next
    case True
    then obtain m where m: "m \<in> fences s" "m mod 64 = a mod 256 mod 64" by blast
    obtain k where k: "1 \<le> k" "k \<le> 63" "m = (unat i - k) mod 256"
      using near_obtain [OF near m(1)] .
    have "(unat i - k) mod 64 = a mod 64"
      using m(2) k(3) by (simp add: mod_mod_cancel)
    then have s: "unat i - k = a + 64" using same_lane_next k(1,2) a(2,3) by blast
    have "a + 64 \<in> dec (unat i) (fences (full_fences s i))"
      unfolding fences_full dec_def using m(1) k s a by auto
    then have "(a + 64, unat i) \<in> H'\<^sup>+" using full by blast
    moreover have "(a, a + 64) \<in> H'\<^sup>+" using old [of a "a + 64"] a s k by linarith
    ultimately show ?thesis by (rule trancl_trans [rotated])
  qed
  show ?thesis
  proof (cases "unat i \<le> a + 127")
    case True
    then show ?thesis using gen a by blast
  next
    case False
    then have "(a, unat i - 64) \<in> H'\<^sup>+" "(unat i - 64, unat i) \<in> H'\<^sup>+"
      using old [of a "unat i - 64"] gen [of "unat i - 64"] a i by (linarith, simp)
    then show ?thesis by (rule trancl_trans)
  qed
qed

definition run_inv :: "locality_run \<Rightarrow> bool" where
  "run_inv r \<longleftrightarrow> 256 \<le> unat (lr_next r)
     \<and> summary_ok (unat (lr_next r)) (lr_summary r) (set (lr_waits r))
     \<and> set (lr_required r) \<subseteq> (set (lr_waits r))\<^sup>+
     \<and> (\<forall>a b. 256 \<le> a \<longrightarrow> a + 64 \<le> b \<longrightarrow> b < unat (lr_next r) \<longrightarrow> (a, b) \<in> (set (lr_waits r))\<^sup>+)"

lemma run_inv_init: "run_inv locality_init"
  by (auto simp: run_inv_def locality_init_def summary_ok_def fence_simps near_def dec_def)

lemma run_inv_step:
  assumes inv: "run_inv r" and strong: "strong_near (lr_next r) (fst e)"
    and bound: "unat (lr_next r) + 1 < 2 ^ 64"
  shows "run_inv (encode_step e r)"
proof -
  define i where "i = lr_next r"
  obtain st implicit where e: "e = (st, implicit)" by fastforce
  obtain m summary' where call: "collectAndSimplifyWaits (lr_summary r) st i implicit = (m, summary')"
    by fastforce
  let ?W = "set (lr_waits r)"
  let ?s = "if implicit then fs_set (i - 1) st else st"
  have i: "256 \<le> unat i" "summary_ok (unat i) (lr_summary r) ?W" "set (lr_required r) \<subseteq> ?W\<^sup>+"
    "\<And>a b. 256 \<le> a \<Longrightarrow> a + 64 \<le> b \<Longrightarrow> b < unat i \<Longrightarrow> (a, b) \<in> ?W\<^sup>+"
    using inv by (auto simp: run_inv_def i_def)
  have st: "strong_near i st" using strong by (simp add: e i_def)
  define H' where "H' = set (lr_waits (encode_step e r))"
  have step: "encode_step e r = \<lparr> lr_summary = summary', lr_next = i + 1,
      lr_waits = wait_pairs i m @ (if implicit then [(unat i - 1, unat i)] else []) @ lr_waits r,
      lr_required = wait_pairs i (summary' ! (unat i mod kParityLane)) @ lr_required r \<rparr>"
    using call by (simp add: encode_step_def e i_def Let_def)
  have H': "H' = (\<lambda>j. (j, unat i)) ` dec (unat i) (fences m)
               \<union> (if implicit then {(unat i - 1, unat i)} else {}) \<union> ?W"
    unfolding H'_def step using set_wait_pairs [OF i(1), of m] by (simp add: Un_assoc)
  note c = collect_implies_full [OF i(1,2) st call H']
  have WH: "?W \<subseteq> H'" unfolding H' by blast
  have W: "x \<in> ?W\<^sup>+ \<Longrightarrow> x \<in> H'\<^sup>+" for x using trancl_mono [OF _ WH] by blast
  have next_i: "unat (i + 1) = unat i + 1"
    using bound by (simp add: word_nat i_def)
  have sum': "summary_ok (unat i + 1) summary' H'"
    using summary_ok_update [OF i(2) WH i(1) near_full [OF i(1) c(2)] c(3)] c(1) by simp
  have "length (lr_summary r) = 256" using i(2) by (simp add: summary_ok_def)
  then have at: "summary' ! (unat i mod kParityLane) = full_fences ?s i"
    using c(1) by simp
  have "set (lr_required (encode_step e r)) \<subseteq> H'\<^sup>+"
    unfolding step using set_wait_pairs [OF i(1)] c(3) i(3) W by (auto simp: at simp del: kParityLane_def)
  moreover have "(a, b) \<in> H'\<^sup>+" if ab: "256 \<le> a" "a + 64 \<le> b" "b < unat i + 1" for a b
  proof (cases "b = unat i")
    case True
    then show ?thesis using far_ordered [OF i(1) c(2,3)] W i(4) ab by blast
  next
    case False
    then show ?thesis using W i(4) ab by simp
  qed
  ultimately show ?thesis
    unfolding run_inv_def using sum' i(1) next_i by (simp add: H'_def [symmetric]) (simp add: step)
qed

lemma run_inv_fold:
  "run_inv r \<Longrightarrow> strongs_near (lr_next r) es \<Longrightarrow> unat (lr_next r) + length es < 2 ^ 64
   \<Longrightarrow> run_inv (fold encode_step es r) \<and> unat (lr_next (fold encode_step es r)) = unat (lr_next r) + length es"
proof (induction es arbitrary: r)
  case (Cons e es)
  have n: "lr_next (encode_step e r) = lr_next r + 1"
    by (simp add: encode_step_def Let_def split: prod.splits)
  have u: "unat (lr_next r + 1) = unat (lr_next r) + 1" using Cons.prems by (simp add: word_nat)
  have "run_inv (encode_step e r)"
    by (rule run_inv_step) (use Cons.prems in auto)
  then show ?case using Cons.IH [of "encode_step e r"] Cons.prems n u by simp
qed simp

subsection \<open>Properties\<close>

text \<open>C3: Wait simplification loses nothing. In a queue whose strong fences are less than 64 encoders
  back, every wait the full fence sets require is implied by the waits actually issued, followed
  transitively.\<close>

theorem fence_simplification_sound:
  assumes "strongs_near (of_nat kParityLane) es" "kParityLane + length es < 2 ^ 64"
  shows "set (lr_required (fold encode_step es locality_init))
         \<subseteq> (set (lr_waits (fold encode_step es locality_init)))\<^sup>+"
  using run_inv_fold [OF run_inv_init, of es] assms by (simp add: run_inv_def locality_init_def)

lemma strong_near_empty: "strong_near i fs_empty"
  by (simp add: strong_near_def fence_simps)

lemma fence_simplification_sound_witness:
  "set (lr_required (fold encode_step [(fs_empty, True), (fs_singleton 256, False), (fs_empty, True)] locality_init))
   \<subseteq> (set (lr_waits (fold encode_step [(fs_empty, True), (fs_singleton 256, False), (fs_empty, True)] locality_init)))\<^sup>+"
proof (rule fence_simplification_sound)
  have "strong_near 257 (fs_singleton 256)"
    by (simp add: strong_near_def fs_singleton_def fence_simps slot_mod image_iff bexI [of _ 1])
  then show "strongs_near (of_nat kParityLane) [(fs_empty, True), (fs_singleton 256, False), (fs_empty, True)]"
    by (simp add: strong_near_empty)
  show "kParityLane + length [(fs_empty, True), (fs_singleton 256, False), (fs_empty, True)] < 2 ^ 64"
    by simp
qed

text \<open>Lane reuse is safe. Any two encoders 64 or more apart are ordered by the waits actually
  issued, so an encoder has finished before its lane's fence is reused by a later generation.\<close>

theorem far_encoders_ordered:
  assumes "strongs_near (of_nat kParityLane) es" "kParityLane + length es < 2 ^ 64"
    and "kParityLane \<le> a" "a + kLane \<le> b" "b < kParityLane + length es"
  shows "(a, b) \<in> (set (lr_waits (fold encode_step es locality_init)))\<^sup>+"
  using run_inv_fold [OF run_inv_init, of es] assms by (simp add: run_inv_def locality_init_def)

lemma strongs_near_replicate: "strongs_near i (replicate n (fs_empty, implicit))"
  by (induction n arbitrary: i) (simp_all add: strong_near_empty)

lemma far_encoders_ordered_witness:
  "(256, 384) \<in> (set (lr_waits (fold encode_step (replicate 200 (fs_empty, False)) locality_init)))\<^sup>+"
  by (rule far_encoders_ordered) (simp_all only: strongs_near_replicate length_replicate, simp_all)

end
