(* ===== verification/AccessTracker.thy ===== *)
theory AccessTracker
  imports FenceLocality
begin

text \<open>
  Hazard tracking of one resource: \<open>TrackingSet\<close>, \<open>EncoderBarrierState\<close> and
  \<open>GenericAccessTracker\<close> of src/src/dxmt/dxmt_deptrack.hpp and dxmt_deptrack.cpp, and the two
  functions of dxmt_context.cpp that turn the barrier state into commands. A shared or exclusive
  access by an encoder adds fences to its wait set and bits to its barrier state.

  The tracking set is a ring of the last 64 shared accesses; it is shown to be a shift register
  that \<open>clear\<close> cuts. For compute and blit encoders (\<open>accessShared\<close>, \<open>accessExclusive\<close>) every
  conflicting pair of accesses less than 64 encoders apart is ordered by the recorded waits.
\<close>

subsection \<open>The tracking set\<close>

text \<open>\<open>storage_\<close> has \<open>Sz + Forward\<close> = 65 entries, uninitialised but for the first.\<close>

record tracking_set =
  ts_storage :: "u64 list"
  ts_cursor :: nat

definition ts_clear :: "tracking_set \<Rightarrow> tracking_set" where
  "ts_clear t = t\<lparr> ts_storage := (ts_storage t)[ts_cursor t := 0] \<rparr>"

definition ts_new :: "u64 list \<Rightarrow> tracking_set" where
  "ts_new uninitialised = ts_clear \<lparr> ts_storage = uninitialised, ts_cursor = 0 \<rparr>"

definition ts_add :: "u64 \<Rightarrow> tracking_set \<Rightarrow> bool \<times> tracking_set" where
  "ts_add i t =
     (if ts_storage t ! ts_cursor t = i then (False, t)
      else (let cursor = (ts_cursor t + 1) mod kLane
            in (True, t\<lparr> ts_storage := (ts_storage t)[cursor := i], ts_cursor := cursor \<rparr>)))"

definition ts_isLastAccess :: "tracking_set \<Rightarrow> u64 \<Rightarrow> bool" where
  "ts_isLastAccess t i \<longleftrightarrow> ts_storage t ! ts_cursor t = i"

text \<open>The calls of \<open>fn\<close> that \<open>enumerate\<close> makes; its count is their number.\<close>

fun ts_enumerate_from :: "tracking_set \<Rightarrow> u64 \<Rightarrow> nat list \<Rightarrow> u64 list" where
  "ts_enumerate_from t id_before [] = []"
| "ts_enumerate_from t id_before (i # is) =
     (let c = ts_storage t ! ((ts_cursor t + kLane - i) mod kLane)
      in if id_before \<le> c then ts_enumerate_from t id_before is
         else if id_before - of_nat kLane < c then c # ts_enumerate_from t id_before is
         else [])"

definition ts_enumerate :: "tracking_set \<Rightarrow> u64 \<Rightarrow> u64 list" where
  "ts_enumerate t id_before = ts_enumerate_from t id_before [0..<kLane]"

subsection \<open>Barriers\<close>

record barrier_state =
  barrierSet :: "2 word"
  barrierPreRasterSet :: "2 word"
  barrierFragmentAfterPreRasterSet :: "2 word"
  barrierPreRasterAfterFragmentSet :: "2 word"

definition no_barriers :: barrier_state where
  "no_barriers = \<lparr> barrierSet = 0, barrierPreRasterSet = 0,
     barrierFragmentAfterPreRasterSet = 0, barrierPreRasterAfterFragmentSet = 0 \<rparr>"

definition kBarrierTypeRW :: "2 word" where "kBarrierTypeRW = 1"
definition kBarrierTypeWaW :: "2 word" where "kBarrierTypeWaW = 2"

text \<open>\<open>1 << uav\<close>\<close>

definition uav_bit :: "bool \<Rightarrow> 2 word" where
  "uav_bit uav = (if uav then 2 else 1)"

definition add_barrier :: "2 word \<Rightarrow> barrier_state \<Rightarrow> barrier_state" where
  "add_barrier b s = s\<lparr> barrierSet := barrierSet s OR b \<rparr>"

definition add_PreRaster :: "2 word \<Rightarrow> barrier_state \<Rightarrow> barrier_state" where
  "add_PreRaster b s = s\<lparr> barrierPreRasterSet := barrierPreRasterSet s OR b \<rparr>"

definition add_FragmentAfterPreRaster :: "2 word \<Rightarrow> barrier_state \<Rightarrow> barrier_state" where
  "add_FragmentAfterPreRaster b s =
     s\<lparr> barrierFragmentAfterPreRasterSet := barrierFragmentAfterPreRasterSet s OR b \<rparr>"

definition add_PreRasterAfterFragment :: "2 word \<Rightarrow> barrier_state \<Rightarrow> barrier_state" where
  "add_PreRasterAfterFragment b s =
     s\<lparr> barrierPreRasterAfterFragmentSet := barrierPreRasterAfterFragmentSet s OR b \<rparr>"

subsection \<open>The tracker\<close>

record access_tracker =
  at_shared :: tracking_set
  at_exclusive :: u64
  at_isShared :: bool
  at_isSharedPreRaster :: bool
  at_lastWriteFromPreRaster :: bool

definition at_new :: "u64 list \<Rightarrow> access_tracker" where
  "at_new uninitialised = \<lparr> at_shared = ts_new uninitialised, at_exclusive = 0,
     at_isShared = False, at_isSharedPreRaster = False, at_lastWriteFromPreRaster = False \<rparr>"

type_synonym access_result = "access_tracker \<times> fence_set \<times> barrier_state"

definition wait_if_near :: "u64 \<Rightarrow> u64 \<Rightarrow> fence_set \<Rightarrow> fence_set" where
  "wait_if_near i exclusive wait_fences =
     (if i - exclusive < of_nat kLane then fs_set exclusive wait_fences else wait_fences)"

definition accessShared :: "u64 \<Rightarrow> access_tracker \<Rightarrow> fence_set \<Rightarrow> barrier_state \<Rightarrow> access_result" where
  "accessShared i t w b =
     (if at_exclusive t = i then
        (if at_isShared t then (t, w, b)
         else (t\<lparr> at_isShared := True \<rparr>, w, add_barrier kBarrierTypeRW b))
      else if ts_isLastAccess (at_shared t) i then (t, w, b)
      else (t\<lparr> at_shared := snd (ts_add i (at_shared t)) \<rparr>, wait_if_near i (at_exclusive t) w, b))"

definition accessExclusive ::
  "u64 \<Rightarrow> bool \<Rightarrow> access_tracker \<Rightarrow> fence_set \<Rightarrow> barrier_state \<Rightarrow> access_result"
where
  "accessExclusive i uav t w b =
     (let t = t\<lparr> at_isShared := False \<rparr> in
      if at_exclusive t = i then (t, w, add_barrier (uav_bit uav) b)
      else
       (let b = (if ts_isLastAccess (at_shared t) i then add_barrier kBarrierTypeRW b else b);
            w = fold fs_set (ts_enumerate (at_shared t) i) w;
            w = wait_if_near i (at_exclusive t) w
        in (t\<lparr> at_shared := ts_clear (at_shared t), at_exclusive := i \<rparr>, w, b)))"

definition accessSharedPreRaster ::
  "u64 \<Rightarrow> access_tracker \<Rightarrow> fence_set \<Rightarrow> barrier_state \<Rightarrow> access_result"
where
  "accessSharedPreRaster i t w b =
     (if at_exclusive t = i + 1 then
        (if at_isSharedPreRaster t then (t, w, b)
         else (t\<lparr> at_isSharedPreRaster := True \<rparr>, w,
               if at_lastWriteFromPreRaster t then add_PreRaster kBarrierTypeRW b
               else add_PreRasterAfterFragment kBarrierTypeRW b))
      else if at_exclusive t = i then
        (if at_isSharedPreRaster t then (t, w, b)
         else (t\<lparr> at_isSharedPreRaster := True \<rparr>, w, add_PreRaster kBarrierTypeRW b))
      else if ts_isLastAccess (at_shared t) (i + 1) then
        (if at_isSharedPreRaster t then (t, w, b)
         else (t\<lparr> at_isSharedPreRaster := True \<rparr>, wait_if_near i (at_exclusive t) w, b))
      else if ts_isLastAccess (at_shared t) i then (t, w, b)
      else (t\<lparr> at_shared := snd (ts_add i (at_shared t)), at_isSharedPreRaster := True,
               at_isShared := False \<rparr>,
            wait_if_near i (at_exclusive t) w, b))"

text \<open>The two blocks that flush the shared flags, which both exclusive accesses repeat.\<close>

definition flush_shared_PreRaster :: "access_tracker \<Rightarrow> fence_set \<Rightarrow> barrier_state \<Rightarrow> access_result" where
  "flush_shared_PreRaster t w b =
     (let (t, b) = (if at_isSharedPreRaster t
                    then (t\<lparr> at_isSharedPreRaster := False \<rparr>, add_PreRaster kBarrierTypeRW b)
                    else (t, b));
          (t, b) = (if at_isShared t
                    then (t\<lparr> at_isShared := False \<rparr>, add_PreRasterAfterFragment kBarrierTypeRW b)
                    else (t, b))
      in (t, w, b))"

definition flush_shared_Fragment :: "access_tracker \<Rightarrow> fence_set \<Rightarrow> barrier_state \<Rightarrow> access_result" where
  "flush_shared_Fragment t w b =
     (let (t, b) = (if at_isSharedPreRaster t
                    then (t\<lparr> at_isSharedPreRaster := False \<rparr>, add_FragmentAfterPreRaster kBarrierTypeRW b)
                    else (t, b));
          (t, b) = (if at_isShared t
                    then (t\<lparr> at_isShared := False \<rparr>, add_barrier kBarrierTypeRW b)
                    else (t, b))
      in (t, w, b))"

definition clear_shared :: "access_result \<Rightarrow> access_result" where
  "clear_shared r = (case r of (t, w, b) \<Rightarrow> (t\<lparr> at_shared := ts_clear (at_shared t) \<rparr>, w, b))"

definition accessExclusivePreRaster ::
  "u64 \<Rightarrow> bool \<Rightarrow> access_tracker \<Rightarrow> fence_set \<Rightarrow> barrier_state \<Rightarrow> access_result"
where
  "accessExclusivePreRaster i uav t w b =
     (let last_exclusive = at_exclusive t; t = t\<lparr> at_exclusive := i \<rparr> in
      if last_exclusive = i + 1 then
        (let last = at_lastWriteFromPreRaster t; t = t\<lparr> at_lastWriteFromPreRaster := True \<rparr> in
         if \<not> at_isShared t \<and> \<not> at_isSharedPreRaster t then
           (t, w, if last then add_PreRaster (uav_bit uav) b
                  else add_PreRasterAfterFragment (uav_bit uav) b)
         else flush_shared_PreRaster t w b)
      else if last_exclusive = i then
        flush_shared_PreRaster t w
          (if \<not> at_isShared t \<and> \<not> at_isSharedPreRaster t then add_PreRaster (uav_bit uav) b else b)
      else
       (let w = fold fs_set (ts_enumerate (at_shared t) i) w;
            w = (if last_exclusive \<noteq> 0 then fs_set last_exclusive w else w)
        in if ts_isLastAccess (at_shared t) (i + 1) \<or> ts_isLastAccess (at_shared t) i
           then clear_shared (flush_shared_PreRaster t w b)
           else (t\<lparr> at_shared := ts_clear (at_shared t), at_isShared := False,
                    at_isSharedPreRaster := False \<rparr>, w, b)))"

definition accessSharedFragment ::
  "u64 \<Rightarrow> access_tracker \<Rightarrow> fence_set \<Rightarrow> barrier_state \<Rightarrow> access_result"
where
  "accessSharedFragment i t w b =
     (if at_exclusive t = i then
        (if at_isShared t then (t, w, b)
         else (let t = t\<lparr> at_isShared := True \<rparr> in
               if at_isSharedPreRaster t then (t, w, b)
               else (t, w, if at_lastWriteFromPreRaster t then add_FragmentAfterPreRaster kBarrierTypeRW b
                           else add_barrier kBarrierTypeRW b)))
      else if at_exclusive t = i - 1 then
        (if at_isShared t then (t, w, b)
         else (let t = t\<lparr> at_isShared := True \<rparr> in
               if at_isSharedPreRaster t then (t, w, b)
               else (t, w, add_FragmentAfterPreRaster kBarrierTypeRW b)))
      else if ts_isLastAccess (at_shared t) i then (t, w, b)
      else
       (let isVertexLastAccess = ts_isLastAccess (at_shared t) (i - 1);
            w = wait_if_near i (at_exclusive t) w;
            t = t\<lparr> at_shared := snd (ts_add i (at_shared t)), at_isShared := True \<rparr>
        in (if isVertexLastAccess then t else t\<lparr> at_isSharedPreRaster := False \<rparr>, w, b)))"

definition accessExclusiveFragment ::
  "u64 \<Rightarrow> bool \<Rightarrow> access_tracker \<Rightarrow> fence_set \<Rightarrow> barrier_state \<Rightarrow> access_result"
where
  "accessExclusiveFragment i uav t w b =
     (let last_exclusive = at_exclusive t; last = at_lastWriteFromPreRaster t;
          t = t\<lparr> at_exclusive := i, at_lastWriteFromPreRaster := False \<rparr> in
      if last_exclusive = i then
        (if \<not> at_isShared t \<and> \<not> at_isSharedPreRaster t then
           (t, w, if last then add_FragmentAfterPreRaster (uav_bit uav) b
                  else add_barrier (uav_bit uav) b)
         else flush_shared_Fragment t w b)
      else if last_exclusive = i - 1 then
        (if \<not> at_isShared t \<and> \<not> at_isSharedPreRaster t then
           (t, w, add_FragmentAfterPreRaster (uav_bit uav) b)
         else flush_shared_Fragment t w b)
      else
       (let w = fold fs_set (ts_enumerate (at_shared t) i) w;
            w = (if last_exclusive \<noteq> 0 then fs_set last_exclusive w else w)
        in if ts_isLastAccess (at_shared t) i \<or> ts_isLastAccess (at_shared t) (i - 1)
           then clear_shared (flush_shared_Fragment t w b)
           else (t\<lparr> at_shared := ts_clear (at_shared t), at_isShared := False,
                    at_isSharedPreRaster := False \<rparr>, w, b)))"

subsection \<open>Barrier commands\<close>

text \<open>The commands \<open>resolveComputePassBarrier\<close> and \<open>resolveRenderPassBarrier\<close> emit.\<close>

datatype barrier_command =
    compute_memory_barrier
  | tile_barrier
  | render_barrier_PreRaster_PreRaster
  | render_barrier_Fragment_after_PreRaster

definition resolveComputePassBarrier :: "2 word \<Rightarrow> barrier_state \<Rightarrow> barrier_command list \<times> barrier_state" where
  "resolveComputePassBarrier control b =
     (if barrierSet b AND NOT control \<noteq> 0 then ([compute_memory_barrier], b\<lparr> barrierSet := 0 \<rparr>) else ([], b))"

definition resolveRenderPassBarrier :: "2 word \<Rightarrow> barrier_state \<Rightarrow> barrier_command list \<times> barrier_state" where
  "resolveRenderPassBarrier control b =
     (if barrierPreRasterAfterFragmentSet b AND NOT control \<noteq> 0 then ([], no_barriers)
      else
       (let (c1, b) = (if barrierSet b AND NOT control \<noteq> 0
                       then ([tile_barrier], b\<lparr> barrierSet := 0 \<rparr>) else ([], b));
            (c2, b) = (if barrierPreRasterSet b AND NOT control \<noteq> 0
                       then ([render_barrier_PreRaster_PreRaster], b\<lparr> barrierPreRasterSet := 0 \<rparr>) else ([], b));
            (c3, b) = (if barrierFragmentAfterPreRasterSet b AND NOT control \<noteq> 0
                       then ([render_barrier_Fragment_after_PreRaster],
                             b\<lparr> barrierFragmentAfterPreRasterSet := 0 \<rparr>) else ([], b))
        in (c1 @ c2 @ c3, b)))"

subsection \<open>The tracking set as a shift register\<close>

definition ts_ok :: "tracking_set \<Rightarrow> bool" where
  "ts_ok t \<longleftrightarrow> length (ts_storage t) = kLane + 1 \<and> ts_cursor t < kLane"

definition history :: "tracking_set \<Rightarrow> u64 list" where
  "history t = map (\<lambda>i. ts_storage t ! ((ts_cursor t + kLane - i) mod kLane)) [0..<kLane]"

lemma length_history [simp]: "length (history t) = kLane"
  by (simp add: history_def)

lemma nth_history: "i < kLane \<Longrightarrow> history t ! i = ts_storage t ! ((ts_cursor t + kLane - i) mod kLane)"
  by (simp add: history_def)

lemma history_0: "ts_ok t \<Longrightarrow> history t ! 0 = ts_storage t ! ts_cursor t"
  by (simp add: nth_history ts_ok_def)

lemma ring_sub:
  fixes c i :: nat
  assumes "c < 64"
  shows "i \<le> c \<Longrightarrow> (c + 64 - i) mod 64 = c - i"
    and "c < i \<Longrightarrow> i \<le> 64 \<Longrightarrow> (c + 64 - i) mod 64 = c + 64 - i"
proof -
  assume "i \<le> c"
  then have "c + 64 - i = (c - i) + 64" by simp
  then show "(c + 64 - i) mod 64 = c - i" using assms by (metis less_imp_diff_less mod_add_self2 mod_less)
next
  assume "c < i" "i \<le> 64"
  then show "(c + 64 - i) mod 64 = c + 64 - i" by (intro mod_less) linarith
qed

lemma ring_index:
  assumes "c < (64 :: nat)" "i < 63"
  shows "((c + 1) mod 64 + 64 - Suc i) mod 64 = (c + 64 - i) mod 64"
    and "((c + 1) mod 64 + 64 - Suc i) mod 64 \<noteq> (c + 1) mod 64"
proof -
  have d: "(c + 1) mod 64 < 64" by simp
  have e: "(c + 1) mod 64 = (if c = 63 then 0 else c + 1)" using assms by simp
  show "((c + 1) mod 64 + 64 - Suc i) mod 64 = (c + 64 - i) mod 64"
    using ring_sub [OF d, of "Suc i"] ring_sub [OF assms(1), of i] assms unfolding e
    by (cases "c = 63"; cases "i \<le> c") simp_all
  show "((c + 1) mod 64 + 64 - Suc i) mod 64 \<noteq> (c + 1) mod 64"
    using ring_sub [OF d, of "Suc i"] assms(2) d by (cases "Suc i \<le> (c + 1) mod 64") linarith+
qed

lemma history_push:
  assumes "ts_ok t"
  shows "history (t\<lparr> ts_storage := (ts_storage t)[(ts_cursor t + 1) mod kLane := i],
                      ts_cursor := (ts_cursor t + 1) mod kLane \<rparr>) = i # butlast (history t)"
    (is "history ?t = _")
proof (rule nth_equalityI)
  show "length (history ?t) = length (i # butlast (history t))" by simp
  fix k assume k: "k < length (history ?t)"
  have len: "(ts_cursor t + 1) mod 64 < length (ts_storage t)"
    using assms mod_less_divisor [of 64 "ts_cursor t + 1"] unfolding ts_ok_def by (simp only: kLane_def)
  show "history ?t ! k = (i # butlast (history t)) ! k"
  proof (cases k)
    case 0
    then show ?thesis using len by (simp add: nth_history)
  next
    case (Suc j)
    then have j: "j < 63" using k by simp
    have c: "ts_cursor t < 64" using assms by (simp add: ts_ok_def)
    show ?thesis
      using Suc j ring_index [OF c j] by (simp add: nth_history nth_butlast)
  qed
qed

lemma history_clear:
  assumes "ts_ok t"
  shows "history (ts_clear t) = 0 # tl (history t)"
proof (rule nth_equalityI)
  show "length (history (ts_clear t)) = length (0 # tl (history t))" by simp
  fix k assume k: "k < length (history (ts_clear t))"
  show "history (ts_clear t) ! k = (0 # tl (history t)) ! k"
  proof (cases k)
    case 0
    then show ?thesis using assms by (simp add: nth_history ts_clear_def ts_ok_def)
  next
    case (Suc j)
    have c: "ts_cursor t < 64" using assms by (simp add: ts_ok_def)
    have "(ts_cursor t + 64 - Suc j) mod 64 \<noteq> ts_cursor t"
      using ring_sub [OF c, of "Suc j"] c k Suc by (cases "Suc j \<le> ts_cursor t") simp_all
    then show ?thesis using Suc k by (simp add: nth_history ts_clear_def nth_tl)
  qed
qed

text \<open>\<open>tracks t G\<close>: since the last \<open>clear\<close> the accesses \<open>G\<close>, latest first, were added.\<close>

definition tracks :: "tracking_set \<Rightarrow> u64 list \<Rightarrow> bool" where
  "tracks t G \<longleftrightarrow> ts_ok t \<and> (\<exists>rest. history t = take kLane (G @ 0 # rest))"

lemma ts_ok_clear [simp]: "ts_ok t \<Longrightarrow> ts_ok (ts_clear t)"
  by (simp add: ts_ok_def ts_clear_def)

lemma ts_ok_add: "ts_ok t \<Longrightarrow> ts_ok (snd (ts_add i t))"
  by (simp add: ts_ok_def ts_add_def Let_def)

lemma tracks_clear: "ts_ok t \<Longrightarrow> tracks (ts_clear t) []"
  using history_clear [of t] length_history [of t]
  by (auto simp: tracks_def intro!: exI [of _ "tl (history t)"])

lemma tracks_new: "length uninitialised = kLane + 1 \<Longrightarrow> tracks (ts_new uninitialised) []"
  unfolding ts_new_def by (rule tracks_clear) (simp add: ts_ok_def)

lemma tracks_last:
  assumes "tracks t G" "i \<noteq> 0"
  shows "ts_isLastAccess t i \<longleftrightarrow> G \<noteq> [] \<and> hd G = i"
proof -
  obtain rest where "history t = take kLane (G @ 0 # rest)" "ts_ok t"
    using assms(1) by (auto simp: tracks_def)
  then have "ts_storage t ! ts_cursor t = (G @ 0 # rest) ! 0"
    using history_0 [of t] by (simp del: take_append)
  then show ?thesis using assms(2) by (cases G) (auto simp: ts_isLastAccess_def)
qed

lemma tracks_add:
  assumes "tracks t G" "i \<noteq> 0" "G = [] \<or> hd G \<noteq> i"
  shows "tracks (snd (ts_add i t)) (i # G)"
proof -
  obtain rest where h: "history t = take kLane (G @ 0 # rest)" and ok: "ts_ok t"
    using assms(1) by (auto simp: tracks_def)
  have "\<not> ts_isLastAccess t i" using tracks_last [OF assms(1,2)] assms(3) by auto
  then have add: "snd (ts_add i t) = t\<lparr> ts_storage := (ts_storage t)[(ts_cursor t + 1) mod kLane := i],
                      ts_cursor := (ts_cursor t + 1) mod kLane \<rparr>"
    by (simp add: ts_add_def ts_isLastAccess_def Let_def)
  have len: "kLane \<le> length (G @ 0 # rest)" using length_history [of t] unfolding h by simp
  have "history (snd (ts_add i t)) = i # butlast (history t)"
    unfolding add by (rule history_push [OF ok])
  also have "\<dots> = take kLane ((i # G) @ 0 # rest)"
    using len unfolding h by (simp add: butlast_take del: take_append)
  finally show ?thesis using ts_ok_add [OF ok] by (auto simp: tracks_def)
qed

text \<open>\<open>enumerate\<close> reads the history front to back.\<close>

fun scan :: "u64 \<Rightarrow> u64 list \<Rightarrow> u64 list" where
  "scan b [] = []"
| "scan b (c # cs) = (if b \<le> c then scan b cs else if b - of_nat kLane < c then c # scan b cs else [])"

lemma enumerate_scan: "ts_enumerate t b = scan b (history t)"
proof -
  have "ts_enumerate_from t b is
      = scan b (map (\<lambda>i. ts_storage t ! ((ts_cursor t + kLane - i) mod kLane)) is)" for "is"
    by (induction "is") (simp_all add: Let_def)
  then show ?thesis unfolding ts_enumerate_def history_def .
qed

definition in_window :: "u64 \<Rightarrow> u64 \<Rightarrow> bool" where
  "in_window b c \<longleftrightarrow> unat c < unat b \<and> unat b < unat c + 64"

lemma in_window_word:
  assumes "64 < unat b"
  shows "c < b \<and> b - of_nat kLane < c \<longleftrightarrow> in_window b c"
proof -
  have "unat (b - 64) = unat b - 64"
    using assms by (subst unat_sub_nowrap) (simp_all add: word_le_nat_alt)
  then show ?thesis using assms by (auto simp: word_less_nat_alt in_window_def)
qed

lemma scan_desc:
  assumes "64 < unat b"
  shows "sorted_wrt (>) G \<Longrightarrow> scan b G = filter (in_window b) G"
    and "sorted_wrt (>) G \<Longrightarrow> scan b (G @ 0 # rest) = filter (in_window b) G"
proof -
  have none: "\<not> in_window b x" if "x < c" "c < b" "\<not> b - of_nat kLane < c" for x c
    using that in_window_word [OF assms, of x] by auto
  show "sorted_wrt (>) G \<Longrightarrow> scan b G = filter (in_window b) G"
  proof (induction G)
    case (Cons c G)
    then show ?case using none [of _ c] in_window_word [OF assms, of c]
      by (auto simp: not_le filter_empty_conv not_less[symmetric] simp del: kLane_def)
  qed simp
  have b0: "\<not> b \<le> 0" using assms by (auto simp: word_le_nat_alt)
  show "sorted_wrt (>) G \<Longrightarrow> scan b (G @ 0 # rest) = filter (in_window b) G"
  proof (induction G)
    case (Cons c G)
    then show ?case using none [of _ c] in_window_word [OF assms, of c]
      by (auto simp: not_le filter_empty_conv not_less[symmetric] simp del: kLane_def)
  qed (use b0 in simp)
qed

text \<open>Strictly descending ids bounded by \<open>b\<close> fill at most \<open>b - c + 1\<close> places down to \<open>c\<close>.\<close>

lemma desc_index:
  "sorted_wrt (>) G \<Longrightarrow> k < length G \<Longrightarrow> \<forall>g \<in> set G. unat g \<le> n \<Longrightarrow> unat (G ! k :: u64) + k \<le> n"
proof (induction G arbitrary: k n)
  case (Cons g G)
  show ?case
  proof (cases k)
    case (Suc j)
    have "\<forall>x \<in> set G. unat x \<le> unat g - 1" using Cons.prems(1) by (auto simp: word_less_nat_alt)
    moreover have "sorted_wrt (>) G" "j < length G" using Cons.prems Suc by auto
    ultimately have "unat (G ! j) + j \<le> unat g - 1" by (intro Cons.IH) auto
    moreover have "G ! j < g" using Cons.prems(1) \<open>j < length G\<close> by simp
    moreover have "unat g \<le> n" using Cons.prems(3) by simp
    ultimately show ?thesis using Suc by (simp add: word_less_nat_alt)
  qed (use Cons.prems in simp)
qed simp

text \<open>So nothing in the window has left the ring, provided no later access than \<open>b\<close> was added.\<close>

lemma enumerate_complete:
  assumes t: "tracks t G" and desc: "sorted_wrt (>) G" and b: "64 < unat b" "\<forall>g \<in> set G. g \<le> b"
  shows "ts_enumerate t b = filter (in_window b) G"
proof -
  obtain rest where h: "history t = take kLane (G @ 0 # rest)"
    using t by (auto simp: tracks_def)
  show ?thesis
  proof (cases "length G < kLane")
    case True
    then have "history t = G @ 0 # take (kLane - length G - 1) rest"
      unfolding h by (simp add: take_Cons')
    then show ?thesis unfolding enumerate_scan by (simp only: scan_desc(2) [OF b(1) desc])
  next
    case False
    then have hG: "history t = take kLane G" unfolding h by simp
    have "filter (in_window b) (drop kLane G) = []"
    proof (rule filter_False, rule ballI)
      fix c assume "c \<in> set (drop kLane G)"
      then obtain k where k: "k < length (drop kLane G)" "c = drop kLane G ! k"
        by (auto simp: in_set_conv_nth)
      then have "unat (G ! (kLane + k)) + (kLane + k) \<le> unat b"
        using b(2) by (intro desc_index [OF desc]) (auto simp: word_le_nat_alt)
      then show "\<not> in_window b c" using k False by (simp add: in_window_def)
    qed
    then have "filter (in_window b) G = filter (in_window b) (take kLane G)"
      by (metis append_Nil2 append_take_drop_id filter_append)
    moreover have "sorted_wrt (>) (take kLane G)" using desc by (rule sorted_wrt_take)
    ultimately show ?thesis unfolding enumerate_scan hG by (simp only: scan_desc(1) [OF b(1)])
  qed
qed

subsection \<open>Compute and blit accesses\<close>

text \<open>
  A sequence of accesses of one resource by compute or blit encoders, as \<open>track\<close> issues them: write,
  uav, encoder id. Each access's fences are collected from an empty set; the encoder's own wait set
  is their union.
\<close>

type_synonym access = "bool \<times> bool \<times> u64"

definition access_step :: "access \<Rightarrow> access_tracker \<times> (u64 \<times> fence_set) list \<Rightarrow> access_tracker \<times> (u64 \<times> fence_set) list" where
  "access_step a s =
     (case a of (write, uav, i) \<Rightarrow>
      case s of (t, waits) \<Rightarrow>
        (let (t', w, b) = (if write then accessExclusive i uav t fs_empty no_barriers
                           else accessShared i t fs_empty no_barriers)
         in (t', (i, w) # waits)))"

definition access_run :: "u64 list \<Rightarrow> access list \<Rightarrow> access_tracker \<times> (u64 \<times> fence_set) list" where
  "access_run uninitialised as = fold access_step as (at_new uninitialised, [])"

definition wait_edges :: "(u64 \<times> fence_set) list \<Rightarrow> (nat \<times> nat) list" where
  "wait_edges ws = concat (map (\<lambda>(i, w). wait_pairs i w) ws)"

definition access_id :: "access \<Rightarrow> u64" where "access_id a = snd (snd a)"

definition accesses_ok :: "u64 list \<Rightarrow> access list \<Rightarrow> bool" where
  "accesses_ok uninitialised as \<longleftrightarrow> length uninitialised = kLane + 1
     \<and> list_all (\<lambda>a. kParityLane \<le> unat (access_id a)) as \<and> sorted (map access_id as)"

definition conflict :: "access \<Rightarrow> access \<Rightarrow> bool" where
  "conflict a b \<longleftrightarrow> fst a \<or> fst b"

text \<open>What the wait set of one access holds.\<close>

lemma dec_fold_set:
  assumes "fs_ok w" "256 \<le> unat i" "\<forall>c \<in> set cs. in_window i c"
  shows "dec (unat i) (fences (fold fs_set cs w)) = unat ` set cs \<union> dec (unat i) (fences w)"
proof -
  have "fences (fold fs_set cs w) = slot ` set cs \<union> fences w"
    by (rule fence_slots.elems_fold_add [OF assms(1)])
  moreover have "dec (unat i) (slot ` set cs) = unat ` set cs"
    using assms(3)
  proof (induction cs)
    case (Cons c cs)
    then have "unat c < unat i" "unat i < unat c + 256" by (auto simp: in_window_def)
    then show ?case using Cons by (simp add: slot_mod dec_simps)
  qed (simp add: dec_simps)
  ultimately show ?thesis by (simp add: dec_simps)
qed

lemma near_fold_set:
  assumes "fs_ok w" "256 \<le> unat i" "\<forall>c \<in> set cs. in_window i c" "strong_near i w"
  shows "strong_near i (fold fs_set cs w)"
proof -
  have "slot c \<in> (\<lambda>k. (unat i - k) mod 256) ` set [1..<64]" if "in_window i c" for c
    by (rule image_eqI [of _ _ "unat i - unat c"])
      (use that assms(2) in \<open>auto simp: in_window_def slot_mod\<close>)
  then show ?thesis
    using assms by (auto simp: strong_near_def fence_slots.elems_fold_add fence_slots.ok_fold_add)
qed

lemma wait_if_near_fold:
  assumes "unat e \<le> unat i" "256 \<le> unat i" "e \<noteq> i"
  shows "wait_if_near i e w = fold fs_set (if in_window i e then [e] else []) w"
    and "unat e = 0 \<Longrightarrow> \<not> in_window i e"
proof -
  have "unat (i - e) = unat i - unat e" using assms(1) by (simp add: word_nat word_le_nat_alt)
  then have "i - e < of_nat kLane \<longleftrightarrow> unat i - unat e < 64" by (simp add: word_less_nat_alt)
  moreover have "unat e \<noteq> unat i" using assms(3) by (auto simp: word_unat_eq_iff)
  ultimately show "wait_if_near i e w = fold fs_set (if in_window i e then [e] else []) w"
    using assms by (auto simp: wait_if_near_def in_window_def)
  show "unat e = 0 \<Longrightarrow> \<not> in_window i e" using assms by (simp add: in_window_def)
qed

text \<open>
  The invariant of a run. \<open>R\<close> holds the accesses so far as pairs (write, id), \<open>W\<close> the recorded
  waits, \<open>n\<close> the latest id.
\<close>

definition hazards_ordered :: "(bool \<times> nat) set \<Rightarrow> (nat \<times> nat) set \<Rightarrow> bool" where
  "hazards_ordered R W \<longleftrightarrow> (\<forall>x a y b. (x, a) \<in> R \<longrightarrow> (y, b) \<in> R \<longrightarrow> x \<or> y \<longrightarrow> a < b \<longrightarrow> b < a + 64
      \<longrightarrow> (a, b) \<in> W\<^sup>+)"

definition tracker_inv :: "access_tracker \<Rightarrow> (bool \<times> nat) set \<Rightarrow> (nat \<times> nat) set \<Rightarrow> nat \<Rightarrow> bool" where
  "tracker_inv t R W n \<longleftrightarrow>
     (\<exists>G. tracks (at_shared t) G \<and> sorted_wrt (>) G
        \<and> (\<forall>g \<in> set G. at_exclusive t < g \<and> (False, unat g) \<in> R)
        \<and> (\<forall>a. (False, a) \<in> R \<longrightarrow> unat (at_exclusive t) < a \<longrightarrow> a \<in> unat ` set G))
     \<and> (at_exclusive t = 0 \<and> (\<forall>a. (True, a) \<notin> R) \<or> (True, unat (at_exclusive t)) \<in> R)
     \<and> (\<forall>a. (True, a) \<in> R \<longrightarrow> a \<le> unat (at_exclusive t))
     \<and> (\<forall>x a. (x, a) \<in> R \<longrightarrow> 256 \<le> a \<and> a \<le> n)
     \<and> hazards_ordered R W"

lemma tracker_invI:
  assumes "tracks (at_shared t) G" "sorted_wrt (>) G"
    and "\<forall>g \<in> set G. at_exclusive t < g \<and> (False, unat g) \<in> R"
    and "\<forall>a. (False, a) \<in> R \<longrightarrow> unat (at_exclusive t) < a \<longrightarrow> a \<in> unat ` set G"
    and "at_exclusive t = 0 \<and> (\<forall>a. (True, a) \<notin> R) \<or> (True, unat (at_exclusive t)) \<in> R"
    and "\<forall>a. (True, a) \<in> R \<longrightarrow> a \<le> unat (at_exclusive t)"
    and "\<forall>x a. (x, a) \<in> R \<longrightarrow> 256 \<le> a \<and> a \<le> n" and "hazards_ordered R W"
  shows "tracker_inv t R W n"
  unfolding tracker_inv_def using assms by blast

lemma tracker_invE:
  assumes "tracker_inv t R W n"
  obtains G where "tracks (at_shared t) G" "sorted_wrt (>) G"
    "\<forall>g \<in> set G. at_exclusive t < g \<and> (False, unat g) \<in> R"
    "\<forall>a. (False, a) \<in> R \<longrightarrow> unat (at_exclusive t) < a \<longrightarrow> a \<in> unat ` set G"
    "at_exclusive t = 0 \<and> (\<forall>a. (True, a) \<notin> R) \<or> (True, unat (at_exclusive t)) \<in> R"
    "\<forall>a. (True, a) \<in> R \<longrightarrow> a \<le> unat (at_exclusive t)"
    "\<forall>x a. (x, a) \<in> R \<longrightarrow> 256 \<le> a \<and> a \<le> n" "hazards_ordered R W"
  using assms unfolding tracker_inv_def by blast

lemma hazards_ordered_insert:
  assumes "hazards_ordered R W" "W \<subseteq> W'" "\<forall>y b. (y, b) \<in> R \<longrightarrow> b \<le> i"
    and new: "\<And>x a. (x, a) \<in> R \<Longrightarrow> x \<or> w \<Longrightarrow> a < i \<Longrightarrow> i < a + 64 \<Longrightarrow> (a, i) \<in> W'\<^sup>+"
  shows "hazards_ordered (insert (w, i) R) W'"
  unfolding hazards_ordered_def
proof (intro allI impI)
  fix x a y b
  assume *: "(x, a) \<in> insert (w, i) R" "(y, b) \<in> insert (w, i) R" "x \<or> y" "a < b" "b < a + 64"
  have "b \<le> i" using *(2) assms(3) by auto
  then have R: "(x, a) \<in> R" using *(1,4) by auto
  show "(a, b) \<in> W'\<^sup>+"
  proof (cases "(y, b) \<in> R")
    case True
    then have "(a, b) \<in> W\<^sup>+" using R *(3-5) assms(1) unfolding hazards_ordered_def by blast
    then show ?thesis using assms(2) trancl_mono by blast
  next
    case False
    then show ?thesis using R * new by auto
  qed
qed

text \<open>The chain through the latest exclusive access.\<close>

lemma ordered_through_exclusive:
  assumes "hazards_ordered R W" "W \<subseteq> W'" "(x, a) \<in> R" "(True, e) \<in> R" "a \<le> e" "e < i" "i < a + 64"
    and "(e, i) \<in> W'"
  shows "(a, i) \<in> W'\<^sup>+"
proof (cases "a = e")
  case False
  then have "(a, e) \<in> W\<^sup>+" using assms unfolding hazards_ordered_def by auto
  then have "(a, e) \<in> W'\<^sup>+" using assms(2) trancl_mono by blast
  then show ?thesis using assms(8) by (rule trancl.trancl_into_trancl)
qed (use assms in auto)

text \<open>The step of a shared access.\<close>

lemma shared_inv:
  assumes inv: "tracker_inv t R W n" and i: "256 \<le> unat i" "n \<le> unat i"
    and call: "accessShared i t fs_empty no_barriers = (t', w, b)"
    and W': "W' = (\<lambda>j. (j, unat i)) ` dec (unat i) (fences w) \<union> W"
  shows "tracker_inv t' (insert (False, unat i) R) W' (unat i) \<and> strong_near i w"
proof -
  let ?R = "insert (False, unat i) R"
  let ?e = "at_exclusive t"
  obtain G where G: "tracks (at_shared t) G" "sorted_wrt (>) G"
      "\<forall>g \<in> set G. ?e < g \<and> (False, unat g) \<in> R"
      "\<forall>a. (False, a) \<in> R \<longrightarrow> unat ?e < a \<longrightarrow> a \<in> unat ` set G"
    and E: "?e = 0 \<and> (\<forall>a. (True, a) \<notin> R) \<or> (True, unat ?e) \<in> R"
      "\<forall>a. (True, a) \<in> R \<longrightarrow> a \<le> unat ?e"
    and R: "\<forall>x a. (x, a) \<in> R \<longrightarrow> 256 \<le> a \<and> a \<le> n" and haz: "hazards_ordered R W"
    using inv by (rule tracker_invE)
  have "(True, unat ?e) \<in> R \<Longrightarrow> unat ?e \<le> n" using R by blast
  then have Ei: "unat ?e \<le> unat i" using E(1) i(2) by auto
  have WW: "W \<subseteq> W'" unfolding W' by blast
  have bound: "\<forall>x a. (x, a) \<in> R \<longrightarrow> a \<le> unat i" using R i(2) by force
  have R': "\<forall>x a. (x, a) \<in> ?R \<longrightarrow> 256 \<le> a \<and> a \<le> unat i" using bound R i by auto
  have i0: "i \<noteq> 0" using i(1) by auto
  consider (same) "?e = i" | (again) "?e \<noteq> i" "ts_isLastAccess (at_shared t) i"
    | (first) "?e \<noteq> i" "\<not> ts_isLastAccess (at_shared t) i" by blast
  then show "tracker_inv t' ?R W' (unat i) \<and> strong_near i w"
  proof cases
    case same
    then have t': "w = fs_empty" "at_shared t' = at_shared t" "at_exclusive t' = ?e"
      using call by (auto simp: accessShared_def split: if_splits)
    then have W'_eq: "W' = W" unfolding W' by (simp add: fence_simps dec_simps)
    have e: "(True, unat i) \<in> R" using E(1) same i0 by auto
    have "hazards_ordered ?R W"
    proof (rule hazards_ordered_insert [OF haz order_refl bound])
      fix x a assume "(x, a) \<in> R" "x \<or> False" "a < unat i" "unat i < a + 64"
      then show "(a, unat i) \<in> W\<^sup>+" using haz e unfolding hazards_ordered_def by blast
    qed
    then have "tracker_inv t' ?R W' (unat i)"
      unfolding W'_eq by (intro tracker_invI [of _ G] R') (use G E same e in \<open>auto simp: t'\<close>)
    then show ?thesis using t' by (simp add: strong_near_empty)
  next
    case again
    then have t': "w = fs_empty" "t' = t"
      using call by (auto simp: accessShared_def)
    then have W'_eq: "W' = W" unfolding W' by (simp add: fence_simps dec_simps)
    have "i \<in> set G" using again(2) tracks_last [OF G(1) i0] by (cases G) auto
    then have "?R = R" using G(3) by auto
    then have "tracker_inv t' ?R W' (unat i)"
      unfolding W'_eq t' \<open>?R = R\<close> using R' \<open>?R = R\<close> by (intro tracker_invI [OF G E(1,2) _ haz]) simp
    then show ?thesis using t' by (simp add: strong_near_empty)
  next
    case first
    have t': "w = wait_if_near i ?e fs_empty" "at_shared t' = snd (ts_add i (at_shared t))"
        "at_exclusive t' = ?e"
      using call first by (auto simp: accessShared_def)
    note near = wait_if_near_fold [OF Ei i(1) first(1)]
    have dec_w: "dec (unat i) (fences w) = (if in_window i ?e then {unat ?e} else {})"
      unfolding t' near(1) using dec_fold_set [of fs_empty i "if in_window i ?e then [?e] else []"] i(1)
      by (simp add: fence_simps dec_simps split: if_splits)
    have sn: "strong_near i w"
      unfolding t' near(1) by (rule near_fold_set) (simp_all add: i strong_near_empty)
    have lt: "unat ?e < unat i" using Ei first(1) by (metis le_neq_implies_less word_unat_eq_iff)
    have not_in: "i \<notin> set G"
    proof
      assume "i \<in> set G"
      then have "(False, unat i) \<in> R" using G(3) by blast
      moreover have "unat (hd G) \<le> unat i" using G(3) \<open>i \<in> set G\<close> bound by (cases G) auto
      moreover have "hd G = i \<or> i < hd G" using G(2) \<open>i \<in> set G\<close> by (cases G) auto
      ultimately have "hd G = i" by (auto simp: word_less_nat_alt)
      then show False using first(2) tracks_last [OF G(1) i0] \<open>i \<in> set G\<close> by auto
    qed
    have below: "\<forall>g \<in> set G. g < i"
      using G(3) bound not_in by (metis word_less_nat_alt le_neq_implies_less word_unat_eq_iff)
    have tr: "tracks (snd (ts_add i (at_shared t))) (i # G)"
      using not_in by (intro tracks_add [OF G(1) i0]) (cases G, auto)
    have "hazards_ordered ?R W'"
    proof (rule hazards_ordered_insert [OF haz WW bound])
      fix x a assume a: "(x, a) \<in> R" "x \<or> False" "a < unat i" "unat i < a + 64"
      then have "a \<le> unat ?e" "(True, unat ?e) \<in> R" using E by auto
      moreover have "(unat ?e, unat i) \<in> W'"
        unfolding W' dec_w using \<open>a \<le> unat ?e\<close> a(4) lt by (simp add: in_window_def)
      ultimately show "(a, unat i) \<in> W'\<^sup>+"
        using ordered_through_exclusive [OF haz WW a(1)] lt a(4) by blast
    qed
    moreover have "sorted_wrt (>) (i # G)" using below G(2) by simp
    moreover have "\<forall>g \<in> set (i # G). ?e < g \<and> (False, unat g) \<in> ?R"
      using G(3) lt by (simp add: word_less_nat_alt)
    moreover have "\<forall>a. (False, a) \<in> ?R \<longrightarrow> unat ?e < a \<longrightarrow> a \<in> unat ` set (i # G)"
      using G(4) by auto
    moreover have "?e = 0 \<and> (\<forall>a. (True, a) \<notin> ?R) \<or> (True, unat ?e) \<in> ?R"
      "\<forall>a. (True, a) \<in> ?R \<longrightarrow> a \<le> unat ?e"
      using E by auto
    ultimately have "tracker_inv t' ?R W' (unat i)"
      using tr R' unfolding t'(2,3) [symmetric] by (intro tracker_invI)
    then show ?thesis using sn by blast
  qed
qed

text \<open>The step of an exclusive access.\<close>

lemma exclusive_inv:
  assumes inv: "tracker_inv t R W n" and i: "256 \<le> unat i" "n \<le> unat i"
    and call: "accessExclusive i uav t fs_empty no_barriers = (t', w, b)"
    and W': "W' = (\<lambda>j. (j, unat i)) ` dec (unat i) (fences w) \<union> W"
  shows "tracker_inv t' (insert (True, unat i) R) W' (unat i) \<and> strong_near i w"
proof -
  let ?R = "insert (True, unat i) R"
  let ?e = "at_exclusive t"
  obtain G where G: "tracks (at_shared t) G" "sorted_wrt (>) G"
      "\<forall>g \<in> set G. ?e < g \<and> (False, unat g) \<in> R"
      "\<forall>a. (False, a) \<in> R \<longrightarrow> unat ?e < a \<longrightarrow> a \<in> unat ` set G"
    and E: "?e = 0 \<and> (\<forall>a. (True, a) \<notin> R) \<or> (True, unat ?e) \<in> R"
      "\<forall>a. (True, a) \<in> R \<longrightarrow> a \<le> unat ?e"
    and R: "\<forall>x a. (x, a) \<in> R \<longrightarrow> 256 \<le> a \<and> a \<le> n" and haz: "hazards_ordered R W"
    using inv by (rule tracker_invE)
  have "(True, unat ?e) \<in> R \<Longrightarrow> unat ?e \<le> n" using R by blast
  then have Ei: "unat ?e \<le> unat i" using E(1) i(2) by auto
  have WW: "W \<subseteq> W'" unfolding W' by blast
  have bound: "\<forall>x a. (x, a) \<in> R \<longrightarrow> a \<le> unat i" using R i(2) by force
  have R': "\<forall>x a. (x, a) \<in> ?R \<longrightarrow> 256 \<le> a \<and> a \<le> unat i" using bound R i by auto
  have i0: "i \<noteq> 0" using i(1) by auto
  show ?thesis
  proof (cases "?e = i")
    case True
    then have t': "w = fs_empty" "at_shared t' = at_shared t" "at_exclusive t' = ?e"
      using call by (auto simp: accessExclusive_def)
    then have W'_eq: "W' = W" unfolding W' by (simp add: fence_simps dec_simps)
    have "?R = R" using E(1) True i0 by auto
    then have "tracker_inv t' ?R W' (unat i)"
      unfolding W'_eq using R' by (intro tracker_invI [of _ G]) (use G E haz in \<open>simp_all add: t'\<close>)
    then show ?thesis using t' by (simp add: strong_near_empty)
  next
    case False
    let ?cs = "ts_enumerate (at_shared t) i @ (if in_window i ?e then [?e] else [])"
    have t': "at_shared t' = ts_clear (at_shared t)" "at_exclusive t' = i"
      and w: "w = wait_if_near i ?e (fold fs_set (ts_enumerate (at_shared t) i) fs_empty)"
      using call False by (auto simp: accessExclusive_def Let_def)
    note near = wait_if_near_fold [OF Ei i(1) False]
    have w_fold: "w = fold fs_set ?cs fs_empty" unfolding w near(1) by simp
    have "64 < unat i" "\<forall>g \<in> set G. g \<le> i"
      using i(1) by simp (unfold word_le_nat_alt, use G(3) bound in blast)
    then have enum: "ts_enumerate (at_shared t) i = filter (in_window i) G"
      by (rule enumerate_complete [OF G(1,2)])
    have win: "\<forall>c \<in> set ?cs. in_window i c" unfolding enum by auto
    have dec_w: "dec (unat i) (fences w) = unat ` set ?cs"
      unfolding w_fold using dec_fold_set [OF _ i(1) win, of fs_empty] by (simp add: fence_simps dec_simps)
    have sn: "strong_near i w"
      unfolding w_fold by (rule near_fold_set [OF _ i(1) win]) (simp_all add: strong_near_empty)
    have lt: "unat ?e < unat i" using Ei False by (metis le_neq_implies_less word_unat_eq_iff)
    have "hazards_ordered ?R W'"
    proof (rule hazards_ordered_insert [OF haz WW bound])
      fix x a assume a: "(x, a) \<in> R" "x \<or> True" "a < unat i" "unat i < a + 64"
      show "(a, unat i) \<in> W'\<^sup>+"
      proof (cases "a \<le> unat ?e")
        case True
        then have "0 < unat ?e" using R a(1) by force
        then have "(True, unat ?e) \<in> R" using E(1) by auto
        moreover have "(unat ?e, unat i) \<in> W'"
          unfolding W' dec_w using True a(4) lt by (simp add: in_window_def)
        ultimately show ?thesis
          using ordered_through_exclusive [OF haz WW a(1)] True lt a(4) by blast
      next
        case False
        then have "\<not> x" using E(2) a(1) by auto
        then obtain g where "g \<in> set G" "a = unat g" using G(4) a(1) False by auto
        then have "(a, unat i) \<in> W'"
          unfolding W' dec_w enum using a(3,4) by (auto simp: in_window_def)
        then show ?thesis by blast
      qed
    qed
    moreover have "tracks (at_shared t') []"
      unfolding t' by (rule tracks_clear) (use G(1) in \<open>simp add: tracks_def\<close>)
    moreover have "\<forall>a. (False, a) \<in> ?R \<longrightarrow> unat (at_exclusive t') < a \<longrightarrow> a \<in> unat ` set []"
      unfolding t' using bound by (auto simp: not_le [symmetric])
    moreover have "\<forall>a. (True, a) \<in> ?R \<longrightarrow> a \<le> unat (at_exclusive t')"
      unfolding t' using bound by auto
    ultimately have "tracker_inv t' ?R W' (unat i)"
      using R' by (intro tracker_invI [of _ "[]"]) (simp_all add: t')
    then show ?thesis using sn by blast
  qed
qed

lemma access_run_inv:
  assumes "length uninitialised = kLane + 1"
  shows "list_all (\<lambda>a. kParityLane \<le> unat (access_id a)) as \<Longrightarrow> sorted (map access_id as)
    \<Longrightarrow> access_run uninitialised as = (t, ws)
    \<Longrightarrow> tracker_inv t ((\<lambda>a. (fst a, unat (access_id a))) ` set as) (set (wait_edges ws))
           (if as = [] then 0 else unat (access_id (last as)))
       \<and> (\<forall>(i, w) \<in> set ws. strong_near i w) \<and> map fst ws = rev (map access_id as)"
proof (induction as arbitrary: t ws rule: rev_induct)
  case Nil
  have "tracks (at_shared t) []" "at_exclusive t = 0" "ws = []"
    using Nil.prems(3) tracks_new [OF assms] by (auto simp: access_run_def at_new_def)
  then show ?case by (simp add: wait_edges_def) (rule tracker_invI [of _ "[]"], simp_all add: hazards_ordered_def)
next
  case (snoc a as)
  obtain t0 ws0 where run: "access_run uninitialised as = (t0, ws0)" by fastforce
  obtain x uav i where a: "a = (x, uav, i)" by (cases a) auto
  obtain t1 w b where call: "(if x then accessExclusive i uav t0 fs_empty no_barriers
                           else accessShared i t0 fs_empty no_barriers) = (t1, w, b)"
    by (metis prod_cases3)
  have step: "t = t1" "ws = (i, w) # ws0"
    using snoc.prems(3) run call by (auto simp: access_run_def access_step_def a Let_def)
  let ?n = "if as = [] then 0 else unat (access_id (last as))"
  have i: "256 \<le> unat i" using snoc.prems(1) by (simp add: a access_id_def)
  have n: "?n \<le> unat i"
  proof (cases "as = []")
    case False
    then have "access_id (last as) \<in> access_id ` set as" by (intro imageI last_in_set)
    moreover have "\<forall>y \<in> access_id ` set as. y \<le> i"
      using snoc.prems(2) by (simp add: sorted_append a access_id_def)
    ultimately show ?thesis using False by (simp add: word_le_nat_alt)
  qed simp
  have ih: "tracker_inv t0 ((\<lambda>a. (fst a, unat (access_id a))) ` set as) (set (wait_edges ws0)) ?n"
    "\<forall>(i, w) \<in> set ws0. strong_near i w" "map fst ws0 = rev (map access_id as)"
    using snoc.IH [OF _ _ run] snoc.prems by (simp_all add: sorted_append)
  have W': "set (wait_edges ws) = (\<lambda>j. (j, unat i)) ` dec (unat i) (fences w) \<union> set (wait_edges ws0)"
    using set_wait_pairs [OF i, of w] by (simp add: step wait_edges_def)
  have "tracker_inv t (insert (x, unat i) ((\<lambda>a. (fst a, unat (access_id a))) ` set as))
      (set (wait_edges ws)) (unat i) \<and> strong_near i w"
    using shared_inv [OF ih(1) i n _ W'] exclusive_inv [OF ih(1) i n _ W'] call
    unfolding step(1) by (cases x) auto
  then show ?case using ih(2,3) by (simp add: step a access_id_def)
qed

subsection \<open>Properties\<close>

text \<open>C2: Every hazard is covered. When a resource is accessed by compute or blit encoders, any two
  conflicting accesses (one of them a write) from encoders less than 64 apart are ordered by the
  recorded waits, followed transitively, whatever was in the tracker's uninitialised storage.\<close>

theorem tracked_hazards_ordered:
  assumes "accesses_ok uninitialised as" "a \<in> set as" "b \<in> set as" "conflict a b"
    and "access_id a < access_id b" "unat (access_id b) < unat (access_id a) + kLane"
  shows "(unat (access_id a), unat (access_id b))
         \<in> (set (wait_edges (snd (access_run uninitialised as))))\<^sup>+"
proof -
  obtain t ws where run: "access_run uninitialised as = (t, ws)" by fastforce
  then have "hazards_ordered ((\<lambda>a. (fst a, unat (access_id a))) ` set as) (set (wait_edges ws))"
    using access_run_inv [OF _ _ _ run] assms(1) by (auto simp: accesses_ok_def tracker_inv_def)
  then show ?thesis
    using assms(4-) imageI [OF assms(2), of "\<lambda>a. (fst a, unat (access_id a))"]
      imageI [OF assms(3), of "\<lambda>a. (fst a, unat (access_id a))"]
    unfolding run hazards_ordered_def conflict_def word_less_nat_alt kLane_def snd_conv by blast
qed

lemma tracked_hazards_ordered_witness:
  "(256, 300) \<in> (set (wait_edges (snd (access_run (replicate 65 7)
      [(True, False, 256), (False, False, 290), (True, True, 300)]))))\<^sup>+"
proof -
  have "accesses_ok (replicate 65 7) [(True, False, 256), (False, False, 290), (True, True, 300)]"
    by (simp add: accesses_ok_def access_id_def)
  then show ?thesis
    using tracked_hazards_ordered [of "replicate 65 7" "[(True, False, 256), (False, False, 290), (True, True, 300)]"
        "(True, False, 256)" "(True, True, 300)"]
    by (simp add: conflict_def access_id_def)
qed

text \<open>The waits recorded for compute and blit accesses name only encoders less than 64 back, so
  the slot of a fence identifies its encoder.\<close>

theorem tracked_waits_recent:
  assumes "accesses_ok uninitialised as"
  shows "list_all (\<lambda>(i, w). strong_near i w) (snd (access_run uninitialised as))"
proof -
  obtain t ws where run: "access_run uninitialised as = (t, ws)" by fastforce
  then have "\<forall>(i, w) \<in> set ws. strong_near i w"
    using access_run_inv [OF _ _ _ run] assms(1) by (auto simp: accesses_ok_def)
  then show ?thesis by (simp add: run list_all_iff)
qed

lemma tracked_waits_recent_witness:
  "list_all (\<lambda>(i, w). strong_near i w) (snd (access_run (replicate 65 7) [(True, False, 256), (True, True, 300)]))"
  by (rule tracked_waits_recent) (simp add: accesses_ok_def access_id_def)

text \<open>Inside one compute encoder, a read that follows a write gets a memory barrier, whichever
  barriers are suppressed for overlapping UAV writes; so does a write after a first read.\<close>

theorem compute_raw_barrier:
  assumes "ts_ok (at_shared t)" "at_exclusive t \<noteq> i" "\<not> bit control 0"
  shows "(case accessExclusive i uav t w b of (t1, w1, b1) \<Rightarrow>
            case accessShared i t1 w1 b1 of (t2, w2, b2) \<Rightarrow>
              fst (resolveComputePassBarrier control b2)) = [compute_memory_barrier]
       \<and> (case accessShared i t w b of (t1, w1, b1) \<Rightarrow>
            case accessExclusive i uav t1 w1 b1 of (t2, w2, b2) \<Rightarrow>
              fst (resolveComputePassBarrier control b2)) = [compute_memory_barrier]"
proof -
  have rw: "(x OR 1) AND NOT control \<noteq> 0" for x :: "2 word"
  proof -
    have "bit ((x OR 1) AND NOT control) 0" using assms(3) by (simp add: bit_simps)
    then show ?thesis by (metis bit_0_eq bot_apply bot_bool_def)
  qed
  have last: "ts_isLastAccess (snd (ts_add i (at_shared t))) i"
    using assms(1) by (auto simp: ts_isLastAccess_def ts_add_def Let_def ts_ok_def
        intro!: nth_list_update_eq less_trans [OF mod_less_divisor])
  show ?thesis
    using assms(2) rw last
    by (auto simp: accessExclusive_def accessShared_def Let_def resolveComputePassBarrier_def
        add_barrier_def kBarrierTypeRW_def)
qed

lemma compute_raw_barrier_witness:
  "fst (resolveComputePassBarrier kBarrierTypeWaW (snd (snd
     (case accessExclusive 300 True (at_new (replicate 65 7)) fs_empty no_barriers of
        (t1, w1, b1) \<Rightarrow> accessShared 300 t1 w1 b1)))) = [compute_memory_barrier]"
proof -
  have "ts_ok (at_shared (at_new (replicate 65 7)))" "at_exclusive (at_new (replicate 65 7)) \<noteq> 300"
    "\<not> bit kBarrierTypeWaW 0"
    by (simp_all add: ts_ok_def at_new_def ts_new_def ts_clear_def kBarrierTypeWaW_def)
  from compute_raw_barrier [OF this, of True fs_empty no_barriers]
  show ?thesis by (simp only: case_prod_beta)
qed



text \<open>The ring holds one entry less than the window once an access of the next encoder (a render
  encoder's fragment half) is in it: after 64 consecutive encoders and the forward one have read a
  resource, an exclusive access does not see the oldest reader of its window, although \<open>storage_\<close>
  has a 65th, unused place.\<close>

theorem forward_access_evicts_oldest:
  assumes "length uninitialised = kLane + 1"
  shows "(let t = fold (\<lambda>i t. snd (ts_add (of_nat i) t)) [257..<322] (ts_new uninitialised)
          in in_window 320 257 \<and> 257 \<notin> set (ts_enumerate t 320)
             \<and> (\<forall>i \<in> {258..<320}. of_nat i \<in> set (ts_enumerate t 320)))"
proof -
  define t where "t n = fold (\<lambda>i t. snd (ts_add (of_nat i) t)) [257..<n] (ts_new uninitialised)" for n
  define G :: "nat \<Rightarrow> u64 list" where "G n = rev (map of_nat [257..<n])" for n
  have small: "unat (of_nat i :: u64) = i" if "i < 400" for i
    using that by (intro unat_of_nat_small) simp
  have tr: "n \<le> 322 \<Longrightarrow> tracks (t n) (G n)" if "257 \<le> n" for n
    using that
  proof (induction n rule: dec_induct)
    case base
    then show ?case using tracks_new [OF assms] by (simp add: t_def G_def)
  next
    case (step n)
    have "(of_nat n :: u64) \<noteq> 0" using small [of n] step by (auto dest!: arg_cong [where f = unat])
    moreover have "G n = [] \<or> hd (G n) \<noteq> of_nat n"
    proof (cases "n = 257")
      case False
      then have "[257..<n] = [257..<n - 1] @ [n - 1]" using step upt_Suc [of 257 "n - 1"] by simp
      then have "hd (G n) = of_nat (n - 1)" by (simp add: G_def)
      then show ?thesis using small [of n] small [of "n - 1"] step False by (auto dest!: arg_cong [where f = unat])
    qed (simp add: G_def)
    ultimately have "tracks (snd (ts_add (of_nat n) (t n))) (of_nat n # G n)"
      using step by (intro tracks_add) simp_all
    then show ?case using step by (simp add: t_def G_def)
  qed
  obtain rest where h: "history (t 322) = take kLane (G 322 @ 0 # rest)"
    using tr [of 322] by (auto simp: tracks_def)
  have split: "[257..<322] = 257 # [258..<322]" using upt_conv_Cons [of 257 322] by simp
  have hist: "history (t 322) = rev (map of_nat [258..<322])"
    unfolding h G_def split by (simp del: upt_rec_numeral)
  have "sorted_wrt (>) (rev (map of_nat [258..<322]) :: u64 list)"
    by (auto simp: sorted_wrt_rev sorted_wrt_map word_less_nat_alt small
        intro!: sorted_wrt_mono_rel [OF _ sorted_wrt_upt] simp del: upt_rec_numeral)
  then have enum: "set (ts_enumerate (t 322) 320) = {c \<in> of_nat ` {258..<322}. in_window 320 c}"
    unfolding enumerate_scan hist using scan_desc(1) [of 320]
    by (auto simp del: upt_rec_numeral rev_map)
  have "of_nat i \<noteq> (257 :: u64)" if "i \<in> {258..<322}" for i
    using that small [of i] by (auto dest!: arg_cong [where f = unat])
  then have "257 \<notin> set (ts_enumerate (t 322) 320)" unfolding enum by fastforce
  moreover have "\<forall>i \<in> {258..<320}. of_nat i \<in> set (ts_enumerate (t 322) 320)"
    unfolding enum using small by (auto simp: in_window_def)
  moreover have "in_window 320 257" by (simp add: in_window_def)
  ultimately show ?thesis unfolding Let_def t_def by blast
qed

lemma forward_access_evicts_oldest_witness:
  "(let t = fold (\<lambda>i t. snd (ts_add (of_nat i) t)) [257..<322] (ts_new (replicate 65 5))
    in in_window 320 257 \<and> 257 \<notin> set (ts_enumerate t 320)
       \<and> (\<forall>i \<in> {258..<320}. of_nat i \<in> set (ts_enumerate t 320)))"
  by (rule forward_access_evicts_oldest) simp

end
