(* ===== verification/Hazards.thy ===== *)
theory Hazards
  imports AccessTracker
begin

text \<open>
  The dependency trackers and the wait simplification put together, as
  \<open>ArgumentEncodingContext::endPass\<close> does: each encoder's wait set is the union of what the trackers
  of its resources recorded, and goes through \<open>collectAndSimplifyWaits\<close>. For compute and blit
  encoders every hazard, at any distance, is ordered by the waits actually issued. The render
  accesses lack the distance test on the last exclusive access, and a stale fence then takes the
  place of the weak fence of its lane.
\<close>

subsection \<open>Composition\<close>

text \<open>The wait set of encoder \<open>i\<close>, over the access sequences of all resources.\<close>

definition encoder_wait_set :: "u64 list \<Rightarrow> access list list \<Rightarrow> u64 \<Rightarrow> fence_set" where
  "encoder_wait_set uninitialised resources i =
     fold (\<lambda>w s. fs_merge s w)
       (map snd (filter (\<lambda>e. fst e = i) (concat (map (\<lambda>as. snd (access_run uninitialised as)) resources))))
       fs_empty"

definition encoded_waits :: "u64 list \<Rightarrow> access list list \<Rightarrow> nat \<Rightarrow> locality_run" where
  "encoded_waits uninitialised resources n =
     fold encode_step
       (map (\<lambda>k. (encoder_wait_set uninitialised resources (of_nat (kParityLane + k)), False)) [0..<n])
       locality_init"

lemma fold_merge:
  "fs_ok s \<Longrightarrow> fs_ok (fold (\<lambda>w s. fs_merge s w) ws s)
     \<and> fences (fold (\<lambda>w s. fs_merge s w) ws s) = fences s \<union> (\<Union>w \<in> set ws. fences w)"
proof (induction ws arbitrary: s)
  case (Cons w ws)
  have "fs_ok (fs_merge s w)" by (simp add: fs_merge_def fs_ok_def)
  then show ?case using Cons.IH [of "fs_merge s w"] by (auto simp: fence_simps)
qed simp

lemma strong_near_merge:
  assumes "\<forall>w \<in> set ws. strong_near i w"
  shows "strong_near i (fold (\<lambda>w s. fs_merge s w) ws fs_empty)"
  using fold_merge [of fs_empty ws] assms
  by (auto simp: strong_near_def fence_simps)

lemma strongs_near_map:
  "(\<And>k. k < n \<Longrightarrow> strong_near (i + of_nat k) (f k)) \<Longrightarrow> strongs_near i (map (\<lambda>k. (f k, False)) [0..<n])"
proof (induction n arbitrary: i f)
  case (Suc n)
  have "strongs_near (i + 1) (map (\<lambda>k. (f (Suc k), False)) [0..<n])"
    using Suc.prems [of "Suc _"] by (intro Suc.IH) (simp add: add.assoc add.commute [of 1])
  moreover have "map (\<lambda>k. (f k, False)) [0..<Suc n] = (f 0, False) # map (\<lambda>k. (f (Suc k), False)) [0..<n]"
    by (simp add: upt_conv_Cons map_Suc_upt [symmetric] del: upt_Suc)
  ultimately show ?case using Suc.prems [of 0] by simp
qed simp

text \<open>The full waits include the strong ones.\<close>

lemma strong_in_full:
  assumes "fs_ok s"
  shows "fences s \<subseteq> fences (full_fences (if implicit then fs_set (i - 1) s else s) i)"
  using assms unfolding fences_full by (auto simp: fence_simps)

lemma required_step:
  assumes "run_inv r" "fs_ok (fst e)"
  shows "set (wait_pairs (lr_next r) (fst e)) \<subseteq> set (lr_required (encode_step e r))"
    and "set (lr_required r) \<subseteq> set (lr_required (encode_step e r))"
proof -
  obtain s implicit where e: "e = (s, implicit)" by fastforce
  then have fe: "fst e = s" by simp
  have i: "256 \<le> unat (lr_next r)" and len: "length (lr_summary r) = 256"
    using assms(1) by (auto simp: run_inv_def summary_ok_def)
  have req: "lr_required (encode_step e r)
      = wait_pairs (lr_next r) (full_fences (if implicit then fs_set (lr_next r - 1) s else s) (lr_next r))
        @ lr_required r"
    using len by (simp add: encode_step_def e Let_def collectAndSimplifyWaits_def)
  have "dec n (fences s) \<subseteq> dec n (fences (full_fences (if implicit then fs_set (lr_next r - 1) s else s) (lr_next r)))"
    for n
    using assms(2) by (intro dec_mono strong_in_full) (simp add: e)
  then show "set (wait_pairs (lr_next r) (fst e)) \<subseteq> set (lr_required (encode_step e r))"
    unfolding req set_append set_wait_pairs [OF i] fe by (intro le_supI1 image_mono)
  show "set (lr_required r) \<subseteq> set (lr_required (encode_step e r))" unfolding req by simp
qed

lemma required_strong:
  "run_inv r \<Longrightarrow> strongs_near (lr_next r) es \<Longrightarrow> unat (lr_next r) + length es < 2 ^ 64 \<Longrightarrow> k < length es
   \<Longrightarrow> set (wait_pairs (lr_next r + of_nat k) (fst (es ! k))) \<subseteq> set (lr_required (fold encode_step es r))"
proof (induction es arbitrary: r k)
  case (Cons e es)
  have ok: "fs_ok (fst e)" using Cons.prems(2) by (simp add: strong_near_def)
  have nx: "lr_next (encode_step e r) = lr_next r + 1"
    by (simp add: encode_step_def Let_def split: prod.splits)
  have u: "unat (lr_next r + 1) = unat (lr_next r) + 1" using Cons.prems by (simp add: word_nat)
  have inv: "run_inv (encode_step e r)" by (rule run_inv_step) (use Cons.prems in auto)
  have grow: "set (lr_required r') \<subseteq> set (lr_required (fold encode_step fs r'))"
    if "run_inv r'" "strongs_near (lr_next r') fs" "unat (lr_next r') + length fs < 2 ^ 64" for r' fs
    using that
  proof (induction fs arbitrary: r')
    case (Cons f fs)
    have nx: "lr_next (encode_step f r') = lr_next r' + 1"
      by (simp add: encode_step_def Let_def split: prod.splits)
    have u: "unat (lr_next r' + 1) = unat (lr_next r') + 1" using Cons.prems by (simp add: word_nat)
    have "run_inv (encode_step f r')" by (rule run_inv_step) (use Cons.prems in auto)
    then show ?case
      using Cons.IH [of "encode_step f r'"] required_step(2) [of r' f] Cons.prems nx u
      by (auto simp: strong_near_def)
  qed simp
  show ?case
  proof (cases k)
    case 0
    then show ?thesis
      using required_step(1) [OF Cons.prems(1) ok] grow [OF inv] Cons.prems nx u by auto
  next
    case (Suc j)
    then show ?thesis
      using Cons.IH [OF inv, of j] Cons.prems nx u by (simp add: add.assoc)
  qed
qed simp

subsection \<open>Properties\<close>

text \<open>The run of encoders behind the issued waits: near strong waits give its invariant, and every wait a tracker
  records is among the waits the run requires.\<close>

definition wait_sets :: "u64 list \<Rightarrow> access list list \<Rightarrow> nat \<Rightarrow> (fence_set \<times> bool) list" where
  "wait_sets uninitialised resources n =
     map (\<lambda>k. (encoder_wait_set uninitialised resources (of_nat (kParityLane + k)), False)) [0..<n]"

lemma encoded_waits_run: "encoded_waits uninitialised resources n = fold encode_step (wait_sets uninitialised resources n) locality_init"
  by (simp add: encoded_waits_def wait_sets_def)

lemma wait_sets_near:
  assumes "\<forall>as \<in> set resources. accesses_ok uninitialised as"
  shows "strongs_near (lr_next locality_init) (wait_sets uninitialised resources n)"
proof -
  have near: "strong_near i w" if "as \<in> set resources" "(i, w) \<in> set (snd (access_run uninitialised as))" for as i w
  proof -
    obtain t ws where run: "access_run uninitialised as = (t, ws)" by fastforce
    then show ?thesis using access_run_inv [OF _ _ _ run] assms that by (auto simp: accesses_ok_def)
  qed
  have "strongs_near (of_nat kParityLane) (wait_sets uninitialised resources n)"
    unfolding wait_sets_def encoder_wait_set_def of_nat_add
    by (intro strongs_near_map strong_near_merge) (auto dest: near)
  then show ?thesis by (simp add: locality_init_def)
qed

lemma recorded_waits_required:
  assumes ok: "\<forall>as \<in> set resources. accesses_ok uninitialised as" and n: "kParityLane + n < 2 ^ 64"
    and as: "as \<in> set resources" "access_run uninitialised as = (t, ws)"
    and iw: "(i, w) \<in> set ws" "kParityLane \<le> unat i" "unat i < kParityLane + n"
  shows "set (wait_pairs i w) \<subseteq> set (lr_required (encoded_waits uninitialised resources n))"
proof -
  let ?es = "wait_sets uninitialised resources n" and ?k = "unat i - 256"
  have i: "256 \<le> unat i" "unat i < 256 + n" and ik: "of_nat (kParityLane + ?k) = i" using iw(2,3) by simp_all
  have len: "unat (lr_next locality_init) + length ?es < 2 ^ 64"
    using n by (simp add: locality_init_def wait_sets_def)
  have "w \<in> set (map snd (filter (\<lambda>e. fst e = i)
      (concat (map (\<lambda>as. snd (access_run uninitialised as)) resources))))"
    using iw(1) as by force
  then have "fences w \<subseteq> fences (encoder_wait_set uninitialised resources i)"
    unfolding encoder_wait_set_def using fold_merge [of fs_empty] by auto
  then have "set (wait_pairs i w) \<subseteq> set (wait_pairs i (encoder_wait_set uninitialised resources i))"
    unfolding set_wait_pairs [OF i(1)] by (intro image_mono dec_mono)
  moreover have "set (wait_pairs (lr_next locality_init + of_nat ?k) (fst (?es ! ?k)))
      \<subseteq> set (lr_required (encoded_waits uninitialised resources n))"
    unfolding encoded_waits_run
    by (rule required_strong [OF run_inv_init wait_sets_near [OF ok] len]) (use i in \<open>simp add: wait_sets_def\<close>)
  moreover have "lr_next locality_init + of_nat ?k = i"
    using ik by (simp add: locality_init_def)
  moreover have "fst (?es ! ?k) = encoder_wait_set uninitialised resources i"
    using i ik by (simp add: wait_sets_def nth_map del: of_nat_add)
  ultimately show ?thesis by simp
qed

text \<open>C1: End to end, hazards are never lost. With any number of resources accessed by compute and blit
  encoders, two conflicting accesses of the same resource by different encoders, at any distance,
  are ordered by the fence waits that remain after simplification.\<close>

theorem hazards_ordered_by_issued_waits:
  assumes "\<forall>as \<in> set resources. accesses_ok uninitialised as
             \<and> list_all (\<lambda>a. unat (access_id a) < kParityLane + n) as"
    and "kParityLane + n < 2 ^ 64"
    and "as \<in> set resources" "a \<in> set as" "b \<in> set as" "conflict a b" "access_id a < access_id b"
  shows "(unat (access_id a), unat (access_id b))
         \<in> (set (lr_waits (encoded_waits uninitialised resources n)))\<^sup>+"
proof -
  let ?r = "encoded_waits uninitialised resources n"
  have ok: "\<forall>as \<in> set resources. accesses_ok uninitialised as" using assms(1) by blast
  have "unat (lr_next locality_init) + length (wait_sets uninitialised resources n) < 2 ^ 64"
    using assms(2) by (simp add: locality_init_def wait_sets_def)
  from run_inv_fold [OF run_inv_init wait_sets_near [OF ok] this]
  have inv: "run_inv ?r" "unat (lr_next ?r) = 256 + n"
    by (auto simp: encoded_waits_run locality_init_def wait_sets_def)
  obtain t ws where run: "access_run uninitialised as = (t, ws)" by fastforce
  have ids: "kParityLane \<le> unat (access_id c)" "unat (access_id c) < kParityLane + n" if "c \<in> set as" for c
    using assms(1,3) that by (auto simp: accesses_ok_def list_all_iff)
  have haz: "hazards_ordered ((\<lambda>a. (fst a, unat (access_id a))) ` set as) (set (wait_edges ws))"
    and fst_ws: "map fst ws = rev (map access_id as)"
    using access_run_inv [OF _ _ _ run] assms(1,3) by (auto simp: accesses_ok_def tracker_inv_def)
  have "set (wait_pairs i w) \<subseteq> set (lr_required ?r)" if iw: "(i, w) \<in> set ws" for i w
  proof -
    have "i \<in> access_id ` set as" using arg_cong [OF fst_ws, of set] iw by force
    then show ?thesis using recorded_waits_required [OF ok assms(2,3) run iw] ids by auto
  qed
  then have edges: "set (wait_edges ws) \<subseteq> (set (lr_waits ?r))\<^sup>+"
    using inv(1) by (auto simp: wait_edges_def run_inv_def)
  show ?thesis
  proof (cases "unat (access_id b) < unat (access_id a) + 64")
    case True
    then have "(unat (access_id a), unat (access_id b)) \<in> (set (wait_edges ws))\<^sup>+"
      using haz imageI [OF assms(4), of "\<lambda>a. (fst a, unat (access_id a))"]
        imageI [OF assms(5), of "\<lambda>a. (fst a, unat (access_id a))"] assms(6,7)
      unfolding hazards_ordered_def conflict_def word_less_nat_alt by blast
    then have "(unat (access_id a), unat (access_id b)) \<in> ((set (lr_waits ?r))\<^sup>+)\<^sup>+"
      using edges trancl_mono by blast
    then show ?thesis by simp
  next
    case False
    then show ?thesis
      using inv ids [OF assms(4)] ids [OF assms(5)] by (simp add: run_inv_def)
  qed
qed

lemma hazards_ordered_by_issued_waits_witness:
  "(257, 420) \<in> (set (lr_waits (encoded_waits (replicate 65 9)
      [[(True, False, 257), (False, False, 300), (True, True, 420)], [(False, False, 256)]] 200)))\<^sup>+"
  using hazards_ordered_by_issued_waits
    [of "[[(True, False, 257), (False, False, 300), (True, True, 420)], [(False, False, 256)]]"
        "replicate 65 9" 200 "[(True, False, 257), (False, False, 300), (True, True, 420)]"
        "(True, False, 257)" "(True, True, 420)"]
  by (simp add: accesses_ok_def access_id_def conflict_def)

subsection \<open>Stale exclusive accesses\<close>

text \<open>The minimal waits are full waits.\<close>

lemma simplify_loop_subset:
  "fs_ok minimal \<Longrightarrow> fs_ok accessible \<Longrightarrow> fences minimal \<subseteq> fences full
   \<Longrightarrow> fs_ok (simplify_loop summary i full offsets minimal accessible)
     \<and> fences (simplify_loop summary i full offsets minimal accessible) \<subseteq> fences full"
proof (induction offsets arbitrary: minimal accessible)
  case (Cons k offsets)
  let ?prev = "i - of_nat k :: u64"
  obtain m a where v: "visit_fence full ?prev minimal accessible = (m, a)" by fastforce
  note s = visit_fence_sets [OF Cons.prems(2,1) v]
  have m: "fences m \<subseteq> fences full" using s(4) Cons.prems(3) by auto
  have "fs_ok (if fs_test a ?prev then fs_merge a (summary ! (unat ?prev mod kParityLane)) else a)"
    using s(2) by auto
  then show ?case using Cons.IH [OF s(1) _ m] s(1) m v by (auto simp: Let_def simp del: kParityLane_def)
qed simp

text \<open>With no strong fence the waits of an encoder reach 64 or more back.\<close>

definition long_waits :: "locality_run \<Rightarrow> bool" where
  "long_waits r \<longleftrightarrow> 256 \<le> unat (lr_next r) \<and> (\<forall>(j, i) \<in> set (lr_waits r). j + 64 \<le> i \<and> i < unat (lr_next r))"

lemma encode_waits_subset:
  assumes "256 \<le> unat (lr_next r)" "fs_ok s" "(j, i) \<in> set (lr_waits (encode_step (s, False) r))"
  shows "(j, i) \<in> set (lr_waits r)
       \<or> i = unat (lr_next r) \<and> j \<in> dec i (fences (full_fences s (lr_next r)))"
proof -
  let ?full = "full_fences s (lr_next r)"
  let ?m = "simplify_loop (lr_summary r) (lr_next r) ?full [1..<kParityLane] fs_empty fs_empty"
  have "fences ?m \<subseteq> fences ?full"
    using simplify_loop_subset [of fs_empty fs_empty ?full] by (simp add: fence_simps)
  then have "dec (unat (lr_next r)) (fences ?m) \<subseteq> dec (unat (lr_next r)) (fences ?full)" by (rule dec_mono)
  moreover have "lr_waits (encode_step (s, False) r) = wait_pairs (lr_next r) ?m @ lr_waits r"
    by (simp add: encode_step_def Let_def collectAndSimplifyWaits_def del: kParityLane_def)
  ultimately show ?thesis using assms(3) set_wait_pairs [OF assms(1), of ?m] by auto
qed

lemma dec_weak:
  assumes "256 \<le> unat i" "j \<in> dec (unat i) (fences (weak_fence_mask i))"
  shows "j + 64 \<le> unat i"
proof -
  have j: "j < unat i" "unat i < j + 256" "j mod 256 \<in> (\<lambda>k. (unat i - k) mod 256) ` {64..127}"
    using assms by (auto simp: dec_def weak_slots)
  then obtain k where k: "64 \<le> k" "k \<le> 127" "j mod 256 = (unat i - k) mod 256" by auto
  have "j = unat i - k"
    by (rule slot_inj [OF j(2,1) _ _ k(3)]) (use k assms(1) in linarith)+
  then show ?thesis using k assms(1) by linarith
qed

lemma long_waits_run:
  "long_waits r \<Longrightarrow> unat (lr_next r) + n < 2 ^ 64
   \<Longrightarrow> long_waits (fold encode_step (replicate n (fs_empty, False)) r)
     \<and> unat (lr_next (fold encode_step (replicate n (fs_empty, False)) r)) = unat (lr_next r) + n"
proof (induction n arbitrary: r)
  case (Suc n)
  let ?r = "encode_step (fs_empty, False) r"
  have i: "256 \<le> unat (lr_next r)" using Suc.prems(1) by (simp add: long_waits_def)
  have nx: "unat (lr_next ?r) = unat (lr_next r) + 1"
    using Suc.prems(2) by (simp add: encode_step_def Let_def word_nat split: prod.splits)
  have "j + 64 \<le> k \<and> k < unat (lr_next r) + 1" if "(j, k) \<in> set (lr_waits ?r)" for j k
    using encode_waits_subset [OF i _ that] Suc.prems(1) dec_weak [OF i]
    by (fastforce simp: long_waits_def fences_full fence_simps)
  then have "long_waits ?r" using i nx by (auto simp: long_waits_def)
  then show ?case using Suc.IH [of ?r] Suc.prems nx by simp
qed simp

text \<open>When every wait is at least 64 long, a chain over less than 128 is a single wait.\<close>

lemma long_chain:
  assumes "\<forall>(j, i) \<in> H. j + 64 \<le> (i :: nat)" "(a, b) \<in> H\<^sup>+"
  shows "a + 64 \<le> b \<and> ((a, b) \<in> H \<or> a + 128 \<le> b)"
  using assms(2)
proof (induction rule: trancl_induct)
  case (base y)
  then show ?case using assms(1) by blast
next
  case (step y z)
  then show ?case using assms(1) by fastforce
qed

text \<open>\<open>accessExclusivePreRaster\<close> and \<open>accessExclusiveFragment\<close> wait for the last exclusive encoder
  however old it is. When a render encoder writes a resource last written 160 encoders before, that
  fence counts as a strong one, its lane loses the weak fence, and the encoder 96 before is then not
  ordered before it: a hazard with that encoder, left to the weak fence, is lost. A compute
  encoder's access in the same place keeps the order.\<close>

theorem stale_exclusive_drops_weak_fence:
  assumes "at_exclusive t = 256" "tracks (at_shared t) []"
  shows "(let wait = fst (snd (accessExclusivePreRaster 416 uav t fs_empty no_barriers));
              r = fold encode_step (replicate 160 (fs_empty, False) @ [(wait, False)]) locality_init
          in (320, 416) \<notin> (set (lr_waits r))\<^sup>+)
       \<and> fst (snd (accessExclusiveFragment 416 uav t fs_empty no_barriers))
           = fst (snd (accessExclusivePreRaster 416 uav t fs_empty no_barriers))
       \<and> (let wait = fst (snd (accessExclusive 416 uav t fs_empty no_barriers));
              r = fold encode_step (replicate 160 (fs_empty, False) @ [(wait, False)]) locality_init
          in (320, 416) \<in> (set (lr_waits r))\<^sup>+)"
proof -
  define r where "r = fold encode_step (replicate 160 (fs_empty, False)) locality_init"
  have enum: "ts_enumerate (at_shared t) 416 = []"
    using enumerate_complete [OF assms(2)] by simp
  have last: "\<not> ts_isLastAccess (at_shared t) i" if "i \<noteq> 0" for i
    using tracks_last [OF assms(2) that] by simp
  have wait: "fst (snd (accessExclusivePreRaster 416 uav t fs_empty no_barriers)) = fs_set 256 fs_empty"
    "fst (snd (accessExclusiveFragment 416 uav t fs_empty no_barriers)) = fs_set 256 fs_empty"
    "fst (snd (accessExclusive 416 uav t fs_empty no_barriers)) = fs_empty"
    by (simp_all add: accessExclusivePreRaster_def accessExclusiveFragment_def accessExclusive_def
        wait_if_near_def Let_def assms(1) enum last)
  have init: "long_waits locality_init" by (simp add: long_waits_def locality_init_def)
  have r: "long_waits r" "unat (lr_next r) = 416"
    using long_waits_run [OF init, of 160] by (simp_all add: r_def locality_init_def)
  then have nr: "lr_next r = 416" by (simp add: word_unat_eq_iff)
  let ?r = "encode_step (fs_set 256 fs_empty, False) r"
  have i: "256 \<le> unat (lr_next r)" using r(2) by simp
  have full: "j \<in> dec 416 (fences (full_fences (fs_set 256 fs_empty) (lr_next r)))
      \<Longrightarrow> j + 64 \<le> 416 \<and> j mod 256 \<noteq> 64" for j
  proof -
    assume j: "j \<in> dec 416 (fences (full_fences (fs_set 256 fs_empty) (lr_next r)))"
    then have "j mod 256 = 0 \<or> j \<in> dec 416 (fences (weak_fence_mask (lr_next r))) \<and> j mod 256 mod 64 \<noteq> 0"
      by (auto simp: dec_def fences_full fence_simps slot_mod)
    moreover have "j < 416" "160 < j" using j by (simp_all add: dec_def)
    then have "j = 256" if "j mod 256 = 0" using that by presburger
    ultimately show "j + 64 \<le> 416 \<and> j mod 256 \<noteq> 64"
      using dec_weak [OF i, of j] j r(2) by (auto simp: dec_def)
  qed
  have waits: "(j, k) \<in> set (lr_waits r) \<or> k = 416 \<and> j + 64 \<le> 416 \<and> j mod 256 \<noteq> 64"
    if "(j, k) \<in> set (lr_waits ?r)" for j k
    using encode_waits_subset [OF i _ that] full [of j] r(2) by auto
  have old: "(j, 416) \<notin> set (lr_waits r)" for j
    using r by (fastforce simp: long_waits_def)
  have "(320, 416) \<notin> set (lr_waits ?r)" using waits old by fastforce
  moreover have "\<forall>(j, k) \<in> set (lr_waits ?r). j + 64 \<le> k"
    using waits r(1) by (fastforce simp: long_waits_def)
  ultimately have "(320, 416) \<notin> (set (lr_waits ?r))\<^sup>+" using long_chain by fastforce
  moreover have "(320, 416) \<in> (set (lr_waits (encode_step (fs_empty, False) r)))\<^sup>+"
  proof -
    have "replicate (Suc 160) (fs_empty, False) = replicate 160 (fs_empty, False) @ [(fs_empty, False)]"
      by (rule replicate_append_same [symmetric, unfolded replicate_Suc [symmetric]])
    then have r161: "encode_step (fs_empty, False) r
        = fold encode_step (replicate 161 (fs_empty, False)) locality_init"
      unfolding r_def by simp
    have "strongs_near (lr_next locality_init) (replicate 161 (fs_empty, False))"
      by (rule strongs_near_replicate)
    from run_inv_fold [OF run_inv_init this] show ?thesis
      unfolding r161 by (auto simp: locality_init_def run_inv_def)
  qed
  ultimately show ?thesis
    unfolding Let_def wait fold_append comp_def fold_simps r_def [symmetric] by blast
qed

lemma stale_exclusive_drops_weak_fence_witness:
  "(let t = (at_new (replicate 65 3))\<lparr> at_exclusive := 256 \<rparr>;
        wait = fst (snd (accessExclusivePreRaster 416 False t fs_empty no_barriers));
        r = fold encode_step (replicate 160 (fs_empty, False) @ [(wait, False)]) locality_init
    in (320, 416) \<notin> (set (lr_waits r))\<^sup>+)"
proof -
  have "tracks (at_shared ((at_new (replicate 65 3))\<lparr> at_exclusive := 256 \<rparr>)) []"
    using tracks_new [of "replicate 65 3"] by (simp add: at_new_def)
  moreover have "at_exclusive ((at_new (replicate 65 3))\<lparr> at_exclusive := 256 \<rparr>) = 256" by simp
  ultimately have "?thesis \<and> True"
    using stale_exclusive_drops_weak_fence
      [of "(at_new (replicate 65 3))\<lparr> at_exclusive := 256 \<rparr>" False]
    unfolding Let_def by blast
  then show ?thesis ..
qed

end
