(* ===== verification/CommandQueue.thy ===== *)
theory CommandQueue
  imports Prelude
begin

text \<open>
  The command queue: src/src/dxmt/dxmt_command_queue.hpp, dxmt_command_queue.cpp, and the CPU fence
  of src/src/util/util_cpu_fence.hpp. The application thread records commands in the current chunk
  and commits it; the encode thread executes committed chunks into command buffers; the finish
  thread waits for the GPU, resets the chunk and signals. The three threads and the GPU interleave
  at their accesses to the shared counters.

  Sequence numbers are natural numbers; \<open>chunk_ongoing\<close>, which a finished chunk may decrement before
  its own increment, is the 64-bit word it is.
\<close>

subsection \<open>The CPU fence\<close>

definition fence_signal :: "nat \<Rightarrow> nat \<Rightarrow> nat" where
  "fence_signal value current = (if value \<le> current then current else value)"

subsection \<open>State\<close>

definition kCommandChunkCount :: nat where "kCommandChunkCount = 32"

record 'a command_chunk =
  chunk_id :: nat
  chunk_event_id :: nat
  frame_ :: nat
  list_enc :: "'a list"
  ref_tracker :: "'a list"          \<comment> \<open>what the executed commands retain\<close>
  attached_cmdbuf :: "nat option"

datatype app_pc = Recording | Committing
datatype encode_pc = Encode_wait | Encode_publish
datatype finish_pc = Finish_wait | Finish_signal | Finish_release

record 'a command_queue =
  ready_for_encode :: nat
  ready_for_commit :: nat
  chunk_ongoing :: u64
  cpu_coherent :: nat
  chunks :: "'a command_chunk list"
  current_event_seq_id :: nat
  frame_count :: nat
  app :: app_pc
  encode_thread :: encode_pc
  encode_seq :: nat                \<comment> \<open>\<open>internal_seq\<close> of \<open>EncodingThread\<close>\<close>
  finish_thread :: finish_pc
  finish_seq :: nat                \<comment> \<open>\<open>internal_seq\<close> of \<open>WaitForFinishThread\<close>\<close>
  completed :: "nat set"           \<comment> \<open>command buffers the GPU has completed\<close>
  emitted :: "'a list"             \<comment> \<open>history: all commands recorded\<close>
  executed :: "'a list"            \<comment> \<open>history: all commands executed\<close>

definition chunk_reset :: "'a command_chunk \<Rightarrow> 'a command_chunk" where
  "chunk_reset c = c\<lparr> list_enc := [], ref_tracker := [], attached_cmdbuf := None \<rparr>"

definition chunk_at :: "nat \<Rightarrow> 'a command_queue \<Rightarrow> 'a command_chunk" where
  "chunk_at k q = chunks q ! (k mod kCommandChunkCount)"

definition update_chunk ::
  "nat \<Rightarrow> ('a command_chunk \<Rightarrow> 'a command_chunk) \<Rightarrow> 'a command_queue \<Rightarrow> 'a command_queue"
where
  "update_chunk k f q =
     q\<lparr> chunks := (chunks q)[k mod kCommandChunkCount := f (chunk_at k q)] \<rparr>"

definition new_chunk :: "'a command_chunk" where
  "new_chunk = chunk_reset \<lparr> chunk_id = 0, chunk_event_id = 0, frame_ = 0, list_enc = [],
     ref_tracker = [], attached_cmdbuf = None \<rparr>"

definition queue_init :: "'a command_queue" where
  "queue_init = \<lparr> ready_for_encode = 1, ready_for_commit = 1, chunk_ongoing = 0, cpu_coherent = 0,
     chunks = replicate kCommandChunkCount new_chunk, current_event_seq_id = 0, frame_count = 0,
     app = Recording, encode_thread = Encode_wait, encode_seq = 1,
     finish_thread = Finish_wait, finish_seq = 1, completed = {}, emitted = [], executed = [] \<rparr>"

subsection \<open>Operations\<close>

text \<open>\<open>emitcc\<close> on \<open>CurrentChunk\<close>.\<close>

definition emitcc :: "'a \<Rightarrow> 'a command_queue \<Rightarrow> 'a command_queue" where
  "emitcc c q = (update_chunk (ready_for_encode q) (\<lambda>ch. ch\<lparr> list_enc := list_enc ch @ [c] \<rparr>) q)
                  \<lparr> emitted := emitted q @ [c] \<rparr>"

text \<open>\<open>CommitCurrentChunk\<close> up to the wait on \<open>chunk_ongoing\<close>, and after it.\<close>

definition commit_begin :: "'a command_queue \<Rightarrow> 'a command_queue" where
  "commit_begin q =
     (let k = ready_for_encode q;
          event = current_event_seq_id q + 1
      in (update_chunk k (\<lambda>ch. ch\<lparr> chunk_id := k, chunk_event_id := event, frame_ := frame_count q \<rparr>) q)
           \<lparr> current_event_seq_id := event, ready_for_encode := k + 1, app := Committing \<rparr>)"

definition commit_blocked :: "'a command_queue \<Rightarrow> bool" where
  "commit_blocked q \<longleftrightarrow> chunk_ongoing q = of_nat (kCommandChunkCount - 1)"

definition commit_end :: "'a command_queue \<Rightarrow> 'a command_queue" where
  "commit_end q = q\<lparr> chunk_ongoing := chunk_ongoing q + 1, app := Recording \<rparr>"

definition present_boundary :: "'a command_queue \<Rightarrow> 'a command_queue" where
  "present_boundary q = q\<lparr> frame_count := frame_count q + 1 \<rparr>"

text \<open>\<open>CommitChunkInternal\<close> by the encode thread: execute the chunk and commit the command buffer,
  then publish.\<close>

definition encode_chunk :: "'a command_queue \<Rightarrow> 'a command_queue" where
  "encode_chunk q =
     (let k = encode_seq q; cmds = list_enc (chunk_at k q)
      in (update_chunk k (\<lambda>ch. ch\<lparr> ref_tracker := ref_tracker ch @ cmds, attached_cmdbuf := Some k \<rparr>) q)
           \<lparr> executed := executed q @ cmds, encode_thread := Encode_publish \<rparr>)"

definition encode_publish :: "'a command_queue \<Rightarrow> 'a command_queue" where
  "encode_publish q =
     q\<lparr> ready_for_commit := ready_for_commit q + 1, encode_seq := encode_seq q + 1,
        encode_thread := Encode_wait \<rparr>"

text \<open>One iteration of \<open>WaitForFinishThread\<close>: reset the chunk, signal, release the slot.\<close>

definition finish_reset :: "'a command_queue \<Rightarrow> 'a command_queue" where
  "finish_reset q = (update_chunk (finish_seq q) chunk_reset q)\<lparr> finish_thread := Finish_signal \<rparr>"

definition finish_signal :: "'a command_queue \<Rightarrow> 'a command_queue" where
  "finish_signal q =
     q\<lparr> cpu_coherent := fence_signal (finish_seq q) (cpu_coherent q), finish_thread := Finish_release \<rparr>"

definition finish_release :: "'a command_queue \<Rightarrow> 'a command_queue" where
  "finish_release q =
     q\<lparr> chunk_ongoing := chunk_ongoing q - 1, finish_seq := finish_seq q + 1,
        finish_thread := Finish_wait \<rparr>"

definition gpu_complete :: "nat \<Rightarrow> 'a command_queue \<Rightarrow> 'a command_queue" where
  "gpu_complete k q = q\<lparr> completed := insert k (completed q) \<rparr>"

text \<open>Command buffers below this one have been handed to the GPU.\<close>

definition submitted :: "'a command_queue \<Rightarrow> nat" where
  "submitted q = encode_seq q + (if encode_thread q = Encode_publish then 1 else 0)"

text \<open>The command buffer the finish thread waits for.\<close>

definition finish_ready :: "'a command_queue \<Rightarrow> bool" where
  "finish_ready q \<longleftrightarrow> ready_for_commit q \<noteq> finish_seq q
     \<and> (case attached_cmdbuf (chunk_at (finish_seq q) q) of None \<Rightarrow> False | Some b \<Rightarrow> b \<in> completed q)"

inductive worker_step :: "'a command_queue \<Rightarrow> 'a command_queue \<Rightarrow> bool" where
  step_encode: "encode_thread q = Encode_wait \<Longrightarrow> ready_for_encode q \<noteq> encode_seq q
    \<Longrightarrow> worker_step q (encode_chunk q)"
| step_publish: "encode_thread q = Encode_publish \<Longrightarrow> worker_step q (encode_publish q)"
| step_gpu: "k < submitted q \<Longrightarrow> 0 < k \<Longrightarrow> k \<notin> completed q \<Longrightarrow> worker_step q (gpu_complete k q)"
| step_reset: "finish_thread q = Finish_wait \<Longrightarrow> finish_ready q \<Longrightarrow> worker_step q (finish_reset q)"
| step_signal: "finish_thread q = Finish_signal \<Longrightarrow> worker_step q (finish_signal q)"
| step_release: "finish_thread q = Finish_release \<Longrightarrow> worker_step q (finish_release q)"

inductive queue_step :: "'a command_queue \<Rightarrow> 'a command_queue \<Rightarrow> bool" where
  step_emit: "app q = Recording \<Longrightarrow> queue_step q (emitcc c q)"
| step_present: "app q = Recording \<Longrightarrow> queue_step q (present_boundary q)"
| step_commit: "app q = Recording \<Longrightarrow> queue_step q (commit_begin q)"
| step_commit_end: "app q = Committing \<Longrightarrow> \<not> commit_blocked q \<Longrightarrow> queue_step q (commit_end q)"
| step_worker: "worker_step q r \<Longrightarrow> queue_step q r"

inductive_cases worker_stepE: "worker_step q r"
inductive_cases queue_stepE: "queue_step q r"

subsection \<open>The window of live chunks\<close>

text \<open>Chunks below \<open>released\<close> have been reset; those from there on occupy the slots.\<close>

definition released :: "'a command_queue \<Rightarrow> nat" where
  "released q = finish_seq q + (if finish_thread q = Finish_wait then 0 else 1)"

definition recording :: "'a command_queue \<Rightarrow> nat" where
  "recording q = (if app q = Recording then 1 else 0)"

lemma slot_window:
  assumes "d \<le> j" "j < d + 32" "d \<le> k" "k < d + (32 :: nat)"
  shows "j mod 32 = k mod 32 \<longleftrightarrow> j = k"
proof -
  have aux: "a = b" if "a mod 32 = b mod 32" "a \<le> b" "b < a + 32" for a b :: nat
  proof -
    have "32 dvd b - a" using mod_eq_dvd_iff_nat [of a b 32] that by (simp add: eq_commute)
    moreover have "b - a < 32" using that by simp
    ultimately have "b - a = 0" using nat_dvd_not_less by blast
    then show ?thesis using that by simp
  qed
  show ?thesis using aux [of j k] aux [of k j] assms by (cases "j \<le> k") auto
qed

lemma chunk_at_update:
  assumes "length (chunks q) = 32" "d \<le> j" "j < d + 32" "d \<le> k" "k < d + 32"
  shows "chunk_at j (update_chunk k f q) = (if j = k then f (chunk_at j q) else chunk_at j q)"
  using slot_window [OF assms(2-)] assms(1)
  by (auto simp: chunk_at_def update_chunk_def kCommandChunkCount_def)

lemma update_chunk_fields [simp]:
  "length (chunks (update_chunk k f q)) = length (chunks q)"
  "ready_for_encode (update_chunk k f q) = ready_for_encode q"
  "ready_for_commit (update_chunk k f q) = ready_for_commit q"
  "chunk_ongoing (update_chunk k f q) = chunk_ongoing q"
  "cpu_coherent (update_chunk k f q) = cpu_coherent q" "frame_count (update_chunk k f q) = frame_count q"
  "app (update_chunk k f q) = app q" "encode_thread (update_chunk k f q) = encode_thread q"
  "encode_seq (update_chunk k f q) = encode_seq q" "finish_thread (update_chunk k f q) = finish_thread q"
  "finish_seq (update_chunk k f q) = finish_seq q" "completed (update_chunk k f q) = completed q"
  "emitted (update_chunk k f q) = emitted q" "executed (update_chunk k f q) = executed q"
  by (simp_all add: update_chunk_def)

text \<open>What the slots hold: submitted chunks are attached to their own command buffer and retain their
  commands; later ones are not attached; beyond the recorded ones the slots are empty.\<close>

definition slots_ok :: "nat \<Rightarrow> nat \<Rightarrow> nat \<Rightarrow> (nat \<Rightarrow> 'a command_chunk) \<Rightarrow> bool" where
  "slots_ok d h e S \<longleftrightarrow>
     (\<forall>k. d \<le> k \<longrightarrow> k < h \<longrightarrow> attached_cmdbuf (S k) = Some k \<and> ref_tracker (S k) = list_enc (S k))
     \<and> (\<forall>k. h \<le> k \<longrightarrow> k < d + 32 \<longrightarrow> attached_cmdbuf (S k) = None \<and> ref_tracker (S k) = [])
     \<and> (\<forall>k. e \<le> k \<longrightarrow> k < d + 32 \<longrightarrow> list_enc (S k) = [])"

definition counters_ok :: "'a command_queue \<Rightarrow> bool" where
  "counters_ok q \<longleftrightarrow> length (chunks q) = 32 \<and> 1 \<le> finish_seq q
     \<and> ready_for_commit q = encode_seq q \<and> released q \<le> encode_seq q \<and> submitted q \<le> ready_for_encode q
     \<and> ready_for_encode q + recording q \<le> finish_seq q + 32 \<and> (recording q = 0 \<longrightarrow> 2 \<le> ready_for_encode q)
     \<and> chunk_ongoing q = of_nat (ready_for_encode q + recording q) - of_nat (finish_seq q + 1)
     \<and> {1..<released q} \<subseteq> completed q \<and> completed q \<subseteq> {1..<submitted q}
     \<and> cpu_coherent q + 1 = finish_seq q + (if finish_thread q = Finish_release then 1 else 0)"

definition pending :: "'a command_queue \<Rightarrow> nat \<Rightarrow> nat \<Rightarrow> 'a list" where
  "pending q a b = concat (map (\<lambda>k. list_enc (chunk_at k q)) [a..<b])"

lemma pending_cong:
  "(\<And>k. a \<le> k \<Longrightarrow> k < b \<Longrightarrow> list_enc (chunk_at k r) = list_enc (chunk_at k q)) \<Longrightarrow> pending r a b = pending q a b"
  unfolding pending_def by (intro arg_cong [of _ _ concat] map_cong) auto

lemma pending_Suc: "a \<le> b \<Longrightarrow> pending q a (Suc b) = pending q a b @ list_enc (chunk_at b q)"
  by (simp add: pending_def)

lemma pending_Cons: "a < b \<Longrightarrow> pending q a b = list_enc (chunk_at a q) @ pending q (Suc a) b"
  by (simp add: pending_def upt_conv_Cons)

definition queue_inv :: "'a command_queue \<Rightarrow> bool" where
  "queue_inv q \<longleftrightarrow> counters_ok q
     \<and> slots_ok (released q) (submitted q) (ready_for_encode q + recording q) (\<lambda>k. chunk_at k q)
     \<and> emitted q = executed q @ pending q (submitted q) (ready_for_encode q + recording q)"

lemmas window_defs = released_def submitted_def recording_def

lemma queue_inv_init: "queue_inv queue_init"
  unfolding queue_inv_def
proof (intro conjI)
  have at: "chunk_at k queue_init = chunk_reset new_chunk" for k
    by (simp add: chunk_at_def queue_init_def kCommandChunkCount_def new_chunk_def chunk_reset_def)
  show "counters_ok queue_init"
    by (simp add: counters_ok_def queue_init_def window_defs kCommandChunkCount_def)
  show "slots_ok (released queue_init) (submitted queue_init)
      (ready_for_encode queue_init + recording queue_init) (\<lambda>k. chunk_at k queue_init)"
    unfolding slots_ok_def at by (auto simp: chunk_reset_def queue_init_def window_defs)
  show "emitted queue_init = executed queue_init
      @ pending queue_init (submitted queue_init) (ready_for_encode queue_init + recording queue_init)"
    unfolding pending_def at by (simp add: chunk_reset_def) (simp add: queue_init_def window_defs)
qed

lemma counters_window:
  assumes "counters_ok q"
  shows "released q \<le> submitted q" "submitted q \<le> ready_for_encode q"
    "ready_for_encode q + recording q \<le> released q + 32" "length (chunks q) = 32"
    "released q \<le> finish_seq q + 1" "finish_seq q \<le> released q"
  using assms by (auto simp: counters_ok_def window_defs split: if_splits)

lemma inv_emitcc:
  assumes inv: "queue_inv q" and app: "app q = Recording"
  shows "queue_inv (emitcc c q)"
proof -
  let ?d = "released q" and ?h = "submitted q" and ?r = "ready_for_encode q"
  have co: "counters_ok q" using inv by (simp add: queue_inv_def)
  note w = counters_window [OF co]
  have rec: "recording q = 1" using app by (simp add: recording_def)
  have win: "released (emitcc c q) = ?d" "submitted (emitcc c q) = ?h" "recording (emitcc c q) = recording q"
    "ready_for_encode (emitcc c q) = ?r" "emitted (emitcc c q) = emitted q @ [c]"
    "executed (emitcc c q) = executed q"
    by (simp_all add: emitcc_def window_defs)
  have at: "chunk_at j (emitcc c q) = (if j = ?r then (chunk_at j q)\<lparr> list_enc := list_enc (chunk_at j q) @ [c] \<rparr>
      else chunk_at j q)" if "?d \<le> j" "j < ?d + 32" for j
    using chunk_at_update [OF w(4) that, of ?r] w rec by (simp add: emitcc_def chunk_at_def)
  have "counters_ok (emitcc c q)"
    using co unfolding counters_ok_def win by (simp add: emitcc_def)
  moreover have "slots_ok ?d ?h (?r + 1) (\<lambda>k. chunk_at k (emitcc c q))"
    using inv w at by (auto simp: queue_inv_def slots_ok_def rec)
  moreover have "pending (emitcc c q) ?h ?r = pending q ?h ?r"
    using at w rec by (intro pending_cong) auto
  then have "emitted (emitcc c q) = executed (emitcc c q) @ pending (emitcc c q) ?h (?r + 1)"
    using inv at [of ?r] w rec by (simp add: queue_inv_def win pending_Suc)
  ultimately show ?thesis by (simp add: queue_inv_def win rec)
qed

text \<open>A step that leaves slots and window alone.\<close>

lemma inv_same:
  assumes "queue_inv q" "counters_ok r" "chunks r = chunks q" "emitted r = emitted q" "executed r = executed q"
    and "released r = released q" "submitted r = submitted q"
    and "ready_for_encode r + recording r = ready_for_encode q + recording q"
  shows "queue_inv r"
proof -
  have "chunk_at k r = chunk_at k q" for k using assms(3) by (simp add: chunk_at_def)
  then show ?thesis using assms by (simp add: queue_inv_def pending_def)
qed

lemma inv_present: "queue_inv q \<Longrightarrow> queue_inv (present_boundary q)"
  by (rule inv_same) (auto simp: queue_inv_def counters_ok_def present_boundary_def window_defs)

lemma inv_publish:
  assumes "queue_inv q" "encode_thread q = Encode_publish"
  shows "queue_inv (encode_publish q)"
  using assms
  by (intro inv_same [OF assms(1)]) (auto simp: queue_inv_def counters_ok_def encode_publish_def window_defs)

lemma inv_signal:
  assumes "queue_inv q" "finish_thread q = Finish_signal"
  shows "queue_inv (finish_signal q)"
  using assms
  by (intro inv_same [OF assms(1)])
    (auto simp: queue_inv_def counters_ok_def finish_signal_def fence_signal_def window_defs)

lemma inv_release:
  assumes "queue_inv q" "finish_thread q = Finish_release"
  shows "queue_inv (finish_release q)"
  using assms
  by (intro inv_same [OF assms(1)])
    (auto simp: queue_inv_def counters_ok_def finish_release_def window_defs)

lemma inv_gpu:
  assumes "queue_inv q" "k < submitted q" "0 < k"
  shows "queue_inv (gpu_complete k q)"
  using assms
  by (intro inv_same [OF assms(1)]) (auto simp: queue_inv_def counters_ok_def gpu_complete_def window_defs)

lemma inv_commit_begin:
  assumes inv: "queue_inv q" and app: "app q = Recording"
  shows "queue_inv (commit_begin q)"
proof -
  let ?d = "released q" and ?r = "ready_for_encode q"
  have co: "counters_ok q" using inv by (simp add: queue_inv_def)
  note w = counters_window [OF co]
  have rec: "recording q = 1" using app by (simp add: recording_def)
  have win: "released (commit_begin q) = ?d" "submitted (commit_begin q) = submitted q"
    "recording (commit_begin q) = 0" "ready_for_encode (commit_begin q) = ?r + 1"
    "emitted (commit_begin q) = emitted q" "executed (commit_begin q) = executed q"
    by (simp_all add: commit_begin_def window_defs Let_def)
  have at: "chunk_at j (commit_begin q) = (if j = ?r
      then (chunk_at j q)\<lparr> chunk_id := ?r, chunk_event_id := current_event_seq_id q + 1, frame_ := frame_count q \<rparr>
      else chunk_at j q)" if "?d \<le> j" "j < ?d + 32" for j
    using chunk_at_update [OF w(4) that, of ?r] w rec by (simp add: commit_begin_def chunk_at_def Let_def)
  have "counters_ok (commit_begin q)"
    using co rec w unfolding counters_ok_def win by (simp add: commit_begin_def Let_def)
  moreover have "slots_ok ?d (submitted q) (?r + 1) (\<lambda>k. chunk_at k (commit_begin q))"
    using inv w at by (auto simp: queue_inv_def slots_ok_def rec)
  moreover have "pending (commit_begin q) (submitted q) (?r + 1) = pending q (submitted q) (?r + 1)"
    using at w rec by (intro pending_cong) auto
  ultimately show ?thesis using inv by (simp add: queue_inv_def win rec)
qed

lemma inv_encode:
  assumes inv: "queue_inv q" and e: "encode_thread q = Encode_wait" "ready_for_encode q \<noteq> encode_seq q"
  shows "queue_inv (encode_chunk q)"
proof -
  let ?d = "released q" and ?h = "encode_seq q"
  let ?r = "ready_for_encode q" and ?e = "ready_for_encode q + recording q"
  have co: "counters_ok q" using inv by (simp add: queue_inv_def)
  note w = counters_window [OF co]
  have sub: "submitted q = ?h" using e by (simp add: submitted_def)
  have lt: "?h < ?r" using e(2) w(2) sub by simp
  have win: "released (encode_chunk q) = ?d" "submitted (encode_chunk q) = ?h + 1"
    "recording (encode_chunk q) = recording q" "ready_for_encode (encode_chunk q) = ?r"
    "emitted (encode_chunk q) = emitted q"
    "executed (encode_chunk q) = executed q @ list_enc (chunk_at ?h q)"
    using e by (simp_all add: encode_chunk_def window_defs Let_def)
  have at: "chunk_at j (encode_chunk q) = (if j = ?h
      then (chunk_at j q)\<lparr> ref_tracker := ref_tracker (chunk_at j q) @ list_enc (chunk_at j q),
                            attached_cmdbuf := Some ?h \<rparr>
      else chunk_at j q)" if "?d \<le> j" "j < ?d + 32" for j
    using chunk_at_update [OF w(4) that, of ?h] w sub lt by (simp add: encode_chunk_def chunk_at_def Let_def)
  have "counters_ok (encode_chunk q)"
    using co lt e sub unfolding counters_ok_def win by (auto simp: encode_chunk_def Let_def)
  moreover have "slots_ok ?d (?h + 1) ?e (\<lambda>k. chunk_at k (encode_chunk q))"
    using inv w at lt sub by (auto simp: queue_inv_def slots_ok_def)
  moreover have "pending (encode_chunk q) (?h + 1) ?e = pending q (?h + 1) ?e"
    using at w sub by (intro pending_cong) auto
  then have "emitted q = executed q @ list_enc (chunk_at ?h q) @ pending (encode_chunk q) (?h + 1) ?e"
    using inv lt sub by (simp add: queue_inv_def pending_Cons)
  ultimately show ?thesis by (simp add: queue_inv_def win)
qed

lemma inv_reset:
  assumes inv: "queue_inv q" and f: "finish_thread q = Finish_wait" "finish_ready q"
  shows "queue_inv (finish_reset q)"
proof -
  let ?d = "finish_seq q" and ?h = "submitted q"
  let ?r = "ready_for_encode q" and ?e = "ready_for_encode q + recording q"
  have co: "counters_ok q" using inv by (simp add: queue_inv_def)
  note w = counters_window [OF co]
  have rel: "released q = ?d" using f by (simp add: released_def)
  have lt: "?d < encode_seq q" using f co rel by (auto simp: finish_ready_def counters_ok_def)
  then have dh: "?d < ?h" by (simp add: submitted_def)
  have "attached_cmdbuf (chunk_at ?d q) = Some ?d"
    using inv dh rel by (simp add: queue_inv_def slots_ok_def)
  then have gpu: "?d \<in> completed q" using f(2) by (simp add: finish_ready_def)
  have win: "released (finish_reset q) = ?d + 1" "submitted (finish_reset q) = ?h"
    "recording (finish_reset q) = recording q" "ready_for_encode (finish_reset q) = ?r"
    "emitted (finish_reset q) = emitted q" "executed (finish_reset q) = executed q"
    by (simp_all add: finish_reset_def window_defs)
  have at: "chunk_at j (finish_reset q) = (if j = ?d then chunk_reset (chunk_at j q) else chunk_at j q)"
    if "?d \<le> j" "j < ?d + 32" for j
    using chunk_at_update [OF w(4) that, of ?d] by (simp add: finish_reset_def chunk_at_def)
  have last: "chunk_at (?d + 32) (finish_reset q) = chunk_reset (chunk_at ?d q)"
    using at [of ?d] by (simp add: chunk_at_def kCommandChunkCount_def)
  have "counters_ok (finish_reset q)"
    using co lt gpu rel f unfolding counters_ok_def win
    by (auto simp: finish_reset_def atLeastLessThanSuc)
  moreover have "slots_ok (?d + 1) ?h ?e (\<lambda>k. chunk_at k (finish_reset q))"
  proof -
    have "chunk_at k (finish_reset q) = (if k = ?d + 32 then chunk_reset (chunk_at ?d q) else chunk_at k q)"
      if "?d + 1 \<le> k" "k < ?d + 1 + 32" for k
      using that at [of k] last by (cases "k = ?d + 32") auto
    then show ?thesis using inv w rel dh by (auto simp: queue_inv_def slots_ok_def chunk_reset_def)
  qed
  moreover have "pending (finish_reset q) ?h ?e = pending q ?h ?e"
    using at w rel dh by (intro pending_cong) auto
  ultimately show ?thesis using inv by (simp add: queue_inv_def win)
qed

lemma inv_commit_end:
  assumes inv: "queue_inv q" and app: "app q = Committing" and free: "\<not> commit_blocked q"
  shows "queue_inv (commit_end q)"
proof -
  let ?q = "commit_end q" and ?h = "submitted q" and ?r = "ready_for_encode q"
  have co: "counters_ok q" using inv by (simp add: queue_inv_def)
  note w = counters_window [OF co]
  have rec: "recording q = 0" using app by (simp add: recording_def)
  have at: "chunk_at k ?q = chunk_at k q" for k by (simp add: chunk_at_def commit_end_def)
  have win: "released ?q = released q" "submitted ?q = ?h" "recording ?q = 1"
    "ready_for_encode ?q = ?r" "emitted ?q = emitted q" "executed ?q = executed q"
    by (simp_all add: commit_end_def window_defs)
  have lt: "?r < finish_seq q + 32"
  proof -
    have "?r \<noteq> finish_seq q + 32"
      using co free rec by (auto simp: counters_ok_def commit_blocked_def kCommandChunkCount_def)
    then show ?thesis using co rec by (simp add: counters_ok_def)
  qed
  have "counters_ok ?q"
    using co lt rec unfolding counters_ok_def win by (simp add: commit_end_def)
  moreover have "slots_ok (released q) ?h (?r + 1) (\<lambda>k. chunk_at k ?q)"
    using inv rec unfolding at by (simp add: queue_inv_def slots_ok_def)
  moreover have "list_enc (chunk_at ?r q) = []"
    using inv rec lt w by (simp add: queue_inv_def slots_ok_def)
  then have "pending ?q ?h (?r + 1) = pending q ?h ?r"
    using w by (simp add: pending_Suc at) (simp add: pending_def at)
  ultimately show ?thesis using inv rec by (simp add: queue_inv_def win)
qed

lemma queue_inv_step: "queue_inv q \<Longrightarrow> queue_step q r \<Longrightarrow> queue_inv r"
  by (elim queue_stepE worker_stepE; hypsubst)
    (simp_all add: inv_emitcc inv_present inv_commit_begin inv_commit_end inv_encode inv_publish
      inv_gpu inv_reset inv_signal inv_release)

interpretation queue: invariant_machine "\<lambda>q. q = queue_init" queue_step queue_inv
  by unfold_locales (auto simp: queue_inv_init intro: queue_inv_step)

abbreviation queue_reachable :: "'a command_queue \<Rightarrow> bool" where
  "queue_reachable \<equiv> reachable_from (\<lambda>q. q = queue_init) queue_step"

text \<open>The work left for the workers, which each of their steps reduces.\<close>

definition encode_left :: "'a command_queue \<Rightarrow> nat" where
  "encode_left q = 2 * (ready_for_encode q - encode_seq q) - (case encode_thread q of Encode_wait \<Rightarrow> 0 | Encode_publish \<Rightarrow> 1)"

definition finish_left :: "'a command_queue \<Rightarrow> nat" where
  "finish_left q = 3 * (ready_for_encode q - finish_seq q)
     - (case finish_thread q of Finish_wait \<Rightarrow> 0 | Finish_signal \<Rightarrow> 1 | Finish_release \<Rightarrow> 2)"

definition gpu_left :: "'a command_queue \<Rightarrow> nat" where
  "gpu_left q = card ({1..<ready_for_encode q} - completed q)"

definition work_left :: "'a command_queue \<Rightarrow> nat" where
  "work_left q = encode_left q + finish_left q + gpu_left q"

lemma left_arith:
  "a < b \<Longrightarrow> 2 * (b - a) - 1 < 2 * (b - a)" "a < b \<Longrightarrow> 2 * (b - Suc a) < 2 * (b - a) - (1 :: nat)"
  "a < b \<Longrightarrow> 3 * (b - a) - 1 < 3 * (b - a)" "a < b \<Longrightarrow> 3 * (b - a) - 2 < 3 * (b - a) - 1"
  "a < b \<Longrightarrow> 3 * (b - Suc a) < 3 * (b - a) - (2 :: nat)"
  by linarith+

lemma counters_order:
  assumes "counters_ok q"
  shows "encode_seq q \<le> ready_for_encode q" "finish_seq q \<le> encode_seq q" "ready_for_commit q = encode_seq q"
    "encode_thread q = Encode_publish \<Longrightarrow> encode_seq q < ready_for_encode q"
    "finish_thread q \<noteq> Finish_wait \<Longrightarrow> finish_seq q < encode_seq q"
proof -
  have co: "released q \<le> encode_seq q" "submitted q \<le> ready_for_encode q" "ready_for_commit q = encode_seq q"
    using assms unfolding counters_ok_def by blast+
  show "ready_for_commit q = encode_seq q" by (rule co)
  show "encode_seq q \<le> ready_for_encode q" using co(2) unfolding submitted_def by linarith
  show "finish_seq q \<le> encode_seq q" using co(1) unfolding released_def by linarith
  show "encode_thread q = Encode_publish \<Longrightarrow> encode_seq q < ready_for_encode q"
    using co(2) by (simp add: submitted_def)
  show "finish_thread q \<noteq> Finish_wait \<Longrightarrow> finish_seq q < encode_seq q"
    using co(1) by (simp add: released_def)
qed

lemma work_left_less:
  assumes "encode_left r < encode_left q \<and> finish_left r = finish_left q \<and> gpu_left r = gpu_left q
    \<or> encode_left r = encode_left q \<and> finish_left r < finish_left q \<and> gpu_left r = gpu_left q
    \<or> encode_left r = encode_left q \<and> finish_left r = finish_left q \<and> gpu_left r < gpu_left q"
  shows "work_left r < work_left q"
  using assms unfolding work_left_def by (elim disjE conjE) simp_all

lemmas left_defs = encode_left_def finish_left_def gpu_left_def

lemma reduces_encode:
  assumes "counters_ok q" "encode_thread q = Encode_wait" "ready_for_encode q \<noteq> encode_seq q"
  shows "work_left (encode_chunk q) < work_left q"
  using left_arith(1) [of "encode_seq q" "ready_for_encode q"] counters_order(1) [OF assms(1)] assms(2,3)
  by (intro work_left_less disjI1) (simp add: left_defs encode_chunk_def Let_def)

lemma reduces_publish:
  assumes "counters_ok q" "encode_thread q = Encode_publish"
  shows "work_left (encode_publish q) < work_left q"
  using left_arith(2) [of "encode_seq q" "ready_for_encode q"] counters_order(4) [OF assms] assms(2)
  by (intro work_left_less disjI1) (simp add: left_defs encode_publish_def)

lemma reduces_gpu:
  assumes "counters_ok q" "k < submitted q" "0 < k" "k \<notin> completed q"
  shows "work_left (gpu_complete k q) < work_left q"
proof -
  let ?A = "{1..<ready_for_encode q}"
  have "submitted q \<le> ready_for_encode q" using assms(1) unfolding counters_ok_def by blast
  then have "k \<in> ?A - completed q" using assms(2-4) by simp
  then have "card (?A - completed q - {k}) < card (?A - completed q)" by (intro card_Diff1_less) simp_all
  moreover have "?A - completed q - {k} = ?A - insert k (completed q)" by blast
  ultimately have "gpu_left (gpu_complete k q) < gpu_left q"
    by (simp add: gpu_left_def gpu_complete_def)
  then show ?thesis
    by (intro work_left_less disjI2) (simp add: encode_left_def finish_left_def gpu_complete_def)
qed

lemma reduces_finish:
  assumes "counters_ok q"
  shows "finish_thread q = Finish_wait \<Longrightarrow> finish_ready q \<Longrightarrow> work_left (finish_reset q) < work_left q"
    and "finish_thread q = Finish_signal \<Longrightarrow> work_left (finish_signal q) < work_left q"
    and "finish_thread q = Finish_release \<Longrightarrow> work_left (finish_release q) < work_left q"
proof -
  note ord = counters_order [OF assms]
  let ?f = "finish_seq q" and ?r = "ready_for_encode q"
  show "work_left (finish_reset q) < work_left q" if "finish_thread q = Finish_wait" "finish_ready q"
  proof -
    have "ready_for_commit q \<noteq> ?f" using that(2) unfolding finish_ready_def by blast
    then have "?f < ?r" using ord(1-3) by linarith
    then show ?thesis using left_arith(3) [of ?f ?r] that(1)
      by (intro work_left_less disjI2 disjI1) (simp add: left_defs finish_reset_def)
  qed
  show "work_left (finish_signal q) < work_left q" if "finish_thread q = Finish_signal"
  proof -
    have "?f < ?r" using ord(1,5) that by simp
    then show ?thesis using left_arith(4) [of ?f ?r] that
      by (intro work_left_less disjI2 disjI1) (simp add: left_defs finish_signal_def)
  qed
  show "work_left (finish_release q) < work_left q" if "finish_thread q = Finish_release"
  proof -
    have "?f < ?r" using ord(1,5) that by simp
    then show ?thesis using left_arith(5) [of ?f ?r] that
      by (intro work_left_less disjI2 disjI1) (simp add: left_defs finish_release_def)
  qed
qed

lemma worker_reduces: "queue_inv q \<Longrightarrow> worker_step q r \<Longrightarrow> work_left r < work_left q"
  unfolding queue_inv_def
  by (elim worker_stepE; hypsubst)
    (simp_all add: reduces_encode reduces_publish reduces_gpu reduces_finish)

lemma blocked_full:
  assumes "queue_inv q" "app q = Committing" "commit_blocked q"
  shows "ready_for_encode q = finish_seq q + 32"
proof -
  let ?r = "ready_for_encode q" and ?f = "finish_seq q"
  have co: "counters_ok q" using assms(1) by (simp add: queue_inv_def)
  have b: "?f \<le> ?r" "?r \<le> ?f + 32" "of_nat ?r - of_nat (?f + 1) = (31 :: u64)"
    using co counters_window [OF co] assms(2,3)
    by (auto simp: counters_ok_def recording_def commit_blocked_def kCommandChunkCount_def)
  define d where "d = ?r - ?f"
  have d: "?r = ?f + d" "d \<le> 32" using b by (auto simp: d_def)
  have "of_nat d = (32 :: u64)" using b(3) d(1) by (simp add: algebra_simps)
  then have "unat (of_nat d :: u64) = 32" by simp
  then have "d = 32" using d(2) by (simp add: unat_of_nat take_bit_eq_mod)
  then show ?thesis using d by simp
qed

lemma blocked_enabled:
  assumes inv: "queue_inv q" and "app q = Committing" "commit_blocked q"
  shows "\<exists>r. worker_step q r"
proof -
  have co: "counters_ok q" using inv by (simp add: queue_inv_def)
  have full: "ready_for_encode q = finish_seq q + 32" by (rule blocked_full [OF assms])
  consider "finish_thread q = Finish_signal" | "finish_thread q = Finish_release"
    | "encode_thread q = Encode_publish" | "encode_thread q = Encode_wait" "ready_for_encode q \<noteq> encode_seq q"
    | (gpu) "finish_thread q = Finish_wait" "encode_thread q = Encode_wait" "encode_seq q = finish_seq q + 32"
    using full
    by (cases "finish_thread q"; cases "encode_thread q"; cases "encode_seq q = finish_seq q + 32") auto
  then show ?thesis
  proof cases
    case gpu
    let ?f = "finish_seq q"
    have "released q \<le> ?f" "?f < submitted q" "1 \<le> ?f" "ready_for_commit q = encode_seq q"
      using gpu co by (auto simp: counters_ok_def window_defs)
    moreover from this have "attached_cmdbuf (chunk_at ?f q) = Some ?f"
      using inv by (simp add: queue_inv_def slots_ok_def)
    ultimately show ?thesis
      using gpu step_gpu [of ?f q] step_reset [of q] by (cases "?f \<in> completed q") (auto simp: finish_ready_def)
  qed (auto intro: worker_step.intros)
qed

subsection \<open>Properties\<close>

text \<open>C4: Commands are executed in the order they were recorded, each once: in every reachable state
  what the encode thread has executed is a prefix of what was recorded, and the rest is exactly
  what the chunks from the next to encode to the current one hold.\<close>

theorem commands_in_order:
  assumes "queue_reachable q"
  shows "emitted q = executed q @ pending q (submitted q) (ready_for_encode q + recording q)"
  using queue.reachable_inv [OF assms] by (simp add: queue_inv_def)

text \<open>C5: A chunk is never recorded into while it is in flight: when the application records, the slot
  of the current chunk is not the slot of any committed chunk that is still to be executed, finished
  or released, it is not attached to a command buffer, and at most 31 chunks are in flight.\<close>

theorem recording_slot_free:
  assumes "queue_reachable q" "app q = Recording" "finish_seq q \<le> k" "k < ready_for_encode q"
  shows "k mod kCommandChunkCount \<noteq> ready_for_encode q mod kCommandChunkCount
     \<and> attached_cmdbuf (chunk_at (ready_for_encode q) q) = None
     \<and> ready_for_encode q \<le> finish_seq q + 31"
proof -
  have inv: "queue_inv q" using queue.reachable_inv [OF assms(1)] .
  then have co: "counters_ok q" by (simp add: queue_inv_def)
  note w = counters_window [OF co]
  have r: "ready_for_encode q + 1 \<le> finish_seq q + 32"
    using co assms(2) by (simp add: counters_ok_def recording_def)
  have "k mod 32 \<noteq> ready_for_encode q mod 32"
    using slot_window [of "finish_seq q" k "ready_for_encode q"] assms(3,4) r by auto
  moreover have "attached_cmdbuf (chunk_at (ready_for_encode q) q) = None"
    using inv w r by (simp add: queue_inv_def slots_ok_def)
  ultimately show ?thesis using r by (simp add: kCommandChunkCount_def)
qed

text \<open>C6: What \<open>cpu_coherent\<close> announces is true: every chunk up to the signalled number has been completed
  by the GPU and released its slot, and what a submitted chunk retains stays retained until then.\<close>

theorem coherent_means_completed:
  assumes "queue_reachable q"
  shows "{1..cpu_coherent q} \<subseteq> completed q \<and> cpu_coherent q < released q
     \<and> completed q \<subseteq> {1..<submitted q}
     \<and> (\<forall>k \<in> {released q..<submitted q}. ref_tracker (chunk_at k q) = list_enc (chunk_at k q))"
proof -
  have inv: "queue_inv q" using queue.reachable_inv [OF assms] .
  then have co: "counters_ok q" by (simp add: queue_inv_def)
  have lt: "cpu_coherent q < released q"
    using co by (cases "finish_thread q") (auto simp: counters_ok_def released_def)
  then have "{1..cpu_coherent q} \<subseteq> {1..<released q}" by auto
  then show ?thesis using inv co lt by (auto simp: queue_inv_def counters_ok_def slots_ok_def)
qed

text \<open>C7: Committing always returns: when the application waits for a free chunk, the encode thread, the
  GPU or the finish thread can take a step, and every step any of them takes reduces the work
  left, so after finitely many the wait ends.\<close>

theorem blocked_commit_returns:
  assumes "queue_reachable q" "app q = Committing" "commit_blocked q"
  shows "(\<exists>r. worker_step q r) \<and> (\<forall>r. worker_step q r \<longrightarrow> work_left r < work_left q)"
  using blocked_enabled worker_reduces queue.reachable_inv [OF assms(1)] assms(2,3) by blast

text \<open>A run to check the statements on: one chunk recorded, committed and executed.\<close>

definition sample_mid :: "nat command_queue" where
  "sample_mid = encode_chunk (commit_end (commit_begin (emitcc 7 queue_init)))"

lemmas queue_ops = emitcc_def commit_begin_def commit_end_def encode_chunk_def encode_publish_def
  gpu_complete_def finish_reset_def finish_signal_def finish_release_def update_chunk_def
  chunk_at_def queue_init_def Let_def kCommandChunkCount_def

lemma sample_mid_reachable: "queue_reachable sample_mid"
proof -
  have r0: "queue_reachable queue_init" by (rule reach_start) simp
  have r1: "queue_reachable (emitcc 7 queue_init)"
    by (rule reach_step [OF r0], rule step_emit) (simp add: queue_ops)
  have r2: "queue_reachable (commit_begin (emitcc 7 queue_init))"
    by (rule reach_step [OF r1], rule step_commit) (simp add: queue_ops)
  have r3: "queue_reachable (commit_end (commit_begin (emitcc 7 queue_init)))"
    by (rule reach_step [OF r2], rule step_commit_end) (simp_all add: queue_ops commit_blocked_def)
  show ?thesis unfolding sample_mid_def
    by (rule reach_step [OF r3], rule step_worker, rule step_encode) (simp_all add: queue_ops)
qed

lemma commands_in_order_witness:
  "emitted sample_mid = executed sample_mid
     @ pending sample_mid (submitted sample_mid) (ready_for_encode sample_mid + recording sample_mid)"
  by (rule commands_in_order [OF sample_mid_reachable])

lemma recording_slot_free_witness:
  "1 mod kCommandChunkCount \<noteq> ready_for_encode sample_mid mod kCommandChunkCount
     \<and> attached_cmdbuf (chunk_at (ready_for_encode sample_mid) sample_mid) = None
     \<and> ready_for_encode sample_mid \<le> finish_seq sample_mid + 31"
  by (rule recording_slot_free [OF sample_mid_reachable]) (simp_all add: sample_mid_def queue_ops)

lemma coherent_means_completed_witness:
  "{1..cpu_coherent sample_mid} \<subseteq> completed sample_mid \<and> cpu_coherent sample_mid < released sample_mid
     \<and> completed sample_mid \<subseteq> {1..<submitted sample_mid}"
  using coherent_means_completed [OF sample_mid_reachable] by blast

text \<open>Thirty-two chunks committed with the workers asleep: the last commit waits.\<close>

definition commit_chunk :: "'a command_queue \<Rightarrow> 'a command_queue" where
  "commit_chunk q = commit_end (commit_begin q)"

lemma commits_reachable:
  "n \<le> 31 \<Longrightarrow> queue_reachable ((commit_chunk ^^ n) (queue_init :: 'a command_queue))
     \<and> app ((commit_chunk ^^ n) (queue_init :: 'a command_queue)) = Recording
     \<and> chunk_ongoing ((commit_chunk ^^ n) (queue_init :: 'a command_queue)) = of_nat n"
proof (induction n)
  case 0
  have "queue_reachable (queue_init :: 'a command_queue)" by (rule reach_start) simp
  then show ?case by (simp add: queue_init_def)
next
  case (Suc n)
  let ?q = "(commit_chunk ^^ n) (queue_init :: 'a command_queue)"
  have q: "queue_reachable ?q" "app ?q = Recording" "chunk_ongoing ?q = of_nat n" using Suc by simp_all
  have c: "chunk_ongoing (commit_begin ?q) = of_nat n" "app (commit_begin ?q) = Committing"
    using q by (simp_all add: commit_begin_def Let_def)
  have r: "queue_reachable (commit_begin ?q)" by (rule reach_step [OF q(1)], rule step_commit) (rule q(2))
  have "unat (of_nat n :: u64) = n" "unat (31 :: u64) = 31"
    using Suc.prems by (simp_all add: unat_of_nat take_bit_eq_mod)
  then have "of_nat n \<noteq> (31 :: u64)" using Suc.prems by (metis Suc_n_not_le_n)
  then have "\<not> commit_blocked (commit_begin ?q)"
    using c by (simp add: commit_blocked_def kCommandChunkCount_def)
  then have "queue_reachable (commit_end (commit_begin ?q))"
    using c(2) by (intro reach_step [OF r] step_commit_end)
  moreover have "app (commit_end (commit_begin ?q)) = Recording"
    "chunk_ongoing (commit_end (commit_begin ?q)) = of_nat (Suc n)"
    using c by (simp_all add: commit_end_def add.commute)
  moreover have "(commit_chunk ^^ Suc n) queue_init = commit_end (commit_begin ?q)"
    by (simp add: commit_chunk_def [abs_def])
  ultimately show ?case by (simp only: simp_thms)
qed

lemma blocked_commit_returns_witness:
  "\<exists>r. worker_step (commit_begin ((commit_chunk ^^ 31) (queue_init :: nat command_queue))) r"
proof -
  let ?q = "(commit_chunk ^^ 31) (queue_init :: nat command_queue)"
  have q: "queue_reachable ?q" "app ?q = Recording" "chunk_ongoing ?q = 31"
    using commits_reachable [of 31, where 'a = nat] by simp_all
  have "queue_reachable (commit_begin ?q)" by (rule reach_step [OF q(1)], rule step_commit) (rule q(2))
  moreover have "app (commit_begin ?q) = Committing" "commit_blocked (commit_begin ?q)"
    using q(3) by (simp_all add: commit_begin_def Let_def commit_blocked_def kCommandChunkCount_def)
  ultimately show ?thesis using blocked_commit_returns by blast
qed

end
