(* ===== verification/CommandList.thy ===== *)
theory CommandList
  imports Prelude
begin

text \<open>
  The intrusive command list of src/src/dxmt/dxmt_command_list.hpp, on an explicit store: nodes at
  addresses, a list object being named by the address of its embedded \<open>empty\<close> node. The abstraction
  reads a list as the sequence of its commands; emit, execute, reset and append are shown to be the
  sequence operations, except that appending an empty list breaks the receiver.
\<close>

type_synonym addr = nat

record 'a node =
  nd_command :: "'a option"      \<comment> \<open>\<open>None\<close> for the \<open>EmptyCommand\<close>\<close>
  nd_next :: "addr option"

record 'a store =
  st_nodes :: "addr \<rightharpoonup> 'a node"
  st_end :: "addr \<Rightarrow> addr option"  \<comment> \<open>\<open>list_end\<close> of the list object at an address\<close>

datatype memory_error = null_pointer | dangling_pointer

subsection \<open>Operations\<close>

definition set_next :: "addr \<Rightarrow> addr option \<Rightarrow> 'a store \<Rightarrow> memory_error + 'a store" where
  "set_next a nx s =
     (case st_nodes s a of
        None \<Rightarrow> Inl dangling_pointer
      | Some nd \<Rightarrow> Inr (s\<lparr> st_nodes := (st_nodes s)(a \<mapsto> nd\<lparr> nd_next := nx \<rparr>) \<rparr>))"

definition list_new :: "addr \<Rightarrow> 'a store \<Rightarrow> 'a store" where
  "list_new l s = s\<lparr> st_nodes := (st_nodes s)(l \<mapsto> \<lparr> nd_command = None, nd_next = None \<rparr>),
                     st_end := (st_end s)(l := Some l) \<rparr>"

text \<open>\<open>reset\<close> walks the nodes and destroys them; the fuel bounds the walk, and a cycle or a dangling
  pointer ends it in an error.\<close>

fun destroy_from :: "nat \<Rightarrow> addr option \<Rightarrow> 'a store \<Rightarrow> memory_error + 'a store" where
  "destroy_from fuel None s = Inr s"
| "destroy_from 0 (Some a) s = Inl dangling_pointer"
| "destroy_from (Suc fuel) (Some a) s =
     (case st_nodes s a of
        None \<Rightarrow> Inl dangling_pointer
      | Some nd \<Rightarrow> destroy_from fuel (nd_next nd) (s\<lparr> st_nodes := (st_nodes s)(a := None) \<rparr>))"

definition list_reset :: "nat \<Rightarrow> addr \<Rightarrow> 'a store \<Rightarrow> memory_error + 'a store" where
  "list_reset fuel l s =
     (case st_nodes s l of
        None \<Rightarrow> Inl dangling_pointer
      | Some nd \<Rightarrow>
         (case destroy_from fuel (nd_next nd) s of
            Inl e \<Rightarrow> Inl e
          | Inr s' \<Rightarrow>
             (case set_next l None s' of
                Inl e \<Rightarrow> Inl e
              | Inr s'' \<Rightarrow> Inr (s''\<lparr> st_end := (st_end s'')(l := Some l) \<rparr>))))"

text \<open>\<open>emit\<close> places the command in \<open>buffer\<close> and links it at the end.\<close>

definition list_emit :: "addr \<Rightarrow> 'a \<Rightarrow> addr \<Rightarrow> 'a store \<Rightarrow> memory_error + 'a store" where
  "list_emit l c buffer s =
     (let s1 = s\<lparr> st_nodes := (st_nodes s)(buffer \<mapsto> \<lparr> nd_command = Some c, nd_next = None \<rparr>) \<rparr> in
      case st_end s1 l of
        None \<Rightarrow> Inl null_pointer
      | Some e \<Rightarrow>
         (case set_next e (Some buffer) s1 of
            Inl err \<Rightarrow> Inl err
          | Inr s2 \<Rightarrow> Inr (s2\<lparr> st_end := (st_end s2)(l := Some buffer) \<rparr>)))"

text \<open>The last four statements of the move operations and of \<open>append\<close> hand the nodes over.\<close>

definition hand_over :: "addr \<Rightarrow> addr \<Rightarrow> addr \<Rightarrow> 'a store \<Rightarrow> memory_error + 'a store" where
  "hand_over tail l m s =
     (case st_nodes s m of
        None \<Rightarrow> Inl dangling_pointer
      | Some nd \<Rightarrow>
         (case set_next tail (nd_next nd) s of
            Inl e \<Rightarrow> Inl e
          | Inr s1 \<Rightarrow>
             (case set_next m None (s1\<lparr> st_end := (st_end s1)(l := st_end s1 m) \<rparr>) of
                Inl e \<Rightarrow> Inl e
              | Inr s2 \<Rightarrow> Inr (s2\<lparr> st_end := (st_end s2)(m := None) \<rparr>))))"

definition list_append :: "addr \<Rightarrow> addr \<Rightarrow> 'a store \<Rightarrow> memory_error + 'a store" where
  "list_append l m s =
     (case st_end s l of None \<Rightarrow> Inl null_pointer | Some e \<Rightarrow> hand_over e l m s)"

definition list_move_assign :: "nat \<Rightarrow> addr \<Rightarrow> addr \<Rightarrow> 'a store \<Rightarrow> memory_error + 'a store" where
  "list_move_assign fuel l m s =
     (case list_reset fuel l s of Inl e \<Rightarrow> Inl e | Inr s' \<Rightarrow> hand_over l l m s')"

text \<open>\<open>execute\<close>: the commands invoked, in order.\<close>

fun execute_from :: "nat \<Rightarrow> addr option \<Rightarrow> 'a store \<Rightarrow> memory_error + 'a list" where
  "execute_from fuel None s = Inr []"
| "execute_from 0 (Some a) s = Inl dangling_pointer"
| "execute_from (Suc fuel) (Some a) s =
     (case st_nodes s a of
        None \<Rightarrow> Inl dangling_pointer
      | Some nd \<Rightarrow>
         (case execute_from fuel (nd_next nd) s of
            Inl e \<Rightarrow> Inl e
          | Inr cs \<Rightarrow> Inr (case nd_command nd of None \<Rightarrow> cs | Some c \<Rightarrow> c # cs)))"

definition list_execute :: "nat \<Rightarrow> addr \<Rightarrow> 'a store \<Rightarrow> memory_error + 'a list" where
  "list_execute fuel l s =
     (case st_nodes s l of None \<Rightarrow> Inl dangling_pointer | Some nd \<Rightarrow> execute_from fuel (nd_next nd) s)"

subsection \<open>Abstraction\<close>

text \<open>A chain of command nodes: their addresses and commands.\<close>

fun chain :: "(addr \<rightharpoonup> 'a node) \<Rightarrow> addr option \<Rightarrow> (addr \<times> 'a) list \<Rightarrow> bool" where
  "chain n p [] \<longleftrightarrow> p = None"
| "chain n p ((a, c) # xs) \<longleftrightarrow> p = Some a
     \<and> (\<exists>nx. n a = Some \<lparr> nd_command = Some c, nd_next = nx \<rparr> \<and> chain n nx xs)"

definition holds :: "'a store \<Rightarrow> addr \<Rightarrow> (addr \<times> 'a) list \<Rightarrow> bool" where
  "holds s l xs \<longleftrightarrow> distinct (l # map fst xs)
     \<and> st_end s l = Some (last (l # map fst xs))
     \<and> (\<exists>nx. st_nodes s l = Some \<lparr> nd_command = None, nd_next = nx \<rparr> \<and> chain (st_nodes s) nx xs)"

lemma chain_cong: "(\<And>a. a \<in> fst ` set xs \<Longrightarrow> n' a = n a) \<Longrightarrow> chain n' p xs \<longleftrightarrow> chain n p xs"
  by (induction n p xs rule: chain.induct) auto

lemma chain_upd: "a \<notin> fst ` set xs \<Longrightarrow> chain (n(a := v)) p xs \<longleftrightarrow> chain n p xs"
  by (rule chain_cong) auto

lemma chain_snoc:
  assumes "chain n p (xs @ [(e, c)])"
    and "n' e = Some \<lparr> nd_command = Some c, nd_next = q \<rparr>" "chain n' q ys" "\<And>a. a \<in> fst ` set xs \<Longrightarrow> n' a = n a"
  shows "chain n' p (xs @ (e, c) # ys)"
  using assms
proof (induction xs arbitrary: p)
  case (Cons x xs)
  then show ?case by (cases x) fastforce
qed auto

lemma chain_node: "chain n p (xs @ [(e, c)]) \<Longrightarrow> n e = Some \<lparr> nd_command = Some c, nd_next = None \<rparr>"
  by (induction xs arbitrary: p) auto

text \<open>Linking further nodes behind the last one.\<close>

lemma holds_link:
  assumes s: "holds s l xs" and e: "e = last (l # map fst xs)"
    and same: "\<And>a. a \<in> insert l (fst ` set xs) \<Longrightarrow> a \<noteq> e \<Longrightarrow> n' a = st_nodes s a"
    and link: "\<And>nd. st_nodes s e = Some nd \<Longrightarrow> n' e = Some (nd\<lparr> nd_next := q \<rparr>)"
    and ys: "chain n' q ys"
  shows "\<exists>nx. n' l = Some \<lparr> nd_command = None, nd_next = nx \<rparr> \<and> chain n' nx (xs @ ys)"
proof (cases xs rule: rev_cases)
  case Nil
  then show ?thesis using s e link ys by (auto simp: holds_def)
next
  case (snoc us u)
  obtain c where u: "u = (e, c)" using e snoc by (cases u) auto
  obtain nx where nx: "st_nodes s l = Some \<lparr> nd_command = None, nd_next = nx \<rparr>" "chain (st_nodes s) nx (us @ [(e, c)])"
    and d: "distinct (l # map fst us @ [e])"
    using s snoc u by (auto simp: holds_def)
  have "n' l = st_nodes s l" using same d by auto
  moreover have "chain n' nx (us @ (e, c) # ys)"
    by (rule chain_snoc [OF nx(2) _ ys]) (use link chain_node [OF nx(2)] same d snoc u in \<open>auto simp: image_iff\<close>)
  ultimately show ?thesis using nx snoc u by auto
qed

lemma holds_end:
  assumes "holds s l xs"
  shows "\<exists>nd. st_nodes s (last (l # map fst xs)) = Some nd"
proof (cases xs rule: rev_cases)
  case (snoc us u)
  then show ?thesis using assms chain_node [of "st_nodes s" _ us "fst u" "snd u"] by (auto simp: holds_def)
qed (use assms in \<open>auto simp: holds_def\<close>)

lemma execute_chain: "chain (st_nodes s) p xs \<Longrightarrow> length xs \<le> fuel \<Longrightarrow> execute_from fuel p s = Inr (map snd xs)"
proof (induction xs arbitrary: p fuel)
  case (Cons x xs)
  then show ?case by (cases x; cases fuel) auto
qed simp

lemma last_in: "last (l # map fst xs) \<in> insert l (fst ` set xs)"
  by (cases xs rule: rev_cases) auto

lemma destroy_chain:
  "chain (st_nodes s) p xs \<Longrightarrow> distinct (map fst xs) \<Longrightarrow> length xs \<le> fuel
   \<Longrightarrow> destroy_from fuel p s = Inr (s\<lparr> st_nodes := st_nodes s |` (- fst ` set xs) \<rparr>)"
proof (induction xs arbitrary: p fuel s)
  case Nil
  then show ?case by simp
next
  case (Cons x xs)
  obtain a c where x: "x = (a, c)" by fastforce
  obtain nx where nx: "p = Some a" "st_nodes s a = Some \<lparr> nd_command = Some c, nd_next = nx \<rparr>" "chain (st_nodes s) nx xs"
    using Cons.prems(1) x by auto
  obtain f where f: "fuel = Suc f" "length xs \<le> f" using Cons.prems(3) by (cases fuel) auto
  let ?s = "s\<lparr> st_nodes := (st_nodes s)(a := None) \<rparr>"
  have "chain (st_nodes ?s) nx xs" using nx(3) Cons.prems(2) x by (simp add: chain_upd)
  then have "destroy_from f nx ?s = Inr (?s\<lparr> st_nodes := st_nodes ?s |` (- fst ` set xs) \<rparr>)"
    by (rule Cons.IH) (use Cons.prems(2) f(2) in simp_all)
  moreover have "(st_nodes s)(a := None) |` (- fst ` set xs) = st_nodes s |` (- fst ` set (x # xs))"
    by (rule ext) (auto simp: restrict_map_def x)
  ultimately show ?case using nx f by simp
qed

subsection \<open>Properties\<close>

text \<open>\<open>emit\<close> adds the command at the end, and leaves every list that shares no node alone.\<close>

theorem emit_appends:
  assumes "holds s l xs" "b \<notin> insert l (fst ` set xs)"
  shows "\<exists>s'. list_emit l c b s = Inr s' \<and> holds s' l (xs @ [(b, c)])
    \<and> (\<forall>m ys. holds s m ys \<longrightarrow> insert m (fst ` set ys) \<inter> insert b (insert l (fst ` set xs)) = {}
           \<longrightarrow> holds s' m ys)"
proof -
  define e where "e = last (l # map fst xs)"
  define X where "X = insert l (fst ` set xs)"
  have X: "l \<in> X" "e \<in> X" using last_in by (simp_all only: X_def e_def insertI1)
  let ?n1 = "(st_nodes s)(b \<mapsto> \<lparr> nd_command = Some c, nd_next = None \<rparr>)"
  obtain nd where nd: "st_nodes s e = Some nd" using holds_end [OF assms(1)] unfolding e_def by blast
  have bX: "b \<notin> X" using assms(2) unfolding X_def .
  then have eb: "e \<noteq> b" "l \<noteq> b" using X by blast+
  let ?n2 = "?n1(e \<mapsto> nd\<lparr> nd_next := Some b \<rparr>)"
  let ?s' = "\<lparr> st_nodes = ?n2, st_end = (st_end s)(l := Some b) \<rparr>"
  have "st_end s l = Some e" using assms(1) unfolding e_def holds_def by blast
  then have emit: "list_emit l c b s = Inr ?s'"
    using nd eb by (simp add: list_emit_def set_next_def Let_def)
  have "\<exists>nx. ?n2 l = Some \<lparr> nd_command = None, nd_next = nx \<rparr> \<and> chain ?n2 nx (xs @ [(b, c)])"
    by (rule holds_link [OF assms(1) e_def, where q = "Some b"], fold X_def) (use nd eb bX in auto)
  then have "holds ?s' l (xs @ [(b, c)])"
    using assms by (auto simp: holds_def)
  moreover have "holds ?s' m ys"
    if m: "holds s m ys" and disj: "insert m (fst ` set ys) \<inter> insert b (insert l (fst ` set xs)) = {}" for m ys
  proof -
    define Y where "Y = insert m (fst ` set ys)"
    have Y: "a \<noteq> b" "a \<noteq> l" "a \<noteq> e" if "a \<in> Y" for a
      using disj that X unfolding X_def [symmetric] Y_def [symmetric] by blast+
    have "chain ?n2 p ys \<longleftrightarrow> chain (st_nodes s) p ys" for p
      by (rule chain_cong) (use Y in \<open>simp add: Y_def\<close>)
    then show ?thesis using m Y [of m] by (simp add: holds_def Y_def)
  qed
  ultimately show ?thesis using emit by blast
qed

text \<open>\<open>execute\<close> invokes exactly the commands of the list, in order, and terminates.\<close>

theorem execute_invokes_all:
  assumes "holds s l xs" "length xs \<le> fuel"
  shows "list_execute fuel l s = Inr (map snd xs)"
  using assms execute_chain by (fastforce simp: holds_def list_execute_def)

text \<open>\<open>append\<close> of a non-empty list concatenates, and leaves the other list without nodes and
  without an end.\<close>

theorem append_concatenates:
  assumes "holds s l xs" "holds s m ys" "ys \<noteq> []"
    and "insert l (fst ` set xs) \<inter> insert m (fst ` set ys) = {}"
  shows "\<exists>s'. list_append l m s = Inr s' \<and> holds s' l (xs @ ys)
           \<and> st_nodes s' m = Some \<lparr> nd_command = None, nd_next = None \<rparr> \<and> st_end s' m = None"
proof -
  define e where "e = last (l # map fst xs)"
  define X where "X = insert l (fst ` set xs)"
  have X: "l \<in> X" "e \<in> X" using last_in by (simp_all only: X_def e_def insertI1)
  obtain nd where nd: "st_nodes s e = Some nd" using holds_end [OF assms(1)] unfolding e_def by blast
  obtain q where q: "st_nodes s m = Some \<lparr> nd_command = None, nd_next = q \<rparr>" "chain (st_nodes s) q ys"
    using assms(2) by (auto simp: holds_def)
  define Y where "Y = insert m (fst ` set ys)"
  have Y: "m \<in> Y" "X \<inter> Y = {}" using assms(4) by (simp_all add: X_def Y_def)
  then have em: "e \<noteq> m" "l \<noteq> m" using X by blast+
  have my: "m \<notin> fst ` set ys" using assms(2) by (auto simp: holds_def)
  let ?n1 = "(st_nodes s)(e \<mapsto> nd\<lparr> nd_next := q \<rparr>)"
  let ?n2 = "?n1(m \<mapsto> \<lparr> nd_command = None, nd_next = None \<rparr>)"
  let ?s' = "\<lparr> st_nodes = ?n2, st_end = (st_end s)(l := st_end s m, m := None) \<rparr>"
  have "st_end s l = Some e" using assms(1) unfolding e_def holds_def by blast
  then have app: "list_append l m s = Inr ?s'"
    using nd q em by (simp add: list_append_def hand_over_def set_next_def)
  have "chain ?n2 q ys"
  proof (subst chain_cong)
    show "?n2 a = st_nodes s a" if "a \<in> fst ` set ys" for a
    proof -
      have "a \<noteq> m" "a \<noteq> e" using that my Y X unfolding Y_def by blast+
      then show ?thesis by simp
    qed
  qed (rule q(2))
  then have "\<exists>nx. ?n2 l = Some \<lparr> nd_command = None, nd_next = nx \<rparr> \<and> chain ?n2 nx (xs @ ys)"
    by (rule holds_link [OF assms(1) e_def, rotated 2], fold X_def) (use nd em X Y in auto)
  moreover have "st_end s m = Some (last (l # map fst (xs @ ys)))"
    using assms(2,3) by (simp add: holds_def)
  moreover have "distinct (l # map fst (xs @ ys))"
    using assms(1,2,4) by (auto simp: holds_def)
  ultimately have "holds ?s' l (xs @ ys)" using em by (auto simp: holds_def)
  then show ?thesis using app by auto
qed

text \<open>\<open>append\<close> of an empty list corrupts the receiver: its end then is the other list's embedded
  node, so the next command emitted to it is never executed by it, but by the other list.\<close>

theorem append_empty_loses_commands:
  assumes "holds s l xs" "holds s m []" "m \<notin> insert l (fst ` set xs)" "b \<notin> insert m (insert l (fst ` set xs))"
    and "length xs < fuel"
  shows "\<exists>s1 s2. list_append l m s = Inr s1 \<and> list_emit l c b s1 = Inr s2
           \<and> list_execute fuel l s2 = Inr (map snd xs) \<and> list_execute fuel m s2 = Inr [c]"
proof -
  define e where "e = last (l # map fst xs)"
  define X where "X = insert l (fst ` set xs)"
  have X: "l \<in> X" "e \<in> X" using last_in by (simp_all only: X_def e_def insertI1)
  obtain nd where nd: "st_nodes s e = Some nd" using holds_end [OF assms(1)] unfolding e_def by blast
  have m: "st_nodes s m = Some \<lparr> nd_command = None, nd_next = None \<rparr>" "st_end s m = Some m"
    using assms(2) by (auto simp: holds_def)
  have mb: "m \<notin> X" "b \<notin> X" "b \<noteq> m" using assms(3,4) unfolding X_def by blast+
  then have em: "e \<noteq> m" "l \<noteq> m" "e \<noteq> b" "m \<noteq> b" "l \<noteq> b" using X by blast+
  let ?n1 = "(st_nodes s)(e \<mapsto> nd\<lparr> nd_next := None \<rparr>, m \<mapsto> \<lparr> nd_command = None, nd_next = None \<rparr>)"
  let ?s1 = "\<lparr> st_nodes = ?n1, st_end = (st_end s)(l := Some m, m := None) \<rparr>"
  let ?n2 = "?n1(b \<mapsto> \<lparr> nd_command = Some c, nd_next = None \<rparr>, m \<mapsto> \<lparr> nd_command = None, nd_next = Some b \<rparr>)"
  let ?s2 = "\<lparr> st_nodes = ?n2, st_end = (st_end s)(l := Some b, m := None) \<rparr>"
  have "st_end s l = Some e" using assms(1) unfolding e_def holds_def by blast
  then have s1: "list_append l m s = Inr ?s1"
    using nd m em by (simp add: list_append_def hand_over_def set_next_def)
  have s2: "list_emit l c b ?s1 = Inr ?s2"
    using em by (simp add: list_emit_def set_next_def Let_def fun_upd_twist)
  have "\<exists>nx. ?n2 l = Some \<lparr> nd_command = None, nd_next = nx \<rparr> \<and> chain ?n2 nx (xs @ [])"
    by (rule holds_link [OF assms(1) e_def, where q = None], fold X_def) (use nd em mb in auto)
  then obtain nx where "?n2 l = Some \<lparr> nd_command = None, nd_next = nx \<rparr>" "chain ?n2 nx xs" by auto
  then have "list_execute fuel l ?s2 = Inr (map snd xs)"
    using execute_chain [of ?s2 nx xs fuel] assms(5) by (simp add: list_execute_def)
  moreover have "list_execute fuel m ?s2 = Inr [c]"
    using em assms(5) by (cases fuel) (auto simp: list_execute_def)
  ultimately show ?thesis using s1 s2 by blast
qed

text \<open>\<open>reset\<close> destroys every command of the list once, leaves it empty and usable, and touches no
  other node.\<close>

theorem reset_destroys_all:
  assumes "holds s l xs" "length xs \<le> fuel"
  shows "\<exists>s'. list_reset fuel l s = Inr s' \<and> holds s' l []
     \<and> (\<forall>a. st_nodes s' a = (if a = l then Some \<lparr> nd_command = None, nd_next = None \<rparr>
            else if a \<in> fst ` set xs then None else st_nodes s a))"
proof -
  obtain nx where nx: "st_nodes s l = Some \<lparr> nd_command = None, nd_next = nx \<rparr>" "chain (st_nodes s) nx xs"
    and d: "distinct (l # map fst xs)"
    using assms(1) by (auto simp: holds_def)
  let ?n = "st_nodes s |` (- fst ` set xs)"
  have "destroy_from fuel nx s = Inr (s\<lparr> st_nodes := ?n \<rparr>)"
    by (rule destroy_chain [OF nx(2) _ assms(2)]) (use d in simp)
  moreover have "?n l = Some \<lparr> nd_command = None, nd_next = nx \<rparr>" using nx(1) d by (simp add: restrict_map_def)
  ultimately show ?thesis
    using nx(1) by (auto simp: list_reset_def set_next_def holds_def restrict_map_def)
qed

subsection \<open>Witnesses\<close>

definition sample_store :: "nat store" where
  "sample_store = \<lparr> st_nodes = [0 \<mapsto> \<lparr> nd_command = None, nd_next = Some 10 \<rparr>,
        10 \<mapsto> \<lparr> nd_command = Some 7, nd_next = None \<rparr>, 1 \<mapsto> \<lparr> nd_command = None, nd_next = None \<rparr>,
        2 \<mapsto> \<lparr> nd_command = None, nd_next = Some 11 \<rparr>, 11 \<mapsto> \<lparr> nd_command = Some 8, nd_next = None \<rparr>],
     st_end = (\<lambda>l. if l = 0 then Some 10 else if l = 1 then Some 1 else if l = 2 then Some 11 else None) \<rparr>"

lemma sample_holds: "holds sample_store 0 [(10, 7)]" "holds sample_store 1 []" "holds sample_store 2 [(11, 8)]"
  by (auto simp: holds_def sample_store_def)

lemma emit_appends_witness: "\<exists>s'. list_emit 0 9 20 sample_store = Inr s' \<and> holds s' 0 [(10, 7), (20, 9)]"
  using emit_appends [OF sample_holds(1), of 20 9] by auto

lemma execute_invokes_all_witness: "list_execute 1 0 sample_store = Inr [7]"
  using execute_invokes_all [OF sample_holds(1), of 1] by simp

lemma append_concatenates_witness:
  "\<exists>s'. list_append 0 2 sample_store = Inr s' \<and> holds s' 0 [(10, 7), (11, 8)]"
  using append_concatenates [OF sample_holds(1,3)] by auto

lemma append_empty_loses_commands_witness:
  "\<exists>s1 s2. list_append 0 1 sample_store = Inr s1 \<and> list_emit 0 9 20 s1 = Inr s2
      \<and> list_execute 5 0 s2 = Inr [7] \<and> list_execute 5 1 s2 = Inr [9]"
  using append_empty_loses_commands [OF sample_holds(1,2), of 20 5 9] by simp

lemma reset_destroys_all_witness: "\<exists>s'. list_reset 3 0 sample_store = Inr s' \<and> holds s' 0 []"
  using reset_destroys_all [OF sample_holds(1), of 3] by auto

end
