(* ===== verification/RingBump.thy ===== *)
theory RingBump
  imports Prelude
begin

text \<open>
  The ring bump allocator of src/src/dxmt/dxmt_ring_bump_allocator.hpp, which backs the
  staging, argument-buffer and command heaps of the command queue. A ring is a queue of
  blocks: the back block serves requests by bumping an offset, the front block is recycled
  once the GPU has finished with the last submission that used it. Sequence ids name
  submissions; the coherent id is the last finished one.

  The \<open>Allocator\<close> template parameter is an argument (\<open>alloc\<close>), \<open>BlockSize\<close> too. The
  locale \<open>block_source\<close> states what the ring needs of an allocator, and is interpreted on
  the model of \<open>HostBufferBlockAllocator\<close>. The main results: a grant lies inside its block,
  aligned; a grant whose submission has not finished is never overlapped by a later one and
  its block stays in the ring.
\<close>

subsection \<open>State\<close>

record 'b allocation =
  allocated_size :: u64
  total_size :: u64
  last_used_seq_id :: u64
  inc_time_to_live :: u64
  block :: 'b

record ('b, 's) ring_state =
  fifo :: "'b allocation list" \<comment> \<open>front of the queue first\<close>
  allocator :: 's

definition kStagingBlockLifetime :: u64 where
  "kStagingBlockLifetime = 300"

subsection \<open>Operations\<close>

definition suballocate :: "'b allocation \<Rightarrow> u64 \<Rightarrow> u64 \<Rightarrow> 'b allocation \<times> 'b \<times> u64" where
  "suballocate a sz alignment =
     (let offset = align64 (allocated_size a) alignment
      in (a\<lparr>allocated_size := offset + sz\<rparr>, block a, offset))"

text \<open>The loop of \<open>allocate_or_reuse_block\<close> over the front of the queue: the new queue, and
  whether the back of it is a recycled block.\<close>

fun reuse_front :: "u64 \<Rightarrow> u64 \<Rightarrow> u64 \<Rightarrow> u64 \<Rightarrow> 'b allocation list \<Rightarrow> 'b allocation list \<times> bool" where
  "reuse_front BlockSize seq_id coherent_id block_size [] = ([], False)"
| "reuse_front BlockSize seq_id coherent_id block_size (front # rest) =
     (if last_used_seq_id front < coherent_id then
        if total_size front \<noteq> BlockSize then
          reuse_front BlockSize seq_id coherent_id block_size rest
        else if total_size front \<ge> block_size then
          (rest @ [front\<lparr>last_used_seq_id := seq_id, allocated_size := 0, inc_time_to_live := 0\<rparr>],
           True)
        else (front # rest, False)
      else (front # rest, False))"

definition allocate_or_reuse_block ::
  "('s \<Rightarrow> u64 \<Rightarrow> 'b \<times> 's) \<Rightarrow> u64 \<Rightarrow> ('b, 's) ring_state \<Rightarrow> u64 \<Rightarrow> u64 \<Rightarrow> u64 \<Rightarrow> ('b, 's) ring_state"
where
  "allocate_or_reuse_block alloc BlockSize st seq_id coherent_id block_size =
     (case reuse_front BlockSize seq_id coherent_id block_size (fifo st) of
        (q, True) \<Rightarrow> st\<lparr>fifo := q\<rparr>
      | (q, False) \<Rightarrow>
          (let (b, s') = alloc (allocator st) block_size
           in st\<lparr>fifo := q @ [\<lparr>allocated_size = 0, total_size = block_size,
                               last_used_seq_id = seq_id, inc_time_to_live = 0, block = b\<rparr>],
                 allocator := s'\<rparr>))"

text \<open>Both return paths of \<open>allocate\<close> suballocate from the block at the back.\<close>

definition suballocate_back ::
  "('b, 's) ring_state \<Rightarrow> u64 \<Rightarrow> u64 \<Rightarrow> ('b, 's) ring_state \<times> 'b \<times> u64"
where
  "suballocate_back st sz alignment =
     (let (a, b, offset) = suballocate (last (fifo st)) sz alignment
      in (st\<lparr>fifo := butlast (fifo st) @ [a]\<rparr>, b, offset))"

definition fits :: "'b allocation \<Rightarrow> u64 \<Rightarrow> u64 \<Rightarrow> bool" where
  "fits latest sz alignment \<longleftrightarrow>
     \<not> align64 (allocated_size latest) alignment + sz > total_size latest"

text \<open>The block that serves a request: the back block when the request fits in it, else a
  recycled or new block of at least \<open>BlockSize\<close> (more when the request is larger).\<close>

definition select_block ::
  "('s \<Rightarrow> u64 \<Rightarrow> 'b \<times> 's) \<Rightarrow> u64 \<Rightarrow> ('b, 's) ring_state \<Rightarrow> u64 \<Rightarrow> u64 \<Rightarrow> u64 \<Rightarrow> u64 \<Rightarrow> ('b, 's) ring_state"
where
  "select_block alloc BlockSize st seq_id coherent_id sz alignment =
     (if fifo st \<noteq> [] \<and> fits (last (fifo st)) sz alignment
      then st\<lparr>fifo := butlast (fifo st) @ [(last (fifo st))\<lparr>last_used_seq_id := seq_id\<rparr>]\<rparr>
      else allocate_or_reuse_block alloc BlockSize st seq_id coherent_id (max sz BlockSize))"

definition ring_allocate ::
  "('s \<Rightarrow> u64 \<Rightarrow> 'b \<times> 's) \<Rightarrow> u64 \<Rightarrow> ('b, 's) ring_state \<Rightarrow> u64 \<Rightarrow> u64 \<Rightarrow> u64 \<Rightarrow> u64
     \<Rightarrow> ('b, 's) ring_state \<times> 'b \<times> u64"
where
  "ring_allocate alloc BlockSize st seq_id coherent_id sz alignment =
     suballocate_back
       (select_block alloc BlockSize st seq_id coherent_id sz alignment) sz alignment"

fun free_front :: "u64 \<Rightarrow> u64 \<Rightarrow> 'b allocation list \<Rightarrow> 'b allocation list" where
  "free_front BlockSize coherent_id [] = []"
| "free_front BlockSize coherent_id (front # rest) =
     (if last_used_seq_id front > coherent_id then front # rest
      else
        let expired = coherent_id - last_used_seq_id front > kStagingBlockLifetime
              \<or> inc_time_to_live front > kStagingBlockLifetime \<or> coherent_id = -1;
            adhoc = total_size front \<noteq> BlockSize
        in if expired \<or> adhoc then free_front BlockSize coherent_id rest
           else front\<lparr>inc_time_to_live := inc_time_to_live front + 1\<rparr> # rest)"

definition free_blocks :: "u64 \<Rightarrow> ('b, 's) ring_state \<Rightarrow> u64 \<Rightarrow> ('b, 's) ring_state" where
  "free_blocks BlockSize st coherent_id =
     st\<lparr>fifo := free_front BlockSize coherent_id (fifo st)\<rparr>"

subsection \<open>Block allocators\<close>

text \<open>
  \<open>HostBufferBlockAllocator\<close>: a block is the pointer \<open>malloc\<close> returned. The C heap is
  modelled by the addresses below its break being in use: \<open>malloc\<close> returns the break and
  moves it past the request (at least one byte, so every pointer is distinct).
\<close>

record host_heap =
  heap_break :: nat

definition host_malloc :: "host_heap \<Rightarrow> u64 \<Rightarrow> nat \<times> host_heap" where
  "host_malloc h n = (heap_break h, h\<lparr>heap_break := heap_break h + max 1 (unat n)\<rparr>)"

definition host_block_allocate :: "host_heap \<Rightarrow> u64 \<Rightarrow> nat \<times> host_heap" where
  "host_block_allocate h block_size = host_malloc h block_size"

text \<open>
  \<open>StagingBufferBlockAllocator\<close>: the Metal device is a parameter (\<open>new_buffer\<close> takes the
  requested length, options and caller memory, and returns the buffer, its GPU address and the
  CPU mapping it made accessible).
\<close>

record 'buf staging_block =
  sb_buffer :: "'buf option" \<comment> \<open>the owning reference, None once moved from\<close>
  sb_gpu_address :: u64
  sb_mapped_address :: "nat option" \<comment> \<open>None is nullptr\<close>
  sb_owns_mapped_address :: bool

definition staging_block_allocate ::
  "(u64 \<Rightarrow> 'opt \<Rightarrow> nat option \<Rightarrow> 'buf \<times> u64 \<times> nat option) \<Rightarrow> 'opt \<Rightarrow> bool \<Rightarrow> host_heap \<Rightarrow> u64
     \<Rightarrow> 'buf staging_block \<times> host_heap"
where
  "staging_block_allocate new_buffer options placed_buffer h block_size =
     (let (mem, h') = (if placed_buffer
                       then (case host_malloc h block_size of (p, h1) \<Rightarrow> (Some p, h1))
                       else (None, h));
          (buf, gpu, acc) = new_buffer block_size options mem
      in (\<lparr>sb_buffer = Some buf, sb_gpu_address = gpu,
           sb_mapped_address = (if placed_buffer then mem else acc),
           sb_owns_mapped_address = placed_buffer\<rparr>, h'))"

text \<open>The destructor, as the list of addresses it passes to \<open>free\<close>, and the move constructor,
  as the new block and what is left in the source.\<close>

definition staging_block_destroy :: "'buf staging_block \<Rightarrow> nat list" where
  "staging_block_destroy b =
     (if sb_owns_mapped_address b \<and> sb_mapped_address b \<noteq> None
      then [the (sb_mapped_address b)] else [])"

definition staging_block_move :: "'buf staging_block \<Rightarrow> 'buf staging_block \<times> 'buf staging_block" where
  "staging_block_move b =
     (\<lparr>sb_buffer = sb_buffer b, sb_gpu_address = sb_gpu_address b,
       sb_mapped_address = sb_mapped_address b,
       sb_owns_mapped_address = sb_owns_mapped_address b\<rparr>,
      b\<lparr>sb_buffer := None, sb_mapped_address := None, sb_owns_mapped_address := False\<rparr>)"

subsection \<open>What the loops do to the queue\<close>

abbreviation recycled :: "u64 \<Rightarrow> 'b allocation \<Rightarrow> 'b allocation" where
  "recycled seq_id a \<equiv> a\<lparr>last_used_seq_id := seq_id, allocated_size := 0, inc_time_to_live := 0\<rparr>"

lemma reuse_front_split:
  assumes "reuse_front BlockSize seq coh bs q = (q', reused)"
  obtains dropped rest where "q = dropped @ rest" "\<forall>a \<in> set dropped. last_used_seq_id a < coh"
    "\<not> reused \<Longrightarrow> q' = rest"
    "reused \<Longrightarrow> \<exists>f rest'. rest = f # rest' \<and> last_used_seq_id f < coh \<and> bs \<le> total_size f
                \<and> q' = rest' @ [recycled seq f]"
  using assms
proof (induction q arbitrary: thesis)
  case Nil
  show ?case by (rule Nil.prems(1) [of "[]" "[]"]) (use Nil.prems(2) in auto)
next
  case (Cons a q)
  show ?case
  proof (cases "last_used_seq_id a < coh \<and> total_size a \<noteq> BlockSize")
    case True
    with Cons.prems(2) have "reuse_front BlockSize seq coh bs q = (q', reused)" by simp
    then obtain dropped rest where d: "q = dropped @ rest" "\<forall>a \<in> set dropped. last_used_seq_id a < coh"
      "\<not> reused \<Longrightarrow> q' = rest"
      "reused \<Longrightarrow> \<exists>f rest'. rest = f # rest' \<and> last_used_seq_id f < coh \<and> bs \<le> total_size f
                  \<and> q' = rest' @ [recycled seq f]"
      using Cons.IH by blast
    show ?thesis
      by (rule Cons.prems(1) [of "a # dropped" rest]) (use d True in auto)
  next
    case False
    with Cons.prems(2) show ?thesis
      by (intro Cons.prems(1) [of "[]" "a # q"]) (auto split: if_splits)
  qed
qed

lemma free_front_split:
  obtains dropped rest where "q = dropped @ rest" "\<forall>a \<in> set dropped. last_used_seq_id a \<le> coh"
    "free_front BlockSize coh q = rest
     \<or> (\<exists>f rest'. rest = f # rest' \<and> last_used_seq_id f \<le> coh
          \<and> free_front BlockSize coh q = f\<lparr>inc_time_to_live := inc_time_to_live f + 1\<rparr> # rest')"
proof (induction q arbitrary: thesis)
  case Nil
  then show ?case by simp
next
  case (Cons a q)
  show ?case
  proof (cases "last_used_seq_id a > coh")
    case True
    then show ?thesis by (intro Cons.prems [of "[]" "a # q"]) auto
  next
    case le: False
    show ?thesis
    proof (cases "free_front BlockSize coh (a # q) = free_front BlockSize coh q")
      case True
      obtain dropped rest where "q = dropped @ rest" "\<forall>a \<in> set dropped. last_used_seq_id a \<le> coh"
        "free_front BlockSize coh q = rest
         \<or> (\<exists>f rest'. rest = f # rest' \<and> last_used_seq_id f \<le> coh
              \<and> free_front BlockSize coh q = f\<lparr>inc_time_to_live := inc_time_to_live f + 1\<rparr> # rest')"
        using Cons.IH by blast
      then show ?thesis
        by (intro Cons.prems [of "a # dropped" rest]) (use le True in auto)
    next
      case False
      with le show ?thesis
        by (intro Cons.prems [of "[]" "a # q"]) (auto simp: Let_def split: if_splits)
    qed
  qed
qed

subsection \<open>Invariant and live grants\<close>

text \<open>
  A grant records what \<open>allocate\<close> returned. It is live until its submission is known to be
  finished. \<open>backed\<close>: a live grant's block is in the ring and its region lies below the bump
  offset of that block.
\<close>

record 'b grant =
  g_block :: 'b
  g_offset :: u64
  g_size :: u64
  g_seq :: u64

definition live :: "u64 \<Rightarrow> 'b grant \<Rightarrow> bool" where
  "live finished g \<longleftrightarrow> finished < g_seq g"

definition grants_disjoint :: "'b grant \<Rightarrow> 'b grant \<Rightarrow> bool" where
  "grants_disjoint g h \<longleftrightarrow> g_block g \<noteq> g_block h
     \<or> unat (g_offset g) + unat (g_size g) \<le> unat (g_offset h)
     \<or> unat (g_offset h) + unat (g_size h) \<le> unat (g_offset g)"

definition covers :: "'b allocation \<Rightarrow> 'b grant \<Rightarrow> bool" where
  "covers a g \<longleftrightarrow> block a = g_block g
     \<and> unat (g_offset g) + unat (g_size g) \<le> unat (allocated_size a)
     \<and> g_seq g \<le> last_used_seq_id a"

definition backed :: "u64 \<Rightarrow> 'b allocation list \<Rightarrow> 'b grant \<Rightarrow> bool" where
  "backed finished q g \<longleftrightarrow> (live finished g \<longrightarrow> (\<exists>a \<in> set q. covers a g))"

definition block_ok :: "'b allocation \<Rightarrow> bool" where
  "block_ok a \<longleftrightarrow> allocated_size a \<le> total_size a \<and> unat (total_size a) < 2 ^ 62"

definition fifo_ok :: "u64 \<Rightarrow> 'b allocation list \<Rightarrow> bool" where
  "fifo_ok newest q \<longleftrightarrow> list_all block_ok q \<and> distinct (map block q)
     \<and> list_all (\<lambda>a. last_used_seq_id a \<le> newest) q"

lemma fifo_ok_append:
  "fifo_ok n (q @ [a]) \<longleftrightarrow> fifo_ok n q \<and> block_ok a \<and> last_used_seq_id a \<le> n \<and> block a \<notin> block ` set q"
  by (auto simp: fifo_ok_def)

lemma fifo_ok_suffix: "fifo_ok n (p @ q) \<Longrightarrow> fifo_ok n q"
  by (auto simp: fifo_ok_def)

lemma fifo_ok_mono: "fifo_ok n q \<Longrightarrow> n \<le> m \<Longrightarrow> fifo_ok m q"
  by (auto simp: fifo_ok_def list_all_iff intro: order_trans)

text \<open>A request the allocator arithmetic handles without wrapping.\<close>

definition request_ok :: "u64 \<Rightarrow> u64 \<Rightarrow> u64 \<Rightarrow> bool" where
  "request_ok BlockSize sz alignment \<longleftrightarrow>
     is_pow2 alignment \<and> unat alignment < 2 ^ 62 \<and> unat sz < 2 ^ 62 \<and> unat BlockSize < 2 ^ 62"

lemma align_room:
  assumes "block_ok a" "request_ok BlockSize sz alignment"
  shows "unat (allocated_size a) \<le> unat (align64 (allocated_size a) alignment)"
    and "unat (align64 (allocated_size a) alignment + sz)
         = unat (align64 (allocated_size a) alignment) + unat sz"
    and "unat alignment dvd unat (align64 (allocated_size a) alignment)"
proof -
  have a: "unat (allocated_size a) \<le> unat (total_size a)" "unat (total_size a) < 2 ^ 62"
    using assms(1) by (auto simp: block_ok_def word_le_nat_alt)
  have r: "is_pow2 alignment" "unat alignment < 2 ^ 62" "unat sz < 2 ^ 62"
    using assms(2) by (auto simp: request_ok_def)
  have nowrap: "unat (allocated_size a) + unat alignment < 2 ^ 64"
    using a r by simp
  note al = align64_bounds [OF r(1) nowrap]
  show "unat (allocated_size a) \<le> unat (align64 (allocated_size a) alignment)"
    and "unat alignment dvd unat (align64 (allocated_size a) alignment)"
    using al by auto
  show "unat (align64 (allocated_size a) alignment + sz)
        = unat (align64 (allocated_size a) alignment) + unat sz"
    by (rule unat_add_nowrap) (use al(2) a r in simp)
qed

subsection \<open>What the ring needs of a block allocator\<close>

text \<open>\<open>issued\<close> is the set of blocks an allocator state has handed out so far.\<close>

locale block_source =
  fixes alloc :: "'s \<Rightarrow> u64 \<Rightarrow> 'b \<times> 's"
    and issued :: "'s \<Rightarrow> 'b set"
  assumes alloc_fresh: "alloc s n = (b, s') \<Longrightarrow> b \<notin> issued s"
    and alloc_issued: "alloc s n = (b, s') \<Longrightarrow> insert b (issued s) \<subseteq> issued s'"
begin

lemma select_block_ok:
  assumes ok: "fifo_ok newest (fifo st)" and iss: "block ` set (fifo st) \<subseteq> issued (allocator st)"
    and req: "request_ok BlockSize sz alignment"
    and ids: "coh \<le> finished" "newest \<le> seq"
    and st': "st' = select_block alloc BlockSize st seq coh sz alignment"
  shows "\<exists>q a. fifo st' = q @ [a] \<and> fifo_ok seq (q @ [a])
    \<and> block ` set (q @ [a]) \<subseteq> issued (allocator st')
    \<and> issued (allocator st) \<subseteq> issued (allocator st')
    \<and> fits a sz alignment \<and> last_used_seq_id a = seq
    \<and> (\<forall>g. backed finished (fifo st) g \<longrightarrow> backed finished (q @ [a]) g)"
proof (cases "fifo st \<noteq> [] \<and> fits (last (fifo st)) sz alignment")
  case True
  then obtain q a where q: "fifo st = q @ [a]" by (metis append_butlast_last_id)
  let ?a = "a\<lparr>last_used_seq_id := seq\<rparr>"
  have st'_eq: "st' = st\<lparr>fifo := q @ [?a]\<rparr>"
    using True st' q by (simp add: select_block_def)
  have "fifo_ok seq (q @ [?a])"
    using ok ids(2) q by (auto simp: fifo_ok_append block_ok_def intro: fifo_ok_mono)
  moreover have "backed finished (q @ [?a]) g" if "backed finished (fifo st) g" for g
  proof -
    have "covers a g \<Longrightarrow> covers ?a g"
      using ok ids(2) q by (auto simp: covers_def fifo_ok_append)
    then show ?thesis using that q by (auto simp: backed_def)
  qed
  moreover have "fits ?a sz alignment" using True q by (simp add: fits_def)
  ultimately show ?thesis
    using st'_eq iss q by (intro exI [of _ q] exI [of _ ?a]) auto
next
  case False
  let ?bs = "max sz BlockSize"
  have bs62: "unat ?bs < 2 ^ 62" using req by (auto simp: request_ok_def max_def)
  have fits0: "fits a sz alignment" if "allocated_size a = 0" "?bs \<le> total_size a" for a :: "'b allocation"
    using that req by (auto simp: fits_def align64_0 request_ok_def not_less)
  obtain q' reused where r: "reuse_front BlockSize seq coh ?bs (fifo st) = (q', reused)"
    by fastforce
  obtain dropped rest where d: "fifo st = dropped @ rest"
    "\<forall>a \<in> set dropped. last_used_seq_id a < coh" "\<not> reused \<Longrightarrow> q' = rest"
    "reused \<Longrightarrow> \<exists>f rest'. rest = f # rest' \<and> last_used_seq_id f < coh \<and> ?bs \<le> total_size f
                \<and> q' = rest' @ [recycled seq f]"
    using reuse_front_split [OF r] by blast
  have dead: "\<not> live finished g" if "covers a g" "last_used_seq_id a < coh" for a g
    using that ids(1) by (auto simp: covers_def live_def not_less)
  have rest_ok: "fifo_ok seq rest"
    using ok ids(2) d(1) by (auto intro: fifo_ok_suffix fifo_ok_mono)
  have st'_eq: "st' = allocate_or_reuse_block alloc BlockSize st seq coh ?bs"
    unfolding st' select_block_def by (simp only: False if_False)
  show ?thesis
  proof (cases reused)
    case True
    then obtain f rest' where f: "rest = f # rest'" "last_used_seq_id f < coh" "?bs \<le> total_size f"
      "q' = rest' @ [recycled seq f]" using d(4) by blast
    have "st' = st\<lparr>fifo := rest' @ [recycled seq f]\<rparr>"
      using st'_eq r True f(4) by (simp add: allocate_or_reuse_block_def)
    moreover have "fifo_ok seq (rest' @ [recycled seq f])"
      using rest_ok f(1) by (auto simp: fifo_ok_append fifo_ok_def block_ok_def)
    moreover have "backed finished (rest' @ [recycled seq f]) g" if "backed finished (fifo st) g" for g
      using that d(1,2) f(1,2) dead by (fastforce simp: backed_def)
    ultimately show ?thesis
      using fits0 [of "recycled seq f"] f iss d(1)
      by (intro exI [of _ rest'] exI [of _ "recycled seq f"]) auto
  next
    case False
    obtain b s' where b: "alloc (allocator st) ?bs = (b, s')" by fastforce
    define a where "a = \<lparr>allocated_size = 0, total_size = ?bs, last_used_seq_id = seq,
      inc_time_to_live = 0, block = b\<rparr>"
    have "st' = st\<lparr>fifo := rest @ [a], allocator := s'\<rparr>"
      using st'_eq r False d(3) b by (simp add: allocate_or_reuse_block_def a_def)
    moreover have "fifo_ok seq (rest @ [a])"
      using rest_ok bs62 alloc_fresh [OF b] iss d(1)
      by (auto simp: fifo_ok_append a_def block_ok_def)
    moreover have "backed finished (rest @ [a]) g" if "backed finished (fifo st) g" for g
      using that d(1,2) dead by (fastforce simp: backed_def)
    ultimately show ?thesis
      using fits0 [of a] iss d(1) alloc_issued [OF b]
      by (intro exI [of _ rest] exI [of _ a]) (auto simp: a_def)
  qed
qed

text \<open>One request: the grant, and the queue afterwards.\<close>

lemma ring_allocate_ok:
  assumes ok: "fifo_ok newest (fifo st)" and iss: "block ` set (fifo st) \<subseteq> issued (allocator st)"
    and req: "request_ok BlockSize sz alignment"
    and ids: "coh \<le> finished" "newest \<le> seq"
    and res: "ring_allocate alloc BlockSize st seq coh sz alignment = (st', b, off)"
  shows "fifo_ok seq (fifo st')" "block ` set (fifo st') \<subseteq> issued (allocator st')"
    and "covers (last (fifo st')) \<lparr>g_block = b, g_offset = off, g_size = sz, g_seq = seq\<rparr>"
    and "fifo st' \<noteq> []" "unat alignment dvd unat off"
    and "backed finished (fifo st) g \<Longrightarrow> backed finished (fifo st') g"
    and "backed finished (fifo st) g \<Longrightarrow> live finished g \<Longrightarrow> g_block g = b
         \<Longrightarrow> unat (g_offset g) + unat (g_size g) \<le> unat off"
proof -
  define st1 where "st1 = select_block alloc BlockSize st seq coh sz alignment"
  obtain q a where s: "fifo st1 = q @ [a]" "fifo_ok seq (q @ [a])"
    "block ` set (q @ [a]) \<subseteq> issued (allocator st1)"
    "fits a sz alignment" "last_used_seq_id a = seq"
    "\<And>g. backed finished (fifo st) g \<Longrightarrow> backed finished (q @ [a]) g"
    using select_block_ok [OF ok iss req ids st1_def] by blast
  have ba: "block_ok a" using s(2) by (simp add: fifo_ok_append)
  note room = align_room [OF ba req]
  let ?off = "align64 (allocated_size a) alignment"
  let ?a = "a\<lparr>allocated_size := ?off + sz\<rparr>"
  have st'_eq: "st' = st1\<lparr>fifo := q @ [?a]\<rparr>" and b: "b = block a" and off: "off = ?off"
    using res s(1) by (auto simp: ring_allocate_def st1_def [symmetric] suballocate_back_def suballocate_def Let_def)
  have fit: "?off + sz \<le> total_size a" using s(4) by (simp add: fits_def not_less)
  have grow: "unat (allocated_size a) \<le> unat (?off + sz)"
    using room by simp
  show "fifo_ok seq (fifo st')"
    using s(2) st'_eq fit by (auto simp: fifo_ok_append block_ok_def)
  show "block ` set (fifo st') \<subseteq> issued (allocator st')"
    using s(3) st'_eq by auto
  show "covers (last (fifo st')) \<lparr>g_block = b, g_offset = off, g_size = sz, g_seq = seq\<rparr>"
    using st'_eq b off room(2) s(5) by (simp add: covers_def)
  show "fifo st' \<noteq> []" using st'_eq by simp
  show "unat alignment dvd unat off" using off room(3) by simp
  show "backed finished (fifo st') g" if "backed finished (fifo st) g"
    using s(6) [OF that] grow st'_eq by (auto simp: backed_def covers_def)
  show "unat (g_offset g) + unat (g_size g) \<le> unat off"
    if g: "backed finished (fifo st) g" "live finished g" "g_block g = b"
  proof -
    obtain c where c: "c \<in> set (q @ [a])" "covers c g"
      using s(6) [OF g(1)] g(2) by (auto simp: backed_def)
    have "block c = block a" using c(2) g(3) b by (simp add: covers_def)
    moreover have "block a \<notin> block ` set q" using s(2) by (simp add: fifo_ok_append)
    ultimately have "c = a" using c(1) by (metis Un_iff empty_iff imageI list.set(1) set_ConsD set_append)
    with c(2) room(1) off show ?thesis by (simp add: covers_def)
  qed
qed

end

subsection \<open>The ring over time\<close>

text \<open>
  The ring, the submissions and the grants made so far. \<open>finished\<close> is the last submission the
  GPU has completed; the coherent id a caller passes may lag behind it, but never runs ahead.
  \<open>newest\<close> is the last submission id used for a request: ids never go back.
\<close>

record ('b, 's) ring_sys =
  sys_ring :: "('b, 's) ring_state"
  sys_grants :: "'b grant list" \<comment> \<open>newest first\<close>
  sys_finished :: u64
  sys_newest :: u64

inductive ring_step ::
  "('s \<Rightarrow> u64 \<Rightarrow> 'b \<times> 's) \<Rightarrow> u64 \<Rightarrow> ('b, 's) ring_sys \<Rightarrow> ('b, 's) ring_sys \<Rightarrow> bool"
  for alloc :: "'s \<Rightarrow> u64 \<Rightarrow> 'b \<times> 's" and BlockSize :: u64
where
  step_allocate: "ring_step alloc BlockSize s
     (s\<lparr>sys_ring := r, sys_newest := seq,
        sys_grants := \<lparr>g_block = b, g_offset = off, g_size = sz, g_seq = seq\<rparr> # sys_grants s\<rparr>)"
  if "request_ok BlockSize sz alignment" "coh \<le> sys_finished s" "sys_newest s \<le> seq"
     "ring_allocate alloc BlockSize (sys_ring s) seq coh sz alignment = (r, b, off)"
| step_free: "ring_step alloc BlockSize s (s\<lparr>sys_ring := free_blocks BlockSize (sys_ring s) coh\<rparr>)"
  if "coh \<le> sys_finished s"
| step_finish: "ring_step alloc BlockSize s (s\<lparr>sys_finished := f\<rparr>)" if "sys_finished s \<le> f"

definition ring_start :: "'s \<Rightarrow> ('b, 's) ring_sys \<Rightarrow> bool" where
  "ring_start a0 s \<longleftrightarrow> s = \<lparr>sys_ring = \<lparr>fifo = [], allocator = a0\<rparr>, sys_grants = [], sys_finished = 0, sys_newest = 0\<rparr>"

definition ring_safe :: "('b, 's) ring_sys \<Rightarrow> bool" where
  "ring_safe s \<longleftrightarrow>
     list_all (backed (sys_finished s) (fifo (sys_ring s))) (sys_grants s)
     \<and> sorted_wrt (\<lambda>g h. live (sys_finished s) h \<longrightarrow> grants_disjoint g h) (sys_grants s)"

definition ring_inv :: "('s \<Rightarrow> 'b set) \<Rightarrow> ('b, 's) ring_sys \<Rightarrow> bool" where
  "ring_inv issued s \<longleftrightarrow> fifo_ok (sys_newest s) (fifo (sys_ring s))
     \<and> block ` set (fifo (sys_ring s)) \<subseteq> issued (allocator (sys_ring s)) \<and> ring_safe s"

lemma live_mono: "live f' g \<Longrightarrow> f \<le> f' \<Longrightarrow> live f g"
  by (auto simp: live_def)

lemma free_front_ok:
  assumes "fifo_ok n q"
  shows "fifo_ok n (free_front BlockSize coh q)"
    and "block ` set (free_front BlockSize coh q) \<subseteq> block ` set q"
    and "coh \<le> finished \<Longrightarrow> backed finished q g \<Longrightarrow> backed finished (free_front BlockSize coh q) g"
proof -
  obtain dropped rest where d: "q = dropped @ rest" "\<forall>a \<in> set dropped. last_used_seq_id a \<le> coh"
    "free_front BlockSize coh q = rest
     \<or> (\<exists>f rest'. rest = f # rest' \<and> last_used_seq_id f \<le> coh
          \<and> free_front BlockSize coh q = f\<lparr>inc_time_to_live := inc_time_to_live f + 1\<rparr> # rest')"
    by (rule free_front_split)
  have rest: "fifo_ok n rest" using assms d(1) by (auto intro: fifo_ok_suffix)
  then show "fifo_ok n (free_front BlockSize coh q)"
    using d(3) by (auto simp: fifo_ok_def block_ok_def)
  show "block ` set (free_front BlockSize coh q) \<subseteq> block ` set q"
    using d(1,3) by auto
  have dead: "\<not> live finished g" if "covers a g" "last_used_seq_id a \<le> coh" "coh \<le> finished" for a
    using that by (auto simp: covers_def live_def not_less)
  show "backed finished (free_front BlockSize coh q) g"
    if "coh \<le> finished" "backed finished q g"
  proof -
    have "backed finished rest g" using that d(1,2) dead by (fastforce simp: backed_def)
    then show ?thesis using d(3) dead that(1) by (fastforce simp: backed_def covers_def)
  qed
qed

context block_source
begin

lemma ring_inv_step:
  assumes "ring_inv issued s" "ring_step alloc BlockSize s t"
  shows "ring_inv issued t"
  using assms(2,1)
proof (cases rule: ring_step.cases)
  case (step_allocate sz alignment coh seq r b off)
  have inv: "fifo_ok (sys_newest s) (fifo (sys_ring s))" "block ` set (fifo (sys_ring s)) \<subseteq> issued (allocator (sys_ring s))"
    and safe: "list_all (backed (sys_finished s) (fifo (sys_ring s))) (sys_grants s)"
      "sorted_wrt (\<lambda>g h. live (sys_finished s) h \<longrightarrow> grants_disjoint g h) (sys_grants s)"
    using assms(1) by (auto simp: ring_inv_def ring_safe_def)
  note a = ring_allocate_ok [OF inv step_allocate(2-5)]
  let ?g = "\<lparr>g_block = b, g_offset = off, g_size = sz, g_seq = seq\<rparr>"
  have "backed (sys_finished s) (fifo r) ?g"
    using a(3,4) by (auto simp: backed_def intro: last_in_set)
  moreover have "list_all (backed (sys_finished s) (fifo r)) (sys_grants s)"
    using safe(1) a(6) by (auto simp: list_all_iff)
  moreover have "grants_disjoint ?g h" if "h \<in> set (sys_grants s)" "live (sys_finished s) h" for h
    using that a(7) [of h] safe(1) by (auto simp: grants_disjoint_def list_all_iff)
  ultimately show ?thesis
    using step_allocate(1) a(1,2) safe(2) by (simp add: ring_inv_def ring_safe_def)
next
  case (step_free coh)
  have inv: "fifo_ok (sys_newest s) (fifo (sys_ring s))"
    and iss: "block ` set (fifo (sys_ring s)) \<subseteq> issued (allocator (sys_ring s))"
    and safe: "list_all (backed (sys_finished s) (fifo (sys_ring s))) (sys_grants s)"
    using assms(1) by (auto simp: ring_inv_def ring_safe_def)
  let ?q = "free_front BlockSize coh (fifo (sys_ring s))"
  have "block ` set ?q \<subseteq> issued (allocator (sys_ring s))"
    using free_front_ok(2) [OF inv] iss by blast
  moreover have "list_all (backed (sys_finished s) ?q) (sys_grants s)"
    using safe free_front_ok(3) [OF inv step_free(2)] by (auto simp: list_all_iff)
  ultimately show ?thesis
    using assms(1) step_free(1) free_front_ok(1) [OF inv]
    by (simp add: ring_inv_def ring_safe_def free_blocks_def)
next
  case (step_finish f)
  moreover have "sorted_wrt (\<lambda>g h. live f h \<longrightarrow> grants_disjoint g h) (sys_grants s)"
    using assms(1) step_finish(2)
    by (auto simp: ring_inv_def ring_safe_def intro: live_mono elim!: sorted_wrt_mono_rel [rotated])
  ultimately show ?thesis
    using assms(1)
    by (auto simp: ring_inv_def ring_safe_def list_all_iff backed_def intro: live_mono)
qed

sublocale ring: invariant_machine "ring_start a0" "ring_step alloc BlockSize" "ring_inv issued"
  for a0 BlockSize
proof unfold_locales
  show "ring_inv issued s" if "ring_start a0 s" for s
    using that by (simp add: ring_start_def ring_inv_def ring_safe_def fifo_ok_def)
  show "ring_inv issued t" if "ring_inv issued s" "ring_step alloc BlockSize s t" for s t
    using that by (rule ring_inv_step)
qed

end

interpretation host_blocks: block_source host_block_allocate "\<lambda>h. {..<heap_break h}"
  by unfold_locales (auto simp: host_block_allocate_def host_malloc_def)

subsection \<open>Properties\<close>


definition demo_sys :: "(nat, host_heap) ring_sys" where
  "demo_sys = \<lparr>sys_ring = \<lparr>fifo = [], allocator = \<lparr>heap_break = 0\<rparr>\<rparr>, sys_grants = [],
     sys_finished = 0, sys_newest = 0\<rparr>"

definition demo_grant :: "u64 \<Rightarrow> u64 \<Rightarrow> u64 \<Rightarrow> nat grant" where
  "demo_grant off sz seq = \<lparr>g_block = 0, g_offset = off, g_size = sz, g_seq = seq\<rparr>"

definition demo_run :: "(nat, host_heap) ring_sys" where
  "demo_run = demo_sys\<lparr>
     sys_ring := \<lparr>fifo = [\<lparr>allocated_size = 228, total_size = 4096, last_used_seq_id = 2,
                         inc_time_to_live = 0, block = 0\<rparr>], allocator = \<lparr>heap_break = 4096\<rparr>\<rparr>,
     sys_newest := 2, sys_grants := [demo_grant 128 100 2, demo_grant 0 100 1]\<rparr>"

lemma demo_request: "request_ok 4096 100 64"
  by (auto simp: request_ok_def is_pow2_def intro!: exI [of _ 6])

lemma demo_run_reachable:
  "reachable_from (ring_start \<lparr>heap_break = 0\<rparr>) (ring_step host_block_allocate 4096) demo_run"
proof -
  let ?R = "reachable_from (ring_start \<lparr>heap_break = 0\<rparr>) (ring_step host_block_allocate 4096)"
  let ?r1 = "\<lparr>fifo = [\<lparr>allocated_size = 100, total_size = 4096, last_used_seq_id = 1,
                       inc_time_to_live = 0, block = 0\<rparr>], allocator = \<lparr>heap_break = 4096\<rparr>\<rparr>"
  let ?s1 = "demo_sys\<lparr>sys_ring := ?r1, sys_newest := 1, sys_grants := [demo_grant 0 100 1]\<rparr>"
  have "?R demo_sys" by (rule reach_start) (simp add: ring_start_def demo_sys_def)
  moreover have "ring_allocate host_block_allocate 4096 (sys_ring demo_sys) 1 0 100 64 = (?r1, 0, 0)"
    by (simp add: demo_sys_def ring_allocate_def select_block_def allocate_or_reuse_block_def
        suballocate_back_def suballocate_def host_block_allocate_def host_malloc_def align64_def max_def)
  from step_allocate [OF demo_request _ _ this]
  have "ring_step host_block_allocate 4096 demo_sys ?s1"
    by (simp add: demo_sys_def demo_grant_def)
  ultimately have "?R ?s1" by (rule reach_step)
  moreover have "ring_allocate host_block_allocate 4096 (sys_ring ?s1) 2 0 100 64
      = (sys_ring demo_run, 0, 128)"
    by (simp add: demo_sys_def demo_run_def ring_allocate_def select_block_def fits_def
        suballocate_back_def suballocate_def align64_def)
  from step_allocate [OF demo_request _ _ this]
  have "ring_step host_block_allocate 4096 ?s1 demo_run"
    by (simp add: demo_sys_def demo_run_def demo_grant_def)
  ultimately show ?thesis by (rule reach_step)
qed


text \<open>The block behind a grant whose submission has not finished stays in the ring, and the
  grant lies below its bump offset: no block is freed or rewound under the GPU.\<close>

theorem ring_live_grant_kept:
  assumes "reachable_from (ring_start h0) (ring_step host_block_allocate BlockSize) s"
    and "g \<in> set (sys_grants s)" "live (sys_finished s) g"
  shows "\<exists>a \<in> set (fifo (sys_ring s)). block a = g_block g
    \<and> unat (g_offset g) + unat (g_size g) \<le> unat (allocated_size a)
    \<and> allocated_size a \<le> total_size a"
  using host_blocks.ring.reachable_inv [OF assms(1)] assms(2,3)
  by (fastforce simp: ring_inv_def ring_safe_def fifo_ok_def list_all_iff backed_def covers_def
      block_ok_def)

lemma ring_live_grant_kept_witness:
  "\<exists>a \<in> set (fifo (sys_ring demo_run)). block a = 0 \<and> unat (128 :: u64) + unat (100 :: u64) \<le> unat (allocated_size a)
     \<and> allocated_size a \<le> total_size a"
  using ring_live_grant_kept [OF demo_run_reachable, of "demo_grant 128 100 2"]
  by (simp add: demo_run_def demo_sys_def demo_grant_def live_def)

text \<open>A request served by a reachable ring gets an offset that is a multiple of the alignment
  asked for, inside the block that is then at the back of the ring.\<close>

theorem ring_allocate_in_block:
  assumes "reachable_from (ring_start h0) (ring_step host_block_allocate BlockSize) s"
    and "request_ok BlockSize sz alignment" "coh \<le> sys_finished s" "sys_newest s \<le> seq"
    and "ring_allocate host_block_allocate BlockSize (sys_ring s) seq coh sz alignment = (r, b, off)"
  shows "unat alignment dvd unat off \<and> fifo r \<noteq> [] \<and> block (last (fifo r)) = b
    \<and> unat off + unat sz \<le> unat (total_size (last (fifo r)))"
proof -
  have inv: "fifo_ok (sys_newest s) (fifo (sys_ring s))"
    "block ` set (fifo (sys_ring s)) \<subseteq> {..<heap_break (allocator (sys_ring s))}"
    using host_blocks.ring.reachable_inv [OF assms(1)] by (auto simp: ring_inv_def)
  note a = host_blocks.ring_allocate_ok [OF inv assms(2-5)]
  have "allocated_size (last (fifo r)) \<le> total_size (last (fifo r))"
    using a(1,4) by (auto simp: fifo_ok_def list_all_iff block_ok_def)
  then show ?thesis using a(3,4,5) by (simp add: covers_def word_le_nat_alt)
qed

lemma ring_allocate_in_block_witness:
  "unat (64 :: u64) dvd unat (256 :: u64) \<and> unat (256 :: u64) + unat (100 :: u64) \<le> 4096"
proof -
  let ?r = "\<lparr>fifo = [\<lparr>allocated_size = 356, total_size = 4096, last_used_seq_id = 2,
                     inc_time_to_live = 0, block = 0\<rparr>], allocator = \<lparr>heap_break = 4096\<rparr>\<rparr>"
  have "ring_allocate host_block_allocate 4096 (sys_ring demo_run) 2 0 100 64 = (?r, 0, 256)"
    by (simp add: demo_sys_def demo_run_def ring_allocate_def select_block_def fits_def
        suballocate_back_def suballocate_def align64_def)
  from ring_allocate_in_block [OF demo_run_reachable demo_request _ _ this]
  show ?thesis by (simp add: demo_run_def demo_sys_def)
qed

text \<open>At teardown (coherent id \<open>-1\<close>, every submission finished) the ring is emptied, whatever
  its blocks' sizes and ages; at any other time no block used after the coherent id is dropped.\<close>

theorem free_blocks_effect:
  "fifo (free_blocks BlockSize st (-1)) = []
   \<and> (\<exists>dropped rest. fifo st = dropped @ rest
        \<and> last_used_seq_id ` set dropped \<subseteq> {..coh}
        \<and> map block (fifo (free_blocks BlockSize st coh)) = map block rest)"
proof -
  have none: "free_front BlockSize (-1) q = []" for q :: "'a allocation list"
    by (induction q) (simp_all add: leD [OF word_n1_ge])
  have drop: "\<exists>dropped rest. q = dropped @ rest \<and> (\<forall>a \<in> set dropped. last_used_seq_id a \<le> coh)
     \<and> map block (free_front BlockSize coh q) = map block rest" for q :: "'a allocation list"
  proof -
    obtain dropped rest where d: "q = dropped @ rest" "\<forall>a \<in> set dropped. last_used_seq_id a \<le> coh"
      "free_front BlockSize coh q = rest
       \<or> (\<exists>f rest'. rest = f # rest' \<and> last_used_seq_id f \<le> coh
            \<and> free_front BlockSize coh q = f\<lparr>inc_time_to_live := inc_time_to_live f + 1\<rparr> # rest')"
      by (rule free_front_split)
    then have "map block (free_front BlockSize coh q) = map block rest" by auto
    with d(1,2) show ?thesis by blast
  qed
  show ?thesis using none drop [of "fifo st"] by (auto simp: free_blocks_def image_subset_iff)
qed

text \<open>A staging block's memory is freed once: after a move only the new block's destructor
  frees it, and a block that was never the owner frees nothing.\<close>

theorem staging_block_move_frees_once:
  "(case staging_block_move b of (new, old) \<Rightarrow>
      staging_block_destroy new @ staging_block_destroy old = staging_block_destroy b)
   \<and> (\<not> placed \<longrightarrow> staging_block_destroy (fst (staging_block_allocate new_buffer opts placed h n)) = [])"
  by (auto simp: staging_block_move_def staging_block_destroy_def staging_block_allocate_def
      split: prod.split)

end
