(* ===== verification/PixelFormats.thy ===== *)
theory PixelFormats
  imports Prelude
begin

text \<open>
  The enumerations the format code works on, as 32-bit words: \<open>WMTPixelFormat\<close> and
  \<open>WMTAttributeFormat\<close> of src/src/winemetal/winemetal.h, \<open>MTL_DXGI_FORMAT_FLAG\<close> and
  \<open>FormatCapability\<close> of src/src/dxmt/dxmt_format.hpp, and the documented \<open>DXGI_FORMAT\<close> values.
\<close>

subsection \<open>WMTPixelFormat\<close>

abbreviation WMTPixelFormatInvalid :: u32 where "WMTPixelFormatInvalid \<equiv> 0"
abbreviation WMTPixelFormatA8Unorm :: u32 where "WMTPixelFormatA8Unorm \<equiv> 1"
abbreviation WMTPixelFormatR8Unorm :: u32 where "WMTPixelFormatR8Unorm \<equiv> 10"
abbreviation WMTPixelFormatR8Unorm_sRGB :: u32 where "WMTPixelFormatR8Unorm_sRGB \<equiv> 11"
abbreviation WMTPixelFormatR8Snorm :: u32 where "WMTPixelFormatR8Snorm \<equiv> 12"
abbreviation WMTPixelFormatR8Uint :: u32 where "WMTPixelFormatR8Uint \<equiv> 13"
abbreviation WMTPixelFormatR8Sint :: u32 where "WMTPixelFormatR8Sint \<equiv> 14"
abbreviation WMTPixelFormatR16Unorm :: u32 where "WMTPixelFormatR16Unorm \<equiv> 20"
abbreviation WMTPixelFormatR16Snorm :: u32 where "WMTPixelFormatR16Snorm \<equiv> 22"
abbreviation WMTPixelFormatR16Uint :: u32 where "WMTPixelFormatR16Uint \<equiv> 23"
abbreviation WMTPixelFormatR16Sint :: u32 where "WMTPixelFormatR16Sint \<equiv> 24"
abbreviation WMTPixelFormatR16Float :: u32 where "WMTPixelFormatR16Float \<equiv> 25"
abbreviation WMTPixelFormatRG8Unorm :: u32 where "WMTPixelFormatRG8Unorm \<equiv> 30"
abbreviation WMTPixelFormatRG8Unorm_sRGB :: u32 where "WMTPixelFormatRG8Unorm_sRGB \<equiv> 31"
abbreviation WMTPixelFormatRG8Snorm :: u32 where "WMTPixelFormatRG8Snorm \<equiv> 32"
abbreviation WMTPixelFormatRG8Uint :: u32 where "WMTPixelFormatRG8Uint \<equiv> 33"
abbreviation WMTPixelFormatRG8Sint :: u32 where "WMTPixelFormatRG8Sint \<equiv> 34"
abbreviation WMTPixelFormatB5G6R5Unorm :: u32 where "WMTPixelFormatB5G6R5Unorm \<equiv> 40"
abbreviation WMTPixelFormatA1BGR5Unorm :: u32 where "WMTPixelFormatA1BGR5Unorm \<equiv> 41"
abbreviation WMTPixelFormatABGR4Unorm :: u32 where "WMTPixelFormatABGR4Unorm \<equiv> 42"
abbreviation WMTPixelFormatBGR5A1Unorm :: u32 where "WMTPixelFormatBGR5A1Unorm \<equiv> 43"
abbreviation WMTPixelFormatR32Uint :: u32 where "WMTPixelFormatR32Uint \<equiv> 53"
abbreviation WMTPixelFormatR32Sint :: u32 where "WMTPixelFormatR32Sint \<equiv> 54"
abbreviation WMTPixelFormatR32Float :: u32 where "WMTPixelFormatR32Float \<equiv> 55"
abbreviation WMTPixelFormatRG16Unorm :: u32 where "WMTPixelFormatRG16Unorm \<equiv> 60"
abbreviation WMTPixelFormatRG16Snorm :: u32 where "WMTPixelFormatRG16Snorm \<equiv> 62"
abbreviation WMTPixelFormatRG16Uint :: u32 where "WMTPixelFormatRG16Uint \<equiv> 63"
abbreviation WMTPixelFormatRG16Sint :: u32 where "WMTPixelFormatRG16Sint \<equiv> 64"
abbreviation WMTPixelFormatRG16Float :: u32 where "WMTPixelFormatRG16Float \<equiv> 65"
abbreviation WMTPixelFormatRGBA8Unorm :: u32 where "WMTPixelFormatRGBA8Unorm \<equiv> 70"
abbreviation WMTPixelFormatRGBA8Unorm_sRGB :: u32 where "WMTPixelFormatRGBA8Unorm_sRGB \<equiv> 71"
abbreviation WMTPixelFormatRGBA8Snorm :: u32 where "WMTPixelFormatRGBA8Snorm \<equiv> 72"
abbreviation WMTPixelFormatRGBA8Uint :: u32 where "WMTPixelFormatRGBA8Uint \<equiv> 73"
abbreviation WMTPixelFormatRGBA8Sint :: u32 where "WMTPixelFormatRGBA8Sint \<equiv> 74"
abbreviation WMTPixelFormatBGRA8Unorm :: u32 where "WMTPixelFormatBGRA8Unorm \<equiv> 80"
abbreviation WMTPixelFormatBGRA8Unorm_sRGB :: u32 where "WMTPixelFormatBGRA8Unorm_sRGB \<equiv> 81"
abbreviation WMTPixelFormatRGB10A2Unorm :: u32 where "WMTPixelFormatRGB10A2Unorm \<equiv> 90"
abbreviation WMTPixelFormatRGB10A2Uint :: u32 where "WMTPixelFormatRGB10A2Uint \<equiv> 91"
abbreviation WMTPixelFormatRG11B10Float :: u32 where "WMTPixelFormatRG11B10Float \<equiv> 92"
abbreviation WMTPixelFormatRGB9E5Float :: u32 where "WMTPixelFormatRGB9E5Float \<equiv> 93"
abbreviation WMTPixelFormatBGR10A2Unorm :: u32 where "WMTPixelFormatBGR10A2Unorm \<equiv> 94"
abbreviation WMTPixelFormatBGR10_XR :: u32 where "WMTPixelFormatBGR10_XR \<equiv> 554"
abbreviation WMTPixelFormatBGR10_XR_sRGB :: u32 where "WMTPixelFormatBGR10_XR_sRGB \<equiv> 555"
abbreviation WMTPixelFormatRG32Uint :: u32 where "WMTPixelFormatRG32Uint \<equiv> 103"
abbreviation WMTPixelFormatRG32Sint :: u32 where "WMTPixelFormatRG32Sint \<equiv> 104"
abbreviation WMTPixelFormatRG32Float :: u32 where "WMTPixelFormatRG32Float \<equiv> 105"
abbreviation WMTPixelFormatRGBA16Unorm :: u32 where "WMTPixelFormatRGBA16Unorm \<equiv> 110"
abbreviation WMTPixelFormatRGBA16Snorm :: u32 where "WMTPixelFormatRGBA16Snorm \<equiv> 112"
abbreviation WMTPixelFormatRGBA16Uint :: u32 where "WMTPixelFormatRGBA16Uint \<equiv> 113"
abbreviation WMTPixelFormatRGBA16Sint :: u32 where "WMTPixelFormatRGBA16Sint \<equiv> 114"
abbreviation WMTPixelFormatRGBA16Float :: u32 where "WMTPixelFormatRGBA16Float \<equiv> 115"
abbreviation WMTPixelFormatBGRA10_XR :: u32 where "WMTPixelFormatBGRA10_XR \<equiv> 552"
abbreviation WMTPixelFormatBGRA10_XR_sRGB :: u32 where "WMTPixelFormatBGRA10_XR_sRGB \<equiv> 553"
abbreviation WMTPixelFormatRGBA32Uint :: u32 where "WMTPixelFormatRGBA32Uint \<equiv> 123"
abbreviation WMTPixelFormatRGBA32Sint :: u32 where "WMTPixelFormatRGBA32Sint \<equiv> 124"
abbreviation WMTPixelFormatRGBA32Float :: u32 where "WMTPixelFormatRGBA32Float \<equiv> 125"
abbreviation WMTPixelFormatBC1_RGBA :: u32 where "WMTPixelFormatBC1_RGBA \<equiv> 130"
abbreviation WMTPixelFormatBC1_RGBA_sRGB :: u32 where "WMTPixelFormatBC1_RGBA_sRGB \<equiv> 131"
abbreviation WMTPixelFormatBC2_RGBA :: u32 where "WMTPixelFormatBC2_RGBA \<equiv> 132"
abbreviation WMTPixelFormatBC2_RGBA_sRGB :: u32 where "WMTPixelFormatBC2_RGBA_sRGB \<equiv> 133"
abbreviation WMTPixelFormatBC3_RGBA :: u32 where "WMTPixelFormatBC3_RGBA \<equiv> 134"
abbreviation WMTPixelFormatBC3_RGBA_sRGB :: u32 where "WMTPixelFormatBC3_RGBA_sRGB \<equiv> 135"
abbreviation WMTPixelFormatBC4_RUnorm :: u32 where "WMTPixelFormatBC4_RUnorm \<equiv> 140"
abbreviation WMTPixelFormatBC4_RSnorm :: u32 where "WMTPixelFormatBC4_RSnorm \<equiv> 141"
abbreviation WMTPixelFormatBC5_RGUnorm :: u32 where "WMTPixelFormatBC5_RGUnorm \<equiv> 142"
abbreviation WMTPixelFormatBC5_RGSnorm :: u32 where "WMTPixelFormatBC5_RGSnorm \<equiv> 143"
abbreviation WMTPixelFormatBC6H_RGBFloat :: u32 where "WMTPixelFormatBC6H_RGBFloat \<equiv> 150"
abbreviation WMTPixelFormatBC6H_RGBUfloat :: u32 where "WMTPixelFormatBC6H_RGBUfloat \<equiv> 151"
abbreviation WMTPixelFormatBC7_RGBAUnorm :: u32 where "WMTPixelFormatBC7_RGBAUnorm \<equiv> 152"
abbreviation WMTPixelFormatBC7_RGBAUnorm_sRGB :: u32 where "WMTPixelFormatBC7_RGBAUnorm_sRGB \<equiv> 153"
abbreviation WMTPixelFormatPVRTC_RGB_2BPP :: u32 where "WMTPixelFormatPVRTC_RGB_2BPP \<equiv> 160"
abbreviation WMTPixelFormatPVRTC_RGB_2BPP_sRGB :: u32 where "WMTPixelFormatPVRTC_RGB_2BPP_sRGB \<equiv> 161"
abbreviation WMTPixelFormatPVRTC_RGB_4BPP :: u32 where "WMTPixelFormatPVRTC_RGB_4BPP \<equiv> 162"
abbreviation WMTPixelFormatPVRTC_RGB_4BPP_sRGB :: u32 where "WMTPixelFormatPVRTC_RGB_4BPP_sRGB \<equiv> 163"
abbreviation WMTPixelFormatPVRTC_RGBA_2BPP :: u32 where "WMTPixelFormatPVRTC_RGBA_2BPP \<equiv> 164"
abbreviation WMTPixelFormatPVRTC_RGBA_2BPP_sRGB :: u32 where "WMTPixelFormatPVRTC_RGBA_2BPP_sRGB \<equiv> 165"
abbreviation WMTPixelFormatPVRTC_RGBA_4BPP :: u32 where "WMTPixelFormatPVRTC_RGBA_4BPP \<equiv> 166"
abbreviation WMTPixelFormatPVRTC_RGBA_4BPP_sRGB :: u32 where "WMTPixelFormatPVRTC_RGBA_4BPP_sRGB \<equiv> 167"
abbreviation WMTPixelFormatEAC_R11Unorm :: u32 where "WMTPixelFormatEAC_R11Unorm \<equiv> 170"
abbreviation WMTPixelFormatEAC_R11Snorm :: u32 where "WMTPixelFormatEAC_R11Snorm \<equiv> 172"
abbreviation WMTPixelFormatEAC_RG11Unorm :: u32 where "WMTPixelFormatEAC_RG11Unorm \<equiv> 174"
abbreviation WMTPixelFormatEAC_RG11Snorm :: u32 where "WMTPixelFormatEAC_RG11Snorm \<equiv> 176"
abbreviation WMTPixelFormatEAC_RGBA8 :: u32 where "WMTPixelFormatEAC_RGBA8 \<equiv> 178"
abbreviation WMTPixelFormatEAC_RGBA8_sRGB :: u32 where "WMTPixelFormatEAC_RGBA8_sRGB \<equiv> 179"
abbreviation WMTPixelFormatETC2_RGB8 :: u32 where "WMTPixelFormatETC2_RGB8 \<equiv> 180"
abbreviation WMTPixelFormatETC2_RGB8_sRGB :: u32 where "WMTPixelFormatETC2_RGB8_sRGB \<equiv> 181"
abbreviation WMTPixelFormatETC2_RGB8A1 :: u32 where "WMTPixelFormatETC2_RGB8A1 \<equiv> 182"
abbreviation WMTPixelFormatETC2_RGB8A1_sRGB :: u32 where "WMTPixelFormatETC2_RGB8A1_sRGB \<equiv> 183"
abbreviation WMTPixelFormatASTC_4x4_sRGB :: u32 where "WMTPixelFormatASTC_4x4_sRGB \<equiv> 186"
abbreviation WMTPixelFormatASTC_5x4_sRGB :: u32 where "WMTPixelFormatASTC_5x4_sRGB \<equiv> 187"
abbreviation WMTPixelFormatASTC_5x5_sRGB :: u32 where "WMTPixelFormatASTC_5x5_sRGB \<equiv> 188"
abbreviation WMTPixelFormatASTC_6x5_sRGB :: u32 where "WMTPixelFormatASTC_6x5_sRGB \<equiv> 189"
abbreviation WMTPixelFormatASTC_6x6_sRGB :: u32 where "WMTPixelFormatASTC_6x6_sRGB \<equiv> 190"
abbreviation WMTPixelFormatASTC_8x5_sRGB :: u32 where "WMTPixelFormatASTC_8x5_sRGB \<equiv> 192"
abbreviation WMTPixelFormatASTC_8x6_sRGB :: u32 where "WMTPixelFormatASTC_8x6_sRGB \<equiv> 193"
abbreviation WMTPixelFormatASTC_8x8_sRGB :: u32 where "WMTPixelFormatASTC_8x8_sRGB \<equiv> 194"
abbreviation WMTPixelFormatASTC_10x5_sRGB :: u32 where "WMTPixelFormatASTC_10x5_sRGB \<equiv> 195"
abbreviation WMTPixelFormatASTC_10x6_sRGB :: u32 where "WMTPixelFormatASTC_10x6_sRGB \<equiv> 196"
abbreviation WMTPixelFormatASTC_10x8_sRGB :: u32 where "WMTPixelFormatASTC_10x8_sRGB \<equiv> 197"
abbreviation WMTPixelFormatASTC_10x10_sRGB :: u32 where "WMTPixelFormatASTC_10x10_sRGB \<equiv> 198"
abbreviation WMTPixelFormatASTC_12x10_sRGB :: u32 where "WMTPixelFormatASTC_12x10_sRGB \<equiv> 199"
abbreviation WMTPixelFormatASTC_12x12_sRGB :: u32 where "WMTPixelFormatASTC_12x12_sRGB \<equiv> 200"
abbreviation WMTPixelFormatASTC_4x4_LDR :: u32 where "WMTPixelFormatASTC_4x4_LDR \<equiv> 204"
abbreviation WMTPixelFormatASTC_5x4_LDR :: u32 where "WMTPixelFormatASTC_5x4_LDR \<equiv> 205"
abbreviation WMTPixelFormatASTC_5x5_LDR :: u32 where "WMTPixelFormatASTC_5x5_LDR \<equiv> 206"
abbreviation WMTPixelFormatASTC_6x5_LDR :: u32 where "WMTPixelFormatASTC_6x5_LDR \<equiv> 207"
abbreviation WMTPixelFormatASTC_6x6_LDR :: u32 where "WMTPixelFormatASTC_6x6_LDR \<equiv> 208"
abbreviation WMTPixelFormatASTC_8x5_LDR :: u32 where "WMTPixelFormatASTC_8x5_LDR \<equiv> 210"
abbreviation WMTPixelFormatASTC_8x6_LDR :: u32 where "WMTPixelFormatASTC_8x6_LDR \<equiv> 211"
abbreviation WMTPixelFormatASTC_8x8_LDR :: u32 where "WMTPixelFormatASTC_8x8_LDR \<equiv> 212"
abbreviation WMTPixelFormatASTC_10x5_LDR :: u32 where "WMTPixelFormatASTC_10x5_LDR \<equiv> 213"
abbreviation WMTPixelFormatASTC_10x6_LDR :: u32 where "WMTPixelFormatASTC_10x6_LDR \<equiv> 214"
abbreviation WMTPixelFormatASTC_10x8_LDR :: u32 where "WMTPixelFormatASTC_10x8_LDR \<equiv> 215"
abbreviation WMTPixelFormatASTC_10x10_LDR :: u32 where "WMTPixelFormatASTC_10x10_LDR \<equiv> 216"
abbreviation WMTPixelFormatASTC_12x10_LDR :: u32 where "WMTPixelFormatASTC_12x10_LDR \<equiv> 217"
abbreviation WMTPixelFormatASTC_12x12_LDR :: u32 where "WMTPixelFormatASTC_12x12_LDR \<equiv> 218"
abbreviation WMTPixelFormatASTC_4x4_HDR :: u32 where "WMTPixelFormatASTC_4x4_HDR \<equiv> 222"
abbreviation WMTPixelFormatASTC_5x4_HDR :: u32 where "WMTPixelFormatASTC_5x4_HDR \<equiv> 223"
abbreviation WMTPixelFormatASTC_5x5_HDR :: u32 where "WMTPixelFormatASTC_5x5_HDR \<equiv> 224"
abbreviation WMTPixelFormatASTC_6x5_HDR :: u32 where "WMTPixelFormatASTC_6x5_HDR \<equiv> 225"
abbreviation WMTPixelFormatASTC_6x6_HDR :: u32 where "WMTPixelFormatASTC_6x6_HDR \<equiv> 226"
abbreviation WMTPixelFormatASTC_8x5_HDR :: u32 where "WMTPixelFormatASTC_8x5_HDR \<equiv> 228"
abbreviation WMTPixelFormatASTC_8x6_HDR :: u32 where "WMTPixelFormatASTC_8x6_HDR \<equiv> 229"
abbreviation WMTPixelFormatASTC_8x8_HDR :: u32 where "WMTPixelFormatASTC_8x8_HDR \<equiv> 230"
abbreviation WMTPixelFormatASTC_10x5_HDR :: u32 where "WMTPixelFormatASTC_10x5_HDR \<equiv> 231"
abbreviation WMTPixelFormatASTC_10x6_HDR :: u32 where "WMTPixelFormatASTC_10x6_HDR \<equiv> 232"
abbreviation WMTPixelFormatASTC_10x8_HDR :: u32 where "WMTPixelFormatASTC_10x8_HDR \<equiv> 233"
abbreviation WMTPixelFormatASTC_10x10_HDR :: u32 where "WMTPixelFormatASTC_10x10_HDR \<equiv> 234"
abbreviation WMTPixelFormatASTC_12x10_HDR :: u32 where "WMTPixelFormatASTC_12x10_HDR \<equiv> 235"
abbreviation WMTPixelFormatASTC_12x12_HDR :: u32 where "WMTPixelFormatASTC_12x12_HDR \<equiv> 236"
abbreviation WMTPixelFormatGBGR422 :: u32 where "WMTPixelFormatGBGR422 \<equiv> 240"
abbreviation WMTPixelFormatBGRG422 :: u32 where "WMTPixelFormatBGRG422 \<equiv> 241"
abbreviation WMTPixelFormatDepth16Unorm :: u32 where "WMTPixelFormatDepth16Unorm \<equiv> 250"
abbreviation WMTPixelFormatDepth32Float :: u32 where "WMTPixelFormatDepth32Float \<equiv> 252"
abbreviation WMTPixelFormatStencil8 :: u32 where "WMTPixelFormatStencil8 \<equiv> 253"
abbreviation WMTPixelFormatDepth24Unorm_Stencil8 :: u32 where "WMTPixelFormatDepth24Unorm_Stencil8 \<equiv> 255"
abbreviation WMTPixelFormatDepth32Float_Stencil8 :: u32 where "WMTPixelFormatDepth32Float_Stencil8 \<equiv> 260"
abbreviation WMTPixelFormatX32_Stencil8 :: u32 where "WMTPixelFormatX32_Stencil8 \<equiv> 261"
abbreviation WMTPixelFormatX24_Stencil8 :: u32 where "WMTPixelFormatX24_Stencil8 \<equiv> 262"
abbreviation WMTPixelFormatAlphaIsOne :: u32 where "WMTPixelFormatAlphaIsOne \<equiv> 8388608"
abbreviation WMTPixelFormatBGRX8Unorm :: u32 where "WMTPixelFormatBGRX8Unorm \<equiv> WMTPixelFormatAlphaIsOne OR WMTPixelFormatBGRA8Unorm"
abbreviation WMTPixelFormatBGRX8Unorm_sRGB :: u32 where "WMTPixelFormatBGRX8Unorm_sRGB \<equiv> WMTPixelFormatAlphaIsOne OR WMTPixelFormatBGRA8Unorm_sRGB"
abbreviation WMTPixelFormatRGB1Swizzle :: u32 where "WMTPixelFormatRGB1Swizzle \<equiv> WMTPixelFormatAlphaIsOne"
abbreviation WMTPixelFormatR001Swizzle :: u32 where "WMTPixelFormatR001Swizzle \<equiv> 4194304"
abbreviation WMTPixelFormat0R01Swizzle :: u32 where "WMTPixelFormat0R01Swizzle \<equiv> 2097152"
abbreviation WMTPixelFormatR32X8X32 :: u32 where "WMTPixelFormatR32X8X32 \<equiv> WMTPixelFormatR001Swizzle OR WMTPixelFormatDepth32Float_Stencil8"
abbreviation WMTPixelFormatX32G8X32 :: u32 where "WMTPixelFormatX32G8X32 \<equiv> WMTPixelFormat0R01Swizzle OR WMTPixelFormatX32_Stencil8"
abbreviation WMTPixelFormatGBARSwizzle :: u32 where "WMTPixelFormatGBARSwizzle \<equiv> 1048576"
abbreviation WMTPixelFormatBGRA4Unorm :: u32 where "WMTPixelFormatBGRA4Unorm \<equiv> WMTPixelFormatGBARSwizzle OR WMTPixelFormatABGR4Unorm"
abbreviation WMTPixelFormatCustomSwizzle :: u32 where "WMTPixelFormatCustomSwizzle \<equiv> WMTPixelFormatRGB1Swizzle OR WMTPixelFormatR001Swizzle OR WMTPixelFormat0R01Swizzle OR WMTPixelFormatGBARSwizzle"

text \<open>\<open>ORIGINAL_FORMAT\<close>\<close>

definition ORIGINAL_FORMAT :: "u32 \<Rightarrow> u32" where
  "ORIGINAL_FORMAT format = format AND NOT WMTPixelFormatCustomSwizzle"

subsection \<open>WMTAttributeFormat\<close>

abbreviation WMTAttributeFormatInvalid :: u32 where "WMTAttributeFormatInvalid \<equiv> 0"
abbreviation WMTAttributeFormatUChar2 :: u32 where "WMTAttributeFormatUChar2 \<equiv> 1"
abbreviation WMTAttributeFormatUChar3 :: u32 where "WMTAttributeFormatUChar3 \<equiv> 2"
abbreviation WMTAttributeFormatUChar4 :: u32 where "WMTAttributeFormatUChar4 \<equiv> 3"
abbreviation WMTAttributeFormatChar2 :: u32 where "WMTAttributeFormatChar2 \<equiv> 4"
abbreviation WMTAttributeFormatChar3 :: u32 where "WMTAttributeFormatChar3 \<equiv> 5"
abbreviation WMTAttributeFormatChar4 :: u32 where "WMTAttributeFormatChar4 \<equiv> 6"
abbreviation WMTAttributeFormatUChar2Normalized :: u32 where "WMTAttributeFormatUChar2Normalized \<equiv> 7"
abbreviation WMTAttributeFormatUChar3Normalized :: u32 where "WMTAttributeFormatUChar3Normalized \<equiv> 8"
abbreviation WMTAttributeFormatUChar4Normalized :: u32 where "WMTAttributeFormatUChar4Normalized \<equiv> 9"
abbreviation WMTAttributeFormatChar2Normalized :: u32 where "WMTAttributeFormatChar2Normalized \<equiv> 10"
abbreviation WMTAttributeFormatChar3Normalized :: u32 where "WMTAttributeFormatChar3Normalized \<equiv> 11"
abbreviation WMTAttributeFormatChar4Normalized :: u32 where "WMTAttributeFormatChar4Normalized \<equiv> 12"
abbreviation WMTAttributeFormatUShort2 :: u32 where "WMTAttributeFormatUShort2 \<equiv> 13"
abbreviation WMTAttributeFormatUShort3 :: u32 where "WMTAttributeFormatUShort3 \<equiv> 14"
abbreviation WMTAttributeFormatUShort4 :: u32 where "WMTAttributeFormatUShort4 \<equiv> 15"
abbreviation WMTAttributeFormatShort2 :: u32 where "WMTAttributeFormatShort2 \<equiv> 16"
abbreviation WMTAttributeFormatShort3 :: u32 where "WMTAttributeFormatShort3 \<equiv> 17"
abbreviation WMTAttributeFormatShort4 :: u32 where "WMTAttributeFormatShort4 \<equiv> 18"
abbreviation WMTAttributeFormatUShort2Normalized :: u32 where "WMTAttributeFormatUShort2Normalized \<equiv> 19"
abbreviation WMTAttributeFormatUShort3Normalized :: u32 where "WMTAttributeFormatUShort3Normalized \<equiv> 20"
abbreviation WMTAttributeFormatUShort4Normalized :: u32 where "WMTAttributeFormatUShort4Normalized \<equiv> 21"
abbreviation WMTAttributeFormatShort2Normalized :: u32 where "WMTAttributeFormatShort2Normalized \<equiv> 22"
abbreviation WMTAttributeFormatShort3Normalized :: u32 where "WMTAttributeFormatShort3Normalized \<equiv> 23"
abbreviation WMTAttributeFormatShort4Normalized :: u32 where "WMTAttributeFormatShort4Normalized \<equiv> 24"
abbreviation WMTAttributeFormatHalf2 :: u32 where "WMTAttributeFormatHalf2 \<equiv> 25"
abbreviation WMTAttributeFormatHalf3 :: u32 where "WMTAttributeFormatHalf3 \<equiv> 26"
abbreviation WMTAttributeFormatHalf4 :: u32 where "WMTAttributeFormatHalf4 \<equiv> 27"
abbreviation WMTAttributeFormatFloat :: u32 where "WMTAttributeFormatFloat \<equiv> 28"
abbreviation WMTAttributeFormatFloat2 :: u32 where "WMTAttributeFormatFloat2 \<equiv> 29"
abbreviation WMTAttributeFormatFloat3 :: u32 where "WMTAttributeFormatFloat3 \<equiv> 30"
abbreviation WMTAttributeFormatFloat4 :: u32 where "WMTAttributeFormatFloat4 \<equiv> 31"
abbreviation WMTAttributeFormatInt :: u32 where "WMTAttributeFormatInt \<equiv> 32"
abbreviation WMTAttributeFormatInt2 :: u32 where "WMTAttributeFormatInt2 \<equiv> 33"
abbreviation WMTAttributeFormatInt3 :: u32 where "WMTAttributeFormatInt3 \<equiv> 34"
abbreviation WMTAttributeFormatInt4 :: u32 where "WMTAttributeFormatInt4 \<equiv> 35"
abbreviation WMTAttributeFormatUInt :: u32 where "WMTAttributeFormatUInt \<equiv> 36"
abbreviation WMTAttributeFormatUInt2 :: u32 where "WMTAttributeFormatUInt2 \<equiv> 37"
abbreviation WMTAttributeFormatUInt3 :: u32 where "WMTAttributeFormatUInt3 \<equiv> 38"
abbreviation WMTAttributeFormatUInt4 :: u32 where "WMTAttributeFormatUInt4 \<equiv> 39"
abbreviation WMTAttributeFormatInt1010102Normalized :: u32 where "WMTAttributeFormatInt1010102Normalized \<equiv> 40"
abbreviation WMTAttributeFormatUInt1010102Normalized :: u32 where "WMTAttributeFormatUInt1010102Normalized \<equiv> 41"
abbreviation WMTAttributeFormatUChar4Normalized_BGRA :: u32 where "WMTAttributeFormatUChar4Normalized_BGRA \<equiv> 42"
abbreviation WMTAttributeFormatUChar :: u32 where "WMTAttributeFormatUChar \<equiv> 45"
abbreviation WMTAttributeFormatChar :: u32 where "WMTAttributeFormatChar \<equiv> 46"
abbreviation WMTAttributeFormatUCharNormalized :: u32 where "WMTAttributeFormatUCharNormalized \<equiv> 47"
abbreviation WMTAttributeFormatCharNormalized :: u32 where "WMTAttributeFormatCharNormalized \<equiv> 48"
abbreviation WMTAttributeFormatUShort :: u32 where "WMTAttributeFormatUShort \<equiv> 49"
abbreviation WMTAttributeFormatShort :: u32 where "WMTAttributeFormatShort \<equiv> 50"
abbreviation WMTAttributeFormatUShortNormalized :: u32 where "WMTAttributeFormatUShortNormalized \<equiv> 51"
abbreviation WMTAttributeFormatShortNormalized :: u32 where "WMTAttributeFormatShortNormalized \<equiv> 52"
abbreviation WMTAttributeFormatHalf :: u32 where "WMTAttributeFormatHalf \<equiv> 53"
abbreviation WMTAttributeFormatFloatRG11B10 :: u32 where "WMTAttributeFormatFloatRG11B10 \<equiv> 54"
abbreviation WMTAttributeFormatFloatRGB9E5 :: u32 where "WMTAttributeFormatFloatRGB9E5 \<equiv> 55"

subsection \<open>DXGI_FORMAT\<close>

abbreviation DXGI_FORMAT_UNKNOWN :: u32 where "DXGI_FORMAT_UNKNOWN \<equiv> 0"
abbreviation DXGI_FORMAT_R32G32B32A32_TYPELESS :: u32 where "DXGI_FORMAT_R32G32B32A32_TYPELESS \<equiv> 1"
abbreviation DXGI_FORMAT_R32G32B32A32_FLOAT :: u32 where "DXGI_FORMAT_R32G32B32A32_FLOAT \<equiv> 2"
abbreviation DXGI_FORMAT_R32G32B32A32_UINT :: u32 where "DXGI_FORMAT_R32G32B32A32_UINT \<equiv> 3"
abbreviation DXGI_FORMAT_R32G32B32A32_SINT :: u32 where "DXGI_FORMAT_R32G32B32A32_SINT \<equiv> 4"
abbreviation DXGI_FORMAT_R32G32B32_TYPELESS :: u32 where "DXGI_FORMAT_R32G32B32_TYPELESS \<equiv> 5"
abbreviation DXGI_FORMAT_R32G32B32_FLOAT :: u32 where "DXGI_FORMAT_R32G32B32_FLOAT \<equiv> 6"
abbreviation DXGI_FORMAT_R32G32B32_UINT :: u32 where "DXGI_FORMAT_R32G32B32_UINT \<equiv> 7"
abbreviation DXGI_FORMAT_R32G32B32_SINT :: u32 where "DXGI_FORMAT_R32G32B32_SINT \<equiv> 8"
abbreviation DXGI_FORMAT_R16G16B16A16_TYPELESS :: u32 where "DXGI_FORMAT_R16G16B16A16_TYPELESS \<equiv> 9"
abbreviation DXGI_FORMAT_R16G16B16A16_FLOAT :: u32 where "DXGI_FORMAT_R16G16B16A16_FLOAT \<equiv> 10"
abbreviation DXGI_FORMAT_R16G16B16A16_UNORM :: u32 where "DXGI_FORMAT_R16G16B16A16_UNORM \<equiv> 11"
abbreviation DXGI_FORMAT_R16G16B16A16_UINT :: u32 where "DXGI_FORMAT_R16G16B16A16_UINT \<equiv> 12"
abbreviation DXGI_FORMAT_R16G16B16A16_SNORM :: u32 where "DXGI_FORMAT_R16G16B16A16_SNORM \<equiv> 13"
abbreviation DXGI_FORMAT_R16G16B16A16_SINT :: u32 where "DXGI_FORMAT_R16G16B16A16_SINT \<equiv> 14"
abbreviation DXGI_FORMAT_R32G32_TYPELESS :: u32 where "DXGI_FORMAT_R32G32_TYPELESS \<equiv> 15"
abbreviation DXGI_FORMAT_R32G32_FLOAT :: u32 where "DXGI_FORMAT_R32G32_FLOAT \<equiv> 16"
abbreviation DXGI_FORMAT_R32G32_UINT :: u32 where "DXGI_FORMAT_R32G32_UINT \<equiv> 17"
abbreviation DXGI_FORMAT_R32G32_SINT :: u32 where "DXGI_FORMAT_R32G32_SINT \<equiv> 18"
abbreviation DXGI_FORMAT_R32G8X24_TYPELESS :: u32 where "DXGI_FORMAT_R32G8X24_TYPELESS \<equiv> 19"
abbreviation DXGI_FORMAT_D32_FLOAT_S8X24_UINT :: u32 where "DXGI_FORMAT_D32_FLOAT_S8X24_UINT \<equiv> 20"
abbreviation DXGI_FORMAT_R32_FLOAT_X8X24_TYPELESS :: u32 where "DXGI_FORMAT_R32_FLOAT_X8X24_TYPELESS \<equiv> 21"
abbreviation DXGI_FORMAT_X32_TYPELESS_G8X24_UINT :: u32 where "DXGI_FORMAT_X32_TYPELESS_G8X24_UINT \<equiv> 22"
abbreviation DXGI_FORMAT_R10G10B10A2_TYPELESS :: u32 where "DXGI_FORMAT_R10G10B10A2_TYPELESS \<equiv> 23"
abbreviation DXGI_FORMAT_R10G10B10A2_UNORM :: u32 where "DXGI_FORMAT_R10G10B10A2_UNORM \<equiv> 24"
abbreviation DXGI_FORMAT_R10G10B10A2_UINT :: u32 where "DXGI_FORMAT_R10G10B10A2_UINT \<equiv> 25"
abbreviation DXGI_FORMAT_R11G11B10_FLOAT :: u32 where "DXGI_FORMAT_R11G11B10_FLOAT \<equiv> 26"
abbreviation DXGI_FORMAT_R8G8B8A8_TYPELESS :: u32 where "DXGI_FORMAT_R8G8B8A8_TYPELESS \<equiv> 27"
abbreviation DXGI_FORMAT_R8G8B8A8_UNORM :: u32 where "DXGI_FORMAT_R8G8B8A8_UNORM \<equiv> 28"
abbreviation DXGI_FORMAT_R8G8B8A8_UNORM_SRGB :: u32 where "DXGI_FORMAT_R8G8B8A8_UNORM_SRGB \<equiv> 29"
abbreviation DXGI_FORMAT_R8G8B8A8_UINT :: u32 where "DXGI_FORMAT_R8G8B8A8_UINT \<equiv> 30"
abbreviation DXGI_FORMAT_R8G8B8A8_SNORM :: u32 where "DXGI_FORMAT_R8G8B8A8_SNORM \<equiv> 31"
abbreviation DXGI_FORMAT_R8G8B8A8_SINT :: u32 where "DXGI_FORMAT_R8G8B8A8_SINT \<equiv> 32"
abbreviation DXGI_FORMAT_R16G16_TYPELESS :: u32 where "DXGI_FORMAT_R16G16_TYPELESS \<equiv> 33"
abbreviation DXGI_FORMAT_R16G16_FLOAT :: u32 where "DXGI_FORMAT_R16G16_FLOAT \<equiv> 34"
abbreviation DXGI_FORMAT_R16G16_UNORM :: u32 where "DXGI_FORMAT_R16G16_UNORM \<equiv> 35"
abbreviation DXGI_FORMAT_R16G16_UINT :: u32 where "DXGI_FORMAT_R16G16_UINT \<equiv> 36"
abbreviation DXGI_FORMAT_R16G16_SNORM :: u32 where "DXGI_FORMAT_R16G16_SNORM \<equiv> 37"
abbreviation DXGI_FORMAT_R16G16_SINT :: u32 where "DXGI_FORMAT_R16G16_SINT \<equiv> 38"
abbreviation DXGI_FORMAT_R32_TYPELESS :: u32 where "DXGI_FORMAT_R32_TYPELESS \<equiv> 39"
abbreviation DXGI_FORMAT_D32_FLOAT :: u32 where "DXGI_FORMAT_D32_FLOAT \<equiv> 40"
abbreviation DXGI_FORMAT_R32_FLOAT :: u32 where "DXGI_FORMAT_R32_FLOAT \<equiv> 41"
abbreviation DXGI_FORMAT_R32_UINT :: u32 where "DXGI_FORMAT_R32_UINT \<equiv> 42"
abbreviation DXGI_FORMAT_R32_SINT :: u32 where "DXGI_FORMAT_R32_SINT \<equiv> 43"
abbreviation DXGI_FORMAT_R24G8_TYPELESS :: u32 where "DXGI_FORMAT_R24G8_TYPELESS \<equiv> 44"
abbreviation DXGI_FORMAT_D24_UNORM_S8_UINT :: u32 where "DXGI_FORMAT_D24_UNORM_S8_UINT \<equiv> 45"
abbreviation DXGI_FORMAT_R24_UNORM_X8_TYPELESS :: u32 where "DXGI_FORMAT_R24_UNORM_X8_TYPELESS \<equiv> 46"
abbreviation DXGI_FORMAT_X24_TYPELESS_G8_UINT :: u32 where "DXGI_FORMAT_X24_TYPELESS_G8_UINT \<equiv> 47"
abbreviation DXGI_FORMAT_R8G8_TYPELESS :: u32 where "DXGI_FORMAT_R8G8_TYPELESS \<equiv> 48"
abbreviation DXGI_FORMAT_R8G8_UNORM :: u32 where "DXGI_FORMAT_R8G8_UNORM \<equiv> 49"
abbreviation DXGI_FORMAT_R8G8_UINT :: u32 where "DXGI_FORMAT_R8G8_UINT \<equiv> 50"
abbreviation DXGI_FORMAT_R8G8_SNORM :: u32 where "DXGI_FORMAT_R8G8_SNORM \<equiv> 51"
abbreviation DXGI_FORMAT_R8G8_SINT :: u32 where "DXGI_FORMAT_R8G8_SINT \<equiv> 52"
abbreviation DXGI_FORMAT_R16_TYPELESS :: u32 where "DXGI_FORMAT_R16_TYPELESS \<equiv> 53"
abbreviation DXGI_FORMAT_R16_FLOAT :: u32 where "DXGI_FORMAT_R16_FLOAT \<equiv> 54"
abbreviation DXGI_FORMAT_D16_UNORM :: u32 where "DXGI_FORMAT_D16_UNORM \<equiv> 55"
abbreviation DXGI_FORMAT_R16_UNORM :: u32 where "DXGI_FORMAT_R16_UNORM \<equiv> 56"
abbreviation DXGI_FORMAT_R16_UINT :: u32 where "DXGI_FORMAT_R16_UINT \<equiv> 57"
abbreviation DXGI_FORMAT_R16_SNORM :: u32 where "DXGI_FORMAT_R16_SNORM \<equiv> 58"
abbreviation DXGI_FORMAT_R16_SINT :: u32 where "DXGI_FORMAT_R16_SINT \<equiv> 59"
abbreviation DXGI_FORMAT_R8_TYPELESS :: u32 where "DXGI_FORMAT_R8_TYPELESS \<equiv> 60"
abbreviation DXGI_FORMAT_R8_UNORM :: u32 where "DXGI_FORMAT_R8_UNORM \<equiv> 61"
abbreviation DXGI_FORMAT_R8_UINT :: u32 where "DXGI_FORMAT_R8_UINT \<equiv> 62"
abbreviation DXGI_FORMAT_R8_SNORM :: u32 where "DXGI_FORMAT_R8_SNORM \<equiv> 63"
abbreviation DXGI_FORMAT_R8_SINT :: u32 where "DXGI_FORMAT_R8_SINT \<equiv> 64"
abbreviation DXGI_FORMAT_A8_UNORM :: u32 where "DXGI_FORMAT_A8_UNORM \<equiv> 65"
abbreviation DXGI_FORMAT_R1_UNORM :: u32 where "DXGI_FORMAT_R1_UNORM \<equiv> 66"
abbreviation DXGI_FORMAT_R9G9B9E5_SHAREDEXP :: u32 where "DXGI_FORMAT_R9G9B9E5_SHAREDEXP \<equiv> 67"
abbreviation DXGI_FORMAT_R8G8_B8G8_UNORM :: u32 where "DXGI_FORMAT_R8G8_B8G8_UNORM \<equiv> 68"
abbreviation DXGI_FORMAT_G8R8_G8B8_UNORM :: u32 where "DXGI_FORMAT_G8R8_G8B8_UNORM \<equiv> 69"
abbreviation DXGI_FORMAT_BC1_TYPELESS :: u32 where "DXGI_FORMAT_BC1_TYPELESS \<equiv> 70"
abbreviation DXGI_FORMAT_BC1_UNORM :: u32 where "DXGI_FORMAT_BC1_UNORM \<equiv> 71"
abbreviation DXGI_FORMAT_BC1_UNORM_SRGB :: u32 where "DXGI_FORMAT_BC1_UNORM_SRGB \<equiv> 72"
abbreviation DXGI_FORMAT_BC2_TYPELESS :: u32 where "DXGI_FORMAT_BC2_TYPELESS \<equiv> 73"
abbreviation DXGI_FORMAT_BC2_UNORM :: u32 where "DXGI_FORMAT_BC2_UNORM \<equiv> 74"
abbreviation DXGI_FORMAT_BC2_UNORM_SRGB :: u32 where "DXGI_FORMAT_BC2_UNORM_SRGB \<equiv> 75"
abbreviation DXGI_FORMAT_BC3_TYPELESS :: u32 where "DXGI_FORMAT_BC3_TYPELESS \<equiv> 76"
abbreviation DXGI_FORMAT_BC3_UNORM :: u32 where "DXGI_FORMAT_BC3_UNORM \<equiv> 77"
abbreviation DXGI_FORMAT_BC3_UNORM_SRGB :: u32 where "DXGI_FORMAT_BC3_UNORM_SRGB \<equiv> 78"
abbreviation DXGI_FORMAT_BC4_TYPELESS :: u32 where "DXGI_FORMAT_BC4_TYPELESS \<equiv> 79"
abbreviation DXGI_FORMAT_BC4_UNORM :: u32 where "DXGI_FORMAT_BC4_UNORM \<equiv> 80"
abbreviation DXGI_FORMAT_BC4_SNORM :: u32 where "DXGI_FORMAT_BC4_SNORM \<equiv> 81"
abbreviation DXGI_FORMAT_BC5_TYPELESS :: u32 where "DXGI_FORMAT_BC5_TYPELESS \<equiv> 82"
abbreviation DXGI_FORMAT_BC5_UNORM :: u32 where "DXGI_FORMAT_BC5_UNORM \<equiv> 83"
abbreviation DXGI_FORMAT_BC5_SNORM :: u32 where "DXGI_FORMAT_BC5_SNORM \<equiv> 84"
abbreviation DXGI_FORMAT_B5G6R5_UNORM :: u32 where "DXGI_FORMAT_B5G6R5_UNORM \<equiv> 85"
abbreviation DXGI_FORMAT_B5G5R5A1_UNORM :: u32 where "DXGI_FORMAT_B5G5R5A1_UNORM \<equiv> 86"
abbreviation DXGI_FORMAT_B8G8R8A8_UNORM :: u32 where "DXGI_FORMAT_B8G8R8A8_UNORM \<equiv> 87"
abbreviation DXGI_FORMAT_B8G8R8X8_UNORM :: u32 where "DXGI_FORMAT_B8G8R8X8_UNORM \<equiv> 88"
abbreviation DXGI_FORMAT_R10G10B10_XR_BIAS_A2_UNORM :: u32 where "DXGI_FORMAT_R10G10B10_XR_BIAS_A2_UNORM \<equiv> 89"
abbreviation DXGI_FORMAT_B8G8R8A8_TYPELESS :: u32 where "DXGI_FORMAT_B8G8R8A8_TYPELESS \<equiv> 90"
abbreviation DXGI_FORMAT_B8G8R8A8_UNORM_SRGB :: u32 where "DXGI_FORMAT_B8G8R8A8_UNORM_SRGB \<equiv> 91"
abbreviation DXGI_FORMAT_B8G8R8X8_TYPELESS :: u32 where "DXGI_FORMAT_B8G8R8X8_TYPELESS \<equiv> 92"
abbreviation DXGI_FORMAT_B8G8R8X8_UNORM_SRGB :: u32 where "DXGI_FORMAT_B8G8R8X8_UNORM_SRGB \<equiv> 93"
abbreviation DXGI_FORMAT_BC6H_TYPELESS :: u32 where "DXGI_FORMAT_BC6H_TYPELESS \<equiv> 94"
abbreviation DXGI_FORMAT_BC6H_UF16 :: u32 where "DXGI_FORMAT_BC6H_UF16 \<equiv> 95"
abbreviation DXGI_FORMAT_BC6H_SF16 :: u32 where "DXGI_FORMAT_BC6H_SF16 \<equiv> 96"
abbreviation DXGI_FORMAT_BC7_TYPELESS :: u32 where "DXGI_FORMAT_BC7_TYPELESS \<equiv> 97"
abbreviation DXGI_FORMAT_BC7_UNORM :: u32 where "DXGI_FORMAT_BC7_UNORM \<equiv> 98"
abbreviation DXGI_FORMAT_BC7_UNORM_SRGB :: u32 where "DXGI_FORMAT_BC7_UNORM_SRGB \<equiv> 99"
abbreviation DXGI_FORMAT_AYUV :: u32 where "DXGI_FORMAT_AYUV \<equiv> 100"
abbreviation DXGI_FORMAT_Y410 :: u32 where "DXGI_FORMAT_Y410 \<equiv> 101"
abbreviation DXGI_FORMAT_Y416 :: u32 where "DXGI_FORMAT_Y416 \<equiv> 102"
abbreviation DXGI_FORMAT_NV12 :: u32 where "DXGI_FORMAT_NV12 \<equiv> 103"
abbreviation DXGI_FORMAT_P010 :: u32 where "DXGI_FORMAT_P010 \<equiv> 104"
abbreviation DXGI_FORMAT_P016 :: u32 where "DXGI_FORMAT_P016 \<equiv> 105"
abbreviation DXGI_FORMAT_420_OPAQUE :: u32 where "DXGI_FORMAT_420_OPAQUE \<equiv> 106"
abbreviation DXGI_FORMAT_YUY2 :: u32 where "DXGI_FORMAT_YUY2 \<equiv> 107"
abbreviation DXGI_FORMAT_Y210 :: u32 where "DXGI_FORMAT_Y210 \<equiv> 108"
abbreviation DXGI_FORMAT_Y216 :: u32 where "DXGI_FORMAT_Y216 \<equiv> 109"
abbreviation DXGI_FORMAT_NV11 :: u32 where "DXGI_FORMAT_NV11 \<equiv> 110"
abbreviation DXGI_FORMAT_AI44 :: u32 where "DXGI_FORMAT_AI44 \<equiv> 111"
abbreviation DXGI_FORMAT_IA44 :: u32 where "DXGI_FORMAT_IA44 \<equiv> 112"
abbreviation DXGI_FORMAT_P8 :: u32 where "DXGI_FORMAT_P8 \<equiv> 113"
abbreviation DXGI_FORMAT_A8P8 :: u32 where "DXGI_FORMAT_A8P8 \<equiv> 114"
abbreviation DXGI_FORMAT_B4G4R4A4_UNORM :: u32 where "DXGI_FORMAT_B4G4R4A4_UNORM \<equiv> 115"
abbreviation DXGI_FORMAT_P208 :: u32 where "DXGI_FORMAT_P208 \<equiv> 130"
abbreviation DXGI_FORMAT_V208 :: u32 where "DXGI_FORMAT_V208 \<equiv> 131"
abbreviation DXGI_FORMAT_V408 :: u32 where "DXGI_FORMAT_V408 \<equiv> 132"
abbreviation DXGI_FORMAT_FORCE_UINT :: u32 where "DXGI_FORMAT_FORCE_UINT \<equiv> 4294967295"

subsection \<open>Flags\<close>

abbreviation MTL_DXGI_FORMAT_TYPELESS :: u32 where "MTL_DXGI_FORMAT_TYPELESS \<equiv> 1"
abbreviation MTL_DXGI_FORMAT_BC :: u32 where "MTL_DXGI_FORMAT_BC \<equiv> 2"
abbreviation MTL_DXGI_FORMAT_BACKBUFFER :: u32 where "MTL_DXGI_FORMAT_BACKBUFFER \<equiv> 4"
abbreviation MTL_DXGI_FORMAT_DEPTH_PLANER :: u32 where "MTL_DXGI_FORMAT_DEPTH_PLANER \<equiv> 16"
abbreviation MTL_DXGI_FORMAT_STENCIL_PLANER :: u32 where "MTL_DXGI_FORMAT_STENCIL_PLANER \<equiv> 32"
abbreviation MTL_DXGI_FORMAT_EMULATED_D24 :: u32 where "MTL_DXGI_FORMAT_EMULATED_D24 \<equiv> 256"
abbreviation MTL_DXGI_FORMAT_EMULATED_LINEAR_DEPTH_STENCIL :: u32 where "MTL_DXGI_FORMAT_EMULATED_LINEAR_DEPTH_STENCIL \<equiv> 512"

abbreviation Cap_None :: u32 where "Cap_None \<equiv> 0"
abbreviation Cap_Atomic :: u32 where "Cap_Atomic \<equiv> 1"
abbreviation Cap_Filter :: u32 where "Cap_Filter \<equiv> 2"
abbreviation Cap_Write :: u32 where "Cap_Write \<equiv> 4"
abbreviation Cap_Color :: u32 where "Cap_Color \<equiv> 8"
abbreviation Cap_Blend :: u32 where "Cap_Blend \<equiv> 16"
abbreviation Cap_MSAA :: u32 where "Cap_MSAA \<equiv> 32"
abbreviation Cap_Sparse :: u32 where "Cap_Sparse \<equiv> 64"
abbreviation Cap_Resolve :: u32 where "Cap_Resolve \<equiv> 128"
abbreviation Cap_DepthStencil :: u32 where "Cap_DepthStencil \<equiv> 256"
abbreviation Cap_TextureBufferRead :: u32 where "Cap_TextureBufferRead \<equiv> 512"
abbreviation Cap_TextureBufferWrite :: u32 where "Cap_TextureBufferWrite \<equiv> 1024"
abbreviation Cap_TextureBufferReadWrite :: u32 where "Cap_TextureBufferReadWrite \<equiv> 2048"

end
