(* ===== verification/Subresource.thy ===== *)
theory Subresource
  imports PixelFormats
begin

text \<open>
  Which part of a resource a view touches: \<open>ResourceSubsetState\<close> of
  src/src/dxmt/dxmt_subresource.hpp and dxmt_subresource.cpp, used to decide whether two views
  of one resource conflict. A state is one of three encodings in a 64-bit union, told apart by a
  two-bit tag, or the whole resource. Bit-fields are natural numbers with the truncation of the
  field written out; the sums of two 31-bit fields are taken in C's \<open>int\<close>, to which such
  fields promote, and an overflow there is \<open>None\<close>.

  The main results: for views of one texture \<open>overlapWith\<close> answers exactly whether they share a
  subresource, in either encoding; for buffers exactly whether the byte ranges meet; and where
  the receiver is a buffer slice, \<open>overlapWith\<close> of a whole-resource state reads bits its
  constructor never wrote.
\<close>

subsection \<open>Planes of a pixel format\<close>

definition getPlanarCount :: "u32 \<Rightarrow> nat" where
  "getPlanarCount format =
     (if format \<in> {WMTPixelFormatX32G8X32, WMTPixelFormatR32X8X32,
                   WMTPixelFormatDepth32Float_Stencil8, WMTPixelFormatDepth24Unorm_Stencil8,
                   WMTPixelFormatX32_Stencil8, WMTPixelFormatX24_Stencil8}
      then 2 else 1)"

definition getPlanarMask :: "u32 \<Rightarrow> u32" where
  "getPlanarMask format =
     (if format = WMTPixelFormatX32G8X32 then 0b10
      else if format = WMTPixelFormatR32X8X32 then 0b01
      else if format \<in> {WMTPixelFormatDepth32Float_Stencil8, WMTPixelFormatDepth24Unorm_Stencil8} then 0b11
      else if format \<in> {WMTPixelFormatX32_Stencil8, WMTPixelFormatX24_Stencil8} then 0b10
      else 1)"

text \<open>\<open>TextureViewDescriptor\<close>, as the values its bit-fields hold.\<close>

record texture_view_descriptor =
  vd_format :: u32
  vd_type :: u32
  firstMiplevel :: nat \<comment> \<open>4 bits\<close>
  miplevelCount :: nat \<comment> \<open>4 bits\<close>
  firstArraySlice :: nat \<comment> \<open>12 bits\<close>
  arraySize :: nat \<comment> \<open>12 bits\<close>
  intendedUsage :: u32

subsection \<open>The encodings\<close>

text \<open>The default constructor writes the tag only: \<open>Whole\<close> carries whatever the other 62 bits
  of the union hold.\<close>

datatype subset_state =
  Whole "62 word"
| BufferSlice nat nat \<comment> \<open>offset, length (31 bits each)\<close>
| TextureBitmask u64
| TextureSubset u32 nat nat nat nat \<comment> \<open>planar mask, mip start, mip end, array start, array end\<close>

definition subset_of_buffer :: "u32 \<Rightarrow> u32 \<Rightarrow> subset_state" where
  "subset_of_buffer buffer_offset buffer_length =
     BufferSlice (take_bit 31 (unat buffer_offset)) (take_bit 31 (unat buffer_length))"

text \<open>The subresources the loops visit and the bit each one sets.\<close>

definition view_subresources :: "texture_view_descriptor \<Rightarrow> u32 \<Rightarrow> (nat \<times> nat \<times> nat) list" where
  "view_subresources desc planar_mask =
     [(planar, sl, level).
        planar \<leftarrow> [0..<getPlanarCount (vd_format desc)],
        sl \<leftarrow> [firstArraySlice desc ..< firstArraySlice desc + arraySize desc],
        level \<leftarrow> [firstMiplevel desc ..< firstMiplevel desc + miplevelCount desc],
        (push_bit planar 1 AND planar_mask \<noteq> 0)]"

definition subresource_bit :: "nat \<Rightarrow> nat \<Rightarrow> nat \<times> nat \<times> nat \<Rightarrow> nat" where
  "subresource_bit total_mip_count total_array_size =
     (\<lambda>(planar, sl, level).
        (planar * total_array_size * total_mip_count + sl * total_mip_count + level) mod 2 ^ 32)"

definition subset_of_view :: "texture_view_descriptor \<Rightarrow> nat \<Rightarrow> nat \<Rightarrow> u32 \<Rightarrow> subset_state" where
  "subset_of_view desc total_mip_count total_array_size ignore_planar_mask =
     (let total_planar = getPlanarCount (vd_format desc);
          planar_mask = getPlanarMask (vd_format desc) AND NOT ignore_planar_mask
      in if (total_planar * total_mip_count * total_array_size) mod 2 ^ 32 \<le> 62
         then TextureBitmask (take_bit 62
                (fold (\<lambda>s bits. bits OR push_bit (subresource_bit total_mip_count total_array_size s) 1)
                   (view_subresources desc planar_mask) 0))
         else TextureSubset (take_bit 30 planar_mask)
                (take_bit 4 (firstMiplevel desc))
                (take_bit 4 (firstMiplevel desc + miplevelCount desc))
                (take_bit 12 (firstArraySlice desc))
                (take_bit 12 (firstArraySlice desc + arraySize desc)))"

subsection \<open>\<open>overlapWith\<close>\<close>

definition int32_add :: "nat \<Rightarrow> nat \<Rightarrow> nat option" where
  "int32_add a b = (if a + b < 2 ^ 31 then Some (a + b) else None)"

definition buffer_ranges_meet :: "nat \<Rightarrow> nat \<Rightarrow> nat \<Rightarrow> nat \<Rightarrow> bool option" where
  "buffer_ranges_meet off len off' len' =
     (case int32_add off' len' of
        None \<Rightarrow> None
      | Some end' \<Rightarrow>
          if off < end' then map_option (\<lambda>e. off' < e) (int32_add off len) else Some False)"

fun overlapWith :: "subset_state \<Rightarrow> subset_state \<Rightarrow> bool option" where
  "overlapWith (BufferSlice off len) (BufferSlice off' len') = buffer_ranges_meet off len off' len'"
| "overlapWith (BufferSlice off len) (Whole junk) =
     buffer_ranges_meet off len (unat (take_bit 31 junk)) (unat (take_bit 31 (drop_bit 31 junk)))"
| "overlapWith (TextureBitmask m) (TextureBitmask m') = Some (m AND m' \<noteq> 0)"
| "overlapWith (TextureBitmask m) (Whole junk) = Some (m AND ucast junk \<noteq> 0)"
| "overlapWith (TextureSubset p ms me as ae) (TextureSubset p' ms' me' as' ae') =
     Some (p AND p' \<noteq> 0 \<and> ms < me' \<and> ms' < me \<and> as < ae' \<and> as' < ae)"
| "overlapWith (TextureSubset p ms me as ae) (Whole junk) =
     Some (p AND ucast (take_bit 30 junk) \<noteq> 0
       \<and> ms < unat (take_bit 4 (drop_bit 46 junk)) \<and> unat (take_bit 4 (drop_bit 30 junk)) < me
       \<and> as < unat (take_bit 12 (drop_bit 50 junk)) \<and> unat (take_bit 12 (drop_bit 34 junk)) < ae)"
| "overlapWith (Whole junk) _ = Some True"
| "overlapWith _ _ = Some False"

subsection \<open>Buffers\<close>

lemma buffer_ranges_meet_iff:
  assumes "off + len < 2 ^ 31" "off' + len' < 2 ^ 31"
  shows "buffer_ranges_meet off len off' len' = Some (off < off' + len' \<and> off' < off + len)"
  using assms by (auto simp: buffer_ranges_meet_def int32_add_def)

lemma ranges_meet_iff_share:
  fixes a b c d :: nat
  assumes "0 < b" "0 < d"
  shows "a < c + d \<and> c < a + b \<longleftrightarrow> (\<exists>x. x \<in> {a..<a + b} \<and> x \<in> {c..<c + d})"
proof
  assume "a < c + d \<and> c < a + b"
  then show "\<exists>x. x \<in> {a..<a + b} \<and> x \<in> {c..<c + d}"
    using assms by (intro exI [of _ "max a c"]) auto
qed auto

subsection \<open>Bit masks of subresources\<close>

lemma bit_fold_or:
  "bit (fold (\<lambda>s bits. bits OR (2 :: u64) ^ f s) xs b) n
   \<longleftrightarrow> bit b n \<or> (n < 64 \<and> n \<in> f ` set xs)"
  by (induction xs arbitrary: b) (auto simp: bit_simps)

lemma and_eq_0_iff_bits: "(a :: 'a :: len word) AND b \<noteq> 0 \<longleftrightarrow> (\<exists>n. bit a n \<and> bit b n)"
  using bit_imp_le_length [of a] by (auto simp: bit_eq_iff bit_simps)

lemma subresource_bit_inj:
  assumes "s < ta" "l < tm" "s' < ta" "l' < tm" "p * ta * tm + s * tm + l = p' * ta * tm + s' * tm + l'"
  shows "p = p' \<and> s = s' \<and> l = (l' :: nat)"
proof -
  have e: "(p * ta + s) * tm + l = (p' * ta + s') * tm + l'"
    using assms(5) by (simp add: algebra_simps)
  have l: "l = l'" using arg_cong [OF e, of "\<lambda>x. x mod tm"] assms(2,4) by simp
  then have e2: "p * ta + s = p' * ta + s'" using e assms(2) by simp
  have "s = s'" using arg_cong [OF e2, of "\<lambda>x. x mod ta"] assms(1,3) by simp
  then show ?thesis using e2 l assms(1) by simp
qed

subsection \<open>Views of one texture\<close>

text \<open>A view of a texture with the given mip and array counts: non-empty, inside the texture.
  The counts are those of D3D11 (mips fit 4 bits, slices 12).\<close>

definition view_ok :: "texture_view_descriptor \<Rightarrow> nat \<Rightarrow> nat \<Rightarrow> bool" where
  "view_ok d tm ta \<longleftrightarrow> 0 < miplevelCount d \<and> 0 < arraySize d \<and> tm < 16 \<and> ta < 4096
     \<and> firstMiplevel d + miplevelCount d \<le> tm \<and> firstArraySlice d + arraySize d \<le> ta"

definition view_planes :: "texture_view_descriptor \<Rightarrow> u32 \<Rightarrow> nat set" where
  "view_planes d ignored = {p. p < getPlanarCount (vd_format d)
     \<and> bit (getPlanarMask (vd_format d) AND NOT ignored) p}"

definition touches :: "texture_view_descriptor \<Rightarrow> u32 \<Rightarrow> nat \<Rightarrow> nat \<Rightarrow> nat \<Rightarrow> bool" where
  "touches d ignored plane sl level \<longleftrightarrow> plane \<in> view_planes d ignored
     \<and> sl \<in> {firstArraySlice d ..< firstArraySlice d + arraySize d}
     \<and> level \<in> {firstMiplevel d ..< firstMiplevel d + miplevelCount d}"

lemma exp_and_iff: "2 ^ p AND (m :: u32) \<noteq> 0 \<longleftrightarrow> bit m p"
  by (auto simp: and_eq_0_iff_bits bit_simps dest: bit_imp_le_length)

lemma set_view_subresources:
  "set (view_subresources d (getPlanarMask (vd_format d) AND NOT ignored))
   = {(p, s, l). touches d ignored p s l}"
  using exp_and_iff
  by (auto simp: view_subresources_def touches_def view_planes_def split: if_splits)

lemma planar_mask_bound:
  assumes "bit (getPlanarMask f) n"
  shows "n < getPlanarCount f"
proof (cases n)
  case 0
  then show ?thesis by (simp add: getPlanarCount_def)
next
  case (Suc k)
  then have "k = 0"
    using assms by (cases k) (auto simp: getPlanarMask_def bit_Suc split: if_splits)
  then show ?thesis
    using assms Suc by (auto simp: getPlanarMask_def getPlanarCount_def bit_Suc split: if_splits)
qed

definition share_subresource ::
  "texture_view_descriptor \<Rightarrow> u32 \<Rightarrow> texture_view_descriptor \<Rightarrow> u32 \<Rightarrow> bool"
where
  "share_subresource d i d' i' \<longleftrightarrow> (\<exists>p s l. touches d i p s l \<and> touches d' i' p s l)"

lemma share_subresource_ranges:
  assumes "view_ok d tm ta" "view_ok d' tm ta"
  shows "share_subresource d i d' i' \<longleftrightarrow>
     (\<exists>p. p \<in> view_planes d i \<and> p \<in> view_planes d' i')
     \<and> firstArraySlice d < firstArraySlice d' + arraySize d'
     \<and> firstArraySlice d' < firstArraySlice d + arraySize d
     \<and> firstMiplevel d < firstMiplevel d' + miplevelCount d'
     \<and> firstMiplevel d' < firstMiplevel d + miplevelCount d"
proof -
  have "share_subresource d i d' i' \<longleftrightarrow> (\<exists>p. p \<in> view_planes d i \<and> p \<in> view_planes d' i')
     \<and> (\<exists>s. s \<in> {firstArraySlice d ..< firstArraySlice d + arraySize d}
          \<and> s \<in> {firstArraySlice d' ..< firstArraySlice d' + arraySize d'})
     \<and> (\<exists>l. l \<in> {firstMiplevel d ..< firstMiplevel d + miplevelCount d}
          \<and> l \<in> {firstMiplevel d' ..< firstMiplevel d' + miplevelCount d'})"
    unfolding share_subresource_def touches_def by blast
  moreover have "0 < arraySize d" "0 < arraySize d'" "0 < miplevelCount d" "0 < miplevelCount d'"
    using assms by (auto simp: view_ok_def)
  ultimately show ?thesis
    by (simp only: ranges_meet_iff_share [symmetric] conj_assoc)
qed

lemma bit_mask_planes:
  "bit (take_bit 30 (getPlanarMask (vd_format d) AND NOT i)) p \<longleftrightarrow> p \<in> view_planes d i"
proof -
  have "p < 30 \<and> p < LENGTH(32)" if "bit (getPlanarMask (vd_format d)) p"
    using planar_mask_bound [OF that] by (simp add: getPlanarCount_def split: if_splits)
  then show ?thesis
    using planar_mask_bound [of "vd_format d" p] by (auto simp: view_planes_def bit_simps)
qed

lemma overlap_range_encoding:
  assumes "view_ok d tm ta" "view_ok d' tm ta"
    and "getPlanarCount (vd_format d) = n" "getPlanarCount (vd_format d') = n"
    and "\<not> (n * tm * ta) mod 2 ^ 32 \<le> 62"
  shows "overlapWith (subset_of_view d tm ta i) (subset_of_view d' tm ta i')
         = Some (share_subresource d i d' i')"
proof -
  have planes: "take_bit 30 (getPlanarMask (vd_format d) AND NOT i)
        AND take_bit 30 (getPlanarMask (vd_format d') AND NOT i') \<noteq> 0
      \<longleftrightarrow> (\<exists>p. p \<in> view_planes d i \<and> p \<in> view_planes d' i')"
    by (simp only: and_eq_0_iff_bits bit_mask_planes)
  have small: "take_bit 4 x = x" "take_bit 12 y = y" if "x < 16" "y < 4096" for x y :: nat
    using that by (simp_all add: take_bit_nat_eq_self_iff)
  show ?thesis
    using assms planes unfolding share_subresource_ranges [OF assms(1,2)]
    by (auto simp: subset_of_view_def Let_def view_ok_def small)
qed

lemma overlap_bitmask_encoding:
  assumes ok: "view_ok d tm ta" "view_ok d' tm ta"
    and n: "getPlanarCount (vd_format d) = n" "getPlanarCount (vd_format d') = n"
    and "(n * tm * ta) mod 2 ^ 32 \<le> 62"
  shows "overlapWith (subset_of_view d tm ta i) (subset_of_view d' tm ta i')
         = Some (share_subresource d i d' i')"
proof -
  let ?b = "subresource_bit tm ta"
  let ?S = "\<lambda>d i. {(p, s, l). touches d i p s l}"
  have "n * tm * ta < 2 * 16 * 4096"
  proof -
    have "n * tm \<le> 2 * 16" using ok(1) n(1)
      by (intro mult_le_mono) (auto simp: view_ok_def getPlanarCount_def)
    then have "n * tm * ta \<le> (2 * 16) * ta" by (intro mult_le_mono1)
    also have "\<dots> < 2 * 16 * 4096" using ok(1) by (simp add: view_ok_def)
    finally show ?thesis .
  qed
  then have total: "n * tm * ta \<le> 62" using assms(5) by simp
  have in_range: "s < ta \<and> l < tm \<and> p < n"
    if "touches e j p s l" "view_ok e tm ta" "getPlanarCount (vd_format e) = n" for e j p s l
    using that by (auto simp: touches_def view_ok_def view_planes_def)
  have bit_eq: "?b (p, s, l) = p * ta * tm + s * tm + l" and bit_lt: "?b (p, s, l) < 62"
    if "s < ta" "l < tm" "p < n" for p s l
  proof -
    have "s * tm + l < ta * tm"
    proof -
      have "s * tm + l < s * tm + tm" using that by simp
      also have "\<dots> = (s + 1) * tm" by simp
      also have "\<dots> \<le> ta * tm" using that by (intro mult_le_mono1) simp
      finally show ?thesis .
    qed
    then have "p * ta * tm + (s * tm + l) < p * ta * tm + ta * tm" by (rule add_strict_left_mono)
    also have "\<dots> = (p + 1) * (ta * tm)" by (simp add: algebra_simps)
    also have "\<dots> \<le> n * (ta * tm)" using that by (intro mult_le_mono1) simp
    also have "\<dots> \<le> 62" using total by (simp add: algebra_simps)
    finally have lt: "p * ta * tm + s * tm + l < 62" by simp
    then show "?b (p, s, l) = p * ta * tm + s * tm + l" by (simp add: subresource_bit_def)
    with lt show "?b (p, s, l) < 62" by simp
  qed
  have mask: "subset_of_view e tm ta j = TextureBitmask (take_bit 62
       (fold (\<lambda>s bits. bits OR 2 ^ ?b s)
         (view_subresources e (getPlanarMask (vd_format e) AND NOT j)) 0))"
    if "getPlanarCount (vd_format e) = n" for e j
    using that assms(5) by (simp add: subset_of_view_def Let_def)
  have "overlapWith (subset_of_view d tm ta i) (subset_of_view d' tm ta i')
      = Some (\<exists>k. k < 62 \<and> k \<in> ?b ` ?S d i \<and> k \<in> ?b ` ?S d' i')"
    by (simp only: mask [OF n(1)] mask [OF n(2)] overlapWith.simps and_eq_0_iff_bits
        bit_take_bit_iff bit_fold_or set_view_subresources bit_0_eq) auto
  moreover have "(\<exists>k. k < 62 \<and> k \<in> ?b ` ?S d i \<and> k \<in> ?b ` ?S d' i') \<longleftrightarrow> share_subresource d i d' i'"
  proof
    assume "\<exists>k. k < 62 \<and> k \<in> ?b ` ?S d i \<and> k \<in> ?b ` ?S d' i'"
    then obtain p s l p' s' l' where t: "touches d i p s l" "touches d' i' p' s' l'"
      "?b (p, s, l) = ?b (p', s', l')" by auto
    have r: "s < ta \<and> l < tm \<and> p < n" "s' < ta \<and> l' < tm \<and> p' < n"
      using in_range [OF t(1) ok(1) n(1)] in_range [OF t(2) ok(2) n(2)] by auto
    have "p * ta * tm + s * tm + l = p' * ta * tm + s' * tm + l'"
      using t(3) bit_eq r by simp
    then have "p = p' \<and> s = s' \<and> l = l'"
      using r by (intro subresource_bit_inj) auto
    with t show "share_subresource d i d' i'" by (auto simp: share_subresource_def)
  next
    assume "share_subresource d i d' i'"
    then obtain p s l where t: "touches d i p s l" "touches d' i' p s l"
      by (auto simp: share_subresource_def)
    then have "?b (p, s, l) < 62" using in_range [OF t(1) ok(1) n(1)] bit_lt by blast
    with t show "\<exists>k. k < 62 \<and> k \<in> ?b ` ?S d i \<and> k \<in> ?b ` ?S d' i'"
      by (intro exI [of _ "?b (p, s, l)"]) auto
  qed
  ultimately show ?thesis by simp
qed

subsection \<open>Properties\<close>

text \<open>C9: For two views of one texture whose formats have the same number of planes, \<open>overlapWith\<close>
  holds exactly when some plane, array slice and mip level belongs to both, whether the subsets
  are stored as bit masks or as ranges.\<close>

theorem view_overlap_exact:
  assumes "view_ok d tm ta" "view_ok d' tm ta"
    and "getPlanarCount (vd_format d) = getPlanarCount (vd_format d')"
  shows "overlapWith (subset_of_view d tm ta ign) (subset_of_view d' tm ta ign')
         = Some (\<exists>p s l. touches d ign p s l \<and> touches d' ign' p s l)"
  using overlap_range_encoding [OF assms(1,2) assms(3) refl]
    overlap_bitmask_encoding [OF assms(1,2) assms(3) refl]
  by (auto simp: share_subresource_def)

lemma view_overlap_exact_witness:
  "let d = \<lparr>vd_format = 260, vd_type = 3, firstMiplevel = 1, miplevelCount = 2, firstArraySlice = 0,
             arraySize = 3, intendedUsage = 0\<rparr>
   in overlapWith (subset_of_view d 10 6 0) (subset_of_view (d\<lparr>firstArraySlice := 2\<rparr>) 10 6 2)
      = Some (\<exists>p s l. touches d 0 p s l \<and> touches (d\<lparr>firstArraySlice := 2\<rparr>) 2 p s l)"
  unfolding Let_def by (rule view_overlap_exact) (simp_all add: view_ok_def)



text \<open>The default state stands for the whole resource, and as receiver it overlaps everything;
  but as the argument of a buffer slice's or a view's \<open>overlapWith\<close> the answer is read from the
  bits of the union the default constructor leaves unwritten, so with those bits zero a slice is
  reported not to overlap the whole resource it is part of.\<close>

theorem whole_resource_overlap_asymmetric:
  "overlapWith (Whole junk) s = Some True
   \<and> overlapWith (BufferSlice off len) (Whole 0) = Some False
   \<and> overlapWith (TextureBitmask m) (Whole 0) = Some False
   \<and> overlapWith (TextureSubset p ms me as ae) (Whole 0) = Some False"
  by (simp add: buffer_ranges_meet_def int32_add_def)

end
