(* ===== verification/FormatTables.thy ===== *)
theory FormatTables
  imports PixelFormats
begin

text \<open>
  The format tables of src/src/dxmt/dxmt_format.cpp: the capabilities \<open>Inspect\<close> records per device
  family, the switches over pixel formats, and \<open>MTLQueryDXGIFormat\<close>. A switch is the list of its
  cases, labels and result, in the order of the code.
\<close>

fun switch :: "('k list \<times> 'v) list \<Rightarrow> 'v \<Rightarrow> 'k \<Rightarrow> 'v" where
  "switch [] d x = d"
| "switch ((labels, v) # cases) d x = (if x \<in> set labels then v else switch cases d x)"

lemma switch_cases:
  "switch cs d x = d \<or> (\<exists>labels. (labels, switch cs d x) \<in> set cs \<and> x \<in> set labels)"
  by (induction cs d x rule: switch.induct) auto

lemma switch_all:
  assumes "list_all (\<lambda>(labels, v). list_all (\<lambda>x. P x v) labels) cs"
  shows "switch cs d x = d \<or> P x (switch cs d x)"
  using switch_cases [of cs d x] assms by (fastforce simp: list_all_iff)

lemma switch_append:
  "(\<And>labels v. (labels, v) \<in> set cs \<Longrightarrow> x \<notin> set labels) \<Longrightarrow> switch (cs @ ds) d x = switch ds d x"
  by (induction cs) fastforce+

record format_desc =
  PixelFormat :: u32
  AttributeFormat :: u32
  BytesPerTexel :: u32  \<comment> \<open>a union with \<open>BlockSize\<close>\<close>
  Flag :: u32

definition reset_desc :: format_desc where
  "reset_desc = \<lparr> PixelFormat = WMTPixelFormatInvalid, AttributeFormat = WMTAttributeFormatInvalid,
     BytesPerTexel = 0, Flag = 0 \<rparr>"

subsection \<open>Capabilities\<close>

definition ALL_CAP :: u32 where
  "ALL_CAP = Cap_Filter OR Cap_Write OR Cap_Color OR Cap_MSAA OR Cap_Blend OR Cap_Sparse OR Cap_Resolve"

definition TEXTURE_BUFFER_ALL_CAP :: u32 where
  "TEXTURE_BUFFER_ALL_CAP = Cap_TextureBufferRead OR Cap_TextureBufferWrite OR Cap_TextureBufferReadWrite"

definition TEXTURE_BUFFER_READ_OR_WRITE :: u32 where
  "TEXTURE_BUFFER_READ_OR_WRITE = Cap_TextureBufferRead OR Cap_TextureBufferWrite"

definition NO_ATOMIC_RESOLVE :: u32 where
  "NO_ATOMIC_RESOLVE = Cap_Filter OR Cap_Write OR Cap_Color OR Cap_MSAA OR Cap_Blend OR Cap_Sparse"

definition APPLE_INT_FORMAT_CAP :: u32 where
  "APPLE_INT_FORMAT_CAP = Cap_Write OR Cap_Color OR Cap_MSAA OR Cap_Sparse"

definition NONAPPLE_INT_FORMAT_CAP :: u32 where
  "NONAPPLE_INT_FORMAT_CAP = Cap_Write OR Cap_Color OR Cap_MSAA OR Cap_Sparse"

definition APPLE_INT_FORMAT_CAP_32 :: u32 where
  "APPLE_INT_FORMAT_CAP_32 = Cap_Write OR Cap_Color OR Cap_Sparse OR Cap_Atomic"

lemmas cap_consts = ALL_CAP_def TEXTURE_BUFFER_ALL_CAP_def TEXTURE_BUFFER_READ_OR_WRITE_def NO_ATOMIC_RESOLVE_def APPLE_INT_FORMAT_CAP_def NONAPPLE_INT_FORMAT_CAP_def APPLE_INT_FORMAT_CAP_32_def

text \<open>The entries \<open>Inspect\<close> appends, block by block.\<close>

definition apple7_caps :: "(u32 \<times> u32) list" where
  "apple7_caps = [
    (WMTPixelFormatA8Unorm, ALL_CAP OR TEXTURE_BUFFER_ALL_CAP),
    (WMTPixelFormatR8Unorm, ALL_CAP OR TEXTURE_BUFFER_ALL_CAP),
    (WMTPixelFormatR8Unorm_sRGB, ALL_CAP),
    (WMTPixelFormatR8Snorm, ALL_CAP OR TEXTURE_BUFFER_READ_OR_WRITE),
    (WMTPixelFormatR8Uint, APPLE_INT_FORMAT_CAP OR TEXTURE_BUFFER_ALL_CAP),
    (WMTPixelFormatR8Sint, APPLE_INT_FORMAT_CAP OR TEXTURE_BUFFER_ALL_CAP),
    (WMTPixelFormatR16Unorm, NO_ATOMIC_RESOLVE OR TEXTURE_BUFFER_READ_OR_WRITE),
    (WMTPixelFormatR16Snorm, NO_ATOMIC_RESOLVE OR TEXTURE_BUFFER_READ_OR_WRITE),
    (WMTPixelFormatR16Uint, APPLE_INT_FORMAT_CAP OR TEXTURE_BUFFER_ALL_CAP),
    (WMTPixelFormatR16Sint, APPLE_INT_FORMAT_CAP OR TEXTURE_BUFFER_ALL_CAP),
    (WMTPixelFormatR16Float, ALL_CAP OR TEXTURE_BUFFER_ALL_CAP),
    (WMTPixelFormatRG8Unorm, ALL_CAP OR TEXTURE_BUFFER_READ_OR_WRITE),
    (WMTPixelFormatRG8Unorm_sRGB, ALL_CAP),
    (WMTPixelFormatRG8Snorm, ALL_CAP OR TEXTURE_BUFFER_READ_OR_WRITE),
    (WMTPixelFormatRG8Uint, APPLE_INT_FORMAT_CAP OR TEXTURE_BUFFER_READ_OR_WRITE),
    (WMTPixelFormatRG8Sint, APPLE_INT_FORMAT_CAP OR TEXTURE_BUFFER_READ_OR_WRITE),
    (WMTPixelFormatB5G6R5Unorm, NO_ATOMIC_RESOLVE),
    (WMTPixelFormatA1BGR5Unorm, NO_ATOMIC_RESOLVE),
    (WMTPixelFormatABGR4Unorm, NO_ATOMIC_RESOLVE),
    (WMTPixelFormatBGR5A1Unorm, NO_ATOMIC_RESOLVE),
    (WMTPixelFormatR32Uint, APPLE_INT_FORMAT_CAP_32 OR TEXTURE_BUFFER_ALL_CAP),
    (WMTPixelFormatR32Sint, APPLE_INT_FORMAT_CAP_32 OR TEXTURE_BUFFER_ALL_CAP),
    (WMTPixelFormatR32Float, Cap_Write OR Cap_Color OR Cap_MSAA OR Cap_Blend OR Cap_Sparse OR TEXTURE_BUFFER_ALL_CAP),
    (WMTPixelFormatRG16Unorm, NO_ATOMIC_RESOLVE OR TEXTURE_BUFFER_READ_OR_WRITE),
    (WMTPixelFormatRG16Snorm, NO_ATOMIC_RESOLVE OR TEXTURE_BUFFER_READ_OR_WRITE),
    (WMTPixelFormatRG16Uint, APPLE_INT_FORMAT_CAP OR TEXTURE_BUFFER_READ_OR_WRITE),
    (WMTPixelFormatRG16Sint, APPLE_INT_FORMAT_CAP OR TEXTURE_BUFFER_READ_OR_WRITE),
    (WMTPixelFormatRG16Float, ALL_CAP OR TEXTURE_BUFFER_READ_OR_WRITE),
    (WMTPixelFormatRGBA8Unorm, ALL_CAP OR TEXTURE_BUFFER_ALL_CAP),
    (WMTPixelFormatRGBA8Unorm_sRGB, ALL_CAP),
    (WMTPixelFormatRGBA8Snorm, ALL_CAP OR TEXTURE_BUFFER_READ_OR_WRITE),
    (WMTPixelFormatRGBA8Uint, APPLE_INT_FORMAT_CAP OR TEXTURE_BUFFER_ALL_CAP),
    (WMTPixelFormatRGBA8Sint, APPLE_INT_FORMAT_CAP OR TEXTURE_BUFFER_ALL_CAP),
    (WMTPixelFormatBGRA8Unorm, ALL_CAP OR Cap_TextureBufferRead),
    (WMTPixelFormatBGRA8Unorm_sRGB, ALL_CAP),
    (WMTPixelFormatRGB10A2Unorm, ALL_CAP OR TEXTURE_BUFFER_READ_OR_WRITE),
    (WMTPixelFormatBGR10A2Unorm, ALL_CAP),
    (WMTPixelFormatRGB10A2Uint, APPLE_INT_FORMAT_CAP OR TEXTURE_BUFFER_READ_OR_WRITE),
    (WMTPixelFormatRG11B10Float, ALL_CAP OR TEXTURE_BUFFER_READ_OR_WRITE),
    (WMTPixelFormatRGB9E5Float, ALL_CAP),
    (WMTPixelFormatRG32Uint, APPLE_INT_FORMAT_CAP OR TEXTURE_BUFFER_READ_OR_WRITE),
    (WMTPixelFormatRG32Sint, APPLE_INT_FORMAT_CAP OR TEXTURE_BUFFER_READ_OR_WRITE),
    (WMTPixelFormatRG32Float, Cap_Write OR Cap_Color OR Cap_MSAA OR Cap_Blend OR Cap_Sparse OR TEXTURE_BUFFER_READ_OR_WRITE),
    (WMTPixelFormatRGBA16Unorm, NO_ATOMIC_RESOLVE OR TEXTURE_BUFFER_READ_OR_WRITE),
    (WMTPixelFormatRGBA16Snorm, NO_ATOMIC_RESOLVE OR TEXTURE_BUFFER_READ_OR_WRITE),
    (WMTPixelFormatRGBA16Uint, APPLE_INT_FORMAT_CAP OR TEXTURE_BUFFER_ALL_CAP),
    (WMTPixelFormatRGBA16Sint, APPLE_INT_FORMAT_CAP OR TEXTURE_BUFFER_ALL_CAP),
    (WMTPixelFormatRGBA16Float, ALL_CAP OR TEXTURE_BUFFER_ALL_CAP),
    (WMTPixelFormatRGBA32Uint, Cap_Write OR Cap_Color OR Cap_Sparse OR TEXTURE_BUFFER_ALL_CAP),
    (WMTPixelFormatRGBA32Sint, Cap_Write OR Cap_Color OR Cap_Sparse OR TEXTURE_BUFFER_ALL_CAP),
    (WMTPixelFormatRGBA32Float, Cap_Write OR Cap_Color OR Cap_MSAA OR Cap_Sparse OR Cap_Blend OR TEXTURE_BUFFER_ALL_CAP)]"

definition apple7_bc_caps :: "(u32 \<times> u32) list" where
  "apple7_bc_caps = [
    (WMTPixelFormatBC1_RGBA, Cap_Filter OR Cap_Sparse),
    (WMTPixelFormatBC1_RGBA_sRGB, Cap_Filter OR Cap_Sparse),
    (WMTPixelFormatBC2_RGBA, Cap_Filter OR Cap_Sparse),
    (WMTPixelFormatBC2_RGBA_sRGB, Cap_Filter OR Cap_Sparse),
    (WMTPixelFormatBC3_RGBA, Cap_Filter OR Cap_Sparse),
    (WMTPixelFormatBC3_RGBA_sRGB, Cap_Filter OR Cap_Sparse),
    (WMTPixelFormatBC4_RUnorm, Cap_Filter OR Cap_Sparse),
    (WMTPixelFormatBC4_RSnorm, Cap_Filter OR Cap_Sparse),
    (WMTPixelFormatBC5_RGSnorm, Cap_Filter OR Cap_Sparse),
    (WMTPixelFormatBC5_RGUnorm, Cap_Filter OR Cap_Sparse),
    (WMTPixelFormatBC6H_RGBUfloat, Cap_Filter OR Cap_Sparse),
    (WMTPixelFormatBC6H_RGBFloat, Cap_Filter OR Cap_Sparse),
    (WMTPixelFormatBC7_RGBAUnorm, Cap_Filter OR Cap_Sparse),
    (WMTPixelFormatBC7_RGBAUnorm_sRGB, Cap_Filter OR Cap_Sparse)]"

definition apple7_other_caps :: "(u32 \<times> u32) list" where
  "apple7_other_caps = [
    (WMTPixelFormatGBGR422, Cap_Filter),
    (WMTPixelFormatBGRG422, Cap_Filter),
    (WMTPixelFormatDepth16Unorm, Cap_Filter OR Cap_MSAA OR Cap_Resolve OR Cap_DepthStencil),
    (WMTPixelFormatDepth32Float, Cap_MSAA OR Cap_Resolve OR Cap_DepthStencil),
    (WMTPixelFormatStencil8, Cap_MSAA OR Cap_DepthStencil),
    (WMTPixelFormatDepth32Float_Stencil8, Cap_MSAA OR Cap_Resolve OR Cap_DepthStencil),
    (WMTPixelFormatX32_Stencil8, Cap_MSAA OR Cap_DepthStencil),
    (WMTPixelFormatBGRA10_XR, ALL_CAP),
    (WMTPixelFormatBGRA10_XR_sRGB, ALL_CAP),
    (WMTPixelFormatBGR10_XR, ALL_CAP),
    (WMTPixelFormatBGR10_XR_sRGB, ALL_CAP)]"

definition apple8_caps :: "(u32 \<times> u32) list" where
  "apple8_caps = [
    (WMTPixelFormatRG32Uint, Cap_Atomic),
    (WMTPixelFormatRG32Sint, Cap_Atomic),
    (WMTPixelFormatDepth16Unorm, Cap_Sparse),
    (WMTPixelFormatStencil8, Cap_Sparse)]"

definition apple9_caps :: "(u32 \<times> u32) list" where
  "apple9_caps = [
    (WMTPixelFormatR32Float, ALL_CAP),
    (WMTPixelFormatRG32Float, ALL_CAP),
    (WMTPixelFormatRGBA32Float, ALL_CAP)]"

definition mac2_caps :: "(u32 \<times> u32) list" where
  "mac2_caps = [
    (WMTPixelFormatA8Unorm, ALL_CAP OR TEXTURE_BUFFER_ALL_CAP),
    (WMTPixelFormatR8Unorm, ALL_CAP OR TEXTURE_BUFFER_ALL_CAP),
    (WMTPixelFormatR8Snorm, ALL_CAP OR TEXTURE_BUFFER_READ_OR_WRITE),
    (WMTPixelFormatR8Uint, NONAPPLE_INT_FORMAT_CAP OR TEXTURE_BUFFER_ALL_CAP),
    (WMTPixelFormatR8Sint, NONAPPLE_INT_FORMAT_CAP OR TEXTURE_BUFFER_ALL_CAP),
    (WMTPixelFormatR16Unorm, ALL_CAP OR TEXTURE_BUFFER_READ_OR_WRITE),
    (WMTPixelFormatR16Snorm, ALL_CAP OR TEXTURE_BUFFER_READ_OR_WRITE),
    (WMTPixelFormatR16Uint, NONAPPLE_INT_FORMAT_CAP OR TEXTURE_BUFFER_ALL_CAP),
    (WMTPixelFormatR16Sint, NONAPPLE_INT_FORMAT_CAP OR TEXTURE_BUFFER_ALL_CAP),
    (WMTPixelFormatR16Float, ALL_CAP OR TEXTURE_BUFFER_ALL_CAP),
    (WMTPixelFormatRG8Unorm, ALL_CAP OR TEXTURE_BUFFER_READ_OR_WRITE),
    (WMTPixelFormatRG8Snorm, ALL_CAP OR TEXTURE_BUFFER_READ_OR_WRITE),
    (WMTPixelFormatRG8Uint, NONAPPLE_INT_FORMAT_CAP OR TEXTURE_BUFFER_READ_OR_WRITE),
    (WMTPixelFormatRG8Sint, NONAPPLE_INT_FORMAT_CAP OR TEXTURE_BUFFER_READ_OR_WRITE),
    (WMTPixelFormatR32Uint, NONAPPLE_INT_FORMAT_CAP OR TEXTURE_BUFFER_ALL_CAP OR Cap_Atomic),
    (WMTPixelFormatR32Uint, NONAPPLE_INT_FORMAT_CAP OR TEXTURE_BUFFER_ALL_CAP OR Cap_Atomic),
    (WMTPixelFormatR32Float, ALL_CAP OR TEXTURE_BUFFER_ALL_CAP),
    (WMTPixelFormatRG16Unorm, ALL_CAP OR TEXTURE_BUFFER_READ_OR_WRITE),
    (WMTPixelFormatRG16Snorm, ALL_CAP OR TEXTURE_BUFFER_READ_OR_WRITE),
    (WMTPixelFormatRG16Uint, NONAPPLE_INT_FORMAT_CAP OR TEXTURE_BUFFER_READ_OR_WRITE),
    (WMTPixelFormatRG16Sint, NONAPPLE_INT_FORMAT_CAP OR TEXTURE_BUFFER_READ_OR_WRITE),
    (WMTPixelFormatRG16Float, ALL_CAP OR TEXTURE_BUFFER_READ_OR_WRITE),
    (WMTPixelFormatRGBA8Unorm, ALL_CAP OR TEXTURE_BUFFER_ALL_CAP),
    (WMTPixelFormatRGBA8Snorm, ALL_CAP OR TEXTURE_BUFFER_READ_OR_WRITE),
    (WMTPixelFormatRGBA8Unorm_sRGB, Cap_Filter OR Cap_Color OR Cap_MSAA OR Cap_Resolve OR Cap_Blend),
    (WMTPixelFormatRGBA8Uint, NONAPPLE_INT_FORMAT_CAP OR TEXTURE_BUFFER_ALL_CAP),
    (WMTPixelFormatRGBA8Sint, NONAPPLE_INT_FORMAT_CAP OR TEXTURE_BUFFER_ALL_CAP),
    (WMTPixelFormatBGRA8Unorm, ALL_CAP OR Cap_TextureBufferRead),
    (WMTPixelFormatBGRA8Unorm_sRGB, Cap_Filter OR Cap_Color OR Cap_MSAA OR Cap_Resolve OR Cap_Blend),
    (WMTPixelFormatRGB10A2Unorm, ALL_CAP OR TEXTURE_BUFFER_READ_OR_WRITE),
    (WMTPixelFormatBGR10A2Unorm, ALL_CAP),
    (WMTPixelFormatRGB10A2Uint, NONAPPLE_INT_FORMAT_CAP OR TEXTURE_BUFFER_READ_OR_WRITE),
    (WMTPixelFormatRG11B10Float, ALL_CAP OR TEXTURE_BUFFER_READ_OR_WRITE),
    (WMTPixelFormatRGB9E5Float, Cap_Filter),
    (WMTPixelFormatRG32Uint, NONAPPLE_INT_FORMAT_CAP OR TEXTURE_BUFFER_READ_OR_WRITE),
    (WMTPixelFormatRG32Sint, NONAPPLE_INT_FORMAT_CAP OR TEXTURE_BUFFER_READ_OR_WRITE),
    (WMTPixelFormatRG32Float, ALL_CAP OR TEXTURE_BUFFER_READ_OR_WRITE),
    (WMTPixelFormatRGBA16Unorm, ALL_CAP OR TEXTURE_BUFFER_READ_OR_WRITE),
    (WMTPixelFormatRGBA16Snorm, ALL_CAP OR TEXTURE_BUFFER_READ_OR_WRITE),
    (WMTPixelFormatRGBA16Uint, NONAPPLE_INT_FORMAT_CAP OR TEXTURE_BUFFER_ALL_CAP),
    (WMTPixelFormatRGBA16Sint, NONAPPLE_INT_FORMAT_CAP OR TEXTURE_BUFFER_ALL_CAP),
    (WMTPixelFormatRGBA16Float, ALL_CAP OR TEXTURE_BUFFER_ALL_CAP),
    (WMTPixelFormatRGBA32Uint, Cap_Write OR Cap_Color OR Cap_MSAA OR TEXTURE_BUFFER_ALL_CAP),
    (WMTPixelFormatRGBA32Sint, Cap_Write OR Cap_Color OR Cap_MSAA OR TEXTURE_BUFFER_ALL_CAP),
    (WMTPixelFormatRGBA32Float, ALL_CAP OR TEXTURE_BUFFER_ALL_CAP)]"

definition mac2_other_caps :: "(u32 \<times> u32) list" where
  "mac2_other_caps = [
    (WMTPixelFormatBC1_RGBA, Cap_Filter),
    (WMTPixelFormatBC1_RGBA_sRGB, Cap_Filter),
    (WMTPixelFormatBC2_RGBA, Cap_Filter),
    (WMTPixelFormatBC2_RGBA_sRGB, Cap_Filter),
    (WMTPixelFormatBC3_RGBA, Cap_Filter),
    (WMTPixelFormatBC3_RGBA_sRGB, Cap_Filter),
    (WMTPixelFormatBC4_RUnorm, Cap_Filter),
    (WMTPixelFormatBC4_RSnorm, Cap_Filter),
    (WMTPixelFormatBC5_RGSnorm, Cap_Filter),
    (WMTPixelFormatBC5_RGUnorm, Cap_Filter),
    (WMTPixelFormatBC6H_RGBUfloat, Cap_Filter),
    (WMTPixelFormatBC6H_RGBFloat, Cap_Filter),
    (WMTPixelFormatBC7_RGBAUnorm, Cap_Filter),
    (WMTPixelFormatBC7_RGBAUnorm_sRGB, Cap_Filter),
    (WMTPixelFormatGBGR422, Cap_Filter),
    (WMTPixelFormatBGRG422, Cap_Filter),
    (WMTPixelFormatDepth16Unorm, Cap_Filter OR Cap_MSAA OR Cap_Resolve OR Cap_DepthStencil),
    (WMTPixelFormatDepth32Float, Cap_Filter OR Cap_MSAA OR Cap_Resolve OR Cap_DepthStencil),
    (WMTPixelFormatStencil8, Cap_MSAA OR Cap_DepthStencil),
    (WMTPixelFormatDepth32Float_Stencil8, Cap_MSAA OR Cap_Resolve OR Cap_DepthStencil),
    (WMTPixelFormatX32_Stencil8, Cap_MSAA OR Cap_DepthStencil)]"

text \<open>\<open>APPEND_CAP\<close>: the map's default value is no capability.\<close>

type_synonym capability_map = "u32 \<rightharpoonup> u32"

definition APPEND_CAP :: "u32 \<times> u32 \<Rightarrow> capability_map \<Rightarrow> capability_map" where
  "APPEND_CAP e m =
     m(fst e \<mapsto> (case m (fst e) of None \<Rightarrow> Cap_None | Some c \<Rightarrow> c) OR snd e)"

text \<open>The answers of the device \<open>Inspect\<close> asks for.\<close>

record device_family =
  Apple7 :: bool
  Apple8 :: bool
  Apple9 :: bool
  Mac2 :: bool
  BCTextureCompression :: bool

definition Inspect :: "device_family \<Rightarrow> capability_map \<Rightarrow> string + capability_map" where
  "Inspect device m =
     (if Apple7 device then
        (let m = fold APPEND_CAP apple7_caps m;
             m = (if BCTextureCompression device then fold APPEND_CAP apple7_bc_caps m else m);
             m = fold APPEND_CAP apple7_other_caps m
         in if \<not> Apple8 device then Inr m
            else (let m = fold APPEND_CAP apple8_caps m
                  in if \<not> Apple9 device then Inr m
                     else Inr (fold APPEND_CAP apple9_caps m)))
      else if Mac2 device then Inr (fold APPEND_CAP (mac2_caps @ mac2_other_caps) m)
      else Inl ''Invalid MTLDevice'')"

definition IsDepthStencilDXGIFormat_cases :: "(u32 list \<times> bool) list" where
  "IsDepthStencilDXGIFormat_cases = [
    ([DXGI_FORMAT_R32G8X24_TYPELESS, DXGI_FORMAT_D32_FLOAT_S8X24_UINT,
      DXGI_FORMAT_R32_FLOAT_X8X24_TYPELESS, DXGI_FORMAT_X32_TYPELESS_G8X24_UINT,
      DXGI_FORMAT_D24_UNORM_S8_UINT, DXGI_FORMAT_R24G8_TYPELESS,
      DXGI_FORMAT_R24_UNORM_X8_TYPELESS, DXGI_FORMAT_X24_TYPELESS_G8_UINT, DXGI_FORMAT_D32_FLOAT,
      DXGI_FORMAT_D16_UNORM],
      True)]"

definition Forget_sRGB_cases :: "(u32 list \<times> u32) list" where
  "Forget_sRGB_cases = [
    ([WMTPixelFormatR8Unorm_sRGB],
      WMTPixelFormatR8Unorm),
    ([WMTPixelFormatRG8Unorm_sRGB],
      WMTPixelFormatRG8Unorm),
    ([WMTPixelFormatRGBA8Unorm_sRGB],
      WMTPixelFormatRGBA8Unorm),
    ([WMTPixelFormatBGRA8Unorm_sRGB],
      WMTPixelFormatBGRA8Unorm),
    ([WMTPixelFormatBGRX8Unorm_sRGB],
      WMTPixelFormatBGRX8Unorm),
    ([WMTPixelFormatBGR10_XR_sRGB],
      WMTPixelFormatBGR10_XR),
    ([WMTPixelFormatBGRA10_XR_sRGB],
      WMTPixelFormatBGRA10_XR),
    ([WMTPixelFormatBC1_RGBA_sRGB],
      WMTPixelFormatBC1_RGBA),
    ([WMTPixelFormatBC2_RGBA_sRGB],
      WMTPixelFormatBC2_RGBA),
    ([WMTPixelFormatBC3_RGBA_sRGB],
      WMTPixelFormatBC3_RGBA),
    ([WMTPixelFormatBC7_RGBAUnorm_sRGB],
      WMTPixelFormatBC7_RGBAUnorm),
    ([WMTPixelFormatPVRTC_RGBA_2BPP_sRGB],
      WMTPixelFormatPVRTC_RGBA_2BPP),
    ([WMTPixelFormatPVRTC_RGBA_4BPP_sRGB],
      WMTPixelFormatPVRTC_RGBA_4BPP),
    ([WMTPixelFormatPVRTC_RGB_2BPP_sRGB],
      WMTPixelFormatPVRTC_RGB_2BPP),
    ([WMTPixelFormatPVRTC_RGB_4BPP_sRGB],
      WMTPixelFormatPVRTC_RGB_4BPP),
    ([WMTPixelFormatEAC_RGBA8_sRGB],
      WMTPixelFormatEAC_RGBA8),
    ([WMTPixelFormatETC2_RGB8_sRGB],
      WMTPixelFormatETC2_RGB8),
    ([WMTPixelFormatETC2_RGB8A1_sRGB],
      WMTPixelFormatETC2_RGB8A1)]"

definition Recall_sRGB_cases :: "(u32 list \<times> u32) list" where
  "Recall_sRGB_cases = [
    ([WMTPixelFormatR8Unorm],
      WMTPixelFormatR8Unorm_sRGB),
    ([WMTPixelFormatRG8Unorm],
      WMTPixelFormatRG8Unorm_sRGB),
    ([WMTPixelFormatRGBA8Unorm],
      WMTPixelFormatRGBA8Unorm_sRGB),
    ([WMTPixelFormatBGRA8Unorm],
      WMTPixelFormatBGRA8Unorm_sRGB),
    ([WMTPixelFormatBGRX8Unorm],
      WMTPixelFormatBGRX8Unorm_sRGB),
    ([WMTPixelFormatBGR10_XR],
      WMTPixelFormatBGR10_XR_sRGB),
    ([WMTPixelFormatBGRA10_XR],
      WMTPixelFormatBGRA10_XR_sRGB),
    ([WMTPixelFormatBC1_RGBA],
      WMTPixelFormatBC1_RGBA_sRGB),
    ([WMTPixelFormatBC2_RGBA],
      WMTPixelFormatBC2_RGBA_sRGB),
    ([WMTPixelFormatBC3_RGBA],
      WMTPixelFormatBC3_RGBA_sRGB),
    ([WMTPixelFormatBC7_RGBAUnorm],
      WMTPixelFormatBC7_RGBAUnorm_sRGB),
    ([WMTPixelFormatPVRTC_RGBA_2BPP],
      WMTPixelFormatPVRTC_RGBA_2BPP_sRGB),
    ([WMTPixelFormatPVRTC_RGBA_4BPP],
      WMTPixelFormatPVRTC_RGBA_4BPP_sRGB),
    ([WMTPixelFormatPVRTC_RGB_2BPP],
      WMTPixelFormatPVRTC_RGB_2BPP_sRGB),
    ([WMTPixelFormatPVRTC_RGB_4BPP],
      WMTPixelFormatPVRTC_RGB_4BPP_sRGB),
    ([WMTPixelFormatEAC_RGBA8],
      WMTPixelFormatEAC_RGBA8_sRGB),
    ([WMTPixelFormatETC2_RGB8],
      WMTPixelFormatETC2_RGB8_sRGB),
    ([WMTPixelFormatETC2_RGB8A1],
      WMTPixelFormatETC2_RGB8A1_sRGB)]"

definition IsBlockCompressionFormat_cases :: "(u32 list \<times> bool) list" where
  "IsBlockCompressionFormat_cases = [
    ([WMTPixelFormatBC1_RGBA, WMTPixelFormatBC1_RGBA_sRGB, WMTPixelFormatBC2_RGBA,
      WMTPixelFormatBC2_RGBA_sRGB, WMTPixelFormatBC3_RGBA, WMTPixelFormatBC3_RGBA_sRGB,
      WMTPixelFormatBC4_RUnorm, WMTPixelFormatBC4_RSnorm, WMTPixelFormatBC5_RGUnorm,
      WMTPixelFormatBC5_RGSnorm, WMTPixelFormatBC6H_RGBUfloat, WMTPixelFormatBC6H_RGBFloat,
      WMTPixelFormatBC7_RGBAUnorm, WMTPixelFormatBC7_RGBAUnorm_sRGB],
      True)]"

definition DepthStencilPlanarFlags_cases :: "(u32 list \<times> u32) list" where
  "DepthStencilPlanarFlags_cases = [
    ([WMTPixelFormatDepth32Float_Stencil8],
      3),
    ([WMTPixelFormatDepth32Float, WMTPixelFormatDepth16Unorm, WMTPixelFormatR32X8X32],
      1),
    ([WMTPixelFormatStencil8, WMTPixelFormatX32_Stencil8, WMTPixelFormatX32G8X32],
      2)]"

definition MTLGetTexelSize_cases :: "(u32 list \<times> u32) list" where
  "MTLGetTexelSize_cases = [
    ([WMTPixelFormatInvalid],
      0),
    ([WMTPixelFormatA8Unorm, WMTPixelFormatR8Unorm, WMTPixelFormatR8Unorm_sRGB,
      WMTPixelFormatR8Snorm, WMTPixelFormatR8Uint, WMTPixelFormatR8Sint],
      1),
    ([WMTPixelFormatR16Unorm, WMTPixelFormatR16Snorm, WMTPixelFormatR16Uint,
      WMTPixelFormatR16Sint, WMTPixelFormatR16Float, WMTPixelFormatRG8Unorm,
      WMTPixelFormatRG8Unorm_sRGB, WMTPixelFormatRG8Snorm, WMTPixelFormatRG8Uint,
      WMTPixelFormatRG8Sint, WMTPixelFormatB5G6R5Unorm, WMTPixelFormatA1BGR5Unorm,
      WMTPixelFormatABGR4Unorm, WMTPixelFormatBGR5A1Unorm],
      2),
    ([WMTPixelFormatR32Uint, WMTPixelFormatR32Sint, WMTPixelFormatR32Float,
      WMTPixelFormatRG16Unorm, WMTPixelFormatRG16Snorm, WMTPixelFormatRG16Uint,
      WMTPixelFormatRG16Sint, WMTPixelFormatRG16Float, WMTPixelFormatRGBA8Unorm,
      WMTPixelFormatRGBA8Unorm_sRGB, WMTPixelFormatRGBA8Snorm, WMTPixelFormatRGBA8Uint,
      WMTPixelFormatRGBA8Sint, WMTPixelFormatBGRA8Unorm, WMTPixelFormatBGRA8Unorm_sRGB,
      WMTPixelFormatRGB10A2Unorm, WMTPixelFormatRGB10A2Uint, WMTPixelFormatRG11B10Float,
      WMTPixelFormatRGB9E5Float, WMTPixelFormatBGR10A2Unorm, WMTPixelFormatBGR10_XR,
      WMTPixelFormatBGR10_XR_sRGB],
      4),
    ([WMTPixelFormatRG32Uint, WMTPixelFormatRG32Sint, WMTPixelFormatRG32Float,
      WMTPixelFormatRGBA16Unorm, WMTPixelFormatRGBA16Snorm, WMTPixelFormatRGBA16Uint,
      WMTPixelFormatRGBA16Sint, WMTPixelFormatRGBA16Float, WMTPixelFormatBGRA10_XR,
      WMTPixelFormatBGRA10_XR_sRGB, WMTPixelFormatBC1_RGBA, WMTPixelFormatBC1_RGBA_sRGB,
      WMTPixelFormatBC4_RUnorm, WMTPixelFormatBC4_RSnorm],
      8),
    ([WMTPixelFormatRGBA32Uint, WMTPixelFormatRGBA32Sint, WMTPixelFormatRGBA32Float,
      WMTPixelFormatBC2_RGBA, WMTPixelFormatBC2_RGBA_sRGB, WMTPixelFormatBC3_RGBA,
      WMTPixelFormatBC3_RGBA_sRGB, WMTPixelFormatBC5_RGUnorm, WMTPixelFormatBC5_RGSnorm,
      WMTPixelFormatBC6H_RGBFloat, WMTPixelFormatBC6H_RGBUfloat, WMTPixelFormatBC7_RGBAUnorm,
      WMTPixelFormatBC7_RGBAUnorm_sRGB],
      16),
    ([WMTPixelFormatPVRTC_RGB_2BPP, WMTPixelFormatPVRTC_RGB_2BPP_sRGB,
      WMTPixelFormatPVRTC_RGB_4BPP, WMTPixelFormatPVRTC_RGB_4BPP_sRGB,
      WMTPixelFormatPVRTC_RGBA_2BPP, WMTPixelFormatPVRTC_RGBA_2BPP_sRGB,
      WMTPixelFormatPVRTC_RGBA_4BPP, WMTPixelFormatPVRTC_RGBA_4BPP_sRGB,
      WMTPixelFormatEAC_R11Unorm, WMTPixelFormatEAC_R11Snorm, WMTPixelFormatEAC_RG11Unorm,
      WMTPixelFormatEAC_RG11Snorm, WMTPixelFormatEAC_RGBA8, WMTPixelFormatEAC_RGBA8_sRGB,
      WMTPixelFormatETC2_RGB8, WMTPixelFormatETC2_RGB8_sRGB, WMTPixelFormatETC2_RGB8A1,
      WMTPixelFormatETC2_RGB8A1_sRGB, WMTPixelFormatASTC_4x4_sRGB, WMTPixelFormatASTC_5x4_sRGB,
      WMTPixelFormatASTC_5x5_sRGB, WMTPixelFormatASTC_6x5_sRGB, WMTPixelFormatASTC_6x6_sRGB,
      WMTPixelFormatASTC_8x5_sRGB, WMTPixelFormatASTC_8x6_sRGB, WMTPixelFormatASTC_8x8_sRGB,
      WMTPixelFormatASTC_10x5_sRGB, WMTPixelFormatASTC_10x6_sRGB, WMTPixelFormatASTC_10x8_sRGB,
      WMTPixelFormatASTC_10x10_sRGB, WMTPixelFormatASTC_12x10_sRGB,
      WMTPixelFormatASTC_12x12_sRGB, WMTPixelFormatASTC_4x4_LDR, WMTPixelFormatASTC_5x4_LDR,
      WMTPixelFormatASTC_5x5_LDR, WMTPixelFormatASTC_6x5_LDR, WMTPixelFormatASTC_6x6_LDR,
      WMTPixelFormatASTC_8x5_LDR, WMTPixelFormatASTC_8x6_LDR, WMTPixelFormatASTC_8x8_LDR,
      WMTPixelFormatASTC_10x5_LDR, WMTPixelFormatASTC_10x6_LDR, WMTPixelFormatASTC_10x8_LDR,
      WMTPixelFormatASTC_10x10_LDR, WMTPixelFormatASTC_12x10_LDR, WMTPixelFormatASTC_12x12_LDR,
      WMTPixelFormatASTC_4x4_HDR, WMTPixelFormatASTC_5x4_HDR, WMTPixelFormatASTC_5x5_HDR,
      WMTPixelFormatASTC_6x5_HDR, WMTPixelFormatASTC_6x6_HDR, WMTPixelFormatASTC_8x5_HDR,
      WMTPixelFormatASTC_8x6_HDR, WMTPixelFormatASTC_8x8_HDR, WMTPixelFormatASTC_10x5_HDR,
      WMTPixelFormatASTC_10x6_HDR, WMTPixelFormatASTC_10x8_HDR, WMTPixelFormatASTC_10x10_HDR,
      WMTPixelFormatASTC_12x10_HDR, WMTPixelFormatASTC_12x12_HDR],
      0),
    ([WMTPixelFormatGBGR422, WMTPixelFormatBGRG422],
      1),
    ([WMTPixelFormatDepth16Unorm],
      2),
    ([WMTPixelFormatDepth32Float],
      4)]"

definition MTLGetUnsignedIntegerFormat_cases :: "(u32 list \<times> u32) list" where
  "MTLGetUnsignedIntegerFormat_cases = [
    ([WMTPixelFormatA8Unorm, WMTPixelFormatR8Unorm, WMTPixelFormatR8Unorm_sRGB,
      WMTPixelFormatR8Snorm, WMTPixelFormatR8Uint, WMTPixelFormatR8Sint],
      WMTPixelFormatR8Uint),
    ([WMTPixelFormatR16Unorm, WMTPixelFormatR16Snorm, WMTPixelFormatR16Uint,
      WMTPixelFormatR16Sint, WMTPixelFormatR16Float],
      WMTPixelFormatR16Uint),
    ([WMTPixelFormatRG8Unorm, WMTPixelFormatRG8Unorm_sRGB, WMTPixelFormatRG8Snorm,
      WMTPixelFormatRG8Uint, WMTPixelFormatRG8Sint],
      WMTPixelFormatRG8Uint),
    ([WMTPixelFormatB5G6R5Unorm, WMTPixelFormatA1BGR5Unorm, WMTPixelFormatABGR4Unorm,
      WMTPixelFormatBGR5A1Unorm],
      WMTPixelFormatInvalid),
    ([WMTPixelFormatR32Uint, WMTPixelFormatR32Sint, WMTPixelFormatR32Float],
      WMTPixelFormatR32Uint),
    ([WMTPixelFormatRG16Unorm, WMTPixelFormatRG16Snorm, WMTPixelFormatRG16Uint,
      WMTPixelFormatRG16Sint, WMTPixelFormatRG16Float],
      WMTPixelFormatRG16Uint),
    ([WMTPixelFormatRGBA8Unorm, WMTPixelFormatRGBA8Unorm_sRGB, WMTPixelFormatRGBA8Snorm,
      WMTPixelFormatRGBA8Uint, WMTPixelFormatRGBA8Sint, WMTPixelFormatBGRA8Unorm,
      WMTPixelFormatBGRA8Unorm_sRGB, WMTPixelFormatBGRX8Unorm, WMTPixelFormatBGRX8Unorm_sRGB],
      WMTPixelFormatRGBA8Uint),
    ([WMTPixelFormatRGB10A2Unorm, WMTPixelFormatRGB10A2Uint],
      WMTPixelFormatRGB10A2Uint),
    ([WMTPixelFormatRG11B10Float, WMTPixelFormatRGB9E5Float, WMTPixelFormatBGR10A2Unorm,
      WMTPixelFormatBGR10_XR, WMTPixelFormatBGR10_XR_sRGB],
      WMTPixelFormatInvalid),
    ([WMTPixelFormatRG32Uint, WMTPixelFormatRG32Sint, WMTPixelFormatRG32Float],
      WMTPixelFormatRG32Uint),
    ([WMTPixelFormatRGBA16Unorm, WMTPixelFormatRGBA16Snorm, WMTPixelFormatRGBA16Uint,
      WMTPixelFormatRGBA16Sint, WMTPixelFormatRGBA16Float],
      WMTPixelFormatRGBA16Uint),
    ([WMTPixelFormatBGRA10_XR, WMTPixelFormatBGRA10_XR_sRGB],
      WMTPixelFormatInvalid),
    ([WMTPixelFormatRGBA32Uint, WMTPixelFormatRGBA32Sint, WMTPixelFormatRGBA32Float],
      WMTPixelFormatRGBA32Uint)]"

definition IsUnorm8RenderTargetFormat_cases :: "(u32 list \<times> bool) list" where
  "IsUnorm8RenderTargetFormat_cases = [
    ([WMTPixelFormatA8Unorm, WMTPixelFormatR8Unorm, WMTPixelFormatRG8Unorm,
      WMTPixelFormatRGBA8Unorm, WMTPixelFormatBGRA8Unorm, WMTPixelFormatBGRX8Unorm],
      True)]"

definition IsIntegerFormat_cases :: "(u32 list \<times> bool) list" where
  "IsIntegerFormat_cases = [
    ([WMTPixelFormatR8Uint, WMTPixelFormatR8Sint, WMTPixelFormatR16Uint, WMTPixelFormatR16Sint,
      WMTPixelFormatRG8Uint, WMTPixelFormatRG8Sint, WMTPixelFormatR32Uint, WMTPixelFormatR32Sint,
      WMTPixelFormatRG16Uint, WMTPixelFormatRG16Sint, WMTPixelFormatRGBA8Uint,
      WMTPixelFormatRGBA8Sint, WMTPixelFormatRGB10A2Uint, WMTPixelFormatRG32Uint,
      WMTPixelFormatRG32Sint, WMTPixelFormatRGBA16Uint, WMTPixelFormatRGBA16Sint,
      WMTPixelFormatRGBA32Uint, WMTPixelFormatRGBA32Sint, WMTPixelFormatStencil8],
      True)]"

definition query_cases_1 :: "(u32 list \<times> format_desc option) list" where
  "query_cases_1 = [
    ([DXGI_FORMAT_R32G32B32A32_TYPELESS],
      Some (reset_desc\<lparr> PixelFormat := WMTPixelFormatRGBA32Uint, BytesPerTexel := 16, Flag := MTL_DXGI_FORMAT_TYPELESS \<rparr>)),
    ([DXGI_FORMAT_R32G32B32A32_UINT],
      Some (reset_desc\<lparr> PixelFormat := WMTPixelFormatRGBA32Uint, AttributeFormat := WMTAttributeFormatUInt4, BytesPerTexel := 16 \<rparr>)),
    ([DXGI_FORMAT_R32G32B32A32_SINT],
      Some (reset_desc\<lparr> PixelFormat := WMTPixelFormatRGBA32Sint, AttributeFormat := WMTAttributeFormatInt4, BytesPerTexel := 16 \<rparr>)),
    ([DXGI_FORMAT_R32G32B32A32_FLOAT],
      Some (reset_desc\<lparr> PixelFormat := WMTPixelFormatRGBA32Float, AttributeFormat := WMTAttributeFormatFloat4, BytesPerTexel := 16 \<rparr>)),
    ([DXGI_FORMAT_R32G32B32_TYPELESS],
      Some (reset_desc\<lparr> PixelFormat := WMTPixelFormatR32Uint, BytesPerTexel := 12, Flag := MTL_DXGI_FORMAT_TYPELESS \<rparr>)),
    ([DXGI_FORMAT_R32G32B32_UINT],
      Some (reset_desc\<lparr> PixelFormat := WMTPixelFormatR32Uint, AttributeFormat := WMTAttributeFormatUInt3, BytesPerTexel := 12 \<rparr>)),
    ([DXGI_FORMAT_R32G32B32_SINT],
      Some (reset_desc\<lparr> PixelFormat := WMTPixelFormatR32Sint, AttributeFormat := WMTAttributeFormatInt3, BytesPerTexel := 12 \<rparr>)),
    ([DXGI_FORMAT_R32G32B32_FLOAT],
      Some (reset_desc\<lparr> PixelFormat := WMTPixelFormatR32Float, AttributeFormat := WMTAttributeFormatFloat3, BytesPerTexel := 12 \<rparr>)),
    ([DXGI_FORMAT_R16G16B16A16_TYPELESS],
      Some (reset_desc\<lparr> PixelFormat := WMTPixelFormatRGBA16Float, BytesPerTexel := 8, Flag := MTL_DXGI_FORMAT_TYPELESS \<rparr>)),
    ([DXGI_FORMAT_R16G16B16A16_FLOAT],
      Some (reset_desc\<lparr> PixelFormat := WMTPixelFormatRGBA16Float, AttributeFormat := WMTAttributeFormatHalf4, BytesPerTexel := 8, Flag := MTL_DXGI_FORMAT_BACKBUFFER \<rparr>)),
    ([DXGI_FORMAT_R16G16B16A16_UNORM],
      Some (reset_desc\<lparr> PixelFormat := WMTPixelFormatRGBA16Unorm, AttributeFormat := WMTAttributeFormatUShort4Normalized, BytesPerTexel := 8 \<rparr>)),
    ([DXGI_FORMAT_R16G16B16A16_UINT],
      Some (reset_desc\<lparr> PixelFormat := WMTPixelFormatRGBA16Uint, AttributeFormat := WMTAttributeFormatUShort4, BytesPerTexel := 8 \<rparr>)),
    ([DXGI_FORMAT_R16G16B16A16_SNORM],
      Some (reset_desc\<lparr> PixelFormat := WMTPixelFormatRGBA16Snorm, AttributeFormat := WMTAttributeFormatShort4Normalized, BytesPerTexel := 8 \<rparr>)),
    ([DXGI_FORMAT_R16G16B16A16_SINT],
      Some (reset_desc\<lparr> PixelFormat := WMTPixelFormatRGBA16Sint, AttributeFormat := WMTAttributeFormatShort4, BytesPerTexel := 8 \<rparr>)),
    ([DXGI_FORMAT_R32G32_TYPELESS],
      Some (reset_desc\<lparr> PixelFormat := WMTPixelFormatRG32Uint, BytesPerTexel := 8, Flag := MTL_DXGI_FORMAT_TYPELESS \<rparr>)),
    ([DXGI_FORMAT_R32G32_FLOAT],
      Some (reset_desc\<lparr> PixelFormat := WMTPixelFormatRG32Float, AttributeFormat := WMTAttributeFormatFloat2, BytesPerTexel := 8 \<rparr>)),
    ([DXGI_FORMAT_R32G32_UINT],
      Some (reset_desc\<lparr> PixelFormat := WMTPixelFormatRG32Uint, AttributeFormat := WMTAttributeFormatUInt2, BytesPerTexel := 8 \<rparr>)),
    ([DXGI_FORMAT_R32G32_SINT],
      Some (reset_desc\<lparr> PixelFormat := WMTPixelFormatRG32Sint, AttributeFormat := WMTAttributeFormatInt2, BytesPerTexel := 8 \<rparr>)),
    ([DXGI_FORMAT_R32G8X24_TYPELESS],
      Some (reset_desc\<lparr> PixelFormat := WMTPixelFormatDepth32Float_Stencil8, Flag := MTL_DXGI_FORMAT_TYPELESS OR MTL_DXGI_FORMAT_DEPTH_PLANER OR MTL_DXGI_FORMAT_STENCIL_PLANER OR MTL_DXGI_FORMAT_EMULATED_LINEAR_DEPTH_STENCIL, BytesPerTexel := 8 \<rparr>)),
    ([DXGI_FORMAT_D32_FLOAT_S8X24_UINT],
      Some (reset_desc\<lparr> PixelFormat := WMTPixelFormatDepth32Float_Stencil8, Flag := MTL_DXGI_FORMAT_DEPTH_PLANER OR MTL_DXGI_FORMAT_STENCIL_PLANER \<rparr>)),
    ([DXGI_FORMAT_R32_FLOAT_X8X24_TYPELESS],
      Some (reset_desc\<lparr> PixelFormat := WMTPixelFormatR32X8X32, Flag := MTL_DXGI_FORMAT_TYPELESS OR MTL_DXGI_FORMAT_DEPTH_PLANER \<rparr>)),
    ([DXGI_FORMAT_X32_TYPELESS_G8X24_UINT],
      Some (reset_desc\<lparr> PixelFormat := WMTPixelFormatX32G8X32, Flag := MTL_DXGI_FORMAT_TYPELESS OR MTL_DXGI_FORMAT_STENCIL_PLANER \<rparr>)),
    ([DXGI_FORMAT_R10G10B10A2_TYPELESS],
      Some (reset_desc\<lparr> PixelFormat := WMTPixelFormatRGB10A2Uint, BytesPerTexel := 4, Flag := MTL_DXGI_FORMAT_TYPELESS \<rparr>)),
    ([DXGI_FORMAT_R10G10B10A2_UNORM],
      Some (reset_desc\<lparr> PixelFormat := WMTPixelFormatRGB10A2Unorm, AttributeFormat := WMTAttributeFormatUInt1010102Normalized, BytesPerTexel := 4, Flag := MTL_DXGI_FORMAT_BACKBUFFER \<rparr>))]"

definition query_cases_2 :: "(u32 list \<times> format_desc option) list" where
  "query_cases_2 = [
    ([DXGI_FORMAT_R10G10B10A2_UINT],
      Some (reset_desc\<lparr> PixelFormat := WMTPixelFormatRGB10A2Uint, BytesPerTexel := 4 \<rparr>)),
    ([DXGI_FORMAT_R11G11B10_FLOAT],
      Some (reset_desc\<lparr> PixelFormat := WMTPixelFormatRG11B10Float, AttributeFormat := WMTAttributeFormatFloatRG11B10, BytesPerTexel := 4 \<rparr>)),
    ([DXGI_FORMAT_R8G8B8A8_TYPELESS],
      Some (reset_desc\<lparr> PixelFormat := WMTPixelFormatRGBA8Unorm, BytesPerTexel := 4, Flag := MTL_DXGI_FORMAT_TYPELESS \<rparr>)),
    ([DXGI_FORMAT_R8G8B8A8_UNORM],
      Some (reset_desc\<lparr> PixelFormat := WMTPixelFormatRGBA8Unorm, AttributeFormat := WMTAttributeFormatUChar4Normalized, BytesPerTexel := 4, Flag := MTL_DXGI_FORMAT_BACKBUFFER \<rparr>)),
    ([DXGI_FORMAT_R8G8B8A8_UNORM_SRGB],
      Some (reset_desc\<lparr> PixelFormat := WMTPixelFormatRGBA8Unorm_sRGB, BytesPerTexel := 4, Flag := MTL_DXGI_FORMAT_BACKBUFFER \<rparr>)),
    ([DXGI_FORMAT_R8G8B8A8_UINT],
      Some (reset_desc\<lparr> PixelFormat := WMTPixelFormatRGBA8Uint, AttributeFormat := WMTAttributeFormatUChar4, BytesPerTexel := 4 \<rparr>)),
    ([DXGI_FORMAT_R8G8B8A8_SNORM],
      Some (reset_desc\<lparr> PixelFormat := WMTPixelFormatRGBA8Snorm, AttributeFormat := WMTAttributeFormatChar4Normalized, BytesPerTexel := 4 \<rparr>)),
    ([DXGI_FORMAT_R8G8B8A8_SINT],
      Some (reset_desc\<lparr> PixelFormat := WMTPixelFormatRGBA8Sint, AttributeFormat := WMTAttributeFormatChar4, BytesPerTexel := 4 \<rparr>)),
    ([DXGI_FORMAT_R16G16_TYPELESS],
      Some (reset_desc\<lparr> PixelFormat := WMTPixelFormatRG16Uint, BytesPerTexel := 4, Flag := MTL_DXGI_FORMAT_TYPELESS \<rparr>)),
    ([DXGI_FORMAT_R16G16_FLOAT],
      Some (reset_desc\<lparr> PixelFormat := WMTPixelFormatRG16Float, AttributeFormat := WMTAttributeFormatHalf2, BytesPerTexel := 4 \<rparr>)),
    ([DXGI_FORMAT_R16G16_UNORM],
      Some (reset_desc\<lparr> PixelFormat := WMTPixelFormatRG16Unorm, AttributeFormat := WMTAttributeFormatUShort2Normalized, BytesPerTexel := 4 \<rparr>)),
    ([DXGI_FORMAT_R16G16_UINT],
      Some (reset_desc\<lparr> PixelFormat := WMTPixelFormatRG16Uint, AttributeFormat := WMTAttributeFormatUShort2, BytesPerTexel := 4 \<rparr>)),
    ([DXGI_FORMAT_R16G16_SNORM],
      Some (reset_desc\<lparr> PixelFormat := WMTPixelFormatRG16Snorm, AttributeFormat := WMTAttributeFormatShort2Normalized, BytesPerTexel := 4 \<rparr>)),
    ([DXGI_FORMAT_R16G16_SINT],
      Some (reset_desc\<lparr> PixelFormat := WMTPixelFormatRG16Sint, AttributeFormat := WMTAttributeFormatShort2, BytesPerTexel := 4 \<rparr>)),
    ([DXGI_FORMAT_R32_TYPELESS],
      Some (reset_desc\<lparr> PixelFormat := WMTPixelFormatR32Uint, BytesPerTexel := 4, Flag := MTL_DXGI_FORMAT_TYPELESS \<rparr>)),
    ([DXGI_FORMAT_D32_FLOAT],
      Some (reset_desc\<lparr> PixelFormat := WMTPixelFormatDepth32Float, Flag := MTL_DXGI_FORMAT_DEPTH_PLANER, BytesPerTexel := 4 \<rparr>)),
    ([DXGI_FORMAT_R32_FLOAT],
      Some (reset_desc\<lparr> PixelFormat := WMTPixelFormatR32Float, AttributeFormat := WMTAttributeFormatFloat, BytesPerTexel := 4 \<rparr>)),
    ([DXGI_FORMAT_R32_UINT],
      Some (reset_desc\<lparr> PixelFormat := WMTPixelFormatR32Uint, AttributeFormat := WMTAttributeFormatUInt, BytesPerTexel := 4 \<rparr>)),
    ([DXGI_FORMAT_R32_SINT],
      Some (reset_desc\<lparr> PixelFormat := WMTPixelFormatR32Sint, AttributeFormat := WMTAttributeFormatInt, BytesPerTexel := 4 \<rparr>)),
    ([DXGI_FORMAT_R24G8_TYPELESS],
      Some (reset_desc\<lparr> Flag := MTL_DXGI_FORMAT_TYPELESS OR MTL_DXGI_FORMAT_DEPTH_PLANER OR MTL_DXGI_FORMAT_STENCIL_PLANER OR MTL_DXGI_FORMAT_EMULATED_LINEAR_DEPTH_STENCIL OR MTL_DXGI_FORMAT_EMULATED_D24, PixelFormat := WMTPixelFormatDepth32Float_Stencil8, BytesPerTexel := 4 \<rparr>)),
    ([DXGI_FORMAT_D24_UNORM_S8_UINT],
      Some (reset_desc\<lparr> Flag := MTL_DXGI_FORMAT_DEPTH_PLANER OR MTL_DXGI_FORMAT_STENCIL_PLANER OR MTL_DXGI_FORMAT_EMULATED_D24, PixelFormat := WMTPixelFormatDepth32Float_Stencil8 \<rparr>)),
    ([DXGI_FORMAT_R24_UNORM_X8_TYPELESS],
      Some (reset_desc\<lparr> Flag := MTL_DXGI_FORMAT_DEPTH_PLANER OR MTL_DXGI_FORMAT_EMULATED_D24, PixelFormat := WMTPixelFormatR32X8X32 \<rparr>)),
    ([DXGI_FORMAT_X24_TYPELESS_G8_UINT],
      Some (reset_desc\<lparr> Flag := MTL_DXGI_FORMAT_STENCIL_PLANER OR MTL_DXGI_FORMAT_EMULATED_D24, PixelFormat := WMTPixelFormatX32G8X32 \<rparr>)),
    ([DXGI_FORMAT_R8G8_TYPELESS],
      Some (reset_desc\<lparr> PixelFormat := WMTPixelFormatRG8Uint, BytesPerTexel := 2, Flag := MTL_DXGI_FORMAT_TYPELESS \<rparr>))]"

definition query_cases_3 :: "(u32 list \<times> format_desc option) list" where
  "query_cases_3 = [
    ([DXGI_FORMAT_R8G8_UNORM],
      Some (reset_desc\<lparr> PixelFormat := WMTPixelFormatRG8Unorm, AttributeFormat := WMTAttributeFormatUChar2Normalized, BytesPerTexel := 2 \<rparr>)),
    ([DXGI_FORMAT_R8G8_UINT],
      Some (reset_desc\<lparr> PixelFormat := WMTPixelFormatRG8Uint, AttributeFormat := WMTAttributeFormatUChar2, BytesPerTexel := 2 \<rparr>)),
    ([DXGI_FORMAT_R8G8_SNORM],
      Some (reset_desc\<lparr> PixelFormat := WMTPixelFormatRG8Snorm, AttributeFormat := WMTAttributeFormatChar2Normalized, BytesPerTexel := 2 \<rparr>)),
    ([DXGI_FORMAT_R8G8_SINT],
      Some (reset_desc\<lparr> PixelFormat := WMTPixelFormatRG8Sint, AttributeFormat := WMTAttributeFormatChar2, BytesPerTexel := 2 \<rparr>)),
    ([DXGI_FORMAT_R16_TYPELESS],
      Some (reset_desc\<lparr> PixelFormat := WMTPixelFormatR16Uint, BytesPerTexel := 2, Flag := MTL_DXGI_FORMAT_TYPELESS \<rparr>)),
    ([DXGI_FORMAT_R16_FLOAT],
      Some (reset_desc\<lparr> PixelFormat := WMTPixelFormatR16Float, AttributeFormat := WMTAttributeFormatHalf, BytesPerTexel := 2 \<rparr>)),
    ([DXGI_FORMAT_D16_UNORM],
      Some (reset_desc\<lparr> PixelFormat := WMTPixelFormatDepth16Unorm, Flag := MTL_DXGI_FORMAT_DEPTH_PLANER, BytesPerTexel := 2 \<rparr>)),
    ([DXGI_FORMAT_R16_UNORM],
      Some (reset_desc\<lparr> PixelFormat := WMTPixelFormatR16Unorm, AttributeFormat := WMTAttributeFormatUShortNormalized, BytesPerTexel := 2 \<rparr>)),
    ([DXGI_FORMAT_R16_UINT],
      Some (reset_desc\<lparr> PixelFormat := WMTPixelFormatR16Uint, AttributeFormat := WMTAttributeFormatUShort, BytesPerTexel := 2 \<rparr>)),
    ([DXGI_FORMAT_R16_SNORM],
      Some (reset_desc\<lparr> PixelFormat := WMTPixelFormatR16Snorm, AttributeFormat := WMTAttributeFormatShortNormalized, BytesPerTexel := 2 \<rparr>)),
    ([DXGI_FORMAT_R16_SINT],
      Some (reset_desc\<lparr> PixelFormat := WMTPixelFormatR16Sint, AttributeFormat := WMTAttributeFormatShort, BytesPerTexel := 2 \<rparr>)),
    ([DXGI_FORMAT_R8_TYPELESS],
      Some (reset_desc\<lparr> PixelFormat := WMTPixelFormatR8Uint, BytesPerTexel := 1, Flag := MTL_DXGI_FORMAT_TYPELESS \<rparr>)),
    ([DXGI_FORMAT_R8_UNORM],
      Some (reset_desc\<lparr> PixelFormat := WMTPixelFormatR8Unorm, AttributeFormat := WMTAttributeFormatUCharNormalized, BytesPerTexel := 1 \<rparr>)),
    ([DXGI_FORMAT_R8_UINT],
      Some (reset_desc\<lparr> PixelFormat := WMTPixelFormatR8Uint, AttributeFormat := WMTAttributeFormatUChar, BytesPerTexel := 1 \<rparr>)),
    ([DXGI_FORMAT_R8_SNORM],
      Some (reset_desc\<lparr> PixelFormat := WMTPixelFormatR8Snorm, AttributeFormat := WMTAttributeFormatCharNormalized, BytesPerTexel := 1 \<rparr>)),
    ([DXGI_FORMAT_R8_SINT],
      Some (reset_desc\<lparr> PixelFormat := WMTPixelFormatR8Sint, AttributeFormat := WMTAttributeFormatChar, BytesPerTexel := 1 \<rparr>)),
    ([DXGI_FORMAT_A8_UNORM],
      Some (reset_desc\<lparr> PixelFormat := WMTPixelFormatA8Unorm, BytesPerTexel := 1 \<rparr>)),
    ([DXGI_FORMAT_R1_UNORM],
      None),
    ([DXGI_FORMAT_R9G9B9E5_SHAREDEXP],
      Some (reset_desc\<lparr> PixelFormat := WMTPixelFormatRGB9E5Float, AttributeFormat := WMTAttributeFormatFloatRGB9E5, BytesPerTexel := 4 \<rparr>)),
    ([DXGI_FORMAT_R8G8_B8G8_UNORM],
      Some (reset_desc\<lparr> PixelFormat := WMTPixelFormatBGRG422, BytesPerTexel := 4 \<rparr>)),
    ([DXGI_FORMAT_G8R8_G8B8_UNORM],
      Some (reset_desc\<lparr> PixelFormat := WMTPixelFormatGBGR422, BytesPerTexel := 4 \<rparr>)),
    ([DXGI_FORMAT_BC1_TYPELESS],
      Some (reset_desc\<lparr> PixelFormat := WMTPixelFormatBC1_RGBA, Flag := MTL_DXGI_FORMAT_TYPELESS OR MTL_DXGI_FORMAT_BC, BytesPerTexel := 8 \<rparr>)),
    ([DXGI_FORMAT_BC1_UNORM],
      Some (reset_desc\<lparr> PixelFormat := WMTPixelFormatBC1_RGBA, Flag := MTL_DXGI_FORMAT_BC, BytesPerTexel := 8 \<rparr>)),
    ([DXGI_FORMAT_BC1_UNORM_SRGB],
      Some (reset_desc\<lparr> PixelFormat := WMTPixelFormatBC1_RGBA_sRGB, Flag := MTL_DXGI_FORMAT_BC, BytesPerTexel := 8 \<rparr>))]"

definition query_cases_4 :: "(u32 list \<times> format_desc option) list" where
  "query_cases_4 = [
    ([DXGI_FORMAT_BC2_TYPELESS],
      Some (reset_desc\<lparr> PixelFormat := WMTPixelFormatBC2_RGBA, Flag := MTL_DXGI_FORMAT_TYPELESS OR MTL_DXGI_FORMAT_BC, BytesPerTexel := 16 \<rparr>)),
    ([DXGI_FORMAT_BC2_UNORM],
      Some (reset_desc\<lparr> PixelFormat := WMTPixelFormatBC2_RGBA, Flag := MTL_DXGI_FORMAT_BC, BytesPerTexel := 16 \<rparr>)),
    ([DXGI_FORMAT_BC2_UNORM_SRGB],
      Some (reset_desc\<lparr> PixelFormat := WMTPixelFormatBC2_RGBA_sRGB, Flag := MTL_DXGI_FORMAT_BC, BytesPerTexel := 16 \<rparr>)),
    ([DXGI_FORMAT_BC3_TYPELESS],
      Some (reset_desc\<lparr> PixelFormat := WMTPixelFormatBC3_RGBA, Flag := MTL_DXGI_FORMAT_TYPELESS OR MTL_DXGI_FORMAT_BC, BytesPerTexel := 16 \<rparr>)),
    ([DXGI_FORMAT_BC3_UNORM],
      Some (reset_desc\<lparr> PixelFormat := WMTPixelFormatBC3_RGBA, Flag := MTL_DXGI_FORMAT_BC, BytesPerTexel := 16 \<rparr>)),
    ([DXGI_FORMAT_BC3_UNORM_SRGB],
      Some (reset_desc\<lparr> PixelFormat := WMTPixelFormatBC3_RGBA_sRGB, Flag := MTL_DXGI_FORMAT_BC, BytesPerTexel := 16 \<rparr>)),
    ([DXGI_FORMAT_BC4_TYPELESS],
      Some (reset_desc\<lparr> PixelFormat := WMTPixelFormatBC4_RUnorm, Flag := MTL_DXGI_FORMAT_TYPELESS OR MTL_DXGI_FORMAT_BC, BytesPerTexel := 8 \<rparr>)),
    ([DXGI_FORMAT_BC4_UNORM],
      Some (reset_desc\<lparr> PixelFormat := WMTPixelFormatBC4_RUnorm, Flag := MTL_DXGI_FORMAT_BC, BytesPerTexel := 8 \<rparr>)),
    ([DXGI_FORMAT_BC4_SNORM],
      Some (reset_desc\<lparr> PixelFormat := WMTPixelFormatBC4_RSnorm, Flag := MTL_DXGI_FORMAT_BC, BytesPerTexel := 8 \<rparr>)),
    ([DXGI_FORMAT_BC5_TYPELESS],
      Some (reset_desc\<lparr> PixelFormat := WMTPixelFormatBC5_RGUnorm, Flag := MTL_DXGI_FORMAT_TYPELESS OR MTL_DXGI_FORMAT_BC, BytesPerTexel := 16 \<rparr>)),
    ([DXGI_FORMAT_BC5_UNORM],
      Some (reset_desc\<lparr> PixelFormat := WMTPixelFormatBC5_RGUnorm, Flag := MTL_DXGI_FORMAT_BC, BytesPerTexel := 16 \<rparr>)),
    ([DXGI_FORMAT_BC5_SNORM],
      Some (reset_desc\<lparr> PixelFormat := WMTPixelFormatBC5_RGSnorm, Flag := MTL_DXGI_FORMAT_BC, BytesPerTexel := 16 \<rparr>)),
    ([DXGI_FORMAT_B5G6R5_UNORM],
      Some (reset_desc\<lparr> PixelFormat := WMTPixelFormatB5G6R5Unorm, BytesPerTexel := 2 \<rparr>)),
    ([DXGI_FORMAT_B5G5R5A1_UNORM],
      Some (reset_desc\<lparr> PixelFormat := WMTPixelFormatBGR5A1Unorm, BytesPerTexel := 2 \<rparr>)),
    ([DXGI_FORMAT_B8G8R8A8_UNORM],
      Some (reset_desc\<lparr> PixelFormat := WMTPixelFormatBGRA8Unorm, AttributeFormat := WMTAttributeFormatUChar4Normalized_BGRA, BytesPerTexel := 4, Flag := MTL_DXGI_FORMAT_BACKBUFFER \<rparr>)),
    ([DXGI_FORMAT_B8G8R8X8_UNORM],
      Some (reset_desc\<lparr> PixelFormat := WMTPixelFormatBGRX8Unorm, BytesPerTexel := 4 \<rparr>)),
    ([DXGI_FORMAT_R10G10B10_XR_BIAS_A2_UNORM],
      None),
    ([DXGI_FORMAT_B8G8R8A8_TYPELESS],
      Some (reset_desc\<lparr> PixelFormat := WMTPixelFormatBGRA8Unorm, BytesPerTexel := 4, Flag := MTL_DXGI_FORMAT_TYPELESS \<rparr>)),
    ([DXGI_FORMAT_B8G8R8A8_UNORM_SRGB],
      Some (reset_desc\<lparr> PixelFormat := WMTPixelFormatBGRA8Unorm_sRGB, BytesPerTexel := 4, Flag := MTL_DXGI_FORMAT_BACKBUFFER \<rparr>)),
    ([DXGI_FORMAT_B8G8R8X8_TYPELESS],
      Some (reset_desc\<lparr> PixelFormat := WMTPixelFormatBGRX8Unorm, BytesPerTexel := 4, Flag := MTL_DXGI_FORMAT_TYPELESS \<rparr>)),
    ([DXGI_FORMAT_B8G8R8X8_UNORM_SRGB],
      Some (reset_desc\<lparr> PixelFormat := WMTPixelFormatBGRX8Unorm_sRGB, BytesPerTexel := 4 \<rparr>)),
    ([DXGI_FORMAT_BC6H_TYPELESS],
      Some (reset_desc\<lparr> PixelFormat := WMTPixelFormatBC6H_RGBUfloat, Flag := MTL_DXGI_FORMAT_TYPELESS OR MTL_DXGI_FORMAT_BC, BytesPerTexel := 16 \<rparr>)),
    ([DXGI_FORMAT_BC6H_UF16],
      Some (reset_desc\<lparr> PixelFormat := WMTPixelFormatBC6H_RGBUfloat, Flag := MTL_DXGI_FORMAT_BC, BytesPerTexel := 16 \<rparr>)),
    ([DXGI_FORMAT_BC6H_SF16],
      Some (reset_desc\<lparr> PixelFormat := WMTPixelFormatBC6H_RGBFloat, Flag := MTL_DXGI_FORMAT_BC, BytesPerTexel := 16 \<rparr>)),
    ([DXGI_FORMAT_BC7_TYPELESS],
      Some (reset_desc\<lparr> PixelFormat := WMTPixelFormatBC7_RGBAUnorm, Flag := MTL_DXGI_FORMAT_TYPELESS OR MTL_DXGI_FORMAT_BC, BytesPerTexel := 16 \<rparr>))]"

definition query_cases_5 :: "(u32 list \<times> format_desc option) list" where
  "query_cases_5 = [
    ([DXGI_FORMAT_BC7_UNORM],
      Some (reset_desc\<lparr> PixelFormat := WMTPixelFormatBC7_RGBAUnorm, Flag := MTL_DXGI_FORMAT_BC, BytesPerTexel := 16 \<rparr>)),
    ([DXGI_FORMAT_BC7_UNORM_SRGB],
      Some (reset_desc\<lparr> PixelFormat := WMTPixelFormatBC7_RGBAUnorm_sRGB, Flag := MTL_DXGI_FORMAT_BC, BytesPerTexel := 16 \<rparr>)),
    ([DXGI_FORMAT_B4G4R4A4_UNORM],
      Some (reset_desc\<lparr> PixelFormat := WMTPixelFormatBGRA4Unorm, BytesPerTexel := 2 \<rparr>)),
    ([DXGI_FORMAT_NV12],
      Some (reset_desc\<lparr> PixelFormat := WMTPixelFormatR8Unorm, BytesPerTexel := 1, Flag := MTL_DXGI_FORMAT_TYPELESS \<rparr>)),
    ([DXGI_FORMAT_P010, DXGI_FORMAT_P016],
      Some (reset_desc\<lparr> PixelFormat := WMTPixelFormatR16Unorm, BytesPerTexel := 2, Flag := MTL_DXGI_FORMAT_TYPELESS \<rparr>)),
    ([DXGI_FORMAT_AYUV, DXGI_FORMAT_Y410, DXGI_FORMAT_Y416, DXGI_FORMAT_420_OPAQUE,
      DXGI_FORMAT_YUY2, DXGI_FORMAT_Y210, DXGI_FORMAT_Y216, DXGI_FORMAT_NV11, DXGI_FORMAT_AI44,
      DXGI_FORMAT_IA44, DXGI_FORMAT_P8, DXGI_FORMAT_A8P8, DXGI_FORMAT_P208, DXGI_FORMAT_V208,
      DXGI_FORMAT_V408, DXGI_FORMAT_FORCE_UINT, DXGI_FORMAT_UNKNOWN],
      None)]"

subsection \<open>The functions\<close>

definition IsDepthStencilDXGIFormat :: "u32 \<Rightarrow> bool" where
  "IsDepthStencilDXGIFormat format = switch IsDepthStencilDXGIFormat_cases False format"

definition Forget_sRGB :: "u32 \<Rightarrow> u32" where
  "Forget_sRGB format = switch Forget_sRGB_cases format format"

definition Recall_sRGB :: "u32 \<Rightarrow> u32" where
  "Recall_sRGB format = switch Recall_sRGB_cases format format"

text \<open>\<open>Is_sRGBVariant\<close> of the header.\<close>

definition Is_sRGBVariant :: "u32 \<Rightarrow> bool" where
  "Is_sRGBVariant format \<longleftrightarrow> Forget_sRGB format \<noteq> format"

definition IsBlockCompressionFormat :: "u32 \<Rightarrow> bool" where
  "IsBlockCompressionFormat format = switch IsBlockCompressionFormat_cases False format"

definition DepthStencilPlanarFlags :: "u32 \<Rightarrow> u32" where
  "DepthStencilPlanarFlags format = switch DepthStencilPlanarFlags_cases 0 format"

definition MTLGetTexelSize :: "u32 \<Rightarrow> u32" where
  "MTLGetTexelSize format = switch MTLGetTexelSize_cases 0 (ORIGINAL_FORMAT format)"

definition MTLGetUnsignedIntegerFormat :: "u32 \<Rightarrow> u32" where
  "MTLGetUnsignedIntegerFormat format = switch MTLGetUnsignedIntegerFormat_cases WMTPixelFormatInvalid format"

definition IsUnorm8RenderTargetFormat :: "u32 \<Rightarrow> bool" where
  "IsUnorm8RenderTargetFormat format = switch IsUnorm8RenderTargetFormat_cases False format"

definition IsIntegerFormat :: "u32 \<Rightarrow> bool" where
  "IsIntegerFormat format = switch IsIntegerFormat_cases False format"

datatype hresult = S_OK | S_FALSE | E_FAIL | E_INVALIDARG

definition MTLQueryDXGIFormat :: "u32 \<Rightarrow> hresult \<times> format_desc" where
  "MTLQueryDXGIFormat format =
     (case switch (query_cases_1 @ query_cases_2 @ query_cases_3 @ query_cases_4 @ query_cases_5)
             None format of
        Some description \<Rightarrow> (S_OK, description)
      | None \<Rightarrow> (E_FAIL, reset_desc))"

text \<open>Reading a table entry by entry.\<close>

lemmas cap_tables = apple7_caps_def apple7_bc_caps_def apple7_other_caps_def apple8_caps_def
  apple9_caps_def mac2_caps_def mac2_other_caps_def

lemmas query_tables = query_cases_1_def query_cases_2_def query_cases_3_def query_cases_4_def
  query_cases_5_def

lemma query_desc_all:
  assumes "\<forall>cs \<in> {query_cases_1, query_cases_2, query_cases_3, query_cases_4, query_cases_5}.
      list_all (\<lambda>(labels, v). case v of None \<Rightarrow> True | Some d \<Rightarrow> list_all (\<lambda>c. P c d) labels) cs"
    and "MTLQueryDXGIFormat c = (S_OK, d)"
  shows "P c d"
proof -
  let ?cs = "query_cases_1 @ query_cases_2 @ query_cases_3 @ query_cases_4 @ query_cases_5"
  have "switch ?cs None c = Some d"
    using assms(2) by (auto simp: MTLQueryDXGIFormat_def split: option.splits)
  then obtain labels where "(labels, Some d) \<in> set ?cs" "c \<in> set labels"
    using switch_cases [of ?cs None c] by auto
  then show ?thesis using assms(1) by (auto simp: list_all_iff)
qed

end
