(* ===== verification/Formats.thy ===== *)
theory Formats
  imports FormatTables
begin

text \<open>
  Format traits (planes of depth-stencil and video formats) of src/src/dxmt/dxmt_format.cpp, and the
  properties of the whole format component: the sRGB pairing, agreement of the tables with one
  another, and the capabilities per device family.
\<close>

subsection \<open>Traits\<close>

datatype format_class = Native | Emulated | Mask | Unsupported

record plane_traits =
  backingFormat :: u32
  viewFormat :: u32
  footprintFormat :: u32
  elementSize :: u32
  subsampleXLog2 :: u32
  subsampleYLog2 :: u32

record format_traits =
  ft_format :: u32
  classification :: format_class
  planeCount :: u32
  ft_flags :: u32
  planes :: "plane_traits list"

abbreviation DXGI_FORMAT_TRAIT_NONE :: u32 where "DXGI_FORMAT_TRAIT_NONE \<equiv> 0"
abbreviation DXGI_FORMAT_TRAIT_MULTIPLANE :: u32 where "DXGI_FORMAT_TRAIT_MULTIPLANE \<equiv> 1"
abbreviation DXGI_FORMAT_TRAIT_VIDEO :: u32 where "DXGI_FORMAT_TRAIT_VIDEO \<equiv> 2"
abbreviation DXGI_FORMAT_TRAIT_DEPTH_STENCIL :: u32 where "DXGI_FORMAT_TRAIT_DEPTH_STENCIL \<equiv> 4"

definition no_plane :: plane_traits where
  "no_plane = \<lparr> backingFormat = 0, viewFormat = 0, footprintFormat = 0, elementSize = 0,
     subsampleXLog2 = 0, subsampleYLog2 = 0 \<rparr>"

definition plane_of :: "u32 \<Rightarrow> u32 \<Rightarrow> plane_traits" where
  "plane_of format element_size = no_plane\<lparr> backingFormat := format, viewFormat := format,
     footprintFormat := format, elementSize := element_size \<rparr>"

definition kUnsupportedFormatTraits :: format_traits where
  "kUnsupportedFormatTraits = \<lparr> ft_format = 0, classification = Unsupported, planeCount = 0,
     ft_flags = DXGI_FORMAT_TRAIT_NONE, planes = [no_plane, no_plane, no_plane] \<rparr>"

definition SinglePlaneNative :: "u32 \<Rightarrow> format_traits" where
  "SinglePlaneNative format = \<lparr> ft_format = format, classification = Native, planeCount = 1,
     ft_flags = DXGI_FORMAT_TRAIT_NONE, planes = [plane_of format 0, no_plane, no_plane] \<rparr>"

definition DepthStencilTraits :: "u32 \<Rightarrow> u32 \<Rightarrow> u32 \<Rightarrow> u32 \<Rightarrow> format_traits" where
  "DepthStencilTraits format depth_format stencil_format depth_element_size =
     \<lparr> ft_format = format, classification = Native,
       planeCount = (if stencil_format \<noteq> 0 then 2 else 1),
       ft_flags = DXGI_FORMAT_TRAIT_DEPTH_STENCIL,
       planes = [plane_of depth_format depth_element_size, plane_of stencil_format 1, no_plane] \<rparr>"

definition Video420Traits :: "u32 \<Rightarrow> u32 \<Rightarrow> u32 \<Rightarrow> u32 \<Rightarrow> u32 \<Rightarrow> format_traits" where
  "Video420Traits format y_format uv_format y_element_size uv_element_size =
     \<lparr> ft_format = format, classification = Emulated, planeCount = 2,
       ft_flags = DXGI_FORMAT_TRAIT_MULTIPLANE OR DXGI_FORMAT_TRAIT_VIDEO,
       planes = [plane_of y_format y_element_size,
                 (plane_of uv_format uv_element_size)\<lparr> subsampleXLog2 := 1, subsampleYLog2 := 1 \<rparr>,
                 no_plane] \<rparr>"

definition MaskFormatTraits :: "u32 \<Rightarrow> format_traits" where
  "MaskFormatTraits format = \<lparr> ft_format = format, classification = Mask, planeCount = 1,
     ft_flags = DXGI_FORMAT_TRAIT_NONE, planes = [plane_of format 0, no_plane, no_plane] \<rparr>"

definition GetDXGIFormatTraits :: "u32 \<Rightarrow> format_traits" where
  "GetDXGIFormatTraits format =
     switch
       [([DXGI_FORMAT_R32G8X24_TYPELESS, DXGI_FORMAT_D32_FLOAT_S8X24_UINT,
          DXGI_FORMAT_R32_FLOAT_X8X24_TYPELESS, DXGI_FORMAT_X32_TYPELESS_G8X24_UINT],
         DepthStencilTraits DXGI_FORMAT_D32_FLOAT_S8X24_UINT DXGI_FORMAT_R32_TYPELESS
           DXGI_FORMAT_R8_TYPELESS 4),
        ([DXGI_FORMAT_D24_UNORM_S8_UINT, DXGI_FORMAT_R24G8_TYPELESS,
          DXGI_FORMAT_R24_UNORM_X8_TYPELESS, DXGI_FORMAT_X24_TYPELESS_G8_UINT],
         DepthStencilTraits DXGI_FORMAT_D24_UNORM_S8_UINT DXGI_FORMAT_R32_TYPELESS
           DXGI_FORMAT_R8_TYPELESS 4),
        ([DXGI_FORMAT_D32_FLOAT],
         DepthStencilTraits DXGI_FORMAT_D32_FLOAT DXGI_FORMAT_R32_FLOAT DXGI_FORMAT_UNKNOWN 4),
        ([DXGI_FORMAT_D16_UNORM],
         DepthStencilTraits DXGI_FORMAT_D16_UNORM DXGI_FORMAT_R16_UNORM DXGI_FORMAT_UNKNOWN 2),
        ([DXGI_FORMAT_NV12],
         Video420Traits DXGI_FORMAT_NV12 DXGI_FORMAT_R8_TYPELESS DXGI_FORMAT_R8G8_TYPELESS 1 2),
        ([DXGI_FORMAT_P010],
         Video420Traits DXGI_FORMAT_P010 DXGI_FORMAT_R16_TYPELESS DXGI_FORMAT_R16G16_TYPELESS 2 4),
        ([DXGI_FORMAT_P016],
         Video420Traits DXGI_FORMAT_P016 DXGI_FORMAT_R16_TYPELESS DXGI_FORMAT_R16G16_TYPELESS 2 4),
        ([DXGI_FORMAT_R1_UNORM], MaskFormatTraits DXGI_FORMAT_R1_UNORM),
        ([DXGI_FORMAT_UNKNOWN, DXGI_FORMAT_FORCE_UINT], kUnsupportedFormatTraits)]
       (SinglePlaneNative format) format"

definition IsDXGIFormatSupportedByTraits :: "u32 \<Rightarrow> bool" where
  "IsDXGIFormatSupportedByTraits format \<longleftrightarrow>
     (let traits = GetDXGIFormatTraits format
      in classification traits = Native \<or> classification traits = Emulated)"

definition IsDXGIFormatPlaneCompatible :: "u32 \<Rightarrow> u32 \<Rightarrow> u32 \<Rightarrow> bool" where
  "IsDXGIFormatPlaneCompatible allocation_format view_or_copy_format plane =
     (let traits = GetDXGIFormatTraits allocation_format; p = planes traits ! unat plane in
      if planeCount traits = 0 \<or> planeCount traits \<le> plane then False
      else if view_or_copy_format = allocation_format \<or> view_or_copy_format = viewFormat p
              \<or> view_or_copy_format = footprintFormat p \<or> view_or_copy_format = backingFormat p then True
      else if allocation_format = DXGI_FORMAT_NV12 then
        (if plane = 0 then view_or_copy_format \<in> {DXGI_FORMAT_R8_UNORM, DXGI_FORMAT_R8_TYPELESS}
         else view_or_copy_format \<in> {DXGI_FORMAT_R8G8_UNORM, DXGI_FORMAT_R8G8_TYPELESS})
      else if allocation_format \<in> {DXGI_FORMAT_P010, DXGI_FORMAT_P016} then
        (if plane = 0 then view_or_copy_format \<in> {DXGI_FORMAT_R16_UNORM, DXGI_FORMAT_R16_TYPELESS}
         else view_or_copy_format \<in> {DXGI_FORMAT_R16G16_UNORM, DXGI_FORMAT_R16G16_TYPELESS})
      else if IsDepthStencilDXGIFormat allocation_format then IsDepthStencilDXGIFormat view_or_copy_format
      else False)"

subsection \<open>Lemmas\<close>

lemma Forget_cases:
  "Forget_sRGB f = f \<or> (Forget_sRGB (Forget_sRGB f) = Forget_sRGB f
     \<and> Recall_sRGB (Forget_sRGB f) = f \<and> Recall_sRGB f = f)"
proof -
  have "list_all (\<lambda>(labels, v). list_all (\<lambda>x. Forget_sRGB v = v \<and> Recall_sRGB v = x \<and> Recall_sRGB x = x) labels)
      Forget_sRGB_cases"
    by (simp add: Forget_sRGB_cases_def Recall_sRGB_cases_def Forget_sRGB_def Recall_sRGB_def)
  from switch_all [OF this, of f f] show ?thesis by (auto simp: Forget_sRGB_def)
qed

lemma Recall_cases:
  "Recall_sRGB f = f \<or> (Recall_sRGB (Recall_sRGB f) = Recall_sRGB f
     \<and> Forget_sRGB (Recall_sRGB f) = f \<and> Forget_sRGB f = f)"
proof -
  have "list_all (\<lambda>(labels, v). list_all (\<lambda>x. Recall_sRGB v = v \<and> Forget_sRGB v = x \<and> Forget_sRGB x = x) labels)
      Recall_sRGB_cases"
    by (simp add: Forget_sRGB_cases_def Recall_sRGB_cases_def Forget_sRGB_def Recall_sRGB_def)
  from switch_all [OF this, of f f] show ?thesis by (auto simp: Recall_sRGB_def)
qed

text \<open>A table keeps what its entries cannot lower.\<close>

definition caps_of :: "capability_map \<Rightarrow> u32 \<Rightarrow> u32" where
  "caps_of m f = (case m f of None \<Rightarrow> Cap_None | Some c \<Rightarrow> c)"

lemma caps_of_empty [simp]: "caps_of Map.empty f = Cap_None"
  by (simp add: caps_of_def)

lemma caps_of_append: "caps_of (APPEND_CAP e m) f = (if f = fst e then caps_of m f OR snd e else caps_of m f)"
  by (simp add: caps_of_def APPEND_CAP_def split: option.splits)

lemma caps_of_fold_other: "f \<notin> fst ` set es \<Longrightarrow> caps_of (fold APPEND_CAP es m) f = caps_of m f"
  by (induction es arbitrary: m) (auto simp: caps_of_append)

lemma caps_of_fold:
  "bit (caps_of (fold APPEND_CAP es m) f) n \<longleftrightarrow> bit (caps_of m f) n \<or> (\<exists>(g, c) \<in> set es. g = f \<and> bit c n)"
  by (induction es arbitrary: m) (auto simp: caps_of_append bit_simps)

lemma caps_of_fold_keep: "bit (caps_of m f) n \<Longrightarrow> bit (caps_of (fold APPEND_CAP es m) f) n"
  by (simp add: caps_of_fold)

subsection \<open>Properties\<close>

text \<open>\<open>Forget_sRGB\<close> and \<open>Recall_sRGB\<close> are a pairing: each undoes the other and is idempotent, so a
  view can move between the linear and the sRGB form of a format any number of times.\<close>

theorem sRGB_pairing:
  "Forget_sRGB (Recall_sRGB f) = Forget_sRGB f \<and> Recall_sRGB (Forget_sRGB f) = Recall_sRGB f
   \<and> Forget_sRGB (Forget_sRGB f) = Forget_sRGB f \<and> Recall_sRGB (Recall_sRGB f) = Recall_sRGB f
   \<and> \<not> Is_sRGBVariant (Forget_sRGB f)"
  using Forget_cases [of f] Recall_cases [of f] by (auto simp: Is_sRGBVariant_def)

text \<open>What \<open>MTLQueryDXGIFormat\<close> accepts is coherent with the other tables: the pixel format is valid;
  the block-compression flag is set exactly for block-compressed formats; the depth and stencil
  plane flags are those \<open>DepthStencilPlanarFlags\<close> gives, and one of them is set exactly for the
  depth-stencil formats of \<open>IsDepthStencilDXGIFormat\<close>.\<close>

theorem query_flags_coherent:
  assumes "MTLQueryDXGIFormat c = (S_OK, d)"
  shows "PixelFormat d \<noteq> WMTPixelFormatInvalid
     \<and> (Flag d AND MTL_DXGI_FORMAT_BC \<noteq> 0 \<longleftrightarrow> IsBlockCompressionFormat (PixelFormat d))
     \<and> (Flag d AND MTL_DXGI_FORMAT_DEPTH_PLANER \<noteq> 0 \<longleftrightarrow> DepthStencilPlanarFlags (PixelFormat d) AND 1 \<noteq> 0)
     \<and> (Flag d AND MTL_DXGI_FORMAT_STENCIL_PLANER \<noteq> 0 \<longleftrightarrow> DepthStencilPlanarFlags (PixelFormat d) AND 2 \<noteq> 0)
     \<and> (IsDepthStencilDXGIFormat c
        \<longleftrightarrow> Flag d AND (MTL_DXGI_FORMAT_DEPTH_PLANER OR MTL_DXGI_FORMAT_STENCIL_PLANER) \<noteq> 0)"
  by (rule query_desc_all [OF _ assms])
    (simp add: query_tables reset_desc_def IsBlockCompressionFormat_def IsBlockCompressionFormat_cases_def
      DepthStencilPlanarFlags_def DepthStencilPlanarFlags_cases_def IsDepthStencilDXGIFormat_def
      IsDepthStencilDXGIFormat_cases_def)

lemma query_flags_coherent_witness:
  "(Flag (reset_desc\<lparr> PixelFormat := WMTPixelFormatBC1_RGBA, Flag := MTL_DXGI_FORMAT_BC, BytesPerTexel := 8 \<rparr>)
      AND MTL_DXGI_FORMAT_BC \<noteq> 0 \<longleftrightarrow> IsBlockCompressionFormat WMTPixelFormatBC1_RGBA)"
proof -
  have "MTLQueryDXGIFormat DXGI_FORMAT_BC1_UNORM
      = (S_OK, reset_desc\<lparr> PixelFormat := WMTPixelFormatBC1_RGBA, Flag := MTL_DXGI_FORMAT_BC, BytesPerTexel := 8 \<rparr>)"
    by (simp add: MTLQueryDXGIFormat_def query_tables)
  from query_flags_coherent [OF this] show ?thesis by simp
qed

text \<open>The texel size of a pixel format (its block size, when block compressed) is the one
  \<open>MTLQueryDXGIFormat\<close> reports, except for the three-component formats and the packed 4:2:2 formats,
  whose texel is not a texel of the Metal format, and the formats with a stencil plane, which
  \<open>MTLGetTexelSize\<close> does not size.\<close>

theorem query_texel_size:
  assumes "MTLQueryDXGIFormat c = (S_OK, d)"
  shows "MTLGetTexelSize (PixelFormat d) = BytesPerTexel d
     \<or> c \<in> {DXGI_FORMAT_R32G32B32_TYPELESS, DXGI_FORMAT_R32G32B32_UINT, DXGI_FORMAT_R32G32B32_SINT,
            DXGI_FORMAT_R32G32B32_FLOAT, DXGI_FORMAT_R8G8_B8G8_UNORM, DXGI_FORMAT_G8R8_G8B8_UNORM,
            DXGI_FORMAT_R32G8X24_TYPELESS, DXGI_FORMAT_R24G8_TYPELESS}"
  by (rule query_desc_all [OF _ assms])
    (simp add: query_tables reset_desc_def MTLGetTexelSize_def MTLGetTexelSize_cases_def ORIGINAL_FORMAT_def)

lemma query_texel_size_witness:
  "MTLGetTexelSize WMTPixelFormatBGRX8Unorm = 4"
proof -
  have "MTLQueryDXGIFormat DXGI_FORMAT_B8G8R8X8_UNORM
      = (S_OK, reset_desc\<lparr> PixelFormat := WMTPixelFormatBGRX8Unorm, BytesPerTexel := 4 \<rparr>)"
    by (simp add: MTLQueryDXGIFormat_def query_tables)
  from query_texel_size [OF this] show ?thesis by simp
qed

text \<open>Newer Apple device families never lose a capability, and the block-compressed formats of an
  Apple device have capabilities exactly when the device supports block compression.\<close>

theorem capabilities_monotone:
  assumes "Inspect \<lparr> Apple7 = True, Apple8 = False, Apple9 = False, Mac2 = b, BCTextureCompression = bc \<rparr> Map.empty = Inr m7"
    and "Inspect \<lparr> Apple7 = True, Apple8 = True, Apple9 = False, Mac2 = b, BCTextureCompression = bc \<rparr> Map.empty = Inr m8"
    and "Inspect \<lparr> Apple7 = True, Apple8 = True, Apple9 = True, Mac2 = b, BCTextureCompression = bc \<rparr> Map.empty = Inr m9"
  shows "(bit (caps_of m7 f) n \<longrightarrow> bit (caps_of m8 f) n) \<and> (bit (caps_of m8 f) n \<longrightarrow> bit (caps_of m9 f) n)
     \<and> (caps_of m7 WMTPixelFormatBC7_RGBAUnorm \<noteq> Cap_None \<longleftrightarrow> bc)"
proof -
  have m: "m7 = fold APPEND_CAP apple7_other_caps
        (if bc then fold APPEND_CAP apple7_bc_caps (fold APPEND_CAP apple7_caps Map.empty)
         else fold APPEND_CAP apple7_caps Map.empty)"
    "m8 = fold APPEND_CAP apple8_caps m7" "m9 = fold APPEND_CAP apple9_caps m8"
    using assms by (auto simp: Inspect_def Let_def)
  have "WMTPixelFormatBC7_RGBAUnorm \<notin> fst ` set apple7_caps" "WMTPixelFormatBC7_RGBAUnorm \<notin> fst ` set apple7_other_caps"
    by (simp_all add: cap_tables)
  then have "caps_of m7 WMTPixelFormatBC7_RGBAUnorm
      = (if bc then caps_of (fold APPEND_CAP apple7_bc_caps (fold APPEND_CAP apple7_caps Map.empty)) WMTPixelFormatBC7_RGBAUnorm
         else Cap_None)"
    by (simp add: m(1) caps_of_fold_other)
  moreover have "bit (caps_of (fold APPEND_CAP apple7_bc_caps m) WMTPixelFormatBC7_RGBAUnorm) 1" for m
    unfolding caps_of_fold by (simp add: cap_tables bit_simps)
  ultimately show ?thesis
    using m(2,3) caps_of_fold_keep by (metis bit_0_eq bot_apply bot_bool_def)
qed

text \<open>On a Mac2 device \<open>Inspect\<close> enters \<open>R32Uint\<close> twice and \<open>R32Sint\<close> never, so the signed 32-bit
  format has no capability at all there, while the unsigned one has the integer, texture buffer and
  atomic capabilities, and both have them on an Apple device.\<close>

theorem mac2_R32Sint_missing:
  assumes "Inspect \<lparr> Apple7 = False, Apple8 = a8, Apple9 = a9, Mac2 = True, BCTextureCompression = bc \<rparr> Map.empty = Inr m"
    and "Inspect \<lparr> Apple7 = True, Apple8 = False, Apple9 = a9, Mac2 = b, BCTextureCompression = bc \<rparr> Map.empty = Inr m7"
  shows "caps_of m WMTPixelFormatR32Sint = Cap_None
     \<and> bit (caps_of m WMTPixelFormatR32Uint) 0 \<and> bit (caps_of m WMTPixelFormatR32Uint) 11
     \<and> bit (caps_of m7 WMTPixelFormatR32Sint) 0 \<and> bit (caps_of m7 WMTPixelFormatR32Sint) 11"
proof -
  have m: "m = fold APPEND_CAP (mac2_caps @ mac2_other_caps) Map.empty"
    using assms(1) by (simp add: Inspect_def)
  obtain m' where m7: "m7 = fold APPEND_CAP apple7_other_caps m'"
      "m' = fold APPEND_CAP apple7_caps Map.empty
       \<or> m' = fold APPEND_CAP apple7_bc_caps (fold APPEND_CAP apple7_caps Map.empty)"
    using assms(2) by (auto simp: Inspect_def Let_def)
  have "WMTPixelFormatR32Sint \<notin> fst ` set (mac2_caps @ mac2_other_caps)"
    by (simp add: cap_tables)
  then have "caps_of m WMTPixelFormatR32Sint = Cap_None" unfolding m by (simp only: caps_of_fold_other caps_of_empty not_False_eq_True)
  moreover have "(WMTPixelFormatR32Uint, NONAPPLE_INT_FORMAT_CAP OR TEXTURE_BUFFER_ALL_CAP OR Cap_Atomic) \<in> set mac2_caps"
    "(WMTPixelFormatR32Sint, APPLE_INT_FORMAT_CAP_32 OR TEXTURE_BUFFER_ALL_CAP) \<in> set apple7_caps"
    by (simp_all add: cap_tables)
  moreover have "bit (NONAPPLE_INT_FORMAT_CAP OR TEXTURE_BUFFER_ALL_CAP OR Cap_Atomic) i"
    "bit (APPLE_INT_FORMAT_CAP_32 OR TEXTURE_BUFFER_ALL_CAP) i" if "i = 0 \<or> i = 11" for i
    using that by (auto simp: cap_consts bit_simps)
  ultimately show ?thesis
    using m7 by (auto simp: m caps_of_fold) blast+
qed

lemma capabilities_monotone_witness:
  "caps_of (fold APPEND_CAP apple7_other_caps (fold APPEND_CAP apple7_caps Map.empty)) WMTPixelFormatBC7_RGBAUnorm = Cap_None"
proof -
  let ?m = "fold APPEND_CAP apple7_other_caps (fold APPEND_CAP apple7_caps Map.empty)"
  have "Inspect \<lparr> Apple7 = True, Apple8 = False, Apple9 = False, Mac2 = False, BCTextureCompression = False \<rparr> Map.empty = Inr ?m"
    "Inspect \<lparr> Apple7 = True, Apple8 = True, Apple9 = False, Mac2 = False, BCTextureCompression = False \<rparr> Map.empty
       = Inr (fold APPEND_CAP apple8_caps ?m)"
    "Inspect \<lparr> Apple7 = True, Apple8 = True, Apple9 = True, Mac2 = False, BCTextureCompression = False \<rparr> Map.empty
       = Inr (fold APPEND_CAP apple9_caps (fold APPEND_CAP apple8_caps ?m))"
    by (simp_all only: Inspect_def Let_def device_family.simps if_True if_False not_True_eq_False not_False_eq_True)
  from capabilities_monotone [OF this] show ?thesis by blast
qed

lemma mac2_R32Sint_missing_witness:
  "caps_of (fold APPEND_CAP (mac2_caps @ mac2_other_caps) Map.empty) WMTPixelFormatR32Sint = Cap_None"
proof -
  have "Inspect \<lparr> Apple7 = False, Apple8 = False, Apple9 = False, Mac2 = True, BCTextureCompression = False \<rparr> Map.empty
      = Inr (fold APPEND_CAP (mac2_caps @ mac2_other_caps) Map.empty)"
    "Inspect \<lparr> Apple7 = True, Apple8 = False, Apple9 = False, Mac2 = False, BCTextureCompression = False \<rparr> Map.empty
      = Inr (fold APPEND_CAP apple7_other_caps (fold APPEND_CAP apple7_caps Map.empty))"
    by (simp_all only: Inspect_def Let_def device_family.simps if_True if_False not_True_eq_False not_False_eq_True)
  from mac2_R32Sint_missing [OF this] show ?thesis by blast
qed

text \<open>The traits are coherent: a format is plane-compatible with itself on each of its planes and on
  no other; a format has at most two planes, and none exactly when it is unsupported; the supported
  formats are those with a plane, the one-bit mask excepted; and the depth-stencil flag is set for
  exactly the formats of \<open>IsDepthStencilDXGIFormat\<close>.\<close>

theorem plane_compatibility:
  "(IsDXGIFormatPlaneCompatible f f p \<longleftrightarrow> p < planeCount (GetDXGIFormatTraits f))
   \<and> planeCount (GetDXGIFormatTraits f) \<le> 2
   \<and> (planeCount (GetDXGIFormatTraits f) = 0 \<longleftrightarrow> classification (GetDXGIFormatTraits f) = Unsupported)
   \<and> (IsDXGIFormatSupportedByTraits f \<longleftrightarrow> planeCount (GetDXGIFormatTraits f) \<noteq> 0 \<and> f \<noteq> DXGI_FORMAT_R1_UNORM)
   \<and> (ft_flags (GetDXGIFormatTraits f) = DXGI_FORMAT_TRAIT_DEPTH_STENCIL \<longleftrightarrow> IsDepthStencilDXGIFormat f)"
proof -
  have zero: "\<not> p < 0" "p < x \<longleftrightarrow> \<not> x \<le> p" for x p :: u32 by auto
  have "(IsDXGIFormatPlaneCompatible f f p \<longleftrightarrow> p < planeCount (GetDXGIFormatTraits f))"
    by (auto simp: IsDXGIFormatPlaneCompatible_def Let_def not_le)
  moreover have "planeCount (GetDXGIFormatTraits f) \<le> 2
   \<and> (planeCount (GetDXGIFormatTraits f) = 0 \<longleftrightarrow> classification (GetDXGIFormatTraits f) = Unsupported)
   \<and> (IsDXGIFormatSupportedByTraits f \<longleftrightarrow> planeCount (GetDXGIFormatTraits f) \<noteq> 0 \<and> f \<noteq> DXGI_FORMAT_R1_UNORM)
   \<and> (ft_flags (GetDXGIFormatTraits f) = DXGI_FORMAT_TRAIT_DEPTH_STENCIL \<longleftrightarrow> IsDepthStencilDXGIFormat f)"
    by (simp add: GetDXGIFormatTraits_def DepthStencilTraits_def Video420Traits_def MaskFormatTraits_def
        SinglePlaneNative_def kUnsupportedFormatTraits_def IsDXGIFormatSupportedByTraits_def
        IsDepthStencilDXGIFormat_def IsDepthStencilDXGIFormat_cases_def Let_def)
  ultimately show ?thesis by blast
qed

end
