(* ===== verification/Statistics.thy ===== *)
theory Statistics
  imports Prelude
begin

text \<open>
  Per-frame statistics: src/src/dxmt/dxmt_statistics.hpp. A ring of 16 frames; \<open>compute\<close> folds the
  other 15 into a minimum, a maximum and an average. Counters are 32-bit words, durations integers.
\<close>

record frame_statistics =
  compatibility_flags :: u64
  command_buffer_count :: u32
  sync_count :: u32
  sync_interval :: int
  commit_interval :: int
  render_pass_count :: u32
  render_pass_optimized :: u32
  render_command_count :: u32
  render_pso_bind_count :: u32
  render_draw_count :: u32
  render_indexed_draw_count :: u32
  render_indirect_draw_count :: u32
  render_mesh_draw_count :: u32
  render_tile_dispatch_count :: u32
  present_pass_count :: u32
  clear_pass_count :: u32
  clear_pass_optimized :: u32
  resolve_pass_optimized :: u32
  compute_pass_count :: u32
  blit_pass_count :: u32
  event_stall :: u32
  latency :: u32
  shader_binding_upload_count :: u32
  shader_binding_dirty_cbuffer_count :: u32
  shader_binding_dirty_sampler_count :: u32
  shader_binding_dirty_srv_count :: u32
  shader_binding_dirty_uav_count :: u32
  shader_binding_clean_uav_count :: u32
  encode_prepare_interval :: int
  encode_flush_interval :: int
  drawable_blocking_interval :: int
  present_latency_interval :: int
  last_scaler_type :: nat
  last_scaler_size :: "u32 \<times> u32 \<times> u32 \<times> u32 \<times> bool \<times> bool"

definition fs_reset :: "frame_statistics \<Rightarrow> frame_statistics" where
  "fs_reset s = s\<lparr> compatibility_flags := 0,
     command_buffer_count := 0,
     sync_count := 0,
     sync_interval := 0,
     commit_interval := 0,
     render_pass_count := 0,
     render_pass_optimized := 0,
     render_command_count := 0,
     render_pso_bind_count := 0,
     render_draw_count := 0,
     render_indexed_draw_count := 0,
     render_indirect_draw_count := 0,
     render_mesh_draw_count := 0,
     render_tile_dispatch_count := 0,
     present_pass_count := 0,
     clear_pass_count := 0,
     clear_pass_optimized := 0,
     resolve_pass_optimized := 0,
     compute_pass_count := 0,
     blit_pass_count := 0,
     event_stall := 0,
     latency := 0,
     shader_binding_upload_count := 0,
     shader_binding_dirty_cbuffer_count := 0,
     shader_binding_dirty_sampler_count := 0,
     shader_binding_dirty_srv_count := 0,
     shader_binding_dirty_uav_count := 0,
     shader_binding_clean_uav_count := 0,
     encode_prepare_interval := 0,
     encode_flush_interval := 0,
     drawable_blocking_interval := 0,
     present_latency_interval := 0,
     last_scaler_type := 0 \<rparr>"

definition kFrameStatisticsCount :: nat where "kFrameStatisticsCount = 16"

record statistics_container =
  sc_frames :: "frame_statistics list"
  sc_min :: frame_statistics
  sc_max :: frame_statistics
  sc_average :: frame_statistics

definition frame_at :: "statistics_container \<Rightarrow> u64 \<Rightarrow> frame_statistics" where
  "frame_at c frame = sc_frames c ! (unat frame mod kFrameStatisticsCount)"

text \<open>The three accumulations of one frame. The minimum of \<open>event_stall\<close> is taken with the minimum of
  \<open>sync_count\<close> already updated, as the code has it.\<close>

definition add_min :: "frame_statistics \<Rightarrow> frame_statistics \<Rightarrow> frame_statistics" where
  "add_min x s =
     (let s1 = s\<lparr> sync_count := min (sync_count s) (sync_count x) \<rparr> in
      s\<lparr> command_buffer_count := min (command_buffer_count s) (command_buffer_count x),
       sync_count := min (sync_count s) (sync_count x),
       event_stall := min (sync_count s1) (event_stall x),
       commit_interval := min (commit_interval s) (commit_interval x),
       sync_interval := min (sync_interval s) (sync_interval x),
       encode_prepare_interval := min (encode_prepare_interval s) (encode_prepare_interval x),
       encode_flush_interval := min (encode_flush_interval s) (encode_flush_interval x),
       drawable_blocking_interval := min (drawable_blocking_interval s) (drawable_blocking_interval x),
       present_latency_interval := min (present_latency_interval s) (present_latency_interval x) \<rparr>)"

definition add_max :: "frame_statistics \<Rightarrow> frame_statistics \<Rightarrow> frame_statistics" where
  "add_max x s =
     s\<lparr> command_buffer_count := max (command_buffer_count s) (command_buffer_count x),
       sync_count := max (sync_count s) (sync_count x),
       event_stall := max (event_stall s) (event_stall x),
       commit_interval := max (commit_interval s) (commit_interval x),
       sync_interval := max (sync_interval s) (sync_interval x),
       encode_prepare_interval := max (encode_prepare_interval s) (encode_prepare_interval x),
       encode_flush_interval := max (encode_flush_interval s) (encode_flush_interval x),
       drawable_blocking_interval := max (drawable_blocking_interval s) (drawable_blocking_interval x),
       present_latency_interval := max (present_latency_interval s) (present_latency_interval x) \<rparr>"

definition add_sum :: "frame_statistics \<Rightarrow> frame_statistics \<Rightarrow> frame_statistics" where
  "add_sum x s =
     s\<lparr> command_buffer_count := command_buffer_count s + command_buffer_count x,
       sync_count := sync_count s + sync_count x,
       event_stall := event_stall s + event_stall x,
       commit_interval := commit_interval s + commit_interval x,
       sync_interval := sync_interval s + sync_interval x,
       encode_prepare_interval := encode_prepare_interval s + encode_prepare_interval x,
       encode_flush_interval := encode_flush_interval s + encode_flush_interval x,
       drawable_blocking_interval := drawable_blocking_interval s + drawable_blocking_interval x,
       present_latency_interval := present_latency_interval s + present_latency_interval x \<rparr>"

text \<open>Division of durations truncates towards zero.\<close>

definition tdiv :: "int \<Rightarrow> int \<Rightarrow> int" where
  "tdiv a b = sgn a * sgn b * (\<bar>a\<bar> div \<bar>b\<bar>)"

definition divide_sums :: "frame_statistics \<Rightarrow> frame_statistics" where
  "divide_sums s =
     s\<lparr> command_buffer_count := command_buffer_count s div 15,
       sync_count := sync_count s div 15,
       event_stall := event_stall s div 15,
       commit_interval := tdiv (commit_interval s) 15,
       sync_interval := tdiv (sync_interval s) 15,
       encode_prepare_interval := tdiv (encode_prepare_interval s) 15,
       encode_flush_interval := tdiv (encode_flush_interval s) 15,
       drawable_blocking_interval := tdiv (drawable_blocking_interval s) 15,
       present_latency_interval := tdiv (present_latency_interval s) 15 \<rparr>"

definition compute :: "u64 \<Rightarrow> statistics_container \<Rightarrow> statistics_container" where
  "compute current_frame c =
     (let current = unat current_frame mod kFrameStatisticsCount;
          others = map ((!) (sc_frames c)) (filter (\<lambda>i. i \<noteq> current) [0..<kFrameStatisticsCount])
      in c\<lparr> sc_min := fold add_min others (fs_reset (sc_min c)),
            sc_max := fold add_max others (fs_reset (sc_max c)),
            sc_average := divide_sums (fold add_sum others (fs_reset (sc_average c))) \<rparr>)"

subsection \<open>Lemmas\<close>

definition others :: "u64 \<Rightarrow> statistics_container \<Rightarrow> frame_statistics list" where
  "others current_frame c =
     map ((!) (sc_frames c)) (filter (\<lambda>i. i \<noteq> unat current_frame mod kFrameStatisticsCount) [0..<kFrameStatisticsCount])"

lemma compute_fields:
  "sc_min (compute f c) = fold add_min (others f c) (fs_reset (sc_min c))"
  "sc_max (compute f c) = fold add_max (others f c) (fs_reset (sc_max c))"
  "sc_average (compute f c) = divide_sums (fold add_sum (others f c) (fs_reset (sc_average c)))"
  by (simp_all add: compute_def others_def Let_def)

lemma fold_min_zero:
  "command_buffer_count s = 0 \<and> sync_count s = 0 \<and> event_stall s = 0 \<and> present_latency_interval s \<le> 0 \<Longrightarrow>
   (let r = fold add_min xs s in
    command_buffer_count r = 0 \<and> sync_count r = 0 \<and> event_stall r = 0 \<and> present_latency_interval r \<le> 0)"
  by (induction xs arbitrary: s) (simp_all add: add_min_def Let_def min_def)

lemma fold_max_count: "command_buffer_count (fold add_max xs s) = fold max (map command_buffer_count xs) (command_buffer_count s)"
  by (induction xs arbitrary: s) (simp_all add: add_max_def max.commute)

lemma fold_max_latency:
  "present_latency_interval (fold add_max xs s) = fold max (map present_latency_interval xs) (present_latency_interval s)"
  by (induction xs arbitrary: s) (simp_all add: add_max_def max.commute)

lemma fold_max_spec:
  fixes a :: "'a :: linorder"
  shows "fold max xs a = Max (insert a (set xs))"
  using Max.set_eq_fold [of a xs] by simp

lemma fold_sum_count:
  "unat (command_buffer_count s) + (\<Sum>x \<leftarrow> xs. unat (command_buffer_count x)) < 2 ^ 32 \<Longrightarrow>
   unat (command_buffer_count (fold add_sum xs s))
   = unat (command_buffer_count s) + (\<Sum>x \<leftarrow> xs. unat (command_buffer_count x))"
proof (induction xs arbitrary: s)
  case (Cons x xs)
  have "unat (command_buffer_count s + command_buffer_count x)
      = unat (command_buffer_count s) + unat (command_buffer_count x)"
    using Cons.prems by (simp add: unat_word_ariths)
  then show ?case using Cons.IH [of "add_sum x s"] Cons.prems by (simp add: add_sum_def)
qed simp

lemma fold_sum_latency:
  "present_latency_interval (fold add_sum xs s) = present_latency_interval s + (\<Sum>x \<leftarrow> xs. present_latency_interval x)"
  by (induction xs arbitrary: s) (simp_all add: add_sum_def)

subsection \<open>Properties\<close>

text \<open>The statistics shown for a frame do not depend on that frame's own, still growing, record.\<close>

theorem compute_excludes_current:
  "(let c' = c\<lparr> sc_frames := (sc_frames c)[unat f mod kFrameStatisticsCount := y] \<rparr>
    in sc_min (compute f c') = sc_min (compute f c) \<and> sc_max (compute f c') = sc_max (compute f c)
       \<and> sc_average (compute f c') = sc_average (compute f c))"
proof -
  have "others f (c\<lparr> sc_frames := (sc_frames c)[unat f mod kFrameStatisticsCount := y] \<rparr>) = others f c"
    unfolding others_def by (intro map_cong) (auto simp: nth_list_update_neq)
  then show ?thesis by (simp add: compute_fields Let_def)
qed

text \<open>The maximum is the largest of the other 15 frames (zero at least), and the average their sum
  divided by 15, rounded down, while the sum fits the counter.\<close>

theorem compute_max_average:
  assumes "(\<Sum>x \<leftarrow> others f c. unat (command_buffer_count x)) < 2 ^ 32"
  shows "command_buffer_count (sc_max (compute f c))
           = Max (insert 0 (command_buffer_count ` set (others f c)))
     \<and> present_latency_interval (sc_max (compute f c))
           = Max (insert 0 (present_latency_interval ` set (others f c)))
     \<and> unat (command_buffer_count (sc_average (compute f c)))
           = (\<Sum>x \<leftarrow> others f c. unat (command_buffer_count x)) div 15
     \<and> present_latency_interval (sc_average (compute f c))
           = tdiv (\<Sum>x \<leftarrow> others f c. present_latency_interval x) 15"
  using assms fold_sum_count [of "fs_reset (sc_average c)" "others f c"]
  by (simp add: compute_fields fold_max_count fold_max_latency fold_max_spec fs_reset_def
      divide_sums_def fold_sum_latency unat_div_distrib)

definition zero_frame :: frame_statistics where
  "zero_frame = fs_reset undefined"

lemma compute_max_average_witness:
  "command_buffer_count (sc_max (compute 3 \<lparr> sc_frames = replicate 16 (zero_frame\<lparr> command_buffer_count := 5 \<rparr>),
     sc_min = zero_frame, sc_max = zero_frame, sc_average = zero_frame \<rparr>)) = 5"
proof -
  let ?c = "\<lparr> sc_frames = replicate 16 (zero_frame\<lparr> command_buffer_count := 5 \<rparr>),
     sc_min = zero_frame, sc_max = zero_frame, sc_average = zero_frame \<rparr>"
  have o: "others 3 ?c = replicate 15 (zero_frame\<lparr> command_buffer_count := 5 \<rparr>)"
  proof -
    let ?is = "filter (\<lambda>i. i \<noteq> unat (3 :: u64) mod kFrameStatisticsCount) [0..<kFrameStatisticsCount]"
    have "others 3 ?c = map (\<lambda>i. zero_frame\<lparr> command_buffer_count := 5 \<rparr>) ?is"
      unfolding others_def by (rule map_cong) (auto simp: kFrameStatisticsCount_def)
    moreover have "length ?is = 15" by code_simp
    ultimately show ?thesis by (simp only: map_replicate_const)
  qed
  have "(\<Sum>x \<leftarrow> others 3 ?c. unat (command_buffer_count x)) < 2 ^ 32"
    unfolding o by (simp add: sum_list_replicate)
  from compute_max_average [OF this] show ?thesis unfolding o by simp
qed

text \<open>The minimum is useless: it is accumulated from zero, so every counter's minimum is zero and no
  duration's minimum is positive, whatever the frames recorded.\<close>

theorem compute_min_is_zero:
  "command_buffer_count (sc_min (compute f c)) = 0 \<and> sync_count (sc_min (compute f c)) = 0
   \<and> event_stall (sc_min (compute f c)) = 0 \<and> present_latency_interval (sc_min (compute f c)) \<le> 0"
  using fold_min_zero [of "fs_reset (sc_min c)" "others f c"]
  by (simp add: compute_fields Let_def fs_reset_def)

end
