(* ===== verification/Queries.thy ===== *)
theory Queries
  imports Prelude
begin

text \<open>
  Occlusion and timestamp queries: src/src/dxmt/dxmt_occlusion_query.hpp and the functions of
  src/src/dxmt/dxmt_context.cpp that drive them. Draws made while a query is active are counted by
  the GPU in a buffer of counters, one buffer per command chunk; the offset state starts a new
  counter whenever a query begins or ends, and a query sums the counters between its two offsets
  over the chunks it spans.

  The history variables of the context, \<open>vc_expected\<close> and \<open>vc_running\<close>, are not in the code: they
  record what a query ought to return.
\<close>

subsection \<open>VisibilityResultOffsetBumpState\<close>

record vro_state =
  within_encoder :: bool
  current_data_is_dirty :: bool
  previous_offset :: u64
  next_offset :: u64

definition vro_new :: vro_state where
  "vro_new = \<lparr> within_encoder = False, current_data_is_dirty = False, previous_offset = -1, next_offset = 0 \<rparr>"

definition vro_beginEncoder :: "vro_state \<Rightarrow> vro_state" where
  "vro_beginEncoder s = s\<lparr> within_encoder := True \<rparr>"

definition getNextWriteOffset :: "bool \<Rightarrow> vro_state \<Rightarrow> u64 \<times> vro_state" where
  "getNextWriteOffset active s =
     (if active then (next_offset s, s\<lparr> current_data_is_dirty := True \<rparr>) else (-1, s))"

definition tryGetNextWriteOffset :: "bool \<Rightarrow> vro_state \<Rightarrow> bool \<times> u64 \<times> vro_state" where
  "tryGetNextWriteOffset active s =
     (case getNextWriteOffset active s of
        (offset, s') \<Rightarrow>
          if offset = previous_offset s' then (False, offset, s')
          else (True, offset, s'\<lparr> previous_offset := offset \<rparr>))"

definition getNextReadOffset :: "vro_state \<Rightarrow> u64 \<times> vro_state" where
  "getNextReadOffset s =
     (if within_encoder s \<and> current_data_is_dirty s
      then (next_offset s + 1, s\<lparr> current_data_is_dirty := False, next_offset := next_offset s + 1 \<rparr>)
      else (next_offset s, s))"

definition vro_endEncoder :: "vro_state \<Rightarrow> vro_state" where
  "vro_endEncoder s =
     (let s = s\<lparr> within_encoder := False, previous_offset := -1 \<rparr>
      in if current_data_is_dirty s
         then s\<lparr> next_offset := next_offset s + 1, current_data_is_dirty := False \<rparr> else s)"

definition vro_reset :: "vro_state \<Rightarrow> u64 \<times> vro_state" where
  "vro_reset s = (next_offset s, s\<lparr> next_offset := 0 \<rparr>)"

subsection \<open>VisibilityResultQuery\<close>

record vis_query =
  accumulated_value :: u64
  seq_id_begin :: u64
  occlusion_counter_begin :: u64
  seq_id_end :: u64
  occlusion_counter_end :: u64
  seq_id_issued :: u64

definition vq_new :: vis_query where
  "vq_new = \<lparr> accumulated_value = 0, seq_id_begin = -1, occlusion_counter_begin = -1,
     seq_id_end = -1, occlusion_counter_end = -1, seq_id_issued = 0 \<rparr>"

definition vq_reset :: "vis_query \<Rightarrow> vis_query" where
  "vq_reset q = q\<lparr> accumulated_value := 0, seq_id_begin := -1, occlusion_counter_begin := -1,
     seq_id_end := -1, occlusion_counter_end := -1, seq_id_issued := 0 \<rparr>"

text \<open>The offset parameter is an \<open>unsigned\<close>.\<close>

definition vq_begin :: "u64 \<Rightarrow> u32 \<Rightarrow> vis_query \<Rightarrow> vis_query" where
  "vq_begin seq offset q = q\<lparr> accumulated_value := 0, seq_id_begin := seq,
     occlusion_counter_begin := ucast offset, seq_id_end := -1, occlusion_counter_end := -1 \<rparr>"

definition vq_end :: "u64 \<Rightarrow> u32 \<Rightarrow> vis_query \<Rightarrow> vis_query" where
  "vq_end seq offset q =
     (let q = q\<lparr> seq_id_end := seq, occlusion_counter_end := ucast offset \<rparr>
      in if seq_id_begin q = seq_id_end q \<and> occlusion_counter_begin q = occlusion_counter_end q
         then q\<lparr> seq_id_issued := seq_id_end q \<rparr> else q)"

text \<open>The range of counters \<open>issue\<close> walks, \<open>start\<close> to \<open>end\<close>; the code asserts \<open>start <= end\<close>.\<close>

definition vq_start :: "u64 \<Rightarrow> vis_query \<Rightarrow> nat" where
  "vq_start seq q = (if seq = seq_id_begin q then unat (occlusion_counter_begin q) else 0)"

definition vq_stop :: "u64 \<Rightarrow> u64 \<Rightarrow> vis_query \<Rightarrow> nat" where
  "vq_stop seq numResults q = (if seq = seq_id_end q then unat (occlusion_counter_end q) else unat numResults)"

definition vq_issue :: "u64 \<Rightarrow> (nat \<Rightarrow> u64) \<Rightarrow> u64 \<Rightarrow> vis_query \<Rightarrow> vis_query" where
  "vq_issue seq readbackBuffer numResults q =
     q\<lparr> accumulated_value := fold (\<lambda>i v. v + readbackBuffer i)
                              [vq_start seq q..<vq_stop seq numResults q] (accumulated_value q),
        seq_id_issued := seq \<rparr>"

definition vq_getValue :: "vis_query \<Rightarrow> u64 option" where
  "vq_getValue q = (if seq_id_end q \<le> seq_id_issued q then Some (accumulated_value q) else None)"

subsection \<open>The context\<close>

record vis_context =
  vc_vro :: vro_state
  vc_active :: u32                    \<comment> \<open>\<open>active_visibility_query_count_\<close>\<close>
  vc_seq :: u64                       \<comment> \<open>\<open>seq_id_\<close>\<close>
  vc_pending :: "nat list"            \<comment> \<open>\<open>pending_queries_\<close>\<close>
  vc_queries :: "nat \<Rightarrow> vis_query"
  vc_mode :: "u64 option"             \<comment> \<open>the GPU's visibility mode: counting at an offset\<close>
  vc_counters :: "nat \<Rightarrow> u64"        \<comment> \<open>the GPU's counters of this chunk\<close>
  vc_running :: "nat list"
  vc_used :: "nat list"
  vc_expected :: "nat \<Rightarrow> u64"

definition vc_new :: vis_context where
  "vc_new = \<lparr> vc_vro = vro_new, vc_active = 0, vc_seq = 1, vc_pending = [], vc_queries = (\<lambda>q. vq_new),
     vc_mode = None, vc_counters = (\<lambda>i. 0), vc_running = [], vc_used = [], vc_expected = (\<lambda>q. 0) \<rparr>"

datatype vis_event =
    Begin_encoder
  | End_encoder
  | Draw u64                \<comment> \<open>the samples the draw lets pass\<close>
  | Begin_query nat
  | End_query nat
  | Flush

definition beginVisibilityResultQuery :: "nat \<Rightarrow> vis_context \<Rightarrow> vis_context" where
  "beginVisibilityResultQuery q c =
     (case getNextReadOffset (vc_vro c) of
        (offset, vro) \<Rightarrow>
          c\<lparr> vc_vro := vro,
             vc_queries := (vc_queries c)(q := vq_begin (vc_seq c) (ucast offset) (vc_queries c q)),
             vc_active := vc_active c + 1, vc_pending := vc_pending c @ [q],
             vc_running := q # vc_running c, vc_used := q # vc_used c \<rparr>)"

definition endVisibilityResultQuery :: "nat \<Rightarrow> vis_context \<Rightarrow> vis_context" where
  "endVisibilityResultQuery q c =
     (case getNextReadOffset (vc_vro c) of
        (offset, vro) \<Rightarrow>
          c\<lparr> vc_vro := vro,
             vc_queries := (vc_queries c)(q := vq_end (vc_seq c) (ucast offset) (vc_queries c q)),
             vc_active := vc_active c - 1, vc_running := remove1 q (vc_running c) \<rparr>)"

definition bumpVisibilityResultOffset :: "vis_context \<Rightarrow> vis_context" where
  "bumpVisibilityResultOffset c =
     (case tryGetNextWriteOffset (vc_active c \<noteq> 0) (vc_vro c) of
        (changed, offset, vro) \<Rightarrow>
          c\<lparr> vc_vro := vro,
             vc_mode := (if changed then (if NOT offset = 0 then None else Some offset) else vc_mode c) \<rparr>)"

text \<open>A draw: the offset is bumped, then the GPU counts.\<close>

definition draw :: "u64 \<Rightarrow> vis_context \<Rightarrow> vis_context" where
  "draw samples c =
     (let c = bumpVisibilityResultOffset c
      in c\<lparr> vc_counters := (case vc_mode c of None \<Rightarrow> vc_counters c
              | Some i \<Rightarrow> (vc_counters c)(unat i := vc_counters c (unat i) + samples)),
            vc_expected := (\<lambda>q. if q \<in> set (vc_running c) then vc_expected c q + samples else vc_expected c q) \<rparr>)"

text \<open>The query part of \<open>flushCommands\<close>, with the readback it creates run when the GPU is done.\<close>

definition flush_queries :: "vis_context \<Rightarrow> vis_context" where
  "flush_queries c =
     (case vro_reset (vc_vro c) of
        (count, vro) \<Rightarrow>
          c\<lparr> vc_vro := vro,
             vc_queries := (if count \<noteq> 0
                            then fold (\<lambda>q f. f(q := vq_issue (vc_seq c) (vc_counters c) count (f q)))
                                   (vc_pending c) (vc_queries c)
                            else vc_queries c),
             vc_pending := filter (\<lambda>q. seq_id_end (vc_queries c q) \<noteq> vc_seq c) (vc_pending c),
             vc_seq := vc_seq c + 1, vc_counters := (\<lambda>i. 0) \<rparr>)"

fun vis_step :: "vis_event \<Rightarrow> vis_context \<Rightarrow> vis_context" where
  "vis_step Begin_encoder c = c\<lparr> vc_vro := vro_beginEncoder (vc_vro c), vc_mode := None \<rparr>"
| "vis_step End_encoder c = c\<lparr> vc_vro := vro_endEncoder (vc_vro c), vc_mode := None \<rparr>"
| "vis_step (Draw n) c = draw n c"
| "vis_step (Begin_query q) c = beginVisibilityResultQuery q c"
| "vis_step (End_query q) c = endVisibilityResultQuery q c"
| "vis_step Flush c = flush_queries c"

text \<open>The order of calls the context sees: encoders do not nest, draws are inside one, a chunk is
  flushed outside, a query object is begun once and ended once after that.\<close>

fun event_ok :: "vis_context \<Rightarrow> vis_event \<Rightarrow> bool" where
  "event_ok c Begin_encoder \<longleftrightarrow> \<not> within_encoder (vc_vro c)"
| "event_ok c End_encoder \<longleftrightarrow> within_encoder (vc_vro c)"
| "event_ok c (Draw n) \<longleftrightarrow> within_encoder (vc_vro c)"
| "event_ok c (Begin_query q) \<longleftrightarrow> q \<notin> set (vc_used c)"
| "event_ok c (End_query q) \<longleftrightarrow> q \<in> set (vc_running c)"
| "event_ok c Flush \<longleftrightarrow> \<not> within_encoder (vc_vro c)"

fun events_ok :: "vis_context \<Rightarrow> vis_event list \<Rightarrow> bool" where
  "events_ok c [] \<longleftrightarrow> True"
| "events_ok c (e # es) \<longleftrightarrow> event_ok c e \<and> events_ok (vis_step e c) es"

subsection \<open>Timestamps\<close>

text \<open>\<open>TimestampQuery\<close>: the cached value, \<open>~0\<close> while unknown.\<close>

definition ts_getValue :: "u64 \<Rightarrow> u64 option" where
  "ts_getValue cached = (if cached = -1 then None else Some cached)"

record ts_state =
  tq_num_samples :: u64
  tq_queries :: "(nat \<times> u64) list"

definition ts_addQuery :: "nat \<Rightarrow> ts_state \<Rightarrow> u64 \<times> ts_state" where
  "ts_addQuery q s = (tq_num_samples s,
     s\<lparr> tq_queries := tq_queries s @ [(q, tq_num_samples s)], tq_num_samples := tq_num_samples s + 1 \<rparr>)"

definition ts_coalesceQuery :: "nat \<Rightarrow> ts_state \<Rightarrow> ts_state" where
  "ts_coalesceQuery q s = s\<lparr> tq_queries := tq_queries s @ [(q, tq_num_samples s - 1)] \<rparr>"

definition ts_flush :: "ts_state \<Rightarrow> (u64 \<times> (nat \<times> u64) list) option \<times> ts_state" where
  "ts_flush s =
     (if tq_num_samples s = 0 then (None, s)
      else (Some (tq_num_samples s, tq_queries s), s\<lparr> tq_num_samples := 0, tq_queries := [] \<rparr>))"

text \<open>\<open>sampleTimestamp\<close>: samples taken in a row share one; the flag is \<open>encoder_last\<close> being a
  \<open>SampleTimestamp\<close>, and an event is a sample or the end of another pass.\<close>

datatype ts_event = Sample nat | Other_pass

definition sampleTimestamp :: "nat \<Rightarrow> bool \<times> ts_state \<Rightarrow> bool \<times> ts_state" where
  "sampleTimestamp q = (\<lambda>(last_is_sample, s).
     if last_is_sample then (True, ts_coalesceQuery q s) else (True, snd (ts_addQuery q s)))"

fun ts_step :: "ts_event \<Rightarrow> bool \<times> ts_state \<Rightarrow> bool \<times> ts_state" where
  "ts_step (Sample q) x = sampleTimestamp q x"
| "ts_step Other_pass x = (False, snd x)"

definition ts_new_state :: ts_state where
  "ts_new_state = \<lparr> tq_num_samples = 0, tq_queries = [] \<rparr>"

definition ts_chunk :: "ts_event list \<Rightarrow> bool \<times> ts_state" where
  "ts_chunk es = fold ts_step es (False, ts_new_state)"

fun sampled :: "ts_event list \<Rightarrow> nat list" where
  "sampled [] = []"
| "sampled (Sample q # es) = q # sampled es"
| "sampled (Other_pass # es) = sampled es"

text \<open>The destructor of the readback: every query gets the sample of its index.\<close>

definition ts_readback :: "(nat \<times> u64) list \<Rightarrow> u64 list \<Rightarrow> (nat \<Rightarrow> u64) \<Rightarrow> nat \<Rightarrow> u64" where
  "ts_readback queries results = fold (\<lambda>(q, i) cached. cached(q := results ! unat i)) queries"

subsection \<open>Invariant\<close>

abbreviation next_at :: "vis_context \<Rightarrow> nat" where
  "next_at c \<equiv> unat (next_offset (vc_vro c))"

definition seg :: "(nat \<Rightarrow> u64) \<Rightarrow> nat \<Rightarrow> nat \<Rightarrow> u64" where
  "seg f a b = (\<Sum>i \<in> {a..<b}. f i)"

lemma fold_add_seg: "fold (\<lambda>i v. v + f i) [a..<b] x = x + seg f a b"
proof (cases "a \<le> b")
  case True
  then show ?thesis by (induction b rule: dec_induct) (simp_all add: seg_def add.assoc)
qed (simp add: seg_def)

lemma seg_Suc: "a \<le> b \<Longrightarrow> seg f a (Suc b) = seg f a b + f b"
  by (simp add: seg_def)

lemma seg_refl [simp]: "seg f a a = 0"
  by (simp add: seg_def)

lemma seg_zero: "(\<And>i. a \<le> i \<Longrightarrow> i < b \<Longrightarrow> f i = 0) \<Longrightarrow> seg f a b = 0"
  by (simp add: seg_def)

lemma seg_upd: "seg (f(k := f k + x)) a b = (if a \<le> k \<and> k < b then seg f a b + x else seg f a b)"
proof -
  have "seg (f(k := f k + x)) a b = (\<Sum>i \<in> {a..<b}. f i + (if i = k then x else 0))"
    unfolding seg_def by (intro sum.cong) auto
  then show ?thesis by (simp add: seg_def sum.distrib sum.delta)
qed

text \<open>The state of one query: \<open>e\<close> is what it ought to return so far.\<close>

definition running_ok :: "u64 \<Rightarrow> nat \<Rightarrow> (nat \<Rightarrow> u64) \<Rightarrow> vis_query \<Rightarrow> u64 \<Rightarrow> bool" where
  "running_ok seq n f v e \<longleftrightarrow> seq_id_end v = -1 \<and> unat (seq_id_begin v) \<le> unat seq \<and> vq_start seq v \<le> n
     \<and> unat (seq_id_issued v) < unat seq
     \<and> e = accumulated_value v + seg f (vq_start seq v) (Suc n)"

definition ended_ok :: "u64 \<Rightarrow> nat \<Rightarrow> (nat \<Rightarrow> u64) \<Rightarrow> vis_query \<Rightarrow> u64 \<Rightarrow> bool" where
  "ended_ok seq n f v e \<longleftrightarrow> seq_id_end v = seq \<and> vq_start seq v \<le> unat (occlusion_counter_end v)
     \<and> unat (occlusion_counter_end v) \<le> n
     \<and> e = accumulated_value v + seg f (vq_start seq v) (unat (occlusion_counter_end v))
     \<and> (seq_id_begin v = seq_id_end v \<longrightarrow> occlusion_counter_begin v = occlusion_counter_end v
          \<longrightarrow> seq_id_issued v = seq_id_end v)
     \<and> (seq_id_issued v = seq \<and> seg f (vq_start seq v) (unat (occlusion_counter_end v)) = 0
          \<or> unat (seq_id_issued v) < unat seq)"

definition finished_ok :: "vis_query \<Rightarrow> u64 \<Rightarrow> bool" where
  "finished_ok v e \<longleftrightarrow> e = accumulated_value v
     \<and> (seq_id_issued v = seq_id_end v \<or> seq_id_begin v \<noteq> seq_id_end v \<and> occlusion_counter_end v = 0)"

definition query_ok ::
  "u64 \<Rightarrow> nat \<Rightarrow> (nat \<Rightarrow> u64) \<Rightarrow> bool \<Rightarrow> bool \<Rightarrow> bool \<Rightarrow> vis_query \<Rightarrow> u64 \<Rightarrow> bool"
where
  "query_ok seq n f running pending used v e \<longleftrightarrow>
     (if running then pending \<and> used \<and> running_ok seq n f v e
      else if pending then used \<and> ended_ok seq n f v e
      else if used then finished_ok v e else e = 0 \<and> seq_id_issued v = 0)"

definition query_inv :: "vis_context \<Rightarrow> nat \<Rightarrow> bool" where
  "query_inv c q \<longleftrightarrow> query_ok (vc_seq c) (next_at c) (vc_counters c) (q \<in> set (vc_running c))
     (q \<in> set (vc_pending c)) (q \<in> set (vc_used c)) (vc_queries c q) (vc_expected c q)"

definition context_inv :: "nat \<Rightarrow> vis_context \<Rightarrow> bool" where
  "context_inv n c \<longleftrightarrow> distinct (vc_pending c) \<and> distinct (vc_running c)
     \<and> unat (vc_active c) = length (vc_running c) \<and> length (vc_running c) \<le> n
     \<and> (current_data_is_dirty (vc_vro c) \<longrightarrow> within_encoder (vc_vro c))
     \<and> vc_mode c = (if previous_offset (vc_vro c) = -1 then None else Some (previous_offset (vc_vro c)))
     \<and> (\<not> within_encoder (vc_vro c) \<longrightarrow> previous_offset (vc_vro c) = -1)
     \<and> (\<forall>i. next_at c < i \<or> i = next_at c \<and> \<not> current_data_is_dirty (vc_vro c) \<longrightarrow> vc_counters c i = 0)
     \<and> next_at c \<le> n \<and> unat (vc_seq c) \<le> n + 1 \<and> 0 < unat (vc_seq c)"

definition vis_inv :: "nat \<Rightarrow> vis_context \<Rightarrow> bool" where
  "vis_inv n c \<longleftrightarrow> context_inv n c \<and> (\<forall>q. query_inv c q)"

lemma vis_inv_new: "vis_inv 0 vc_new"
  by (simp add: vis_inv_def context_inv_def query_inv_def query_ok_def vc_new_def vro_new_def vq_new_def)

text \<open>Reading the offset closes the current counter.\<close>

lemma read_offset:
  assumes inv: "context_inv n c" and n: "n + 1 < 2 ^ 32" and r: "getNextReadOffset (vc_vro c) = (k, vro)"
  shows "k = next_offset vro" "\<not> current_data_is_dirty vro" "within_encoder vro = within_encoder (vc_vro c)"
    "previous_offset vro = previous_offset (vc_vro c)" "next_at c \<le> unat k" "unat k \<le> n + 1"
    "unat (ucast (ucast k :: u32) :: u64) = unat k" "\<And>i. unat k \<le> i \<Longrightarrow> vc_counters c i = 0"
    "\<And>a. a \<le> next_at c \<Longrightarrow> seg (vc_counters c) a (Suc (unat k)) = seg (vc_counters c) a (Suc (next_at c))"
    "\<And>a. a \<le> next_at c \<Longrightarrow> seg (vc_counters c) a (unat k) = seg (vc_counters c) a (Suc (next_at c))"
proof -
  have N: "next_at c \<le> n" "current_data_is_dirty (vc_vro c) \<longrightarrow> within_encoder (vc_vro c)"
    "\<forall>i. next_at c < i \<or> i = next_at c \<and> \<not> current_data_is_dirty (vc_vro c) \<longrightarrow> vc_counters c i = 0"
    using inv unfolding context_inv_def by blast+
  have plus: "unat (next_offset (vc_vro c) + 1) = next_at c + 1" using N(1) n by (simp add: word_nat)
  have k: "k = next_offset vro" "\<not> current_data_is_dirty vro" "within_encoder vro = within_encoder (vc_vro c)"
    "previous_offset vro = previous_offset (vc_vro c)"
    "unat k = (if current_data_is_dirty (vc_vro c) then Suc (next_at c) else next_at c)"
    using r N(2) plus by (auto simp: getNextReadOffset_def split: if_splits)
  show "k = next_offset vro" "\<not> current_data_is_dirty vro" "within_encoder vro = within_encoder (vc_vro c)"
    "previous_offset vro = previous_offset (vc_vro c)" using k by blast+
  show "next_at c \<le> unat k" and kn: "unat k \<le> n + 1" using k(5) N(1) by auto
  have "unat k < 2 ^ 32" using kn n by simp
  then show "unat (ucast (ucast k :: u32) :: u64) = unat k"
    by (simp add: unsigned_ucast_eq unsigned_take_bit_eq take_bit_eq_mod unat_mod_distrib)
  show z: "vc_counters c i = 0" if "unat k \<le> i" for i using that k(5) N(3) by (cases "i = next_at c") (auto split: if_splits)
  show "seg (vc_counters c) a (Suc (unat k)) = seg (vc_counters c) a (Suc (next_at c))"
    "seg (vc_counters c) a (unat k) = seg (vc_counters c) a (Suc (next_at c))" if "a \<le> next_at c" for a
    using that k(5) z by (auto simp: seg_Suc split: if_splits)
qed

lemma context_inv_read:
  assumes inv: "context_inv n c" and n: "n + 1 < 2 ^ 32" and r: "getNextReadOffset (vc_vro c) = (k, vro)"
  shows "current_data_is_dirty vro \<longrightarrow> within_encoder vro"
    and "vc_mode c = (if previous_offset vro = -1 then None else Some (previous_offset vro))"
    and "\<not> within_encoder vro \<longrightarrow> previous_offset vro = -1"
    and "\<forall>i. unat (next_offset vro) < i \<or> i = unat (next_offset vro) \<and> \<not> current_data_is_dirty vro \<longrightarrow> vc_counters c i = 0"
    and "unat (next_offset vro) \<le> n + 1" and "unat (vc_seq c) \<le> n + 1 + 1"
    and "distinct (vc_pending c)" "distinct (vc_running c)" "unat (vc_active c) = length (vc_running c)"
    and "length (vc_running c) \<le> n" "0 < unat (vc_seq c)"
proof -
  note ro = read_offset [OF inv n r]
  show "current_data_is_dirty vro \<longrightarrow> within_encoder vro" using ro(2) by blast
  show "vc_mode c = (if previous_offset vro = -1 then None else Some (previous_offset vro))"
    "\<not> within_encoder vro \<longrightarrow> previous_offset vro = -1"
    using inv unfolding ro(3,4) context_inv_def by blast+
  show "\<forall>i. unat (next_offset vro) < i \<or> i = unat (next_offset vro) \<and> \<not> current_data_is_dirty vro \<longrightarrow> vc_counters c i = 0"
    unfolding ro(1) [symmetric] using ro(8) by auto
  show "unat (next_offset vro) \<le> n + 1" using ro(1,6) by simp
  show "unat (vc_seq c) \<le> n + 1 + 1" "distinct (vc_pending c)" "distinct (vc_running c)"
    "unat (vc_active c) = length (vc_running c)" "length (vc_running c) \<le> n"
    "0 < unat (vc_seq c)"
    using inv unfolding context_inv_def by auto
qed

lemma running_ok_read:
  assumes "running_ok seq m f v e" "m \<le> k" "seg f (vq_start seq v) (Suc k) = seg f (vq_start seq v) (Suc m)"
  shows "running_ok seq k f v e"
  using assms by (auto simp: running_ok_def)

lemma ended_ok_read: "ended_ok seq m f v e \<Longrightarrow> m \<le> k \<Longrightarrow> ended_ok seq k f v e"
  by (auto simp: ended_ok_def)

text \<open>Reading the offset alone keeps the queries.\<close>

lemma query_ok_read:
  assumes inv: "vis_inv n c" and n: "n + 1 < 2 ^ 32" and r: "getNextReadOffset (vc_vro c) = (k, vro)"
  shows "query_ok (vc_seq c) (unat (next_offset vro)) (vc_counters c) (q \<in> set (vc_running c))
     (q \<in> set (vc_pending c)) (q \<in> set (vc_used c)) (vc_queries c q) (vc_expected c q)"
proof -
  have ci: "context_inv n c" and qi: "query_inv c q" using inv by (auto simp: vis_inv_def)
  note ro = read_offset [OF ci n r]
  have "running_ok (vc_seq c) (unat k) (vc_counters c) v e"
    if "running_ok (vc_seq c) (next_at c) (vc_counters c) v e" for v e
    by (rule running_ok_read [OF that ro(5) ro(9)]) (use that in \<open>simp add: running_ok_def\<close>)
  then show ?thesis
    using qi ended_ok_read [OF _ ro(5)] unfolding ro(1) [symmetric] query_inv_def query_ok_def by presburger
qed

lemma vis_inv_end_encoder:
  assumes inv: "vis_inv n c" and n: "n + 1 < 2 ^ 32" and e: "within_encoder (vc_vro c)"
  shows "vis_inv (n + 1) (vis_step End_encoder c)"
proof -
  obtain k vro where r: "getNextReadOffset (vc_vro c) = (k, vro)" by fastforce
  have ci: "context_inv n c" using inv by (simp add: vis_inv_def)
  note ro = read_offset [OF ci n r] and cr = context_inv_read [OF ci n r]
  have s: "vro_endEncoder (vc_vro c) = vro\<lparr> within_encoder := False, previous_offset := -1 \<rparr>"
    using r e by (auto simp: vro_endEncoder_def getNextReadOffset_def Let_def split: if_splits)
  have "query_inv (vis_step End_encoder c) q" for q
    using query_ok_read [OF inv n r, of q] by (simp add: query_inv_def s)
  moreover have "context_inv (n + 1) (vis_step End_encoder c)"
    unfolding context_inv_def using cr ro(2) by (simp add: s)
  ultimately show ?thesis by (simp add: vis_inv_def)
qed

lemma vis_inv_begin_encoder:
  assumes "vis_inv n c" "\<not> within_encoder (vc_vro c)"
  shows "vis_inv (n + 1) (vis_step Begin_encoder c)"
  using assms
  by (auto simp: vis_inv_def context_inv_def query_inv_def vro_beginEncoder_def)

lemma vis_inv_begin:
  assumes inv: "vis_inv n c" and n: "n + 1 < 2 ^ 32" and q: "q \<notin> set (vc_used c)"
  shows "vis_inv (n + 1) (beginVisibilityResultQuery q c)"
proof -
  obtain k vro where r: "getNextReadOffset (vc_vro c) = (k, vro)" by fastforce
  have ci: "context_inv n c" and "query_inv c q" using inv by (auto simp: vis_inv_def)
  note ro = read_offset [OF ci n r] and cr = context_inv_read [OF ci n r]
  have fresh: "q \<notin> set (vc_running c)" "q \<notin> set (vc_pending c)" "vc_expected c q = 0"
    "seq_id_issued (vc_queries c q) = 0"
    using \<open>query_inv c q\<close> q by (auto simp: query_inv_def query_ok_def split: if_splits)
  let ?c = "beginVisibilityResultQuery q c"
  have step: "?c = c\<lparr> vc_vro := vro,
       vc_queries := (vc_queries c)(q := vq_begin (vc_seq c) (ucast k) (vc_queries c q)),
       vc_active := vc_active c + 1, vc_pending := vc_pending c @ [q],
       vc_running := q # vc_running c, vc_used := q # vc_used c \<rparr>"
    using r by (simp add: beginVisibilityResultQuery_def)
  have "unat (vc_active c + 1) = Suc (length (vc_running c))"
    using cr(9,10) n by (simp add: unat_word_ariths)
  then have "context_inv (n + 1) ?c"
    unfolding context_inv_def step using cr fresh by simp
  moreover have "query_inv ?c p" for p
  proof (cases "p = q")
    case True
    have "running_ok (vc_seq c) (unat k) (vc_counters c) (vq_begin (vc_seq c) (ucast k) (vc_queries c q)) 0"
      using ro(7,8) fresh(4) cr(11) by (simp add: running_ok_def vq_begin_def vq_start_def seg_def)
    then show ?thesis unfolding step query_inv_def query_ok_def using True fresh ro(1) by simp
  next
    case False
    then show ?thesis
      unfolding step query_inv_def using query_ok_read [OF inv n r, of p] by simp
  qed
  ultimately show ?thesis by (simp add: vis_inv_def)
qed

lemma vis_inv_end:
  assumes inv: "vis_inv n c" and n: "n + 1 < 2 ^ 32" and q: "q \<in> set (vc_running c)"
  shows "vis_inv (n + 1) (endVisibilityResultQuery q c)"
proof -
  obtain k vro where r: "getNextReadOffset (vc_vro c) = (k, vro)" by fastforce
  have ci: "context_inv n c" and qi: "query_inv c q" using inv by (auto simp: vis_inv_def)
  note ro = read_offset [OF ci n r] and cr = context_inv_read [OF ci n r]
  let ?c = "endVisibilityResultQuery q c"
  have step: "?c = c\<lparr> vc_vro := vro,
       vc_queries := (vc_queries c)(q := vq_end (vc_seq c) (ucast k) (vc_queries c q)),
       vc_active := vc_active c - 1, vc_running := remove1 q (vc_running c) \<rparr>"
    using r by (simp add: endVisibilityResultQuery_def)
  have "0 < length (vc_running c)" using q by (cases "vc_running c") auto
  then have "1 \<le> vc_active c" using cr(9) by (simp add: word_le_nat_alt Suc_le_eq)
  then have "unat (vc_active c - 1) = length (vc_running c) - 1" using cr(9) by (simp add: unat_sub)
  then have "context_inv (n + 1) ?c"
    unfolding context_inv_def step using cr q by (simp add: length_remove1 distinct_remove1)
  moreover have "query_inv ?c p" for p
  proof (cases "p = q")
    case True
    let ?v = "vc_queries c q"
    have run: "running_ok (vc_seq c) (next_at c) (vc_counters c) ?v (vc_expected c q)"
      "q \<in> set (vc_pending c)" "q \<in> set (vc_used c)"
      using qi q by (auto simp: query_inv_def query_ok_def)
    have st: "vq_start (vc_seq c) ?v \<le> next_at c" using run(1) by (simp add: running_ok_def)
    have "ended_ok (vc_seq c) (unat k) (vc_counters c) (vq_end (vc_seq c) (ucast k) ?v) (vc_expected c q)"
      using run(1) ro(7) ro(5) ro(10) [OF st, symmetric] st
      by (auto simp: ended_ok_def running_ok_def vq_end_def vq_start_def Let_def)
    moreover have "q \<notin> set (remove1 q (vc_running c))" using cr(8) by simp
    ultimately show ?thesis unfolding step query_inv_def query_ok_def using True run ro(1) by simp
  next
    case False
    then show ?thesis unfolding step query_inv_def using query_ok_read [OF inv n r, of p] by simp
  qed
  ultimately show ?thesis by (simp add: vis_inv_def)
qed

lemma vis_inv_draw:
  assumes inv: "vis_inv n c" and n: "n + 1 < 2 ^ 32" and e: "within_encoder (vc_vro c)"
  shows "vis_inv (n + 1) (draw x c)"
proof -
  have ci: "context_inv n c" and qi: "\<And>q. query_inv c q" using inv by (auto simp: vis_inv_def)
  have nx: "next_at c \<le> n" using ci by (simp add: context_inv_def)
  have small: "next_offset (vc_vro c) \<noteq> -1"
  proof
    assume "next_offset (vc_vro c) = -1"
    then have "next_at c = unat (-1 :: u64)" by (rule arg_cong)
    also have "\<dots> = 2 ^ 64 - 1" by (simp add: unsigned_minus_1_eq_mask mask_eq_exp_minus_1)
    finally have "next_at c = 2 ^ 64 - 1" .
    then show False using nx n by simp
  qed
  have act: "vc_active c \<noteq> 0 \<longleftrightarrow> vc_running c \<noteq> []"
    using ci by (auto simp: context_inv_def unat_eq_0 [symmetric])
  have m: "vc_mode c = (if previous_offset (vc_vro c) = -1 then None else Some (previous_offset (vc_vro c)))"
    using ci unfolding context_inv_def by blast
  show ?thesis
  proof (cases "vc_running c = []")
    case True
    then have na: "vc_active c = 0" using act by blast
    have d: "draw x c = c\<lparr> vc_vro := (vc_vro c)\<lparr> previous_offset := -1 \<rparr>, vc_mode := None \<rparr>"
      using m na True
      by (simp add: draw_def bumpVisibilityResultOffset_def tryGetNextWriteOffset_def getNextWriteOffset_def Let_def
          split: if_splits)
    have "context_inv (n + 1) (draw x c)" unfolding d using ci by (auto simp: context_inv_def)
    moreover have "query_inv (draw x c) q" for q
      using qi [of q] by (simp add: d query_inv_def)
    ultimately show ?thesis by (simp add: vis_inv_def)
  next
    case False
    then have na: "vc_active c \<noteq> 0" using act by blast
    let ?k = "next_at c"
    have nn: "NOT (next_offset (vc_vro c)) \<noteq> 0" using small by (metis bit.compl_zero bit.double_compl)
    have d: "draw x c = c\<lparr> vc_vro := (vc_vro c)\<lparr> current_data_is_dirty := True, previous_offset := next_offset (vc_vro c) \<rparr>,
        vc_mode := Some (next_offset (vc_vro c)),
        vc_counters := (vc_counters c)(?k := vc_counters c ?k + x),
        vc_expected := (\<lambda>q. if q \<in> set (vc_running c) then vc_expected c q + x else vc_expected c q) \<rparr>"
      using m na nn small
      by (cases "next_offset (vc_vro c) = previous_offset (vc_vro c)"; intro vis_context.equality)
        (simp_all add: draw_def bumpVisibilityResultOffset_def tryGetNextWriteOffset_def getNextWriteOffset_def Let_def
          cong: if_cong)
    have "context_inv (n + 1) (draw x c)"
      unfolding d using ci e small by (simp add: context_inv_def)
    moreover have "query_inv (draw x c) q" for q
      using qi [of q]
      by (simp add: d query_inv_def query_ok_def running_ok_def ended_ok_def seg_upd add.assoc split: if_splits)
    ultimately show ?thesis by (simp add: vis_inv_def)
  qed
qed

text \<open>The chunk's readback: every pending query is issued once.\<close>

lemma fold_issue:
  "distinct qs \<Longrightarrow> fold (\<lambda>q f. f(q := g (f q))) qs F = (\<lambda>q. if q \<in> set qs then g (F q) else F q)"
  by (induction qs arbitrary: F) (auto simp: fun_eq_iff)

definition issued_at :: "u64 \<Rightarrow> (nat \<Rightarrow> u64) \<Rightarrow> u64 \<Rightarrow> vis_query \<Rightarrow> vis_query" where
  "issued_at seq f count v = (if count \<noteq> 0 then vq_issue seq f count v else v)"

lemma running_ok_issue:
  assumes "running_ok seq (unat count) f v e" and "f (unat count) = 0" and s: "unat seq < unat seq'" "seq \<noteq> -1"
  shows "running_ok seq' 0 (\<lambda>i. 0) (issued_at seq f count v) e \<and> seq_id_end v \<noteq> seq"
proof -
  have v: "seq_id_end v = -1" "unat (seq_id_begin v) \<le> unat seq" "vq_start seq v \<le> unat count"
    "e = accumulated_value v + seg f (vq_start seq v) (unat count)" "unat (seq_id_issued v) < unat seq"
    using assms(1,2) by (simp_all add: running_ok_def seg_Suc)
  have ns: "seq' \<noteq> seq_id_begin v" using v(2) s by auto
  have ne: "seq \<noteq> seq_id_end v" using v(1) s by simp
  show ?thesis
  proof (cases "count = 0")
    case True
    then show ?thesis using v ns s ne by (simp add: running_ok_def issued_at_def vq_start_def seg_def)
  next
    case False
    then show ?thesis using v ns s ne
      by (simp add: running_ok_def issued_at_def vq_issue_def vq_stop_def fold_add_seg vq_start_def seg_def)
  qed
qed

lemma ended_ok_issue:
  assumes e: "ended_ok seq (unat count) f v e"
  shows "finished_ok (issued_at seq f count v) e \<and> seq_id_end v = seq"
proof (cases "count = 0")
  case True
  then have z: "occlusion_counter_end v = 0" "vq_start seq v = 0"
    using e by (auto simp: ended_ok_def unat_eq_0 [symmetric])
  have "seq_id_begin v = seq_id_end v \<Longrightarrow> occlusion_counter_begin v = 0"
    using z(2) e by (simp add: vq_start_def ended_ok_def unat_eq_0)
  then show ?thesis using e True z by (auto simp: ended_ok_def finished_ok_def issued_at_def seg_def)
next
  case False
  then show ?thesis using e
    by (simp add: ended_ok_def finished_ok_def issued_at_def vq_issue_def vq_stop_def fold_add_seg)
qed

lemma vis_inv_flush:
  assumes inv: "vis_inv n c" and n: "n + 2 < 2 ^ 32" and e: "\<not> within_encoder (vc_vro c)"
  shows "vis_inv (n + 1) (flush_queries c)"
proof -
  have ci: "context_inv n c" and qi: "\<And>q. query_inv c q" using inv by (auto simp: vis_inv_def)
  let ?N = "next_offset (vc_vro c)" and ?S = "vc_seq c" and ?f = "vc_counters c"
  have dist: "distinct (vc_pending c)" and fN: "?f (unat ?N) = 0" and sn: "unat ?S \<le> n + 1"
    using ci e by (auto simp: context_inv_def)
  have s1: "unat (?S + 1) = unat ?S + 1" using sn n by (simp add: word_nat)
  have sm: "?S \<noteq> -1" using s1 by (metis add.left_inverse add_is_0 unat_0 zero_neq_one)
  let ?c = "flush_queries c"
  have d: "?c = c\<lparr> vc_vro := (vc_vro c)\<lparr> next_offset := 0 \<rparr>,
      vc_queries := (\<lambda>q. if q \<in> set (vc_pending c) then issued_at ?S ?f ?N (vc_queries c q) else vc_queries c q),
      vc_pending := filter (\<lambda>q. seq_id_end (vc_queries c q) \<noteq> ?S) (vc_pending c),
      vc_seq := ?S + 1, vc_counters := (\<lambda>i. 0) \<rparr>"
    by (intro vis_context.equality)
      (simp_all add: flush_queries_def vro_reset_def fold_issue [OF dist] issued_at_def fun_eq_iff)
  have "context_inv (n + 1) ?c" unfolding d using ci s1 by (simp add: context_inv_def)
  moreover have "query_inv ?c q" for q
  proof -
    note r = running_ok_issue [of ?S ?N ?f "vc_queries c q" "vc_expected c q" "?S + 1", OF _ fN _ sm]
      and x = ended_ok_issue [of ?S ?N ?f "vc_queries c q" "vc_expected c q"]
    show ?thesis
      using qi [of q] r x s1 unfolding d query_inv_def query_ok_def
      by (simp split: if_splits)
  qed
  ultimately show ?thesis by (simp add: vis_inv_def)
qed

lemma vis_inv_step:
  assumes "vis_inv n c" "n + 2 < 2 ^ 32" "event_ok c ev"
  shows "vis_inv (n + 1) (vis_step ev c)"
proof (cases ev)
  case Begin_encoder
  then show ?thesis using assms vis_inv_begin_encoder by simp
next
  case End_encoder
  then show ?thesis using assms vis_inv_end_encoder [of n c] by simp
next
  case (Draw x)
  then show ?thesis using assms vis_inv_draw [of n c x] by simp
next
  case (Begin_query q)
  then show ?thesis using assms vis_inv_begin [of n c q] by simp
next
  case (End_query q)
  then show ?thesis using assms vis_inv_end [of n c q] by simp
next
  case Flush
  then show ?thesis using assms vis_inv_flush [of n c] by simp
qed

definition vis_run :: "vis_event list \<Rightarrow> vis_context" where
  "vis_run es = fold vis_step es vc_new"

lemma vis_inv_fold:
  "vis_inv n c \<Longrightarrow> events_ok c es \<Longrightarrow> n + length es + 1 < 2 ^ 32 \<Longrightarrow> vis_inv (n + length es) (fold vis_step es c)"
proof (induction es arbitrary: n c)
  case (Cons e es)
  have "vis_inv (n + 1) (vis_step e c)" by (rule vis_inv_step) (use Cons.prems in auto)
  from Cons.IH [OF this] show ?case using Cons.prems by simp
qed simp

lemma vis_inv_run: "events_ok vc_new es \<Longrightarrow> length es + 1 < 2 ^ 32 \<Longrightarrow> vis_inv (length es) (vis_run es)"
  using vis_inv_fold [OF vis_inv_new, of es] by (simp add: vis_run_def)

subsection \<open>What a query returns\<close>

lemma query_value_cases:
  assumes "query_ok seq n f running pending used v e" and "used" and "vq_getValue v = Some x"
    and "unat seq < 2 ^ 64 - 1"
  shows "x = e"
proof -
  have x: "x = accumulated_value v" and le: "unat (seq_id_end v) \<le> unat (seq_id_issued v)"
    using assms(3) by (auto simp: vq_getValue_def word_le_nat_alt split: if_splits)
  have m: "unat (-1 :: u64) = 2 ^ 64 - 1" by (simp add: unsigned_minus_1_eq_mask mask_eq_exp_minus_1)
  have "\<not> running_ok seq n f v e" using le m assms(4) by (auto simp: running_ok_def)
  then show ?thesis
    using assms(1,2) x le by (auto simp: query_ok_def ended_ok_def finished_ok_def split: if_splits)
qed

text \<open>C31: An occlusion query never returns a wrong value: whatever the order of encoders, draws, query
  begins and ends and chunk flushes, if \<open>getValue\<close> answers for a query, the answer is the number of
  samples of exactly the draws made between its begin and its end, over all the chunks it spans.\<close>

theorem query_value_right:
  assumes "events_ok vc_new es" "length es + 1 < 2 ^ 32" "q \<in> set (vc_used (vis_run es))"
    and "vq_getValue (vc_queries (vis_run es) q) = Some x"
  shows "x = vc_expected (vis_run es) q"
proof -
  have inv: "vis_inv (length es) (vis_run es)" by (rule vis_inv_run [OF assms(1,2)])
  then have s: "unat (vc_seq (vis_run es)) < 2 ^ 64 - 1" using assms(2) by (simp add: vis_inv_def context_inv_def)
  from inv have "query_inv (vis_run es) q" by (simp add: vis_inv_def)
  from query_value_cases [OF this [unfolded query_inv_def] assms(3,4) s] show ?thesis .
qed

text \<open>C32: When an occlusion query has ended and the chunk of its end was flushed, its value is
  available, unless the query was begun in an earlier chunk and no counter of the last chunk precedes its end.\<close>

theorem query_value_available:
  assumes "events_ok vc_new es" "length es + 1 < 2 ^ 32" "q \<in> set (vc_used (vis_run es))"
    and "q \<notin> set (vc_running (vis_run es))" "q \<notin> set (vc_pending (vis_run es))"
    and "seq_id_begin (vc_queries (vis_run es) q) = seq_id_end (vc_queries (vis_run es) q)
      \<or> occlusion_counter_end (vc_queries (vis_run es) q) \<noteq> 0"
  shows "vq_getValue (vc_queries (vis_run es) q) = Some (vc_expected (vis_run es) q)"
proof -
  have "vis_inv (length es) (vis_run es)" by (rule vis_inv_run [OF assms(1,2)])
  then have "finished_ok (vc_queries (vis_run es) q) (vc_expected (vis_run es) q)"
    using assms(3-5) by (auto simp: vis_inv_def query_inv_def query_ok_def)
  then show ?thesis using assms(6) by (auto simp: finished_ok_def vq_getValue_def)
qed

text \<open>A run with two queries over two chunks.\<close>

definition two_chunks :: "vis_event list" where
  "two_chunks = [Begin_encoder, Begin_query 0, Draw 5, Begin_query 1, Draw 7, End_encoder, Flush,
     Begin_encoder, Draw 9, End_query 0, Draw 11, End_query 1, End_encoder, Flush]"

lemmas vis_exec = vis_run_def vc_new_def vro_new_def vq_new_def vro_beginEncoder_def vro_endEncoder_def
  beginVisibilityResultQuery_def endVisibilityResultQuery_def draw_def bumpVisibilityResultOffset_def
  tryGetNextWriteOffset_def getNextWriteOffset_def getNextReadOffset_def flush_queries_def vro_reset_def
  vq_begin_def vq_end_def vq_issue_def vq_start_def vq_stop_def vq_getValue_def Let_def

lemma two_chunks_run:
  "events_ok vc_new two_chunks" "set (vc_used (vis_run two_chunks)) = {0, 1}"
  "vc_running (vis_run two_chunks) = []" "vc_pending (vis_run two_chunks) = []"
  "vq_getValue (vc_queries (vis_run two_chunks) 0) = Some 21"
  "vc_expected (vis_run two_chunks) 0 = 21"
  "occlusion_counter_end (vc_queries (vis_run two_chunks) 0) \<noteq> 0"
  by code_simp+

lemma query_value_right_witness: "vc_expected (vis_run two_chunks) 0 = 21"
  using query_value_right [OF two_chunks_run(1) _ _ two_chunks_run(5)] two_chunks_run(2)
  by (simp add: two_chunks_def)

lemma query_value_available_witness: "vq_getValue (vc_queries (vis_run two_chunks) 0) = Some 21"
  using query_value_available [OF two_chunks_run(1), of 0] two_chunks_run(2,3,4,6,7) by (simp add: two_chunks_def)

text \<open>Nothing touches a query that is finished.\<close>

lemma finished_stable_step:
  assumes "event_ok c e" "q \<in> set (vc_used c)" "q \<notin> set (vc_running c)" "q \<notin> set (vc_pending c)"
    and "distinct (vc_pending c)"
  shows "q \<in> set (vc_used (vis_step e c)) \<and> q \<notin> set (vc_running (vis_step e c)) \<and> q \<notin> set (vc_pending (vis_step e c))
    \<and> vc_queries (vis_step e c) q = vc_queries c q \<and> vc_expected (vis_step e c) q = vc_expected c q"
  using assms
  by (cases e)
    (auto simp: draw_def bumpVisibilityResultOffset_def Let_def beginVisibilityResultQuery_def
      endVisibilityResultQuery_def flush_queries_def vro_reset_def fold_issue dest: notin_set_remove1 split: prod.splits)

lemma finished_stable:
  "vis_inv n c \<Longrightarrow> events_ok c es \<Longrightarrow> n + length es + 1 < 2 ^ 32 \<Longrightarrow> q \<in> set (vc_used c) \<Longrightarrow>
     q \<notin> set (vc_running c) \<Longrightarrow> q \<notin> set (vc_pending c) \<Longrightarrow>
     vc_queries (fold vis_step es c) q = vc_queries c q \<and> vc_expected (fold vis_step es c) q = vc_expected c q"
proof (induction es arbitrary: n c)
  case (Cons e es)
  have "vis_inv (n + 1) (vis_step e c)" by (rule vis_inv_step) (use Cons.prems in auto)
  moreover have "distinct (vc_pending c)" using Cons.prems(1) by (simp add: vis_inv_def context_inv_def)
  note finished_stable_step [OF _ Cons.prems(4-6) this, of e]
  ultimately show ?case using Cons.IH [of "n + 1" "vis_step e c"] Cons.prems by simp
qed simp

definition empty_last_chunk :: "u64 \<Rightarrow> vis_event list" where
  "empty_last_chunk x = [Begin_encoder, Begin_query 0, Draw x, End_encoder, Flush, End_query 0, Flush]"

lemma chunk_ids: "\<not> (2 :: u64) \<le> 1"
  by (simp add: word_le_nat_alt)

lemma empty_last_chunk_run:
  "events_ok vc_new (empty_last_chunk x)"
  "vq_getValue (vc_queries (vis_run (empty_last_chunk x)) 0) = None"
  "vc_expected (vis_run (empty_last_chunk x)) 0 = x"
  "vc_used (vis_run (empty_last_chunk x)) = [0]" "vc_running (vis_run (empty_last_chunk x)) = []"
  "vc_pending (vis_run (empty_last_chunk x)) = []"
  by (simp_all add: empty_last_chunk_def vis_exec chunk_ids)

lemma events_ok_append: "events_ok c (es @ es') \<longleftrightarrow> events_ok c es \<and> events_ok (fold vis_step es c) es'"
  by (induction es arbitrary: c) auto

text \<open>A query that counted samples in one chunk and ends in a chunk without any counter never
  becomes available: the flush makes no readback when there is no counter, but drops the query from
  the pending list, and whatever follows, \<open>getValue\<close> fails although the answer is known.\<close>

theorem empty_last_chunk_loses_value:
  assumes "events_ok vc_new (empty_last_chunk x @ es)" "length es + 8 < 2 ^ 32"
  shows "vq_getValue (vc_queries (vis_run (empty_last_chunk x @ es)) 0) = None
    \<and> vc_expected (vis_run (empty_last_chunk x @ es)) 0 = x"
proof -
  have len: "length (empty_last_chunk x) = 7" by (simp add: empty_last_chunk_def)
  have "vis_inv 7 (vis_run (empty_last_chunk x))"
    using vis_inv_run [OF empty_last_chunk_run(1), of x] by (simp add: len)
  from finished_stable [OF this, of es 0] show ?thesis
    using assms empty_last_chunk_run [of x] by (simp add: events_ok_append vis_run_def)
qed

lemma empty_last_chunk_loses_value_witness:
  "vq_getValue (vc_queries (vis_run (empty_last_chunk 5 @ [Begin_encoder, Begin_query 1, Draw 3, End_query 1, End_encoder, Flush])) 0) = None"
proof -
  let ?es = "[Begin_encoder, Begin_query 1, Draw 3, End_query 1, End_encoder, Flush]"
  have "events_ok vc_new (empty_last_chunk 5 @ ?es)" by code_simp
  from empty_last_chunk_loses_value [OF this] show ?thesis by simp
qed

subsection \<open>Timestamps in order\<close>

definition ts_inv :: "ts_event list \<Rightarrow> bool \<times> ts_state \<Rightarrow> bool" where
  "ts_inv es = (\<lambda>(last, s). map fst (tq_queries s) = sampled es \<and> sorted (map (unat \<circ> snd) (tq_queries s))
     \<and> (\<forall>x \<in> set (tq_queries s). unat (snd x) < unat (tq_num_samples s))
     \<and> unat (tq_num_samples s) \<le> length es \<and> (last \<longrightarrow> tq_num_samples s \<noteq> 0))"

lemma sampled_append: "sampled (es @ es') = sampled es @ sampled es'"
  by (induction es rule: sampled.induct) auto

lemma ts_inv_step:
  assumes "ts_inv es x" "length es + 1 < 2 ^ 64"
  shows "ts_inv (es @ [e]) (ts_step e x)"
proof -
  obtain last s where x: "x = (last, s)" by fastforce
  let ?n = "tq_num_samples s"
  have plus: "unat (?n + 1) = unat ?n + 1" using assms by (simp add: ts_inv_def x word_nat)
  show ?thesis
  proof (cases e)
    case (Sample q)
    show ?thesis
    proof (cases last)
      case True
      then have "unat (?n - 1) = unat ?n - 1" "0 < unat ?n"
        using assms by (auto simp: ts_inv_def x unat_sub word_le_nat_alt Suc_le_eq unat_gt_0)
      then show ?thesis
        using assms True by (auto simp: ts_inv_def x Sample sampleTimestamp_def ts_coalesceQuery_def sampled_append
            sorted_append)
    next
      case False
      then show ?thesis
        using assms plus by (auto simp: ts_inv_def x Sample sampleTimestamp_def ts_addQuery_def sampled_append
            sorted_append less_SucI unat_eq_0 [symmetric])
    qed
  qed (use assms in \<open>auto simp: ts_inv_def x sampled_append\<close>)
qed

lemma ts_inv_chunk: "length es < 2 ^ 64 \<Longrightarrow> ts_inv es (ts_chunk es)"
proof (induction es rule: rev_induct)
  case Nil
  then show ?case by (simp add: ts_inv_def ts_chunk_def ts_new_state_def)
next
  case (snoc e es)
  then show ?case using ts_inv_step [of es "ts_chunk es" e] by (simp add: ts_chunk_def)
qed

lemma ts_readback_at:
  "distinct (map fst qs) \<Longrightarrow> (q, i) \<in> set qs \<Longrightarrow> ts_readback qs results f q = results ! unat i"
proof (induction qs arbitrary: f)
  case (Cons x qs)
  have other: "q \<notin> fst ` set qs' \<Longrightarrow> ts_readback qs' results g q = g q" for qs' g
    by (induction qs' arbitrary: g) (auto simp: ts_readback_def)
  show ?case using Cons other by (cases x) (force simp: ts_readback_def)
qed simp

text \<open>Timestamps taken in a chunk come back in order: the flush hands over one sample slot per
  group of adjacent samples and starts anew, every slot a query refers to exists, and when the GPU
  samples in order, a query issued later never reads a smaller time than an earlier one.\<close>

theorem timestamps_in_order:
  assumes "length es < 2 ^ 64" "distinct (sampled es)"
    and "ts_flush (snd (ts_chunk es)) = (Some (n, qs), s')" "length results = unat n" "sorted results"
    and "i \<le> j" "j < length (sampled es)"
  shows "ts_readback qs results f (sampled es ! i) \<le> ts_readback qs results f (sampled es ! j)
    \<and> (\<forall>(q, k) \<in> set qs. unat k < length results) \<and> s' = ts_new_state"
proof -
  obtain last s where c: "ts_chunk es = (last, s)" by fastforce
  have inv: "ts_inv es (last, s)" using ts_inv_chunk [OF assms(1)] c by simp
  have fl: "n = tq_num_samples s" "qs = tq_queries s" "s' = ts_new_state"
    using assms(3) c by (auto simp: ts_flush_def ts_new_state_def split: if_splits)
  have fst: "map fst qs = sampled es" and ord: "sorted (map (unat \<circ> snd) qs)"
    and lt: "\<And>x. x \<in> set qs \<Longrightarrow> unat (snd x) < length results"
    using inv fl assms(4) by (auto simp: ts_inv_def)
  have len: "length qs = length (sampled es)" using fst by (metis length_map)
  have at: "ts_readback qs results f (sampled es ! k) = results ! unat (snd (qs ! k))" if "k < length qs" for k
    using that fst assms(2) by (intro ts_readback_at) (auto simp: fst [symmetric] in_set_conv_nth)
  have "unat (snd (qs ! i)) \<le> unat (snd (qs ! j))" using sorted_nth_mono [OF ord assms(6)] assms(6,7) len by simp
  then have "results ! unat (snd (qs ! i)) \<le> results ! unat (snd (qs ! j))"
    using assms(5,7) len lt [of "qs ! j"] by (intro sorted_nth_mono) auto
  then show ?thesis using at assms(6,7) len lt fl(3) by auto
qed

lemma timestamps_in_order_witness:
  "ts_readback [(7, 0), (8, 0), (9, 1)] [100, 200] (\<lambda>q. 0) 7 \<le> ts_readback [(7, 0), (8, 0), (9, 1)] [100, 200] (\<lambda>q. 0) (9 :: nat)"
proof -
  let ?es = "[Sample 7, Sample 8, Other_pass, Sample 9]"
  have fl: "ts_flush (snd (ts_chunk ?es)) = (Some (2, [(7, 0), (8, 0), (9, 1)]), ts_new_state)"
    by (simp add: ts_chunk_def ts_new_state_def sampleTimestamp_def ts_coalesceQuery_def ts_addQuery_def ts_flush_def)
  show ?thesis
    using timestamps_in_order [OF _ _ fl, of "[100, 200]" 0 2 "\<lambda>q. 0"] by simp
qed

end
