(* ===== verification/Textures.thy ===== *)
theory Textures
  imports Subresource FormatTables
begin

text \<open>
  Textures and their views: \<open>TextureViewKey\<close>, \<open>Texture\<close>, \<open>TextureView\<close> and
  \<open>RenamableTexturePool\<close> of src/src/dxmt/dxmt_texture.hpp and dxmt_texture.cpp. A texture keeps a
  list of view descriptors that only grows; a key names a place in it. Every allocation of the
  texture caches the views of the descriptors it has seen so far, and catches up when a view is
  asked for. Metal textures are a type parameter, their format, usage and the creation of views
  functions on it.

  The main results: a key stays valid, and names the descriptor it was made for, whatever is
  requested later; equal requests give equal keys; \<open>view\<close> finds the view of the key on every
  allocation; the array test replaces a view by one of the right kind over the same levels.
\<close>

subsection \<open>Enumerations\<close>

abbreviation WMTTextureType1D :: u32 where "WMTTextureType1D \<equiv> 0"
abbreviation WMTTextureType1DArray :: u32 where "WMTTextureType1DArray \<equiv> 1"
abbreviation WMTTextureType2D :: u32 where "WMTTextureType2D \<equiv> 2"
abbreviation WMTTextureType2DArray :: u32 where "WMTTextureType2DArray \<equiv> 3"
abbreviation WMTTextureType2DMultisample :: u32 where "WMTTextureType2DMultisample \<equiv> 4"
abbreviation WMTTextureTypeCube :: u32 where "WMTTextureTypeCube \<equiv> 5"
abbreviation WMTTextureTypeCubeArray :: u32 where "WMTTextureTypeCubeArray \<equiv> 6"
abbreviation WMTTextureType3D :: u32 where "WMTTextureType3D \<equiv> 7"
abbreviation WMTTextureType2DMultisampleArray :: u32 where "WMTTextureType2DMultisampleArray \<equiv> 8"
abbreviation WMTTextureTypeTextureBuffer :: u32 where "WMTTextureTypeTextureBuffer \<equiv> 9"
abbreviation WMTTextureUsageUnknown :: u32 where "WMTTextureUsageUnknown \<equiv> 0"
abbreviation WMTTextureUsageRenderTarget :: u32 where "WMTTextureUsageRenderTarget \<equiv> 4"

subsection \<open>Keys\<close>

text \<open>The bit-fields of the key, as the values they hold.\<close>

record view_key =
  vk_index :: nat \<comment> \<open>28 bits\<close>
  vk_mip_count :: nat
  vk_mip_start :: nat
  vk_array_start :: nat
  vk_mip_end :: nat
  vk_array_end :: nat

definition view_key_of :: "texture_view_descriptor \<Rightarrow> nat \<Rightarrow> nat \<Rightarrow> view_key" where
  "view_key_of d index total_mip_count =
     \<lparr> vk_index = take_bit 28 index, vk_mip_count = take_bit 4 total_mip_count,
       vk_mip_start = take_bit 4 (firstMiplevel d), vk_array_start = take_bit 12 (firstArraySlice d),
       vk_mip_end = take_bit 4 (firstMiplevel d + miplevelCount d),
       vk_array_end = take_bit 12 (firstArraySlice d + arraySize d) \<rparr>"

subsection \<open>Textures\<close>

record texture_info =
  ti_pixel_format :: u32
  ti_width :: u32
  ti_height :: u32
  ti_array_length :: u32
  ti_type :: u32
  ti_mipmap_level_count :: u32
  ti_usage :: u32

record texture =
  tx_info :: texture_info
  viewDescriptors :: "texture_view_descriptor list"
  tx_version :: nat
  fullView :: view_key

definition arrayLength :: "texture_info \<Rightarrow> u32" where
  "arrayLength i = (if ti_type i = WMTTextureTypeCubeArray \<or> ti_type i = WMTTextureTypeCube
                    then ti_array_length i * 6 else ti_array_length i)"

text \<open>The constructor; the counts are cut to the bit-fields of the descriptor.\<close>

definition full_descriptor :: "texture_info \<Rightarrow> texture_view_descriptor" where
  "full_descriptor i = \<lparr> vd_format = take_bit 24 (ti_pixel_format i), vd_type = take_bit 8 (ti_type i),
     firstMiplevel = 0, miplevelCount = take_bit 4 (unat (ti_mipmap_level_count i)),
     firstArraySlice = 0, arraySize = take_bit 12 (unat (arrayLength i)), intendedUsage = WMTTextureUsageUnknown \<rparr>"

definition new_texture :: "texture_info \<Rightarrow> texture" where
  "new_texture i = \<lparr> tx_info = i, viewDescriptors = [full_descriptor i], tx_version = 1,
     fullView = view_key_of (full_descriptor i) 0 (unat (ti_mipmap_level_count i)) \<rparr>"

definition view_width :: "texture \<Rightarrow> view_key \<Rightarrow> u32" where
  "view_width t k = max (drop_bit (vk_mip_start k) (ti_width (tx_info t))) 1"

definition view_height :: "texture \<Rightarrow> view_key \<Rightarrow> u32" where
  "view_height t k = max (drop_bit (vk_mip_start k) (ti_height (tx_info t))) 1"

definition view_arrayLength :: "view_key \<Rightarrow> u32" where
  "view_arrayLength k = of_nat (vk_array_end k) - of_nat (vk_array_start k)"

definition view_textureType :: "texture \<Rightarrow> view_key \<Rightarrow> u32" where
  "view_textureType t k = vd_type (viewDescriptors t ! vk_index k)"

definition view_pixelFormat :: "texture \<Rightarrow> view_key \<Rightarrow> u32" where
  "view_pixelFormat t k = vd_format (viewDescriptors t ! vk_index k)"

text \<open>The loop of \<open>createView\<close>: the first descriptor equal in every field, or the version.\<close>

fun find_view :: "texture \<Rightarrow> texture_view_descriptor \<Rightarrow> nat list \<Rightarrow> nat" where
  "find_view t d [] = tx_version t"
| "find_view t d (i # is) =
     (let v = viewDescriptors t ! i in
      if vd_format v \<noteq> vd_format d then find_view t d is
      else if vd_type v \<noteq> vd_type d then find_view t d is
      else if firstMiplevel v \<noteq> firstMiplevel d then find_view t d is
      else if miplevelCount v \<noteq> miplevelCount d then find_view t d is
      else if firstArraySlice v \<noteq> firstArraySlice d then find_view t d is
      else if arraySize v \<noteq> arraySize d then find_view t d is
      else if intendedUsage v \<noteq> intendedUsage d then find_view t d is
      else i)"

definition createView :: "texture_view_descriptor \<Rightarrow> texture \<Rightarrow> view_key \<times> texture" where
  "createView d t =
     (let i = find_view t d [0..<tx_version t];
          key = view_key_of d i (unat (ti_mipmap_level_count (tx_info t)))
      in if i < tx_version t then (key, t)
         else (key, t\<lparr> viewDescriptors := viewDescriptors t @ [d], tx_version := tx_version t + 1 \<rparr>))"

definition ARRAY_TYPE_MASK :: u32 where "ARRAY_TYPE_MASK = 0b0101001010"

definition is_array_type :: "u32 \<Rightarrow> bool" where
  "is_array_type ty \<longleftrightarrow> push_bit (unat ty) 1 AND ARRAY_TYPE_MASK \<noteq> 0"

definition other_kind :: "texture_view_descriptor \<Rightarrow> texture_view_descriptor option" where
  "other_kind v =
     switch
      [([WMTTextureType1D], Some (v\<lparr> vd_type := WMTTextureType1DArray, arraySize := 1 \<rparr>)),
       ([WMTTextureType1DArray], Some (v\<lparr> vd_type := WMTTextureType1D, arraySize := 1 \<rparr>)),
       ([WMTTextureType2D], Some (v\<lparr> vd_type := WMTTextureType2DArray, arraySize := 1 \<rparr>)),
       ([WMTTextureType2DArray], Some (v\<lparr> vd_type := WMTTextureType2D, arraySize := 1 \<rparr>)),
       ([WMTTextureType2DMultisample], Some (v\<lparr> vd_type := WMTTextureType2DMultisampleArray, arraySize := 1 \<rparr>)),
       ([WMTTextureType2DMultisampleArray], Some (v\<lparr> vd_type := WMTTextureType2DMultisample, arraySize := 1 \<rparr>)),
       ([WMTTextureTypeCube], Some (v\<lparr> vd_type := WMTTextureTypeCubeArray, arraySize := 6 \<rparr>)),
       ([WMTTextureTypeCubeArray], Some (v\<lparr> vd_type := WMTTextureTypeCube, arraySize := 6 \<rparr>))]
      None (vd_type v)"

definition checkViewUseArray :: "view_key \<Rightarrow> bool \<Rightarrow> texture \<Rightarrow> view_key \<times> texture" where
  "checkViewUseArray key isArray t =
     (let view = viewDescriptors t ! vk_index key in
      if is_array_type (vd_type view) \<noteq> isArray then
        (case other_kind view of None \<Rightarrow> (key, t) | Some d \<Rightarrow> createView d t)
      else (key, t))"

definition checkViewUseFormat :: "view_key \<Rightarrow> u32 \<Rightarrow> texture \<Rightarrow> view_key \<times> texture" where
  "checkViewUseFormat key format t =
     (let view = viewDescriptors t ! vk_index key in
      if vd_format view \<noteq> format then createView (view\<lparr> vd_format := take_bit 24 format \<rparr>) t else (key, t))"

subsection \<open>Allocations and their views\<close>

text \<open>What Metal provides: format and usage of a texture, and the creation of a view (format, type,
  first level, levels, first slice, slices), which returns the texture, if any, and its GPU
  resource id.\<close>

record 'm metal =
  mt_pixelFormat :: "'m \<Rightarrow> u32"
  mt_usage :: "'m \<Rightarrow> u32"
  mt_newTextureView :: "'m option \<Rightarrow> u32 \<Rightarrow> u32 \<Rightarrow> nat \<Rightarrow> nat \<Rightarrow> nat \<Rightarrow> nat \<Rightarrow> 'm option \<times> u64"

record 'm texture_view =
  tv_texture :: "'m option"
  tv_gpuResourceID :: u64
  tv_key :: view_key

record 'm texture_allocation =
  ta_obj :: "'m option"
  ta_gpuResourceID :: u64
  ta_version :: nat
  ta_cached_view :: "'m texture_view list"

definition new_allocation :: "'m option \<Rightarrow> u64 \<Rightarrow> 'm texture_allocation" where
  "new_allocation obj gpu = \<lparr> ta_obj = obj, ta_gpuResourceID = gpu, ta_version = 0, ta_cached_view = [] \<rparr>"

definition full_texture_view :: "texture \<Rightarrow> 'm texture_allocation \<Rightarrow> 'm texture_view" where
  "full_texture_view t a = \<lparr> tv_texture = ta_obj a, tv_gpuResourceID = ta_gpuResourceID a, tv_key = fullView t \<rparr>"

definition compressed_srgb_srv :: "u32 \<Rightarrow> texture_view_descriptor \<Rightarrow> bool" where
  "compressed_srgb_srv parent_format d \<longleftrightarrow>
     \<not> intendedUsage d AND WMTTextureUsageRenderTarget \<noteq> 0 \<and> IsBlockCompressionFormat (vd_format d)
     \<and> Is_sRGBVariant (vd_format d) \<and> Forget_sRGB (vd_format d) = parent_format"

definition new_texture_view ::
  "'m metal \<Rightarrow> texture \<Rightarrow> 'm texture_allocation \<Rightarrow> nat \<Rightarrow> texture_view_descriptor \<Rightarrow> 'm texture_view"
where
  "new_texture_view mt t a index d =
     (let parent = ta_obj a; info = tx_info t;
          parent_format = (case parent of None \<Rightarrow> WMTPixelFormatInvalid | Some p \<Rightarrow> mt_pixelFormat mt p);
          compressed = compressed_srgb_srv parent_format d;
          full_parent_view = compressed \<and> vd_type d = ti_type info \<and> firstMiplevel d = 0
            \<and> miplevelCount d = unat (ti_mipmap_level_count info) \<and> firstArraySlice d = 0
            \<and> arraySize d = unat (arrayLength info);
          whole = \<lparr> tv_texture = parent, tv_gpuResourceID = ta_gpuResourceID a,
                    tv_key = view_key_of d index (unat (ti_mipmap_level_count info)) \<rparr>
      in if full_parent_view then whole
         else
          (case mt_newTextureView mt parent (if compressed then parent_format else vd_format d) (vd_type d)
                  (firstMiplevel d) (miplevelCount d) (firstArraySlice d) (arraySize d) of
             (view, gpu) \<Rightarrow>
               if intendedUsage d AND WMTTextureUsageRenderTarget \<noteq> 0 \<and> view \<noteq> None
                  \<and> \<not> mt_usage mt (the view) AND WMTTextureUsageRenderTarget \<noteq> 0 \<and> parent \<noteq> None
                  \<and> mt_usage mt (the parent) AND WMTTextureUsageRenderTarget \<noteq> 0
                  \<and> mt_pixelFormat mt (the parent) = mt_pixelFormat mt (the view)
                  \<and> firstMiplevel d = 0 \<and> firstArraySlice d = 0
               then whole
               else whole\<lparr> tv_texture := view, tv_gpuResourceID := gpu \<rparr>))"

definition prepareAllocationViews ::
  "'m metal \<Rightarrow> texture \<Rightarrow> 'm texture_allocation \<Rightarrow> 'm texture_allocation"
where
  "prepareAllocationViews mt t a =
     (let a = (if ta_version a < 1
               then a\<lparr> ta_cached_view := ta_cached_view a @ [full_texture_view t a], ta_version := 1 \<rparr> else a)
      in a\<lparr> ta_cached_view := ta_cached_view a
               @ map (\<lambda>v. new_texture_view mt t a v (viewDescriptors t ! v)) [ta_version a..<tx_version t],
            ta_version := tx_version t \<rparr>)"

definition texture_view_of :: "'m metal \<Rightarrow> texture \<Rightarrow> view_key \<Rightarrow> 'm texture_allocation
    \<Rightarrow> 'm texture_view \<times> 'm texture_allocation" where
  "texture_view_of mt t k a =
     (let a = (if ta_version a \<noteq> tx_version t then prepareAllocationViews mt t a else a)
      in (ta_cached_view a ! vk_index k, a))"

subsection \<open>The renaming pool\<close>

text \<open>Allocations are numbered in the order Metal makes them; \<open>rp_fresh\<close> is the next number.\<close>

record texture_pool =
  rp_allocations :: "nat option list"
  rp_last_frame :: u64
  rp_current_index :: u32
  rp_fresh :: nat

definition new_pool :: "nat \<Rightarrow> texture_pool" where
  "new_pool capacity = \<lparr> rp_allocations = replicate capacity None, rp_last_frame = 0, rp_current_index = 0,
     rp_fresh = 0 \<rparr>"

definition pool_getNext :: "u64 \<Rightarrow> texture_pool \<Rightarrow> nat \<times> texture_pool" where
  "pool_getNext frame p =
     (let p = (if rp_last_frame p < frame then p\<lparr> rp_last_frame := frame, rp_current_index := 0 \<rparr> else p);
          i = unat (rp_current_index p) mod length (rp_allocations p);
          p = p\<lparr> rp_current_index := rp_current_index p + 1 \<rparr>
      in (case rp_allocations p ! i of
            Some a \<Rightarrow> (a, p)
          | None \<Rightarrow> (rp_fresh p, p\<lparr> rp_allocations := (rp_allocations p)[i := Some (rp_fresh p)],
                                   rp_fresh := rp_fresh p + 1 \<rparr>)))"

subsection \<open>Finding a descriptor\<close>

lemma find_view_eq:
  "find_view t d is = (case filter (\<lambda>i. viewDescriptors t ! i = d) is of [] \<Rightarrow> tx_version t | i # _ \<Rightarrow> i)"
proof (induction "is")
  case (Cons i "is")
  have "viewDescriptors t ! i = d \<longleftrightarrow> vd_format (viewDescriptors t ! i) = vd_format d
      \<and> vd_type (viewDescriptors t ! i) = vd_type d \<and> firstMiplevel (viewDescriptors t ! i) = firstMiplevel d
      \<and> miplevelCount (viewDescriptors t ! i) = miplevelCount d
      \<and> firstArraySlice (viewDescriptors t ! i) = firstArraySlice d \<and> arraySize (viewDescriptors t ! i) = arraySize d
      \<and> intendedUsage (viewDescriptors t ! i) = intendedUsage d"
    by (auto intro: texture_view_descriptor.equality)
  then show ?case using Cons.IH by (simp add: Let_def)
qed simp

definition tex_ok :: "texture \<Rightarrow> bool" where
  "tex_ok t \<longleftrightarrow> tx_version t = length (viewDescriptors t) \<and> viewDescriptors t \<noteq> [] \<and> distinct (viewDescriptors t)
     \<and> hd (viewDescriptors t) = full_descriptor (tx_info t)
     \<and> fullView t = view_key_of (full_descriptor (tx_info t)) 0 (unat (ti_mipmap_level_count (tx_info t)))"

text \<open>A key of the texture: what \<open>createView\<close> makes of one of its descriptors.\<close>

definition key_ok :: "texture \<Rightarrow> view_key \<Rightarrow> bool" where
  "key_ok t k \<longleftrightarrow> (\<exists>i < length (viewDescriptors t).
     k = view_key_of (viewDescriptors t ! i) i (unat (ti_mipmap_level_count (tx_info t))))"

definition tex_grows :: "texture \<Rightarrow> texture \<Rightarrow> bool" where
  "tex_grows t t' \<longleftrightarrow> tx_info t' = tx_info t \<and> fullView t' = fullView t
     \<and> (\<exists>ds. viewDescriptors t' = viewDescriptors t @ ds \<and> length ds \<le> 1)"

lemma tex_ok_new: "tex_ok (new_texture i)"
  by (simp add: tex_ok_def new_texture_def)

lemma key_ok_grows: "key_ok t k \<Longrightarrow> tex_grows t t' \<Longrightarrow> key_ok t' k"
  by (fastforce simp: key_ok_def tex_grows_def nth_append)

lemma tex_grows_refl [simp]: "tex_grows t t"
  by (simp add: tex_grows_def)

lemma key_index:
  assumes "key_ok t k" "length (viewDescriptors t) < 2 ^ 28"
  shows "vk_index k < length (viewDescriptors t)"
    and "k = view_key_of (viewDescriptors t ! vk_index k) (vk_index k) (unat (ti_mipmap_level_count (tx_info t)))"
proof -
  obtain i where i: "i < length (viewDescriptors t)"
    "k = view_key_of (viewDescriptors t ! i) i (unat (ti_mipmap_level_count (tx_info t)))"
    using assms(1) by (auto simp: key_ok_def)
  then have "vk_index k = i" using assms(2) by (simp add: view_key_of_def take_bit_nat_eq_self_iff)
  then show "vk_index k < length (viewDescriptors t)"
    "k = view_key_of (viewDescriptors t ! vk_index k) (vk_index k) (unat (ti_mipmap_level_count (tx_info t)))"
    using i by simp_all
qed

lemma createView_ok:
  assumes "tex_ok t" "createView d t = (k, t')" "length (viewDescriptors t) + 1 < 2 ^ 28"
  shows "tex_ok t'" "tex_grows t t'" "key_ok t' k" "viewDescriptors t' ! vk_index k = d"
proof -
  let ?n = "length (viewDescriptors t)"
  have n: "tx_version t = ?n" "viewDescriptors t \<noteq> []" using assms(1) by (auto simp: tex_ok_def)
  let ?i = "find_view t d [0..<?n]"
  have k: "k = view_key_of d ?i (unat (ti_mipmap_level_count (tx_info t)))"
    and t': "t' = (if ?i < ?n then t else t\<lparr> viewDescriptors := viewDescriptors t @ [d], tx_version := ?n + 1 \<rparr>)"
    using assms(2) by (auto simp: createView_def Let_def n(1) split: if_splits)
  have "?i < ?n \<and> viewDescriptors t ! ?i = d \<or> ?i = ?n \<and> d \<notin> set (viewDescriptors t)"
  proof (cases "filter (\<lambda>i. viewDescriptors t ! i = d) [0..<?n]")
    case Nil
    then show ?thesis by (auto simp: find_view_eq n(1) filter_empty_conv in_set_conv_nth)
  next
    case (Cons i rest)
    then have "i \<in> set (filter (\<lambda>i. viewDescriptors t ! i = d) [0..<?n])" by (metis list.set_intros(1))
    then have "i < ?n \<and> viewDescriptors t ! i = d" unfolding set_filter by simp
    then show ?thesis using Cons by (simp add: find_view_eq n(1))
  qed
  then consider (old) "?i < ?n" "viewDescriptors t ! ?i = d" "t' = t"
    | (new) "?i = ?n" "d \<notin> set (viewDescriptors t)"
        "t' = t\<lparr> viewDescriptors := viewDescriptors t @ [d], tx_version := ?n + 1 \<rparr>"
    using t' by auto
  then have *: "tex_ok t' \<and> tex_grows t t' \<and> ?i < length (viewDescriptors t') \<and> viewDescriptors t' ! ?i = d"
    using assms(1) n(2) by cases (auto simp: tex_ok_def tex_grows_def)
  then show "tex_ok t'" "tex_grows t t'" by auto
  show ko: "key_ok t' k" using * k by (auto simp: key_ok_def tex_grows_def intro!: exI [of _ ?i])
  have "?i < 2 ^ 28" using * assms(3) by (auto simp: tex_grows_def)
  then have "vk_index k = ?i" unfolding k by (simp add: view_key_of_def take_bit_nat_eq_self_iff)
  then show "viewDescriptors t' ! vk_index k = d" using * by simp
qed

subsection \<open>Sequences of requests\<close>

text \<open>A key is referred to by its place among the keys handed out, the full view being the first.\<close>

datatype view_request = Create texture_view_descriptor | Use_array nat bool | Use_format nat u32

fun request_key :: "view_request \<Rightarrow> view_key list \<Rightarrow> texture \<Rightarrow> view_key \<times> texture" where
  "request_key (Create d) ks t = createView d t"
| "request_key (Use_array j b) ks t = checkViewUseArray (ks ! j) b t"
| "request_key (Use_format j f) ks t = checkViewUseFormat (ks ! j) f t"

fun request_ok :: "view_request \<Rightarrow> nat \<Rightarrow> bool" where
  "request_ok (Create d) n \<longleftrightarrow> True"
| "request_ok (Use_array j b) n \<longleftrightarrow> j < n"
| "request_ok (Use_format j f) n \<longleftrightarrow> j < n"

text \<open>The texture, the keys, and one allocation on which views are looked up in between.\<close>

datatype texture_event = Request view_request | Look nat

type_synonym 'm texture_system = "texture \<times> view_key list \<times> 'm texture_allocation"

fun texture_step :: "'m metal \<Rightarrow> texture_event \<Rightarrow> 'm texture_system \<Rightarrow> 'm texture_system" where
  "texture_step mt (Request r) (t, ks, a) = (case request_key r ks t of (k, t') \<Rightarrow> (t', ks @ [k], a))"
| "texture_step mt (Look j) (t, ks, a) = (t, ks, snd (texture_view_of mt t (ks ! j) a))"

fun event_fits :: "texture_event \<Rightarrow> 'm texture_system \<Rightarrow> bool" where
  "event_fits (Request r) (t, ks, a) \<longleftrightarrow> request_ok r (length ks)"
| "event_fits (Look j) (t, ks, a) \<longleftrightarrow> j < length ks"

fun events_fit :: "'m metal \<Rightarrow> texture_event list \<Rightarrow> 'm texture_system \<Rightarrow> bool" where
  "events_fit mt [] s \<longleftrightarrow> True"
| "events_fit mt (e # es) s \<longleftrightarrow> event_fits e s \<and> events_fit mt es (texture_step mt e s)"

definition texture_start :: "texture_info \<Rightarrow> 'm option \<Rightarrow> u64 \<Rightarrow> 'm texture_system" where
  "texture_start i obj gpu = (new_texture i, [fullView (new_texture i)], new_allocation obj gpu)"

definition view_at :: "'m metal \<Rightarrow> texture \<Rightarrow> 'm texture_allocation \<Rightarrow> nat \<Rightarrow> 'm texture_view" where
  "view_at mt t a v = (if v = 0 then full_texture_view t a else new_texture_view mt t a v (viewDescriptors t ! v))"

definition alloc_ok :: "'m metal \<Rightarrow> texture \<Rightarrow> 'm texture_allocation \<Rightarrow> bool" where
  "alloc_ok mt t a \<longleftrightarrow> ta_version a \<le> tx_version t \<and> ta_cached_view a = map (view_at mt t a) [0..<ta_version a]"

definition system_ok :: "'m metal \<Rightarrow> nat \<Rightarrow> 'm texture_system \<Rightarrow> bool" where
  "system_ok mt n = (\<lambda>(t, ks, a). tex_ok t \<and> length (viewDescriptors t) \<le> n + 1 \<and> length ks \<le> n + 1
     \<and> list_all (key_ok t) ks \<and> alloc_ok mt t a)"

lemma request_ok_step:
  assumes t: "tex_ok t" and ks: "list_all (key_ok t) ks" and r: "request_ok r (length ks)"
    and eq: "request_key r ks t = (k, t')" and n: "length (viewDescriptors t) + 1 < 2 ^ 28"
  shows "tex_ok t' \<and> tex_grows t t' \<and> key_ok t' k"
proof -
  have create: "tex_ok t' \<and> tex_grows t t' \<and> key_ok t' k" if "createView d t = (k, t')" for d
    using createView_ok [OF t that n] by blast
  have old: "key_ok t (ks ! j)" if "j < length ks" for j using ks that by (simp add: list_all_length)
  show ?thesis
  proof (cases r)
    case (Create d)
    then show ?thesis using eq create by simp
  next
    case (Use_array j b)
    then show ?thesis using eq create old [of j] r t
      by (auto simp: checkViewUseArray_def Let_def split: if_splits option.splits)
  next
    case (Use_format j f)
    then show ?thesis using eq create old [of j] r t
      by (auto simp: checkViewUseFormat_def Let_def split: if_splits)
  qed
qed

lemma new_texture_view_cong:
  assumes "tx_info t' = tx_info t" "ta_obj a' = ta_obj a" "ta_gpuResourceID a' = ta_gpuResourceID a"
  shows "new_texture_view mt t' a' = new_texture_view mt t a"
  unfolding fun_eq_iff new_texture_view_def assms by (rule allI)+ (rule refl)

lemma view_at_stable:
  assumes "tex_grows t t'" "ta_obj a' = ta_obj a" "ta_gpuResourceID a' = ta_gpuResourceID a"
    and "v < length (viewDescriptors t)"
  shows "view_at mt t' a' v = view_at mt t a v"
proof -
  have "tx_info t' = tx_info t" using assms(1) by (simp add: tex_grows_def)
  note n = new_texture_view_cong [OF this assms(2,3), of mt]
  show ?thesis using assms
    by (auto simp: view_at_def n full_texture_view_def tex_grows_def nth_append)
qed

lemma alloc_ok_grows:
  assumes "alloc_ok mt t a" "tex_grows t t'" "tex_ok t" "tex_ok t'"
  shows "alloc_ok mt t' a"
proof -
  have "length (viewDescriptors t) \<le> length (viewDescriptors t')" using assms(2) by (auto simp: tex_grows_def)
  moreover have "map (view_at mt t' a) [0..<ta_version a] = map (view_at mt t a) [0..<ta_version a]"
    using assms by (intro map_cong) (auto simp: alloc_ok_def tex_ok_def intro: view_at_stable)
  ultimately show ?thesis using assms by (simp add: alloc_ok_def tex_ok_def)
qed

lemma prepare_ok:
  assumes t: "tex_ok t" and a: "alloc_ok mt t a"
  shows "alloc_ok mt t (prepareAllocationViews mt t a)" "ta_version (prepareAllocationViews mt t a) = tx_version t"
proof -
  let ?a = "prepareAllocationViews mt t a"
  have v: "0 < tx_version t" using t by (simp add: tex_ok_def)
  show ver: "ta_version ?a = tx_version t" by (simp add: prepareAllocationViews_def Let_def)
  have obj: "ta_obj ?a = ta_obj a" "ta_gpuResourceID ?a = ta_gpuResourceID a"
    by (simp_all add: prepareAllocationViews_def Let_def)
  note nv = new_texture_view_cong [of t t, OF refl, of _ a mt]
  have keep: "view_at mt t ?a = view_at mt t a"
    unfolding fun_eq_iff view_at_def full_texture_view_def nv [OF obj] obj by simp
  have same: "new_texture_view mt t (a\<lparr> ta_cached_view := cs, ta_version := m \<rparr>) = new_texture_view mt t a" for cs m
    by (rule nv) simp_all
  have tail: "map (\<lambda>v. new_texture_view mt t a v (viewDescriptors t ! v)) [m..<n] = map (view_at mt t a) [m..<n]"
    if "0 < m" for m n using that by (intro map_cong) (auto simp: view_at_def)
  have "ta_cached_view ?a = map (view_at mt t a) [0..<tx_version t]"
  proof (cases "ta_version a < 1")
    case True
    then have "ta_cached_view ?a = full_texture_view t a
        # map (\<lambda>v. new_texture_view mt t a v (viewDescriptors t ! v)) [1..<tx_version t]"
      using True a same [of 1] by (simp add: prepareAllocationViews_def alloc_ok_def)
    also have "\<dots> = map (view_at mt t a) (0 # [1..<tx_version t])" using tail [of 1] by (simp add: view_at_def)
    also have "0 # [1..<tx_version t] = [0..<tx_version t]" using v by (simp add: upt_conv_Cons)
    finally show ?thesis .
  next
    case False
    then have "ta_cached_view ?a = map (view_at mt t a) [0..<ta_version a]
        @ map (view_at mt t a) [ta_version a..<tx_version t]"
      using a tail [of "ta_version a" "tx_version t"] by (simp add: prepareAllocationViews_def alloc_ok_def)
    also have "\<dots> = map (view_at mt t a) [0..<tx_version t]"
      using a upt_add_eq_append [of 0 "ta_version a" "tx_version t - ta_version a"] by (simp add: alloc_ok_def)
    finally show ?thesis .
  qed
  then show "alloc_ok mt t ?a" by (simp add: alloc_ok_def ver keep)
qed

lemma texture_view_ok:
  assumes t: "tex_ok t" and a: "alloc_ok mt t a"
  shows "alloc_ok mt t (snd (texture_view_of mt t k a))"
    and "key_ok t k \<Longrightarrow> length (viewDescriptors t) < 2 ^ 28
      \<Longrightarrow> fst (texture_view_of mt t k a) = view_at mt t a (vk_index k)"
proof -
  let ?a = "snd (texture_view_of mt t k a)"
  have ok: "alloc_ok mt t ?a" and ver: "ta_version ?a = tx_version t"
    and obj: "ta_obj ?a = ta_obj a" "ta_gpuResourceID ?a = ta_gpuResourceID a"
    using prepare_ok [OF t a] a by (auto simp: texture_view_of_def Let_def prepareAllocationViews_def)
  show "alloc_ok mt t ?a" by (rule ok)
  assume "key_ok t k" and n: "length (viewDescriptors t) < 2 ^ 28"
  from key_index(1) [OF this] have i: "vk_index k < tx_version t" using t by (simp add: tex_ok_def)
  have "fst (texture_view_of mt t k a) = ta_cached_view ?a ! vk_index k"
    by (simp add: texture_view_of_def Let_def)
  also have "\<dots> = view_at mt t ?a (vk_index k)" using ok i ver by (simp add: alloc_ok_def)
  also have "\<dots> = view_at mt t a (vk_index k)"
    using i t obj by (intro view_at_stable) (auto simp: tex_ok_def)
  finally show "fst (texture_view_of mt t k a) = view_at mt t a (vk_index k)" .
qed

lemma system_ok_step:
  assumes "system_ok mt n s" "event_fits e s" "n + 2 < 2 ^ 28"
  shows "system_ok mt (n + 1) (texture_step mt e s)"
proof -
  obtain t ks a where s: "s = (t, ks, a)" by (cases s)
  have inv: "tex_ok t" "length (viewDescriptors t) \<le> n + 1" "length ks \<le> n + 1" "list_all (key_ok t) ks"
    "alloc_ok mt t a" using assms(1) by (auto simp: system_ok_def s)
  show ?thesis
  proof (cases e)
    case (Request r)
    obtain k t' where r: "request_key r ks t = (k, t')" by fastforce
    have "tex_ok t' \<and> tex_grows t t' \<and> key_ok t' k"
      by (rule request_ok_step [OF inv(1,4) _ r]) (use assms inv Request s in auto)
    then show ?thesis
      using inv alloc_ok_grows [OF inv(5) _ inv(1)]
      by (auto simp: system_ok_def s Request r list_all_iff tex_grows_def intro: key_ok_grows)
  next
    case (Look j)
    then show ?thesis using inv texture_view_ok(1) [OF inv(1,5)] by (simp add: system_ok_def s)
  qed
qed

lemma system_ok_run:
  "system_ok mt n s \<Longrightarrow> events_fit mt es s \<Longrightarrow> n + length es + 1 < 2 ^ 28
   \<Longrightarrow> system_ok mt (n + length es) (fold (texture_step mt) es s)"
proof (induction es arbitrary: n s)
  case (Cons e es)
  have "system_ok mt (n + 1) (texture_step mt e s)" by (rule system_ok_step) (use Cons.prems in auto)
  from Cons.IH [OF this] show ?case using Cons.prems by simp
qed simp

lemma system_ok_start: "system_ok mt 0 (texture_start i obj gpu)"
  using tex_ok_new [of i]
  by (auto simp: system_ok_def texture_start_def alloc_ok_def new_allocation_def key_ok_def new_texture_def)

lemma run_extends:
  "system_ok mt n s \<Longrightarrow> events_fit mt es s \<Longrightarrow> n + length es + 1 < 2 ^ 28 \<Longrightarrow>
     fold (texture_step mt) es s = s' \<Longrightarrow>
     (\<exists>ds. viewDescriptors (fst s') = viewDescriptors (fst s) @ ds) \<and> (\<exists>ks. fst (snd s') = fst (snd s) @ ks)
       \<and> tx_info (fst s') = tx_info (fst s)"
proof (induction es arbitrary: n s)
  case (Cons e es)
  obtain t ks a where s: "s = (t, ks, a)" by (cases s)
  let ?m = "texture_step mt e s"
  have "system_ok mt (n + 1) ?m" by (rule system_ok_step) (use Cons.prems in auto)
  note IH = Cons.IH [OF this]
  have "(\<exists>ds. viewDescriptors (fst ?m) = viewDescriptors t @ ds) \<and> (\<exists>ks'. fst (snd ?m) = ks @ ks') \<and> tx_info (fst ?m) = tx_info t"
  proof (cases e)
    case (Request r)
    obtain k t' where r: "request_key r ks t = (k, t')" by fastforce
    have "tex_grows t t'"
      using request_ok_step [OF _ _ _ r] Cons.prems by (auto simp: system_ok_def s Request)
    then show ?thesis by (auto simp: s Request r tex_grows_def)
  qed (simp add: s)
  then show ?case using IH Cons.prems by (auto simp: s)
qed simp

lemma createView_known:
  assumes t: "tex_ok t" "length (viewDescriptors t) + 1 < 2 ^ 28" and k: "key_ok t k"
    and d: "viewDescriptors t ! vk_index k = d"
  shows "createView d t = (k, t)"
proof -
  obtain k' t' where c: "createView d t = (k', t')" by fastforce
  note ok = createView_ok [OF t(1) c t(2)]
  have len: "length (viewDescriptors t) < 2 ^ 28" using t(2) by simp
  note ki = key_index [OF k len]
  have "d \<in> set (viewDescriptors t)" using ki(1) d by auto
  moreover have "t' = t \<or> viewDescriptors t' = viewDescriptors t @ [d]"
    using c by (auto simp: createView_def Let_def split: if_splits)
  ultimately have t': "t' = t" using ok(1) by (auto simp: tex_ok_def)
  have "vk_index k' = vk_index k"
    using ok(4) d ki(1) key_index(1) [OF ok(3)] len t(1) nth_eq_iff_index_eq unfolding t' tex_ok_def by metis
  then have "k' = k" using key_index(2) [OF ok(3)] ki(2) len unfolding t' by metis
  then show ?thesis using c t' by simp
qed

lemma view_at_key:
  assumes "tex_ok t" "key_ok t k" "length (viewDescriptors t) < 2 ^ 28"
  shows "tv_key (view_at mt t a (vk_index k)) = k"
proof -
  note ki = key_index [OF assms(2,3)]
  have "tv_key (new_texture_view mt t a v d) = view_key_of d v (unat (ti_mipmap_level_count (tx_info t)))" for v d
    by (simp add: new_texture_view_def Let_def split: prod.split)
  moreover have "viewDescriptors t ! 0 = full_descriptor (tx_info t)"
    using assms(1) unfolding tex_ok_def by (metis hd_conv_nth)
  ultimately show ?thesis
    using ki assms(1) by (auto simp: view_at_def full_texture_view_def tex_ok_def)
qed

subsection \<open>Properties\<close>

text \<open>C35: A view key never goes stale: after any sequence of view requests and look-ups on an
  allocation, the key that \<open>createView\<close> returned for a descriptor still names that descriptor,
  looking it up finds on the allocation the view made for it (whether the allocation had cached it or
  has to catch up), and asking for the same descriptor again returns the same key and adds nothing.\<close>

theorem view_key_stable:
  assumes "events_fit mt (es1 @ Request (Create d) # es2) (texture_start i obj gpu)"
    and "length es1 + length es2 + 4 < 2 ^ 28"
    and "fold (texture_step mt) es1 (texture_start i obj gpu) = (t1, ks1, a1)"
    and "fold (texture_step mt) (es1 @ Request (Create d) # es2) (texture_start i obj gpu) = (t, ks, a)"
    and "k = ks ! length ks1"
  shows "viewDescriptors t ! vk_index k = d \<and> tv_key (fst (texture_view_of mt t k a)) = k \<and> createView d t = (k, t)"
proof -
  let ?s0 = "texture_start i obj gpu"
  have fit: "events_fit mt es1 ?s0" "events_fit mt (Request (Create d) # es2) (t1, ks1, a1)"
  proof -
    have app: "events_fit mt (xs @ ys) s \<longleftrightarrow> events_fit mt xs s \<and> events_fit mt ys (fold (texture_step mt) xs s)" for xs ys s
      by (induction xs arbitrary: s) auto
    show "events_fit mt es1 ?s0" "events_fit mt (Request (Create d) # es2) (t1, ks1, a1)"
      using assms(1,3) by (simp_all add: app)
  qed
  have ok1: "system_ok mt (length es1) (t1, ks1, a1)"
    using system_ok_run [OF system_ok_start fit(1)] assms(2,3) by simp
  obtain k2 t2 where c: "createView d t1 = (k2, t2)" by fastforce
  have t1: "tex_ok t1" "length (viewDescriptors t1) + 1 < 2 ^ 28" using ok1 assms(2) by (auto simp: system_ok_def)
  note cv = createView_ok [OF t1(1) c t1(2)]
  have ok2: "system_ok mt (length es1 + 1) (t2, ks1 @ [k2], a1)"
    using system_ok_step [OF ok1, of "Request (Create d)"] assms(2) c by simp
  have fit2: "events_fit mt es2 (t2, ks1 @ [k2], a1)" using fit(2) c by simp
  have run2: "fold (texture_step mt) es2 (t2, ks1 @ [k2], a1) = (t, ks, a)" using assms(3,4) c by simp
  have ok: "system_ok mt (length es1 + 1 + length es2) (t, ks, a)"
    using system_ok_run [OF ok2 fit2] assms(2) run2 by simp
  have ext: "\<exists>ds. viewDescriptors t = viewDescriptors t2 @ ds" "\<exists>ks'. ks = ks1 @ [k2] @ ks'"
    using run_extends [OF ok2 fit2 _ run2] assms(2) by auto
  have k: "k = k2" using ext(2) assms(5) by auto
  have tk: "tex_ok t" "alloc_ok mt t a" "length (viewDescriptors t) + 1 < 2 ^ 28" "key_ok t k"
    using ok assms(2) ext(2) k by (auto simp: system_ok_def)
  have "vk_index k2 < length (viewDescriptors t2)" using key_index(1) [OF cv(3)] ok2 assms(2) by (simp add: system_ok_def)
  then have d: "viewDescriptors t ! vk_index k = d" using ext(1) cv(4) k by (auto simp: nth_append)
  moreover have "createView d t = (k, t)" by (rule createView_known [OF tk(1,3,4) d])
  moreover have "tv_key (fst (texture_view_of mt t k a)) = k"
    using texture_view_ok(2) [OF tk(1,2,4)] view_at_key [OF tk(1,4)] tk(3) by simp
  ultimately show ?thesis by blast
qed

text \<open>A sample texture: a 2D array of 8 slices and 4 levels.\<close>

definition sample_info :: texture_info where
  "sample_info = \<lparr> ti_pixel_format = 70, ti_width = 64, ti_height = 64, ti_array_length = 8,
     ti_type = WMTTextureType2DArray, ti_mipmap_level_count = 4, ti_usage = 5 \<rparr>"

definition sample_metal :: "nat metal" where
  "sample_metal = \<lparr> mt_pixelFormat = (\<lambda>m. 70), mt_usage = (\<lambda>m. 5),
     mt_newTextureView = (\<lambda>p f ty l n s c. (Some (100 + l), of_nat l)) \<rparr>"

definition one_slice :: texture_view_descriptor where
  "one_slice = \<lparr> vd_format = 70, vd_type = WMTTextureType2D, firstMiplevel = 1, miplevelCount = 1,
     firstArraySlice = 3, arraySize = 1, intendedUsage = 1 \<rparr>"

lemma view_key_stable_witness:
  "case fold (texture_step sample_metal) [Look 0, Request (Create one_slice), Request (Use_array 1 True), Look 2]
          (texture_start sample_info (Some 7) 9) of
     (t, ks, a) \<Rightarrow> viewDescriptors t ! vk_index (ks ! 1) = one_slice \<and> createView one_slice t = (ks ! 1, t)"
proof -
  let ?s = "texture_start sample_info (Some 7) 9"
  let ?es2 = "[Request (Use_array 1 True), Look 2]"
  obtain t ks a where r: "fold (texture_step sample_metal) ([Look 0] @ Request (Create one_slice) # ?es2) ?s = (t, ks, a)"
    by (cases "fold (texture_step sample_metal) ([Look 0] @ Request (Create one_slice) # ?es2) ?s")
  have l: "fold (texture_step sample_metal) [Look 0] ?s
      = (new_texture sample_info, [fullView (new_texture sample_info)],
         snd (texture_view_of sample_metal (new_texture sample_info) (fullView (new_texture sample_info)) (new_allocation (Some 7) 9)))"
    by (simp add: texture_start_def)
  have "events_fit sample_metal ([Look 0] @ Request (Create one_slice) # ?es2) ?s"
    by (simp add: texture_start_def split: prod.split)
  from view_key_stable [OF this _ l r refl] r show ?thesis by simp
qed

text \<open>The view \<open>checkViewUseArray\<close> substitutes is of the kind the shader asks for: an array type
  exactly when an array is wanted, over the same format, levels, first slice and usage as the view
  given, for every texture type that has both kinds.\<close>

theorem array_view_kind:
  assumes "tex_ok t" "key_ok t k" "length (viewDescriptors t) + 1 < 2 ^ 28"
    and "checkViewUseArray k b t = (k', t')"
    and "vd_type (viewDescriptors t ! vk_index k) < 9" "vd_type (viewDescriptors t ! vk_index k) \<noteq> WMTTextureType3D"
  shows "(is_array_type (vd_type (viewDescriptors t' ! vk_index k')) \<longleftrightarrow> b)
    \<and> vd_format (viewDescriptors t' ! vk_index k') = vd_format (viewDescriptors t ! vk_index k)
    \<and> firstMiplevel (viewDescriptors t' ! vk_index k') = firstMiplevel (viewDescriptors t ! vk_index k)
    \<and> miplevelCount (viewDescriptors t' ! vk_index k') = miplevelCount (viewDescriptors t ! vk_index k)
    \<and> firstArraySlice (viewDescriptors t' ! vk_index k') = firstArraySlice (viewDescriptors t ! vk_index k)
    \<and> intendedUsage (viewDescriptors t' ! vk_index k') = intendedUsage (viewDescriptors t ! vk_index k)
    \<and> key_ok t' k'"
proof -
  let ?d = "viewDescriptors t ! vk_index k"
  have "unat (vd_type ?d) < 9 \<and> unat (vd_type ?d) \<noteq> 7"
    using assms(5,6) by (auto simp: word_less_nat_alt dest: arg_cong [where f = "\<lambda>n. word_of_nat n :: u32"])
  then have "unat (vd_type ?d) \<in> {0, 1, 2, 3, 4, 5, 6, 8}" by auto
  then have ty: "vd_type ?d \<in> {0, 1, 2, 3, 4, 5, 6, 8}"
    by (auto dest!: arg_cong [where f = "word_of_nat :: nat \<Rightarrow> u32"])
  have arr: "is_array_type 0 = False" "is_array_type 1 = True" "is_array_type 2 = False" "is_array_type 3 = True"
    "is_array_type 4 = False" "is_array_type 5 = False" "is_array_type 6 = True" "is_array_type 8 = True"
    by code_simp+
  show ?thesis
  proof (cases "is_array_type (vd_type ?d) = b")
    case True
    then show ?thesis using assms(2,4) by (auto simp: checkViewUseArray_def)
  next
    case False
    obtain d where d: "other_kind ?d = Some d" "is_array_type (vd_type d) = b"
      "vd_format d = vd_format ?d" "firstMiplevel d = firstMiplevel ?d" "miplevelCount d = miplevelCount ?d"
      "firstArraySlice d = firstArraySlice ?d" "intendedUsage d = intendedUsage ?d"
      using ty False arr unfolding other_kind_def by (elim insertE emptyE) auto
    have "createView d t = (k', t')" using assms(4) False d(1) by (simp add: checkViewUseArray_def)
    from createView_ok [OF assms(1) this assms(3)] show ?thesis using d by simp
  qed
qed

lemma array_view_kind_witness:
  "is_array_type (vd_type (viewDescriptors (snd (checkViewUseArray (fullView (new_texture sample_info)) False (new_texture sample_info)))
     ! vk_index (fst (checkViewUseArray (fullView (new_texture sample_info)) False (new_texture sample_info))))) = False"
proof -
  let ?t = "new_texture sample_info"
  have "key_ok ?t (fullView ?t)" by (simp add: key_ok_def new_texture_def)
  moreover have "vd_type (viewDescriptors ?t ! vk_index (fullView ?t)) = WMTTextureType2DArray"
    by (simp add: new_texture_def view_key_of_def full_descriptor_def sample_info_def)
  ultimately show ?thesis
    using array_view_kind [OF tex_ok_new, of sample_info "fullView ?t" False]
    by (simp add: new_texture_def word_less_nat_alt split: prod.splits)
qed

subsection \<open>The pool\<close>

definition pool_ok :: "texture_pool \<Rightarrow> bool" where
  "pool_ok p \<longleftrightarrow> 0 < length (rp_allocations p) \<and> length (rp_allocations p) < 2 ^ 32
     \<and> (\<forall>i < length (rp_allocations p). \<forall>a. rp_allocations p ! i = Some a \<longrightarrow> a < rp_fresh p
          \<and> (\<forall>j < length (rp_allocations p). rp_allocations p ! j = Some a \<longrightarrow> i = j))"

lemma getNext_ok:
  assumes ok: "pool_ok p" and g: "pool_getNext f p = (a, p')"
  shows "pool_ok p'" "length (rp_allocations p') = length (rp_allocations p)"
    and "\<And>i x. rp_allocations p ! i = Some x \<Longrightarrow> rp_allocations p' ! i = Some x"
    and "rp_last_frame p' = max (rp_last_frame p) f"
    and "rp_current_index p' = (if rp_last_frame p < f then 0 else rp_current_index p) + 1"
    and "rp_allocations p' ! (unat (if rp_last_frame p < f then 0 else rp_current_index p) mod length (rp_allocations p)) = Some a"
proof -
  let ?i = "unat (if rp_last_frame p < f then 0 else rp_current_index p) mod length (rp_allocations p)"
  have i: "?i < length (rp_allocations p)" using ok by (simp add: pool_ok_def)
  have a: "(rp_allocations p ! ?i = Some a \<and> rp_allocations p' = rp_allocations p \<and> rp_fresh p' = rp_fresh p)
      \<or> (rp_allocations p ! ?i = None \<and> a = rp_fresh p \<and> rp_allocations p' = (rp_allocations p)[?i := Some a]
         \<and> rp_fresh p' = Suc (rp_fresh p))"
    using g by (auto simp: pool_getNext_def Let_def split: option.splits if_splits)
  show "rp_last_frame p' = max (rp_last_frame p) f"
    "rp_current_index p' = (if rp_last_frame p < f then 0 else rp_current_index p) + 1"
    using g by (auto simp: pool_getNext_def Let_def max_def split: option.splits if_splits)
  show "length (rp_allocations p') = length (rp_allocations p)"
    "rp_allocations p' ! ?i = Some a" using a i by auto
  show "rp_allocations p' ! j = Some x" if "rp_allocations p ! j = Some x" for j x
    using a that i by (cases "j = ?i") auto
  show "pool_ok p'"
    using a
  proof
    assume "rp_allocations p ! ?i = Some a \<and> rp_allocations p' = rp_allocations p \<and> rp_fresh p' = rp_fresh p"
    then show ?thesis using ok by (simp add: pool_ok_def)
  next
    assume new: "rp_allocations p ! ?i = None \<and> a = rp_fresh p \<and> rp_allocations p' = (rp_allocations p)[?i := Some a]
         \<and> rp_fresh p' = Suc (rp_fresh p)"
    then have at: "rp_allocations p' ! j = Some x \<longleftrightarrow> (if j = ?i then x = rp_fresh p else rp_allocations p ! j = Some x)"
      if "j < length (rp_allocations p)" for j x using that i by auto
    have low: "x < rp_fresh p" if "rp_allocations p ! j = Some x" "j < length (rp_allocations p)" for j x
      using ok that by (simp add: pool_ok_def)
    have "x < Suc (rp_fresh p) \<and> j = k" if "j < length (rp_allocations p)" "k < length (rp_allocations p)"
      "rp_allocations p' ! j = Some x" "rp_allocations p' ! k = Some x" for j k x
    proof -
      have jk: "if j = ?i then x = rp_fresh p else rp_allocations p ! j = Some x"
        "if k = ?i then x = rp_fresh p else rp_allocations p ! k = Some x"
        using that at by blast+
      have inj: "j = k" if "rp_allocations p ! j = Some x" "rp_allocations p ! k = Some x"
        using ok that \<open>j < _\<close> \<open>k < _\<close> unfolding pool_ok_def by blast
      show ?thesis using jk inj low [of j x] low [of k x] that(1,2) by (auto split: if_splits)
    qed
    then show ?thesis using ok new unfolding pool_ok_def by (simp only: length_list_update) blast
  qed
qed

fun pool_run :: "u64 list \<Rightarrow> texture_pool \<Rightarrow> nat list \<times> texture_pool" where
  "pool_run [] p = ([], p)"
| "pool_run (f # fs) p = (case pool_getNext f p of (a, p1) \<Rightarrow> case pool_run fs p1 of (as, p2) \<Rightarrow> (a # as, p2))"

lemma pool_run_ok:
  "pool_ok p \<Longrightarrow> pool_run fs p = (as, p') \<Longrightarrow> pool_ok p' \<and> length (rp_allocations p') = length (rp_allocations p)
     \<and> length as = length fs \<and> (\<forall>i x. rp_allocations p ! i = Some x \<longrightarrow> rp_allocations p' ! i = Some x)
     \<and> rp_last_frame p' = fold max fs (rp_last_frame p)"
proof (induction fs arbitrary: p as)
  case (Cons f fs)
  obtain a p1 where g: "pool_getNext f p = (a, p1)" by fastforce
  obtain as' where r: "pool_run fs p1 = (as', p')" "as = a # as'"
    using Cons.prems(2) g by (auto split: prod.splits)
  note n = getNext_ok [OF Cons.prems(1) g]
  show ?case using Cons.IH [OF n(1) r(1)] n r(2) by (simp add: max.commute)
qed simp

lemma same_frame_run:
  "pool_ok p \<Longrightarrow> rp_last_frame p = f \<Longrightarrow> unat (rp_current_index p) + n \<le> length (rp_allocations p) \<Longrightarrow>
     pool_run (replicate n f) p = (as, p') \<Longrightarrow>
     map Some as = map (\<lambda>i. rp_allocations p' ! (unat (rp_current_index p) + i)) [0..<n]"
proof (induction n arbitrary: p as)
  case (Suc n)
  obtain a p1 where g: "pool_getNext f p = (a, p1)" by fastforce
  obtain as' where r: "pool_run (replicate n f) p1 = (as', p')" "as = a # as'"
    using Suc.prems(4) g by (auto split: prod.splits)
  note x = getNext_ok [OF Suc.prems(1) g]
  let ?c = "unat (rp_current_index p)"
  have len: "length (rp_allocations p) < 2 ^ 32" using Suc.prems(1) by (simp add: pool_ok_def)
  have c1: "unat (rp_current_index p1) = ?c + 1"
    using x(5) Suc.prems(2,3) len by (simp add: unat_word_ariths)
  have "rp_allocations p1 ! ?c = Some a" using x(6) Suc.prems(2,3) by simp
  then have here: "rp_allocations p' ! ?c = Some a" using pool_run_ok [OF x(1) r(1)] by blast
  have "map Some as' = map (\<lambda>i. rp_allocations p' ! (?c + 1 + i)) [0..<n]"
    using Suc.IH [OF x(1) _ _ r(1)] x(2,4) c1 Suc.prems(2,3) by simp
  then show ?case
    using here by (simp add: r(2) upt_conv_Cons map_Suc_upt [symmetric] del: upt_Suc)
qed simp

text \<open>Within one command chunk the renaming pool hands out different allocations, up to its
  capacity: whatever was asked in earlier chunks, the allocations returned for the first
  \<open>capacity\<close> requests of a chunk are pairwise different.\<close>

theorem pool_renames_distinct:
  assumes "0 < capacity" "capacity < 2 ^ 32" "\<forall>g \<in> set fs. g < f" "0 < f" "n \<le> capacity"
    and "pool_run fs (new_pool capacity) = (as, p)" "pool_run (replicate n f) p = (bs, p')"
  shows "distinct bs \<and> length bs = n"
proof (cases n)
  case 0
  then show ?thesis using assms(7) by simp
next
  case (Suc m)
  have "pool_ok (new_pool capacity)" using assms(1,2) by (simp add: pool_ok_def new_pool_def)
  note r = pool_run_ok [OF this assms(6)]
  then have cap: "length (rp_allocations p) = capacity" by (simp add: new_pool_def)
  have "fold max fs x < f" if "x < f" for x using assms(3) that by (induction fs arbitrary: x) auto
  then have old: "rp_last_frame p < f" using r assms(4) by (simp add: new_pool_def)
  obtain a p1 where g: "pool_getNext f p = (a, p1)" by fastforce
  have ok: "pool_ok p" using r by blast
  note x = getNext_ok [OF ok g]
  obtain bs' where b: "pool_run (replicate m f) p1 = (bs', p')" "bs = a # bs'"
    using assms(7) Suc g by (auto split: prod.splits)
  have "rp_allocations p1 ! 0 = Some a" using x(6) old by simp
  then have "rp_allocations p' ! 0 = Some a" using pool_run_ok [OF x(1) b(1)] by blast
  moreover have "map Some bs' = map (\<lambda>i. rp_allocations p' ! (1 + i)) [0..<m]"
    using same_frame_run [OF x(1) _ _ b(1)] x(2,4,5) old cap assms(5) Suc by simp
  ultimately have all: "map Some bs = map (\<lambda>i. rp_allocations p' ! i) [0..<n]"
    by (simp add: b(2) Suc upt_conv_Cons map_Suc_upt [symmetric] del: upt_Suc)
  have p': "pool_ok p'" "length (rp_allocations p') = capacity"
    using pool_run_ok [OF ok assms(7)] cap by auto
  have len: "length bs = n" using all by (metis length_map length_upt diff_zero)
  have nth: "rp_allocations p' ! i = Some (bs ! i)" if "i < n" for i
    using that len arg_cong [OF all, of "\<lambda>l. l ! i"] by simp
  have "i = j" if "i < n" "j < n" "bs ! i = bs ! j" for i j
    using nth [of i] nth [of j] that p' assms(5) unfolding pool_ok_def by (metis less_le_trans)
  then show ?thesis using len by (auto simp: distinct_conv_nth)
qed

lemma pool_renames_distinct_witness:
  "distinct (fst (pool_run (replicate 3 9) (snd (pool_run [7, 7, 8] (new_pool 4)))))"
proof -
  obtain as p where a: "pool_run [7, 7, 8] (new_pool 4) = (as, p)" by fastforce
  obtain bs p' where b: "pool_run (replicate 3 9) p = (bs, p')" by fastforce
  from pool_renames_distinct [OF _ _ _ _ _ a b] show ?thesis by (simp add: a b del: pool_run.simps)
qed

end
