(* ===== verification/EncoderList.thy ===== *)
theory EncoderList
  imports Textures FenceSet
begin

text \<open>
  The encoder list of a command chunk, as \<open>ArgumentEncodingContext::flushCommands\<close> optimises it
  before encoding (src/src/dxmt/dxmt_context.cpp, from \<open>checkEncoderRelation\<close> on; the data of
  src/src/dxmt/dxmt_context.hpp). From the last encoder to the first, each clear, render and blit
  encoder is compared with the later ones until one of them has to stay behind it: clears move
  into the load action of a render pass, render passes over the same attachments become one, blits
  are joined and resolves become the store action of the pass before them.

  References are numbers; command lists are lists; the fields copied but never looked at (sizes,
  sample counts, pipeline states) are left out. \<open>en_work\<close> is a history variable: the original
  encoders whose work an encoder carries, in the order it does it.
\<close>

subsection \<open>Attachments\<close>

datatype load_action = Load_DontCare | Load_Load | Load_Clear

datatype store_action = Store_DontCare | Store_Store | Store_Resolve | Store_StoreAndResolve | Store_Unknown
  | Store_Custom

record texture_ref =
  tr_allocation :: nat
  tr_key :: view_key

type_synonym clear_color = "u64 \<times> u64 \<times> u64 \<times> u64"

record color_attachment =
  ca_attachment :: "texture_ref option"
  ca_buffer :: "nat option"          \<comment> \<open>\<open>buffer_attachment\<close>\<close>
  ca_buffer_texture :: "nat option"
  ca_buffer_view_id :: u64
  ca_load :: load_action
  ca_store :: store_action
  ca_depth_plane :: u32
  ca_clear :: clear_color
  ca_resolve :: "texture_ref option"

text \<open>Depth and stencil attachments have the same members but for the clear value.\<close>

record 'k plane_attachment =
  pa_attachment :: "texture_ref option"
  pa_load :: load_action
  pa_store :: store_action
  pa_level :: u16
  pa_slice :: u16
  pa_depth_plane :: u32
  pa_clear :: 'k

subsection \<open>Encoders\<close>

datatype shader_stage = Vertex_stage | Fragment_stage | Object_stage | Mesh_stage

datatype 'c render_command = Set_buffer shader_stage nat nat | Other_command 'c

record 'c render_data =
  rd_colors :: "color_attachment list"
  rd_depth :: "u32 plane_attachment"
  rd_stencil :: "u8 plane_attachment"
  render_target_array_length :: u32
  gs_arg_marshal_tasks :: "nat list"
  ts_arg_marshal_tasks :: "nat list"
  rd_commands :: "'c render_command list"
  allocated_argbuf :: nat            \<comment> \<open>0 is the null buffer\<close>
  allocated_argbuf_size :: u64
  fence_wait_vertex :: fence_set
  fence_update_vertex :: fence_set
  dsv_planar_flags :: u8
  dsv_readonly_flags :: u8
  render_target_count :: nat
  use_visibility_result :: bool
  use_tessellation :: bool
  use_geometry :: bool

record clear_data =
  cl_color :: clear_color
  cl_depth :: u32
  cl_stencil :: u8
  cl_attachment :: "texture_ref option"
  cl_buffer :: "nat option"
  cl_buffer_texture :: "nat option"
  cl_buffer_view_id :: u64
  clear_dsv :: u32
  array_length :: u32
  cl_level :: u16
  cl_slice :: u16
  cl_depth_plane :: u32
  cl_stencil_depth_plane :: u32

record resolve_data =
  rs_src :: texture_ref
  rs_dst :: texture_ref
  rs_pso :: "nat option"
  rs_src_rect :: "(u32 \<times> u32 \<times> u32 \<times> u32) option"

datatype 'c encoder_body =
    Null
  | Render "'c render_data"
  | Compute
  | Blit "'c list"
  | Clear clear_data
  | Resolve resolve_data
  | Present
  | SpatialUpscale
  | SignalEvent
  | TemporalUpscale
  | WaitForEvent
  | SampleTimestamp

record 'c encoder =
  en_body :: "'c encoder_body"
  en_fence_wait :: fence_set
  en_fence_update :: fence_set
  en_work :: "nat list"

datatype list_op = Swap | Synchronize

subsection \<open>Matching\<close>

definition planes_match ::
  "u8 \<Rightarrow> 'c render_data \<Rightarrow> 'c render_data \<Rightarrow> 'k plane_attachment \<Rightarrow> 'k plane_attachment \<Rightarrow> bool"
where
  "planes_match flag r0 r1 p0 p1 \<longleftrightarrow>
     (if dsv_planar_flags r0 AND flag = 0 then True
      else if pa_attachment p0 \<noteq> pa_attachment p1 then False
      else if pa_level p0 \<noteq> pa_level p1 \<or> pa_slice p0 \<noteq> pa_slice p1 \<or> pa_depth_plane p0 \<noteq> pa_depth_plane p1
      then False
      else if dsv_readonly_flags r0 AND flag \<noteq> 0 then pa_load p1 \<noteq> Load_Clear
      else pa_store p0 = Store_Store \<and> pa_load p1 = Load_Load)"

definition colors_match :: "color_attachment \<Rightarrow> color_attachment \<Rightarrow> bool" where
  "colors_match a0 a1 \<longleftrightarrow>
     (if ca_attachment a0 \<noteq> ca_attachment a1 then False
      else if ca_buffer a0 \<noteq> ca_buffer a1 then False
      else if ca_buffer_view_id a0 \<noteq> ca_buffer_view_id a1 then False
      else if ca_depth_plane a0 \<noteq> ca_depth_plane a1 then False
      else if ca_attachment a0 = None \<and> ca_buffer_texture a0 = None then True
      else ca_store a0 = Store_Store \<and> ca_load a1 = Load_Load)"

definition isEncoderSignatureMatched :: "'c render_data \<Rightarrow> 'c render_data \<Rightarrow> bool" where
  "isEncoderSignatureMatched r0 r1 \<longleftrightarrow>
     render_target_count r0 = render_target_count r1 \<and> dsv_planar_flags r0 = dsv_planar_flags r1
     \<and> dsv_readonly_flags r0 = dsv_readonly_flags r1
     \<and> render_target_array_length r0 = render_target_array_length r1
     \<and> planes_match 1 r0 r1 (rd_depth r0) (rd_depth r1) \<and> planes_match 2 r0 r1 (rd_stencil r0) (rd_stencil r1)
     \<and> (\<forall>i < render_target_count r0. colors_match (rd_colors r0 ! i) (rd_colors r1 ! i))"

text \<open>The pointer the functions below return to an attachment is its index.\<close>

definition isClearColorSignatureMatched :: "clear_data \<Rightarrow> 'c render_data \<Rightarrow> nat option" where
  "isClearColorSignatureMatched clear render =
     List.find (\<lambda>i. ca_attachment (rd_colors render ! i) = cl_attachment clear
        \<or> ca_buffer (rd_colors render ! i) \<noteq> None \<and> ca_buffer (rd_colors render ! i) = cl_buffer clear
           \<and> ca_buffer_view_id (rd_colors render ! i) = cl_buffer_view_id clear)
       [0..<render_target_count render]"

definition isClearDepthSignatureMatched :: "clear_data \<Rightarrow> 'c render_data \<Rightarrow> bool" where
  "isClearDepthSignatureMatched clear render \<longleftrightarrow>
     clear_dsv clear AND 1 \<noteq> 0 \<and> pa_attachment (rd_depth render) = cl_attachment clear
     \<and> pa_level (rd_depth render) = cl_level clear \<and> pa_slice (rd_depth render) = cl_slice clear
     \<and> pa_depth_plane (rd_depth render) = cl_depth_plane clear"

definition isClearStencilSignatureMatched :: "clear_data \<Rightarrow> 'c render_data \<Rightarrow> bool" where
  "isClearStencilSignatureMatched clear render \<longleftrightarrow>
     clear_dsv clear AND 2 \<noteq> 0 \<and> pa_attachment (rd_stencil render) = cl_attachment clear
     \<and> pa_level (rd_stencil render) = cl_level clear \<and> pa_slice (rd_stencil render) = cl_slice clear
     \<and> pa_depth_plane (rd_stencil render) = cl_stencil_depth_plane clear"

text \<open>The textures whose views the resolve match looks at: which texture an allocation belongs to,
  and its views.\<close>

record texture_heap =
  th_descriptor :: "nat \<Rightarrow> nat"
  th_texture :: "nat \<Rightarrow> texture"

definition th_pixelFormat :: "nat \<Rightarrow> view_key \<Rightarrow> texture_heap \<Rightarrow> u32" where
  "th_pixelFormat alloc key th = view_pixelFormat (th_texture th (th_descriptor th alloc)) key"

definition th_checkViewUseFormat :: "nat \<Rightarrow> view_key \<Rightarrow> u32 \<Rightarrow> texture_heap \<Rightarrow> view_key \<times> texture_heap" where
  "th_checkViewUseFormat alloc key format th =
     (let d = th_descriptor th alloc in
      case checkViewUseFormat key format (th_texture th d) of
        (k, t) \<Rightarrow> (k, th\<lparr> th_texture := (th_texture th)(d := t) \<rparr>))"

fun resolve_match_from ::
  "'c render_data \<Rightarrow> resolve_data \<Rightarrow> nat list \<Rightarrow> texture_heap \<Rightarrow> (nat \<times> texture_ref) option \<times> texture_heap"
where
  "resolve_match_from render resolve [] th = (None, th)"
| "resolve_match_from render resolve (i # is) th =
     (let color = rd_colors render ! i; src = rs_src resolve; dst = rs_dst resolve in
      case ca_attachment color of
        None \<Rightarrow> resolve_match_from render resolve is th
      | Some a \<Rightarrow>
         (if ca_store color \<noteq> Store_Store then resolve_match_from render resolve is th
          else if ca_resolve color \<noteq> None then resolve_match_from render resolve is th
          else if tr_allocation a \<noteq> tr_allocation src then resolve_match_from render resolve is th
          else if tr_key a = tr_key src then (Some (i, dst), th)
          else
           (let color_format = th_pixelFormat (tr_allocation src) (tr_key a) th in
            case th_checkViewUseFormat (tr_allocation src) (tr_key src) color_format th of
              (view_src_in_color_format, th) \<Rightarrow>
                if tr_key a = view_src_in_color_format
                then (case th_checkViewUseFormat (tr_allocation dst) (tr_key dst) color_format th of
                        (view_dst_in_color_format, th) \<Rightarrow>
                          (Some (i, dst\<lparr> tr_key := view_dst_in_color_format \<rparr>), th))
                else resolve_match_from render resolve is th)))"

definition isResolveSignatureMatched ::
  "'c render_data \<Rightarrow> resolve_data \<Rightarrow> texture_heap \<Rightarrow> (nat \<times> texture_ref) option \<times> texture_heap"
where
  "isResolveSignatureMatched render resolve th = resolve_match_from render resolve [0..<render_target_count render] th"

subsection \<open>Dependencies\<close>

text \<open>The fences an encoder waits for and updates, those of both halves of a render encoder.\<close>

definition all_waits :: "'c encoder \<Rightarrow> fence_set" where
  "all_waits e = (case en_body e of Render r \<Rightarrow> fs_unionOf (en_fence_wait e) (fence_wait_vertex r) | _ \<Rightarrow> en_fence_wait e)"

definition all_updates :: "'c encoder \<Rightarrow> fence_set" where
  "all_updates e =
     (case en_body e of Render r \<Rightarrow> fs_unionOf (fence_update_vertex r) (en_fence_update e) | _ \<Rightarrow> en_fence_update e)"

definition hasDataDependency :: "'c encoder \<Rightarrow> 'c encoder \<Rightarrow> bool" where
  "hasDataDependency latter former \<longleftrightarrow>
     fs_intersectedWith (all_updates former) (all_waits latter)
     \<or> fs_intersectedWith (all_updates latter) (all_waits former)"

subsection \<open>Merging\<close>

text \<open>What every merge does to the three fence sets of the survivor.\<close>

definition take_over_fences :: "'c encoder \<Rightarrow> 'c encoder \<Rightarrow> 'c encoder" where
  "take_over_fences survivor gone = survivor\<lparr>
     en_fence_update := fs_merge (en_fence_update survivor) (en_fence_update gone),
     en_fence_wait := fs_subtract (fs_merge (en_fence_wait survivor) (en_fence_wait gone)) (en_fence_update gone) \<rparr>"

definition nullify :: "'c encoder \<Rightarrow> 'c encoder" where
  "nullify e = e\<lparr> en_body := Null, en_work := [] \<rparr>"

definition appendRenderArgumentBufferBindings :: "nat \<Rightarrow> bool \<Rightarrow> bool \<Rightarrow> 'c render_command list" where
  "appendRenderArgumentBufferBindings buffer geometry tessellation =
     [Set_buffer Vertex_stage 16 buffer, Set_buffer Vertex_stage 29 buffer, Set_buffer Vertex_stage 30 buffer,
      Set_buffer Fragment_stage 29 buffer, Set_buffer Fragment_stage 30 buffer]
     @ (if geometry \<or> tessellation then
          [Set_buffer Object_stage 16 buffer, Set_buffer Object_stage 21 buffer]
          @ (if tessellation then [Set_buffer Object_stage 27 buffer, Set_buffer Object_stage 28 buffer] else [])
          @ [Set_buffer Object_stage 29 buffer, Set_buffer Object_stage 30 buffer,
             Set_buffer Mesh_stage 29 buffer, Set_buffer Mesh_stage 30 buffer]
        else [])"

definition merged_commands :: "'c render_data \<Rightarrow> 'c render_data \<Rightarrow> 'c render_command list" where
  "merged_commands r0 r1 =
     (if rd_commands r0 = [] then rd_commands r1
      else (if allocated_argbuf r0 \<noteq> allocated_argbuf r1
            then appendRenderArgumentBufferBindings (allocated_argbuf r0) (use_geometry r0) (use_tessellation r0)
                 @ rd_commands r0
                 @ appendRenderArgumentBufferBindings (allocated_argbuf r1) (use_geometry r1) (use_tessellation r1)
            else rd_commands r0) @ rd_commands r1)"

definition merged_color :: "color_attachment \<Rightarrow> color_attachment \<Rightarrow> color_attachment" where
  "merged_color a0 a1 = a1\<lparr> ca_load := ca_load a0, ca_clear := ca_clear a0 \<rparr>"

definition merged_plane :: "'k plane_attachment \<Rightarrow> 'k plane_attachment \<Rightarrow> 'k plane_attachment" where
  "merged_plane p0 p1 = p1\<lparr> pa_load := pa_load p0, pa_clear := pa_clear p0, pa_store := pa_store p0,
     pa_level := pa_level p0, pa_slice := pa_slice p0, pa_depth_plane := pa_depth_plane p0 \<rparr>"

definition merged_render :: "'c render_data \<Rightarrow> 'c render_data \<Rightarrow> 'c render_data" where
  "merged_render r0 r1 = r1\<lparr>
     rd_colors := map (\<lambda>i. if i < render_target_count r0 then merged_color (rd_colors r0 ! i) (rd_colors r1 ! i)
                           else rd_colors r1 ! i) [0..<length (rd_colors r1)],
     rd_depth := merged_plane (rd_depth r0) (rd_depth r1), rd_stencil := merged_plane (rd_stencil r0) (rd_stencil r1),
     rd_commands := merged_commands r0 r1,
     use_tessellation := use_tessellation r0 \<or> use_tessellation r1,
     use_geometry := use_geometry r0 \<or> use_geometry r1,
     gs_arg_marshal_tasks := gs_arg_marshal_tasks r0 @ gs_arg_marshal_tasks r1,
     ts_arg_marshal_tasks := ts_arg_marshal_tasks r0 @ ts_arg_marshal_tasks r1,
     use_visibility_result := use_visibility_result r0 \<or> use_visibility_result r1,
     fence_update_vertex := fs_merge (fence_update_vertex r1) (fence_update_vertex r0),
     fence_wait_vertex := fs_subtract (fs_merge (fence_wait_vertex r1) (fence_wait_vertex r0)) (fence_update_vertex r0) \<rparr>"

definition merge_renders :: "'c encoder \<Rightarrow> 'c render_data \<Rightarrow> 'c encoder \<Rightarrow> 'c render_data \<Rightarrow> 'c encoder" where
  "merge_renders former r0 latter r1 =
     (let e = take_over_fences latter former
      in e\<lparr> en_body := Render (merged_render r0 r1), en_work := en_work former @ en_work latter,
            en_fence_wait := fs_subtract (en_fence_wait e) (fence_update_vertex r0) \<rparr>)"

definition tryMergeBlitEncoders ::
  "'c encoder \<Rightarrow> 'c list \<Rightarrow> 'c encoder \<Rightarrow> 'c list \<Rightarrow> ('c encoder \<times> 'c encoder) option"
where
  "tryMergeBlitEncoders former c0 latter c1 =
     (if hasDataDependency latter former then None
      else Some (nullify former,
        (take_over_fences latter former)\<lparr> en_body := Blit (c0 @ c1), en_work := en_work former @ en_work latter \<rparr>))"

definition merge_clear_depth :: "clear_data \<Rightarrow> 'c render_data \<Rightarrow> clear_data \<times> 'c render_data" where
  "merge_clear_depth c r =
     (if isClearDepthSignatureMatched c r
      then (c\<lparr> clear_dsv := clear_dsv c AND NOT 1 \<rparr>,
            if pa_load (rd_depth r) = Load_Load
            then r\<lparr> rd_depth := (rd_depth r)\<lparr> pa_clear := cl_depth c, pa_load := Load_Clear \<rparr> \<rparr> else r)
      else (c, r))"

definition merge_clear_stencil :: "clear_data \<Rightarrow> 'c render_data \<Rightarrow> clear_data \<times> 'c render_data" where
  "merge_clear_stencil c r =
     (if isClearStencilSignatureMatched c r
      then (c\<lparr> clear_dsv := clear_dsv c AND NOT 2 \<rparr>,
            if pa_load (rd_stencil r) = Load_Load
            then r\<lparr> rd_stencil := (rd_stencil r)\<lparr> pa_clear := cl_stencil c, pa_load := Load_Clear \<rparr> \<rparr> else r)
      else (c, r))"

definition merge_clear_color :: "clear_data \<Rightarrow> nat \<Rightarrow> 'c render_data \<Rightarrow> 'c render_data" where
  "merge_clear_color c i r =
     (let a = rd_colors r ! i in
      if ca_load a = Load_Load
      then r\<lparr> rd_colors := (rd_colors r)[i := a\<lparr> ca_load := Load_Clear, ca_clear := cl_color c \<rparr>] \<rparr> else r)"

definition absorb_clear :: "'c encoder \<Rightarrow> 'c encoder \<Rightarrow> 'c render_data \<Rightarrow> 'c encoder \<times> 'c encoder" where
  "absorb_clear former latter r =
     (nullify former,
      (take_over_fences latter former)\<lparr> en_body := Render r, en_work := en_work former @ en_work latter \<rparr>)"

text \<open>The store actions a later clear makes superfluous.\<close>

definition drop_stores :: "'c render_data \<Rightarrow> clear_data \<Rightarrow> 'c render_data" where
  "drop_stores r c =
     (let r = (if clear_dsv c AND 1 \<noteq> 0 \<and> pa_attachment (rd_depth r) = cl_attachment c
               then r\<lparr> rd_depth := (rd_depth r)\<lparr> pa_store := Store_DontCare \<rparr> \<rparr> else r)
      in if clear_dsv c AND 2 \<noteq> 0 \<and> pa_attachment (rd_stencil r) = cl_attachment c
         then r\<lparr> rd_stencil := (rd_stencil r)\<lparr> pa_store := Store_DontCare \<rparr> \<rparr> else r)"

definition absorb_resolve :: "'c encoder \<Rightarrow> 'c render_data \<Rightarrow> nat \<Rightarrow> texture_ref \<Rightarrow> 'c encoder \<Rightarrow> 'c encoder" where
  "absorb_resolve former r i dst latter =
     (take_over_fences former latter)\<lparr>
       en_body := Render (r\<lparr> rd_colors := (rd_colors r)[i := (rd_colors r ! i)\<lparr>
           ca_store := Store_StoreAndResolve, ca_resolve := Some dst \<rparr>] \<rparr>),
       en_work := en_work former @ en_work latter \<rparr>"

definition is_event :: "'c encoder_body \<Rightarrow> bool" where
  "is_event b \<longleftrightarrow> b = SignalEvent \<or> b = WaitForEvent \<or> b = SampleTimestamp"

text \<open>The result: the operation, the two encoders, the textures.\<close>

type_synonym 'c relation_result = "list_op \<times> 'c encoder \<times> 'c encoder \<times> texture_heap"

definition by_dependency :: "'c encoder \<Rightarrow> 'c encoder \<Rightarrow> texture_heap \<Rightarrow> 'c relation_result" where
  "by_dependency former latter th =
     ((if hasDataDependency latter former then Synchronize else Swap), former, latter, th)"

definition check_clear_render ::
  "'c encoder \<Rightarrow> clear_data \<Rightarrow> 'c encoder \<Rightarrow> 'c render_data \<Rightarrow> texture_heap \<Rightarrow> 'c relation_result"
where
  "check_clear_render former c latter r th =
     (if render_target_array_length r \<noteq> array_length c then by_dependency former latter th
      else if clear_dsv c \<noteq> 0 then
       (case merge_clear_depth c r of
          (c1, r1) \<Rightarrow>
            case merge_clear_stencil c1 r1 of
              (c2, r2) \<Rightarrow>
                if clear_dsv c2 = 0
                then (case absorb_clear former latter r2 of (f, l) \<Rightarrow> (Synchronize, f, l, th))
                else by_dependency (former\<lparr> en_body := Clear c2 \<rparr>) (latter\<lparr> en_body := Render r2 \<rparr>) th)
      else
       (case isClearColorSignatureMatched c r of
          Some i \<Rightarrow> (case absorb_clear former latter (merge_clear_color c i r) of (f, l) \<Rightarrow> (Synchronize, f, l, th))
        | None \<Rightarrow> by_dependency former latter th))"

definition check_render_resolve ::
  "'c encoder \<Rightarrow> 'c render_data \<Rightarrow> 'c encoder \<Rightarrow> resolve_data \<Rightarrow> texture_heap \<Rightarrow> 'c relation_result"
where
  "check_render_resolve former r latter resolve th =
     (case isResolveSignatureMatched r resolve th of
        (Some (i, dst), th') \<Rightarrow> (Swap, absorb_resolve former r i dst latter, nullify latter, th')
      | (None, th') \<Rightarrow> by_dependency former latter th')"

definition check_renders ::
  "'c encoder \<Rightarrow> 'c render_data \<Rightarrow> 'c encoder \<Rightarrow> 'c render_data \<Rightarrow> texture_heap \<Rightarrow> 'c relation_result"
where
  "check_renders former r0 latter r1 th =
     (if isEncoderSignatureMatched r0 r1 \<and> \<not> fs_intersectedWith (fence_wait_vertex r1) (en_fence_update former)
      then (Synchronize, nullify former, merge_renders former r0 latter r1, th)
      else by_dependency former latter th)"

definition checkEncoderRelation :: "'c encoder \<Rightarrow> 'c encoder \<Rightarrow> texture_heap \<Rightarrow> 'c relation_result" where
  "checkEncoderRelation former latter th =
     (if en_body former = Null then (Swap, former, latter, th)
      else if en_body latter = Null then (Swap, former, latter, th)
      else if is_event (en_body former) \<or> is_event (en_body latter) then (Synchronize, former, latter, th)
      else
       (case (en_body former, en_body latter) of
          (Blit c0, Blit c1) \<Rightarrow>
            (case tryMergeBlitEncoders former c0 latter c1 of
               Some (f, l) \<Rightarrow> (Swap, f, l, th)
             | None \<Rightarrow> (Synchronize, former, latter, th))
        | (Clear c, Render r) \<Rightarrow> check_clear_render former c latter r th
        | (Render r, Clear c) \<Rightarrow> by_dependency (former\<lparr> en_body := Render (drop_stores r c) \<rparr>) latter th
        | (Render r, Resolve resolve) \<Rightarrow> check_render_resolve former r latter resolve th
        | (Render r0, Render r1) \<Rightarrow> check_renders former r0 latter r1 th
        | _ \<Rightarrow> by_dependency former latter th))"

text \<open>The two loops of \<open>flushCommands\<close>: one encoder against the later ones, and all of them from the
  last but one.\<close>

fun check_latter :: "'c encoder \<Rightarrow> 'c encoder list \<Rightarrow> texture_heap \<Rightarrow> 'c encoder \<times> 'c encoder list \<times> texture_heap" where
  "check_latter former [] th = (former, [], th)"
| "check_latter former (l # ls) th =
     (if en_body l = Null
      then (case check_latter former ls th of (f, ls', th') \<Rightarrow> (f, l # ls', th'))
      else
       (case checkEncoderRelation former l th of
          (Synchronize, f, l', th') \<Rightarrow> (f, l' # ls, th')
        | (Swap, f, l', th') \<Rightarrow> (case check_latter f ls th' of (f', ls', th'') \<Rightarrow> (f', l' # ls', th''))))"

fun movable :: "'c encoder_body \<Rightarrow> bool" where
  "movable (Clear c) \<longleftrightarrow> True"
| "movable (Render r) \<longleftrightarrow> True"
| "movable (Blit c) \<longleftrightarrow> True"
| "movable _ \<longleftrightarrow> False"

fun optimise_encoders :: "'c encoder list \<Rightarrow> texture_heap \<Rightarrow> 'c encoder list \<times> texture_heap" where
  "optimise_encoders [] th = ([], th)"
| "optimise_encoders (e # es) th =
     (case optimise_encoders es th of
        (es', th') \<Rightarrow>
          if movable (en_body e)
          then (case check_latter e es' th' of (f, ls, th'') \<Rightarrow> (f # ls, th''))
          else (e # es', th'))"

subsection \<open>Fences of an encoder\<close>

abbreviation waits :: "'c encoder \<Rightarrow> nat set" where "waits e \<equiv> fences (all_waits e)"
abbreviation updates :: "'c encoder \<Rightarrow> nat set" where "updates e \<equiv> fences (all_updates e)"

lemma hasDataDependency_iff:
  "hasDataDependency l f \<longleftrightarrow> updates f \<inter> waits l \<noteq> {} \<or> updates l \<inter> waits f \<noteq> {}"
  by (simp add: hasDataDependency_def fence_simps)

lemma all_fences_Render:
  "all_waits (e\<lparr> en_body := Render r \<rparr>) = fs_unionOf (en_fence_wait e) (fence_wait_vertex r)"
  "all_updates (e\<lparr> en_body := Render r \<rparr>) = fs_unionOf (fence_update_vertex r) (en_fence_update e)"
  by (simp_all add: all_waits_def all_updates_def)

definition is_resolve :: "'c encoder_body \<Rightarrow> bool" where
  "is_resolve b \<longleftrightarrow> (\<exists>r. b = Resolve r)"

text \<open>Which encoder of the original list has to stay before which: the sides of a dependency, and
  everything around an event.\<close>

definition dependent :: "'c encoder list \<Rightarrow> nat \<Rightarrow> nat \<Rightarrow> bool" where
  "dependent es i j \<longleftrightarrow> is_event (en_body (es ! i)) \<or> is_event (en_body (es ! j)) \<or> hasDataDependency (es ! j) (es ! i)"

text \<open>An encoder carries the work of the original encoders \<open>en_work\<close>: it updates their fences, and waits
  for what they wait for unless one of them updates it.\<close>

definition carries :: "'c encoder list \<Rightarrow> 'c encoder \<Rightarrow> bool" where
  "carries es e \<longleftrightarrow>
     (en_body e = Null \<longleftrightarrow> en_work e = [])
     \<and> (en_body e \<noteq> Null \<longrightarrow> updates e = (\<Union>w \<in> set (en_work e). updates (es ! w))
          \<and> (\<Union>w \<in> set (en_work e). waits (es ! w)) - updates e \<subseteq> waits e)
     \<and> (is_event (en_body e) \<longleftrightarrow> (\<exists>w \<in> set (en_work e). is_event (en_body (es ! w))))
     \<and> \<not> is_resolve (en_body e)"

definition work_list :: "'c encoder list \<Rightarrow> nat list" where
  "work_list es = concat (map en_work es)"

lemma work_list_simps [simp]: "work_list [] = []" "work_list (e # es) = en_work e @ work_list es"
  by (simp_all add: work_list_def)

definition updates_disjoint :: "'c encoder list \<Rightarrow> bool" where
  "updates_disjoint es \<longleftrightarrow> (\<forall>i < length es. \<forall>j < length es. i \<noteq> j \<longrightarrow> updates (es ! i) \<inter> updates (es ! j) = {})"

text \<open>Encoders that do not depend on one another do not carry work that does.\<close>

lemma carries_independent:
  assumes f: "carries es f" "en_body f \<noteq> Null" and l: "carries es l" "en_body l \<noteq> Null"
    and ev: "\<not> is_event (en_body f)" "\<not> is_event (en_body l)" and dep: "\<not> hasDataDependency l f"
    and dis: "updates_disjoint es" "set (en_work f) \<inter> set (en_work l) = {}"
      "set (en_work f) \<union> set (en_work l) \<subseteq> {..<length es}"
    and w: "w \<in> set (en_work f)" "x \<in> set (en_work l)"
  shows "\<not> dependent es w x"
proof -
  have Uf: "updates f = (\<Union>w \<in> set (en_work f). updates (es ! w))"
    and Wf: "(\<Union>w \<in> set (en_work f). waits (es ! w)) - updates f \<subseteq> waits f"
    using f unfolding carries_def by blast+
  have Ul: "updates l = (\<Union>w \<in> set (en_work l). updates (es ! w))"
    and Wl: "(\<Union>w \<in> set (en_work l). waits (es ! w)) - updates l \<subseteq> waits l"
    using l unfolding carries_def by blast+
  have "updates (es ! u) \<inter> updates (es ! y) = {}" if "u \<in> set (en_work f)" "y \<in> set (en_work l)" for u y
  proof -
    have "u \<noteq> y" "u < length es" "y < length es" using dis(2,3) that by auto
    then show ?thesis using dis(1) by (simp add: updates_disjoint_def)
  qed
  then have away: "updates (es ! w) \<inter> updates l = {}" "updates (es ! x) \<inter> updates f = {}"
    using w unfolding Uf Ul by blast+
  have "updates f \<inter> waits l = {}" "updates l \<inter> waits f = {}"
    using dep unfolding hasDataDependency_iff by blast+
  moreover have "updates (es ! w) \<subseteq> updates f" "updates (es ! x) \<subseteq> updates l" using w Uf Ul by blast+
  moreover have "waits (es ! w) - updates f \<subseteq> waits f" "waits (es ! x) - updates l \<subseteq> waits l" using w Wf Wl by blast+
  ultimately have "updates (es ! w) \<inter> waits (es ! x) = {}" "updates (es ! x) \<inter> waits (es ! w) = {}"
    using away by blast+
  moreover have "\<not> is_event (en_body (es ! w))" "\<not> is_event (en_body (es ! x))"
    using f(1) l(1) ev w unfolding carries_def by blast+
  ultimately show ?thesis by (simp add: dependent_def hasDataDependency_iff)
qed

text \<open>A merge: the survivor carries both.\<close>

lemma carries_merged:
  assumes "carries es f" "en_body f \<noteq> Null" "carries es l" "en_body l \<noteq> Null"
    and "\<not> is_event (en_body f)" "\<not> is_event (en_body l)"
    and "en_work m = en_work f @ en_work l" "en_body m \<noteq> Null" "\<not> is_event (en_body m)" "\<not> is_resolve (en_body m)"
    and "updates m = updates l \<union> updates f" "(waits l \<union> waits f) - updates f \<subseteq> waits m"
  shows "carries es m"
proof -
  have f: "updates f = (\<Union>w \<in> set (en_work f). updates (es ! w))"
    "(\<Union>w \<in> set (en_work f). waits (es ! w)) - updates f \<subseteq> waits f"
    "\<not> (\<exists>w \<in> set (en_work f). is_event (en_body (es ! w)))" "en_work f \<noteq> []"
    using assms(1,2,5) unfolding carries_def by blast+
  have l: "updates l = (\<Union>w \<in> set (en_work l). updates (es ! w))"
    "(\<Union>w \<in> set (en_work l). waits (es ! w)) - updates l \<subseteq> waits l"
    "\<not> (\<exists>w \<in> set (en_work l). is_event (en_body (es ! w)))"
    using assms(3,4,6) unfolding carries_def by blast+
  have "updates m = (\<Union>w \<in> set (en_work m). updates (es ! w))"
    unfolding assms(7,11) set_append UN_Un f(1) l(1) by (rule Un_commute)
  moreover have "(\<Union>w \<in> set (en_work m). waits (es ! w)) - updates m \<subseteq> waits m"
    using f(2) l(2) assms(12) unfolding assms(7,11) set_append UN_Un by blast
  moreover have "is_event (en_body m) \<longleftrightarrow> (\<exists>w \<in> set (en_work m). is_event (en_body (es ! w)))"
    using f(3) l(3) assms(9) unfolding assms(7) by auto
  moreover have "en_work m \<noteq> []" using f(4) assms(7) by simp
  ultimately show ?thesis using assms(8,10) unfolding carries_def by blast
qed

lemma carries_nullify: "carries es (nullify e)"
  by (simp add: carries_def nullify_def is_event_def is_resolve_def)

text \<open>A change of data that keeps kind, fences and work.\<close>

lemma carries_same:
  assumes "carries es e" "en_work e' = en_work e" "waits e' = waits e" "updates e' = updates e"
    and "(en_body e' = Null) = (en_body e = Null)" "is_event (en_body e') = is_event (en_body e)"
    "\<not> is_resolve (en_body e')"
  shows "carries es e'"
  using assms(1,7) unfolding carries_def assms(2-6) by blast

end
