(* ===== verification/EncoderOrder.thy ===== *)
theory EncoderOrder
  imports EncoderList
begin

text \<open>
  The optimised encoder list keeps the order that matters: no comparison and no run of the loops of
  \<open>flushCommands\<close> (EncoderList) puts work in front of work it depends on, and the fences of
  merged encoders still separate dependent encoders.
\<close>

subsection \<open>One comparison\<close>

text \<open>What a comparison of two encoders may do: keep both with their work, and say \<open>Swap\<close> only if
  they are independent, or move all the work of the former in front of that of the latter.\<close>

definition relation_ok :: "'c encoder list \<Rightarrow> 'c encoder \<Rightarrow> 'c encoder \<Rightarrow> 'c relation_result \<Rightarrow> bool" where
  "relation_ok es f l res \<longleftrightarrow>
     (case res of (op, f', l', th') \<Rightarrow>
        carries es f' \<and> carries es l' \<and> en_body l' \<noteq> Null
        \<and> (op = Swap \<longrightarrow> \<not> is_event (en_body f) \<and> \<not> is_event (en_body l) \<and> \<not> hasDataDependency l f)
        \<and> (en_body f' \<noteq> Null \<and> en_work f' = en_work f \<and> en_work l' = en_work l
           \<or> en_body f' = Null \<and> en_work l' = en_work f @ en_work l))"

lemma relation_okI:
  assumes "carries es f'" "carries es l'" "en_body l' \<noteq> Null"
    and "op = Swap \<Longrightarrow> \<not> is_event (en_body f) \<and> \<not> is_event (en_body l) \<and> \<not> hasDataDependency l f"
    and "en_body f' \<noteq> Null \<and> en_work f' = en_work f \<and> en_work l' = en_work l
      \<or> en_body f' = Null \<and> en_work l' = en_work f @ en_work l"
  shows "relation_ok es f l (op, f', l', th)"
  using assms by (simp add: relation_ok_def)

lemma dependency_same:
  assumes "waits f' = waits f" "updates f' = updates f" "waits l' = waits l" "updates l' = updates l"
  shows "hasDataDependency l' f' = hasDataDependency l f"
  using assms by (simp add: hasDataDependency_iff)

lemma by_dependency_ok:
  assumes "carries es f'" "carries es l'" "en_body l' \<noteq> Null" "en_body f' \<noteq> Null"
    and "\<not> is_event (en_body f)" "\<not> is_event (en_body l)"
    and "waits f' = waits f" "updates f' = updates f" "waits l' = waits l" "updates l' = updates l"
    and "en_work f' = en_work f" "en_work l' = en_work l"
  shows "relation_ok es f l (by_dependency f' l' th)"
proof -
  have "hasDataDependency l' f' = hasDataDependency l f" by (rule dependency_same) (use assms in simp_all)
  then show ?thesis using assms by (auto simp: by_dependency_def intro!: relation_okI)
qed

lemma render_fences:
  "waits (e\<lparr> en_body := Render r \<rparr>) = fences (en_fence_wait e) \<union> fences (fence_wait_vertex r)"
  "updates (e\<lparr> en_body := Render r \<rparr>) = fences (fence_update_vertex r) \<union> fences (en_fence_update e)"
  "en_body e = Render r \<Longrightarrow> waits e = fences (en_fence_wait e) \<union> fences (fence_wait_vertex r)"
  "en_body e = Render r \<Longrightarrow> updates e = fences (fence_update_vertex r) \<union> fences (en_fence_update e)"
  by (simp_all add: all_fences_Render all_waits_def all_updates_def fence_simps)

lemma other_fences:
  assumes "\<And>r. en_body e \<noteq> Render r"
  shows "waits e = fences (en_fence_wait e)" "updates e = fences (en_fence_update e)"
  using assms by (simp_all add: all_waits_def all_updates_def split: encoder_body.split)

lemma take_over_fences_simps [simp]:
  "fences (en_fence_update (take_over_fences s g)) = fences (en_fence_update s) \<union> fences (en_fence_update g)"
  "fences (en_fence_wait (take_over_fences s g))
     = (fences (en_fence_wait s) \<union> fences (en_fence_wait g)) - fences (en_fence_update g)"
  "en_body (take_over_fences s g) = en_body s" "en_work (take_over_fences s g) = en_work s"
  by (auto simp: take_over_fences_def fence_simps)

text \<open>The merges one by one.\<close>

lemma nullify_simps [simp]: "en_body (nullify e) = Null" "en_work (nullify e) = []"
  by (simp_all add: nullify_def)

lemma absorbed_clear_ok:
  assumes f: "carries es f" "en_body f = Clear c" and l: "carries es l" "en_body l = Render r"
    and r': "fence_wait_vertex r' = fence_wait_vertex r" "fence_update_vertex r' = fence_update_vertex r"
    and res: "absorb_clear f l r' = (f', l')"
  shows "relation_ok es f l (Synchronize, f', l', th)"
proof -
  have "f' = nullify f" and l': "l' = (take_over_fences l f)\<lparr> en_body := Render r', en_work := en_work f @ en_work l \<rparr>"
    using res by (simp_all add: absorb_clear_def)
  note fw = other_fences [of f, unfolded f, simplified] and lw = render_fences(3,4) [OF l(2)]
  have b: "en_body l' = Render r'" by (simp add: l')
  have "carries es l'"
  proof (rule carries_merged [OF f(1) _ l(1)])
    show "updates l' = updates l \<union> updates f"
      unfolding render_fences(4) [OF b] fw lw by (auto simp: l' r')
    show "(waits l \<union> waits f) - updates f \<subseteq> waits l'"
      unfolding render_fences(3) [OF b] fw lw by (auto simp: l' r')
  qed (simp_all add: f l l' is_event_def is_resolve_def)
  then show ?thesis
    using \<open>f' = nullify f\<close> by (auto intro!: relation_okI simp: carries_nullify l')
qed

lemma merged_renders_ok:
  assumes f: "carries es f" "en_body f = Render r0" and l: "carries es l" "en_body l = Render r1"
  shows "relation_ok es f l (Synchronize, nullify f, merge_renders f r0 l r1, th)"
proof -
  let ?m = "merge_renders f r0 l r1"
  note fw = render_fences(3,4) [OF f(2)] and lw = render_fences(3,4) [OF l(2)]
  have b: "en_body ?m = Render (merged_render r0 r1)" and w: "en_work ?m = en_work f @ en_work l"
    and eu: "fences (en_fence_update ?m) = fences (en_fence_update l) \<union> fences (en_fence_update f)"
    and ew: "fences (en_fence_wait ?m)
      = (fences (en_fence_wait l) \<union> fences (en_fence_wait f)) - fences (en_fence_update f) - fences (fence_update_vertex r0)"
    by (simp_all add: merge_renders_def Let_def fence_simps)
  have mu: "fences (fence_update_vertex (merged_render r0 r1)) = fences (fence_update_vertex r1) \<union> fences (fence_update_vertex r0)"
    and mw: "fences (fence_wait_vertex (merged_render r0 r1))
      = (fences (fence_wait_vertex r1) \<union> fences (fence_wait_vertex r0)) - fences (fence_update_vertex r0)"
    by (simp_all add: merged_render_def fence_simps)
  have "carries es ?m"
  proof (rule carries_merged [OF f(1) _ l(1)])
    show "updates ?m = updates l \<union> updates f"
      unfolding render_fences(4) [OF b] fw lw eu mu by blast
    show "(waits l \<union> waits f) - updates f \<subseteq> waits ?m"
      unfolding render_fences(3) [OF b] fw lw ew mw by blast
  qed (simp_all add: f l b w is_event_def is_resolve_def)
  then show ?thesis by (auto intro!: relation_okI simp: carries_nullify b w)
qed

lemma merged_blits_ok:
  assumes f: "carries es f" "en_body f = Blit c0" and l: "carries es l" "en_body l = Blit c1"
    and res: "tryMergeBlitEncoders f c0 l c1 = Some (f', l')"
  shows "relation_ok es f l (Swap, f', l', th)"
proof -
  have dep: "\<not> hasDataDependency l f" and f': "f' = nullify f"
    and l': "l' = (take_over_fences l f)\<lparr> en_body := Blit (c0 @ c1), en_work := en_work f @ en_work l \<rparr>"
    using res by (auto simp: tryMergeBlitEncoders_def split: if_splits)
  note fw = other_fences [of f, unfolded f, simplified] and lw = other_fences [of l, unfolded l, simplified]
  have mw: "waits l' = fences (en_fence_wait l')" "updates l' = fences (en_fence_update l')"
    by (simp_all add: other_fences l')
  have "carries es l'"
  proof (rule carries_merged [OF f(1) _ l(1)])
    show "updates l' = updates l \<union> updates f" unfolding mw fw lw by (auto simp: l')
    show "(waits l \<union> waits f) - updates f \<subseteq> waits l'" unfolding mw fw lw by (auto simp: l')
  qed (simp_all add: f l l' is_event_def is_resolve_def)
  then show ?thesis
    using f' dep by (auto intro!: relation_okI simp: carries_nullify l' f l is_event_def)
qed

text \<open>A change of the data of a clear or render encoder that leaves the fences of the pass alone.\<close>

definition same_pass_fences :: "'c render_data \<Rightarrow> 'c render_data \<Rightarrow> bool" where
  "same_pass_fences r r' \<longleftrightarrow> fence_wait_vertex r' = fence_wait_vertex r \<and> fence_update_vertex r' = fence_update_vertex r"

lemma same_pass_fences_merges:
  "same_pass_fences r (snd (merge_clear_depth c r))" "same_pass_fences r (snd (merge_clear_stencil c r))"
  "same_pass_fences r (merge_clear_color c i r)" "same_pass_fences r (drop_stores r c)"
  by (simp_all add: same_pass_fences_def merge_clear_depth_def merge_clear_stencil_def merge_clear_color_def
      drop_stores_def Let_def)

lemma same_pass_fences_trans:
  "\<lbrakk>same_pass_fences r r'; same_pass_fences r' r''\<rbrakk> \<Longrightarrow> same_pass_fences r r''"
  by (simp add: same_pass_fences_def)

lemma carries_Render_same:
  assumes "carries es e" "en_body e = Render r" "same_pass_fences r r'"
  shows "carries es (e\<lparr> en_body := Render r' \<rparr>)" "waits (e\<lparr> en_body := Render r' \<rparr>) = waits e"
    "updates (e\<lparr> en_body := Render r' \<rparr>) = updates e"
proof -
  note e = render_fences(3,4) [OF assms(2)]
  show w: "waits (e\<lparr> en_body := Render r' \<rparr>) = waits e" "updates (e\<lparr> en_body := Render r' \<rparr>) = updates e"
    using assms(3) unfolding render_fences(1,2) e by (simp_all add: same_pass_fences_def)
  show "carries es (e\<lparr> en_body := Render r' \<rparr>)"
    by (rule carries_same [OF assms(1) _ w]) (simp_all add: assms(2) is_event_def is_resolve_def)
qed

lemma carries_Clear_same:
  assumes "carries es e" "en_body e = Clear c"
  shows "carries es (e\<lparr> en_body := Clear c' \<rparr>)" "waits (e\<lparr> en_body := Clear c' \<rparr>) = waits e"
    "updates (e\<lparr> en_body := Clear c' \<rparr>) = updates e"
proof -
  show w: "waits (e\<lparr> en_body := Clear c' \<rparr>) = waits e" "updates (e\<lparr> en_body := Clear c' \<rparr>) = updates e"
    by (simp_all add: other_fences assms(2))
  show "carries es (e\<lparr> en_body := Clear c' \<rparr>)"
    by (rule carries_same [OF assms(1) _ w]) (simp_all add: assms(2) is_event_def is_resolve_def)
qed

lemma no_event: "\<not> is_event (Render r)" "\<not> is_event (Clear c)" "\<not> is_event (Blit cs)"
  by (simp_all add: is_event_def)

lemma check_clear_render_ok:
  assumes f: "carries es f" "en_body f = Clear c" and l: "carries es l" "en_body l = Render r"
  shows "relation_ok es f l (check_clear_render f c l r th)"
proof -
  obtain c1 r1 where 1: "merge_clear_depth c r = (c1, r1)" by fastforce
  obtain c2 r2 where 2: "merge_clear_stencil c1 r1 = (c2, r2)" by fastforce
  have r2: "same_pass_fences r r2"
    using same_pass_fences_trans same_pass_fences_merges(1) [of r c] same_pass_fences_merges(2) [of r1 c1] 1 2
    by fastforce
  obtain f' l' where a: "absorb_clear f l r2 = (f', l')" by fastforce
  have absorbed: "relation_ok es f l (Synchronize, f', l', th)"
    by (rule absorbed_clear_ok [OF f l _ _ a]) (use r2 in \<open>simp_all add: same_pass_fences_def\<close>)
  have changed: "relation_ok es f l (by_dependency (f\<lparr> en_body := Clear c2 \<rparr>) (l\<lparr> en_body := Render r2 \<rparr>) th)"
    by (rule by_dependency_ok)
       (simp_all add: carries_Clear_same [OF f] carries_Render_same [OF l r2] no_event f(2) l(2))
  have kept: "relation_ok es f l (by_dependency f l th)"
    by (rule by_dependency_ok) (simp_all add: f l no_event)
  have color: "relation_ok es f l (Synchronize, f'', l'', th)"
    if "absorb_clear f l (merge_clear_color c i r) = (f'', l'')" for i f'' l''
    by (rule absorbed_clear_ok [OF f l _ _ that])
       (use same_pass_fences_merges(3) [of r c i] in \<open>simp_all add: same_pass_fences_def\<close>)
  show ?thesis
    using absorbed changed kept color
    by (auto simp: check_clear_render_def 1 2 a split: option.split prod.split)
qed

lemma checkEncoderRelation_ok:
  assumes f: "carries es f" "en_body f \<noteq> Null" and l: "carries es l" "en_body l \<noteq> Null"
  shows "relation_ok es f l (checkEncoderRelation f l th)"
proof (cases "is_event (en_body f) \<or> is_event (en_body l)")
  case True
  then show ?thesis using assms by (auto simp: checkEncoderRelation_def intro!: relation_okI)
next
  case False
  then have ev: "\<not> is_event (en_body f)" "\<not> is_event (en_body l)" by simp_all
  have kept: "relation_ok es f l (by_dependency f l th)"
    by (rule by_dependency_ok) (simp_all add: assms ev)
  have no_resolve: "\<not> is_resolve (en_body l)"
    using l(1) by (simp add: carries_def)
  consider (blits) c0 c1 where "en_body f = Blit c0" "en_body l = Blit c1"
    | (clear_render) c r where "en_body f = Clear c" "en_body l = Render r"
    | (render_clear) r c where "en_body f = Render r" "en_body l = Clear c"
    | (renders) r0 r1 where "en_body f = Render r0" "en_body l = Render r1"
    | (other) "checkEncoderRelation f l th = by_dependency f l th"
    using no_resolve ev assms
    by (cases "en_body f"; cases "en_body l") (simp_all add: checkEncoderRelation_def is_resolve_def)
  then show ?thesis
  proof cases
    case blits
    have "relation_ok es f l (Synchronize, f, l, th)" using assms by (auto intro!: relation_okI)
    then show ?thesis
      using merged_blits_ok [OF f(1) blits(1) l(1) blits(2)] blits
      by (auto simp: checkEncoderRelation_def no_event split: option.split)
  next
    case clear_render
    show ?thesis
      using check_clear_render_ok [OF f(1) clear_render(1) l(1) clear_render(2)] clear_render
      by (simp add: checkEncoderRelation_def no_event)
  next
    case render_clear
    have "relation_ok es f l (by_dependency (f\<lparr> en_body := Render (drop_stores r c) \<rparr>) l th)"
      by (rule by_dependency_ok)
         (simp_all add: carries_Render_same [OF f(1) render_clear(1) same_pass_fences_merges(4)] l ev)
    then show ?thesis using render_clear by (simp add: checkEncoderRelation_def no_event)
  next
    case renders
    show ?thesis
      using merged_renders_ok [OF f(1) renders(1) l(1) renders(2)] kept renders
      by (simp add: checkEncoderRelation_def check_renders_def no_event)
  next
    case other
    then show ?thesis using kept by simp
  qed
qed

subsection \<open>The loops\<close>

lemma check_latter_Null: "en_body f = Null \<Longrightarrow> check_latter f ls th = (f, ls, th)"
  by (induction ls arbitrary: th) (simp_all add: checkEncoderRelation_def)

text \<open>After the inner loop the work of the former has moved behind work \<open>xs\<close> it does not depend on.\<close>

lemma check_latter_ok:
  assumes "check_latter f ls th = (f', ls', th')"
    and "carries es f" "en_body f \<noteq> Null" "\<forall>l \<in> set ls. carries es l" "updates_disjoint es"
    and "set (en_work f) \<inter> set (work_list ls) = {}" "set (en_work f) \<union> set (work_list ls) \<subseteq> {..<length es}"
  shows "carries es f' \<and> (\<forall>l \<in> set ls'. carries es l) \<and>
    (\<exists>xs ys. work_list ls = xs @ ys \<and> en_work f' @ work_list ls' = xs @ en_work f @ ys
       \<and> (\<forall>w \<in> set (en_work f). \<forall>x \<in> set xs. \<not> dependent es w x)
       \<and> (en_body f' \<noteq> Null \<longrightarrow> xs = [] \<and> en_work f' = en_work f))"
  using assms
proof (induction ls arbitrary: f th f' ls' th')
  case Nil
  then show ?case by auto
next
  case (Cons l ls)
  note IH = Cons.IH
  have l: "carries es l" and ls: "\<forall>l \<in> set ls. carries es l" using Cons.prems(4) by auto
  have apart: "set (en_work f) \<inter> set (en_work l) = {}" "set (en_work f) \<inter> set (work_list ls) = {}"
    "set (en_work f) \<union> set (en_work l) \<subseteq> {..<length es}" "set (en_work f) \<union> set (work_list ls) \<subseteq> {..<length es}"
    using Cons.prems(6,7) by auto
  show ?case
  proof (cases "en_body l = Null")
    case True
    obtain ls1 where c: "check_latter f ls th = (f', ls1, th')" and ls': "ls' = l # ls1"
      using Cons.prems(1) True by (auto split: prod.splits)
    have "en_work l = []" using l True by (simp add: carries_def)
    then show ?thesis
      using IH [OF c Cons.prems(2,3) ls Cons.prems(5) apart(2,4)] l by (simp add: ls')
  next
    case False
    obtain op f1 l1 th1 where r: "checkEncoderRelation f l th = (op, f1, l1, th1)" by (metis prod_cases4)
    have ok: "carries es f1" "carries es l1" "en_body l1 \<noteq> Null"
      and swap: "op = Swap \<Longrightarrow> \<not> is_event (en_body f) \<and> \<not> is_event (en_body l) \<and> \<not> hasDataDependency l f"
      and works: "en_body f1 \<noteq> Null \<and> en_work f1 = en_work f \<and> en_work l1 = en_work l
        \<or> en_body f1 = Null \<and> en_work l1 = en_work f @ en_work l"
      using checkEncoderRelation_ok [OF Cons.prems(2,3) l False, of th] r by (simp_all add: relation_ok_def)
    have null: "en_body f1 = Null \<Longrightarrow> en_work f1 = []" using ok(1) by (simp add: carries_def)
    show ?thesis
    proof (cases "en_body f1 = Null")
      case True
      then have "f' = f1" "ls' = l1 # ls"
        using Cons.prems(1) False r by (cases op; auto simp: check_latter_Null split: prod.splits)+
      then show ?thesis
        using ok ls works True null by (intro conjI exI [of _ "[]"] exI [of _ "work_list (l # ls)"]) auto
    next
      case keep: False
      then have w: "en_work f1 = en_work f" "en_work l1 = en_work l" using works by auto
      show ?thesis
      proof (cases op)
        case Synchronize
        then have "f' = f1" "ls' = l1 # ls" using Cons.prems(1) False r by auto
        then show ?thesis
          using ok ls w by (intro conjI exI [of _ "[]"] exI [of _ "work_list (l # ls)"]) auto
      next
        case Swap
        obtain ls1 where c: "check_latter f1 ls th1 = (f', ls1, th')" and ls': "ls' = l1 # ls1"
          using Cons.prems(1) False r Swap by (auto split: prod.splits)
        obtain xs ys where 1: "carries es f'" "\<forall>l \<in> set ls1. carries es l" "work_list ls = xs @ ys"
            "en_work f' @ work_list ls1 = xs @ en_work f @ ys"
            "\<forall>w \<in> set (en_work f). \<forall>x \<in> set xs. \<not> dependent es w x"
            "en_body f' \<noteq> Null \<longrightarrow> xs = [] \<and> en_work f' = en_work f"
          using IH [OF c ok(1) keep ls Cons.prems(5)] apart w by auto
        have indep: "\<not> dependent es w x" if "w \<in> set (en_work f)" "x \<in> set (en_work l)" for w x
          using carries_independent [OF Cons.prems(2,3) l False _ _ _ Cons.prems(5) apart(1,3) that] swap [OF Swap]
          by blast
        show ?thesis
        proof (cases "en_body f' = Null")
          case True
          then have "en_work f' = []" using 1(1) by (simp add: carries_def)
          then show ?thesis
            using 1 indep w ls' ok(2) True
            by (intro conjI exI [of _ "en_work l @ xs"] exI [of _ ys]) auto
        next
          case False
          then show ?thesis
            using 1 w ls' ok(2)
            by (intro conjI exI [of _ "[]"] exI [of _ "work_list (l # ls)"]) auto
        qed
      qed
    qed
  qed
qed

text \<open>The list as recorded: every encoder has its own work and fences no other updates, and there is no
  resolve (what those do to the order is shown below).\<close>

definition recorded :: "'c encoder list \<Rightarrow> bool" where
  "recorded es \<longleftrightarrow> updates_disjoint es \<and>
     (\<forall>k < length es. en_work (es ! k) = [k] \<and> en_body (es ! k) \<noteq> Null \<and> \<not> is_resolve (en_body (es ! k)))"

definition in_order :: "'c encoder list \<Rightarrow> nat \<Rightarrow> nat \<Rightarrow> bool" where
  "in_order es x y \<longleftrightarrow> \<not> (y < x \<and> dependent es y x)"

lemma recorded_carries: "recorded es \<Longrightarrow> k < length es \<Longrightarrow> carries es (es ! k)"
  by (simp add: recorded_def carries_def)

lemma check_latter_length: "check_latter f ls th = (f', ls', th') \<Longrightarrow> length ls' = length ls"
  by (induction ls arbitrary: f th f' ls' th') (auto split: prod.splits list_op.splits if_splits)

lemma optimise_length: "optimise_encoders es th = (es', th') \<Longrightarrow> length es' = length es"
  by (induction es arbitrary: es' th') (auto dest: check_latter_length split: prod.splits if_splits)

lemma optimise_suffix:
  assumes "recorded es" "k \<le> length es" "optimise_encoders (drop k es) th = (es', th')"
  shows "(\<forall>e \<in> set es'. carries es e) \<and> distinct (work_list es') \<and> set (work_list es') = {k..<length es}
    \<and> sorted_wrt (in_order es) (work_list es')"
  using assms(2,3)
proof (induction "length es - k" arbitrary: k es' th')
  case 0
  then show ?case by simp
next
  case (Suc d)
  then have k: "k < length es" by simp
  let ?e = "es ! k"
  have drop: "drop k es = ?e # drop (Suc k) es" using k by (simp add: Cons_nth_drop_Suc)
  have e: "en_work ?e = [k]" "en_body ?e \<noteq> Null" "carries es ?e" "updates_disjoint es"
    using assms(1) k by (simp_all add: recorded_def recorded_carries)
  obtain es1 th1 where o: "optimise_encoders (drop (Suc k) es) th = (es1, th1)" by fastforce
  have IH: "\<forall>e \<in> set es1. carries es e" "distinct (work_list es1)" "set (work_list es1) = {Suc k..<length es}"
    "sorted_wrt (in_order es) (work_list es1)"
    using Suc.hyps(1) [of "Suc k"] Suc.hyps(2) k o by simp_all
  show ?case
  proof (cases "movable (en_body ?e)")
    case False
    then have "es' = ?e # es1" using Suc.prems(2) by (simp add: drop o)
    then show ?thesis using IH e k by (auto simp: in_order_def)
  next
    case True
    obtain f ls where c: "check_latter ?e es1 th1 = (f, ls, th')" and es': "es' = f # ls"
      using Suc.prems(2) True by (auto simp: drop o split: prod.splits)
    obtain xs ys where 1: "carries es f" "\<forall>l \<in> set ls. carries es l" "work_list es1 = xs @ ys"
        "en_work f @ work_list ls = xs @ [k] @ ys" "\<forall>x \<in> set xs. \<not> dependent es k x"
    proof -
      have "set (en_work ?e) \<inter> set (work_list es1) = {}" "set (en_work ?e) \<union> set (work_list es1) \<subseteq> {..<length es}"
        using e(1) IH(3) k by auto
      from check_latter_ok [OF c e(3,2) IH(1) e(4) this] show ?thesis
        unfolding e(1) list.set by (blast intro: that)
    qed
    have w: "work_list es' = xs @ [k] @ ys" using 1(4) by (simp add: es')
    have S: "set xs \<union> set ys = {Suc k..<length es}" "distinct (xs @ ys)" "sorted_wrt (in_order es) (xs @ ys)"
      using IH(2-4) by (simp_all add: 1(3))
    have later: "k < x" if "x \<in> set xs \<or> x \<in> set ys" for x
      using that S(1) by (metis UnCI Suc_le_lessD atLeastLessThan_iff)
    have "set (work_list es') = insert k (set xs \<union> set ys)" unfolding w by simp
    also have "\<dots> = {k..<length es}" unfolding S(1) using k by auto
    finally have "set (work_list es') = {k..<length es}" .
    moreover have "distinct (work_list es')" using S(2) later unfolding w by auto
    moreover have "sorted_wrt (in_order es) (work_list es')"
    proof -
      have "\<forall>x \<in> set xs. in_order es x k" using 1(5) by (simp add: in_order_def)
      moreover have "\<forall>y \<in> set ys. in_order es k y" using later less_not_sym unfolding in_order_def by blast
      ultimately show ?thesis using S(3) unfolding w by (simp add: sorted_wrt_append)
    qed
    ultimately show ?thesis using 1(1,2) by (simp add: es')
  qed
qed

text \<open>A small list for the witnesses: a clear, a blit, a pass over the target cleared, another blit.\<close>

definition sample_target :: texture_ref where
  "sample_target = \<lparr> tr_allocation = 0, tr_key = view_key_of (full_descriptor sample_info) 0 1 \<rparr>"

definition sample_color :: color_attachment where
  "sample_color = \<lparr> ca_attachment = Some sample_target, ca_buffer = None, ca_buffer_texture = None,
     ca_buffer_view_id = 0, ca_load = Load_Load, ca_store = Store_Store, ca_depth_plane = 0,
     ca_clear = (0, 0, 0, 0), ca_resolve = None \<rparr>"

definition sample_plane :: "'k::zero plane_attachment" where
  "sample_plane = \<lparr> pa_attachment = None, pa_load = Load_DontCare, pa_store = Store_DontCare, pa_level = 0,
     pa_slice = 0, pa_depth_plane = 0, pa_clear = 0 \<rparr>"

definition sample_render :: "nat render_data" where
  "sample_render = \<lparr> rd_colors = [sample_color], rd_depth = sample_plane, rd_stencil = sample_plane,
     render_target_array_length = 0, gs_arg_marshal_tasks = [], ts_arg_marshal_tasks = [],
     rd_commands = [Other_command 7], allocated_argbuf = 1, allocated_argbuf_size = 64, fence_wait_vertex = fs_empty,
     fence_update_vertex = fs_singleton 2, dsv_planar_flags = 0, dsv_readonly_flags = 0, render_target_count = 1,
     use_visibility_result = False, use_tessellation = False, use_geometry = False \<rparr>"

definition sample_clear :: clear_data where
  "sample_clear = \<lparr> cl_color = (1, 1, 1, 1), cl_depth = 0, cl_stencil = 0, cl_attachment = Some sample_target,
     cl_buffer = None, cl_buffer_texture = None, cl_buffer_view_id = 0, clear_dsv = 0, array_length = 0,
     cl_level = 0, cl_slice = 0, cl_depth_plane = 0, cl_stencil_depth_plane = 1 \<rparr>"

definition sample_encoder :: "nat \<Rightarrow> nat encoder_body \<Rightarrow> fence_set \<Rightarrow> fence_set \<Rightarrow> nat encoder" where
  "sample_encoder k b w u = \<lparr> en_body = b, en_fence_wait = w, en_fence_update = u, en_work = [k] \<rparr>"

definition sample_encoders :: "nat encoder list" where
  "sample_encoders =
     [sample_encoder 0 (Clear sample_clear) fs_empty (fs_singleton 0), sample_encoder 1 (Blit [3]) fs_empty (fs_singleton 1),
      sample_encoder 2 (Render sample_render) (fs_singleton 0) (fs_singleton 3),
      sample_encoder 3 (Blit [4]) (fs_singleton 2) (fs_singleton 4)]"

definition sample_heap :: texture_heap where
  "sample_heap = \<lparr> th_descriptor = id, th_texture = (\<lambda>_. new_texture sample_info) \<rparr>"

lemma fences_singleton: "fences (fs_singleton i) = {unat i mod 256}"
  by (simp add: fs_singleton_def fence_simps slot_mod)

lemma sample_fences:
  "updates (sample_encoder k (Blit cs) w u) = fences u" "waits (sample_encoder k (Blit cs) w u) = fences w"
  "updates (sample_encoder k (Clear c) w u) = fences u" "waits (sample_encoder k (Clear c) w u) = fences w"
  "updates (sample_encoder k (Render sample_render) w u) = insert 2 (fences u)"
  "waits (sample_encoder k (Render sample_render) w u) = fences w"
  by (simp_all add: sample_encoder_def all_updates_def all_waits_def sample_render_def fence_simps fences_singleton)

lemma sample_indices: "(\<forall>k < length sample_encoders. P k) \<longleftrightarrow> P 0 \<and> P 1 \<and> P 2 \<and> P (3 :: nat)"
  by (auto simp: sample_encoders_def All_less_Suc numeral_eq_Suc)

lemma sample_recorded: "recorded sample_encoders"
  unfolding recorded_def updates_disjoint_def sample_indices
  by (simp add: sample_encoders_def sample_fences fences_singleton) (simp add: sample_encoder_def is_resolve_def)

lemma sample_encoder_simps [simp]:
  "en_body (sample_encoder k b w u) = b" "en_work (sample_encoder k b w u) = [k]"
  by (simp_all add: sample_encoder_def)

lemma sample_dependencies:
  "hasDataDependency (sample_encoders ! 3) (sample_encoders ! 2)"
  "\<not> hasDataDependency (sample_encoders ! 2) (sample_encoders ! 1)"
  "\<not> hasDataDependency (sample_encoders ! 3) (sample_encoders ! 1)"
  by (simp_all add: sample_encoders_def hasDataDependency_iff sample_fences fences_singleton fence_simps)

lemma sample_relations:
  "checkEncoderRelation (sample_encoders ! 2) (sample_encoders ! 3) th = (Synchronize, sample_encoders ! 2, sample_encoders ! 3, th)"
  "checkEncoderRelation (sample_encoders ! 1) (sample_encoders ! 2) th = (Swap, sample_encoders ! 1, sample_encoders ! 2, th)"
  "\<exists>l. checkEncoderRelation (sample_encoders ! 1) (sample_encoders ! 3) th = (Swap, nullify (sample_encoders ! 1), l, th)
     \<and> en_work l = [1, 3]"
  "\<exists>l. checkEncoderRelation (sample_encoders ! 0) (sample_encoders ! 2) th = (Synchronize, nullify (sample_encoders ! 0), l, th)
     \<and> en_work l = [0, 2]"
  using sample_dependencies
  by (simp_all add: sample_encoders_def checkEncoderRelation_def is_event_def by_dependency_def tryMergeBlitEncoders_def
      check_clear_render_def sample_render_def sample_clear_def isClearColorSignatureMatched_def sample_color_def
      absorb_clear_def)

lemma sample_optimised:
  "map en_work (fst (optimise_encoders sample_encoders sample_heap)) = [[], [], [0, 2], [1, 3]]"
proof -
  obtain a b c d where es: "sample_encoders = [a, b, c, d]"
    and bodies: "en_body a = Clear sample_clear" "en_body b = Blit [3]" "en_body c = Render sample_render" "en_body d = Blit [4]"
    by (simp add: sample_encoders_def)
  obtain l0 l1 where
    "checkEncoderRelation b d sample_heap = (Swap, nullify b, l1, sample_heap)" "en_work l1 = [1, 3]"
    "checkEncoderRelation a c sample_heap = (Synchronize, nullify a, l0, sample_heap)" "en_work l0 = [0, 2]"
    using sample_relations(3,4) [of sample_heap] by (auto simp: es)
  moreover have "checkEncoderRelation c d sample_heap = (Synchronize, c, d, sample_heap)"
    "checkEncoderRelation b c sample_heap = (Swap, b, c, sample_heap)"
    "checkEncoderRelation a (nullify b) sample_heap = (Swap, a, nullify b, sample_heap)"
    using sample_relations(1,2) [of sample_heap] by (simp_all add: es checkEncoderRelation_def)
  ultimately show ?thesis using bodies by (simp add: es)
qed





subsection \<open>Resolves\<close>

text \<open>A resolve merged into an earlier pass can overtake an encoder it has to follow. The pass is
  compared with the resolve also when encoders stand between the two, and the merge asks for no
  independence from them: if the one between reads the destination of the resolve (so that the resolve
  waits for its fence), the resolve is now done before it, in a pass that waits for a fence only a
  later encoder updates.\<close>

theorem resolve_overtakes_reader:
  assumes f: "en_body f = Render r" and x: "en_body x = Compute" and s: "en_body s = Resolve resolve"
    and free: "\<not> hasDataDependency x f"
    and match: "isResolveSignatureMatched r resolve th = (Some (i, dst), th1)"
    and waits: "k \<in> updates x" "k \<in> waits s" "k \<notin> updates s"
  shows "\<exists>f'. check_latter f [x, s] th = (f', [x, nullify s], th1) \<and> en_work f' = en_work f @ en_work s
    \<and> hasDataDependency s x \<and> k \<in> waits f'"
proof -
  have "checkEncoderRelation f x th = (Swap, f, x, th)"
    using f x free by (simp add: checkEncoderRelation_def is_event_def by_dependency_def)
  moreover have "checkEncoderRelation f s th = (Swap, absorb_resolve f r i dst s, nullify s, th1)"
    using f s match by (simp add: checkEncoderRelation_def is_event_def check_render_resolve_def)
  moreover have "k \<in> waits (absorb_resolve f r i dst s)"
    using waits other_fences [of s, unfolded s, simplified]
    by (simp add: absorb_resolve_def all_waits_def fence_simps)
  moreover have "hasDataDependency s x" using waits by (auto simp: hasDataDependency_iff)
  ultimately show ?thesis using x s by (simp add: absorb_resolve_def)
qed

definition sample_resolve :: resolve_data where
  "sample_resolve = \<lparr> rs_src = sample_target, rs_dst = sample_target\<lparr> tr_allocation := 1 \<rparr>, rs_pso = None, rs_src_rect = None \<rparr>"

lemma resolve_overtakes_reader_witness:
  "\<exists>f'. check_latter (sample_encoders ! 2)
       [sample_encoder 3 Compute fs_empty (fs_singleton 4), sample_encoder 4 (Resolve sample_resolve) (fs_singleton 4) (fs_singleton 5)]
       sample_heap = (f', [sample_encoder 3 Compute fs_empty (fs_singleton 4),
         nullify (sample_encoder 4 (Resolve sample_resolve) (fs_singleton 4) (fs_singleton 5))], sample_heap)
     \<and> en_work f' = [2, 4] \<and> 4 \<in> waits f'"
proof -
  have "isResolveSignatureMatched sample_render sample_resolve sample_heap
      = (Some (0, sample_target\<lparr> tr_allocation := 1 \<rparr>), sample_heap)"
    by (simp add: isResolveSignatureMatched_def sample_render_def sample_resolve_def sample_color_def)
  moreover have "updates (sample_encoder 3 Compute fs_empty (fs_singleton 4)) = {4}"
    "waits (sample_encoder 4 (Resolve sample_resolve) (fs_singleton 4) (fs_singleton 5)) = {4}"
    "updates (sample_encoder 4 (Resolve sample_resolve) (fs_singleton 4) (fs_singleton 5)) = {5}"
    "waits (sample_encoder 3 Compute fs_empty (fs_singleton 4)) = {}"
    by (simp_all add: sample_encoder_def all_updates_def all_waits_def fences_singleton fence_simps)
  moreover have "updates (sample_encoders ! 2) \<subseteq> {2, 3}" "waits (sample_encoders ! 2) = {0}"
    by (simp_all add: sample_encoders_def sample_fences fences_singleton)
  ultimately show ?thesis
    using resolve_overtakes_reader [of "sample_encoders ! 2" sample_render "sample_encoder 3 Compute fs_empty (fs_singleton 4)"
        "sample_encoder 4 (Resolve sample_resolve) (fs_singleton 4) (fs_singleton 5)" sample_resolve sample_heap 0
        "sample_target\<lparr> tr_allocation := 1 \<rparr>" sample_heap 4]
    by (auto simp: hasDataDependency_iff sample_encoders_def)
qed

end
