(* ===== verification/EncoderPass.thy ===== *)
theory EncoderPass
  imports EncoderOrder
begin

text \<open>
  What a render pass does, to compare a merged pass with the passes it replaces (EncoderList): the
  contents of attachments, loaded and stored by the actions of the pass; the argument buffers bound at
  the start of a pass (\<open>flushCommands\<close>, src/src/dxmt/dxmt_context.cpp); the commands in order. Metal's
  part is stated as it is documented: a load action fills the tile from the attachment, with the clear
  value, or with nothing defined; a store action keeps the tile, resolves it, or leaves the attachment
  undefined. What a draw does to the encoder state and the tile is a parameter.
\<close>

subsection \<open>Attachments in memory\<close>

datatype location =
    Color_at "texture_ref option" "nat option" u64 u32
  | Depth_at "texture_ref option" u16 u16 u32
  | Stencil_at "texture_ref option" u16 u16 u32

datatype slot = Color nat | Depth | Stencil

definition color_location :: "color_attachment \<Rightarrow> location" where
  "color_location a = Color_at (ca_attachment a) (ca_buffer a) (ca_buffer_view_id a) (ca_depth_plane a)"

definition resolve_location :: "texture_ref \<Rightarrow> location" where
  "resolve_location t = Color_at (Some t) None 0 0"

text \<open>Contents: None where they are undefined.\<close>

type_synonym 'i memory = "location \<Rightarrow> 'i option"
type_synonym 'i tile = "slot \<Rightarrow> 'i option"

text \<open>The images clear values make, and resolving.\<close>

record 'i images =
  clear_color_image :: "clear_color \<Rightarrow> 'i"
  clear_depth_image :: "u32 \<Rightarrow> 'i"
  clear_stencil_image :: "u8 \<Rightarrow> 'i"
  resolve_image :: "'i \<Rightarrow> 'i"

record 'i target =
  tg_location :: location
  tg_load :: load_action
  tg_store :: store_action
  tg_clear :: 'i
  tg_resolve :: "location option"

text \<open>The attachments of the pass: those the encoder puts into \<open>WMTRenderPassInfo\<close>.\<close>

definition color_target :: "'i images \<Rightarrow> color_attachment \<Rightarrow> 'i target option" where
  "color_target im a =
     (if ca_attachment a = None \<and> ca_buffer_texture a = None then None
      else Some \<lparr> tg_location = color_location a, tg_load = ca_load a, tg_store = ca_store a,
                  tg_clear = clear_color_image im (ca_clear a), tg_resolve = map_option resolve_location (ca_resolve a) \<rparr>)"

definition plane_target ::
  "(texture_ref option \<Rightarrow> u16 \<Rightarrow> u16 \<Rightarrow> u32 \<Rightarrow> location) \<Rightarrow> ('k \<Rightarrow> 'i) \<Rightarrow> 'k plane_attachment \<Rightarrow> 'i target option"
where
  "plane_target loc im p =
     (if pa_attachment p = None then None
      else Some \<lparr> tg_location = loc (pa_attachment p) (pa_level p) (pa_slice p) (pa_depth_plane p),
                  tg_load = pa_load p, tg_store = pa_store p, tg_clear = im (pa_clear p), tg_resolve = None \<rparr>)"

fun pass_target :: "'i images \<Rightarrow> 'c render_data \<Rightarrow> slot \<Rightarrow> 'i target option" where
  "pass_target im r (Color i) = (if i < length (rd_colors r) then color_target im (rd_colors r ! i) else None)"
| "pass_target im r Depth = plane_target Depth_at (clear_depth_image im) (rd_depth r)"
| "pass_target im r Stencil = plane_target Stencil_at (clear_stencil_image im) (rd_stencil r)"

definition load_target :: "'i memory \<Rightarrow> 'i target \<Rightarrow> 'i option" where
  "load_target mem t =
     (case tg_load t of Load_Load \<Rightarrow> mem (tg_location t) | Load_Clear \<Rightarrow> Some (tg_clear t) | Load_DontCare \<Rightarrow> None)"

definition load_tile :: "'i images \<Rightarrow> 'c render_data \<Rightarrow> 'i memory \<Rightarrow> 'i tile" where
  "load_tile im r mem s = Option.bind (pass_target im r s) (load_target mem)"

text \<open>The slots store one after the other; a slot may store its tile, the resolved tile, or leave its
  attachment undefined.\<close>

definition store_target :: "'i images \<Rightarrow> 'i option \<Rightarrow> 'i target \<Rightarrow> 'i memory \<Rightarrow> 'i memory" where
  "store_target im v t mem =
     (let mem = mem(tg_location t := (if tg_store t \<in> {Store_Store, Store_StoreAndResolve} then v else None))
      in case tg_resolve t of
           None \<Rightarrow> mem
         | Some loc \<Rightarrow> if tg_store t \<in> {Store_Resolve, Store_StoreAndResolve}
                       then mem(loc := map_option (resolve_image im) v) else mem)"

definition store_slot :: "'i images \<Rightarrow> 'c render_data \<Rightarrow> 'i tile \<Rightarrow> slot \<Rightarrow> 'i memory \<Rightarrow> 'i memory" where
  "store_slot im r tile s mem =
     (case pass_target im r s of None \<Rightarrow> mem | Some t \<Rightarrow> store_target im (tile s) t mem)"

definition pass_slots :: "slot list" where
  "pass_slots = map Color [0..<8] @ [Depth, Stencil]"

definition store_tile :: "'i images \<Rightarrow> 'c render_data \<Rightarrow> 'i tile \<Rightarrow> 'i memory \<Rightarrow> 'i memory" where
  "store_tile im r tile mem = fold (store_slot im r tile) pass_slots mem"

subsection \<open>Commands\<close>

text \<open>The state of an encoder: the buffers bound, everything else (\<open>'s\<close>), the tile. A command other
  than setting a buffer may read all of it, and changes the rest of the state and the attached slots
  of the tile.\<close>

type_synonym bindings = "shader_stage \<times> nat \<Rightarrow> nat option"
type_synonym ('c, 's, 'i) draw = "'c \<Rightarrow> bindings \<Rightarrow> 's \<Rightarrow> 'i tile \<Rightarrow> 's \<times> 'i tile"

fun attached :: "'c render_data \<Rightarrow> slot \<Rightarrow> bool" where
  "attached r (Color i) \<longleftrightarrow> i < length (rd_colors r)
     \<and> (ca_attachment (rd_colors r ! i) \<noteq> None \<or> ca_buffer_texture (rd_colors r ! i) \<noteq> None)"
| "attached r Depth \<longleftrightarrow> pa_attachment (rd_depth r) \<noteq> None"
| "attached r Stencil \<longleftrightarrow> pa_attachment (rd_stencil r) \<noteq> None"

fun run_command ::
  "('c, 's, 'i) draw \<Rightarrow> (slot \<Rightarrow> bool) \<Rightarrow> 'c render_command \<Rightarrow> bindings \<times> 's \<times> 'i tile \<Rightarrow> bindings \<times> 's \<times> 'i tile"
where
  "run_command draw slots (Set_buffer st i b) (bd, s, tile) = (bd((st, i) \<mapsto> b), s, tile)"
| "run_command draw slots (Other_command c) (bd, s, tile) =
     (case draw c bd s tile of (s', tile') \<Rightarrow> (bd, s', (\<lambda>k. if slots k then tile' k else None)))"

definition run_commands ::
  "('c, 's, 'i) draw \<Rightarrow> (slot \<Rightarrow> bool) \<Rightarrow> 'c render_command list \<Rightarrow> bindings \<times> 's \<times> 'i tile \<Rightarrow> bindings \<times> 's \<times> 'i tile"
where
  "run_commands draw slots cs = fold (run_command draw slots) cs"

text \<open>The argument buffers \<open>flushCommands\<close> binds when it begins the pass.\<close>

definition start_bindings :: "'c render_data \<Rightarrow> 'c render_command list" where
  "start_bindings r =
     (let b = allocated_argbuf r in
      (if allocated_argbuf_size r \<noteq> 0 then
         [Set_buffer Vertex_stage 16 b, Set_buffer Vertex_stage 29 b, Set_buffer Vertex_stage 30 b,
          Set_buffer Fragment_stage 29 b, Set_buffer Fragment_stage 30 b]
       else [])
      @ (if (use_geometry r \<or> use_tessellation r) \<and> allocated_argbuf_size r \<noteq> 0 then
           [Set_buffer Object_stage 16 b, Set_buffer Object_stage 21 b]
           @ (if use_tessellation r then [Set_buffer Object_stage 27 b, Set_buffer Object_stage 28 b] else [])
           @ [Set_buffer Object_stage 29 b, Set_buffer Object_stage 30 b,
              Set_buffer Mesh_stage 29 b, Set_buffer Mesh_stage 30 b]
         else []))"

definition run_pass ::
  "('c, 's, 'i) draw \<Rightarrow> 'i images \<Rightarrow> 's \<Rightarrow> 'c render_data \<Rightarrow> 'i memory \<Rightarrow> 'i memory"
where
  "run_pass draw im s0 r mem =
     (case run_commands draw (attached r) (start_bindings r @ rd_commands r) (Map.empty, s0, load_tile im r mem) of
        (bd, s, tile) \<Rightarrow> store_tile im r tile mem)"

text \<open>A clear encoder is a pass of its own that clears and stores.\<close>

definition clear_locations :: "clear_data \<Rightarrow> location list" where
  "clear_locations c =
     (if clear_dsv c \<noteq> 0 then
        (if clear_dsv c AND 1 \<noteq> 0 then [Depth_at (cl_attachment c) (cl_level c) (cl_slice c) (cl_depth_plane c)] else [])
        @ (if clear_dsv c AND 2 \<noteq> 0
           then [Stencil_at (cl_attachment c) (cl_level c) (cl_slice c) (cl_stencil_depth_plane c)] else [])
      else [Color_at (cl_attachment c) (cl_buffer c) (cl_buffer_view_id c) (cl_depth_plane c)])"

fun clear_value :: "'i images \<Rightarrow> clear_data \<Rightarrow> location \<Rightarrow> 'i" where
  "clear_value im c (Color_at a b v p) = clear_color_image im (cl_color c)"
| "clear_value im c (Depth_at a l k p) = clear_depth_image im (cl_depth c)"
| "clear_value im c (Stencil_at a l k p) = clear_stencil_image im (cl_stencil c)"

definition run_clear :: "'i images \<Rightarrow> clear_data \<Rightarrow> 'i memory \<Rightarrow> 'i memory" where
  "run_clear im c mem = (\<lambda>loc. if loc \<in> set (clear_locations c) then Some (clear_value im c loc) else mem loc)"

fun run_encoder :: "('c, 's, 'i) draw \<Rightarrow> 'i images \<Rightarrow> 's \<Rightarrow> 'c encoder_body \<Rightarrow> 'i memory \<Rightarrow> 'i memory" where
  "run_encoder draw im s0 (Render r) mem = run_pass draw im s0 r mem"
| "run_encoder draw im s0 (Clear c) mem = run_clear im c mem"
| "run_encoder draw im s0 _ mem = mem"

subsection \<open>Bindings\<close>

text \<open>The argument slots of a pass, and a state in which they hold its buffer.\<close>

definition argument_slots :: "bool \<Rightarrow> bool \<Rightarrow> (shader_stage \<times> nat) set" where
  "argument_slots geometry tessellation =
     {(Vertex_stage, 16), (Vertex_stage, 29), (Vertex_stage, 30), (Fragment_stage, 29), (Fragment_stage, 30)}
     \<union> (if geometry \<or> tessellation then
          {(Object_stage, 16), (Object_stage, 21), (Object_stage, 29), (Object_stage, 30), (Mesh_stage, 29), (Mesh_stage, 30)}
        else {})
     \<union> (if tessellation then {(Object_stage, 27), (Object_stage, 28)} else {})"

definition bound_to :: "nat \<Rightarrow> bool \<Rightarrow> bool \<Rightarrow> bindings \<Rightarrow> bool" where
  "bound_to b geometry tessellation bd \<longleftrightarrow> (\<forall>k \<in> argument_slots geometry tessellation. bd k = Some b)"

definition pass_bound :: "'c render_data \<Rightarrow> bindings \<Rightarrow> bool" where
  "pass_bound r bd \<longleftrightarrow>
     (allocated_argbuf_size r \<noteq> 0 \<longrightarrow> bound_to (allocated_argbuf r) (use_geometry r) (use_tessellation r) bd)"

definition bind_all :: "(shader_stage \<times> nat) set \<Rightarrow> nat \<Rightarrow> bindings \<Rightarrow> bindings" where
  "bind_all ks b bd = (\<lambda>k. if k \<in> ks then Some b else bd k)"

lemma run_commands_append: "run_commands draw slots (cs @ ds) st = run_commands draw slots ds (run_commands draw slots cs st)"
  by (simp add: run_commands_def)

lemma run_commands_Nil [simp]: "run_commands draw slots [] st = st"
  by (simp add: run_commands_def)

lemma run_append_bindings:
  "run_commands draw slots (appendRenderArgumentBufferBindings b geometry tessellation) (bd, s, tile)
     = (bind_all (argument_slots geometry tessellation) b bd, s, tile)"
  by (auto simp: run_commands_def appendRenderArgumentBufferBindings_def argument_slots_def bind_all_def fun_eq_iff)

lemma run_start_bindings:
  "run_commands draw slots (start_bindings r) (bd, s, tile)
     = ((if allocated_argbuf_size r \<noteq> 0
         then bind_all (argument_slots (use_geometry r) (use_tessellation r)) (allocated_argbuf r) bd else bd), s, tile)"
proof -
  have "start_bindings r = (if allocated_argbuf_size r \<noteq> 0
      then appendRenderArgumentBufferBindings (allocated_argbuf r) (use_geometry r) (use_tessellation r) else [])"
    by (simp add: start_bindings_def appendRenderArgumentBufferBindings_def Let_def)
  then show ?thesis by (simp add: run_append_bindings)
qed

lemma bound_bind_all: "bound_to b g t (bind_all (argument_slots g t) b bd)"
  by (simp add: bound_to_def bind_all_def)

subsection \<open>Passes as they are recorded\<close>

text \<open>A pass sets the state its draws use itself (the contexts mark all state dirty when they begin a
  pass), apart from the argument buffer; and it binds nothing else to the argument slots.\<close>

definition self_contained :: "('c, 's, 'i) draw \<Rightarrow> 'c render_data \<Rightarrow> bool" where
  "self_contained draw r \<longleftrightarrow>
     (\<forall>bd bd' s s' tile. pass_bound r bd \<longrightarrow> pass_bound r bd' \<longrightarrow>
        snd (snd (run_commands draw (attached r) (rd_commands r) (bd, s, tile)))
        = snd (snd (run_commands draw (attached r) (rd_commands r) (bd', s', tile))))"

definition keeps_arguments :: "'c render_data \<Rightarrow> bool" where
  "keeps_arguments r \<longleftrightarrow>
     (\<forall>st i b. Set_buffer st i b \<in> set (rd_commands r) \<longrightarrow> (st, i) \<notin> argument_slots True True)"

text \<open>What the contexts put into a pass: eight color slots, of which those from \<open>render_target_count\<close> on
  are empty; the planes its flags name; different attachments; no argument buffer if nothing is to be
  passed; read-only planes loaded and stored.\<close>

definition targets_ok :: "'c render_data \<Rightarrow> bool" where
  "targets_ok r \<longleftrightarrow> length (rd_colors r) = 8
     \<and> (\<forall>i < 8. \<forall>j < i. attached r (Color i) \<and> attached r (Color j)
          \<longrightarrow> color_location (rd_colors r ! i) \<noteq> color_location (rd_colors r ! j))"

definition pass_ok :: "'c render_data \<Rightarrow> bool" where
  "pass_ok r \<longleftrightarrow>
     targets_ok r \<and> render_target_count r \<le> 8
     \<and> (\<forall>i < 8. (attached r (Color i) \<longrightarrow> i < render_target_count r)
          \<and> (ca_buffer (rd_colors r ! i) = None \<longleftrightarrow> ca_buffer_texture (rd_colors r ! i) = None))
     \<and> (attached r Depth \<longleftrightarrow> dsv_planar_flags r AND 1 \<noteq> 0) \<and> (attached r Stencil \<longleftrightarrow> dsv_planar_flags r AND 2 \<noteq> 0)
     \<and> (allocated_argbuf_size r = 0 \<longleftrightarrow> allocated_argbuf r = 0)
     \<and> (dsv_readonly_flags r AND 1 \<noteq> 0 \<longrightarrow> pa_load (rd_depth r) = Load_Load \<and> pa_store (rd_depth r) = Store_Store)
     \<and> (dsv_readonly_flags r AND 2 \<noteq> 0 \<longrightarrow> pa_load (rd_stencil r) = Load_Load \<and> pa_store (rd_stencil r) = Store_Store)"

lemma pass_ok_length: "pass_ok r \<Longrightarrow> length (rd_colors r) = 8" "targets_ok r \<Longrightarrow> length (rd_colors r) = 8"
  by (simp_all add: pass_ok_def targets_ok_def)

lemma pass_ok_targets: "pass_ok r \<Longrightarrow> targets_ok r"
  by (simp add: pass_ok_def)

lemma run_command_keeps:
  assumes "\<And>st i b. c = Set_buffer st i b \<Longrightarrow> (st, i) \<notin> ks" "k \<in> ks"
  shows "fst (run_command draw slots c (bd, s, tile)) k = bd k"
  using assms by (cases c) (auto split: prod.split)

lemma run_commands_keeps:
  assumes "\<And>st i b. Set_buffer st i b \<in> set cs \<Longrightarrow> (st, i) \<notin> ks" "k \<in> ks"
  shows "fst (run_commands draw slots cs (bd, s, tile)) k = bd k"
  using assms
proof (induction cs arbitrary: bd s tile)
  case (Cons c cs)
  obtain bd' s' tile' where c: "run_command draw slots c (bd, s, tile) = (bd', s', tile')" by (metis prod_cases3)
  have "bd' k = bd k" using run_command_keeps [of c ks k draw slots bd s tile] Cons.prems c by auto
  then show ?case
    using Cons.IH [of bd' s' tile'] Cons.prems c by (auto simp: run_commands_def)
qed simp

lemma run_keeps_bound:
  assumes "keeps_arguments r" "bound_to b g t bd"
  shows "bound_to b g t (fst (run_commands draw slots (rd_commands r) (bd, s, tile)))"
proof -
  have "argument_slots g t \<subseteq> argument_slots True True" by (auto simp: argument_slots_def)
  then show ?thesis
    using assms run_commands_keeps [of "rd_commands r" "argument_slots True True" _ draw slots bd s tile]
    unfolding bound_to_def keeps_arguments_def by (metis subsetD)
qed

lemma bound_to_weaker:
  assumes "bound_to b g t bd" "g' \<longrightarrow> g" "t' \<longrightarrow> t"
  shows "bound_to b g' t' bd"
  using assms by (cases g; cases t; cases g'; cases t') (simp_all add: bound_to_def argument_slots_def)

text \<open>The tile after the commands of a pass, whatever the state before.\<close>

definition final_tile :: "('c, 's, 'i) draw \<Rightarrow> 's \<Rightarrow> 'c render_data \<Rightarrow> 'i tile \<Rightarrow> 'i tile" where
  "final_tile draw s0 r tile =
     snd (snd (run_commands draw (attached r) (start_bindings r @ rd_commands r) (Map.empty, s0, tile)))"

lemma run_pass_final: "run_pass draw im s0 r mem = store_tile im r (final_tile draw s0 r (load_tile im r mem)) mem"
  by (simp add: run_pass_def final_tile_def split: prod.split)

lemma pass_bound_start: "pass_bound r (fst (run_commands draw slots (start_bindings r) (bd, s, tile)))"
  by (simp add: run_start_bindings pass_bound_def bound_bind_all)

lemma self_contained_final:
  assumes "self_contained draw r" "pass_bound r bd"
  shows "snd (snd (run_commands draw (attached r) (rd_commands r) (bd, s, tile))) = final_tile draw s0 r tile"
proof -
  have "final_tile draw s0 r tile = snd (snd (run_commands draw (attached r) (rd_commands r)
      (fst (run_commands draw (attached r) (start_bindings r) (Map.empty, s0, tile)), s0, tile)))"
    by (simp add: final_tile_def run_commands_append run_start_bindings)
  then show ?thesis
    using assms pass_bound_start [of r draw "attached r" Map.empty s0 tile] unfolding self_contained_def by metis
qed

text \<open>The commands of a merged pass leave the tile that those of the second leave after the first.\<close>

lemma merged_tile:
  assumes sc: "self_contained draw r0" "self_contained draw r1" and ok: "pass_ok r0" "pass_ok r1"
    and keeps: "keeps_arguments r0" and att: "attached (merged_render r0 r1) = attached r0" "attached r1 = attached r0"
  shows "final_tile draw s0 (merged_render r0 r1) tile = final_tile draw s0 r1 (final_tile draw s0 r0 tile)"
proof -
  let ?m = "merged_render r0 r1"
  have m: "allocated_argbuf ?m = allocated_argbuf r1" "allocated_argbuf_size ?m = allocated_argbuf_size r1"
    "use_geometry ?m = (use_geometry r0 \<or> use_geometry r1)" "use_tessellation ?m = (use_tessellation r0 \<or> use_tessellation r1)"
    "rd_commands ?m = merged_commands r0 r1"
    by (simp_all add: merged_render_def)
  define bd where "bd = fst (run_commands draw (attached r0) (start_bindings ?m) (Map.empty, s0, tile))"
  have start: "run_commands draw (attached r0) (start_bindings ?m) (Map.empty, s0, tile) = (bd, s0, tile)"
    by (simp add: bd_def run_start_bindings)
  have bd: "allocated_argbuf_size r1 \<noteq> 0 \<Longrightarrow> bound_to (allocated_argbuf r1) (use_geometry ?m) (use_tessellation ?m) bd"
    using bound_bind_all [of "allocated_argbuf r1" "use_geometry ?m" "use_tessellation ?m"]
    by (simp add: bd_def run_start_bindings m)
  have bd1: "pass_bound r1 bd"
    using bd bound_to_weaker unfolding pass_bound_def m by blast
  have first: "snd (snd (run_commands draw (attached r0) (rd_commands r0) (bd', s', tile'))) = final_tile draw s0 r0 tile'"
    if "pass_bound r0 bd'" for bd' s' tile' using self_contained_final [OF sc(1) that] by simp
  have second: "snd (snd (run_commands draw (attached r0) (rd_commands r1) (bd', s', tile'))) = final_tile draw s0 r1 tile'"
    if "pass_bound r1 bd'" for bd' s' tile' using self_contained_final [OF sc(2) that] att(2) by simp
  show ?thesis
  proof (cases "rd_commands r0 = []")
    case True
    have "final_tile draw s0 r0 tile = tile" by (simp add: final_tile_def True run_start_bindings)
    moreover have "final_tile draw s0 ?m tile = final_tile draw s0 r1 tile"
      using second [OF bd1, of s0 tile] unfolding final_tile_def [of draw s0 ?m] att(1) run_commands_append start m(5)
      by (simp add: merged_commands_def True)
    ultimately show ?thesis by simp
  next
    case False
    show ?thesis
    proof (cases "allocated_argbuf r0 = allocated_argbuf r1")
      case True
      have sizes: "allocated_argbuf_size r0 \<noteq> 0 \<longleftrightarrow> allocated_argbuf_size r1 \<noteq> 0" using ok True by (simp add: pass_ok_def)
      have bd0: "pass_bound r0 bd"
        using bd bound_to_weaker sizes True unfolding pass_bound_def m by metis
      obtain bd' s' tile' where run: "run_commands draw (attached r0) (rd_commands r0) (bd, s0, tile) = (bd', s', tile')"
        by (metis prod_cases3)
      have "pass_bound r1 bd'"
        using run_keeps_bound [OF keeps, of _ _ _ bd draw "attached r0" s0 tile] bd1 run
        unfolding pass_bound_def by (metis fst_conv)
      then show ?thesis
        using first [OF bd0, of s0 tile] second [of bd' s' tile'] run
        unfolding final_tile_def [of draw s0 ?m] att(1) run_commands_append start m(5) merged_commands_def
        by (simp add: False True run_commands_append)
    next
      case differ: False
      let ?bd0 = "bind_all (argument_slots (use_geometry r0) (use_tessellation r0)) (allocated_argbuf r0) bd"
      obtain bd' s' tile' where run: "run_commands draw (attached r0) (rd_commands r0) (?bd0, s0, tile) = (bd', s', tile')"
        by (metis prod_cases3)
      have "pass_bound r0 ?bd0" "pass_bound r1 (bind_all (argument_slots (use_geometry r1) (use_tessellation r1)) (allocated_argbuf r1) bd')"
        by (simp_all add: pass_bound_def bound_bind_all)
      then show ?thesis
        using first [of ?bd0 s0 tile] second [of _ s' tile'] run
        unfolding final_tile_def [of draw s0 ?m] att(1) run_commands_append start m(5) merged_commands_def
        by (simp add: False differ run_commands_append run_append_bindings)
    qed
  qed
qed

subsection \<open>Loads and stores\<close>

lemma pass_target_None: "pass_target im r s = None \<longleftrightarrow> \<not> attached r s"
  by (cases s) (auto simp: color_target_def plane_target_def)

lemma attached_cases:
  assumes "attached r s" "pass_ok r"
  obtains (color) i where "s = Color i" "i < render_target_count r" "i < 8" | (depth) "s = Depth" "dsv_planar_flags r AND 1 \<noteq> 0"
    | (stencil) "s = Stencil" "dsv_planar_flags r AND 2 \<noteq> 0"
  using assms by (cases s) (auto simp: pass_ok_def targets_ok_def)

text \<open>The attachments of two passes that match, slot by slot: the second loads what the first stored, and
  the merged pass loads like the first and stores like the second, or more.\<close>

definition targets_match :: "'i target option \<Rightarrow> 'i target option \<Rightarrow> 'i target option \<Rightarrow> bool" where
  "targets_match x0 x1 x \<longleftrightarrow> (\<exists>t0 t1 m. x0 = Some t0 \<and> x1 = Some t1 \<and> x = Some m
     \<and> tg_location t1 = tg_location t0 \<and> tg_location m = tg_location t0 \<and> tg_store t0 = Store_Store \<and> tg_load t1 = Load_Load
     \<and> tg_load m = tg_load t0 \<and> tg_clear m = tg_clear t0
     \<and> (tg_store m = tg_store t1 \<and> tg_resolve m = tg_resolve t1 \<or> tg_store m = Store_Store \<and> tg_resolve m = None \<and> tg_resolve t1 = None))"

lemma color_targets_match:
  assumes "colors_match a0 a1" "ca_attachment a0 \<noteq> None \<or> ca_buffer_texture a0 \<noteq> None"
    "(ca_buffer a0 = None) = (ca_buffer_texture a0 = None)" "(ca_buffer a1 = None) = (ca_buffer_texture a1 = None)"
  shows "targets_match (color_target im a0) (color_target im a1) (color_target im (merged_color a0 a1))"
proof -
  have eq: "ca_attachment a1 = ca_attachment a0" "ca_buffer a1 = ca_buffer a0" "ca_buffer_view_id a1 = ca_buffer_view_id a0"
    "ca_depth_plane a1 = ca_depth_plane a0" "ca_store a0 = Store_Store" "ca_load a1 = Load_Load"
    using assms(1,2) by (simp_all add: colors_match_def split: if_splits)
  moreover have "ca_attachment a1 \<noteq> None \<or> ca_buffer_texture a1 \<noteq> None" using assms eq by metis
  ultimately show ?thesis
    using assms(2) by (simp add: targets_match_def color_target_def merged_color_def color_location_def)
qed

lemma plane_targets_match:
  assumes "planes_match flag r0 r1 p0 p1" "dsv_planar_flags r0 AND flag \<noteq> 0" "pa_attachment p0 \<noteq> None"
    and "dsv_readonly_flags r0 AND flag \<noteq> 0 \<Longrightarrow> pa_store p0 = Store_Store \<and> pa_load p1 = Load_Load"
  shows "targets_match (plane_target loc im p0) (plane_target loc im p1) (plane_target loc im (merged_plane p0 p1))"
proof -
  have "pa_attachment p1 = pa_attachment p0" "pa_level p1 = pa_level p0" "pa_slice p1 = pa_slice p0"
    "pa_depth_plane p1 = pa_depth_plane p0" "pa_store p0 = Store_Store" "pa_load p1 = Load_Load"
    using assms(1,2,4) by (auto simp: planes_match_def split: if_splits)
  then show ?thesis
    using assms(3) by (simp add: targets_match_def plane_target_def merged_plane_def)
qed

lemma matched_attached:
  assumes "isEncoderSignatureMatched r0 r1" "pass_ok r0" "pass_ok r1"
  shows "attached r1 s = attached r0 s" "attached (merged_render r0 r1) s = attached r1 s"
proof -
  have count: "render_target_count r1 = render_target_count r0" "dsv_planar_flags r1 = dsv_planar_flags r0"
    and colors: "\<And>i. i < render_target_count r0 \<Longrightarrow> colors_match (rd_colors r0 ! i) (rd_colors r1 ! i)"
    using assms(1) by (simp_all add: isEncoderSignatureMatched_def)
  have len: "length (rd_colors r0) = 8" "length (rd_colors r1) = 8"
    using assms(2,3) by (simp_all add: pass_ok_length)
  show "attached r1 s = attached r0 s"
  proof (cases s)
    case (Color i)
    show ?thesis
    proof (cases "i < render_target_count r0 \<and> i < 8")
      case True
      then have "(ca_buffer (rd_colors r0 ! i) = None) = (ca_buffer_texture (rd_colors r0 ! i) = None)"
        "(ca_buffer (rd_colors r1 ! i) = None) = (ca_buffer_texture (rd_colors r1 ! i) = None)"
        using assms(2,3) by (simp_all add: pass_ok_def)
      moreover have "ca_attachment (rd_colors r1 ! i) = ca_attachment (rd_colors r0 ! i)"
        "ca_buffer (rd_colors r1 ! i) = ca_buffer (rd_colors r0 ! i)"
        using colors [of i] True by (simp_all add: colors_match_def split: if_splits)
      ultimately show ?thesis using True len by (simp add: Color)
    next
      case False
      then have "\<not> attached r0 (Color i)" "\<not> attached r1 (Color i)"
        using assms(2,3) count(1) len unfolding pass_ok_def by (metis attached.simps(1))+
      then show ?thesis unfolding Color by blast
    qed
  next
    case Depth
    then show ?thesis using assms(2,3) count(2) unfolding pass_ok_def by metis
  next
    case Stencil
    then show ?thesis using assms(2,3) count(2) unfolding pass_ok_def by metis
  qed
  show "attached (merged_render r0 r1) s = attached r1 s"
    by (cases s) (simp_all add: merged_render_def merged_color_def merged_plane_def cong: conj_cong)
qed

lemma matched_targets:
  assumes "isEncoderSignatureMatched r0 r1" "pass_ok r0" "pass_ok r1" "attached r0 s"
  shows "targets_match (pass_target im r0 s) (pass_target im r1 s) (pass_target im (merged_render r0 r1) s)"
proof -
  have planes: "planes_match 1 r0 r1 (rd_depth r0) (rd_depth r1)" "planes_match 2 r0 r1 (rd_stencil r0) (rd_stencil r1)"
      "dsv_readonly_flags r1 = dsv_readonly_flags r0"
    and colors: "\<And>i. i < render_target_count r0 \<Longrightarrow> colors_match (rd_colors r0 ! i) (rd_colors r1 ! i)"
    using assms(1) by (simp_all add: isEncoderSignatureMatched_def)
  show ?thesis
    using assms(4,2)
  proof (cases rule: attached_cases)
    case (color i)
    have "(ca_buffer (rd_colors r0 ! i) = None) = (ca_buffer_texture (rd_colors r0 ! i) = None)"
      "(ca_buffer (rd_colors r1 ! i) = None) = (ca_buffer_texture (rd_colors r1 ! i) = None)"
      "length (rd_colors r0) = 8" "length (rd_colors r1) = 8"
      using assms(2,3) color(3) by (simp_all add: pass_ok_def targets_ok_def)
    moreover have "ca_attachment (rd_colors r0 ! i) \<noteq> None \<or> ca_buffer_texture (rd_colors r0 ! i) \<noteq> None"
      using assms(4) color(1) by simp
    ultimately show ?thesis
      using color_targets_match [OF colors [OF color(2)]] color by (simp add: merged_render_def)
  next
    case depth
    have "dsv_readonly_flags r0 AND 1 \<noteq> 0 \<Longrightarrow> pa_store (rd_depth r0) = Store_Store \<and> pa_load (rd_depth r1) = Load_Load"
      using assms(2,3) planes(3) unfolding pass_ok_def by metis
    moreover have "pa_attachment (rd_depth r0) \<noteq> None" using assms(4) depth(1) by simp
    ultimately show ?thesis
      using plane_targets_match [OF planes(1) depth(2)] depth(1) by (simp add: merged_render_def)
  next
    case stencil
    have "dsv_readonly_flags r0 AND 2 \<noteq> 0 \<Longrightarrow> pa_store (rd_stencil r0) = Store_Store \<and> pa_load (rd_stencil r1) = Load_Load"
      using assms(2,3) planes(3) unfolding pass_ok_def by metis
    moreover have "pa_attachment (rd_stencil r0) \<noteq> None" using assms(4) stencil(1) by simp
    ultimately show ?thesis
      using plane_targets_match [OF planes(2) stencil(2)] stencil(1) by (simp add: merged_render_def)
  qed
qed

lemma location_inj:
  assumes "targets_ok r" "pass_target im r s = Some t" "pass_target im r s' = Some t'" "tg_location t = tg_location t'"
  shows "s = s'"
proof -
  have att: "attached r s" "attached r s'" using assms(2,3) pass_target_None [of im r] by (metis option.distinct(1))+
  have colors: "i < 8 \<Longrightarrow> j < i \<Longrightarrow> attached r (Color i) \<Longrightarrow> attached r (Color j)
      \<Longrightarrow> color_location (rd_colors r ! i) \<noteq> color_location (rd_colors r ! j)" for i j
    using assms(1) unfolding targets_ok_def by blast
  have len: "length (rd_colors r) = 8" using assms(1) by (simp add: targets_ok_def)
  show ?thesis
  proof (cases s; cases s')
    fix i j assume ij: "s = Color i" "s' = Color j"
    have "i < 8" "j < 8" "color_location (rd_colors r ! i) = color_location (rd_colors r ! j)"
      using assms(2-4) ij len by (auto simp: color_target_def split: if_splits)
    then show ?thesis using colors [of i j] colors [of j i] att ij by (metis linorder_neqE_nat)
  qed (use assms(2-4) in \<open>auto simp: color_target_def plane_target_def color_location_def split: if_splits\<close>)
qed

lemma pass_slots_all:
  assumes "targets_ok r" "attached r s"
  shows "s \<in> set pass_slots" "distinct pass_slots"
  using assms by (cases s; auto simp: pass_slots_def targets_ok_def distinct_map inj_on_def)+

lemma store_target_at:
  "store_target im v t mem loc =
     (if tg_resolve t = Some loc \<and> (tg_store t = Store_Resolve \<or> tg_store t = Store_StoreAndResolve)
      then map_option (resolve_image im) v
      else if loc = tg_location t
      then (if tg_store t = Store_Store \<or> tg_store t = Store_StoreAndResolve then v else None)
      else mem loc)"
  by (simp add: store_target_def Let_def split: option.split)

lemma store_target_Store: "tg_store t = Store_Store \<Longrightarrow> store_target im v t mem = mem(tg_location t := v)"
  by (simp add: fun_eq_iff store_target_at)

lemma store_slots_at:
  assumes "targets_ok r" "distinct ss" "s \<in> set ss" "pass_target im r s = Some t"
    and "\<forall>s t. pass_target im r s = Some t \<longrightarrow> tg_store t = Store_Store"
  shows "fold (store_slot im r tile) ss mem (tg_location t) = tile s"
  using assms(2,3)
proof (induction ss rule: rev_induct)
  case (snoc x ss)
  have x: "store_slot im r tile x mem' = (case pass_target im r x of None \<Rightarrow> mem' | Some u \<Rightarrow> mem'(tg_location u := tile x))"
    for mem'
    using assms(5) by (simp add: store_slot_def store_target_Store split: option.split)
  show ?case
  proof (cases "x = s")
    case True
    then show ?thesis using assms(4) x by simp
  next
    case False
    then have "tg_location u \<noteq> tg_location t" if "pass_target im r x = Some u" for u
      using location_inj [OF assms(1) that assms(4)] by blast
    then show ?thesis using snoc False by (auto simp: x split: option.split)
  qed
qed simp

lemma store_slots_elsewhere:
  assumes "\<forall>s \<in> set ss. \<forall>t. pass_target im r s = Some t \<longrightarrow> tg_location t \<noteq> loc \<and> tg_store t = Store_Store"
  shows "fold (store_slot im r tile) ss mem loc = mem loc"
  using assms by (induction ss arbitrary: mem) (auto simp: store_slot_def store_target_Store split: option.split)

text \<open>What the second pass loads is what the first left in its tile.\<close>

lemma load_tile_unattached: "\<not> attached r s \<Longrightarrow> load_tile im r mem s = None"
  using pass_target_None [of im r s] by (simp add: load_tile_def)

lemma run_commands_unattached:
  "\<forall>s. \<not> slots s \<longrightarrow> tile s = None
    \<Longrightarrow> \<forall>s. \<not> slots s \<longrightarrow> snd (snd (run_commands draw slots cs (bd, st, tile))) s = None"
proof (induction cs arbitrary: bd st tile)
  case (Cons c cs)
  obtain bd' st' tile' where c: "run_command draw slots c (bd, st, tile) = (bd', st', tile')" by (metis prod_cases3)
  then have "\<forall>s. \<not> slots s \<longrightarrow> tile' s = None" using Cons.prems by (cases c) (auto split: prod.splits)
  then show ?case using Cons.IH [of tile' bd' st'] c by (simp add: run_commands_def)
qed simp

lemma final_tile_unattached:
  "\<forall>s. \<not> attached r s \<longrightarrow> tile s = None \<Longrightarrow> \<forall>s. \<not> attached r s \<longrightarrow> final_tile draw s0 r tile s = None"
  unfolding final_tile_def by (rule run_commands_unattached)

lemma stored_Store:
  assumes "isEncoderSignatureMatched r0 r1" "pass_ok r0" "pass_ok r1"
  shows "\<forall>s t. pass_target im r0 s = Some t \<longrightarrow> tg_store t = Store_Store"
proof (intro allI impI)
  fix s t assume t: "pass_target im r0 s = Some t"
  then have "attached r0 s" using pass_target_None [of im r0 s] by simp
  then show "tg_store t = Store_Store"
    using matched_targets [OF assms, of s im] t unfolding targets_match_def by auto
qed

lemma stored_elsewhere:
  assumes "isEncoderSignatureMatched r0 r1" "pass_ok r0" "pass_ok r1"
    and "\<not> (\<exists>s \<in> set pass_slots. \<exists>t. pass_target im r0 s = Some t \<and> tg_location t = loc)"
  shows "store_tile im r0 tile mem loc = mem loc"
  unfolding store_tile_def by (rule store_slots_elsewhere) (use assms(4) stored_Store [OF assms(1-3), of im] in blast)

lemma reload_tile:
  assumes "isEncoderSignatureMatched r0 r1" "pass_ok r0" "pass_ok r1" "\<forall>s. \<not> attached r0 s \<longrightarrow> tile s = None"
  shows "load_tile im r1 (store_tile im r0 tile mem) = tile"
proof
  fix s
  note store = stored_Store [OF assms(1-3), of im]
  show "load_tile im r1 (store_tile im r0 tile mem) s = tile s"
  proof (cases "attached r0 s")
    case True
    obtain t0 t1 where "pass_target im r0 s = Some t0" "pass_target im r1 s = Some t1"
      "tg_location t1 = tg_location t0" "tg_load t1 = Load_Load"
      using matched_targets [OF assms(1-3) True, of im] unfolding targets_match_def by blast
    then show ?thesis
      using store_slots_at [OF pass_ok_targets [OF assms(2)] _ _ _ store, of pass_slots s t0 tile mem] pass_slots_all [OF pass_ok_targets [OF assms(2)] True]
      by (simp add: load_tile_def load_target_def store_tile_def)
  next
    case False
    then have "pass_target im r1 s = None" using matched_attached(1) [OF assms(1-3)] pass_target_None by blast
    then show ?thesis using assms(4) False by (simp add: load_tile_def)
  qed
qed

text \<open>Storing the same tile: the merged pass refines the second, on memories that differ only where the
  pass is still to store.\<close>

lemma store_refines:
  assumes "isEncoderSignatureMatched r0 r1" "pass_ok r0" "pass_ok r1"
    and "\<forall>loc. (\<exists>s \<in> set ss. \<exists>t. pass_target im r0 s = Some t \<and> tg_location t = loc) \<or> a loc = None \<or> b loc = a loc"
  shows "fold (store_slot im r1 tile) ss a loc = None
    \<or> fold (store_slot im (merged_render r0 r1) tile) ss b loc = fold (store_slot im r1 tile) ss a loc"
  using assms(4)
proof (induction ss arbitrary: a b)
  case (Cons s ss)
  show ?case
  proof (cases "attached r0 s")
    case False
    then have "pass_target im r0 s = None" "pass_target im r1 s = None" "pass_target im (merged_render r0 r1) s = None"
      using matched_attached [OF assms(1-3)] pass_target_None by blast+
    then show ?thesis using Cons by (simp add: store_slot_def)
  next
    case True
    obtain t0 t1 m where t: "pass_target im r0 s = Some t0" "pass_target im r1 s = Some t1"
        "pass_target im (merged_render r0 r1) s = Some m" and eq: "tg_location t1 = tg_location t0" "tg_location m = tg_location t0"
        "tg_store m = tg_store t1 \<and> tg_resolve m = tg_resolve t1 \<or> tg_store m = Store_Store \<and> tg_resolve m = None \<and> tg_resolve t1 = None"
      using matched_targets [OF assms(1-3) True, of im] unfolding targets_match_def by blast
    have "\<forall>loc. (\<exists>s \<in> set ss. \<exists>t. pass_target im r0 s = Some t \<and> tg_location t = loc)
        \<or> store_target im (tile s) t1 a loc = None \<or> store_target im (tile s) m b loc = store_target im (tile s) t1 a loc"
    proof
      fix loc
      have "(\<exists>s \<in> set ss. \<exists>t. pass_target im r0 s = Some t \<and> tg_location t = loc) \<or> loc = tg_location t0
          \<or> a loc = None \<or> b loc = a loc"
        using spec [OF Cons.prems, of loc] t(1) by auto
      then show "(\<exists>s \<in> set ss. \<exists>t. pass_target im r0 s = Some t \<and> tg_location t = loc)
          \<or> store_target im (tile s) t1 a loc = None \<or> store_target im (tile s) m b loc = store_target im (tile s) t1 a loc"
        using eq(3) unfolding store_target_at eq(1,2) by (elim disjE conjE) simp_all
    qed
    from Cons.IH [OF this] show ?thesis using t by (simp add: store_slot_def)
  qed
qed simp

text \<open>C13: Merging two render passes is correct. For passes as the contexts record them, whenever
  \<open>checkEncoderRelation\<close> merges two passes, running the merged one leaves every attachment as running
  the two in turn would, wherever that leaves defined contents: each draw sees the argument buffer,
  tile and state it was recorded for, loads are the first pass's and stores and resolves the second's.\<close>

theorem render_merge_correct:
  assumes former: "en_body former = Render r0" and latter: "en_body latter = Render r1"
    and ok: "pass_ok r0" "pass_ok r1" "keeps_arguments r0"
    and sc: "self_contained draw r0" "self_contained draw r1"
    and merged: "checkEncoderRelation former latter th = (op, f', l', th')" "en_body f' = Null"
  shows "run_encoder draw im s0 (en_body latter) (run_encoder draw im s0 (en_body former) mem) loc = None
    \<or> run_encoder draw im s0 (en_body l') (run_encoder draw im s0 (en_body f') mem) loc
      = run_encoder draw im s0 (en_body latter) (run_encoder draw im s0 (en_body former) mem) loc"
proof -
  have match: "isEncoderSignatureMatched r0 r1" and l': "en_body l' = Render (merged_render r0 r1)"
    using merged former latter
    by (auto simp: checkEncoderRelation_def check_renders_def by_dependency_def is_event_def merge_renders_def Let_def
        split: if_splits)
  note m = match ok(1,2)
  let ?T0 = "final_tile draw s0 r0 (load_tile im r0 mem)"
  have att: "attached r1 = attached r0" "attached (merged_render r0 r1) = attached r0"
    using matched_attached [OF m] by auto
  have "\<forall>s. \<not> attached r0 s \<longrightarrow> ?T0 s = None"
    using final_tile_unattached [of r0 "load_tile im r0 mem" draw s0] load_tile_unattached [of r0 _ im mem] by blast
  note reload = reload_tile [OF m this, of im mem]
  have "load_tile im (merged_render r0 r1) mem = load_tile im r0 mem"
  proof
    fix s show "load_tile im (merged_render r0 r1) mem s = load_tile im r0 mem s"
    proof (cases "attached r0 s")
      case True
      then show ?thesis
        using matched_targets [OF m True, of im] unfolding targets_match_def load_tile_def
        by (auto simp: load_target_def split: load_action.split)
    next
      case False
      then show ?thesis using load_tile_unattached att by metis
    qed
  qed
  then have tile: "final_tile draw s0 (merged_render r0 r1) (load_tile im (merged_render r0 r1) mem) = final_tile draw s0 r1 ?T0"
    using merged_tile [OF sc ok(1,2,3) att(2,1)] by simp
  have "\<forall>loc. (\<exists>s \<in> set pass_slots. \<exists>t. pass_target im r0 s = Some t \<and> tg_location t = loc)
      \<or> store_tile im r0 ?T0 mem loc = None \<or> mem loc = store_tile im r0 ?T0 mem loc"
    using stored_elsewhere [OF m, of im _ ?T0 mem] by metis
  from store_refines [OF m this, of "final_tile draw s0 r1 ?T0"] show ?thesis
    unfolding former latter l' merged(2) run_encoder.simps run_pass_final reload tile by (simp add: store_tile_def)
qed

subsection \<open>Clears moved into a pass\<close>

lemma final_tile_same:
  assumes "attached r' = attached r" "rd_commands r' = rd_commands r" "allocated_argbuf r' = allocated_argbuf r"
    "allocated_argbuf_size r' = allocated_argbuf_size r" "use_geometry r' = use_geometry r"
    "use_tessellation r' = use_tessellation r"
  shows "final_tile draw s0 r' = final_tile draw s0 r"
proof -
  have "start_bindings r' = start_bindings r" unfolding start_bindings_def assms ..
  then show ?thesis by (simp add: final_tile_def assms(1,2) fun_eq_iff)
qed

lemma store_slots_overwrite:
  assumes "\<forall>loc. a loc = b loc \<or> (\<exists>s \<in> set ss. \<exists>t. pass_target im r s = Some t \<and> tg_location t = loc)"
  shows "fold (store_slot im r tile) ss a loc = fold (store_slot im r tile) ss b loc"
  using assms
proof (induction ss arbitrary: a b)
  case (Cons s ss)
  have "\<forall>loc. store_slot im r tile s a loc = store_slot im r tile s b loc
      \<or> (\<exists>s \<in> set ss. \<exists>t. pass_target im r s = Some t \<and> tg_location t = loc)"
  proof
    fix loc
    have "a loc = b loc \<or> (\<exists>t. pass_target im r s = Some t \<and> tg_location t = loc)
        \<or> (\<exists>s \<in> set ss. \<exists>t. pass_target im r s = Some t \<and> tg_location t = loc)"
      using spec [OF Cons.prems, of loc] by auto
    then show "store_slot im r tile s a loc = store_slot im r tile s b loc
        \<or> (\<exists>s \<in> set ss. \<exists>t. pass_target im r s = Some t \<and> tg_location t = loc)"
      by (auto simp: store_slot_def store_target_at split: option.split)
  qed
  then show ?case using Cons.IH by simp
qed simp

text \<open>A clear in front of a pass is the load action \<open>Load_Clear\<close> of the slot it clears.\<close>

lemma clear_as_load:
  assumes ok: "targets_ok r" and t: "pass_target im r s = Some t"
    and target: "\<And>k. pass_target im r' k = (if k = s \<and> tg_load t = Load_Load
        then Some (t\<lparr> tg_load := Load_Clear, tg_clear := v \<rparr>) else pass_target im r k)"
    and same: "final_tile draw s0 r' = final_tile draw s0 r"
  shows "run_pass draw im s0 r' mem = run_pass draw im s0 r (mem(tg_location t := Some v))"
proof -
  have "load_tile im r' mem k = load_tile im r (mem(tg_location t := Some v)) k" for k
  proof (cases "k = s")
    case True
    then show ?thesis
      using t by (simp add: load_tile_def target load_target_def split: load_action.split)
  next
    case False
    then have "tg_location u \<noteq> tg_location t" if "pass_target im r k = Some u" for u
      using location_inj [OF ok that t] by blast
    then show ?thesis
      using False by (cases "pass_target im r k") (simp_all add: load_tile_def target load_target_def split: load_action.split)
  qed
  then have tile: "load_tile im r' mem = load_tile im r (mem(tg_location t := Some v))" by blast
  have "store_slot im r' = store_slot im r"
  proof (intro ext)
    fix tile k mem loc
    show "store_slot im r' tile k mem loc = store_slot im r tile k mem loc"
      using t by (cases "k = s \<and> tg_load t = Load_Load") (auto simp: store_slot_def target store_target_at)
  qed
  moreover have "s \<in> set pass_slots"
    using pass_slots_all(1) [OF ok] pass_target_None [of im r s] t by simp
  moreover have "\<forall>loc. mem loc = (mem(tg_location t := Some v)) loc
      \<or> (\<exists>s \<in> set pass_slots. \<exists>t. pass_target im r s = Some t \<and> tg_location t = loc)"
    using t \<open>s \<in> set pass_slots\<close> by auto
  ultimately show ?thesis
    using store_slots_overwrite [of mem "mem(tg_location t := Some v)" pass_slots im r]
    unfolding run_pass_final tile same store_tile_def by (intro ext) metis
qed

text \<open>The planes of a depth-stencil clear, by its flags alone.\<close>

definition clear_planes :: "'i images \<Rightarrow> clear_data \<Rightarrow> 'i memory \<Rightarrow> 'i memory" where
  "clear_planes im c mem =
     (let mem = (if clear_dsv c AND 1 \<noteq> 0
                 then mem(Depth_at (cl_attachment c) (cl_level c) (cl_slice c) (cl_depth_plane c) := Some (clear_depth_image im (cl_depth c)))
                 else mem)
      in if clear_dsv c AND 2 \<noteq> 0
         then mem(Stencil_at (cl_attachment c) (cl_level c) (cl_slice c) (cl_stencil_depth_plane c)
                    := Some (clear_stencil_image im (cl_stencil c)))
         else mem)"

lemma run_clear_planes: "clear_dsv c \<noteq> 0 \<Longrightarrow> run_clear im c = clear_planes im c"
  by (auto simp: fun_eq_iff run_clear_def clear_planes_def clear_locations_def)

lemma flag_bits:
  "(x AND NOT 1) AND 1 = (0 :: u32)" "(x AND NOT 1) AND 2 = x AND 2" "(x AND NOT 2) AND 2 = 0" "(x AND NOT 2) AND 1 = x AND 1"
  by (simp_all add: bit_eq_iff bit_simps) (auto simp: bit_simps)

lemma depth_clear_as_load:
  assumes "targets_ok r" "pa_attachment (rd_depth r) = Some a"
    and "r' = (if pa_load (rd_depth r) = Load_Load
               then r\<lparr> rd_depth := (rd_depth r)\<lparr> pa_clear := v, pa_load := Load_Clear \<rparr> \<rparr> else r)"
  shows "run_pass draw im s0 r' mem = run_pass draw im s0 r (mem(
      Depth_at (Some a) (pa_level (rd_depth r)) (pa_slice (rd_depth r)) (pa_depth_plane (rd_depth r)) := Some (clear_depth_image im v)))"
proof -
  obtain t where t: "pass_target im r Depth = Some t" "tg_load t = pa_load (rd_depth r)"
    "tg_location t = Depth_at (Some a) (pa_level (rd_depth r)) (pa_slice (rd_depth r)) (pa_depth_plane (rd_depth r))"
    using assms(2) by (simp add: plane_target_def)
  have "pass_target im r' k = (if k = Depth \<and> tg_load t = Load_Load
      then Some (t\<lparr> tg_load := Load_Clear, tg_clear := clear_depth_image im v \<rparr>) else pass_target im r k)" for k
    using t(1) assms(2) unfolding assms(3) t(2) by (cases k) (auto simp: plane_target_def)
  moreover have "final_tile draw s0 r' = final_tile draw s0 r"
  proof (rule final_tile_same)
    show "attached r' = attached r"
    proof
      fix k show "attached r' k = attached r k" unfolding assms(3) by (cases k) simp_all
    qed
  qed (simp_all add: assms(3))
  ultimately show "run_pass draw im s0 r' mem = run_pass draw im s0 r (mem(
      Depth_at (Some a) (pa_level (rd_depth r)) (pa_slice (rd_depth r)) (pa_depth_plane (rd_depth r)) := Some (clear_depth_image im v)))"
    unfolding t(3) [symmetric] by (intro clear_as_load [OF assms(1) t(1)]) simp_all
qed

lemma stencil_clear_as_load:
  assumes "targets_ok r" "pa_attachment (rd_stencil r) = Some a"
    and "r' = (if pa_load (rd_stencil r) = Load_Load
               then r\<lparr> rd_stencil := (rd_stencil r)\<lparr> pa_clear := v, pa_load := Load_Clear \<rparr> \<rparr> else r)"
  shows "run_pass draw im s0 r' mem = run_pass draw im s0 r (mem(
      Stencil_at (Some a) (pa_level (rd_stencil r)) (pa_slice (rd_stencil r)) (pa_depth_plane (rd_stencil r))
        := Some (clear_stencil_image im v)))"
proof -
  obtain t where t: "pass_target im r Stencil = Some t" "tg_load t = pa_load (rd_stencil r)"
    "tg_location t = Stencil_at (Some a) (pa_level (rd_stencil r)) (pa_slice (rd_stencil r)) (pa_depth_plane (rd_stencil r))"
    using assms(2) by (simp add: plane_target_def)
  have "pass_target im r' k = (if k = Stencil \<and> tg_load t = Load_Load
      then Some (t\<lparr> tg_load := Load_Clear, tg_clear := clear_stencil_image im v \<rparr>) else pass_target im r k)" for k
    using t(1) assms(2) unfolding assms(3) t(2) by (cases k) (auto simp: plane_target_def)
  moreover have "final_tile draw s0 r' = final_tile draw s0 r"
  proof (rule final_tile_same)
    show "attached r' = attached r"
    proof
      fix k show "attached r' k = attached r k" unfolding assms(3) by (cases k) simp_all
    qed
  qed (simp_all add: assms(3))
  ultimately show ?thesis
    unfolding t(3) [symmetric] by (intro clear_as_load [OF assms(1) t(1)]) simp_all
qed

text \<open>Each plane a depth-stencil clear gives to the pass, and the planes it keeps.\<close>

lemma planes_clear_depth:
  assumes "targets_ok r" "cl_attachment c = Some a" "merge_clear_depth c r = (c1, r1)"
  shows "run_pass draw im s0 r1 (clear_planes im c1 mem) = run_pass draw im s0 r (clear_planes im c mem)"
    "targets_ok r1" "cl_attachment c1 = Some a"
proof -
  show "cl_attachment c1 = Some a" using assms(2,3) by (auto simp: merge_clear_depth_def split: if_splits)
  show "targets_ok r1"
    using assms(1,3) by (cases "pa_load (rd_depth r) = Load_Load")
      (auto simp: merge_clear_depth_def targets_ok_def split: if_splits)
  show "run_pass draw im s0 r1 (clear_planes im c1 mem) = run_pass draw im s0 r (clear_planes im c mem)"
  proof (cases "isClearDepthSignatureMatched c r")
    case True
    have m: "pa_attachment (rd_depth r) = Some a" "pa_level (rd_depth r) = cl_level c" "pa_slice (rd_depth r) = cl_slice c"
        "pa_depth_plane (rd_depth r) = cl_depth_plane c" "clear_dsv c AND 1 \<noteq> 0"
      using True assms(2) by (simp_all add: isClearDepthSignatureMatched_def)
    have c1: "c1 = c\<lparr> clear_dsv := clear_dsv c AND NOT 1 \<rparr>"
      and r1: "r1 = (if pa_load (rd_depth r) = Load_Load
               then r\<lparr> rd_depth := (rd_depth r)\<lparr> pa_clear := cl_depth c, pa_load := Load_Clear \<rparr> \<rparr> else r)"
      using assms(3) True by (simp_all add: merge_clear_depth_def)
    have same: "cl_attachment c1 = cl_attachment c" "cl_level c1 = cl_level c" "cl_slice c1 = cl_slice c"
        "cl_depth_plane c1 = cl_depth_plane c" "cl_stencil_depth_plane c1 = cl_stencil_depth_plane c"
        "cl_depth c1 = cl_depth c" "cl_stencil c1 = cl_stencil c"
      by (simp_all add: c1)
    have flags: "clear_dsv c1 AND 1 = 0" "clear_dsv c1 AND 2 = clear_dsv c AND 2"
      using flag_bits [of "clear_dsv c"] by (simp_all add: c1)
    have "clear_planes im c mem = (clear_planes im c1 mem)
        (Depth_at (Some a) (cl_level c) (cl_slice c) (cl_depth_plane c) := Some (clear_depth_image im (cl_depth c)))"
      unfolding clear_planes_def flags same using m(5) assms(2) by (auto simp: Let_def fun_eq_iff)
    then show ?thesis
      using depth_clear_as_load(1) [OF assms(1) m(1) r1, of draw im s0 "clear_planes im c1 mem"] m by simp
  qed (use assms(3) in \<open>simp add: merge_clear_depth_def\<close>)
qed

lemma planes_clear_stencil:
  assumes "targets_ok r" "cl_attachment c = Some a" "merge_clear_stencil c r = (c1, r1)"
  shows "run_pass draw im s0 r1 (clear_planes im c1 mem) = run_pass draw im s0 r (clear_planes im c mem)"
proof (cases "isClearStencilSignatureMatched c r")
  case True
  have m: "pa_attachment (rd_stencil r) = Some a" "pa_level (rd_stencil r) = cl_level c" "pa_slice (rd_stencil r) = cl_slice c"
      "pa_depth_plane (rd_stencil r) = cl_stencil_depth_plane c" "clear_dsv c AND 2 \<noteq> 0"
    using True assms(2) by (simp_all add: isClearStencilSignatureMatched_def)
  have c1: "c1 = c\<lparr> clear_dsv := clear_dsv c AND NOT 2 \<rparr>"
    and r1: "r1 = (if pa_load (rd_stencil r) = Load_Load
             then r\<lparr> rd_stencil := (rd_stencil r)\<lparr> pa_clear := cl_stencil c, pa_load := Load_Clear \<rparr> \<rparr> else r)"
    using assms(3) True by (simp_all add: merge_clear_stencil_def)
  have same: "cl_attachment c1 = cl_attachment c" "cl_level c1 = cl_level c" "cl_slice c1 = cl_slice c"
      "cl_depth_plane c1 = cl_depth_plane c" "cl_stencil_depth_plane c1 = cl_stencil_depth_plane c"
      "cl_depth c1 = cl_depth c" "cl_stencil c1 = cl_stencil c"
    by (simp_all add: c1)
  have flags: "clear_dsv c1 AND 2 = 0" "clear_dsv c1 AND 1 = clear_dsv c AND 1"
    using flag_bits [of "clear_dsv c"] by (simp_all add: c1)
  have "clear_planes im c mem = (clear_planes im c1 mem)
      (Stencil_at (Some a) (cl_level c) (cl_slice c) (cl_stencil_depth_plane c) := Some (clear_stencil_image im (cl_stencil c)))"
    unfolding clear_planes_def flags same using m(5) assms(2) by (auto simp: Let_def fun_eq_iff)
  then show ?thesis
    using stencil_clear_as_load [OF assms(1) m(1) r1, of draw im s0 "clear_planes im c1 mem"] m by simp
qed (use assms(3) in \<open>simp add: merge_clear_stencil_def\<close>)

text \<open>A color clear and the attachment it is given to.\<close>

lemma color_clear_as_load:
  assumes "targets_ok r" "attached r (Color i)"
  shows "run_pass draw im s0 (merge_clear_color c i r) mem
    = run_pass draw im s0 r (mem(color_location (rd_colors r ! i) := Some (clear_color_image im (cl_color c))))"
proof -
  let ?r = "merge_clear_color c i r" and ?a = "rd_colors r ! i"
  have i: "i < length (rd_colors r)" using assms(2) by simp
  obtain t where t: "pass_target im r (Color i) = Some t" "tg_load t = ca_load ?a" "tg_location t = color_location ?a"
    using assms(2) by (auto simp: color_target_def)
  have col: "rd_colors ?r ! j = (if j = i \<and> ca_load ?a = Load_Load then ?a\<lparr> ca_load := Load_Clear, ca_clear := cl_color c \<rparr>
      else rd_colors r ! j)" "length (rd_colors ?r) = length (rd_colors r)" for j
    using i by (auto simp: merge_clear_color_def Let_def)
  have rest: "rd_depth ?r = rd_depth r" "rd_stencil ?r = rd_stencil r" "rd_commands ?r = rd_commands r"
    "allocated_argbuf ?r = allocated_argbuf r" "allocated_argbuf_size ?r = allocated_argbuf_size r"
    "use_geometry ?r = use_geometry r" "use_tessellation ?r = use_tessellation r"
    by (simp_all add: merge_clear_color_def Let_def)
  have "pass_target im ?r k = (if k = Color i \<and> tg_load t = Load_Load
      then Some (t\<lparr> tg_load := Load_Clear, tg_clear := clear_color_image im (cl_color c) \<rparr>) else pass_target im r k)" for k
    using t(1) i by (cases k) (auto simp: col rest t(2) color_target_def color_location_def split: if_splits)
  moreover have "final_tile draw s0 ?r = final_tile draw s0 r"
  proof (rule final_tile_same)
    show "attached ?r = attached r"
    proof
      fix k show "attached ?r k = attached r k" by (cases k) (auto simp: col rest)
    qed
  qed (simp_all add: rest)
  ultimately show ?thesis
    unfolding t(3) [symmetric] by (intro clear_as_load [OF assms(1) t(1)]) simp_all
qed

text \<open>C14: Moving a clear into the load action of a pass is correct. If the attachment found for a color
  clear is really the one the clear names, plane included, then after \<open>checkEncoderRelation\<close> the clear (what
  is left of it) and the pass leave every attachment as the clear and the pass did before, whether both
  planes of a depth-stencil clear moved, one, or none.\<close>

theorem clear_merge_correct:
  assumes former: "en_body former = Clear c" and latter: "en_body latter = Render r"
    and ok: "pass_ok r" "clear_dsv c \<noteq> 0 \<Longrightarrow> cl_attachment c \<noteq> None"
    and fits: "\<And>i. clear_dsv c = 0 \<Longrightarrow> isClearColorSignatureMatched c r = Some i \<Longrightarrow> attached r (Color i)
      \<and> [color_location (rd_colors r ! i)] = clear_locations c"
    and merged: "checkEncoderRelation former latter th = (op, f', l', th')"
  shows "run_encoder draw im s0 (en_body l') (run_encoder draw im s0 (en_body f') mem)
    = run_encoder draw im s0 (en_body latter) (run_encoder draw im s0 (en_body former) mem)"
proof -
  have check: "check_clear_render former c latter r th = (op, f', l', th')"
    using merged former latter by (simp add: checkEncoderRelation_def is_event_def)
  note tok = pass_ok_targets [OF ok(1)]
  show ?thesis
  proof (cases "render_target_array_length r \<noteq> array_length c")
    case True
    then show ?thesis using check by (simp add: check_clear_render_def by_dependency_def)
  next
    case same: False
    show ?thesis
    proof (cases "clear_dsv c = 0")
      case True
      show ?thesis
      proof (cases "isClearColorSignatureMatched c r")
        case None
        then show ?thesis using check same True by (simp add: check_clear_render_def by_dependency_def)
      next
        case (Some i)
        then have b: "en_body f' = Null" "en_body l' = Render (merge_clear_color c i r)"
          using check same True by (auto simp: check_clear_render_def absorb_clear_def)
        have loc: "clear_locations c = [color_location (rd_colors r ! i)]" and att: "attached r (Color i)"
          using fits [OF True Some] by simp_all
        have "run_clear im c mem = mem(color_location (rd_colors r ! i) := Some (clear_color_image im (cl_color c)))"
          by (simp add: run_clear_def loc color_location_def fun_eq_iff)
        then show ?thesis
          using color_clear_as_load [OF tok att, of draw im s0 c mem] by (simp add: b former latter)
      qed
    next
      case False
      obtain a where a: "cl_attachment c = Some a" using ok(2) [OF False] by blast
      obtain c1 r1 where 1: "merge_clear_depth c r = (c1, r1)" by fastforce
      obtain c2 r2 where 2: "merge_clear_stencil c1 r1 = (c2, r2)" by fastforce
      note p1 = planes_clear_depth [OF tok a 1]
      have run: "run_pass draw im s0 r2 (clear_planes im c2 mem) = run_pass draw im s0 r (clear_planes im c mem)"
        by (rule trans [OF planes_clear_stencil [OF p1(2,3) 2] p1(1)])
      have seq: "run_encoder draw im s0 (en_body latter) (run_encoder draw im s0 (en_body former) mem)
          = run_pass draw im s0 r (clear_planes im c mem)"
        by (simp add: former latter run_clear_planes [OF False])
      show ?thesis
      proof (cases "clear_dsv c2 = 0")
        case True
        then have "en_body f' = Null" "en_body l' = Render r2"
          using check same False by (auto simp: check_clear_render_def absorb_clear_def 1 2)
        moreover have "clear_planes im c2 mem = mem" by (simp add: clear_planes_def True)
        ultimately show ?thesis using run seq by simp
      next
        case left: False
        then have "en_body f' = Clear c2" "en_body l' = Render r2"
          using check same False by (auto simp: check_clear_render_def by_dependency_def 1 2)
        then show ?thesis using run seq by (simp add: run_clear_planes [OF left])
      qed
    qed
  qed
qed

text \<open>A clear of a buffer render target can be lost. Its texture attachment is null, which
  \<open>isClearColorSignatureMatched\<close> takes for equal to the null attachment of an empty slot: if slot 0 of the
  next pass is empty, the clear is dropped and the pass does not clear the buffer, whatever it draws.\<close>

theorem buffer_clear_lost:
  assumes "en_body former = Clear c" "en_body latter = Render r"
    and clear: "clear_dsv c = 0" "cl_attachment c = None" "cl_buffer c = Some b" "array_length c = render_target_array_length r"
    and slot0: "0 < render_target_count r" "ca_attachment (rd_colors r ! 0) = None" "ca_load (rd_colors r ! 0) = Load_DontCare"
  shows "\<exists>f' l'. checkEncoderRelation former latter th = (Synchronize, f', l', th)
    \<and> en_body f' = Null \<and> en_body l' = Render r"
proof -
  have "isClearColorSignatureMatched c r = Some 0"
    using clear slot0 by (simp add: isClearColorSignatureMatched_def upt_rec)
  then have "checkEncoderRelation former latter th =
      (case absorb_clear former latter (merge_clear_color c 0 r) of (f, l) \<Rightarrow> (Synchronize, f, l, th))"
    using assms by (simp add: checkEncoderRelation_def is_event_def check_clear_render_def)
  then show ?thesis using slot0(3) by (simp add: absorb_clear_def merge_clear_color_def)
qed

text \<open>The clear of one slice of a 3D texture can clear another. \<open>isClearColorSignatureMatched\<close> compares
  views, which name no depth plane, so the clear of plane \<open>p\<close> becomes the load action of a pass over any
  other plane of the texture: that plane is cleared and plane \<open>p\<close> is not.\<close>

theorem plane_clear_misplaced:
  assumes "en_body former = Clear c" "en_body latter = Render r"
    and clear: "clear_dsv c = 0" "cl_attachment c = Some a" "array_length c = render_target_array_length r"
    and slot0: "0 < render_target_count r" "length (rd_colors r) = 8" "ca_attachment (rd_colors r ! 0) = Some a"
      "ca_load (rd_colors r ! 0) = Load_Load" "ca_depth_plane (rd_colors r ! 0) \<noteq> cl_depth_plane c"
    and merged: "checkEncoderRelation former latter th = (op, f', l', th')"
  shows "en_body f' = Null \<and> (\<exists>r'. en_body l' = Render r' \<and>
    (\<exists>t. pass_target im r' (Color 0) = Some t \<and> tg_load t = Load_Clear \<and> tg_location t \<notin> set (clear_locations c)))"
proof -
  have "isClearColorSignatureMatched c r = Some 0"
    using clear slot0 by (simp add: isClearColorSignatureMatched_def upt_rec)
  then have b: "en_body f' = Null" "en_body l' = Render (merge_clear_color c 0 r)"
    using assms(1-5) merged by (auto simp: checkEncoderRelation_def is_event_def check_clear_render_def absorb_clear_def)
  have "\<exists>t. pass_target im (merge_clear_color c 0 r) (Color 0) = Some t \<and> tg_load t = Load_Clear
      \<and> tg_location t \<notin> set (clear_locations c)"
    using slot0 clear by (simp add: merge_clear_color_def color_target_def color_location_def clear_locations_def)
  then show ?thesis using b by blast
qed

subsection \<open>Sample passes\<close>

text \<open>Draws that fill the tile with the command plus the argument buffer bound.\<close>

definition sample_draw :: "(nat, unit, nat) draw" where
  "sample_draw c bd s tile = (s, (\<lambda>k. map_option (\<lambda>b. c + b) (bd (Vertex_stage, 16))))"

definition sample_images :: "nat images" where
  "sample_images = \<lparr> clear_color_image = (\<lambda>_. 100), clear_depth_image = (\<lambda>_. 200), clear_stencil_image = (\<lambda>_. 300),
     resolve_image = id \<rparr>"

definition no_color :: color_attachment where
  "no_color = \<lparr> ca_attachment = None, ca_buffer = None, ca_buffer_texture = None, ca_buffer_view_id = 0,
     ca_load = Load_DontCare, ca_store = Store_DontCare, ca_depth_plane = 0, ca_clear = (0, 0, 0, 0), ca_resolve = None \<rparr>"

definition sample_pass :: "nat \<Rightarrow> nat \<Rightarrow> color_attachment \<Rightarrow> nat render_data" where
  "sample_pass buffer command color = sample_render\<lparr> rd_colors := color # replicate 7 no_color,
     rd_commands := [Other_command command], allocated_argbuf := buffer, fence_update_vertex := fs_empty \<rparr>"

lemma sample_fields:
  "ca_attachment no_color = None" "ca_buffer no_color = None" "ca_buffer_texture no_color = None"
  "ca_attachment sample_color = Some sample_target" "ca_buffer sample_color = None" "ca_buffer_texture sample_color = None"
  "pa_attachment (sample_plane :: 'k :: zero plane_attachment) = None"
  by (simp_all add: no_color_def sample_color_def sample_plane_def)

lemma sample_pass_colors:
  "i < 8 \<Longrightarrow> rd_colors (sample_pass b c a) ! i = (if i = 0 then a else no_color)" "length (rd_colors (sample_pass b c a)) = 8"
  by (cases i) (simp_all add: sample_pass_def)

lemma sample_pass_attached: "attached (sample_pass b c sample_color) s \<longleftrightarrow> s = Color 0"
proof (cases s)
  case (Color i)
  then show ?thesis by (cases "i < 8") (simp_all add: sample_pass_colors sample_fields)
qed (simp_all add: sample_pass_def sample_render_def sample_fields)

lemma sample_pass_ok: "b \<noteq> 0 \<Longrightarrow> pass_ok (sample_pass b c sample_color)"
  unfolding pass_ok_def targets_ok_def sample_pass_attached
  by (auto simp: sample_pass_colors sample_fields) (simp_all add: sample_pass_def sample_render_def)

lemma sample_pass_keeps: "keeps_arguments (sample_pass b c a)"
  by (simp add: keeps_arguments_def sample_pass_def)

lemma sample_pass_self_contained: "self_contained sample_draw (sample_pass b c a)"
  by (auto simp: self_contained_def sample_pass_def pass_bound_def bound_to_def argument_slots_def sample_render_def
      run_commands_def sample_draw_def)

definition sample_pass_encoder :: "nat \<Rightarrow> nat render_data \<Rightarrow> fence_set \<Rightarrow> nat encoder" where
  "sample_pass_encoder k r w = \<lparr> en_body = Render r, en_fence_wait = w, en_fence_update = fs_singleton (of_nat k), en_work = [k] \<rparr>"

lemma sample_passes_match: "isEncoderSignatureMatched (sample_pass b c sample_color) (sample_pass b' c' sample_color)"
proof -
  have "render_target_count (sample_pass b c sample_color) = 1" "render_target_count (sample_pass b' c' sample_color) = 1"
    by (simp_all add: sample_pass_def sample_render_def)
  moreover have "colors_match sample_color sample_color" by (simp add: colors_match_def sample_color_def)
  ultimately show ?thesis
    unfolding isEncoderSignatureMatched_def
    by (simp add: sample_pass_colors planes_match_def) (simp add: sample_pass_def sample_render_def)
qed

text \<open>Two passes over one target, with different argument buffers: merged, the second draw still sees
  its own buffer, and the target holds \<open>7 + 2\<close>.\<close>

lemma render_merge_correct_witness:
  "\<exists>op f' l' th'. checkEncoderRelation (sample_pass_encoder 1 (sample_pass 1 5 sample_color) fs_empty)
       (sample_pass_encoder 2 (sample_pass 2 7 sample_color) (fs_singleton 1)) sample_heap = (op, f', l', th')
     \<and> run_encoder sample_draw sample_images () (en_body l') (run_encoder sample_draw sample_images () (en_body f') Map.empty)
         (color_location sample_color) = Some 9"
proof -
  let ?r0 = "sample_pass 1 5 sample_color" and ?r1 = "sample_pass 2 7 sample_color"
  let ?f = "sample_pass_encoder 1 ?r0 fs_empty" and ?l = "sample_pass_encoder 2 ?r1 (fs_singleton 1)"
  obtain op f' l' th' where c: "checkEncoderRelation ?f ?l sample_heap = (op, f', l', th')" by (metis prod_cases4)
  have "fence_wait_vertex ?r1 = fs_empty" by (simp add: sample_pass_def sample_render_def)
  then have null: "en_body f' = Null"
    using c sample_passes_match [of 1 5 2 7]
    by (auto simp: checkEncoderRelation_def sample_pass_encoder_def is_event_def check_renders_def fence_simps)
  have run: "final_tile sample_draw () ?r1 tile (Color 0) = Some 9" for tile
    using sample_pass_attached [of 2 7]
    by (simp add: final_tile_def run_commands_append run_start_bindings)
      (simp add: sample_pass_def sample_render_def run_commands_def sample_draw_def bind_all_def argument_slots_def)
  obtain t where t: "pass_target sample_images ?r1 (Color 0) = Some t" "tg_location t = color_location sample_color"
      "tg_store t = Store_Store"
    by (simp add: sample_pass_colors color_target_def sample_fields) (simp add: sample_color_def)
  have "s = Color 0" if "pass_target sample_images ?r1 s = Some u" for s u
    using that pass_target_None [of sample_images ?r1 s] sample_pass_attached by simp
  then have "\<forall>s u. pass_target sample_images ?r1 s = Some u \<longrightarrow> tg_store u = Store_Store" using t(1,3) by (metis option.inject)
  moreover have "targets_ok ?r1" by (rule pass_ok_targets [OF sample_pass_ok]) simp
  moreover have "distinct pass_slots" "Color 0 \<in> set pass_slots"
    by (auto simp: pass_slots_def distinct_map inj_on_def)
  ultimately have "run_pass sample_draw sample_images () ?r1 mem (color_location sample_color) = Some 9" for mem
    using store_slots_at [of ?r1 pass_slots "Color 0" sample_images t] t run
    unfolding run_pass_final store_tile_def by metis
  then show ?thesis
    using render_merge_correct [OF _ _ _ _ _ _ _ c null, of ?r0 ?r1 sample_draw sample_images "()" Map.empty "color_location sample_color"]
      sample_pass_ok sample_pass_keeps sample_pass_self_contained c
    by (auto simp: sample_pass_encoder_def)
qed

text \<open>A clear of the target in front of a pass over it.\<close>

definition sample_clear_encoder :: "clear_data \<Rightarrow> nat encoder" where
  "sample_clear_encoder c = \<lparr> en_body = Clear c, en_fence_wait = fs_empty, en_fence_update = fs_singleton 0, en_work = [0] \<rparr>"

lemma clear_merge_correct_witness:
  "\<exists>op f' l' th'. checkEncoderRelation (sample_clear_encoder sample_clear)
       (sample_pass_encoder 1 (sample_pass 1 5 sample_color) fs_empty) sample_heap = (op, f', l', th')
     \<and> en_body f' = Null
     \<and> run_encoder sample_draw sample_images () (en_body l') (run_encoder sample_draw sample_images () (en_body f') Map.empty)
       = run_pass sample_draw sample_images () (sample_pass 1 5 sample_color) (run_clear sample_images sample_clear Map.empty)"
proof -
  let ?r = "sample_pass 1 5 sample_color"
  let ?f = "sample_clear_encoder sample_clear" and ?l = "sample_pass_encoder 1 ?r fs_empty"
  obtain op f' l' th' where c: "checkEncoderRelation ?f ?l sample_heap = (op, f', l', th')" by (metis prod_cases4)
  have n: "render_target_count ?r = 1" "render_target_array_length ?r = 0" by (simp_all add: sample_pass_def sample_render_def)
  have cl: "clear_dsv sample_clear = 0" "cl_attachment sample_clear = Some sample_target" "array_length sample_clear = 0"
    by (simp_all add: sample_clear_def)
  have found: "isClearColorSignatureMatched sample_clear ?r = Some 0"
    using cl n by (simp add: isClearColorSignatureMatched_def sample_pass_colors sample_fields)
  have "en_body f' = Null"
    using c found cl n
    by (auto simp: checkEncoderRelation_def sample_clear_encoder_def sample_pass_encoder_def is_event_def
        check_clear_render_def absorb_clear_def)
  moreover have "attached ?r (Color 0) \<and> [color_location (rd_colors ?r ! 0)] = clear_locations sample_clear"
    unfolding sample_pass_attached
    by (simp add: sample_pass_colors clear_locations_def color_location_def sample_clear_def sample_color_def)
  ultimately show ?thesis
    using clear_merge_correct [OF _ _ _ _ _ c, of sample_clear ?r sample_draw sample_images "()" Map.empty] found c cl
      sample_pass_ok [of 1 5]
    by (auto simp: sample_clear_encoder_def sample_pass_encoder_def)
qed

lemma buffer_clear_lost_witness:
  "\<exists>f' l'. checkEncoderRelation (sample_clear_encoder (sample_clear\<lparr> cl_attachment := None, cl_buffer := Some 3 \<rparr>))
       (sample_pass_encoder 1 (sample_pass 1 5 no_color) fs_empty) sample_heap = (Synchronize, f', l', sample_heap)
     \<and> en_body f' = Null \<and> en_body l' = Render (sample_pass 1 5 no_color)"
  by (rule buffer_clear_lost [where c = "sample_clear\<lparr> cl_attachment := None, cl_buffer := Some 3 \<rparr>" and b = 3])
     (simp_all add: sample_clear_encoder_def sample_pass_encoder_def sample_clear_def sample_pass_def sample_render_def
       no_color_def)

lemma plane_clear_misplaced_witness:
  "\<exists>op f' l' th'. checkEncoderRelation (sample_clear_encoder sample_clear)
       (sample_pass_encoder 1 (sample_pass 1 5 (sample_color\<lparr> ca_depth_plane := 4 \<rparr>)) fs_empty) sample_heap = (op, f', l', th')
     \<and> en_body f' = Null \<and> (\<exists>r'. en_body l' = Render r' \<and>
    (\<exists>t. pass_target sample_images r' (Color 0) = Some t \<and> tg_load t = Load_Clear
       \<and> tg_location t \<notin> set (clear_locations sample_clear)))"
proof -
  let ?f = "sample_clear_encoder sample_clear"
    and ?l = "sample_pass_encoder 1 (sample_pass 1 5 (sample_color\<lparr> ca_depth_plane := 4 \<rparr>)) fs_empty"
  obtain op f' l' th' where c: "checkEncoderRelation ?f ?l sample_heap = (op, f', l', th')" by (metis prod_cases4)
  have "en_body f' = Null \<and> (\<exists>r'. en_body l' = Render r' \<and>
    (\<exists>t. pass_target sample_images r' (Color 0) = Some t \<and> tg_load t = Load_Clear
       \<and> tg_location t \<notin> set (clear_locations sample_clear)))"
    by (rule plane_clear_misplaced [where c = sample_clear and a = sample_target
          and r = "sample_pass 1 5 (sample_color\<lparr> ca_depth_plane := 4 \<rparr>)", OF _ _ _ _ _ _ _ _ _ _ c])
       (simp_all add: sample_clear_encoder_def sample_pass_encoder_def sample_clear_def sample_pass_def sample_render_def
         sample_color_def)
  then show ?thesis using c by blast
qed

end
