(* ===== verification/ByteParsing.thy ===== *)
theory ByteParsing
  imports Prelude
begin

text \<open>
  What the binary parsers share (the helpers at the head of src/libs/DXILParser/DXILParser.cpp and
  src/src/d3d12/d3d12_root_signature.cpp): little-endian reads from a span of bytes, written with a
  bounds test of their own so that a read past the end is a value of its own kind of failure, and
  \<open>CheckedEnd\<close>. A parser is a sum: a failure, or the result. The collection \<open>in_bounds_intro\<close>
  proves that a parser never reads out of bounds.
\<close>

named_theorems in_bounds_intro \<comment> \<open>parsers that stay inside their input\<close>
named_theorems parse_simps \<comment> \<open>evaluation of parsers\<close>

subsection \<open>Failures and sequencing\<close>

text \<open>A parser may read past the end of its span (undefined behaviour), ask a vector for more than its
  maximal size (\<open>std::length_error\<close>), or reject the input with a status.\<close>

datatype 's failure = Out_of_bounds | Length_error | Rejected 's

type_synonym ('s, 'a) parse = "'s failure + 'a"

definition bindP :: "('s, 'a) parse \<Rightarrow> ('a \<Rightarrow> ('s, 'b) parse) \<Rightarrow> ('s, 'b) parse" where
  "bindP m f = (case m of Inl e \<Rightarrow> Inl e | Inr a \<Rightarrow> f a)"

text \<open>\<open>if (!c) return s;\<close>\<close>

definition require :: "bool \<Rightarrow> 's \<Rightarrow> ('s, 'b) parse \<Rightarrow> ('s, 'b) parse" where
  "require c s p = (if c then p else Inl (Rejected s))"

lemma bindP_simps [simp]: "bindP (Inr a) f = f a" "bindP (Inl e) f = Inl e"
  by (simp_all add: bindP_def)

lemma bindP_assoc: "bindP (bindP m f) g = bindP m (\<lambda>a. bindP (f a) g)"
  by (simp add: bindP_def split: sum.split)

lemma bindP_cong [fundef_cong]:
  "m = m' \<Longrightarrow> (\<And>a. m' = Inr a \<Longrightarrow> f a = f' a) \<Longrightarrow> bindP m f = bindP m' f'"
  by (cases m') (simp_all add: bindP_def)

lemma bindP_Inr: "bindP m f = Inr b \<longleftrightarrow> (\<exists>a. m = Inr a \<and> f a = Inr b)"
  by (cases m) simp_all

lemma require_cong [fundef_cong]:
  "c = c' \<Longrightarrow> s = s' \<Longrightarrow> (c' \<Longrightarrow> p = p') \<Longrightarrow> require c s p = require c' s' p'"
  by (simp add: require_def)

lemma require_simps [simp]: "require True s p = p" "require False s p = Inl (Rejected s)"
  by (simp_all add: require_def)

lemma require_Inr: "require c s p = Inr b \<longleftrightarrow> c \<and> p = Inr b"
  by (simp add: require_def)

text \<open>The parse of a list of things one after the other.\<close>

fun parse_each :: "('a \<Rightarrow> ('s, 'b) parse) \<Rightarrow> 'a list \<Rightarrow> ('s, 'b list) parse" where
  "parse_each f [] = Inr []"
| "parse_each f (x # xs) = bindP (f x) (\<lambda>y. bindP (parse_each f xs) (\<lambda>ys. Inr (y # ys)))"

lemma parse_each_Inr:
  "parse_each f xs = Inr ys \<longleftrightarrow> length ys = length xs \<and> (\<forall>i < length xs. f (xs ! i) = Inr (ys ! i))"
proof (induction xs arbitrary: ys)
  case (Cons x xs)
  show ?case
  proof (cases ys)
    case (Cons y ys')
    have "parse_each f (x # xs) = Inr ys \<longleftrightarrow> f x = Inr y \<and> parse_each f xs = Inr ys'"
      by (auto simp: bindP_Inr Cons)
    then show ?thesis
      by (auto simp: Cons.IH Cons nth_Cons' less_Suc_eq_0_disj)
  qed (simp add: bindP_Inr)
qed auto

lemma parse_each_map:
  assumes "\<And>i. i < length xs \<Longrightarrow> f (xs ! i) = Inr (g (xs ! i))"
  shows "parse_each f xs = Inr (map g xs)"
  using assms by (simp add: parse_each_Inr)

subsection \<open>Staying in bounds\<close>

definition in_bounds :: "('s, 'a) parse \<Rightarrow> bool" where
  "in_bounds m \<longleftrightarrow> m \<noteq> Inl Out_of_bounds"

lemma in_bounds_basic [in_bounds_intro, simp]:
  "in_bounds (Inr a)" "in_bounds (Inl (Rejected s))" "in_bounds (Inl Length_error)"
  by (simp_all add: in_bounds_def)

lemma in_bounds_bind [in_bounds_intro]:
  "in_bounds m \<Longrightarrow> (\<And>a. m = Inr a \<Longrightarrow> in_bounds (f a)) \<Longrightarrow> in_bounds (bindP m f)"
  by (cases m) (simp_all add: in_bounds_def)

lemma in_bounds_require [in_bounds_intro]: "(c \<Longrightarrow> in_bounds p) \<Longrightarrow> in_bounds (require c s p)"
  by (simp add: require_def)

lemma in_bounds_if [in_bounds_intro]:
  "(c \<Longrightarrow> in_bounds p) \<Longrightarrow> (\<not> c \<Longrightarrow> in_bounds q) \<Longrightarrow> in_bounds (if c then p else q)"
  by simp

lemma in_bounds_each [in_bounds_intro]:
  "(\<And>x. x \<in> set xs \<Longrightarrow> in_bounds (f x)) \<Longrightarrow> in_bounds (parse_each f xs)"
proof (induction xs)
  case (Cons x xs)
  then show ?case by (auto intro!: in_bounds_bind)
qed simp

subsection \<open>Reads\<close>

definition read_u8 :: "u8 list \<Rightarrow> nat \<Rightarrow> ('s, u8) parse" where
  "read_u8 d i = (if i < length d then Inr (d ! i) else Inl Out_of_bounds)"

definition read_u16 :: "u8 list \<Rightarrow> nat \<Rightarrow> ('s, u16) parse" where
  "read_u16 d i = bindP (read_u8 d i) (\<lambda>a. bindP (read_u8 d (i + 1)) (\<lambda>b. Inr (ucast a OR push_bit 8 (ucast b))))"

definition read_u32 :: "u8 list \<Rightarrow> nat \<Rightarrow> ('s, u32) parse" where
  "read_u32 d i =
     bindP (read_u8 d i) (\<lambda>a. bindP (read_u8 d (i + 1)) (\<lambda>b. bindP (read_u8 d (i + 2)) (\<lambda>c. bindP (read_u8 d (i + 3)) (\<lambda>e.
       Inr (ucast a OR push_bit 8 (ucast b) OR push_bit 16 (ucast c) OR push_bit 24 (ucast e))))))"

definition read_u64 :: "u8 list \<Rightarrow> nat \<Rightarrow> ('s, u64) parse" where
  "read_u64 d i = bindP (read_u32 d i) (\<lambda>lo. bindP (read_u32 d (i + 4)) (\<lambda>hi. Inr (ucast lo OR push_bit 32 (ucast hi))))"

text \<open>A span of the input: the iterators must stay inside it.\<close>

definition subspan :: "u8 list \<Rightarrow> nat \<Rightarrow> nat \<Rightarrow> ('s, u8 list) parse" where
  "subspan d i n = (if i + n \<le> length d then Inr (take n (drop i d)) else Inl Out_of_bounds)"

text \<open>\<open>CheckedEnd\<close>: the end of a range that fits.\<close>

definition checked_end :: "nat \<Rightarrow> nat \<Rightarrow> nat \<Rightarrow> nat option" where
  "checked_end offset sz limit = (if offset > limit \<or> sz > limit - offset then None else Some (offset + sz))"

lemma checked_end_Some: "checked_end offset sz limit = Some e \<longleftrightarrow> offset + sz \<le> limit \<and> e = offset + sz"
  by (auto simp: checked_end_def)

lemma checked_end_fits: "checked_end offset sz limit \<noteq> None \<longleftrightarrow> offset + sz \<le> limit"
  by (auto simp: checked_end_def)

lemma in_bounds_reads [in_bounds_intro]:
  "i < length d \<Longrightarrow> in_bounds (read_u8 d i)"
  "i + 2 \<le> length d \<Longrightarrow> in_bounds (read_u16 d i)"
  "i + 4 \<le> length d \<Longrightarrow> in_bounds (read_u32 d i)"
  "i + 8 \<le> length d \<Longrightarrow> in_bounds (read_u64 d i)"
  "i + n \<le> length d \<Longrightarrow> in_bounds (subspan d i n)"
  by (simp_all add: read_u8_def read_u16_def read_u32_def read_u64_def subspan_def)

subsection \<open>Writes\<close>

text \<open>\<open>WriteU32\<close>, \<open>WriteU16\<close> and \<open>PatchU32\<close> on the vector being built.\<close>

definition u16_bytes :: "u16 \<Rightarrow> u8 list" where
  "u16_bytes v = [ucast (v AND 0xff), ucast (drop_bit 8 v AND 0xff)]"

definition u32_bytes :: "u32 \<Rightarrow> u8 list" where
  "u32_bytes v = [ucast (v AND 0xff), ucast (drop_bit 8 v AND 0xff), ucast (drop_bit 16 v AND 0xff),
                  ucast (drop_bit 24 v AND 0xff)]"

definition WriteU32 :: "u8 list \<Rightarrow> u32 \<Rightarrow> u8 list" where
  "WriteU32 data v = data @ u32_bytes v"

definition WriteU16 :: "u8 list \<Rightarrow> u16 \<Rightarrow> u8 list" where
  "WriteU16 data v = data @ u16_bytes v"

definition PatchU32 :: "u8 list \<Rightarrow> nat \<Rightarrow> u32 \<Rightarrow> u8 list" where
  "PatchU32 data offset v =
     data[offset + 0 := ucast (v AND 0xff), offset + 1 := ucast (drop_bit 8 v AND 0xff),
          offset + 2 := ucast (drop_bit 16 v AND 0xff), offset + 3 := ucast (drop_bit 24 v AND 0xff)]"

lemma bytes_length [simp]: "length (u16_bytes v) = 2" "length (u32_bytes w) = 4"
  by (simp_all add: u16_bytes_def u32_bytes_def)

lemma u32_bytes_join:
  "(ucast (ucast (v AND 0xff) :: u8) :: u32) OR push_bit 8 (ucast (ucast (drop_bit 8 v AND 0xff) :: u8))
     OR push_bit 16 (ucast (ucast (drop_bit 16 v AND 0xff) :: u8))
     OR push_bit 24 (ucast (ucast (drop_bit 24 v AND 0xff) :: u8)) = (v :: u32)"
proof (rule bit_word_eqI)
  fix n assume "n < LENGTH(32)"
  then have n: "n < 32" by simp
  have m8: "(0xff :: u32) = mask 8" by (simp add: mask_eq_exp_minus_1)
  consider "n < 8" | "8 \<le> n" "n < 16" | "16 \<le> n" "n < 24" | "24 \<le> n" using n by linarith
  then show "bit ((ucast (ucast (v AND 0xff) :: u8) :: u32) OR push_bit 8 (ucast (ucast (drop_bit 8 v AND 0xff) :: u8))
     OR push_bit 16 (ucast (ucast (drop_bit 16 v AND 0xff) :: u8))
     OR push_bit 24 (ucast (ucast (drop_bit 24 v AND 0xff) :: u8))) n = bit v n"
    using n unfolding m8 by cases (auto simp: bit_simps)
qed

lemma read_u32_bytes: "read_u32 (xs @ u32_bytes v @ ys) (length xs) = Inr v"
  using u32_bytes_join [of v] by (simp add: read_u32_def read_u8_def nth_append u32_bytes_def)

lemma read_u32_at:
  assumes "i + 4 \<le> length d" "take 4 (drop i d) = u32_bytes v"
  shows "read_u32 d i = Inr v"
proof -
  have "d = take i d @ u32_bytes v @ drop (i + 4) d"
    using assms by (metis append_take_drop_id drop_drop add.commute)
  then show ?thesis
    using read_u32_bytes [of "take i d" v "drop (i + 4) d"] assms(1) by simp
qed

end
