(* ===== verification/DxilContainer.thy ===== *)
theory DxilContainer
  imports ByteParsing
begin

text \<open>
  The container of a compiled shader (src/libs/DXILParser/DXILParser.cpp): the table of parts, the
  DXIL program header, the bitcode wrapper, and the parts with a layout of their own. Every parser
  returns what the C++ fills in when it answers \<open>ParseStatus::Ok\<close>; a span is the list of its bytes.
  Offsets are 64-bit (\<open>size_t\<close>) sums and products of 32-bit fields, which do not wrap.
\<close>

datatype parse_status =
    Ok | InvalidArgument | Truncated | BadContainerMagic | InvalidContainerSize | InvalidPartOffset | InvalidPartSize
  | MissingDxilPart | InvalidDxilProgram | InvalidDxilMagic | InvalidDxilBitcodeRange | InvalidSignature
  | InvalidFeatureInfo | InvalidRuntimeData | InvalidPipelineStateValidation | InvalidShaderHash
  | InvalidCompilerVersion | InvalidShaderDebugName | InvalidSourceInfo | InvalidShaderPdbInfo
  | InvalidShaderStatistics | InvalidResourceDef | InvalidBitcode | InvalidLlvmModule

type_synonym 'a dxil_parse = "(parse_status, 'a) parse"

subsection \<open>Four-character codes and sizes\<close>

definition MakeFourCC :: "u8 \<Rightarrow> u8 \<Rightarrow> u8 \<Rightarrow> u8 \<Rightarrow> u32" where
  "MakeFourCC a b c d = ucast a OR push_bit 8 (ucast b) OR push_bit 16 (ucast c) OR push_bit 24 (ucast d)"

definition fourcc_Container :: u32 where "fourcc_Container = MakeFourCC 0x44 0x58 0x42 0x43" \<comment> \<open>DXBC\<close>
definition fourcc_Dxil :: u32 where "fourcc_Dxil = MakeFourCC 0x44 0x58 0x49 0x4C" \<comment> \<open>DXIL\<close>

definition kContainerHeaderSize :: nat where "kContainerHeaderSize = 32"
definition kPartHeaderSize :: nat where "kPartHeaderSize = 8"
definition kDxilProgramHeaderSize :: nat where "kDxilProgramHeaderSize = 24"
definition kDxilBitcodeHeaderOffset :: nat where "kDxilBitcodeHeaderOffset = 8"
definition kBitcodeWrapperMagicValue :: u32 where "kBitcodeWrapperMagicValue = 0x0b17c0de"
definition kBitcodeWrapperHeaderSize :: nat where "kBitcodeWrapperHeaderSize = 20"

lemmas dxil_sizes = kContainerHeaderSize_def kPartHeaderSize_def kDxilProgramHeaderSize_def
  kDxilBitcodeHeaderOffset_def kBitcodeWrapperHeaderSize_def

subsection \<open>The container\<close>

record blob_part =
  bp_fourcc :: u32
  bp_offset :: u32
  bp_data :: "u8 list"

record container_info =
  ci_hash :: "u8 list"
  ci_major_version :: u16
  ci_minor_version :: u16
  ci_container_size :: u32
  ci_parts :: "blob_part list"

text \<open>The body of the loop over the part table.\<close>

definition parse_part :: "u8 list \<Rightarrow> nat \<Rightarrow> nat \<Rightarrow> nat \<Rightarrow> blob_part dxil_parse" where
  "parse_part data container_size part_index_table_end i =
     bindP (read_u32 data (kContainerHeaderSize + i * 4)) (\<lambda>part_offset.
       require (\<not> (unat part_offset < part_index_table_end \<or> unat part_offset > container_size)) InvalidPartOffset
        (case checked_end (unat part_offset) kPartHeaderSize container_size of
           None \<Rightarrow> Inl (Rejected InvalidPartOffset)
         | Some part_header_end \<Rightarrow>
             bindP (read_u32 data (unat part_offset)) (\<lambda>part_fourcc.
             bindP (read_u32 data (unat part_offset + 4)) (\<lambda>part_size.
               (case checked_end part_header_end (unat part_size) container_size of
                  None \<Rightarrow> Inl (Rejected InvalidPartSize)
                | Some part_end \<Rightarrow>
                    bindP (subspan data part_header_end (unat part_size)) (\<lambda>span.
                      Inr \<lparr> bp_fourcc = part_fourcc, bp_offset = part_offset, bp_data = span \<rparr>))))))"

definition parseContainer :: "u8 list \<Rightarrow> container_info dxil_parse" where
  "parseContainer data =
     require (\<not> length data < kContainerHeaderSize) Truncated
      (bindP (read_u32 data 0) (\<lambda>magic.
        require (magic = fourcc_Container) BadContainerMagic
         (bindP (read_u32 data 24) (\<lambda>container_size.
          bindP (read_u32 data 28) (\<lambda>part_count.
            require (\<not> (unat container_size < kContainerHeaderSize \<or> unat container_size > length data)) InvalidContainerSize
             (case checked_end kContainerHeaderSize (unat part_count * 4) (unat container_size) of
                None \<Rightarrow> Inl (Rejected InvalidContainerSize)
              | Some part_index_table_end \<Rightarrow>
                  bindP (read_u16 data 20) (\<lambda>major.
                  bindP (read_u16 data 22) (\<lambda>minor.
                  bindP (subspan data 4 16) (\<lambda>hash.
                  bindP (parse_each (parse_part data (unat container_size) part_index_table_end) [0..<unat part_count]) (\<lambda>parts.
                    Inr \<lparr> ci_hash = hash, ci_major_version = major, ci_minor_version = minor,
                          ci_container_size = container_size, ci_parts = parts \<rparr>))))))))))"

definition findPart :: "u32 \<Rightarrow> nat \<Rightarrow> container_info \<Rightarrow> blob_part option" where
  "findPart fourcc start_index info = List.find (\<lambda>p. bp_fourcc p = fourcc) (drop start_index (ci_parts info))"

text \<open>A null pointer with a size is refused; \<open>data\<close> is None for a null pointer.\<close>

definition ParseContainer :: "u8 list option \<Rightarrow> nat \<Rightarrow> container_info dxil_parse" where
  "ParseContainer data sz =
     (case data of
        None \<Rightarrow> if sz \<noteq> 0 then Inl (Rejected InvalidArgument) else parseContainer []
      | Some d \<Rightarrow> parseContainer (take sz d))"

subsection \<open>The program header and the bitcode wrapper\<close>

record dxil_program_info =
  pi_program_version :: u32
  pi_size_in_uint32 :: u32
  pi_dxil_version :: u32
  pi_bitcode_offset :: u32
  pi_bitcode_size :: u32
  pi_bitcode :: "u8 list"

definition ParseDxilProgram :: "blob_part \<Rightarrow> dxil_program_info dxil_parse" where
  "ParseDxilProgram part =
     (let data = bp_data part in
      require (\<not> length data < kDxilProgramHeaderSize) InvalidDxilProgram
       (bindP (read_u32 data 4) (\<lambda>program_size_in_uint32.
         (case checked_end 0 (unat program_size_in_uint32 * 4) (length data) of
            None \<Rightarrow> Inl (Rejected InvalidDxilProgram)
          | Some program_size \<Rightarrow>
              require (\<not> program_size < kDxilProgramHeaderSize) InvalidDxilProgram
               (bindP (read_u32 data kDxilBitcodeHeaderOffset) (\<lambda>dxil_magic.
                 require (dxil_magic = fourcc_Dxil) InvalidDxilMagic
                  (bindP (read_u32 data (kDxilBitcodeHeaderOffset + 8)) (\<lambda>bitcode_offset.
                   bindP (read_u32 data (kDxilBitcodeHeaderOffset + 12)) (\<lambda>bitcode_size.
                     require (bitcode_size \<noteq> 0) InvalidDxilBitcodeRange
                      (case checked_end kDxilBitcodeHeaderOffset (unat bitcode_offset) program_size of
                         None \<Rightarrow> Inl (Rejected InvalidDxilBitcodeRange)
                       | Some bitcode_start \<Rightarrow>
                           (case checked_end bitcode_start (unat bitcode_size) program_size of
                              None \<Rightarrow> Inl (Rejected InvalidDxilBitcodeRange)
                            | Some bitcode_end \<Rightarrow>
                                bindP (read_u32 data 0) (\<lambda>version.
                                bindP (read_u32 data (kDxilBitcodeHeaderOffset + 4)) (\<lambda>dxil_version.
                                bindP (subspan data bitcode_start (unat bitcode_size)) (\<lambda>bitcode.
                                  Inr \<lparr> pi_program_version = version, pi_size_in_uint32 = program_size_in_uint32,
                                        pi_dxil_version = dxil_version, pi_bitcode_offset = of_nat bitcode_start,
                                        pi_bitcode_size = bitcode_size, pi_bitcode = bitcode \<rparr>))))))))))))))"

text \<open>\<open>ExtractBitstream\<close>: the bitstream, and the wrapper's version, offset, size and CPU type if the
  data has one.\<close>

definition ExtractBitstream :: "u8 list \<Rightarrow> (u8 list \<times> (u32 \<times> u32 \<times> u32 \<times> u32) option) dxil_parse" where
  "ExtractBitstream data =
     require (\<not> length data < 4) InvalidBitcode
      (bindP (read_u32 data 0) (\<lambda>magic.
        if magic \<noteq> kBitcodeWrapperMagicValue then Inr (data, None)
        else
          require (\<not> length data < kBitcodeWrapperHeaderSize) InvalidBitcode
           (bindP (read_u32 data 8) (\<lambda>wrapper_offset.
            bindP (read_u32 data 12) (\<lambda>wrapper_size.
              (case checked_end (unat wrapper_offset) (unat wrapper_size) (length data) of
                 None \<Rightarrow> Inl (Rejected InvalidBitcode)
               | Some bitstream_end \<Rightarrow>
                   bindP (subspan data (unat wrapper_offset) (unat wrapper_size)) (\<lambda>bitstream.
                   bindP (read_u32 data 4) (\<lambda>version.
                   bindP (read_u32 data 16) (\<lambda>cpu_type.
                     Inr (bitstream, Some (version, wrapper_offset, wrapper_size, cpu_type)))))))))))"

subsection \<open>No read leaves the input\<close>

lemma in_bounds_case_end [in_bounds_intro]:
  "(\<And>e. offset + sz \<le> limit \<Longrightarrow> e = offset + sz \<Longrightarrow> in_bounds (f e))
     \<Longrightarrow> in_bounds (case checked_end offset sz limit of None \<Rightarrow> Inl (Rejected s) | Some e \<Rightarrow> f e)"
  by (auto simp: checked_end_def)

lemma parse_part_in_bounds [in_bounds_intro]:
  assumes "container_size \<le> length data" "kContainerHeaderSize + i * 4 + 4 \<le> length data"
  shows "in_bounds (parse_part data container_size table_end i)"
  unfolding parse_part_def
  by (intro in_bounds_intro) (use assms in \<open>auto simp: dxil_sizes\<close>)

lemma parseContainer_in_bounds [in_bounds_intro]: "in_bounds (parseContainer data)"
  unfolding parseContainer_def
  by (intro in_bounds_intro) (auto simp: dxil_sizes)

lemma ParseContainer_in_bounds [in_bounds_intro]: "in_bounds (ParseContainer data sz)"
  unfolding ParseContainer_def
  by (auto intro: in_bounds_intro split: option.split)

lemma ParseDxilProgram_in_bounds [in_bounds_intro]: "in_bounds (ParseDxilProgram part)"
  unfolding ParseDxilProgram_def Let_def
  by (intro in_bounds_intro) (auto simp: dxil_sizes)

lemma ExtractBitstream_in_bounds [in_bounds_intro]: "in_bounds (ExtractBitstream data)"
  unfolding ExtractBitstream_def
  by (intro in_bounds_intro) (auto simp: dxil_sizes)

end
