(* ===== verification/RootSignature.thy ===== *)
theory RootSignature
  imports DxilContainer
begin

text \<open>
  Root signatures (src/src/d3d12/d3d12_root_signature.cpp): the descriptions an application passes
  in, their validation, the storage the runtime keeps (both the 1.0 and the 1.1 form of every
  parameter), the RTS0 blob that is written from it and the parser that reads it back. Enumerations
  of the D3D12 headers are their 32-bit values, a float is its bit pattern (the code copies it with
  \<open>memcpy\<close>), a null pointer is None. The member of a parameter's union that its type does not select
  is never read; the model keeps the three members side by side. \<open>size_t\<close> is 64 bits wide, so that
  \<open>size_t(count) * size\<close> does not wrap.
\<close>

subsection \<open>Descriptions\<close>

definition VERSION_1_0 :: u32 where "VERSION_1_0 = 1"
definition VERSION_1_1 :: u32 where "VERSION_1_1 = 2"
definition VERSION_1_2 :: u32 where "VERSION_1_2 = 3"
definition TYPE_DESCRIPTOR_TABLE :: u32 where "TYPE_DESCRIPTOR_TABLE = 0"
definition TYPE_32BIT_CONSTANTS :: u32 where "TYPE_32BIT_CONSTANTS = 1"
definition TYPE_CBV :: u32 where "TYPE_CBV = 2"
definition TYPE_SRV :: u32 where "TYPE_SRV = 3"
definition TYPE_UAV :: u32 where "TYPE_UAV = 4"
definition RANGE_TYPE_SAMPLER :: u32 where "RANGE_TYPE_SAMPLER = 3"
definition MAX_ROOT_COST :: u32 where "MAX_ROOT_COST = 64"

definition is_root_descriptor :: "u32 \<Rightarrow> bool" where
  "is_root_descriptor t \<longleftrightarrow> t = TYPE_CBV \<or> t = TYPE_SRV \<or> t = TYPE_UAV"

lemmas rs_versions = VERSION_1_0_def VERSION_1_1_def VERSION_1_2_def
lemmas rs_types = TYPE_DESCRIPTOR_TABLE_def TYPE_32BIT_CONSTANTS_def TYPE_CBV_def TYPE_SRV_def TYPE_UAV_def
  is_root_descriptor_def

record rs_range =
  rng_type :: u32
  rng_count :: u32
  rng_base_register :: u32
  rng_space :: u32
  rng_offset :: u32

record rs_range1 = rs_range +
  rng_flags :: u32

record rs_constants =
  cst_register :: u32
  cst_space :: u32
  cst_num_values :: u32

record rs_descriptor =
  dsc_register :: u32
  dsc_space :: u32

record rs_descriptor1 = rs_descriptor +
  dsc_flags :: u32

record ('r, 'd) rs_parameter =
  ParameterType :: u32
  ShaderVisibility :: u32
  NumDescriptorRanges :: u32
  pDescriptorRanges :: "'r list option"
  Constants :: rs_constants
  Descriptor :: 'd

type_synonym rs_parameter0 = "(rs_range, rs_descriptor) rs_parameter"
type_synonym rs_parameter1 = "(rs_range1, rs_descriptor1) rs_parameter"

record static_sampler =
  smp_filter :: u32
  smp_address_u :: u32
  smp_address_v :: u32
  smp_address_w :: u32
  smp_mip_lod_bias :: u32
  smp_max_anisotropy :: u32
  smp_comparison :: u32
  smp_border_color :: u32
  smp_min_lod :: u32
  smp_max_lod :: u32
  smp_register :: u32
  smp_space :: u32
  smp_visibility :: u32

record ('r, 'd) rs_desc =
  NumParameters :: u32
  pParameters :: "('r, 'd) rs_parameter list option"
  NumStaticSamplers :: u32
  pStaticSamplers :: "static_sampler list option"
  desc_flags :: u32

type_synonym rs_desc0 = "(rs_range, rs_descriptor) rs_desc"
type_synonym rs_desc1 = "(rs_range1, rs_descriptor1) rs_desc"

text \<open>The elements \<open>p[0] .. p[n - 1]\<close> of an array the application passes with its length.\<close>

definition array_of :: "'a list option \<Rightarrow> u32 \<Rightarrow> 'a list" where
  "array_of p n = (case p of None \<Rightarrow> [] | Some xs \<Rightarrow> take (unat n) xs)"

subsection \<open>Validation\<close>

text \<open>The first loop: a table has no null array of ranges, no empty range, and not both samplers and
  other ranges.\<close>

definition table_valid :: "('a rs_range_scheme, 'd) rs_parameter \<Rightarrow> bool" where
  "table_valid p \<longleftrightarrow>
     (if ParameterType p = TYPE_DESCRIPTOR_TABLE \<and> NumDescriptorRanges p \<noteq> 0
      then pDescriptorRanges p \<noteq> None \<and>
           (let ranges = array_of (pDescriptorRanges p) (NumDescriptorRanges p) in
              list_all (\<lambda>r. rng_count r \<noteq> 0) ranges \<and>
              \<not> (list_ex (\<lambda>r. rng_type r = RANGE_TYPE_SAMPLER) ranges \<and> list_ex (\<lambda>r. rng_type r \<noteq> RANGE_TYPE_SAMPLER) ranges))
      else True)"

text \<open>The second loop: the cost of a parameter, None for a type the switch does not have.\<close>

definition parameter_cost :: "('r, 'd) rs_parameter \<Rightarrow> u32 option" where
  "parameter_cost p =
     (if ParameterType p = TYPE_DESCRIPTOR_TABLE then Some 1
      else if ParameterType p = TYPE_32BIT_CONSTANTS then Some (cst_num_values (Constants p) + 1)
      else if is_root_descriptor (ParameterType p) then Some 2
      else None)"

fun root_cost :: "u32 \<Rightarrow> ('r, 'd) rs_parameter list \<Rightarrow> u32 option" where
  "root_cost cost [] = Some cost"
| "root_cost cost (p # ps) = (case parameter_cost p of None \<Rightarrow> None | Some c \<Rightarrow> root_cost (cost + c) ps)"

definition desc_valid :: "('a rs_range_scheme, 'd) rs_desc \<Rightarrow> bool" where
  "desc_valid desc \<longleftrightarrow>
     \<not> (NumParameters desc \<noteq> 0 \<and> pParameters desc = None) \<and>
     \<not> (NumStaticSamplers desc \<noteq> 0 \<and> pStaticSamplers desc = None) \<and>
     (let parameters = array_of (pParameters desc) (NumParameters desc) in
        list_all table_valid parameters \<and>
        (case root_cost 0 parameters of None \<Rightarrow> False | Some cost \<Rightarrow> cost \<le> MAX_ROOT_COST))"

definition ValidateDesc0 :: "rs_desc0 \<Rightarrow> bool" where
  "ValidateDesc0 desc = desc_valid desc"

definition ValidateDesc1 :: "rs_desc1 \<Rightarrow> bool" where
  "ValidateDesc1 desc = desc_valid desc"

subsection \<open>The storage\<close>

record binding_range =
  br_type :: u32
  br_base_register :: u32
  br_space :: u32
  br_count :: u32
  br_offset :: u32
  br_flags :: u32

record binding_parameter =
  bp_type :: u32
  bp_visibility :: u32
  bp_ranges :: "binding_range list"
  bp_descriptor :: rs_descriptor1
  bp_constants :: rs_constants
  bp_descriptor_flags :: u32

text \<open>The versioned description is a version and a union of the two forms.\<close>

record root_storage =
  st_version :: u32
  versioned_desc :: "u32 \<times> (rs_desc0 + rs_desc1)"
  desc_1_0 :: rs_desc0
  desc_1_1 :: rs_desc1
  parameters_1_0 :: "rs_parameter0 list"
  parameters_1_1 :: "rs_parameter1 list"
  ranges_1_0 :: "rs_range list list"
  ranges_1_1 :: "rs_range1 list list"
  static_samplers :: "static_sampler list"
  st_parameters :: "binding_parameter list"

definition no_constants :: rs_constants where
  "no_constants = \<lparr> cst_register = 0, cst_space = 0, cst_num_values = 0 \<rparr>"

definition no_descriptor :: rs_descriptor where
  "no_descriptor = \<lparr> dsc_register = 0, dsc_space = 0 \<rparr>"

definition no_descriptor1 :: rs_descriptor1 where
  "no_descriptor1 = \<lparr> dsc_register = 0, dsc_space = 0, dsc_flags = 0 \<rparr>"

text \<open>A parameter of a resized vector whose type and visibility have been set.\<close>

definition parameter0 :: "u32 \<Rightarrow> u32 \<Rightarrow> rs_parameter0" where
  "parameter0 t vis = \<lparr> ParameterType = t, ShaderVisibility = vis, NumDescriptorRanges = 0, pDescriptorRanges = None,
     Constants = no_constants, Descriptor = no_descriptor \<rparr>"

definition parameter1 :: "u32 \<Rightarrow> u32 \<Rightarrow> rs_parameter1" where
  "parameter1 t vis = \<lparr> ParameterType = t, ShaderVisibility = vis, NumDescriptorRanges = 0, pDescriptorRanges = None,
     Constants = no_constants, Descriptor = no_descriptor1 \<rparr>"

definition empty_desc :: "u32 \<Rightarrow> ('r, 'd) rs_desc" where
  "empty_desc flags = \<lparr> NumParameters = 0, pParameters = None, NumStaticSamplers = 0, pStaticSamplers = None, desc_flags = flags \<rparr>"

text \<open>\<open>x.empty() ? nullptr : x.data()\<close>, and \<open>resize\<close>.\<close>

definition data_of :: "'a list \<Rightarrow> 'a list option" where
  "data_of xs = (if xs = [] then None else Some xs)"

definition resize_vector :: "nat \<Rightarrow> 'a \<Rightarrow> 'a list \<Rightarrow> 'a list" where
  "resize_vector n x xs = take n xs @ replicate (n - length xs) x"

definition fix_table :: "('r, 'd) rs_parameter \<Rightarrow> 'r list \<Rightarrow> ('r, 'd) rs_parameter" where
  "fix_table p ranges =
     (if ParameterType p = TYPE_DESCRIPTOR_TABLE
      then p\<lparr> NumDescriptorRanges := of_nat (length ranges), pDescriptorRanges := data_of ranges \<rparr>
      else p)"

definition fixPointers :: "root_storage \<Rightarrow> root_storage" where
  "fixPointers s =
     (let r0 = resize_vector (length (parameters_1_0 s)) [] (ranges_1_0 s);
          r1 = resize_vector (length (parameters_1_1 s)) [] (ranges_1_1 s);
          p0 = map2 fix_table (parameters_1_0 s) r0;
          p1 = map2 fix_table (parameters_1_1 s) r1;
          d0 = (desc_1_0 s)\<lparr> NumParameters := of_nat (length p0), pParameters := data_of p0,
                 NumStaticSamplers := of_nat (length (static_samplers s)), pStaticSamplers := data_of (static_samplers s) \<rparr>;
          d1 = (desc_1_1 s)\<lparr> NumParameters := of_nat (length p1), pParameters := data_of p1,
                 NumStaticSamplers := of_nat (length (static_samplers s)), pStaticSamplers := data_of (static_samplers s) \<rparr>
      in s\<lparr> ranges_1_0 := r0, ranges_1_1 := r1, parameters_1_0 := p0, parameters_1_1 := p1, desc_1_0 := d0, desc_1_1 := d1,
            versioned_desc := (st_version s, if st_version s \<noteq> VERSION_1_0 then Inr d1 else Inl d0) \<rparr>)"

text \<open>What the binding code reads: the ranges, constants or descriptor of the form the version selects.\<close>

definition NormalizeDescriptorCount :: "u32 \<Rightarrow> u32" where
  "NormalizeDescriptorCount count = (if count = -1 then -1 else count)"

definition binding_of1 :: "rs_parameter1 \<Rightarrow> rs_range1 list \<Rightarrow> binding_parameter" where
  "binding_of1 src ranges =
     (let dst = \<lparr> bp_type = ParameterType src, bp_visibility = ShaderVisibility src, bp_ranges = [], bp_descriptor = no_descriptor1,
                  bp_constants = no_constants, bp_descriptor_flags = 0 \<rparr> in
      if ParameterType src = TYPE_DESCRIPTOR_TABLE
      then dst\<lparr> bp_ranges := map (\<lambda>r. \<lparr> br_type = rng_type r, br_base_register = rng_base_register r, br_space = rng_space r,
                    br_count = NormalizeDescriptorCount (rng_count r), br_offset = rng_offset r, br_flags = rng_flags r \<rparr>) ranges \<rparr>
      else if ParameterType src = TYPE_32BIT_CONSTANTS then dst\<lparr> bp_constants := Constants src \<rparr>
      else if is_root_descriptor (ParameterType src)
      then dst\<lparr> bp_descriptor := Descriptor src, bp_descriptor_flags := dsc_flags (Descriptor src) \<rparr>
      else dst)"

definition binding_of0 :: "rs_parameter0 \<Rightarrow> rs_range list \<Rightarrow> binding_parameter" where
  "binding_of0 src ranges =
     (let dst = \<lparr> bp_type = ParameterType src, bp_visibility = ShaderVisibility src, bp_ranges = [], bp_descriptor = no_descriptor1,
                  bp_constants = no_constants, bp_descriptor_flags = 0 \<rparr> in
      if ParameterType src = TYPE_DESCRIPTOR_TABLE
      then dst\<lparr> bp_ranges := map (\<lambda>r. \<lparr> br_type = rng_type r, br_base_register = rng_base_register r, br_space = rng_space r,
                    br_count = NormalizeDescriptorCount (rng_count r), br_offset = rng_offset r, br_flags = 0 \<rparr>) ranges \<rparr>
      else if ParameterType src = TYPE_32BIT_CONSTANTS then dst\<lparr> bp_constants := Constants src \<rparr>
      else if is_root_descriptor (ParameterType src)
      then dst\<lparr> bp_descriptor := \<lparr> dsc_register = dsc_register (Descriptor src), dsc_space = dsc_space (Descriptor src),
                                   dsc_flags = 0 \<rparr> \<rparr>
      else dst)"

definition BuildBindingParameters :: "root_storage \<Rightarrow> root_storage" where
  "BuildBindingParameters s =
     s\<lparr> st_parameters :=
         (if st_version s \<noteq> VERSION_1_0 then map2 binding_of1 (parameters_1_1 s) (ranges_1_1 s)
          else map2 binding_of0 (parameters_1_0 s) (ranges_1_0 s)) \<rparr>"

subsection \<open>Storage from a description\<close>

text \<open>What the loop over the parameters leaves at one index: both forms and both lists of ranges.\<close>

type_synonym stored_parameter = "rs_parameter0 \<times> rs_parameter1 \<times> rs_range list \<times> rs_range1 list"

definition range_up :: "rs_range \<Rightarrow> rs_range1" where
  "range_up r = \<lparr> rng_type = rng_type r, rng_count = rng_count r, rng_base_register = rng_base_register r,
                  rng_space = rng_space r, rng_offset = rng_offset r, rng_flags = 0 \<rparr>"

definition range_down :: "rs_range1 \<Rightarrow> rs_range" where
  "range_down r = \<lparr> rng_type = rng_type r, rng_count = rng_count r, rng_base_register = rng_base_register r,
                    rng_space = rng_space r, rng_offset = rng_offset r \<rparr>"

definition clone_parameter0 :: "rs_parameter0 \<Rightarrow> stored_parameter" where
  "clone_parameter0 src =
     (let t = ParameterType src; dst0 = parameter0 t (ShaderVisibility src); dst1 = parameter1 t (ShaderVisibility src) in
      if t = TYPE_DESCRIPTOR_TABLE
      then (let ranges = (if NumDescriptorRanges src \<noteq> 0 then array_of (pDescriptorRanges src) (NumDescriptorRanges src) else [])
            in (dst0, dst1, ranges, map range_up ranges))
      else if t = TYPE_32BIT_CONSTANTS
      then (dst0\<lparr> Constants := Constants src \<rparr>, dst1\<lparr> Constants := Constants src \<rparr>, [], [])
      else if is_root_descriptor t
      then (dst0\<lparr> Descriptor := Descriptor src \<rparr>,
            dst1\<lparr> Descriptor := \<lparr> dsc_register = dsc_register (Descriptor src), dsc_space = dsc_space (Descriptor src),
                                  dsc_flags = 0 \<rparr> \<rparr>, [], [])
      else (dst0, dst1, [], []))"

definition clone_parameter1 :: "rs_parameter1 \<Rightarrow> stored_parameter" where
  "clone_parameter1 src =
     (let t = ParameterType src; dst0 = parameter0 t (ShaderVisibility src); dst1 = parameter1 t (ShaderVisibility src) in
      if t = TYPE_DESCRIPTOR_TABLE
      then (let ranges = (if NumDescriptorRanges src \<noteq> 0 then array_of (pDescriptorRanges src) (NumDescriptorRanges src) else [])
            in (dst0, dst1, map range_down ranges, ranges))
      else if t = TYPE_32BIT_CONSTANTS
      then (dst0\<lparr> Constants := Constants src \<rparr>, dst1\<lparr> Constants := Constants src \<rparr>, [], [])
      else if is_root_descriptor t
      then (dst0\<lparr> Descriptor := \<lparr> dsc_register = dsc_register (Descriptor src), dsc_space = dsc_space (Descriptor src) \<rparr> \<rparr>,
            dst1\<lparr> Descriptor := Descriptor src \<rparr>, [], [])
      else (dst0, dst1, [], []))"

text \<open>The vectors filled from the loop, before \<open>fixPointers\<close>.\<close>

definition raw_storage :: "u32 \<Rightarrow> u32 \<Rightarrow> stored_parameter list \<Rightarrow> static_sampler list \<Rightarrow> root_storage" where
  "raw_storage version flags stored samplers =
     \<lparr> st_version = version, versioned_desc = (VERSION_1_0, Inl (empty_desc 0)), desc_1_0 = empty_desc flags,
       desc_1_1 = empty_desc flags, parameters_1_0 = map fst stored, parameters_1_1 = map (fst \<circ> snd) stored,
       ranges_1_0 = map (fst \<circ> snd \<circ> snd) stored, ranges_1_1 = map (snd \<circ> snd \<circ> snd) stored,
       static_samplers = samplers, st_parameters = [] \<rparr>"

definition finish_storage :: "root_storage \<Rightarrow> root_storage" where
  "finish_storage s = BuildBindingParameters (fixPointers s)"

definition cloned_samplers :: "('r, 'd) rs_desc \<Rightarrow> static_sampler list" where
  "cloned_samplers desc = (if NumStaticSamplers desc \<noteq> 0 then array_of (pStaticSamplers desc) (NumStaticSamplers desc) else [])"

definition CloneFromDesc0 :: "rs_desc0 \<Rightarrow> root_storage" where
  "CloneFromDesc0 desc =
     finish_storage (raw_storage VERSION_1_0 (desc_flags desc)
       (map clone_parameter0 (array_of (pParameters desc) (NumParameters desc))) (cloned_samplers desc))"

definition CloneFromDesc1 :: "rs_desc1 \<Rightarrow> u32 \<Rightarrow> root_storage" where
  "CloneFromDesc1 desc version =
     finish_storage (raw_storage version (desc_flags desc)
       (map clone_parameter1 (array_of (pParameters desc) (NumParameters desc))) (cloned_samplers desc))"

text \<open>A versioned description: the version, and the member of the union it selects.\<close>

datatype versioned = Desc_1_0 rs_desc0 | Desc_1_1 u32 rs_desc1

text \<open>\<open>Desc_1_1 v d\<close> is a description whose version is not 1.0: 1.1 and 1.2 read the 1.1 member, every other value is refused.\<close>

definition CloneFromVersionedDesc :: "versioned \<Rightarrow> root_storage option" where
  "CloneFromVersionedDesc desc =
     (case desc of
        Desc_1_0 d \<Rightarrow> if \<not> ValidateDesc0 d then None else Some (CloneFromDesc0 d)
      | Desc_1_1 v d \<Rightarrow>
          if v = VERSION_1_1 then (if \<not> ValidateDesc1 d then None else Some (CloneFromDesc1 d VERSION_1_1))
          else if v = VERSION_1_2 then (if \<not> ValidateDesc1 d then None else Some (CloneFromDesc1 d VERSION_1_2))
          else None)"

definition desc_version :: "versioned \<Rightarrow> u32" where
  "desc_version desc = (case desc of Desc_1_0 _ \<Rightarrow> VERSION_1_0 | Desc_1_1 v _ \<Rightarrow> v)"

subsection \<open>Writing the blob\<close>

definition kRts0HeaderSize :: nat where "kRts0HeaderSize = 24"
definition kRts0ParameterHeaderSize :: nat where "kRts0ParameterHeaderSize = 12"
definition kRts0DescriptorTableHeaderSize :: nat where "kRts0DescriptorTableHeaderSize = 8"
definition kRts0DescriptorRange0Size :: nat where "kRts0DescriptorRange0Size = 20"
definition kRts0DescriptorRange1Size :: nat where "kRts0DescriptorRange1Size = 24"
definition kRts0RootConstantsSize :: nat where "kRts0RootConstantsSize = 12"
definition kRts0RootDescriptor0Size :: nat where "kRts0RootDescriptor0Size = 8"
definition kRts0RootDescriptor1Size :: nat where "kRts0RootDescriptor1Size = 12"
definition kRts0StaticSamplerSize :: nat where "kRts0StaticSamplerSize = 52"

lemmas rts0_sizes = kRts0HeaderSize_def kRts0ParameterHeaderSize_def kRts0DescriptorTableHeaderSize_def
  kRts0DescriptorRange0Size_def kRts0DescriptorRange1Size_def kRts0RootConstantsSize_def
  kRts0RootDescriptor0Size_def kRts0RootDescriptor1Size_def kRts0StaticSamplerSize_def

definition VersionValue :: "u32 \<Rightarrow> u32" where
  "VersionValue version = (if version = VERSION_1_2 then 3 else if version = VERSION_1_1 then 2 else 1)"

definition VersionFromValue :: "u32 \<Rightarrow> u32" where
  "VersionFromValue v = (if v = 3 then VERSION_1_2 else if v = 2 then VERSION_1_1 else VERSION_1_0)"

text \<open>The type and visibility of every parameter of the form the version selects.\<close>

definition serialized_heads :: "root_storage \<Rightarrow> u32 \<Rightarrow> (u32 \<times> u32) list" where
  "serialized_heads s version =
     (if version = VERSION_1_0 then map (\<lambda>p. (ParameterType p, ShaderVisibility p)) (parameters_1_0 s)
      else map (\<lambda>p. (ParameterType p, ShaderVisibility p)) (parameters_1_1 s))"

text \<open>The header, and the offset at which the offset of the samplers is patched in.\<close>

definition write_header :: "root_storage \<Rightarrow> u32 \<Rightarrow> u8 list \<times> nat" where
  "write_header s version =
     (let n = length (serialized_heads s version);
          data = WriteU32 [] (VersionValue version);
          data = WriteU32 data (of_nat n);
          data = WriteU32 data (if n \<noteq> 0 then of_nat kRts0HeaderSize else 0);
          data = WriteU32 data (of_nat (length (static_samplers s)));
          sampler_offset_patch = length data;
          data = WriteU32 data 0;
          data = WriteU32 data (desc_flags (desc_1_1 s))
      in (data, sampler_offset_patch))"

text \<open>The headers of the parameters, and the offsets at which their data offsets are patched in.\<close>

fun write_parameter_headers :: "(u32 \<times> u32) list \<Rightarrow> u8 list \<Rightarrow> nat list \<Rightarrow> u8 list \<times> nat list" where
  "write_parameter_headers [] data patches = (data, patches)"
| "write_parameter_headers ((t, vis) # heads) data patches =
     (let data = WriteU32 (WriteU32 data t) vis in
      write_parameter_headers heads (WriteU32 data 0) (patches @ [length data]))"

definition write_range0 :: "u8 list \<Rightarrow> rs_range \<Rightarrow> u8 list" where
  "write_range0 data r =
     foldl WriteU32 data [rng_type r, rng_count r, rng_base_register r, rng_space r, rng_offset r]"

definition write_range1 :: "u8 list \<Rightarrow> rs_range1 \<Rightarrow> u8 list" where
  "write_range1 data r =
     foldl WriteU32 data [rng_type r, rng_count r, rng_base_register r, rng_space r, rng_flags r, rng_offset r]"

text \<open>The body of the loop that writes the data of the parameters.\<close>

definition write_parameter_data :: "root_storage \<Rightarrow> u32 \<Rightarrow> u8 list \<Rightarrow> nat \<Rightarrow> u8 list" where
  "write_parameter_data s version data i =
     (let t = fst (serialized_heads s version ! i) in
      if t = TYPE_DESCRIPTOR_TABLE
      then (let ranges0 = ranges_1_0 s ! i; ranges1 = ranges_1_1 s ! i;
                data = WriteU32 data (of_nat (if version = VERSION_1_0 then length ranges0 else length ranges1));
                data = WriteU32 data (of_nat (length data + 4))
            in if version \<noteq> VERSION_1_0 then foldl write_range1 data ranges1 else foldl write_range0 data ranges0)
      else if t = TYPE_32BIT_CONSTANTS
      then (let c = Constants (parameters_1_0 s ! i) in
            WriteU32 (WriteU32 (WriteU32 data (cst_register c)) (cst_space c)) (cst_num_values c))
      else if is_root_descriptor t
      then (if version \<noteq> VERSION_1_0
            then (let d = Descriptor (parameters_1_1 s ! i) in
                  WriteU32 (WriteU32 (WriteU32 data (dsc_register d)) (dsc_space d)) (dsc_flags d))
            else (let d = Descriptor (parameters_1_0 s ! i) in
                  WriteU32 (WriteU32 data (dsc_register d)) (dsc_space d)))
      else data)"

definition write_sampler :: "u8 list \<Rightarrow> static_sampler \<Rightarrow> u8 list" where
  "write_sampler data s =
     foldl WriteU32 data [smp_filter s, smp_address_u s, smp_address_v s, smp_address_w s, smp_mip_lod_bias s,
       smp_max_anisotropy s, smp_comparison s, smp_border_color s, smp_min_lod s, smp_max_lod s, smp_register s,
       smp_space s, smp_visibility s]"

definition SerializeRts0 :: "root_storage \<Rightarrow> u32 \<Rightarrow> u8 list" where
  "SerializeRts0 s version =
     (let heads = serialized_heads s version;
          (data, sampler_offset_patch) = write_header s version;
          (data, patches) = write_parameter_headers heads data [];
          data = foldl (\<lambda>data i. write_parameter_data s version (PatchU32 data (patches ! i) (of_nat (length data))) i)
                   data [0..<length heads]
      in if static_samplers s \<noteq> []
         then foldl write_sampler (PatchU32 data sampler_offset_patch (of_nat (length data))) (static_samplers s)
         else data)"

definition fourcc_Rts0 :: u32 where "fourcc_Rts0 = MakeFourCC 0x52 0x54 0x53 0x30" \<comment> \<open>RTS0\<close>

definition BuildDxbcContainer :: "u8 list \<Rightarrow> u8 list" where
  "BuildDxbcContainer rts0 =
     (let part_offset = 32 + 4 :: u32;
          container_size = part_offset + of_nat (8 + length rts0);
          data = WriteU32 [] fourcc_Container;
          data = foldl WriteU32 data [0, 0, 0, 0];
          data = WriteU16 data 1;
          data = WriteU16 data 0;
          data = WriteU32 data container_size;
          data = WriteU32 data 1;
          data = WriteU32 data part_offset;
          data = WriteU32 data fourcc_Rts0;
          data = WriteU32 data (of_nat (length rts0))
      in data @ rts0)"

definition SerializeRootSignature :: "root_storage \<Rightarrow> u32 \<Rightarrow> u8 list" where
  "SerializeRootSignature s version = BuildDxbcContainer (SerializeRts0 s version)"

subsection \<open>Reading the blob\<close>

text \<open>The parsers answer false (a rejection) or fill in the storage.\<close>

type_synonym 'a rs_parse = "(unit, 'a) parse"

definition ExtractRts0Part :: "u8 list \<Rightarrow> u8 list rs_parse" where
  "ExtractRts0Part blob =
     require (\<not> length blob < 4) ()
      (bindP (read_u32 blob 0) (\<lambda>magic.
        if magic \<noteq> fourcc_Container then Inr blob
        else (case ParseContainer (Some blob) (length blob) of
                Inr container \<Rightarrow>
                  (case findPart fourcc_Rts0 0 container of None \<Rightarrow> Inl (Rejected ()) | Some part \<Rightarrow> Inr (bp_data part))
              | Inl (Rejected _) \<Rightarrow> Inl (Rejected ())
              | Inl Out_of_bounds \<Rightarrow> Inl Out_of_bounds
              | Inl Length_error \<Rightarrow> Inl Length_error)))"

definition read_range :: "u8 list \<Rightarrow> u32 \<Rightarrow> nat \<Rightarrow> (rs_range \<times> rs_range1) rs_parse" where
  "read_range rts0 version_value range_offset =
     bindP (read_u32 rts0 (range_offset + 0)) (\<lambda>t.
     bindP (read_u32 rts0 (range_offset + 4)) (\<lambda>count.
     bindP (read_u32 rts0 (range_offset + 8)) (\<lambda>shader_register.
     bindP (read_u32 rts0 (range_offset + 12)) (\<lambda>register_space.
     bindP (if version_value = 2 then read_u32 rts0 (range_offset + 16) else Inr 0) (\<lambda>range_flags.
     bindP (read_u32 rts0 (range_offset + (if version_value = 2 then 20 else 16))) (\<lambda>range_desc_offset.
       Inr (\<lparr> rng_type = t, rng_count = count, rng_base_register = shader_register, rng_space = register_space,
              rng_offset = range_desc_offset \<rparr>,
            \<lparr> rng_type = t, rng_count = count, rng_base_register = shader_register, rng_space = register_space,
              rng_offset = range_desc_offset, rng_flags = range_flags \<rparr>)))))))"

definition range_size :: "u32 \<Rightarrow> nat" where
  "range_size version_value = (if version_value = 2 then kRts0DescriptorRange1Size else kRts0DescriptorRange0Size)"

definition root_descriptor_size :: "u32 \<Rightarrow> nat" where
  "root_descriptor_size version_value = (if version_value = 2 then kRts0RootDescriptor1Size else kRts0RootDescriptor0Size)"

text \<open>The body of the loop over the parameters; \<open>data_offset + 4\<close> is a 32-bit sum.\<close>

definition read_parameter :: "u8 list \<Rightarrow> u32 \<Rightarrow> nat \<Rightarrow> stored_parameter rs_parse" where
  "read_parameter rts0 version_value header_offset =
     bindP (read_u32 rts0 (header_offset + 0)) (\<lambda>t.
     bindP (read_u32 rts0 (header_offset + 4)) (\<lambda>vis.
     bindP (read_u32 rts0 (header_offset + 8)) (\<lambda>data_offset.
       if t = TYPE_DESCRIPTOR_TABLE
       then (case checked_end (unat data_offset) kRts0DescriptorTableHeaderSize (length rts0) of
               None \<Rightarrow> Inl (Rejected ())
             | Some _ \<Rightarrow>
                 bindP (read_u32 rts0 (unat (data_offset + 0))) (\<lambda>range_count.
                 bindP (read_u32 rts0 (unat (data_offset + 4))) (\<lambda>ranges_offset.
                   (case checked_end (unat ranges_offset) (unat range_count * range_size version_value) (length rts0) of
                      None \<Rightarrow> Inl (Rejected ())
                    | Some _ \<Rightarrow>
                        bindP (parse_each (\<lambda>j. read_range rts0 version_value (unat ranges_offset + j * range_size version_value))
                                 [0..<unat range_count]) (\<lambda>ranges.
                          Inr (parameter0 t vis, parameter1 t vis, map fst ranges, map snd ranges))))))
       else if t = TYPE_32BIT_CONSTANTS
       then (case checked_end (unat data_offset) kRts0RootConstantsSize (length rts0) of
               None \<Rightarrow> Inl (Rejected ())
             | Some _ \<Rightarrow>
                 bindP (read_u32 rts0 (unat (data_offset + 0))) (\<lambda>shader_register.
                 bindP (read_u32 rts0 (unat (data_offset + 4))) (\<lambda>register_space.
                 bindP (read_u32 rts0 (unat (data_offset + 8))) (\<lambda>num_values.
                   (let c = \<lparr> cst_register = shader_register, cst_space = register_space, cst_num_values = num_values \<rparr>
                    in Inr ((parameter0 t vis)\<lparr> Constants := c \<rparr>, (parameter1 t vis)\<lparr> Constants := c \<rparr>, [], []))))))
       else if is_root_descriptor t
       then (case checked_end (unat data_offset) (root_descriptor_size version_value) (length rts0) of
               None \<Rightarrow> Inl (Rejected ())
             | Some _ \<Rightarrow>
                 bindP (read_u32 rts0 (unat (data_offset + 0))) (\<lambda>shader_register.
                 bindP (read_u32 rts0 (unat (data_offset + 4))) (\<lambda>register_space.
                 bindP (if version_value = 2 then read_u32 rts0 (unat (data_offset + 8)) else Inr 0) (\<lambda>descriptor_flags.
                   Inr ((parameter0 t vis)\<lparr> Descriptor := \<lparr> dsc_register = shader_register, dsc_space = register_space \<rparr> \<rparr>,
                        (parameter1 t vis)\<lparr> Descriptor := \<lparr> dsc_register = shader_register, dsc_space = register_space,
                                                            dsc_flags = descriptor_flags \<rparr> \<rparr>, [], [])))))
       else Inl (Rejected ()))))"

definition read_sampler :: "u8 list \<Rightarrow> nat \<Rightarrow> static_sampler rs_parse" where
  "read_sampler rts0 offset =
     bindP (parse_each (\<lambda>k. read_u32 rts0 (offset + 4 * k)) [0..<13]) (\<lambda>w.
       Inr \<lparr> smp_filter = w ! 0, smp_address_u = w ! 1, smp_address_v = w ! 2, smp_address_w = w ! 3,
             smp_mip_lod_bias = w ! 4, smp_max_anisotropy = w ! 5, smp_comparison = w ! 6, smp_border_color = w ! 7,
             smp_min_lod = w ! 8, smp_max_lod = w ! 9, smp_register = w ! 10, smp_space = w ! 11, smp_visibility = w ! 12 \<rparr>)"

definition ParseRts0 :: "u8 list \<Rightarrow> root_storage rs_parse" where
  "ParseRts0 rts0 =
     require (\<not> length rts0 < kRts0HeaderSize) ()
      (bindP (read_u32 rts0 0) (\<lambda>version_value.
        require (version_value = 1 \<or> version_value = 2 \<or> version_value = 3) ()
         (bindP (read_u32 rts0 4) (\<lambda>parameter_count.
          bindP (read_u32 rts0 8) (\<lambda>parameter_offset.
          bindP (read_u32 rts0 12) (\<lambda>sampler_count.
          bindP (read_u32 rts0 16) (\<lambda>sampler_offset.
          bindP (read_u32 rts0 20) (\<lambda>flags.
            require (parameter_count \<noteq> 0 \<longrightarrow>
                checked_end (unat parameter_offset) (unat parameter_count * kRts0ParameterHeaderSize) (length rts0) \<noteq> None) ()
             (require (sampler_count \<noteq> 0 \<longrightarrow>
                checked_end (unat sampler_offset) (unat sampler_count * kRts0StaticSamplerSize) (length rts0) \<noteq> None) ()
              (bindP (parse_each (\<lambda>i. read_parameter rts0 version_value (unat parameter_offset + i * kRts0ParameterHeaderSize))
                        [0..<unat parameter_count]) (\<lambda>stored.
               bindP (parse_each (\<lambda>i. read_sampler rts0 (unat sampler_offset + i * kRts0StaticSamplerSize))
                        [0..<unat sampler_count]) (\<lambda>samplers.
                 Inr (finish_storage (raw_storage (VersionFromValue version_value) flags stored samplers))))))))))))))"

definition ParseRootSignatureBlob :: "u8 list \<Rightarrow> root_storage rs_parse" where
  "ParseRootSignatureBlob blob = bindP (ExtractRts0Part blob) ParseRts0"

subsection \<open>The entry points\<close>

datatype rs_hresult = S_OK | E_POINTER | E_INVALIDARG

text \<open>\<open>SerializeVersionedRootSignatureImpl\<close>: the result, the blob and the text of the error blob.\<close>

definition SerializeVersionedRootSignature ::
    "bool \<Rightarrow> versioned option \<Rightarrow> rs_hresult \<times> u8 list option \<times> string option" where
  "SerializeVersionedRootSignature has_blob desc =
     (if \<not> has_blob then (E_POINTER, None, None)
      else case desc of
        None \<Rightarrow> (E_INVALIDARG, None, Some ''Root signature desc is null'')
      | Some d \<Rightarrow>
          (case CloneFromVersionedDesc d of
             None \<Rightarrow> (E_INVALIDARG, None, Some ''Invalid root signature desc'')
           | Some storage \<Rightarrow> (S_OK, Some (SerializeRootSignature storage (desc_version d)), None)))"

definition D3D12SerializeRootSignature ::
    "bool \<Rightarrow> rs_desc0 option \<Rightarrow> u32 \<Rightarrow> rs_hresult \<times> u8 list option \<times> string option" where
  "D3D12SerializeRootSignature has_blob desc version =
     (if \<not> has_blob then (E_POINTER, None, None)
      else if version \<noteq> VERSION_1_0 then (E_INVALIDARG, None, Some ''Unsupported root signature version'')
      else case desc of
        None \<Rightarrow> (E_INVALIDARG, None, Some ''Root signature desc is null'')
      | Some d \<Rightarrow> SerializeVersionedRootSignature True (Some (Desc_1_0 d)))"

text \<open>A root signature object: the storage, and the blob it was made from.\<close>

definition CreateRootSignatureFromBlob :: "bool \<Rightarrow> u8 list \<Rightarrow> (root_storage \<times> u8 list) rs_parse" where
  "CreateRootSignatureFromBlob has_device blob =
     require has_device () (bindP (ParseRootSignatureBlob blob) (\<lambda>storage. Inr (storage, blob)))"

definition GetRootSignatureDescAtVersion ::
    "root_storage \<Rightarrow> bool \<Rightarrow> u32 \<Rightarrow> rs_hresult \<times> (u32 \<times> (rs_desc0 + rs_desc1)) option" where
  "GetRootSignatureDescAtVersion storage has_desc version =
     (if \<not> has_desc then (E_POINTER, None)
      else if version = VERSION_1_0 then (S_OK, Some (VERSION_1_0, Inl (desc_1_0 storage)))
      else if version = VERSION_1_1 then (S_OK, Some (VERSION_1_1, Inr (desc_1_1 storage)))
      else (E_INVALIDARG, None))"

end
