(* ===== verification/RootBlob.thy ===== *)
theory RootBlob
  imports RootSignature
begin

text \<open>
  The root signature blob: the parser never reads past its input, and what the serializer writes is
  read back as it was. A blob is a list of 32-bit words: the serializer's writes and patches are
  appends and updates of that list, and the parser's reads at multiples of four are its elements.
\<close>

subsection \<open>The parser stays inside the blob\<close>

lemma unat_offset_le: "unat (a + b :: u32) \<le> unat a + unat b"
  by (simp add: unat_word_ariths)

lemma in_bounds_at_offset:
  "unat a + unat b + 4 \<le> length d \<Longrightarrow> in_bounds (read_u32 d (unat (a + b :: u32)))"
  using unat_offset_le [of a b] by (auto intro!: in_bounds_intro)

lemma read_range_in_bounds:
  assumes "range_offset + range_size v \<le> length d"
  shows "in_bounds (read_range d v range_offset)"
  unfolding read_range_def
  by (intro in_bounds_intro) (use assms in \<open>auto simp: range_size_def rts0_sizes split: if_splits\<close>)

lemma read_ranges_in_bounds:
  assumes "unat offset + n * range_size v \<le> length d"
  shows "in_bounds (parse_each (\<lambda>j. read_range d v (unat offset + j * range_size v)) [0..<n])"
proof (rule in_bounds_each)
  fix j assume "j \<in> set [0..<n]"
  then have "j * range_size v + range_size v \<le> n * range_size v"
    by (metis add.commute atLeastLessThan_iff mult_Suc set_upt Suc_leI mult_le_mono1)
  then show "in_bounds (read_range d v (unat offset + j * range_size v))"
    using assms by (intro read_range_in_bounds) linarith
qed

lemma root_descriptor_size_ge: "8 \<le> root_descriptor_size v"
  by (simp add: root_descriptor_size_def rts0_sizes)

lemma root_descriptor_size_2: "root_descriptor_size 2 = 12"
  by (simp add: root_descriptor_size_def rts0_sizes)

lemma read_parameter_in_bounds:
  assumes "header_offset + 12 \<le> length d"
  shows "in_bounds (read_parameter d v header_offset)"
  using assms unfolding read_parameter_def Let_def
  by (intro read_ranges_in_bounds in_bounds_at_offset in_bounds_intro)
     (use root_descriptor_size_ge [of v] in \<open>simp_all add: rts0_sizes root_descriptor_size_2\<close>)

lemma read_sampler_in_bounds:
  assumes "offset + 52 \<le> length d"
  shows "in_bounds (read_sampler d offset)"
  unfolding read_sampler_def
  by (intro in_bounds_intro) (use assms in auto)

lemma ParseRts0_in_bounds [in_bounds_intro]: "in_bounds (ParseRts0 rts0)"
  unfolding ParseRts0_def
  by (intro in_bounds_intro read_parameter_in_bounds read_sampler_in_bounds)
     (auto simp: rts0_sizes checked_end_Some split: if_splits)

lemma ExtractRts0Part_in_bounds [in_bounds_intro]: "in_bounds (ExtractRts0Part blob)"
proof -
  have "ParseContainer (Some blob) (length blob) \<noteq> Inl Out_of_bounds"
    using ParseContainer_in_bounds [of "Some blob" "length blob"] by (simp add: in_bounds_def)
  then show ?thesis
    unfolding ExtractRts0Part_def
    by (intro in_bounds_intro) (auto split: sum.split failure.split option.split)
qed

subsection \<open>Blobs as lists of words\<close>

definition words_bytes :: "u32 list \<Rightarrow> u8 list" where
  "words_bytes ws = concat (map u32_bytes ws)"

lemma words_bytes_simps [simp]:
  "words_bytes [] = []" "words_bytes (w # ws) = u32_bytes w @ words_bytes ws"
  "words_bytes (us @ vs) = words_bytes us @ words_bytes vs" "length (words_bytes ws) = 4 * length ws"
proof -
  show "length (words_bytes ws) = 4 * length ws"
    by (induction ws) (simp_all add: words_bytes_def)
qed (simp_all add: words_bytes_def)

lemma words_bytes_update:
  assumes "k < length ws"
  shows "PatchU32 (words_bytes ws) (4 * k) v = words_bytes (ws[k := v])"
proof -
  have ws: "ws = take k ws @ ws ! k # drop (Suc k) ws"
    using assms by (rule id_take_nth_drop)
  have "PatchU32 (xs @ u32_bytes w @ ys) (length xs) v = xs @ u32_bytes v @ ys" for xs ys w
    by (simp add: PatchU32_def u32_bytes_def list_update_append)
  from this [of "words_bytes (take k ws)"] have
    "PatchU32 (words_bytes (take k ws @ ws ! k # drop (Suc k) ws)) (4 * k) v
       = words_bytes (take k ws @ v # drop (Suc k) ws)"
    using assms by (simp add: min_def)
  then show ?thesis
    using ws assms by (simp add: upd_conv_take_nth_drop)
qed

lemma WriteU32_words: "WriteU32 (words_bytes ws) v = words_bytes (ws @ [v])"
  by (simp add: WriteU32_def)

lemma foldl_WriteU32_words: "foldl WriteU32 (words_bytes ws) vs = words_bytes (ws @ vs)"
  by (induction vs arbitrary: ws) (simp_all add: WriteU32_words del: words_bytes_simps(3))

lemma read_word:
  assumes "k < length ws" "offset = 4 * k"
  shows "read_u32 (words_bytes ws) offset = Inr (ws ! k)"
proof -
  have "ws = take k ws @ ws ! k # drop (Suc k) ws"
    using assms(1) by (rule id_take_nth_drop)
  then have "words_bytes ws = words_bytes (take k ws) @ u32_bytes (ws ! k) @ words_bytes (drop (Suc k) ws)"
    by (metis words_bytes_simps(2,3))
  then show ?thesis
    using read_u32_bytes [of "words_bytes (take k ws)" "ws ! k" "words_bytes (drop (Suc k) ws)"] assms
    by (simp add: min_def)
qed

text \<open>A list of words lies at an index of another.\<close>

definition words_at :: "u32 list \<Rightarrow> nat \<Rightarrow> u32 list \<Rightarrow> bool" where
  "words_at ws k vs \<longleftrightarrow> k + length vs \<le> length ws \<and> take (length vs) (drop k ws) = vs"

lemma words_at_intro: "words_at (us @ vs @ xs) (length us) vs"
  by (simp add: words_at_def)

lemma words_at_nth: "words_at ws k vs \<Longrightarrow> i < length vs \<Longrightarrow> ws ! (k + i) = vs ! i"
  unfolding words_at_def by (metis add_leD1 nth_drop nth_take)

lemma words_at_append:
  "words_at ws k (us @ vs) \<longleftrightarrow> words_at ws k us \<and> words_at ws (k + length us) vs"
  by (auto simp: words_at_def take_add add.commute drop_drop dest: arg_cong [where f = "take (length us)"]
      arg_cong [where f = "drop (length us)"])

lemma read_words_at:
  assumes "words_at ws k vs" "i < length vs" "offset = 4 * k + 4 * i"
  shows "read_u32 (words_bytes ws) offset = Inr (vs ! i)"
  using read_word [of "k + i" ws offset] words_at_nth [OF assms(1,2)] assms
  by (simp add: words_at_def)

lemma words_at_concat:
  assumes "words_at ws k (concat (map f xs))" "\<And>x. length (f x) = m" "j < length xs"
  shows "words_at ws (k + j * m) (f (xs ! j))"
proof -
  have "length (concat (map f (take j xs))) = j * m"
    using assms(2,3) by (induction j) (auto simp: take_Suc_conv_app_nth)
  moreover have "concat (map f xs) = concat (map f (take j xs)) @ f (xs ! j) @ concat (map f (drop (Suc j) xs))"
    using id_take_nth_drop [OF assms(3)] by (metis concat.simps(2) concat_append list.simps(9) map_append)
  ultimately show ?thesis
    using assms(1) by (simp add: words_at_append)
qed

lemma words_at_keeps:
  assumes "words_at ws k vs" "i < k"
  shows "words_at (ws[i := x] @ ys) k vs"
  using assms by (auto simp: words_at_def)

subsection \<open>What the serializer writes\<close>

text \<open>The words of a range, of a sampler, and of the data of a parameter placed at index \<open>k\<close>.\<close>

definition range0_words :: "rs_range \<Rightarrow> u32 list" where
  "range0_words r = [rng_type r, rng_count r, rng_base_register r, rng_space r, rng_offset r]"

definition range1_words :: "rs_range1 \<Rightarrow> u32 list" where
  "range1_words r = [rng_type r, rng_count r, rng_base_register r, rng_space r, rng_flags r, rng_offset r]"

definition sampler_words :: "static_sampler \<Rightarrow> u32 list" where
  "sampler_words s = [smp_filter s, smp_address_u s, smp_address_v s, smp_address_w s, smp_mip_lod_bias s,
     smp_max_anisotropy s, smp_comparison s, smp_border_color s, smp_min_lod s, smp_max_lod s, smp_register s,
     smp_space s, smp_visibility s]"

text \<open>The form in which a parameter is stored, by description and by parser alike.\<close>

inductive stored_form :: "u32 \<Rightarrow> stored_parameter \<Rightarrow> bool" for v where
  table0: "v = VERSION_1_0 \<Longrightarrow> stored_form v
     (parameter0 TYPE_DESCRIPTOR_TABLE vis, parameter1 TYPE_DESCRIPTOR_TABLE vis, r, map range_up r)"
| table1: "v \<noteq> VERSION_1_0 \<Longrightarrow> stored_form v
     (parameter0 TYPE_DESCRIPTOR_TABLE vis, parameter1 TYPE_DESCRIPTOR_TABLE vis, map range_down r, r)"
| constants: "stored_form v ((parameter0 TYPE_32BIT_CONSTANTS vis)\<lparr> Constants := c \<rparr>,
     (parameter1 TYPE_32BIT_CONSTANTS vis)\<lparr> Constants := c \<rparr>, [], [])"
| descriptor0: "v = VERSION_1_0 \<Longrightarrow> is_root_descriptor t \<Longrightarrow> stored_form v ((parameter0 t vis)\<lparr> Descriptor := d \<rparr>,
     (parameter1 t vis)\<lparr> Descriptor := \<lparr> dsc_register = dsc_register d, dsc_space = dsc_space d, dsc_flags = 0 \<rparr> \<rparr>, [], [])"
| descriptor1: "v \<noteq> VERSION_1_0 \<Longrightarrow> is_root_descriptor t \<Longrightarrow> stored_form v
     ((parameter0 t vis)\<lparr> Descriptor := \<lparr> dsc_register = dsc_register d, dsc_space = dsc_space d \<rparr> \<rparr>,
      (parameter1 t vis)\<lparr> Descriptor := d \<rparr>, [], [])"

definition parameter_words :: "u32 \<Rightarrow> nat \<Rightarrow> stored_parameter \<Rightarrow> u32 list" where
  "parameter_words v k p =
     (case p of (p0, p1, r0, r1) \<Rightarrow>
        let t = ParameterType p0 in
        if t = TYPE_DESCRIPTOR_TABLE
        then (if v = VERSION_1_0 then [of_nat (length r0), of_nat (4 * k + 8)] @ concat (map range0_words r0)
              else [of_nat (length r1), of_nat (4 * k + 8)] @ concat (map range1_words r1))
        else if t = TYPE_32BIT_CONSTANTS
        then [cst_register (Constants p0), cst_space (Constants p0), cst_num_values (Constants p0)]
        else if v = VERSION_1_0 then [dsc_register (Descriptor p0), dsc_space (Descriptor p0)]
        else [dsc_register (Descriptor p1), dsc_space (Descriptor p1), dsc_flags (Descriptor p1)])"

lemma parameter_simps [simp]:
  "ParameterType (parameter0 t vis) = t" "ShaderVisibility (parameter0 t vis) = vis"
  "ParameterType (parameter1 t vis) = t" "ShaderVisibility (parameter1 t vis) = vis"
  "Constants (parameter0 t vis) = no_constants" "Descriptor (parameter0 t vis) = no_descriptor"
  by (simp_all add: parameter0_def parameter1_def)

lemma type_distinct [simp]:
  "TYPE_32BIT_CONSTANTS \<noteq> TYPE_DESCRIPTOR_TABLE" "\<not> is_root_descriptor TYPE_DESCRIPTOR_TABLE"
  "\<not> is_root_descriptor TYPE_32BIT_CONSTANTS"
  by (simp_all add: rs_types)

lemma descriptor_type [simp]:
  "is_root_descriptor t \<Longrightarrow> t \<noteq> TYPE_DESCRIPTOR_TABLE" "is_root_descriptor t \<Longrightarrow> t \<noteq> TYPE_32BIT_CONSTANTS"
  by (auto simp: rs_types)

lemma fix_table_keeps [simp]:
  "ParameterType (fix_table p r) = ParameterType p" "ShaderVisibility (fix_table p r) = ShaderVisibility p"
  "Constants (fix_table p r) = Constants p" "Descriptor (fix_table p r) = Descriptor p"
  by (simp_all add: fix_table_def)

lemma resize_same [simp]: "length xs = n \<Longrightarrow> resize_vector n x xs = xs"
  by (auto simp: resize_vector_def)

lemma finish_simps [simp]:
  "ranges_1_0 (finish_storage (raw_storage v f st sm)) = map (fst \<circ> snd \<circ> snd) st"
  "ranges_1_1 (finish_storage (raw_storage v f st sm)) = map (snd \<circ> snd \<circ> snd) st"
  "static_samplers (finish_storage (raw_storage v f st sm)) = sm"
  "st_version (finish_storage (raw_storage v f st sm)) = v"
  "desc_flags (desc_1_1 (finish_storage (raw_storage v f st sm))) = f"
  by (simp_all add: finish_storage_def BuildBindingParameters_def fixPointers_def raw_storage_def Let_def empty_desc_def)

lemma finish_parameters:
  "parameters_1_0 (finish_storage (raw_storage v f st sm)) = map2 fix_table (map fst st) (map (fst \<circ> snd \<circ> snd) st)"
  "parameters_1_1 (finish_storage (raw_storage v f st sm)) = map2 fix_table (map (fst \<circ> snd) st) (map (snd \<circ> snd \<circ> snd) st)"
  by (simp_all add: finish_storage_def BuildBindingParameters_def fixPointers_def raw_storage_def Let_def)

lemma stored_form_types:
  "stored_form v (p0, p1, r0, r1) \<Longrightarrow> ParameterType p1 = ParameterType p0 \<and> ShaderVisibility p1 = ShaderVisibility p0 \<and>
     (ParameterType p0 = TYPE_DESCRIPTOR_TABLE \<or> ParameterType p0 = TYPE_32BIT_CONSTANTS \<or> is_root_descriptor (ParameterType p0))"
  by (auto elim: stored_form.cases)

lemma serialized_heads_finish:
  assumes "list_all (stored_form w) st"
  shows "serialized_heads (finish_storage (raw_storage v f st sm)) v'
     = map (\<lambda>p. (ParameterType (fst p), ShaderVisibility (fst p))) st"
proof (rule nth_equalityI)
  fix i assume "i < length (serialized_heads (finish_storage (raw_storage v f st sm)) v')"
  then have i: "i < length st" by (simp add: serialized_heads_def finish_parameters split: if_splits)
  obtain p0 p1 r0 r1 where sti: "st ! i = (p0, p1, r0, r1)" by (metis prod.collapse)
  then have "stored_form w (p0, p1, r0, r1)" using assms i by (metis list_all_length)
  then show "serialized_heads (finish_storage (raw_storage v f st sm)) v' ! i
      = map (\<lambda>p. (ParameterType (fst p), ShaderVisibility (fst p))) st ! i"
    using i sti stored_form_types by (simp add: serialized_heads_def finish_parameters)
qed (simp add: serialized_heads_def finish_parameters)

lemma foldl_range0_words: "foldl write_range0 (words_bytes ws) rs = words_bytes (ws @ concat (map range0_words rs))"
  by (induction rs arbitrary: ws)
     (simp_all add: write_range0_def range0_words_def WriteU32_words del: words_bytes_simps(3))

lemma foldl_range1_words: "foldl write_range1 (words_bytes ws) rs = words_bytes (ws @ concat (map range1_words rs))"
  by (induction rs arbitrary: ws)
     (simp_all add: write_range1_def range1_words_def WriteU32_words del: words_bytes_simps(3))

lemma foldl_sampler_words: "foldl write_sampler (words_bytes ws) ss = words_bytes (ws @ concat (map sampler_words ss))"
  by (induction ss arbitrary: ws)
     (simp_all add: write_sampler_def sampler_words_def WriteU32_words del: words_bytes_simps(3))

lemma write_parameter_data_words:
  assumes "list_all (stored_form w) st" "i < length st"
  shows "write_parameter_data (finish_storage (raw_storage v f st sm)) v' (words_bytes ws) i
     = words_bytes (ws @ parameter_words v' (length ws) (st ! i))"
proof -
  obtain p0 p1 r0 r1 where sti: "st ! i = (p0, p1, r0, r1)" by (metis prod.collapse)
  then have form: "stored_form w (p0, p1, r0, r1)" using assms by (metis list_all_length)
  have parameters: "parameters_1_0 (finish_storage (raw_storage v f st sm)) ! i = fix_table p0 r0"
    "parameters_1_1 (finish_storage (raw_storage v f st sm)) ! i = fix_table p1 r1"
    using assms(2) sti by (simp_all add: finish_parameters)
  from stored_form_types [OF form] show ?thesis
    using assms(2) sti parameters serialized_heads_finish [OF assms(1), of v f sm v']
    by (auto simp: write_parameter_data_def parameter_words_def Let_def WriteU32_words foldl_range0_words
        foldl_range1_words algebra_simps simp del: words_bytes_simps(1-3))
qed

definition head_words :: "(u32 \<times> u32) list \<Rightarrow> u32 list" where
  "head_words heads = concat (map (\<lambda>(t, vis). [t, vis, 0]) heads)"

lemma head_words_simps [simp]:
  "head_words [] = []" "head_words (h # hs) = [fst h, snd h, 0] @ head_words hs" "length (head_words hs) = 3 * length hs"
proof -
  show "length (head_words hs) = 3 * length hs"
    by (induction hs) (auto simp: head_words_def)
qed (simp_all add: head_words_def split: prod.split)

lemma write_parameter_headers_words:
  "write_parameter_headers heads (words_bytes ws) patches
     = (words_bytes (ws @ head_words heads), patches @ map (\<lambda>i. 4 * (length ws + 3 * i + 2)) [0..<length heads])"
proof (induction heads arbitrary: ws patches)
  case (Cons h heads)
  obtain t vis where h: "h = (t, vis)" by (cases h)
  have "[0..<length (h # heads)] = 0 # map Suc [0..<length heads]"
    by (simp add: upt_conv_Cons map_Suc_upt del: upt_Suc)
  then show ?case
    by (simp add: h Let_def WriteU32_words Cons.IH comp_def algebra_simps del: upt_Suc words_bytes_simps(1-3))
qed simp

text \<open>One round of the loop on the words: the offset is patched in, the data appended.\<close>

definition place_parameter :: "u32 \<Rightarrow> stored_parameter list \<Rightarrow> u32 list \<Rightarrow> nat \<Rightarrow> u32 list" where
  "place_parameter v st ws i = ws[8 + 3 * i := of_nat (4 * length ws)] @ parameter_words v (length ws) (st ! i)"

lemma place_parameter_nth:
  "k < length ws \<Longrightarrow> k \<noteq> 8 + 3 * i \<Longrightarrow> place_parameter v st ws i ! k = ws ! k"
  by (simp add: place_parameter_def nth_append)

lemma place_parameters_keep:
  assumes "k < length ws" "\<forall>i < n. k \<noteq> 8 + 3 * i"
  shows "foldl (place_parameter v st) ws [0..<n] ! k = ws ! k \<and> length ws \<le> length (foldl (place_parameter v st) ws [0..<n])"
  using assms
proof (induction n)
  case (Suc n)
  let ?us = "foldl (place_parameter v st) ws [0..<n]"
  have "place_parameter v st ?us n ! k = ?us ! k"
    using Suc by (intro place_parameter_nth) auto
  moreover have "length ?us \<le> length (place_parameter v st ?us n)" by (simp add: place_parameter_def)
  ultimately show ?case using Suc by simp
qed simp

lemma place_parameters_data:
  assumes "6 + 3 * N \<le> length ws" "n \<le> N" "i < n"
  shows "\<exists>k. foldl (place_parameter v st) ws [0..<n] ! (8 + 3 * i) = of_nat (4 * k) \<and> 6 + 3 * N \<le> k \<and>
             words_at (foldl (place_parameter v st) ws [0..<n]) k (parameter_words v k (st ! i))"
  using assms(2,3)
proof (induction n)
  case (Suc n)
  let ?us = "foldl (place_parameter v st) ws [0..<n]"
  have long: "6 + 3 * N \<le> length ?us"
  proof -
    have "length ws \<le> length ?us"
      by (induction n) (auto simp: place_parameter_def intro: order_trans)
    then show ?thesis using assms(1) by simp
  qed
  show ?case
  proof (cases "i = n")
    case True
    have "words_at (place_parameter v st ?us n) (length ?us) (parameter_words v (length ?us) (st ! n))"
      by (simp add: place_parameter_def words_at_def)
    moreover have "place_parameter v st ?us n ! (8 + 3 * n) = of_nat (4 * length ?us)"
      using long Suc.prems by (simp add: place_parameter_def nth_append)
    ultimately show ?thesis using True long by auto
  next
    case False
    then obtain k where k: "?us ! (8 + 3 * i) = of_nat (4 * k)" "6 + 3 * N \<le> k"
      "words_at ?us k (parameter_words v k (st ! i))"
      using Suc by auto
    have "place_parameter v st ?us n ! (8 + 3 * i) = of_nat (4 * k)"
      using k(1) long False Suc.prems by (simp add: place_parameter_nth)
    moreover have "words_at (place_parameter v st ?us n) k (parameter_words v k (st ! i))"
      using words_at_keeps [OF k(3), of "8 + 3 * n"] k(2) Suc.prems by (subst place_parameter_def) simp
    ultimately show ?thesis using k(2) by auto
  qed
qed simp

text \<open>The layout of a blob.\<close>

definition blob_layout :: "u32 list \<Rightarrow> u32 \<Rightarrow> u32 \<Rightarrow> stored_parameter list \<Rightarrow> static_sampler list \<Rightarrow> bool" where
  "blob_layout ws v flags st samplers \<longleftrightarrow>
     6 + 3 * length st \<le> length ws \<and> ws ! 0 = VersionValue v \<and> ws ! 1 = of_nat (length st) \<and>
     ws ! 2 = (if st \<noteq> [] then 24 else 0) \<and> ws ! 3 = of_nat (length samplers) \<and> ws ! 5 = flags \<and>
     (\<forall>i < length st. ws ! (6 + 3 * i) = ParameterType (fst (st ! i)) \<and> ws ! (7 + 3 * i) = ShaderVisibility (fst (st ! i)) \<and>
        (\<exists>k. ws ! (8 + 3 * i) = of_nat (4 * k) \<and> words_at ws k (parameter_words v k (st ! i)))) \<and>
     (samplers \<noteq> [] \<longrightarrow> (\<exists>k. ws ! 4 = of_nat (4 * k) \<and> words_at ws k (concat (map sampler_words samplers))))"

lemma head_words_nth:
  assumes "i < length hs"
  shows "head_words hs ! (3 * i) = fst (hs ! i)" "head_words hs ! (3 * i + 1) = snd (hs ! i)"
  using assms
proof (induction hs arbitrary: i)
  case (Cons h hs)
  case 1
  then show ?case using Cons(1) [of "i - 1"] by (cases i) simp_all
next
  case (Cons h hs)
  case 2
  then show ?case using Cons(2) [of "i - 1"] by (cases i) simp_all
qed simp_all

lemma place_parameters_length: "length ws \<le> length (foldl (place_parameter v st) ws [0..<n])"
  by (induction n) (auto simp: place_parameter_def intro: order_trans)

lemma write_parameters_words:
  assumes "list_all (stored_form w) st" "6 + 3 * length st \<le> length ws" "n \<le> length st"
    and "\<And>i. i < n \<Longrightarrow> patches ! i = 4 * (8 + 3 * i)"
  shows "foldl (\<lambda>data i. write_parameter_data (finish_storage (raw_storage v f st sm)) v' (PatchU32 data (patches ! i) (of_nat (length data))) i)
      (words_bytes ws) [0..<n] = words_bytes (foldl (place_parameter v' st) ws [0..<n])"
  using assms(3,4)
proof (induction n)
  case (Suc n)
  let ?us = "foldl (place_parameter v' st) ws [0..<n]"
  have fits: "8 + 3 * n < length ?us"
    using place_parameters_length [of ws v' st n] assms(2) Suc.prems(1) by linarith
  have "PatchU32 (words_bytes ?us) (patches ! n) (of_nat (length (words_bytes ?us)))
      = words_bytes (?us[8 + 3 * n := of_nat (4 * length ?us)])"
    using words_bytes_update [OF fits] Suc.prems(2) [of n] by simp
  moreover have "write_parameter_data (finish_storage (raw_storage v f st sm)) v'
        (words_bytes (?us[8 + 3 * n := of_nat (4 * length ?us)])) n = words_bytes (place_parameter v' st ?us n)"
    using Suc.prems(1) by (simp add: write_parameter_data_words [OF assms(1)] place_parameter_def del: words_bytes_simps(3))
  ultimately show ?case using Suc by simp
qed simp

text \<open>All the words of a blob, as the serializer places them.\<close>

definition header_words :: "u32 \<Rightarrow> u32 \<Rightarrow> stored_parameter list \<Rightarrow> static_sampler list \<Rightarrow> u32 list" where
  "header_words v f st sm =
     [VersionValue v, of_nat (length st), if length st \<noteq> 0 then 24 else 0, of_nat (length sm), 0, f]"

definition placed_words :: "u32 \<Rightarrow> u32 \<Rightarrow> stored_parameter list \<Rightarrow> static_sampler list \<Rightarrow> u32 list" where
  "placed_words v f st sm =
     foldl (place_parameter v st)
       (header_words v f st sm @ head_words (map (\<lambda>p. (ParameterType (fst p), ShaderVisibility (fst p))) st)) [0..<length st]"

definition serialized_words :: "u32 \<Rightarrow> u32 \<Rightarrow> stored_parameter list \<Rightarrow> static_sampler list \<Rightarrow> u32 list" where
  "serialized_words v f st sm =
     (let us = placed_words v f st sm in
      if sm \<noteq> [] then us[4 := of_nat (4 * length us)] @ concat (map sampler_words sm) else us)"

lemma header_words_length [simp]: "length (header_words v f st sm) = 6"
  by (simp add: header_words_def)

lemma placed_words_length: "6 + 3 * length st \<le> length (placed_words v f st sm)"
  using place_parameters_length [of "header_words v f st sm @ head_words (map (\<lambda>p. (ParameterType (fst p), ShaderVisibility (fst p))) st)"
      v st "length st"]
  by (simp add: placed_words_def)

lemma SerializeRts0_words:
  assumes form: "list_all (stored_form w) st"
  shows "SerializeRts0 (finish_storage (raw_storage v f st sm)) v = words_bytes (serialized_words v f st sm)"
proof -
  let ?s = "finish_storage (raw_storage v f st sm)"
  let ?n = "length st"
  let ?heads = "map (\<lambda>p. (ParameterType (fst p), ShaderVisibility (fst p))) st"
  let ?ws = "header_words v f st sm @ head_words ?heads"
  let ?us = "placed_words v f st sm"
  have heads: "serialized_heads ?s v = ?heads" by (rule serialized_heads_finish [OF form])
  have header: "write_header ?s v = (words_bytes (header_words v f st sm), 16)"
    by (simp add: write_header_def Let_def heads header_words_def kRts0HeaderSize_def WriteU32_def)
  have patches: "write_parameter_headers ?heads (words_bytes (header_words v f st sm)) []
      = (words_bytes ?ws, map (\<lambda>i. 4 * (8 + 3 * i)) [0..<?n])"
    by (simp add: write_parameter_headers_words algebra_simps del: words_bytes_simps(1-3))
  have loop: "foldl (\<lambda>data i. write_parameter_data ?s v (PatchU32 data (map (\<lambda>i. 4 * (8 + 3 * i)) [0..<?n] ! i) (of_nat (length data))) i)
      (words_bytes ?ws) [0..<?n] = words_bytes ?us"
    unfolding placed_words_def by (rule write_parameters_words [OF form]) simp_all
  have samplers: "(if sm \<noteq> [] then foldl write_sampler (PatchU32 (words_bytes ?us) 16 (of_nat (length (words_bytes ?us)))) sm
      else words_bytes ?us) = words_bytes (serialized_words v f st sm)"
    using words_bytes_update [of 4 ?us "of_nat (4 * length ?us)"] placed_words_length [of st v f sm]
    by (simp add: serialized_words_def Let_def foldl_sampler_words del: words_bytes_simps(3))
  show ?thesis
    unfolding SerializeRts0_def Let_def heads header patches prod.case length_map finish_simps(3) loop
    by (rule samplers)
qed

lemma serialized_words_layout: "blob_layout (serialized_words v f st sm) v f st sm"
proof -
  let ?n = "length st"
  let ?heads = "map (\<lambda>p. (ParameterType (fst p), ShaderVisibility (fst p))) st"
  define H where "H = header_words v f st sm"
  define ws where "ws = H @ head_words ?heads"
  define us where "us = foldl (place_parameter v st) ws [0..<?n]"
  define xs where "xs = (if sm \<noteq> [] then us[4 := of_nat (4 * length us)] @ concat (map sampler_words sm) else us)"
  have H_length: "length H = 6" by (simp add: H_def)
  have long: "length ws = 6 + 3 * ?n" by (simp add: ws_def H_length)
  have us_long: "6 + 3 * ?n \<le> length us"
    using place_parameters_length [of ws v st ?n] long by (simp add: us_def)
  have "blob_layout xs v f st sm"
  proof -
    have keep_us: "us ! k = ws ! k" if "k < length ws" "\<forall>i < ?n. k \<noteq> 8 + 3 * i" for k
      using place_parameters_keep [OF that] by (simp add: us_def)
    have keep_xs: "xs ! k = us ! k" if "k < 6 + 3 * ?n" "k \<noteq> 4" for k
      using that us_long by (simp add: xs_def nth_append)
    have keep: "xs ! k = ws ! k" if "k < 6 + 3 * ?n" "k \<noteq> 4" "\<forall>j. k \<noteq> 8 + 3 * j" for k
      using that keep_us [of k] keep_xs [of k] long by simp
    have H_nth: "xs ! k = H ! k" if "k < 6" "k \<noteq> 4" for k
      using that keep_us [of k] keep_xs [of k] long by (auto simp: ws_def H_length nth_append)
    have "xs ! 0 = VersionValue v" "xs ! 1 = of_nat ?n" "xs ! 2 = (if st \<noteq> [] then 24 else 0)"
      "xs ! 3 = of_nat (length sm)" "xs ! 5 = f"
      using H_nth [of 0] H_nth [of 1] H_nth [of 2] H_nth [of 3] H_nth [of 5] by (simp_all add: H_def header_words_def)
    moreover have "xs ! (6 + 3 * i) = ParameterType (fst (st ! i))" "xs ! (7 + 3 * i) = ShaderVisibility (fst (st ! i))"
      if "i < ?n" for i
    proof -
      have "ws ! (6 + 3 * i) = head_words ?heads ! (3 * i)" "ws ! (7 + 3 * i) = head_words ?heads ! (3 * i + 1)"
        by (simp_all add: ws_def H_length nth_append)
      moreover have "xs ! (6 + 3 * i) = ws ! (6 + 3 * i)" "xs ! (7 + 3 * i) = ws ! (7 + 3 * i)"
        using that by (intro keep; presburger)+
      ultimately show "xs ! (6 + 3 * i) = ParameterType (fst (st ! i))" "xs ! (7 + 3 * i) = ShaderVisibility (fst (st ! i))"
        using head_words_nth [of i ?heads] that by simp_all
    qed
    moreover have "\<exists>k. xs ! (8 + 3 * i) = of_nat (4 * k) \<and> words_at xs k (parameter_words v k (st ! i))" if i: "i < ?n" for i
    proof -
      obtain k where k: "us ! (8 + 3 * i) = of_nat (4 * k)" "6 + 3 * ?n \<le> k" "words_at us k (parameter_words v k (st ! i))"
        using place_parameters_data [of ?n ws ?n i v st] long i by (auto simp: us_def)
      have "words_at xs k (parameter_words v k (st ! i))"
        using words_at_keeps [OF k(3), of 4] k(2,3) by (simp add: xs_def)
      moreover have "xs ! (8 + 3 * i) = us ! (8 + 3 * i)" by (rule keep_xs) (use i in simp_all)
      ultimately show ?thesis using k(1) by metis
    qed
    moreover have "\<exists>k. xs ! 4 = of_nat (4 * k) \<and> words_at xs k (concat (map sampler_words sm))" if "sm \<noteq> []"
      using that us_long by (intro exI [of _ "length us"]) (simp add: xs_def nth_append words_at_def)
    moreover have "6 + 3 * ?n \<le> length xs" using us_long by (simp add: xs_def)
    ultimately show ?thesis by (simp add: blob_layout_def)
  qed
  moreover have "xs = serialized_words v f st sm"
    unfolding serialized_words_def placed_words_def Let_def xs_def us_def ws_def H_def by (rule refl)
  ultimately show ?thesis by simp
qed

subsection \<open>Reading a layout\<close>

lemma unat_of_nat_u32: "n < 2 ^ 32 \<Longrightarrow> unat (of_nat n :: u32) = n"
  by (simp add: unat_of_nat)

lemma unat_word_offset:
  assumes "4 * k + unat b < 2 ^ 32"
  shows "unat (of_nat (4 * k) + b :: u32) = 4 * k + unat b"
  using assms by (simp add: unat_word_ariths unat_of_nat)

lemma read_at_offset:
  assumes "words_at ws k vs" "4 * length ws < 2 ^ 32" "unat b = 4 * i" "i < length vs"
  shows "read_u32 (words_bytes ws) (unat (of_nat (4 * k) + b :: u32)) = Inr (vs ! i)"
proof -
  have "k + i < length ws" using assms(1,4) by (simp add: words_at_def)
  then have "unat (of_nat (4 * k) + b) = 4 * k + unat b"
    using assms(2,3) by (intro unat_word_offset) simp
  then show ?thesis using read_words_at [OF assms(1,4)] assms(3) by simp
qed

lemma read_range0:
  assumes "words_at ws k (range0_words r)" "vv \<noteq> 2"
  shows "read_range (words_bytes ws) vv (4 * k) = Inr (r, range_up r)"
proof -
  let ?rd = "read_u32 (words_bytes ws) :: nat \<Rightarrow> u32 rs_parse"
  note rd = read_words_at [OF assms(1), unfolded range0_words_def]
  have "?rd (4 * k + 0) = Inr (rng_type r)" "?rd (4 * k + 4) = Inr (rng_count r)"
    "?rd (4 * k + 8) = Inr (rng_base_register r)" "?rd (4 * k + 12) = Inr (rng_space r)"
    "?rd (4 * k + 16) = Inr (rng_offset r)"
    using rd [of 0] rd [of 1] rd [of 2] rd [of 3] rd [of 4] by simp_all
  then show ?thesis using assms(2) by (simp add: read_range_def range_up_def)
qed

lemma read_range1:
  assumes "words_at ws k (range1_words r)"
  shows "read_range (words_bytes ws) 2 (4 * k) = Inr (range_down r, r)"
proof -
  let ?rd = "read_u32 (words_bytes ws) :: nat \<Rightarrow> u32 rs_parse"
  note rd = read_words_at [OF assms(1), unfolded range1_words_def]
  have "?rd (4 * k + 0) = Inr (rng_type r)" "?rd (4 * k + 4) = Inr (rng_count r)"
    "?rd (4 * k + 8) = Inr (rng_base_register r)" "?rd (4 * k + 12) = Inr (rng_space r)"
    "?rd (4 * k + 16) = Inr (rng_flags r)" "?rd (4 * k + 20) = Inr (rng_offset r)"
    using rd [of 0] rd [of 1] rd [of 2] rd [of 3] rd [of 4] rd [of 5] by simp_all
  then show ?thesis by (simp add: read_range_def range_down_def)
qed

lemma sampler_words_length: "length (sampler_words s) = 13"
  by (simp add: sampler_words_def)

lemma read_sampler_words:
  assumes "words_at ws k (sampler_words s)"
  shows "read_sampler (words_bytes ws) (4 * k) = Inr s"
proof -
  have "parse_each (\<lambda>i. read_u32 (words_bytes ws) (4 * k + 4 * i) :: u32 rs_parse) [0..<13] = Inr (map (\<lambda>i. sampler_words s ! i) [0..<13])"
    by (intro parse_each_map) (simp add: read_words_at [OF assms] sampler_words_length)
  then show ?thesis by (simp add: read_sampler_def sampler_words_def)
qed

lemma read_list_words:
  assumes "words_at ws k (concat (map f xs))" "\<And>x. length (f x) = m"
    and "\<And>j y. words_at ws j (f y) \<Longrightarrow> rd (4 * j) = Inr (g y)"
  shows "parse_each (\<lambda>j. rd (4 * k + j * (4 * m))) [0..<length xs] = Inr (map g xs)"
proof -
  have "rd (4 * k + j * (4 * m)) = Inr (g (xs ! j))" if "j < length xs" for j
    using assms(3) [OF words_at_concat [OF assms(1,2) that]] by (simp add: algebra_simps)
  then show ?thesis by (simp add: parse_each_Inr)
qed

lemma words_length [simp]: "length (range0_words r) = 5" "length (range1_words q) = 6"
  by (simp_all add: range0_words_def range1_words_def)

lemma concat_words_length: "(\<And>x. length (f x) = m) \<Longrightarrow> length (concat (map f xs)) = length xs * m"
  by (induction xs) simp_all

lemma read_head:
  assumes "h + 2 < length ws"
  shows "read_u32 (words_bytes ws) (4 * h + 0) = Inr (ws ! h)" "read_u32 (words_bytes ws) (4 * h + 4) = Inr (ws ! (h + 1))"
    "read_u32 (words_bytes ws) (4 * h + 8) = Inr (ws ! (h + 2))"
  using assms by (simp_all add: read_word [of h] read_word [of "h + 1"] read_word [of "h + 2"])

text \<open>A table of ranges is found behind its two words, whatever the size of its ranges.\<close>

lemma read_table:
  fixes rs :: "'r list"
  assumes "words_at ws k ([of_nat (length rs), of_nat (4 * k + 8)] @ concat (map f rs))" "4 * length ws < 2 ^ 32"
    and "\<And>x. length (f x) = m" "range_size vv = 4 * m" "0 < m"
    and "\<And>j y. words_at ws j (f y) \<Longrightarrow> read_range (words_bytes ws) vv (4 * j) = Inr (g y)"
    and "ws ! h = TYPE_DESCRIPTOR_TABLE" "ws ! (h + 1) = vis" "ws ! (h + 2) = of_nat (4 * k)" "h + 2 < length ws"
  shows "read_parameter (words_bytes ws) vv (4 * h)
    = Inr (parameter0 TYPE_DESCRIPTOR_TABLE vis, parameter1 TYPE_DESCRIPTOR_TABLE vis, map fst (map g rs), map snd (map g rs))"
proof -
  let ?rd = "read_u32 (words_bytes ws) :: nat \<Rightarrow> u32 rs_parse"
  have at: "words_at ws k [of_nat (length rs), of_nat (4 * k + 8)]" "words_at ws (k + 2) (concat (map f rs))"
    using assms(1) by (simp_all add: words_at_append del: append_Cons)
  have fits: "k + 2 + length rs * m \<le> length ws"
    using at(2) by (simp add: words_at_def concat_words_length [where f = f, OF assms(3)])
  moreover have "length rs * 1 \<le> length rs * m" using assms(5) by (intro mult_le_mono2) simp
  ultimately have small: "k + 2 + length rs \<le> length ws" by linarith
  have "?rd (4 * h + 0) = Inr TYPE_DESCRIPTOR_TABLE" "?rd (4 * h + 4) = Inr vis"
    "?rd (4 * h + 8) = Inr (of_nat (4 * k))"
    using read_head [OF assms(10)] assms(7-9) by simp_all
  moreover have "?rd (unat (of_nat (4 * k) + 0 :: u32)) = Inr (of_nat (length rs))"
    "?rd (unat (of_nat (4 * k) + 4 :: u32)) = Inr (of_nat (4 * k + 8))"
    using read_at_offset [OF at(1) assms(2), of 0 0] read_at_offset [OF at(1) assms(2), of 4 1] by simp_all
  moreover have u: "unat (of_nat (4 * k) :: u32) = 4 * k" "unat (of_nat (4 * k + 8) :: u32) = 4 * (k + 2)"
      "unat (of_nat (length rs) :: u32) = length rs"
    using small assms(2) by (simp_all add: unat_of_nat_u32 del: of_nat_mult of_nat_add)
  moreover have "parse_each (\<lambda>j. read_range (words_bytes ws) vv (4 * (k + 2) + j * (4 * m))) [0..<length rs] = Inr (map g rs)"
    using read_list_words [OF at(2) assms(3), of "read_range (words_bytes ws) vv" g] assms(6) by simp
  moreover have "checked_end (4 * k) kRts0DescriptorTableHeaderSize (4 * length ws) = Some (4 * k + 8)"
    "checked_end (4 * (k + 2)) (length rs * (4 * m)) (4 * length ws) = Some (4 * (k + 2) + length rs * (4 * m))"
    using fits small by (simp_all add: checked_end_Some rts0_sizes)
  ultimately show ?thesis
    by (simp add: read_parameter_def assms(4) del: map_map of_nat_mult of_nat_add)
qed

lemma read_constants:
  assumes "words_at ws k [cst_register c, cst_space c, cst_num_values c]" "4 * length ws < 2 ^ 32"
    and "ws ! h = TYPE_32BIT_CONSTANTS" "ws ! (h + 1) = vis" "ws ! (h + 2) = of_nat (4 * k)" "h + 2 < length ws"
  shows "read_parameter (words_bytes ws) vv (4 * h)
    = Inr ((parameter0 TYPE_32BIT_CONSTANTS vis)\<lparr> Constants := c \<rparr>, (parameter1 TYPE_32BIT_CONSTANTS vis)\<lparr> Constants := c \<rparr>, [], [])"
proof -
  let ?rd = "read_u32 (words_bytes ws) :: nat \<Rightarrow> u32 rs_parse"
  have fits: "k + 3 \<le> length ws" using assms(1) by (simp add: words_at_def)
  have "?rd (4 * h + 0) = Inr TYPE_32BIT_CONSTANTS" "?rd (4 * h + 4) = Inr vis" "?rd (4 * h + 8) = Inr (of_nat (4 * k))"
    using read_head [OF assms(6)] assms(3-5) by simp_all
  moreover have "?rd (unat (of_nat (4 * k) + 0 :: u32)) = Inr (cst_register c)"
    "?rd (unat (of_nat (4 * k) + 4 :: u32)) = Inr (cst_space c)" "?rd (unat (of_nat (4 * k) + 8 :: u32)) = Inr (cst_num_values c)"
    using read_at_offset [OF assms(1,2), of 0 0] read_at_offset [OF assms(1,2), of 4 1] read_at_offset [OF assms(1,2), of 8 2]
    by simp_all
  moreover have "unat (of_nat (4 * k) :: u32) = 4 * k"
    using fits assms(2) by (simp add: unat_of_nat_u32 del: of_nat_mult)
  moreover have "checked_end (4 * k) kRts0RootConstantsSize (4 * length ws) = Some (4 * k + 12)"
    using fits by (simp add: checked_end_Some rts0_sizes)
  ultimately show ?thesis
    by (simp add: read_parameter_def Let_def del: of_nat_mult)
qed

text \<open>The flags of a root descriptor are read in version 1.1 only.\<close>

lemma read_descriptor:
  assumes "words_at ws k vs" "4 * length ws < 2 ^ 32" "length vs = (if vv = 2 then 3 else 2)"
    and "vs ! 0 = reg" "vs ! 1 = space" "(if vv = 2 then vs ! 2 else 0) = flags" "is_root_descriptor t"
    and "ws ! h = t" "ws ! (h + 1) = vis" "ws ! (h + 2) = of_nat (4 * k)" "h + 2 < length ws"
  shows "read_parameter (words_bytes ws) vv (4 * h)
    = Inr ((parameter0 t vis)\<lparr> Descriptor := \<lparr> dsc_register = reg, dsc_space = space \<rparr> \<rparr>,
           (parameter1 t vis)\<lparr> Descriptor := \<lparr> dsc_register = reg, dsc_space = space, dsc_flags = flags \<rparr> \<rparr>, [], [])"
proof -
  let ?rd = "read_u32 (words_bytes ws) :: nat \<Rightarrow> u32 rs_parse"
  have fits: "k + length vs \<le> length ws" using assms(1) by (simp add: words_at_def)
  have "?rd (4 * h + 0) = Inr t" "?rd (4 * h + 4) = Inr vis" "?rd (4 * h + 8) = Inr (of_nat (4 * k))"
    using read_head [OF assms(11)] assms(8-10) by simp_all
  moreover have "?rd (unat (of_nat (4 * k) + 0 :: u32)) = Inr reg" "?rd (unat (of_nat (4 * k) + 4 :: u32)) = Inr space"
    using read_at_offset [OF assms(1,2), of 0 0] read_at_offset [OF assms(1,2), of 4 1] assms(3-5) by (simp_all split: if_splits)
  moreover have "(if vv = 2 then ?rd (unat (of_nat (4 * k) + 8 :: u32)) else Inr 0) = Inr flags"
    using read_at_offset [OF assms(1,2), of 8 2] assms(3,6) by (auto split: if_splits)
  moreover have "unat (of_nat (4 * k) :: u32) = 4 * k"
    using fits assms(2,3) by (simp add: unat_of_nat_u32 del: of_nat_mult split: if_splits)
  moreover have "checked_end (4 * k) (root_descriptor_size vv) (4 * length ws) = Some (4 * k + root_descriptor_size vv)"
    using fits assms(3) by (simp add: checked_end_Some root_descriptor_size_def rts0_sizes split: if_splits)
  ultimately show ?thesis
    using assms(7) by (simp add: read_parameter_def Let_def del: of_nat_mult)
qed

lemma range_down_up [simp]: "range_down (range_up r) = r"
  by (simp add: range_down_def range_up_def)

lemma version_values [simp]: "VersionValue VERSION_1_0 = 1" "VersionValue VERSION_1_1 = 2" "VersionValue VERSION_1_2 = 3"
  "VERSION_1_1 \<noteq> VERSION_1_0" "VersionFromValue 1 = VERSION_1_0" "VersionFromValue 2 = VERSION_1_1"
  by (simp_all add: VersionValue_def VersionFromValue_def rs_versions)

lemma read_parameter_words:
  assumes form: "stored_form v p" and v: "v = VERSION_1_0 \<or> v = VERSION_1_1"
    and at: "words_at ws k (parameter_words v k p)" and small: "4 * length ws < 2 ^ 32"
    and head: "ws ! h = ParameterType (fst p)" "ws ! (h + 1) = ShaderVisibility (fst p)" "ws ! (h + 2) = of_nat (4 * k)"
      "h + 2 < length ws"
  shows "read_parameter (words_bytes ws) (VersionValue v) (4 * h) = Inr p"
  using form
proof cases
  case (table0 vis r)
  have "range_size 1 = 4 * 5" by (simp add: range_size_def rts0_sizes)
  from read_table [where f = range0_words and g = "\<lambda>r. (r, range_up r)", OF _ small words_length(1) this _ read_range0] at head
  show ?thesis by (simp add: table0 parameter_words_def comp_def)
next
  case (table1 vis r)
  have "range_size 2 = 4 * 6" by (simp add: range_size_def rts0_sizes)
  from read_table [where f = range1_words and g = "\<lambda>r. (range_down r, r)", OF _ small words_length(2) this _ read_range1] at head
  show ?thesis using table1 v by (auto simp: parameter_words_def comp_def)
next
  case (constants vis c)
  then show ?thesis using at head by (simp add: parameter_words_def read_constants [OF _ small])
next
  case (descriptor0 t d vis)
  with read_descriptor [OF at small, of 1 _ _ 0 t h vis] head show ?thesis
    by (simp add: parameter_words_def)
next
  case (descriptor1 t d vis)
  with read_descriptor [OF at small, of 2 _ _ "dsc_flags d" t h vis] head v show ?thesis
    by (auto simp: parameter_words_def)
qed

lemma require_holds: "c \<Longrightarrow> require c s p = p"
  by (simp add: require_def)

lemma ParseRts0_layout:
  assumes layout: "blob_layout ws v flags st sm" and form: "list_all (stored_form v) st"
    and v: "v = VERSION_1_0 \<or> v = VERSION_1_1" and small: "4 * length ws < 2 ^ 32"
  shows "ParseRts0 (words_bytes ws) = Inr (finish_storage (raw_storage v flags st sm))"
proof -
  let ?rd = "read_u32 (words_bytes ws) :: nat \<Rightarrow> u32 rs_parse"
  have long: "6 + 3 * length st \<le> length ws" using layout by (simp add: blob_layout_def)
  obtain ks where ks: "sm \<noteq> [] \<Longrightarrow> ws ! 4 = of_nat (4 * ks) \<and> words_at ws ks (concat (map sampler_words sm))"
    using layout by (auto simp: blob_layout_def)
  have sampler_fits: "ks + length sm * 13 \<le> length ws" if "sm \<noteq> []"
    using ks [OF that] by (simp add: words_at_def concat_words_length [where f = sampler_words, OF sampler_words_length])
  have counts: "unat (of_nat (length st) :: u32) = length st" "unat (of_nat (length sm) :: u32) = length sm"
    using long sampler_fits small by (cases "sm = []"; simp add: unat_of_nat_u32)+
  have rd: "?rd (4 * k) = Inr (ws ! k)" if "k < 6" for k using that long by (intro read_word) simp_all
  have header: "?rd 0 = Inr (VersionValue v)" "?rd 4 = Inr (of_nat (length st))" "?rd 8 = Inr (if st \<noteq> [] then 24 else 0)"
    "?rd 12 = Inr (of_nat (length sm))" "?rd 16 = Inr (ws ! 4)" "?rd 20 = Inr flags"
    using rd [of 0] rd [of 1] rd [of 2] rd [of 3] rd [of 4] rd [of 5] layout by (simp_all add: blob_layout_def)
  have parameters: "parse_each (\<lambda>i. read_parameter (words_bytes ws) (VersionValue v)
      (unat (if st \<noteq> [] then 24 else 0 :: u32) + i * kRts0ParameterHeaderSize)) [0..<length st] = Inr st"
  proof -
    have "read_parameter (words_bytes ws) (VersionValue v) (24 + i * 12) = Inr (st ! i)" if i: "i < length st" for i
    proof -
      have "ws ! (6 + 3 * i) = ParameterType (fst (st ! i))" "ws ! (6 + 3 * i + 1) = ShaderVisibility (fst (st ! i))"
        "\<exists>k. ws ! (6 + 3 * i + 2) = of_nat (4 * k) \<and> words_at ws k (parameter_words v k (st ! i))"
        using layout i by (simp_all add: blob_layout_def add.commute add.left_commute)
      moreover have "stored_form v (st ! i)" using form i by (simp add: list_all_length)
      moreover have "6 + 3 * i + 2 < length ws" using long i by simp
      ultimately have "read_parameter (words_bytes ws) (VersionValue v) (4 * (6 + 3 * i)) = Inr (st ! i)"
        using read_parameter_words [OF _ v _ small] by blast
      then show ?thesis by (simp add: algebra_simps)
    qed
    then show ?thesis by (cases "st = []") (simp_all add: parse_each_Inr rts0_sizes)
  qed
  have samplers: "parse_each (\<lambda>i. read_sampler (words_bytes ws) (unat (ws ! 4) + i * kRts0StaticSamplerSize)) [0..<length sm] = Inr sm"
  proof (cases "sm = []")
    case False
    have "unat (ws ! 4) = 4 * ks"
      using ks [OF False] sampler_fits [OF False] small by (simp add: unat_of_nat_u32 del: of_nat_mult)
    then show ?thesis
      using read_list_words [of ws ks sampler_words sm 13 "read_sampler (words_bytes ws)" "\<lambda>s. s"]
        ks [OF False] sampler_words_length read_sampler_words by (simp add: rts0_sizes)
  qed simp
  have ends: "of_nat (length st) \<noteq> (0 :: u32) \<longrightarrow> checked_end (unat (if st \<noteq> [] then 24 else 0 :: u32))
      (length st * kRts0ParameterHeaderSize) (length (words_bytes ws)) \<noteq> None"
    "of_nat (length sm) \<noteq> (0 :: u32) \<longrightarrow> checked_end (unat (ws ! 4)) (length sm * kRts0StaticSamplerSize) (length (words_bytes ws)) \<noteq> None"
  proof -
    show "of_nat (length st) \<noteq> (0 :: u32) \<longrightarrow> checked_end (unat (if st \<noteq> [] then 24 else 0 :: u32))
      (length st * kRts0ParameterHeaderSize) (length (words_bytes ws)) \<noteq> None"
      unfolding checked_end_fits using long by (auto simp: rts0_sizes)
    show "of_nat (length sm) \<noteq> (0 :: u32) \<longrightarrow> checked_end (unat (ws ! 4)) (length sm * kRts0StaticSamplerSize) (length (words_bytes ws)) \<noteq> None"
    proof (cases "sm = []")
      case False
      have "unat (ws ! 4) = 4 * ks"
        using ks [OF False] sampler_fits [OF False] small by (simp add: unat_of_nat_u32 del: of_nat_mult)
      then show ?thesis unfolding checked_end_fits using sampler_fits [OF False] by (simp add: rts0_sizes)
    qed simp
  qed
  have version: "VersionValue v = 1 \<or> VersionValue v = 2 \<or> VersionValue v = 3" "VersionFromValue (VersionValue v) = v"
    using v by auto
  have size: "\<not> length (words_bytes ws) < kRts0HeaderSize" using long by (simp add: rts0_sizes)
  show ?thesis
    unfolding ParseRts0_def header bindP_simps counts parameters samplers require_holds [OF size]
      require_holds [OF version(1)] require_holds [OF ends(1)] require_holds [OF ends(2)] version(2)
    by (rule refl)
qed

subsection \<open>The container around it\<close>

lemma read_word_append:
  assumes "k < length ws" "offset = 4 * k"
  shows "read_u32 (words_bytes ws @ d) offset = Inr (ws ! k)"
proof -
  have "ws = take k ws @ ws ! k # drop (Suc k) ws"
    using assms(1) by (rule id_take_nth_drop)
  then have "words_bytes ws = words_bytes (take k ws) @ u32_bytes (ws ! k) @ words_bytes (drop (Suc k) ws)"
    by (metis words_bytes_simps(2,3))
  then show ?thesis
    using read_u32_bytes [of "words_bytes (take k ws)" "ws ! k" "words_bytes (drop (Suc k) ws) @ d"] assms
    by (simp add: min_def)
qed

definition container_words :: "u32 \<Rightarrow> u32 \<Rightarrow> u32 list" where
  "container_words container_size n = [fourcc_Container, 0, 0, 0, 0, 1, container_size, 1, 36, fourcc_Rts0, n]"

lemma BuildDxbcContainer_words:
  "BuildDxbcContainer rts0 = words_bytes (container_words (of_nat (44 + length rts0)) (of_nat (length rts0))) @ rts0"
proof -
  have "u16_bytes 1 @ u16_bytes 0 = u32_bytes 1" by (simp add: u16_bytes_def u32_bytes_def)
  then show ?thesis
    by (simp add: BuildDxbcContainer_def container_words_def Let_def WriteU32_def WriteU16_def add.commute)
qed

lemma ExtractRts0Part_container:
  assumes "44 + length rts0 < 2 ^ 32"
  shows "ExtractRts0Part (BuildDxbcContainer rts0) = Inr rts0"
proof -
  let ?ws = "container_words (of_nat (44 + length rts0)) (of_nat (length rts0))"
  let ?blob = "words_bytes ?ws @ rts0"
  let ?rd = "read_u32 ?blob :: nat \<Rightarrow> u32 dxil_parse"
  have length_ws: "length (container_words a b) = 11" for a b by (simp add: container_words_def)
  have rd: "?rd (4 * k) = Inr (?ws ! k)" if "k < 11" for k using that by (intro read_word_append) (simp_all add: length_ws)
  have reads: "?rd 0 = Inr fourcc_Container" "?rd 24 = Inr (of_nat (44 + length rts0))" "?rd 28 = Inr 1" "?rd 32 = Inr 36"
    "?rd 36 = Inr fourcc_Rts0" "?rd 40 = Inr (of_nat (length rts0))"
    using rd [of 0] rd [of 6] rd [of 7] rd [of 8] rd [of 9] rd [of 10] by (simp_all add: container_words_def del: of_nat_add)
  have sizes: "unat (of_nat (44 + length rts0) :: u32) = 44 + length rts0" "unat (of_nat (length rts0) :: u32) = length rts0"
    using assms by (simp_all add: unat_of_nat_u32 del: of_nat_add)
  obtain major minor :: u16 and hash where rest: "(read_u16 ?blob 20 :: u16 dxil_parse) = Inr major"
    "(read_u16 ?blob 22 :: u16 dxil_parse) = Inr minor" "(subspan ?blob 4 16 :: u8 list dxil_parse) = Inr hash"
    by (simp add: read_u16_def read_u8_def subspan_def length_ws)
  have span: "(subspan ?blob 44 (length rts0) :: u8 list dxil_parse) = Inr rts0"
    by (simp add: subspan_def length_ws)
  have "checked_end 36 8 (44 + length rts0) = Some 44" "checked_end 44 (length rts0) (44 + length rts0) = Some (44 + length rts0)"
    "checked_end 32 4 (44 + length rts0) = Some 36"
    by (simp_all add: checked_end_Some)
  then have "parse_part ?blob (44 + length rts0) 36 0 = Inr \<lparr> bp_fourcc = fourcc_Rts0, bp_offset = 36, bp_data = rts0 \<rparr>"
    "parseContainer ?blob = Inr \<lparr> ci_hash = hash, ci_major_version = major, ci_minor_version = minor,
       ci_container_size = of_nat (44 + length rts0), ci_parts = [\<lparr> bp_fourcc = fourcc_Rts0, bp_offset = 36, bp_data = rts0 \<rparr>] \<rparr>"
    by (simp_all add: parse_part_def parseContainer_def reads sizes rest span dxil_sizes length_ws
        del: words_bytes_simps(2) of_nat_add)
  moreover have "(read_u32 ?blob 0 :: u32 rs_parse) = Inr fourcc_Container"
    using read_word_append [of 0 ?ws 0 rts0] by (simp add: container_words_def)
  ultimately show ?thesis
    unfolding BuildDxbcContainer_words
    by (simp add: ExtractRts0Part_def ParseContainer_def findPart_def length_ws del: words_bytes_simps(2) of_nat_add)
qed

subsection \<open>From a description to its blob and back\<close>

lemma root_cost_types:
  assumes "root_cost c ps = Some e" "p \<in> set ps"
  shows "ParameterType p = TYPE_DESCRIPTOR_TABLE \<or> ParameterType p = TYPE_32BIT_CONSTANTS \<or> is_root_descriptor (ParameterType p)"
  using assms
proof (induction ps arbitrary: c)
  case (Cons q ps)
  then show ?case by (cases "q = p") (auto simp: parameter_cost_def split: option.splits if_splits)
qed simp

lemma clone_parameter0_form:
  assumes "ParameterType p = TYPE_DESCRIPTOR_TABLE \<or> ParameterType p = TYPE_32BIT_CONSTANTS \<or> is_root_descriptor (ParameterType p)"
  shows "stored_form VERSION_1_0 (clone_parameter0 p)"
  using assms by (auto simp: clone_parameter0_def Let_def intro: stored_form.intros stored_form.table0 [where r = "[]", simplified])

lemma clone_parameter1_form:
  assumes "ParameterType p = TYPE_DESCRIPTOR_TABLE \<or> ParameterType p = TYPE_32BIT_CONSTANTS \<or> is_root_descriptor (ParameterType p)"
    and "v \<noteq> VERSION_1_0"
  shows "stored_form v (clone_parameter1 p)"
  using assms by (auto simp: clone_parameter1_def Let_def intro: stored_form.intros stored_form.table1 [where r = "[]", simplified])

lemma cloned_form:
  assumes "CloneFromVersionedDesc desc = Some s"
  obtains flags st sm where "s = finish_storage (raw_storage (desc_version desc) flags st sm)"
    "list_all (stored_form (desc_version desc)) st"
proof (cases desc)
  case (Desc_1_0 d)
  with assms have s: "s = CloneFromDesc0 d" and valid: "ValidateDesc0 d"
    by (auto simp: CloneFromVersionedDesc_def split: if_splits)
  show thesis
  proof (rule that)
    show "s = finish_storage (raw_storage (desc_version desc) (desc_flags d)
        (map clone_parameter0 (array_of (pParameters d) (NumParameters d))) (cloned_samplers d))"
      using s by (simp add: CloneFromDesc0_def desc_version_def Desc_1_0)
    show "list_all (stored_form (desc_version desc)) (map clone_parameter0 (array_of (pParameters d) (NumParameters d)))"
      using valid by (auto simp: ValidateDesc0_def desc_valid_def Let_def list_all_iff desc_version_def Desc_1_0
          intro!: clone_parameter0_form dest: root_cost_types split: option.splits)
  qed
next
  case (Desc_1_1 v d)
  with assms have s: "s = CloneFromDesc1 d v" and valid: "ValidateDesc1 d" and v: "v \<noteq> VERSION_1_0"
    by (auto simp: CloneFromVersionedDesc_def rs_versions split: if_splits)
  show thesis
  proof (rule that)
    show "s = finish_storage (raw_storage (desc_version desc) (desc_flags d)
        (map clone_parameter1 (array_of (pParameters d) (NumParameters d))) (cloned_samplers d))"
      using s by (simp add: CloneFromDesc1_def desc_version_def Desc_1_1)
    show "list_all (stored_form (desc_version desc)) (map clone_parameter1 (array_of (pParameters d) (NumParameters d)))"
      using valid v by (auto simp: ValidateDesc1_def desc_valid_def Let_def list_all_iff desc_version_def Desc_1_1
          intro!: clone_parameter1_form dest: root_cost_types split: option.splits)
  qed
qed

lemma ParseRts0_SerializeRts0:
  assumes "CloneFromVersionedDesc desc = Some s" "desc_version desc \<noteq> VERSION_1_2"
    and "length (SerializeRts0 s (desc_version desc)) < 2 ^ 32"
  shows "ParseRts0 (SerializeRts0 s (desc_version desc)) = Inr s"
proof -
  let ?v = "desc_version desc"
  obtain flags st sm where s: "s = finish_storage (raw_storage ?v flags st sm)" and form: "list_all (stored_form ?v) st"
    using cloned_form [OF assms(1)] .
  obtain ws where ws: "SerializeRts0 s ?v = words_bytes ws" "blob_layout ws ?v flags st sm"
    using SerializeRts0_words [OF form] serialized_words_layout s by metis
  have "?v = VERSION_1_0 \<or> ?v = VERSION_1_1"
    using assms(1,2) by (auto simp: CloneFromVersionedDesc_def desc_version_def split: versioned.splits if_splits)
  moreover have "4 * length ws < 2 ^ 32" using assms(3) by (simp add: ws(1))
  ultimately have "ParseRts0 (words_bytes ws) = Inr s"
    using ParseRts0_layout [OF ws(2) form] s by blast
  then show ?thesis unfolding ws(1) .
qed

lemma SerializeRootSignature_length: "length (SerializeRootSignature s v) = 44 + length (SerializeRts0 s v)"
  by (simp add: SerializeRootSignature_def BuildDxbcContainer_words container_words_def)

text \<open>C25: what an application serializes is what the runtime reads: if serializing a description of version
  1.0 or 1.1 succeeds with a blob (whose size fits its 32-bit field), then creating a root signature from the
  blob gives exactly the storage that the description itself gives: every parameter in both forms, every
  range, every static sampler, the flags, and the binding parameters.\<close>
theorem root_signature_round_trip:
  assumes "SerializeVersionedRootSignature True (Some desc) = (S_OK, Some blob, None)"
    and "desc_version desc \<noteq> VERSION_1_2" "length blob < 2 ^ 32"
  shows "\<exists>s. CloneFromVersionedDesc desc = Some s \<and> CreateRootSignatureFromBlob True blob = Inr (s, blob)"
proof -
  let ?v = "desc_version desc"
  obtain s where s: "CloneFromVersionedDesc desc = Some s" and blob: "blob = SerializeRootSignature s ?v"
    using assms(1) by (auto simp: SerializeVersionedRootSignature_def split: option.splits)
  then have fits: "44 + length (SerializeRts0 s ?v) < 2 ^ 32"
    using assms(3) by (simp add: SerializeRootSignature_length)
  then have "ExtractRts0Part blob = Inr (SerializeRts0 s ?v)"
    by (simp add: blob SerializeRootSignature_def ExtractRts0Part_container)
  moreover have "ParseRts0 (SerializeRts0 s ?v) = Inr s"
    by (rule ParseRts0_SerializeRts0 [OF s assms(2)]) (use fits in simp)
  ultimately show ?thesis
    using s by (simp add: CreateRootSignatureFromBlob_def ParseRootSignatureBlob_def)
qed

definition sample_range1 :: rs_range1 where
  "sample_range1 = \<lparr> rng_type = 1, rng_count = 4, rng_base_register = 2, rng_space = 0, rng_offset = 7, rng_flags = 2 \<rparr>"

definition sample_desc1 :: rs_desc1 where
  "sample_desc1 = \<lparr> NumParameters = 2,
     pParameters = Some [\<lparr> ParameterType = TYPE_DESCRIPTOR_TABLE, ShaderVisibility = 5, NumDescriptorRanges = 1,
                           pDescriptorRanges = Some [sample_range1], Constants = no_constants, Descriptor = no_descriptor1 \<rparr>,
                         \<lparr> ParameterType = TYPE_UAV, ShaderVisibility = 0, NumDescriptorRanges = 0, pDescriptorRanges = None,
                           Constants = no_constants, Descriptor = \<lparr> dsc_register = 3, dsc_space = 1, dsc_flags = 4 \<rparr> \<rparr>],
     NumStaticSamplers = 0, pStaticSamplers = None, desc_flags = 1 \<rparr>"

lemma sample_valid: "\<exists>s. CloneFromVersionedDesc (Desc_1_1 VERSION_1_1 sample_desc1) = Some s
    \<and> length (SerializeRootSignature s VERSION_1_1) < 2 ^ 32"
proof -
  have "CloneFromVersionedDesc (Desc_1_1 VERSION_1_1 sample_desc1) = Some (CloneFromDesc1 sample_desc1 VERSION_1_1)"
    by (simp add: CloneFromVersionedDesc_def ValidateDesc1_def desc_valid_def sample_desc1_def array_of_def Let_def
        table_valid_def sample_range1_def parameter_cost_def rs_types MAX_ROOT_COST_def RANGE_TYPE_SAMPLER_def no_constants_def
        no_descriptor1_def)
  moreover have "length (SerializeRts0 (CloneFromDesc1 sample_desc1 VERSION_1_1) VERSION_1_1) = 92"
    by code_simp
  ultimately show ?thesis by (simp add: SerializeRootSignature_length)
qed

theorem root_signature_round_trip_witness:
  "\<exists>blob s. SerializeVersionedRootSignature True (Some (Desc_1_1 VERSION_1_1 sample_desc1)) = (S_OK, Some blob, None)
     \<and> CloneFromVersionedDesc (Desc_1_1 VERSION_1_1 sample_desc1) = Some s \<and> CreateRootSignatureFromBlob True blob = Inr (s, blob)"
proof -
  let ?desc = "Desc_1_1 VERSION_1_1 sample_desc1"
  obtain s where s: "CloneFromVersionedDesc ?desc = Some s" "length (SerializeRootSignature s VERSION_1_1) < 2 ^ 32"
    using sample_valid by blast
  then have made: "SerializeVersionedRootSignature True (Some ?desc) = (S_OK, Some (SerializeRootSignature s VERSION_1_1), None)"
    by (simp add: SerializeVersionedRootSignature_def desc_version_def)
  have "desc_version ?desc \<noteq> VERSION_1_2" by (simp add: desc_version_def rs_versions)
  from root_signature_round_trip [OF made this s(2)] show ?thesis using made by blast
qed

text \<open>C30: no blob makes the root signature parser read outside it: creating a root signature from any bytes
  at all either rejects them or succeeds.\<close>
theorem root_signature_parser_safe:
  "CreateRootSignatureFromBlob has_device blob \<noteq> Inl Out_of_bounds"
proof -
  have "in_bounds (CreateRootSignatureFromBlob has_device blob)"
    unfolding CreateRootSignatureFromBlob_def ParseRootSignatureBlob_def by (intro in_bounds_intro)
  then show ?thesis by (simp add: in_bounds_def)
qed

text \<open>A description with one table of one range.\<close>

definition one_range_desc :: "u32 \<Rightarrow> u32 \<Rightarrow> rs_range1 \<Rightarrow> rs_desc1" where
  "one_range_desc flags vis r =
     \<lparr> NumParameters = 1,
       pParameters = Some [\<lparr> ParameterType = TYPE_DESCRIPTOR_TABLE, ShaderVisibility = vis, NumDescriptorRanges = 1,
                             pDescriptorRanges = Some [r], Constants = no_constants, Descriptor = no_descriptor1 \<rparr>],
       NumStaticSamplers = 0, pStaticSamplers = None, desc_flags = flags \<rparr>"

lemma one_range_clone:
  "CloneFromDesc1 (one_range_desc flags vis r) v = finish_storage (raw_storage v flags
     [(parameter0 TYPE_DESCRIPTOR_TABLE vis, parameter1 TYPE_DESCRIPTOR_TABLE vis, [range_down r], [r])] [])"
  by (simp add: CloneFromDesc1_def one_range_desc_def array_of_def clone_parameter1_def cloned_samplers_def)

text \<open>version 1.2 does not survive its own blob: the serializer writes the 24-byte ranges of version 1.1 for
  it, but the parser takes them for the 20-byte ranges of version 1.0. Of a table with one range it reads back
  a range without flags whose offset in the table is what the flags were.\<close>
theorem version_1_2_misread:
  "ParseRts0 (SerializeRts0 (CloneFromDesc1 (one_range_desc flags vis r) VERSION_1_2) VERSION_1_2)
     = Inr (CloneFromDesc1 (one_range_desc flags vis (r\<lparr> rng_offset := rng_flags r, rng_flags := 0 \<rparr>)) VERSION_1_2)"
proof -
  let ?p = "(parameter0 TYPE_DESCRIPTOR_TABLE vis, parameter1 TYPE_DESCRIPTOR_TABLE vis, [range_down r], [r])"
  define ws where "ws = [3, 1, 24, 0, 0, flags, TYPE_DESCRIPTOR_TABLE, vis, 36, 1, 44] @ range1_words r"
  have form: "list_all (stored_form VERSION_1_2) [?p]"
    using stored_form.table1 [of VERSION_1_2 vis "[r]"] by (simp add: rs_versions)
  have v: "VERSION_1_2 \<noteq> VERSION_1_0" by (simp add: rs_versions)
  have "serialized_words VERSION_1_2 flags [?p] [] = ws"
    by (simp add: serialized_words_def placed_words_def header_words_def place_parameter_def parameter_words_def v ws_def)
  then have ser: "SerializeRts0 (finish_storage (raw_storage VERSION_1_2 flags [?p] [])) VERSION_1_2 = words_bytes ws"
    using SerializeRts0_words [OF form, of VERSION_1_2 flags "[]"] by simp
  let ?rd = "read_u32 (words_bytes ws) :: nat \<Rightarrow> u32 rs_parse"
  have rd: "?rd (4 * k) = Inr (ws ! k)" if "k < 17" for k
    using that by (intro read_word) (simp_all add: ws_def)
  have header: "?rd 0 = Inr 3" "?rd 4 = Inr 1" "?rd 8 = Inr 24" "?rd 12 = Inr 0" "?rd 16 = Inr 0" "?rd 20 = Inr flags"
    "?rd 24 = Inr TYPE_DESCRIPTOR_TABLE" "?rd 28 = Inr vis" "?rd 32 = Inr 36" "?rd 36 = Inr 1" "?rd 40 = Inr 44"
    using rd [of 0] rd [of 1] rd [of 2] rd [of 3] rd [of 4] rd [of 5] rd [of 6] rd [of 7] rd [of 8] rd [of 9] rd [of 10]
    by (simp_all add: ws_def [symmetric]) (simp_all add: ws_def)
  have range: "?rd 44 = Inr (rng_type r)" "?rd 48 = Inr (rng_count r)" "?rd 52 = Inr (rng_base_register r)"
    "?rd 56 = Inr (rng_space r)" "?rd 60 = Inr (rng_flags r)"
    using rd [of 11] rd [of 12] rd [of 13] rd [of 14] rd [of 15] 
    by (simp_all add: ws_def [symmetric]) (simp_all add: ws_def range1_words_def)
  have length_ws: "length (words_bytes ws) = 68" by (simp add: ws_def)
  have ends: "checked_end 24 12 68 = Some 36" "checked_end 36 8 68 = Some 44" "checked_end 44 20 68 = Some 64"
    by (simp_all add: checked_end_Some)
  have "read_range (words_bytes ws) 3 44 = Inr (range_down (r\<lparr> rng_offset := rng_flags r, rng_flags := 0 \<rparr>),
      r\<lparr> rng_offset := rng_flags r, rng_flags := 0 \<rparr>)"
    by (simp add: read_range_def range range_down_def del: words_bytes_simps)
  then have "read_parameter (words_bytes ws) 3 24 = Inr (parameter0 TYPE_DESCRIPTOR_TABLE vis, parameter1 TYPE_DESCRIPTOR_TABLE vis,
      [range_down (r\<lparr> rng_offset := rng_flags r, rng_flags := 0 \<rparr>)], [r\<lparr> rng_offset := rng_flags r, rng_flags := 0 \<rparr>])"
    by (simp add: read_parameter_def header rts0_sizes range_size_def length_ws ends del: words_bytes_simps)
  then show ?thesis
    unfolding one_range_clone ser ParseRts0_def
    by (simp add: header rts0_sizes length_ws ends VersionFromValue_def del: words_bytes_simps)
qed

text \<open>A description with one block of root constants.\<close>

definition constants_desc :: "u32 \<Rightarrow> rs_desc0" where
  "constants_desc n =
     \<lparr> NumParameters = 1,
       pParameters = Some [\<lparr> ParameterType = TYPE_32BIT_CONSTANTS, ShaderVisibility = 0, NumDescriptorRanges = 0,
                             pDescriptorRanges = None, Constants = no_constants\<lparr> cst_num_values := n \<rparr>,
                             Descriptor = no_descriptor \<rparr>],
       NumStaticSamplers = 0, pStaticSamplers = None, desc_flags = 0 \<rparr>"

text \<open>the limit of 64 root words is computed in 32 bits: a block of \<open>n\<close> constants is accepted up to 63
  values as it should be, and also with \<open>0xFFFFFFFF\<close> values, whose cost of \<open>2\<^sup>3\<^sup>2\<close> wraps to 0.\<close>
theorem root_cost_wraps:
  "ValidateDesc0 (constants_desc n) \<longleftrightarrow> n \<le> 63 \<or> n = 0xFFFFFFFF"
proof -
  have "ValidateDesc0 (constants_desc n) \<longleftrightarrow> n + 1 \<le> 64"
    by (simp add: ValidateDesc0_def desc_valid_def constants_desc_def array_of_def table_valid_def parameter_cost_def
        MAX_ROOT_COST_def)
  also have "\<dots> \<longleftrightarrow> n \<le> 63 \<or> n = 0xFFFFFFFF"
  proof (cases "n = 0xFFFFFFFF")
    case False
    then have "unat n \<noteq> unat (0xFFFFFFFF :: u32)" by (metis word_unat_eq_iff)
    then have "unat n + 1 < 2 ^ 32" using unsigned_less [of n, where 'a = nat] by simp
    then have "unat (n + 1) = unat n + 1" by (simp add: unat_word_ariths)
    then show ?thesis using False by (simp add: word_le_nat_alt)
  qed simp
  finally show ?thesis .
qed

end
