(* ===== verification/Bitstream.thy ===== *)
theory Bitstream
  imports DxilContainer
begin

text \<open>
  The reader of LLVM bitstreams (\<open>BitReader\<close> and \<open>BitcodeParser\<close> of
  src/libs/DXILParser/DXILParser.cpp): fixed and variable width fields, abbreviations, records and
  nested blocks. A reader is a function of the bytes and the bit offset that returns a value and the
  new offset; false is a rejection. Offsets are natural numbers: the 64-bit offsets of the code do
  not wrap for an input of less than \<open>2\<^sup>6\<^sup>1\<close> bytes. \<open>reserve\<close> throws for more than \<open>max_size()\<close>
  elements; that an allocation of less may fail as well is left out.
\<close>

type_synonym 'a reader = "u8 list \<Rightarrow> nat \<Rightarrow> (unit, 'a \<times> nat) parse"

subsection \<open>The bit reader\<close>

definition get_bit :: "u8 list \<Rightarrow> nat \<Rightarrow> (unit, bool) parse" where
  "get_bit data i = bindP (read_u8 data (i div 8)) (\<lambda>b. Inr (bit b (i mod 8)))"

text \<open>\<open>value |= uint64_t(bit) << i\<close>, from bit \<open>i\<close> on.\<close>

fun or_bits :: "nat \<Rightarrow> bool list \<Rightarrow> u64 \<Rightarrow> u64" where
  "or_bits i [] v = v"
| "or_bits i (b # bs) v = or_bits (i + 1) bs (v OR push_bit i (of_bool b))"

definition readBits :: "nat \<Rightarrow> u64 reader" where
  "readBits width data off =
     require (\<not> width > 64) ()
      (case checked_end off width (8 * length data) of
         None \<Rightarrow> Inl (Rejected ())
       | Some e \<Rightarrow> bindP (parse_each (get_bit data) [off..<off + width]) (\<lambda>bs. Inr (or_bits 0 bs 0, e)))"

text \<open>The payload of a piece, whether another follows, and whether the payload shifted into its place is
  lost on the left.\<close>

definition payload_of :: "nat \<Rightarrow> u64 \<Rightarrow> u64" where
  "payload_of width piece = piece AND (push_bit (width - 1) 1 - 1)"

definition continues :: "nat \<Rightarrow> u64 \<Rightarrow> bool" where
  "continues width piece \<longleftrightarrow> piece AND push_bit (width - 1) 1 \<noteq> 0"

definition shift_overflows :: "nat \<Rightarrow> u64 \<Rightarrow> bool" where
  "shift_overflows shift payload \<longleftrightarrow> shift \<ge> 64 \<or> drop_bit shift (push_bit shift payload) \<noteq> payload"

text \<open>The loop of \<open>readVbr\<close>. The test on the width stands in front of the loop in the code; here every
  round repeats it, which changes nothing.\<close>

function vbr_loop :: "nat \<Rightarrow> u64 \<Rightarrow> nat \<Rightarrow> u64 reader" where
  "vbr_loop width v shift data off =
     require (\<not> (width < 2 \<or> width > 32)) ()
      (bindP (readBits width data off) (\<lambda>(piece, off).
         require (\<not> shift_overflows shift (payload_of width piece)) ()
          (let v = v OR push_bit shift (payload_of width piece) in
           if \<not> continues width piece then Inr (v, off)
           else vbr_loop width v (shift + (width - 1)) data off)))"
  by pat_completeness auto
termination by (relation "measure (\<lambda>(width, v, shift, data, off). 64 - shift)")
  (auto simp: shift_overflows_def)

declare vbr_loop.simps [simp del]

definition readVbr :: "nat \<Rightarrow> u64 reader" where
  "readVbr width = vbr_loop width 0 0"

definition align32 :: "unit reader" where
  "align32 data off =
     (let aligned = (off + 31) div 32 * 32 in require (\<not> aligned > 8 * length data) () (Inr ((), aligned)))"

definition skipBits :: "nat \<Rightarrow> unit reader" where
  "skipBits bits data off =
     (case checked_end off bits (8 * length data) of None \<Rightarrow> Inl (Rejected ()) | Some e \<Rightarrow> Inr ((), e))"

definition seek :: "nat \<Rightarrow> unit reader" where
  "seek bit_offset data off = require (\<not> bit_offset > 8 * length data) () (Inr ((), bit_offset))"

subsection \<open>Abbreviations and records\<close>

record abbrev_operand =
  op_literal :: bool
  op_value :: u64
  op_encoding :: u32

type_synonym abbrev = "abbrev_operand list"

text \<open>\<open>max_size()\<close> of a vector of 24-byte operands.\<close>

definition abbrev_max_size :: nat where
  "abbrev_max_size = (2 ^ 63 - 1) div 24"

definition read_abbrev_operand :: "abbrev_operand reader" where
  "read_abbrev_operand data off =
     bindP (readBits 1 data off) (\<lambda>(is_literal, off).
       if is_literal \<noteq> 0
       then bindP (readVbr 8 data off) (\<lambda>(v, off). Inr (\<lparr> op_literal = True, op_value = v, op_encoding = 0 \<rparr>, off))
       else bindP (readBits 3 data off) (\<lambda>(encoding, off).
         require (\<not> (encoding < 1 \<or> encoding > 5)) ()
          (if encoding = 1 \<or> encoding = 2
           then bindP (readVbr 5 data off) (\<lambda>(v, off). Inr (\<lparr> op_literal = False, op_value = v, op_encoding = ucast encoding \<rparr>, off))
           else Inr (\<lparr> op_literal = False, op_value = 0, op_encoding = ucast encoding \<rparr>, off))))"

fun read_operands :: "nat \<Rightarrow> abbrev reader" where
  "read_operands 0 data off = Inr ([], off)"
| "read_operands (Suc n) data off =
     bindP (read_abbrev_operand data off) (\<lambda>(operand, off).
     bindP (read_operands n data off) (\<lambda>(operands, off). Inr (operand # operands, off)))"

definition readAbbrev :: "abbrev reader" where
  "readAbbrev data off =
     bindP (readVbr 5 data off) (\<lambda>(operand_count, off).
       if unat operand_count > abbrev_max_size then Inl Length_error
       else read_operands (unat operand_count) data off)"

text \<open>The values collected (at most 16 of them) and the count of operands, a 32-bit counter.\<close>

definition pushRecordValue :: "u64 \<Rightarrow> u64 list \<times> u32 \<Rightarrow> u64 list \<times> u32" where
  "pushRecordValue v s = (case s of (values, operand_count) \<Rightarrow>
     (if length values < 16 then values @ [v] else values, operand_count + 1))"

definition readEncodedValue :: "abbrev_operand \<Rightarrow> u64 reader" where
  "readEncodedValue operand data off =
     (if op_literal operand then Inr (op_value operand, off)
      else if op_encoding operand = 1 then readBits (unat (ucast (op_value operand) :: u32)) data off
      else if op_encoding operand = 2 then readVbr (unat (ucast (op_value operand) :: u32)) data off
      else if op_encoding operand = 4 then readBits 6 data off
      else Inl (Rejected ()))"

text \<open>The items of an array: \<open>length\<close> times the element operand.\<close>

fun read_items :: "nat \<Rightarrow> abbrev_operand \<Rightarrow> u64 list \<times> u32 \<Rightarrow> (u64 list \<times> u32) reader" where
  "read_items 0 operand s data off = Inr (s, off)"
| "read_items (Suc n) operand s data off =
     bindP (readEncodedValue operand data off) (\<lambda>(v, off). read_items n operand (pushRecordValue v s) data off)"

text \<open>\<open>length > UINT64_MAX / 8\<close> is refused, so that \<open>length * 8\<close> does not wrap.\<close>

definition read_blob :: "unit reader" where
  "read_blob data off =
     bindP (readVbr 6 data off) (\<lambda>(len, off).
       require (\<not> unat len > (2 ^ 64 - 1) div 8) ()
        (bindP (align32 data off) (\<lambda>(_, off).
         bindP (skipBits (unat len * 8) data off) (\<lambda>(_, off). align32 data off))))"

fun read_abbreviated :: "abbrev \<Rightarrow> u64 list \<times> u32 \<Rightarrow> (u64 list \<times> u32) reader" where
  "read_abbreviated [] s data off = Inr (s, off)"
| "read_abbreviated (operand # operands) s data off =
     (if op_literal operand then read_abbreviated operands (pushRecordValue (op_value operand) s) data off
      else if op_encoding operand = 3
      then (case operands of
              [] \<Rightarrow> Inl (Rejected ())
            | element # rest \<Rightarrow>
                bindP (readVbr 6 data off) (\<lambda>(len, off).
                bindP (read_items (unat len) element s data off) (\<lambda>(s, off). read_abbreviated rest s data off)))
      else if op_encoding operand = 5
      then bindP (read_blob data off) (\<lambda>(_, off). read_abbreviated operands (fst s, snd s + 1) data off)
      else bindP (readEncodedValue operand data off) (\<lambda>(v, off). read_abbreviated operands (pushRecordValue v s) data off))"

definition readAbbreviatedRecord :: "abbrev \<Rightarrow> (u64 list \<times> u32) reader" where
  "readAbbreviatedRecord abbrev = read_abbreviated abbrev ([], 0)"

subsection \<open>Blocks\<close>

record bitcode_record =
  rec_block_id :: u32
  rec_code :: u32
  rec_operand_count :: u32
  rec_abbreviated :: bool

record bitcode_block =
  blk_id :: u32
  blk_abbrev_width :: u32
  blk_depth :: nat
  blk_start :: nat
  blk_end :: nat
  blk_records :: u32

text \<open>The state of the parser beside its offset: the blocks and records found, the abbreviations of
  BLOCKINFO.\<close>

record bitcode_state =
  bs_blocks :: "bitcode_block list"
  bs_records :: "bitcode_record list"
  bs_block_info :: "(u32 \<times> abbrev list) list"

definition EndBlock :: u64 where "EndBlock = 0"
definition EnterSubblock :: u64 where "EnterSubblock = 1"
definition DefineAbbrev :: u64 where "DefineAbbrev = 2"
definition UnabbrevRecord :: u64 where "UnabbrevRecord = 3"
definition FirstApplicationAbbrev :: u64 where "FirstApplicationAbbrev = 4"
definition BlockInfoBlockId :: u32 where "BlockInfoBlockId = 0"
definition BlockInfoSetBid :: u32 where "BlockInfoSetBid = 1"
definition kBitcodeMagicValue :: u64 where "kBitcodeMagicValue = 0xdec04342"

definition findBlockInfoAbbrevs :: "u32 \<Rightarrow> bitcode_state \<Rightarrow> abbrev list" where
  "findBlockInfoAbbrevs block_id st = (case map_of (bs_block_info st) block_id of None \<Rightarrow> [] | Some abbrevs \<Rightarrow> abbrevs)"

fun add_to_block_info :: "u32 \<Rightarrow> abbrev \<Rightarrow> (u32 \<times> abbrev list) list \<Rightarrow> (u32 \<times> abbrev list) list" where
  "add_to_block_info block_id abbrev [] = [(block_id, [abbrev])]"
| "add_to_block_info block_id abbrev ((k, abbrevs) # entries) =
     (if k = block_id then (k, abbrevs @ [abbrev]) # entries
      else (k, abbrevs) # add_to_block_info block_id abbrev entries)"

definition addBlockInfoAbbrev :: "u32 \<Rightarrow> abbrev \<Rightarrow> bitcode_state \<Rightarrow> bitcode_state" where
  "addBlockInfoAbbrev block_id abbrev st = st\<lparr> bs_block_info := add_to_block_info block_id abbrev (bs_block_info st) \<rparr>"

text \<open>What one round of the loop of \<open>parseBlock\<close> reads: the end of the block, the head of a block inside it
  (id, abbreviation width and the bit it ends at), an abbreviation, or a record with its first values.\<close>

datatype item =
    End_block
  | Sub_block u32 u32 nat
  | Abbreviation abbrev
  | Record bitcode_record "u64 list"

definition read_end_block :: "nat \<Rightarrow> item reader" where
  "read_end_block end_bit data off =
     bindP (align32 data off) (\<lambda>(_, off). require (\<not> off > end_bit) () (Inr (End_block, off)))"

definition read_sub_block :: "nat \<Rightarrow> item reader" where
  "read_sub_block end_bit data off =
     bindP (readVbr 8 data off) (\<lambda>(child_block_id, off).
     bindP (readVbr 4 data off) (\<lambda>(child_abbrev_width, off).
     bindP (align32 data off) (\<lambda>(_, off).
     bindP (readBits 32 data off) (\<lambda>(child_block_words, off).
       (case checked_end off (unat child_block_words * 32) end_bit of
          None \<Rightarrow> Inl (Rejected ())
        | Some child_end \<Rightarrow> Inr (Sub_block (ucast child_block_id) (ucast child_abbrev_width) child_end, off))))))"

text \<open>The operands of an unabbreviated record: all are read, the first 15 are kept behind the code.\<close>

fun read_values :: "nat \<Rightarrow> u64 list \<Rightarrow> u64 list reader" where
  "read_values 0 values data off = Inr (values, off)"
| "read_values (Suc n) values data off =
     bindP (readVbr 6 data off) (\<lambda>(v, off).
       read_values n (if length values < 16 then values @ [v] else values) data off)"

definition read_unabbreviated :: "u32 \<Rightarrow> item reader" where
  "read_unabbreviated block_id data off =
     bindP (readVbr 6 data off) (\<lambda>(code, off).
     bindP (readVbr 6 data off) (\<lambda>(operand_count, off).
     bindP (read_values (unat operand_count) [code] data off) (\<lambda>(values, off).
       Inr (Record \<lparr> rec_block_id = block_id, rec_code = ucast code, rec_operand_count = ucast operand_count,
                    rec_abbreviated = False \<rparr> values, off))))"

definition read_abbreviated_item :: "u32 \<Rightarrow> abbrev list \<Rightarrow> u64 \<Rightarrow> item reader" where
  "read_abbreviated_item block_id abbrevs abbrev_id data off =
     (let app_abbrev = unat (abbrev_id - FirstApplicationAbbrev) in
      require (\<not> app_abbrev \<ge> length abbrevs) ()
       (bindP (readAbbreviatedRecord (abbrevs ! app_abbrev) data off) (\<lambda>((values, operand_count), off).
         require (values \<noteq> []) ()
          (Inr (Record \<lparr> rec_block_id = block_id, rec_code = ucast (values ! 0),
                        rec_operand_count = (if operand_count > 0 then operand_count - 1 else 0),
                        rec_abbreviated = True \<rparr> values, off)))))"

definition read_item :: "u32 \<Rightarrow> nat \<Rightarrow> nat \<Rightarrow> abbrev list \<Rightarrow> item reader" where
  "read_item block_id abbrev_width end_bit abbrevs data off =
     bindP (readBits abbrev_width data off) (\<lambda>(abbrev_id, off).
       if abbrev_id = EndBlock then read_end_block end_bit data off
       else if abbrev_id = EnterSubblock then read_sub_block end_bit data off
       else if abbrev_id = DefineAbbrev then bindP (readAbbrev data off) (\<lambda>(abbrev, off). Inr (Abbreviation abbrev, off))
       else if abbrev_id = UnabbrevRecord then read_unabbreviated block_id data off
       else read_abbreviated_item block_id abbrevs abbrev_id data off)"

text \<open>The head of \<open>parseBlock\<close>: the new block, at index \<open>block_index\<close>.\<close>

definition enter_block :: "u32 \<Rightarrow> u32 \<Rightarrow> nat \<Rightarrow> nat \<Rightarrow> bitcode_state \<Rightarrow> bitcode_state" where
  "enter_block block_id abbrev_width depth off st =
     st\<lparr> bs_blocks := bs_blocks st @ [\<lparr> blk_id = block_id, blk_abbrev_width = abbrev_width, blk_depth = depth,
           blk_start = off, blk_end = 0, blk_records = 0 \<rparr>] \<rparr>"

definition leave_block :: "nat \<Rightarrow> nat \<Rightarrow> bitcode_state \<Rightarrow> bitcode_state" where
  "leave_block block_index off st =
     st\<lparr> bs_blocks := (bs_blocks st)[block_index := (bs_blocks st ! block_index)\<lparr> blk_end := off \<rparr>] \<rparr>"

definition add_record :: "nat \<Rightarrow> bitcode_record \<Rightarrow> bitcode_state \<Rightarrow> bitcode_state" where
  "add_record block_index r st =
     st\<lparr> bs_blocks := (bs_blocks st)[block_index := (bs_blocks st ! block_index)\<lparr> blk_records := blk_records (bs_blocks st ! block_index) + 1 \<rparr>],
        bs_records := bs_records st @ [r] \<rparr>"

definition block_refused :: "nat \<Rightarrow> u32 \<Rightarrow> bool" where
  "block_refused depth abbrev_width \<longleftrightarrow> depth > 64 \<or> abbrev_width = 0 \<or> abbrev_width > 32"

subsection \<open>Every read moves forward, and not past the end\<close>

lemma readBits_off: "readBits width data off = Inr (v, off') \<Longrightarrow> off' = off + width \<and> off' \<le> 8 * length data"
  by (auto simp: readBits_def require_Inr bindP_Inr checked_end_Some split: option.splits)

lemma vbr_loop_Inr:
  "vbr_loop width v shift data off = Inr (v', off') \<longleftrightarrow>
     2 \<le> width \<and> width \<le> 32 \<and>
     (\<exists>piece off1. readBits width data off = Inr (piece, off1) \<and> \<not> shift_overflows shift (payload_of width piece) \<and>
        (if \<not> continues width piece then v' = v OR push_bit shift (payload_of width piece) \<and> off' = off1
         else vbr_loop width (v OR push_bit shift (payload_of width piece)) (shift + (width - 1)) data off1 = Inr (v', off')))"
  by (subst vbr_loop.simps) (auto simp: require_Inr bindP_Inr Let_def split: if_splits)

lemma vbr_loop_off:
  "vbr_loop width v shift data off = Inr (v', off') \<Longrightarrow> off + 2 \<le> off' \<and> off' \<le> 8 * length data"
proof (induction "64 - shift" arbitrary: shift v off rule: less_induct)
  case less
  from iffD1 [OF vbr_loop_Inr less.prems] obtain piece off1 where w: "2 \<le> width"
    and bits: "readBits width data off = Inr (piece, off1)" and fits: "\<not> shift_overflows shift (payload_of width piece)"
    and rest: "if \<not> continues width piece then v' = v OR push_bit shift (payload_of width piece) \<and> off' = off1
         else vbr_loop width (v OR push_bit shift (payload_of width piece)) (shift + (width - 1)) data off1 = Inr (v', off')"
    by blast
  have off1: "off1 = off + width" "off1 \<le> 8 * length data" using readBits_off [OF bits] by simp_all
  show ?case
  proof (cases "continues width piece")
    case True
    with rest have rest: "vbr_loop width (v OR push_bit shift (payload_of width piece)) (shift + (width - 1)) data off1 = Inr (v', off')"
      by simp
    have "64 - (shift + (width - 1)) < 64 - shift" using fits w by (auto simp: shift_overflows_def)
    from less.hyps [OF this rest] off1 show ?thesis by simp
  next
    case False
    with rest off1 w show ?thesis by simp
  qed
qed

lemma readVbr_off: "readVbr width data off = Inr (v, off') \<Longrightarrow> off + 2 \<le> off' \<and> off' \<le> 8 * length data"
  unfolding readVbr_def by (rule vbr_loop_off)

lemma align32_off: "align32 data off = Inr (u, off') \<Longrightarrow> off \<le> off' \<and> off' \<le> 8 * length data"
  by (auto simp: align32_def Let_def require_Inr)

lemma skipBits_off: "skipBits n data off = Inr (u, off') \<Longrightarrow> off \<le> off' \<and> off' \<le> 8 * length data"
  by (auto simp: skipBits_def checked_end_Some split: option.splits)

lemma read_abbrev_operand_off:
  "read_abbrev_operand data off = Inr (operand, off') \<Longrightarrow> off < off' \<and> off' \<le> 8 * length data"
  by (fastforce simp: read_abbrev_operand_def bindP_Inr require_Inr dest: readBits_off readVbr_off split: if_splits)

lemma read_operands_off:
  "off \<le> 8 * length data \<Longrightarrow> read_operands n data off = Inr (operands, off') \<Longrightarrow> off + n \<le> off' \<and> off' \<le> 8 * length data"
proof (induction n arbitrary: off operands)
  case (Suc n)
  from Suc.prems(2) obtain operand off1 operands1 where
    "read_abbrev_operand data off = Inr (operand, off1)" "read_operands n data off1 = Inr (operands1, off')"
    by (auto simp: bindP_Inr)
  with Suc.IH [of off1 operands1] show ?case by (auto dest: read_abbrev_operand_off)
qed simp

lemma readAbbrev_off: "readAbbrev data off = Inr (a, off') \<Longrightarrow> off < off' \<and> off' \<le> 8 * length data"
  by (fastforce simp: readAbbrev_def bindP_Inr dest: readVbr_off read_operands_off [rotated] split: if_splits)

lemma readEncodedValue_off:
  "off \<le> 8 * length data \<Longrightarrow> readEncodedValue operand data off = Inr (v, off') \<Longrightarrow> off \<le> off' \<and> off' \<le> 8 * length data"
  by (fastforce simp: readEncodedValue_def dest: readBits_off readVbr_off split: if_splits)

lemma read_items_off:
  "off \<le> 8 * length data \<Longrightarrow> read_items n operand s data off = Inr (s', off') \<Longrightarrow> off \<le> off' \<and> off' \<le> 8 * length data"
proof (induction n arbitrary: off s)
  case (Suc n)
  from Suc.prems(2) obtain v off1 where v: "readEncodedValue operand data off = Inr (v, off1)"
    and rest: "read_items n operand (pushRecordValue v s) data off1 = Inr (s', off')"
    by (auto simp: bindP_Inr)
  have "off \<le> off1 \<and> off1 \<le> 8 * length data" by (rule readEncodedValue_off [OF Suc.prems(1) v])
  with Suc.IH [OF _ rest] show ?case by linarith
qed simp

lemma read_blob_off: "read_blob data off = Inr (u, off') \<Longrightarrow> off \<le> off' \<and> off' \<le> 8 * length data"
  by (fastforce simp: read_blob_def bindP_Inr require_Inr dest: readVbr_off align32_off skipBits_off)

lemma read_abbreviated_off:
  "off \<le> 8 * length data \<Longrightarrow> read_abbreviated a s data off = Inr (s', off') \<Longrightarrow> off \<le> off' \<and> off' \<le> 8 * length data"
proof (induction a s data off rule: read_abbreviated.induct)
  case (2 operand operands s data off)
  show ?case
  proof (cases "op_literal operand")
    case True
    with 2 show ?thesis by simp
  next
    case nl: False
    consider "op_encoding operand = 3" | "op_encoding operand = 5" | "op_encoding operand \<noteq> 3" "op_encoding operand \<noteq> 5" by blast
    then show ?thesis
    proof cases
      case 1
      with nl 2 obtain element rest where ops: "operands = element # rest" by (cases operands) simp_all
      then obtain len off1 s2 off2 where len: "readVbr 6 data off = Inr (len, off1)"
        and items: "read_items (unat len) element s data off1 = Inr (s2, off2)" and rest: "read_abbreviated rest s2 data off2 = Inr (s', off')"
        using 1 nl "2.prems"(2) by (auto simp: bindP_Inr)
      have one: "off + 2 \<le> off1 \<and> off1 \<le> 8 * length data" by (rule readVbr_off [OF len])
      then have two: "off1 \<le> off2 \<and> off2 \<le> 8 * length data" using read_items_off [OF _ items] by blast
      have "off2 \<le> off' \<and> off' \<le> 8 * length data"
        using "2.IH"(2) [OF nl 1 ops len _ items _ _ rest] two by simp
      with one two show ?thesis by linarith
    next
      case 2
      with nl "2.prems"(2) obtain u off1 where blob: "read_blob data off = Inr (u, off1)"
        and rest: "read_abbreviated operands (fst s, snd s + 1) data off1 = Inr (s', off')"
        by (auto simp: bindP_Inr)
      have one: "off \<le> off1 \<and> off1 \<le> 8 * length data" by (rule read_blob_off [OF blob])
      have "off1 \<le> off' \<and> off' \<le> 8 * length data"
        using "2.IH"(3) [OF nl _ 2 blob _ _ rest] one 2 by simp
      with one show ?thesis by linarith
    next
      case 3
      with nl "2.prems"(2) obtain v off1 where enc: "readEncodedValue operand data off = Inr (v, off1)"
        and rest: "read_abbreviated operands (pushRecordValue v s) data off1 = Inr (s', off')"
        by (auto simp: bindP_Inr)
      have one: "off \<le> off1 \<and> off1 \<le> 8 * length data" by (rule readEncodedValue_off [OF "2.prems"(1) enc])
      have "off1 \<le> off' \<and> off' \<le> 8 * length data"
        using "2.IH"(4) [OF nl 3 enc _ _ rest] one by simp
      with one show ?thesis by linarith
    qed
  qed
qed simp

lemma read_values_off:
  "off \<le> 8 * length data \<Longrightarrow> read_values n vs data off = Inr (vs', off') \<Longrightarrow> off + n \<le> off' \<and> off' \<le> 8 * length data"
proof (induction n arbitrary: off vs)
  case (Suc n)
  from Suc.prems(2) obtain v off1 where v: "readVbr 6 data off = Inr (v, off1)"
    and rest: "read_values n (if length vs < 16 then vs @ [v] else vs) data off1 = Inr (vs', off')"
    by (auto simp: bindP_Inr)
  have "off + 2 \<le> off1 \<and> off1 \<le> 8 * length data" by (rule readVbr_off [OF v])
  with Suc.IH [OF _ rest] show ?case by linarith
qed simp

lemma read_sub_block_off:
  assumes "read_sub_block end_bit data off = Inr (it, off')"
  shows "\<exists>i w child_end. it = Sub_block i w child_end \<and> off < off' \<and> off' \<le> 8 * length data \<and> off' \<le> child_end \<and> child_end \<le> end_bit"
proof -
  from assms obtain i off1 w off2 u off3 words where
    "readVbr 8 data off = Inr (i, off1)" "readVbr 4 data off1 = Inr (w, off2)" "align32 data off2 = Inr (u, off3)"
    "readBits 32 data off3 = Inr (words, off')" "off' + unat words * 32 \<le> end_bit"
    "it = Sub_block (ucast i) (ucast w) (off' + unat words * 32)"
    by (auto simp: read_sub_block_def bindP_Inr checked_end_Some split: option.splits)
  then show ?thesis
    using readVbr_off [of 8 data off i off1] readVbr_off [of 4 data off1 w off2] align32_off [of data off2 u off3]
      readBits_off [of 32 data off3 words off'] by auto
qed

lemma read_unabbreviated_off:
  assumes "read_unabbreviated block_id data off = Inr (it, off')"
  shows "\<exists>r values. it = Record r values \<and> off < off' \<and> off' \<le> 8 * length data"
proof -
  from assms obtain code off1 n off2 vals r where
    "readVbr 6 data off = Inr (code, off1)" "readVbr 6 data off1 = Inr (n, off2)"
    "read_values (unat n) [code] data off2 = Inr (vals, off')" "it = Record r vals"
    by (auto simp: read_unabbreviated_def bindP_Inr)
  then show ?thesis
    using readVbr_off [of 6 data off code off1] readVbr_off [of 6 data off1 n off2]
      read_values_off [of off2 data "unat n" "[code]" vals off'] by auto
qed

lemma read_abbreviated_item_off:
  assumes "off \<le> 8 * length data" "read_abbreviated_item block_id abbrevs abbrev_id data off = Inr (it, off')"
  shows "\<exists>r values. it = Record r values \<and> off \<le> off' \<and> off' \<le> 8 * length data"
  using assms by (auto simp: read_abbreviated_item_def Let_def require_Inr bindP_Inr readAbbreviatedRecord_def
      dest: read_abbreviated_off)

text \<open>A round of the loop that does not end the block moves forward, and a block inside lies between the
  offset behind its head and the end of the block around it.\<close>

lemma read_item_off:
  assumes "read_item block_id width end_bit abbrevs data off = Inr (it, off')"
  shows "off \<le> off' \<and> off' \<le> 8 * length data \<and> (it = End_block \<longrightarrow> off' \<le> end_bit) \<and> (it \<noteq> End_block \<longrightarrow> off < off') \<and>
     (\<forall>i w child_end. it = Sub_block i w child_end \<longrightarrow> off' \<le> child_end \<and> child_end \<le> end_bit)"
proof -
  from assms obtain abbrev_id off1 where bits: "readBits width data off = Inr (abbrev_id, off1)"
    and rest: "(if abbrev_id = EndBlock then read_end_block end_bit data off1
       else if abbrev_id = EnterSubblock then read_sub_block end_bit data off1
       else if abbrev_id = DefineAbbrev then bindP (readAbbrev data off1) (\<lambda>(abbrev, off). Inr (Abbreviation abbrev, off))
       else if abbrev_id = UnabbrevRecord then read_unabbreviated block_id data off1
       else read_abbreviated_item block_id abbrevs abbrev_id data off1) = Inr (it, off')"
    by (auto simp: read_item_def bindP_Inr)
  have off1: "off1 = off + width" "off1 \<le> 8 * length data" using readBits_off [OF bits] by simp_all
  have wide: "0 < width" if "abbrev_id \<noteq> EndBlock"
  proof (rule ccontr)
    assume "\<not> 0 < width"
    then show False using bits that by (simp add: readBits_def EndBlock_def require_def split: option.splits)
  qed
  consider (finish) "abbrev_id = EndBlock" "read_end_block end_bit data off1 = Inr (it, off')"
    | (sub) "abbrev_id \<noteq> EndBlock" "read_sub_block end_bit data off1 = Inr (it, off')"
    | (abbrev) a where "abbrev_id \<noteq> EndBlock" "readAbbrev data off1 = Inr (a, off')" "it = Abbreviation a"
    | (unabbreviated) "abbrev_id \<noteq> EndBlock" "read_unabbreviated block_id data off1 = Inr (it, off')"
    | (abbreviated) "abbrev_id \<noteq> EndBlock" "read_abbreviated_item block_id abbrevs abbrev_id data off1 = Inr (it, off')"
    using rest by (auto simp: bindP_Inr split: if_splits)
  then show ?thesis
  proof cases
    case finish
    then show ?thesis using off1 by (auto simp: read_end_block_def bindP_Inr require_Inr dest: align32_off)
  next
    case sub
    then show ?thesis using off1 read_sub_block_off [OF sub(2)] by auto
  next
    case abbrev
    then show ?thesis using off1 readAbbrev_off [OF abbrev(2)] by auto
  next
    case unabbreviated
    then show ?thesis using off1 read_unabbreviated_off [OF unabbreviated(2)] by auto
  next
    case abbreviated
    then show ?thesis using off1 wide read_abbreviated_item_off [OF off1(2) abbreviated(2)] by auto
  qed
qed

subsection \<open>The loop of \<open>parseBlock\<close>\<close>

text \<open>The loop runs until the block ends; blocks inside are parsed by the loop of their own, after which
  the reader is placed at their end whatever they left unread.\<close>

function block_loop :: "u32 \<Rightarrow> u32 \<Rightarrow> nat \<Rightarrow> nat \<Rightarrow> nat \<Rightarrow> abbrev list \<Rightarrow> u32 \<Rightarrow> bitcode_state \<Rightarrow> bitcode_state reader" where
  "block_loop block_id abbrev_width depth end_bit block_index abbrevs set_bid st data off =
     (if off < end_bit
      then bindP (read_item block_id (unat abbrev_width) end_bit abbrevs data off) (\<lambda>(it, off1).
        (case it of
           End_block \<Rightarrow> Inr (leave_block block_index off1 st, off1)
         | Sub_block child_id child_width child_end \<Rightarrow>
             require (\<not> block_refused (depth + 1) child_width) ()
              (bindP (block_loop child_id child_width (depth + 1) child_end (length (bs_blocks st)) (findBlockInfoAbbrevs child_id st)
                        0 (enter_block child_id child_width (depth + 1) off1 st) data off1) (\<lambda>(st, off2).
                 require (\<not> off2 > child_end) ()
                  (bindP (seek child_end data off2) (\<lambda>_.
                     block_loop block_id abbrev_width depth end_bit block_index abbrevs set_bid st data child_end))))
         | Abbreviation abbrev \<Rightarrow>
             if block_id = BlockInfoBlockId \<and> set_bid \<noteq> 0
             then block_loop block_id abbrev_width depth end_bit block_index abbrevs set_bid
                    (addBlockInfoAbbrev set_bid abbrev st) data off1
             else block_loop block_id abbrev_width depth end_bit block_index (abbrevs @ [abbrev]) set_bid st data off1
         | Record r values \<Rightarrow>
             let set_bid = (if block_id = BlockInfoBlockId \<and> rec_code r = BlockInfoSetBid \<and> length values \<ge> 2
                            then ucast (values ! 1) else set_bid)
             in block_loop block_id abbrev_width depth end_bit block_index abbrevs set_bid (add_record block_index r st) data off1))
      else require (off = end_bit) () (Inr (leave_block block_index end_bit st, off)))"
  by pat_completeness auto
termination
  by (relation "measure (\<lambda>(block_id, abbrev_width, depth, end_bit, block_index, abbrevs, set_bid, st, data, off). end_bit - off)")
     (fastforce dest: read_item_off)+

declare block_loop.simps [simp del]

definition parseBlock :: "u32 \<Rightarrow> u32 \<Rightarrow> nat \<Rightarrow> nat \<Rightarrow> bitcode_state \<Rightarrow> bitcode_state reader" where
  "parseBlock block_id abbrev_width depth end_bit st data off =
     require (\<not> block_refused depth abbrev_width) ()
      (block_loop block_id abbrev_width depth end_bit (length (bs_blocks st)) (findBlockInfoAbbrevs block_id st) 0
         (enter_block block_id abbrev_width depth off st) data off)"

text \<open>\<open>BitcodeParser::parse\<close>: the magic number, then the outermost block over the whole input.\<close>

definition parse_bitstream :: "u8 list \<Rightarrow> (unit, bitcode_state) parse" where
  "parse_bitstream data =
     bindP (readBits 32 data 0) (\<lambda>(magic, off).
       require (magic = kBitcodeMagicValue) ()
        (bindP (parseBlock (- 1) 2 0 (8 * length data) \<lparr> bs_blocks = [], bs_records = [], bs_block_info = [] \<rparr> data off)
          (\<lambda>(st, _). Inr st)))"

text \<open>\<open>ParseBitcode\<close>: the bitstream inside its wrapper; false of the parser is a status of its caller. The
  fields of the wrapper are kept with the state.\<close>

definition reject_with :: "'s \<Rightarrow> ('t, 'a) parse \<Rightarrow> ('s, 'a) parse" where
  "reject_with s p =
     (case p of Inr a \<Rightarrow> Inr a | Inl (Rejected _) \<Rightarrow> Inl (Rejected s) | Inl Out_of_bounds \<Rightarrow> Inl Out_of_bounds
      | Inl Length_error \<Rightarrow> Inl Length_error)"

type_synonym bitcode_info = "bitcode_state \<times> (u32 \<times> u32 \<times> u32 \<times> u32) option"

definition ParseBitcode :: "u8 list \<Rightarrow> bitcode_info dxil_parse" where
  "ParseBitcode data =
     bindP (ExtractBitstream data) (\<lambda>(bitstream, wrapper).
     bindP (reject_with InvalidBitcode (parse_bitstream bitstream)) (\<lambda>st. Inr (st, wrapper)))"

lemma in_bounds_reject_with [in_bounds_intro]: "in_bounds p \<Longrightarrow> in_bounds (reject_with s p)"
  by (auto simp: reject_with_def in_bounds_def split: sum.split failure.split)

end
