(* ===== verification/BitstreamBlocks.thy ===== *)
theory BitstreamBlocks
  imports Bitstream
begin

text \<open>
  What the bitstream reader guarantees: it never reads outside its input, its fields are the bits of
  the input, variable width integers are read back as they are encoded, and the blocks it finds are
  properly nested and no more than the bits of the input allow.
\<close>

subsection \<open>Fields are the bits of the input\<close>

definition data_bit :: "u8 list \<Rightarrow> nat \<Rightarrow> bool" where
  "data_bit data i = bit (data ! (i div 8)) (i mod 8)"

lemma or_bits_bit:
  "i + length bs \<le> 64 \<Longrightarrow> bit (or_bits i bs v) n \<longleftrightarrow> bit v n \<or> (i \<le> n \<and> n < i + length bs \<and> bs ! (n - i))"
proof (induction bs arbitrary: i v)
  case (Cons b bs)
  have head: "bit (v OR push_bit i (of_bool b)) n \<longleftrightarrow> bit v n \<or> (n = i \<and> b)"
    using Cons.prems by (auto simp: bit_simps)
  have "bit (or_bits i (b # bs) v) n
      \<longleftrightarrow> (bit v n \<or> (n = i \<and> b)) \<or> (i + 1 \<le> n \<and> n < i + 1 + length bs \<and> bs ! (n - (i + 1)))"
    using Cons.IH [of "i + 1" "v OR push_bit i (of_bool b)"] Cons.prems head by simp
  also have "\<dots> \<longleftrightarrow> bit v n \<or> (i \<le> n \<and> n < i + length (b # bs) \<and> (b # bs) ! (n - i))"
    by (cases "n = i") (auto simp: nth_Cons' le_Suc_eq)
  finally show ?case .
qed auto

lemma get_bit_ok: "i < 8 * length data \<Longrightarrow> get_bit data i = Inr (data_bit data i)"
  by (simp add: get_bit_def read_u8_def data_bit_def less_mult_imp_div_less mult.commute)

lemma readBits_ok:
  assumes "width \<le> 64" "off + width \<le> 8 * length data"
  shows "readBits width data off = Inr (or_bits 0 (map (\<lambda>i. data_bit data (off + i)) [0..<width]) 0, off + width)"
proof -
  have "parse_each (get_bit data) [off..<off + width] = Inr (map (data_bit data) [off..<off + width])"
    by (rule parse_each_map) (use assms in \<open>simp add: get_bit_ok\<close>)
  moreover have "map (data_bit data) [off..<off + width] = map (\<lambda>i. data_bit data (off + i)) [0..<width]"
    by (rule nth_equalityI) simp_all
  moreover have "checked_end off width (8 * length data) = Some (off + width)"
    using assms by (simp add: checked_end_Some)
  ultimately show ?thesis using assms(1) by (simp add: readBits_def)
qed

text \<open>\<open>readBits\<close> succeeds exactly if the field has at most 64 bits and lies inside the input, and then bit \<open>n\<close>
  of the value is bit \<open>off + n\<close> of the input, and the bits above the width are zero.\<close>
theorem readBits_spec:
  "readBits width data off = Inr (v, off') \<longleftrightarrow>
     width \<le> 64 \<and> off' = off + width \<and> off' \<le> 8 * length data \<and>
     (\<forall>n. bit v n \<longleftrightarrow> n < width \<and> data_bit data (off + n))"
proof -
  define r where "r = or_bits 0 (map (\<lambda>i. data_bit data (off + i)) [0..<width]) (0 :: u64)"
  show ?thesis
  proof (cases "width \<le> 64 \<and> off + width \<le> 8 * length data")
    case True
    then have read: "readBits width data off = Inr (r, off + width)"
      unfolding r_def by (intro readBits_ok) simp_all
    have bits: "bit r n \<longleftrightarrow> n < width \<and> data_bit data (off + n)" for n
      using True by (auto simp: r_def or_bits_bit)
    have eq: "(\<forall>n. bit v n \<longleftrightarrow> n < width \<and> data_bit data (off + n)) \<longleftrightarrow> v = r"
    proof
      assume "\<forall>n. bit v n \<longleftrightarrow> n < width \<and> data_bit data (off + n)"
      then show "v = r" by (intro bit_eqI) (simp add: bits)
    qed (simp add: bits)
    show ?thesis unfolding read eq using True by auto
  next
    case False
    then have "readBits width data off = Inl (Rejected ())" by (auto simp: readBits_def require_def checked_end_def)
    then show ?thesis using False by auto
  qed
qed

subsection \<open>No read leaves the input\<close>

lemma readBits_in_bounds [in_bounds_intro]: "in_bounds (readBits width data off)"
proof (cases "width \<le> 64 \<and> off + width \<le> 8 * length data")
  case True
  then show ?thesis by (simp add: readBits_ok)
next
  case False
  then show ?thesis by (auto simp: readBits_def require_def checked_end_def)
qed

lemma in_bounds_case_prod [in_bounds_intro]:
  "(\<And>a b. p = (a, b) \<Longrightarrow> in_bounds (f a b)) \<Longrightarrow> in_bounds (case p of (a, b) \<Rightarrow> f a b)"
  by (cases p) simp

lemma vbr_loop_in_bounds: "in_bounds (vbr_loop width v shift data off)"
proof (induction width v shift data off rule: vbr_loop.induct)
  case (1 width v shift data off)
  show ?case
    by (subst vbr_loop.simps) (auto simp: Let_def intro!: in_bounds_intro 1)
qed

lemma simple_readers_in_bounds [in_bounds_intro]:
  "in_bounds (readVbr width data off)" "in_bounds (align32 data off)" "in_bounds (skipBits n data off)" "in_bounds (seek e data off)"
  by (simp_all add: readVbr_def vbr_loop_in_bounds align32_def Let_def skipBits_def seek_def in_bounds_require in_bounds_case_end)

lemma read_abbrev_operand_in_bounds [in_bounds_intro]: "in_bounds (read_abbrev_operand data off)"
  unfolding read_abbrev_operand_def by (intro in_bounds_intro)

lemma read_operands_in_bounds [in_bounds_intro]: "in_bounds (read_operands n data off)"
  by (induction n arbitrary: off) (auto intro!: in_bounds_intro)

lemma readAbbrev_in_bounds [in_bounds_intro]: "in_bounds (readAbbrev data off)"
  unfolding readAbbrev_def by (intro in_bounds_intro)

lemma readEncodedValue_in_bounds [in_bounds_intro]: "in_bounds (readEncodedValue operand data off)"
  unfolding readEncodedValue_def by (intro in_bounds_intro)

lemma read_items_in_bounds [in_bounds_intro]: "in_bounds (read_items n operand s data off)"
proof (induction n arbitrary: off s)
  case (Suc n)
  show ?case unfolding read_items.simps by (intro in_bounds_intro Suc.IH)
qed simp

lemma read_blob_in_bounds [in_bounds_intro]: "in_bounds (read_blob data off)"
  unfolding read_blob_def by (intro in_bounds_intro)

lemma read_abbreviated_in_bounds [in_bounds_intro]: "in_bounds (read_abbreviated a s data off)"
  by (induction a s data off rule: read_abbreviated.induct) (auto intro!: in_bounds_intro split: list.split)

lemma read_values_in_bounds [in_bounds_intro]: "in_bounds (read_values n vs data off)"
  by (induction n arbitrary: off vs) (auto intro!: in_bounds_intro)

lemma read_item_in_bounds [in_bounds_intro]: "in_bounds (read_item block_id width end_bit abbrevs data off)"
  unfolding read_item_def read_end_block_def read_sub_block_def read_unabbreviated_def read_abbreviated_item_def
    readAbbreviatedRecord_def Let_def split_def
  by (intro in_bounds_intro)

lemma block_loop_in_bounds: "in_bounds (block_loop block_id width depth end_bit k known set_bid st data off)"
proof (induction "end_bit - off" arbitrary: block_id width depth end_bit k known set_bid st off rule: less_induct)
  case less
  have step: "in_bounds (case it of
           End_block \<Rightarrow> Inr (leave_block k off1 st, off1)
         | Sub_block child_id child_width child_end \<Rightarrow>
             require (\<not> block_refused (depth + 1) child_width) ()
              (bindP (block_loop child_id child_width (depth + 1) child_end (length (bs_blocks st)) (findBlockInfoAbbrevs child_id st)
                        0 (enter_block child_id child_width (depth + 1) off1 st) data off1) (\<lambda>(st, off2).
                 require (\<not> off2 > child_end) ()
                  (bindP (seek child_end data off2) (\<lambda>_.
                     block_loop block_id width depth end_bit k known set_bid st data child_end))))
         | Abbreviation abbrev \<Rightarrow>
             if block_id = BlockInfoBlockId \<and> set_bid \<noteq> 0
             then block_loop block_id width depth end_bit k known set_bid (addBlockInfoAbbrev set_bid abbrev st) data off1
             else block_loop block_id width depth end_bit k (known @ [abbrev]) set_bid st data off1
         | Record r values \<Rightarrow>
             let set_bid = (if block_id = BlockInfoBlockId \<and> rec_code r = BlockInfoSetBid \<and> length values \<ge> 2
                            then ucast (values ! 1) else set_bid)
             in block_loop block_id width depth end_bit k known set_bid (add_record k r st) data off1)"
    if "off < end_bit" and item: "read_item block_id (unat width) end_bit known data off = Inr (it, off1)" for it off1
  proof (cases it)
    case (Sub_block child_id child_width child_end)
    then have ends: "off < off1" "off1 \<le> child_end" "child_end \<le> end_bit" using read_item_off [OF item] by auto
    show ?thesis
      unfolding Sub_block item.case
      by (intro in_bounds_intro less.hyps) (use that(1) ends in auto)
  qed (use that read_item_off [OF item] in \<open>auto simp: Let_def intro!: less.hyps\<close>)
  show ?case
    by (subst block_loop.simps) (intro in_bounds_intro step; simp)
qed

lemma ParseBitcode_in_bounds [in_bounds_intro]: "in_bounds (ParseBitcode data)"
  unfolding ParseBitcode_def parse_bitstream_def parseBlock_def by (intro in_bounds_intro block_loop_in_bounds)

text \<open>whatever the bytes, the bitcode parser does not read outside them: it accepts, rejects, or fails to
  reserve the vector of an abbreviation.\<close>
theorem bitstream_parser_safe: "ParseBitcode data \<noteq> Inl Out_of_bounds"
  using ParseBitcode_in_bounds [of data] by (simp add: in_bounds_def)

subsection \<open>Variable width integers\<close>

text \<open>The encoding of LLVM: pieces of \<open>width\<close> bits, the lowest first, of which the top bit says whether
  another piece follows.\<close>

function vbr_bits :: "nat \<Rightarrow> nat \<Rightarrow> bool list" where
  "vbr_bits width v =
     (if width < 2 \<or> v < 2 ^ (width - 1) then map (bit v) [0..<width]
      else map (bit v) [0..<width - 1] @ [True] @ vbr_bits width (drop_bit (width - 1) v))"
  by pat_completeness auto
termination
proof (relation "measure (\<lambda>(width, v). v)")
  fix width v :: nat
  assume a: "\<not> (width < 2 \<or> v < 2 ^ (width - 1))"
  moreover have "(2 :: nat) ^ 1 \<le> 2 ^ (width - 1)" using a by (intro power_increasing) auto
  moreover have "0 < v" using a by (auto intro: gr0I)
  ultimately have "0 < v" "(2 :: nat) ^ 1 \<le> 2 ^ (width - 1)" by simp_all
  then show "((width, drop_bit (width - 1) v), (width, v)) \<in> measure (\<lambda>(width, v). v)"
    by (simp add: drop_bit_eq_div)
qed simp

declare vbr_bits.simps [simp del]

definition holds_at :: "u8 list \<Rightarrow> nat \<Rightarrow> bool list \<Rightarrow> bool" where
  "holds_at data off bs \<longleftrightarrow> off + length bs \<le> 8 * length data \<and> (\<forall>i < length bs. data_bit data (off + i) \<longleftrightarrow> bs ! i)"

lemma holds_at_append:
  "holds_at data off (us @ vs) \<longleftrightarrow> holds_at data off us \<and> holds_at data (off + length us) vs"
proof
  assume h: "holds_at data off (us @ vs)"
  have "data_bit data (off + length us + i) \<longleftrightarrow> vs ! i" if "i < length vs" for i
    using h that by (auto simp: holds_at_def nth_append add.assoc dest: spec [where x = "length us + i"])
  with h show "holds_at data off us \<and> holds_at data (off + length us) vs"
    by (auto simp: holds_at_def nth_append)
next
  assume "holds_at data off us \<and> holds_at data (off + length us) vs"
  then show "holds_at data off (us @ vs)"
    by (auto simp: holds_at_def nth_append) (metis add.assoc add_diff_inverse_nat nat_add_left_cancel_less)+
qed

lemma bit_nat_less: "bit (v :: nat) n \<Longrightarrow> v < 2 ^ k \<Longrightarrow> n < k"
  by (metis bit_take_bit_iff take_bit_nat_eq_self)

lemma bit_u64: "bit (x :: u64) n \<Longrightarrow> n < 64"
  using bit_imp_le_length [of x n] by simp

lemma bit_of_nat_u64: "bit (of_nat v :: u64) n \<longleftrightarrow> n < 64 \<and> bit v n"
  by (simp add: bit_simps)

lemma readBits_holds:
  assumes "holds_at data off bs" "length bs = width" "width \<le> 64"
    and "\<And>n. bit v n \<longleftrightarrow> n < width \<and> bs ! n"
  shows "readBits width data off = Inr (v, off + width)"
  using assms by (auto simp: readBits_spec holds_at_def)

lemma payload_bit: "bit (payload_of width piece) n \<longleftrightarrow> n < width - 1 \<and> bit piece n"
proof -
  have "(push_bit (width - 1) 1 - 1 :: u64) = mask (width - 1)"
    by (simp add: mask_eq_exp_minus_1 push_bit_eq_mult)
  then show ?thesis by (auto simp: payload_of_def bit_simps dest: bit_u64)
qed

lemma continues_bit: "width \<le> 64 \<Longrightarrow> 2 \<le> width \<Longrightarrow> continues width piece \<longleftrightarrow> bit piece (width - 1)"
  by (auto simp: continues_def bit_eq_iff [of _ 0] bit_simps)

lemma shift_fits:
  assumes "\<And>n. bit p n \<Longrightarrow> n + s < 64" "s < 64"
  shows "\<not> shift_overflows s p"
proof -
  have "bit (drop_bit s (push_bit s p)) n \<longleftrightarrow> bit p n" for n
    using assms(1) [of n] by (auto simp: bit_drop_bit_eq bit_push_bit_iff add.commute)
  then have "drop_bit s (push_bit s p) = p" by (intro bit_eqI) simp
  then show ?thesis using assms(2) by (simp add: shift_overflows_def)
qed

lemma vbr_loop_bits:
  assumes "2 \<le> width" "width \<le> 32" "v * 2 ^ s < 2 ^ 64" "v = 0 \<longrightarrow> s < 64" "holds_at data off (vbr_bits width v)"
  shows "vbr_loop width a s data off = Inr (a OR push_bit s (of_nat v), off + length (vbr_bits width v))"
  using assms(3-5)
proof (induction v arbitrary: a s off rule: less_induct)
  case (less v)
  have fits: "n + s < 64" if "bit v n" for n
  proof -
    have "2 ^ n \<le> v" using that bit_nat_less [of v n n] by (meson less_irrefl not_le_imp_less)
    then have "(2 :: nat) ^ (n + s) \<le> v * 2 ^ s" by (simp add: power_add)
    then have "(2 :: nat) ^ (n + s) < 2 ^ 64" using less.prems(1) by simp
    then show ?thesis by (meson one_less_numeral_iff power_less_imp_less_exp semiring_norm(76))
  qed
  have s: "s < 64"
  proof (cases "v = 0")
    case False
    then obtain n where "bit v n" by (metis bit_eqI bit_0_eq bot_apply bot_bool_def)
    then show ?thesis using fits by fastforce
  qed (use less.prems(2) in simp)
  show ?case
  proof (cases "v < 2 ^ (width - 1)")
    case True
    then have bs: "vbr_bits width v = map (bit v) [0..<width]" by (simp add: vbr_bits.simps)
    have small: "n < width - 1" if "bit v n" for n using that True by (rule bit_nat_less)
    have small': "n < width" if "bit v n" for n using small [OF that] by linarith
    have piece_bit: "bit (of_nat v :: u64) n \<longleftrightarrow> n < width \<and> vbr_bits width v ! n" for n
    proof (cases "n < width")
      case True
      then show ?thesis using assms(2) by (simp add: bs bit_of_nat_u64)
    next
      case False
      then show ?thesis using small' [of n] by (auto simp: bit_of_nat_u64)
    qed
    have read: "readBits width data off = Inr (of_nat v, off + width)"
      by (rule readBits_holds [OF less.prems(3) _ _ piece_bit]) (use assms(2) in \<open>simp_all add: bs\<close>)
    have "payload_of width (of_nat v) = of_nat v"
      by (rule bit_eqI) (use small in \<open>auto simp: payload_bit bit_of_nat_u64\<close>)
    moreover have "\<not> continues width (of_nat v)"
      using assms(1,2) small by (auto simp: continues_bit bit_of_nat_u64)
    moreover have "\<not> shift_overflows s (of_nat v)"
      by (rule shift_fits) (use fits s in \<open>auto simp: bit_of_nat_u64\<close>)
    ultimately show ?thesis
      using assms(1,2) by (subst vbr_loop.simps) (simp add: read bs)
  next
    case False
    define w where "w = width - 1"
    define v' where "v' = drop_bit w v"
    define piece :: u64 where "piece = of_nat (take_bit w v) OR push_bit w 1"
    have w: "0 < w" "w < 32" "width = w + 1" using assms(1,2) by (simp_all add: w_def)
    have bs: "vbr_bits width v = (map (bit v) [0..<w] @ [True]) @ vbr_bits width v'"
      using False assms(1) by (simp add: vbr_bits.simps [of width v] w_def v'_def)
    have holds: "holds_at data off (map (bit v) [0..<w] @ [True])" "holds_at data (off + width) (vbr_bits width v')"
      using less.prems(3) holds_at_append [of data off "map (bit v) [0..<w] @ [True]" "vbr_bits width v'"] w
      unfolding bs by simp_all
    have piece_bit: "bit piece n \<longleftrightarrow> n = w \<or> n < w \<and> bit v n" for n
      using w by (auto simp: piece_def bit_or_iff bit_of_nat_u64 bit_take_bit_iff bit_simps)
    have read: "readBits width data off = Inr (piece, off + width)"
      by (rule readBits_holds [OF holds(1)]) (use w in \<open>auto simp: piece_bit nth_append\<close>)
    have payload: "payload_of width piece = of_nat (take_bit w v)"
      by (rule bit_eqI) (use w in \<open>auto simp: payload_bit piece_bit bit_of_nat_u64 bit_take_bit_iff\<close>)
    have more: "continues width piece" using assms(1,2) w by (simp add: continues_bit piece_bit)
    have over: "\<not> shift_overflows s (of_nat (take_bit w v))"
      by (rule shift_fits) (use fits s in \<open>auto simp: bit_of_nat_u64 bit_take_bit_iff\<close>)
    have "vbr_loop width (a OR push_bit s (of_nat (take_bit w v))) (s + w) data (off + width)
        = Inr ((a OR push_bit s (of_nat (take_bit w v))) OR push_bit (s + w) (of_nat v'), off + width + length (vbr_bits width v'))"
    proof (rule less.IH)
      have big: "2 ^ w \<le> v" using False by (simp add: w_def)
      then have "0 < v" by (rule less_le_trans [rotated]) simp
      moreover have "(2 :: nat) ^ 1 \<le> 2 ^ w" using w by (intro power_increasing) auto
      ultimately show "v' < v" by (simp add: v'_def drop_bit_eq_div)
      have "v' * 2 ^ w \<le> v" by (simp add: v'_def drop_bit_eq_div)
      then have "v' * 2 ^ w * 2 ^ s \<le> v * 2 ^ s" by (rule mult_le_mono1)
      moreover have "v' * 2 ^ (s + w) = v' * 2 ^ w * 2 ^ s" by (simp add: power_add)
      ultimately show "v' * 2 ^ (s + w) < 2 ^ 64" using less.prems(1) by linarith
      have "v' \<noteq> 0" using big by (simp add: v'_def drop_bit_eq_div div_greater_zero_iff)
      then show "v' = 0 \<longrightarrow> s + w < 64" by simp
    qed (rule holds(2))
    moreover have "(a OR push_bit s (of_nat (take_bit w v))) OR push_bit (s + w) (of_nat v') = a OR push_bit s (of_nat v)"
    proof (rule bit_eqI)
      fix n
      have "w + (n - (s + w)) = n - s" if "s + w \<le> n" using that by simp
      then show "bit ((a OR push_bit s (of_nat (take_bit w v))) OR push_bit (s + w) (of_nat v')) n \<longleftrightarrow> bit (a OR push_bit s (of_nat v)) n"
        by (cases "s + w \<le> n")
          (auto simp: bit_or_iff bit_push_bit_iff bit_of_nat_u64 bit_take_bit_iff v'_def bit_drop_bit_eq)
    qed
    moreover have "off + length (vbr_bits width v) = off + width + length (vbr_bits width v')"
      unfolding bs using w(3) by simp
    moreover have "width - Suc 0 = w" by (simp add: w_def)
    ultimately show ?thesis
      using assms(1,2) by (subst vbr_loop.simps) (simp add: read payload more over)
  qed
qed

text \<open>variable width integers are read back as they were encoded: wherever the input holds the encoding of a
  64-bit value in pieces of 2 to 32 bits, \<open>readVbr\<close> returns that value and stops right behind it.\<close>
theorem vbr_round_trip:
  assumes "2 \<le> width" "width \<le> 32" "v < 2 ^ 64" "holds_at data off (vbr_bits width v)"
  shows "readVbr width data off = Inr (of_nat v, off + length (vbr_bits width v))"
  using vbr_loop_bits [of width v 0 data off 0] assms by (simp add: readVbr_def)

theorem vbr_round_trip_witness:
  "vbr_bits 6 40 = [False, False, False, True, False, True, True, False, False, False, False, False]
     \<and> readVbr 6 [0x68, 0] 0 = Inr (40, 12)"
proof -
  have bits: "vbr_bits 6 40 = [False, False, False, True, False, True, True, False, False, False, False, False]"
    by code_simp
  have "holds_at [0x68, 0] 0 (vbr_bits 6 40)"
    unfolding bits by code_simp
  from vbr_round_trip [OF _ _ _ this] have "readVbr 6 [0x68, 0] 0 = Inr (of_nat 40, 0 + length (vbr_bits 6 40))" by simp
  then show ?thesis by (simp add: bits)
qed

subsection \<open>A run of the block loop\<close>

text \<open>The successful runs of the loop as a big-step relation, so that what a run guarantees is proved by
  rule induction.\<close>

inductive block_run :: "u8 list \<Rightarrow> u32 \<Rightarrow> u32 \<Rightarrow> nat \<Rightarrow> nat \<Rightarrow> nat \<Rightarrow> abbrev list \<Rightarrow> u32 \<Rightarrow>
    bitcode_state \<Rightarrow> nat \<Rightarrow> bitcode_state \<Rightarrow> nat \<Rightarrow> bool" for data where
  exhausted: "block_run data block_id width depth end_bit k known set_bid st end_bit (leave_block k end_bit st) end_bit"
| ended: "off < end_bit \<Longrightarrow> read_item block_id (unat width) end_bit known data off = Inr (End_block, off1) \<Longrightarrow>
    block_run data block_id width depth end_bit k known set_bid st off (leave_block k off1 st) off1"
| inner: "off < end_bit \<Longrightarrow>
    read_item block_id (unat width) end_bit known data off = Inr (Sub_block child_id child_width child_end, off1) \<Longrightarrow>
    \<not> block_refused (depth + 1) child_width \<Longrightarrow>
    block_run data child_id child_width (depth + 1) child_end (length (bs_blocks st)) (findBlockInfoAbbrevs child_id st) 0
      (enter_block child_id child_width (depth + 1) off1 st) off1 st1 off2 \<Longrightarrow>
    off2 \<le> child_end \<Longrightarrow>
    block_run data block_id width depth end_bit k known set_bid st1 child_end st' off' \<Longrightarrow>
    block_run data block_id width depth end_bit k known set_bid st off st' off'"
| defined: "off < end_bit \<Longrightarrow> read_item block_id (unat width) end_bit known data off = Inr (Abbreviation a, off1) \<Longrightarrow>
    bs_blocks st1 = bs_blocks st \<Longrightarrow> bs_records st1 = bs_records st \<Longrightarrow>
    block_run data block_id width depth end_bit k known1 set_bid st1 off1 st' off' \<Longrightarrow>
    block_run data block_id width depth end_bit k known set_bid st off st' off'"
| recorded: "off < end_bit \<Longrightarrow> read_item block_id (unat width) end_bit known data off = Inr (Record r vals, off1) \<Longrightarrow>
    block_run data block_id width depth end_bit k known set_bid1 (add_record k r st) off1 st' off' \<Longrightarrow>
    block_run data block_id width depth end_bit k known set_bid st off st' off'"

lemma block_loop_run:
  "block_loop block_id width depth end_bit k known set_bid st data off = Inr (st', off') \<Longrightarrow>
     block_run data block_id width depth end_bit k known set_bid st off st' off'"
proof (induction "end_bit - off" arbitrary: block_id width depth end_bit k known set_bid st off st' off' rule: less_induct)
  case less
  show ?case
  proof (cases "off < end_bit")
    case False
    then have "off = end_bit \<and> st' = leave_block k end_bit st \<and> off' = off"
      using less.prems by (subst (asm) block_loop.simps) (simp add: require_Inr)
    then show ?thesis using block_run.exhausted by simp
  next
    case True
    then obtain it off1 where item: "read_item block_id (unat width) end_bit known data off = Inr (it, off1)"
      using less.prems by (subst (asm) block_loop.simps) (auto simp: bindP_Inr)
    note ahead = read_item_off [OF item]
    note step = less.prems [unfolded block_loop.simps [of block_id width depth end_bit k known set_bid st data off]]
    show ?thesis
    proof (cases it)
      case End_block
      then have "leave_block k off1 st = st' \<and> off1 = off'" using step True item by auto
      then have ends: "st' = leave_block k off1 st" "off' = off1" by blast+
      show ?thesis unfolding ends by (rule block_run.ended [OF True item [unfolded End_block]])
    next
      case (Sub_block child_id child_width child_end)
      then have ends: "off < off1" "off1 \<le> child_end" "child_end \<le> end_bit" using ahead by auto
      from step True item Sub_block obtain st1 off2 where refused: "\<not> block_refused (depth + 1) child_width"
        and child: "block_loop child_id child_width (depth + 1) child_end (length (bs_blocks st)) (findBlockInfoAbbrevs child_id st)
            0 (enter_block child_id child_width (depth + 1) off1 st) data off1 = Inr (st1, off2)"
        and inside: "off2 \<le> child_end"
        and rest: "block_loop block_id width depth end_bit k known set_bid st1 data child_end = Inr (st', off')"
        by (auto simp: bindP_Inr require_Inr)
      show ?thesis
        by (rule block_run.inner [OF True item [unfolded Sub_block] refused less.hyps [OF _ child] inside less.hyps [OF _ rest]])
          (use True ends in linarith)+
    next
      case (Abbreviation a)
      then have "off < off1" using ahead by simp
      then have closer: "end_bit - off1 < end_bit - off" using True by simp
      show ?thesis
      proof (cases "block_id = BlockInfoBlockId \<and> set_bid \<noteq> 0")
        case info: True
        then have "block_loop block_id width depth end_bit k known set_bid (addBlockInfoAbbrev set_bid a st) data off1 = Inr (st', off')"
          using step True item Abbreviation by simp
        from block_run.defined [OF True item [unfolded Abbreviation] _ _ less.hyps [OF closer this]] show ?thesis
          by (simp add: addBlockInfoAbbrev_def)
      next
        case info: False
        then have "block_loop block_id width depth end_bit k (known @ [a]) set_bid st data off1 = Inr (st', off')"
          using step True item Abbreviation by (simp split: if_splits)
        from block_run.defined [OF True item [unfolded Abbreviation] refl refl less.hyps [OF closer this]] show ?thesis .
      qed
    next
      case (Record r vals)
      then have "off < off1" using ahead by simp
      then have closer: "end_bit - off1 < end_bit - off" using True by simp
      from step True item Record obtain set_bid1 where
        "block_loop block_id width depth end_bit k known set_bid1 (add_record k r st) data off1 = Inr (st', off')"
        by (auto simp: Let_def)
      from block_run.recorded [OF True item [unfolded Record] less.hyps [OF closer this]] show ?thesis .
    qed
  qed
qed

subsection \<open>Blocks are nested\<close>

text \<open>Two blocks, the first opened before the second: the second lies behind the first or inside it.\<close>

definition apart_or_inside :: "bitcode_block \<Rightarrow> bitcode_block \<Rightarrow> bool" where
  "apart_or_inside b c \<longleftrightarrow> blk_end b \<le> blk_start c \<or> blk_start b < blk_start c \<and> blk_end c \<le> blk_end b"

text \<open>The blocks opened since block \<open>k\<close>, all closed at \<open>off\<close>, hang below it.\<close>

definition below :: "bitcode_block list \<Rightarrow> nat \<Rightarrow> nat \<Rightarrow> nat \<Rightarrow> bool" where
  "below bs k off i \<longleftrightarrow>
     blk_depth (bs ! i) \<le> 64 \<and> blk_start (bs ! k) < blk_start (bs ! i) \<and> blk_start (bs ! i) \<le> blk_end (bs ! i) \<and> blk_end (bs ! i) \<le> off \<and>
     (\<exists>j. k \<le> j \<and> j < i \<and> blk_depth (bs ! i) = blk_depth (bs ! j) + 1 \<and> blk_start (bs ! j) < blk_start (bs ! i) \<and>
        (j = k \<or> blk_end (bs ! i) \<le> blk_end (bs ! j)))"

definition open_tree :: "bitcode_block list \<Rightarrow> nat \<Rightarrow> nat \<Rightarrow> bool" where
  "open_tree bs k off \<longleftrightarrow>
     (\<forall>i. k < i \<and> i < length bs \<longrightarrow> below bs k off i) \<and>
     (\<forall>i j. k < i \<and> i < j \<and> j < length bs \<longrightarrow> apart_or_inside (bs ! i) (bs ! j))"

lemma open_tree_below: "open_tree bs k off \<Longrightarrow> k < i \<Longrightarrow> i < length bs \<Longrightarrow> below bs k off i"
  by (simp add: open_tree_def)

lemma open_tree_apart: "open_tree bs k off \<Longrightarrow> k < i \<Longrightarrow> i < j \<Longrightarrow> j < length bs \<Longrightarrow> apart_or_inside (bs ! i) (bs ! j)"
  by (simp add: open_tree_def)

lemma open_tree_later: "open_tree bs k off \<Longrightarrow> off \<le> off' \<Longrightarrow> open_tree bs k off'"
  unfolding open_tree_def below_def by (meson order_trans)

lemma below_update:
  assumes "below bs k off i" "k < i" "blk_start b = blk_start (bs ! k)" "blk_depth b = blk_depth (bs ! k)" "k < length bs"
  shows "below (bs[k := b]) k off i"
proof -
  obtain j where j: "k \<le> j" "j < i" "blk_depth (bs ! i) = blk_depth (bs ! j) + 1" "blk_start (bs ! j) < blk_start (bs ! i)"
    "j = k \<or> blk_end (bs ! i) \<le> blk_end (bs ! j)"
    using assms(1) by (auto simp: below_def)
  have at_k: "bs[k := b] ! k = b" and at_i: "bs[k := b] ! i = bs ! i" using assms(2,5) by simp_all
  have "\<exists>j. k \<le> j \<and> j < i \<and> blk_depth (bs ! i) = blk_depth (bs[k := b] ! j) + 1 \<and> blk_start (bs[k := b] ! j) < blk_start (bs ! i)
      \<and> (j = k \<or> blk_end (bs ! i) \<le> blk_end (bs[k := b] ! j))"
  proof (intro exI conjI)
    show "blk_depth (bs ! i) = blk_depth (bs[k := b] ! j) + 1" "blk_start (bs[k := b] ! j) < blk_start (bs ! i)"
      using j at_k assms(3,4) by (cases "j = k"; simp)+
    show "j = k \<or> blk_end (bs ! i) \<le> blk_end (bs[k := b] ! j)" using j(5) by (cases "j = k") simp_all
  qed (rule j)+
  then show ?thesis
    using assms(1,3) unfolding below_def at_i at_k by simp
qed

lemma open_tree_update:
  assumes "open_tree bs k off" "blk_start b = blk_start (bs ! k)" "blk_depth b = blk_depth (bs ! k)" "k < length bs"
  shows "open_tree (bs[k := b]) k off"
  using assms(1) below_update [OF _ _ assms(2-4)] by (auto simp: open_tree_def)

lemma open_tree_fresh: "length bs = Suc k \<Longrightarrow> open_tree bs k off"
  by (auto simp: open_tree_def)

text \<open>A block inside, parsed to its end, becomes one more closed block.\<close>

lemma open_tree_child:
  assumes outer: "open_tree bs k off" and k: "k < length bs" "blk_start (bs ! k) \<le> off"
    and same: "\<forall>i < length bs. bs' ! i = bs ! i" "length bs < length bs'"
    and child: "blk_start (bs' ! length bs) = off1" "blk_depth (bs' ! length bs) = blk_depth (bs ! k) + 1"
      "blk_depth (bs' ! length bs) \<le> 64" "blk_end (bs' ! length bs) = off2"
    and inside: "open_tree bs' (length bs) off2" and offs: "off < off1" "off1 \<le> off2" "off2 \<le> child_end"
  shows "open_tree bs' k child_end"
proof -
  let ?c = "length bs"
  have "below bs' k child_end i" if i: "k < i" "i < length bs'" for i
  proof -
    consider "i < ?c" | "i = ?c" | "?c < i" by linarith
    then show ?thesis
    proof cases
      case 1
      have old: "below bs k off i" by (rule open_tree_below [OF outer i(1) 1])
      then obtain j where j: "k \<le> j" "j < i" "blk_depth (bs ! i) = blk_depth (bs ! j) + 1" "blk_start (bs ! j) < blk_start (bs ! i)"
        "j = k \<or> blk_end (bs ! i) \<le> blk_end (bs ! j)"
        by (auto simp: below_def)
      have eqs: "bs' ! i = bs ! i" "bs' ! k = bs ! k" "bs' ! j = bs ! j" using same 1 k j(2) by simp_all
      show ?thesis using old offs j unfolding below_def eqs by (auto intro: exI [of _ j] simp: eqs)
    next
      case 2
      have "bs' ! k = bs ! k" using same k by simp
      then show ?thesis
        using 2 child offs k unfolding below_def by (auto intro: exI [of _ k])
    next
      case 3
      have new: "below bs' ?c off2 i" by (rule open_tree_below [OF inside 3 i(2)])
      then obtain j where j: "?c \<le> j" "j < i" "blk_depth (bs' ! i) = blk_depth (bs' ! j) + 1" "blk_start (bs' ! j) < blk_start (bs' ! i)"
        "j = ?c \<or> blk_end (bs' ! i) \<le> blk_end (bs' ! j)" "blk_end (bs' ! i) \<le> off2"
        by (auto simp: below_def)
      then have "blk_end (bs' ! i) \<le> blk_end (bs' ! j)" using child(4) by auto
      moreover have "bs' ! k = bs ! k" using same k by simp
      ultimately show ?thesis
        using new child offs k j unfolding below_def by (auto intro!: exI [of _ j])
    qed
  qed
  moreover have "apart_or_inside (bs' ! i) (bs' ! j)" if ij: "k < i" "i < j" "j < length bs'" for i j
  proof -
    consider "j < ?c" | "i < ?c" "?c \<le> j" | "i = ?c" "?c < j" | "?c < i" using ij by linarith
    then show ?thesis
    proof cases
      case 1
      then show ?thesis using open_tree_apart [OF outer ij(1,2)] same ij by simp
    next
      case 2
      have "blk_end (bs' ! i) \<le> off" using open_tree_below [OF outer ij(1) 2(1)] same 2 by (simp add: below_def)
      moreover have "off1 \<le> blk_start (bs' ! j)"
      proof (cases "j = ?c")
        case False
        then show ?thesis using open_tree_below [OF inside _ ij(3)] 2 child by (simp add: below_def)
      qed (simp add: child)
      ultimately show ?thesis using offs by (simp add: apart_or_inside_def)
    next
      case 3
      then have "below bs' ?c off2 j" using open_tree_below [OF inside _ ij(3)] by simp
      then show ?thesis using 3 child by (simp add: apart_or_inside_def below_def)
    next
      case 4
      then show ?thesis using open_tree_apart [OF inside _ ij(2,3)] by simp
    qed
  qed
  ultimately show ?thesis by (simp add: open_tree_def)
qed

text \<open>What a run does to the blocks: those opened before it stay as they are, but for the one it fills,
  which ends where the run ends; below that one the blocks are nested.\<close>

lemma leave_block_nth:
  "k < length (bs_blocks st) \<Longrightarrow> bs_blocks (leave_block k off st) = (bs_blocks st)[k := (bs_blocks st ! k)\<lparr> blk_end := off \<rparr>]"
  by (simp add: leave_block_def)

lemma add_record_blocks:
  "bs_blocks (add_record k r st) = (bs_blocks st)[k := (bs_blocks st ! k)\<lparr> blk_records := blk_records (bs_blocks st ! k) + 1 \<rparr>]"
  by (simp add: add_record_def)

lemma block_run_off: "block_run data block_id width depth end_bit k known set_bid st off st' off' \<Longrightarrow> off \<le> end_bit"
  by (erule block_run.cases) auto

lemma block_run_tree:
  assumes "block_run data block_id width depth end_bit k known set_bid st off st' off'"
    and "k < length (bs_blocks st)" "blk_start (bs_blocks st ! k) \<le> off"
    and "blk_depth (bs_blocks st ! k) = depth" "open_tree (bs_blocks st) k off"
  shows "off \<le> off' \<and> off' \<le> end_bit \<and> length (bs_blocks st) \<le> length (bs_blocks st') \<and>
     (\<forall>i < length (bs_blocks st). i \<noteq> k \<longrightarrow> bs_blocks st' ! i = bs_blocks st ! i) \<and>
     blk_start (bs_blocks st' ! k) = blk_start (bs_blocks st ! k) \<and> blk_depth (bs_blocks st' ! k) = depth \<and>
     blk_end (bs_blocks st' ! k) = off' \<and> open_tree (bs_blocks st') k off'"
  using assms
proof (induction rule: block_run.induct)
  case (exhausted block_id width depth end_bit k known set_bid st)
  then show ?case by (simp add: leave_block_nth open_tree_update)
next
  case (ended off end_bit block_id width known off1 depth k set_bid st)
  have "off \<le> off1" "off1 \<le> end_bit" using read_item_off [OF ended(2)] by auto
  with ended show ?case by (simp add: leave_block_nth open_tree_update open_tree_later [of _ _ off])
next
  case (inner off end_bit block_id width known child_id child_width child_end off1 depth st st1 off2 k set_bid st' off')
  let ?c = "length (bs_blocks st)"
  have ends: "off < off1" "off1 \<le> child_end" "child_end \<le> end_bit" using read_item_off [OF inner(2)] by auto
  have child: "off1 \<le> off2" "Suc ?c \<le> length (bs_blocks st1)" "\<forall>i < ?c. bs_blocks st1 ! i = bs_blocks st ! i"
    "blk_start (bs_blocks st1 ! ?c) = off1" "blk_depth (bs_blocks st1 ! ?c) = depth + 1" "blk_end (bs_blocks st1 ! ?c) = off2"
    "open_tree (bs_blocks st1) ?c off2"
    using inner.IH(1) by (auto simp: enter_block_def nth_append open_tree_fresh)
  have deep: "depth + 1 \<le> 64" using inner(3) by (simp add: block_refused_def)
  have tree: "open_tree (bs_blocks st1) k child_end"
    by (rule open_tree_child [OF inner.prems(4) inner.prems(1,2) child(3) _ child(4) _ _ child(6,7) ends(1) child(1) inner(5)])
      (use child deep inner.prems(3) in simp_all)
  have kept: "bs_blocks st1 ! k = bs_blocks st ! k" using child(3) inner.prems(1) by simp
  have "child_end \<le> off' \<and> off' \<le> end_bit \<and> length (bs_blocks st1) \<le> length (bs_blocks st') \<and>
     (\<forall>i < length (bs_blocks st1). i \<noteq> k \<longrightarrow> bs_blocks st' ! i = bs_blocks st1 ! i) \<and>
     blk_start (bs_blocks st' ! k) = blk_start (bs_blocks st1 ! k) \<and> blk_depth (bs_blocks st' ! k) = depth \<and>
     blk_end (bs_blocks st' ! k) = off' \<and> open_tree (bs_blocks st') k off'"
    by (rule inner.IH(2)) (use inner.prems child(2) ends tree kept in simp_all)
  then show ?case using child(2,3) ends kept by simp
next
  case (defined off end_bit block_id width known a off1 st1 st depth k known1 set_bid st' off')
  have "off < off1" using read_item_off [OF defined(2)] by auto
  moreover have "open_tree (bs_blocks st1) k off1"
    using defined.prems(4) calculation by (simp add: defined(3) open_tree_later [of _ _ off])
  ultimately show ?case using defined.IH defined.prems by (simp add: defined(3))
next
  case (recorded off end_bit block_id width known r vals off1 depth k set_bid1 st st' off' set_bid)
  have "off < off1" using read_item_off [OF recorded(2)] by auto
  moreover have "open_tree (bs_blocks (add_record k r st)) k off1"
    unfolding add_record_blocks
    by (rule open_tree_later [OF open_tree_update [OF recorded.prems(4)]]) (use recorded.prems calculation in simp_all)
  ultimately show ?case using recorded.IH recorded.prems by (simp add: add_record_blocks)
qed

text \<open>The blocks of a module: the outermost at depth 0, the others each inside one opened before at the depth
  above it, at most 64 deep, and any two of them nested or apart.\<close>

definition block_forest :: "bitcode_block list \<Rightarrow> nat \<Rightarrow> bool" where
  "block_forest bs limit \<longleftrightarrow>
     bs \<noteq> [] \<and> blk_depth (bs ! 0) = 0 \<and>
     (\<forall>i < length bs. blk_depth (bs ! i) \<le> 64 \<and> blk_start (bs ! i) \<le> blk_end (bs ! i) \<and> blk_end (bs ! i) \<le> limit) \<and>
     (\<forall>i < length bs. 0 < i \<longrightarrow> (\<exists>j < i. blk_depth (bs ! i) = blk_depth (bs ! j) + 1 \<and>
        blk_start (bs ! j) < blk_start (bs ! i) \<and> blk_end (bs ! i) \<le> blk_end (bs ! j))) \<and>
     (\<forall>i j. i < j \<and> j < length bs \<longrightarrow> apart_or_inside (bs ! i) (bs ! j))"

lemma open_tree_forest:
  assumes "open_tree bs 0 off" "bs \<noteq> []" "blk_depth (bs ! 0) = 0" "blk_start (bs ! 0) \<le> off" "blk_end (bs ! 0) = off" "off \<le> limit"
  shows "block_forest bs limit"
proof -
  have inner: "below bs 0 off i" if "0 < i" "i < length bs" for i using open_tree_below [OF assms(1) that] .
  have "blk_depth (bs ! i) \<le> 64 \<and> blk_start (bs ! i) \<le> blk_end (bs ! i) \<and> blk_end (bs ! i) \<le> limit" if "i < length bs" for i
    using inner [of i] that assms by (cases "i = 0") (auto simp: below_def)
  moreover have "\<exists>j < i. blk_depth (bs ! i) = blk_depth (bs ! j) + 1 \<and>
        blk_start (bs ! j) < blk_start (bs ! i) \<and> blk_end (bs ! i) \<le> blk_end (bs ! j)" if i: "i < length bs" "0 < i" for i
  proof -
    obtain j where "j < i" "blk_depth (bs ! i) = blk_depth (bs ! j) + 1" "blk_start (bs ! j) < blk_start (bs ! i)"
      "j = 0 \<or> blk_end (bs ! i) \<le> blk_end (bs ! j)" "blk_end (bs ! i) \<le> off"
      using inner [OF i(2,1)] by (auto simp: below_def)
    then show ?thesis using assms(5) by auto
  qed
  moreover have "apart_or_inside (bs ! i) (bs ! j)" if ij: "i < j" "j < length bs" for i j
  proof (cases "i = 0")
    case True
    then show ?thesis using inner [of j] ij assms(5) by (simp add: below_def apart_or_inside_def)
  next
    case False
    then show ?thesis using open_tree_apart [OF assms(1) _ ij] by simp
  qed
  ultimately show ?thesis using assms(2,3) by (simp add: block_forest_def)
qed

lemma parse_bitstream_run:
  assumes "parse_bitstream data = Inr st"
  shows "\<exists>off. block_run data (- 1) 2 0 (8 * length data) 0 [] 0
    \<lparr> bs_blocks = [\<lparr> blk_id = - 1, blk_abbrev_width = 2, blk_depth = 0, blk_start = 32, blk_end = 0, blk_records = 0 \<rparr>],
      bs_records = [], bs_block_info = [] \<rparr> 32 st off"
proof -
  from assms obtain magic off1 off where magic: "readBits 32 data 0 = Inr (magic, off1)"
    and loop: "block_loop (- 1) 2 0 (8 * length data) 0 [] 0
      (enter_block (- 1) 2 0 off1 \<lparr> bs_blocks = [], bs_records = [], bs_block_info = [] \<rparr>) data off1 = Inr (st, off)"
    by (auto simp: parse_bitstream_def parseBlock_def bindP_Inr require_Inr findBlockInfoAbbrevs_def)
  have "off1 = 32" using readBits_off [OF magic] by simp
  then show ?thesis
    using block_loop_run [OF loop] by (auto simp: enter_block_def)
qed

text \<open>C29: the blocks of an accepted bitstream are well formed: the first is the outermost, every other one lies
  inside an earlier block one level up, no block is deeper than 64 levels or ends in front of its start or
  behind the input, and any two blocks are nested or apart.\<close>
theorem bitcode_blocks_nested:
  assumes "parse_bitstream data = Inr st"
  shows "block_forest (bs_blocks st) (8 * length data)"
proof -
  obtain off where run: "block_run data (- 1) 2 0 (8 * length data) 0 [] 0
    \<lparr> bs_blocks = [\<lparr> blk_id = - 1, blk_abbrev_width = 2, blk_depth = 0, blk_start = 32, blk_end = 0, blk_records = 0 \<rparr>],
      bs_records = [], bs_block_info = [] \<rparr> 32 st off"
    using parse_bitstream_run [OF assms] by blast
  show ?thesis
    using block_run_tree [OF run] by (intro open_tree_forest [of _ off]) (auto simp: open_tree_fresh)
qed

definition sample_bitstream :: "u8 list" where
  "sample_bitstream = [0x42, 0x43, 0xC0, 0xDE, 0x21, 0x08, 0, 0, 0x01, 0, 0, 0, 0x07, 0x41, 0x01, 0]"

lemma sample_bitstream_parses:
  "case parse_bitstream sample_bitstream of Inl _ \<Rightarrow> False | Inr st \<Rightarrow> length (bs_blocks st) = 2 \<and> length (bs_records st) = 1"
  by code_simp

theorem bitcode_blocks_nested_witness:
  "\<exists>st. parse_bitstream sample_bitstream = Inr st \<and> length (bs_blocks st) = 2 \<and> block_forest (bs_blocks st) 128"
proof -
  obtain st where st: "parse_bitstream sample_bitstream = Inr st" "length (bs_blocks st) = 2"
    using sample_bitstream_parses by (cases "parse_bitstream sample_bitstream") auto
  then show ?thesis using bitcode_blocks_nested [OF st(1)] by (auto simp: sample_bitstream_def)
qed

subsection \<open>The work is bounded by the input\<close>

lemma block_run_work:
  assumes "block_run data block_id width depth end_bit k known set_bid st off st' off'"
  shows "length (bs_blocks st') + length (bs_records st') + off \<le> length (bs_blocks st) + length (bs_records st) + off' \<and> off' \<le> end_bit"
  using assms
proof (induction rule: block_run.induct)
  case (ended off end_bit block_id width known off1 depth k set_bid st)
  then show ?case using read_item_off [OF ended(2)] by (auto simp: leave_block_def)
next
  case (inner off end_bit block_id width known child_id child_width child_end off1 depth st st1 off2 k set_bid st' off')
  then show ?case using read_item_off [OF inner(2)] by (auto simp: enter_block_def)
next
  case (defined off end_bit block_id width known a off1 st1 st depth k known1 set_bid st' off')
  then show ?case using read_item_off [OF defined(2)] by auto
next
  case (recorded off end_bit block_id width known r vals off1 depth k set_bid1 st st' off' set_bid)
  then show ?case using read_item_off [OF recorded(2)] by (auto simp: add_record_def)
qed (simp add: leave_block_def)

text \<open>C36: an accepted bitstream gives no more blocks and records together than it has bits: every block and every
  record is paid for with at least one bit, however the abbreviations are defined.\<close>
theorem bitcode_work_bounded:
  assumes "parse_bitstream data = Inr st"
  shows "length (bs_blocks st) + length (bs_records st) \<le> 8 * length data"
proof -
  obtain off where run: "block_run data (- 1) 2 0 (8 * length data) 0 [] 0
    \<lparr> bs_blocks = [\<lparr> blk_id = - 1, blk_abbrev_width = 2, blk_depth = 0, blk_start = 32, blk_end = 0, blk_records = 0 \<rparr>],
      bs_records = [], bs_block_info = [] \<rparr> 32 st off"
    using parse_bitstream_run [OF assms] by blast
  show ?thesis using block_run_work [OF run] by simp
qed

theorem bitcode_work_bounded_witness:
  "\<exists>st. parse_bitstream sample_bitstream = Inr st \<and> length (bs_records st) = 1 \<and> length (bs_blocks st) + length (bs_records st) \<le> 128"
proof -
  obtain st where st: "parse_bitstream sample_bitstream = Inr st" "length (bs_records st) = 1"
    using sample_bitstream_parses by (cases "parse_bitstream sample_bitstream") auto
  then show ?thesis using bitcode_work_bounded [OF st(1)] by (auto simp: sample_bitstream_def)
qed

subsection \<open>What a hostile input can do\<close>

definition hostile_bitstream :: "u8 list" where
  "hostile_bitstream = [0x42, 0x43, 0xC0, 0xDE, 0x42, 8, 0x21, 0x84, 0x10, 0x42, 8, 0x21, 0x84, 0x30, 0, 0]"

text \<open>a bitstream of 16 bytes makes the parser throw: the number of operands of an abbreviation is reserved
  before any of them is read, and a count of \<open>2\<^sup>6\<^sup>0\<close> is beyond what a vector can hold.\<close>
theorem hostile_abbreviation_throws:
  "parse_bitstream hostile_bitstream = Inl Length_error"
proof -
  have reads: "readBits 32 hostile_bitstream 0 = Inr (kBitcodeMagicValue, 32)" "readBits 2 hostile_bitstream 32 = Inr (2, 34)"
    "readVbr 5 hostile_bitstream 34 = Inr (0x1000000000000000, 114)" "length hostile_bitstream = 16"
    by code_simp+
  have "readAbbrev hostile_bitstream 34 = Inl Length_error"
    by (simp add: readAbbrev_def reads abbrev_max_size_def)
  then have "read_item block_id 2 end_bit known hostile_bitstream 32 = Inl Length_error" for block_id end_bit known
    by (simp add: read_item_def reads EndBlock_def EnterSubblock_def DefineAbbrev_def)
  then show ?thesis
    by (simp add: parse_bitstream_def reads parseBlock_def block_refused_def block_loop.simps [of "- 1" 2 0 128])
qed

text \<open>The items of an array whose element is a literal, or a fixed field of no bits, take nothing from the
  input: the rounds of the loop are bounded by the length read (up to \<open>2\<^sup>6\<^sup>4 - 1\<close>), not by the input.\<close>

lemma free_array_items:
  assumes "op_literal element \<or> op_encoding element = 1 \<and> op_value element = 0" "off \<le> 8 * length data"
  shows "\<exists>s'. read_items n element s data off = Inr (s', off)"
proof (induction n arbitrary: s)
  case (Suc n)
  have "\<exists>v. readEncodedValue element data off = Inr (v, off)"
  proof (cases "op_literal element")
    case False
    then show ?thesis using assms readBits_ok [of 0 off data] by (simp add: readEncodedValue_def)
  qed (simp add: readEncodedValue_def)
  then obtain v where "readEncodedValue element data off = Inr (v, off)" ..
  then show ?case using Suc.IH [of "pushRecordValue v s"] by simp
qed simp

end
