(* ===== verification/DxilParts.thy ===== *)
theory DxilParts
  imports DxilContainer
begin

text \<open>
  The small parts of a compiled shader (src/libs/DXILParser/DXILParser.cpp): the signatures, feature
  flags, hash, compiler version, debug name, source and PDB information, statistics and the resource
  definitions, and the readers of strings and of arrays of words they share. A C++ string is the list of
  its bytes. A reader that answers false is None; its reads still carry their own bounds test.
\<close>

type_synonym bytes = "u8 list"

subsection \<open>Strings\<close>

text \<open>\<open>while (end < data.size() && data[end] != 0) end++;\<close>\<close>

function string_end :: "bytes \<Rightarrow> nat \<Rightarrow> nat" where
  "string_end d e = (if e < length d \<and> d ! e \<noteq> 0 then string_end d (e + 1) else e)"
  by pat_completeness auto
termination by (relation "measure (\<lambda>(d, e). length d - e)") auto

declare string_end.simps [simp del]

definition ReadString :: "bytes \<Rightarrow> nat \<Rightarrow> bytes option" where
  "ReadString d offset =
     (if offset \<ge> length d then None
      else let e = string_end d offset in
        if e = length d then None else Some (take (e - offset) (drop offset d)))"

text \<open>The strings of a buffer, empty ones left out; None when the last one is not terminated.\<close>

lemma string_end_ge: "e \<le> string_end d e"
  by (induction d e rule: string_end.induct) (subst string_end.simps, auto)

function string_list :: "bytes \<Rightarrow> nat \<Rightarrow> bytes list option" where
  "string_list d offset =
     (if offset < length d then
        if d ! offset = 0 then string_list d (offset + 1)
        else (case ReadString d offset of
            None \<Rightarrow> None
          | Some s \<Rightarrow> map_option (\<lambda>ss. s # ss) (string_list d (offset + (length s + 1))))
      else Some [])"
  by pat_completeness auto
termination by (relation "measure (\<lambda>(d, e). length d - e)") auto

declare string_list.simps [simp del]

definition ReadStringList :: "bytes \<Rightarrow> bytes list option" where
  "ReadStringList d = string_list d 0"

subsection \<open>Reads that may be refused\<close>

text \<open>\<open>if (!reader) return status;\<close>: a reader that answers false becomes a status.\<close>

definition or_reject :: "'s \<Rightarrow> 'a option \<Rightarrow> ('s, 'a) parse" where
  "or_reject s r = (case r of None \<Rightarrow> Inl (Rejected s) | Some a \<Rightarrow> Inr a)"

lemma or_reject_simps [simp]: "or_reject s None = Inl (Rejected s)" "or_reject s (Some a) = Inr a"
  by (simp_all add: or_reject_def)

lemma or_reject_Inr: "or_reject s r = Inr a \<longleftrightarrow> r = Some a"
  by (cases r) simp_all

lemma in_bounds_or_reject [in_bounds_intro]: "in_bounds (or_reject s r)"
  by (cases r) simp_all

text \<open>Consecutive words from a byte offset, as the loops over \<open>ReadU32\<close> read them.\<close>

definition read_words :: "bytes \<Rightarrow> nat \<Rightarrow> nat \<Rightarrow> ('s, u32 list) parse" where
  "read_words d byte_offset count = parse_each (\<lambda>i. read_u32 d (byte_offset + i * 4)) [0..<count]"

lemma in_bounds_read_words [in_bounds_intro]:
  "byte_offset + 4 * count \<le> length d \<Longrightarrow> in_bounds (read_words d byte_offset count)"
  unfolding read_words_def by (intro in_bounds_intro) auto

subsection \<open>Signatures\<close>

definition kDxilSignatureHeaderSize :: nat where "kDxilSignatureHeaderSize = 8"
definition kDxilSignatureElementSize :: nat where "kDxilSignatureElementSize = 32"
definition kFeatureInfoSize :: nat where "kFeatureInfoSize = 8"
definition kShaderHashSize :: nat where "kShaderHashSize = 20"
definition kCompilerVersionHeaderSize :: nat where "kCompilerVersionHeaderSize = 16"
definition kShaderDebugNameHeaderSize :: nat where "kShaderDebugNameHeaderSize = 4"
definition kSourceInfoHeaderSize :: nat where "kSourceInfoHeaderSize = 8"
definition kSourceInfoSectionHeaderSize :: nat where "kSourceInfoSectionHeaderSize = 8"
definition kShaderPdbInfoHeaderSize :: nat where "kShaderPdbInfoHeaderSize = 12"
definition kResourceDefHeaderSize :: nat where "kResourceDefHeaderSize = 28"
definition kResourceDefConstantBufferSize :: nat where "kResourceDefConstantBufferSize = 24"
definition kResourceDefResourceBindingSize :: nat where "kResourceDefResourceBindingSize = 32"
definition kResourceDefResourceBindingExtendedSize :: nat where "kResourceDefResourceBindingExtendedSize = 40"

lemmas part_sizes = kDxilSignatureHeaderSize_def kDxilSignatureElementSize_def kFeatureInfoSize_def
  kShaderHashSize_def kCompilerVersionHeaderSize_def kShaderDebugNameHeaderSize_def kSourceInfoHeaderSize_def
  kSourceInfoSectionHeaderSize_def kShaderPdbInfoHeaderSize_def kResourceDefHeaderSize_def
  kResourceDefConstantBufferSize_def kResourceDefResourceBindingSize_def kResourceDefResourceBindingExtendedSize_def

record signature_element =
  se_semantic_name :: bytes
  se_stream :: u32
  se_semantic_index :: u32
  se_system_value :: u32
  se_component_type :: u32
  se_register_index :: u32
  se_mask :: u8
  se_read_write_mask :: u8
  se_min_precision :: u32

record signature_info =
  si_part_fourcc :: u32
  si_elements :: "signature_element list"

definition signature_element_at :: "bytes \<Rightarrow> nat \<Rightarrow> signature_element dxil_parse" where
  "signature_element_at data element_offset =
     bindP (read_u32 data (element_offset + 0)) (\<lambda>stream.
     bindP (read_u32 data (element_offset + 4)) (\<lambda>semantic_name_offset.
     bindP (read_u32 data (element_offset + 8)) (\<lambda>semantic_index.
     bindP (read_u32 data (element_offset + 12)) (\<lambda>system_value.
     bindP (read_u32 data (element_offset + 16)) (\<lambda>component_type.
     bindP (read_u32 data (element_offset + 20)) (\<lambda>register_index.
     bindP (read_u8 data (element_offset + 24)) (\<lambda>mask.
     bindP (read_u8 data (element_offset + 25)) (\<lambda>read_write_mask.
     bindP (read_u32 data (element_offset + 28)) (\<lambda>min_precision.
     bindP (or_reject InvalidSignature (ReadString data (unat semantic_name_offset))) (\<lambda>semantic_name.
       Inr \<lparr> se_semantic_name = semantic_name, se_stream = stream, se_semantic_index = semantic_index,
             se_system_value = system_value, se_component_type = component_type,
             se_register_index = register_index, se_mask = mask, se_read_write_mask = read_write_mask,
             se_min_precision = min_precision \<rparr>))))))))))"

definition ParseSignature :: "blob_part \<Rightarrow> signature_info dxil_parse" where
  "ParseSignature part =
     (let data = bp_data part in
      require (\<not> length data < kDxilSignatureHeaderSize) InvalidSignature
       (bindP (read_u32 data 0) (\<lambda>count.
        bindP (read_u32 data 4) (\<lambda>offset.
          (case checked_end (unat offset) (unat count * kDxilSignatureElementSize) (length data) of
             None \<Rightarrow> Inl (Rejected InvalidSignature)
           | Some elements_end \<Rightarrow>
               bindP (parse_each (\<lambda>i. signature_element_at data (unat offset + i * kDxilSignatureElementSize))
                        [0..<unat count]) (\<lambda>elements.
                 Inr \<lparr> si_part_fourcc = bp_fourcc part, si_elements = elements \<rparr>))))))"

subsection \<open>Feature flags, hash and compiler version\<close>

definition ParseFeatureInfo :: "blob_part \<Rightarrow> u64 dxil_parse" where
  "ParseFeatureInfo part =
     require (\<not> length (bp_data part) < kFeatureInfoSize) InvalidFeatureInfo (read_u64 (bp_data part) 0)"

record shader_hash_info =
  sh_flags :: u32
  sh_digest :: bytes

definition ParseShaderHash :: "blob_part \<Rightarrow> shader_hash_info dxil_parse" where
  "ParseShaderHash part =
     require (\<not> length (bp_data part) < kShaderHashSize) InvalidShaderHash
      (bindP (read_u32 (bp_data part) 0) (\<lambda>flags.
       bindP (subspan (bp_data part) 4 16) (\<lambda>digest.
         Inr \<lparr> sh_flags = flags, sh_digest = digest \<rparr>)))"

record compiler_version_info =
  cv_major :: u16
  cv_minor :: u16
  cv_version_flags :: u32
  cv_commit_count :: u32
  cv_string_list_size :: u32
  cv_commit_sha :: bytes
  cv_custom_version_string :: bytes
  cv_strings :: "bytes list"

text \<open>\<open>(size_t(n) + 3u) & ~size_t(3u)\<close>.\<close>

definition align4 :: "nat \<Rightarrow> nat" where
  "align4 n = (n + 3) div 4 * 4"

definition ParseCompilerVersion :: "blob_part \<Rightarrow> compiler_version_info dxil_parse" where
  "ParseCompilerVersion part =
     (let data = bp_data part in
      require (\<not> length data < kCompilerVersionHeaderSize) InvalidCompilerVersion
       (bindP (read_u16 data 0) (\<lambda>major.
        bindP (read_u16 data 2) (\<lambda>minor.
        bindP (read_u32 data 4) (\<lambda>version_flags.
        bindP (read_u32 data 8) (\<lambda>commit_count.
        bindP (read_u32 data 12) (\<lambda>string_list_size.
          (case checked_end kCompilerVersionHeaderSize (align4 (unat string_list_size)) (length data) of
             None \<Rightarrow> Inl (Rejected InvalidCompilerVersion)
           | Some strings_end \<Rightarrow>
               bindP (subspan data kCompilerVersionHeaderSize (unat string_list_size)) (\<lambda>string_list.
               bindP (or_reject InvalidCompilerVersion (ReadStringList string_list)) (\<lambda>strings.
                 Inr \<lparr> cv_major = major, cv_minor = minor, cv_version_flags = version_flags,
                       cv_commit_count = commit_count, cv_string_list_size = string_list_size,
                       cv_commit_sha = (if strings \<noteq> [] then strings ! 0 else []),
                       cv_custom_version_string = (if length strings > 1 then strings ! 1 else []),
                       cv_strings = strings \<rparr>))))))))))"

subsection \<open>Debug name, source and PDB information, statistics\<close>

record shader_debug_name_info =
  dn_flags :: u16
  dn_name :: bytes

definition ParseShaderDebugName :: "blob_part \<Rightarrow> shader_debug_name_info dxil_parse" where
  "ParseShaderDebugName part =
     (let data = bp_data part in
      require (\<not> length data < kShaderDebugNameHeaderSize) InvalidShaderDebugName
       (bindP (read_u16 data 0) (\<lambda>flags.
        bindP (read_u16 data 2) (\<lambda>name_length.
          (case checked_end kShaderDebugNameHeaderSize (unat name_length) (length data) of
             None \<Rightarrow> Inl (Rejected InvalidShaderDebugName)
           | Some name_end \<Rightarrow>
               require (\<not> name_end \<ge> length data) InvalidShaderDebugName
                (bindP (read_u8 data name_end) (\<lambda>terminator.
                  require (\<not> terminator \<noteq> 0) InvalidShaderDebugName
                   (bindP (subspan data kShaderDebugNameHeaderSize (unat name_length)) (\<lambda>name.
                     Inr \<lparr> dn_flags = flags, dn_name = name \<rparr>)))))))))"

record source_info_section =
  ss_aligned_size :: u32
  ss_flags :: u16
  ss_type :: u16
  ss_data :: bytes

record source_info =
  so_aligned_size :: u32
  so_flags :: u16
  so_section_count :: u16
  so_sections :: "source_info_section list"

text \<open>The loop over the sections: \<open>n\<close> of them are left, the next one starts at \<open>offset\<close>.\<close>

fun source_sections :: "bytes \<Rightarrow> nat \<Rightarrow> nat \<Rightarrow> nat \<Rightarrow> source_info_section list dxil_parse" where
  "source_sections data aligned_size 0 offset = Inr []"
| "source_sections data aligned_size (Suc n) offset =
     (case checked_end offset kSourceInfoSectionHeaderSize aligned_size of
        None \<Rightarrow> Inl (Rejected InvalidSourceInfo)
      | Some section_header_end \<Rightarrow>
          bindP (read_u32 data (offset + 0)) (\<lambda>section_size.
          bindP (read_u16 data (offset + 4)) (\<lambda>flags.
          bindP (read_u16 data (offset + 6)) (\<lambda>ty.
            require (\<not> (section_size AND 3 \<noteq> 0 \<or> unat section_size < kSourceInfoSectionHeaderSize)) InvalidSourceInfo
             (case checked_end offset (unat section_size) aligned_size of
                None \<Rightarrow> Inl (Rejected InvalidSourceInfo)
              | Some section_end \<Rightarrow>
                  bindP (subspan data section_header_end (section_end - section_header_end)) (\<lambda>span.
                  bindP (source_sections data aligned_size n section_end) (\<lambda>rest.
                    Inr (\<lparr> ss_aligned_size = section_size, ss_flags = flags, ss_type = ty, ss_data = span \<rparr> # rest))))))))"

definition ParseSourceInfo :: "blob_part \<Rightarrow> source_info dxil_parse" where
  "ParseSourceInfo part =
     (let data = bp_data part in
      require (\<not> length data < kSourceInfoHeaderSize) InvalidSourceInfo
       (bindP (read_u32 data 0) (\<lambda>aligned_size.
        bindP (read_u16 data 4) (\<lambda>flags.
        bindP (read_u16 data 6) (\<lambda>section_count.
          require (\<not> (aligned_size AND 3 \<noteq> 0 \<or> unat aligned_size < kSourceInfoHeaderSize
                      \<or> unat aligned_size > length data)) InvalidSourceInfo
           (bindP (source_sections data (unat aligned_size) (unat section_count) kSourceInfoHeaderSize) (\<lambda>sections.
             Inr \<lparr> so_aligned_size = aligned_size, so_flags = flags, so_section_count = section_count,
                   so_sections = sections \<rparr>)))))))"

record shader_pdb_info =
  pd_version :: u16
  pd_compression_type :: u16
  pd_size_in_bytes :: u32
  pd_uncompressed_size_in_bytes :: u32
  pd_payload :: bytes

definition ParseShaderPdbInfo :: "blob_part \<Rightarrow> shader_pdb_info dxil_parse" where
  "ParseShaderPdbInfo part =
     (let data = bp_data part in
      require (\<not> length data < kShaderPdbInfoHeaderSize) InvalidShaderPdbInfo
       (bindP (read_u16 data 0) (\<lambda>version.
        bindP (read_u16 data 2) (\<lambda>compression_type.
        bindP (read_u32 data 4) (\<lambda>size_in_bytes.
        bindP (read_u32 data 8) (\<lambda>uncompressed_size_in_bytes.
          (case checked_end kShaderPdbInfoHeaderSize (unat size_in_bytes) (length data) of
             None \<Rightarrow> Inl (Rejected InvalidShaderPdbInfo)
           | Some payload_end \<Rightarrow>
               bindP (subspan data kShaderPdbInfoHeaderSize (unat size_in_bytes)) (\<lambda>payload.
                 Inr \<lparr> pd_version = version, pd_compression_type = compression_type, pd_size_in_bytes = size_in_bytes,
                       pd_uncompressed_size_in_bytes = uncompressed_size_in_bytes, pd_payload = payload \<rparr>))))))))"

text \<open>The loop steps by four while the offset is below the size, which is a multiple of four.\<close>

definition ParseShaderStatistics :: "blob_part \<Rightarrow> u32 list dxil_parse" where
  "ParseShaderStatistics part =
     require (length (bp_data part) mod 4 = 0) InvalidShaderStatistics
      (read_words (bp_data part) 0 (length (bp_data part) div 4))"

subsection \<open>Resource definitions\<close>

record resource_binding_info =
  rb_name :: bytes
  rb_type :: u32
  rb_return_type :: u32
  rb_dimension :: u32
  rb_num_samples :: u32
  rb_bind_point :: u32
  rb_bind_count :: u32
  rb_flags :: u32
  rb_space :: u32
  rb_id :: u32

record constant_buffer_info =
  cb_name :: bytes
  cb_variable_count :: u32
  cb_variable_offset :: u32
  cb_size :: u32
  cb_flags :: u32
  cb_type :: u32

record resource_def_info =
  rd_constant_buffer_count :: u32
  rd_constant_buffer_offset :: u32
  rd_bound_resource_count :: u32
  rd_bound_resource_offset :: u32
  rd_target :: u32
  rd_flags :: u32
  rd_creator :: bytes
  rd_resources :: "resource_binding_info list"
  rd_constant_buffers :: "constant_buffer_info list"

text \<open>\<open>if (name_offset && !ReadString(...)) return InvalidResourceDef;\<close>: no offset, no name.\<close>

definition optional_name :: "bytes \<Rightarrow> u32 \<Rightarrow> bytes dxil_parse" where
  "optional_name data name_offset =
     (if name_offset \<noteq> 0 then or_reject InvalidResourceDef (ReadString data (unat name_offset)) else Inr [])"

definition constant_buffer_at :: "bytes \<Rightarrow> nat \<Rightarrow> constant_buffer_info dxil_parse" where
  "constant_buffer_at data offset =
     bindP (read_u32 data (offset + 0)) (\<lambda>name_offset.
     bindP (read_u32 data (offset + 4)) (\<lambda>variable_count.
     bindP (read_u32 data (offset + 8)) (\<lambda>variable_offset.
     bindP (read_u32 data (offset + 12)) (\<lambda>sz.
     bindP (read_u32 data (offset + 16)) (\<lambda>flags.
     bindP (read_u32 data (offset + 20)) (\<lambda>ty.
     bindP (optional_name data name_offset) (\<lambda>name.
       Inr \<lparr> cb_name = name, cb_variable_count = variable_count, cb_variable_offset = variable_offset,
             cb_size = sz, cb_flags = flags, cb_type = ty \<rparr>)))))))"

definition resource_binding_at :: "bytes \<Rightarrow> nat \<Rightarrow> nat \<Rightarrow> resource_binding_info dxil_parse" where
  "resource_binding_at data resource_stride offset =
     bindP (read_u32 data (offset + 0)) (\<lambda>name_offset.
     bindP (read_u32 data (offset + 4)) (\<lambda>ty.
     bindP (read_u32 data (offset + 8)) (\<lambda>return_type.
     bindP (read_u32 data (offset + 12)) (\<lambda>dimension.
     bindP (read_u32 data (offset + 16)) (\<lambda>num_samples.
     bindP (read_u32 data (offset + 20)) (\<lambda>bind_point.
     bindP (read_u32 data (offset + 24)) (\<lambda>bind_count.
     bindP (read_u32 data (offset + 28)) (\<lambda>flags.
     bindP (if resource_stride \<ge> kResourceDefResourceBindingExtendedSize
            then bindP (read_u32 data (offset + 32)) (\<lambda>space.
                 bindP (read_u32 data (offset + 36)) (\<lambda>ident. Inr (space, ident)))
            else Inr (0, 0)) (\<lambda>(space, ident).
     bindP (optional_name data name_offset) (\<lambda>name.
       Inr \<lparr> rb_name = name, rb_type = ty, rb_return_type = return_type, rb_dimension = dimension,
             rb_num_samples = num_samples, rb_bind_point = bind_point, rb_bind_count = bind_count,
             rb_flags = flags, rb_space = space, rb_id = ident \<rparr>))))))))))"

definition resource_stride_of :: "u32 \<Rightarrow> nat" where
  "resource_stride_of target =
     (let shader_major = drop_bit 4 target AND 0xf; shader_minor = target AND 0xf in
      if shader_major > 5 \<or> shader_major = 5 \<and> shader_minor \<ge> 1
      then kResourceDefResourceBindingExtendedSize else kResourceDefResourceBindingSize)"

definition ParseResourceDef :: "blob_part \<Rightarrow> resource_def_info dxil_parse" where
  "ParseResourceDef part =
     (let data = bp_data part in
      require (\<not> length data < kResourceDefHeaderSize) InvalidResourceDef
       (bindP (read_u32 data 0) (\<lambda>cbuffer_count.
        bindP (read_u32 data 4) (\<lambda>cbuffer_offset.
        bindP (read_u32 data 8) (\<lambda>resource_count.
        bindP (read_u32 data 12) (\<lambda>resource_offset.
        bindP (read_u32 data 16) (\<lambda>target.
        bindP (read_u32 data 20) (\<lambda>flags.
        bindP (read_u32 data 24) (\<lambda>creator_offset.
        bindP (optional_name data creator_offset) (\<lambda>creator.
          (case checked_end (unat cbuffer_offset) (unat cbuffer_count * kResourceDefConstantBufferSize) (length data) of
             None \<Rightarrow> Inl (Rejected InvalidResourceDef)
           | Some cbuffers_end \<Rightarrow>
               (case checked_end (unat resource_offset) (unat resource_count * resource_stride_of target) (length data) of
                  None \<Rightarrow> Inl (Rejected InvalidResourceDef)
                | Some resources_end \<Rightarrow>
                    bindP (parse_each (\<lambda>i. constant_buffer_at data (unat cbuffer_offset + i * kResourceDefConstantBufferSize))
                             [0..<unat cbuffer_count]) (\<lambda>cbuffers.
                    bindP (parse_each (\<lambda>i. resource_binding_at data (resource_stride_of target)
                                              (unat resource_offset + i * resource_stride_of target))
                             [0..<unat resource_count]) (\<lambda>resources.
                      Inr \<lparr> rd_constant_buffer_count = cbuffer_count, rd_constant_buffer_offset = cbuffer_offset,
                            rd_bound_resource_count = resource_count, rd_bound_resource_offset = resource_offset,
                            rd_target = target, rd_flags = flags, rd_creator = creator,
                            rd_resources = resources, rd_constant_buffers = cbuffers \<rparr>))))))))))))))"

subsection \<open>Strings, exactly\<close>

lemma string_end_eq: "e \<le> length d \<Longrightarrow> string_end d e = e + length (takeWhile (\<lambda>c. c \<noteq> 0) (drop e d))"
proof (induction d e rule: string_end.induct)
  case (1 d e)
  show ?case
  proof (cases "e < length d \<and> d ! e \<noteq> 0")
    case True
    then have "drop e d = d ! e # drop (e + 1) d" by (simp add: Cons_nth_drop_Suc)
    with 1 True show ?thesis by (subst string_end.simps) simp
  next
    case False
    then show ?thesis
      using 1 by (subst string_end.simps) (cases "e < length d"; simp add: Cons_nth_drop_Suc [symmetric])
  qed
qed

text \<open>The bytes before the first zero, if there is one.\<close>

lemma ReadString_eq:
  "ReadString d offset =
     (if offset < length d \<and> 0 \<in> set (drop offset d) then Some (takeWhile (\<lambda>c. c \<noteq> 0) (drop offset d)) else None)"
proof (cases "offset < length d")
  case True
  define r where "r = drop offset d"
  have len: "length d = offset + length r" using True by (simp add: r_def)
  have "length (takeWhile (\<lambda>c. c \<noteq> 0) r) = length r \<longleftrightarrow> 0 \<notin> set r"
    by (metis (mono_tags, lifting) length_append add_cancel_left_right length_0_conv append_Nil2 takeWhile_dropWhile_id takeWhile_eq_all_conv)
  moreover have "take (length (takeWhile (\<lambda>c. c \<noteq> 0) r)) r = takeWhile (\<lambda>c. c \<noteq> 0) r"
    by (metis takeWhile_eq_take)
  ultimately show ?thesis
    using True len by (simp add: ReadString_def string_end_eq Let_def r_def [symmetric])
qed (simp add: ReadString_def)

text \<open>What is between the zeros, the part behind the last one included.\<close>

fun zero_pieces :: "bytes \<Rightarrow> bytes list" where
  "zero_pieces [] = [[]]"
| "zero_pieces (c # d) = (if c = 0 then [] # zero_pieces d
                          else (c # hd (zero_pieces d)) # tl (zero_pieces d))"

definition terminated :: "bytes \<Rightarrow> bool" where
  "terminated d \<longleftrightarrow> d = [] \<or> last d = 0"

lemma zero_pieces_append: "0 \<notin> set s \<Longrightarrow> zero_pieces (s @ 0 # d) = s # zero_pieces d"
  by (induction s) auto

lemma string_list_eq:
  "offset \<le> length d \<Longrightarrow> string_list d offset =
     (if terminated (drop offset d) then Some (filter (\<lambda>s. s \<noteq> []) (zero_pieces (drop offset d))) else None)"
proof (induction d offset rule: string_list.induct)
  case (1 d offset)
  consider (at_end) "offset = length d" | (zero) "offset < length d" "d ! offset = 0"
    | (string) "offset < length d" "d ! offset \<noteq> 0"
    using 1(3) by fastforce
  then show ?case
  proof cases
    case at_end
    then show ?thesis by (subst string_list.simps) (simp add: terminated_def)
  next
    case zero
    then have r: "drop offset d = 0 # drop (offset + 1) d" by (simp add: Cons_nth_drop_Suc [symmetric])
    show ?thesis
      using zero 1(1) unfolding r by (subst string_list.simps) (auto simp: terminated_def)
  next
    case string
    define s where "s = takeWhile (\<lambda>c. c \<noteq> 0) (drop offset d)"
    show ?thesis
    proof (cases "0 \<in> set (drop offset d)")
      case True
      then have read: "ReadString d offset = Some s" using string by (simp add: ReadString_eq s_def)
      have "dropWhile (\<lambda>c. c \<noteq> 0) (drop offset d) \<noteq> []" using True by (auto simp: dropWhile_eq_Nil_conv)
      then obtain rest where "dropWhile (\<lambda>c. c \<noteq> 0) (drop offset d) = 0 # rest"
        by (metis (mono_tags, lifting) hd_dropWhile list.exhaust_sel)
      then have r: "drop offset d = s @ 0 # rest" unfolding s_def by (metis takeWhile_dropWhile_id)
      have "drop (length s + 1) (drop offset d) = rest" unfolding r by simp
      then have rest: "rest = drop (offset + (length s + 1)) d" by (simp add: add.commute)
      have "0 \<notin> set s" by (auto simp: s_def dest: set_takeWhileD)
      moreover have "s \<noteq> []"
        using string by (simp add: s_def Cons_nth_drop_Suc [symmetric])
      ultimately have s: "0 \<notin> set s" "s \<noteq> []" by simp_all
      have fits: "offset + (length s + 1) \<le> length d"
        using arg_cong [OF r, of length] string by simp
      have "string_list d offset = map_option ((#) s) (string_list d (offset + (length s + 1)))"
        using string read by (subst string_list.simps) simp
      also have "string_list d (offset + (length s + 1)) =
          (if terminated rest then Some (filter (\<lambda>s. s \<noteq> []) (zero_pieces rest)) else None)"
        unfolding rest using 1(2) [OF string(1) _ read] string(2) fits by simp
      finally show ?thesis
        using s by (simp add: r zero_pieces_append terminated_def)
    next
      case False
      then have "last (drop offset d) \<noteq> 0" using string by (metis drop_eq_Nil last_in_set linorder_not_le)
      then show ?thesis
        using False string by (subst string_list.simps) (auto simp: ReadString_eq terminated_def)
    qed
  qed
qed

lemma ReadStringList_eq:
  "ReadStringList d = (if terminated d then Some (filter (\<lambda>s. s \<noteq> []) (zero_pieces d)) else None)"
  using string_list_eq [of 0 d] by (simp add: ReadStringList_def)

text \<open>The string list of the compiler version is read exactly as far as its buffer is well formed: a
  buffer that is empty or ends with a zero gives the non-empty pieces between its zeros, in order; any other is
  rejected.\<close>

theorem string_list_exact:
  "ReadStringList d =
     (if d = [] \<or> last d = 0 then Some (filter (\<lambda>s. s \<noteq> []) (zero_pieces d)) else None)"
  by (simp add: ReadStringList_eq terminated_def)

subsection \<open>No read leaves the part\<close>

lemma in_bounds_let_pair [in_bounds_intro]: "(\<And>a b. p = (a, b) \<Longrightarrow> in_bounds (f a b)) \<Longrightarrow> in_bounds (case p of (a, b) \<Rightarrow> f a b)"
  by (cases p) simp

lemma align4_ge: "n \<le> align4 n"
  unfolding align4_def by presburger

lemma signature_element_at_in_bounds [in_bounds_intro]:
  "offset + 32 \<le> length data \<Longrightarrow> in_bounds (signature_element_at data offset)"
  unfolding signature_element_at_def by (intro in_bounds_intro) auto

text \<open>Element \<open>i\<close> of \<open>n\<close> elements of \<open>s\<close> bytes each that fit.\<close>

lemma element_fits: "offset + n * s \<le> limit \<Longrightarrow> i < n \<Longrightarrow> offset + i * s + s \<le> (limit :: nat)"
  using mult_le_mono1 [of "Suc i" n s] by simp

lemma ParseSignature_in_bounds [in_bounds_intro]: "in_bounds (ParseSignature part)"
  unfolding ParseSignature_def Let_def
  by (intro in_bounds_intro) (auto simp: part_sizes dest: element_fits)

lemma ParseFeatureInfo_in_bounds [in_bounds_intro]: "in_bounds (ParseFeatureInfo part)"
  unfolding ParseFeatureInfo_def by (intro in_bounds_intro) (auto simp: part_sizes)

lemma ParseShaderHash_in_bounds [in_bounds_intro]: "in_bounds (ParseShaderHash part)"
  unfolding ParseShaderHash_def by (intro in_bounds_intro) (auto simp: part_sizes)

lemma ParseCompilerVersion_in_bounds [in_bounds_intro]: "in_bounds (ParseCompilerVersion part)"
proof -
  have "16 + align4 n \<le> m \<Longrightarrow> 16 + n \<le> m" for n m using align4_ge [of n] by linarith
  then show ?thesis
    unfolding ParseCompilerVersion_def Let_def by (intro in_bounds_intro) (auto simp: part_sizes)
qed

lemma ParseShaderDebugName_in_bounds [in_bounds_intro]: "in_bounds (ParseShaderDebugName part)"
  unfolding ParseShaderDebugName_def Let_def by (intro in_bounds_intro) (auto simp: part_sizes)

lemma source_sections_in_bounds [in_bounds_intro]:
  "aligned_size \<le> length data \<Longrightarrow> in_bounds (source_sections data aligned_size n offset)"
proof (induction n arbitrary: offset)
  case (Suc n)
  show ?case
    unfolding source_sections.simps by (intro in_bounds_intro Suc.IH) (use Suc.prems in \<open>auto simp: part_sizes\<close>)
qed simp

lemma ParseSourceInfo_in_bounds [in_bounds_intro]: "in_bounds (ParseSourceInfo part)"
  unfolding ParseSourceInfo_def Let_def by (intro in_bounds_intro) (auto simp: part_sizes)

lemma ParseShaderPdbInfo_in_bounds [in_bounds_intro]: "in_bounds (ParseShaderPdbInfo part)"
  unfolding ParseShaderPdbInfo_def Let_def by (intro in_bounds_intro) (auto simp: part_sizes)

lemma ParseShaderStatistics_in_bounds [in_bounds_intro]: "in_bounds (ParseShaderStatistics part)"
  unfolding ParseShaderStatistics_def by (intro in_bounds_intro) auto

lemma optional_name_in_bounds [in_bounds_intro]: "in_bounds (optional_name data name_offset)"
  unfolding optional_name_def by (intro in_bounds_intro)

lemma constant_buffer_at_in_bounds [in_bounds_intro]:
  "offset + 24 \<le> length data \<Longrightarrow> in_bounds (constant_buffer_at data offset)"
  unfolding constant_buffer_at_def by (intro in_bounds_intro) auto

lemma resource_binding_at_in_bounds [in_bounds_intro]:
  "offset + stride \<le> length data \<Longrightarrow> 32 \<le> stride \<Longrightarrow> in_bounds (resource_binding_at data stride offset)"
  unfolding resource_binding_at_def by (intro in_bounds_intro) (auto simp: part_sizes)

lemma resource_stride_cases: "resource_stride_of target = 32 \<or> resource_stride_of target = 40"
  by (simp add: resource_stride_of_def Let_def part_sizes)

lemma ParseResourceDef_in_bounds [in_bounds_intro]: "in_bounds (ParseResourceDef part)"
proof -
  have "32 \<le> resource_stride_of target" for target using resource_stride_cases [of target] by auto
  then show ?thesis
    unfolding ParseResourceDef_def Let_def
    by (intro in_bounds_intro) (auto simp: kResourceDefHeaderSize_def kResourceDefConstantBufferSize_def dest: element_fits)
qed

end
