(* ===== verification/RuntimeData.thy ===== *)
theory RuntimeData
  imports DxilParts
begin

text \<open>
  The runtime data (RDAT) of a DXIL library (src/libs/DXILParser/DXILParser.cpp): its parts, the string,
  index and byte buffers, and the tables, each of which is parsed into a list of records of
  \<open>RuntimeDataInfo\<close>. A reader that answers false makes every one of its callers return
  \<open>InvalidRuntimeData\<close>; the model's readers return that status themselves. The products and sums of
  \<open>size_t\<close> take its width \<open>W\<close>: 64, or 32 in the build for i386. Vectors are taken to be unbounded.
\<close>

subsection \<open>Constants\<close>

definition kRuntimeDataHeaderSize :: nat where "kRuntimeDataHeaderSize = 8"
definition kRuntimeDataPartHeaderSize :: nat where "kRuntimeDataPartHeaderSize = 8"
definition kRuntimeDataTableHeaderSize :: nat where "kRuntimeDataTableHeaderSize = 8"
definition kRdatNullRef :: u32 where "kRdatNullRef = 0xffffffff"
definition kRdatResourceRecordSize :: nat where "kRdatResourceRecordSize = 32"
definition kRdatFunctionRecordSize :: nat where "kRdatFunctionRecordSize = 44"
definition kRdatFunctionRecord2Size :: nat where "kRdatFunctionRecord2Size = 52"
definition kRdatSubobjectRecordSize :: nat where "kRdatSubobjectRecordSize = 24"
definition kRdatNodeIdRecordSize :: nat where "kRdatNodeIdRecordSize = 8"
definition kRdatNodeShaderFuncAttribRecordSize :: nat where "kRdatNodeShaderFuncAttribRecordSize = 8"
definition kRdatNodeShaderIoAttribRecordSize :: nat where "kRdatNodeShaderIoAttribRecordSize = 8"
definition kRdatIoNodeRecordSize :: nat where "kRdatIoNodeRecordSize = 8"
definition kRdatNodeShaderInfoRecordSize :: nat where "kRdatNodeShaderInfoRecordSize = 20"
definition kRdatPdbInfoSourceRecordSize :: nat where "kRdatPdbInfoSourceRecordSize = 8"
definition kRdatPdbInfoLibraryRecordSize :: nat where "kRdatPdbInfoLibraryRecordSize = 12"
definition kRdatPdbInfoRecordSize :: nat where "kRdatPdbInfoRecordSize = 44"
definition kRdatSignatureElementRecordPayloadSize :: nat where "kRdatSignatureElementRecordPayloadSize = 14"
definition kRdatVSInfoRecordSize :: nat where "kRdatVSInfoRecordSize = 16"
definition kRdatPSInfoRecordSize :: nat where "kRdatPSInfoRecordSize = 8"
definition kRdatHSInfoRecordSize :: nat where "kRdatHSInfoRecordSize = 48"
definition kRdatDSInfoRecordSize :: nat where "kRdatDSInfoRecordSize = 38"
definition kRdatGSInfoRecordSize :: nat where "kRdatGSInfoRecordSize = 28"
definition kRdatCSInfoRecordSize :: nat where "kRdatCSInfoRecordSize = 8"
definition kRdatMSInfoRecordSize :: nat where "kRdatMSInfoRecordSize = 45"
definition kRdatASInfoRecordSize :: nat where "kRdatASInfoRecordSize = 12"

definition StringBuffer :: u32 where "StringBuffer = 1"
definition IndexArrays :: u32 where "IndexArrays = 2"
definition ResourceTable :: u32 where "ResourceTable = 3"
definition FunctionTable :: u32 where "FunctionTable = 4"
definition RawBytes :: u32 where "RawBytes = 5"
definition SubobjectTable :: u32 where "SubobjectTable = 6"
definition NodeIDTable :: u32 where "NodeIDTable = 7"
definition NodeShaderIOAttribTable :: u32 where "NodeShaderIOAttribTable = 8"
definition NodeShaderFuncAttribTable :: u32 where "NodeShaderFuncAttribTable = 9"
definition IONodeTable :: u32 where "IONodeTable = 10"
definition NodeShaderInfoTable :: u32 where "NodeShaderInfoTable = 11"
definition SignatureElementTable :: u32 where "SignatureElementTable = 13"
definition VSInfoTable :: u32 where "VSInfoTable = 14"
definition PSInfoTable :: u32 where "PSInfoTable = 15"
definition HSInfoTable :: u32 where "HSInfoTable = 16"
definition DSInfoTable :: u32 where "DSInfoTable = 17"
definition GSInfoTable :: u32 where "GSInfoTable = 18"
definition CSInfoTable :: u32 where "CSInfoTable = 19"
definition MSInfoTable :: u32 where "MSInfoTable = 20"
definition ASInfoTable :: u32 where "ASInfoTable = 21"
definition DxilPdbInfoTable :: u32 where "DxilPdbInfoTable = 0x10001"
definition DxilPdbInfoSourceTable :: u32 where "DxilPdbInfoSourceTable = 0x10002"
definition DxilPdbInfoLibraryTable :: u32 where "DxilPdbInfoLibraryTable = 0x10003"

lemmas rdat_sizes = kRuntimeDataHeaderSize_def kRuntimeDataPartHeaderSize_def kRuntimeDataTableHeaderSize_def
  kRdatResourceRecordSize_def kRdatFunctionRecordSize_def kRdatFunctionRecord2Size_def kRdatSubobjectRecordSize_def
  kRdatNodeIdRecordSize_def kRdatNodeShaderFuncAttribRecordSize_def kRdatNodeShaderIoAttribRecordSize_def
  kRdatIoNodeRecordSize_def kRdatNodeShaderInfoRecordSize_def kRdatPdbInfoSourceRecordSize_def
  kRdatPdbInfoLibraryRecordSize_def kRdatPdbInfoRecordSize_def kRdatSignatureElementRecordPayloadSize_def
  kRdatVSInfoRecordSize_def kRdatPSInfoRecordSize_def kRdatHSInfoRecordSize_def kRdatDSInfoRecordSize_def
  kRdatGSInfoRecordSize_def kRdatCSInfoRecordSize_def kRdatMSInfoRecordSize_def kRdatASInfoRecordSize_def

lemmas rdat_types = StringBuffer_def IndexArrays_def ResourceTable_def FunctionTable_def RawBytes_def SubobjectTable_def
  NodeIDTable_def NodeShaderIOAttribTable_def NodeShaderFuncAttribTable_def IONodeTable_def NodeShaderInfoTable_def
  SignatureElementTable_def VSInfoTable_def PSInfoTable_def HSInfoTable_def DSInfoTable_def GSInfoTable_def
  CSInfoTable_def MSInfoTable_def ASInfoTable_def DxilPdbInfoTable_def DxilPdbInfoSourceTable_def
  DxilPdbInfoLibraryTable_def

definition IsRdatTablePart :: "u32 \<Rightarrow> bool" where
  "IsRdatTablePart ty \<longleftrightarrow>
     ty \<in> {3, 4, 6, 7, 8, 9, 10, 11, 12, 13, 14, 15, 16, 17, 18, 19, 20, 21, 0x10001, 0x10002, 0x10003}"

subsection \<open>The arithmetic of \<open>size_t\<close>\<close>

definition size_mul :: "nat \<Rightarrow> nat \<Rightarrow> nat \<Rightarrow> nat" where
  "size_mul W a b = a * b mod 2 ^ W"

definition size_align4 :: "nat \<Rightarrow> nat \<Rightarrow> nat" where
  "size_align4 W n = (n + 3) mod 2 ^ W div 4 * 4"

subsection \<open>The data\<close>

record runtime_part =
  rp_type :: u32
  rp_size :: u32
  rp_data :: bytes
  rp_is_table :: bool
  rp_record_count :: u32
  rp_record_stride :: u32
  rp_table_data :: bytes

record rdat_resource =
  rr_name :: bytes
  rr_resource_class :: u32
  rr_kind :: u32
  rr_id :: u32
  rr_space :: u32
  rr_lower_bound :: u32
  rr_upper_bound :: u32
  rr_flags :: u32

record rdat_function =
  rf_name :: bytes
  rf_unmangled_name :: bytes
  rf_resource_indices :: "u32 list"
  rf_function_dependencies :: "bytes list"
  rf_shader_kind :: u32
  rf_payload_size_in_bytes :: u32
  rf_attribute_size_in_bytes :: u32
  rf_feature_info1 :: u32
  rf_feature_info2 :: u32
  rf_shader_stage_flag :: u32
  rf_min_shader_target :: u32
  rf_minimum_expected_wave_lane_count :: u8
  rf_maximum_expected_wave_lane_count :: u8
  rf_shader_flags :: u16
  rf_has_shader_info :: bool
  rf_shader_info_table_type :: u32
  rf_shader_info_index :: u32

record rdat_signature_element =
  rs_semantic_name :: bytes
  rs_semantic_indices :: "u32 list"
  rs_semantic_kind :: u8
  rs_component_type :: u8
  rs_interpolation_mode :: u8
  rs_start_row :: u8
  rs_cols :: u8
  rs_start_col :: u8
  rs_output_stream :: u8
  rs_usage_mask :: u8
  rs_dynamic_index_mask :: u8

record rdat_shader_info =
  sh_table_type :: u32
  sh_record_index :: u32
  sh_input_signature_indices :: "u32 list"
  sh_output_signature_indices :: "u32 list"
  sh_patch_constant_signature_indices :: "u32 list"
  sh_primitive_signature_indices :: "u32 list"
  sh_view_id_output_mask :: bytes
  sh_view_id_patch_constant_output_mask :: bytes
  sh_view_id_primitive_output_mask :: bytes
  sh_input_to_output_masks :: bytes
  sh_input_to_patch_constant_output_masks :: bytes
  sh_patch_constant_input_to_output_masks :: bytes
  sh_num_threads :: "u32 \<times> u32 \<times> u32"
  sh_group_shared_bytes_used :: u32
  sh_group_shared_bytes_dependent_on_view_id :: u32
  sh_payload_size_in_bytes :: u32
  sh_max_output_vertices :: u16
  sh_max_output_primitives :: u16
  sh_input_control_point_count :: u8
  sh_output_control_point_count :: u8
  sh_tessellator_domain :: u8
  sh_tessellator_output_primitive :: u8
  sh_input_primitive :: u8
  sh_output_topology :: u8
  sh_max_vertex_count :: u8
  sh_output_stream_mask :: u8
  sh_mesh_output_topology :: u8

record rdat_subobject =
  ro_kind :: u32
  ro_name :: bytes
  ro_state_object_flags :: u32
  ro_root_signature :: bytes
  ro_associated_subobject :: bytes
  ro_associated_exports :: "bytes list"
  ro_max_payload_size_in_bytes :: u32
  ro_max_attribute_size_in_bytes :: u32
  ro_max_trace_recursion_depth :: u32
  ro_raytracing_pipeline_flags :: u32
  ro_hit_group_type :: u32
  ro_any_hit :: bytes
  ro_closest_hit :: bytes
  ro_intersection :: bytes

record rdat_node_id =
  rn_name :: bytes
  rn_index :: u32

record rdat_function_attribute =
  ra_kind :: u32
  ra_node_id_index :: u32
  ra_values :: "u32 list"
  ra_value :: u32

record rdat_dispatch_grid =
  dg_byte_offset :: u16
  dg_component_count :: u8
  dg_component_type :: u16

record rdat_io_attribute =
  ri_kind :: u32
  ri_node_id_index :: u32
  ri_value :: u32
  ri_record_dispatch_grid :: rdat_dispatch_grid

record rdat_io_node =
  rio_io_flags_and_kind :: u32
  rio_attribute_indices :: "u32 list"

record rdat_node_shader_info =
  ns_launch_type :: u32
  ns_group_shared_bytes_used :: u32
  ns_attribute_indices :: "u32 list"
  ns_output_indices :: "u32 list"
  ns_input_indices :: "u32 list"

record rdat_pdb_source =
  ps_name :: bytes
  ps_content :: bytes

record rdat_pdb_library =
  pl_name :: bytes
  pl_data :: bytes

record rdat_pdb_info =
  pb_source_indices :: "u32 list"
  pb_library_indices :: "u32 list"
  pb_arg_pairs :: "bytes list"
  pb_hash :: bytes
  pb_pdb_name :: bytes
  pb_custom_toolchain_id :: u32
  pb_custom_toolchain_data :: bytes
  pb_whole_dxil :: bytes

record runtime_data =
  ri_version :: u32
  ri_part_count :: u32
  ri_parts :: "runtime_part list"
  ri_resources :: "rdat_resource list"
  ri_functions :: "rdat_function list"
  ri_signature_elements :: "rdat_signature_element list"
  ri_shader_infos :: "rdat_shader_info list"
  ri_subobjects :: "rdat_subobject list"
  ri_node_ids :: "rdat_node_id list"
  ri_node_function_attributes :: "rdat_function_attribute list"
  ri_node_io_attributes :: "rdat_io_attribute list"
  ri_io_nodes :: "rdat_io_node list"
  ri_node_shader_infos :: "rdat_node_shader_info list"
  ri_pdb_sources :: "rdat_pdb_source list"
  ri_pdb_libraries :: "rdat_pdb_library list"
  ri_pdb_infos :: "rdat_pdb_info list"

text \<open>The value-initialised records the parsers fill in.\<close>

definition empty_shader_info :: rdat_shader_info where
  "empty_shader_info =
     \<lparr> sh_table_type = 0, sh_record_index = 0, sh_input_signature_indices = [], sh_output_signature_indices = [],
       sh_patch_constant_signature_indices = [], sh_primitive_signature_indices = [], sh_view_id_output_mask = [],
       sh_view_id_patch_constant_output_mask = [], sh_view_id_primitive_output_mask = [], sh_input_to_output_masks = [],
       sh_input_to_patch_constant_output_masks = [], sh_patch_constant_input_to_output_masks = [],
       sh_num_threads = (1, 1, 1), sh_group_shared_bytes_used = 0, sh_group_shared_bytes_dependent_on_view_id = 0,
       sh_payload_size_in_bytes = 0, sh_max_output_vertices = 0, sh_max_output_primitives = 0,
       sh_input_control_point_count = 0, sh_output_control_point_count = 0, sh_tessellator_domain = 0,
       sh_tessellator_output_primitive = 0, sh_input_primitive = 0, sh_output_topology = 0, sh_max_vertex_count = 0,
       sh_output_stream_mask = 0, sh_mesh_output_topology = 0 \<rparr>"

definition empty_subobject :: rdat_subobject where
  "empty_subobject =
     \<lparr> ro_kind = 0, ro_name = [], ro_state_object_flags = 0, ro_root_signature = [], ro_associated_subobject = [],
       ro_associated_exports = [], ro_max_payload_size_in_bytes = 0, ro_max_attribute_size_in_bytes = 0,
       ro_max_trace_recursion_depth = 0, ro_raytracing_pipeline_flags = 0, ro_hit_group_type = 0, ro_any_hit = [],
       ro_closest_hit = [], ro_intersection = [] \<rparr>"

definition empty_dispatch_grid :: rdat_dispatch_grid where
  "empty_dispatch_grid = \<lparr> dg_byte_offset = 0, dg_component_count = 0, dg_component_type = 0 \<rparr>"

subsection \<open>Readers\<close>

definition find_rdat_part :: "runtime_data \<Rightarrow> u32 \<Rightarrow> runtime_part option" where
  "find_rdat_part info ty = List.find (\<lambda>p. rp_type p = ty) (ri_parts info)"

definition findShaderInfo :: "runtime_data \<Rightarrow> u32 \<Rightarrow> u32 \<Rightarrow> rdat_shader_info option" where
  "findShaderInfo info table_type record_index =
     List.find (\<lambda>s. sh_table_type s = table_type \<and> sh_record_index s = record_index) (ri_shader_infos info)"

abbreviation invalid_rdat :: "'a dxil_parse" where
  "invalid_rdat \<equiv> Inl (Rejected InvalidRuntimeData)"

definition readString :: "runtime_data \<Rightarrow> u32 \<Rightarrow> bytes dxil_parse" where
  "readString info offset =
     (case find_rdat_part info StringBuffer of
        None \<Rightarrow> invalid_rdat
      | Some strings \<Rightarrow> or_reject InvalidRuntimeData (ReadString (rp_data strings) (unat offset)))"

definition readIndexArray :: "runtime_data \<Rightarrow> u32 \<Rightarrow> u32 list dxil_parse" where
  "readIndexArray info offset =
     (case find_rdat_part info IndexArrays of
        None \<Rightarrow> invalid_rdat
      | Some indices \<Rightarrow>
          (let data = rp_data indices; count = length data div 4 in
           require (offset \<noteq> kRdatNullRef) InvalidRuntimeData
            (require (\<not> (count < 1 \<or> unat offset \<ge> count - 1)) InvalidRuntimeData
              (bindP (read_u32 data (unat offset * 4)) (\<lambda>element_count.
                require (\<not> unat element_count > count - unat offset - 1) InvalidRuntimeData
                 (read_words data (unat offset * 4 + 4) (unat element_count)))))))"

definition readBytes :: "runtime_data \<Rightarrow> u32 \<Rightarrow> u32 \<Rightarrow> bytes dxil_parse" where
  "readBytes info offset sz =
     (case find_rdat_part info RawBytes of
        None \<Rightarrow> invalid_rdat
      | Some raw_bytes \<Rightarrow>
          (case checked_end (unat offset) (unat sz) (length (rp_data raw_bytes)) of
             None \<Rightarrow> invalid_rdat
           | Some e \<Rightarrow> subspan (rp_data raw_bytes) (unat offset) (unat sz)))"

definition ReadNullableRdatString :: "runtime_data \<Rightarrow> u32 \<Rightarrow> bytes dxil_parse" where
  "ReadNullableRdatString info offset = (if offset = kRdatNullRef then Inr [] else readString info offset)"

definition ReadNullableRdatIndexArray :: "runtime_data \<Rightarrow> u32 \<Rightarrow> u32 list dxil_parse" where
  "ReadNullableRdatIndexArray info offset = (if offset = kRdatNullRef then Inr [] else readIndexArray info offset)"

definition ReadNullableRdatStringArray :: "runtime_data \<Rightarrow> u32 \<Rightarrow> bytes list dxil_parse" where
  "ReadNullableRdatStringArray info offset =
     bindP (ReadNullableRdatIndexArray info offset) (parse_each (ReadNullableRdatString info))"

definition ReadNullableRdatRecordArray :: "runtime_data \<Rightarrow> u32 \<Rightarrow> nat \<Rightarrow> u32 list dxil_parse" where
  "ReadNullableRdatRecordArray info offset record_count =
     bindP (ReadNullableRdatIndexArray info offset) (\<lambda>out.
       require (\<forall>index\<in>set out. \<not> unat index \<ge> record_count) InvalidRuntimeData (Inr out))"

definition ReadNullableRdatBytes :: "runtime_data \<Rightarrow> u32 \<Rightarrow> u32 \<Rightarrow> bytes dxil_parse" where
  "ReadNullableRdatBytes info offset sz =
     (if sz = 0 then Inr []
      else require (offset \<noteq> kRdatNullRef) InvalidRuntimeData (readBytes info offset sz))"

definition ReadRdatNumThreads :: "runtime_data \<Rightarrow> u32 \<Rightarrow> (u32 \<times> u32 \<times> u32) dxil_parse" where
  "ReadRdatNumThreads info offset =
     bindP (ReadNullableRdatIndexArray info offset) (\<lambda>vs.
       Inr (if length vs > 0 then vs ! 0 else 1, if length vs > 1 then vs ! 1 else 1,
            if length vs > 2 then vs ! 2 else 1))"

definition ReadRdatSignatureArray :: "runtime_data \<Rightarrow> u32 \<Rightarrow> u32 list dxil_parse" where
  "ReadRdatSignatureArray info offset = ReadNullableRdatRecordArray info offset (length (ri_signature_elements info))"

text \<open>The same readers, at a reference stored in a record: \<open>ReadNullableRdatString(info, ReadU32(record, k), ...)\<close>.\<close>

definition string_at :: "runtime_data \<Rightarrow> bytes \<Rightarrow> nat \<Rightarrow> bytes dxil_parse" where
  "string_at info record k = bindP (read_u32 record k) (ReadNullableRdatString info)"

definition strings_at :: "runtime_data \<Rightarrow> bytes \<Rightarrow> nat \<Rightarrow> bytes list dxil_parse" where
  "strings_at info record k = bindP (read_u32 record k) (ReadNullableRdatStringArray info)"

definition indices_at :: "runtime_data \<Rightarrow> bytes \<Rightarrow> nat \<Rightarrow> nat \<Rightarrow> u32 list dxil_parse" where
  "indices_at info record k record_count =
     bindP (read_u32 record k) (\<lambda>offset. ReadNullableRdatRecordArray info offset record_count)"

definition signature_at :: "runtime_data \<Rightarrow> bytes \<Rightarrow> nat \<Rightarrow> u32 list dxil_parse" where
  "signature_at info record k = bindP (read_u32 record k) (ReadRdatSignatureArray info)"

definition threads_at :: "runtime_data \<Rightarrow> bytes \<Rightarrow> nat \<Rightarrow> (u32 \<times> u32 \<times> u32) dxil_parse" where
  "threads_at info record k = bindP (read_u32 record k) (ReadRdatNumThreads info)"

definition bytes_at :: "runtime_data \<Rightarrow> bytes \<Rightarrow> nat \<Rightarrow> nat \<Rightarrow> bytes dxil_parse" where
  "bytes_at info record k k' =
     bindP (read_u32 record k) (\<lambda>offset. bindP (read_u32 record k') (\<lambda>sz. ReadNullableRdatBytes info offset sz))"

end
