(* ===== verification/RuntimeProps.thy ===== *)
theory RuntimeProps
  imports RuntimeTables
begin

text \<open>
  What the parser of the runtime data guarantees: at 64 bits no read leaves the part, whatever its bytes;
  every index kept in a record names a record that exists, so the consumers
  (src/src/d3d12/d3d12_root_signature.cpp, src/src/airconv) may use it without a test; at 32 bits the
  product of record count and stride wraps and the tables are read out of bounds.
\<close>

subsection \<open>Parts whose records fit\<close>

definition part_ok :: "runtime_part \<Rightarrow> bool" where
  "part_ok p \<longleftrightarrow>
     (rp_is_table p \<longrightarrow> unat (rp_record_count p) * unat (rp_record_stride p) \<le> length (rp_table_data p))"

definition parts_ok :: "runtime_data \<Rightarrow> bool" where
  "parts_ok info \<longleftrightarrow> (\<forall>p \<in> set (ri_parts info). part_ok p)"

lemma size_mul_64: "a < 2 ^ 32 \<Longrightarrow> b < 2 ^ 32 \<Longrightarrow> size_mul 64 a b = a * b"
  using mult_strict_mono [of a "2 ^ 32" b "2 ^ 32"] by (simp add: size_mul_def)

lemma unat_u32: "unat (x :: u32) < 2 ^ 32"
  using unsigned_less [of x] by simp

lemma size_align4_64: "n < 2 ^ 32 \<Longrightarrow> size_align4 64 n = align4 n"
  by (simp add: size_align4_def align4_def)

lemma subspan_Inr: "subspan d i n = Inr s \<longleftrightarrow> i + n \<le> length d \<and> s = take n (drop i d)"
  by (auto simp: subspan_def)

lemma subspan_length: "subspan d i n = Inr s \<Longrightarrow> length s = n"
  by (auto simp: subspan_Inr)

lemma find_rdat_part_in: "find_rdat_part info ty = Some p \<Longrightarrow> p \<in> set (ri_parts info)"
  by (auto simp: find_rdat_part_def find_Some_iff)

lemma record_fits:
  assumes "part_ok p" "rp_is_table p" "i < unat (rp_record_count p)" "n \<le> unat (rp_record_stride p)"
  shows "size_mul 64 i (unat (rp_record_stride p)) + n \<le> length (rp_table_data p)"
proof -
  have "i < 2 ^ 32" using assms(3) unat_u32 less_trans by blast
  then have "size_mul 64 i (unat (rp_record_stride p)) = i * unat (rp_record_stride p)"
    using unat_u32 by (intro size_mul_64)
  moreover have "i * unat (rp_record_stride p) + unat (rp_record_stride p) \<le> length (rp_table_data p)"
    using element_fits [of 0 "unat (rp_record_count p)" "unat (rp_record_stride p)" "length (rp_table_data p)" i] assms
    by (simp add: part_ok_def)
  ultimately show ?thesis using assms(4) by linarith
qed

subsection \<open>No read leaves the part\<close>

lemma in_bounds_option [in_bounds_intro]:
  "(x = None \<Longrightarrow> in_bounds p) \<Longrightarrow> (\<And>a. x = Some a \<Longrightarrow> in_bounds (f a))
     \<Longrightarrow> in_bounds (case x of None \<Rightarrow> p | Some a \<Rightarrow> f a)"
  by (cases x) simp_all

lemma readString_in_bounds [in_bounds_intro]: "in_bounds (readString info offset)"
  unfolding readString_def by (intro in_bounds_intro)

lemma readIndexArray_in_bounds [in_bounds_intro]: "in_bounds (readIndexArray info offset)"
  unfolding readIndexArray_def Let_def by (intro in_bounds_intro) auto

lemma readBytes_in_bounds [in_bounds_intro]: "in_bounds (readBytes info offset sz)"
  unfolding readBytes_def by (auto intro!: in_bounds_intro)

lemma nullable_in_bounds [in_bounds_intro]:
  "in_bounds (ReadNullableRdatString info offset)"
  "in_bounds (ReadNullableRdatIndexArray info offset)"
  "in_bounds (ReadNullableRdatBytes info offset sz)"
  unfolding ReadNullableRdatString_def ReadNullableRdatIndexArray_def ReadNullableRdatBytes_def
  by (intro in_bounds_intro)+

lemma arrays_in_bounds [in_bounds_intro]:
  "in_bounds (ReadNullableRdatStringArray info offset)"
  "in_bounds (ReadNullableRdatRecordArray info offset n)"
  "in_bounds (ReadRdatNumThreads info offset)"
  "in_bounds (ReadRdatSignatureArray info offset)"
  unfolding ReadNullableRdatStringArray_def ReadNullableRdatRecordArray_def ReadRdatNumThreads_def ReadRdatSignatureArray_def
  by (intro in_bounds_intro)+

lemma references_in_bounds [in_bounds_intro]:
  "k + 4 \<le> length record \<Longrightarrow> in_bounds (string_at info record k)"
  "k + 4 \<le> length record \<Longrightarrow> in_bounds (strings_at info record k)"
  "k + 4 \<le> length record \<Longrightarrow> in_bounds (indices_at info record k n)"
  "k + 4 \<le> length record \<Longrightarrow> in_bounds (signature_at info record k)"
  "k + 4 \<le> length record \<Longrightarrow> in_bounds (threads_at info record k)"
  "k + 4 \<le> length record \<Longrightarrow> k' + 4 \<le> length record \<Longrightarrow> in_bounds (bytes_at info record k k')"
  unfolding string_at_def strings_at_def indices_at_def signature_at_def threads_at_def bytes_at_def
  by (intro in_bounds_intro; simp)+

lemma table_records_in_bounds [in_bounds_intro]:
  assumes "parts_ok info"
    and "\<And>table i record. part_ok table \<Longrightarrow> rp_is_table table \<Longrightarrow> i < unat (rp_record_count table) \<Longrightarrow>
           minimum \<le> unat (rp_record_stride table) \<Longrightarrow> length record = minimum \<Longrightarrow> in_bounds (read_record table i record)"
  shows "in_bounds (table_records 64 info ty minimum read_record)"
  unfolding table_records_def
proof (intro in_bounds_intro)
  fix table i
  assume table: "find_rdat_part info ty = Some table"
    and stride: "\<not> (\<not> rp_is_table table \<or> unat (rp_record_stride table) < minimum)"
    and i: "i \<in> set [0..<unat (rp_record_count table)]"
  have ok: "part_ok table" using assms(1) find_rdat_part_in [OF table] by (simp add: parts_ok_def)
  show "size_mul 64 i (unat (rp_record_stride table)) + minimum \<le> length (rp_table_data table)"
    using record_fits [OF ok] i stride by simp
  fix r
  assume "subspan (rp_table_data table) (size_mul 64 i (unat (rp_record_stride table))) minimum = Inr r"
  then show "in_bounds (read_record table i r)"
    using assms(2) [OF ok] stride i by (simp add: subspan_length)
qed

lemma plain_records_in_bounds [in_bounds_intro]:
  "length record = 32 \<Longrightarrow> in_bounds (resource_record info record)"
  "length record = 8 \<Longrightarrow> in_bounds (node_id_record info record)"
  "length record = 8 \<Longrightarrow> in_bounds (function_attribute_record info record)"
  "length record = 8 \<Longrightarrow> in_bounds (io_attribute_record info record)"
  "length record = 8 \<Longrightarrow> in_bounds (io_node_record info record)"
  "length record = 20 \<Longrightarrow> in_bounds (node_shader_record info record)"
  "length record = 14 \<Longrightarrow> in_bounds (signature_element_record info record)"
  "length record = 8 \<Longrightarrow> in_bounds (pdb_source_record info record)"
  "length record = 12 \<Longrightarrow> in_bounds (pdb_library_record info record)"
  "length record = 44 \<Longrightarrow> in_bounds (pdb_info_record info record)"
  unfolding resource_record_def node_id_record_def function_attribute_record_def io_attribute_record_def io_node_record_def
    node_shader_record_def signature_element_record_def pdb_source_record_def pdb_library_record_def pdb_info_record_def Let_def
  by (intro in_bounds_intro; simp)+

lemma subobject_record_in_bounds [in_bounds_intro]:
  "length record = 24 \<Longrightarrow> in_bounds (subobject_record info record)"
  unfolding subobject_record_def Let_def by (intro in_bounds_intro) (auto dest: subspan_length)

lemma stage_records_in_bounds [in_bounds_intro]:
  "length record = 16 \<Longrightarrow> in_bounds (vs_record info record shader)"
  "length record = 8 \<Longrightarrow> in_bounds (ps_record info record shader)"
  "length record = 48 \<Longrightarrow> in_bounds (hs_record info record shader)"
  "length record = 38 \<Longrightarrow> in_bounds (ds_record info record shader)"
  "length record = 28 \<Longrightarrow> in_bounds (gs_record info record shader)"
  "length record = 8 \<Longrightarrow> in_bounds (cs_record info record shader)"
  "length record = 45 \<Longrightarrow> in_bounds (ms_record info record shader)"
  "length record = 12 \<Longrightarrow> in_bounds (as_record info record shader)"
  unfolding vs_record_def ps_record_def hs_record_def ds_record_def gs_record_def cs_record_def ms_record_def as_record_def
  by (intro in_bounds_intro; simp)+

lemma shader_info_record_in_bounds:
  assumes "(ty, minimum) \<in> set shader_info_tables" "length record = minimum"
  shows "in_bounds (shader_info_record info ty i record)"
proof -
  from assms(1) consider "ty = VSInfoTable" "minimum = 16" | "ty = PSInfoTable" "minimum = 8"
    | "ty = HSInfoTable" "minimum = 48" | "ty = DSInfoTable" "minimum = 38" | "ty = GSInfoTable" "minimum = 28"
    | "ty = CSInfoTable" "minimum = 8" | "ty = MSInfoTable" "minimum = 45" | "ty = ASInfoTable" "minimum = 12"
    by (auto simp: shader_info_tables_def rdat_sizes)
  then show ?thesis
    using assms(2) by cases (simp_all add: shader_info_record_def Let_def rdat_types stage_records_in_bounds)
qed

lemma function_record_in_bounds [in_bounds_intro]:
  assumes "part_ok table" "rp_is_table table" "i < unat (rp_record_count table)" "length record = 44"
  shows "in_bounds (function_record 64 info table i record)"
proof -
  have "in_bounds (function_record2 64 table i kind)" for kind
    unfolding function_record2_def
    using record_fits [OF assms(1-3)]
    by (intro in_bounds_intro) (auto simp: kRdatFunctionRecord2Size_def dest: subspan_length)
  then show ?thesis
    unfolding function_record_def Let_def by (intro in_bounds_intro) (use assms in auto)
qed

subsection \<open>The tables leave the parts alone\<close>

lemma run_parsers_invariant:
  assumes "P a" "run_parsers ps a = Inr b" "\<And>p x y. p \<in> set ps \<Longrightarrow> P x \<Longrightarrow> p x = Inr y \<Longrightarrow> P y"
  shows "P b"
  using assms
proof (induction ps arbitrary: a)
  case (Cons p ps)
  then obtain c where c: "p a = Inr c" "run_parsers ps c = Inr b" by (auto simp: bindP_Inr)
  show ?case
    by (rule Cons.IH [OF _ c(2)]) (use Cons.prems c(1) in auto)
qed simp

lemma run_parsers_in_bounds:
  assumes "P a" "\<And>p x. p \<in> set ps \<Longrightarrow> P x \<Longrightarrow> in_bounds (p x)" "\<And>p x y. p \<in> set ps \<Longrightarrow> P x \<Longrightarrow> p x = Inr y \<Longrightarrow> P y"
  shows "in_bounds (run_parsers ps a)"
  using assms
proof (induction ps arbitrary: a)
  case (Cons p ps)
  have "in_bounds (run_parsers ps b)" if "p a = Inr b" for b
  proof (rule Cons.IH)
    show "P b" by (rule Cons.prems(3) [of p a]) (use Cons.prems(1) that in simp_all)
    show "in_bounds (q x)" if "q \<in> set ps" "P x" for q x by (rule Cons.prems(2)) (use that in simp_all)
    show "P y" if "q \<in> set ps" "P x" "q x = Inr y" for q x y by (rule Cons.prems(3) [of q x]) (use that in simp_all)
  qed
  then show ?case using Cons.prems by (auto intro!: in_bounds_bind)
qed simp

lemmas table_parsers = ParseRuntimeDataResourceTable_def ParseRuntimeDataSubobjectTable_def ParseRuntimeDataNodeIdTable_def
  ParseRuntimeDataNodeShaderFuncAttribTable_def ParseRuntimeDataNodeShaderIoAttribTable_def ParseRuntimeDataIoNodeTable_def
  ParseRuntimeDataNodeShaderInfoTable_def ParseRuntimeDataSignatureElementTable_def ParseRuntimeDataFunctionTable_def
  ParseRuntimeDataPdbSourceTable_def ParseRuntimeDataPdbLibraryTable_def ParseRuntimeDataPdbInfoTable_def

lemma table_parts:
  "ParseRuntimeDataResourceTable W a = Inr b \<Longrightarrow> ri_parts b = ri_parts a"
  "ParseRuntimeDataSubobjectTable W a = Inr b \<Longrightarrow> ri_parts b = ri_parts a"
  "ParseRuntimeDataNodeIdTable W a = Inr b \<Longrightarrow> ri_parts b = ri_parts a"
  "ParseRuntimeDataNodeShaderFuncAttribTable W a = Inr b \<Longrightarrow> ri_parts b = ri_parts a"
  "ParseRuntimeDataNodeShaderIoAttribTable W a = Inr b \<Longrightarrow> ri_parts b = ri_parts a"
  "ParseRuntimeDataIoNodeTable W a = Inr b \<Longrightarrow> ri_parts b = ri_parts a"
  "ParseRuntimeDataNodeShaderInfoTable W a = Inr b \<Longrightarrow> ri_parts b = ri_parts a"
  "ParseRuntimeDataSignatureElementTable W a = Inr b \<Longrightarrow> ri_parts b = ri_parts a"
  "ParseRuntimeDataFunctionTable W a = Inr b \<Longrightarrow> ri_parts b = ri_parts a"
  "ParseRuntimeDataPdbSourceTable W a = Inr b \<Longrightarrow> ri_parts b = ri_parts a"
  "ParseRuntimeDataPdbLibraryTable W a = Inr b \<Longrightarrow> ri_parts b = ri_parts a"
  "ParseRuntimeDataPdbInfoTable W a = Inr b \<Longrightarrow> ri_parts b = ri_parts a"
  by (auto simp: table_parsers bindP_Inr split: option.splits)

lemma shader_table_parts: "ParseRuntimeDataShaderInfoTable W t a = Inr b \<Longrightarrow> ri_parts b = ri_parts a"
  by (cases t) (auto simp: ParseRuntimeDataShaderInfoTable_def bindP_Inr split: option.splits)

lemma shader_tables_parts:
  assumes "ParseRuntimeDataShaderInfoTables W a = Inr b"
  shows "ri_parts b = ri_parts a"
  by (rule run_parsers_invariant [of "\<lambda>x. ri_parts x = ri_parts a", OF _ assms [unfolded ParseRuntimeDataShaderInfoTables_def]])
    (auto dest: shader_table_parts)

lemma pdb_tables_parts:
  assumes "ParseRuntimeDataPdbInfoTables W a = Inr b"
  shows "ri_parts b = ri_parts a"
  by (rule run_parsers_invariant [of "\<lambda>x. ri_parts x = ri_parts a", OF _ assms [unfolded ParseRuntimeDataPdbInfoTables_def]])
    (auto dest: table_parts)

lemmas all_table_parts = table_parts shader_tables_parts pdb_tables_parts

lemma parts_ok_cong: "ri_parts b = ri_parts a \<Longrightarrow> parts_ok b = parts_ok a"
  by (simp add: parts_ok_def)

lemma parts_ok_update [simp]: "parts_ok (info \<lparr> ri_shader_infos := l \<rparr>) = parts_ok info"
  by (simp add: parts_ok_def)

lemma tables_in_bounds:
  assumes "parts_ok a"
  shows "in_bounds (ParseRuntimeDataResourceTable 64 a)" "in_bounds (ParseRuntimeDataSubobjectTable 64 a)"
    "in_bounds (ParseRuntimeDataNodeIdTable 64 a)" "in_bounds (ParseRuntimeDataNodeShaderFuncAttribTable 64 a)"
    "in_bounds (ParseRuntimeDataNodeShaderIoAttribTable 64 a)" "in_bounds (ParseRuntimeDataIoNodeTable 64 a)"
    "in_bounds (ParseRuntimeDataNodeShaderInfoTable 64 a)" "in_bounds (ParseRuntimeDataSignatureElementTable 64 a)"
    "in_bounds (ParseRuntimeDataFunctionTable 64 a)" "in_bounds (ParseRuntimeDataPdbSourceTable 64 a)"
    "in_bounds (ParseRuntimeDataPdbLibraryTable 64 a)" "in_bounds (ParseRuntimeDataPdbInfoTable 64 a)"
  unfolding table_parsers rdat_sizes by (intro in_bounds_intro assms; assumption?)+

lemma shader_table_in_bounds:
  assumes "parts_ok a" "t \<in> set shader_info_tables"
  shows "in_bounds (ParseRuntimeDataShaderInfoTable 64 t a)"
proof (cases t)
  case (Pair ty minimum)
  show ?thesis
    unfolding ParseRuntimeDataShaderInfoTable_def Pair prod.case
    by (intro in_bounds_intro shader_info_record_in_bounds [of ty minimum]) (use assms in \<open>simp_all add: Pair\<close>)
qed

lemma shader_tables_in_bounds:
  assumes "parts_ok a"
  shows "in_bounds (ParseRuntimeDataShaderInfoTables 64 a)"
  unfolding ParseRuntimeDataShaderInfoTables_def
  by (rule run_parsers_in_bounds [of parts_ok])
    (use assms in \<open>auto intro: shader_table_in_bounds simp: parts_ok_cong [OF shader_table_parts]\<close>)

lemma pdb_tables_in_bounds:
  assumes "parts_ok a"
  shows "in_bounds (ParseRuntimeDataPdbInfoTables 64 a)"
  unfolding ParseRuntimeDataPdbInfoTables_def
  by (rule run_parsers_in_bounds [of parts_ok])
    (use assms in \<open>auto intro: tables_in_bounds simp: table_parts [THEN parts_ok_cong]\<close>)

lemma core_tables_in_bounds:
  assumes "parts_ok a"
  shows "in_bounds (ParseRuntimeDataCoreTables 64 a)"
  unfolding ParseRuntimeDataCoreTables_def
  by (rule run_parsers_in_bounds [of parts_ok])
    (use assms in \<open>auto intro: tables_in_bounds shader_tables_in_bounds pdb_tables_in_bounds
       simp: all_table_parts [THEN parts_ok_cong]\<close>)

subsection \<open>Splitting the part\<close>

lemma table_header_in_bounds [in_bounds_intro]: "in_bounds (table_header W data)"
  unfolding table_header_def by (intro in_bounds_intro) (auto simp: rdat_sizes)

lemma parse_rdat_part_in_bounds [in_bounds_intro]:
  assumes "8 + 4 * i + 4 \<le> length data" "i < 2 ^ 32"
  shows "in_bounds (parse_rdat_part 64 data offset_table_end i)"
proof -
  have [simp]: "size_mul 64 i 4 = i * 4" by (rule size_mul_64) (use assms(2) in simp_all)
  have "size_align4 64 (unat sz) = align4 (unat sz)" for sz :: u32 by (rule size_align4_64) (rule unat_u32)
  moreover have "a + align4 n \<le> m \<Longrightarrow> a + n \<le> m" for a n m using align4_ge [of n] by linarith
  ultimately show ?thesis
    unfolding parse_rdat_part_def by (intro in_bounds_intro) (use assms(1) in \<open>auto simp: rdat_sizes\<close>)
qed

lemma table_header_ok:
  "table_header 64 data = Inr (n, stride, d) \<Longrightarrow> unat n * unat stride \<le> length d"
  using size_mul_64 [OF unat_u32 [of n] unat_u32 [of stride]]
  by (auto simp: table_header_def bindP_Inr require_Inr checked_end_Some subspan_Inr split: option.splits)

lemma parse_rdat_part_ok: "parse_rdat_part 64 data e i = Inr p \<Longrightarrow> part_ok p"
  by (auto simp: parse_rdat_part_def bindP_Inr require_Inr part_ok_def table_header_ok split: option.splits if_splits)

lemma parse_each_set:
  assumes "parse_each f xs = Inr ys" "y \<in> set ys"
  obtains x where "x \<in> set xs" "f x = Inr y"
  using assms by (auto simp: parse_each_Inr in_set_conv_nth)

lemma parse_each_part_ok:
  assumes "parse_each (parse_rdat_part 64 data e) is = Inr parts"
  shows "\<forall>p \<in> set parts. part_ok p"
  using assms by (auto elim!: parse_each_set dest: parse_rdat_part_ok)

lemma ParseRuntimeData_in_bounds [in_bounds_intro]: "in_bounds (ParseRuntimeData 64 part)"
  unfolding ParseRuntimeData_def Let_def
proof (intro in_bounds_intro core_tables_in_bounds)
  fix version part_count :: u32 and e parts i
  have count: "size_mul 64 (unat part_count) 4 = unat part_count * 4" by (rule size_mul_64 [OF unat_u32]) simp
  assume i: "i \<in> set [0..<unat part_count]"
    and "kRuntimeDataHeaderSize + size_mul 64 (unat part_count) 4 \<le> length (bp_data part)"
  then show "8 + 4 * i + 4 \<le> length (bp_data part)"
    unfolding count by (auto simp: rdat_sizes)
  from i show "i < 2 ^ 32" using unat_u32 [of part_count] by simp
qed (auto simp: rdat_sizes parts_ok_def dest: parse_each_part_ok)

subsection \<open>Every index names a record\<close>

definition indices_below :: "nat \<Rightarrow> u32 list \<Rightarrow> bool" where
  "indices_below n is \<longleftrightarrow> (\<forall>i \<in> set is. unat i < n)"

definition function_attribute_ok :: "runtime_data \<Rightarrow> rdat_function_attribute \<Rightarrow> bool" where
  "function_attribute_ok info a \<longleftrightarrow> (ra_kind a \<in> {1, 3} \<longrightarrow> unat (ra_node_id_index a) < length (ri_node_ids info))"

definition io_attribute_ok :: "runtime_data \<Rightarrow> rdat_io_attribute \<Rightarrow> bool" where
  "io_attribute_ok info a \<longleftrightarrow> (ri_kind a = 1 \<longrightarrow> unat (ri_node_id_index a) < length (ri_node_ids info))"

definition io_node_ok :: "runtime_data \<Rightarrow> rdat_io_node \<Rightarrow> bool" where
  "io_node_ok info n \<longleftrightarrow> indices_below (length (ri_node_io_attributes info)) (rio_attribute_indices n)"

definition node_shader_ok :: "runtime_data \<Rightarrow> rdat_node_shader_info \<Rightarrow> bool" where
  "node_shader_ok info s \<longleftrightarrow>
     indices_below (length (ri_node_function_attributes info)) (ns_attribute_indices s) \<and>
     indices_below (length (ri_io_nodes info)) (ns_output_indices s) \<and>
     indices_below (length (ri_io_nodes info)) (ns_input_indices s)"

definition shader_info_ok :: "runtime_data \<Rightarrow> rdat_shader_info \<Rightarrow> bool" where
  "shader_info_ok info s \<longleftrightarrow>
     indices_below (length (ri_signature_elements info)) (sh_input_signature_indices s) \<and>
     indices_below (length (ri_signature_elements info)) (sh_output_signature_indices s) \<and>
     indices_below (length (ri_signature_elements info)) (sh_patch_constant_signature_indices s) \<and>
     indices_below (length (ri_signature_elements info)) (sh_primitive_signature_indices s)"

definition function_ok :: "runtime_data \<Rightarrow> rdat_function \<Rightarrow> bool" where
  "function_ok info f \<longleftrightarrow>
     indices_below (length (ri_resources info)) (rf_resource_indices f) \<and>
     (rf_has_shader_info f \<longrightarrow>
        (if rf_shader_info_table_type f = NodeShaderInfoTable
         then unat (rf_shader_info_index f) < length (ri_node_shader_infos info)
         else findShaderInfo info (rf_shader_info_table_type f) (rf_shader_info_index f) \<noteq> None))"

definition pdb_info_ok :: "runtime_data \<Rightarrow> rdat_pdb_info \<Rightarrow> bool" where
  "pdb_info_ok info p \<longleftrightarrow>
     indices_below (length (ri_pdb_sources info)) (pb_source_indices p) \<and>
     indices_below (length (ri_pdb_libraries info)) (pb_library_indices p)"

text \<open>The type of what the parser returns.\<close>

definition runtime_data_ok :: "runtime_data \<Rightarrow> bool" where
  "runtime_data_ok info \<longleftrightarrow>
     list_all (function_attribute_ok info) (ri_node_function_attributes info) \<and>
     list_all (io_attribute_ok info) (ri_node_io_attributes info) \<and>
     list_all (io_node_ok info) (ri_io_nodes info) \<and>
     list_all (node_shader_ok info) (ri_node_shader_infos info) \<and>
     list_all (shader_info_ok info) (ri_shader_infos info) \<and>
     list_all (function_ok info) (ri_functions info) \<and>
     list_all (pdb_info_ok info) (ri_pdb_infos info)"

lemma table_records_all:
  assumes "table_records W info ty minimum f = Inr (Some rs)"
    and "\<And>table i r b. f table i r = Inr b \<Longrightarrow> Q b"
  shows "list_all Q rs"
proof (cases "find_rdat_part info ty")
  case (Some table)
  show ?thesis
  proof (cases "rp_record_count table = 0")
    case False
    from assms(1) obtain stride where
      "parse_each (\<lambda>i. bindP (subspan (rp_table_data table) (size_mul W i stride) minimum) (f table i))
         [0..<unat (rp_record_count table)] = Inr rs"
      by (auto simp: table_records_def Some False require_Inr bindP_Inr)
    then show ?thesis
      by (auto simp: list_all_iff bindP_Inr elim!: parse_each_set dest: assms(2))
  qed (use assms(1) in \<open>simp add: table_records_def Some\<close>)
qed (use assms(1) in \<open>simp add: table_records_def\<close>)

lemma record_array_below:
  "ReadNullableRdatRecordArray info offset n = Inr is \<Longrightarrow> indices_below n is"
  by (auto simp: ReadNullableRdatRecordArray_def bindP_Inr require_Inr indices_below_def)

lemma indices_at_below: "indices_at info r k n = Inr is \<Longrightarrow> indices_below n is"
  by (auto simp: indices_at_def bindP_Inr dest: record_array_below)

lemma signature_at_below:
  "signature_at info r k = Inr is \<Longrightarrow> indices_below (length (ri_signature_elements info)) is"
  by (auto simp: signature_at_def ReadRdatSignatureArray_def bindP_Inr dest: record_array_below)

lemma function_attribute_record_ok: "function_attribute_record info r = Inr a \<Longrightarrow> function_attribute_ok info a"
  by (auto simp: function_attribute_record_def Let_def bindP_Inr require_Inr function_attribute_ok_def split: if_splits)

lemma io_attribute_record_ok: "io_attribute_record info r = Inr a \<Longrightarrow> io_attribute_ok info a"
  by (auto simp: io_attribute_record_def Let_def bindP_Inr require_Inr io_attribute_ok_def split: if_splits)

lemma io_node_record_ok: "io_node_record info r = Inr a \<Longrightarrow> io_node_ok info a"
  by (auto simp: io_node_record_def bindP_Inr io_node_ok_def dest: indices_at_below)

lemma node_shader_record_ok: "node_shader_record info r = Inr a \<Longrightarrow> node_shader_ok info a"
  by (auto simp: node_shader_record_def bindP_Inr node_shader_ok_def dest: indices_at_below)

lemma indices_below_Nil [simp]: "indices_below n []"
  by (simp add: indices_below_def)

lemmas stage_records = vs_record_def ps_record_def hs_record_def ds_record_def gs_record_def cs_record_def ms_record_def
  as_record_def

lemma stage_record_ok:
  assumes "shader_info_ok info s"
  shows "vs_record info r s = Inr a \<Longrightarrow> shader_info_ok info a" "ps_record info r s = Inr a \<Longrightarrow> shader_info_ok info a"
    "hs_record info r s = Inr a \<Longrightarrow> shader_info_ok info a" "ds_record info r s = Inr a \<Longrightarrow> shader_info_ok info a"
    "gs_record info r s = Inr a \<Longrightarrow> shader_info_ok info a" "cs_record info r s = Inr a \<Longrightarrow> shader_info_ok info a"
    "ms_record info r s = Inr a \<Longrightarrow> shader_info_ok info a" "as_record info r s = Inr a \<Longrightarrow> shader_info_ok info a"
  using assms by (auto simp: stage_records bindP_Inr shader_info_ok_def dest!: signature_at_below)

lemma shader_info_record_ok:
  assumes "shader_info_record info ty i r = Inr a"
  shows "shader_info_ok info a"
proof -
  have "shader_info_ok info (empty_shader_info \<lparr> sh_table_type := ty, sh_record_index := of_nat i \<rparr>)"
    by (simp add: shader_info_ok_def empty_shader_info_def)
  from stage_record_ok [OF this] assms show ?thesis
    by (auto simp: shader_info_record_def Let_def split: if_splits)
qed

lemma function_record_ok: "function_record W info table i r = Inr a \<Longrightarrow> function_ok info a"
  by (auto simp: function_record_def Let_def bindP_Inr require_Inr function_ok_def shader_info_exists_def
      dest!: record_array_below split: prod.splits if_splits)

lemma pdb_info_record_ok: "pdb_info_record info r = Inr a \<Longrightarrow> pdb_info_ok info a"
  by (auto simp: pdb_info_record_def bindP_Inr pdb_info_ok_def dest: indices_at_below)

text \<open>What each parser that checks an index leaves in its list.\<close>

lemma attributes_parsed:
  assumes "ParseRuntimeDataNodeShaderFuncAttribTable W a = Inr b"
  obtains l where "b = a \<lparr> ri_node_function_attributes := l \<rparr>" "list_all (function_attribute_ok a) l"
  using assms by (auto simp: ParseRuntimeDataNodeShaderFuncAttribTable_def bindP_Inr split: option.splits
      dest!: table_records_all [where Q = "function_attribute_ok a"] intro: function_attribute_record_ok)

lemma io_attributes_parsed:
  assumes "ParseRuntimeDataNodeShaderIoAttribTable W a = Inr b"
  obtains l where "b = a \<lparr> ri_node_io_attributes := l \<rparr>" "list_all (io_attribute_ok a) l"
  using assms by (auto simp: ParseRuntimeDataNodeShaderIoAttribTable_def bindP_Inr split: option.splits
      dest!: table_records_all [where Q = "io_attribute_ok a"] intro: io_attribute_record_ok)

lemma io_nodes_parsed:
  assumes "ParseRuntimeDataIoNodeTable W a = Inr b"
  obtains l where "b = a \<lparr> ri_io_nodes := l \<rparr>" "list_all (io_node_ok a) l"
  using assms by (auto simp: ParseRuntimeDataIoNodeTable_def bindP_Inr split: option.splits
      dest!: table_records_all [where Q = "io_node_ok a"] intro: io_node_record_ok)

lemma node_shaders_parsed:
  assumes "ParseRuntimeDataNodeShaderInfoTable W a = Inr b"
  obtains l where "b = a \<lparr> ri_node_shader_infos := l \<rparr>" "list_all (node_shader_ok a) l"
  using assms by (auto simp: ParseRuntimeDataNodeShaderInfoTable_def bindP_Inr split: option.splits
      dest!: table_records_all [where Q = "node_shader_ok a"] intro: node_shader_record_ok)

lemma pdb_infos_parsed:
  assumes "ParseRuntimeDataPdbInfoTable W a = Inr b"
  obtains l where "b = a \<lparr> ri_pdb_infos := l \<rparr>" "list_all (pdb_info_ok a) l"
  using assms by (auto simp: ParseRuntimeDataPdbInfoTable_def bindP_Inr split: option.splits
      dest!: table_records_all [where Q = "pdb_info_ok a"] intro: pdb_info_record_ok)

lemma functions_parsed:
  assumes "ParseRuntimeDataFunctionTable W a = Inr b" "ri_functions a = []"
  obtains l where "b = a \<lparr> ri_functions := l \<rparr>" "list_all (function_ok a) l"
proof -
  from assms obtain rs where rs: "table_records W a FunctionTable kRdatFunctionRecordSize (function_record W a) = Inr rs"
    "b = (case rs of None \<Rightarrow> a | Some l \<Rightarrow> a \<lparr> ri_functions := l \<rparr>)"
    by (auto simp: ParseRuntimeDataFunctionTable_def bindP_Inr)
  show thesis
  proof (cases rs)
    case None
    have "a \<lparr> ri_functions := [] \<rparr> = a" using assms(2) by (cases a) simp
    then show thesis using that [of "[]"] rs(2) None by simp
  next
    case (Some l)
    then show thesis
      using that [of l] rs table_records_all [where Q = "function_ok a", OF rs(1) [unfolded Some]] function_record_ok by fastforce
  qed
qed

lemma shader_infos_parsed:
  assumes "ParseRuntimeDataShaderInfoTables W a = Inr b"
  obtains l where "b = a \<lparr> ri_shader_infos := l \<rparr>" "list_all (shader_info_ok a) l"
proof -
  have "\<exists>l. b = a \<lparr> ri_shader_infos := l \<rparr> \<and> list_all (shader_info_ok a) l"
  proof (rule run_parsers_invariant [OF _ assms [unfolded ParseRuntimeDataShaderInfoTables_def]])
    fix p x y assume p: "p \<in> set (map (ParseRuntimeDataShaderInfoTable W) shader_info_tables)" "p x = Inr y"
      and "\<exists>l. x = a \<lparr> ri_shader_infos := l \<rparr> \<and> list_all (shader_info_ok a) l"
    then obtain l where l: "x = a \<lparr> ri_shader_infos := l \<rparr>" "list_all (shader_info_ok a) l" by blast
    from p obtain ty n rs where rs: "table_records W x ty n (\<lambda>_. shader_info_record x ty) = Inr rs"
      "y = (case rs of None \<Rightarrow> x | Some l \<Rightarrow> x \<lparr> ri_shader_infos := ri_shader_infos x @ l \<rparr>)"
      by (auto simp: ParseRuntimeDataShaderInfoTable_def bindP_Inr)
    have ok: "shader_info_ok x = shader_info_ok a" by (auto simp: fun_eq_iff shader_info_ok_def l(1))
    show "\<exists>l. y = a \<lparr> ri_shader_infos := l \<rparr> \<and> list_all (shader_info_ok a) l"
    proof (cases rs)
      case (Some m)
      have "list_all (shader_info_ok x) m"
        by (rule table_records_all [OF rs(1) [unfolded Some]]) (rule shader_info_record_ok)
      then have "list_all (shader_info_ok a) (l @ m)" using l(2) by (simp add: ok)
      moreover have "y = a \<lparr> ri_shader_infos := l @ m \<rparr>" using l(1) rs(2) Some by simp
      ultimately show ?thesis by blast
    qed (use l rs(2) in auto)
  qed auto
  then show thesis using that by blast
qed

lemma plain_tables_parsed:
  "ParseRuntimeDataResourceTable W a = Inr b \<Longrightarrow> \<exists>l. b = a \<lparr> ri_resources := l \<rparr>"
  "ParseRuntimeDataSubobjectTable W a = Inr b \<Longrightarrow> \<exists>l. b = a \<lparr> ri_subobjects := l \<rparr>"
  "ParseRuntimeDataNodeIdTable W a = Inr b \<Longrightarrow> \<exists>l. b = a \<lparr> ri_node_ids := l \<rparr>"
  "ParseRuntimeDataSignatureElementTable W a = Inr b \<Longrightarrow> \<exists>l. b = a \<lparr> ri_signature_elements := l \<rparr>"
  "ParseRuntimeDataPdbSourceTable W a = Inr b \<Longrightarrow> \<exists>l. b = a \<lparr> ri_pdb_sources := l \<rparr>"
  "ParseRuntimeDataPdbLibraryTable W a = Inr b \<Longrightarrow> \<exists>l. b = a \<lparr> ri_pdb_libraries := l \<rparr>"
proof -
  have same: "\<exists>l. x = x \<lparr> ri_resources := l \<rparr>" "\<exists>l. x = x \<lparr> ri_signature_elements := l \<rparr>" for x :: runtime_data
    by (intro exI [of _ "ri_resources x"] exI [of _ "ri_signature_elements x"]; simp)+
  show "ParseRuntimeDataResourceTable W a = Inr b \<Longrightarrow> \<exists>l. b = a \<lparr> ri_resources := l \<rparr>"
    "ParseRuntimeDataSignatureElementTable W a = Inr b \<Longrightarrow> \<exists>l. b = a \<lparr> ri_signature_elements := l \<rparr>"
    by (auto simp: table_parsers bindP_Inr split: option.splits intro: same)
qed (auto simp: table_parsers bindP_Inr)

lemma run_parsers_Cons: "run_parsers (p # ps) a = Inr b \<longleftrightarrow> (\<exists>c. p a = Inr c \<and> run_parsers ps c = Inr b)"
  by (simp add: bindP_Inr)

lemma core_tables_ok:
  assumes "ParseRuntimeDataCoreTables W a = Inr b" "ri_functions a = []"
  shows "runtime_data_ok b"
proof -
  obtain a1 a2 a3 a4 a5 a6 a7 a8 a9 a10 a11 a12 where steps:
    "ParseRuntimeDataResourceTable W a = Inr a1" "ParseRuntimeDataSubobjectTable W a1 = Inr a2"
    "ParseRuntimeDataNodeIdTable W a2 = Inr a3" "ParseRuntimeDataNodeShaderFuncAttribTable W a3 = Inr a4"
    "ParseRuntimeDataNodeShaderIoAttribTable W a4 = Inr a5" "ParseRuntimeDataIoNodeTable W a5 = Inr a6"
    "ParseRuntimeDataNodeShaderInfoTable W a6 = Inr a7" "ParseRuntimeDataSignatureElementTable W a7 = Inr a8"
    "ParseRuntimeDataShaderInfoTables W a8 = Inr a9" "ParseRuntimeDataFunctionTable W a9 = Inr a10"
    "ParseRuntimeDataPdbSourceTable W a10 = Inr a11" "ParseRuntimeDataPdbLibraryTable W a11 = Inr a12"
    "ParseRuntimeDataPdbInfoTable W a12 = Inr b"
    using assms(1) unfolding ParseRuntimeDataCoreTables_def ParseRuntimeDataPdbInfoTables_def run_parsers_Cons by auto
  obtain l1 l2 l3 where plain: "a1 = a \<lparr> ri_resources := l1 \<rparr>" "a2 = a1 \<lparr> ri_subobjects := l2 \<rparr>"
    "a3 = a2 \<lparr> ri_node_ids := l3 \<rparr>"
    using steps(1-3) by (blast dest: plain_tables_parsed)
  obtain l8 l11 l12 where plain': "a8 = a7 \<lparr> ri_signature_elements := l8 \<rparr>" "a11 = a10 \<lparr> ri_pdb_sources := l11 \<rparr>"
    "a12 = a11 \<lparr> ri_pdb_libraries := l12 \<rparr>"
    using steps(8,11,12) by (blast dest: plain_tables_parsed)
  obtain l4 where l4: "a4 = a3 \<lparr> ri_node_function_attributes := l4 \<rparr>" "list_all (function_attribute_ok a3) l4"
    using attributes_parsed [OF steps(4)] .
  obtain l5 where l5: "a5 = a4 \<lparr> ri_node_io_attributes := l5 \<rparr>" "list_all (io_attribute_ok a4) l5"
    using io_attributes_parsed [OF steps(5)] .
  obtain l6 where l6: "a6 = a5 \<lparr> ri_io_nodes := l6 \<rparr>" "list_all (io_node_ok a5) l6"
    using io_nodes_parsed [OF steps(6)] .
  obtain l7 where l7: "a7 = a6 \<lparr> ri_node_shader_infos := l7 \<rparr>" "list_all (node_shader_ok a6) l7"
    using node_shaders_parsed [OF steps(7)] .
  obtain l9 where l9: "a9 = a8 \<lparr> ri_shader_infos := l9 \<rparr>" "list_all (shader_info_ok a8) l9"
    using shader_infos_parsed [OF steps(9)] .
  have "ri_functions a9 = []" using assms(2) by (simp add: plain plain'(1) l4(1) l5(1) l6(1) l7(1) l9(1))
  then obtain l10 where l10: "a10 = a9 \<lparr> ri_functions := l10 \<rparr>" "list_all (function_ok a9) l10"
    using functions_parsed [OF steps(10)] by blast
  obtain l13 where l13: "b = a12 \<lparr> ri_pdb_infos := l13 \<rparr>" "list_all (pdb_info_ok a12) l13"
    using pdb_infos_parsed [OF steps(13)] .
  note updates = plain plain' l4(1) l5(1) l6(1) l7(1) l9(1) l10(1) l13(1)
  note stored = l4(2) l5(2) l6(2) l7(2) l9(2) l10(2) l13(2)
  show ?thesis
    using stored
    by (simp add: runtime_data_ok_def updates function_attribute_ok_def io_attribute_ok_def io_node_ok_def node_shader_ok_def
        shader_info_ok_def function_ok_def pdb_info_ok_def findShaderInfo_def list_all_iff
        cong: if_cong)
qed

text \<open>C27: Whatever the bytes, the runtime data the parser accepts is closed: every node, attribute,
  resource, signature element, shader information, PDB source and library a record refers to by index is
  in the lists it returns, so a consumer may use the index without a test.\<close>

theorem runtime_data_indices_valid:
  "ParseRuntimeData W part = Inr info \<Longrightarrow> runtime_data_ok info"
  by (auto simp: ParseRuntimeData_def Let_def require_Inr bindP_Inr split: option.splits dest!: core_tables_ok)

text \<open>A library with an index array, a resource and a function that uses it, for the witness; the two
  equations keep its evaluation from computing \<open>2 ^ 64\<close>.\<close>

lemma size_mul_code [code]: "size_mul W a b = (if W = 64 \<and> a < 256 \<and> b < 256 then a * b else a * b mod 2 ^ W)"
  using mult_strict_mono [of a 256 b 256] by (auto simp: size_mul_def)
lemma size_align4_code [code]: "size_align4 W n = (if W = 64 \<and> n < 256 then align4 n else (n + 3) mod 2 ^ W div 4 * 4)"
  by (simp add: size_align4_def align4_def)
definition example_rdat :: bytes where
  "example_rdat =
     [16, 0, 0, 0, 3, 0, 0, 0, 20, 0, 0, 0, 36, 0, 0, 0,
      84, 0, 0, 0, 2, 0, 0, 0, 8, 0, 0, 0, 1, 0, 0, 0,
      0, 0, 0, 0, 3, 0, 0, 0, 40, 0, 0, 0, 1, 0, 0, 0,
      32, 0, 0, 0, 0, 0, 0, 0, 2, 0, 0, 0, 7, 0, 0, 0,
      0, 0, 0, 0, 0, 0, 0, 0, 0, 0, 0, 0, 255, 255, 255, 255,
      0, 0, 0, 0, 4, 0, 0, 0, 52, 0, 0, 0, 1, 0, 0, 0,
      44, 0, 0, 0, 255, 255, 255, 255, 255, 255, 255, 255, 0, 0, 0, 0,
      255, 255, 255, 255, 5, 0, 0, 0, 0, 0, 0, 0, 0, 0, 0, 0,
      0, 0, 0, 0, 0, 0, 0, 0, 0, 0, 0, 0, 0, 0, 0, 0]"
definition example_rdat_part :: blob_part where
  "example_rdat_part = \<lparr> bp_fourcc = MakeFourCC 0x52 0x44 0x41 0x54, bp_offset = 0, bp_data = example_rdat \<rparr>"
lemma example_rdat_parsed:
  "(case ParseRuntimeData 64 example_rdat_part of
      Inl e \<Rightarrow> False
    | Inr info \<Rightarrow> map rf_resource_indices (ri_functions info) = [[0]] \<and> length (ri_resources info) = 1)"
  by code_simp

theorem runtime_data_indices_valid_witness:
  "\<exists>info. ParseRuntimeData 64 example_rdat_part = Inr info \<and> runtime_data_ok info \<and>
     map rf_resource_indices (ri_functions info) = [[0]] \<and> length (ri_resources info) = 1"
  using example_rdat_parsed runtime_data_indices_valid [of 64 example_rdat_part]
  by (cases "ParseRuntimeData 64 example_rdat_part") simp_all

subsection \<open>The 32-bit build\<close>

text \<open>A resource table of 0x10000 records of 0x10000 bytes each, in 28 bytes.\<close>

definition hostile_rdat :: bytes where
  "hostile_rdat = [0, 0, 0, 0, 1, 0, 0, 0, 12, 0, 0, 0, 3, 0, 0, 0, 8, 0, 0, 0, 0, 0, 1, 0, 0, 0, 1, 0]"

definition hostile_rdat_part :: blob_part where
  "hostile_rdat_part = \<lparr> bp_fourcc = MakeFourCC 0x52 0x44 0x41 0x54, bp_offset = 0, bp_data = hostile_rdat \<rparr>"

lemma hostile_reads:
  "(read_u32 hostile_rdat 0 :: u32 dxil_parse) = Inr 0" "(read_u32 hostile_rdat 4 :: u32 dxil_parse) = Inr 1"
  "(read_u32 hostile_rdat 8 :: u32 dxil_parse) = Inr 12" "(read_u32 hostile_rdat 12 :: u32 dxil_parse) = Inr 3"
  "(read_u32 hostile_rdat 16 :: u32 dxil_parse) = Inr 8" "length hostile_rdat = 28"
  "(subspan hostile_rdat 20 8 :: bytes dxil_parse) = Inr [0, 0, 1, 0, 0, 0, 1, 0]"
  "(read_u32 [0, 0, 1, 0, 0, 0, 1, 0] 0 :: u32 dxil_parse) = Inr 0x10000"
  "(read_u32 [0, 0, 1, 0, 0, 0, 1, 0] 4 :: u32 dxil_parse) = Inr 0x10000"
  by code_simp+

lemma hostile_table_header:
  "table_header 32 [0, 0, 1, 0, 0, 0, 1, 0] = Inr (0x10000, 0x10000, [])"
  "table_header 64 [0, 0, 1, 0, 0, 0, 1, 0] = invalid_rdat"
  unfolding table_header_def
  by (simp_all add: hostile_reads rdat_sizes size_mul_def checked_end_def subspan_def)

lemma hostile_part:
  "parse_rdat_part 32 hostile_rdat 12 0 =
     Inr \<lparr> rp_type = 3, rp_size = 8, rp_data = [0, 0, 1, 0, 0, 0, 1, 0], rp_is_table = True, rp_record_count = 0x10000,
           rp_record_stride = 0x10000, rp_table_data = [] \<rparr>"
  "parse_rdat_part 64 hostile_rdat 12 0 = invalid_rdat"
  by (simp_all add: parse_rdat_part_def rdat_sizes size_mul_def size_align4_def hostile_reads checked_end_def
      hostile_table_header IsRdatTablePart_def IndexArrays_def)

text \<open>In the 32-bit build the product of the record count and the stride wraps: a table of 0x10000
  records of 0x10000 bytes is accepted with no data at all, and its first record is read out of bounds. The
  64-bit build rejects the same 28 bytes.\<close>

theorem rdat_table_size_wraps:
  "ParseRuntimeData 32 hostile_rdat_part = Inl Out_of_bounds \<and> ParseRuntimeData 64 hostile_rdat_part = invalid_rdat"
proof -
  have "[0..<0x10000] = 0 # [Suc 0..<0x10000]" by (rule upt_conv_Cons) simp
  then show ?thesis
    by (simp add: ParseRuntimeData_def hostile_rdat_part_def hostile_reads rdat_sizes size_mul_def checked_end_def hostile_part
        ParseRuntimeDataCoreTables_def ParseRuntimeDataResourceTable_def table_records_def find_rdat_part_def
        ResourceTable_def subspan_def)
qed

end
