(* ===== verification/PipelineValidation.thy ===== *)
theory PipelineValidation
  imports DxilParts
begin

text \<open>
  The pipeline state validation part (PSV0) of a shader (src/libs/DXILParser/DXILParser.cpp,
  \<open>ParsePipelineStateValidation\<close>): the runtime information, whose length says its version, the resource
  bindings, the string and semantic index tables, the signature elements, and the masks and tables of
  which output depends on which input. The parser walks the part with one offset; a stage takes the
  information and the offset and returns both.
\<close>

definition kPsvRuntimeInfo1Size :: nat where "kPsvRuntimeInfo1Size = 36"
definition kPsvRuntimeInfo2Size :: nat where "kPsvRuntimeInfo2Size = 48"
definition kPsvRuntimeInfo3Size :: nat where "kPsvRuntimeInfo3Size = 52"
definition kPsvRuntimeInfo4Size :: nat where "kPsvRuntimeInfo4Size = 56"
definition kPsvResourceBindInfo0Size :: nat where "kPsvResourceBindInfo0Size = 16"
definition kPsvResourceBindInfo1Size :: nat where "kPsvResourceBindInfo1Size = 24"
definition kPsvSignatureElement0Size :: nat where "kPsvSignatureElement0Size = 16"

lemmas psv_sizes = kPsvRuntimeInfo1Size_def kPsvRuntimeInfo2Size_def kPsvRuntimeInfo3Size_def kPsvRuntimeInfo4Size_def
  kPsvResourceBindInfo0Size_def kPsvResourceBindInfo1Size_def kPsvSignatureElement0Size_def

subsection \<open>The data\<close>

record psv_signature_element =
  pe_semantic_name :: bytes
  pe_semantic_indexes :: "u32 list"
  pe_rows :: u8
  pe_start_row :: u8
  pe_cols :: u8
  pe_start_col :: u8
  pe_allocated :: bool
  pe_semantic_kind :: u8
  pe_component_type :: u8
  pe_interpolation_mode :: u8
  pe_dynamic_index_mask :: u8
  pe_output_stream :: u8

record psv_resource =
  pr_resource_type :: u32
  pr_space :: u32
  pr_lower_bound :: u32
  pr_upper_bound :: u32
  pr_resource_kind :: u32
  pr_resource_flags :: u32

record psv_mask =
  pm_vector_count :: u32
  pm_mask_words :: "u32 list"

record psv_table =
  pt_input_vectors :: u32
  pt_output_vectors :: u32
  pt_mask_words :: "u32 list"

record psv_info =
  pv_runtime_info_size :: u32
  pv_runtime_info :: bytes
  pv_resource_count :: u32
  pv_resource_bind_info_size :: u32
  pv_resources :: "psv_resource list"
  pv_has_runtime_info_1 :: bool
  pv_has_runtime_info_2 :: bool
  pv_has_runtime_info_3 :: bool
  pv_has_runtime_info_4 :: bool
  pv_shader_stage :: u8
  pv_uses_view_id :: bool
  pv_input_elements :: u8
  pv_output_elements :: u8
  pv_patch_elements :: u8 \<comment> \<open>patch constant or primitive\<close>
  pv_input_vectors :: u8
  pv_output_vectors :: bytes
  pv_patch_vectors :: u8
  pv_num_threads :: "u32 \<times> u32 \<times> u32"
  pv_entry_function_name_offset :: u32
  pv_entry_function_name :: bytes
  pv_num_bytes_group_shared_memory :: u32
  pv_string_table_size :: u32
  pv_string_table :: bytes
  pv_semantic_index_count :: u32
  pv_semantic_index_table :: bytes
  pv_signature_element_size :: u32
  pv_input_signature :: "psv_signature_element list"
  pv_output_signature :: "psv_signature_element list"
  pv_patch_signature :: "psv_signature_element list"
  pv_view_id_output_masks :: "psv_mask list"
  pv_view_id_patch_mask :: psv_mask
  pv_input_to_output_tables :: "psv_table list"
  pv_input_to_patch_table :: psv_table
  pv_patch_to_output_table :: psv_table
  pv_dependency_payload :: bytes

definition empty_mask :: psv_mask where
  "empty_mask = \<lparr> pm_vector_count = 0, pm_mask_words = [] \<rparr>"

definition empty_table :: psv_table where
  "empty_table = \<lparr> pt_input_vectors = 0, pt_output_vectors = 0, pt_mask_words = [] \<rparr>"

definition empty_psv :: psv_info where
  "empty_psv =
     \<lparr> pv_runtime_info_size = 0, pv_runtime_info = [], pv_resource_count = 0, pv_resource_bind_info_size = 0,
       pv_resources = [], pv_has_runtime_info_1 = False, pv_has_runtime_info_2 = False, pv_has_runtime_info_3 = False,
       pv_has_runtime_info_4 = False, pv_shader_stage = 0, pv_uses_view_id = False, pv_input_elements = 0,
       pv_output_elements = 0, pv_patch_elements = 0, pv_input_vectors = 0, pv_output_vectors = [0, 0, 0, 0],
       pv_patch_vectors = 0, pv_num_threads = (0, 0, 0), pv_entry_function_name_offset = 0, pv_entry_function_name = [],
       pv_num_bytes_group_shared_memory = 0, pv_string_table_size = 0, pv_string_table = [], pv_semantic_index_count = 0,
       pv_semantic_index_table = [], pv_signature_element_size = 0, pv_input_signature = [], pv_output_signature = [],
       pv_patch_signature = [], pv_view_id_output_masks = replicate 4 empty_mask, pv_view_id_patch_mask = empty_mask,
       pv_input_to_output_tables = replicate 4 empty_table, pv_input_to_patch_table = empty_table,
       pv_patch_to_output_table = empty_table, pv_dependency_payload = [] \<rparr>"

subsection \<open>Readers\<close>

abbreviation invalid_psv :: "'a dxil_parse" where
  "invalid_psv \<equiv> Inl (Rejected InvalidPipelineStateValidation)"

text \<open>The lambda \<open>read_u32\<close> of the parser: the next word, and the offset behind it.\<close>

definition next_u32 :: "bytes \<Rightarrow> nat \<Rightarrow> (u32 \<times> nat) dxil_parse" where
  "next_u32 data offset =
     (case checked_end offset 4 (length data) of
        None \<Rightarrow> invalid_psv
      | Some e \<Rightarrow> bindP (read_u32 data offset) (\<lambda>v. Inr (v, e)))"

definition ReadU32Array :: "bytes \<Rightarrow> u32 \<Rightarrow> nat \<Rightarrow> u32 list dxil_parse" where
  "ReadU32Array data offset count =
     (case checked_end (unat offset * 4) (count * 4) (length data) of
        None \<Rightarrow> invalid_psv
      | Some e \<Rightarrow> read_words data (unat offset * 4) count)"

definition PsvMaskDwordCount :: "u32 \<Rightarrow> u32" where
  "PsvMaskDwordCount vectors = (vectors * 4 + 31) div 32"

definition PsvInputOutputTableDwordCount :: "u32 \<Rightarrow> u32 \<Rightarrow> u32" where
  "PsvInputOutputTableDwordCount input_vectors output_vectors = PsvMaskDwordCount output_vectors * input_vectors * 4"

definition ReadU32Words :: "bytes \<Rightarrow> nat \<Rightarrow> u32 \<Rightarrow> (u32 list \<times> nat) dxil_parse" where
  "ReadU32Words data offset word_count =
     (case checked_end offset (unat word_count * 4) (length data) of
        None \<Rightarrow> invalid_psv
      | Some e \<Rightarrow> bindP (read_words data offset (unat word_count)) (\<lambda>ws. Inr (ws, e)))"

definition ReadPsvComponentMask :: "bytes \<Rightarrow> nat \<Rightarrow> u32 \<Rightarrow> (psv_mask \<times> nat) dxil_parse" where
  "ReadPsvComponentMask data offset vectors =
     bindP (ReadU32Words data offset (PsvMaskDwordCount vectors)) (\<lambda>(ws, e).
       Inr (\<lparr> pm_vector_count = vectors, pm_mask_words = ws \<rparr>, e))"

definition ReadPsvDependencyTable :: "bytes \<Rightarrow> nat \<Rightarrow> u32 \<Rightarrow> u32 \<Rightarrow> (psv_table \<times> nat) dxil_parse" where
  "ReadPsvDependencyTable data offset input_vectors output_vectors =
     bindP (ReadU32Words data offset (PsvInputOutputTableDwordCount input_vectors output_vectors)) (\<lambda>(ws, e).
       Inr (\<lparr> pt_input_vectors = input_vectors, pt_output_vectors = output_vectors, pt_mask_words = ws \<rparr>, e))"

subsection \<open>The runtime information\<close>

definition psv_runtime_1 :: "psv_info \<Rightarrow> psv_info dxil_parse" where
  "psv_runtime_1 info =
     (if unat (pv_runtime_info_size info) \<ge> kPsvRuntimeInfo1Size then
        let ri = pv_runtime_info info in
        bindP (read_u8 ri 24) (\<lambda>stage.
        bindP (read_u8 ri 25) (\<lambda>view_id.
        bindP (read_u8 ri 28) (\<lambda>input_elements.
        bindP (read_u8 ri 29) (\<lambda>output_elements.
        bindP (read_u8 ri 30) (\<lambda>patch_elements.
        bindP (read_u8 ri 31) (\<lambda>input_vectors.
        bindP (subspan ri 32 4) (\<lambda>output_vectors.
        bindP (read_u8 ri 26) (\<lambda>patch_vectors.
          Inr (info \<lparr> pv_has_runtime_info_1 := True, pv_shader_stage := stage, pv_uses_view_id := (view_id \<noteq> 0),
                      pv_input_elements := input_elements, pv_output_elements := output_elements,
                      pv_patch_elements := patch_elements, pv_input_vectors := input_vectors,
                      pv_output_vectors := output_vectors, pv_patch_vectors := patch_vectors \<rparr>)))))))))
      else Inr info)"

definition psv_runtime_2 :: "psv_info \<Rightarrow> psv_info dxil_parse" where
  "psv_runtime_2 info =
     (if unat (pv_runtime_info_size info) \<ge> kPsvRuntimeInfo2Size then
        bindP (read_u32 (pv_runtime_info info) 36) (\<lambda>x.
        bindP (read_u32 (pv_runtime_info info) 40) (\<lambda>y.
        bindP (read_u32 (pv_runtime_info info) 44) (\<lambda>z.
          Inr (info \<lparr> pv_has_runtime_info_2 := True, pv_num_threads := (x, y, z) \<rparr>))))
      else Inr info)"

definition psv_runtime_3 :: "psv_info \<Rightarrow> psv_info dxil_parse" where
  "psv_runtime_3 info =
     (if unat (pv_runtime_info_size info) \<ge> kPsvRuntimeInfo3Size then
        bindP (read_u32 (pv_runtime_info info) 48) (\<lambda>offset.
          Inr (info \<lparr> pv_has_runtime_info_3 := True, pv_entry_function_name_offset := offset \<rparr>))
      else Inr info)"

definition psv_runtime_4 :: "psv_info \<Rightarrow> psv_info dxil_parse" where
  "psv_runtime_4 info =
     (if unat (pv_runtime_info_size info) \<ge> kPsvRuntimeInfo4Size then
        bindP (read_u32 (pv_runtime_info info) 52) (\<lambda>n.
          Inr (info \<lparr> pv_has_runtime_info_4 := True, pv_num_bytes_group_shared_memory := n \<rparr>))
      else Inr info)"

text \<open>A stage gets the information and the offset.\<close>

type_synonym psv_stage = "psv_info \<Rightarrow> nat \<Rightarrow> (psv_info \<times> nat) dxil_parse"

definition psv_runtime :: "bytes \<Rightarrow> psv_stage" where
  "psv_runtime data info offset =
     bindP (next_u32 data offset) (\<lambda>(sz, offset).
       (case checked_end offset (unat sz) (length data) of
          None \<Rightarrow> invalid_psv
        | Some runtime_info_end \<Rightarrow>
            bindP (subspan data offset (unat sz)) (\<lambda>span.
            bindP (psv_runtime_1 (info \<lparr> pv_runtime_info_size := sz, pv_runtime_info := span \<rparr>)) (\<lambda>info.
            bindP (psv_runtime_2 info) (\<lambda>info.
            bindP (psv_runtime_3 info) (\<lambda>info.
            bindP (psv_runtime_4 info) (\<lambda>info. Inr (info, runtime_info_end))))))))"

subsection \<open>Resource bindings\<close>

definition psv_resource_at :: "bytes \<Rightarrow> nat \<Rightarrow> nat \<Rightarrow> psv_resource dxil_parse" where
  "psv_resource_at data bind_info_size offset =
     bindP (read_u32 data (offset + 0)) (\<lambda>resource_type.
     bindP (read_u32 data (offset + 4)) (\<lambda>space.
     bindP (read_u32 data (offset + 8)) (\<lambda>lower_bound.
     bindP (read_u32 data (offset + 12)) (\<lambda>upper_bound.
     bindP (if bind_info_size \<ge> kPsvResourceBindInfo1Size
            then bindP (read_u32 data (offset + 16)) (\<lambda>kind.
                 bindP (read_u32 data (offset + 20)) (\<lambda>flags. Inr (kind, flags)))
            else Inr (0, 0)) (\<lambda>(kind, flags).
       Inr \<lparr> pr_resource_type = resource_type, pr_space = space, pr_lower_bound = lower_bound,
             pr_upper_bound = upper_bound, pr_resource_kind = kind, pr_resource_flags = flags \<rparr>)))))"

definition psv_resources :: "bytes \<Rightarrow> psv_stage" where
  "psv_resources data info offset =
     bindP (next_u32 data offset) (\<lambda>(resource_count, offset).
       let info = info \<lparr> pv_resource_count := resource_count \<rparr> in
       if resource_count \<noteq> 0 then
         bindP (next_u32 data offset) (\<lambda>(bind_info_size, offset).
           require (\<not> (unat bind_info_size < kPsvResourceBindInfo0Size \<or> bind_info_size AND 3 \<noteq> 0))
             InvalidPipelineStateValidation
            (case checked_end offset (unat resource_count * unat bind_info_size) (length data) of
               None \<Rightarrow> invalid_psv
             | Some resources_end \<Rightarrow>
                 bindP (parse_each (\<lambda>i. psv_resource_at data (unat bind_info_size) (offset + i * unat bind_info_size))
                          [0..<unat resource_count]) (\<lambda>resources.
                   Inr (info \<lparr> pv_resource_bind_info_size := bind_info_size, pv_resources := resources \<rparr>, resources_end))))
       else Inr (info, offset))"

subsection \<open>Strings, semantic indices and signature elements\<close>

definition psv_element_at :: "bytes \<Rightarrow> psv_info \<Rightarrow> nat \<Rightarrow> psv_signature_element dxil_parse" where
  "psv_element_at data info offset =
     bindP (read_u32 data (offset + 0)) (\<lambda>semantic_name_offset.
     bindP (read_u32 data (offset + 4)) (\<lambda>semantic_indexes_offset.
     bindP (read_u8 data (offset + 8)) (\<lambda>rows.
     bindP (read_u8 data (offset + 9)) (\<lambda>start_row.
     bindP (read_u8 data (offset + 10)) (\<lambda>cols_and_start.
     bindP (read_u8 data (offset + 11)) (\<lambda>semantic_kind.
     bindP (read_u8 data (offset + 12)) (\<lambda>component_type.
     bindP (read_u8 data (offset + 13)) (\<lambda>interpolation_mode.
     bindP (read_u8 data (offset + 14)) (\<lambda>dynamic_mask_and_stream.
     bindP (if pv_string_table_size info \<noteq> 0
            then or_reject InvalidPipelineStateValidation (ReadString (pv_string_table info) (unat semantic_name_offset))
            else Inr []) (\<lambda>semantic_name.
     bindP (ReadU32Array (pv_semantic_index_table info) semantic_indexes_offset (unat rows)) (\<lambda>semantic_indexes.
       Inr \<lparr> pe_semantic_name = semantic_name, pe_semantic_indexes = semantic_indexes, pe_rows = rows,
             pe_start_row = start_row, pe_cols = cols_and_start AND 0xf, pe_start_col = drop_bit 4 cols_and_start AND 3,
             pe_allocated = (cols_and_start AND 0x40 \<noteq> 0), pe_semantic_kind = semantic_kind,
             pe_component_type = component_type, pe_interpolation_mode = interpolation_mode,
             pe_dynamic_index_mask = dynamic_mask_and_stream AND 0xf,
             pe_output_stream = drop_bit 4 dynamic_mask_and_stream AND 3 \<rparr>)))))))))))"

text \<open>The lambda \<open>parse_signature_elements\<close>.\<close>

definition psv_elements :: "bytes \<Rightarrow> psv_info \<Rightarrow> nat \<Rightarrow> nat \<Rightarrow> (psv_signature_element list \<times> nat) dxil_parse" where
  "psv_elements data info count offset =
     (let s = unat (pv_signature_element_size info) in
      (case checked_end offset (count * s) (length data) of
         None \<Rightarrow> invalid_psv
       | Some elements_end \<Rightarrow>
           bindP (parse_each (\<lambda>i. psv_element_at data info (offset + i * s)) [0..<count]) (\<lambda>elements.
             Inr (elements, elements_end))))"

definition psv_string_table :: "bytes \<Rightarrow> psv_stage" where
  "psv_string_table data info offset =
     bindP (next_u32 data offset) (\<lambda>(sz, offset).
       require (\<not> sz AND 3 \<noteq> 0) InvalidPipelineStateValidation
        (case checked_end offset (unat sz) (length data) of
           None \<Rightarrow> invalid_psv
         | Some string_table_end \<Rightarrow>
             bindP (subspan data offset (unat sz)) (\<lambda>strings.
             bindP (if sz \<noteq> 0 then read_u8 strings (unat (sz - 1)) else Inr 0) (\<lambda>last_byte.
               require (\<not> (sz \<noteq> 0 \<and> last_byte \<noteq> 0)) InvalidPipelineStateValidation
                (bindP (if pv_has_runtime_info_3 info \<and> sz \<noteq> 0
                        then or_reject InvalidPipelineStateValidation
                               (ReadString strings (unat (pv_entry_function_name_offset info)))
                        else Inr (pv_entry_function_name info)) (\<lambda>name.
                   Inr (info \<lparr> pv_string_table_size := sz, pv_string_table := strings, pv_entry_function_name := name \<rparr>,
                        string_table_end)))))))"

definition psv_index_table :: "bytes \<Rightarrow> psv_stage" where
  "psv_index_table data info offset =
     bindP (next_u32 data offset) (\<lambda>(count, offset).
       (case checked_end offset (unat count * 4) (length data) of
          None \<Rightarrow> invalid_psv
        | Some table_end \<Rightarrow>
            bindP (subspan data offset (table_end - offset)) (\<lambda>span.
              Inr (info \<lparr> pv_semantic_index_count := count, pv_semantic_index_table := span \<rparr>, table_end))))"

definition psv_element_size :: "bytes \<Rightarrow> psv_stage" where
  "psv_element_size data info offset =
     (if unat (pv_input_elements info) + unat (pv_output_elements info) + unat (pv_patch_elements info) \<noteq> 0 then
        bindP (next_u32 data offset) (\<lambda>(sz, offset).
          require (\<not> (unat sz < kPsvSignatureElement0Size \<or> sz AND 3 \<noteq> 0)) InvalidPipelineStateValidation
            (Inr (info \<lparr> pv_signature_element_size := sz \<rparr>, offset)))
      else Inr (info, offset))"

definition psv_signatures :: "bytes \<Rightarrow> psv_stage" where
  "psv_signatures data info offset =
     bindP (psv_elements data info (unat (pv_input_elements info)) offset) (\<lambda>(inputs, offset).
     bindP (psv_elements data info (unat (pv_output_elements info)) offset) (\<lambda>(outputs, offset).
     bindP (psv_elements data info (unat (pv_patch_elements info)) offset) (\<lambda>(patches, offset).
       Inr (info \<lparr> pv_input_signature := inputs, pv_output_signature := outputs, pv_patch_signature := patches \<rparr>, offset))))"

subsection \<open>Dependencies\<close>

text \<open>The loop over the four streams that reads the masks of the outputs that depend on the view.\<close>

fun psv_view_masks :: "bytes \<Rightarrow> nat list \<Rightarrow> psv_stage" where
  "psv_view_masks data [] info offset = Inr (info, offset)"
| "psv_view_masks data (i # is) info offset =
     (if pv_output_vectors info ! i = 0 then psv_view_masks data is info offset
      else bindP (ReadPsvComponentMask data offset (ucast (pv_output_vectors info ! i))) (\<lambda>(mask, offset).
        psv_view_masks data is
          (info \<lparr> pv_view_id_output_masks := (pv_view_id_output_masks info)[i := mask] \<rparr>) offset))"

definition psv_view_patch_mask :: "bytes \<Rightarrow> psv_stage" where
  "psv_view_patch_mask data info offset =
     (if (pv_shader_stage info = 3 \<or> pv_shader_stage info = 13) \<and> pv_patch_vectors info \<noteq> 0 then
        bindP (ReadPsvComponentMask data offset (ucast (pv_patch_vectors info))) (\<lambda>(mask, offset).
          Inr (info \<lparr> pv_view_id_patch_mask := mask \<rparr>, offset))
      else Inr (info, offset))"

fun psv_output_tables :: "bytes \<Rightarrow> nat list \<Rightarrow> psv_stage" where
  "psv_output_tables data [] info offset = Inr (info, offset)"
| "psv_output_tables data (i # is) info offset =
     (if pv_shader_stage info = 13 \<or> pv_output_vectors info ! i = 0 \<or> pv_input_vectors info = 0
      then psv_output_tables data is info offset
      else bindP (ReadPsvDependencyTable data offset (ucast (pv_input_vectors info)) (ucast (pv_output_vectors info ! i)))
        (\<lambda>(table, offset).
          psv_output_tables data is
            (info \<lparr> pv_input_to_output_tables := (pv_input_to_output_tables info)[i := table] \<rparr>) offset))"

definition psv_input_patch_table :: "bytes \<Rightarrow> psv_stage" where
  "psv_input_patch_table data info offset =
     (if pv_shader_stage info = 3 \<and> pv_patch_vectors info \<noteq> 0 \<and> pv_input_vectors info \<noteq> 0 then
        bindP (ReadPsvDependencyTable data offset (ucast (pv_input_vectors info)) (ucast (pv_patch_vectors info)))
          (\<lambda>(table, offset). Inr (info \<lparr> pv_input_to_patch_table := table \<rparr>, offset))
      else Inr (info, offset))"

definition psv_patch_output_table :: "bytes \<Rightarrow> psv_stage" where
  "psv_patch_output_table data info offset =
     (if pv_shader_stage info = 4 \<and> pv_output_vectors info ! 0 \<noteq> 0 \<and> pv_patch_vectors info \<noteq> 0 then
        bindP (ReadPsvDependencyTable data offset (ucast (pv_patch_vectors info)) (ucast (pv_output_vectors info ! 0)))
          (\<lambda>(table, offset). Inr (info \<lparr> pv_patch_to_output_table := table \<rparr>, offset))
      else Inr (info, offset))"

text \<open>One stage after the other; the last two groups only with the runtime information they need.\<close>

definition then_stage :: "psv_stage \<Rightarrow> psv_stage \<Rightarrow> psv_stage" where
  "then_stage p q info offset = bindP (p info offset) (\<lambda>(info, offset). q info offset)"

definition psv_tables :: "bytes \<Rightarrow> psv_stage" where
  "psv_tables data info offset =
     (if pv_has_runtime_info_1 info
      then then_stage (psv_string_table data)
            (then_stage (psv_index_table data) (then_stage (psv_element_size data) (psv_signatures data))) info offset
      else Inr (info, offset))"

definition psv_dependencies :: "bytes \<Rightarrow> psv_stage" where
  "psv_dependencies data info offset =
     (if pv_has_runtime_info_1 info
      then then_stage (\<lambda>info offset.
             if pv_uses_view_id info
             then then_stage (psv_view_masks data [0..<4]) (psv_view_patch_mask data) info offset
             else Inr (info, offset))
            (then_stage (psv_output_tables data [0..<4])
              (then_stage (psv_input_patch_table data) (psv_patch_output_table data))) info offset
      else Inr (info, offset))"

definition ParsePipelineStateValidation :: "blob_part \<Rightarrow> psv_info dxil_parse" where
  "ParsePipelineStateValidation part =
     (let data = bp_data part in
      require (\<not> length data < 4) InvalidPipelineStateValidation
       (bindP (then_stage (psv_runtime data) (then_stage (psv_resources data) (psv_tables data)) empty_psv 0)
         (\<lambda>(info, dependency_offset).
        bindP (psv_dependencies data info dependency_offset) (\<lambda>(info, offset).
        bindP (subspan data dependency_offset (length data - dependency_offset)) (\<lambda>payload.
          Inr (info \<lparr> pv_dependency_payload := payload \<rparr>))))))"

subsection \<open>Stages\<close>

text \<open>A triple of total correctness: from \<open>P\<close> the stage reads inside the part, and leaves \<open>Q\<close> if it
  returns.\<close>

definition stage_triple :: "(psv_info \<Rightarrow> nat \<Rightarrow> bool) \<Rightarrow> psv_stage \<Rightarrow> (psv_info \<Rightarrow> nat \<Rightarrow> bool) \<Rightarrow> bool" where
  "stage_triple P p Q \<longleftrightarrow>
     (\<forall>info n. P info n \<longrightarrow> in_bounds (p info n) \<and> (\<forall>info' n'. p info n = Inr (info', n') \<longrightarrow> Q info' n'))"

lemma stage_tripleI:
  assumes "\<And>info n. P info n \<Longrightarrow> in_bounds (p info n)" "\<And>info n info' n'. P info n \<Longrightarrow> p info n = Inr (info', n') \<Longrightarrow> Q info' n'"
  shows "stage_triple P p Q"
  using assms by (simp add: stage_triple_def)

lemma stage_tripleD:
  assumes "stage_triple P p Q" "P info n"
  shows "in_bounds (p info n)" "p info n = Inr (info', n') \<Longrightarrow> Q info' n'"
  using assms by (simp_all add: stage_triple_def)

lemma then_stage_triple:
  assumes "stage_triple P p Q" "stage_triple Q q R"
  shows "stage_triple P (then_stage p q) R"
proof (rule stage_tripleI)
  fix info n assume P: "P info n"
  show "in_bounds (then_stage p q info n)"
    unfolding then_stage_def
    by (intro in_bounds_intro) (auto intro: stage_tripleD(1) [OF assms(1) P] stage_tripleD(1) [OF assms(2)]
        dest: stage_tripleD(2) [OF assms(1) P])
next
  fix info n info' n' assume "P info n" "then_stage p q info n = Inr (info', n')"
  then show "R info' n'"
    by (auto simp: then_stage_def bindP_Inr dest!: stage_tripleD(2) [OF assms(1)] stage_tripleD(2) [OF assms(2)])
qed

lemma if_stage_triple:
  assumes "stage_triple P p P"
  shows "stage_triple P (\<lambda>info n. if c info then p info n else Inr (info, n)) P"
proof (rule stage_tripleI)
  fix info n assume P: "P info n"
  then show "in_bounds (if c info then p info n else Inr (info, n))"
    using stage_tripleD(1) [OF assms P] by simp
  fix info' n' assume "(if c info then p info n else Inr (info, n)) = Inr (info', n')"
  then show "P info' n'"
    using stage_tripleD(2) [OF assms P] P by (cases "c info") simp_all
qed

subsection \<open>What the information keeps\<close>

definition element_ok :: "psv_signature_element \<Rightarrow> bool" where
  "element_ok e \<longleftrightarrow> length (pe_semantic_indexes e) = unat (pe_rows e)"

definition mask_ok :: "psv_mask \<Rightarrow> bool" where
  "mask_ok m \<longleftrightarrow> length (pm_mask_words m) = unat (PsvMaskDwordCount (pm_vector_count m))"

definition table_ok :: "psv_table \<Rightarrow> bool" where
  "table_ok t \<longleftrightarrow> length (pt_mask_words t) = unat (PsvInputOutputTableDwordCount (pt_input_vectors t) (pt_output_vectors t))"

text \<open>Holds between any two stages, with the offset inside the part.\<close>

definition psv_inv :: "psv_info \<Rightarrow> bool" where
  "psv_inv info \<longleftrightarrow>
     length (pv_output_vectors info) = 4 \<and>
     length (pv_resources info) = unat (pv_resource_count info) \<and>
     list_all element_ok (pv_input_signature info @ pv_output_signature info @ pv_patch_signature info) \<and>
     length (pv_view_id_output_masks info) = 4 \<and> list_all mask_ok (pv_view_id_output_masks info) \<and>
     mask_ok (pv_view_id_patch_mask info) \<and>
     length (pv_input_to_output_tables info) = 4 \<and> list_all table_ok (pv_input_to_output_tables info) \<and>
     table_ok (pv_input_to_patch_table info) \<and> table_ok (pv_patch_to_output_table info)"

definition psv_counts :: "psv_info \<Rightarrow> bool" where
  "psv_counts info \<longleftrightarrow>
     (pv_has_runtime_info_1 info \<longrightarrow>
        length (pv_input_signature info) = unat (pv_input_elements info) \<and>
        length (pv_output_signature info) = unat (pv_output_elements info) \<and>
        length (pv_patch_signature info) = unat (pv_patch_elements info))"

abbreviation inside :: "bytes \<Rightarrow> psv_info \<Rightarrow> nat \<Rightarrow> bool" where
  "inside data info n \<equiv> psv_inv info \<and> n \<le> length data"

text \<open>Before the resources are read there are none.\<close>

abbreviation starting :: "bytes \<Rightarrow> psv_info \<Rightarrow> nat \<Rightarrow> bool" where
  "starting data info n \<equiv> psv_inv info \<and> pv_resources info = [] \<and> n \<le> length data"

lemma empty_psv_starting: "starting data empty_psv 0"
  by (simp add: psv_inv_def empty_psv_def mask_ok_def table_ok_def empty_mask_def empty_table_def PsvMaskDwordCount_def
      PsvInputOutputTableDwordCount_def list_all_iff)

subsection \<open>The readers\<close>

lemma read_words_length: "read_words d k n = Inr ws \<Longrightarrow> length ws = n"
  by (auto simp: read_words_def parse_each_Inr)

lemma next_u32_in_bounds [in_bounds_intro]: "in_bounds (next_u32 data n)"
  unfolding next_u32_def by (intro in_bounds_intro) auto

lemma next_u32_Inr: "next_u32 data n = Inr (v, e) \<Longrightarrow> e = n + 4 \<and> e \<le> length data"
  by (auto simp: next_u32_def bindP_Inr checked_end_Some split: option.splits)

lemma ReadU32Array_in_bounds [in_bounds_intro]: "in_bounds (ReadU32Array data n count)"
  unfolding ReadU32Array_def by (intro in_bounds_intro) auto

lemma ReadU32Array_length: "ReadU32Array data n count = Inr ws \<Longrightarrow> length ws = count"
  by (auto simp: ReadU32Array_def dest: read_words_length split: option.splits)

lemma ReadU32Words_in_bounds [in_bounds_intro]: "in_bounds (ReadU32Words data n count)"
  unfolding ReadU32Words_def by (intro in_bounds_intro) auto

lemma ReadU32Words_Inr: "ReadU32Words data n count = Inr (ws, e) \<Longrightarrow> length ws = unat count \<and> e \<le> length data"
  by (auto simp: ReadU32Words_def bindP_Inr checked_end_Some dest: read_words_length split: option.splits)

lemma mask_in_bounds [in_bounds_intro]: "in_bounds (ReadPsvComponentMask data n v)"
  unfolding ReadPsvComponentMask_def by (intro in_bounds_intro)

lemma mask_Inr: "ReadPsvComponentMask data n v = Inr (m, e) \<Longrightarrow> mask_ok m \<and> e \<le> length data"
  by (auto simp: ReadPsvComponentMask_def bindP_Inr mask_ok_def dest: ReadU32Words_Inr)

lemma table_in_bounds [in_bounds_intro]: "in_bounds (ReadPsvDependencyTable data n v w)"
  unfolding ReadPsvDependencyTable_def by (intro in_bounds_intro)

lemma table_Inr: "ReadPsvDependencyTable data n v w = Inr (t, e) \<Longrightarrow> table_ok t \<and> e \<le> length data"
  by (auto simp: ReadPsvDependencyTable_def bindP_Inr table_ok_def dest: ReadU32Words_Inr)

subsection \<open>The stages\<close>

lemma psv_runtime_fields_in_bounds [in_bounds_intro]:
  assumes "length (pv_runtime_info info) = unat (pv_runtime_info_size info)"
  shows "in_bounds (psv_runtime_1 info)" "in_bounds (psv_runtime_2 info)" "in_bounds (psv_runtime_3 info)"
    "in_bounds (psv_runtime_4 info)"
  unfolding psv_runtime_1_def psv_runtime_2_def psv_runtime_3_def psv_runtime_4_def Let_def
  by (intro in_bounds_intro; use assms in \<open>simp add: psv_sizes\<close>)+

lemma psv_runtime_fields_keep:
  assumes "starting data info n"
  shows "psv_runtime_1 info = Inr info' \<Longrightarrow> starting data info' n" "psv_runtime_2 info = Inr info' \<Longrightarrow> starting data info' n"
    "psv_runtime_3 info = Inr info' \<Longrightarrow> starting data info' n" "psv_runtime_4 info = Inr info' \<Longrightarrow> starting data info' n"
  using assms by (auto simp: psv_runtime_1_def psv_runtime_2_def psv_runtime_3_def psv_runtime_4_def Let_def bindP_Inr psv_inv_def
      subspan_def split: if_splits)

lemma psv_runtime_fields_span:
  "psv_runtime_1 info = Inr info' \<Longrightarrow>
     pv_runtime_info info' = pv_runtime_info info \<and> pv_runtime_info_size info' = pv_runtime_info_size info"
  "psv_runtime_2 info = Inr info' \<Longrightarrow>
     pv_runtime_info info' = pv_runtime_info info \<and> pv_runtime_info_size info' = pv_runtime_info_size info"
  "psv_runtime_3 info = Inr info' \<Longrightarrow>
     pv_runtime_info info' = pv_runtime_info info \<and> pv_runtime_info_size info' = pv_runtime_info_size info"
  by (auto simp: psv_runtime_1_def psv_runtime_2_def psv_runtime_3_def Let_def bindP_Inr split: if_splits)

lemma psv_runtime_triple: "stage_triple (starting data) (psv_runtime data) (starting data)"
proof (rule stage_tripleI)
  fix info n assume "starting data info n"
  then show "in_bounds (psv_runtime data info n)"
    unfolding psv_runtime_def
    by (intro in_bounds_intro) (auto dest!: psv_runtime_fields_span next_u32_Inr simp: subspan_def split: if_splits)
next
  fix info n info' n' assume *: "starting data info n" "psv_runtime data info n = Inr (info', n')"
  from *(2) obtain sz k span i1 i2 i3 where steps: "next_u32 data n = Inr (sz, k)"
    "psv_runtime_1 (info \<lparr> pv_runtime_info_size := sz, pv_runtime_info := span \<rparr>) = Inr i1"
    "psv_runtime_2 i1 = Inr i2" "psv_runtime_3 i2 = Inr i3" "psv_runtime_4 i3 = Inr info'" "n' \<le> length data"
    by (auto simp: psv_runtime_def bindP_Inr checked_end_Some split: option.splits)
  have "starting data (info \<lparr> pv_runtime_info_size := sz, pv_runtime_info := span \<rparr>) n'"
    using *(1) steps(6) by (auto simp: psv_inv_def)
  from psv_runtime_fields_keep(1) [OF this steps(2)] have "starting data i1 n'" .
  from psv_runtime_fields_keep(2) [OF this steps(3)] have "starting data i2 n'" .
  from psv_runtime_fields_keep(3) [OF this steps(4)] have "starting data i3 n'" .
  from psv_runtime_fields_keep(4) [OF this steps(5)] show "starting data info' n'" .
qed

lemma psv_resource_at_in_bounds [in_bounds_intro]:
  "n + s \<le> length data \<Longrightarrow> 16 \<le> s \<Longrightarrow> in_bounds (psv_resource_at data s n)"
  unfolding psv_resource_at_def by (intro in_bounds_intro) (auto simp: psv_sizes)

lemma psv_resources_triple: "stage_triple (starting data) (psv_resources data) (inside data)"
proof (rule stage_tripleI)
  fix info n assume "starting data info n"
  then show "in_bounds (psv_resources data info n)"
    unfolding psv_resources_def Let_def
    by (intro in_bounds_intro) (auto simp: psv_sizes dest: element_fits)
next
  fix info n info' n' assume inv: "starting data info n" and step: "psv_resources data info n = Inr (info', n')"
  obtain c k where k: "next_u32 data n = Inr (c, k)" "k \<le> length data"
    using step by (auto simp: psv_resources_def bindP_Inr dest: next_u32_Inr)
  show "inside data info' n'"
  proof (cases "c = 0")
    case True
    then show ?thesis
      using step inv k by (auto simp: psv_resources_def Let_def psv_inv_def)
  next
    case False
    then obtain b rs where "length rs = unat c" "n' \<le> length data"
      "info' = info \<lparr> pv_resource_count := c, pv_resource_bind_info_size := b, pv_resources := rs \<rparr>"
      using step k(1) by (auto simp: psv_resources_def Let_def bindP_Inr require_Inr checked_end_Some parse_each_Inr
          split: option.splits)
    then show ?thesis using inv by (simp add: psv_inv_def)
  qed
qed

lemma psv_element_at_in_bounds [in_bounds_intro]:
  "n + 16 \<le> length data \<Longrightarrow> in_bounds (psv_element_at data info n)"
  unfolding psv_element_at_def by (intro in_bounds_intro) auto

lemma psv_element_at_ok: "psv_element_at data info n = Inr e \<Longrightarrow> element_ok e"
  by (auto simp: psv_element_at_def bindP_Inr element_ok_def dest: ReadU32Array_length)

lemma psv_elements_in_bounds:
  assumes "count = 0 \<or> 16 \<le> unat (pv_signature_element_size info)"
  shows "in_bounds (psv_elements data info count n)"
  unfolding psv_elements_def Let_def
proof (intro in_bounds_intro)
  fix i assume "i \<in> set [0..<count]" "n + count * unat (pv_signature_element_size info) \<le> length data"
  then show "n + i * unat (pv_signature_element_size info) + 16 \<le> length data"
    using element_fits [of n count "unat (pv_signature_element_size info)" "length data" i] assms by auto
qed

lemma psv_elements_Inr:
  "psv_elements data info count n = Inr (es, e) \<Longrightarrow> length es = count \<and> list_all element_ok es \<and> e \<le> length data"
  by (auto simp: psv_elements_def Let_def bindP_Inr checked_end_Some parse_each_Inr list_all_length
      split: option.splits dest: psv_element_at_ok)

lemma psv_string_table_triple: "stage_triple (inside data) (psv_string_table data) (inside data)"
proof (rule stage_tripleI)
  fix info n assume "inside data info n"
  have last: "unat (sz - 1) < unat sz" if "sz \<noteq> 0" for sz :: u32
    using that by (simp add: unat_minus_one unat_gt_0)
  show "in_bounds (psv_string_table data info n)"
    unfolding psv_string_table_def
    by (intro in_bounds_intro) (auto simp: last subspan_def split: if_splits)
next
  fix info n info' n' assume inv: "inside data info n" and step: "psv_string_table data info n = Inr (info', n')"
  then obtain sz ss nm where "n' \<le> length data"
    "info' = info \<lparr> pv_string_table_size := sz, pv_string_table := ss, pv_entry_function_name := nm \<rparr>"
    by (auto simp: psv_string_table_def bindP_Inr require_Inr checked_end_Some split: option.splits)
  then show "inside data info' n'" using inv by (simp add: psv_inv_def)
qed

lemma psv_index_table_triple: "stage_triple (inside data) (psv_index_table data) (inside data)"
proof (rule stage_tripleI)
  fix info n assume "inside data info n"
  then show "in_bounds (psv_index_table data info n)"
    unfolding psv_index_table_def by (intro in_bounds_intro) auto
next
  fix info n info' n' assume inv: "inside data info n" and step: "psv_index_table data info n = Inr (info', n')"
  then obtain c s where "n' \<le> length data" "info' = info \<lparr> pv_semantic_index_count := c, pv_semantic_index_table := s \<rparr>"
    by (auto simp: psv_index_table_def bindP_Inr checked_end_Some split: option.splits)
  then show "inside data info' n'" using inv by (simp add: psv_inv_def)
qed

text \<open>The elements have a size when there are any.\<close>

definition element_size_known :: "psv_info \<Rightarrow> bool" where
  "element_size_known info \<longleftrightarrow>
     unat (pv_input_elements info) + unat (pv_output_elements info) + unat (pv_patch_elements info) = 0 \<or>
     16 \<le> unat (pv_signature_element_size info)"

lemma psv_element_size_triple:
  "stage_triple (inside data) (psv_element_size data) (\<lambda>info n. inside data info n \<and> element_size_known info)"
proof (rule stage_tripleI)
  fix info n assume "inside data info n"
  show "in_bounds (psv_element_size data info n)"
    unfolding psv_element_size_def by (intro in_bounds_intro)
next
  fix info n info' n' assume inv: "inside data info n" and step: "psv_element_size data info n = Inr (info', n')"
  then show "inside data info' n' \<and> element_size_known info'"
    by (auto simp: psv_element_size_def bindP_Inr require_Inr psv_inv_def element_size_known_def psv_sizes
        split: if_splits dest: next_u32_Inr)
qed

lemma psv_signatures_triple:
  "stage_triple (\<lambda>info n. inside data info n \<and> element_size_known info) (psv_signatures data)
     (\<lambda>info n. inside data info n \<and> psv_counts info)"
proof (rule stage_tripleI)
  fix info n assume "inside data info n \<and> element_size_known info"
  then show "in_bounds (psv_signatures data info n)"
    unfolding psv_signatures_def
    by (intro in_bounds_intro psv_elements_in_bounds) (auto simp: element_size_known_def)
next
  fix info n info' n' assume inv: "inside data info n \<and> element_size_known info"
    and step: "psv_signatures data info n = Inr (info', n')"
  from step obtain a k b l c where steps: "psv_elements data info (unat (pv_input_elements info)) n = Inr (a, k)"
    "psv_elements data info (unat (pv_output_elements info)) k = Inr (b, l)"
    "psv_elements data info (unat (pv_patch_elements info)) l = Inr (c, n')"
    "info' = info \<lparr> pv_input_signature := a, pv_output_signature := b, pv_patch_signature := c \<rparr>"
    by (auto simp: psv_signatures_def bindP_Inr)
  show "inside data info' n' \<and> psv_counts info'"
    using inv steps(1-3) [THEN psv_elements_Inr] by (simp add: steps(4) psv_inv_def psv_counts_def)
qed

lemma psv_tables_triple: "stage_triple (inside data) (psv_tables data) (\<lambda>info n. inside data info n \<and> psv_counts info)"
proof -
  have "stage_triple (inside data) (then_stage (psv_string_table data)
      (then_stage (psv_index_table data) (then_stage (psv_element_size data) (psv_signatures data))))
      (\<lambda>info n. inside data info n \<and> psv_counts info)"
    by (intro then_stage_triple) (rule psv_string_table_triple psv_index_table_triple psv_element_size_triple psv_signatures_triple)+
  note chain = stage_tripleD [OF this]
  show ?thesis
  proof (rule stage_tripleI)
    fix info n assume inv: "inside data info n"
    then show "in_bounds (psv_tables data info n)"
      using chain(1) [OF inv] by (simp add: psv_tables_def)
    fix info' n' assume "psv_tables data info n = Inr (info', n')"
    then show "inside data info' n' \<and> psv_counts info'"
      using chain(2) [OF inv] inv by (cases "pv_has_runtime_info_1 info") (simp_all add: psv_tables_def psv_counts_def)
  qed
qed

abbreviation counted :: "bytes \<Rightarrow> psv_info \<Rightarrow> nat \<Rightarrow> bool" where
  "counted data info n \<equiv> inside data info n \<and> psv_counts info"

lemma list_all_update: "list_all P xs \<Longrightarrow> P y \<Longrightarrow> list_all P (xs[i := y])"
  by (auto simp: list_all_iff dest!: set_mp [OF set_update_subset_insert])

lemma psv_view_masks_triple: "stage_triple (counted data) (psv_view_masks data is) (counted data)"
proof (induction "is")
  case (Cons i "is")
  note IH = stage_tripleD [OF Cons.IH]
  show ?case
  proof (rule stage_tripleI)
    fix info n assume inv: "counted data info n"
    let ?next = "\<lambda>m. info \<lparr> pv_view_id_output_masks := (pv_view_id_output_masks info)[i := m] \<rparr>"
    let ?read = "ReadPsvComponentMask data n (ucast (pv_output_vectors info ! i))"
    have keep: "counted data (?next m) e" if "?read = Inr (m, e)" for m e
    proof -
      have "mask_ok m" "e \<le> length data" using mask_Inr [OF that] by simp_all
      moreover from this(1) inv have "list_all mask_ok ((pv_view_id_output_masks info)[i := m])"
        by (simp add: psv_inv_def list_all_update)
      ultimately show ?thesis using inv by (simp add: psv_inv_def psv_counts_def)
    qed
    show "in_bounds (psv_view_masks data (i # is) info n)"
    proof (cases "pv_output_vectors info ! i = 0")
      case False
      then show ?thesis by (auto intro!: in_bounds_intro IH(1) keep)
    qed (use IH(1) [OF inv] in auto)
    fix info' n' assume step: "psv_view_masks data (i # is) info n = Inr (info', n')"
    show "counted data info' n'"
    proof (cases "pv_output_vectors info ! i = 0")
      case False
      then obtain m e where read: "?read = Inr (m, e)" and rest: "psv_view_masks data is (?next m) e = Inr (info', n')"
        using step by (auto simp: bindP_Inr)
      show ?thesis by (rule IH(2) [OF keep [OF read] rest])
    qed (use step IH(2) [OF inv] in auto)
  qed
qed (simp add: stage_triple_def)

lemma psv_view_patch_mask_triple: "stage_triple (counted data) (psv_view_patch_mask data) (counted data)"
  by (rule stage_tripleI)
    (auto simp: psv_view_patch_mask_def bindP_Inr psv_inv_def psv_counts_def intro!: in_bounds_intro dest!: mask_Inr
       split: if_splits)

lemma psv_output_tables_triple: "stage_triple (counted data) (psv_output_tables data is) (counted data)"
proof (induction "is")
  case (Cons i "is")
  note IH = stage_tripleD [OF Cons.IH]
  show ?case
  proof (rule stage_tripleI)
    fix info n assume inv: "counted data info n"
    let ?next = "\<lambda>m. info \<lparr> pv_input_to_output_tables := (pv_input_to_output_tables info)[i := m] \<rparr>"
    let ?read = "ReadPsvDependencyTable data n (ucast (pv_input_vectors info)) (ucast (pv_output_vectors info ! i))"
    have keep: "counted data (?next m) e" if "?read = Inr (m, e)" for m e
    proof -
      have "table_ok m" "e \<le> length data" using table_Inr [OF that] by simp_all
      moreover from this(1) inv have "list_all table_ok ((pv_input_to_output_tables info)[i := m])"
        by (simp add: psv_inv_def list_all_update)
      ultimately show ?thesis using inv by (simp add: psv_inv_def psv_counts_def)
    qed
    show "in_bounds (psv_output_tables data (i # is) info n)"
    proof (cases "pv_shader_stage info = 13 \<or> pv_output_vectors info ! i = 0 \<or> pv_input_vectors info = 0")
      case False
      then show ?thesis by (auto intro!: in_bounds_intro IH(1) keep)
    qed (use IH(1) [OF inv] in auto)
    fix info' n' assume step: "psv_output_tables data (i # is) info n = Inr (info', n')"
    show "counted data info' n'"
    proof (cases "pv_shader_stage info = 13 \<or> pv_output_vectors info ! i = 0 \<or> pv_input_vectors info = 0")
      case False
      then obtain m e where read: "?read = Inr (m, e)" and rest: "psv_output_tables data is (?next m) e = Inr (info', n')"
        using step by (auto simp: bindP_Inr)
      show ?thesis by (rule IH(2) [OF keep [OF read] rest])
    qed (use step IH(2) [OF inv] in auto)
  qed
qed (simp add: stage_triple_def)

lemma psv_patch_table_triples:
  "stage_triple (counted data) (psv_input_patch_table data) (counted data)"
  "stage_triple (counted data) (psv_patch_output_table data) (counted data)"
  by (rule stage_tripleI,
      auto simp: psv_input_patch_table_def psv_patch_output_table_def bindP_Inr psv_inv_def psv_counts_def
        intro!: in_bounds_intro dest!: table_Inr split: if_splits)+

text \<open>What the parser returns: as many resources and elements as the counts say, as many semantic indices
  per element as it has rows, and as many words per mask and table as its vectors need.\<close>

definition psv_ok :: "psv_info \<Rightarrow> bool" where
  "psv_ok info \<longleftrightarrow> psv_inv info \<and> psv_counts info"

lemma psv_front_triple:
  "stage_triple (starting data) (then_stage (psv_runtime data) (then_stage (psv_resources data) (psv_tables data))) (counted data)"
  by (intro then_stage_triple) (rule psv_runtime_triple psv_resources_triple psv_tables_triple)+

lemma psv_dependencies_triple: "stage_triple (counted data) (psv_dependencies data) (counted data)"
  unfolding psv_dependencies_def [abs_def]
  by (rule if_stage_triple then_stage_triple psv_view_masks_triple psv_view_patch_mask_triple psv_output_tables_triple
      psv_patch_table_triples)+

lemma ParsePipelineStateValidation_in_bounds [in_bounds_intro]: "in_bounds (ParsePipelineStateValidation part)"
  unfolding ParsePipelineStateValidation_def Let_def
  by (intro in_bounds_intro stage_tripleD(1) [OF psv_front_triple empty_psv_starting])
    (auto dest!: stage_tripleD(2) [OF psv_front_triple empty_psv_starting] intro: stage_tripleD(1) [OF psv_dependencies_triple])


text \<open>A vertex shader with a resource and an input element, for the witness.\<close>

definition example_psv :: blob_part where
  "example_psv = \<lparr> bp_fourcc = MakeFourCC 0x50 0x53 0x56 0x30, bp_offset = 0, bp_data =
     [36, 0, 0, 0, 0, 0, 0, 0, 0, 0, 0, 0, 0, 0, 0, 0,
      0, 0, 0, 0, 0, 0, 0, 0, 0, 0, 0, 0, 1, 0, 0, 0,
      1, 0, 0, 1, 1, 0, 0, 0, 1, 0, 0, 0, 16, 0, 0, 0,
      2, 0, 0, 0, 0, 0, 0, 0, 3, 0, 0, 0, 3, 0, 0, 0,
      4, 0, 0, 0, 65, 0, 0, 0, 1, 0, 0, 0, 0, 0, 0, 0,
      16, 0, 0, 0, 0, 0, 0, 0, 0, 0, 0, 0, 1, 0, 65, 1,
      3, 2, 0, 0, 1, 0, 0, 0, 2, 0, 0, 0, 4, 0, 0, 0,
      8, 0, 0, 0] \<rparr>"

lemma example_psv_parsed:
  "(case ParsePipelineStateValidation example_psv of
      Inl e \<Rightarrow> False
    | Inr info \<Rightarrow> map pr_resource_type (pv_resources info) = [2] \<and> map pe_semantic_name (pv_input_signature info) = [[65]] \<and>
        pt_mask_words (pv_input_to_output_tables info ! 0) = [1, 2, 4, 8])"
  by code_simp


end
