(* ===== verification/DxilParser.thy ===== *)
theory DxilParser
  imports BitstreamBlocks RuntimeProps PipelineValidation
begin

text \<open>
  The parser of a DXIL container (src/libs/DXILParser/DXILParser.cpp, class \<open>Parser\<close>): the container, the
  program, the bitcode and the parts with a layout of their own, in the order \<open>Parser::parse\<close> runs them. The
  LLVM module, which is parsed between the bitcode and the known parts where the build has LLVM, is left
  out, and so are the reflection, validation and translation information built from the result.
\<close>

record dxil_parser =
  px_container :: container_info
  px_dxil_program :: "dxil_program_info option"
  px_bitcode :: "bitcode_info option"
  px_signatures :: "signature_info list"
  px_feature_info :: "u64 option"
  px_shader_hash :: "shader_hash_info option"
  px_compiler_version :: "compiler_version_info option"
  px_shader_debug_name :: "shader_debug_name_info option"
  px_source_info :: "source_info option"
  px_shader_pdb_info :: "shader_pdb_info option"
  px_shader_statistics :: "u32 list option"
  px_resource_def :: "resource_def_info option"
  px_runtime_data :: "runtime_data option"
  px_psv_info :: "psv_info option"

definition fourcc_InputSignature :: u32 where "fourcc_InputSignature = MakeFourCC 0x49 0x53 0x47 0x31" \<comment> \<open>ISG1\<close>
definition fourcc_OutputSignature :: u32 where "fourcc_OutputSignature = MakeFourCC 0x4F 0x53 0x47 0x31" \<comment> \<open>OSG1\<close>
definition fourcc_PatchConstantSignature :: u32 where
  "fourcc_PatchConstantSignature = MakeFourCC 0x50 0x53 0x47 0x31" \<comment> \<open>PSG1\<close>
definition fourcc_FeatureInfo :: u32 where "fourcc_FeatureInfo = MakeFourCC 0x53 0x46 0x49 0x30" \<comment> \<open>SFI0\<close>
definition fourcc_ShaderHash :: u32 where "fourcc_ShaderHash = MakeFourCC 0x48 0x41 0x53 0x48" \<comment> \<open>HASH\<close>
definition fourcc_CompilerVersion :: u32 where "fourcc_CompilerVersion = MakeFourCC 0x56 0x45 0x52 0x53" \<comment> \<open>VERS\<close>
definition fourcc_ShaderDebugName :: u32 where "fourcc_ShaderDebugName = MakeFourCC 0x49 0x4C 0x44 0x4E" \<comment> \<open>ILDN\<close>
definition fourcc_ShaderSourceInfo :: u32 where "fourcc_ShaderSourceInfo = MakeFourCC 0x53 0x52 0x43 0x49" \<comment> \<open>SRCI\<close>
definition fourcc_ShaderPdbInfo :: u32 where "fourcc_ShaderPdbInfo = MakeFourCC 0x50 0x44 0x42 0x49" \<comment> \<open>PDBI\<close>
definition fourcc_ShaderStatistics :: u32 where "fourcc_ShaderStatistics = MakeFourCC 0x53 0x54 0x41 0x54" \<comment> \<open>STAT\<close>
definition fourcc_ResourceDef :: u32 where "fourcc_ResourceDef = MakeFourCC 0x52 0x44 0x45 0x46" \<comment> \<open>RDEF\<close>
definition fourcc_RuntimeData :: u32 where "fourcc_RuntimeData = MakeFourCC 0x52 0x44 0x41 0x54" \<comment> \<open>RDAT\<close>
definition fourcc_PipelineStateValidation :: u32 where
  "fourcc_PipelineStateValidation = MakeFourCC 0x50 0x53 0x56 0x30" \<comment> \<open>PSV0\<close>

definition reset_parser :: "container_info \<Rightarrow> dxil_parser" where
  "reset_parser container =
     \<lparr> px_container = container, px_dxil_program = None, px_bitcode = None, px_signatures = [], px_feature_info = None,
       px_shader_hash = None, px_compiler_version = None, px_shader_debug_name = None, px_source_info = None,
       px_shader_pdb_info = None, px_shader_statistics = None, px_resource_def = None, px_runtime_data = None,
       px_psv_info = None \<rparr>"

subsection \<open>Program and bitcode\<close>

definition parseDxilProgram :: "dxil_parser \<Rightarrow> dxil_parser dxil_parse" where
  "parseDxilProgram p =
     (case findPart fourcc_Dxil 0 (px_container p) of
        None \<Rightarrow> Inl (Rejected MissingDxilPart)
      | Some dxil \<Rightarrow> bindP (ParseDxilProgram dxil) (\<lambda>info. Inr (p \<lparr> px_dxil_program := Some info \<rparr>)))"

definition parseBitcode :: "dxil_parser \<Rightarrow> dxil_parser dxil_parse" where
  "parseBitcode p =
     (case px_dxil_program p of
        None \<Rightarrow> Inl (Rejected MissingDxilPart)
      | Some program \<Rightarrow> bindP (ParseBitcode (pi_bitcode program)) (\<lambda>info. Inr (p \<lparr> px_bitcode := Some info \<rparr>)))"

subsection \<open>The known parts\<close>

text \<open>\<open>findPart\<close> with the index of the part it finds, which the loop over the signatures computes from the
  pointer.\<close>

fun find_index_from :: "u32 \<Rightarrow> nat \<Rightarrow> blob_part list \<Rightarrow> nat option" where
  "find_index_from fourcc i [] = None"
| "find_index_from fourcc i (p # ps) = (if bp_fourcc p = fourcc then Some i else find_index_from fourcc (i + 1) ps)"

definition find_part_index :: "u32 \<Rightarrow> nat \<Rightarrow> blob_part list \<Rightarrow> nat option" where
  "find_part_index fourcc start parts = find_index_from fourcc start (drop start parts)"

lemma find_index_from_Some:
  "find_index_from fourcc i ps = Some j \<Longrightarrow> i \<le> j \<and> j < i + length ps"
  by (induction ps arbitrary: i) (fastforce split: if_splits)+

lemma find_part_index_Some: "find_part_index fourcc start parts = Some j \<Longrightarrow> start \<le> j \<and> j < length parts"
  using find_index_from_Some [of fourcc start "drop start parts" j]
  by (cases "start \<le> length parts") (auto simp: find_part_index_def)

text \<open>\<open>while (const auto *part = container_.findPart(fourcc, start))\<close>.\<close>

function signatures_from :: "blob_part list \<Rightarrow> u32 \<Rightarrow> nat \<Rightarrow> signature_info list dxil_parse" where
  "signatures_from parts fourcc start =
     (case find_part_index fourcc start parts of
        None \<Rightarrow> Inr []
      | Some j \<Rightarrow>
          bindP (ParseSignature (parts ! j)) (\<lambda>info.
          bindP (signatures_from parts fourcc (j + 1)) (\<lambda>rest. Inr (info # rest))))"
  by pat_completeness auto
termination
  by (relation "measure (\<lambda>(parts, fourcc, start). length parts - start)") (auto dest: find_part_index_Some)

declare signatures_from.simps [simp del]

definition parse_signatures :: "dxil_parser \<Rightarrow> dxil_parser dxil_parse" where
  "parse_signatures p =
     bindP (parse_each (\<lambda>fourcc. signatures_from (ci_parts (px_container p)) fourcc 0)
              [fourcc_InputSignature, fourcc_OutputSignature, fourcc_PatchConstantSignature]) (\<lambda>ss.
       Inr (p \<lparr> px_signatures := concat ss \<rparr>))"

text \<open>A part that is there is parsed and stored; one that is not changes nothing.\<close>

definition known_part ::
  "u32 \<Rightarrow> (blob_part \<Rightarrow> 'a dxil_parse) \<Rightarrow> ('a \<Rightarrow> dxil_parser \<Rightarrow> dxil_parser) \<Rightarrow> dxil_parser \<Rightarrow> dxil_parser dxil_parse" where
  "known_part fourcc parse store p =
     (case findPart fourcc 0 (px_container p) of
        None \<Rightarrow> Inr p
      | Some part \<Rightarrow> bindP (parse part) (\<lambda>info. Inr (store info p)))"

definition known_parts :: "nat \<Rightarrow> (dxil_parser \<Rightarrow> dxil_parser dxil_parse) list" where
  "known_parts W =
     [known_part fourcc_FeatureInfo ParseFeatureInfo (\<lambda>i p. p \<lparr> px_feature_info := Some i \<rparr>),
      known_part fourcc_ShaderHash ParseShaderHash (\<lambda>i p. p \<lparr> px_shader_hash := Some i \<rparr>),
      known_part fourcc_CompilerVersion ParseCompilerVersion (\<lambda>i p. p \<lparr> px_compiler_version := Some i \<rparr>),
      known_part fourcc_ShaderDebugName ParseShaderDebugName (\<lambda>i p. p \<lparr> px_shader_debug_name := Some i \<rparr>),
      known_part fourcc_ShaderSourceInfo ParseSourceInfo (\<lambda>i p. p \<lparr> px_source_info := Some i \<rparr>),
      known_part fourcc_ShaderPdbInfo ParseShaderPdbInfo (\<lambda>i p. p \<lparr> px_shader_pdb_info := Some i \<rparr>),
      known_part fourcc_ShaderStatistics ParseShaderStatistics (\<lambda>i p. p \<lparr> px_shader_statistics := Some i \<rparr>),
      known_part fourcc_ResourceDef ParseResourceDef (\<lambda>i p. p \<lparr> px_resource_def := Some i \<rparr>),
      known_part fourcc_RuntimeData (ParseRuntimeData W) (\<lambda>i p. p \<lparr> px_runtime_data := Some i \<rparr>),
      known_part fourcc_PipelineStateValidation ParsePipelineStateValidation (\<lambda>i p. p \<lparr> px_psv_info := Some i \<rparr>)]"

definition parseKnownParts :: "nat \<Rightarrow> dxil_parser \<Rightarrow> dxil_parser dxil_parse" where
  "parseKnownParts W p = run_parsers (parse_signatures # known_parts W) p"

text \<open>\<open>Parser::parse\<close>, up to the known parts.\<close>

definition parse_parts :: "nat \<Rightarrow> u8 list option \<Rightarrow> nat \<Rightarrow> dxil_parser dxil_parse" where
  "parse_parts W data sz =
     bindP (ParseContainer data sz) (\<lambda>container.
       run_parsers [parseDxilProgram, parseBitcode, parseKnownParts W] (reset_parser container))"

subsection \<open>No read leaves the container\<close>

lemma signatures_from_in_bounds [in_bounds_intro]: "in_bounds (signatures_from parts fourcc start)"
proof (induction parts fourcc start rule: signatures_from.induct)
  case (1 parts fourcc start)
  show ?case
    by (subst signatures_from.simps) (intro in_bounds_intro 1; assumption)
qed

lemma known_part_in_bounds:
  "(\<And>part. in_bounds (parse part)) \<Longrightarrow> in_bounds (known_part fourcc parse store p)"
  unfolding known_part_def by (intro in_bounds_intro)

lemma known_parts_in_bounds: "q \<in> set (known_parts 64) \<Longrightarrow> in_bounds (q p)"
  unfolding known_parts_def by (auto intro!: known_part_in_bounds in_bounds_intro)

lemma parseKnownParts_in_bounds [in_bounds_intro]: "in_bounds (parseKnownParts 64 p)"
  unfolding parseKnownParts_def
proof (rule run_parsers_in_bounds [of "\<lambda>_. True"])
  fix q :: "dxil_parser \<Rightarrow> dxil_parser dxil_parse" and x
  assume "q \<in> set (parse_signatures # known_parts 64)"
  then show "in_bounds (q x)"
    by (auto simp: parse_signatures_def intro: known_parts_in_bounds intro!: in_bounds_intro)
qed simp_all


subsection \<open>Every signature, in order\<close>

lemma find_index_from_filter:
  "filter (\<lambda>p. bp_fourcc p = fourcc) ps =
     (case find_index_from fourcc i ps of
        None \<Rightarrow> []
      | Some j \<Rightarrow> ps ! (j - i) # filter (\<lambda>p. bp_fourcc p = fourcc) (drop (j - i + 1) ps))"
proof (induction ps arbitrary: i)
  case (Cons p ps)
  show ?case
  proof (cases "bp_fourcc p = fourcc")
    case False
    have "Suc (j - Suc i) = j - i" if "Suc i \<le> j" for j using that by simp
    with False show ?thesis
      using Cons.IH [of "i + 1"] find_index_from_Some [of fourcc "i + 1" ps]
      by (auto simp: Suc_diff_le nth_Cons' split: option.splits)
  qed simp
qed simp

lemma signatures_from_eq:
  "signatures_from parts fourcc start = parse_each ParseSignature (filter (\<lambda>p. bp_fourcc p = fourcc) (drop start parts))"
proof (induction parts fourcc start rule: signatures_from.induct)
  case (1 parts fourcc start)
  show ?case
  proof (cases "find_part_index fourcc start parts")
    case None
    then show ?thesis
      by (subst signatures_from.simps, subst find_index_from_filter [of _ _ start]) (simp add: find_part_index_def)
  next
    case (Some j)
    note range = find_part_index_Some [OF Some]
    then have "drop start parts ! (j - start) = parts ! j"
      "drop (j - start + 1) (drop start parts) = drop (j + 1) parts" by (simp_all add: add.commute)
    with Some have "filter (\<lambda>p. bp_fourcc p = fourcc) (drop start parts) =
        parts ! j # filter (\<lambda>p. bp_fourcc p = fourcc) (drop (j + 1) parts)"
      by (subst find_index_from_filter [of _ _ start]) (simp add: find_part_index_def)
    then show ?thesis
      using Some 1 [OF Some] by (subst signatures_from.simps) (auto intro: bindP_cong)
  qed
qed

text \<open>C37: The loop over the signature parts, which restarts the search behind each part it finds, ends and
  parses exactly the input, output and patch constant signatures of the container, in that order and each in
  the order of the part table.\<close>

theorem signature_loop_complete:
  "parse_signatures p =
     (let of_type = (\<lambda>ty. filter (\<lambda>part. bp_fourcc part = ty) (ci_parts (px_container p))) in
      bindP (parse_each ParseSignature
               (of_type fourcc_InputSignature @ of_type fourcc_OutputSignature @ of_type fourcc_PatchConstantSignature))
        (\<lambda>ss. Inr (p \<lparr> px_signatures := ss \<rparr>)))"
proof -
  have append: "parse_each f (xs @ ys) = bindP (parse_each f xs) (\<lambda>a. bindP (parse_each f ys) (\<lambda>b. Inr (a @ b)))"
    for f :: "blob_part \<Rightarrow> signature_info dxil_parse" and xs ys
    by (induction xs) (simp_all add: bindP_assoc, simp add: bindP_def split: sum.split)
  show ?thesis
    by (simp add: parse_signatures_def signatures_from_eq append bindP_assoc)
qed

end
