(* ===== verification/BindingSet.thy ===== *)
theory BindingSet
  imports FenceSet
begin

text \<open>
  The tables of bound objects of the D3D11 context: \<open>BindingSet\<close> of src/src/dxmt/dxmt_binding_set.hpp
  over the \<open>bitset\<close> of src/src/util/util_bit.hpp. A bit set is the list of its 64-bit words; \<open>Bits\<close>, the
  template argument, is \<open>N\<close>. A table has a word list each for the dirty, bound and hazard slots and
  the array of its elements; \<open>redundant\<close> is the trait that compares two elements.
  A table stands for a map from slots to elements: the lemmas read every operation on that map.
\<close>

subsection \<open>Bit sets\<close>

definition Qwords :: "nat \<Rightarrow> nat" where
  "Qwords N = (N + 63) div 64"

text \<open>The word and the bit of an index; one word needs no division.\<close>

definition qword_of :: "u64 list \<Rightarrow> nat \<Rightarrow> nat" where
  "qword_of b idx = (if length b > 1 then idx div 64 else 0)"

definition bit_in :: "u64 list \<Rightarrow> nat \<Rightarrow> nat" where
  "bit_in b idx = (if length b > 1 then idx mod 64 else idx)"

definition bits_get :: "u64 list \<Rightarrow> nat \<Rightarrow> bool" where
  "bits_get b idx \<longleftrightarrow> b ! qword_of b idx AND push_bit (bit_in b idx) 1 \<noteq> 0"

definition bits_set :: "u64 list \<Rightarrow> nat \<Rightarrow> bool \<Rightarrow> u64 list" where
  "bits_set b idx v =
     b[qword_of b idx :=
       if v then b ! qword_of b idx OR push_bit (bit_in b idx) 1
       else b ! qword_of b idx AND NOT (push_bit (bit_in b idx) 1)]"

definition bits_exchange :: "u64 list \<Rightarrow> nat \<Rightarrow> bool \<Rightarrow> bool \<times> u64 list" where
  "bits_exchange b idx v = (bits_get b idx, bits_set b idx v)"

definition bits_flip :: "u64 list \<Rightarrow> nat \<Rightarrow> u64 list" where
  "bits_flip b idx = b[qword_of b idx := b ! qword_of b idx XOR push_bit (bit_in b idx) 1]"

definition bits_setAll :: "nat \<Rightarrow> u64 list \<Rightarrow> u64 list" where
  "bits_setAll N b =
     (if N mod 64 = 0 then map (\<lambda>_. - 1) b
      else map (\<lambda>_. - 1) (take (length b - 1) b) @ [push_bit (N mod 64) 1 - 1])"

definition bits_clearAll :: "u64 list \<Rightarrow> u64 list" where
  "bits_clearAll b = map (\<lambda>_. 0) b"

definition bits_clearMask :: "u64 list \<Rightarrow> u32 \<Rightarrow> u64 list" where
  "bits_clearMask b m = b[0 := b ! 0 AND NOT (ucast m)]"

definition bits_any :: "u64 list \<Rightarrow> bool" where
  "bits_any b \<longleftrightarrow> (\<exists>w \<in> set b. w \<noteq> 0)"

definition bits_setN :: "u64 list \<Rightarrow> nat \<Rightarrow> u64 list" where
  "bits_setN b n =
     (let full = map (\<lambda>i. if i < n div 64 then - 1 else b ! i) [0..<length b] in
      if n mod 64 > 0 then full[n div 64 := push_bit (n mod 64) 1 - 1] else full)"

definition bits_empty :: "nat \<Rightarrow> u64 list" where
  "bits_empty N = replicate (Qwords N) 0"

subsection \<open>The table\<close>

record 'e binding_set =
  bs_size :: nat \<comment> \<open>NumElements\<close>
  bs_dirty :: "u64 list"
  bs_bound :: "u64 list"
  bs_hazard :: "u64 list"
  bs_storage :: "'e list"

definition binding_set_new :: "nat \<Rightarrow> 'e \<Rightarrow> 'e binding_set" where
  "binding_set_new N e =
     \<lparr> bs_size = N, bs_dirty = bits_empty N, bs_bound = bits_empty N, bs_hazard = bits_empty N,
       bs_storage = replicate N e \<rparr>"

text \<open>The move constructor and assignment: everything bound is dirty in the new owner.\<close>

definition binding_set_move :: "'e binding_set \<Rightarrow> 'e binding_set" where
  "binding_set_move move =
     \<lparr> bs_size = bs_size move, bs_dirty = bs_bound move, bs_bound = bs_bound move, bs_hazard = bs_hazard move,
       bs_storage = bs_storage move \<rparr>"

definition bs_at :: "'e binding_set \<Rightarrow> nat \<Rightarrow> 'e" where
  "bs_at s index = bs_storage s ! index"

definition test_bound :: "'e binding_set \<Rightarrow> nat \<Rightarrow> bool" where
  "test_bound s n = bits_get (bs_bound s) n"

definition test_dirty :: "'e binding_set \<Rightarrow> nat \<Rightarrow> bool" where
  "test_dirty s n = bits_get (bs_dirty s) n"

definition any_dirty :: "'e binding_set \<Rightarrow> bool" where
  "any_dirty s = bits_any (bs_dirty s)"

definition any_dirty_masked16 :: "'e binding_set \<Rightarrow> u16 \<Rightarrow> bool" where
  "any_dirty_masked16 s m \<longleftrightarrow> bs_dirty s ! 0 AND ucast m \<noteq> 0"

definition any_dirty_masked64 :: "'e binding_set \<Rightarrow> u64 \<Rightarrow> bool" where
  "any_dirty_masked64 s m \<longleftrightarrow> bs_dirty s ! 0 AND m \<noteq> 0"

definition any_dirty_masked128 :: "'e binding_set \<Rightarrow> u64 \<Rightarrow> u64 \<Rightarrow> bool" where
  "any_dirty_masked128 s mask_hi mask_lo \<longleftrightarrow> (bs_dirty s ! 0 AND mask_lo) OR (bs_dirty s ! 1 AND mask_hi) \<noteq> 0"

definition all_bound_masked :: "'e binding_set \<Rightarrow> u32 \<Rightarrow> bool" where
  "all_bound_masked s m \<longleftrightarrow> bs_bound s ! 0 AND ucast m = ucast m"

definition any_bound :: "'e binding_set \<Rightarrow> bool" where
  "any_bound s = bits_any (bs_bound s)"

definition any_bound_masked :: "'e binding_set \<Rightarrow> u64 \<Rightarrow> bool" where
  "any_bound_masked s m \<longleftrightarrow> bs_bound s ! 0 AND m \<noteq> 0"

definition max_binding_64 :: "'e binding_set \<Rightarrow> u32" where
  "max_binding_64 s = 64 - of_nat (tzcnt64 (bs_dirty s ! 0))"

definition clear_dirty :: "'e binding_set \<Rightarrow> 'e binding_set" where
  "clear_dirty s = s \<lparr> bs_dirty := bits_clearAll (bs_dirty s) \<rparr>"

definition clear_dirty_slot :: "'e binding_set \<Rightarrow> nat \<Rightarrow> 'e binding_set" where
  "clear_dirty_slot s n = s \<lparr> bs_dirty := bits_set (bs_dirty s) n False \<rparr>"

definition clear_dirty_mask :: "'e binding_set \<Rightarrow> u32 \<Rightarrow> 'e binding_set" where
  "clear_dirty_mask s m = s \<lparr> bs_dirty := bits_clearMask (bs_dirty s) m \<rparr>"

definition set_dirty :: "'e binding_set \<Rightarrow> 'e binding_set" where
  "set_dirty s = s \<lparr> bs_dirty := bits_setAll (bs_size s) (bs_dirty s) \<rparr>"

definition set_dirty_slot :: "'e binding_set \<Rightarrow> nat \<Rightarrow> 'e binding_set" where
  "set_dirty_slot s n = s \<lparr> bs_dirty := bits_set (bs_dirty s) n True \<rparr>"

text \<open>The flag says whether the element was replaced.\<close>

definition bind_slot :: "('e \<Rightarrow> 'e \<Rightarrow> bool) \<Rightarrow> 'e binding_set \<Rightarrow> nat \<Rightarrow> 'e \<Rightarrow> bool \<Rightarrow> 'e binding_set \<times> bool" where
  "bind_slot redundant s n element hazard =
     (if bits_get (bs_bound s) n \<and> redundant (bs_storage s ! n) element then (s, False)
      else
        let s = (if bits_get (bs_bound s) n then s
                 else s \<lparr> bs_bound := bits_set (bs_bound s) n True,
                          bs_hazard := bits_set (bs_hazard s) n hazard \<rparr>) in
        (s \<lparr> bs_storage := (bs_storage s)[n := element], bs_dirty := bits_set (bs_dirty s) n True \<rparr>, True))"

text \<open>\<open>nothing\<close> is the value-initialised element; the flag says whether the slot was bound.\<close>

definition unbind_slot :: "'e \<Rightarrow> 'e binding_set \<Rightarrow> nat \<Rightarrow> 'e binding_set \<times> bool" where
  "unbind_slot nothing s n =
     (if bits_get (bs_bound s) n then
        (s \<lparr> bs_storage := (bs_storage s)[n := nothing], bs_bound := bits_set (bs_bound s) n False,
             bs_hazard := bits_set (bs_hazard s) n False, bs_dirty := bits_set (bs_dirty s) n True \<rparr>, True)
      else (s, False))"

subsection \<open>The iterator\<close>

function advance_to_next :: "nat \<Rightarrow> u64 list \<Rightarrow> nat \<Rightarrow> nat" where
  "advance_to_next N bits current =
     (if current < N then
        let qword_index = current div 64;
            tz = tzcnt64 (bits ! qword_index AND NOT (push_bit (current mod 64) 1 - 1)) in
        if tz < 64 then qword_index * 64 + tz else advance_to_next N bits ((qword_index + 1) * 64)
      else N)"
  by pat_completeness auto
termination
proof (relation "measure (\<lambda>(N, bits, current). N - current)")
  show "((N, bits, (qword_index + 1) * 64), N, bits, current) \<in> measure (\<lambda>(N, bits, current). N - current)"
    if "current < N" "qword_index = current div 64" for N current qword_index and bits :: "u64 list"
    using that dividend_less_div_times [of 64 current] by (simp add: in_measure)
qed simp

declare advance_to_next.simps [simp del]

definition bits_begin :: "nat \<Rightarrow> u64 list \<Rightarrow> nat" where
  "bits_begin N bits = advance_to_next N bits 0"

definition bits_next :: "nat \<Rightarrow> u64 list \<Rightarrow> nat \<Rightarrow> nat" where
  "bits_next N bits current = advance_to_next N bits (current + 1)"

definition bs_begin :: "'e binding_set \<Rightarrow> nat" where
  "bs_begin s = bits_begin (bs_size s) (bs_bound s)"

definition hazard_begin :: "'e binding_set \<Rightarrow> nat" where
  "hazard_begin s = bits_begin (bs_size s) (bs_hazard s)"

subsection \<open>Reading bits\<close>

text \<open>A bit set of \<open>N\<close> bits: as many words as it needs, and no bit behind the last.\<close>

definition bits_ok :: "nat \<Rightarrow> u64 list \<Rightarrow> bool" where
  "bits_ok N b \<longleftrightarrow> length b = Qwords N \<and> (\<forall>i. bit (b ! (i div 64)) (i mod 64) \<and> i div 64 < Qwords N \<longrightarrow> i < N)"

lemma qwords_bound: "i < N \<Longrightarrow> i div 64 < Qwords N"
  using div_le_mono [of "i + 64" "N + 63" 64] unfolding Qwords_def by simp

lemma bits_index:
  assumes "length b = Qwords N" "i < N"
  shows "qword_of b i = i div 64" "bit_in b i = i mod 64" "i div 64 < length b"
proof -
  have "i div 64 = 0 \<and> i mod 64 = i" if "\<not> length b > 1"
  proof -
    have "i div 64 = 0" using that assms qwords_bound [OF assms(2)] by linarith
    then show ?thesis by (simp add: div_eq_0_iff)
  qed
  then show "qword_of b i = i div 64" "bit_in b i = i mod 64" "i div 64 < length b"
    using qwords_bound [OF assms(2)] assms(1) by (auto simp: qword_of_def bit_in_def)
qed

lemma and_push_bit_iff: "w AND push_bit n 1 \<noteq> 0 \<longleftrightarrow> bit (w :: u64) n"
proof -
  have iff: "bit (w AND push_bit n 1) k \<longleftrightarrow> bit w k \<and> k = n" for k
    using bit64_imp_lt [of w k] by (auto simp only: bit_and_iff bit_push_bit_iff bit_1_iff) auto
  show ?thesis
  proof (cases "w AND push_bit n 1 = 0")
    case True
    have "\<not> bit (0 :: u64) n" by simp
    then have "\<not> bit (w AND push_bit n 1) n" by (subst True)
    then show ?thesis unfolding iff using True by blast
  next
    case False
    then obtain k where "bit (w AND push_bit n 1) k" using ex_bit64 by blast
    then show ?thesis unfolding iff using False by blast
  qed
qed

lemma bits_get_bit: "length b = Qwords N \<Longrightarrow> i < N \<Longrightarrow> bits_get b i \<longleftrightarrow> bit (b ! (i div 64)) (i mod 64)"
  by (simp add: bits_get_def bits_index and_push_bit_iff)

lemma div_mod_eq_iff: "(i :: nat) div 64 = j div 64 \<and> i mod 64 = j mod 64 \<longleftrightarrow> i = j"
  by (metis div_mult_mod_eq)

lemma bits_set_bit:
  assumes "length b = Qwords N" "i < N" "j div 64 < Qwords N"
  shows "bit (bits_set b i v ! (j div 64)) (j mod 64) \<longleftrightarrow> (if i = j then v else bit (b ! (j div 64)) (j mod 64))"
proof (cases "i div 64 = j div 64")
  case True
  then show ?thesis
    using assms div_mod_eq_iff [of i j] by (auto simp: bits_set_def bits_index bit_simps)
next
  case False
  then show ?thesis using assms by (auto simp: bits_set_def bits_index)
qed

lemma bits_set_length [simp]: "length (bits_set b i v) = length b"
  by (simp add: bits_set_def)

lemma bits_set_ok:
  assumes "bits_ok N b" "i < N"
  shows "bits_ok N (bits_set b i v)"
  using assms bits_set_bit [OF _ assms(2)] by (auto simp: bits_ok_def split: if_splits)

lemma bits_get_set:
  assumes "bits_ok N b" "i < N" "j < N"
  shows "bits_get (bits_set b i v) j \<longleftrightarrow> (if i = j then v else bits_get b j)"
  using assms bits_set_bit [of b N i j v] qwords_bound [OF assms(3)] by (simp add: bits_ok_def bits_get_bit [of _ N])

lemma bits_empty_ok: "bits_ok N (bits_empty N)"
  by (auto simp: bits_ok_def bits_empty_def)

lemma bits_get_empty: "i < N \<Longrightarrow> \<not> bits_get (bits_empty N) i"
  using qwords_bound [of i N] by (simp add: bits_get_bit [of _ N] bits_empty_def)

lemma bits_get_ge: "length b = Qwords N \<Longrightarrow> bits_ok N b \<Longrightarrow> bit (b ! (i div 64)) (i mod 64) \<Longrightarrow> i div 64 < Qwords N \<Longrightarrow> i < N"
  unfolding bits_ok_def by blast

subsection \<open>The iterator finds the set bits\<close>

text \<open>The word a step looks at, with the bits before the current one masked off.\<close>

lemma bit_masked_word:
  fixes w :: u64
  assumes "k < 64"
  shows "bit (w AND NOT (push_bit k 1 - 1)) i \<longleftrightarrow> bit w i \<and> k \<le> i"
  using bit64_imp_lt [of w i] assms
  by (auto simp: bit_simps mask_eq_exp_minus_1 [symmetric] push_bit_eq_mult)

lemma masked_word_tz:
  fixes w :: u64
  assumes "k < 64"
  defines "tz \<equiv> tzcnt64 (w AND NOT (push_bit k 1 - 1))"
  shows "tz < 64 \<Longrightarrow> bit w tz \<and> k \<le> tz"
    and "k \<le> i \<Longrightarrow> i < tz \<Longrightarrow> \<not> bit w i"
proof -
  let ?m = "w AND NOT (push_bit k 1 - 1)"
  have z: "?m = 0 \<Longrightarrow> tz = 64" unfolding tz_def by (simp add: tzcnt64_0)
  note spec = tzcnt64_spec [of ?m, folded tz_def]
  show "bit w tz \<and> k \<le> tz" if "tz < 64"
  proof -
    have "?m \<noteq> 0" using z that by auto
    then show ?thesis using spec(2) bit_masked_word [OF assms(1)] by blast
  qed
  show "\<not> bit w i" if "k \<le> i" "i < tz"
  proof (cases "?m = 0")
    case True
    then show ?thesis using that bit_masked_word [OF assms(1), of w i] by auto
  next
    case False
    then show ?thesis using spec(3) [OF False that(2)] that(1) bit_masked_word [OF assms(1)] by blast
  qed
qed

lemma advance_join:
  fixes r c d :: nat
  assumes "r' = r" "c \<le> d" "\<And>i. c \<le> i \<Longrightarrow> i < d \<Longrightarrow> i < N \<Longrightarrow> \<not> P i"
    and "let r = r in (if r < N then d \<le> r \<and> P r else r = N) \<and> (\<forall>i. d \<le> i \<and> i < r \<and> i < N \<longrightarrow> \<not> P i)"
  shows "let r = r' in (if r < N then c \<le> r \<and> P r else r = N) \<and> (\<forall>i. c \<le> i \<and> i < r \<and> i < N \<longrightarrow> \<not> P i)"
  using assms unfolding Let_def by (metis le_less_linear order_trans)

lemma advance_to_next_spec:
  assumes "bits_ok N b"
  shows "let r = advance_to_next N b c in
    (if r < N then c \<le> r \<and> bits_get b r else r = N) \<and> (\<forall>i. c \<le> i \<and> i < r \<and> i < N \<longrightarrow> \<not> bits_get b i)"
  using assms
proof (induction N b c rule: advance_to_next.induct)
  case (1 N b c)
  show ?case
  proof (cases "c < N")
    case False
    then show ?thesis by (auto simp add: advance_to_next.simps [of N b c])
  next
    case True
    define q where "q = c div 64"
    define tz where "tz = tzcnt64 (b ! q AND NOT (push_bit (c mod 64) 1 - 1))"
    have c: "c = q * 64 + c mod 64" by (simp add: q_def)
    have qn: "q < Qwords N" using qwords_bound [OF True] by (simp add: q_def)
    have len: "length b = Qwords N" using 1(2) by (simp add: bits_ok_def)
    have none: "\<not> bits_get b i" if "c \<le> i" "i < q * 64 + tz" "i < (q + 1) * 64" "i < N" for i
    proof -
      have "i div 64 = q" using that c by (intro div_nat_eqI) auto
      moreover then have "i = q * 64 + i mod 64" by (metis div_mult_mod_eq)
      ultimately show ?thesis
        using masked_word_tz(2) [of "c mod 64" "i mod 64" "b ! q"] that c len
        by (simp add: bits_get_bit [OF len] tz_def)
    qed
    show ?thesis
    proof (cases "tz < 64")
      case t: True
      let ?r = "q * 64 + tz"
      have r: "?r div 64 = q" "?r mod 64 = tz" using t by (simp_all add: div_add1_eq)
      have "bit (b ! q) tz" "c mod 64 \<le> tz"
        using masked_word_tz(1) [of "c mod 64" "b ! q"] t by (simp_all add: tz_def)
      moreover then have "?r < N" using bits_get_ge [OF len 1(2), of ?r] r qn by simp
      ultimately have "c \<le> ?r" "bits_get b ?r" "?r < N"
        using c r by (simp_all add: bits_get_bit [OF len])
      moreover have "advance_to_next N b c = ?r"
        using True t by (simp add: advance_to_next.simps [of N b c] tz_def q_def Let_def)
      ultimately show ?thesis using none t by auto
    next
      case f: False
      have "advance_to_next N b c = advance_to_next N b ((q + 1) * 64)"
        using True f by (simp add: advance_to_next.simps [of N b c] tz_def q_def Let_def)
      moreover have "c \<le> (q + 1) * 64" using dividend_less_div_times [of 64 c] by (simp add: q_def)
      moreover have "\<not> bits_get b i" if "c \<le> i" "i < (q + 1) * 64" "i < N" for i
        using none that f by simp
      moreover have "let r = advance_to_next N b ((q + 1) * 64) in
          (if r < N then (q + 1) * 64 \<le> r \<and> bits_get b r else r = N) \<and>
          (\<forall>i. (q + 1) * 64 \<le> i \<and> i < r \<and> i < N \<longrightarrow> \<not> bits_get b i)"
        using 1(1) [OF True q_def refl _ 1(2)] f unfolding tz_def by blast
      ultimately show ?thesis by (rule advance_join)
    qed
  qed
qed

lemma bits_iter_range: "bits_ok N b \<Longrightarrow> advance_to_next N b c \<le> N"
  using advance_to_next_spec [of N b c] by (auto simp: Let_def split: if_splits)

lemma advance_to_next_ge: "c \<le> N \<Longrightarrow> c \<le> advance_to_next N b c"
proof (induction N b c rule: advance_to_next.induct)
  case (1 N b c)
  define q where "q = c div 64"
  define tz where "tz = tzcnt64 (b ! q AND NOT (push_bit (c mod 64) 1 - 1))"
  have c: "c = q * 64 + c mod 64" by (simp add: q_def)
  have le: "c \<le> (q + 1) * 64" using dividend_less_div_times [of 64 c] by (simp add: q_def)
  have eq: "advance_to_next N b c = (if c < N then if tz < 64 then q * 64 + tz else advance_to_next N b ((q + 1) * 64) else N)"
    by (simp add: advance_to_next.simps [of N b c] tz_def q_def Let_def)
  have "c \<le> q * 64 + tz" if "tz < 64"
    using masked_word_tz(1) [of "c mod 64" "b ! q"] that c by (simp add: tz_def)
  moreover have "c \<le> advance_to_next N b ((q + 1) * 64)" if "c < N" "\<not> tz < 64"
  proof (cases "(q + 1) * 64 \<le> N")
    case True
    then show ?thesis using 1(1) [OF that(1) q_def refl] that(2) le unfolding tz_def by linarith
  next
    case False
    then show ?thesis using that(1) by (subst advance_to_next.simps) simp
  qed
  ultimately show ?case using 1(2) unfolding eq by simp
qed

subsection \<open>A table as a map\<close>

definition bs_ok :: "'e binding_set \<Rightarrow> bool" where
  "bs_ok s \<longleftrightarrow> bits_ok (bs_size s) (bs_dirty s) \<and> bits_ok (bs_size s) (bs_bound s) \<and> bits_ok (bs_size s) (bs_hazard s) \<and>
     length (bs_storage s) = bs_size s \<and> (\<forall>i < bs_size s. bits_get (bs_hazard s) i \<longrightarrow> bits_get (bs_bound s) i)"

definition bs_map :: "'e binding_set \<Rightarrow> nat \<Rightarrow> 'e option" where
  "bs_map s n = (if n < bs_size s \<and> test_bound s n then Some (bs_storage s ! n) else None)"

definition bs_hazards :: "'e binding_set \<Rightarrow> nat set" where
  "bs_hazards s = {n. n < bs_size s \<and> bits_get (bs_hazard s) n}"

lemmas bs_defs = bs_ok_def bs_map_def bs_hazards_def test_bound_def

lemma new_refines: "bs_ok (binding_set_new N e)" "bs_map (binding_set_new N e) n = None" "bs_hazards (binding_set_new N e) = {}"
  by (auto simp: bs_defs binding_set_new_def bits_empty_ok bits_get_empty)

text \<open>\<open>bind\<close> updates the map unless the element is redundant; the hazard flag of a slot is the one
  given when the slot was last bound from empty.\<close>

lemma bind_refines:
  assumes "bs_ok s" "n < bs_size s" "bind_slot red s n e h = (s', r)"
  shows "bs_ok s'" "bs_size s' = bs_size s"
    and "bs_map s' = (if r then (bs_map s)(n \<mapsto> e) else bs_map s)"
    and "bs_hazards s' = (if bs_map s n = None then (if h then insert n (bs_hazards s) else bs_hazards s - {n}) else bs_hazards s)"
    and "r \<longleftrightarrow> (case bs_map s n of None \<Rightarrow> True | Some x \<Rightarrow> \<not> red x e)"
    and "m < bs_size s \<Longrightarrow> test_dirty s' m \<longleftrightarrow> test_dirty s m \<or> m = n \<and> r"
  using assms
  by (auto simp: bs_defs bind_slot_def test_dirty_def Let_def bits_set_ok bits_get_set fun_eq_iff split: if_splits)

lemma unbind_refines:
  assumes "bs_ok s" "n < bs_size s" "unbind_slot z s n = (s', r)"
  shows "bs_ok s'" "bs_size s' = bs_size s"
    and "bs_map s' = (bs_map s)(n := None)"
    and "bs_hazards s' = bs_hazards s - {n}"
    and "r \<longleftrightarrow> bs_map s n \<noteq> None"
    and "m < bs_size s \<Longrightarrow> test_dirty s' m \<longleftrightarrow> test_dirty s m \<or> m = n \<and> r"
  using assms
  by (auto simp: bs_defs unbind_slot_def test_dirty_def Let_def bits_set_ok bits_get_set fun_eq_iff split: if_splits)

text \<open>\<open>setAll\<close> sets every bit of the set and none behind it.\<close>

lemma round_up_64: "r < 64 \<Longrightarrow> 0 < r \<Longrightarrow> (r + 63) div 64 = (1 :: nat)"
  by (rule div_nat_eqI) simp_all

lemma bits_setAll_bit:
  assumes "length b = Qwords N" "i div 64 < Qwords N"
  shows "bit (bits_setAll N b ! (i div 64)) (i mod 64) \<longleftrightarrow> i < N"
proof (cases "N mod 64 = 0")
  case True
  then have "64 dvd N" by (simp add: mod_eq_0_iff_dvd)
  then obtain q where q: "N = 64 * q" by (rule dvdE)
  then have "Qwords N = q" unfolding Qwords_def by (simp add: div_add1_eq)
  then have "i < N" using assms(2) q by (simp add: div_less_iff_less_mult mult.commute)
  then show ?thesis using assms True by (simp add: bits_setAll_def)
next
  case False
  have "N mod 64 < 64" "0 < N mod 64" using False by simp_all
  then have "(N mod 64 + 63) div 64 = 1" by (intro round_up_64)
  then have q: "Qwords N = N div 64 + 1" using div_add1_eq [of N 63 64] by (simp add: Qwords_def)
  show ?thesis
  proof (cases "i div 64 = N div 64")
    case True
    then have "i < N \<longleftrightarrow> i mod 64 < N mod 64"
      using div_mult_mod_eq [of i 64] div_mult_mod_eq [of N 64] by linarith
    then show ?thesis
      using assms False q True by (simp add: bits_setAll_def nth_append bit_simps push_bit_eq_mult mask_eq_exp_minus_1 [symmetric])
  next
    case f: False
    then have "i div 64 < N div 64" using assms(2) q by simp
    moreover then have "i < N" by (meson div_le_mono not_le)
    ultimately show ?thesis using assms False q by (simp add: bits_setAll_def nth_append)
  qed
qed

lemma bits_setAll_ok: "bits_ok N b \<Longrightarrow> bits_ok N (bits_setAll N b)"
proof -
  assume ok: "bits_ok N b"
  have "length (bits_setAll N b) = Qwords N"
  proof (cases "N mod 64 = 0")
    case False
    then have "0 < N" by (cases "N = 0") auto
    then have "Qwords N > 0" using qwords_bound [of 0 N] by simp
    then show ?thesis using ok False by (simp add: bits_setAll_def bits_ok_def)
  qed (use ok in \<open>simp add: bits_setAll_def bits_ok_def\<close>)
  then show ?thesis using ok bits_setAll_bit [of b N] by (auto simp: bits_ok_def)
qed

lemma bits_get_setAll: "bits_ok N b \<Longrightarrow> i < N \<Longrightarrow> bits_get (bits_setAll N b) i"
  using bits_setAll_ok [of N b] bits_setAll_bit [of b N i] qwords_bound [of i N] by (simp add: bits_ok_def bits_get_bit [of _ N])

lemma set_dirty_refines:
  assumes "bs_ok s"
  shows "bs_ok (set_dirty s)" "bs_size (set_dirty s) = bs_size s" "bs_map (set_dirty s) = bs_map s" "bs_hazards (set_dirty s) = bs_hazards s"
    "n < bs_size s \<Longrightarrow> test_dirty (set_dirty s) n"
  using assms by (auto simp: bs_defs set_dirty_def bits_setAll_ok test_dirty_def bits_get_setAll)

subsection \<open>Visiting and unbinding\<close>

text \<open>
  The loops of the hazard resolution: visit the hazard slots by the iterator, unbind those whose element
  conflicts. The iterator reads the bits of the table as they are when it advances.
\<close>

function resolve_from :: "('e \<Rightarrow> bool) \<Rightarrow> 'e \<Rightarrow> 'e binding_set \<Rightarrow> nat \<Rightarrow> 'e binding_set \<times> nat list \<times> bool" where
  "resolve_from conflict z s it =
     (if it < bs_size s then
        let (s', unbound) = (if conflict (bs_storage s ! it) then unbind_slot z s it else (s, False));
            (s'', slots, hazard) = resolve_from conflict z s' (bits_next (bs_size s) (bs_hazard s') it) in
        (s'', (if unbound then it # slots else slots), conflict (bs_storage s ! it) \<or> hazard)
      else (s, [], False))"
  by pat_completeness auto
termination
  by (relation "measure (\<lambda>(c, z, s, it). bs_size s - it)")
     (auto simp: unbind_slot_def bits_next_def Let_def split: if_splits
       intro!: diff_less_mono2 less_le_trans [OF lessI advance_to_next_ge])

declare resolve_from.simps [simp del]

definition resolve_slots :: "('e \<Rightarrow> bool) \<Rightarrow> 'e \<Rightarrow> 'e binding_set \<Rightarrow> 'e binding_set \<times> nat list \<times> bool" where
  "resolve_slots conflict z s = resolve_from conflict z s (hazard_begin s)"

text \<open>The slots the loop unbinds: the bound hazard slots whose element conflicts.\<close>

definition conflicting :: "('e \<Rightarrow> bool) \<Rightarrow> 'e binding_set \<Rightarrow> nat \<Rightarrow> bool" where
  "conflicting conflict s n \<longleftrightarrow> n \<in> bs_hazards s \<and> (case bs_map s n of Some x \<Rightarrow> conflict x | None \<Rightarrow> False)"

definition is_next_hazard :: "'e binding_set \<Rightarrow> nat \<Rightarrow> nat \<Rightarrow> bool" where
  "is_next_hazard s from it \<longleftrightarrow> from \<le> it \<and> it \<le> bs_size s \<and> (it < bs_size s \<longrightarrow> it \<in> bs_hazards s) \<and>
     (\<forall>n \<in> bs_hazards s. from \<le> n \<longrightarrow> it \<le> n)"

lemma next_hazard:
  assumes "bits_ok N b" "N = bs_size s" "b = bs_hazard s" "c \<le> N"
  shows "is_next_hazard s c (advance_to_next N b c)"
proof -
  let ?r = "advance_to_next N b c"
  have spec: "(if ?r < N then c \<le> ?r \<and> bits_get b ?r else ?r = N)" "\<And>i. c \<le> i \<Longrightarrow> i < ?r \<Longrightarrow> i < N \<Longrightarrow> \<not> bits_get b i"
    using advance_to_next_spec [OF assms(1), of c] by (simp_all add: Let_def)
  have "?r \<le> n" if "n \<in> bs_hazards s" "c \<le> n" for n
    using spec(2) [of n] that assms by (force simp: bs_hazards_def)
  then show ?thesis
    using spec(1) advance_to_next_ge [OF assms(4), of b] assms by (auto simp: is_next_hazard_def bs_hazards_def split: if_splits)
qed

lemma conflicting_storage:
  assumes "bs_ok s" "n \<in> bs_hazards s"
  shows "conflicting conflict s n \<longleftrightarrow> conflict (bs_storage s ! n)" "bs_map s n = Some (bs_storage s ! n)"
  using assms by (auto simp: conflicting_def bs_defs)

lemma resolve_from_spec:
  assumes "bs_ok s" "is_next_hazard s from it" "resolve_from conflict z s it = (s', slots, hazard)"
  shows "bs_ok s' \<and> bs_size s' = bs_size s \<and>
    bs_map s' = (\<lambda>n. if from \<le> n \<and> conflicting conflict s n then None else bs_map s n) \<and>
    bs_hazards s' = bs_hazards s - {n. from \<le> n \<and> conflicting conflict s n} \<and>
    slots = filter (conflicting conflict s) [from..<bs_size s] \<and> (hazard \<longleftrightarrow> slots \<noteq> [])"
  using assms
proof (induction conflict z s it arbitrary: "from" s' slots hazard rule: resolve_from.induct)
  case (1 conflict z s it)
  note ok = 1(2) and nxt = 1(3)
  have before: "\<not> conflicting conflict s n" if "from \<le> n" "n < it" for n
    using nxt that by (auto simp: is_next_hazard_def conflicting_def)
  show ?case
  proof (cases "it < bs_size s")
    case False
    then have "s' = s" "slots = []" "\<not> hazard" and it: "it = bs_size s"
      using 1(4) nxt by (simp_all add: resolve_from.simps [of conflict z s it] is_next_hazard_def)
    moreover have "\<not> conflicting conflict s n" if "from \<le> n" for n
      using before [OF that] it by (cases "n < it") (auto simp: conflicting_def bs_hazards_def)
    ultimately show ?thesis using ok by (auto simp: fun_eq_iff)
  next
    case True
    define c where "c = conflict (bs_storage s ! it)"
    define p where "p = (if c then unbind_slot z s it else (s, False))"
    obtain s1 u where p: "p = (s1, u)" by (cases p)
    have it: "it \<in> bs_hazards s" using nxt True by (simp add: is_next_hazard_def)
    have stored: "conflicting conflict s it \<longleftrightarrow> c" "bs_map s it \<noteq> None"
      using conflicting_storage(1) [OF ok it, of conflict] conflicting_storage(2) [OF ok it] by (simp_all add: c_def)
    have s1: "bs_ok s1" "bs_size s1 = bs_size s" "bs_map s1 = (if c then (bs_map s)(it := None) else bs_map s)"
      "bs_hazards s1 = (if c then bs_hazards s - {it} else bs_hazards s)" "u = c"
      using unbind_refines [OF ok True, of z s1 u] p stored(2) ok by (auto simp: p_def split: if_splits)
    have next1: "is_next_hazard s1 (it + 1) (bits_next (bs_size s) (bs_hazard s1) it)"
      unfolding bits_next_def using s1(1,2) True by (intro next_hazard) (auto simp: bs_ok_def)
    obtain slots1 h1 where rec: "resolve_from conflict z s1 (bits_next (bs_size s) (bs_hazard s1) it) = (s', slots1, h1)"
      and slots: "slots = (if u then it # slots1 else slots1)" and h: "hazard \<longleftrightarrow> c \<or> h1"
      using 1(4) True p by (auto simp: resolve_from.simps [of conflict z s it] p_def c_def Let_def split: prod.splits)
    have same: "conflicting conflict s1 n \<longleftrightarrow> conflicting conflict s n" if "it < n" for n
      using that s1(3,4) by (auto simp: conflicting_def)
    have IH: "bs_ok s' \<and> bs_size s' = bs_size s1 \<and>
        bs_map s' = (\<lambda>n. if it + 1 \<le> n \<and> conflicting conflict s1 n then None else bs_map s1 n) \<and>
        bs_hazards s' = bs_hazards s1 - {n. it + 1 \<le> n \<and> conflicting conflict s1 n} \<and>
        slots1 = filter (conflicting conflict s1) [it + 1..<bs_size s1] \<and> (h1 \<longleftrightarrow> slots1 \<noteq> [])"
      using 1(1) [OF True p [unfolded p_def c_def, symmetric] refl s1(1) next1 rec] .
    have le: "from \<le> it" using nxt by (simp add: is_next_hazard_def)
    have split: "from \<le> n \<and> conflicting conflict s n \<longleftrightarrow> n = it \<and> c \<or> it + 1 \<le> n \<and> conflicting conflict s1 n" for n
      using before [of n] same [of n] stored(1) le by (cases n it rule: linorder_cases) auto
    have "filter (conflicting conflict s) [from..<bs_size s]
        = filter (conflicting conflict s) [from..<it] @ filter (conflicting conflict s) [it..<bs_size s]"
      using upt_add_eq_append [OF le, of "bs_size s - it"] True by simp
    also have "filter (conflicting conflict s) [from..<it] = []" using before by (simp add: filter_empty_conv)
    also have "filter (conflicting conflict s) [it..<bs_size s] = slots"
      using True stored(1) slots s1(2,5) same IH by (auto simp: upt_conv_Cons intro!: filter_cong)
    finally have sl: "slots = filter (conflicting conflict s) [from..<bs_size s]" by simp
    have "bs_map s' = (\<lambda>n. if from \<le> n \<and> conflicting conflict s n then None else bs_map s n)"
      unfolding split using IH s1(3) by (auto simp: fun_eq_iff)
    moreover have "bs_hazards s' = bs_hazards s - {n. from \<le> n \<and> conflicting conflict s n}"
      unfolding split using IH s1(4) by auto
    moreover have "hazard \<longleftrightarrow> slots \<noteq> []" using h slots s1(5) IH by auto
    ultimately show ?thesis using IH s1(2) sl by simp
  qed
qed

text \<open>\<open>resolve_slots\<close> visits every hazard slot: afterwards none of them conflicts, and exactly the slots it
  reports were unbound.\<close>

lemma resolve_slots_spec:
  assumes "bs_ok s" "resolve_slots conflict z s = (s', slots, hazard)"
  shows "bs_ok s'" "bs_size s' = bs_size s"
    and "bs_map s' = (\<lambda>n. if conflicting conflict s n then None else bs_map s n)"
    and "bs_hazards s' = bs_hazards s - {n. conflicting conflict s n}"
    and "slots = filter (conflicting conflict s) [0..<bs_size s]" and "hazard \<longleftrightarrow> slots \<noteq> []"
  using resolve_from_spec [OF assms(1) _ assms(2) [unfolded resolve_slots_def], of 0]
    next_hazard [of "bs_size s" "bs_hazard s" s 0] assms(1)
  by (auto simp: hazard_begin_def bits_begin_def bs_ok_def fun_eq_iff)

subsection \<open>Loops over the bound slots\<close>

text \<open>A range-for over a table reads the bits again at every step, so its body may unbind the slot it is at:
  \<open>visit\<close> carries a state whose table has the bits \<open>bits s\<close>.\<close>

function visit_from :: "nat \<Rightarrow> ('s \<Rightarrow> u64 list) \<Rightarrow> (nat \<Rightarrow> 's \<Rightarrow> 's) \<Rightarrow> nat \<Rightarrow> 's \<Rightarrow> 's" where
  "visit_from N bits f it s =
     (if it < N then visit_from N bits f (bits_next N (bits (f it s)) it) (f it s) else s)"
  by pat_completeness auto
termination
  by (relation "measure (\<lambda>(N, bits, f, it, s). N - it)")
     (auto simp: bits_next_def intro!: diff_less_mono2 less_le_trans [OF lessI advance_to_next_ge])

declare visit_from.simps [simp del]

definition visit_bound :: "nat \<Rightarrow> ('s \<Rightarrow> u64 list) \<Rightarrow> (nat \<Rightarrow> 's \<Rightarrow> 's) \<Rightarrow> 's \<Rightarrow> 's" where
  "visit_bound N bits f s = visit_from N bits f (bits_begin N (bits s)) s"

text \<open>The slots a loop visits whose body leaves the table alone.\<close>

definition bs_slots :: "'e binding_set \<Rightarrow> nat list" where
  "bs_slots s = rev (visit_bound (bs_size s) (\<lambda>_. bs_bound s) (\<lambda>n ns. n # ns) [])"

lemma filter_upt_next:
  assumes "bits_ok N b" "c \<le> N"
  shows "filter (bits_get b) [c..<N] =
    (let r = advance_to_next N b c in if r < N then r # filter (bits_get b) [r + 1..<N] else [])"
proof -
  let ?r = "advance_to_next N b c"
  have r: "c \<le> ?r" "?r \<le> N" "if ?r < N then bits_get b ?r else ?r = N"
    and none: "\<And>i. c \<le> i \<Longrightarrow> i < ?r \<Longrightarrow> i < N \<Longrightarrow> \<not> bits_get b i"
    using advance_to_next_spec [OF assms(1), of c] advance_to_next_ge [OF assms(2), of b] bits_iter_range [OF assms(1), of c]
    by (auto simp: Let_def split: if_splits)
  have "filter (bits_get b) [c..<N] = filter (bits_get b) [c..<?r] @ filter (bits_get b) [?r..<N]"
    using upt_add_eq_append [OF r(1), of "N - ?r"] r(2) by simp
  also have "filter (bits_get b) [c..<?r] = []" using none r(2) by (simp add: filter_empty_conv)
  finally show ?thesis using r(2,3) by (auto simp: Let_def upt_conv_Cons)
qed

lemma visit_from_fold:
  assumes "P s" "c \<le> N"
    and ok: "\<And>s. P s \<Longrightarrow> bits_ok N (bits s)"
    and keep: "\<And>s n. P s \<Longrightarrow> n < N \<Longrightarrow> P (f n s) \<and> (\<forall>m. n < m \<and> m < N \<longrightarrow> bits_get (bits (f n s)) m = bits_get (bits s) m)"
  shows "visit_from N bits f (advance_to_next N (bits s) c) s = fold f (filter (bits_get (bits s)) [c..<N]) s"
  using assms(1,2)
proof (induction "N - c" arbitrary: c s rule: less_induct)
  case less
  let ?r = "advance_to_next N (bits s) c"
  have ge: "c \<le> ?r" by (rule advance_to_next_ge [OF less.prems(2)])
  show ?case
  proof (cases "?r < N")
    case False
    then show ?thesis
      using filter_upt_next [OF ok [OF less.prems(1)] less.prems(2)] by (simp add: visit_from.simps [of _ _ _ ?r] Let_def)
  next
    case True
    let ?t = "f ?r s"
    have k: "P ?t" "\<And>m. ?r < m \<Longrightarrow> m < N \<Longrightarrow> bits_get (bits ?t) m = bits_get (bits s) m"
      using keep [OF less.prems(1) True] by auto
    have "visit_from N bits f ?r s = visit_from N bits f (advance_to_next N (bits ?t) (?r + 1)) ?t"
      using True by (simp add: visit_from.simps [of _ _ _ ?r] bits_next_def)
    also have "\<dots> = fold f (filter (bits_get (bits ?t)) [?r + 1..<N]) ?t"
      using True ge less.prems(2) by (intro less.hyps k(1)) auto
    also have "filter (bits_get (bits ?t)) [?r + 1..<N] = filter (bits_get (bits s)) [?r + 1..<N]"
      using k(2) by (intro filter_cong) auto
    finally show ?thesis
      using filter_upt_next [OF ok [OF less.prems(1)] less.prems(2)] True by (simp add: Let_def)
  qed
qed

lemma visit_bound_fold:
  assumes "P s" "\<And>s. P s \<Longrightarrow> bits_ok N (bits s)"
    and "\<And>s n. P s \<Longrightarrow> n < N \<Longrightarrow> P (f n s) \<and> (\<forall>m. n < m \<and> m < N \<longrightarrow> bits_get (bits (f n s)) m = bits_get (bits s) m)"
  shows "visit_bound N bits f s = fold f (filter (bits_get (bits s)) [0..<N]) s"
  unfolding visit_bound_def bits_begin_def by (rule visit_from_fold [where P = P]) (use assms in auto)

lemma bs_slots_eq: "bs_ok s \<Longrightarrow> bs_slots s = filter (\<lambda>n. bs_map s n \<noteq> None) [0..<bs_size s]"
proof -
  assume ok: "bs_ok s"
  have "visit_bound (bs_size s) (\<lambda>_. bs_bound s) (\<lambda>n ns. n # ns) [] = fold (\<lambda>n ns. n # ns) (filter (bits_get (bs_bound s)) [0..<bs_size s]) []"
    by (rule visit_bound_fold [where P = "\<lambda>_. True"]) (use ok in \<open>auto simp: bs_ok_def\<close>)
  then have "bs_slots s = filter (bits_get (bs_bound s)) [0..<bs_size s]"
    unfolding bs_slots_def by (simp add: fold_Cons_rev)
  also have "\<dots> = filter (\<lambda>n. bs_map s n \<noteq> None) [0..<bs_size s]"
    by (intro filter_cong) (auto simp: bs_map_def test_bound_def)
  finally show ?thesis .
qed

end
