(* ===== verification/ContextState.thy ===== *)
theory ContextState
  imports BindingSet Subresource
begin

text \<open>
  The state of a D3D11 context: src/src/d3d11/d3d11_context_state.hpp, the views of d3d11_view.hpp and
  d3d11_resource.hpp, and the command buffer state of src/src/d3d11/d3d11_context_impl.cpp with the calls
  that end one encoder and start the next. Objects are pointers into an environment that holds what their
  constructors fixed; \<open>None\<close> is the null pointer. \<open>EmitST\<close> and \<open>EmitOP\<close> of the immediate context append to the
  command list of the current chunk.
\<close>

type_synonym ptr = "nat option"

subsection \<open>Views and resources\<close>

definition D3D11_BIND_VERTEX_BUFFER :: u32 where "D3D11_BIND_VERTEX_BUFFER = 0x1"
definition D3D11_BIND_INDEX_BUFFER :: u32 where "D3D11_BIND_INDEX_BUFFER = 0x2"
definition D3D11_BIND_SHADER_RESOURCE :: u32 where "D3D11_BIND_SHADER_RESOURCE = 0x8"
definition D3D11_BIND_STREAM_OUTPUT :: u32 where "D3D11_BIND_STREAM_OUTPUT = 0x10"
definition D3D11_BIND_RENDER_TARGET :: u32 where "D3D11_BIND_RENDER_TARGET = 0x20"
definition D3D11_BIND_DEPTH_STENCIL :: u32 where "D3D11_BIND_DEPTH_STENCIL = 0x40"
definition D3D11_BIND_UNORDERED_ACCESS :: u32 where "D3D11_BIND_UNORDERED_ACCESS = 0x80"

record buffer_slice =
  byteOffset :: u32
  byteLength :: u32
  firstElement :: u32
  elementCount :: u32

record pass_attachment_desc =
  RenderTargetArrayLength :: u32
  AttachmentSampleCount :: u32
  DepthPlane :: u32
  AttachmentWidth :: u32
  AttachmentHeight :: u32

text \<open>The fields the four view classes share; a view of a buffer has \<open>buffer_\<close>, of a texture \<open>texture_\<close>.\<close>

record d3d11_view =
  vw_resource :: nat
  vw_buffer :: ptr
  vw_slice :: buffer_slice
  vw_texture :: ptr
  vw_id :: u64
  vw_counter :: ptr \<comment> \<open>unordered access views\<close>
  vw_subset :: subset_state
  vw_flags :: u32
  vw_desc :: pass_attachment_desc \<comment> \<open>render target and depth stencil views\<close>

record d3d11_resource =
  rs_buffer :: ptr
  rs_flags :: u32

text \<open>What a compiled shader says of itself: the slots it reads and its arguments.\<close>

datatype sm50_binding = ConstantBufferArgument | SamplerArgument | SRVArgument | UAVArgument

record sm50_argument =
  arg_Type :: sm50_binding
  SM50BindingSlot :: u32
  arg_Flags :: u32

definition MTL_SM50_SHADER_ARGUMENT_TEXTURE_MULTISAMPLED :: u32 where
  "MTL_SM50_SHADER_ARGUMENT_TEXTURE_MULTISAMPLED = push_bit 12 1"

record shader_reflection =
  ConstantBufferSlotMask :: u16
  SamplerSlotMask :: u16
  UAVSlotMask :: u64
  SRVSlotMaskHi :: u64
  SRVSlotMaskLo :: u64
  arguments_info :: "sm50_argument list"

record d3d11_env =
  views :: "nat \<Rightarrow> d3d11_view"
  resources :: "nat \<Rightarrow> d3d11_resource"
  native_sampler :: "nat \<Rightarrow> nat"
  reflection :: "nat \<Rightarrow> shader_reflection"
  byte_width :: "nat \<Rightarrow> u32" \<comment> \<open>of a buffer\<close>

definition flags_hazard_free :: "u32 \<Rightarrow> bool" where
  "flags_hazard_free bind_flags \<longleftrightarrow>
     bind_flags AND (D3D11_BIND_STREAM_OUTPUT OR D3D11_BIND_UNORDERED_ACCESS OR D3D11_BIND_RENDER_TARGET OR
                     D3D11_BIND_DEPTH_STENCIL) = 0"

definition view_hazardsFree :: "d3d11_env \<Rightarrow> nat \<Rightarrow> bool" where
  "view_hazardsFree E v = flags_hazard_free (vw_flags (views E v))"

definition resource_hazardsFree :: "d3d11_env \<Rightarrow> nat \<Rightarrow> bool" where
  "resource_hazardsFree E r = flags_hazard_free (rs_flags (resources E r))"

text \<open>The overloads of \<open>CheckOverlap\<close>, on pointers. An overlap test whose field sums overflow C's \<open>int\<close>
  has no defined answer and counts as false here.\<close>

datatype bound_object = AView nat | ABuffer nat

definition CheckOverlap :: "d3d11_env \<Rightarrow> bound_object option \<Rightarrow> bound_object option \<Rightarrow> bool" where
  "CheckOverlap E A B =
     (case (A, B) of
        (Some (AView a), Some (AView b)) \<Rightarrow>
          vw_resource (views E a) = vw_resource (views E b) \<and>
          overlapWith (vw_subset (views E a)) (vw_subset (views E b)) = Some True
      | (Some (ABuffer r), Some (AView v)) \<Rightarrow> r = vw_resource (views E v)
      | (Some (AView v), Some (ABuffer r)) \<Rightarrow> r = vw_resource (views E v)
      | (Some (ABuffer r), Some (ABuffer r')) \<Rightarrow> r = r'
      | _ \<Rightarrow> False)"

definition object_flags :: "d3d11_env \<Rightarrow> bound_object \<Rightarrow> u32" where
  "object_flags E x = (case x of AView v \<Rightarrow> vw_flags (views E v) | ABuffer r \<Rightarrow> rs_flags (resources E r))"

subsection \<open>What is bound\<close>

record uav_b =
  uav_raw :: ptr
  uav_view :: ptr

record constant_buffer_b =
  cb_raw :: ptr
  cb_buffer :: ptr
  FirstConstant :: u32
  NumConstants :: u32

record sampler_b =
  smp_raw :: ptr
  smp_sampler :: ptr
  smp_native :: ptr

record srv_b =
  srv_raw :: ptr
  srv_view :: ptr
  srv_buffer :: ptr
  srv_texture :: ptr
  srv_slice :: buffer_slice
  srv_viewId :: u64

record vertex_buffer_b =
  vb_raw :: ptr
  vb_buffer :: ptr
  Stride :: u32
  Offset :: u32

record stream_output_b =
  so_raw :: ptr
  so_buffer :: ptr
  so_offset :: u32

text \<open>\<open>redundant_binding_trait\<close> of every element: the raw pointers.\<close>

definition is_redundant :: "('e \<Rightarrow> ptr) \<Rightarrow> 'e \<Rightarrow> 'e \<Rightarrow> bool" where
  "is_redundant raw left right \<longleftrightarrow> raw left = raw right"

text \<open>The elements as their value initialisation leaves them, apart from the pointer.\<close>

definition uav_init :: "ptr \<Rightarrow> uav_b" where
  "uav_init p = \<lparr> uav_raw = p, uav_view = None \<rparr>"

definition constant_buffer_init :: "ptr \<Rightarrow> constant_buffer_b" where
  "constant_buffer_init p = \<lparr> cb_raw = p, cb_buffer = None, FirstConstant = 0, NumConstants = 0 \<rparr>"

definition sampler_init :: "ptr \<Rightarrow> sampler_b" where
  "sampler_init p = \<lparr> smp_raw = p, smp_sampler = None, smp_native = None \<rparr>"

definition slice_init :: buffer_slice where
  "slice_init = \<lparr> byteOffset = 0, byteLength = 0, firstElement = 0, elementCount = 0 \<rparr>"

definition srv_init :: "ptr \<Rightarrow> srv_b" where
  "srv_init p = \<lparr> srv_raw = p, srv_view = None, srv_buffer = None, srv_texture = None, srv_slice = slice_init, srv_viewId = 0 \<rparr>"

definition vertex_buffer_init :: "ptr \<Rightarrow> vertex_buffer_b" where
  "vertex_buffer_init p = \<lparr> vb_raw = p, vb_buffer = None, Stride = 0, Offset = 0 \<rparr>"

definition stream_output_init :: "ptr \<Rightarrow> stream_output_b" where
  "stream_output_init p = \<lparr> so_raw = p, so_buffer = None, so_offset = 0 \<rparr>"

datatype pipeline_stage = Vertex | Pixel | Geometry | Hull | Domain | Compute

record shader_stage_state =
  SRVs :: "srv_b binding_set"
  Samplers :: "sampler_b binding_set"
  ConstantBuffers :: "constant_buffer_b binding_set"
  Shader :: ptr

subsection \<open>Pending buffer updates\<close>

text \<open>\<open>allow_compute_pack\<close> and a payload go together; \<open>pu_payload\<close> is \<open>None\<close> where the code has a null pointer.
  \<open>pu_chunk\<close> is the chunk whose staging memory the update holds: \<open>AllocateStagingBuffer\<close> tags it so.\<close>

record pending_update =
  pu_dst :: nat
  pu_staging :: nat
  pu_staging_offset :: u64
  pu_dst_offset :: u32
  pu_length :: u32
  pu_allow_compute_pack :: bool
  pu_payload :: "u8 list option"
  pu_chunk :: nat

record copy_region =
  rg_src_offset :: u32
  rg_dst_offset :: u32
  rg_byte_length :: u32

subsection \<open>Commands\<close>

datatype d3d11_cmd =
  BindOutputBuffer pipeline_stage nat ptr u64 ptr buffer_slice
| BindOutputTexture pipeline_stage nat ptr u64
| BindBuffer pipeline_stage nat ptr u64 buffer_slice
| BindTexture pipeline_stage nat ptr u64
| BindConstantBuffer pipeline_stage nat u32 ptr
| BindSampler pipeline_stage nat ptr
| BindIndexBuffer ptr
| BindVertexBuffer nat u32 u32 ptr \<comment> \<open>slot, offset, stride\<close>
| BindVertexBufferOffset nat u32 u32
| UpdateCounter ptr u32
| ClearEncodingState
| EndPass
| StartBlitPass
| StartComputePass
| CommitChunk \<comment> \<open>\<open>CommitCurrentChunk\<close>: the commands after it are in the next chunk\<close>
| BlitCopy nat u64 nat u32 u32 \<comment> \<open>staging buffer and offset, destination and offset, length\<close>
| ComputeCopy nat u64 nat u32 u32
| ComputeCopyRegions nat u64 nat "copy_region list" u32

datatype command_buffer_state =
  Idle | RenderEncoderActive | RenderPipelineReady | TessellationRenderPipelineReady | GeometryRenderPipelineReady
| ComputeEncoderActive | ComputePipelineReady | BlitEncoderActive | UpdateBlitEncoderActive | ReadbackBlitEncoderActive

subsection \<open>The context\<close>

record d3d11_ctx =
  ShaderStages :: "pipeline_stage \<Rightarrow> shader_stage_state"
  ComputeUAVs :: "uav_b binding_set"
  SOTargets :: "stream_output_b binding_set"
  VertexBuffers :: "vertex_buffer_b binding_set"
  IndexBuffer :: ptr
  IndexBufferFormat :: u32
  IndexBufferOffset :: u32
  RTVs :: "ptr list"
  DSV :: ptr
  NumRTVs :: u32
  UAVs :: "uav_b binding_set"
  MinUAVBinding :: u32
  MaxUAVBinding :: u32
  SampleCount :: u32
  ArrayLength :: u32
  RenderTargetWidth :: u32
  RenderTargetHeight :: u32
  cmdbuf_state :: command_buffer_state
  previous_render_pipeline_state :: command_buffer_state
  promote_flush :: bool
  has_dirty_op :: bool
  chunk :: nat \<comment> \<open>\<open>CurrentSeqId\<close> of the queue\<close>
  pending_buffer_updates :: "pending_update list"
  cmds :: "d3d11_cmd list"

definition stage_state_init :: shader_stage_state where
  "stage_state_init =
     \<lparr> SRVs = binding_set_new 128 (srv_init None), Samplers = binding_set_new 16 (sampler_init None),
       ConstantBuffers = binding_set_new 14 (constant_buffer_init None), Shader = None \<rparr>"

text \<open>\<open>ResetD3D11ContextState\<close>: the value of a new \<open>D3D11ContextState\<close>, in the fields modelled here.\<close>

definition ResetD3D11ContextState :: "d3d11_ctx \<Rightarrow> d3d11_ctx" where
  "ResetD3D11ContextState c =
     c \<lparr> ShaderStages := (\<lambda>_. stage_state_init), ComputeUAVs := binding_set_new 64 (uav_init None),
         SOTargets := binding_set_new 4 (stream_output_init None),
         VertexBuffers := binding_set_new 16 (vertex_buffer_init None),
         IndexBuffer := None, IndexBufferFormat := 0, IndexBufferOffset := 0,
         RTVs := replicate 8 None, DSV := None, NumRTVs := 0, UAVs := binding_set_new 64 (uav_init None),
         MinUAVBinding := 64, MaxUAVBinding := 0,
         SampleCount := 1, ArrayLength := 0, RenderTargetWidth := 0, RenderTargetHeight := 0 \<rparr>"

definition new_context :: d3d11_ctx where
  "new_context =
     \<lparr> ShaderStages = (\<lambda>_. stage_state_init), ComputeUAVs = binding_set_new 64 (uav_init None),
       SOTargets = binding_set_new 4 (stream_output_init None), VertexBuffers = binding_set_new 16 (vertex_buffer_init None),
       IndexBuffer = None, IndexBufferFormat = 0, IndexBufferOffset = 0,
       RTVs = replicate 8 None, DSV = None, NumRTVs = 0, UAVs = binding_set_new 64 (uav_init None),
       MinUAVBinding = 64, MaxUAVBinding = 0,
       SampleCount = 1, ArrayLength = 0, RenderTargetWidth = 0, RenderTargetHeight = 0,
       cmdbuf_state = Idle, previous_render_pipeline_state = Idle, promote_flush = False, has_dirty_op = False,
       chunk = 0, pending_buffer_updates = [], cmds = [] \<rparr>"

definition EmitST :: "d3d11_cmd \<Rightarrow> d3d11_ctx \<Rightarrow> d3d11_ctx" where
  "EmitST x c = c \<lparr> cmds := cmds c @ [x] \<rparr>"

definition EmitOP :: "d3d11_cmd \<Rightarrow> d3d11_ctx \<Rightarrow> d3d11_ctx" where
  "EmitOP x c = c \<lparr> cmds := cmds c @ [x], has_dirty_op := True \<rparr>"

subsection \<open>Encoders\<close>

text \<open>\<open>Commit\<close> of the immediate context.\<close>

definition Commit :: "d3d11_ctx \<Rightarrow> d3d11_ctx" where
  "Commit c = c \<lparr> promote_flush := False, cmds := cmds c @ [CommitChunk], chunk := chunk c + 1, has_dirty_op := False \<rparr>"

definition InvalidateCurrentPass :: "bool \<Rightarrow> d3d11_ctx \<Rightarrow> d3d11_ctx \<times> bool" where
  "InvalidateCurrentPass defer_commit c =
     (let c = (if cmdbuf_state c = Idle then c else EmitST EndPass c) \<lparr> cmdbuf_state := Idle \<rparr> in
      if promote_flush c \<and> \<not> defer_commit then (Commit c, True) else (c, False))"

definition InvalidateRenderPipeline :: "d3d11_ctx \<Rightarrow> d3d11_ctx" where
  "InvalidateRenderPipeline c =
     (if cmdbuf_state c \<noteq> RenderPipelineReady \<and> cmdbuf_state c \<noteq> TessellationRenderPipelineReady \<and>
         cmdbuf_state c \<noteq> GeometryRenderPipelineReady then c
      else c \<lparr> previous_render_pipeline_state := cmdbuf_state c, cmdbuf_state := RenderEncoderActive \<rparr>)"

definition InvalidateComputePipeline :: "d3d11_ctx \<Rightarrow> d3d11_ctx" where
  "InvalidateComputePipeline c =
     (if cmdbuf_state c \<noteq> ComputePipelineReady then c else c \<lparr> cmdbuf_state := ComputeEncoderActive \<rparr>)"

definition SwitchToBlitEncoder :: "command_buffer_state \<Rightarrow> d3d11_ctx \<Rightarrow> d3d11_ctx" where
  "SwitchToBlitEncoder BlitKind c =
     (if cmdbuf_state c = BlitKind then c
      else EmitST StartBlitPass (fst (InvalidateCurrentPass (BlitKind \<noteq> BlitEncoderActive) c)) \<lparr> cmdbuf_state := BlitKind \<rparr>)"

definition dirty_stage :: "pipeline_stage \<Rightarrow> d3d11_ctx \<Rightarrow> d3d11_ctx" where
  "dirty_stage st c =
     c \<lparr> ShaderStages := (ShaderStages c)
           (st := ShaderStages c st \<lparr> ConstantBuffers := set_dirty (ConstantBuffers (ShaderStages c st)),
                                      Samplers := set_dirty (Samplers (ShaderStages c st)),
                                      SRVs := set_dirty (SRVs (ShaderStages c st)) \<rparr>) \<rparr>"

definition SwitchToComputeEncoder :: "d3d11_ctx \<Rightarrow> d3d11_ctx" where
  "SwitchToComputeEncoder c =
     (if cmdbuf_state c = ComputePipelineReady \<or> cmdbuf_state c = ComputeEncoderActive then c
      else
        let c = dirty_stage Compute (fst (InvalidateCurrentPass False c));
            c = c \<lparr> ComputeUAVs := set_dirty (ComputeUAVs c) \<rparr> in
        EmitST StartComputePass c \<lparr> cmdbuf_state := ComputeEncoderActive \<rparr>)"

end
