(* ===== verification/Bindings.thy ===== *)
theory Bindings
  imports ContextState
begin

text \<open>
  Binding views and buffers to the stages of a D3D11 context, and the hazards between them: the
  \<open>Set\<close> calls of src/src/d3d11/d3d11_context_impl.cpp with their validation and resolution. The caller's
  arrays are functions from an index to the element, the array pointers that may be null options.
  A slot outside a table has no defined outcome in the code, which does not check it: \<open>None\<close>.
\<close>

subsection \<open>Loops\<close>

primrec each_slot :: "(nat \<Rightarrow> 's \<Rightarrow> 's option) \<Rightarrow> nat list \<Rightarrow> 's \<Rightarrow> 's option" where
  "each_slot f [] s = Some s"
| "each_slot f (n # ns) s = Option.bind (f n s) (each_slot f ns)"

text \<open>A validation loop: false at the first slot that conflicts.\<close>

primrec no_conflict :: "(nat \<Rightarrow> bool option) \<Rightarrow> nat list \<Rightarrow> bool option" where
  "no_conflict conflict [] = Some True"
| "no_conflict conflict (n # ns) =
     Option.bind (conflict n) (\<lambda>hit. if hit then Some False else no_conflict conflict ns)"

definition slots_from :: "u32 \<Rightarrow> u32 \<Rightarrow> nat list" where
  "slots_from StartSlot Num = [unat StartSlot ..< unat (StartSlot + Num)]"

definition in_table :: "'e binding_set \<Rightarrow> nat \<Rightarrow> 'a \<Rightarrow> 'a option" where
  "in_table t n x = (if n < bs_size t then Some x else None)"

definition update_entry :: "'e binding_set \<Rightarrow> nat \<Rightarrow> ('e \<Rightarrow> 'e) \<Rightarrow> 'e binding_set" where
  "update_entry t n f = t \<lparr> bs_storage := (bs_storage t)[n := f (bs_storage t ! n)] \<rparr>"

definition update_stage :: "pipeline_stage \<Rightarrow> (shader_stage_state \<Rightarrow> shader_stage_state) \<Rightarrow> d3d11_ctx \<Rightarrow> d3d11_ctx" where
  "update_stage st f c = c \<lparr> ShaderStages := (ShaderStages c)(st := f (ShaderStages c st)) \<rparr>"

subsection \<open>Validation of inputs against the bound outputs\<close>

definition rtv_at :: "d3d11_ctx \<Rightarrow> nat \<Rightarrow> ptr option" where
  "rtv_at c n = (if n < 8 then Some (RTVs c ! n) else None)"

text \<open>The view or buffer in a slot; an empty slot is null and overlaps nothing.\<close>

definition uav_at :: "uav_b binding_set \<Rightarrow> nat \<Rightarrow> ptr option" where
  "uav_at t n = in_table t n (if test_bound t n then uav_view (bs_at t n) else None)"

definition so_at :: "stream_output_b binding_set \<Rightarrow> nat \<Rightarrow> ptr option" where
  "so_at t n = in_table t n (if test_bound t n then so_buffer (bs_at t n) else None)"

definition ValidateSRVHazard :: "d3d11_env \<Rightarrow> pipeline_stage \<Rightarrow> nat \<Rightarrow> d3d11_ctx \<Rightarrow> bool option" where
  "ValidateSRVHazard E st pView c =
     (let flags = vw_flags (views E pView); hit = (\<lambda>x. CheckOverlap E x (Some (AView pView))) in
      if view_hazardsFree E pView then Some True
      else if st = Compute then
        no_conflict (\<lambda>n. map_option (\<lambda>v. hit (map_option AView v)) (uav_at (ComputeUAVs c) n)) (bs_slots (ComputeUAVs c))
      else
        Option.bind (no_conflict (\<lambda>n. map_option (\<lambda>v. hit (map_option AView v)) (rtv_at c n)) [0..<unat (NumRTVs c)])
          (\<lambda>ok. if \<not> ok then Some False
                else if hit (map_option AView (DSV c)) then Some False
                else if flags AND D3D11_BIND_UNORDERED_ACCESS \<noteq> 0 then
                  no_conflict (\<lambda>n. map_option (\<lambda>v. hit (map_option AView v)) (uav_at (UAVs c) n)) [unat (NumRTVs c)..<8]
                else if flags AND D3D11_BIND_STREAM_OUTPUT \<noteq> 0 then
                  no_conflict (\<lambda>n. map_option (\<lambda>b. hit (map_option ABuffer b)) (so_at (SOTargets c) n)) [0..<4]
                else Some True))"

definition ValidateIAHazard :: "d3d11_env \<Rightarrow> nat \<Rightarrow> d3d11_ctx \<Rightarrow> bool option" where
  "ValidateIAHazard E pBuffer c =
     (let flags = rs_flags (resources E pBuffer); hit = (\<lambda>x. CheckOverlap E x (Some (ABuffer pBuffer))) in
      if resource_hazardsFree E pBuffer then Some True
      else if flags AND D3D11_BIND_UNORDERED_ACCESS \<noteq> 0 then
        no_conflict (\<lambda>n. map_option (\<lambda>v. hit (map_option AView v)) (uav_at (UAVs c) n))
          [unat (MinUAVBinding c)..<unat (MaxUAVBinding c)]
      else if flags AND D3D11_BIND_STREAM_OUTPUT \<noteq> 0 then
        no_conflict (\<lambda>n. map_option (\<lambda>b. hit (map_option ABuffer b)) (so_at (SOTargets c) n)) [0..<4]
      else Some True)"

subsection \<open>Shaders, shader resources, samplers and constant buffers\<close>

definition SetShader :: "pipeline_stage \<Rightarrow> ptr \<Rightarrow> d3d11_ctx \<Rightarrow> d3d11_ctx" where
  "SetShader st pShader c =
     (if pShader \<noteq> None \<and> Shader (ShaderStages c st) = pShader then c
      else
        let c = (if pShader = None then c
                 else
                   let c = dirty_stage st (update_stage st (\<lambda>s. s \<lparr> Shader := pShader \<rparr>) c);
                       c = (if st = Vertex then c \<lparr> VertexBuffers := set_dirty (VertexBuffers c) \<rparr> else c) in
                   if st = Compute then c \<lparr> ComputeUAVs := set_dirty (ComputeUAVs c) \<rparr>
                   else c \<lparr> UAVs := set_dirty (UAVs c) \<rparr>);
            c = (if pShader = None then update_stage st (\<lambda>s. s \<lparr> Shader := None \<rparr>) c else c) in
        if st = Compute then InvalidateComputePipeline c else InvalidateRenderPipeline c)"

definition PixelShaderHasMultisampledSRV :: "d3d11_env \<Rightarrow> d3d11_ctx \<Rightarrow> bool" where
  "PixelShaderHasMultisampledSRV E c =
     (case Shader (ShaderStages c Pixel) of
        None \<Rightarrow> False
      | Some ps \<Rightarrow>
          list_ex (\<lambda>arg. arg_Type arg = SRVArgument \<and> arg_Flags arg AND MTL_SM50_SHADER_ARGUMENT_TEXTURE_MULTISAMPLED \<noteq> 0)
            (arguments_info (reflection E ps)))"

definition srv_entry :: "d3d11_env \<Rightarrow> nat \<Rightarrow> srv_b \<Rightarrow> srv_b" where
  "srv_entry E pView entry =
     (let v = views E pView in
      entry \<lparr> srv_view := Some pView,
              srv_buffer := vw_buffer v,
              srv_texture := (if vw_buffer v = None then vw_texture v else None),
              srv_viewId := vw_id v, srv_slice := vw_slice v \<rparr>)"

definition SetShaderResource_slot ::
  "d3d11_env \<Rightarrow> pipeline_stage \<Rightarrow> ptr \<Rightarrow> nat \<Rightarrow> d3d11_ctx \<times> bool \<Rightarrow> (d3d11_ctx \<times> bool) option" where
  "SetShaderResource_slot E st pView n = (\<lambda>(c, changed).
     let t = SRVs (ShaderStages c st); put = (\<lambda>t. update_stage st (\<lambda>s. s \<lparr> SRVs := t \<rparr>) c) in
     Option.bind (case pView of None \<Rightarrow> Some False | Some v \<Rightarrow> ValidateSRVHazard E st v c)
       (\<lambda>valid.
          case (if valid then pView else None) of
            Some v \<Rightarrow>
              in_table t n
                (let (t', replaced) = bind_slot (is_redundant srv_raw) t n (srv_init pView) (\<not> view_hazardsFree E v) in
                 if \<not> replaced then (put t', changed) else (put (update_entry t' n (srv_entry E v)), True))
          | None \<Rightarrow>
              in_table t n (let (t', unbound) = unbind_slot (srv_init None) t n in (put t', changed \<or> unbound))))"

definition SetShaderResource ::
  "d3d11_env \<Rightarrow> pipeline_stage \<Rightarrow> u32 \<Rightarrow> u32 \<Rightarrow> (nat \<Rightarrow> ptr) \<Rightarrow> d3d11_ctx \<Rightarrow> d3d11_ctx option" where
  "SetShaderResource E st StartSlot NumViews pp c =
     map_option (\<lambda>(c, changed).
         if st = Pixel \<and> changed \<and> PixelShaderHasMultisampledSRV E c then InvalidateRenderPipeline c else c)
       (each_slot (\<lambda>n. SetShaderResource_slot E st (pp (n - unat StartSlot)) n) (slots_from StartSlot NumViews) (c, False))"

definition SetSamplers_slot :: "d3d11_env \<Rightarrow> pipeline_stage \<Rightarrow> ptr \<Rightarrow> nat \<Rightarrow> d3d11_ctx \<Rightarrow> d3d11_ctx option" where
  "SetSamplers_slot E st pSampler n c =
     (let t = Samplers (ShaderStages c st); put = (\<lambda>t. update_stage st (\<lambda>s. s \<lparr> Samplers := t \<rparr>) c) in
      in_table t n
        (case pSampler of
           Some p \<Rightarrow>
             (let (t', replaced) = bind_slot (is_redundant smp_raw) t n (sampler_init pSampler) True in
              put (if \<not> replaced then t'
                   else update_entry t' n
                     (\<lambda>entry. entry \<lparr> smp_sampler := pSampler, smp_native := Some (native_sampler E p) \<rparr>)))
         | None \<Rightarrow> put (fst (unbind_slot (sampler_init None) t n))))"

definition SetSamplers ::
  "d3d11_env \<Rightarrow> pipeline_stage \<Rightarrow> u32 \<Rightarrow> u32 \<Rightarrow> (nat \<Rightarrow> ptr) \<Rightarrow> d3d11_ctx \<Rightarrow> d3d11_ctx option" where
  "SetSamplers E st StartSlot NumSamplers pp c =
     each_slot (\<lambda>n. SetSamplers_slot E st (pp (n - unat StartSlot)) n) (slots_from StartSlot NumSamplers) c"

text \<open>The update of a rebound constant buffer: a null array leaves the field as it is.\<close>

definition refresh_first :: "u32 option \<Rightarrow> nat \<Rightarrow> constant_buffer_b binding_set \<Rightarrow> constant_buffer_b binding_set" where
  "refresh_first given n t =
     (case given of
        Some x \<Rightarrow>
          if x \<noteq> FirstConstant (bs_at t n) then update_entry (set_dirty_slot t n) n (\<lambda>e. e \<lparr> FirstConstant := x \<rparr>) else t
      | None \<Rightarrow> t)"

definition refresh_num :: "u32 option \<Rightarrow> nat \<Rightarrow> constant_buffer_b binding_set \<Rightarrow> constant_buffer_b binding_set" where
  "refresh_num given n t =
     (case given of
        Some x \<Rightarrow>
          if x \<noteq> NumConstants (bs_at t n) then update_entry (set_dirty_slot t n) n (\<lambda>e. e \<lparr> NumConstants := x \<rparr>) else t
      | None \<Rightarrow> t)"

definition SetConstantBuffer_slot ::
  "d3d11_env \<Rightarrow> pipeline_stage \<Rightarrow> ptr \<Rightarrow> u32 option \<Rightarrow> u32 option \<Rightarrow> nat \<Rightarrow> d3d11_ctx \<Rightarrow> d3d11_ctx option" where
  "SetConstantBuffer_slot E st pBuffer first num n c =
     (let t = ConstantBuffers (ShaderStages c st); put = (\<lambda>t. update_stage st (\<lambda>s. s \<lparr> ConstantBuffers := t \<rparr>) c) in
      in_table t n
        (case pBuffer of
           Some p \<Rightarrow>
             (let (t', replaced) = bind_slot (is_redundant cb_raw) t n (constant_buffer_init pBuffer) True in
              put (if \<not> replaced then refresh_num num n (refresh_first first n t')
                   else update_entry t' n
                     (\<lambda>entry. entry \<lparr> FirstConstant := (case first of Some x \<Rightarrow> x | None \<Rightarrow> 0),
                                      NumConstants := (case num of Some x \<Rightarrow> x | None \<Rightarrow> drop_bit 4 (byte_width E p)),
                                      cb_buffer := pBuffer \<rparr>)))
         | None \<Rightarrow> put (fst (unbind_slot (constant_buffer_init None) t n))))"

definition SetConstantBuffer ::
  "d3d11_env \<Rightarrow> pipeline_stage \<Rightarrow> u32 \<Rightarrow> u32 \<Rightarrow> (nat \<Rightarrow> ptr) \<Rightarrow> (nat \<Rightarrow> u32) option \<Rightarrow> (nat \<Rightarrow> u32) option \<Rightarrow>
     d3d11_ctx \<Rightarrow> d3d11_ctx option" where
  "SetConstantBuffer E st StartSlot NumBuffers pp pFirstConstant pNumConstants c =
     each_slot
       (\<lambda>n. SetConstantBuffer_slot E st (pp (n - unat StartSlot))
              (map_option (\<lambda>a. a (n - unat StartSlot)) pFirstConstant) (map_option (\<lambda>a. a (n - unat StartSlot)) pNumConstants) n)
       (slots_from StartSlot NumBuffers) c"

subsection \<open>Resolving hazards: outputs displace inputs\<close>

definition ResolveSRVHazard :: "d3d11_env \<Rightarrow> pipeline_stage \<Rightarrow> bound_object \<Rightarrow> d3d11_ctx \<Rightarrow> d3d11_ctx \<times> bool" where
  "ResolveSRVHazard E st x c =
     (if object_flags E x AND D3D11_BIND_SHADER_RESOURCE = 0 then (c, False)
      else
        let (t, slots, hazard) =
              resolve_slots (\<lambda>e. CheckOverlap E (map_option AView (srv_view e)) (Some x)) (srv_init None)
                (SRVs (ShaderStages c st)) in
        (fold (\<lambda>n. EmitST (BindBuffer st n None 0 slice_init)) slots (update_stage st (\<lambda>s. s \<lparr> SRVs := t \<rparr>) c), hazard))"

definition ResolveIAHazard :: "d3d11_env \<Rightarrow> bound_object \<Rightarrow> d3d11_ctx \<Rightarrow> d3d11_ctx \<times> bool" where
  "ResolveIAHazard E x c =
     (let index = object_flags E x AND D3D11_BIND_INDEX_BUFFER \<noteq> 0 \<and>
            CheckOverlap E (map_option ABuffer (IndexBuffer c)) (Some x);
          c = (if index
               then EmitST (BindIndexBuffer None)
                      (c \<lparr> IndexBuffer := None, IndexBufferFormat := 0, IndexBufferOffset := 0 \<rparr>)
               else c) in
      if object_flags E x AND D3D11_BIND_VERTEX_BUFFER = 0 then (c, index)
      else
        let (t, slots, hazard) =
              resolve_slots (\<lambda>e. CheckOverlap E (map_option ABuffer (vb_buffer e)) (Some x)) (vertex_buffer_init None)
                (VertexBuffers c) in
        (fold (\<lambda>n. EmitST (BindVertexBuffer n 0 0 None)) slots (c \<lparr> VertexBuffers := t \<rparr>), index \<or> hazard))"

definition OMResolveSRVHazard :: "d3d11_env \<Rightarrow> bound_object \<Rightarrow> d3d11_ctx \<Rightarrow> d3d11_ctx" where
  "OMResolveSRVHazard E x c =
     fold (\<lambda>st c. fst (ResolveSRVHazard E st x c)) [Vertex, Domain, Hull, Geometry, Pixel] c"

definition OMResolveRTVHazard_slot ::
  "d3d11_env \<Rightarrow> nat \<Rightarrow> nat \<Rightarrow> d3d11_ctx \<times> bool \<Rightarrow> (d3d11_ctx \<times> bool) option" where
  "OMResolveRTVHazard_slot E pUAV n = (\<lambda>(c, hazard).
     map_option
       (\<lambda>v. if CheckOverlap E (map_option AView v) (Some (AView pUAV))
            then (c \<lparr> RTVs := (RTVs c)[n := None] \<rparr>, True) else (c, hazard))
       (rtv_at c n))"

definition OMResolveRTVHazard :: "d3d11_env \<Rightarrow> ptr \<Rightarrow> d3d11_ctx \<Rightarrow> (d3d11_ctx \<times> bool) option" where
  "OMResolveRTVHazard E pUAV c =
     (case pUAV of
        None \<Rightarrow> Some (c, False)
      | Some v \<Rightarrow>
          if vw_flags (views E v) AND D3D11_BIND_RENDER_TARGET = 0 then Some (c, False)
          else each_slot (OMResolveRTVHazard_slot E v) [0..<unat (NumRTVs c)] (c, False))"

subsection \<open>Vertex and index buffers\<close>

definition refresh_stride :: "u32 option \<Rightarrow> nat \<Rightarrow> vertex_buffer_b binding_set \<Rightarrow> vertex_buffer_b binding_set" where
  "refresh_stride given n t =
     (case given of
        Some x \<Rightarrow> if x \<noteq> Stride (bs_at t n) then update_entry (set_dirty_slot t n) n (\<lambda>e. e \<lparr> Stride := x \<rparr>) else t
      | None \<Rightarrow> t)"

definition refresh_offset :: "u32 option \<Rightarrow> nat \<Rightarrow> vertex_buffer_b binding_set \<Rightarrow> vertex_buffer_b binding_set" where
  "refresh_offset given n t =
     (case given of
        Some x \<Rightarrow> if x \<noteq> Offset (bs_at t n) then update_entry (set_dirty_slot t n) n (\<lambda>e. e \<lparr> Offset := x \<rparr>) else t
      | None \<Rightarrow> t)"

text \<open>A new entry: a null offset array clears the stride, not the offset.\<close>

definition vertex_buffer_entry :: "nat \<Rightarrow> u32 option \<Rightarrow> u32 option \<Rightarrow> vertex_buffer_b \<Rightarrow> vertex_buffer_b" where
  "vertex_buffer_entry p stride offset entry =
     (let entry = (case stride of Some x \<Rightarrow> entry \<lparr> Stride := x \<rparr> | None \<Rightarrow> entry \<lparr> Stride := 0 \<rparr>);
          entry = (case offset of Some x \<Rightarrow> entry \<lparr> Offset := x \<rparr> | None \<Rightarrow> entry \<lparr> Stride := 0 \<rparr>) in
      entry \<lparr> vb_buffer := Some p \<rparr>)"

definition SetVertexBuffers_slot ::
  "d3d11_env \<Rightarrow> ptr \<Rightarrow> u32 option \<Rightarrow> u32 option \<Rightarrow> nat \<Rightarrow> d3d11_ctx \<Rightarrow> d3d11_ctx option" where
  "SetVertexBuffers_slot E pVertexBuffer stride offset n c =
     (let t = VertexBuffers c in
      Option.bind
        (case pVertexBuffer of
           None \<Rightarrow> Some False
         | Some p \<Rightarrow>
             if rs_flags (resources E p) AND D3D11_BIND_VERTEX_BUFFER \<noteq> 0 then ValidateIAHazard E p c else Some False)
        (\<lambda>valid. in_table t n
          (case (if valid then pVertexBuffer else None) of
             Some p \<Rightarrow>
               (let (t', replaced) = bind_slot (is_redundant vb_raw) t n (vertex_buffer_init pVertexBuffer)
                      (\<not> resource_hazardsFree E p) in
                if \<not> replaced then
                  let t' = refresh_offset offset n (refresh_stride stride n t') in
                  EmitST (BindVertexBufferOffset n (Offset (bs_at t' n)) (Stride (bs_at t' n))) (c \<lparr> VertexBuffers := t' \<rparr>)
                else
                  let t' = update_entry t' n (vertex_buffer_entry p stride offset) in
                  EmitST (BindVertexBuffer n (Offset (bs_at t' n)) (Stride (bs_at t' n)) (rs_buffer (resources E p)))
                    (c \<lparr> VertexBuffers := t' \<rparr>))
           | None \<Rightarrow>
               (let (t', unbound) = unbind_slot (vertex_buffer_init None) t n; c = c \<lparr> VertexBuffers := t' \<rparr> in
                if unbound then EmitST (BindVertexBuffer n 0 0 None) c else c))))"

definition SetVertexBuffers ::
  "d3d11_env \<Rightarrow> u32 \<Rightarrow> u32 \<Rightarrow> (nat \<Rightarrow> ptr) \<Rightarrow> (nat \<Rightarrow> u32) option \<Rightarrow> (nat \<Rightarrow> u32) option \<Rightarrow> d3d11_ctx \<Rightarrow> d3d11_ctx option" where
  "SetVertexBuffers E StartSlot NumBuffers pp pStrides pOffsets c =
     each_slot
       (\<lambda>n. SetVertexBuffers_slot E (pp (n - unat StartSlot))
              (map_option (\<lambda>a. a (n - unat StartSlot)) pStrides) (map_option (\<lambda>a. a (n - unat StartSlot)) pOffsets) n)
       (slots_from StartSlot NumBuffers) c"

definition IASetIndexBuffer :: "d3d11_env \<Rightarrow> ptr \<Rightarrow> u32 \<Rightarrow> u32 \<Rightarrow> d3d11_ctx \<Rightarrow> d3d11_ctx option" where
  "IASetIndexBuffer E pBuffer Format offset c =
     map_option
       (\<lambda>valid.
          let c = (if valid
                   then EmitST (BindIndexBuffer (Option.bind pBuffer (\<lambda>p. rs_buffer (resources E p)))) (c \<lparr> IndexBuffer := pBuffer \<rparr>)
                   else EmitST (BindIndexBuffer None) (c \<lparr> IndexBuffer := None \<rparr>)) in
          c \<lparr> IndexBufferFormat := Format, IndexBufferOffset := offset \<rparr>)
       (case pBuffer of
          None \<Rightarrow> Some False
        | Some p \<Rightarrow>
            if rs_flags (resources E p) AND D3D11_BIND_INDEX_BUFFER \<noteq> 0 then ValidateIAHazard E p c else Some False)"

subsection \<open>Stream output\<close>

definition ValidateMultiSOTargets :: "nat \<Rightarrow> (nat \<Rightarrow> ptr) \<Rightarrow> bool" where
  "ValidateMultiSOTargets NumBuffers pp \<longleftrightarrow>
     list_all (\<lambda>i. pp i = None \<or> list_all (\<lambda>j. pp i \<noteq> pp j) [0..<i]) [0..<NumBuffers]"

definition SOResolveSRVHazard :: "d3d11_env \<Rightarrow> bound_object \<Rightarrow> d3d11_ctx \<Rightarrow> d3d11_ctx" where
  "SOResolveSRVHazard = OMResolveSRVHazard"

definition SOSetTargets_slot :: "d3d11_env \<Rightarrow> ptr \<Rightarrow> u32 \<Rightarrow> nat \<Rightarrow> d3d11_ctx \<Rightarrow> d3d11_ctx option" where
  "SOSetTargets_slot E pBuffer offset n c =
     (let t = SOTargets c in
      in_table t n
        (case (case pBuffer of
                 Some p \<Rightarrow> if rs_flags (resources E p) AND D3D11_BIND_STREAM_OUTPUT \<noteq> 0 then pBuffer else None
               | None \<Rightarrow> None) of
           Some p \<Rightarrow>
             (let (t', replaced) = bind_slot (is_redundant so_raw) t n (stream_output_init pBuffer) True in
              if \<not> replaced then
                c \<lparr> SOTargets := (if offset \<noteq> so_offset (bs_at t' n)
                                  then update_entry (set_dirty_slot t' n) n (\<lambda>e. e \<lparr> so_offset := offset \<rparr>) else t') \<rparr>
              else
                fst (ResolveIAHazard E (ABuffer p)
                  (SOResolveSRVHazard E (ABuffer p)
                    (c \<lparr> SOTargets := update_entry t' n (\<lambda>e. e \<lparr> so_buffer := pBuffer, so_offset := offset \<rparr>) \<rparr>))))
         | None \<Rightarrow> c \<lparr> SOTargets := fst (unbind_slot (stream_output_init None) t n) \<rparr>))"

text \<open>The validation reads the array, null or not.\<close>

definition SOSetTargets ::
  "d3d11_env \<Rightarrow> u32 \<Rightarrow> (nat \<Rightarrow> ptr) option \<Rightarrow> (nat \<Rightarrow> u32) option \<Rightarrow> d3d11_ctx \<Rightarrow> d3d11_ctx option" where
  "SOSetTargets E NumBuffers pp pOffsets c =
     (if pp = None \<and> NumBuffers \<noteq> 0 then None
      else if \<not> (case pp of Some a \<Rightarrow> ValidateMultiSOTargets (unat NumBuffers) a | None \<Rightarrow> True) then Some c
      else
        let NumBuffers = (if NumBuffers = 0 then 4 else NumBuffers) in
        each_slot
          (\<lambda>n. SOSetTargets_slot E (case pp of Some a \<Rightarrow> a n | None \<Rightarrow> None) (case pOffsets of Some a \<Rightarrow> a n | None \<Rightarrow> 0) n)
          [0..<unat NumBuffers] c)"

subsection \<open>Unordered access views of the compute stage\<close>

definition pass_desc :: "d3d11_env \<Rightarrow> nat \<Rightarrow> pass_attachment_desc" where
  "pass_desc E v = vw_desc (views E v)"

text \<open>\<open>UpdateUAVCounter\<close>: the counter is renamed when the command runs.\<close>

definition UpdateUAVCounter :: "d3d11_env \<Rightarrow> nat \<Rightarrow> u32 \<Rightarrow> d3d11_ctx \<Rightarrow> d3d11_ctx" where
  "UpdateUAVCounter E uav v = EmitST (UpdateCounter (vw_counter (views E uav)) v)"

definition bind_output :: "d3d11_env \<Rightarrow> pipeline_stage \<Rightarrow> nat \<Rightarrow> nat \<Rightarrow> d3d11_cmd" where
  "bind_output E st n pUAV =
     (let v = views E pUAV in
      if vw_buffer v \<noteq> None then BindOutputBuffer st n (vw_buffer v) (vw_id v) (vw_counter v) (vw_slice v)
      else BindOutputTexture st n (vw_texture v) (vw_id v))"

definition bind_no_output :: "pipeline_stage \<Rightarrow> nat \<Rightarrow> d3d11_cmd" where
  "bind_no_output st n = BindOutputBuffer st n None 0 None slice_init"

definition ValidateMultiOutput :: "d3d11_env \<Rightarrow> u32 \<Rightarrow> (nat \<Rightarrow> ptr) \<Rightarrow> u32 \<Rightarrow> (nat \<Rightarrow> ptr) \<Rightarrow> bool" where
  "ValidateMultiOutput E numRTVs ppRTVs numUAVs ppUAVs \<longleftrightarrow>
     (let rtvs = (if numRTVs = - 1 then 0 else unat numRTVs);
          uavs = (if numUAVs = - 1 then 0 else unat numUAVs);
          overlap = (\<lambda>a b. CheckOverlap E (map_option AView a) (map_option AView b)) in
      list_all
        (\<lambda>i. case ppRTVs i of
               None \<Rightarrow> True
             | Some p \<Rightarrow>
                 list_all (\<lambda>j. \<not> overlap (Some p) (ppRTVs j)) [0..<i] \<and>
                 (vw_flags (views E p) AND D3D11_BIND_UNORDERED_ACCESS \<noteq> 0 \<longrightarrow>
                    list_all (\<lambda>j. \<not> overlap (Some p) (ppUAVs j)) [0..<uavs]))
        [0..<rtvs] \<and>
      list_all
        (\<lambda>i. case ppUAVs i of None \<Rightarrow> True | Some p \<Rightarrow> list_all (\<lambda>j. \<not> overlap (Some p) (ppUAVs j)) [0..<i])
        [0..<uavs])"

text \<open>Views in other slots that overlap a new one are unbound; the reference \<open>Bound\<close> is null once its slot is.\<close>

definition displace_uav :: "d3d11_env \<Rightarrow> nat \<Rightarrow> (nat \<Rightarrow> ptr) \<Rightarrow> nat \<Rightarrow> d3d11_ctx \<Rightarrow> d3d11_ctx" where
  "displace_uav E NumUAVs pp n c =
     fold (\<lambda>i c.
        if CheckOverlap E (map_option AView (uav_view (bs_at (ComputeUAVs c) n))) (map_option AView (pp i)) then
          let (t, unbound) = unbind_slot (uav_init None) (ComputeUAVs c) n; c = c \<lparr> ComputeUAVs := t \<rparr> in
          if unbound then EmitST (bind_no_output Compute n) c else c
        else c) [0..<NumUAVs] c"

definition set_uav_slot ::
  "d3d11_env \<Rightarrow> pipeline_stage \<Rightarrow> nat \<Rightarrow> u32 \<Rightarrow> nat \<Rightarrow> uav_b binding_set \<Rightarrow> d3d11_ctx \<Rightarrow> (uav_b binding_set \<times> d3d11_ctx \<times> bool)" where
  "set_uav_slot E st pUAV InitialCount n t c =
     (let (t', replaced) = bind_slot (is_redundant uav_raw) t n (uav_init (Some pUAV)) True;
          c = (if InitialCount \<noteq> - 1 then UpdateUAVCounter E pUAV InitialCount c else c) in
      if \<not> replaced then (t', c, False)
      else (update_entry t' n (\<lambda>e. e \<lparr> uav_view := Some pUAV \<rparr>), EmitST (bind_output E st n pUAV) c, True))"

definition CSSetUAV_slot :: "d3d11_env \<Rightarrow> ptr \<Rightarrow> u32 \<Rightarrow> nat \<Rightarrow> d3d11_ctx \<Rightarrow> d3d11_ctx option" where
  "CSSetUAV_slot E pUAV InitialCount n c =
     in_table (ComputeUAVs c) n
       (case pUAV of
          Some p \<Rightarrow>
            (let (t, c, replaced) = set_uav_slot E Compute p InitialCount n (ComputeUAVs c) c;
                 c = c \<lparr> ComputeUAVs := t \<rparr> in
             if replaced then fst (ResolveSRVHazard E Compute (AView p) c) else c)
        | None \<Rightarrow>
            (let (t, unbound) = unbind_slot (uav_init None) (ComputeUAVs c) n; c = c \<lparr> ComputeUAVs := t \<rparr> in
             if unbound then EmitST (bind_no_output Compute n) c else c))"

definition CSSetUnorderedAccessViews ::
  "d3d11_env \<Rightarrow> u32 \<Rightarrow> u32 \<Rightarrow> (nat \<Rightarrow> ptr) \<Rightarrow> (nat \<Rightarrow> u32) option \<Rightarrow> d3d11_ctx \<Rightarrow> d3d11_ctx option" where
  "CSSetUnorderedAccessViews E StartSlot NumUAVs pp pCounts c =
     (if StartSlot + NumUAVs > 64 then Some c
      else if \<not> ValidateMultiOutput E 0 (\<lambda>_. None) NumUAVs pp then Some c
      else
        let c = visit_bound 64 (\<lambda>c. bs_bound (ComputeUAVs c))
              (\<lambda>n c. if unat StartSlot \<le> n \<and> n < unat (StartSlot + NumUAVs) then c else displace_uav E (unat NumUAVs) pp n c) c in
        each_slot
          (\<lambda>n. CSSetUAV_slot E (pp (n - unat StartSlot)) (case pCounts of Some a \<Rightarrow> a (n - unat StartSlot) | None \<Rightarrow> - 1) n)
          (slots_from StartSlot NumUAVs) c)"

subsection \<open>The output merger\<close>

text \<open>\<open>ValidateSetRenderTargets\<close>: the derived sizes, with no reference before the first attachment.\<close>

record target_info =
  ti_ref :: bool
  ti_array :: u32
  ti_samples :: u32
  ti_width :: u32
  ti_height :: u32

definition target_info_of :: "pass_attachment_desc \<Rightarrow> target_info" where
  "target_info_of d =
     \<lparr> ti_ref = True, ti_array = RenderTargetArrayLength d, ti_samples = AttachmentSampleCount d,
       ti_width = AttachmentWidth d, ti_height = AttachmentHeight d \<rparr>"

definition check_target :: "pass_attachment_desc \<Rightarrow> target_info \<Rightarrow> target_info option" where
  "check_target props i =
     (if \<not> ti_ref i then Some (target_info_of props)
      else if AttachmentSampleCount props \<noteq> ti_samples i then None
      else if RenderTargetArrayLength props \<noteq> ti_array i \<and> max (RenderTargetArrayLength props) (ti_array i) \<noteq> 1 then None
      else if ti_width i < AttachmentWidth props \<or> ti_height i < AttachmentHeight props then None
      else Some (i \<lparr> ti_array := min (ti_array i) (RenderTargetArrayLength props),
                     ti_width := min (ti_width i) (AttachmentWidth props),
                     ti_height := min (ti_height i) (AttachmentHeight props) \<rparr>))"

definition ValidateSetRenderTargets ::
  "d3d11_env \<Rightarrow> u32 \<Rightarrow> (nat \<Rightarrow> ptr) \<Rightarrow> ptr \<Rightarrow> d3d11_ctx \<Rightarrow> d3d11_ctx option" where
  "ValidateSetRenderTargets E numRTVs ppRTVs pDSV c =
     map_option
       (\<lambda>i. c \<lparr> SampleCount := ti_samples i, ArrayLength := ti_array i, RenderTargetWidth := ti_width i,
                RenderTargetHeight := ti_height i \<rparr>)
       (each_slot (\<lambda>n i. case ppRTVs n of None \<Rightarrow> Some i | Some p \<Rightarrow> check_target (pass_desc E p) i) [0..<unat numRTVs]
          (case pDSV of
             Some d \<Rightarrow> target_info_of (pass_desc E d)
           | None \<Rightarrow> \<lparr> ti_ref = False, ti_array = 0, ti_samples = 1, ti_width = 0, ti_height = 0 \<rparr>))"

definition set_rtv_slot :: "d3d11_env \<Rightarrow> ptr \<Rightarrow> nat \<Rightarrow> d3d11_ctx \<times> bool \<Rightarrow> d3d11_ctx \<times> bool" where
  "set_rtv_slot E rtv n = (\<lambda>(c, invalidate).
     case rtv of
       Some p \<Rightarrow>
         if RTVs c ! n = Some p then (c, invalidate)
         else (OMResolveSRVHazard E (AView p) (c \<lparr> RTVs := (RTVs c)[n := Some p] \<rparr>), True)
     | None \<Rightarrow> (c \<lparr> RTVs := (RTVs c)[n := None] \<rparr>, invalidate \<or> RTVs c ! n \<noteq> None))"

definition set_dsv :: "d3d11_env \<Rightarrow> ptr \<Rightarrow> d3d11_ctx \<times> bool \<Rightarrow> d3d11_ctx \<times> bool" where
  "set_dsv E dsv = (\<lambda>(c, invalidate).
     case dsv of
       Some p \<Rightarrow>
         if DSV c \<noteq> Some p then (OMResolveSRVHazard E (AView p) (c \<lparr> DSV := Some p \<rparr>), True) else (c, invalidate)
     | None \<Rightarrow> (c \<lparr> DSV := None \<rparr>, invalidate \<or> DSV c \<noteq> None))"

definition OMSetRenderTargets_part ::
  "d3d11_env \<Rightarrow> u32 \<Rightarrow> (nat \<Rightarrow> ptr) \<Rightarrow> ptr \<Rightarrow> d3d11_ctx \<Rightarrow> d3d11_ctx \<times> bool" where
  "OMSetRenderTargets_part E n ppRTVs pDSV c =
     (let (c, invalidate) =
            fold (\<lambda>i. set_rtv_slot E (if i < unat n then ppRTVs i else None) i) [0..<8] (c, False) in
      set_dsv E pDSV (c \<lparr> NumRTVs := n \<rparr>, invalidate))"

definition OMSetUAV_slot ::
  "d3d11_env \<Rightarrow> bool \<Rightarrow> ptr \<Rightarrow> u32 \<Rightarrow> nat \<Rightarrow> d3d11_ctx \<times> bool \<Rightarrow> (d3d11_ctx \<times> bool) option" where
  "OMSetUAV_slot E KeepRTVs pUAV InitialCount n = (\<lambda>(c, invalidate).
     if \<not> n < bs_size (UAVs c) then None
     else
       let resolve_rtv = (\<lambda>c. if KeepRTVs then Some (c, invalidate)
                             else map_option (\<lambda>(c, hazard). (c, invalidate \<or> hazard)) (OMResolveRTVHazard E pUAV c)) in
       case pUAV of
         Some p \<Rightarrow>
           (let (t, c, replaced) = set_uav_slot E Pixel p InitialCount n (UAVs c) c; c = c \<lparr> UAVs := t \<rparr> in
            if \<not> replaced then Some (c, invalidate)
            else resolve_rtv (fst (ResolveIAHazard E (AView p) (OMResolveSRVHazard E (AView p) c))))
       | None \<Rightarrow>
           (let (t, unbound) = unbind_slot (uav_init None) (UAVs c) n; c = c \<lparr> UAVs := t \<rparr> in
            resolve_rtv (if unbound then EmitST (bind_no_output Pixel n) c else c)))"

definition OMSetUAVs_part ::
  "d3d11_env \<Rightarrow> bool \<Rightarrow> u32 \<Rightarrow> u32 \<Rightarrow> (nat \<Rightarrow> ptr) \<Rightarrow> (nat \<Rightarrow> u32) option \<Rightarrow> d3d11_ctx \<times> bool \<Rightarrow> (d3d11_ctx \<times> bool) option" where
  "OMSetUAVs_part E KeepRTVs UAVStartSlot num pp pCounts = (\<lambda>(c, invalidate).
     let MinUAV = (if num \<noteq> 0 then UAVStartSlot else 64);
         MaxUAV = (if num \<noteq> 0 then UAVStartSlot + num else 0);
         OldMinUAV = MinUAVBinding c; OldMaxUAV = MaxUAVBinding c;
         given = (\<lambda>n. unat UAVStartSlot \<le> n \<and> n < unat (UAVStartSlot + num)) in
     each_slot
       (\<lambda>n. OMSetUAV_slot E KeepRTVs (if given n then pp (n - unat UAVStartSlot) else None)
              (case pCounts of Some a \<Rightarrow> if given n then a (n - unat UAVStartSlot) else - 1 | None \<Rightarrow> - 1) n)
       [unat (min MinUAV OldMinUAV)..<unat (max MaxUAV OldMaxUAV)]
       (c \<lparr> MinUAVBinding := MinUAV, MaxUAVBinding := MaxUAV \<rparr>, invalidate))"

text \<open>\<open>D3D11_KEEP_RENDER_TARGETS_AND_DEPTH_STENCIL\<close> and \<open>D3D11_KEEP_UNORDERED_ACCESS_VIEWS\<close> are \<open>0xffffffff\<close>.\<close>

definition OMSetRenderTargetsAndUnorderedAccessViews ::
  "d3d11_env \<Rightarrow> u32 \<Rightarrow> (nat \<Rightarrow> ptr) \<Rightarrow> ptr \<Rightarrow> u32 \<Rightarrow> u32 \<Rightarrow> (nat \<Rightarrow> ptr) \<Rightarrow> (nat \<Rightarrow> u32) option \<Rightarrow>
     d3d11_ctx \<Rightarrow> d3d11_ctx option" where
  "OMSetRenderTargetsAndUnorderedAccessViews E n ppRTVs pDSV UAVStartSlot num ppUAVs pCounts c =
     (if \<not> ValidateMultiOutput E n ppRTVs num ppUAVs then Some c
      else
        case (if n \<noteq> - 1
              then map_option (OMSetRenderTargets_part E n ppRTVs pDSV) (ValidateSetRenderTargets E n ppRTVs pDSV c)
              else Some (c, False)) of
          None \<Rightarrow> Some c
        | Some (c, invalidate) \<Rightarrow>
            map_option (\<lambda>(c, invalidate). if invalidate then fst (InvalidateCurrentPass False c) else c)
              (if num \<noteq> - 1 then OMSetUAVs_part E (n = - 1) UAVStartSlot num ppUAVs pCounts (c, invalidate)
               else Some (c, invalidate)))"

definition OMSetRenderTargets :: "d3d11_env \<Rightarrow> u32 \<Rightarrow> (nat \<Rightarrow> ptr) \<Rightarrow> ptr \<Rightarrow> d3d11_ctx \<Rightarrow> d3d11_ctx option" where
  "OMSetRenderTargets E NumViews ppRTVs pDSV c =
     OMSetRenderTargetsAndUnorderedAccessViews E NumViews ppRTVs pDSV NumViews 0 (\<lambda>_. None) None c"

end
