(* ===== verification/PendingUpdates.thy ===== *)
theory PendingUpdates
  imports ContextState "HOL-Library.While_Combinator"
begin

text \<open>
  Buffer updates that wait for the next use of their buffer: \<open>UpdateSubresource1\<close> on a buffer and the
  \<open>PendingBufferUpdate\<close> functions of src/src/d3d11/d3d11_context_impl.cpp. A flush does not replay the updates: it
  walks them from the last to the first, keeps the bytes no later update covers as copy segments, and emits the
  segments as blits or as one packed compute copy. Byte offsets are 32-bit words as in the code.
\<close>

subsection \<open>Covered ranges\<close>

text \<open>\<open>std::map<uint32_t, uint32_t>\<close> from the start of a range to its end: the list of its entries by key.\<close>

type_synonym ranges = "(u32 \<times> u32) list"

definition before_key :: "u32 \<Rightarrow> ranges \<Rightarrow> ranges" where
  "before_key k m = takeWhile (\<lambda>(s, e). s < k) m"

definition lower_bound :: "u32 \<Rightarrow> ranges \<Rightarrow> ranges" where
  "lower_bound k m = dropWhile (\<lambda>(s, e). s < k) m"

definition map_emplace :: "u32 \<Rightarrow> u32 \<Rightarrow> ranges \<Rightarrow> ranges" where
  "map_emplace s e m =
     before_key s m @ (case lower_bound s m of
                         (s', e') # r \<Rightarrow> if s' = s then (s', e') # r else (s, e) # (s', e') # r
                       | [] \<Rightarrow> [(s, e)])"

text \<open>The loop that swallows the entries a range reaches.\<close>

fun absorb :: "u32 \<Rightarrow> ranges \<Rightarrow> u32 \<times> ranges" where
  "absorb end [] = (end, [])"
| "absorb end ((s, e) # r) = (if s \<le> end then absorb (max end e) r else (end, (s, e) # r))"

definition add_covered_range :: "u32 \<Rightarrow> u32 \<Rightarrow> ranges \<Rightarrow> ranges" where
  "add_covered_range start end m =
     (let prev = before_key start m; it = lower_bound start m;
          (start, end, prev) =
            (if prev \<noteq> [] \<and> start \<le> snd (last prev)
             then (min start (fst (last prev)), max end (snd (last prev)), butlast prev) else (start, end, prev));
          (end, it) = absorb end it in
      map_emplace start end (prev @ it))"

subsection \<open>The batch of a buffer\<close>

record segment =
  update_index :: nat
  sg_src_offset :: u32
  sg_dst_offset :: u32
  sg_length :: u32

record batch_info =
  bi_count :: u32
  packed_bytes :: u64
  max_region_bytes :: u32
  can_pack_regions :: bool
  segments :: "segment list"

definition batch_new :: batch_info where
  "batch_new = \<lparr> bi_count = 0, packed_bytes = 0, max_region_bytes = 0, can_pack_regions = True, segments = [] \<rparr>"

text \<open>The uncovered pieces of an update, from the cursor to its end, over the entries the iterator visits.\<close>

fun scan_gaps :: "nat \<Rightarrow> u32 \<Rightarrow> u32 \<Rightarrow> u32 \<Rightarrow> ranges \<Rightarrow> u32 \<times> segment list" where
  "scan_gaps index dst_offset end cursor [] = (cursor, [])"
| "scan_gaps index dst_offset end cursor ((s, e) # r) =
     (if s < end then
        let gap = (if cursor < s
                   then [\<lparr> update_index = index, sg_src_offset = cursor - dst_offset, sg_dst_offset = cursor,
                           sg_length = min s end - cursor \<rparr>]
                   else []);
            cursor = max cursor e in
        if cursor \<ge> end then (cursor, gap)
        else let (cursor, more) = scan_gaps index dst_offset end cursor r in (cursor, gap @ more)
      else (cursor, []))"

definition uncovered :: "nat \<Rightarrow> u32 \<Rightarrow> u32 \<Rightarrow> ranges \<Rightarrow> segment list" where
  "uncovered index dst_offset end m =
     (let prev = before_key dst_offset m;
          it = (if prev \<noteq> [] \<and> dst_offset < snd (last prev) then last prev # lower_bound dst_offset m
                else lower_bound dst_offset m);
          (cursor, gaps) = scan_gaps index dst_offset end dst_offset it in
      gaps @ (if cursor < end
              then [\<lparr> update_index = index, sg_src_offset = cursor - dst_offset, sg_dst_offset = cursor,
                      sg_length = end - cursor \<rparr>]
              else []))"

definition analyze_update :: "nat \<Rightarrow> pending_update \<Rightarrow> nat \<Rightarrow> batch_info \<times> ranges \<Rightarrow> batch_info \<times> ranges" where
  "analyze_update buffer u index = (\<lambda>(info, m).
     if pu_dst u \<noteq> buffer then (info, m)
     else
       let info = info \<lparr> bi_count := bi_count info + 1 \<rparr>;
           info = (if \<not> pu_allow_compute_pack u \<or> pu_payload u = None then info \<lparr> can_pack_regions := False \<rparr> else info);
           end = pu_dst_offset u + pu_length u in
       if end < pu_dst_offset u then (info \<lparr> can_pack_regions := False \<rparr>, m)
       else (info \<lparr> segments := segments info @ uncovered index (pu_dst_offset u) end m \<rparr>,
             add_covered_range (pu_dst_offset u) end m))"

primrec analyze_from :: "nat \<Rightarrow> pending_update list \<Rightarrow> nat \<Rightarrow> batch_info \<times> ranges \<Rightarrow> batch_info \<times> ranges" where
  "analyze_from buffer us 0 st = st"
| "analyze_from buffer us (Suc index) st = analyze_from buffer us index (analyze_update buffer (us ! index) index st)"

fun pack_sizes :: "segment list \<Rightarrow> batch_info \<Rightarrow> batch_info" where
  "pack_sizes [] info = info"
| "pack_sizes (s # ss) info =
     (let info = info \<lparr> packed_bytes := packed_bytes info + ucast (sg_length s),
                        max_region_bytes := max (max_region_bytes info) (sg_length s) \<rparr> in
      if packed_bytes info > 0xffffffff then info \<lparr> can_pack_regions := False \<rparr> else pack_sizes ss info)"

definition AnalyzePendingBufferUpdateBatch :: "nat \<Rightarrow> pending_update list \<Rightarrow> batch_info" where
  "AnalyzePendingBufferUpdateBatch buffer us =
     (let info = fst (analyze_from buffer us (length us) (batch_new, [])) in
      if can_pack_regions info then pack_sizes (segments info) info else info)"

subsection \<open>Queueing\<close>

definition QueuePendingBufferUpdate :: "pending_update \<Rightarrow> d3d11_ctx \<Rightarrow> d3d11_ctx" where
  "QueuePendingBufferUpdate u c = c \<lparr> pending_buffer_updates := pending_buffer_updates c @ [u] \<rparr>"

text \<open>
  \<open>UpdateSubresource1\<close> on a buffer that is not renamed by the update: staging memory is allocated (the queue's
  allocator is the parameter \<open>alloc\<close>) and filled, and the update queued. \<open>bounds\<close> are the left and right of the box.
\<close>

type_synonym staging_memory = "nat \<Rightarrow> u64 \<Rightarrow> u8"

definition updateContents :: "nat \<Rightarrow> u64 \<Rightarrow> u8 list \<Rightarrow> staging_memory \<Rightarrow> staging_memory" where
  "updateContents buffer offset bytes stg =
     stg(buffer := (\<lambda>a. if unat (a - offset) < length bytes then bytes ! unat (a - offset) else stg buffer a))"

definition UpdateBuffer ::
  "(u32 \<Rightarrow> d3d11_ctx \<Rightarrow> nat \<times> u64) \<Rightarrow> nat \<Rightarrow> u32 \<Rightarrow> u32 \<Rightarrow> (u32 \<times> u32) option \<Rightarrow> (nat \<Rightarrow> u8) \<Rightarrow>
     d3d11_ctx \<times> staging_memory \<Rightarrow> d3d11_ctx \<times> staging_memory" where
  "UpdateBuffer alloc buffer byteWidth bindFlags bounds pSrcData = (\<lambda>(c, stg).
     case bounds of
       Some (left, right) \<Rightarrow>
         if right \<le> left then (c, stg)
         else
           let bytes = map pSrcData [0..<unat (right - left)];
               (staging, offset) = alloc (right - left) c;
               pack = bindFlags AND (D3D11_BIND_SHADER_RESOURCE OR D3D11_BIND_UNORDERED_ACCESS) \<noteq> 0 in
           (QueuePendingBufferUpdate
              \<lparr> pu_dst = buffer, pu_staging = staging, pu_staging_offset = offset, pu_dst_offset = left, pu_length = right - left,
                pu_allow_compute_pack = pack, pu_payload = (if pack then Some bytes else None), pu_chunk = chunk c \<rparr> c,
            updateContents staging offset bytes stg)
     | None \<Rightarrow>
         let bytes = map pSrcData [0..<unat byteWidth];
             (staging, offset) = alloc byteWidth c;
             pack = bindFlags AND (D3D11_BIND_SHADER_RESOURCE OR D3D11_BIND_UNORDERED_ACCESS) \<noteq> 0 in
         (QueuePendingBufferUpdate
            \<lparr> pu_dst = buffer, pu_staging = staging, pu_staging_offset = offset, pu_dst_offset = 0, pu_length = byteWidth,
              pu_allow_compute_pack = pack, pu_payload = (if pack then Some bytes else None), pu_chunk = chunk c \<rparr> c,
          updateContents staging offset bytes stg))"

subsection \<open>Flushing\<close>

definition EmitPendingBufferUpdateSegment :: "pending_update \<Rightarrow> u32 \<Rightarrow> u32 \<Rightarrow> u32 \<Rightarrow> d3d11_ctx \<Rightarrow> d3d11_ctx" where
  "EmitPendingBufferUpdateSegment u src_offset dst_offset len =
     EmitOP (BlitCopy (pu_staging u) (pu_staging_offset u + ucast src_offset) (pu_dst u) dst_offset len)"

definition EmitPendingBufferUpdate :: "pending_update \<Rightarrow> d3d11_ctx \<Rightarrow> d3d11_ctx" where
  "EmitPendingBufferUpdate u = EmitPendingBufferUpdateSegment u 0 (pu_dst_offset u) (pu_length u)"

definition EmitPendingBufferUpdateBatchBlit :: "nat \<Rightarrow> batch_info \<Rightarrow> d3d11_ctx \<Rightarrow> d3d11_ctx" where
  "EmitPendingBufferUpdateBatchBlit buffer info c =
     (if segments info \<noteq> [] then
        fold (\<lambda>s c. EmitPendingBufferUpdateSegment (pending_buffer_updates c ! update_index s)
                      (sg_src_offset s) (sg_dst_offset s) (sg_length s) c) (segments info) c
      else
        fold (\<lambda>u c. if pu_dst u = buffer then EmitPendingBufferUpdate u c else c) (pending_buffer_updates c) c)"

definition RemovePendingBufferUpdatesFor :: "nat \<Rightarrow> d3d11_ctx \<Rightarrow> d3d11_ctx" where
  "RemovePendingBufferUpdatesFor buffer c =
     c \<lparr> pending_buffer_updates := filter (\<lambda>u. pu_dst u \<noteq> buffer) (pending_buffer_updates c) \<rparr>"

definition FlushPendingBufferUpdatesFor :: "ptr \<Rightarrow> d3d11_ctx \<Rightarrow> d3d11_ctx" where
  "FlushPendingBufferUpdatesFor p c =
     (case p of
        None \<Rightarrow> c
      | Some buffer \<Rightarrow>
          if pending_buffer_updates c = [] then c
          else
            let batch = AnalyzePendingBufferUpdateBatch buffer (pending_buffer_updates c) in
            if bi_count batch = 0 then c
            else RemovePendingBufferUpdatesFor buffer
                   (EmitPendingBufferUpdateBatchBlit buffer batch (SwitchToBlitEncoder UpdateBlitEncoderActive c)))"

text \<open>One round of the loop of \<open>FlushAllPendingBufferUpdates\<close>.\<close>

definition flush_front :: "d3d11_ctx \<Rightarrow> d3d11_ctx" where
  "flush_front c =
     (let buffer = pu_dst (hd (pending_buffer_updates c)) in
      RemovePendingBufferUpdatesFor buffer
        (EmitPendingBufferUpdateBatchBlit buffer (AnalyzePendingBufferUpdateBatch buffer (pending_buffer_updates c)) c))"

definition FlushAllPendingBufferUpdates :: "d3d11_ctx \<Rightarrow> d3d11_ctx option" where
  "FlushAllPendingBufferUpdates c =
     (if pending_buffer_updates c = [] then Some c
      else while_option (\<lambda>c. pending_buffer_updates c \<noteq> []) flush_front (SwitchToBlitEncoder UpdateBlitEncoderActive c))"

text \<open>The set of target buffers is unordered: \<open>order\<close> lists its elements.\<close>

definition flush_one :: "nat \<Rightarrow> d3d11_ctx \<Rightarrow> d3d11_ctx" where
  "flush_one buffer c =
     (let batch = AnalyzePendingBufferUpdateBatch buffer (pending_buffer_updates c) in
      if bi_count batch = 0 then c
      else RemovePendingBufferUpdatesFor buffer (EmitPendingBufferUpdateBatchBlit buffer batch c))"

primrec flush_targets :: "nat list \<Rightarrow> d3d11_ctx \<Rightarrow> d3d11_ctx" where
  "flush_targets [] c = c"
| "flush_targets (b # bs) c = (if pending_buffer_updates c = [] then c else flush_targets bs (flush_one b c))"

definition FlushPendingBufferUpdatesForMany :: "(nat set \<Rightarrow> nat list) \<Rightarrow> ptr list \<Rightarrow> d3d11_ctx \<Rightarrow> d3d11_ctx" where
  "FlushPendingBufferUpdatesForMany order buffers c =
     (let targets = set (List.map_filter (\<lambda>b. b) buffers) in
      if targets = {} \<or> pending_buffer_updates c = [] then c
      else if list_all (\<lambda>u. pu_dst u \<notin> targets) (pending_buffer_updates c) then c
      else flush_targets (order targets) (SwitchToBlitEncoder UpdateBlitEncoderActive c))"

definition HasPendingBufferUpdateFor :: "ptr \<Rightarrow> d3d11_ctx \<Rightarrow> bool" where
  "HasPendingBufferUpdateFor p c =
     (case p of None \<Rightarrow> False | Some b \<Rightarrow> list_ex (\<lambda>u. pu_dst u = b) (pending_buffer_updates c))"

subsection \<open>Flushing by a compute pass\<close>

text \<open>The packed copy: the payload pieces are laid out one after another in fresh staging memory, and the
  regions say where each goes.\<close>

fun pack_segments :: "nat \<Rightarrow> u64 \<Rightarrow> pending_update list \<Rightarrow> u64 \<Rightarrow> segment list \<Rightarrow> staging_memory \<Rightarrow> staging_memory \<times> copy_region list" where
  "pack_segments buffer offset us cursor [] stg = (stg, [])"
| "pack_segments buffer offset us cursor (s # ss) stg =
     (let payload = (case pu_payload (us ! update_index s) of Some p \<Rightarrow> p | None \<Rightarrow> []);
          piece = take (unat (sg_length s)) (drop (unat (sg_src_offset s)) payload);
          (stg', regions) = pack_segments buffer offset us (cursor + ucast (sg_length s)) ss
            (updateContents buffer (offset + cursor) piece stg) in
      (stg', \<lparr> rg_src_offset = ucast cursor, rg_dst_offset = sg_dst_offset s, rg_byte_length = sg_length s \<rparr> # regions))"

definition EmitPackedPendingBufferUpdateBatch ::
  "(u64 \<Rightarrow> d3d11_ctx \<Rightarrow> nat \<times> u64) \<Rightarrow> nat \<Rightarrow> batch_info \<Rightarrow> d3d11_ctx \<times> staging_memory \<Rightarrow> d3d11_ctx \<times> staging_memory" where
  "EmitPackedPendingBufferUpdateBatch alloc buffer info = (\<lambda>(c, stg).
     let (packed, offset) = alloc (packed_bytes info) c;
         (stg, regions) = pack_segments packed offset (pending_buffer_updates c) 0 (segments info) stg in
     (RemovePendingBufferUpdatesFor buffer (EmitOP (ComputeCopyRegions packed offset buffer regions (max_region_bytes info)) c), stg))"

definition EmitComputeCopy :: "pending_update \<Rightarrow> d3d11_ctx \<Rightarrow> d3d11_ctx" where
  "EmitComputeCopy u = EmitOP (ComputeCopy (pu_staging u) (pu_staging_offset u) (pu_dst u) (pu_dst_offset u) (pu_length u))"

definition flush_compute_batch ::
  "(u64 \<Rightarrow> d3d11_ctx \<Rightarrow> nat \<times> u64) \<Rightarrow> nat \<Rightarrow> batch_info \<Rightarrow> d3d11_ctx \<times> staging_memory \<Rightarrow> d3d11_ctx \<times> staging_memory" where
  "flush_compute_batch alloc buffer batch = (\<lambda>(c, stg).
     if can_pack_regions batch \<and> bi_count batch > 1 then EmitPackedPendingBufferUpdateBatch alloc buffer batch (c, stg)
     else
       (RemovePendingBufferUpdatesFor buffer
          (fold (\<lambda>u c. if pu_dst u = buffer then EmitComputeCopy u c else c) (pending_buffer_updates c) c), stg))"

definition FlushPendingBufferUpdatesForCompute ::
  "(u64 \<Rightarrow> d3d11_ctx \<Rightarrow> nat \<times> u64) \<Rightarrow> ptr \<Rightarrow> d3d11_ctx \<times> staging_memory \<Rightarrow> d3d11_ctx \<times> staging_memory" where
  "FlushPendingBufferUpdatesForCompute alloc p = (\<lambda>(c, stg).
     case p of
       None \<Rightarrow> (c, stg)
     | Some buffer \<Rightarrow>
         if pending_buffer_updates c = [] then (c, stg)
         else
           let batch = AnalyzePendingBufferUpdateBatch buffer (pending_buffer_updates c) in
           if bi_count batch = 0 then (c, stg)
           else
             let (c, stg) = flush_compute_batch alloc buffer batch (SwitchToComputeEncoder c, stg) in
             (InvalidateComputePipeline c, stg))"

definition flush_compute_front ::
  "(u64 \<Rightarrow> d3d11_ctx \<Rightarrow> nat \<times> u64) \<Rightarrow> d3d11_ctx \<times> staging_memory \<Rightarrow> d3d11_ctx \<times> staging_memory" where
  "flush_compute_front alloc = (\<lambda>(c, stg).
     let buffer = pu_dst (hd (pending_buffer_updates c)) in
     flush_compute_batch alloc buffer (AnalyzePendingBufferUpdateBatch buffer (pending_buffer_updates c)) (c, stg))"

definition FlushAllPendingBufferUpdatesForCompute ::
  "(u64 \<Rightarrow> d3d11_ctx \<Rightarrow> nat \<times> u64) \<Rightarrow> d3d11_ctx \<times> staging_memory \<Rightarrow> (d3d11_ctx \<times> staging_memory) option" where
  "FlushAllPendingBufferUpdatesForCompute alloc = (\<lambda>(c, stg).
     if pending_buffer_updates c = [] then Some (c, stg)
     else
       map_option (\<lambda>(c, stg). (InvalidateComputePipeline c, stg))
         (while_option (\<lambda>(c, stg). pending_buffer_updates c \<noteq> []) (flush_compute_front alloc) (SwitchToComputeEncoder c, stg)))"

end
