(* ===== verification/BindingHazards.thy ===== *)
theory BindingHazards
  imports Bindings PendingUpdates
begin

text \<open>
  No shader reads what an output writes: whatever sequence of \<open>Set\<close> calls runs, no shader resource view of a
  stage overlaps an output bound to the pipeline, as long as the calls stay within what the hazard
  bookkeeping of the context covers. The two limits are real: a slot rebound from a view that cannot conflict to
  one that can keeps its cleared hazard flag, and only the unordered access views in slots up to eight are compared.
\<close>

subsection \<open>What an environment promises\<close>

definition output_flags :: u32 where
  "output_flags = D3D11_BIND_STREAM_OUTPUT OR D3D11_BIND_UNORDERED_ACCESS OR D3D11_BIND_RENDER_TARGET OR
     D3D11_BIND_DEPTH_STENCIL"

text \<open>Views carry the bind flags of their resource, a resource is not both a stream output target and an
  unordered access resource, and the overlap of two views of one resource does not depend on their order.\<close>

definition env_ok :: "d3d11_env \<Rightarrow> bool" where
  "env_ok E \<longleftrightarrow>
     (\<forall>v. vw_flags (views E v) = rs_flags (resources E (vw_resource (views E v)))) \<and>
     (\<forall>r. rs_flags (resources E r) AND D3D11_BIND_UNORDERED_ACCESS = 0 \<or> rs_flags (resources E r) AND D3D11_BIND_STREAM_OUTPUT = 0) \<and>
     (\<forall>a b. vw_resource (views E a) = vw_resource (views E b) \<longrightarrow>
        overlapWith (vw_subset (views E a)) (vw_subset (views E b)) = overlapWith (vw_subset (views E b)) (vw_subset (views E a)))"

lemma overlap_sym: "env_ok E \<Longrightarrow> CheckOverlap E x y \<longleftrightarrow> CheckOverlap E y x"
  by (auto simp: CheckOverlap_def env_ok_def split: option.splits bound_object.splits)

lemma overlap_flags:
  "env_ok E \<Longrightarrow> CheckOverlap E (Some x) (Some y) \<Longrightarrow> object_flags E x = object_flags E y"
  by (auto simp: CheckOverlap_def env_ok_def object_flags_def split: bound_object.splits)

lemma CheckOverlap_None [simp]: "\<not> CheckOverlap E None y" "\<not> CheckOverlap E x None"
  by (auto simp: CheckOverlap_def split: option.splits bound_object.splits)

lemma hazard_free_iff: "view_hazardsFree E v \<longleftrightarrow> object_flags E (AView v) AND output_flags = 0"
  by (simp add: view_hazardsFree_def flags_hazard_free_def object_flags_def output_flags_def)

subsection \<open>Inputs and outputs\<close>

definition srv_of :: "d3d11_ctx \<Rightarrow> pipeline_stage \<Rightarrow> nat \<Rightarrow> ptr" where
  "srv_of c st n = Option.bind (bs_map (SRVs (ShaderStages c st)) n) srv_view"

definition om_outputs :: "d3d11_ctx \<Rightarrow> bound_object set" where
  "om_outputs c =
     {AView v |v. Some v \<in> set (RTVs c)} \<union> {AView v |v. DSV c = Some v} \<union>
     {AView v |v n. Option.bind (bs_map (UAVs c) n) uav_view = Some v} \<union>
     {ABuffer b |b n. Option.bind (bs_map (SOTargets c) n) so_buffer = Some b}"

definition outputs :: "d3d11_ctx \<Rightarrow> pipeline_stage \<Rightarrow> bound_object set" where
  "outputs c st =
     (if st = Compute then {AView v |v n. Option.bind (bs_map (ComputeUAVs c) n) uav_view = Some v} else om_outputs c)"

definition separated :: "d3d11_env \<Rightarrow> pipeline_stage \<Rightarrow> d3d11_ctx \<Rightarrow> bool" where
  "separated E st c \<longleftrightarrow> (\<forall>n v x. srv_of c st n = Some v \<longrightarrow> x \<in> outputs c st \<longrightarrow> \<not> CheckOverlap E (Some (AView v)) (Some x))"

definition legal_outputs :: "d3d11_env \<Rightarrow> d3d11_ctx \<Rightarrow> bool" where
  "legal_outputs E c \<longleftrightarrow>
     (\<forall>v. Some v \<in> set (RTVs c) \<longrightarrow> vw_flags (views E v) AND D3D11_BIND_RENDER_TARGET \<noteq> 0) \<and>
     (\<forall>v. DSV c = Some v \<longrightarrow> vw_flags (views E v) AND D3D11_BIND_DEPTH_STENCIL \<noteq> 0) \<and>
     (\<forall>n v. Option.bind (bs_map (UAVs c) n) uav_view = Some v \<longrightarrow> vw_flags (views E v) AND D3D11_BIND_UNORDERED_ACCESS \<noteq> 0) \<and>
     (\<forall>n v. Option.bind (bs_map (ComputeUAVs c) n) uav_view = Some v \<longrightarrow>
        vw_flags (views E v) AND D3D11_BIND_UNORDERED_ACCESS \<noteq> 0) \<and>
     (\<forall>n b. Option.bind (bs_map (SOTargets c) n) so_buffer = Some b \<longrightarrow>
        rs_flags (resources E b) AND D3D11_BIND_STREAM_OUTPUT \<noteq> 0)"

text \<open>The hazard flag of a slot says whether its view can conflict at all.\<close>

definition srvs_exact :: "d3d11_env \<Rightarrow> d3d11_ctx \<Rightarrow> bool" where
  "srvs_exact E c \<longleftrightarrow>
     (\<forall>st n e. bs_map (SRVs (ShaderStages c st)) n = Some e \<longrightarrow>
        (\<exists>v. srv_view e = Some v \<and> vw_flags (views E v) AND D3D11_BIND_SHADER_RESOURCE \<noteq> 0 \<and>
             (n \<in> bs_hazards (SRVs (ShaderStages c st)) \<longleftrightarrow> \<not> view_hazardsFree E v)))"

definition table_ok :: "nat \<Rightarrow> 'e binding_set \<Rightarrow> bool" where
  "table_ok N t \<longleftrightarrow> bs_ok t \<and> bs_size t = N"

definition tables_ok :: "d3d11_ctx \<Rightarrow> bool" where
  "tables_ok c \<longleftrightarrow> (\<forall>st. table_ok 128 (SRVs (ShaderStages c st))) \<and> table_ok 64 (ComputeUAVs c) \<and> table_ok 64 (UAVs c) \<and>
     table_ok 4 (SOTargets c) \<and> table_ok 16 (VertexBuffers c) \<and> length (RTVs c) = 8"

definition hazard_inv :: "d3d11_env \<Rightarrow> d3d11_ctx \<Rightarrow> bool" where
  "hazard_inv E c \<longleftrightarrow> tables_ok c \<and> srvs_exact E c \<and> legal_outputs E c \<and> (\<forall>st. separated E st c)"

text \<open>The fields the invariant reads.\<close>

definition tables :: "d3d11_ctx \<Rightarrow> _" where
  "tables c = ((\<lambda>st. SRVs (ShaderStages c st)), ComputeUAVs c, UAVs c, SOTargets c, VertexBuffers c, RTVs c, DSV c)"

lemma tables_frame:
  assumes "tables c' = tables c"
  shows "hazard_inv E c' \<longleftrightarrow> hazard_inv E c" "tables_ok c' \<longleftrightarrow> tables_ok c" "srvs_exact E c' \<longleftrightarrow> srvs_exact E c"
    "legal_outputs E c' \<longleftrightarrow> legal_outputs E c" "outputs c' st = outputs c st" "srv_of c' st n = srv_of c st n"
proof -
  have s: "SRVs (ShaderStages c' st) = SRVs (ShaderStages c st)" for st
    using assms by (auto simp: tables_def dest: fun_cong [where x = st])
  have o: "ComputeUAVs c' = ComputeUAVs c" "UAVs c' = UAVs c" "SOTargets c' = SOTargets c" "VertexBuffers c' = VertexBuffers c"
    "RTVs c' = RTVs c" "DSV c' = DSV c"
    using assms by (simp_all add: tables_def)
  show tok: "tables_ok c' \<longleftrightarrow> tables_ok c" by (simp add: tables_ok_def s o)
  show ex: "srvs_exact E c' \<longleftrightarrow> srvs_exact E c" by (simp add: srvs_exact_def s)
  show lg: "legal_outputs E c' \<longleftrightarrow> legal_outputs E c" by (simp add: legal_outputs_def o)
  have out: "outputs c' st = outputs c st" for st by (simp add: outputs_def om_outputs_def o)
  have srv: "srv_of c' st n = srv_of c st n" for st n by (simp add: srv_of_def s)
  show "hazard_inv E c' \<longleftrightarrow> hazard_inv E c" by (simp add: hazard_inv_def tok ex lg separated_def out srv)
  show "outputs c' st = outputs c st" by (rule out)
  show "srv_of c' st n = srv_of c st n" by (rule srv)
qed

lemma emit_fields [simp]:
  "ShaderStages (EmitST x c) = ShaderStages c" "ComputeUAVs (EmitST x c) = ComputeUAVs c" "UAVs (EmitST x c) = UAVs c"
  "SOTargets (EmitST x c) = SOTargets c" "VertexBuffers (EmitST x c) = VertexBuffers c" "RTVs (EmitST x c) = RTVs c"
  "DSV (EmitST x c) = DSV c" "NumRTVs (EmitST x c) = NumRTVs c" "cmds (EmitST x c) = cmds c @ [x]"
  "IndexBuffer (EmitST x c) = IndexBuffer c" "MinUAVBinding (EmitST x c) = MinUAVBinding c"
  "MaxUAVBinding (EmitST x c) = MaxUAVBinding c" "pending_buffer_updates (EmitST x c) = pending_buffer_updates c"
  by (simp_all add: EmitST_def)

lemma fold_emit: "fold (\<lambda>n. EmitST (f n)) ns c = c \<lparr> cmds := cmds c @ map f ns \<rparr>"
  by (induction ns arbitrary: c) (simp_all add: EmitST_def)

lemma tables_emit [simp]: "tables (EmitST x c) = tables c"
  by (simp add: tables_def)

lemma tables_cmds [simp]: "tables (c \<lparr> cmds := x \<rparr>) = tables c"
  by (simp add: tables_def)

lemma tables_pass [simp]:
  "tables (fst (InvalidateCurrentPass d c)) = tables c" "tables (InvalidateRenderPipeline c) = tables c"
  "tables (InvalidateComputePipeline c) = tables c"
  by (simp_all add: tables_def InvalidateCurrentPass_def InvalidateRenderPipeline_def InvalidateComputePipeline_def Commit_def
      EmitST_def Let_def)

subsection \<open>Entries\<close>

lemma update_entry_ok:
  assumes "bs_ok t" "n < bs_size t"
  shows "bs_ok (update_entry t n f)" "bs_size (update_entry t n f) = bs_size t"
    "bs_map (update_entry t n f) = (bs_map t)(n := map_option f (bs_map t n))"
    "bs_hazards (update_entry t n f) = bs_hazards t"
  using assms by (auto simp: update_entry_def bs_defs fun_eq_iff)

lemma table_update_entry: "table_ok N t \<Longrightarrow> n < N \<Longrightarrow> table_ok N (update_entry t n f)"
  by (simp add: table_ok_def update_entry_ok)

lemma set_uav_slot_effect:
  assumes "table_ok N t" "n < N" "set_uav_slot E st p ic n t c = (t', c', r)"
  shows "table_ok N t'" "tables c' = tables c" "NumRTVs c' = NumRTVs c"
    "bs_map t' = (if r then (bs_map t)(n \<mapsto> \<lparr> uav_raw = Some p, uav_view = Some p \<rparr>) else bs_map t)"
proof -
  obtain t1 r1 where b: "bind_slot (is_redundant uav_raw) t n (uav_init (Some p)) True = (t1, r1)" by force
  have n: "n < bs_size t" using assms by (simp add: table_ok_def)
  note B = bind_refines [OF _ n b] and U = update_entry_ok [of t1 n]
  have ok: "bs_ok t" "bs_size t = N" using assms(1) by (simp_all add: table_ok_def)
  have r: "r = r1" "t' = (if r1 then update_entry t1 n (\<lambda>e. e \<lparr> uav_view := Some p \<rparr>) else t1)"
    "c' = (if r1 then EmitST (bind_output E st n p) else id) (if ic \<noteq> - 1 then UpdateUAVCounter E p ic c else c)"
    using assms(3) b by (auto simp: set_uav_slot_def Let_def split: if_splits)
  show "table_ok N t'" unfolding table_ok_def r using B(1,2) U(1,2) ok n by simp
  show "tables c' = tables c" "NumRTVs c' = NumRTVs c" unfolding r by (simp_all add: UpdateUAVCounter_def)
  show "bs_map t' = (if r then (bs_map t)(n \<mapsto> \<lparr> uav_raw = Some p, uav_view = Some p \<rparr>) else bs_map t)"
    unfolding r using B(1,2,3) U(3) ok n by (simp add: uav_init_def)
qed

subsection \<open>Resolving\<close>

definition conflicts_with :: "d3d11_env \<Rightarrow> bound_object \<Rightarrow> nat \<Rightarrow> bool" where
  "conflicts_with E x v = CheckOverlap E (Some (AView v)) (Some x)"

text \<open>An output displaces exactly the views of the stage that overlap it.\<close>

lemma resolve_srv_effect:
  fixes st st' :: pipeline_stage
  assumes E: "env_ok E" and ok: "tables_ok c" "srvs_exact E c" and x: "object_flags E x AND output_flags \<noteq> 0"
  defines "c' \<equiv> fst (ResolveSRVHazard E st x c)"
  shows "srv_of c' st' n = (case srv_of c st' n of
           Some v \<Rightarrow> if st' = st \<and> conflicts_with E x v then None else Some v | None \<Rightarrow> None)"
    and "outputs c' st' = outputs c st'" "tables_ok c'" "srvs_exact E c'" "legal_outputs E c' \<longleftrightarrow> legal_outputs E c"
    and "NumRTVs c' = NumRTVs c" "RTVs c' = RTVs c"
proof -
  let ?t = "SRVs (ShaderStages c st)"
  let ?conf = "\<lambda>e. CheckOverlap E (map_option AView (srv_view e)) (Some x)"
  have "table_ok 128 ?t" using ok(1) by (simp add: tables_ok_def)
  then have tok: "bs_ok ?t" "bs_size ?t = 128" by (simp_all add: table_ok_def)
  have entry: "\<exists>v. srv_view e = Some v \<and> vw_flags (views E v) AND D3D11_BIND_SHADER_RESOURCE \<noteq> 0 \<and>
      (m \<in> bs_hazards (SRVs (ShaderStages c s)) \<longleftrightarrow> \<not> view_hazardsFree E v)"
    if "bs_map (SRVs (ShaderStages c s)) m = Some e" for s m e
    using ok(2) that unfolding srvs_exact_def by blast
  have flags: "object_flags E (AView v) = object_flags E x" if "conflicts_with E x v" for v
    using overlap_flags [OF E] that by (simp add: conflicts_with_def)
  have both: "vw_flags (views E v) = object_flags E x \<and> \<not> view_hazardsFree E v" if "conflicts_with E x v" for v
    using flags [OF that] x by (simp add: hazard_free_iff) (simp add: object_flags_def)
  have "srv_of c' st' n = (case srv_of c st' n of Some v \<Rightarrow> if st' = st \<and> conflicts_with E x v then None else Some v | None \<Rightarrow> None) \<and>
      outputs c' st' = outputs c st' \<and> tables_ok c' \<and> srvs_exact E c' \<and> (legal_outputs E c' \<longleftrightarrow> legal_outputs E c) \<and>
      NumRTVs c' = NumRTVs c \<and> RTVs c' = RTVs c" for st' n
  proof (cases "object_flags E x AND D3D11_BIND_SHADER_RESOURCE = 0")
    case True
    then have "\<not> conflicts_with E x v" if "srv_of c s m = Some v" for s m v
      using entry both that by (force simp: srv_of_def bind_eq_Some_conv)
    moreover have "c' = c" using True by (simp add: c'_def ResolveSRVHazard_def)
    ultimately show ?thesis using ok by (auto split: option.splits)
  next
    case False
    obtain t slots hz where res: "resolve_slots ?conf (srv_init None) ?t = (t, slots, hz)" by (cases "resolve_slots ?conf (srv_init None) ?t") auto
    note R = resolve_slots_spec [OF tok(1) res]
    have conf: "conflicting ?conf ?t m \<longleftrightarrow> (\<exists>v. srv_of c st m = Some v \<and> conflicts_with E x v)" for m
    proof (cases "bs_map ?t m")
      case None
      then show ?thesis by (simp add: conflicting_def srv_of_def)
    next
      case (Some e)
      then show ?thesis using entry [OF Some] both by (auto simp: conflicting_def srv_of_def conflicts_with_def)
    qed
    have c': "c' = update_stage st (\<lambda>s. s \<lparr> SRVs := t \<rparr>) c \<lparr> cmds := cmds c @ map (\<lambda>n. BindBuffer st n None 0 slice_init) slots \<rparr>"
      using False res by (simp add: c'_def ResolveSRVHazard_def fold_emit update_stage_def)
    have maps: "bs_map (SRVs (ShaderStages c' s)) m =
        (if s = st \<and> (\<exists>v. srv_of c st m = Some v \<and> conflicts_with E x v) then None else bs_map (SRVs (ShaderStages c s)) m)" for s m
      using R(3) conf by (auto simp: c' update_stage_def)
    have hz: "m \<in> bs_hazards (SRVs (ShaderStages c' s)) \<longleftrightarrow> m \<in> bs_hazards (SRVs (ShaderStages c s))"
      if "bs_map (SRVs (ShaderStages c' s)) m \<noteq> None" for s m
      using that maps [of s m] R(4) conf by (auto simp: c' update_stage_def split: if_splits)
    have "srvs_exact E c'" unfolding srvs_exact_def
    proof (intro allI impI)
      fix s m e assume a: "bs_map (SRVs (ShaderStages c' s)) m = Some e"
      then have "bs_map (SRVs (ShaderStages c s)) m = Some e" using maps [of s m] by (simp split: if_splits)
      then show "\<exists>v. srv_view e = Some v \<and> vw_flags (views E v) AND D3D11_BIND_SHADER_RESOURCE \<noteq> 0 \<and>
          (m \<in> bs_hazards (SRVs (ShaderStages c' s)) \<longleftrightarrow> \<not> view_hazardsFree E v)"
        using entry hz [of s m] a by blast
    qed
    moreover have "tables_ok c'" using ok(1) R(1,2) tok(2) by (simp add: tables_ok_def table_ok_def c' update_stage_def)
    moreover have "outputs c' st' = outputs c st'" "legal_outputs E c' \<longleftrightarrow> legal_outputs E c" "NumRTVs c' = NumRTVs c" "RTVs c' = RTVs c"
      by (simp_all add: outputs_def om_outputs_def legal_outputs_def c' update_stage_def)
    moreover have "srv_of c' st' n = (case srv_of c st' n of Some v \<Rightarrow> if st' = st \<and> conflicts_with E x v then None else Some v | None \<Rightarrow> None)"
      using maps [of st' n] by (auto simp: srv_of_def split: option.splits)
    ultimately show ?thesis by blast
  qed
  then show "srv_of c' st' n = (case srv_of c st' n of
           Some v \<Rightarrow> if st' = st \<and> conflicts_with E x v then None else Some v | None \<Rightarrow> None)"
    and "outputs c' st' = outputs c st'" "tables_ok c'" "srvs_exact E c'" "legal_outputs E c' \<longleftrightarrow> legal_outputs E c"
    and "NumRTVs c' = NumRTVs c" "RTVs c' = RTVs c" by blast+
qed

text \<open>A new output of the graphics pipeline: resolved in the five stages it leaves the invariant intact.\<close>

definition displaced :: "d3d11_env \<Rightarrow> pipeline_stage set \<Rightarrow> bound_object \<Rightarrow> pipeline_stage \<Rightarrow> ptr \<Rightarrow> ptr" where
  "displaced E S x st p = (case p of Some v \<Rightarrow> if st \<in> S \<and> conflicts_with E x v then None else Some v | None \<Rightarrow> None)"

lemma om_resolve_effect:
  assumes E: "env_ok E" and ok: "tables_ok c" "srvs_exact E c" and x: "object_flags E x AND output_flags \<noteq> 0"
  defines "c' \<equiv> OMResolveSRVHazard E x c"
  shows "srv_of c' st n = displaced E (UNIV - {Compute}) x st (srv_of c st n)"
    and "outputs c' st = outputs c st" "tables_ok c'" "srvs_exact E c'" "legal_outputs E c' \<longleftrightarrow> legal_outputs E c"
    and "NumRTVs c' = NumRTVs c" "RTVs c' = RTVs c"
proof -
  have gen: "(\<forall>st n. srv_of d st n = displaced E (set sts) x st (srv_of c st n)) \<and> (\<forall>st. outputs d st = outputs c st) \<and>
      tables_ok d \<and> srvs_exact E d \<and> (legal_outputs E d \<longleftrightarrow> legal_outputs E c) \<and> NumRTVs d = NumRTVs c \<and> RTVs d = RTVs c"
    if "d = fold (\<lambda>st c. fst (ResolveSRVHazard E st x c)) sts c" for d sts
    using that
  proof (induction sts arbitrary: d rule: rev_induct)
    case Nil
    then show ?case using ok by (auto simp: displaced_def split: option.splits)
  next
    case (snoc s sts)
    define c0 where "c0 = fold (\<lambda>st c. fst (ResolveSRVHazard E st x c)) sts c"
    have IH: "\<forall>st n. srv_of c0 st n = displaced E (set sts) x st (srv_of c st n)" "\<forall>st. outputs c0 st = outputs c st"
      "tables_ok c0" "srvs_exact E c0" "legal_outputs E c0 \<longleftrightarrow> legal_outputs E c" "NumRTVs c0 = NumRTVs c" "RTVs c0 = RTVs c"
      using snoc.IH [OF c0_def] by blast+
    have d: "d = fst (ResolveSRVHazard E s x c0)" using snoc.prems by (simp add: c0_def)
    note R = resolve_srv_effect [OF E IH(3,4) x, of s, folded d]
    show ?case using R IH(1,2,5,6,7) by (auto simp: displaced_def split: option.splits)
  qed
  have "set [Vertex, Domain, Hull, Geometry, Pixel] = UNIV - {Compute}"
    using pipeline_stage.exhaust by auto
  then show "srv_of c' st n = displaced E (UNIV - {Compute}) x st (srv_of c st n)"
    and "outputs c' st = outputs c st" "tables_ok c'" "srvs_exact E c'" "legal_outputs E c' \<longleftrightarrow> legal_outputs E c"
    and "NumRTVs c' = NumRTVs c" "RTVs c' = RTVs c"
    using gen [OF meta_eq_to_obj_eq [OF c'_def [unfolded OMResolveSRVHazard_def]]] by simp_all
qed

lemma add_om_output:
  assumes E: "env_ok E" and inv: "hazard_inv E c0" and x: "object_flags E x AND output_flags \<noteq> 0"
    and c: "tables_ok c" "ShaderStages c = ShaderStages c0" "legal_outputs E c" "om_outputs c \<subseteq> insert x (om_outputs c0)"
      "ComputeUAVs c = ComputeUAVs c0"
  shows "hazard_inv E (OMResolveSRVHazard E x c)"
proof -
  have ok: "srvs_exact E c" using inv c(2) by (simp add: hazard_inv_def srvs_exact_def)
  note R = om_resolve_effect [OF E c(1) ok x]
  have srv: "srv_of c st n = srv_of c0 st n" for st n by (simp add: srv_of_def c(2))
  have "separated E st (OMResolveSRVHazard E x c)" for st
    unfolding separated_def
  proof (intro allI impI)
    fix n v y assume a: "srv_of (OMResolveSRVHazard E x c) st n = Some v" "y \<in> outputs (OMResolveSRVHazard E x c) st"
    have old: "srv_of c0 st n = Some v" and nx: "st \<noteq> Compute \<longrightarrow> \<not> conflicts_with E x v"
      using a(1) R(1) srv by (auto simp: displaced_def split: option.splits if_splits)
    have "y \<in> outputs c0 st \<or> y = x \<and> st \<noteq> Compute"
      using a(2) R(2) c(4,5) by (auto simp: outputs_def split: if_splits)
    then show "\<not> CheckOverlap E (Some (AView v)) (Some y)"
    proof
      assume "y \<in> outputs c0 st"
      then show ?thesis using inv old unfolding hazard_inv_def separated_def by blast
    next
      assume "y = x \<and> st \<noteq> Compute"
      then show ?thesis using nx by (simp add: conflicts_with_def)
    qed
  qed
  then show ?thesis using R(3-5) c(3) by (simp add: hazard_inv_def)
qed

text \<open>Fewer outputs cannot hurt.\<close>

lemma fewer_outputs:
  assumes inv: "hazard_inv E c0" and "tables_ok c" "ShaderStages c = ShaderStages c0" "legal_outputs E c"
    "\<And>st. outputs c st \<subseteq> outputs c0 st"
  shows "hazard_inv E c"
proof -
  have "srv_of c = srv_of c0" by (simp add: srv_of_def assms(3) fun_eq_iff)
  then have "separated E st c" for st
    using inv assms(5) [of st] unfolding hazard_inv_def separated_def by auto
  moreover have "srvs_exact E c" using inv by (simp add: hazard_inv_def srvs_exact_def assms(3))
  ultimately show ?thesis using assms(2,4) by (simp add: hazard_inv_def)
qed

subsection \<open>Loops and entries of the other tables\<close>

lemma each_slot_inv:
  assumes "each_slot f ns s = Some s'" "P ns s" "\<And>n ns s s'. P (n # ns) s \<Longrightarrow> f n s = Some s' \<Longrightarrow> P ns s'"
  shows "P [] s'"
  using assms(1,2)
proof (induction ns arbitrary: s)
  case Nil
  then show ?case by simp
next
  case (Cons n ns)
  from Cons.prems(1) obtain s1 where s1: "f n s = Some s1" "each_slot f ns s1 = Some s'" by (auto simp: bind_eq_Some_conv)
  show ?case by (rule Cons.IH [OF s1(2) assms(3) [OF Cons.prems(2) s1(1)]])
qed

lemma table_bind:
  assumes "table_ok N t" "n < N" "bind_slot red t n e h = (t', r)"
  shows "table_ok N t'" "bs_map t' = (if r then (bs_map t)(n \<mapsto> e) else bs_map t)"
    "bs_hazards t' = (if bs_map t n = None then (if h then insert n (bs_hazards t) else bs_hazards t - {n}) else bs_hazards t)"
    "r \<longleftrightarrow> (case bs_map t n of None \<Rightarrow> True | Some x \<Rightarrow> \<not> red x e)"
  using bind_refines [OF _ _ assms(3)] assms(1,2) by (simp_all add: table_ok_def)

lemma table_unbind:
  assumes "table_ok N t" "n < N" "unbind_slot z t n = (t', r)"
  shows "table_ok N t'" "bs_map t' = (bs_map t)(n := None)" "bs_hazards t' = bs_hazards t - {n}" "r \<longleftrightarrow> bs_map t n \<noteq> None"
  using unbind_refines [OF _ _ assms(3)] assms(1,2) by (simp_all add: table_ok_def)

lemma table_resolve:
  assumes "table_ok N t" "resolve_slots conflict z t = (t', slots, h)"
  shows "table_ok N t'" "bs_map t' = (\<lambda>n. if conflicting conflict t n then None else bs_map t n)"
    "bs_hazards t' = bs_hazards t - {n. conflicting conflict t n}"
  using resolve_slots_spec [OF _ assms(2)] assms(1) by (simp_all add: table_ok_def)

lemma table_map_update: "table_ok N t \<Longrightarrow> n < N \<Longrightarrow> bs_map (update_entry t n f) = (bs_map t)(n := map_option f (bs_map t n))"
  by (simp add: table_ok_def update_entry_ok)

lemma table_set_dirty_slot: "table_ok N t \<Longrightarrow> n < N \<Longrightarrow> table_ok N (set_dirty_slot t n)"
  "bs_map (set_dirty_slot t n) = bs_map t"
  by (auto simp: table_ok_def bs_defs set_dirty_slot_def bits_set_ok fun_eq_iff)

lemma unbind_uav_effect:
  assumes "unbind_slot (uav_init None) t n = (t', u)" "table_ok 64 t" "n < 64"
  shows "table_ok 64 t'" "Option.bind (bs_map t' m) uav_view = Some v \<Longrightarrow> Option.bind (bs_map t m) uav_view = Some v"
  using table_unbind [OF assms(2,3,1)] by (auto split: if_splits)

subsection \<open>Operations that only remove outputs or touch the input assembler\<close>

lemma resolve_ia_inv:
  assumes "hazard_inv E c"
  shows "hazard_inv E (fst (ResolveIAHazard E x c))" "NumRTVs (fst (ResolveIAHazard E x c)) = NumRTVs c"
    "RTVs (fst (ResolveIAHazard E x c)) = RTVs c"
proof -
  define d where "d = fst (ResolveIAHazard E x c)"
  have "table_ok 16 (VertexBuffers c)" using assms by (simp add: hazard_inv_def tables_ok_def)
  then have same: "ShaderStages d = ShaderStages c" "ComputeUAVs d = ComputeUAVs c" "UAVs d = UAVs c" "SOTargets d = SOTargets c"
    "RTVs d = RTVs c" "DSV d = DSV c" "NumRTVs d = NumRTVs c" "table_ok 16 (VertexBuffers d)"
    by (auto simp: d_def ResolveIAHazard_def Let_def fold_emit table_resolve(1) split: prod.splits)
  have "tables_ok d" using assms same by (simp add: hazard_inv_def tables_ok_def)
  moreover have "legal_outputs E d" using assms same by (simp add: hazard_inv_def legal_outputs_def)
  moreover have "outputs d st = outputs c st" for st using same by (simp add: outputs_def om_outputs_def)
  ultimately show "hazard_inv E (fst (ResolveIAHazard E x c))"
    using fewer_outputs [OF assms, of d] same(1) by (simp add: d_def)
  show "NumRTVs (fst (ResolveIAHazard E x c)) = NumRTVs c" "RTVs (fst (ResolveIAHazard E x c)) = RTVs c"
    using same by (simp_all add: d_def)
qed

lemma clear_rtv_inv:
  assumes "hazard_inv E c" "n < 8"
  shows "hazard_inv E (c \<lparr> RTVs := (RTVs c)[n := None] \<rparr>)"
proof (rule fewer_outputs [OF assms(1)])
  have sub: "Some v \<in> set ((RTVs c)[n := None]) \<Longrightarrow> Some v \<in> set (RTVs c)" for v
    using set_update_subset_insert [of "RTVs c" n None] by auto
  show "tables_ok (c \<lparr> RTVs := (RTVs c)[n := None] \<rparr>)" using assms(1) by (simp add: hazard_inv_def tables_ok_def)
  show "legal_outputs E (c \<lparr> RTVs := (RTVs c)[n := None] \<rparr>)"
    using assms(1) sub by (simp add: hazard_inv_def legal_outputs_def)
  show "outputs (c \<lparr> RTVs := (RTVs c)[n := None] \<rparr>) st \<subseteq> outputs c st" for st
    using sub by (auto simp: outputs_def om_outputs_def)
qed simp

lemma resolve_rtv_inv:
  assumes "OMResolveRTVHazard E p c = Some (c', h)" "hazard_inv E c"
  shows "hazard_inv E c' \<and> NumRTVs c' = NumRTVs c \<and> (\<forall>i. RTVs c ! i = None \<longrightarrow> RTVs c' ! i = None)"
proof (cases "case p of None \<Rightarrow> True | Some v \<Rightarrow> vw_flags (views E v) AND D3D11_BIND_RENDER_TARGET = 0")
  case True
  then show ?thesis using assms by (auto simp: OMResolveRTVHazard_def split: option.splits if_splits)
next
  case False
  then obtain v where v: "p = Some v" by (auto split: option.splits)
  have run: "each_slot (OMResolveRTVHazard_slot E v) [0..<unat (NumRTVs c)] (c, False) = Some (c', h)"
    using assms(1) False v by (simp add: OMResolveRTVHazard_def)
  define P where "P = (\<lambda>(ns :: nat list) (d, h :: bool).
      hazard_inv E d \<and> NumRTVs d = NumRTVs c \<and> (\<forall>i. RTVs c ! i = None \<longrightarrow> RTVs d ! i = None) \<and> length (RTVs d) = 8)"
  have len: "length (RTVs c) = 8" using assms(2) by (simp add: hazard_inv_def tables_ok_def)
  have "P [] (c', h)"
  proof (rule each_slot_inv [OF run])
    show "P [0..<unat (NumRTVs c)] (c, False)" using assms(2) len by (simp add: P_def)
    fix n ns s s' assume a: "P (n # ns) s" "OMResolveRTVHazard_slot E v n s = Some s'"
    obtain d g d' g' where s: "s = (d, g)" "s' = (d', g')" by (cases s; cases s') auto
    have n: "n < 8" using a(2) by (auto simp: s OMResolveRTVHazard_slot_def rtv_at_def split: if_splits)
    have "d' = d \<or> d' = d \<lparr> RTVs := (RTVs d)[n := None] \<rparr>"
      using a(2) by (auto simp: s OMResolveRTVHazard_slot_def rtv_at_def split: if_splits)
    then show "P ns s'"
      using a(1) clear_rtv_inv [of E d n] n by (auto simp: P_def s nth_list_update)
  qed
  then show ?thesis by (simp add: P_def)
qed

subsection \<open>The output merger\<close>

text \<open>The views a call is given have the bind flag of the slot they go to.\<close>

definition legal_args :: "d3d11_env \<Rightarrow> u32 \<Rightarrow> (nat \<Rightarrow> ptr) \<Rightarrow> bool" where
  "legal_args E flag pp \<longleftrightarrow> (\<forall>i v. pp i = Some v \<longrightarrow> vw_flags (views E v) AND flag \<noteq> 0)"

lemma output_flag_nonzero:
  "w AND D3D11_BIND_RENDER_TARGET \<noteq> 0 \<Longrightarrow> w AND output_flags \<noteq> 0" "w AND D3D11_BIND_DEPTH_STENCIL \<noteq> 0 \<Longrightarrow> w AND output_flags \<noteq> 0"
  "w AND D3D11_BIND_UNORDERED_ACCESS \<noteq> 0 \<Longrightarrow> w AND output_flags \<noteq> 0" "w AND D3D11_BIND_STREAM_OUTPUT \<noteq> 0 \<Longrightarrow> w AND output_flags \<noteq> 0"
  unfolding output_flags_def and_eq_0_iff_bits by (auto simp: bit_or_iff)

lemma set_rtv_slot_inv:
  assumes E: "env_ok E" and inv: "hazard_inv E c" and n: "n < 8"
    and legal: "case rtv of Some v \<Rightarrow> vw_flags (views E v) AND D3D11_BIND_RENDER_TARGET \<noteq> 0 | None \<Rightarrow> True"
    and run: "set_rtv_slot E rtv n (c, i) = (c', i')"
  shows "hazard_inv E c'" "RTVs c' = (RTVs c)[n := rtv]" "NumRTVs c' = NumRTVs c"
proof -
  have "hazard_inv E c' \<and> RTVs c' = (RTVs c)[n := rtv] \<and> NumRTVs c' = NumRTVs c"
  proof (cases rtv)
    case None
    then have c': "c' = c \<lparr> RTVs := (RTVs c)[n := None] \<rparr>" using run by (simp add: set_rtv_slot_def)
    show ?thesis unfolding c' using clear_rtv_inv [OF inv n] None by simp
  next
    case (Some p)
    show ?thesis
    proof (cases "RTVs c ! n = Some p")
      case True
      then have "c' = c" using run Some by (simp add: set_rtv_slot_def)
      then show ?thesis using inv Some True list_update_id [of "RTVs c" n] by simp
    next
      case False
      let ?d = "c \<lparr> RTVs := (RTVs c)[n := Some p] \<rparr>"
      have c': "c' = OMResolveSRVHazard E (AView p) ?d" using run Some False by (simp add: set_rtv_slot_def)
      have x: "object_flags E (AView p) AND output_flags \<noteq> 0"
        using legal Some output_flag_nonzero(1) by (simp add: object_flags_def)
      have mem: "Some v \<in> set ((RTVs c)[n := Some p]) \<Longrightarrow> v = p \<or> Some v \<in> set (RTVs c)" for v
        using set_update_subset_insert [of "RTVs c" n "Some p"] by auto
      have ok: "tables_ok ?d" using inv by (simp add: hazard_inv_def tables_ok_def)
      have lg: "legal_outputs E ?d" using inv mem legal Some by (fastforce simp: hazard_inv_def legal_outputs_def)
      have "hazard_inv E c'" unfolding c'
        by (rule add_om_output [OF E inv x ok _ lg]) (auto simp: om_outputs_def dest!: mem)
      moreover have "srvs_exact E ?d" using inv by (simp add: hazard_inv_def srvs_exact_def)
      ultimately show ?thesis using om_resolve_effect(6,7) [OF E ok _ x] Some unfolding c' by simp
    qed
  qed
  then show "hazard_inv E c'" "RTVs c' = (RTVs c)[n := rtv]" "NumRTVs c' = NumRTVs c" by blast+
qed

lemma set_dsv_inv:
  assumes E: "env_ok E" and inv: "hazard_inv E c"
    and legal: "case dsv of Some v \<Rightarrow> vw_flags (views E v) AND D3D11_BIND_DEPTH_STENCIL \<noteq> 0 | None \<Rightarrow> True"
    and run: "set_dsv E dsv (c, i) = (c', i')"
  shows "hazard_inv E c'" "RTVs c' = RTVs c" "NumRTVs c' = NumRTVs c"
proof -
  have "hazard_inv E c' \<and> RTVs c' = RTVs c \<and> NumRTVs c' = NumRTVs c"
  proof (cases dsv)
    case None
    have "hazard_inv E (c \<lparr> DSV := None \<rparr>)"
      by (rule fewer_outputs [OF inv]) (use inv in \<open>auto simp: hazard_inv_def tables_ok_def legal_outputs_def outputs_def om_outputs_def\<close>)
    moreover have "c' = c \<lparr> DSV := None \<rparr>" using run None by (simp add: set_dsv_def)
    ultimately show ?thesis by simp
  next
    case (Some p)
    show ?thesis
    proof (cases "DSV c = Some p")
      case True
      then show ?thesis using run inv Some by (simp add: set_dsv_def)
    next
      case False
      let ?d = "c \<lparr> DSV := Some p \<rparr>"
      have c': "c' = OMResolveSRVHazard E (AView p) ?d" using run Some False by (simp add: set_dsv_def)
      have x: "object_flags E (AView p) AND output_flags \<noteq> 0"
        using legal Some output_flag_nonzero(2) by (simp add: object_flags_def)
      have ok: "tables_ok ?d" using inv by (simp add: hazard_inv_def tables_ok_def)
      have lg: "legal_outputs E ?d" using inv legal Some by (simp add: hazard_inv_def legal_outputs_def)
      have "hazard_inv E c'" unfolding c'
        by (rule add_om_output [OF E inv x ok _ lg]) (auto simp: om_outputs_def)
      moreover have "srvs_exact E ?d" using inv by (simp add: hazard_inv_def srvs_exact_def)
      ultimately show ?thesis using om_resolve_effect(6,7) [OF E ok _ x] unfolding c' by simp
    qed
  qed
  then show "hazard_inv E c'" "RTVs c' = RTVs c" "NumRTVs c' = NumRTVs c" by blast+
qed

text \<open>Slots past the count are empty.\<close>

definition rtv_tail :: "d3d11_ctx \<Rightarrow> bool" where
  "rtv_tail c \<longleftrightarrow> (\<forall>i < 8. unat (NumRTVs c) \<le> i \<longrightarrow> RTVs c ! i = None)"

lemma set_targets_inv:
  assumes E: "env_ok E" and inv: "hazard_inv E c"
    and legal: "legal_args E D3D11_BIND_RENDER_TARGET pp" "case dsv of Some v \<Rightarrow> vw_flags (views E v) AND D3D11_BIND_DEPTH_STENCIL \<noteq> 0 | None \<Rightarrow> True"
    and run: "OMSetRenderTargets_part E num pp dsv c = (c', i')"
  shows "hazard_inv E c'" "rtv_tail c'"
proof -
  let ?rtv = "\<lambda>i. if i < unat num then pp i else None"
  have gen: "hazard_inv E d \<and> (\<forall>i < k. RTVs d ! i = ?rtv i)"
    if "fold (\<lambda>i. set_rtv_slot E (?rtv i) i) [0..<k] (c, False) = (d, j)" "k \<le> 8" for d j k
    using that
  proof (induction k arbitrary: d j)
    case 0
    then show ?case using inv by simp
  next
    case (Suc k)
    obtain d0 j0 where d0: "fold (\<lambda>i. set_rtv_slot E (?rtv i) i) [0..<k] (c, False) = (d0, j0)" by (rule prod.exhaust)
    have IH: "hazard_inv E d0" "\<forall>i < k. RTVs d0 ! i = ?rtv i" using Suc.IH [OF d0] Suc.prems(2) by simp_all
    have "set_rtv_slot E (?rtv k) k (d0, j0) = (d, j)" using Suc.prems(1) by (simp only: upt_Suc fold_append d0 o_apply) (simp add: d0)
    note S = set_rtv_slot_inv [OF E IH(1) _ _ this]
    have "case ?rtv k of Some v \<Rightarrow> vw_flags (views E v) AND D3D11_BIND_RENDER_TARGET \<noteq> 0 | None \<Rightarrow> True"
      using legal(1) by (auto simp: legal_args_def split: option.splits)
    moreover have "length (RTVs d0) = 8" using IH(1) by (simp add: hazard_inv_def tables_ok_def)
    ultimately show ?case using S IH(2) Suc.prems(2) by (auto simp: nth_list_update less_Suc_eq)
  qed
  obtain d j where d: "fold (\<lambda>i. set_rtv_slot E (?rtv i) i) [0..<8] (c, False) = (d, j)" by (rule prod.exhaust)
  have dinv: "hazard_inv E d" "\<forall>i < 8. RTVs d ! i = ?rtv i" using gen [OF d] by simp_all
  have inv2: "hazard_inv E (d \<lparr> NumRTVs := num \<rparr>)"
    using dinv(1) tables_frame(1) [of "d \<lparr> NumRTVs := num \<rparr>" d] by (simp add: tables_def)
  have run2: "set_dsv E dsv (d \<lparr> NumRTVs := num \<rparr>, j) = (c', i')"
    using run unfolding OMSetRenderTargets_part_def d by simp
  note D = set_dsv_inv [OF E inv2 legal(2) run2]
  show "hazard_inv E c'" by (rule D(1))
  show "rtv_tail c'" using D(2,3) dinv(2) by (simp add: rtv_tail_def)
qed

lemma unbind_uav_inv:
  assumes inv: "hazard_inv E c" and n: "n < 64"
  shows "unbind_slot (uav_init None) (UAVs c) n = (t, u) \<Longrightarrow> hazard_inv E (c \<lparr> UAVs := t \<rparr>)"
    and "unbind_slot (uav_init None) (ComputeUAVs c) n = (t, u) \<Longrightarrow> hazard_inv E (c \<lparr> ComputeUAVs := t \<rparr>)"
proof -
  have ok: "table_ok 64 (UAVs c)" "table_ok 64 (ComputeUAVs c)" using inv by (simp_all add: hazard_inv_def tables_ok_def)
  show "hazard_inv E (c \<lparr> UAVs := t \<rparr>)" if "unbind_slot (uav_init None) (UAVs c) n = (t, u)"
  proof (rule fewer_outputs [OF inv])
    note U = unbind_uav_effect [OF that ok(1) n]
    show "tables_ok (c \<lparr> UAVs := t \<rparr>)" using inv U(1) by (simp add: hazard_inv_def tables_ok_def)
    show "legal_outputs E (c \<lparr> UAVs := t \<rparr>)" using inv by (auto simp: hazard_inv_def legal_outputs_def dest: U(2))
    show "outputs (c \<lparr> UAVs := t \<rparr>) st \<subseteq> outputs c st" for st by (auto simp: outputs_def om_outputs_def dest: U(2))
  qed simp
  show "hazard_inv E (c \<lparr> ComputeUAVs := t \<rparr>)" if "unbind_slot (uav_init None) (ComputeUAVs c) n = (t, u)"
  proof (rule fewer_outputs [OF inv])
    note U = unbind_uav_effect [OF that ok(2) n]
    show "tables_ok (c \<lparr> ComputeUAVs := t \<rparr>)" using inv U(1) by (simp add: hazard_inv_def tables_ok_def)
    show "legal_outputs E (c \<lparr> ComputeUAVs := t \<rparr>)" using inv by (auto simp: hazard_inv_def legal_outputs_def dest: U(2))
    show "outputs (c \<lparr> ComputeUAVs := t \<rparr>) st \<subseteq> outputs c st" for st by (auto simp: outputs_def om_outputs_def dest: U(2))
  qed simp
qed

lemma emit_inv [simp]: "hazard_inv E (EmitST x c) \<longleftrightarrow> hazard_inv E c"
  by (rule tables_frame(1)) simp

lemma om_set_uav_slot_inv:
  assumes E: "env_ok E" and inv: "hazard_inv E c" "rtv_tail c"
    and legal: "case p of Some v \<Rightarrow> vw_flags (views E v) AND D3D11_BIND_UNORDERED_ACCESS \<noteq> 0 | None \<Rightarrow> True"
    and run: "OMSetUAV_slot E keep p ic n (c, i) = Some (c', i')"
  shows "hazard_inv E c' \<and> rtv_tail c'"
proof -
  have n: "n < 64" using run inv by (auto simp: OMSetUAV_slot_def hazard_inv_def tables_ok_def table_ok_def split: if_splits)
  have tail: "rtv_tail d'" if "OMResolveRTVHazard E p d = Some (d', h)" "hazard_inv E d" "rtv_tail d" for d d' h
    using resolve_rtv_inv [OF that(1,2)] that(3) by (simp add: rtv_tail_def)
  have fin: "hazard_inv E c' \<and> rtv_tail c'"
    if "(if keep then Some (d, i) else map_option (\<lambda>(c, hazard). (c, i \<or> hazard)) (OMResolveRTVHazard E p d)) = Some (c', i')"
      "hazard_inv E d" "rtv_tail d" for d
    using that resolve_rtv_inv tail by (auto split: if_splits)
  show ?thesis
  proof (cases p)
    case None
    obtain t u where t: "unbind_slot (uav_init None) (UAVs c) n = (t, u)" by force
    show ?thesis
    proof (rule fin)
      show "(if keep then Some (if u then EmitST (bind_no_output Pixel n) (c \<lparr> UAVs := t \<rparr>) else c \<lparr> UAVs := t \<rparr>, i)
          else map_option (\<lambda>(c, hazard). (c, i \<or> hazard))
            (OMResolveRTVHazard E p (if u then EmitST (bind_no_output Pixel n) (c \<lparr> UAVs := t \<rparr>) else c \<lparr> UAVs := t \<rparr>))) = Some (c', i')"
        using run None t by (cases u; cases keep) (simp_all add: OMSetUAV_slot_def Let_def split: if_splits)
    qed (use unbind_uav_inv(1) [OF inv(1) n t] inv(2) in \<open>auto simp: rtv_tail_def\<close>)
  next
    case (Some v)
    obtain t d r where t: "set_uav_slot E Pixel v ic n (UAVs c) c = (t, d, r)" by (metis surj_pair)
    have "table_ok 64 (UAVs c)" using inv by (simp add: hazard_inv_def tables_ok_def)
    note S = set_uav_slot_effect [OF this n t]
    have d: "hazard_inv E d" using tables_frame(1) [OF S(2)] inv(1) by simp
    have same: "ShaderStages (d \<lparr> UAVs := t \<rparr>) = ShaderStages d" "ComputeUAVs (d \<lparr> UAVs := t \<rparr>) = ComputeUAVs d" by simp_all
    have dU: "UAVs d = UAVs c" "RTVs d = RTVs c" using S(2) by (simp_all add: tables_def)
    have uavs: "Option.bind (bs_map t m) uav_view = Some w \<Longrightarrow> w = v \<or> Option.bind (bs_map (UAVs d) m) uav_view = Some w" for m w
      using S(4) dU by (auto split: if_splits)
    have ok: "tables_ok (d \<lparr> UAVs := t \<rparr>)" using d S(1) by (simp add: hazard_inv_def tables_ok_def)
    have lg: "legal_outputs E (d \<lparr> UAVs := t \<rparr>)"
      using d legal Some uavs by (fastforce simp: hazard_inv_def legal_outputs_def)
    have x: "object_flags E (AView v) AND output_flags \<noteq> 0"
      using legal Some output_flag_nonzero(3) by (simp add: object_flags_def)
    show ?thesis
    proof (cases r)
      case False
      then have "c' = d \<lparr> UAVs := t \<rparr>" using run Some t by (simp add: OMSetUAV_slot_def Let_def split: if_splits)
      moreover have "hazard_inv E (d \<lparr> UAVs := t \<rparr>)"
        by (rule fewer_outputs [OF d ok _ lg]) (use S(4) dU False in \<open>auto simp: outputs_def om_outputs_def\<close>)
      ultimately show ?thesis using inv(2) S(3) dU by (simp add: rtv_tail_def)
    next
      case True
      let ?e = "OMResolveSRVHazard E (AView v) (d \<lparr> UAVs := t \<rparr>)"
      have e: "hazard_inv E ?e"
        by (rule add_om_output [OF E d x ok same(1) lg _ same(2)]) (auto simp: om_outputs_def dest!: uavs)
      have "srvs_exact E (d \<lparr> UAVs := t \<rparr>)" using d by (simp add: hazard_inv_def srvs_exact_def)
      note R = om_resolve_effect(6,7) [OF E ok this x]
      have e_tail: "rtv_tail ?e" using inv(2) R S(3) dU by (simp add: rtv_tail_def)
      show ?thesis
      proof (rule fin)
        show "(if keep then Some (fst (ResolveIAHazard E (AView v) ?e), i)
          else map_option (\<lambda>(c, hazard). (c, i \<or> hazard)) (OMResolveRTVHazard E p (fst (ResolveIAHazard E (AView v) ?e)))) = Some (c', i')"
          using run Some t True by (simp add: OMSetUAV_slot_def Let_def split: if_splits)
      qed (use resolve_ia_inv [OF e] e_tail in \<open>auto simp: rtv_tail_def\<close>)
    qed
  qed
qed

lemma om_set_uavs_inv:
  assumes E: "env_ok E" and inv: "hazard_inv E c" "rtv_tail c" and legal: "legal_args E D3D11_BIND_UNORDERED_ACCESS pp"
    and run: "OMSetUAVs_part E keep start num pp ics (c, i) = Some (c', i')"
  shows "hazard_inv E c' \<and> rtv_tail c'"
proof -
  let ?c = "c \<lparr> MinUAVBinding := mn, MaxUAVBinding := mx \<rparr>"
  define P where "P = (\<lambda>(ns :: nat list) (d, h :: bool). hazard_inv E d \<and> rtv_tail d)"
  have start: "P ns (c \<lparr> MinUAVBinding := mn, MaxUAVBinding := mx \<rparr>, i)" for ns mn mx
    using inv tables_frame(1) [of "c \<lparr> MinUAVBinding := mn, MaxUAVBinding := mx \<rparr>" c]
    by (simp add: P_def tables_def rtv_tail_def)
  have step: "P ns s'" if "P (n # ns) s" "OMSetUAV_slot E keep (if g then pp k else None) ic n s = Some s'" for ns n s s' g k ic
  proof -
    obtain d h d' h' where s: "s = (d, h)" "s' = (d', h')" by (cases s; cases s') auto
    have "case (if g then pp k else None) of Some v \<Rightarrow> vw_flags (views E v) AND D3D11_BIND_UNORDERED_ACCESS \<noteq> 0 | None \<Rightarrow> True"
      using legal by (auto simp: legal_args_def split: option.splits)
    then show ?thesis
      using om_set_uav_slot_inv [OF E _ _ _ that(2) [unfolded s]] that(1) by (simp add: P_def s)
  qed
  have "P [] (c', i')"
    using run unfolding OMSetUAVs_part_def Let_def case_prod_conv
    by (rule each_slot_inv) (use start step in blast)+
  then show ?thesis by (simp add: P_def)
qed

text \<open>\<open>OMSetRenderTargetsAndUnorderedAccessViews\<close> keeps the invariant whatever it is given.\<close>

lemma om_set_inv:
  assumes E: "env_ok E" and inv: "hazard_inv E c" "rtv_tail c"
    and legal: "legal_args E D3D11_BIND_RENDER_TARGET rtvs" "legal_args E D3D11_BIND_UNORDERED_ACCESS uavs"
      "case dsv of Some v \<Rightarrow> vw_flags (views E v) AND D3D11_BIND_DEPTH_STENCIL \<noteq> 0 | None \<Rightarrow> True"
    and run: "OMSetRenderTargetsAndUnorderedAccessViews E num rtvs dsv start nu uavs ics c = Some c'"
  shows "hazard_inv E c' \<and> rtv_tail c'"
proof -
  have pass: "hazard_inv E (if i then fst (InvalidateCurrentPass False d) else d) \<and> rtv_tail (if i then fst (InvalidateCurrentPass False d) else d)"
    if "hazard_inv E d \<and> rtv_tail d" for d i
    using that tables_frame(1) [OF tables_pass(1), of E False d]
    by (auto simp: rtv_tail_def InvalidateCurrentPass_def Commit_def EmitST_def Let_def)
  define r where "r = (if num \<noteq> - 1 then map_option (OMSetRenderTargets_part E num rtvs dsv) (ValidateSetRenderTargets E num rtvs dsv c)
    else Some (c, False))"
  have val: "hazard_inv E d" if "ValidateSetRenderTargets E num rtvs dsv c = Some d" for d
    using that inv(1) tables_frame(1) [of d c] by (auto simp: ValidateSetRenderTargets_def tables_def)
  have r: "hazard_inv E d \<and> rtv_tail d" if rd: "r = Some (d, i)" for d i
  proof (cases "num \<noteq> - 1")
    case True
    then obtain c1 where "ValidateSetRenderTargets E num rtvs dsv c = Some c1" "OMSetRenderTargets_part E num rtvs dsv c1 = (d, i)"
      using rd by (auto simp: r_def)
    then show ?thesis using set_targets_inv [OF E val legal(1,3)] by blast
  qed (use rd inv in \<open>simp add: r_def\<close>)
  have u: "hazard_inv E e \<and> rtv_tail e"
    if "r = Some (d, i)" "(if nu \<noteq> - 1 then OMSetUAVs_part E (num = - 1) start nu uavs ics (d, i) else Some (d, i)) = Some (e, j)" for d i e j
  proof (cases "nu \<noteq> - 1")
    case True
    then show ?thesis using that(2) r [OF that(1)] om_set_uavs_inv [OF E _ _ legal(2), of d "num = - 1" start nu ics i e j] by simp
  next
    case False
    then show ?thesis using that(2) r [OF that(1)] by simp
  qed
  show ?thesis
  proof (cases "ValidateMultiOutput E num rtvs nu uavs \<and> r \<noteq> None")
    case False
    then have "c' = c"
      using run unfolding OMSetRenderTargetsAndUnorderedAccessViews_def r_def [symmetric] by (cases r) (auto split: if_splits)
    then show ?thesis using inv by simp
  next
    case True
    then obtain d i where rd: "r = Some (d, i)" by auto
    have "map_option (\<lambda>(c, invalidate). if invalidate then fst (InvalidateCurrentPass False c) else c)
        (if nu \<noteq> - 1 then OMSetUAVs_part E (num = - 1) start nu uavs ics (d, i) else Some (d, i)) = Some c'"
      using run True unfolding OMSetRenderTargetsAndUnorderedAccessViews_def r_def [symmetric] rd
      by (simp only: option.case prod.case if_True not_True_eq_False if_False)
    then obtain e j where ej: "(if nu \<noteq> - 1 then OMSetUAVs_part E (num = - 1) start nu uavs ics (d, i) else Some (d, i)) = Some (e, j)"
      and c': "c' = (if j then fst (InvalidateCurrentPass False e) else e)"
      by (auto simp only: map_option_eq_Some split_paired_all prod.case)
    show ?thesis unfolding c' by (rule pass) (rule u [OF rd ej])
  qed
qed

subsection \<open>Stream output and the compute stage\<close>

lemma so_set_slot_inv:
  assumes E: "env_ok E" and inv: "hazard_inv E c" and run: "SOSetTargets_slot E p off n c = Some c'"
  shows "hazard_inv E c' \<and> NumRTVs c' = NumRTVs c \<and> RTVs c' = RTVs c"
proof -
  have t: "table_ok 4 (SOTargets c)" using inv by (simp add: hazard_inv_def tables_ok_def)
  then have n: "n < 4" using run by (auto simp: SOSetTargets_slot_def in_table_def Let_def table_ok_def split: if_splits)
  have frame: "hazard_inv E (c \<lparr> SOTargets := s \<rparr>)"
    if "table_ok 4 s" "\<And>m b. Option.bind (bs_map s m) so_buffer = Some b \<Longrightarrow> Option.bind (bs_map (SOTargets c) m) so_buffer = Some b" for s
  proof (rule fewer_outputs [OF inv])
    show "tables_ok (c \<lparr> SOTargets := s \<rparr>)" using inv that(1) by (simp add: hazard_inv_def tables_ok_def)
    show "legal_outputs E (c \<lparr> SOTargets := s \<rparr>)" using inv by (auto simp: hazard_inv_def legal_outputs_def dest: that(2))
    show "outputs (c \<lparr> SOTargets := s \<rparr>) st \<subseteq> outputs c st" for st by (auto simp: outputs_def om_outputs_def dest: that(2))
  qed simp
  define q where "q = (case p of Some b \<Rightarrow> if rs_flags (resources E b) AND D3D11_BIND_STREAM_OUTPUT \<noteq> 0 then p else None | None \<Rightarrow> None)"
  show ?thesis
  proof (cases q)
    case None
    obtain s u where u: "unbind_slot (stream_output_init None) (SOTargets c) n = (s, u)" by force
    note U = table_unbind [OF t n u]
    have "c' = c \<lparr> SOTargets := s \<rparr>"
      using run None u unfolding SOSetTargets_slot_def Let_def q_def [symmetric] by (simp add: in_table_def split: if_splits)
    moreover have "hazard_inv E (c \<lparr> SOTargets := s \<rparr>)" by (rule frame) (use U in \<open>auto split: if_splits\<close>)
    ultimately show ?thesis by simp
  next
    case (Some b)
    have b: "rs_flags (resources E b) AND D3D11_BIND_STREAM_OUTPUT \<noteq> 0"
      using Some by (auto simp: q_def split: option.splits if_splits)
    have pb: "p = Some b" using Some by (auto simp: q_def split: option.splits if_splits)
    obtain s r where s: "bind_slot (is_redundant so_raw) (SOTargets c) n (stream_output_init p) True = (s, r)" by force
    note B = table_bind [OF t n s]
    show ?thesis
    proof (cases r)
      case False
      let ?s = "if off \<noteq> so_offset (bs_at s n) then update_entry (set_dirty_slot s n) n (\<lambda>e. e \<lparr> so_offset := off \<rparr>) else s"
      have c': "c' = c \<lparr> SOTargets := ?s \<rparr>"
        using run Some s False unfolding SOSetTargets_slot_def Let_def q_def [symmetric] by (simp add: in_table_def split: if_splits)
      have d: "table_ok 4 (set_dirty_slot s n)" using table_set_dirty_slot(1) [OF B(1) n] .
      have sok: "table_ok 4 ?s" using B(1) table_update_entry [OF d n] by simp
      have smap: "bs_map ?s = (if off \<noteq> so_offset (bs_at s n) then (bs_map s)(n := map_option (\<lambda>e. e \<lparr> so_offset := off \<rparr>) (bs_map s n)) else bs_map s)"
        using table_map_update [OF d n] by (simp add: table_set_dirty_slot(2))
      have "hazard_inv E c'" unfolding c'
        by (rule frame [OF sok]) (use smap B(2) False in \<open>cases "bs_map (SOTargets c) n"; auto split: if_splits\<close>)
      then show ?thesis by (simp add: c')
    next
      case True
      let ?s = "update_entry s n (\<lambda>e. e \<lparr> so_buffer := p, so_offset := off \<rparr>)"
      let ?d = "c \<lparr> SOTargets := ?s \<rparr>"
      let ?e = "OMResolveSRVHazard E (ABuffer b) ?d"
      have c': "c' = fst (ResolveIAHazard E (ABuffer b) ?e)"
        using run Some s True unfolding SOSetTargets_slot_def Let_def q_def [symmetric]
        by (simp add: in_table_def SOResolveSRVHazard_def split: if_splits)
      have x: "object_flags E (ABuffer b) AND output_flags \<noteq> 0" using output_flag_nonzero(4) [OF b] by (simp add: object_flags_def)
      have sos: "Option.bind (bs_map ?s m) so_buffer = Some w \<Longrightarrow> w = b \<or> Option.bind (bs_map (SOTargets c) m) so_buffer = Some w" for m w
        using table_map_update [OF B(1) n] B(2) True pb by (auto split: if_splits)
      have ok: "tables_ok ?d" using inv table_update_entry [OF B(1) n] by (simp add: hazard_inv_def tables_ok_def)
      have lg: "legal_outputs E ?d" using inv b by (auto simp: hazard_inv_def legal_outputs_def dest!: sos)
      have e: "hazard_inv E ?e"
        by (rule add_om_output [OF E inv x ok _ lg]) (auto simp: om_outputs_def dest!: sos)
      have "srvs_exact E ?d" using inv by (simp add: hazard_inv_def srvs_exact_def)
      note R = om_resolve_effect(6,7) [OF E ok this x]
      show ?thesis unfolding c' using resolve_ia_inv [OF e] R by simp
    qed
  qed
qed

lemma so_set_inv:
  assumes E: "env_ok E" and inv: "hazard_inv E c \<and> rtv_tail c" and run: "SOSetTargets E num pp offs c = Some c'"
  shows "hazard_inv E c' \<and> rtv_tail c'"
proof -
  define P where "P = (\<lambda>(ns :: nat list) d. hazard_inv E d \<and> rtv_tail d)"
  have step: "P ns d'" if "P (n # ns) d" "SOSetTargets_slot E p off n d = Some d'" for n ns d d' p off
    using that so_set_slot_inv [OF E _ that(2)] by (simp add: P_def rtv_tail_def)
  show ?thesis
  proof (cases "each_slot (\<lambda>n. SOSetTargets_slot E (case pp of Some a \<Rightarrow> a n | None \<Rightarrow> None) (case offs of Some a \<Rightarrow> a n | None \<Rightarrow> 0) n)
          [0..<unat (if num = 0 then 4 else num)] c = Some c'")
    case True
    have "P [] c'"
      by (rule each_slot_inv [where P = P, OF True]) (simp add: P_def inv, erule step)
    then show ?thesis by (simp add: P_def)
  next
    case False
    then show ?thesis using run inv by (auto simp: SOSetTargets_def Let_def split: if_splits option.splits)
  qed
qed

lemma displace_uav_inv:
  assumes "hazard_inv E c" "n < 64"
  shows "hazard_inv E (displace_uav E k pp n c) \<and> NumRTVs (displace_uav E k pp n c) = NumRTVs c \<and> RTVs (displace_uav E k pp n c) = RTVs c \<and>
    (\<forall>m < 64. m \<noteq> n \<longrightarrow> bits_get (bs_bound (ComputeUAVs (displace_uav E k pp n c))) m = bits_get (bs_bound (ComputeUAVs c)) m)"
  unfolding displace_uav_def
proof (induction k)
  case 0
  then show ?case using assms(1) by simp
next
  case (Suc k)
  define d where "d = fold (\<lambda>i c. if CheckOverlap E (map_option AView (uav_view (bs_at (ComputeUAVs c) n))) (map_option AView (pp i))
        then let (t, unbound) = unbind_slot (uav_init None) (ComputeUAVs c) n; c = c \<lparr> ComputeUAVs := t \<rparr>
             in if unbound then EmitST (bind_no_output Compute n) c else c
        else c) [0..<k] c"
  obtain t u where t: "unbind_slot (uav_init None) (ComputeUAVs d) n = (t, u)" by force
  note IH = Suc.IH [folded d_def]
  have ok: "table_ok 64 (ComputeUAVs d)" using IH by (simp add: hazard_inv_def tables_ok_def)
  have bits: "\<forall>m < 64. m \<noteq> n \<longrightarrow> bits_get (bs_bound t) m = bits_get (bs_bound (ComputeUAVs d)) m"
    using ok t assms(2) by (auto simp: unbind_slot_def table_ok_def bs_ok_def bits_get_set split: if_splits)
  show ?case
  proof (cases "CheckOverlap E (map_option AView (uav_view (bs_at (ComputeUAVs d) n))) (map_option AView (pp k))")
    case False
    then show ?thesis using IH by (simp add: d_def [symmetric])
  next
    case True
    have "hazard_inv E (d \<lparr> ComputeUAVs := t \<rparr>)" by (rule unbind_uav_inv(2) [OF _ assms(2) t]) (use IH in blast)
    then show ?thesis using True IH t bits by (simp add: d_def [symmetric] Let_def)
  qed
qed

lemma visit_from_inv: "P s \<Longrightarrow> (\<And>n s. n < N \<Longrightarrow> P s \<Longrightarrow> P (f n s)) \<Longrightarrow> P (visit_from N bits f it s)"
proof (induction N bits f it s rule: visit_from.induct)
  case (1 N bits f it s)
  then show ?case by (subst visit_from.simps) simp
qed

lemma add_cs_output:
  assumes E: "env_ok E" and inv: "hazard_inv E c0" and x: "object_flags E x AND output_flags \<noteq> 0"
    and c: "tables_ok c" "ShaderStages c = ShaderStages c0" "legal_outputs E c" "outputs c Compute \<subseteq> insert x (outputs c0 Compute)"
      "om_outputs c = om_outputs c0"
  shows "hazard_inv E (fst (ResolveSRVHazard E Compute x c))"
proof -
  let ?d = "fst (ResolveSRVHazard E Compute x c)"
  have ok: "srvs_exact E c" using inv c(2) by (simp add: hazard_inv_def srvs_exact_def)
  note R = resolve_srv_effect [OF E c(1) ok x, of Compute]
  have "separated E st ?d" for st
    unfolding separated_def
  proof (intro allI impI)
    fix n v y assume a: "srv_of ?d st n = Some v" "y \<in> outputs ?d st"
    have old: "srv_of c0 st n = Some v" and nx: "st = Compute \<longrightarrow> \<not> conflicts_with E x v"
      using a(1) R(1) c(2) by (auto simp: srv_of_def split: option.splits if_splits)
    have "y \<in> outputs c st" using a(2) R(2) by simp
    moreover have "outputs c st = outputs c0 st" if "st \<noteq> Compute" using that c(5) by (simp add: outputs_def)
    ultimately have "y \<in> outputs c0 st \<or> y = x \<and> st = Compute"
      using c(4) by (cases "st = Compute") auto
    then show "\<not> CheckOverlap E (Some (AView v)) (Some y)"
    proof
      assume "y \<in> outputs c0 st"
      then show ?thesis using inv old unfolding hazard_inv_def separated_def by blast
    next
      assume "y = x \<and> st = Compute"
      then show ?thesis using nx by (simp add: conflicts_with_def)
    qed
  qed
  then show ?thesis using R(3-5) c(3) by (simp add: hazard_inv_def)
qed

lemma cs_set_uav_slot_inv:
  assumes E: "env_ok E" and inv: "hazard_inv E c" "rtv_tail c"
    and legal: "case p of Some v \<Rightarrow> vw_flags (views E v) AND D3D11_BIND_UNORDERED_ACCESS \<noteq> 0 | None \<Rightarrow> True"
    and run: "CSSetUAV_slot E p ic n c = Some c'"
  shows "hazard_inv E c' \<and> rtv_tail c'"
proof -
  have T: "table_ok 64 (ComputeUAVs c)" using inv by (simp add: hazard_inv_def tables_ok_def)
  then have n: "n < 64" using run by (auto simp: CSSetUAV_slot_def in_table_def table_ok_def split: if_splits)
  show ?thesis
  proof (cases p)
    case None
    obtain t u where t: "unbind_slot (uav_init None) (ComputeUAVs c) n = (t, u)" by force
    have "c' = (if u then EmitST (bind_no_output Compute n) (c \<lparr> ComputeUAVs := t \<rparr>) else c \<lparr> ComputeUAVs := t \<rparr>)"
      using run None t by (simp add: CSSetUAV_slot_def in_table_def Let_def split: if_splits)
    then show ?thesis using unbind_uav_inv(2) [OF inv(1) n t] inv(2) by (simp add: rtv_tail_def)
  next
    case (Some v)
    obtain t d r where t: "set_uav_slot E Compute v ic n (ComputeUAVs c) c = (t, d, r)" by (metis surj_pair)
    note S = set_uav_slot_effect [OF T n t]
    have d: "hazard_inv E d" using tables_frame(1) [OF S(2)] inv(1) by simp
    have same: "ShaderStages (d \<lparr> ComputeUAVs := t \<rparr>) = ShaderStages d" "om_outputs (d \<lparr> ComputeUAVs := t \<rparr>) = om_outputs d"
      by (simp_all add: om_outputs_def)
    have dU: "ComputeUAVs d = ComputeUAVs c" "RTVs d = RTVs c" using S(2) by (simp_all add: tables_def)
    have uavs: "Option.bind (bs_map t m) uav_view = Some w \<Longrightarrow> w = v \<or> Option.bind (bs_map (ComputeUAVs d) m) uav_view = Some w" for m w
      using S(4) dU by (auto split: if_splits)
    have ok: "tables_ok (d \<lparr> ComputeUAVs := t \<rparr>)" using d S(1) by (simp add: hazard_inv_def tables_ok_def)
    have lg: "legal_outputs E (d \<lparr> ComputeUAVs := t \<rparr>)"
      using d legal Some by (auto simp: hazard_inv_def legal_outputs_def dest!: uavs)
    have x: "object_flags E (AView v) AND output_flags \<noteq> 0"
      using legal Some output_flag_nonzero(3) by (simp add: object_flags_def)
    show ?thesis
    proof (cases r)
      case False
      then have "c' = d \<lparr> ComputeUAVs := t \<rparr>" using run Some t by (simp add: CSSetUAV_slot_def in_table_def Let_def split: if_splits)
      moreover have "hazard_inv E (d \<lparr> ComputeUAVs := t \<rparr>)"
        by (rule fewer_outputs [OF d ok _ lg]) (use S(4) dU False in \<open>auto simp: outputs_def om_outputs_def\<close>)
      ultimately show ?thesis using inv(2) S(3) dU by (simp add: rtv_tail_def)
    next
      case True
      then have c': "c' = fst (ResolveSRVHazard E Compute (AView v) (d \<lparr> ComputeUAVs := t \<rparr>))"
        using run Some t by (simp add: CSSetUAV_slot_def in_table_def Let_def split: if_splits)
      have "hazard_inv E c'" unfolding c'
        by (rule add_cs_output [OF E d x ok same(1) lg _ same(2)]) (auto simp: outputs_def dest!: uavs)
      moreover have "srvs_exact E (d \<lparr> ComputeUAVs := t \<rparr>)" using d by (simp add: hazard_inv_def srvs_exact_def)
      ultimately show ?thesis using resolve_srv_effect(6,7) [OF E ok _ x, of Compute] inv(2) S(3) dU
        unfolding c' by (simp add: rtv_tail_def)
    qed
  qed
qed

lemma cs_set_uavs_inv:
  assumes E: "env_ok E" and inv: "hazard_inv E c \<and> rtv_tail c" and legal: "legal_args E D3D11_BIND_UNORDERED_ACCESS pp"
    and run: "CSSetUnorderedAccessViews E start num pp ics c = Some c'"
  shows "hazard_inv E c' \<and> rtv_tail c'"
proof (cases "start + num > 64 \<or> \<not> ValidateMultiOutput E 0 (\<lambda>_. None) num pp")
  case True
  then show ?thesis using run inv by (auto simp: CSSetUnorderedAccessViews_def split: if_splits)
next
  case False
  let ?f = "\<lambda>n c. if unat start \<le> n \<and> n < unat (start + num) then c else displace_uav E (unat num) pp n c"
  define d where "d = visit_bound 64 (\<lambda>c. bs_bound (ComputeUAVs c)) ?f c"
  define P where "P = (\<lambda>(ns :: nat list) d. hazard_inv E d \<and> rtv_tail d)"
  have dis: "P ns (?f n e)" if "n < 64" "P ns e" for n e ns
    using that displace_uav_inv [of E e n] by (simp add: P_def rtv_tail_def)
  have d: "P ns d" for ns
    unfolding d_def visit_bound_def by (rule visit_from_inv [where P = "P ns"]) (use inv dis in \<open>simp_all add: P_def\<close>)
  have step: "P ns e'" if "P (n # ns) e" "CSSetUAV_slot E (pp k) ic n e = Some e'" for n ns e e' k ic
  proof -
    have "case pp k of Some v \<Rightarrow> vw_flags (views E v) AND D3D11_BIND_UNORDERED_ACCESS \<noteq> 0 | None \<Rightarrow> True"
      using legal by (auto simp: legal_args_def split: option.splits)
    then show ?thesis using cs_set_uav_slot_inv [OF E _ _ _ that(2)] that(1) by (simp add: P_def)
  qed
  have "each_slot (\<lambda>n. CSSetUAV_slot E (pp (n - unat start)) (case ics of Some a \<Rightarrow> a (n - unat start) | None \<Rightarrow> - 1) n)
      (slots_from start num) d = Some c'"
    using run False by (simp add: CSSetUnorderedAccessViews_def d_def Let_def)
  then have "P [] c'" by (rule each_slot_inv [where P = P]) (rule d, erule step)
  then show ?thesis by (simp add: P_def)
qed

subsection \<open>Binding an input\<close>

lemma no_conflict_True: "no_conflict f ns = Some True \<Longrightarrow> n \<in> set ns \<Longrightarrow> f n = Some False"
  by (induction ns) (auto simp: bind_eq_Some_conv split: if_splits)

text \<open>The slots of unordered access views the validation looks at.\<close>

definition uavs_in_view :: "d3d11_ctx \<Rightarrow> bool" where
  "uavs_in_view c \<longleftrightarrow> (\<forall>n. bs_map (UAVs c) n \<noteq> None \<longrightarrow> unat (NumRTVs c) \<le> n \<and> n < 8)"

lemma map_entry: "bs_map t n = Some e \<Longrightarrow> n < bs_size t \<and> test_bound t n \<and> bs_at t n = e"
  by (auto simp: bs_map_def bs_at_def split: if_splits)

lemma uav_at_map: "Option.bind (bs_map t n) uav_view = Some v \<Longrightarrow> uav_at t n = Some (Some v)"
  by (auto simp: bind_eq_Some_conv uav_at_def in_table_def dest: map_entry)

lemma so_at_map: "Option.bind (bs_map t n) so_buffer = Some v \<Longrightarrow> so_at t n = Some (Some v)"
  by (auto simp: bind_eq_Some_conv so_at_def in_table_def dest: map_entry)

lemma validate_srv_sound:
  assumes E: "env_ok E" and inv: "hazard_inv E c" "rtv_tail c" and view: "st \<noteq> Compute \<Longrightarrow> uavs_in_view c"
    and val: "ValidateSRVHazard E st v c = Some True" and x: "x \<in> outputs c st"
  shows "\<not> CheckOverlap E (Some (AView v)) (Some x)"
proof
  assume o: "CheckOverlap E (Some (AView v)) (Some x)"
  then have o': "CheckOverlap E (Some x) (Some (AView v))" by (simp add: overlap_sym [OF E])
  have fl: "vw_flags (views E v) = object_flags E x" using overlap_flags [OF E o] by (simp add: object_flags_def)
  have legal: "legal_outputs E c" and tok: "tables_ok c" using inv by (simp_all add: hazard_inv_def)
  have hz: "\<not> view_hazardsFree E v" if "object_flags E x AND output_flags \<noteq> 0"
    using that fl by (simp add: hazard_free_iff) (simp add: object_flags_def)
  show False
  proof (cases "st = Compute")
    case True
    obtain w n where w: "x = AView w" "Option.bind (bs_map (ComputeUAVs c) n) uav_view = Some w"
      using x True by (auto simp: outputs_def)
    have "view_hazardsFree E v = False"
      using hz w legal output_flag_nonzero(3) by (auto simp: legal_outputs_def object_flags_def)
    moreover have "n \<in> set (bs_slots (ComputeUAVs c))"
    proof -
      have "bs_ok (ComputeUAVs c)" using tok by (simp add: tables_ok_def table_ok_def)
      then show ?thesis using w(2) by (auto simp: bs_slots_eq bind_eq_Some_conv dest: map_entry)
    qed
    ultimately show False
      using val True no_conflict_True [where n = n] uav_at_map [OF w(2)] o' w(1) by (fastforce simp: ValidateSRVHazard_def Let_def)
  next
    case False
    have xo: "x \<in> om_outputs c" using x False by (simp add: outputs_def)
    have hf: "view_hazardsFree E v = False"
      using hz xo legal output_flag_nonzero by (auto simp: legal_outputs_def om_outputs_def object_flags_def)
    let ?hit = "\<lambda>x. CheckOverlap E x (Some (AView v))"
    let ?rtv = "no_conflict (\<lambda>n. map_option (\<lambda>v. ?hit (map_option AView v)) (rtv_at c n)) [0..<unat (NumRTVs c)]"
    have V: "?rtv = Some True" "\<not> ?hit (map_option AView (DSV c))"
      "vw_flags (views E v) AND D3D11_BIND_UNORDERED_ACCESS \<noteq> 0 \<Longrightarrow>
         no_conflict (\<lambda>n. map_option (\<lambda>v. ?hit (map_option AView v)) (uav_at (UAVs c) n)) [unat (NumRTVs c)..<8] = Some True"
      "vw_flags (views E v) AND D3D11_BIND_UNORDERED_ACCESS = 0 \<Longrightarrow> vw_flags (views E v) AND D3D11_BIND_STREAM_OUTPUT \<noteq> 0 \<Longrightarrow>
         no_conflict (\<lambda>n. map_option (\<lambda>b. ?hit (map_option ABuffer b)) (so_at (SOTargets c) n)) [0..<4] = Some True"
      using val False hf by (auto simp: ValidateSRVHazard_def Let_def bind_eq_Some_conv split: if_splits)
    from xo consider (rtv) w where "x = AView w" "Some w \<in> set (RTVs c)" | (dsv) w where "x = AView w" "DSV c = Some w"
      | (uav) w n where "x = AView w" "Option.bind (bs_map (UAVs c) n) uav_view = Some w"
      | (so) b n where "x = ABuffer b" "Option.bind (bs_map (SOTargets c) n) so_buffer = Some b"
      by (auto simp: om_outputs_def)
    then show False
    proof cases
      case rtv
      have "length (RTVs c) = 8" using tok by (simp add: tables_ok_def)
      then obtain i where i: "i < 8" "RTVs c ! i = Some w" using rtv(2) by (auto simp: in_set_conv_nth)
      then have "i < unat (NumRTVs c)" using inv(2) unfolding rtv_tail_def by (metis not_le option.distinct(1))
      then show False using no_conflict_True [OF V(1), of i] i o' rtv(1) by (simp add: rtv_at_def)
    next
      case dsv
      then show False using V(2) o' by simp
    next
      case uav
      have "vw_flags (views E v) AND D3D11_BIND_UNORDERED_ACCESS \<noteq> 0"
        using uav legal fl by (auto simp: legal_outputs_def object_flags_def)
      moreover have "unat (NumRTVs c) \<le> n \<and> n < 8" using view [OF False] uav(2) by (auto simp: uavs_in_view_def bind_eq_Some_conv)
      ultimately show False using no_conflict_True [OF V(3), of n] uav_at_map [OF uav(2)] o' uav(1) by simp
    next
      case so
      have s: "rs_flags (resources E b) AND D3D11_BIND_STREAM_OUTPUT \<noteq> 0" using so legal by (auto simp: legal_outputs_def)
      have eq: "vw_flags (views E v) = rs_flags (resources E b)" using fl so(1) by (simp add: object_flags_def)
      have u: "rs_flags (resources E b) AND D3D11_BIND_UNORDERED_ACCESS = 0" using E s unfolding env_ok_def by blast
      have "n < 4" using so(2) tok by (auto simp: bind_eq_Some_conv tables_ok_def table_ok_def dest: map_entry)
      then show False using no_conflict_True [OF V(4) [unfolded eq, OF u s], of n] so_at_map [OF so(2)] o' so(1) by simp
    qed
  qed
qed

text \<open>The class of a slot's view, hazardous or not, does not change when the slot is rebound.\<close>

definition same_class :: "d3d11_env \<Rightarrow> pipeline_stage \<Rightarrow> ptr \<Rightarrow> nat \<Rightarrow> d3d11_ctx \<Rightarrow> bool" where
  "same_class E st p n c \<longleftrightarrow> (\<forall>old new. srv_of c st n = Some old \<longrightarrow> p = Some new \<longrightarrow> view_hazardsFree E old = view_hazardsFree E new)"

lemma new_srv_table:
  assumes inv: "hazard_inv E c" and t: "table_ok 128 t"
    and maps: "\<And>m e. bs_map t m = Some e \<Longrightarrow> bs_map (SRVs (ShaderStages c st)) m = Some e \<and>
        (m \<in> bs_hazards t \<longleftrightarrow> m \<in> bs_hazards (SRVs (ShaderStages c st))) \<or>
        (\<exists>v. srv_view e = Some v \<and> vw_flags (views E v) AND D3D11_BIND_SHADER_RESOURCE \<noteq> 0 \<and>
             (m \<in> bs_hazards t \<longleftrightarrow> \<not> view_hazardsFree E v) \<and> (\<forall>x \<in> outputs c st. \<not> CheckOverlap E (Some (AView v)) (Some x)))"
  shows "hazard_inv E (update_stage st (\<lambda>s. s \<lparr> SRVs := t \<rparr>) c)"
proof -
  let ?d = "update_stage st (\<lambda>s. s \<lparr> SRVs := t \<rparr>) c"
  have out: "outputs ?d s = outputs c s" for s by (simp add: update_stage_def outputs_def om_outputs_def)
  have ex: "srvs_exact E ?d" unfolding srvs_exact_def
  proof (intro allI impI)
    fix s m e assume a: "bs_map (SRVs (ShaderStages ?d s)) m = Some e"
    have old: "\<exists>v. srv_view e = Some v \<and> vw_flags (views E v) AND D3D11_BIND_SHADER_RESOURCE \<noteq> 0 \<and>
        (m \<in> bs_hazards (SRVs (ShaderStages c s)) \<longleftrightarrow> \<not> view_hazardsFree E v)" if "bs_map (SRVs (ShaderStages c s)) m = Some e"
      using inv that unfolding hazard_inv_def srvs_exact_def by blast
    show "\<exists>v. srv_view e = Some v \<and> vw_flags (views E v) AND D3D11_BIND_SHADER_RESOURCE \<noteq> 0 \<and>
        (m \<in> bs_hazards (SRVs (ShaderStages ?d s)) \<longleftrightarrow> \<not> view_hazardsFree E v)"
    proof (cases "s = st")
      case True
      then show ?thesis using a maps [of m e] old by (auto simp: update_stage_def)
    next
      case False
      then show ?thesis using a old by (simp add: update_stage_def)
    qed
  qed
  have sep: "separated E s ?d" for s unfolding separated_def
  proof (intro allI impI)
    fix m v x assume a: "srv_of ?d s m = Some v" "x \<in> outputs ?d s"
    have old: "\<not> CheckOverlap E (Some (AView v)) (Some x)" if "srv_of c s m = Some v"
      using inv that a(2) out unfolding hazard_inv_def separated_def by blast
    show "\<not> CheckOverlap E (Some (AView v)) (Some x)"
    proof (cases "s = st")
      case True
      then obtain e where e: "bs_map t m = Some e" "srv_view e = Some v"
        using a(1) by (auto simp: srv_of_def update_stage_def bind_eq_Some_conv)
      show ?thesis using maps [OF e(1)] old a(2) e(2) out True by (auto simp: srv_of_def)
    next
      case False
      then show ?thesis using a(1) old by (simp add: srv_of_def update_stage_def)
    qed
  qed
  have "tables_ok ?d" using inv t by (simp add: hazard_inv_def tables_ok_def update_stage_def)
  moreover have "legal_outputs E ?d" using inv by (simp add: hazard_inv_def legal_outputs_def update_stage_def)
  ultimately show ?thesis using ex sep by (simp add: hazard_inv_def)
qed

lemma set_srv_slot_inv:
  assumes E: "env_ok E" and inv: "hazard_inv E c" "rtv_tail c" and view: "st \<noteq> Compute \<Longrightarrow> uavs_in_view c"
    and legal: "case p of Some v \<Rightarrow> vw_flags (views E v) AND D3D11_BIND_SHADER_RESOURCE \<noteq> 0 | None \<Rightarrow> True"
    and cls: "same_class E st p n c"
    and run: "SetShaderResource_slot E st p n (c, ch) = Some (c', ch')"
  shows "hazard_inv E c'" "NumRTVs c' = NumRTVs c" "RTVs c' = RTVs c" "UAVs c' = UAVs c"
    "m \<noteq> n \<Longrightarrow> srv_of c' st m = srv_of c st m"
proof -
  let ?t = "SRVs (ShaderStages c st)"
  have T: "table_ok 128 ?t" using inv(1) by (simp add: hazard_inv_def tables_ok_def)
  obtain valid where val: "(case p of None \<Rightarrow> Some False | Some v \<Rightarrow> ValidateSRVHazard E st v c) = Some valid"
    using run by (auto simp: SetShaderResource_slot_def Let_def bind_eq_Some_conv)
  have n: "n < 128"
    using run val T by (auto simp: SetShaderResource_slot_def in_table_def Let_def table_ok_def split: option.splits if_splits)
  have nb: "n < bs_size ?t" using n T by (simp add: table_ok_def)
  have "hazard_inv E c' \<and> (\<exists>t. c' = update_stage st (\<lambda>s. s \<lparr> SRVs := t \<rparr>) c \<and> (\<forall>m. m \<noteq> n \<longrightarrow> bs_map t m = bs_map ?t m))"
  proof (cases "if valid then p else None")
    case None
    obtain t u where t: "unbind_slot (srv_init None) ?t n = (t, u)" by force
    have c': "c' = update_stage st (\<lambda>s. s \<lparr> SRVs := t \<rparr>) c"
      using run val None t nb by (simp add: SetShaderResource_slot_def Let_def in_table_def)
    note U = table_unbind [OF T n t]
    have "hazard_inv E c'" unfolding c' by (rule new_srv_table [OF inv(1) U(1)]) (use U in \<open>auto split: if_splits\<close>)
    then show ?thesis using c' U(2) by auto
  next
    case (Some v)
    then have v: "p = Some v" and "valid" by (auto split: if_splits)
    then have vv: "ValidateSRVHazard E st v c = Some True" using val by simp
    have safe: "\<forall>x \<in> outputs c st. \<not> CheckOverlap E (Some (AView v)) (Some x)"
      using validate_srv_sound [OF E inv view vv] by blast
    obtain t r where t: "bind_slot (is_redundant srv_raw) ?t n (srv_init p) (\<not> view_hazardsFree E v) = (t, r)" by force
    note B = table_bind [OF T n t]
    define t' where "t' = (if r then update_entry t n (srv_entry E v) else t)"
    have c': "c' = update_stage st (\<lambda>s. s \<lparr> SRVs := t' \<rparr>) c"
      using run v vv t nb by (cases r) (simp_all add: SetShaderResource_slot_def Let_def in_table_def t'_def)
    have t'ok: "table_ok 128 t'" using B(1) table_update_entry [OF B(1) n] by (simp add: t'_def)
    have hz: "bs_hazards t' = bs_hazards t" using B(1) n by (simp add: t'_def update_entry_ok table_ok_def)
    have tmap: "bs_map t' = (if r then (bs_map ?t)(n \<mapsto> srv_entry E v (srv_init p)) else bs_map ?t)"
      using table_map_update [OF B(1) n] B(2) by (simp add: t'_def)
    have ent: "srv_view (srv_entry E v (srv_init p)) = Some v" by (simp add: srv_entry_def Let_def)
    have nh: "n \<in> bs_hazards t' \<longleftrightarrow> \<not> view_hazardsFree E v" if r
    proof (cases "bs_map ?t n")
      case None
      then show ?thesis using hz B(3) by simp
    next
      case (Some e)
      then obtain w where w: "srv_view e = Some w" "n \<in> bs_hazards ?t \<longleftrightarrow> \<not> view_hazardsFree E w"
        using inv(1) unfolding hazard_inv_def srvs_exact_def by blast
      then have "view_hazardsFree E w = view_hazardsFree E v" using cls Some v by (simp add: same_class_def srv_of_def)
      then show ?thesis using hz B(3) Some w by simp
    qed
    have "hazard_inv E c'" unfolding c'
    proof (rule new_srv_table [OF inv(1) t'ok])
      fix m e assume a: "bs_map t' m = Some e"
      show "bs_map ?t m = Some e \<and> (m \<in> bs_hazards t' \<longleftrightarrow> m \<in> bs_hazards ?t) \<or>
        (\<exists>v. srv_view e = Some v \<and> vw_flags (views E v) AND D3D11_BIND_SHADER_RESOURCE \<noteq> 0 \<and>
             (m \<in> bs_hazards t' \<longleftrightarrow> \<not> view_hazardsFree E v) \<and> (\<forall>x \<in> outputs c st. \<not> CheckOverlap E (Some (AView v)) (Some x)))"
      proof (cases "m = n \<and> r")
        case True
        then have "e = srv_entry E v (srv_init p)" using a tmap by simp
        then show ?thesis using True ent legal v nh safe by auto
      next
        case False
        then have "bs_map ?t m = Some e" using a tmap by (auto split: if_splits)
        moreover have "m \<in> bs_hazards t' \<longleftrightarrow> m \<in> bs_hazards ?t"
          using False hz B(3,4) calculation by (cases "m = n") (auto split: if_splits option.splits)
        ultimately show ?thesis by blast
      qed
    qed
    then show ?thesis using c' tmap by auto
  qed
  then show "hazard_inv E c'" "NumRTVs c' = NumRTVs c" "RTVs c' = RTVs c" "UAVs c' = UAVs c"
    "m \<noteq> n \<Longrightarrow> srv_of c' st m = srv_of c st m"
    by (auto simp: update_stage_def srv_of_def)
qed

lemma set_srv_inv:
  assumes E: "env_ok E" and inv: "hazard_inv E c \<and> rtv_tail c" and view: "st \<noteq> Compute \<Longrightarrow> uavs_in_view c"
    and legal: "legal_args E D3D11_BIND_SHADER_RESOURCE pp"
    and cls: "\<And>n. n \<in> set (slots_from start num) \<Longrightarrow> same_class E st (pp (n - unat start)) n c"
    and run: "SetShaderResource E st start num pp c = Some c'"
  shows "hazard_inv E c' \<and> rtv_tail c'"
proof -
  define P where "P = (\<lambda>ns (d, ch :: bool). hazard_inv E d \<and> rtv_tail d \<and> (st \<noteq> Compute \<longrightarrow> uavs_in_view d) \<and> distinct ns \<and>
      (\<forall>n \<in> set ns. same_class E st (pp (n - unat start)) n d))"
  have step: "P ns s'" if a: "P (n # ns) s" "SetShaderResource_slot E st (pp (n - unat start)) n s = Some s'" for n ns s s'
  proof -
    obtain d h d' h' where s: "s = (d, h)" "s' = (d', h')" by (cases s; cases s') auto
    have p: "hazard_inv E d" "rtv_tail d" "st \<noteq> Compute \<longrightarrow> uavs_in_view d" "n \<notin> set ns" "distinct ns"
      "same_class E st (pp (n - unat start)) n d" "\<forall>n \<in> set ns. same_class E st (pp (n - unat start)) n d"
      using a(1) by (simp_all add: P_def s)
    have lg: "case pp (n - unat start) of Some v \<Rightarrow> vw_flags (views E v) AND D3D11_BIND_SHADER_RESOURCE \<noteq> 0 | None \<Rightarrow> True"
      using legal by (auto simp: legal_args_def split: option.splits)
    note S = set_srv_slot_inv [OF E p(1,2) _ lg p(6) a(2) [unfolded s]]
    have "same_class E st (pp (m - unat start)) m d'" if "m \<in> set ns" for m
    proof -
      have "m \<noteq> n" using that p(4) by auto
      then have "srv_of d' st m = srv_of d st m" using S(5) p(3) by blast
      then show ?thesis using bspec [OF p(7) that] by (simp add: same_class_def)
    qed
    then show ?thesis using S(1-4) p(2,3,5) by (auto simp: P_def s rtv_tail_def uavs_in_view_def)
  qed
  obtain d ch where d: "each_slot (\<lambda>n. SetShaderResource_slot E st (pp (n - unat start)) n) (slots_from start num) (c, False) = Some (d, ch)"
    and c': "c' = (if st = Pixel \<and> ch \<and> PixelShaderHasMultisampledSRV E d then InvalidateRenderPipeline d else d)"
    using run by (auto simp: SetShaderResource_def)
  have "P [] (d, ch)"
    by (rule each_slot_inv [where P = P, OF d]) (use inv view cls in \<open>simp add: P_def slots_from_def\<close>, erule step)
  then show ?thesis
    using tables_frame(1) [OF tables_pass(2), of E d]
    by (auto simp: P_def c' rtv_tail_def InvalidateRenderPipeline_def)
qed

subsection \<open>The calls that leave outputs and shader resources alone\<close>

lemma stage_frame:
  assumes "\<And>s. SRVs (f s) = SRVs s"
  shows "tables (update_stage st f c) = tables c" "NumRTVs (update_stage st f c) = NumRTVs c" "RTVs (update_stage st f c) = RTVs c"
  using assms by (auto simp: tables_def update_stage_def fun_eq_iff)

lemma each_slot_frame:
  assumes "each_slot f ns c = Some c'" "\<And>n c c'. f n c = Some c' \<Longrightarrow> tables c' = tables c \<and> NumRTVs c' = NumRTVs c"
  shows "tables c' = tables c \<and> NumRTVs c' = NumRTVs c"
  by (rule each_slot_inv [where P = "\<lambda>_ d. tables d = tables c \<and> NumRTVs d = NumRTVs c", OF assms(1)]) (auto dest: assms(2))

lemma frame_inv:
  assumes "tables c' = tables c \<and> NumRTVs c' = NumRTVs c" "hazard_inv E c \<and> rtv_tail c"
  shows "hazard_inv E c' \<and> rtv_tail c'"
  using assms tables_frame(1) [of c' c E] by (auto simp: rtv_tail_def tables_def)

lemma in_table_Some: "in_table t n x = Some y \<longleftrightarrow> n < bs_size t \<and> x = y"
  by (auto simp: in_table_def)

lemma set_samplers_frame:
  assumes "SetSamplers E st start num pp c = Some c'"
  shows "tables c' = tables c \<and> NumRTVs c' = NumRTVs c"
  by (rule each_slot_frame [OF assms [unfolded SetSamplers_def]])
     (auto simp: SetSamplers_slot_def Let_def in_table_Some stage_frame split: option.splits prod.splits)

lemma set_constant_buffers_frame:
  assumes "SetConstantBuffer E st start num pp first cnt c = Some c'"
  shows "tables c' = tables c \<and> NumRTVs c' = NumRTVs c"
  by (rule each_slot_frame [OF assms [unfolded SetConstantBuffer_def]])
     (auto simp: SetConstantBuffer_slot_def Let_def in_table_Some stage_frame split: option.splits prod.splits)

lemma vertex_buffers_inv:
  assumes "hazard_inv E c \<and> rtv_tail c" "table_ok 16 t"
  shows "hazard_inv E (c \<lparr> VertexBuffers := t \<rparr>) \<and> rtv_tail (c \<lparr> VertexBuffers := t \<rparr>)"
proof -
  have "hazard_inv E (c \<lparr> VertexBuffers := t \<rparr>)"
    by (rule fewer_outputs [of E c]) (use assms in \<open>auto simp: hazard_inv_def tables_ok_def legal_outputs_def outputs_def om_outputs_def\<close>)
  then show ?thesis using assms by (simp add: rtv_tail_def)
qed

lemma set_vertex_buffers_inv:
  assumes inv: "hazard_inv E c \<and> rtv_tail c" and run: "SetVertexBuffers E start num pp strides offs c = Some c'"
  shows "hazard_inv E c' \<and> rtv_tail c'"
proof -
  define P where "P = (\<lambda>(ns :: nat list) d. hazard_inv E d \<and> rtv_tail d)"
  have emit: "P ns (EmitST x d)" if "P ns d" for ns x d using that by (simp add: P_def rtv_tail_def)
  have step: "P ns d'" if a: "P (n # ns) d" "SetVertexBuffers_slot E p stride off n d = Some d'" for n ns d d' p stride off
  proof -
    have T: "table_ok 16 (VertexBuffers d)" using a(1) by (simp add: P_def hazard_inv_def tables_ok_def)
    have n: "n < 16" using a(2) T
      by (auto simp: SetVertexBuffers_slot_def Let_def bind_eq_Some_conv in_table_Some table_ok_def)
    have put: "P ns (d \<lparr> VertexBuffers := t \<rparr>)" if "table_ok 16 t" for t
      using vertex_buffers_inv [OF _ that, of E d] a(1) by (simp add: P_def)
    have rfr: "table_ok 16 (refresh_offset o1 n (refresh_stride o2 n t))" if "table_ok 16 t" for t o1 o2
      using that n by (auto simp: refresh_offset_def refresh_stride_def table_update_entry table_set_dirty_slot(1) split: option.splits)
    obtain valid where v: "(case p of None \<Rightarrow> Some False | Some q \<Rightarrow>
        if rs_flags (resources E q) AND D3D11_BIND_VERTEX_BUFFER \<noteq> 0 then ValidateIAHazard E q d else Some False) = Some valid"
      using a(2) by (auto simp: SetVertexBuffers_slot_def Let_def bind_eq_Some_conv)
    have nb: "n < bs_size (VertexBuffers d)" using n T by (simp add: table_ok_def)
    show ?thesis
    proof (cases "if valid then p else None")
      case None
      obtain t u where u: "unbind_slot (vertex_buffer_init None) (VertexBuffers d) n = (t, u)" by force
      have "d' = (if u then EmitST (BindVertexBuffer n 0 0 None) (d \<lparr> VertexBuffers := t \<rparr>) else d \<lparr> VertexBuffers := t \<rparr>)"
        using a(2) nb unfolding SetVertexBuffers_slot_def Let_def v bind.bind_lunit None option.case u prod.case by (simp add: in_table_def)
      then show ?thesis using put [OF table_unbind(1) [OF T n u]] emit by simp
    next
      case (Some q)
      obtain s r where s: "bind_slot (is_redundant vb_raw) (VertexBuffers d) n (vertex_buffer_init p) (\<not> resource_hazardsFree E q) = (s, r)" by force
      define t where "t = (if r then update_entry s n (vertex_buffer_entry q stride off) else refresh_offset off n (refresh_stride stride n s))"
      have "\<exists>x. d' = EmitST x (d \<lparr> VertexBuffers := t \<rparr>)"
        using a(2) nb unfolding SetVertexBuffers_slot_def Let_def v bind.bind_lunit Some option.case s prod.case
        by (cases r) (auto simp: in_table_def t_def)
      moreover have "table_ok 16 t"
        using table_bind(1) [OF T n s] rfr n by (simp add: t_def table_update_entry)
      ultimately show ?thesis using emit put by blast
    qed
  qed
  have "P [] c'"
    by (rule each_slot_inv [where P = P, OF run [unfolded SetVertexBuffers_def]]) (simp add: P_def inv, erule step)
  then show ?thesis by (simp add: P_def)
qed

text \<open>A table whose map and hazard slots are unchanged, whatever happened to its dirty bits.\<close>

lemma same_tables_inv:
  assumes inv: "hazard_inv E c \<and> rtv_tail c" and ok: "tables_ok d"
    and srvs: "\<And>st. bs_map (SRVs (ShaderStages d st)) = bs_map (SRVs (ShaderStages c st)) \<and>
      bs_hazards (SRVs (ShaderStages d st)) = bs_hazards (SRVs (ShaderStages c st))"
    and uavs: "bs_map (UAVs d) = bs_map (UAVs c)" "bs_map (ComputeUAVs d) = bs_map (ComputeUAVs c)"
    and rest: "SOTargets d = SOTargets c" "RTVs d = RTVs c" "DSV d = DSV c" "NumRTVs d = NumRTVs c"
  shows "hazard_inv E d \<and> rtv_tail d"
proof -
  have "outputs d st = outputs c st" "srv_of d st n = srv_of c st n" for st n
    by (simp_all add: outputs_def om_outputs_def srv_of_def uavs rest srvs)
  then have "separated E st d" for st using inv by (simp add: hazard_inv_def separated_def)
  moreover have "legal_outputs E d" using inv by (simp add: hazard_inv_def legal_outputs_def uavs rest)
  moreover have "srvs_exact E d" using inv by (simp add: hazard_inv_def srvs_exact_def srvs)
  ultimately show ?thesis using inv ok by (simp add: hazard_inv_def rtv_tail_def rest)
qed

lemma table_set_dirty: "table_ok N t \<Longrightarrow> table_ok N (set_dirty t)"
  by (simp add: table_ok_def set_dirty_refines)

lemma set_dirty_map: "table_ok N t \<Longrightarrow> bs_map (set_dirty t) = bs_map t \<and> bs_hazards (set_dirty t) = bs_hazards t"
  by (simp add: table_ok_def set_dirty_refines)

lemma set_shader_inv:
  assumes "hazard_inv E c \<and> rtv_tail c"
  shows "hazard_inv E (SetShader st p c) \<and> rtv_tail (SetShader st p c)"
proof -
  have ok: "tables_ok c" using assms by (simp add: hazard_inv_def)
  then have s: "table_ok 128 (SRVs (ShaderStages c s))" for s by (simp add: tables_ok_def)
  have u: "table_ok 64 (UAVs c)" "table_ok 64 (ComputeUAVs c)" "table_ok 16 (VertexBuffers c)" "table_ok 4 (SOTargets c)"
    using ok by (simp_all add: tables_ok_def)
  have pass: "hazard_inv E (InvalidateComputePipeline d) \<and> rtv_tail (InvalidateComputePipeline d)"
    "hazard_inv E (InvalidateRenderPipeline d) \<and> rtv_tail (InvalidateRenderPipeline d)" if "hazard_inv E d \<and> rtv_tail d" for d
    by (rule frame_inv [OF _ that], simp add: InvalidateComputePipeline_def tables_def)
       (rule frame_inv [OF _ that], simp add: InvalidateRenderPipeline_def tables_def)
  have cleared: "hazard_inv E d \<and> rtv_tail d" if "d = update_stage st (\<lambda>s. s \<lparr> Shader := q \<rparr>) c" for d q
    by (rule frame_inv [OF _ assms]) (simp add: that stage_frame)
  define d where "d = (let c = dirty_stage st (update_stage st (\<lambda>s. s \<lparr> Shader := p \<rparr>) c);
                       c = (if st = Vertex then c \<lparr> VertexBuffers := set_dirty (VertexBuffers c) \<rparr> else c) in
                   if st = Compute then c \<lparr> ComputeUAVs := set_dirty (ComputeUAVs c) \<rparr>
                   else c \<lparr> UAVs := set_dirty (UAVs c) \<rparr>)"
  have d: "hazard_inv E d \<and> rtv_tail d"
  proof (rule same_tables_inv [OF assms])
    show "tables_ok d" using ok table_set_dirty [OF s] table_set_dirty [OF u(1)] table_set_dirty [OF u(2)] table_set_dirty [OF u(3)]
      by (simp add: d_def Let_def tables_ok_def dirty_stage_def update_stage_def)
    show "bs_map (SRVs (ShaderStages d s)) = bs_map (SRVs (ShaderStages c s)) \<and>
      bs_hazards (SRVs (ShaderStages d s)) = bs_hazards (SRVs (ShaderStages c s))" for s
      using set_dirty_map [OF s] by (simp add: d_def Let_def dirty_stage_def update_stage_def)
    show "bs_map (UAVs d) = bs_map (UAVs c)" "bs_map (ComputeUAVs d) = bs_map (ComputeUAVs c)"
      using set_dirty_map [OF u(1)] set_dirty_map [OF u(2)] by (simp_all add: d_def Let_def dirty_stage_def update_stage_def)
  qed (simp_all add: d_def Let_def dirty_stage_def update_stage_def)
  show ?thesis
  proof (cases "p = None")
    case True
    then show ?thesis using pass [OF cleared [OF refl]] by (cases "st = Compute") (simp_all add: SetShader_def Let_def)
  next
    case False
    then have "SetShader st p c = (if Shader (ShaderStages c st) = p then c else if st = Compute then InvalidateComputePipeline d else InvalidateRenderPipeline d)"
      by (auto simp: SetShader_def d_def)
    then show ?thesis using pass [OF d] assms by simp
  qed
qed

lemma set_index_frame:
  assumes "IASetIndexBuffer E p fmt off c = Some c'"
  shows "tables c' = tables c \<and> NumRTVs c' = NumRTVs c"
  using assms by (auto simp: IASetIndexBuffer_def tables_def)

lemma new_table: "table_ok N (binding_set_new N e)"
  by (simp add: table_ok_def new_refines) (simp add: binding_set_new_def)

lemma empty_context_inv:
  assumes "ShaderStages c = (\<lambda>_. stage_state_init)" "ComputeUAVs c = binding_set_new 64 (uav_init None)"
    "SOTargets c = binding_set_new 4 (stream_output_init None)" "VertexBuffers c = binding_set_new 16 (vertex_buffer_init None)"
    "UAVs c = binding_set_new 64 (uav_init None)" "RTVs c = replicate 8 None" "DSV c = None"
  shows "hazard_inv E c \<and> rtv_tail c"
  using assms
  by (simp add: hazard_inv_def tables_ok_def new_table srvs_exact_def legal_outputs_def separated_def srv_of_def rtv_tail_def
      stage_state_init_def new_refines)

subsection \<open>Every sequence of calls\<close>

definition ClearState :: "d3d11_ctx \<Rightarrow> d3d11_ctx option" where
  "ClearState c = map_option (\<lambda>c. ResetD3D11ContextState (EmitST ClearEncodingState (fst (InvalidateCurrentPass True c))))
     (FlushAllPendingBufferUpdates c)"

inductive binding_step :: "d3d11_env \<Rightarrow> d3d11_ctx \<Rightarrow> d3d11_ctx \<Rightarrow> bool" for E where
  set_srvs: "SetShaderResource E st start num pp c = Some c' \<Longrightarrow> legal_args E D3D11_BIND_SHADER_RESOURCE pp \<Longrightarrow>
     (\<forall>n \<in> set (slots_from start num). same_class E st (pp (n - unat start)) n c) \<Longrightarrow> st \<noteq> Compute \<longrightarrow> uavs_in_view c \<Longrightarrow>
     binding_step E c c'"
| set_cs_uavs: "CSSetUnorderedAccessViews E start num pp ics c = Some c' \<Longrightarrow> legal_args E D3D11_BIND_UNORDERED_ACCESS pp \<Longrightarrow>
     binding_step E c c'"
| set_om: "OMSetRenderTargetsAndUnorderedAccessViews E num rtvs dsv start nu uavs ics c = Some c' \<Longrightarrow>
     legal_args E D3D11_BIND_RENDER_TARGET rtvs \<Longrightarrow> legal_args E D3D11_BIND_UNORDERED_ACCESS uavs \<Longrightarrow>
     (case dsv of Some v \<Rightarrow> vw_flags (views E v) AND D3D11_BIND_DEPTH_STENCIL \<noteq> 0 | None \<Rightarrow> True) \<Longrightarrow> binding_step E c c'"
| set_so: "SOSetTargets E num pp' offs c = Some c' \<Longrightarrow> binding_step E c c'"
| set_shader: "binding_step E c (SetShader st p c)"
| set_samplers: "SetSamplers E st start num pp c = Some c' \<Longrightarrow> binding_step E c c'"
| set_constants: "SetConstantBuffer E st start num pp first cnt c = Some c' \<Longrightarrow> binding_step E c c'"
| set_vertex: "SetVertexBuffers E start num pp strides offs c = Some c' \<Longrightarrow> binding_step E c c'"
| set_index: "IASetIndexBuffer E p fmt off c = Some c' \<Longrightarrow> binding_step E c c'"
| end_pass: "binding_step E c (fst (InvalidateCurrentPass defer c))"
| clear_state: "ClearState c = Some c' \<Longrightarrow> binding_step E c c'"

inductive_cases binding_stepE: "binding_step E c c'"

lemma binding_step_inv:
  assumes "env_ok E" "binding_step E c c'" "hazard_inv E c \<and> rtv_tail c"
  shows "hazard_inv E c' \<and> rtv_tail c'"
  using assms(2)
proof cases
  case (end_pass later)
  then show ?thesis by (intro frame_inv [OF _ assms(3)]) (simp add: InvalidateCurrentPass_def Commit_def EmitST_def Let_def tables_def)
next
  case clear_state
  then show ?thesis by (intro empty_context_inv) (auto simp: ClearState_def ResetD3D11ContextState_def)
next
  case (set_srvs st start num pp)
  then show ?thesis by (intro set_srv_inv [OF assms(1,3)]) auto
next
  case (set_om num rtvs dsv start nu uavs ics)
  then show ?thesis using om_set_inv [OF assms(1)] assms(3) by blast
next
  case (set_so num pp offs)
  then show ?thesis by (intro so_set_inv [OF assms(1,3)])
next
  case (set_cs_uavs start num pp ics)
  then show ?thesis by (intro cs_set_uavs_inv [OF assms(1,3)])
next
  case (set_shader st p)
  then show ?thesis using set_shader_inv [OF assms(3)] by simp
next
  case (set_vertex start num pp strides offs)
  then show ?thesis by (intro set_vertex_buffers_inv [OF assms(3)])
next
  case (set_samplers st start num pp)
  then show ?thesis by (intro frame_inv [OF set_samplers_frame assms(3)])
next
  case (set_constants st start num pp first cnt)
  then show ?thesis by (intro frame_inv [OF set_constant_buffers_frame assms(3)])
next
  case (set_index p fmt off)
  then show ?thesis by (intro frame_inv [OF set_index_frame assms(3)])
qed

interpretation bindings: invariant_machine "\<lambda>c. c = new_context" "binding_step E"
    "\<lambda>c. env_ok E \<longrightarrow> hazard_inv E c \<and> rtv_tail c" for E
  by unfold_locales (use binding_step_inv empty_context_inv [of new_context E] in \<open>auto simp: new_context_def\<close>)

text \<open>An environment with one resource and two views of different mip levels of it, and two calls on it: a
  shader resource of the compute stage, then an unordered access view of the other level.\<close>

definition two_mips :: d3d11_env where
  "two_mips =
     \<lparr> views = (\<lambda>v. \<lparr> vw_resource = 0, vw_buffer = None, vw_slice = slice_init, vw_texture = Some 0, vw_id = of_nat v, vw_counter = None,
          vw_subset = TextureBitmask (if v = 0 then 1 else 2), vw_flags = 0x88,
          vw_desc = \<lparr> RenderTargetArrayLength = 1, AttachmentSampleCount = 1, DepthPlane = 0, AttachmentWidth = 1,
                      AttachmentHeight = 1 \<rparr> \<rparr>),
       resources = (\<lambda>_. \<lparr> rs_buffer = None, rs_flags = 0x88 \<rparr>), native_sampler = id,
       reflection = (\<lambda>_. \<lparr> ConstantBufferSlotMask = 0, SamplerSlotMask = 0, UAVSlotMask = 0, SRVSlotMaskHi = 0,
                           SRVSlotMaskLo = 0, arguments_info = [] \<rparr>),
       byte_width = (\<lambda>_. 0) \<rparr>"

definition read_level :: "d3d11_ctx option" where
  "read_level = SetShaderResource two_mips Compute 0 1 (\<lambda>_. Some 0) new_context"

definition write_level :: "d3d11_ctx option" where
  "write_level = Option.bind read_level (CSSetUnorderedAccessViews two_mips 0 1 (\<lambda>_. Some 1) None)"

lemma two_mips_ok: "env_ok two_mips"
  by (auto simp: env_ok_def two_mips_def D3D11_BIND_STREAM_OUTPUT_def)

lemma write_level_bound:
  "map_option (\<lambda>c. (srv_of c Compute 0, bs_map (ComputeUAVs c) 0)) write_level = Some (Some 0, Some \<lparr> uav_raw = Some 1, uav_view = Some 1 \<rparr>)"
  by code_simp

lemma write_level_reached:
  assumes "write_level = Some c"
  shows "reachable_from (\<lambda>c. c = new_context) (binding_step two_mips) c"
proof -
  obtain d where d: "read_level = Some d" "CSSetUnorderedAccessViews two_mips 0 1 (\<lambda>_. Some 1) None d = Some c"
    using assms unfolding write_level_def bind_eq_Some_conv by blast
  have "srv_of new_context Compute n = None" for n
    by (simp add: srv_of_def new_context_def stage_state_init_def new_refines)
  then have "binding_step two_mips new_context d"
    using d(1) unfolding read_level_def
    by (intro set_srvs [of two_mips Compute 0 1]) (auto simp: legal_args_def same_class_def two_mips_def D3D11_BIND_SHADER_RESOURCE_def)
  then have "reachable_from (\<lambda>c. c = new_context) (binding_step two_mips) d" by (blast intro: reachable_from.intros)
  moreover have "binding_step two_mips d c"
    by (rule set_cs_uavs [OF d(2)]) (auto simp: legal_args_def two_mips_def D3D11_BIND_UNORDERED_ACCESS_def)
  ultimately show ?thesis by (rule reach_step)
qed

text \<open>C15: no view a shader reads through overlaps an output bound to the same pipeline: after any sequence of
  binding calls, in every stage, no bound shader resource view shares a subresource with a bound render target, depth
  stencil, unordered access or stream output binding of that pipeline. The shader resource calls of the
  sequence keep to what the bookkeeping covers: a slot is rebound to a view of its own hazard class, and the
  unordered access views of the output merger are in the slots compared.\<close>

theorem no_input_overlaps_output:
  assumes "env_ok E" "reachable_from (\<lambda>c. c = new_context) (binding_step E) c"
    and "srv_of c st n = Some v" "x \<in> outputs c st"
  shows "\<not> CheckOverlap E (Some (AView v)) (Some x)"
  using bindings.reachable_inv [OF assms(2)] assms(1,3,4) unfolding hazard_inv_def separated_def by blast

theorem no_input_overlaps_output_witness:
  "\<exists>c. reachable_from (\<lambda>c. c = new_context) (binding_step two_mips) c \<and> srv_of c Compute 0 = Some 0 \<and>
    AView 1 \<in> outputs c Compute \<and> \<not> CheckOverlap two_mips (Some (AView 0)) (Some (AView 1))"
proof -
  obtain c where c: "write_level = Some c" "srv_of c Compute 0 = Some 0" "bs_map (ComputeUAVs c) 0 = Some \<lparr> uav_raw = Some 1, uav_view = Some 1 \<rparr>"
    using write_level_bound by auto
  then have "AView 1 \<in> outputs c Compute" by (auto simp: outputs_def intro: exI [of _ 0])
  then show ?thesis
    using no_input_overlaps_output [OF two_mips_ok write_level_reached [OF c(1)] c(2)] write_level_reached [OF c(1)] c(2) by blast
qed

end
