(* ===== verification/PendingCopies.thy ===== *)
theory PendingCopies
  imports PendingUpdates "HOL-Library.Multiset"
begin

text \<open>
  What a flush of pending updates writes. A copy is read as a partial map from byte offsets to bytes, a sequence
  of copies into one buffer as the overlay of their maps; the segments of a batch have the overlay of the updates
  they replace, and no two of them touch the same byte.
\<close>

subsection \<open>What a copy writes\<close>

type_synonym gpu_memory = "nat \<Rightarrow> u32 \<Rightarrow> u8"

definition write_range :: "nat \<Rightarrow> u32 \<Rightarrow> u32 \<Rightarrow> (u32 \<Rightarrow> u8) \<Rightarrow> gpu_memory \<Rightarrow> gpu_memory" where
  "write_range dst off len src mem = mem(dst := (\<lambda>a. if a - off < len then src (a - off) else mem dst a))"

text \<open>The copies of a command list, on the memory of the buffers; other commands leave it alone.\<close>

fun exec_copy :: "staging_memory \<Rightarrow> d3d11_cmd \<Rightarrow> gpu_memory \<Rightarrow> gpu_memory" where
  "exec_copy stg (BlitCopy sb so dst off len) mem = write_range dst off len (\<lambda>i. stg sb (so + ucast i)) mem"
| "exec_copy stg (ComputeCopy sb so dst off len) mem = write_range dst off len (\<lambda>i. stg sb (so + ucast i)) mem"
| "exec_copy stg (ComputeCopyRegions sb so dst regions m) mem =
     fold (\<lambda>r. write_range dst (rg_dst_offset r) (rg_byte_length r) (\<lambda>i. stg sb (so + ucast (rg_src_offset r) + ucast i)))
       regions mem"
| "exec_copy stg _ mem = mem"

definition run_copies :: "staging_memory \<Rightarrow> d3d11_cmd list \<Rightarrow> gpu_memory \<Rightarrow> gpu_memory" where
  "run_copies stg cs = fold (exec_copy stg) cs"

text \<open>The specification: the updates one after the other.\<close>

definition apply_update :: "staging_memory \<Rightarrow> pending_update \<Rightarrow> gpu_memory \<Rightarrow> gpu_memory" where
  "apply_update stg u =
     write_range (pu_dst u) (pu_dst_offset u) (pu_length u) (\<lambda>i. stg (pu_staging u) (pu_staging_offset u + ucast i))"

definition apply_updates :: "staging_memory \<Rightarrow> pending_update list \<Rightarrow> gpu_memory \<Rightarrow> gpu_memory" where
  "apply_updates stg us = fold (apply_update stg) us"

definition no_wrap :: "pending_update \<Rightarrow> bool" where
  "no_wrap u \<longleftrightarrow> pu_dst_offset u \<le> pu_dst_offset u + pu_length u"

subsection \<open>Overlays\<close>

definition piece :: "u32 \<Rightarrow> u32 \<Rightarrow> (u32 \<Rightarrow> u8) \<Rightarrow> u32 \<Rightarrow> u8 option" where
  "piece off len src a = (if a - off < len then Some (src (a - off)) else None)"

primrec overlay :: "('a \<Rightarrow> 'b option) list \<Rightarrow> 'a \<Rightarrow> 'b option" where
  "overlay [] = Map.empty"
| "overlay (w # ws) = w ++ overlay ws"

lemma overlay_append: "overlay (xs @ ys) = overlay xs ++ overlay ys"
  by (induction xs) simp_all

lemma dom_overlay: "dom (overlay ws) = (\<Union>w \<in> set ws. dom w)"
  by (induction ws) auto

lemma fold_write_range:
  "fold (\<lambda>(off, len, src). write_range dst off len src) ws mem =
     mem(dst := (\<lambda>a. case overlay (map (\<lambda>(off, len, src). piece off len src) ws) a of Some v \<Rightarrow> v | None \<Rightarrow> mem dst a))"
proof (induction ws arbitrary: mem)
  case Nil
  then show ?case by simp
next
  case (Cons w ws)
  obtain off len src where w: "w = (off, len, src)" by (metis surj_pair)
  define W where "W = overlay (map (\<lambda>(off, len, src). piece off len src) ws)"
  define mem1 where "mem1 = write_range dst off len src mem"
  have "fold (\<lambda>(off, len, src). write_range dst off len src) (w # ws) mem
      = mem1(dst := (\<lambda>a. case W a of Some v \<Rightarrow> v | None \<Rightarrow> mem1 dst a))"
    using Cons [of mem1] unfolding W_def [symmetric] by (simp add: w mem1_def [symmetric] fun_upd_def)
  also have "\<dots> = mem(dst := (\<lambda>a. case (piece off len src ++ W) a of Some v \<Rightarrow> v | None \<Rightarrow> mem dst a))"
    by (intro ext) (simp add: mem1_def write_range_def piece_def map_add_def split: option.split)
  finally show ?case by (simp add: w W_def)
qed

text \<open>Writes that agree as overlays have the same effect.\<close>

lemma fold_write_cong:
  assumes "overlay (map (\<lambda>(off, len, src). piece off len src) ws) = overlay (map (\<lambda>(off, len, src). piece off len src) ws')"
  shows "fold (\<lambda>(off, len, src). write_range dst off len src) ws mem = fold (\<lambda>(off, len, src). write_range dst off len src) ws' mem"
  by (simp add: fold_write_range assms)

text \<open>Where no two maps meet, their order does not matter.\<close>

lemma overlay_disjoint:
  assumes "sorted_wrt (\<lambda>v w. dom v \<inter> dom w = {}) ws"
  shows "overlay ws a = Some y \<longleftrightarrow> (\<exists>w \<in> set ws. w a = Some y)"
  using assms
proof (induction ws)
  case Nil
  then show ?case by simp
next
  case (Cons w ws)
  have "overlay ws a = None" if "w a \<noteq> None"
  proof -
    have "a \<notin> dom v" if "v \<in> set ws" for v
    proof -
      have "dom w \<inter> dom v = {}" using Cons.prems that by simp
      then show ?thesis using \<open>w a \<noteq> None\<close> by blast
    qed
    then have "a \<notin> dom (overlay ws)" by (simp add: dom_overlay)
    then show ?thesis by (simp add: domIff)
  qed
  moreover have "overlay ws a = Some y \<longleftrightarrow> (\<exists>w \<in> set ws. w a = Some y)" using Cons by simp
  ultimately show ?case by (cases "w a") (auto simp: map_add_def split: option.splits)
qed

lemma overlay_perm:
  assumes "sorted_wrt (\<lambda>v w. dom v \<inter> dom w = {}) ws" "mset ws' = mset ws"
  shows "overlay ws' = overlay ws"
proof -
  have inj: "v = w" if "v \<in> set ws" "w \<in> set ws" "v a \<noteq> None" "w a \<noteq> None" for v w a
    using assms(1) that by (induction ws) (auto simp: dom_def)
  have "overlay ws' a = overlay ws a" for a
  proof (cases "overlay ws a")
    case None
    then have "a \<notin> (\<Union>w \<in> set ws. dom w)" using dom_overlay [of ws] by (auto simp: domIff)
    then have "a \<notin> dom (overlay ws')" using dom_overlay [of ws'] mset_eq_setD [OF assms(2)] by simp
    then show ?thesis using None by auto
  next
    case (Some y)
    have "overlay vs a = Some y" if "set vs \<subseteq> set ws" "\<exists>w \<in> set vs. w a = Some y" for vs
      using that
    proof (induction vs)
      case (Cons v vs)
      show ?case
      proof (cases "\<exists>w \<in> set vs. w a = Some y")
        case True
        then show ?thesis using Cons by (simp add: map_add_def)
      next
        case False
        then have v: "v a = Some y" using Cons.prems by auto
        have "\<forall>w \<in> set vs. w a = None"
          using inj [of v _ a] v Cons.prems(1) False by (metis insert_subset list.simps(15) option.distinct(1) subsetD)
        then have "a \<notin> dom (overlay vs)" by (auto simp: dom_overlay domIff)
        then have "overlay vs a = None" by (simp add: domIff)
        then show ?thesis using v by (simp add: map_add_def)
      qed
    qed simp
    then show ?thesis using Some overlay_disjoint [OF assms(1), of a y] mset_eq_setD [OF assms(2)] by auto
  qed
  then show ?thesis by blast
qed

subsection \<open>Covered ranges\<close>

definition cov_set :: "ranges \<Rightarrow> u32 set" where
  "cov_set m = (\<Union>(s, e) \<in> set m. {s..<e})"

fun cov_ok :: "ranges \<Rightarrow> bool" where
  "cov_ok [] \<longleftrightarrow> True"
| "cov_ok ((s, e) # r) \<longleftrightarrow> s \<le> e \<and> (\<forall>(s', e') \<in> set r. e < s') \<and> cov_ok r"

lemma cov_set_simps [simp]:
  "cov_set [] = {}" "cov_set ((s, e) # r) = {s..<e} \<union> cov_set r" "cov_set (l @ r) = cov_set l \<union> cov_set r"
  by (auto simp: cov_set_def)

lemma cov_ok_append:
  "cov_ok (l @ r) \<longleftrightarrow> cov_ok l \<and> cov_ok r \<and> (\<forall>(s, e) \<in> set l. \<forall>(s', e') \<in> set r. e < s')"
  by (induction l rule: cov_ok.induct) auto

lemma cov_ok_le: "cov_ok m \<Longrightarrow> (s, e) \<in> set m \<Longrightarrow> s \<le> e"
  by (induction m rule: cov_ok.induct) auto

lemma before_lower: "before_key k m @ lower_bound k m = m"
  by (simp add: before_key_def lower_bound_def)

lemma before_key_less: "(s, e) \<in> set (before_key k m) \<Longrightarrow> s < k"
  by (auto simp: before_key_def dest: set_takeWhileD)

lemma lower_bound_ge:
  assumes "cov_ok m" "(s, e) \<in> set (lower_bound k m)"
  shows "k \<le> s"
  using assms
proof (induction m rule: cov_ok.induct)
  case (2 s1 e1 r)
  then show ?case by (auto simp: lower_bound_def split: if_splits)
qed (simp add: lower_bound_def)

lemma cov_split:
  assumes "cov_ok m"
  shows "cov_ok (before_key k m)" "cov_ok (lower_bound k m)"
    "\<And>s e s' e'. (s, e) \<in> set (before_key k m) \<Longrightarrow> (s', e') \<in> set (lower_bound k m) \<Longrightarrow> e < s'"
    "cov_set m = cov_set (before_key k m) \<union> cov_set (lower_bound k m)"
proof -
  have "cov_ok (before_key k m @ lower_bound k m)" using assms by (simp add: before_lower)
  then show "cov_ok (before_key k m)" "cov_ok (lower_bound k m)"
    "\<And>s e s' e'. (s, e) \<in> set (before_key k m) \<Longrightarrow> (s', e') \<in> set (lower_bound k m) \<Longrightarrow> e < s'"
    by (auto simp: cov_ok_append)
  show "cov_set m = cov_set (before_key k m) \<union> cov_set (lower_bound k m)"
    using before_lower [of k m] by (metis cov_set_simps(3))
qed

text \<open>Of the entries before a key only the last can reach it.\<close>

lemma before_last:
  assumes "cov_ok m" "before_key k m \<noteq> []"
  obtains l s e where "before_key k m = l @ [(s, e)]" "s < k" "s \<le> e" "cov_ok l" "\<And>s' e'. (s', e') \<in> set l \<Longrightarrow> e' < s"
proof -
  obtain l x where l: "before_key k m = l @ [x]" using assms(2) by (metis rev_exhaust)
  obtain s e where x: "x = (s, e)" by (cases x)
  have "cov_ok (l @ [(s, e)])" using cov_split(1) [OF assms(1), of k] l x by simp
  then show ?thesis
    using that [OF l [unfolded x]] before_key_less [of s e k m] l x by (auto simp: cov_ok_append)
qed

lemma absorb_spec:
  assumes "absorb end r = (end', r')" "cov_ok r" "\<forall>(s, e) \<in> set r. x \<le> s" "x \<le> end"
  shows "end \<le> end' \<and> cov_ok r' \<and> set r' \<subseteq> set r \<and> (\<forall>(s, e) \<in> set r'. end' < s) \<and>
    {x..<end'} \<union> cov_set r' = {x..<end} \<union> cov_set r"
  using assms
proof (induction "end" r arbitrary: end' r' rule: absorb.induct)
  case (1 "end")
  then show ?case by simp
next
  case (2 "end" s e r)
  show ?case
  proof (cases "s \<le> end")
    case True
    have p: "absorb (max end e) r = (end', r')" "cov_ok r" "\<forall>(s, e) \<in> set r. x \<le> s" "x \<le> max end e"
      using 2(2-5) True by (auto simp: le_max_iff_disj)
    have "{x..<max end e} = {x..<end} \<union> {s..<e}" using True 2(4,5) by (auto simp: max_def)
    then show ?thesis
      using 2(1) [OF True p] by (auto simp: max_def split: if_splits)
  next
    case False
    then have "end' = end" "r' = (s, e) # r" using 2(2) by simp_all
    moreover have "end < s'" if "(s', e') \<in> set ((s, e) # r)" for s' e'
    proof (cases "(s', e') = (s, e)")
      case True
      then show ?thesis using False by simp
    next
      case f: False
      then have "e < s'" "s \<le> e" using that 2(3) by auto
      then show ?thesis using False by simp
    qed
    ultimately show ?thesis using 2(3) by auto
  qed
qed

lemma emplace_between:
  assumes "\<forall>(s', e') \<in> set l. s' < s" "\<forall>(s', e') \<in> set r. s < s'"
  shows "map_emplace s e (l @ r) = l @ (s, e) # r"
proof -
  have "before_key s (l @ r) = l \<and> lower_bound s (l @ r) = r"
    using assms by (cases r) (auto simp: before_key_def lower_bound_def takeWhile_append dropWhile_append)
  then show ?thesis using assms(2) by (auto simp: map_emplace_def split: list.splits)
qed

lemma add_covered_range_spec:
  assumes "cov_ok m" "s \<le> e"
  shows "cov_ok (add_covered_range s e m) \<and> cov_set (add_covered_range s e m) = cov_set m \<union> {s..<e}"
proof -
  define p where "p = before_key s m"
  define r where "r = lower_bound s m"
  note sp = cov_split [OF assms(1), where k = s, folded p_def r_def]
  have rge: "\<forall>(s', e') \<in> set r. s \<le> s'" using lower_bound_ge [OF assms(1)] by (auto simp: r_def)
  define join where "join \<longleftrightarrow> p \<noteq> [] \<and> s \<le> snd (last p)"
  define s1 where "s1 = (if join then min s (fst (last p)) else s)"
  define e1 where "e1 = (if join then max e (snd (last p)) else e)"
  define p1 where "p1 = (if join then butlast p else p)"
  obtain e2 r2 where ab: "absorb e1 r = (e2, r2)" by (cases "absorb e1 r")
  have new: "add_covered_range s e m = map_emplace s1 e2 (p1 @ r2)"
  proof (cases join)
    case True
    then have "p \<noteq> [] \<and> s \<le> snd (last p)" by (simp add: join_def)
    then show ?thesis using ab True unfolding add_covered_range_def Let_def p_def [symmetric] r_def [symmetric]
      by (simp add: s1_def e1_def p1_def)
  next
    case False
    then have j: "\<not> (p \<noteq> [] \<and> s \<le> snd (last p))" by (simp add: join_def)
    show ?thesis using ab False
      unfolding add_covered_range_def Let_def p_def [symmetric] r_def [symmetric] if_not_P [OF j]
      by (simp add: s1_def e1_def p1_def)
  qed
  have P: "cov_ok p1 \<and> (\<forall>(s', e') \<in> set p1. s' < s1 \<and> e' < s1) \<and> s1 \<le> s \<and> s1 \<le> e1 \<and> e \<le> e1 \<and>
      cov_set p1 \<union> {s1..<e1} = cov_set p \<union> {s..<e} \<and> (\<forall>(s', e') \<in> set r. s1 \<le> s')"
  proof (cases "p = []")
    case True
    then show ?thesis using assms(2) rge by (simp add: join_def s1_def e1_def p1_def)
  next
    case False
    obtain l sl el where l: "p = l @ [(sl, el)]" "sl < s" "sl \<le> el" "cov_ok l" "\<And>s' e'. (s', e') \<in> set l \<Longrightarrow> e' < sl"
      using before_last [OF assms(1) False [unfolded p_def]] unfolding p_def by blast
    have ll: "s' < sl" if "(s', e') \<in> set l" for s' e' using cov_ok_le [OF l(4) that] l(5) [OF that] by simp
    show ?thesis
    proof (cases "s \<le> el")
      case True
      then have j: "s1 = sl" "e1 = max e el" "p1 = l" using l by (simp_all add: join_def s1_def e1_def p1_def)
      have "{sl..<max e el} = {sl..<el} \<union> {s..<e}" using True l(2,3) assms(2) by (auto simp: max_def)
      then show ?thesis using l ll j rge assms(2) True by (auto simp: max_def intro: less_imp_le less_le_trans)
    next
      case f: False
      then have j: "s1 = s" "e1 = e" "p1 = p" using l by (simp_all add: join_def s1_def e1_def p1_def)
      have "e' < s \<and> s' < s" if "(s', e') \<in> set p" for s' e'
      proof (cases "(s', e') \<in> set l")
        case True
        then show ?thesis using less_trans [OF l(5) [OF True] l(2)] less_trans [OF ll [OF True] l(2)] by simp
      next
        case False
        then show ?thesis using that f l(1,2) by simp
      qed
      then show ?thesis using j rge assms(2) sp(1) by auto
    qed
  qed
  have A: "e1 \<le> e2 \<and> cov_ok r2 \<and> set r2 \<subseteq> set r \<and> (\<forall>(s, e) \<in> set r2. e2 < s) \<and> {s1..<e2} \<union> cov_set r2 = {s1..<e1} \<union> cov_set r"
    using absorb_spec [OF ab sp(2)] P by blast
  have gt: "\<forall>(s', e') \<in> set r2. s1 < s'" using A P by (auto intro: le_less_trans)
  have eq: "add_covered_range s e m = p1 @ (s1, e2) # r2"
    unfolding new by (rule emplace_between) (use P gt in auto)
  have "cov_ok (p1 @ (s1, e2) # r2)"
  proof -
    have "e' < s'" if "(a, e') \<in> set p1" "(s', b) \<in> set r2" for a e' s' b
      using that P gt by (auto intro: less_trans)
    then show ?thesis using P A by (auto simp: cov_ok_append)
  qed
  moreover have "cov_set (p1 @ (s1, e2) # r2) = cov_set m \<union> {s..<e}"
    using P A sp(4) by auto
  ultimately show ?thesis unfolding eq by blast
qed

subsection \<open>The uncovered pieces\<close>

text \<open>The segment of update \<open>index\<close> for the bytes from \<open>lo\<close> to \<open>hi\<close>.\<close>

definition gap :: "nat \<Rightarrow> u32 \<Rightarrow> u32 \<times> u32 \<Rightarrow> segment" where
  "gap index d = (\<lambda>(lo, hi). \<lparr> update_index = index, sg_src_offset = lo - d, sg_dst_offset = lo, sg_length = hi - lo \<rparr>)"

text \<open>Nonempty ranges above \<open>d\<close>, in order.\<close>

fun ranges_in :: "u32 \<Rightarrow> ranges \<Rightarrow> bool" where
  "ranges_in d [] \<longleftrightarrow> True"
| "ranges_in d ((lo, hi) # r) \<longleftrightarrow> d \<le> lo \<and> lo < hi \<and> ranges_in hi r"

lemma ranges_in_mono: "ranges_in d r \<Longrightarrow> d' \<le> d \<Longrightarrow> ranges_in d' r"
  by (cases r) (auto intro: order_trans)

lemma scan_gaps_spec:
  assumes "scan_gaps index d e c l = (c', G)" "cov_ok l" "d \<le> c" "c \<le> e"
  shows "\<exists>I. G @ (if c' < e then [gap index d (c', e)] else []) = map (gap index d) I \<and> ranges_in c I \<and>
    cov_set I = {c..<e} - cov_set l"
  using assms
proof (induction index d e c l arbitrary: c' G rule: scan_gaps.induct)
  case (1 index d e c)
  then show ?case by (intro exI [of _ "if c < e then [(c, e)] else []"]) auto
next
  case (2 index d e c s f r)
  have ok: "s \<le> f" "cov_ok r" "\<forall>(s', e') \<in> set r. f < s'" using 2(3) by auto
  have above: "f < x" if "x \<in> cov_set r" for x
    using that ok(3) by (auto simp: cov_set_def intro: less_le_trans)
  show ?case
  proof (cases "s < e")
    case False
    then have j: "c' = c" "G = []" using 2(2) by auto
    have "x \<notin> cov_set r" if "x < e" for x using above [of x] False ok(1) that by auto
    then have "{c..<e} - cov_set ((s, f) # r) = {c..<e}" using False ok(1) by auto
    then show ?thesis unfolding j
      by (intro exI [of _ "if c < e then [(c, e)] else []"]) simp
  next
    case True
    define g where "g = (if c < s then [(c, s)] else [])"
    have gaps: "(if c < s then [\<lparr> update_index = index, sg_src_offset = c - d, sg_dst_offset = c, sg_length = min s e - c \<rparr>] else [])
        = map (gap index d) g"
      using True by (simp add: g_def gap_def)
    have gset: "cov_set g = {c..<s}" "ranges_in c g" by (auto simp: g_def)
    show ?thesis
    proof (cases "e \<le> max c f")
      case t: True
      then have j: "c' = max c f" "G = map (gap index d) g" using 2(2) True gaps by (simp_all add: Let_def)
      have "x \<in> {c..<e} - cov_set ((s, f) # r) \<longleftrightarrow> x \<in> {c..<s}" for x
      proof
        assume "x \<in> {c..<e} - cov_set ((s, f) # r)"
        then have x: "c \<le> x" "x < e" "\<not> (s \<le> x \<and> x < f)" by auto
        have "x < max c f" using x(2) t by (rule less_le_trans)
        then have "x < f" using x(1) by (auto simp: less_max_iff_disj)
        then show "x \<in> {c..<s}" using x by auto
      next
        assume "x \<in> {c..<s}"
        then show "x \<in> {c..<e} - cov_set ((s, f) # r)" using above [of x] True ok(1) by auto
      qed
      then have "cov_set g = {c..<e} - cov_set ((s, f) # r)" unfolding gset by blast
      moreover have "\<not> max c f < e" using t by (simp only: not_less)
      ultimately show ?thesis using gset(2) unfolding j by (intro exI [of _ g]) (simp only: if_False append_Nil2 simp_thms)
    next
      case f: False
      obtain G1 where rec: "scan_gaps index d e (max c f) r = (c', G1)" and G: "G = map (gap index d) g @ G1"
        using 2(2) True f gaps by (auto simp: Let_def split: prod.splits)
      have "d \<le> max c f" "max c f \<le> e" using 2(4) f by (auto simp: le_max_iff_disj)
      then obtain I where I: "G1 @ (if c' < e then [gap index d (c', e)] else []) = map (gap index d) I" "ranges_in (max c f) I"
        "cov_set I = {max c f..<e} - cov_set r"
        using 2(1) [OF True refl refl f rec ok(2)] by blast
      have "ranges_in c (g @ I)" using ranges_in_mono [OF I(2)] ok(1) by (auto simp: g_def le_max_iff_disj)
      moreover have "x \<in> cov_set (g @ I) \<longleftrightarrow> x \<in> {c..<e} - cov_set ((s, f) # r)" for x
      proof -
        have "x \<in> cov_set (g @ I) \<longleftrightarrow> c \<le> x \<and> x < s \<or> c \<le> x \<and> f \<le> x \<and> x < e \<and> x \<notin> cov_set r"
          by (auto simp: I(3) gset)
        also have "\<dots> \<longleftrightarrow> c \<le> x \<and> x < e \<and> \<not> (s \<le> x \<and> x < f) \<and> x \<notin> cov_set r"
          using above [of x] True ok(1) by auto
        finally show ?thesis by auto
      qed
      then have "cov_set (g @ I) = {c..<e} - cov_set ((s, f) # r)" by (rule set_eqI)
      moreover have "G @ (if c' < e then [gap index d (c', e)] else []) = map (gap index d) (g @ I)"
        using G I(1) by (simp only: append_assoc map_append)
      ultimately show ?thesis by blast
    qed
  qed
qed

lemma uncovered_spec:
  assumes "cov_ok m" "d \<le> e"
  shows "\<exists>I. uncovered index d e m = map (gap index d) I \<and> ranges_in d I \<and> cov_set I = {d..<e} - cov_set m"
proof -
  define p where "p = before_key d m"
  define r where "r = lower_bound d m"
  note sp = cov_split [OF assms(1), where k = d, folded p_def r_def]
  define it where "it = (if p \<noteq> [] \<and> d < snd (last p) then last p # r else r)"
  have it: "cov_ok it \<and> {d..<e} - cov_set it = {d..<e} - cov_set m"
  proof (cases "p = []")
    case True
    then show ?thesis using sp by (simp add: it_def)
  next
    case False
    obtain l sl el where l: "p = l @ [(sl, el)]" "sl < d" "sl \<le> el" "\<And>s' e'. (s', e') \<in> set l \<Longrightarrow> e' < sl"
      using before_last [OF assms(1) False [unfolded p_def]] unfolding p_def by metis
    have low: "cov_set l \<inter> {d..<e} = {}"
      using l(2,4) by (auto simp: cov_set_def) (meson less_trans not_le order_less_le_trans)
    have "el < s'" if "(s', e') \<in> set r" for s' e' by (rule sp(3) [of sl el, OF _ that]) (simp add: l(1))
    then have "cov_ok ((sl, el) # r)" using sp(2) l(3) by auto
    moreover have "\<not> d < el \<Longrightarrow> {sl..<el} \<inter> {d..<e} = {}" by auto
    ultimately show ?thesis using sp(2,4) low l by (auto simp: it_def)
  qed
  obtain c' G where sc: "scan_gaps index d e d it = (c', G)" by (cases "scan_gaps index d e d it")
  have "uncovered index d e m = G @ (if c' < e then [gap index d (c', e)] else [])"
    unfolding uncovered_def Let_def p_def [symmetric] r_def [symmetric] it_def [symmetric] sc by (simp add: gap_def)
  then show ?thesis using scan_gaps_spec [OF sc] it assms(2) by auto
qed

subsection \<open>The segments of a batch\<close>

definition read_staging :: "staging_memory \<Rightarrow> nat \<Rightarrow> u64 \<Rightarrow> u32 \<Rightarrow> u8" where
  "read_staging stg sb so i = stg sb (so + ucast i)"

definition update_map :: "staging_memory \<Rightarrow> pending_update \<Rightarrow> u32 \<Rightarrow> u8 option" where
  "update_map stg u = piece (pu_dst_offset u) (pu_length u) (read_staging stg (pu_staging u) (pu_staging_offset u))"

definition segment_map :: "staging_memory \<Rightarrow> pending_update list \<Rightarrow> segment \<Rightarrow> u32 \<Rightarrow> u8 option" where
  "segment_map stg us s =
     piece (sg_dst_offset s) (sg_length s)
       (read_staging stg (pu_staging (us ! update_index s)) (pu_staging_offset (us ! update_index s) + ucast (sg_src_offset s)))"

lemma in_range_word:
  fixes lo hi a :: u32
  assumes "lo \<le> hi"
  shows "a - lo < hi - lo \<longleftrightarrow> lo \<le> a \<and> a < hi"
proof (cases "lo \<le> a")
  case True
  then have "unat (a - lo) = unat a - unat lo" "unat (hi - lo) = unat hi - unat lo" using assms by (simp_all add: unat_sub)
  then show ?thesis using True assms by (simp add: word_less_nat_alt word_le_nat_alt) linarith
next
  case False
  have "hi - lo \<le> a - lo"
    using False assms unsigned_less [of lo, where 'a = nat] unsigned_less [of hi, where 'a = nat]
    by (simp add: word_le_nat_alt unat_sub_if')
  then show ?thesis using False by simp
qed

lemma ucast_diff_split:
  fixes d lo a :: u32
  assumes "d \<le> lo" "lo \<le> a"
  shows "(ucast (lo - d) + ucast (a - lo) :: u64) = ucast (a - d)"
proof (rule word_unat_eq_iff [THEN iffD2])
  have "unat (lo - d) = unat lo - unat d" "unat (a - lo) = unat a - unat lo" "unat (a - d) = unat a - unat d"
    using assms by (simp_all add: unat_sub order_trans [OF assms])
  then show "unat (ucast (lo - d) + ucast (a - lo) :: u64) = unat (ucast (a - d) :: u64)"
    using assms unsigned_less [of a, where 'a = nat] by (simp add: unat_word_ariths unsigned_ucast_eq word_le_nat_alt take_bit_eq_mod)
qed

lemma update_map_eq:
  assumes "no_wrap u"
  shows "update_map stg u a =
    (if pu_dst_offset u \<le> a \<and> a < pu_dst_offset u + pu_length u
     then Some (read_staging stg (pu_staging u) (pu_staging_offset u) (a - pu_dst_offset u)) else None)"
  using in_range_word [of "pu_dst_offset u" "pu_dst_offset u + pu_length u" a] assms
  by (simp add: update_map_def piece_def no_wrap_def)

lemma gap_map_eq:
  assumes "pu_dst_offset (us ! index) \<le> lo" "lo \<le> hi"
  shows "segment_map stg us (gap index (pu_dst_offset (us ! index)) (lo, hi)) a =
    (if lo \<le> a \<and> a < hi
     then Some (read_staging stg (pu_staging (us ! index)) (pu_staging_offset (us ! index)) (a - pu_dst_offset (us ! index)))
     else None)"
proof (cases "lo \<le> a \<and> a < hi")
  case True
  then have "ucast (lo - pu_dst_offset (us ! index)) + ucast (a - lo) = (ucast (a - pu_dst_offset (us ! index)) :: u64)"
    using ucast_diff_split assms(1) by blast
  then show ?thesis using True in_range_word [OF assms(2), of a]
    by (simp add: segment_map_def gap_def piece_def read_staging_def add.assoc)
next
  case False
  then show ?thesis using in_range_word [OF assms(2), of a] by (auto simp: segment_map_def gap_def piece_def)
qed

lemma gaps_overlay:
  assumes "ranges_in d I" "pu_dst_offset (us ! index) \<le> d"
  shows "overlay (map (segment_map stg us) (map (gap index (pu_dst_offset (us ! index))) I)) a =
    (if a \<in> cov_set I
     then Some (read_staging stg (pu_staging (us ! index)) (pu_staging_offset (us ! index)) (a - pu_dst_offset (us ! index)))
     else None)"
  using assms
proof (induction I arbitrary: d)
  case (Cons r I)
  obtain lo hi where r: "r = (lo, hi)" by (cases r)
  have "d \<le> lo" "lo < hi" "ranges_in hi I" using Cons.prems(1) by (simp_all add: r)
  then have g: "pu_dst_offset (us ! index) \<le> lo" "lo \<le> hi" "pu_dst_offset (us ! index) \<le> hi" using Cons.prems(2) by auto
  show ?case
    using Cons.IH [OF \<open>ranges_in hi I\<close> g(3)] gap_map_eq [OF g(1,2), of stg a]
    by (auto simp: r map_add_def split: option.splits)
qed simp

subsection \<open>The batch of a buffer\<close>

definition updates_from :: "nat \<Rightarrow> pending_update list \<Rightarrow> nat \<Rightarrow> pending_update list" where
  "updates_from b us i = filter (\<lambda>u. pu_dst u = b) (drop i us)"

text \<open>The state of the walk after the updates from index \<open>i\<close> on.\<close>

definition batch_inv :: "staging_memory \<Rightarrow> nat \<Rightarrow> pending_update list \<Rightarrow> nat \<Rightarrow> batch_info \<times> ranges \<Rightarrow> bool" where
  "batch_inv stg b us i = (\<lambda>(info, m).
     cov_ok m \<and> cov_set m = dom (overlay (map (update_map stg) (updates_from b us i))) \<and>
     overlay (map (segment_map stg us) (segments info)) = overlay (map (update_map stg) (updates_from b us i)) \<and>
     (\<forall>s \<in> set (segments info). pu_dst (us ! update_index s) = b) \<and>
     bi_count info = of_nat (length (updates_from b us i)))"

lemma analyze_update_inv:
  assumes inv: "batch_inv stg b us (Suc i) st" and i: "i < length us" and nw: "no_wrap (us ! i)"
  shows "batch_inv stg b us i (analyze_update b (us ! i) i st)"
proof -
  obtain info m where st: "st = (info, m)" by (cases st)
  define u where "u = us ! i"
  define ws where "ws = overlay (map (update_map stg) (updates_from b us (Suc i)))"
  have I: "cov_ok m" "cov_set m = dom ws" "overlay (map (segment_map stg us) (segments info)) = ws"
    "\<forall>s \<in> set (segments info). pu_dst (us ! update_index s) = b" "bi_count info = of_nat (length (updates_from b us (Suc i)))"
    using inv by (simp_all add: batch_inv_def st ws_def)
  show ?thesis
  proof (cases "pu_dst u = b")
    case False
    then have "updates_from b us i = updates_from b us (Suc i)"
      using i by (simp add: updates_from_def u_def Cons_nth_drop_Suc [symmetric])
    then show ?thesis using inv False by (simp add: batch_inv_def st analyze_update_def u_def)
  next
    case True
    then have D: "updates_from b us i = u # updates_from b us (Suc i)"
      using i by (simp add: updates_from_def u_def Cons_nth_drop_Suc [symmetric])
    define e where "e = pu_dst_offset u + pu_length u"
    have de: "pu_dst_offset u \<le> e" using nw by (simp add: no_wrap_def e_def u_def)
    obtain J where J: "uncovered i (pu_dst_offset u) e m = map (gap i (pu_dst_offset u)) J" "ranges_in (pu_dst_offset u) J"
      "cov_set J = {pu_dst_offset u..<e} - cov_set m"
      using uncovered_spec [OF I(1) de] by blast
    have um: "update_map stg u a = (if a \<in> {pu_dst_offset u..<e}
        then Some (read_staging stg (pu_staging u) (pu_staging_offset u) (a - pu_dst_offset u)) else None)" for a
      using update_map_eq [of u stg a] nw by (simp add: u_def e_def)
    have G: "overlay (map (segment_map stg us) (map (gap i (pu_dst_offset u)) J)) a =
        (if a \<in> {pu_dst_offset u..<e} - dom ws then update_map stg u a else None)" for a
      using gaps_overlay [OF J(2), of us i stg a] um [of a] by (simp add: J(3) I(2) u_def split: if_splits)
    have "overlay (map (segment_map stg us) (segments info @ uncovered i (pu_dst_offset u) e m)) = update_map stg u ++ ws"
    proof
      fix a
      show "overlay (map (segment_map stg us) (segments info @ uncovered i (pu_dst_offset u) e m)) a = (update_map stg u ++ ws) a"
        unfolding J(1) map_append overlay_append map_add_def G I(3) um by (cases "ws a") auto
    qed
    moreover have "cov_set m \<union> {pu_dst_offset u..<e} = dom (update_map stg u ++ ws)"
      by (auto simp: I(2) um dom_def map_add_def split: option.splits if_splits)
    moreover have "\<forall>s \<in> set (segments info @ uncovered i (pu_dst_offset u) e m). pu_dst (us ! update_index s) = b"
      using I(4) True unfolding J(1) by (auto simp: gap_def u_def)
    ultimately show ?thesis
      using add_covered_range_spec [OF I(1) de] True I(5) de
      by (simp add: batch_inv_def st analyze_update_def u_def [symmetric] D ws_def [symmetric] e_def [symmetric] Let_def not_less [symmetric])
  qed
qed

lemma analyze_from_inv:
  assumes "\<forall>u \<in> set us. no_wrap u"
  shows "batch_inv stg b us i st \<Longrightarrow> i \<le> length us \<Longrightarrow> batch_inv stg b us 0 (analyze_from b us i st)"
proof (induction i arbitrary: st)
  case (Suc i)
  then show ?case using analyze_update_inv [OF Suc.prems(1)] assms by simp
qed simp

lemma pack_sizes_keeps: "segments (pack_sizes ss info) = segments info" "bi_count (pack_sizes ss info) = bi_count info"
  by (induction ss arbitrary: info) (simp_all add: Let_def)

lemma analyze_batch:
  fixes b :: nat
  assumes "\<forall>u \<in> set us. no_wrap u"
  defines "batch \<equiv> AnalyzePendingBufferUpdateBatch b us"
  shows "overlay (map (segment_map stg us) (segments batch)) = overlay (map (update_map stg) (filter (\<lambda>u. pu_dst u = b) us))"
    "\<forall>s \<in> set (segments batch). pu_dst (us ! update_index s) = b"
    "bi_count batch = of_nat (length (filter (\<lambda>u. pu_dst u = b) us))"
proof -
  have "batch_inv stg b us (length us) (batch_new, [])" by (simp add: batch_inv_def batch_new_def updates_from_def)
  from analyze_from_inv [OF assms(1) this] have inv: "batch_inv stg b us 0 (analyze_from b us (length us) (batch_new, []))" by simp
  define r where "r = analyze_from b us (length us) (batch_new, [])"
  have eq: "segments batch = segments (fst r)" "bi_count batch = bi_count (fst r)"
    by (simp_all add: batch_def AnalyzePendingBufferUpdateBatch_def r_def Let_def pack_sizes_keeps)
  show "overlay (map (segment_map stg us) (segments batch)) = overlay (map (update_map stg) (filter (\<lambda>u. pu_dst u = b) us))"
    "\<forall>s \<in> set (segments batch). pu_dst (us ! update_index s) = b"
    "bi_count batch = of_nat (length (filter (\<lambda>u. pu_dst u = b) us))"
    using inv [folded r_def] unfolding eq batch_inv_def by (simp_all add: updates_from_def split: prod.splits)
qed

subsection \<open>What a batch emits\<close>

definition segment_cmd :: "pending_update list \<Rightarrow> segment \<Rightarrow> d3d11_cmd" where
  "segment_cmd us s =
     BlitCopy (pu_staging (us ! update_index s)) (pu_staging_offset (us ! update_index s) + ucast (sg_src_offset s))
       (pu_dst (us ! update_index s)) (sg_dst_offset s) (sg_length s)"

definition update_cmd :: "pending_update \<Rightarrow> d3d11_cmd" where
  "update_cmd u = BlitCopy (pu_staging u) (pu_staging_offset u) (pu_dst u) (pu_dst_offset u) (pu_length u)"

definition batch_cmds :: "nat \<Rightarrow> batch_info \<Rightarrow> pending_update list \<Rightarrow> d3d11_cmd list" where
  "batch_cmds b info us =
     (if segments info \<noteq> [] then map (segment_cmd us) (segments info) else map update_cmd (filter (\<lambda>u. pu_dst u = b) us))"

lemma emit_segments:
  assumes "pending_buffer_updates c = us"
  shows "fold (\<lambda>s c. EmitPendingBufferUpdateSegment (pending_buffer_updates c ! update_index s)
            (sg_src_offset s) (sg_dst_offset s) (sg_length s) c) ss c
      = c \<lparr> cmds := cmds c @ map (segment_cmd us) ss, has_dirty_op := has_dirty_op c \<or> ss \<noteq> [] \<rparr>"
  using assms
  by (induction ss arbitrary: c) (simp_all add: EmitPendingBufferUpdateSegment_def EmitOP_def segment_cmd_def)

lemma emit_updates:
  "fold (\<lambda>u c. if pu_dst u = b then EmitPendingBufferUpdate u c else c) us c
      = c \<lparr> cmds := cmds c @ map update_cmd (filter (\<lambda>u. pu_dst u = b) us),
           has_dirty_op := has_dirty_op c \<or> (\<exists>u \<in> set us. pu_dst u = b) \<rparr>"
  by (induction us arbitrary: c)
     (simp_all add: EmitPendingBufferUpdate_def EmitPendingBufferUpdateSegment_def EmitOP_def update_cmd_def)

lemma emit_batch:
  "cmds (EmitPendingBufferUpdateBatchBlit b info c) = cmds c @ batch_cmds b info (pending_buffer_updates c)"
  "pending_buffer_updates (EmitPendingBufferUpdateBatchBlit b info c) = pending_buffer_updates c"
  by (simp_all add: EmitPendingBufferUpdateBatchBlit_def batch_cmds_def emit_segments [OF refl] emit_updates)

text \<open>Running copies into one buffer, by what they overlay.\<close>

lemma run_blits:
  assumes "\<forall>x \<in> set xs. exec_copy stg (f x) = write_range b (off x) (len x) (src x)"
  shows "run_copies stg (map f xs) mem =
    mem(b := (\<lambda>a. case overlay (map (\<lambda>x. piece (off x) (len x) (src x)) xs) a of Some v \<Rightarrow> v | None \<Rightarrow> mem b a))"
proof -
  have "run_copies stg (map f xs) mem = fold (\<lambda>(off, len, src). write_range b off len src) (map (\<lambda>x. (off x, len x, src x)) xs) mem"
    using assms unfolding run_copies_def by (induction xs arbitrary: mem) simp_all
  then show ?thesis by (simp add: fold_write_range o_def)
qed

lemma exec_blit: "exec_copy stg (BlitCopy sb so dst off len) = write_range dst off len (read_staging stg sb so)"
  by (simp add: fun_eq_iff write_range_def read_staging_def)

lemma map_funs:
  "update_map stg = (\<lambda>u. piece (pu_dst_offset u) (pu_length u) (read_staging stg (pu_staging u) (pu_staging_offset u)))"
  "segment_map stg us = (\<lambda>s. piece (sg_dst_offset s) (sg_length s)
     (read_staging stg (pu_staging (us ! update_index s)) (pu_staging_offset (us ! update_index s) + ucast (sg_src_offset s))))"
  by (simp_all add: fun_eq_iff update_map_def segment_map_def)

lemma run_update_cmds:
  assumes "\<forall>u \<in> set us. pu_dst u = b"
  shows "run_copies stg (map update_cmd us) mem =
    mem(b := (\<lambda>a. case overlay (map (update_map stg) us) a of Some v \<Rightarrow> v | None \<Rightarrow> mem b a))"
  unfolding map_funs by (rule run_blits) (use assms in \<open>simp add: update_cmd_def exec_blit\<close>)

lemma run_segment_cmds:
  assumes "\<forall>s \<in> set ss. pu_dst (us ! update_index s) = b"
  shows "run_copies stg (map (segment_cmd us) ss) mem =
    mem(b := (\<lambda>a. case overlay (map (segment_map stg us) ss) a of Some v \<Rightarrow> v | None \<Rightarrow> mem b a))"
  unfolding map_funs by (rule run_blits) (use assms in \<open>simp add: segment_cmd_def exec_blit\<close>)

lemma apply_updates_cmds: "apply_updates stg us = run_copies stg (map update_cmd us)"
proof -
  have "exec_copy stg (update_cmd u) = apply_update stg u" for u by (simp add: fun_eq_iff apply_update_def update_cmd_def)
  then show ?thesis by (simp add: apply_updates_def run_copies_def fold_map o_def)
qed

text \<open>The emitted copies do what the updates of the buffer do one after the other.\<close>

lemma batch_runs:
  assumes "\<forall>u \<in> set us. no_wrap u"
  shows "run_copies stg (batch_cmds b (AnalyzePendingBufferUpdateBatch b us) us) mem =
    apply_updates stg (filter (\<lambda>u. pu_dst u = b) us) mem"
proof -
  note A = analyze_batch [OF assms, where b = b]
  have U: "apply_updates stg (filter (\<lambda>u. pu_dst u = b) us) mem =
      mem(b := (\<lambda>a. case overlay (map (update_map stg) (filter (\<lambda>u. pu_dst u = b) us)) a of Some v \<Rightarrow> v | None \<Rightarrow> mem b a))"
    unfolding apply_updates_cmds by (rule run_update_cmds) simp
  show ?thesis
    using run_segment_cmds [OF A(2), of stg mem] U A(1) by (simp add: batch_cmds_def apply_updates_cmds)
qed

text \<open>Updates of other buffers do not matter: the updates of one buffer can go first.\<close>

lemma apply_updates_cong:
  "m x = m' x \<Longrightarrow> apply_updates stg us m x = apply_updates stg us m' x"
proof (induction us arbitrary: m m')
  case (Cons u us)
  have "apply_update stg u m x = apply_update stg u m' x" using Cons.prems by (auto simp: apply_update_def write_range_def)
  then show ?case using Cons.IH [of "apply_update stg u m" "apply_update stg u m'"] by (simp add: apply_updates_def)
qed (simp add: apply_updates_def)

lemma apply_updates_at:
  "apply_updates stg us mem x = apply_updates stg (filter (\<lambda>u. pu_dst u = x) us) mem x"
proof (induction us arbitrary: mem)
  case (Cons u us)
  have "apply_updates stg (filter (\<lambda>u. pu_dst u = x) us) (apply_update stg u mem) x =
      apply_updates stg (filter (\<lambda>u. pu_dst u = x) us) mem x" if "pu_dst u \<noteq> x"
    by (rule apply_updates_cong) (use that in \<open>simp add: apply_update_def write_range_def\<close>)
  then show ?case using Cons [of "apply_update stg u mem"] by (simp add: apply_updates_def)
qed (simp add: apply_updates_def)

lemma apply_updates_other:
  assumes "\<forall>u \<in> set us. pu_dst u \<noteq> x"
  shows "apply_updates stg us mem x = mem x"
  unfolding apply_updates_at [of stg us mem x] filter_False [OF assms] by (simp add: apply_updates_def)

lemma apply_updates_first:
  "apply_updates stg (filter (\<lambda>u. pu_dst u \<noteq> b) us) (apply_updates stg (filter (\<lambda>u. pu_dst u = b) us) mem) = apply_updates stg us mem"
  (is "?l = ?r")
proof
  fix x
  show "?l x = ?r x"
  proof (cases "x = b")
    case True
    then show ?thesis
      unfolding apply_updates_at [of stg us mem x] by (subst apply_updates_other) auto
  next
    case False
    have "apply_updates stg (filter (\<lambda>u. pu_dst u = b) us) mem x = mem x" by (rule apply_updates_other) (use False in auto)
    then have "?l x = apply_updates stg (filter (\<lambda>u. pu_dst u \<noteq> b) us) mem x" by (rule apply_updates_cong)
    also have "\<dots> = apply_updates stg (filter (\<lambda>u. pu_dst u = x) us) mem x"
      unfolding apply_updates_at [of stg "filter (\<lambda>u. pu_dst u \<noteq> b) us"] filter_filter
      by (rule arg_cong [where f = "\<lambda>vs. apply_updates stg vs mem x"], rule filter_cong) (use False in auto)
    finally show ?thesis by (simp add: apply_updates_at [of stg us])
  qed
qed

subsection \<open>Flushing one buffer\<close>

lemma switch_keeps:
  "\<exists>pre. cmds (SwitchToBlitEncoder UpdateBlitEncoderActive c) = cmds c @ pre \<and> (\<forall>stg. run_copies stg pre = id)"
  "pending_buffer_updates (SwitchToBlitEncoder UpdateBlitEncoderActive c) = pending_buffer_updates c"
  by (auto simp: SwitchToBlitEncoder_def InvalidateCurrentPass_def EmitST_def Let_def run_copies_def fun_eq_iff)

lemma run_copies_append: "run_copies stg (xs @ ys) mem = run_copies stg ys (run_copies stg xs mem)"
  by (simp add: run_copies_def)

lemma counted_batch:
  assumes "\<forall>u \<in> set us. no_wrap u" "length us < 2 ^ 32"
  shows "bi_count (AnalyzePendingBufferUpdateBatch b us) = 0 \<longleftrightarrow> filter (\<lambda>u. pu_dst u = b) us = []"
proof -
  define n where "n = length (filter (\<lambda>u. pu_dst u = b) us)"
  have "n < 2 ^ LENGTH(32)" using le_less_trans [OF length_filter_le assms(2)] by (simp add: n_def)
  then have "(of_nat n :: u32) = 0 \<longleftrightarrow> n = 0" by (auto simp: word_of_nat_eq_0_iff dest: dvd_imp_le)
  then show ?thesis using analyze_batch(3) [OF assms(1), of b] by (simp add: n_def)
qed

text \<open>C17: flushing the pending updates of a buffer has the effect of the updates one after the other: the copies
  \<open>FlushPendingBufferUpdatesFor\<close> emits, however the batch cut and dropped overwritten bytes, leave in every
  buffer the bytes that replaying the buffer's updates in the order they were made would leave, and exactly the
  updates of that buffer are gone from the queue. The updates end where 32-bit offsets reach, as
  \<open>UpdateSubresource1\<close> makes them.\<close>

theorem flush_replays_updates:
  assumes "\<forall>u \<in> set (pending_buffer_updates c). no_wrap u" "length (pending_buffer_updates c) < 2 ^ 32"
  shows "\<exists>new. cmds (FlushPendingBufferUpdatesFor (Some b) c) = cmds c @ new \<and>
    (\<forall>stg mem. run_copies stg new mem = apply_updates stg (filter (\<lambda>u. pu_dst u = b) (pending_buffer_updates c)) mem) \<and>
    pending_buffer_updates (FlushPendingBufferUpdatesFor (Some b) c) = filter (\<lambda>u. pu_dst u \<noteq> b) (pending_buffer_updates c)"
proof (cases "filter (\<lambda>u. pu_dst u = b) (pending_buffer_updates c) = []")
  case True
  then have "FlushPendingBufferUpdatesFor (Some b) c = c"
    using counted_batch [OF assms, of b] by (simp add: FlushPendingBufferUpdatesFor_def)
  moreover have "filter (\<lambda>u. pu_dst u \<noteq> b) (pending_buffer_updates c) = pending_buffer_updates c"
    using True by (auto simp: filter_empty_conv filter_id_conv)
  ultimately show ?thesis by (simp add: True run_copies_def apply_updates_def)
next
  case False
  then have ne: "pending_buffer_updates c \<noteq> []" by auto
  define batch where "batch = AnalyzePendingBufferUpdateBatch b (pending_buffer_updates c)"
  have f: "FlushPendingBufferUpdatesFor (Some b) c = RemovePendingBufferUpdatesFor b
      (EmitPendingBufferUpdateBatchBlit b batch (SwitchToBlitEncoder UpdateBlitEncoderActive c))"
    using counted_batch [OF assms, of b] False ne by (simp add: FlushPendingBufferUpdatesFor_def batch_def)
  obtain pre where pre: "cmds (SwitchToBlitEncoder UpdateBlitEncoderActive c) = cmds c @ pre" "\<forall>stg. run_copies stg pre = id"
    using switch_keeps(1) by blast
  have "cmds (FlushPendingBufferUpdatesFor (Some b) c) = cmds c @ pre @ batch_cmds b batch (pending_buffer_updates c)"
    by (simp add: f RemovePendingBufferUpdatesFor_def emit_batch pre(1) switch_keeps(2))
  moreover have "run_copies stg (pre @ batch_cmds b batch (pending_buffer_updates c)) mem =
      apply_updates stg (filter (\<lambda>u. pu_dst u = b) (pending_buffer_updates c)) mem" for stg mem
    by (simp add: run_copies_append pre(2) batch_def batch_runs [OF assms(1)])
  moreover have "pending_buffer_updates (FlushPendingBufferUpdatesFor (Some b) c) =
      filter (\<lambda>u. pu_dst u \<noteq> b) (pending_buffer_updates c)"
    by (simp add: f RemovePendingBufferUpdatesFor_def emit_batch switch_keeps(2))
  ultimately show ?thesis by blast
qed

text \<open>Two updates of one buffer, the second inside the first, and one of another buffer.\<close>

definition nested_updates :: "pending_update list" where
  "nested_updates =
     [\<lparr> pu_dst = 7, pu_staging = 0, pu_staging_offset = 0, pu_dst_offset = 0, pu_length = 16,
        pu_allow_compute_pack = False, pu_payload = None, pu_chunk = 0 \<rparr>,
      \<lparr> pu_dst = 9, pu_staging = 0, pu_staging_offset = 16, pu_dst_offset = 4, pu_length = 4,
        pu_allow_compute_pack = False, pu_payload = None, pu_chunk = 0 \<rparr>,
      \<lparr> pu_dst = 7, pu_staging = 0, pu_staging_offset = 20, pu_dst_offset = 4, pu_length = 4,
        pu_allow_compute_pack = False, pu_payload = None, pu_chunk = 0 \<rparr>]"

lemma nested_updates_ok: "\<forall>u \<in> set nested_updates. no_wrap u" "length nested_updates < 2 ^ 32"
  by (simp_all add: nested_updates_def no_wrap_def)

theorem flush_replays_updates_witness:
  "\<exists>new. cmds (FlushPendingBufferUpdatesFor (Some 7) (new_context \<lparr> pending_buffer_updates := nested_updates \<rparr>)) = new \<and>
    (\<forall>stg mem. run_copies stg new mem = apply_updates stg (filter (\<lambda>u. pu_dst u = 7) nested_updates) mem) \<and>
    new = [StartBlitPass, BlitCopy 0 20 7 4 4, BlitCopy 0 0 7 0 4, BlitCopy 0 8 7 8 8]"
proof -
  have "cmds (FlushPendingBufferUpdatesFor (Some 7) (new_context \<lparr> pending_buffer_updates := nested_updates \<rparr>)) =
      [StartBlitPass, BlitCopy 0 20 7 4 4, BlitCopy 0 0 7 0 4, BlitCopy 0 8 7 8 8]"
    by code_simp
  then show ?thesis
    using flush_replays_updates [of "new_context \<lparr> pending_buffer_updates := nested_updates \<rparr>" 7] nested_updates_ok
    by (simp add: new_context_def)
qed

subsection \<open>Flushing everything\<close>

lemma flush_front_step:
  assumes "pending_buffer_updates c \<noteq> []"
  shows "pending_buffer_updates (flush_front c) =
      filter (\<lambda>u. pu_dst u \<noteq> pu_dst (hd (pending_buffer_updates c))) (pending_buffer_updates c)"
    "length (pending_buffer_updates (flush_front c)) < length (pending_buffer_updates c)"
proof -
  show f: "pending_buffer_updates (flush_front c) =
      filter (\<lambda>u. pu_dst u \<noteq> pu_dst (hd (pending_buffer_updates c))) (pending_buffer_updates c)"
    by (simp add: flush_front_def RemovePendingBufferUpdatesFor_def emit_batch Let_def)
  show "length (pending_buffer_updates (flush_front c)) < length (pending_buffer_updates c)"
    unfolding f using assms hd_in_set by (intro length_filter_less [of "hd (pending_buffer_updates c)"]) auto
qed

text \<open>C20: the loop that flushes every pending update ends, whatever is queued: each round
  removes at least the update it started from, and when \<open>FlushAllPendingBufferUpdates\<close> returns the queue is
  empty.\<close>

theorem flush_all_terminates:
  "\<exists>c'. FlushAllPendingBufferUpdates c = Some c' \<and> pending_buffer_updates c' = []"
proof (cases "pending_buffer_updates c = []")
  case True
  then show ?thesis by (simp add: FlushAllPendingBufferUpdates_def)
next
  case False
  obtain c' where c': "while_option (\<lambda>c. pending_buffer_updates c \<noteq> []) flush_front (SwitchToBlitEncoder UpdateBlitEncoderActive c) = Some c'"
    using measure_while_option_Some [of "\<lambda>_. True" "\<lambda>c. pending_buffer_updates c \<noteq> []" flush_front
        "\<lambda>c. length (pending_buffer_updates c)"] flush_front_step(2) by blast
  then show ?thesis using False while_option_stop [OF c'] by (simp add: FlushAllPendingBufferUpdates_def)
qed

lemma flush_rounds:
  assumes "\<forall>u \<in> set (pending_buffer_updates c). no_wrap u"
    "while_option (\<lambda>c. pending_buffer_updates c \<noteq> []) flush_front c = Some c'"
  shows "\<exists>new. cmds c' = cmds c @ new \<and> (\<forall>stg mem. run_copies stg new mem = apply_updates stg (pending_buffer_updates c) mem)"
proof -
  define P where "P = (\<lambda>d :: d3d11_ctx. (\<forall>u \<in> set (pending_buffer_updates d). no_wrap u) \<and>
    (\<exists>new. cmds d = cmds c @ new \<and> (\<forall>stg mem. apply_updates stg (pending_buffer_updates d) (run_copies stg new mem)
       = apply_updates stg (pending_buffer_updates c) mem)))"
  have "P (flush_front d)" if pd: "P d" and ne: "pending_buffer_updates d \<noteq> []" for d
  proof -
    define b where "b = pu_dst (hd (pending_buffer_updates d))"
    obtain new where new: "cmds d = cmds c @ new" "\<forall>stg mem. apply_updates stg (pending_buffer_updates d) (run_copies stg new mem)
       = apply_updates stg (pending_buffer_updates c) mem" and nw: "\<forall>u \<in> set (pending_buffer_updates d). no_wrap u"
      using pd unfolding P_def by blast
    define new' where "new' = new @ batch_cmds b (AnalyzePendingBufferUpdateBatch b (pending_buffer_updates d)) (pending_buffer_updates d)"
    have "cmds (flush_front d) = cmds c @ new'"
      by (simp add: flush_front_def RemovePendingBufferUpdatesFor_def emit_batch Let_def new'_def new(1) b_def)
    moreover have "apply_updates stg (pending_buffer_updates (flush_front d)) (run_copies stg new' mem)
        = apply_updates stg (pending_buffer_updates c) mem" for stg mem
      unfolding flush_front_step(1) [OF ne, folded b_def] new'_def run_copies_append batch_runs [OF nw]
        apply_updates_first new(2) [rule_format] ..
    ultimately show ?thesis using nw flush_front_step(1) [OF ne] by (auto simp: P_def)
  qed
  then have "P c'"
    using while_option_rule [of P, OF _ assms(2)] assms(1) by (auto simp: P_def run_copies_def)
  then show ?thesis using while_option_stop [OF assms(2)] by (auto simp: P_def apply_updates_def)
qed

text \<open>C18: flushing everything has the effect of all pending updates in the order they were queued, although the
  loop takes them buffer by buffer and cuts each buffer's updates into the copies that matter.\<close>

theorem flush_all_replays_updates:
  assumes "\<forall>u \<in> set (pending_buffer_updates c). no_wrap u"
  shows "\<exists>c' new. FlushAllPendingBufferUpdates c = Some c' \<and> cmds c' = cmds c @ new \<and>
    (\<forall>stg mem. run_copies stg new mem = apply_updates stg (pending_buffer_updates c) mem)"
proof (cases "pending_buffer_updates c = []")
  case True
  then show ?thesis by (simp add: FlushAllPendingBufferUpdates_def run_copies_def apply_updates_def)
next
  case False
  obtain c' where c': "while_option (\<lambda>c. pending_buffer_updates c \<noteq> []) flush_front (SwitchToBlitEncoder UpdateBlitEncoderActive c) = Some c'"
    using measure_while_option_Some [of "\<lambda>_. True" "\<lambda>c. pending_buffer_updates c \<noteq> []" flush_front
        "\<lambda>c. length (pending_buffer_updates c)"] flush_front_step(2) by blast
  obtain pre where pre: "cmds (SwitchToBlitEncoder UpdateBlitEncoderActive c) = cmds c @ pre" "\<forall>stg. run_copies stg pre = id"
    using switch_keeps(1) by blast
  obtain new where "cmds c' = cmds c @ pre @ new"
    "\<forall>stg mem. run_copies stg new mem = apply_updates stg (pending_buffer_updates c) mem"
    using flush_rounds [OF _ c'] assms by (auto simp: switch_keeps(2) pre(1))
  then have "cmds c' = cmds c @ (pre @ new) \<and>
      (\<forall>stg mem. run_copies stg (pre @ new) mem = apply_updates stg (pending_buffer_updates c) mem)"
    by (simp add: run_copies_append pre(2))
  then show ?thesis using False c' by (auto simp: FlushAllPendingBufferUpdates_def)
qed

theorem flush_all_replays_updates_witness:
  "\<exists>c'. FlushAllPendingBufferUpdates (new_context \<lparr> pending_buffer_updates := nested_updates \<rparr>) = Some c' \<and>
    (\<forall>stg mem. run_copies stg (cmds c') mem = apply_updates stg nested_updates mem)"
  using flush_all_replays_updates [of "new_context \<lparr> pending_buffer_updates := nested_updates \<rparr>"] nested_updates_ok(1)
  by (auto simp: new_context_def)

end
