(* ===== verification/DrawFlush.thy ===== *)
theory DrawFlush
  imports BindingHazards PendingCopies
begin

text \<open>
  Before a draw or a dispatch: the functions of src/src/d3d11/d3d11_context_impl.cpp that look for pending
  updates of what is bound and flush them. After the flush of a draw no vertex, index, shader resource,
  unordered access, stream output or buffer render target binding has an update waiting, and the copies do what the
  updates they replace did; a draw that only waits for constant buffers flushes nothing.
\<close>

subsection \<open>Flushing one binding\<close>

definition FlushPendingBufferUpdatesForResource :: "d3d11_env \<Rightarrow> ptr \<Rightarrow> d3d11_ctx \<Rightarrow> d3d11_ctx" where
  "FlushPendingBufferUpdatesForResource E resource c =
     (case Option.bind resource (\<lambda>r. rs_buffer (resources E r)) of
        Some b \<Rightarrow> FlushPendingBufferUpdatesFor (Some b) c | None \<Rightarrow> c)"

definition FlushPendingBufferUpdatesForSRV :: "srv_b \<Rightarrow> d3d11_ctx \<Rightarrow> d3d11_ctx" where
  "FlushPendingBufferUpdatesForSRV srv c =
     (case srv_buffer srv of Some b \<Rightarrow> FlushPendingBufferUpdatesFor (Some b) c | None \<Rightarrow> c)"

definition FlushPendingBufferUpdatesForUAV :: "d3d11_env \<Rightarrow> uav_b \<Rightarrow> d3d11_ctx \<Rightarrow> d3d11_ctx" where
  "FlushPendingBufferUpdatesForUAV E uav c =
     (case uav_view uav of
        None \<Rightarrow> c
      | Some v \<Rightarrow> (case vw_buffer (views E v) of Some b \<Rightarrow> FlushPendingBufferUpdatesFor (Some b) c | None \<Rightarrow> c))"

type_synonym staging_alloc = "u64 \<Rightarrow> d3d11_ctx \<Rightarrow> nat \<times> u64"

definition FlushPendingBufferUpdatesForComputeResource ::
  "staging_alloc \<Rightarrow> d3d11_env \<Rightarrow> ptr \<Rightarrow> d3d11_ctx \<times> staging_memory \<Rightarrow> d3d11_ctx \<times> staging_memory" where
  "FlushPendingBufferUpdatesForComputeResource alloc E resource s =
     (case Option.bind resource (\<lambda>r. rs_buffer (resources E r)) of
        Some b \<Rightarrow> FlushPendingBufferUpdatesForCompute alloc (Some b) s | None \<Rightarrow> s)"

definition FlushPendingBufferUpdatesForComputeSRV ::
  "staging_alloc \<Rightarrow> srv_b \<Rightarrow> d3d11_ctx \<times> staging_memory \<Rightarrow> d3d11_ctx \<times> staging_memory" where
  "FlushPendingBufferUpdatesForComputeSRV alloc srv s =
     (case srv_buffer srv of Some b \<Rightarrow> FlushPendingBufferUpdatesForCompute alloc (Some b) s | None \<Rightarrow> s)"

definition FlushPendingBufferUpdatesForComputeUAV ::
  "staging_alloc \<Rightarrow> d3d11_env \<Rightarrow> uav_b \<Rightarrow> d3d11_ctx \<times> staging_memory \<Rightarrow> d3d11_ctx \<times> staging_memory" where
  "FlushPendingBufferUpdatesForComputeUAV alloc E uav s =
     (case uav_view uav of
        None \<Rightarrow> s
      | Some v \<Rightarrow> (case vw_buffer (views E v) of Some b \<Rightarrow> FlushPendingBufferUpdatesForCompute alloc (Some b) s | None \<Rightarrow> s))"

subsection \<open>What a draw reads and writes\<close>

definition srv_used :: "shader_reflection \<Rightarrow> nat \<Rightarrow> bool" where
  "srv_used r n = (if n < 64 then SRVSlotMaskLo r AND push_bit n 1 \<noteq> 0 else SRVSlotMaskHi r AND push_bit (n - 64) 1 \<noteq> 0)"

definition resource_buffer :: "d3d11_env \<Rightarrow> ptr \<Rightarrow> ptr" where
  "resource_buffer E p = Option.bind p (\<lambda>r. rs_buffer (resources E r))"

definition view_buffer :: "d3d11_env \<Rightarrow> ptr \<Rightarrow> ptr" where
  "view_buffer E p = Option.bind p (\<lambda>v. vw_buffer (views E v))"

definition CollectPendingBufferUpdateDrawShaderStage :: "d3d11_env \<Rightarrow> pipeline_stage \<Rightarrow> d3d11_ctx \<Rightarrow> nat list \<Rightarrow> nat list" where
  "CollectPendingBufferUpdateDrawShaderStage E st c buffers =
     (let stage = ShaderStages c st in
      case Shader stage of
        None \<Rightarrow> buffers
      | Some sh \<Rightarrow>
          let r = reflection E sh;
              buffers = (if ConstantBufferSlotMask r \<noteq> 0
                 then buffers @ List.map_filter
                        (\<lambda>n. if n \<ge> 64 \<or> (ucast (ConstantBufferSlotMask r) :: u64) AND push_bit n 1 = 0 then None
                             else resource_buffer E (cb_buffer (bs_at (ConstantBuffers stage) n)))
                        (bs_slots (ConstantBuffers stage))
                 else buffers) in
          if SRVSlotMaskLo r \<noteq> 0 \<or> SRVSlotMaskHi r \<noteq> 0
          then buffers @ List.map_filter (\<lambda>n. if srv_used r n then srv_buffer (bs_at (SRVs stage) n) else None)
                 (bs_slots (SRVs stage))
          else buffers)"

definition DrawShaderStageHasPendingNonConstantBufferUpdate :: "d3d11_env \<Rightarrow> pipeline_stage \<Rightarrow> d3d11_ctx \<Rightarrow> bool" where
  "DrawShaderStageHasPendingNonConstantBufferUpdate E st c =
     (let stage = ShaderStages c st in
      case Shader stage of
        None \<Rightarrow> False
      | Some sh \<Rightarrow>
          let r = reflection E sh in
          (SRVSlotMaskLo r \<noteq> 0 \<or> SRVSlotMaskHi r \<noteq> 0) \<and>
          list_ex (\<lambda>n. srv_used r n \<and> HasPendingBufferUpdateFor (srv_buffer (bs_at (SRVs stage) n)) c) (bs_slots (SRVs stage)))"

definition DrawBindingsHavePendingNonConstantBufferUpdate :: "d3d11_env \<Rightarrow> d3d11_ctx \<Rightarrow> bool" where
  "DrawBindingsHavePendingNonConstantBufferUpdate E c \<longleftrightarrow>
     list_ex (\<lambda>n. HasPendingBufferUpdateFor (resource_buffer E (vb_buffer (bs_at (VertexBuffers c) n))) c) (bs_slots (VertexBuffers c)) \<or>
     HasPendingBufferUpdateFor (resource_buffer E (IndexBuffer c)) c \<or>
     DrawShaderStageHasPendingNonConstantBufferUpdate E Vertex c \<or>
     DrawShaderStageHasPendingNonConstantBufferUpdate E Pixel c \<or>
     DrawShaderStageHasPendingNonConstantBufferUpdate E Geometry c \<or>
     DrawShaderStageHasPendingNonConstantBufferUpdate E Hull c \<or>
     DrawShaderStageHasPendingNonConstantBufferUpdate E Domain c \<or>
     list_ex (\<lambda>rtv. HasPendingBufferUpdateFor (view_buffer E rtv) c) (RTVs c) \<or>
     list_ex (\<lambda>n. HasPendingBufferUpdateFor (view_buffer E (uav_view (bs_at (UAVs c) n))) c) (bs_slots (UAVs c)) \<or>
     list_ex (\<lambda>n. HasPendingBufferUpdateFor (resource_buffer E (so_buffer (bs_at (SOTargets c) n))) c) (bs_slots (SOTargets c))"

definition draw_buffers :: "d3d11_env \<Rightarrow> d3d11_ctx \<Rightarrow> nat list" where
  "draw_buffers E c =
     (let buffers = List.map_filter (\<lambda>n. resource_buffer E (vb_buffer (bs_at (VertexBuffers c) n))) (bs_slots (VertexBuffers c));
          buffers = buffers @ (case resource_buffer E (IndexBuffer c) of Some b \<Rightarrow> [b] | None \<Rightarrow> []);
          buffers = CollectPendingBufferUpdateDrawShaderStage E Vertex c buffers;
          buffers = CollectPendingBufferUpdateDrawShaderStage E Pixel c buffers;
          buffers = CollectPendingBufferUpdateDrawShaderStage E Geometry c buffers;
          buffers = CollectPendingBufferUpdateDrawShaderStage E Hull c buffers;
          buffers = CollectPendingBufferUpdateDrawShaderStage E Domain c buffers;
          buffers = buffers @ List.map_filter (view_buffer E) (RTVs c);
          buffers = buffers @ List.map_filter (\<lambda>n. view_buffer E (uav_view (bs_at (UAVs c) n))) (bs_slots (UAVs c)) in
      buffers @ List.map_filter (\<lambda>n. resource_buffer E (so_buffer (bs_at (SOTargets c) n))) (bs_slots (SOTargets c)))"

definition FlushPendingBufferUpdatesForDrawBindings :: "(nat set \<Rightarrow> nat list) \<Rightarrow> d3d11_env \<Rightarrow> d3d11_ctx \<Rightarrow> d3d11_ctx" where
  "FlushPendingBufferUpdatesForDrawBindings order E c =
     (if pending_buffer_updates c = [] then c
      else if \<not> DrawBindingsHavePendingNonConstantBufferUpdate E c then c
      else FlushPendingBufferUpdatesForMany order (map Some (draw_buffers E c)) c)"

subsection \<open>What a dispatch reads and writes\<close>

definition ComputeBindingsHavePendingNonConstantBufferUpdate :: "d3d11_env \<Rightarrow> d3d11_ctx \<Rightarrow> bool" where
  "ComputeBindingsHavePendingNonConstantBufferUpdate E c \<longleftrightarrow>
     list_ex (\<lambda>n. HasPendingBufferUpdateFor (srv_buffer (bs_at (SRVs (ShaderStages c Compute)) n)) c)
       (bs_slots (SRVs (ShaderStages c Compute))) \<or>
     list_ex (\<lambda>n. HasPendingBufferUpdateFor (view_buffer E (uav_view (bs_at (ComputeUAVs c) n))) c) (bs_slots (ComputeUAVs c))"

text \<open>The three loops read the tables as they run.\<close>

definition FlushPendingBufferUpdatesForComputeBindings ::
  "staging_alloc \<Rightarrow> d3d11_env \<Rightarrow> d3d11_ctx \<times> staging_memory \<Rightarrow> d3d11_ctx \<times> staging_memory" where
  "FlushPendingBufferUpdatesForComputeBindings alloc E s =
     (if pending_buffer_updates (fst s) = [] then s
      else if \<not> ComputeBindingsHavePendingNonConstantBufferUpdate E (fst s) then s
      else
        let s = visit_bound 14 (\<lambda>s. bs_bound (ConstantBuffers (ShaderStages (fst s) Compute)))
              (\<lambda>n s. FlushPendingBufferUpdatesForComputeResource alloc E (cb_buffer (bs_at (ConstantBuffers (ShaderStages (fst s) Compute)) n)) s) s;
            s = visit_bound 128 (\<lambda>s. bs_bound (SRVs (ShaderStages (fst s) Compute)))
              (\<lambda>n s. FlushPendingBufferUpdatesForComputeSRV alloc (bs_at (SRVs (ShaderStages (fst s) Compute)) n) s) s in
        visit_bound 64 (\<lambda>s. bs_bound (ComputeUAVs (fst s)))
          (\<lambda>n s. FlushPendingBufferUpdatesForComputeUAV alloc E (bs_at (ComputeUAVs (fst s)) n) s) s)"

subsection \<open>The bindings of a draw\<close>

text \<open>The buffers a draw uses other than through constant buffers, by what is bound.\<close>

definition stage_reads :: "d3d11_env \<Rightarrow> d3d11_ctx \<Rightarrow> pipeline_stage \<Rightarrow> nat \<Rightarrow> bool" where
  "stage_reads E c st b \<longleftrightarrow> (\<exists>sh n e. Shader (ShaderStages c st) = Some sh \<and> bs_map (SRVs (ShaderStages c st)) n = Some e \<and>
     srv_used (reflection E sh) n \<and> srv_buffer e = Some b)"

definition draw_uses :: "d3d11_env \<Rightarrow> d3d11_ctx \<Rightarrow> nat \<Rightarrow> bool" where
  "draw_uses E c b \<longleftrightarrow>
     (\<exists>n e. bs_map (VertexBuffers c) n = Some e \<and> resource_buffer E (vb_buffer e) = Some b) \<or>
     resource_buffer E (IndexBuffer c) = Some b \<or>
     (\<exists>st. st \<noteq> Compute \<and> stage_reads E c st b) \<or>
     (\<exists>rtv \<in> set (RTVs c). view_buffer E rtv = Some b) \<or>
     (\<exists>n e. bs_map (UAVs c) n = Some e \<and> view_buffer E (uav_view e) = Some b) \<or>
     (\<exists>n e. bs_map (SOTargets c) n = Some e \<and> resource_buffer E (so_buffer e) = Some b)"

lemma slot_iff: "bs_ok t \<Longrightarrow> n \<in> set (bs_slots t) \<longleftrightarrow> (\<exists>e. bs_map t n = Some e)"
  by (auto simp: bs_slots_eq dest: map_entry)

lemma slots_ex:
  assumes "bs_ok t"
  shows "(\<exists>n \<in> set (bs_slots t). P n (bs_at t n)) \<longleftrightarrow> (\<exists>n e. bs_map t n = Some e \<and> P n e)"
  using slot_iff [OF assms] by (auto dest: map_entry)

lemma in_map_filter: "b \<in> set (List.map_filter f xs) \<longleftrightarrow> (\<exists>x \<in> set xs. f x = Some b)"
  by (force simp: List.map_filter_def)

lemma table_bs_ok:
  assumes "tables_ok c"
  shows "bs_ok (VertexBuffers c)" "bs_ok (SRVs (ShaderStages c st))" "bs_ok (UAVs c)" "bs_ok (SOTargets c)" "bs_ok (ComputeUAVs c)"
  using assms by (auto simp: tables_ok_def table_ok_def)

lemma srv_used_mask: "srv_used r n \<Longrightarrow> SRVSlotMaskLo r \<noteq> 0 \<or> SRVSlotMaskHi r \<noteq> 0"
  by (auto simp: srv_used_def split: if_splits)

lemma has_pending: "HasPendingBufferUpdateFor p c \<longleftrightarrow> (\<exists>b. p = Some b \<and> HasPendingBufferUpdateFor (Some b) c)"
  by (cases p) (simp_all add: HasPendingBufferUpdateFor_def)

lemma stage_pending:
  assumes "tables_ok c"
  shows "DrawShaderStageHasPendingNonConstantBufferUpdate E st c \<longleftrightarrow> (\<exists>b. stage_reads E c st b \<and> HasPendingBufferUpdateFor (Some b) c)"
proof (cases "Shader (ShaderStages c st)")
  case None
  then show ?thesis by (simp add: DrawShaderStageHasPendingNonConstantBufferUpdate_def stage_reads_def)
next
  case (Some sh)
  let ?t = "SRVs (ShaderStages c st)"
  have "DrawShaderStageHasPendingNonConstantBufferUpdate E st c \<longleftrightarrow>
      (\<exists>n \<in> set (bs_slots ?t). srv_used (reflection E sh) n \<and> HasPendingBufferUpdateFor (srv_buffer (bs_at ?t n)) c)"
    using srv_used_mask [of "reflection E sh"]
    by (auto simp: DrawShaderStageHasPendingNonConstantBufferUpdate_def Some Let_def list_ex_iff)
  also have "\<dots> \<longleftrightarrow> (\<exists>n e. bs_map ?t n = Some e \<and> srv_used (reflection E sh) n \<and> HasPendingBufferUpdateFor (srv_buffer e) c)"
    by (rule slots_ex [where P = "\<lambda>n e. srv_used (reflection E sh) n \<and> HasPendingBufferUpdateFor (srv_buffer e) c", OF table_bs_ok(2) [OF assms]])
  also have "\<dots> \<longleftrightarrow> (\<exists>b. stage_reads E c st b \<and> HasPendingBufferUpdateFor (Some b) c)"
    unfolding stage_reads_def has_pending [of "srv_buffer e" for e] Some by blast
  finally show ?thesis .
qed

lemma draw_pending:
  assumes "tables_ok c"
  shows "DrawBindingsHavePendingNonConstantBufferUpdate E c \<longleftrightarrow> (\<exists>b. draw_uses E c b \<and> HasPendingBufferUpdateFor (Some b) c)"
proof -
  note ok = table_bs_ok [OF assms]
  let ?has = "\<lambda>p. HasPendingBufferUpdateFor p c"
  have st: "(\<exists>st. st \<noteq> Compute \<and> P st) \<longleftrightarrow> P Vertex \<or> P Pixel \<or> P Geometry \<or> P Hull \<or> P Domain" for P
    by (metis pipeline_stage.distinct pipeline_stage.exhaust)
  have "DrawBindingsHavePendingNonConstantBufferUpdate E c \<longleftrightarrow>
     (\<exists>n e. bs_map (VertexBuffers c) n = Some e \<and> ?has (resource_buffer E (vb_buffer e))) \<or>
     ?has (resource_buffer E (IndexBuffer c)) \<or>
     (\<exists>st. st \<noteq> Compute \<and> (\<exists>b. stage_reads E c st b \<and> ?has (Some b))) \<or>
     (\<exists>rtv \<in> set (RTVs c). ?has (view_buffer E rtv)) \<or>
     (\<exists>n e. bs_map (UAVs c) n = Some e \<and> ?has (view_buffer E (uav_view e))) \<or>
     (\<exists>n e. bs_map (SOTargets c) n = Some e \<and> ?has (resource_buffer E (so_buffer e)))"
    unfolding DrawBindingsHavePendingNonConstantBufferUpdate_def list_ex_iff stage_pending [OF assms]
      slots_ex [OF ok(1), where P = "\<lambda>n e. ?has (resource_buffer E (vb_buffer e))"]
      slots_ex [OF ok(3), where P = "\<lambda>n e. ?has (view_buffer E (uav_view e))"]
      slots_ex [OF ok(4), where P = "\<lambda>n e. ?has (resource_buffer E (so_buffer e))"]
      st
    by blast
  also have "\<dots> \<longleftrightarrow> (\<exists>b. draw_uses E c b \<and> ?has (Some b))"
    unfolding draw_uses_def has_pending [of "resource_buffer E p" for p] has_pending [of "view_buffer E p" for p] by blast
  finally show ?thesis .
qed

lemma collect_keeps: "set buffers \<subseteq> set (CollectPendingBufferUpdateDrawShaderStage E st c buffers)"
  by (auto simp: CollectPendingBufferUpdateDrawShaderStage_def Let_def split: option.splits)

lemma collect_reads:
  assumes "tables_ok c" "stage_reads E c st b"
  shows "b \<in> set (CollectPendingBufferUpdateDrawShaderStage E st c buffers)"
proof -
  obtain sh n e where e: "Shader (ShaderStages c st) = Some sh" "bs_map (SRVs (ShaderStages c st)) n = Some e"
    "srv_used (reflection E sh) n" "srv_buffer e = Some b"
    using assms(2) by (auto simp: stage_reads_def)
  have "n \<in> set (bs_slots (SRVs (ShaderStages c st)))" "bs_at (SRVs (ShaderStages c st)) n = e"
    using e(2) slot_iff [OF table_bs_ok(2) [OF assms(1)]] by (auto dest: map_entry)
  then show ?thesis using e srv_used_mask [OF e(3)]
    by (auto simp: CollectPendingBufferUpdateDrawShaderStage_def Let_def in_map_filter intro!: bexI [of _ n])
qed

lemma draw_buffers_cover:
  assumes ok: "tables_ok c" and "draw_uses E c b"
  shows "b \<in> set (draw_buffers E c)"
proof -
  note t = table_bs_ok [OF ok]
  define V where "V = List.map_filter (\<lambda>n. resource_buffer E (vb_buffer (bs_at (VertexBuffers c) n))) (bs_slots (VertexBuffers c))"
  define I where "I = (case resource_buffer E (IndexBuffer c) of Some b \<Rightarrow> [b] | None \<Rightarrow> [])"
  define R where "R = List.map_filter (view_buffer E) (RTVs c)"
  define U where "U = List.map_filter (\<lambda>n. view_buffer E (uav_view (bs_at (UAVs c) n))) (bs_slots (UAVs c))"
  define S where "S = List.map_filter (\<lambda>n. resource_buffer E (so_buffer (bs_at (SOTargets c) n))) (bs_slots (SOTargets c))"
  let ?get = "\<lambda>st. CollectPendingBufferUpdateDrawShaderStage E st c"
  have eq: "draw_buffers E c = ((?get Domain (?get Hull (?get Geometry (?get Pixel (?get Vertex (V @ I))))) @ R) @ U) @ S"
    by (simp add: draw_buffers_def Let_def V_def I_def R_def U_def S_def)
  have keep: "b \<in> set xs \<Longrightarrow> b \<in> set (?get st xs)" for st xs
    using collect_keeps by blast
  have mem: "(\<exists>n e. bs_map (VertexBuffers c) n = Some e \<and> resource_buffer E (vb_buffer e) = Some b) \<longleftrightarrow> b \<in> set V"
    "resource_buffer E (IndexBuffer c) = Some b \<longleftrightarrow> b \<in> set I"
    "(\<exists>rtv \<in> set (RTVs c). view_buffer E rtv = Some b) \<longleftrightarrow> b \<in> set R"
    "(\<exists>n e. bs_map (UAVs c) n = Some e \<and> view_buffer E (uav_view e) = Some b) \<longleftrightarrow> b \<in> set U"
    "(\<exists>n e. bs_map (SOTargets c) n = Some e \<and> resource_buffer E (so_buffer e) = Some b) \<longleftrightarrow> b \<in> set S"
    unfolding V_def I_def R_def U_def S_def in_map_filter
      slots_ex [OF t(1), where P = "\<lambda>n e. resource_buffer E (vb_buffer e) = Some b"]
      slots_ex [OF t(3), where P = "\<lambda>n e. view_buffer E (uav_view e) = Some b"]
      slots_ex [OF t(4), where P = "\<lambda>n e. resource_buffer E (so_buffer e) = Some b"]
    by (auto split: option.splits)
  consider "b \<in> set (V @ I)" | st where "st \<noteq> Compute" "stage_reads E c st b" | "b \<in> set R" | "b \<in> set U" | "b \<in> set S"
    using assms(2) unfolding draw_uses_def mem set_append by blast
  then show ?thesis
  proof cases
    case 1
    then show ?thesis unfolding eq set_append Un_iff by (intro disjI1 keep) simp
  next
    case 2
    then have "b \<in> set (?get Domain (?get Hull (?get Geometry (?get Pixel (?get Vertex (V @ I))))))"
      by (cases st) (simp_all add: collect_reads [OF ok] keep)
    then show ?thesis unfolding eq by simp
  qed (simp_all add: eq)
qed

subsection \<open>Flushing the bindings of a draw\<close>

lemma flush_one_spec:
  assumes "\<forall>u \<in> set (pending_buffer_updates c). no_wrap u" "length (pending_buffer_updates c) < 2 ^ 32"
  shows "pending_buffer_updates (flush_one b c) = filter (\<lambda>u. pu_dst u \<noteq> b) (pending_buffer_updates c)"
    "\<exists>new. cmds (flush_one b c) = cmds c @ new \<and>
      (\<forall>stg mem. run_copies stg new mem = apply_updates stg (filter (\<lambda>u. pu_dst u = b) (pending_buffer_updates c)) mem)"
proof -
  define us where "us = pending_buffer_updates c"
  have "pending_buffer_updates (flush_one b c) = filter (\<lambda>u. pu_dst u \<noteq> b) us \<and>
    (\<exists>new. cmds (flush_one b c) = cmds c @ new \<and>
      (\<forall>stg mem. run_copies stg new mem = apply_updates stg (filter (\<lambda>u. pu_dst u = b) us) mem))"
  proof (cases "filter (\<lambda>u. pu_dst u = b) us = []")
    case True
    then have "filter (\<lambda>u. pu_dst u \<noteq> b) us = us" by (auto simp: filter_empty_conv filter_id_conv)
    moreover have "flush_one b c = c" using counted_batch [OF assms, of b] True by (simp add: flush_one_def us_def)
    ultimately show ?thesis by (simp add: True us_def [symmetric] run_copies_def apply_updates_def)
  next
    case False
    then have f: "flush_one b c = RemovePendingBufferUpdatesFor b
        (EmitPendingBufferUpdateBatchBlit b (AnalyzePendingBufferUpdateBatch b us) c)"
      using counted_batch [OF assms, of b] by (simp add: flush_one_def us_def)
    then have "cmds (flush_one b c) = cmds c @ batch_cmds b (AnalyzePendingBufferUpdateBatch b us) us"
      "pending_buffer_updates (flush_one b c) = filter (\<lambda>u. pu_dst u \<noteq> b) us"
      by (simp_all add: RemovePendingBufferUpdatesFor_def emit_batch us_def)
    then show ?thesis using batch_runs [OF assms(1), of _ b] by (auto simp: us_def)
  qed
  then show "pending_buffer_updates (flush_one b c) = filter (\<lambda>u. pu_dst u \<noteq> b) (pending_buffer_updates c)"
    "\<exists>new. cmds (flush_one b c) = cmds c @ new \<and>
      (\<forall>stg mem. run_copies stg new mem = apply_updates stg (filter (\<lambda>u. pu_dst u = b) (pending_buffer_updates c)) mem)"
    by (simp_all add: us_def)
qed

text \<open>What a flush of a set of buffers does.\<close>

definition flushes :: "nat set \<Rightarrow> d3d11_ctx \<Rightarrow> d3d11_ctx \<Rightarrow> bool" where
  "flushes B c d \<longleftrightarrow>
     pending_buffer_updates d = filter (\<lambda>u. pu_dst u \<notin> B) (pending_buffer_updates c) \<and>
     (\<exists>new. cmds d = cmds c @ new \<and>
       (\<forall>stg mem. run_copies stg new mem = apply_updates stg (filter (\<lambda>u. pu_dst u \<in> B) (pending_buffer_updates c)) mem))"

lemma flushes_none: "\<forall>u \<in> set (pending_buffer_updates c). pu_dst u \<notin> B \<Longrightarrow> flushes B c c"
  by (simp add: flushes_def run_copies_def apply_updates_def filter_False)

lemma flush_targets_spec:
  assumes "\<forall>u \<in> set (pending_buffer_updates c). no_wrap u" "length (pending_buffer_updates c) < 2 ^ 32"
  shows "flushes (set bs) c (flush_targets bs c)"
  using assms
proof (induction bs arbitrary: c)
  case Nil
  then show ?case by (simp add: flushes_none)
next
  case (Cons b bs)
  show ?case
  proof (cases "pending_buffer_updates c = []")
    case True
    then show ?thesis by (simp add: flushes_none)
  next
    case False
    define us where "us = pending_buffer_updates c"
    note one = flush_one_spec [OF Cons.prems, of b]
    obtain new where new: "cmds (flush_one b c) = cmds c @ new"
      "\<forall>stg mem. run_copies stg new mem = apply_updates stg (filter (\<lambda>u. pu_dst u = b) us) mem"
      using one(2) by (auto simp: us_def)
    have p: "pending_buffer_updates (flush_one b c) = filter (\<lambda>u. pu_dst u \<noteq> b) us" using one(1) by (simp add: us_def)
    have "flushes (set bs) (flush_one b c) (flush_targets bs (flush_one b c))"
      using Cons.prems le_less_trans [OF length_filter_le] by (intro Cons.IH) (auto simp: p us_def)
    then obtain more where more: "cmds (flush_targets bs (flush_one b c)) = cmds c @ new @ more"
      "\<forall>stg mem. run_copies stg more mem = apply_updates stg (filter (\<lambda>u. pu_dst u \<in> set bs) (filter (\<lambda>u. pu_dst u \<noteq> b) us)) mem"
      "pending_buffer_updates (flush_targets bs (flush_one b c)) = filter (\<lambda>u. pu_dst u \<notin> set bs) (filter (\<lambda>u. pu_dst u \<noteq> b) us)"
      unfolding flushes_def p new(1) by auto
    define both where "both = filter (\<lambda>u. pu_dst u \<in> set (b # bs)) us"
    have eqs: "filter (\<lambda>u. pu_dst u \<in> set bs) (filter (\<lambda>u. pu_dst u \<noteq> b) us) = filter (\<lambda>u. pu_dst u \<noteq> b) both"
      "filter (\<lambda>u. pu_dst u = b) us = filter (\<lambda>u. pu_dst u = b) both"
      "filter (\<lambda>u. pu_dst u \<notin> set bs) (filter (\<lambda>u. pu_dst u \<noteq> b) us) = filter (\<lambda>u. pu_dst u \<notin> set (b # bs)) us"
      unfolding both_def filter_filter by (rule filter_cong [OF refl], auto)+
    have "run_copies stg (new @ more) mem = apply_updates stg both mem" for stg mem
      unfolding run_copies_append new(2) [rule_format] more(2) [rule_format] eqs apply_updates_first ..
    then show ?thesis
      using False more(1,3) unfolding flushes_def eqs(3) both_def us_def by (auto simp: append_assoc)
  qed
qed

lemma flush_many_spec:
  assumes "\<forall>u \<in> set (pending_buffer_updates c). no_wrap u" "length (pending_buffer_updates c) < 2 ^ 32"
    and order: "\<And>T. finite T \<Longrightarrow> set (order T) = T"
  shows "flushes (set bs) c (FlushPendingBufferUpdatesForMany order (map Some bs) c)"
proof -
  have bs: "List.map_filter (\<lambda>b. b) (map Some bs) = bs" by (induction bs) (simp_all add: List.map_filter_def)
  show ?thesis
  proof (cases "list_all (\<lambda>u. pu_dst u \<notin> set bs) (pending_buffer_updates c)")
    case True
    then have "FlushPendingBufferUpdatesForMany order (map Some bs) c = c" by (simp add: FlushPendingBufferUpdatesForMany_def bs Let_def)
    then show ?thesis using True by (simp add: flushes_none list_all_iff)
  next
    case False
    define d where "d = SwitchToBlitEncoder UpdateBlitEncoderActive c"
    have "FlushPendingBufferUpdatesForMany order (map Some bs) c = flush_targets (order (set bs)) d"
      using False by (auto simp: FlushPendingBufferUpdatesForMany_def bs d_def list_all_iff Let_def)
    moreover have "flushes (set bs) d (flush_targets (order (set bs)) d)"
      using flush_targets_spec [of d "order (set bs)"] assms(1,2) order [of "set bs"] by (simp add: d_def switch_keeps(2))
    moreover obtain pre where "cmds d = cmds c @ pre" "\<forall>stg. run_copies stg pre = id"
      using switch_keeps(1) unfolding d_def by blast
    ultimately show ?thesis
      unfolding flushes_def by (auto simp: d_def switch_keeps(2) run_copies_append)
  qed
qed

text \<open>C19: a draw never reads or writes a buffer past an update that waits for it: after
  \<open>FlushPendingBufferUpdatesForDrawBindings\<close> no buffer bound as vertex, index or stream output buffer, as a shader
  resource a bound shader declares, as an unordered access view or as a render target has a pending update; the
  updates that left the queue were replaced by copies with the same effect, and the others wait on in order.\<close>

theorem draw_bindings_flushed:
  assumes "tables_ok c" "\<forall>u \<in> set (pending_buffer_updates c). no_wrap u" "length (pending_buffer_updates c) < 2 ^ 32"
    and "\<And>T. finite T \<Longrightarrow> set (order T) = T"
  shows "\<exists>B. flushes B c (FlushPendingBufferUpdatesForDrawBindings order E c) \<and>
    (\<forall>b. draw_uses E c b \<longrightarrow> \<not> HasPendingBufferUpdateFor (Some b) (FlushPendingBufferUpdatesForDrawBindings order E c))"
proof (cases "DrawBindingsHavePendingNonConstantBufferUpdate E c")
  case False
  then have "FlushPendingBufferUpdatesForDrawBindings order E c = c" by (simp add: FlushPendingBufferUpdatesForDrawBindings_def)
  then show ?thesis using False draw_pending [OF assms(1)] flushes_none [of c "{}"] by auto
next
  case True
  then have "pending_buffer_updates c \<noteq> []" using draw_pending [OF assms(1)] by (auto simp: HasPendingBufferUpdateFor_def)
  then have f: "FlushPendingBufferUpdatesForDrawBindings order E c = FlushPendingBufferUpdatesForMany order (map Some (draw_buffers E c)) c"
    using True by (simp add: FlushPendingBufferUpdatesForDrawBindings_def)
  have "flushes (set (draw_buffers E c)) c (FlushPendingBufferUpdatesForDrawBindings order E c)"
    unfolding f by (rule flush_many_spec) (use assms(2-4) in auto)
  moreover from this have "\<not> HasPendingBufferUpdateFor (Some b) (FlushPendingBufferUpdatesForDrawBindings order E c)"
    if "draw_uses E c b" for b
    using draw_buffers_cover [OF assms(1) that] by (auto simp: flushes_def HasPendingBufferUpdateFor_def list_ex_iff)
  ultimately show ?thesis by blast
qed

text \<open>An index buffer with pending updates, and a constant buffer with one.\<close>

definition draw_env :: d3d11_env where
  "draw_env = two_mips \<lparr> resources := (\<lambda>r. \<lparr> rs_buffer = Some (r + 7), rs_flags = 0x6 \<rparr>),
     reflection := (\<lambda>_. \<lparr> ConstantBufferSlotMask = 1, SamplerSlotMask = 0, UAVSlotMask = 0, SRVSlotMaskHi = 0,
                           SRVSlotMaskLo = 0, arguments_info = [] \<rparr>) \<rparr>"

definition indexed_draw :: d3d11_ctx where
  "indexed_draw = new_context \<lparr> IndexBuffer := Some 0, pending_buffer_updates := nested_updates \<rparr>"

lemma new_tables: "tables_ok (new_context \<lparr> IndexBuffer := p, pending_buffer_updates := us \<rparr>)"
  by (simp add: tables_ok_def new_context_def stage_state_init_def new_table)

theorem draw_bindings_flushed_witness:
  "draw_uses draw_env indexed_draw 7 \<and> HasPendingBufferUpdateFor (Some 7) indexed_draw \<and>
   \<not> HasPendingBufferUpdateFor (Some 7) (FlushPendingBufferUpdatesForDrawBindings sorted_list_of_set draw_env indexed_draw)"
proof -
  have "draw_uses draw_env indexed_draw 7" by (simp add: draw_uses_def indexed_draw_def resource_buffer_def draw_env_def)
  moreover have "HasPendingBufferUpdateFor (Some 7) indexed_draw"
    by (simp add: HasPendingBufferUpdateFor_def indexed_draw_def nested_updates_def)
  ultimately show ?thesis
    using draw_bindings_flushed [of indexed_draw sorted_list_of_set draw_env] new_tables nested_updates_ok
    by (auto simp: indexed_draw_def)
qed


definition constant_draw :: "d3d11_ctx option" where
  "constant_draw = SetConstantBuffer draw_env Vertex 0 1 (\<lambda>_. Some 0) None None
     (SetShader Vertex (Some 0) (new_context \<lparr> pending_buffer_updates := nested_updates \<rparr>))"

lemma constant_draw_bound:
  "map_option (\<lambda>c. (Shader (ShaderStages c Vertex), map_option cb_buffer (bs_map (ConstantBuffers (ShaderStages c Vertex)) 0),
      map pu_dst (pending_buffer_updates c))) constant_draw = Some (Some 0, Some (Some 0), [7, 9, 7])"
  by code_simp

lemma constant_draw_idle: "map_option (DrawBindingsHavePendingNonConstantBufferUpdate draw_env) constant_draw = Some False"
  by code_simp

lemma constant_draw_tables:
  assumes "constant_draw = Some c"
  shows "tables_ok c"
proof -
  let ?c = "new_context \<lparr> pending_buffer_updates := nested_updates \<rparr>"
  have "hazard_inv draw_env ?c \<and> rtv_tail ?c" by (rule empty_context_inv) (simp_all add: new_context_def)
  then have "hazard_inv draw_env (SetShader Vertex (Some 0) ?c) \<and> rtv_tail (SetShader Vertex (Some 0) ?c)" by (rule set_shader_inv)
  from frame_inv [OF set_constant_buffers_frame [OF assms [unfolded constant_draw_def]] this]
  show ?thesis by (simp add: hazard_inv_def)
qed


subsection \<open>Flushing the bindings of a dispatch\<close>

text \<open>What is bound to the compute stage, whatever is dirty.\<close>

definition same_compute :: "d3d11_ctx \<Rightarrow> d3d11_ctx \<Rightarrow> bool" where
  "same_compute c d \<longleftrightarrow>
     bs_bound (ConstantBuffers (ShaderStages d Compute)) = bs_bound (ConstantBuffers (ShaderStages c Compute)) \<and>
     bs_storage (ConstantBuffers (ShaderStages d Compute)) = bs_storage (ConstantBuffers (ShaderStages c Compute)) \<and>
     bs_bound (SRVs (ShaderStages d Compute)) = bs_bound (SRVs (ShaderStages c Compute)) \<and>
     bs_storage (SRVs (ShaderStages d Compute)) = bs_storage (SRVs (ShaderStages c Compute)) \<and>
     bs_bound (ComputeUAVs d) = bs_bound (ComputeUAVs c) \<and> bs_storage (ComputeUAVs d) = bs_storage (ComputeUAVs c)"

lemma same_compute_refl [simp]: "same_compute c c"
  by (simp add: same_compute_def)

lemma same_compute_trans: "same_compute c d \<Longrightarrow> same_compute d e \<Longrightarrow> same_compute c e"
  by (simp add: same_compute_def)

lemma switch_compute:
  "same_compute c (SwitchToComputeEncoder c)" "pending_buffer_updates (SwitchToComputeEncoder c) = pending_buffer_updates c"
  by (auto simp: SwitchToComputeEncoder_def same_compute_def dirty_stage_def InvalidateCurrentPass_def Commit_def EmitST_def
      set_dirty_def Let_def)

lemma emit_copies:
  "pending_buffer_updates (fold (\<lambda>u c. if pu_dst u = b then EmitComputeCopy u c else c) us c) = pending_buffer_updates c \<and>
   same_compute c (fold (\<lambda>u c. if pu_dst u = b then EmitComputeCopy u c else c) us c)"
  by (induction us arbitrary: c) (simp_all add: EmitComputeCopy_def EmitOP_def same_compute_def)

lemma compute_batch:
  "pending_buffer_updates (fst (flush_compute_batch alloc b batch s)) = filter (\<lambda>u. pu_dst u \<noteq> b) (pending_buffer_updates (fst s))"
  "same_compute (fst s) (fst (flush_compute_batch alloc b batch s))"
proof -
  obtain c stg where s: "s = (c, stg)" by (cases s)
  show "pending_buffer_updates (fst (flush_compute_batch alloc b batch s)) = filter (\<lambda>u. pu_dst u \<noteq> b) (pending_buffer_updates (fst s))"
    "same_compute (fst s) (fst (flush_compute_batch alloc b batch s))"
    using emit_copies [of b "pending_buffer_updates c" c]
    by (auto simp: s flush_compute_batch_def EmitPackedPendingBufferUpdateBatch_def RemovePendingBufferUpdatesFor_def EmitOP_def
        same_compute_def split: prod.splits)
qed

text \<open>The updates a flush needs to have counted: without wrap-around, and fewer than 32 bits count.\<close>

definition countable_updates :: "d3d11_ctx \<Rightarrow> bool" where
  "countable_updates c \<longleftrightarrow> (\<forall>u \<in> set (pending_buffer_updates c). no_wrap u) \<and> length (pending_buffer_updates c) < 2 ^ 32"

lemma countable_filter:
  assumes "countable_updates c" "pending_buffer_updates d = filter P (pending_buffer_updates c)"
  shows "countable_updates d"
  using assms le_less_trans [OF length_filter_le] by (auto simp: countable_updates_def)

lemma compute_flush:
  assumes "countable_updates (fst s)"
  shows "pending_buffer_updates (fst (FlushPendingBufferUpdatesForCompute alloc p s)) =
      filter (\<lambda>u. Some (pu_dst u) \<noteq> p) (pending_buffer_updates (fst s))"
    "same_compute (fst s) (fst (FlushPendingBufferUpdatesForCompute alloc p s))"
proof -
  obtain c stg where s: "s = (c, stg)" by (cases s)
  define us where "us = pending_buffer_updates c"
  have ok: "\<forall>u \<in> set us. no_wrap u" "length us < 2 ^ 32" using assms by (simp_all add: s us_def countable_updates_def)
  have "pending_buffer_updates (fst (FlushPendingBufferUpdatesForCompute alloc p s)) = filter (\<lambda>u. Some (pu_dst u) \<noteq> p) us \<and>
    same_compute c (fst (FlushPendingBufferUpdatesForCompute alloc p s))"
  proof (cases p)
    case None
    then show ?thesis by (simp add: FlushPendingBufferUpdatesForCompute_def s us_def)
  next
    case (Some b)
    show ?thesis
    proof (cases "filter (\<lambda>u. pu_dst u = b) us = []")
      case True
      then have "filter (\<lambda>u. pu_dst u \<noteq> b) us = us" by (auto simp: filter_empty_conv filter_id_conv)
      moreover have "FlushPendingBufferUpdatesForCompute alloc p s = s"
        using counted_batch [OF ok, of b] True by (simp add: FlushPendingBufferUpdatesForCompute_def Some s us_def Let_def)
      ultimately show ?thesis by (simp add: Some s us_def)
    next
      case False
      define r where "r = flush_compute_batch alloc b (AnalyzePendingBufferUpdateBatch b us) (SwitchToComputeEncoder c, stg)"
      have "us \<noteq> []" using False by auto
      then have f: "FlushPendingBufferUpdatesForCompute alloc p s = (InvalidateComputePipeline (fst r), snd r)"
        using counted_batch [OF ok, of b] False
        by (simp add: FlushPendingBufferUpdatesForCompute_def Some s us_def [symmetric] Let_def r_def [symmetric] split: prod.split)
      have inv: "pending_buffer_updates (InvalidateComputePipeline d) = pending_buffer_updates d"
        "same_compute d (InvalidateComputePipeline d)" for d
        by (simp_all add: InvalidateComputePipeline_def same_compute_def)
      have "same_compute c (InvalidateComputePipeline (fst r))"
        using same_compute_trans [OF same_compute_trans [OF switch_compute(1) [of c] compute_batch(2) [of "(SwitchToComputeEncoder c, stg)", unfolded fst_conv]] inv(2)]
        by (simp add: r_def)
      then show ?thesis
        using compute_batch(1) [of alloc b _ "(SwitchToComputeEncoder c, stg)"] unfolding f by (simp add: inv(1) r_def switch_compute(2) us_def Some)
    qed
  qed
  then show "pending_buffer_updates (fst (FlushPendingBufferUpdatesForCompute alloc p s)) =
      filter (\<lambda>u. Some (pu_dst u) \<noteq> p) (pending_buffer_updates (fst s))"
    "same_compute (fst s) (fst (FlushPendingBufferUpdatesForCompute alloc p s))"
    by (simp_all add: s us_def)
qed

text \<open>A loop over bound slots that flushes the buffer each slot has.\<close>

lemma flush_slots:
  assumes "countable_updates (fst s)" "bits_ok N (bits s)"
    and bits: "\<And>s t. same_compute (fst s) (fst t) \<Longrightarrow> bits t = bits s"
    and body: "\<And>n t. same_compute (fst s) (fst t) \<Longrightarrow> body n t = FlushPendingBufferUpdatesForCompute alloc (buf n) t"
  shows "pending_buffer_updates (fst (visit_bound N bits body s)) =
      filter (\<lambda>u. \<forall>n \<in> set (filter (bits_get (bits s)) [0..<N]). Some (pu_dst u) \<noteq> buf n) (pending_buffer_updates (fst s))"
    "same_compute (fst s) (fst (visit_bound N bits body s))"
proof -
  define P where "P = (\<lambda>t :: d3d11_ctx \<times> staging_memory. same_compute (fst s) (fst t) \<and> countable_updates (fst t))"
  have step: "P (body n t) \<and> bits (body n t) = bits s \<and>
      pending_buffer_updates (fst (body n t)) = filter (\<lambda>u. Some (pu_dst u) \<noteq> buf n) (pending_buffer_updates (fst t))" if "P t" for n t
  proof -
    have t: "same_compute (fst s) (fst t)" "countable_updates (fst t)" using that by (simp_all add: P_def)
    note F = compute_flush [OF t(2), of alloc "buf n", folded body [OF t(1)]]
    show ?thesis
      using F same_compute_trans [OF t(1) F(2)] countable_filter [OF t(2) F(1)] bits [OF same_compute_trans [OF t(1) F(2)]]
      by (simp add: P_def)
  qed
  have "visit_bound N bits body s = fold body (filter (bits_get (bits s)) [0..<N]) s"
  proof (rule visit_bound_fold [where P = P])
    show "P s" using assms(1) by (simp add: P_def)
    show "bits_ok N (bits t)" if "P t" for t using that assms(2) bits [of s t] by (simp add: P_def)
    show "P (body n t) \<and> (\<forall>m. n < m \<and> m < N \<longrightarrow> bits_get (bits (body n t)) m = bits_get (bits t) m)" if "P t" "n < N" for t n
      using step [OF that(1)] that(1) bits [of s t] by (simp add: P_def)
  qed
  moreover have "P (fold body ns t) \<and> pending_buffer_updates (fst (fold body ns t)) =
      filter (\<lambda>u. \<forall>n \<in> set ns. Some (pu_dst u) \<noteq> buf n) (pending_buffer_updates (fst t))" if "P t" for ns t
    using that
  proof (induction ns arbitrary: t)
    case (Cons n ns)
    have "P (body n t)" using step [OF Cons.prems] by simp
    from Cons.IH [OF this] show ?case using step [OF Cons.prems] by (simp add: conj_commute)
  qed simp
  ultimately show "pending_buffer_updates (fst (visit_bound N bits body s)) =
      filter (\<lambda>u. \<forall>n \<in> set (filter (bits_get (bits s)) [0..<N]). Some (pu_dst u) \<noteq> buf n) (pending_buffer_updates (fst s))"
    "same_compute (fst s) (fst (visit_bound N bits body s))"
    using assms(1) by (simp_all add: P_def)
qed

text \<open>What a dispatch uses.\<close>

definition dispatch_uses :: "d3d11_env \<Rightarrow> d3d11_ctx \<Rightarrow> nat \<Rightarrow> bool" where
  "dispatch_uses E c b \<longleftrightarrow>
     (\<exists>n e. bs_map (SRVs (ShaderStages c Compute)) n = Some e \<and> srv_buffer e = Some b) \<or>
     (\<exists>n e. bs_map (ComputeUAVs c) n = Some e \<and> view_buffer E (uav_view e) = Some b)"

lemma dispatch_pending:
  assumes "tables_ok c"
  shows "ComputeBindingsHavePendingNonConstantBufferUpdate E c \<longleftrightarrow> (\<exists>b. dispatch_uses E c b \<and> HasPendingBufferUpdateFor (Some b) c)"
proof -
  let ?has = "\<lambda>p. HasPendingBufferUpdateFor p c"
  have "ComputeBindingsHavePendingNonConstantBufferUpdate E c \<longleftrightarrow>
     (\<exists>n e. bs_map (SRVs (ShaderStages c Compute)) n = Some e \<and> ?has (srv_buffer e)) \<or>
     (\<exists>n e. bs_map (ComputeUAVs c) n = Some e \<and> ?has (view_buffer E (uav_view e)))"
    unfolding ComputeBindingsHavePendingNonConstantBufferUpdate_def list_ex_iff
      slots_ex [OF table_bs_ok(2) [OF assms], where P = "\<lambda>n e. ?has (srv_buffer e)"]
      slots_ex [OF table_bs_ok(5) [OF assms], where P = "\<lambda>n e. ?has (view_buffer E (uav_view e))"] ..
  also have "\<dots> \<longleftrightarrow> (\<exists>b. dispatch_uses E c b \<and> ?has (Some b))"
    unfolding dispatch_uses_def has_pending [of "srv_buffer e" for e] has_pending [of "view_buffer E p" for p] by blast
  finally show ?thesis .
qed

lemma bound_slot:
  assumes "bs_map t n = Some e" "bs_size t = N"
  shows "n \<in> set (filter (bits_get (bs_bound t)) [0..<N])" "bs_at t n = e"
  using assms by (auto simp: bs_map_def test_bound_def bs_at_def split: if_splits)

lemma table_bits: "table_ok N t \<Longrightarrow> bits_ok N (bs_bound t)"
  by (auto simp: table_ok_def bs_ok_def)

text \<open>The three loops of a dispatch: each keeps the bindings and filters the queue by the buffers it visits.\<close>

lemma none_flushes_nothing: "FlushPendingBufferUpdatesForCompute alloc None s = s"
  by (cases s) (simp add: FlushPendingBufferUpdatesForCompute_def)

lemma compute_constants_visited:
  fixes s :: "d3d11_ctx \<times> staging_memory" and alloc E
  assumes ok: "countable_updates (fst s)" "bits_ok 14 (bs_bound (ConstantBuffers (ShaderStages (fst s) Compute)))"
  defines "s' \<equiv> visit_bound 14 (\<lambda>s. bs_bound (ConstantBuffers (ShaderStages (fst s) Compute)))
      (\<lambda>n s. FlushPendingBufferUpdatesForComputeResource alloc E
                (cb_buffer (bs_at (ConstantBuffers (ShaderStages (fst s) Compute)) n)) s) s"
  shows "same_compute (fst s) (fst s') \<and> countable_updates (fst s')"
proof -
  note F = flush_slots [of s 14 "\<lambda>s. bs_bound (ConstantBuffers (ShaderStages (fst s) Compute))"
      "\<lambda>n s. FlushPendingBufferUpdatesForComputeResource alloc E
                (cb_buffer (bs_at (ConstantBuffers (ShaderStages (fst s) Compute)) n)) s" alloc
      "\<lambda>n. resource_buffer E (cb_buffer (bs_at (ConstantBuffers (ShaderStages (fst s) Compute)) n))",
      OF ok, folded s'_def]
  have "pending_buffer_updates (fst s') = filter (\<lambda>u. \<forall>n \<in> set (filter (bits_get (bs_bound (ConstantBuffers (ShaderStages (fst s) Compute)))) [0..<14]).
      Some (pu_dst u) \<noteq> resource_buffer E (cb_buffer (bs_at (ConstantBuffers (ShaderStages (fst s) Compute)) n))) (pending_buffer_updates (fst s))
    \<and> same_compute (fst s) (fst s')"
    by (intro conjI F)
       (auto simp: same_compute_def bs_at_def FlushPendingBufferUpdatesForComputeResource_def resource_buffer_def
          none_flushes_nothing split: option.splits)
  then show ?thesis using countable_filter [OF ok(1)] by auto
qed

lemma compute_srvs_visited:
  fixes s :: "d3d11_ctx \<times> staging_memory" and alloc
  assumes ok: "countable_updates (fst s)" "bits_ok 128 (bs_bound (SRVs (ShaderStages (fst s) Compute)))"
  defines "s' \<equiv> visit_bound 128 (\<lambda>s. bs_bound (SRVs (ShaderStages (fst s) Compute)))
      (\<lambda>n s. FlushPendingBufferUpdatesForComputeSRV alloc (bs_at (SRVs (ShaderStages (fst s) Compute)) n) s) s"
  shows "same_compute (fst s) (fst s') \<and> countable_updates (fst s') \<and> pending_buffer_updates (fst s') =
    filter (\<lambda>u. \<forall>n \<in> set (filter (bits_get (bs_bound (SRVs (ShaderStages (fst s) Compute)))) [0..<128]).
      Some (pu_dst u) \<noteq> srv_buffer (bs_at (SRVs (ShaderStages (fst s) Compute)) n)) (pending_buffer_updates (fst s))"
proof -
  note F = flush_slots [of s 128 "\<lambda>s. bs_bound (SRVs (ShaderStages (fst s) Compute))"
      "\<lambda>n s. FlushPendingBufferUpdatesForComputeSRV alloc (bs_at (SRVs (ShaderStages (fst s) Compute)) n) s" alloc
      "\<lambda>n. srv_buffer (bs_at (SRVs (ShaderStages (fst s) Compute)) n)", OF ok, folded s'_def]
  have "pending_buffer_updates (fst s') =
      filter (\<lambda>u. \<forall>n \<in> set (filter (bits_get (bs_bound (SRVs (ShaderStages (fst s) Compute)))) [0..<128]).
        Some (pu_dst u) \<noteq> srv_buffer (bs_at (SRVs (ShaderStages (fst s) Compute)) n)) (pending_buffer_updates (fst s))
    \<and> same_compute (fst s) (fst s')"
    by (intro conjI F)
       (auto simp: same_compute_def bs_at_def FlushPendingBufferUpdatesForComputeSRV_def none_flushes_nothing split: option.splits)
  then show ?thesis using countable_filter [OF ok(1)] by auto
qed

lemma compute_uavs_visited:
  fixes s :: "d3d11_ctx \<times> staging_memory"
  assumes ok: "countable_updates (fst s)" "bits_ok 64 (bs_bound (ComputeUAVs (fst s)))"
  shows "pending_buffer_updates (fst (visit_bound 64 (\<lambda>s. bs_bound (ComputeUAVs (fst s)))
      (\<lambda>n s. FlushPendingBufferUpdatesForComputeUAV alloc E (bs_at (ComputeUAVs (fst s)) n) s) s)) =
    filter (\<lambda>u. \<forall>n \<in> set (filter (bits_get (bs_bound (ComputeUAVs (fst s)))) [0..<64]).
      Some (pu_dst u) \<noteq> view_buffer E (uav_view (bs_at (ComputeUAVs (fst s)) n))) (pending_buffer_updates (fst s))"
proof -
  note F = flush_slots(1) [of s 64 "\<lambda>s. bs_bound (ComputeUAVs (fst s))"
      "\<lambda>n s. FlushPendingBufferUpdatesForComputeUAV alloc E (bs_at (ComputeUAVs (fst s)) n) s" alloc
      "\<lambda>n. view_buffer E (uav_view (bs_at (ComputeUAVs (fst s)) n))", OF ok]
  show ?thesis
    by (rule F) (auto simp: same_compute_def bs_at_def FlushPendingBufferUpdatesForComputeUAV_def view_buffer_def
        none_flushes_nothing split: option.splits)
qed

text \<open>C38: a dispatch never runs past an update that waits for what it uses: after
  \<open>FlushPendingBufferUpdatesForComputeBindings\<close> no buffer bound to the compute stage as a shader resource or an
  unordered access view has a pending update, although the flush switches encoders, and may end the chunk,
  while it walks the binding tables.\<close>

theorem compute_bindings_flushed:
  assumes "tables_ok c" "table_ok 14 (ConstantBuffers (ShaderStages c Compute))" "countable_updates c" "dispatch_uses E c b"
  shows "\<not> HasPendingBufferUpdateFor (Some b) (fst (FlushPendingBufferUpdatesForComputeBindings alloc E (c, stg)))"
proof (cases "ComputeBindingsHavePendingNonConstantBufferUpdate E c")
  case False
  then have "FlushPendingBufferUpdatesForComputeBindings alloc E (c, stg) = (c, stg)"
    by (simp add: FlushPendingBufferUpdatesForComputeBindings_def)
  then show ?thesis using False dispatch_pending [OF assms(1)] assms(4) by auto
next
  case True
  then have ne: "pending_buffer_updates c \<noteq> []" using dispatch_pending [OF assms(1)] by (auto simp: HasPendingBufferUpdateFor_def)
  let ?C = "\<lambda>c. ConstantBuffers (ShaderStages c Compute)" and ?S = "\<lambda>c. SRVs (ShaderStages c Compute)"
  have ok: "bits_ok 14 (bs_bound (?C c))" "bits_ok 128 (bs_bound (?S c))" "bits_ok 64 (bs_bound (ComputeUAVs c))"
    using assms(1,2) table_bits by (auto simp: tables_ok_def)
  define s1 where "s1 = visit_bound 14 (\<lambda>s. bs_bound (?C (fst s)))
      (\<lambda>n s. FlushPendingBufferUpdatesForComputeResource alloc E (cb_buffer (bs_at (?C (fst s)) n)) s) (c, stg)"
  define s2 where "s2 = visit_bound 128 (\<lambda>s. bs_bound (?S (fst s)))
      (\<lambda>n s. FlushPendingBufferUpdatesForComputeSRV alloc (bs_at (?S (fst s)) n) s) s1"
  define s3 where "s3 = visit_bound 64 (\<lambda>s. bs_bound (ComputeUAVs (fst s)))
      (\<lambda>n s. FlushPendingBufferUpdatesForComputeUAV alloc E (bs_at (ComputeUAVs (fst s)) n) s) s2"
  have eq: "FlushPendingBufferUpdatesForComputeBindings alloc E (c, stg) = s3"
    using True ne by (simp add: FlushPendingBufferUpdatesForComputeBindings_def s1_def s2_def s3_def Let_def)
  have one: "same_compute c (fst s1) \<and> countable_updates (fst s1)"
    using compute_constants_visited [of "(c, stg)" alloc E] assms(3) ok(1) by (simp add: s1_def)
  then have S1: "bs_bound (?S (fst s1)) = bs_bound (?S c)" "\<And>n. bs_at (?S (fst s1)) n = bs_at (?S c) n"
    by (simp_all add: same_compute_def bs_at_def)
  have two: "same_compute c (fst s2) \<and> countable_updates (fst s2) \<and> pending_buffer_updates (fst s2) =
      filter (\<lambda>u. \<forall>n \<in> set (filter (bits_get (bs_bound (?S c))) [0..<128]). Some (pu_dst u) \<noteq> srv_buffer (bs_at (?S c) n)) (pending_buffer_updates (fst s1))"
    using compute_srvs_visited [of s1 alloc, folded s2_def, unfolded S1, OF conjunct2 [OF one] ok(2)]
      same_compute_trans [OF conjunct1 [OF one]] by blast
  then have S2: "bs_bound (ComputeUAVs (fst s2)) = bs_bound (ComputeUAVs c)" "\<And>n. bs_at (ComputeUAVs (fst s2)) n = bs_at (ComputeUAVs c) n"
    by (simp_all add: same_compute_def bs_at_def)
  have three: "pending_buffer_updates (fst s3) =
      filter (\<lambda>u. \<forall>n \<in> set (filter (bits_get (bs_bound (ComputeUAVs c))) [0..<64]).
        Some (pu_dst u) \<noteq> view_buffer E (uav_view (bs_at (ComputeUAVs c) n))) (pending_buffer_updates (fst s2))"
    using compute_uavs_visited [of s2 alloc E, folded s3_def, unfolded S2, OF _ ok(3)] two by blast
  show ?thesis unfolding eq
    using assms(4) unfolding dispatch_uses_def
  proof (elim disjE exE conjE)
    fix n e assume e: "bs_map (?S c) n = Some e" "srv_buffer e = Some b"
    have "n \<in> set (filter (bits_get (bs_bound (?S c))) [0..<128])" "bs_at (?S c) n = e"
      using bound_slot [OF e(1)] assms(1) by (simp_all add: tables_ok_def table_ok_def)
    then show "\<not> HasPendingBufferUpdateFor (Some b) (fst s3)"
      using e(2) by (auto simp: HasPendingBufferUpdateFor_def list_ex_iff three conjunct2 [OF conjunct2 [OF two]])
  next
    fix n e assume e: "bs_map (ComputeUAVs c) n = Some e" "view_buffer E (uav_view e) = Some b"
    have "n \<in> set (filter (bits_get (bs_bound (ComputeUAVs c))) [0..<64])" "bs_at (ComputeUAVs c) n = e"
      using bound_slot [OF e(1)] assms(1) by (simp_all add: tables_ok_def table_ok_def)
    then show "\<not> HasPendingBufferUpdateFor (Some b) (fst s3)"
      using e(2) by (auto simp: HasPendingBufferUpdateFor_def list_ex_iff three)
  qed
qed

text \<open>A shader resource of the compute stage with a pending update.\<close>

definition dispatch_env :: d3d11_env where
  "dispatch_env = two_mips \<lparr> views := (\<lambda>v. (views two_mips 0) \<lparr> vw_buffer := Some 7 \<rparr>) \<rparr>"

definition dispatch_ctx :: "d3d11_ctx option" where
  "dispatch_ctx = SetShaderResource dispatch_env Compute 0 1 (\<lambda>_. Some 0) (new_context \<lparr> pending_buffer_updates := nested_updates \<rparr>)"

lemma dispatch_bound:
  "map_option (\<lambda>c. (map_option srv_buffer (bs_map (SRVs (ShaderStages c Compute)) 0), pending_buffer_updates c,
     ConstantBuffers (ShaderStages c Compute) = binding_set_new 14 (constant_buffer_init None)))
     dispatch_ctx = Some (Some (Some 7), nested_updates, True)"
  by code_simp

lemma dispatch_tables:
  assumes "dispatch_ctx = Some c"
  shows "tables_ok c"
proof -
  let ?c = "new_context \<lparr> pending_buffer_updates := nested_updates \<rparr>"
  have E: "env_ok dispatch_env"
    by (auto simp: env_ok_def dispatch_env_def two_mips_def D3D11_BIND_STREAM_OUTPUT_def)
  have c: "hazard_inv dispatch_env ?c \<and> rtv_tail ?c" by (rule empty_context_inv) (simp_all add: new_context_def)
  have "srv_of ?c Compute n = None" for n
    by (simp add: srv_of_def new_context_def stage_state_init_def new_refines)
  then have "hazard_inv dispatch_env c \<and> rtv_tail c"
    using assms unfolding dispatch_ctx_def
    by (intro set_srv_inv [OF E c, of Compute _ 0 1])
       (auto simp: same_class_def legal_args_def dispatch_env_def two_mips_def D3D11_BIND_SHADER_RESOURCE_def)
  then show ?thesis by (simp add: hazard_inv_def)
qed

theorem compute_bindings_flushed_witness:
  "\<exists>c. dispatch_ctx = Some c \<and> dispatch_uses dispatch_env c 7 \<and> HasPendingBufferUpdateFor (Some 7) c \<and>
     \<not> HasPendingBufferUpdateFor (Some 7) (fst (FlushPendingBufferUpdatesForComputeBindings (\<lambda>_ _. (0, 0)) dispatch_env (c, \<lambda>_ _. 0)))"
proof -
  obtain c where c: "dispatch_ctx = Some c" "map_option srv_buffer (bs_map (SRVs (ShaderStages c Compute)) 0) = Some (Some 7)"
    "pending_buffer_updates c = nested_updates" "ConstantBuffers (ShaderStages c Compute) = binding_set_new 14 (constant_buffer_init None)"
    using dispatch_bound by auto
  have u: "dispatch_uses dispatch_env c 7" using c(2) by (auto simp: dispatch_uses_def)
  have "countable_updates c" using nested_updates_ok by (simp add: countable_updates_def c(3))
  moreover have "table_ok 14 (ConstantBuffers (ShaderStages c Compute))" using new_table by (simp add: c(4))
  moreover have "HasPendingBufferUpdateFor (Some 7) c" by (simp add: HasPendingBufferUpdateFor_def c(3) nested_updates_def)
  ultimately show ?thesis using compute_bindings_flushed [OF dispatch_tables [OF c(1)] _ _ u] c(1) u by blast
qed

end
