(* ===== verification/TextureDescs.thy ===== *)
theory TextureDescs
  imports Formats Textures ContextState
begin

text \<open>
  Descriptions of D3D11 resources and what is computed from them alone: the size of a mipmap level, the
  linear layout of a level, the list of subresources and the size of a shared heap
  (src/src/d3d11/d3d11_resource_helper.cpp, d3d11_enumerable.cpp, d3d11_texture_device.cpp and
  d3d11_resource.hpp). The structures and constants are those of the D3D11 interface; the C++ templates
  over the three texture descriptions are functions over their sum. All arithmetic is in 32 bits as in the
  code. An \<open>outcome\<close> is what a call does: undefined behaviour (a shift by the width or more, a division by
  zero), an \<open>HRESULT\<close> without a result, or a result.
\<close>

subsection \<open>Outcomes\<close>

datatype 'a outcome = Undefined | Fails hresult | Returns 'a

fun bindO :: "'a outcome \<Rightarrow> ('a \<Rightarrow> 'b outcome) \<Rightarrow> 'b outcome" where
  "bindO Undefined f = Undefined"
| "bindO (Fails h) f = Fails h"
| "bindO (Returns x) f = f x"

lemma bindO_Returns: "bindO m f = Returns y \<longleftrightarrow> (\<exists>x. m = Returns x \<and> f x = Returns y)"
  by (cases m) auto

lemma bindO_Undefined: "bindO m f = Undefined \<longleftrightarrow> m = Undefined \<or> (\<exists>x. m = Returns x \<and> f x = Undefined)"
  by (cases m) auto

lemma bindO_cong [fundef_cong]: "m = m' \<Longrightarrow> (\<And>x. m' = Returns x \<Longrightarrow> f x = g x) \<Longrightarrow> bindO m f = bindO m' g"
  by (cases m') auto

definition shr32 :: "u32 \<Rightarrow> u32 \<Rightarrow> u32 outcome" where
  "shr32 x n = (if n < 32 then Returns (drop_bit (unat n) x) else Undefined)"

definition udiv32 :: "u32 \<Rightarrow> u32 \<Rightarrow> u32 outcome" where
  "udiv32 x y = (if y = 0 then Undefined else Returns (x div y))"

text \<open>The template \<open>align\<close> at 32 bits and \<open>__builtin_clz\<close> of an argument that is not zero.\<close>

definition align_u32 :: "u32 \<Rightarrow> u32 \<Rightarrow> u32" where
  "align_u32 what to = (what + to - 1) AND NOT (to - 1)"

definition clz32 :: "u32 \<Rightarrow> u32" where
  "clz32 x = of_nat (length (takeWhile (\<lambda>i. \<not> bit x i) (rev [0..<32])))"

subsection \<open>Descriptions\<close>

abbreviation D3D11_BIND_CONSTANT_BUFFER :: u32 where "D3D11_BIND_CONSTANT_BUFFER \<equiv> 0x4"
abbreviation D3D11_RESOURCE_MISC_SHARED :: u32 where "D3D11_RESOURCE_MISC_SHARED \<equiv> 0x2"
abbreviation D3D11_RESOURCE_MISC_TEXTURECUBE :: u32 where "D3D11_RESOURCE_MISC_TEXTURECUBE \<equiv> 0x4"
abbreviation D3D11_RESOURCE_MISC_BUFFER_ALLOW_RAW_VIEWS :: u32 where "D3D11_RESOURCE_MISC_BUFFER_ALLOW_RAW_VIEWS \<equiv> 0x20"
abbreviation D3D11_RESOURCE_MISC_BUFFER_STRUCTURED :: u32 where "D3D11_RESOURCE_MISC_BUFFER_STRUCTURED \<equiv> 0x40"
abbreviation D3D11_RESOURCE_MISC_SHARED_KEYEDMUTEX :: u32 where "D3D11_RESOURCE_MISC_SHARED_KEYEDMUTEX \<equiv> 0x100"
abbreviation D3D11_RESOURCE_MISC_SHARED_NTHANDLE :: u32 where "D3D11_RESOURCE_MISC_SHARED_NTHANDLE \<equiv> 0x800"
abbreviation D3D11_USAGE_DEFAULT :: u32 where "D3D11_USAGE_DEFAULT \<equiv> 0"
abbreviation D3D11_USAGE_IMMUTABLE :: u32 where "D3D11_USAGE_IMMUTABLE \<equiv> 1"
abbreviation D3D11_USAGE_DYNAMIC :: u32 where "D3D11_USAGE_DYNAMIC \<equiv> 2"
abbreviation D3D11_USAGE_STAGING :: u32 where "D3D11_USAGE_STAGING \<equiv> 3"
abbreviation D3D11_TEXTURE_LAYOUT_UNDEFINED :: u32 where "D3D11_TEXTURE_LAYOUT_UNDEFINED \<equiv> 0"

record buffer_desc =
  bd_ByteWidth :: u32
  bd_Usage :: u32
  bd_BindFlags :: u32
  bd_CPUAccessFlags :: u32
  bd_MiscFlags :: u32
  bd_StructureByteStride :: u32

record texture1d_desc =
  t1_Width :: u32
  t1_MipLevels :: u32
  t1_ArraySize :: u32
  t1_Format :: u32
  t1_Usage :: u32
  t1_BindFlags :: u32
  t1_CPUAccessFlags :: u32
  t1_MiscFlags :: u32

record texture2d_desc =
  t2_Width :: u32
  t2_Height :: u32
  t2_MipLevels :: u32
  t2_ArraySize :: u32
  t2_Format :: u32
  t2_SampleDesc :: "u32 \<times> u32" \<comment> \<open>count, quality\<close>
  t2_Usage :: u32
  t2_BindFlags :: u32
  t2_CPUAccessFlags :: u32
  t2_MiscFlags :: u32

record texture2d_desc1 = texture2d_desc +
  t2_TextureLayout :: u32

record texture3d_desc =
  t3_Width :: u32
  t3_Height :: u32
  t3_Depth :: u32
  t3_MipLevels :: u32
  t3_Format :: u32
  t3_Usage :: u32
  t3_BindFlags :: u32
  t3_CPUAccessFlags :: u32
  t3_MiscFlags :: u32

record texture3d_desc1 = texture3d_desc +
  t3_TextureLayout :: u32

datatype texture_desc = Tex1D texture1d_desc | Tex2D texture2d_desc1 | Tex3D texture3d_desc1

fun desc_Width :: "texture_desc \<Rightarrow> u32" where
  "desc_Width (Tex1D d) = t1_Width d" | "desc_Width (Tex2D d) = t2_Width d" | "desc_Width (Tex3D d) = t3_Width d"

fun desc_MipLevels :: "texture_desc \<Rightarrow> u32" where
  "desc_MipLevels (Tex1D d) = t1_MipLevels d" | "desc_MipLevels (Tex2D d) = t2_MipLevels d"
| "desc_MipLevels (Tex3D d) = t3_MipLevels d"

fun desc_Format :: "texture_desc \<Rightarrow> u32" where
  "desc_Format (Tex1D d) = t1_Format d" | "desc_Format (Tex2D d) = t2_Format d" | "desc_Format (Tex3D d) = t3_Format d"

fun desc_BindFlags :: "texture_desc \<Rightarrow> u32" where
  "desc_BindFlags (Tex1D d) = t1_BindFlags d" | "desc_BindFlags (Tex2D d) = t2_BindFlags d"
| "desc_BindFlags (Tex3D d) = t3_BindFlags d"

fun desc_MiscFlags :: "texture_desc \<Rightarrow> u32" where
  "desc_MiscFlags (Tex1D d) = t1_MiscFlags d" | "desc_MiscFlags (Tex2D d) = t2_MiscFlags d"
| "desc_MiscFlags (Tex3D d) = t3_MiscFlags d"

fun desc_Usage :: "texture_desc \<Rightarrow> u32" where
  "desc_Usage (Tex1D d) = t1_Usage d" | "desc_Usage (Tex2D d) = t2_Usage d" | "desc_Usage (Tex3D d) = t3_Usage d"

fun set_MipLevels :: "u32 \<Rightarrow> texture_desc \<Rightarrow> texture_desc" where
  "set_MipLevels n (Tex1D d) = Tex1D (d\<lparr> t1_MipLevels := n \<rparr>)"
| "set_MipLevels n (Tex2D d) = Tex2D (d\<lparr> t2_MipLevels := n \<rparr>)"
| "set_MipLevels n (Tex3D d) = Tex3D (d\<lparr> t3_MipLevels := n \<rparr>)"

fun TextureDescHeight :: "texture_desc \<Rightarrow> u32" where
  "TextureDescHeight (Tex1D d) = 1" | "TextureDescHeight (Tex2D d) = t2_Height d" | "TextureDescHeight (Tex3D d) = t3_Height d"

fun TextureDescDepth :: "texture_desc \<Rightarrow> u32" where
  "TextureDescDepth (Tex3D d) = t3_Depth d" | "TextureDescDepth _ = 1"

fun TextureDescArraySize :: "texture_desc \<Rightarrow> u32" where
  "TextureDescArraySize (Tex1D d) = t1_ArraySize d" | "TextureDescArraySize (Tex2D d) = t2_ArraySize d"
| "TextureDescArraySize (Tex3D d) = 1"

fun TextureDescSampleCount :: "texture_desc \<Rightarrow> u32" where
  "TextureDescSampleCount (Tex2D d) = fst (t2_SampleDesc d)" | "TextureDescSampleCount _ = 1"

subsection \<open>The two versions of a description\<close>

definition DowngradeResourceDescription2D :: "texture2d_desc1 \<Rightarrow> texture2d_desc" where
  "DowngradeResourceDescription2D source =
     \<lparr> t2_Width = t2_Width source, t2_Height = t2_Height source, t2_MipLevels = t2_MipLevels source,
       t2_ArraySize = t2_ArraySize source, t2_Format = t2_Format source, t2_SampleDesc = t2_SampleDesc source,
       t2_Usage = t2_Usage source, t2_BindFlags = t2_BindFlags source,
       t2_CPUAccessFlags = t2_CPUAccessFlags source, t2_MiscFlags = t2_MiscFlags source \<rparr>"

definition UpgradeResourceDescription2D :: "texture2d_desc \<Rightarrow> texture2d_desc1" where
  "UpgradeResourceDescription2D source =
     \<lparr> t2_Width = t2_Width source, t2_Height = t2_Height source, t2_MipLevels = t2_MipLevels source,
       t2_ArraySize = t2_ArraySize source, t2_Format = t2_Format source, t2_SampleDesc = t2_SampleDesc source,
       t2_Usage = t2_Usage source, t2_BindFlags = t2_BindFlags source,
       t2_CPUAccessFlags = t2_CPUAccessFlags source, t2_MiscFlags = t2_MiscFlags source,
       t2_TextureLayout = D3D11_TEXTURE_LAYOUT_UNDEFINED \<rparr>"

definition DowngradeResourceDescription3D :: "texture3d_desc1 \<Rightarrow> texture3d_desc" where
  "DowngradeResourceDescription3D source =
     \<lparr> t3_Width = t3_Width source, t3_Height = t3_Height source, t3_Depth = t3_Depth source,
       t3_MipLevels = t3_MipLevels source, t3_Format = t3_Format source,
       t3_Usage = t3_Usage source, t3_BindFlags = t3_BindFlags source,
       t3_CPUAccessFlags = t3_CPUAccessFlags source, t3_MiscFlags = t3_MiscFlags source \<rparr>"

definition UpgradeResourceDescription3D :: "texture3d_desc \<Rightarrow> texture3d_desc1" where
  "UpgradeResourceDescription3D source =
     \<lparr> t3_Width = t3_Width source, t3_Height = t3_Height source, t3_Depth = t3_Depth source,
       t3_MipLevels = t3_MipLevels source, t3_Format = t3_Format source,
       t3_Usage = t3_Usage source, t3_BindFlags = t3_BindFlags source,
       t3_CPUAccessFlags = t3_CPUAccessFlags source, t3_MiscFlags = t3_MiscFlags source,
       t3_TextureLayout = D3D11_TEXTURE_LAYOUT_UNDEFINED \<rparr>"

lemma upgraded_description:
  "DowngradeResourceDescription2D (UpgradeResourceDescription2D a) = a"
  "DowngradeResourceDescription3D (UpgradeResourceDescription3D b) = b"
  by (simp_all add: DowngradeResourceDescription2D_def UpgradeResourceDescription2D_def
      DowngradeResourceDescription3D_def UpgradeResourceDescription3D_def)

subsection \<open>Mipmap levels\<close>

definition mip_extent :: "u32 \<Rightarrow> u32 \<Rightarrow> u32 outcome" where
  "mip_extent x level = bindO (shr32 x level) (\<lambda>y. Returns (max 1 y))"

text \<open>Width, height and depth of a level.\<close>

fun GetMipmapSize :: "texture_desc \<Rightarrow> u32 \<Rightarrow> (u32 \<times> u32 \<times> u32) outcome" where
  "GetMipmapSize (Tex1D d) level =
     bindO (mip_extent (t1_Width d) level) (\<lambda>w. Returns (w, 1, 1))"
| "GetMipmapSize (Tex2D d) level =
     bindO (mip_extent (t2_Width d) level) (\<lambda>w.
     bindO (mip_extent (t2_Height d) level) (\<lambda>h. Returns (w, h, 1)))"
| "GetMipmapSize (Tex3D d) level =
     bindO (mip_extent (t3_Width d) level) (\<lambda>w.
     bindO (mip_extent (t3_Height d) level) (\<lambda>h.
     bindO (mip_extent (t3_Depth d) level) (\<lambda>z. Returns (w, h, z))))"

lemma mip_extent_Returns:
  "mip_extent x level = Returns y \<longleftrightarrow> level < 32 \<and> y = max 1 (drop_bit (unat level) x)"
  by (auto simp: mip_extent_def shr32_def)

lemma GetMipmapSize_Returns:
  "GetMipmapSize d level = Returns (w, h, z) \<longleftrightarrow> level < 32 \<and>
     w = max 1 (drop_bit (unat level) (desc_Width d)) \<and>
     h = (case d of Tex1D _ \<Rightarrow> 1 | _ \<Rightarrow> max 1 (drop_bit (unat level) (TextureDescHeight d))) \<and>
     z = (case d of Tex3D t \<Rightarrow> max 1 (drop_bit (unat level) (t3_Depth t)) | _ \<Rightarrow> 1)"
  by (cases d) (auto simp: bindO_Returns mip_extent_Returns)

subsection \<open>Subresources\<close>

text \<open>\<open>D3D11CalcSubresource\<close> is an inline function of the D3D11 headers, which are not in the sources: the
  parameter \<open>calc\<close>, of the level, the slice and the number of levels, with what its documentation promises.\<close>

definition calc_documented :: "(u32 \<Rightarrow> u32 \<Rightarrow> u32 \<Rightarrow> u32) \<Rightarrow> bool" where
  "calc_documented calc \<longleftrightarrow>
     (\<forall>MipSlice ArraySlice MipLevels. calc MipSlice ArraySlice MipLevels = MipSlice + ArraySlice * MipLevels)"

record subresource_entry =
  SubresourceId :: u32
  se_MipLevel :: u32
  se_ArraySlice :: u32

definition subresource_entries :: "(u32 \<Rightarrow> u32 \<Rightarrow> u32 \<Rightarrow> u32) \<Rightarrow> u32 \<Rightarrow> u32 \<Rightarrow> subresource_entry list" where
  "subresource_entries calc array_size mip_levels =
     [\<lparr> SubresourceId = calc (of_nat level) (of_nat sl) mip_levels,
        se_MipLevel = of_nat level, se_ArraySlice = of_nat sl \<rparr>.
       sl \<leftarrow> [0..<unat array_size], level \<leftarrow> [0..<unat mip_levels]]"

fun EnumerateSubresources :: "(u32 \<Rightarrow> u32 \<Rightarrow> u32 \<Rightarrow> u32) \<Rightarrow> texture_desc \<Rightarrow> subresource_entry list" where
  "EnumerateSubresources calc (Tex1D d) = subresource_entries calc (t1_ArraySize d) (t1_MipLevels d)"
| "EnumerateSubresources calc (Tex2D d) = subresource_entries calc (t2_ArraySize d) (t2_MipLevels d)"
| "EnumerateSubresources calc (Tex3D d) =
     [\<lparr> SubresourceId = calc (of_nat level) 0 (t3_MipLevels d),
        se_MipLevel = of_nat level, se_ArraySlice = 0 \<rparr>. level \<leftarrow> [0..<unat (t3_MipLevels d)]]"

lemma unat_of_nat_below: "n < unat (a :: u32) \<Longrightarrow> unat (of_nat n :: u32) = n"
  using unsigned_less [of a, where 'a = nat] by (simp add: unat_of_nat take_bit_eq_mod)

lemma calc_subresource:
  fixes array_size :: u32
  assumes doc: "calc_documented calc" and lt: "unat sl < unat array_size" "unat level < unat mip_levels"
    and no_wrap: "unat array_size * unat mip_levels < 2 ^ 32"
  shows "unat (calc level sl mip_levels) = unat sl * unat mip_levels + unat level"
proof -
  have "unat sl * unat mip_levels + unat level < (unat sl + 1) * unat mip_levels"
    using lt(2) by simp
  also have "\<dots> \<le> unat array_size * unat mip_levels"
    using lt(1) by (intro mult_le_mono1) simp
  finally have sum: "unat sl * unat mip_levels + unat level < 2 ^ 32" using no_wrap by linarith
  then have "unat (sl * mip_levels) = unat sl * unat mip_levels"
    unfolding unat_word_ariths by (intro mod_less) simp
  then have "unat (level + sl * mip_levels) = unat level + unat sl * unat mip_levels"
    using sum unfolding unat_word_ariths(1) by (intro trans [OF mod_less]) simp_all
  then show ?thesis
    by (simp add: doc [unfolded calc_documented_def])
qed

lemma calc_subresource_of_nat:
  fixes array_size :: u32
  assumes doc: "calc_documented calc" and lt: "sl < unat array_size" "level < unat mip_levels"
    and no_wrap: "unat array_size * unat mip_levels < 2 ^ 32"
  shows "unat (calc (of_nat level) (of_nat sl) mip_levels) = sl * unat mip_levels + level"
  using calc_subresource [OF doc, of "of_nat sl" array_size "of_nat level" mip_levels] no_wrap
  by (simp only: unat_of_nat_below [OF lt(1)] unat_of_nat_below [OF lt(2)] lt)

text \<open>The entries in order: the identifiers count up from 0, and each is the slice times the levels plus
  the level.\<close>

lemma concat_upt_block:
  "concat (map (\<lambda>i. map (\<lambda>j. i * m + j) [0..<m]) [0..<n]) = [0..<n * m]" for m n :: nat
proof (induction n)
  case (Suc n)
  have "map (\<lambda>j. n * m + j) [0..<m] = [n * m..<n * m + m]"
    using map_add_upt [of "n * m" m] by (simp add: add.commute)
  moreover have "[0..<n * m] @ [n * m..<n * m + m] = [0..<n * m + m]"
    by (rule upt_add_eq_append [symmetric]) simp
  moreover have "Suc n * m = n * m + m" by simp
  ultimately show ?case using Suc by (simp only: upt_Suc_append map_append concat_append list.map concat.simps append_Nil2 le0)
qed simp

lemma subresource_ids:
  assumes doc: "calc_documented calc" and no_wrap: "unat array_size * unat mip_levels < 2 ^ 32"
  shows "map (\<lambda>e. unat (SubresourceId e)) (subresource_entries calc array_size mip_levels)
       = [0..<unat array_size * unat mip_levels]"
proof -
  have "map (\<lambda>e. unat (SubresourceId e)) (subresource_entries calc array_size mip_levels)
    = concat (map (\<lambda>sl. map (\<lambda>level. unat (calc (of_nat level) (of_nat sl) mip_levels))
        [0..<unat mip_levels]) [0..<unat array_size])"
    by (simp add: subresource_entries_def map_concat comp_def)
  also have "\<dots> = concat (map (\<lambda>sl. map (\<lambda>level. sl * unat mip_levels + level) [0..<unat mip_levels])
        [0..<unat array_size])"
    by (intro arg_cong [of _ _ concat] map_cong refl calc_subresource_of_nat [OF doc _ _ no_wrap]) simp_all
  finally show ?thesis by (simp add: concat_upt_block)
qed

lemma subresource_entry:
  assumes "e \<in> set (subresource_entries calc array_size mip_levels)" and doc: "calc_documented calc"
    and no_wrap: "unat array_size * unat mip_levels < 2 ^ 32"
  shows "se_MipLevel e < mip_levels" "se_ArraySlice e < array_size"
    "unat (SubresourceId e) = unat (se_ArraySlice e) * unat mip_levels + unat (se_MipLevel e)"
proof -
  obtain sl level where e: "e = \<lparr> SubresourceId = calc (of_nat level) (of_nat sl) mip_levels,
      se_MipLevel = of_nat level, se_ArraySlice = of_nat sl \<rparr>"
    and lt: "sl < unat array_size" "level < unat mip_levels"
    using assms(1) by (auto simp: subresource_entries_def)
  note u = unat_of_nat_below [OF lt(1)] unat_of_nat_below [OF lt(2)]
  show "se_MipLevel e < mip_levels" "se_ArraySlice e < array_size"
    using lt u by (simp_all add: e word_less_nat_alt)
  show "unat (SubresourceId e) = unat (se_ArraySlice e) * unat mip_levels + unat (se_MipLevel e)"
    using calc_subresource_of_nat [OF doc lt no_wrap] u by (simp only: e subresource_entry.simps)
qed

end
