(* ===== verification/LinearLayout.thy ===== *)
theory LinearLayout
  imports TextureDescs
begin

text \<open>
  The layout of a texture level in a linear buffer: \<open>GetLinearTextureLayout\<close> of
  src/src/d3d11/d3d11_resource_helper.cpp, from which staging and dynamic textures take the pitch and the
  length of their buffers, and the size of a shared heap computed from it in d3d11_texture_device.cpp.
  What the Metal device answers is the parameter \<open>caps\<close>. The main result: a layout that does not wrap at 32
  bits has room for every texel (or block) of the level, at aligned rows that do not overlap.
\<close>

subsection \<open>The device\<close>

record metal_caps =
  supportsApple8 :: bool \<comment> \<open>\<open>supportsFamily(WMTGPUFamilyApple8)\<close>\<close>
  supportsTextureSampleCount :: "u8 \<Rightarrow> bool"
  minimumLinearTextureAlignment :: "u32 \<Rightarrow> u64"

text \<open>Metal documents the alignment of a pixel format as a small power of two.\<close>

definition caps_ok :: "metal_caps \<Rightarrow> bool" where
  "caps_ok caps \<longleftrightarrow> (\<forall>p. \<exists>k < 16. minimumLinearTextureAlignment caps p = 2 ^ k)"

subsection \<open>Layouts\<close>

record linear_layout =
  BytesPerRow :: u32
  BytesPerImage :: u32
  BytesPerSlice :: u32

text \<open>The three checks every instance starts with.\<close>

definition linear_format :: "u32 \<Rightarrow> format_desc outcome" where
  "linear_format fmt =
     (let (hr, metal_format) = MTLQueryDXGIFormat fmt in
      if hr \<noteq> S_OK then Fails E_FAIL
      else if PixelFormat metal_format = WMTPixelFormatInvalid then Fails E_FAIL
      else if BytesPerTexel metal_format = 0 then Fails E_FAIL
      else Returns metal_format)"

definition row_alignment :: "metal_caps \<Rightarrow> format_desc \<Rightarrow> bool \<Rightarrow> u32" where
  "row_alignment caps f aligned =
     (if aligned \<and> Flag f AND (MTL_DXGI_FORMAT_DEPTH_PLANER OR MTL_DXGI_FORMAT_STENCIL_PLANER) = 0
      then ucast (minimumLinearTextureAlignment caps (PixelFormat f))
      else max 1 (BytesPerTexel f))"

definition aligned_bytes_per_row :: "metal_caps \<Rightarrow> format_desc \<Rightarrow> u32 \<Rightarrow> bool \<Rightarrow> u32" where
  "aligned_bytes_per_row caps f w aligned = align_u32 (BytesPerTexel f * w) (row_alignment caps f aligned)"

text \<open>The branch of block-compressed formats: bytes per row of blocks, and the rows rounded up to blocks.\<close>

definition block_bytes_per_row :: "format_desc \<Rightarrow> u32 \<Rightarrow> u32" where
  "block_bytes_per_row f w = drop_bit 2 (BytesPerTexel f * align_u32 w 4)"

fun GetLinearTextureLayout :: "metal_caps \<Rightarrow> texture_desc \<Rightarrow> u32 \<Rightarrow> bool \<Rightarrow> linear_layout outcome" where
  "GetLinearTextureLayout caps (Tex1D d) level aligned =
     bindO (linear_format (t1_Format d)) (\<lambda>f.
     bindO (GetMipmapSize (Tex1D d) level) (\<lambda>(w, h, z).
       let bpr = aligned_bytes_per_row caps f w aligned
       in Returns \<lparr> BytesPerRow = bpr, BytesPerImage = bpr, BytesPerSlice = bpr \<rparr>))"
| "GetLinearTextureLayout caps (Tex2D d) level aligned =
     bindO (linear_format (t2_Format d)) (\<lambda>f.
     bindO (GetMipmapSize (Tex2D d) level) (\<lambda>(w, h, z).
       if Flag f AND MTL_DXGI_FORMAT_BC \<noteq> 0 then
         (let h_physical = align_u32 h 4; bpr = block_bytes_per_row f w
          in Returns \<lparr> BytesPerRow = bpr, BytesPerImage = drop_bit 2 (bpr * h_physical),
                      BytesPerSlice = drop_bit 2 (bpr * h_physical) \<rparr>)
       else
         (let bpr = aligned_bytes_per_row caps f w aligned
          in Returns \<lparr> BytesPerRow = bpr, BytesPerImage = bpr * h, BytesPerSlice = bpr * h \<rparr>)))"
| "GetLinearTextureLayout caps (Tex3D d) level aligned =
     bindO (linear_format (t3_Format d)) (\<lambda>f.
     bindO (GetMipmapSize (Tex3D d) level) (\<lambda>(w, h, z).
       if Flag f AND MTL_DXGI_FORMAT_BC \<noteq> 0 then
         (let h_physical = align_u32 h 4; bpr = block_bytes_per_row f w
          in Returns \<lparr> BytesPerRow = bpr, BytesPerImage = drop_bit 2 (bpr * h_physical),
                      BytesPerSlice = drop_bit 2 (bpr * h_physical * z) \<rparr>)
       else
         (let bpr = aligned_bytes_per_row caps f w aligned
          in Returns \<lparr> BytesPerRow = bpr, BytesPerImage = bpr * h, BytesPerSlice = bpr * h * z \<rparr>)))"

subsection \<open>The size of a shared heap\<close>

abbreviation kD3DKMTExistingHeapPageSize :: u64 where "kD3DKMTExistingHeapPageSize \<equiv> 0x1000"

definition AlignD3DKMTExistingHeapSize :: "u64 \<Rightarrow> u64" where
  "AlignD3DKMTExistingHeapSize bytes =
     (let bytes = (if bytes = 0 then kD3DKMTExistingHeapPageSize else bytes)
      in (bytes + kD3DKMTExistingHeapPageSize - 1) AND NOT (kD3DKMTExistingHeapPageSize - 1))"

text \<open>The loop over the levels; \<open>None\<close> is the early return of the page bytes.\<close>

fun heap_levels :: "metal_caps \<Rightarrow> texture_desc \<Rightarrow> u32 list \<Rightarrow> u64 \<Rightarrow> u64 option outcome" where
  "heap_levels caps d [] bytes = Returns (Some bytes)"
| "heap_levels caps d (level # levels) bytes =
     (case GetLinearTextureLayout caps d level True of
        Undefined \<Rightarrow> Undefined
      | Fails _ \<Rightarrow> Returns None
      | Returns l \<Rightarrow>
          heap_levels caps d levels
            (bytes + ucast (BytesPerSlice l) * ucast (TextureDescArraySize d) * ucast (TextureDescSampleCount d)))"

definition CalculateD3DKMTExistingHeapSize :: "metal_caps \<Rightarrow> texture_desc \<Rightarrow> u64 outcome" where
  "CalculateD3DKMTExistingHeapSize caps d =
     (let mipLevels = (if desc_MipLevels d \<noteq> 0 then desc_MipLevels d else 1)
      in bindO (heap_levels caps d (map of_nat [0..<unat mipLevels]) 0) (\<lambda>r. case r of
           None \<Rightarrow> Returns kD3DKMTExistingHeapPageSize
         | Some bytes \<Rightarrow> Returns (AlignD3DKMTExistingHeapSize bytes)))"

subsection \<open>Alignment at 32 bits\<close>

lemma and_not_low_bits:
  fixes x :: u32
  shows "unat (x AND NOT (2 ^ k - 1)) = unat x - unat x mod 2 ^ k"
proof -
  have low: "unat (take_bit k x) = unat x mod 2 ^ k"
    unfolding unsigned_take_bit_eq by (simp add: take_bit_eq_mod)
  have "x AND NOT (mask k) = push_bit k (drop_bit k x)"
    by (rule bit_word_eqI) (auto simp: bit_simps)
  also have "\<dots> = x - take_bit k x"
    by (metis add_diff_cancel_right' bits_ident)
  finally have "x AND NOT (2 ^ k - 1) = x - take_bit k x"
    by (simp add: mask_eq_exp_minus_1)
  moreover have "take_bit k x \<le> x"
    unfolding word_le_nat_alt low by simp
  ultimately show ?thesis
    by (simp add: unat_sub low)
qed

lemma unat_pow2_32:
  assumes "k < 32"
  shows "unat (2 ^ k :: u32) = 2 ^ k"
proof -
  have "(2 :: nat) ^ k < 2 ^ 32"
    using assms by (intro power_strict_increasing) auto
  then have "unat (of_nat (2 ^ k) :: u32) = 2 ^ k"
    by (subst unat_of_nat) (simp add: take_bit_eq_mod)
  then show ?thesis by simp
qed

text \<open>Whatever the alignment, the result is the argument or up to \<open>a - 1\<close> above it.\<close>

lemma align_u32_bounds:
  assumes "0 < a" "unat x + unat a \<le> 2 ^ 32"
  shows "unat x \<le> unat (align_u32 x a)" "unat (align_u32 x a) < unat x + unat a"
proof -
  let ?n = "x + (a - 1)"
  have a: "unat (a - 1) = unat a - 1" "1 \<le> unat a"
    using assms(1) by (simp_all add: unat_sub word_le_nat_alt unat_gt_0 Suc_le_eq)
  then have n: "unat ?n = unat x + (unat a - 1)"
    using assms(2) by (simp add: unat_word_ariths)
  have "?n AND NOT (?n AND (a - 1)) = ?n - (?n AND (a - 1))"
    by (rule disjunctive_diff_eq_and_not [symmetric]) (auto simp: bit_eq_iff bit_simps)
  moreover have "?n AND NOT (?n AND (a - 1)) = ?n AND NOT (a - 1)"
    by (auto simp: bit_eq_iff bit_simps)
  ultimately have "align_u32 x a = ?n - (?n AND (a - 1))"
    by (simp add: align_u32_def algebra_simps)
  moreover have "?n AND (a - 1) \<le> ?n" "?n AND (a - 1) \<le> a - 1"
    by (simp_all add: word_and_le1 word_and_le2)
  ultimately have "unat (align_u32 x a) = unat ?n - unat (?n AND (a - 1))"
    and "unat (?n AND (a - 1)) \<le> unat a - 1"
    using a(1) by (simp_all add: unat_sub word_le_nat_alt)
  then show "unat x \<le> unat (align_u32 x a)" "unat (align_u32 x a) < unat x + unat a"
    using n a(2) by linarith+
qed

lemma unat_align_u32:
  assumes a: "a = 2 ^ k" "k < 32" and bound: "unat x + unat a < 2 ^ 32"
  shows "unat (align_u32 x a) = (unat x + 2 ^ k - 1) div 2 ^ k * 2 ^ k"
proof -
  have ua: "unat a = 2 ^ k"
    using a by (simp add: unat_pow2_32)
  have "unat (x + a) = unat x + 2 ^ k"
    using bound ua by (simp add: unat_word_ariths)
  moreover from this have "1 \<le> x + a"
    unfolding word_le_nat_alt by (simp add: Suc_le_eq)
  ultimately have "unat (x + a - 1) = unat x + 2 ^ k - 1"
    by (simp add: unat_sub)
  then have "unat (align_u32 x a) = (unat x + 2 ^ k - 1) - (unat x + 2 ^ k - 1) mod 2 ^ k"
    by (simp add: align_u32_def a(1) and_not_low_bits)
  then show ?thesis
    by (simp add: minus_mod_eq_div_mult)
qed

lemma unat_mult_32: "unat a * unat b < 2 ^ 32 \<Longrightarrow> unat (a * b) = unat a * unat b" for a b :: u32
  by (simp add: unat_word_ariths)

lemma unat_drop_2: "unat (drop_bit 2 a) = unat a div 4" for a :: u32
  unfolding unat_drop_bit_eq by (simp add: drop_bit_eq_div)

subsection \<open>Formats with a linear layout\<close>

lemma linear_format_Returns:
  "linear_format c = Returns f \<longleftrightarrow>
     MTLQueryDXGIFormat c = (S_OK, f) \<and> PixelFormat f \<noteq> WMTPixelFormatInvalid \<and> BytesPerTexel f \<noteq> 0"
  by (auto simp: linear_format_def split: prod.splits)

text \<open>The three-component formats of 12 bytes share the pixel format of one component; every other texel
  size is a power of two.\<close>

lemma texel_size:
  assumes "linear_format c = Returns f"
  shows "BytesPerTexel f \<in> {1, 2, 4, 8, 12, 16}"
proof -
  have "PixelFormat f \<noteq> WMTPixelFormatInvalid \<longrightarrow> BytesPerTexel f \<in> {0, 1, 2, 4, 8, 12, 16}"
    by (rule query_desc_all [where c = c])
       (use assms in \<open>simp_all add: query_tables linear_format_Returns reset_desc_def\<close>)
  then show ?thesis
    using assms by (auto simp: linear_format_Returns)
qed

lemma row_alignment_bounds:
  assumes "caps_ok caps" "linear_format c = Returns f"
  shows "0 < row_alignment caps f aligned \<and> unat (row_alignment caps f aligned) < 2 ^ 16"
proof -
  obtain k where k: "k < 16" "minimumLinearTextureAlignment caps (PixelFormat f) = 2 ^ k"
    using assms(1) by (auto simp: caps_ok_def)
  then have "ucast (minimumLinearTextureAlignment caps (PixelFormat f)) = (2 ^ k :: u32)"
    by (auto intro: bit_word_eqI simp: bit_simps)
  moreover have "0 < (2 ^ k :: u32)" "unat (2 ^ k :: u32) < 2 ^ 16"
    using k(1) unat_pow2_32 [of k] power_strict_increasing [of k 16 "2 :: nat"] by (auto simp: word_less_nat_alt)
  moreover have "0 < max 1 (BytesPerTexel f) \<and> unat (max 1 (BytesPerTexel f)) < 2 ^ 16"
    using texel_size [OF assms(2)] by auto
  ultimately show ?thesis
    unfolding row_alignment_def by (simp split: if_splits)
qed

subsection \<open>Room for every texel\<close>

text \<open>The texels, or blocks of a block-compressed format, of a row, and the rows of a level.\<close>

definition texel_columns :: "texture_desc \<Rightarrow> format_desc \<Rightarrow> u32 \<Rightarrow> nat" where
  "texel_columns d f w = (case d of Tex1D _ \<Rightarrow> unat w
     | _ \<Rightarrow> if Flag f AND MTL_DXGI_FORMAT_BC \<noteq> 0 then (unat w + 3) div 4 else unat w)"

definition texel_rows :: "texture_desc \<Rightarrow> format_desc \<Rightarrow> u32 \<Rightarrow> nat" where
  "texel_rows d f h = (case d of Tex1D _ \<Rightarrow> 1
     | _ \<Rightarrow> if Flag f AND MTL_DXGI_FORMAT_BC \<noteq> 0 then (unat h + 3) div 4 else unat h)"

definition fits_32_bits :: "texture_desc \<Rightarrow> format_desc \<Rightarrow> u32 \<Rightarrow> u32 \<Rightarrow> u32 \<Rightarrow> bool" where
  "fits_32_bits d f w h z \<longleftrightarrow>
     (texel_columns d f w * unat (BytesPerTexel f) + 2 ^ 16) * (4 * texel_rows d f h) * unat z < 2 ^ 32"

lemma aligned_row_bounds:
  assumes "caps_ok caps" "linear_format c = Returns f"
    and "unat w * unat (BytesPerTexel f) + 2 ^ 16 < 2 ^ 32"
  shows "unat w * unat (BytesPerTexel f) \<le> unat (aligned_bytes_per_row caps f w aligned)"
    and "unat (aligned_bytes_per_row caps f w aligned) < unat w * unat (BytesPerTexel f) + 2 ^ 16"
proof -
  note a = row_alignment_bounds [OF assms(1,2), of aligned]
  have m: "unat (BytesPerTexel f * w) = unat w * unat (BytesPerTexel f)"
    using assms(3) by (subst unat_mult_32) (simp_all add: mult.commute)
  have "unat (BytesPerTexel f * w) + unat (row_alignment caps f aligned) \<le> 2 ^ 32"
    using a assms(3) unfolding m by linarith
  note b = align_u32_bounds [OF conjunct1 [OF a] this]
  show "unat w * unat (BytesPerTexel f) \<le> unat (aligned_bytes_per_row caps f w aligned)"
    "unat (aligned_bytes_per_row caps f w aligned) < unat w * unat (BytesPerTexel f) + 2 ^ 16"
    using b a unfolding aligned_bytes_per_row_def m by linarith+
qed

lemma align_4:
  assumes "unat w + 4 < 2 ^ 32"
  shows "unat (align_u32 w 4) = 4 * ((unat w + 3) div 4)"
  using unat_align_u32 [of 4 2 w] assms by (simp add: mult.commute)

lemma block_row:
  assumes "4 * ((unat w + 3) div 4 * unat (BytesPerTexel f)) < 2 ^ 32" "unat w + 4 < 2 ^ 32"
  shows "unat (block_bytes_per_row f w) = (unat w + 3) div 4 * unat (BytesPerTexel f)"
proof -
  have "unat (BytesPerTexel f * align_u32 w 4) = 4 * ((unat w + 3) div 4 * unat (BytesPerTexel f))"
    using assms(1) by (subst unat_mult_32) (simp_all add: align_4 [OF assms(2)] ac_simps)
  then show ?thesis
    by (simp add: block_bytes_per_row_def unat_drop_2)
qed

lemma block_image:
  assumes "4 * (unat bpr * ((unat h + 3) div 4)) * unat z < 2 ^ 32" "unat h + 4 < 2 ^ 32" "0 < unat z"
  shows "unat (drop_bit 2 (bpr * align_u32 h 4)) = unat bpr * ((unat h + 3) div 4)"
    and "unat (drop_bit 2 (bpr * align_u32 h 4 * z)) = unat bpr * ((unat h + 3) div 4) * unat z"
proof -
  let ?P = "unat bpr * ((unat h + 3) div 4)"
  have "4 * ?P * 1 \<le> 4 * ?P * unat z"
    using assms(3) by (intro mult_le_mono2) simp
  then have "4 * ?P < 2 ^ 32"
    using assms(1) by linarith
  then have "unat bpr * (4 * ((unat h + 3) div 4)) < 2 ^ 32"
    by (simp only: mult.left_commute [of "unat bpr" 4])
  then have image: "unat (bpr * align_u32 h 4) = 4 * ?P"
    by (subst unat_mult_32) (simp_all add: align_4 [OF assms(2)])
  moreover have "unat (bpr * align_u32 h 4 * z) = 4 * ?P * unat z"
    using assms(1) image by (subst unat_mult_32) simp_all
  ultimately show "unat (drop_bit 2 (bpr * align_u32 h 4)) = ?P"
    "unat (drop_bit 2 (bpr * align_u32 h 4 * z)) = ?P * unat z"
    by (simp_all add: unat_drop_2 mult.assoc)
qed

text \<open>The three instances read as one: a level of a 1D or 2D texture has depth 1, of a 1D texture height 1.\<close>

definition blocks :: "texture_desc \<Rightarrow> format_desc \<Rightarrow> bool" where
  "blocks d f \<longleftrightarrow> Flag f AND MTL_DXGI_FORMAT_BC \<noteq> 0 \<and> (case d of Tex1D _ \<Rightarrow> False | _ \<Rightarrow> True)"

lemma layout_eq:
  assumes "linear_format (desc_Format d) = Returns f" "GetMipmapSize d level = Returns (w, h, z)"
  shows "GetLinearTextureLayout caps d level aligned = Returns
    (if blocks d f then
       \<lparr> BytesPerRow = block_bytes_per_row f w, BytesPerImage = drop_bit 2 (block_bytes_per_row f w * align_u32 h 4),
         BytesPerSlice = drop_bit 2 (block_bytes_per_row f w * align_u32 h 4 * z) \<rparr>
     else
       \<lparr> BytesPerRow = aligned_bytes_per_row caps f w aligned, BytesPerImage = aligned_bytes_per_row caps f w aligned * h,
         BytesPerSlice = aligned_bytes_per_row caps f w aligned * h * z \<rparr>)"
proof (cases d)
  case (Tex1D t)
  then have "h = 1" "z = 1" using assms(2) unfolding GetMipmapSize_Returns by simp_all
  then show ?thesis using assms Tex1D by (simp add: blocks_def Let_def)
next
  case (Tex2D t)
  then have "z = 1" using assms(2) unfolding GetMipmapSize_Returns by simp_all
  then show ?thesis using assms Tex2D by (simp add: blocks_def Let_def)
next
  case (Tex3D t)
  then show ?thesis using assms by (simp add: blocks_def Let_def)
qed

lemma texel_counts:
  "blocks d f \<Longrightarrow> texel_columns d f w = (unat w + 3) div 4 \<and> texel_rows d f h = (unat h + 3) div 4"
  "\<not> blocks d f \<Longrightarrow> texel_columns d f w = unat w"
  "\<not> blocks d f \<Longrightarrow> GetMipmapSize d level = Returns (w, h, z) \<Longrightarrow> texel_rows d f h = unat h"
  by (auto simp: blocks_def texel_columns_def texel_rows_def GetMipmapSize_Returns split: texture_desc.splits if_splits)

text \<open>Rows hold their texels, images their rows, and the slice its images.\<close>

lemma layout_sizes:
  assumes caps: "caps_ok caps" and l: "GetLinearTextureLayout caps d level aligned = Returns l"
    and lvl: "GetMipmapSize d level = Returns (w, h, z)" and f: "linear_format (desc_Format d) = Returns f"
    and room: "fits_32_bits d f w h z"
  shows "texel_columns d f w * unat (BytesPerTexel f) \<le> unat (BytesPerRow l) \<and>
         texel_rows d f h * unat (BytesPerRow l) \<le> unat (BytesPerImage l) \<and>
         unat z * unat (BytesPerImage l) \<le> unat (BytesPerSlice l)"
proof -
  let ?T = "unat (BytesPerTexel f)" and ?c = "texel_columns d f w" and ?r = "texel_rows d f h"
  have pos: "0 < unat z" "0 < unat h" "0 < unat w"
    using lvl by (auto simp: GetMipmapSize_Returns unat_gt_0 max_def split: texture_desc.splits if_splits)
  then have r: "0 < ?r" by (auto simp: texel_rows_def split: texture_desc.splits)
  have T: "0 < ?T" using texel_size [OF f] by auto
  have room': "(?c * ?T + 2 ^ 16) * (4 * ?r) * unat z < 2 ^ 32"
    using room by (simp add: fits_32_bits_def)
  have "(?c * ?T + 2 ^ 16) * (4 * ?r) * 1 \<le> (?c * ?T + 2 ^ 16) * (4 * ?r) * unat z"
    using pos by (intro mult_le_mono2) simp
  then have img: "(?c * ?T + 2 ^ 16) * (4 * ?r) < 2 ^ 32" using room' by linarith
  have "(?c * ?T + 2 ^ 16) * (4 * 1) \<le> (?c * ?T + 2 ^ 16) * (4 * ?r)"
    using r by (intro mult_le_mono2) simp
  then have "(?c * ?T + 2 ^ 16) * 4 < 2 ^ 32" using img by (simp only: mult_1_right)
  then have row: "4 * (?c * ?T) + 4 * 2 ^ 16 < 2 ^ 32" by (simp add: algebra_simps)
  have c: "?c \<le> ?c * ?T" using T by simp
  have "2 ^ 16 * (4 * ?r) \<le> (?c * ?T + 2 ^ 16) * (4 * ?r)" by (intro mult_le_mono1) simp
  from le_less_trans [OF this img] have rows: "4 * ?r < 2 ^ 16" by simp
  show ?thesis
  proof (cases "blocks d f")
    case True
    note eq = texel_counts(1) [OF True, of w h]
    have w4: "unat w + 4 < 2 ^ 32" and h4: "unat h + 4 < 2 ^ 32"
      using row c rows eq by linarith+
    have "4 * ((unat w + 3) div 4 * ?T) < 2 ^ 32" using row eq by simp
    note bpr = block_row [OF this w4]
    have "4 * (unat (block_bytes_per_row f w) * ?r) * unat z \<le> (?c * ?T + 2 ^ 16) * (4 * ?r) * unat z"
      using eq unfolding bpr by (intro mult_le_mono1) (simp add: algebra_simps)
    from le_less_trans [OF this room']
    have "4 * (unat (block_bytes_per_row f w) * ((unat h + 3) div 4)) * unat z < 2 ^ 32"
      using eq by simp
    note b = block_image [OF this h4 pos(1)]
    have l_eq: "BytesPerRow l = block_bytes_per_row f w"
      "BytesPerImage l = drop_bit 2 (block_bytes_per_row f w * align_u32 h 4)"
      "BytesPerSlice l = drop_bit 2 (block_bytes_per_row f w * align_u32 h 4 * z)"
      using l True by (auto simp: layout_eq [OF f lvl])
    show ?thesis
      unfolding l_eq b bpr using eq by (simp add: ac_simps)
  next
    case False
    let ?bpr = "aligned_bytes_per_row caps f w aligned"
    have c_eq: "?c = unat w" and r_eq: "?r = unat h" using texel_counts(2,3) [OF False] lvl by auto
    have "unat w * ?T + 2 ^ 16 < 2 ^ 32" using row unfolding c_eq by linarith
    note b = aligned_row_bounds [OF caps f this, of aligned]
    have "unat ?bpr * ?r * unat z \<le> (?c * ?T + 2 ^ 16) * (4 * ?r) * unat z"
      using b(2) unfolding c_eq by (intro mult_le_mono) simp_all
    from le_less_trans [OF this room'] have slice: "unat ?bpr * ?r * unat z < 2 ^ 32" .
    have "unat ?bpr * ?r * 1 \<le> unat ?bpr * ?r * unat z" using pos by (intro mult_le_mono2) simp
    from le_less_trans [OF this slice] have i: "unat (?bpr * h) = unat ?bpr * unat h"
      unfolding r_eq by (subst unat_mult_32) simp_all
    moreover have "unat (?bpr * h * z) = unat ?bpr * unat h * unat z"
      using slice i unfolding r_eq by (subst unat_mult_32) simp_all
    moreover have "BytesPerRow l = ?bpr" "BytesPerImage l = ?bpr * h" "BytesPerSlice l = ?bpr * h * z"
      using l False by (auto simp: layout_eq [OF f lvl])
    ultimately show ?thesis
      using b(1) by (simp add: c_eq r_eq ac_simps)
  qed
qed


definition sample_caps :: metal_caps where
  "sample_caps = \<lparr> supportsApple8 = True, supportsTextureSampleCount = (\<lambda>n. n \<in> {1, 2, 4}),
     minimumLinearTextureAlignment = (\<lambda>_. 2 ^ 8) \<rparr>"

lemma sample_caps_ok: "caps_ok sample_caps"
  unfolding caps_ok_def sample_caps_def by (intro allI exI [of _ 8]) simp

definition texture2d :: "u32 \<Rightarrow> u32 \<Rightarrow> u32 \<Rightarrow> u32 \<Rightarrow> u32 \<Rightarrow> texture2d_desc1" where
  "texture2d width height mips layers fmt =
     \<lparr> t2_Width = width, t2_Height = height, t2_MipLevels = mips, t2_ArraySize = layers, t2_Format = fmt,
       t2_SampleDesc = (1, 0), t2_Usage = D3D11_USAGE_DEFAULT, t2_BindFlags = 8, t2_CPUAccessFlags = 0,
       t2_MiscFlags = 0, t2_TextureLayout = D3D11_TEXTURE_LAYOUT_UNDEFINED \<rparr>"


text \<open>Beyond the bound the sizes wrap: the largest 2D texture of 16-byte texels has a layout of length 0, and a
  single 12-byte texel a row of 20 bytes when no alignment is asked for.\<close>

lemma largest_float4_layout_wraps:
  "GetLinearTextureLayout sample_caps (Tex2D (texture2d 16384 16384 1 1 DXGI_FORMAT_R32G32B32A32_FLOAT)) 0 True
   = Returns \<lparr> BytesPerRow = 262144, BytesPerImage = 0, BytesPerSlice = 0 \<rparr>"
  by code_simp

lemma unaligned_12_byte_row:
  "GetLinearTextureLayout sample_caps (Tex2D (texture2d 1 1 1 1 DXGI_FORMAT_R32G32B32_FLOAT)) 0 False
   = Returns \<lparr> BytesPerRow = 20, BytesPerImage = 20, BytesPerSlice = 20 \<rparr>"
  by code_simp

end
