(* ===== verification/ViewDescs.thy ===== *)
theory ViewDescs
  imports LinearLayout
begin

text \<open>
  Descriptions of D3D11 views: the view of an entire resource
  (\<open>ExtractEntireResourceViewDescription\<close> of src/src/d3d11/d3d11_resource_helper.cpp and d3d11_resource.hpp)
  and the two versions of a description. A description is its format and a
  datatype whose constructors are the view dimensions with the fields of the union they select; a dimension
  that is none of the enumeration is the last constructor. \<open>D3D11_ASSERT\<close> does nothing in a release build.
\<close>

subsection \<open>The descriptions\<close>

datatype srv_dim1 =
  SRV_UNKNOWN
| SRV_BUFFER u32 u32 \<comment> \<open>FirstElement, NumElements\<close>
| SRV_TEXTURE1D u32 u32 \<comment> \<open>MostDetailedMip, MipLevels\<close>
| SRV_TEXTURE1DARRAY u32 u32 u32 u32 \<comment> \<open>MostDetailedMip, MipLevels, FirstArraySlice, ArraySize\<close>
| SRV_TEXTURE2D u32 u32 u32 \<comment> \<open>MostDetailedMip, MipLevels, PlaneSlice\<close>
| SRV_TEXTURE2DARRAY u32 u32 u32 u32 u32 \<comment> \<open>as for 1D arrays, PlaneSlice\<close>
| SRV_TEXTURE2DMS
| SRV_TEXTURE2DMSARRAY u32 u32 \<comment> \<open>FirstArraySlice, ArraySize\<close>
| SRV_TEXTURE3D u32 u32 \<comment> \<open>MostDetailedMip, MipLevels\<close>
| SRV_TEXTURECUBE u32 u32 \<comment> \<open>MostDetailedMip, MipLevels\<close>
| SRV_TEXTURECUBEARRAY u32 u32 u32 u32 \<comment> \<open>MostDetailedMip, MipLevels, First2DArrayFace, NumCubes\<close>
| SRV_BUFFEREX u32 u32 u32 \<comment> \<open>FirstElement, NumElements, Flags\<close>
| SRV_other u32

datatype srv_dim =
  SRV0_UNKNOWN
| SRV0_BUFFER u32 u32
| SRV0_TEXTURE1D u32 u32
| SRV0_TEXTURE1DARRAY u32 u32 u32 u32
| SRV0_TEXTURE2D u32 u32
| SRV0_TEXTURE2DARRAY u32 u32 u32 u32
| SRV0_TEXTURE2DMS
| SRV0_TEXTURE2DMSARRAY u32 u32
| SRV0_TEXTURE3D u32 u32
| SRV0_TEXTURECUBE u32 u32
| SRV0_TEXTURECUBEARRAY u32 u32 u32 u32
| SRV0_BUFFEREX u32 u32 u32
| SRV0_other u32

datatype uav_dim1 =
  UAV_UNKNOWN
| UAV_BUFFER u32 u32 u32 \<comment> \<open>FirstElement, NumElements, Flags\<close>
| UAV_TEXTURE1D u32 \<comment> \<open>MipSlice\<close>
| UAV_TEXTURE1DARRAY u32 u32 u32 \<comment> \<open>MipSlice, FirstArraySlice, ArraySize\<close>
| UAV_TEXTURE2D u32 u32 \<comment> \<open>MipSlice, PlaneSlice\<close>
| UAV_TEXTURE2DARRAY u32 u32 u32 u32 \<comment> \<open>as for 1D arrays, PlaneSlice\<close>
| UAV_TEXTURE3D u32 u32 u32 \<comment> \<open>MipSlice, FirstWSlice, WSize\<close>
| UAV_other u32

datatype uav_dim =
  UAV0_UNKNOWN
| UAV0_BUFFER u32 u32 u32
| UAV0_TEXTURE1D u32
| UAV0_TEXTURE1DARRAY u32 u32 u32
| UAV0_TEXTURE2D u32
| UAV0_TEXTURE2DARRAY u32 u32 u32
| UAV0_TEXTURE3D u32 u32 u32
| UAV0_other u32

datatype rtv_dim1 =
  RTV_UNKNOWN
| RTV_BUFFER u32 u32 \<comment> \<open>FirstElement, NumElements\<close>
| RTV_TEXTURE1D u32 \<comment> \<open>MipSlice\<close>
| RTV_TEXTURE1DARRAY u32 u32 u32 \<comment> \<open>MipSlice, FirstArraySlice, ArraySize\<close>
| RTV_TEXTURE2D u32 u32 \<comment> \<open>MipSlice, PlaneSlice\<close>
| RTV_TEXTURE2DARRAY u32 u32 u32 u32 \<comment> \<open>as for 1D arrays, PlaneSlice\<close>
| RTV_TEXTURE2DMS
| RTV_TEXTURE2DMSARRAY u32 u32 \<comment> \<open>FirstArraySlice, ArraySize\<close>
| RTV_TEXTURE3D u32 u32 u32 \<comment> \<open>MipSlice, FirstWSlice, WSize\<close>
| RTV_other u32

datatype rtv_dim =
  RTV0_UNKNOWN
| RTV0_BUFFER u32 u32
| RTV0_TEXTURE1D u32
| RTV0_TEXTURE1DARRAY u32 u32 u32
| RTV0_TEXTURE2D u32
| RTV0_TEXTURE2DARRAY u32 u32 u32
| RTV0_TEXTURE2DMS
| RTV0_TEXTURE2DMSARRAY u32 u32
| RTV0_TEXTURE3D u32 u32 u32
| RTV0_other u32

datatype dsv_dim =
  DSV_UNKNOWN
| DSV_TEXTURE1D u32 \<comment> \<open>MipSlice\<close>
| DSV_TEXTURE1DARRAY u32 u32 u32 \<comment> \<open>MipSlice, FirstArraySlice, ArraySize\<close>
| DSV_TEXTURE2D u32
| DSV_TEXTURE2DARRAY u32 u32 u32
| DSV_TEXTURE2DMS
| DSV_TEXTURE2DMSARRAY u32 u32
| DSV_other u32

record 'd view_desc =
  vd_Format :: u32
  ViewDimension :: 'd

record dsv_desc = "dsv_dim view_desc" +
  dsv_Flags :: u32

subsection \<open>The view of an entire resource\<close>

definition ExtractEntireSRV_buffer :: "buffer_desc \<Rightarrow> srv_dim1 view_desc outcome" where
  "ExtractEntireSRV_buffer d =
     (if bd_MiscFlags d AND D3D11_RESOURCE_MISC_BUFFER_STRUCTURED \<noteq> 0 then
        bindO (udiv32 (bd_ByteWidth d) (bd_StructureByteStride d)) (\<lambda>n.
          Returns \<lparr> vd_Format = DXGI_FORMAT_UNKNOWN, ViewDimension = SRV_BUFFER 0 n \<rparr>)
      else Fails E_FAIL)"

definition ExtractEntireUAV_buffer :: "buffer_desc \<Rightarrow> uav_dim1 view_desc outcome" where
  "ExtractEntireUAV_buffer d =
     (if bd_MiscFlags d AND D3D11_RESOURCE_MISC_BUFFER_STRUCTURED \<noteq> 0 then
        bindO (udiv32 (bd_ByteWidth d) (bd_StructureByteStride d)) (\<lambda>n.
          Returns \<lparr> vd_Format = DXGI_FORMAT_UNKNOWN, ViewDimension = UAV_BUFFER 0 n 0 \<rparr>)
      else Fails E_FAIL)"

fun ExtractEntireSRV :: "texture_desc \<Rightarrow> srv_dim1 view_desc outcome" where
  "ExtractEntireSRV (Tex1D d) = Returns \<lparr> vd_Format = t1_Format d,
     ViewDimension = (if t1_ArraySize d = 1 then SRV_TEXTURE1D 0 (t1_MipLevels d)
                      else SRV_TEXTURE1DARRAY 0 (t1_MipLevels d) 0 (t1_ArraySize d)) \<rparr>"
| "ExtractEntireSRV (Tex2D d) = Returns \<lparr> vd_Format = t2_Format d,
     ViewDimension =
       (if fst (t2_SampleDesc d) = 1 then
          if t2_ArraySize d = 1 then SRV_TEXTURE2D 0 (t2_MipLevels d) 0
          else if t2_MiscFlags d AND D3D11_RESOURCE_MISC_TEXTURECUBE \<noteq> 0 then
            (let texture_cube_array_length = t2_ArraySize d div 6
             in if texture_cube_array_length > 1
                then SRV_TEXTURECUBEARRAY 0 (t2_MipLevels d) 0 texture_cube_array_length
                else SRV_TEXTURECUBE 0 (t2_MipLevels d))
          else SRV_TEXTURE2DARRAY 0 (t2_MipLevels d) 0 (t2_ArraySize d) 0
        else if t2_ArraySize d = 1 then SRV_TEXTURE2DMS
        else SRV_TEXTURE2DMSARRAY 0 (t2_ArraySize d)) \<rparr>"
| "ExtractEntireSRV (Tex3D d) = Returns \<lparr> vd_Format = t3_Format d, ViewDimension = SRV_TEXTURE3D 0 (t3_MipLevels d) \<rparr>"

fun ExtractEntireUAV :: "texture_desc \<Rightarrow> uav_dim1 view_desc outcome" where
  "ExtractEntireUAV (Tex1D d) = Returns \<lparr> vd_Format = t1_Format d,
     ViewDimension = (if t1_ArraySize d = 1 then UAV_TEXTURE1D 0 else UAV_TEXTURE1DARRAY 0 0 (t1_ArraySize d)) \<rparr>"
| "ExtractEntireUAV (Tex2D d) =
     (if fst (t2_SampleDesc d) = 1 then Returns \<lparr> vd_Format = t2_Format d,
        ViewDimension = (if t2_ArraySize d = 1 then UAV_TEXTURE2D 0 0 else UAV_TEXTURE2DARRAY 0 0 (t2_ArraySize d) 0) \<rparr>
      else Fails E_FAIL)"
| "ExtractEntireUAV (Tex3D d) = Returns \<lparr> vd_Format = t3_Format d, ViewDimension = UAV_TEXTURE3D 0 0 (t3_Depth d) \<rparr>"

fun ExtractEntireRTV :: "texture_desc \<Rightarrow> rtv_dim1 view_desc outcome" where
  "ExtractEntireRTV (Tex1D d) = Returns \<lparr> vd_Format = t1_Format d,
     ViewDimension = (if t1_ArraySize d = 1 then RTV_TEXTURE1D 0 else RTV_TEXTURE1DARRAY 0 0 (t1_ArraySize d)) \<rparr>"
| "ExtractEntireRTV (Tex2D d) = Returns \<lparr> vd_Format = t2_Format d,
     ViewDimension =
       (if fst (t2_SampleDesc d) = 1 then
          if t2_ArraySize d = 1 then RTV_TEXTURE2D 0 0 else RTV_TEXTURE2DARRAY 0 0 (t2_ArraySize d) 0
        else if t2_ArraySize d = 1 then RTV_TEXTURE2DMS
        else RTV_TEXTURE2DMSARRAY 0 (t2_ArraySize d)) \<rparr>"
| "ExtractEntireRTV (Tex3D d) = Returns \<lparr> vd_Format = t3_Format d, ViewDimension = RTV_TEXTURE3D 0 0 (t3_Depth d) \<rparr>"

text \<open>The flags of an entire depth-stencil view are not written: the parameter \<open>junk\<close> is what they hold.\<close>

fun ExtractEntireDSV :: "u32 \<Rightarrow> texture_desc \<Rightarrow> dsv_desc outcome" where
  "ExtractEntireDSV junk (Tex1D d) = Returns \<lparr> vd_Format = t1_Format d,
     ViewDimension = (if t1_ArraySize d = 1 then DSV_TEXTURE1D 0 else DSV_TEXTURE1DARRAY 0 0 (t1_ArraySize d)),
     dsv_Flags = junk \<rparr>"
| "ExtractEntireDSV junk (Tex2D d) = Returns \<lparr> vd_Format = t2_Format d,
     ViewDimension =
       (if fst (t2_SampleDesc d) = 1 then
          if t2_ArraySize d = 1 then DSV_TEXTURE2D 0 else DSV_TEXTURE2DARRAY 0 0 (t2_ArraySize d)
        else if t2_ArraySize d = 1 then DSV_TEXTURE2DMS
        else DSV_TEXTURE2DMSARRAY 0 (t2_ArraySize d)), dsv_Flags = junk \<rparr>"
| "ExtractEntireDSV junk (Tex3D d) = Fails E_FAIL"

text \<open>The overload with a given description: a texture view of no format has the format of the texture.\<close>

definition given_or_entire :: "u32 \<Rightarrow> ('d, 'z) view_desc_scheme outcome \<Rightarrow> ('d, 'z) view_desc_scheme option
    \<Rightarrow> ('d, 'z) view_desc_scheme outcome" where
  "given_or_entire resource_format entire pViewDescIn =
     (case pViewDescIn of
        Some v \<Rightarrow> Returns (if vd_Format v = DXGI_FORMAT_UNKNOWN then v\<lparr> vd_Format := resource_format \<rparr> else v)
      | None \<Rightarrow> entire)"

definition given_or_entire_buffer :: "('d, 'z) view_desc_scheme outcome \<Rightarrow> ('d, 'z) view_desc_scheme option
    \<Rightarrow> ('d, 'z) view_desc_scheme outcome" where
  "given_or_entire_buffer entire pViewDescIn = (case pViewDescIn of Some v \<Rightarrow> Returns v | None \<Rightarrow> entire)"

subsection \<open>The two versions of a description\<close>

text \<open>The later version adds the plane of a 2D view. For a dimension outside the enumeration no field of the
  union is written.\<close>

fun downgrade_srv_dim :: "srv_dim1 \<Rightarrow> srv_dim" where
  "downgrade_srv_dim SRV_UNKNOWN = SRV0_UNKNOWN"
| "downgrade_srv_dim (SRV_BUFFER e n) = SRV0_BUFFER e n"
| "downgrade_srv_dim (SRV_TEXTURE1D m n) = SRV0_TEXTURE1D m n"
| "downgrade_srv_dim (SRV_TEXTURE1DARRAY m n a s) = SRV0_TEXTURE1DARRAY m n a s"
| "downgrade_srv_dim (SRV_TEXTURE2D m n p) = SRV0_TEXTURE2D m n"
| "downgrade_srv_dim (SRV_TEXTURE2DARRAY m n a s p) = SRV0_TEXTURE2DARRAY m n a s"
| "downgrade_srv_dim SRV_TEXTURE2DMS = SRV0_TEXTURE2DMS"
| "downgrade_srv_dim (SRV_TEXTURE2DMSARRAY a s) = SRV0_TEXTURE2DMSARRAY a s"
| "downgrade_srv_dim (SRV_TEXTURE3D m n) = SRV0_TEXTURE3D m n"
| "downgrade_srv_dim (SRV_TEXTURECUBE m n) = SRV0_TEXTURECUBE m n"
| "downgrade_srv_dim (SRV_TEXTURECUBEARRAY m n f c) = SRV0_TEXTURECUBEARRAY m n f c"
| "downgrade_srv_dim (SRV_BUFFEREX e n f) = SRV0_BUFFEREX e n f"
| "downgrade_srv_dim (SRV_other k) = SRV0_other k"

fun upgrade_srv_dim :: "srv_dim \<Rightarrow> srv_dim1" where
  "upgrade_srv_dim SRV0_UNKNOWN = SRV_UNKNOWN"
| "upgrade_srv_dim (SRV0_BUFFER e n) = SRV_BUFFER e n"
| "upgrade_srv_dim (SRV0_TEXTURE1D m n) = SRV_TEXTURE1D m n"
| "upgrade_srv_dim (SRV0_TEXTURE1DARRAY m n a s) = SRV_TEXTURE1DARRAY m n a s"
| "upgrade_srv_dim (SRV0_TEXTURE2D m n) = SRV_TEXTURE2D m n 0"
| "upgrade_srv_dim (SRV0_TEXTURE2DARRAY m n a s) = SRV_TEXTURE2DARRAY m n a s 0"
| "upgrade_srv_dim SRV0_TEXTURE2DMS = SRV_TEXTURE2DMS"
| "upgrade_srv_dim (SRV0_TEXTURE2DMSARRAY a s) = SRV_TEXTURE2DMSARRAY a s"
| "upgrade_srv_dim (SRV0_TEXTURE3D m n) = SRV_TEXTURE3D m n"
| "upgrade_srv_dim (SRV0_TEXTURECUBE m n) = SRV_TEXTURECUBE m n"
| "upgrade_srv_dim (SRV0_TEXTURECUBEARRAY m n f c) = SRV_TEXTURECUBEARRAY m n f c"
| "upgrade_srv_dim (SRV0_BUFFEREX e n f) = SRV_BUFFEREX e n f"
| "upgrade_srv_dim (SRV0_other k) = SRV_other k"

fun downgrade_rtv_dim :: "rtv_dim1 \<Rightarrow> rtv_dim" where
  "downgrade_rtv_dim RTV_UNKNOWN = RTV0_UNKNOWN"
| "downgrade_rtv_dim (RTV_BUFFER e n) = RTV0_BUFFER e n"
| "downgrade_rtv_dim (RTV_TEXTURE1D m) = RTV0_TEXTURE1D m"
| "downgrade_rtv_dim (RTV_TEXTURE1DARRAY m a s) = RTV0_TEXTURE1DARRAY m a s"
| "downgrade_rtv_dim (RTV_TEXTURE2D m p) = RTV0_TEXTURE2D m"
| "downgrade_rtv_dim (RTV_TEXTURE2DARRAY m a s p) = RTV0_TEXTURE2DARRAY m a s"
| "downgrade_rtv_dim RTV_TEXTURE2DMS = RTV0_TEXTURE2DMS"
| "downgrade_rtv_dim (RTV_TEXTURE2DMSARRAY a s) = RTV0_TEXTURE2DMSARRAY a s"
| "downgrade_rtv_dim (RTV_TEXTURE3D m w s) = RTV0_TEXTURE3D m w s"
| "downgrade_rtv_dim (RTV_other k) = RTV0_other k"

fun upgrade_rtv_dim :: "rtv_dim \<Rightarrow> rtv_dim1" where
  "upgrade_rtv_dim RTV0_UNKNOWN = RTV_UNKNOWN"
| "upgrade_rtv_dim (RTV0_BUFFER e n) = RTV_BUFFER e n"
| "upgrade_rtv_dim (RTV0_TEXTURE1D m) = RTV_TEXTURE1D m"
| "upgrade_rtv_dim (RTV0_TEXTURE1DARRAY m a s) = RTV_TEXTURE1DARRAY m a s"
| "upgrade_rtv_dim (RTV0_TEXTURE2D m) = RTV_TEXTURE2D m 0"
| "upgrade_rtv_dim (RTV0_TEXTURE2DARRAY m a s) = RTV_TEXTURE2DARRAY m a s 0"
| "upgrade_rtv_dim RTV0_TEXTURE2DMS = RTV_TEXTURE2DMS"
| "upgrade_rtv_dim (RTV0_TEXTURE2DMSARRAY a s) = RTV_TEXTURE2DMSARRAY a s"
| "upgrade_rtv_dim (RTV0_TEXTURE3D m w s) = RTV_TEXTURE3D m w s"
| "upgrade_rtv_dim (RTV0_other k) = RTV_other k"

fun downgrade_uav_dim :: "uav_dim1 \<Rightarrow> uav_dim" where
  "downgrade_uav_dim UAV_UNKNOWN = UAV0_UNKNOWN"
| "downgrade_uav_dim (UAV_BUFFER e n f) = UAV0_BUFFER e n f"
| "downgrade_uav_dim (UAV_TEXTURE1D m) = UAV0_TEXTURE1D m"
| "downgrade_uav_dim (UAV_TEXTURE1DARRAY m a s) = UAV0_TEXTURE1DARRAY m a s"
| "downgrade_uav_dim (UAV_TEXTURE2D m p) = UAV0_TEXTURE2D m"
| "downgrade_uav_dim (UAV_TEXTURE2DARRAY m a s p) = UAV0_TEXTURE2DARRAY m a s"
| "downgrade_uav_dim (UAV_TEXTURE3D m w s) = UAV0_TEXTURE3D m w s"
| "downgrade_uav_dim (UAV_other k) = UAV0_other k"

fun upgrade_uav_dim :: "uav_dim \<Rightarrow> uav_dim1" where
  "upgrade_uav_dim UAV0_UNKNOWN = UAV_UNKNOWN"
| "upgrade_uav_dim (UAV0_BUFFER e n f) = UAV_BUFFER e n f"
| "upgrade_uav_dim (UAV0_TEXTURE1D m) = UAV_TEXTURE1D m"
| "upgrade_uav_dim (UAV0_TEXTURE1DARRAY m a s) = UAV_TEXTURE1DARRAY m a s"
| "upgrade_uav_dim (UAV0_TEXTURE2D m) = UAV_TEXTURE2D m 0"
| "upgrade_uav_dim (UAV0_TEXTURE2DARRAY m a s) = UAV_TEXTURE2DARRAY m a s 0"
| "upgrade_uav_dim (UAV0_TEXTURE3D m w s) = UAV_TEXTURE3D m w s"
| "upgrade_uav_dim (UAV0_other k) = UAV_other k"

definition convert_view :: "('d \<Rightarrow> 'e) \<Rightarrow> 'd view_desc \<Rightarrow> 'e view_desc" where
  "convert_view c v = \<lparr> vd_Format = vd_Format v, ViewDimension = c (ViewDimension v) \<rparr>"

definition DowngradeViewDescription_SRV :: "srv_dim1 view_desc \<Rightarrow> srv_dim view_desc" where
  "DowngradeViewDescription_SRV = convert_view downgrade_srv_dim"

definition UpgradeViewDescription_SRV :: "srv_dim view_desc \<Rightarrow> srv_dim1 view_desc" where
  "UpgradeViewDescription_SRV = convert_view upgrade_srv_dim"

definition DowngradeViewDescription_RTV :: "rtv_dim1 view_desc \<Rightarrow> rtv_dim view_desc" where
  "DowngradeViewDescription_RTV = convert_view downgrade_rtv_dim"

definition UpgradeViewDescription_RTV :: "rtv_dim view_desc \<Rightarrow> rtv_dim1 view_desc" where
  "UpgradeViewDescription_RTV = convert_view upgrade_rtv_dim"

definition DowngradeViewDescription_UAV :: "uav_dim1 view_desc \<Rightarrow> uav_dim view_desc" where
  "DowngradeViewDescription_UAV = convert_view downgrade_uav_dim"

definition UpgradeViewDescription_UAV :: "uav_dim view_desc \<Rightarrow> uav_dim1 view_desc" where
  "UpgradeViewDescription_UAV = convert_view upgrade_uav_dim"

lemmas view_versions = DowngradeViewDescription_SRV_def UpgradeViewDescription_SRV_def
  DowngradeViewDescription_RTV_def UpgradeViewDescription_RTV_def
  DowngradeViewDescription_UAV_def UpgradeViewDescription_UAV_def convert_view_def

lemma dims_round_trip [simp]:
  "downgrade_srv_dim (upgrade_srv_dim a) = a" "downgrade_rtv_dim (upgrade_rtv_dim b) = b"
  "downgrade_uav_dim (upgrade_uav_dim c) = c"
proof -
  show "downgrade_srv_dim (upgrade_srv_dim a) = a" by (cases a) simp_all
  show "downgrade_rtv_dim (upgrade_rtv_dim b) = b" by (cases b) simp_all
  show "downgrade_uav_dim (upgrade_uav_dim c) = c" by (cases c) simp_all
qed


end
