(* ===== verification/TextureViews.thy ===== *)
theory TextureViews
  imports ViewDescs
begin

text \<open>
  \<open>InitializeAndNormalizeViewDescriptor\<close> of src/src/d3d11/d3d11_resource_view_helper.cpp: from the
  description of a view and the texture it is made on to the part of the texture Metal is asked for. The
  count that is all ones means the rest of the texture. The description is returned with that count
  written out. An \<open>ArraySize\<close> of a 3D texture is its depth.

  Theory \<open>ViewRegions\<close> compares the descriptor with the region of the texture that the description names: the
  levels and slices are exactly those, for every view dimension.
\<close>

subsection \<open>Textures and descriptors\<close>

record wmt_texture_info = texture_info +
  ti_depth :: u32
  ti_sample_count :: u32 \<comment> \<open>8 bits\<close>
  ti_options :: u32

definition view_descriptor :: "u32 \<Rightarrow> u32 \<Rightarrow> u32 \<Rightarrow> u32 \<Rightarrow> u32 \<Rightarrow> u32 \<Rightarrow> texture_view_descriptor" where
  "view_descriptor fmt ty first_level levels first_slice slices =
     \<lparr> vd_format = take_bit 24 fmt, vd_type = take_bit 8 ty,
       firstMiplevel = take_bit 4 (unat first_level), miplevelCount = take_bit 4 (unat levels),
       firstArraySlice = take_bit 12 (unat first_slice), arraySize = take_bit 12 (unat slices),
       intendedUsage = WMTTextureUsageUnknown \<rparr>"

definition FixDepthStencilFormat :: "wmt_texture_info \<Rightarrow> format_desc \<Rightarrow> format_desc" where
  "FixDepthStencilFormat tex desc =
     (if ti_pixel_format tex = WMTPixelFormatDepth16Unorm then desc\<lparr> PixelFormat := WMTPixelFormatDepth16Unorm \<rparr>
      else if ti_pixel_format tex = WMTPixelFormatDepth32Float then desc\<lparr> PixelFormat := WMTPixelFormatDepth32Float \<rparr>
      else desc)"

text \<open>\<open>if (~n == 0) n = all - first\<close>.\<close>

definition or_rest :: "u32 \<Rightarrow> u32 \<Rightarrow> u32 \<Rightarrow> u32" where
  "or_rest all_of first n = (if NOT n = 0 then all_of - first else n)"

abbreviation any_2d :: "u32 \<Rightarrow> bool" where
  "any_2d ty \<equiv> ty \<in> {WMTTextureType2D, WMTTextureType2DArray, WMTTextureTypeCube, WMTTextureTypeCubeArray}"

subsection \<open>Shader resource views\<close>

fun normalize_srv :: "u32 \<Rightarrow> u32 \<Rightarrow> u32 \<Rightarrow> u32 \<Rightarrow> srv_dim1 \<Rightarrow> (srv_dim1 \<times> texture_view_descriptor) outcome" where
  "normalize_srv mips layers ty fmt (SRV_TEXTURE1D m n) =
     (let n = or_rest mips m n in
      if ty \<in> {WMTTextureType2D, WMTTextureType2DArray}
      then Returns (SRV_TEXTURE1D m n, view_descriptor fmt WMTTextureType2D m n 0 1) else Fails E_FAIL)"
| "normalize_srv mips layers ty fmt (SRV_TEXTURE1DARRAY m n a s) =
     (let n = or_rest mips m n; s = or_rest layers a s in
      if ty \<in> {WMTTextureType2D, WMTTextureType2DArray}
      then Returns (SRV_TEXTURE1DARRAY m n a s, view_descriptor fmt WMTTextureType2DArray m n a s) else Fails E_FAIL)"
| "normalize_srv mips layers ty fmt (SRV_TEXTURE2D m n p) =
     (let n = or_rest mips m n in
      if any_2d ty
      then Returns (SRV_TEXTURE2D m n p, view_descriptor fmt WMTTextureType2D m n 0 1) else Fails E_FAIL)"
| "normalize_srv mips layers ty fmt (SRV_TEXTURE2DARRAY m n a s p) =
     (let n = or_rest mips m n; s = or_rest layers a s in
      if any_2d ty
      then Returns (SRV_TEXTURE2DARRAY m n a s p, view_descriptor fmt WMTTextureType2DArray m n a s) else Fails E_FAIL)"
| "normalize_srv mips layers ty fmt SRV_TEXTURE2DMS =
     (if ty = WMTTextureType2DMultisample
      then Returns (SRV_TEXTURE2DMS, view_descriptor fmt WMTTextureType2DMultisample 0 1 0 1)
      else if ty = WMTTextureType2D
      then Returns (SRV_TEXTURE2DMS, view_descriptor fmt WMTTextureType2D 0 1 0 1)
      else Fails E_FAIL)"
| "normalize_srv mips layers ty fmt (SRV_TEXTURE2DMSARRAY a s) =
     (let s = or_rest layers a s in
      if ty = WMTTextureType2DMultisample
      then Returns (SRV_TEXTURE2DMSARRAY a s, view_descriptor fmt WMTTextureType2DMultisampleArray 0 1 0 1)
      else if ty = WMTTextureType2DMultisampleArray
      then Returns (SRV_TEXTURE2DMSARRAY a s, view_descriptor fmt WMTTextureType2DMultisampleArray 0 1 a s)
      else if ty = WMTTextureType2D
      then Returns (SRV_TEXTURE2DMSARRAY a s, view_descriptor fmt WMTTextureType2DArray 0 1 0 1)
      else if ty = WMTTextureType2DArray
      then Returns (SRV_TEXTURE2DMSARRAY a s, view_descriptor fmt WMTTextureType2DArray 0 1 a s)
      else Fails E_FAIL)"
| "normalize_srv mips layers ty fmt (SRV_TEXTURE3D m n) =
     (let n = or_rest mips m n in
      if ty = WMTTextureType3D
      then Returns (SRV_TEXTURE3D m n, view_descriptor fmt WMTTextureType3D m n 0 1) else Fails E_FAIL)"
| "normalize_srv mips layers ty fmt (SRV_TEXTURECUBE m n) =
     (let n = or_rest mips m n in
      if ty \<in> {WMTTextureTypeCube, WMTTextureTypeCubeArray}
      then Returns (SRV_TEXTURECUBE m n, view_descriptor fmt WMTTextureTypeCube m
                      (if NOT n \<noteq> 0 then n else mips - m) 0 6)
      else Fails E_FAIL)"
| "normalize_srv mips layers ty fmt (SRV_TEXTURECUBEARRAY m n f c) =
     (let n = or_rest mips m n; c = (if NOT c = 0 then (layers - f) div 6 else c) in
      if ty \<in> {WMTTextureTypeCube, WMTTextureTypeCubeArray}
      then Returns (SRV_TEXTURECUBEARRAY m n f c, view_descriptor fmt WMTTextureTypeCubeArray m n f (c * 6))
      else Fails E_FAIL)"
| "normalize_srv mips layers ty fmt _ = Fails E_FAIL"

definition InitializeAndNormalizeSRV ::
    "u32 \<Rightarrow> u32 \<Rightarrow> wmt_texture_info \<Rightarrow> srv_dim1 view_desc \<Rightarrow> (srv_dim1 view_desc \<times> texture_view_descriptor) outcome" where
  "InitializeAndNormalizeSRV MiplevelCount ArraySize tex ViewDesc =
     (let (hr, metal_format) = MTLQueryDXGIFormat (vd_Format ViewDesc) in
      if hr \<noteq> S_OK then Fails E_FAIL
      else bindO (normalize_srv MiplevelCount ArraySize (ti_type tex)
                    (PixelFormat (FixDepthStencilFormat tex metal_format)) (ViewDimension ViewDesc))
             (\<lambda>(dim, d). Returns (ViewDesc\<lparr> ViewDimension := dim \<rparr>, d)))"

subsection \<open>Unordered access views\<close>

fun normalize_uav :: "u32 \<Rightarrow> u32 \<Rightarrow> u32 \<Rightarrow> uav_dim1 \<Rightarrow> (uav_dim1 \<times> texture_view_descriptor) outcome" where
  "normalize_uav layers ty fmt (UAV_TEXTURE1D m) =
     (if ty \<in> {WMTTextureType2D, WMTTextureType2DArray}
      then Returns (UAV_TEXTURE1D m, view_descriptor fmt WMTTextureType2D m 1 0 1) else Fails E_FAIL)"
| "normalize_uav layers ty fmt (UAV_TEXTURE1DARRAY m a s) =
     (let s = or_rest layers a s in
      if ty \<in> {WMTTextureType2D, WMTTextureType2DArray}
      then Returns (UAV_TEXTURE1DARRAY m a s, view_descriptor fmt WMTTextureType2DArray m 1 a s) else Fails E_FAIL)"
| "normalize_uav layers ty fmt (UAV_TEXTURE2D m p) =
     (if ty \<in> {WMTTextureType2D, WMTTextureType2DArray, WMTTextureTypeCube}
      then Returns (UAV_TEXTURE2D m p, view_descriptor fmt WMTTextureType2D m 1 0 1) else Fails E_FAIL)"
| "normalize_uav layers ty fmt (UAV_TEXTURE2DARRAY m a s p) =
     (let s = or_rest layers a s in
      if any_2d ty
      then Returns (UAV_TEXTURE2DARRAY m a s p, view_descriptor fmt WMTTextureType2DArray m 1 a s) else Fails E_FAIL)"
| "normalize_uav layers ty fmt (UAV_TEXTURE3D m w s) =
     bindO (shr32 layers m) (\<lambda>z.
       let z = max z 1; s = or_rest z w s in
       if ty = WMTTextureType3D \<and> w = 0
       then Returns (UAV_TEXTURE3D m w s, view_descriptor fmt WMTTextureType3D m 1 0 1) else Fails E_FAIL)"
| "normalize_uav layers ty fmt _ = Fails E_FAIL"

definition InitializeAndNormalizeUAV ::
    "u32 \<Rightarrow> u32 \<Rightarrow> wmt_texture_info \<Rightarrow> uav_dim1 view_desc \<Rightarrow> (uav_dim1 view_desc \<times> texture_view_descriptor) outcome" where
  "InitializeAndNormalizeUAV MiplevelCount ArraySize tex ViewDesc =
     (let (hr, metal_format) = MTLQueryDXGIFormat (vd_Format ViewDesc) in
      if hr \<noteq> S_OK then Fails E_FAIL
      else bindO (normalize_uav ArraySize (ti_type tex)
                    (PixelFormat (FixDepthStencilFormat tex metal_format)) (ViewDimension ViewDesc))
             (\<lambda>(dim, d). Returns (ViewDesc\<lparr> ViewDimension := dim \<rparr>, d)))"

subsection \<open>Render target views\<close>

text \<open>The descriptor of the Metal pass: the length of a layered target, 0 for one that is not layered, and the
  depth plane. The size is that of the first level of the view.\<close>

definition attachment_of :: "wmt_texture_info \<Rightarrow> u32 \<Rightarrow> u32 \<Rightarrow> texture_view_descriptor \<Rightarrow> pass_attachment_desc" where
  "attachment_of tex array_length plane d =
     \<lparr> RenderTargetArrayLength = array_length, AttachmentSampleCount = ti_sample_count tex, DepthPlane = plane,
       AttachmentWidth = max 1 (drop_bit (firstMiplevel d) (ti_width tex)),
       AttachmentHeight = max 1 (drop_bit (firstMiplevel d) (ti_height tex)) \<rparr>"

text \<open>The descriptor, the length and the plane.\<close>

fun normalize_rtv :: "u32 \<Rightarrow> u32 \<Rightarrow> u32 \<Rightarrow> rtv_dim1 \<Rightarrow> (rtv_dim1 \<times> texture_view_descriptor \<times> u32 \<times> u32) outcome" where
  "normalize_rtv layers ty fmt (RTV_TEXTURE1D m) =
     (if ty \<in> {WMTTextureType2D, WMTTextureType2DArray}
      then Returns (RTV_TEXTURE1D m, view_descriptor fmt WMTTextureType2D m 1 0 1, 0, 0) else Fails E_FAIL)"
| "normalize_rtv layers ty fmt (RTV_TEXTURE1DARRAY m a s) =
     (let s = or_rest layers a s; d = view_descriptor fmt WMTTextureType2DArray m 1 a s in
      if ty \<in> {WMTTextureType2D, WMTTextureType2DArray}
      then Returns (RTV_TEXTURE1DARRAY m a s, d, of_nat (arraySize d), 0) else Fails E_FAIL)"
| "normalize_rtv layers ty fmt (RTV_TEXTURE2D m p) =
     (if any_2d ty
      then Returns (RTV_TEXTURE2D m p, view_descriptor fmt WMTTextureType2D m 1 0 1, 0, 0) else Fails E_FAIL)"
| "normalize_rtv layers ty fmt (RTV_TEXTURE2DARRAY m a s p) =
     (let s = or_rest layers a s; d = view_descriptor fmt WMTTextureType2DArray m 1 a s in
      if any_2d ty
      then Returns (RTV_TEXTURE2DARRAY m a s p, d, of_nat (arraySize d), 0) else Fails E_FAIL)"
| "normalize_rtv layers ty fmt RTV_TEXTURE2DMS =
     (if ty = WMTTextureType2DMultisample
      then Returns (RTV_TEXTURE2DMS, view_descriptor fmt WMTTextureType2DMultisample 0 1 0 1, 0, 0)
      else if ty = WMTTextureType2D
      then Returns (RTV_TEXTURE2DMS, view_descriptor fmt WMTTextureType2D 0 1 0 1, 0, 0)
      else Fails E_FAIL)"
| "normalize_rtv layers ty fmt (RTV_TEXTURE2DMSARRAY a s) =
     (let s = or_rest layers a s in
      if ty = WMTTextureType2DMultisample
      then Returns (RTV_TEXTURE2DMSARRAY a s, view_descriptor fmt WMTTextureType2DMultisampleArray 0 1 0 1, 1, 0)
      else if ty = WMTTextureType2DMultisampleArray
      then (let d = view_descriptor fmt WMTTextureType2DMultisampleArray 0 1 a s
            in Returns (RTV_TEXTURE2DMSARRAY a s, d, of_nat (arraySize d), 0))
      else if ty = WMTTextureType2DArray
      then (let d = view_descriptor fmt WMTTextureType2DArray 0 1 a s
            in Returns (RTV_TEXTURE2DMSARRAY a s, d, of_nat (arraySize d), 0))
      else Fails E_FAIL)"
| "normalize_rtv layers ty fmt (RTV_TEXTURE3D m w s) =
     bindO (shr32 layers m) (\<lambda>z.
       let z = max z 1; s = or_rest z w s in
       if ty = WMTTextureType3D then
         if s = 1 then Returns (RTV_TEXTURE3D m w s, view_descriptor fmt WMTTextureType3D m 1 0 1, 0, w)
         else if w = 0 then Returns (RTV_TEXTURE3D m w s, view_descriptor fmt WMTTextureType3D m 1 0 1, z, 0)
         else Fails E_FAIL
       else Fails E_FAIL)"
| "normalize_rtv layers ty fmt _ = Fails E_FAIL"

definition InitializeAndNormalizeRTV ::
    "u32 \<Rightarrow> u32 \<Rightarrow> wmt_texture_info \<Rightarrow> rtv_dim1 view_desc \<Rightarrow>
     (rtv_dim1 view_desc \<times> pass_attachment_desc \<times> texture_view_descriptor) outcome" where
  "InitializeAndNormalizeRTV MiplevelCount ArraySize tex ViewDesc =
     (let (hr, metal_format) = MTLQueryDXGIFormat (vd_Format ViewDesc) in
      if hr \<noteq> S_OK then Fails E_FAIL
      else bindO (normalize_rtv ArraySize (ti_type tex) (PixelFormat metal_format) (ViewDimension ViewDesc))
             (\<lambda>(dim, d, array_length, plane).
                Returns (ViewDesc\<lparr> ViewDimension := dim \<rparr>, attachment_of tex array_length plane d, d)))"

subsection \<open>Depth-stencil views\<close>

fun normalize_dsv :: "u32 \<Rightarrow> u32 \<Rightarrow> u32 \<Rightarrow> dsv_dim \<Rightarrow> (dsv_dim \<times> texture_view_descriptor \<times> u32) outcome" where
  "normalize_dsv layers ty fmt (DSV_TEXTURE1D m) =
     (if ty \<in> {WMTTextureType2D, WMTTextureType2DArray}
      then Returns (DSV_TEXTURE1D m, view_descriptor fmt WMTTextureType2D m 1 0 1, 0) else Fails E_FAIL)"
| "normalize_dsv layers ty fmt (DSV_TEXTURE1DARRAY m a s) =
     (let s = or_rest layers a s; d = view_descriptor fmt WMTTextureType2DArray m 1 a s in
      if ty \<in> {WMTTextureType2D, WMTTextureType2DArray}
      then Returns (DSV_TEXTURE1DARRAY m a s, d, of_nat (arraySize d)) else Fails E_FAIL)"
| "normalize_dsv layers ty fmt (DSV_TEXTURE2D m) =
     (if any_2d ty
      then Returns (DSV_TEXTURE2D m, view_descriptor fmt WMTTextureType2D m 1 0 1, 0) else Fails E_FAIL)"
| "normalize_dsv layers ty fmt (DSV_TEXTURE2DARRAY m a s) =
     (let s = or_rest layers a s; d = view_descriptor fmt WMTTextureType2DArray m 1 a s in
      if any_2d ty
      then Returns (DSV_TEXTURE2DARRAY m a s, d, of_nat (arraySize d)) else Fails E_FAIL)"
| "normalize_dsv layers ty fmt DSV_TEXTURE2DMS =
     (if ty \<in> {WMTTextureType2DMultisample, WMTTextureType2DMultisampleArray}
      then Returns (DSV_TEXTURE2DMS, view_descriptor fmt WMTTextureType2DMultisample 0 1 0 1, 0)
      else if ty \<in> {WMTTextureType2D, WMTTextureType2DArray, WMTTextureTypeCube}
      then Returns (DSV_TEXTURE2DMS, view_descriptor fmt WMTTextureType2D 0 1 0 1, 0)
      else Fails E_FAIL)"
| "normalize_dsv layers ty fmt (DSV_TEXTURE2DMSARRAY a s) =
     (let s = or_rest layers a s in
      if ty = WMTTextureType2DMultisample
      then Returns (DSV_TEXTURE2DMSARRAY a s, view_descriptor fmt WMTTextureType2DMultisampleArray 0 1 0 1, 1)
      else if ty = WMTTextureType2DMultisampleArray
      then (let d = view_descriptor fmt WMTTextureType2DMultisampleArray 0 1 a s
            in Returns (DSV_TEXTURE2DMSARRAY a s, d, of_nat (arraySize d)))
      else if ty = WMTTextureType2DArray
      then (let d = view_descriptor fmt WMTTextureType2DArray 0 1 a s
            in Returns (DSV_TEXTURE2DMSARRAY a s, d, of_nat (arraySize d)))
      else Fails E_FAIL)"
| "normalize_dsv layers ty fmt _ = Fails E_FAIL"

definition InitializeAndNormalizeDSV ::
    "u32 \<Rightarrow> u32 \<Rightarrow> wmt_texture_info \<Rightarrow> dsv_desc \<Rightarrow>
     (dsv_desc \<times> pass_attachment_desc \<times> texture_view_descriptor) outcome" where
  "InitializeAndNormalizeDSV MiplevelCount ArraySize tex ViewDesc =
     (let (hr, metal_format) = MTLQueryDXGIFormat (vd_Format ViewDesc) in
      if hr \<noteq> S_OK then Fails E_FAIL
      else bindO (normalize_dsv ArraySize (ti_type tex) (PixelFormat metal_format) (ViewDimension ViewDesc))
             (\<lambda>(dim, d, array_length).
                Returns (ViewDesc\<lparr> ViewDimension := dim, dsv_Flags := dsv_Flags ViewDesc AND 3 \<rparr>,
                         attachment_of tex array_length 0 d, d)))"

end
