(* ===== verification/ViewRegions.thy ===== *)
theory ViewRegions
  imports TextureViews
begin

text \<open>
  Which levels and slices of a texture a D3D11 view description names, and the proof that the descriptors
  of src/src/d3d11/d3d11_resource_view_helper.cpp stand for exactly those, so that the overlap test of
  src/src/dxmt/dxmt_subresource.cpp decides whether two descriptions have a subresource in common.
  Depth-stencil and shader resource views of one texture meet in the hazard tracking of the context.
\<close>

subsection \<open>Regions\<close>

text \<open>A run of levels or slices: \<open>n\<close> from \<open>first\<close> on, or the rest of \<open>all\<close> when \<open>n\<close> is all ones.\<close>

definition extent :: "nat \<Rightarrow> u32 \<Rightarrow> u32 \<Rightarrow> nat set" where
  "extent all_of first n = {unat first ..< (if NOT n = 0 then all_of else unat first + unat n)}"

definition extent_ok :: "nat \<Rightarrow> u32 \<Rightarrow> u32 \<Rightarrow> bool" where
  "extent_ok all_of first n \<longleftrightarrow>
     unat first < all_of \<and> (NOT n = 0 \<or> 0 < unat n \<and> unat first + unat n \<le> all_of)"

text \<open>The levels and slices of a description of a texture of \<open>M\<close> levels and \<open>A\<close> slices.\<close>

fun srv_region :: "nat \<Rightarrow> nat \<Rightarrow> srv_dim1 \<Rightarrow> nat set \<times> nat set" where
  "srv_region M A (SRV_TEXTURE1D m n) = (extent M m n, {0})"
| "srv_region M A (SRV_TEXTURE1DARRAY m n a s) = (extent M m n, extent A a s)"
| "srv_region M A (SRV_TEXTURE2D m n p) = (extent M m n, {0})"
| "srv_region M A (SRV_TEXTURE2DARRAY m n a s p) = (extent M m n, extent A a s)"
| "srv_region M A SRV_TEXTURE2DMS = ({0}, {0})"
| "srv_region M A (SRV_TEXTURE2DMSARRAY a s) = ({0}, extent A a s)"
| "srv_region M A (SRV_TEXTURE3D m n) = (extent M m n, {0})"
| "srv_region M A (SRV_TEXTURECUBE m n) = (extent M m n, {0..<6})"
| "srv_region M A (SRV_TEXTURECUBEARRAY m n f c) =
     (extent M m n, {unat f ..< unat f + 6 * (if NOT c = 0 then (A - unat f) div 6 else unat c)})"
| "srv_region M A _ = ({}, {})"

fun srv_region_ok :: "nat \<Rightarrow> nat \<Rightarrow> srv_dim1 \<Rightarrow> bool" where
  "srv_region_ok M A (SRV_TEXTURE1D m n) \<longleftrightarrow> extent_ok M m n"
| "srv_region_ok M A (SRV_TEXTURE1DARRAY m n a s) \<longleftrightarrow> extent_ok M m n \<and> extent_ok A a s"
| "srv_region_ok M A (SRV_TEXTURE2D m n p) \<longleftrightarrow> extent_ok M m n"
| "srv_region_ok M A (SRV_TEXTURE2DARRAY m n a s p) \<longleftrightarrow> extent_ok M m n \<and> extent_ok A a s"
| "srv_region_ok M A SRV_TEXTURE2DMS \<longleftrightarrow> True"
| "srv_region_ok M A (SRV_TEXTURE2DMSARRAY a s) \<longleftrightarrow> extent_ok A a s"
| "srv_region_ok M A (SRV_TEXTURE3D m n) \<longleftrightarrow> extent_ok M m n"
| "srv_region_ok M A (SRV_TEXTURECUBE m n) \<longleftrightarrow> extent_ok M m n \<and> 6 \<le> A"
| "srv_region_ok M A (SRV_TEXTURECUBEARRAY m n f c) \<longleftrightarrow> extent_ok M m n
     \<and> (if NOT c = 0 then unat f + 6 \<le> A else 0 < unat c \<and> unat f + 6 * unat c \<le> A)"
| "srv_region_ok M A _ \<longleftrightarrow> False"

fun uav_region :: "nat \<Rightarrow> uav_dim1 \<Rightarrow> nat set \<times> nat set" where
  "uav_region A (UAV_TEXTURE1D m) = ({unat m}, {0})"
| "uav_region A (UAV_TEXTURE1DARRAY m a s) = ({unat m}, extent A a s)"
| "uav_region A (UAV_TEXTURE2D m p) = ({unat m}, {0})"
| "uav_region A (UAV_TEXTURE2DARRAY m a s p) = ({unat m}, extent A a s)"
| "uav_region A (UAV_TEXTURE3D m w s) = ({unat m}, {0})"
| "uav_region A _ = ({}, {})"

fun uav_region_ok :: "nat \<Rightarrow> nat \<Rightarrow> uav_dim1 \<Rightarrow> bool" where
  "uav_region_ok M A (UAV_TEXTURE1D m) \<longleftrightarrow> unat m < M"
| "uav_region_ok M A (UAV_TEXTURE1DARRAY m a s) \<longleftrightarrow> unat m < M \<and> extent_ok A a s"
| "uav_region_ok M A (UAV_TEXTURE2D m p) \<longleftrightarrow> unat m < M"
| "uav_region_ok M A (UAV_TEXTURE2DARRAY m a s p) \<longleftrightarrow> unat m < M \<and> extent_ok A a s"
| "uav_region_ok M A (UAV_TEXTURE3D m w s) \<longleftrightarrow> unat m < M"
| "uav_region_ok M A _ \<longleftrightarrow> False"

fun rtv_region :: "nat \<Rightarrow> rtv_dim1 \<Rightarrow> nat set \<times> nat set" where
  "rtv_region A (RTV_TEXTURE1D m) = ({unat m}, {0})"
| "rtv_region A (RTV_TEXTURE1DARRAY m a s) = ({unat m}, extent A a s)"
| "rtv_region A (RTV_TEXTURE2D m p) = ({unat m}, {0})"
| "rtv_region A (RTV_TEXTURE2DARRAY m a s p) = ({unat m}, extent A a s)"
| "rtv_region A RTV_TEXTURE2DMS = ({0}, {0})"
| "rtv_region A (RTV_TEXTURE2DMSARRAY a s) = ({0}, extent A a s)"
| "rtv_region A (RTV_TEXTURE3D m w s) = ({unat m}, {0})"
| "rtv_region A _ = ({}, {})"

fun rtv_region_ok :: "nat \<Rightarrow> nat \<Rightarrow> rtv_dim1 \<Rightarrow> bool" where
  "rtv_region_ok M A (RTV_TEXTURE1D m) \<longleftrightarrow> unat m < M"
| "rtv_region_ok M A (RTV_TEXTURE1DARRAY m a s) \<longleftrightarrow> unat m < M \<and> extent_ok A a s"
| "rtv_region_ok M A (RTV_TEXTURE2D m p) \<longleftrightarrow> unat m < M"
| "rtv_region_ok M A (RTV_TEXTURE2DARRAY m a s p) \<longleftrightarrow> unat m < M \<and> extent_ok A a s"
| "rtv_region_ok M A RTV_TEXTURE2DMS \<longleftrightarrow> True"
| "rtv_region_ok M A (RTV_TEXTURE2DMSARRAY a s) \<longleftrightarrow> extent_ok A a s"
| "rtv_region_ok M A (RTV_TEXTURE3D m w s) \<longleftrightarrow> unat m < M"
| "rtv_region_ok M A _ \<longleftrightarrow> False"

fun dsv_region :: "nat \<Rightarrow> dsv_dim \<Rightarrow> nat set \<times> nat set" where
  "dsv_region A (DSV_TEXTURE1D m) = ({unat m}, {0})"
| "dsv_region A (DSV_TEXTURE1DARRAY m a s) = ({unat m}, extent A a s)"
| "dsv_region A (DSV_TEXTURE2D m) = ({unat m}, {0})"
| "dsv_region A (DSV_TEXTURE2DARRAY m a s) = ({unat m}, extent A a s)"
| "dsv_region A DSV_TEXTURE2DMS = ({0}, {0})"
| "dsv_region A (DSV_TEXTURE2DMSARRAY a s) = ({0}, extent A a s)"
| "dsv_region A _ = ({}, {})"

fun dsv_region_ok :: "nat \<Rightarrow> nat \<Rightarrow> dsv_dim \<Rightarrow> bool" where
  "dsv_region_ok M A (DSV_TEXTURE1D m) \<longleftrightarrow> unat m < M"
| "dsv_region_ok M A (DSV_TEXTURE1DARRAY m a s) \<longleftrightarrow> unat m < M \<and> extent_ok A a s"
| "dsv_region_ok M A (DSV_TEXTURE2D m) \<longleftrightarrow> unat m < M"
| "dsv_region_ok M A (DSV_TEXTURE2DARRAY m a s) \<longleftrightarrow> unat m < M \<and> extent_ok A a s"
| "dsv_region_ok M A DSV_TEXTURE2DMS \<longleftrightarrow> True"
| "dsv_region_ok M A (DSV_TEXTURE2DMSARRAY a s) \<longleftrightarrow> extent_ok A a s"
| "dsv_region_ok M A _ \<longleftrightarrow> False"

subsection \<open>Textures\<close>

text \<open>What the creation of a texture establishes: a texture that is no array has one slice, the array size the
  views are normalised with is the slices of the texture unless it is a depth.\<close>

definition texture_shape :: "wmt_texture_info \<Rightarrow> u32 \<Rightarrow> u32 \<Rightarrow> bool" where
  "texture_shape tex mips layers \<longleftrightarrow>
     ti_mipmap_level_count tex = mips \<and> 0 < unat mips \<and> unat mips < 16 \<and> 0 < unat (arrayLength (texture_info.truncate tex)) \<and> unat (arrayLength (texture_info.truncate tex)) < 4096 \<and>
     (ti_type tex \<noteq> WMTTextureType3D \<longrightarrow> arrayLength (texture_info.truncate tex) = layers) \<and>
     (ti_type tex \<in> {WMTTextureType2D, WMTTextureType2DMultisample, WMTTextureType3D} \<longrightarrow> arrayLength (texture_info.truncate tex) = 1)"

definition slices :: "wmt_texture_info \<Rightarrow> nat" where
  "slices tex = unat (arrayLength (texture_info.truncate tex))"

text \<open>A descriptor is of a region when its levels and slices are those of the region.\<close>

definition covers :: "texture_view_descriptor \<Rightarrow> nat set \<times> nat set \<Rightarrow> bool" where
  "covers d R \<longleftrightarrow> {firstMiplevel d ..< firstMiplevel d + miplevelCount d} = fst R
     \<and> {firstArraySlice d ..< firstArraySlice d + arraySize d} = snd R"

lemma or_rest_extent:
  assumes "extent_ok (unat all_of) first n"
  shows "extent (unat all_of) first n = {unat first ..< unat first + unat (or_rest all_of first n)}"
    and "0 < unat (or_rest all_of first n)" "unat first + unat (or_rest all_of first n) \<le> unat all_of"
proof -
  have "first \<le> all_of" using assms by (simp add: extent_ok_def word_le_nat_alt)
  then have "unat (all_of - first) = unat all_of - unat first" by (rule unat_sub)
  then show "extent (unat all_of) first n = {unat first ..< unat first + unat (or_rest all_of first n)}"
    "0 < unat (or_rest all_of first n)" "unat first + unat (or_rest all_of first n) \<le> unat all_of"
    using assms by (auto simp: extent_ok_def extent_def or_rest_def)
qed

lemma view_descriptor_covers:
  assumes "0 < unat n" "unat m + unat n \<le> M" "M < 16" and "0 < unat s" "unat a + unat s \<le> A" "A < 4096"
  shows "view_ok (view_descriptor fmt ty m n a s) M A"
    and "covers (view_descriptor fmt ty m n a s) ({unat m ..< unat m + unat n}, {unat a ..< unat a + unat s})"
proof -
  have "take_bit 4 (unat m) = unat m" "take_bit 4 (unat n) = unat n"
    "take_bit 12 (unat a) = unat a" "take_bit 12 (unat s) = unat s"
    using assms by (simp_all add: take_bit_eq_mod)
  then show "view_ok (view_descriptor fmt ty m n a s) M A"
    "covers (view_descriptor fmt ty m n a s) ({unat m ..< unat m + unat n}, {unat a ..< unat a + unat s})"
    using assms by (simp_all add: view_descriptor_def view_ok_def covers_def)
qed

text \<open>The forms in which the normalisation builds a descriptor.\<close>

lemma run_of_levels:
  assumes "extent_ok (unat mips) m n" "unat mips < 16" "0 < A" "A < 4096"
  shows "view_ok (view_descriptor fmt ty m (or_rest mips m n) 0 1) (unat mips) A
       \<and> covers (view_descriptor fmt ty m (or_rest mips m n) 0 1) (extent (unat mips) m n, {0})"
  using view_descriptor_covers [of "or_rest mips m n" m "unat mips" 1 0 A fmt ty] or_rest_extent [OF assms(1)] assms
  by (simp add: Suc_le_eq atLeastLessThanSuc)

lemma run_of_levels_and_slices:
  assumes "extent_ok (unat mips) m n" "unat mips < 16" "extent_ok (unat layers) a s" "unat layers < 4096"
  shows "view_ok (view_descriptor fmt ty m (or_rest mips m n) a (or_rest layers a s)) (unat mips) (unat layers)
       \<and> covers (view_descriptor fmt ty m (or_rest mips m n) a (or_rest layers a s))
           (extent (unat mips) m n, extent (unat layers) a s)"
  using view_descriptor_covers [of "or_rest mips m n" m "unat mips" "or_rest layers a s" a "unat layers" fmt ty]
    or_rest_extent [OF assms(1)] or_rest_extent [OF assms(3)] assms
  by simp

lemma one_subresource:
  assumes "unat m < M" "M < 16" "0 < A" "A < 4096"
  shows "view_ok (view_descriptor fmt ty m 1 0 1) M A \<and> covers (view_descriptor fmt ty m 1 0 1) ({unat m}, {0})"
  using view_descriptor_covers [of 1 m M 1 0 A fmt ty] assms
  by (simp add: Suc_le_eq atLeastLessThanSuc)

lemma one_level_of_slices:
  assumes "unat m < M" "M < 16" "extent_ok (unat layers) a s" "unat layers < 4096"
  shows "view_ok (view_descriptor fmt ty m 1 a (or_rest layers a s)) M (unat layers)
       \<and> covers (view_descriptor fmt ty m 1 a (or_rest layers a s)) ({unat m}, extent (unat layers) a s)"
  using view_descriptor_covers [of 1 m M "or_rest layers a s" a "unat layers" fmt ty]
    or_rest_extent [OF assms(3)] assms
  by (simp add: Suc_le_eq atLeastLessThanSuc)

lemma cube_slices:
  fixes layers f c :: u32
  assumes "if NOT c = 0 then unat f + 6 \<le> unat layers else 0 < unat c \<and> unat f + 6 * unat c \<le> unat layers"
    and "unat layers < 4096"
  shows "unat ((if NOT c = 0 then (layers - f) div 6 else c) * 6)
       = 6 * (if NOT c = 0 then (unat layers - unat f) div 6 else unat c)"
proof -
  let ?c = "if NOT c = 0 then (layers - f) div 6 else c"
  have "unat (layers - f) = unat layers - unat f" if "NOT c = 0"
    using assms(1) that by (intro unat_sub) (simp add: word_le_nat_alt)
  then have c: "unat ?c = (if NOT c = 0 then (unat layers - unat f) div 6 else unat c)"
    by (simp add: unat_div)
  then have "unat ?c * 6 < 2 ^ 32" using assms by (auto split: if_splits)
  then have "unat (?c * 6) = unat ?c * 6" by (simp add: unat_word_ariths)
  then show ?thesis using c by (simp only: mult.commute)
qed

subsection \<open>Descriptors stand for regions\<close>

lemma if_Returns:
  "(if b then x else Fails h) = Returns y \<longleftrightarrow> b \<and> x = Returns y"
  "(if b then Returns z else m) = Returns y \<longleftrightarrow> b \<and> z = y \<or> \<not> b \<and> m = Returns y"
  by simp_all

lemma InitializeSRV_region:
  assumes made: "InitializeAndNormalizeSRV mips layers tex v = Returns (v', d)"
    and tex: "texture_shape tex mips layers"
    and ok: "srv_region_ok (unat mips) (unat layers) (ViewDimension v)"
  shows "view_ok d (unat mips) (slices tex) \<and> covers d (srv_region (unat mips) (unat layers) (ViewDimension v))"
proof -
  let ?ty = "ti_type tex"
  have t: "0 < unat mips" "unat mips < 16" "0 < slices tex" "slices tex < 4096"
    "?ty \<noteq> WMTTextureType3D \<Longrightarrow> slices tex = unat layers"
    "?ty = WMTTextureType2D \<or> ?ty = WMTTextureType2DMultisample \<Longrightarrow> slices tex = 1"
    using tex by (auto simp: texture_shape_def slices_def)
  obtain fmt where n: "normalize_srv mips layers ?ty fmt (ViewDimension v) = Returns (ViewDimension v', d)"
    using made by (auto simp: InitializeAndNormalizeSRV_def Let_def bindO_Returns split: prod.splits if_splits)
  show ?thesis
  proof (cases "ViewDimension v")
    case (SRV_TEXTURE1D m k)
    then have "d = view_descriptor fmt WMTTextureType2D m (or_rest mips m k) 0 1"
      using n by (simp add: Let_def if_Returns)
    then show ?thesis using run_of_levels [OF _ t(2,3,4), of m k] ok SRV_TEXTURE1D by simp
  next
    case (SRV_TEXTURE1DARRAY m k a s)
    then have "d = view_descriptor fmt WMTTextureType2DArray m (or_rest mips m k) a (or_rest layers a s)" "?ty \<noteq> WMTTextureType3D"
      using n by (auto simp: Let_def if_Returns)
    then show ?thesis using run_of_levels_and_slices [OF _ t(2), of m k layers a s] ok t(4,5) SRV_TEXTURE1DARRAY by simp
  next
    case (SRV_TEXTURE2D m k p)
    then have "d = view_descriptor fmt WMTTextureType2D m (or_rest mips m k) 0 1"
      using n by (simp add: Let_def if_Returns)
    then show ?thesis using run_of_levels [OF _ t(2,3,4), of m k] ok SRV_TEXTURE2D by simp
  next
    case (SRV_TEXTURE2DARRAY m k a s p)
    then have "d = view_descriptor fmt WMTTextureType2DArray m (or_rest mips m k) a (or_rest layers a s)" "?ty \<noteq> WMTTextureType3D"
      using n by (auto simp: Let_def if_Returns)
    then show ?thesis using run_of_levels_and_slices [OF _ t(2), of m k layers a s] ok t(4,5) SRV_TEXTURE2DARRAY by simp
  next
    case SRV_TEXTURE2DMS
    then obtain ty where "d = view_descriptor fmt ty 0 1 0 1"
      using n by (auto simp: if_Returns)
    then show ?thesis using one_subresource [of 0, OF _ t(2,3,4)] t(1) SRV_TEXTURE2DMS by simp
  next
    case (SRV_TEXTURE2DMSARRAY a s)
    consider (single) ty where "d = view_descriptor fmt ty 0 1 0 1" "?ty = WMTTextureType2D \<or> ?ty = WMTTextureType2DMultisample"
      | (layered) ty where "d = view_descriptor fmt ty 0 1 a (or_rest layers a s)" "?ty \<noteq> WMTTextureType3D"
      using n SRV_TEXTURE2DMSARRAY by (auto simp: Let_def if_Returns)
    then show ?thesis
    proof cases
      case single
      have "extent (unat layers) a s = {0}"
        using ok SRV_TEXTURE2DMSARRAY t(5,6) single(2) by (auto simp: extent_ok_def extent_def)
      then show ?thesis using single one_subresource [of 0, OF _ t(2,3,4)] t(1) SRV_TEXTURE2DMSARRAY by simp
    next
      case layered
      then show ?thesis using one_level_of_slices [of 0, OF _ t(2), of layers a s] ok t(1,4,5) SRV_TEXTURE2DMSARRAY by simp
    qed
  next
    case (SRV_TEXTURE3D m k)
    then have "d = view_descriptor fmt WMTTextureType3D m (or_rest mips m k) 0 1"
      using n by (simp add: Let_def if_Returns)
    then show ?thesis using run_of_levels [OF _ t(2,3,4), of m k] ok SRV_TEXTURE3D by simp
  next
    case (SRV_TEXTURECUBE m k)
    then have d: "d = view_descriptor fmt WMTTextureTypeCube m (or_rest mips m k) 0 6"
      and "?ty \<noteq> WMTTextureType3D" using n by (auto simp: Let_def or_rest_def if_Returns)
    moreover have "extent_ok (unat mips) m k" "6 \<le> unat layers" using ok SRV_TEXTURECUBE by simp_all
    ultimately show ?thesis
      using view_descriptor_covers [of "or_rest mips m k" m "unat mips" 6 0 "unat layers" fmt WMTTextureTypeCube]
        or_rest_extent [of mips m k] t SRV_TEXTURECUBE by simp
  next
    case (SRV_TEXTURECUBEARRAY m k f c)
    let ?c = "if NOT c = 0 then (layers - f) div 6 else c"
    have d: "d = view_descriptor fmt WMTTextureTypeCubeArray m (or_rest mips m k) f (?c * 6)"
      and ty: "?ty \<noteq> WMTTextureType3D" using n SRV_TEXTURECUBEARRAY by (auto simp: Let_def or_rest_def if_Returns)
    have ext: "extent_ok (unat mips) m k"
      and c: "if NOT c = 0 then unat f + 6 \<le> unat layers else 0 < unat c \<and> unat f + 6 * unat c \<le> unat layers"
      using ok SRV_TEXTURECUBEARRAY by simp_all
    note s = cube_slices [OF c] 
    have "0 < unat (?c * 6) \<and> unat f + unat (?c * 6) \<le> unat layers"
      using c t(4,5) ty by (subst (1 2) s) (auto simp: div_greater_zero_iff split: if_splits)
    then show ?thesis
      using view_descriptor_covers [of "or_rest mips m k" m "unat mips" "?c * 6" f "unat layers" fmt WMTTextureTypeCubeArray]
        or_rest_extent [OF ext] t ty SRV_TEXTURECUBEARRAY s d by simp
  qed (use n in simp_all)
qed

text \<open>The other three kinds of view select one level, and one slice or a run of slices.\<close>

inductive single_level_view :: "texture_view_descriptor \<Rightarrow> u32 \<Rightarrow> nat set \<times> nat set \<Rightarrow> u32 \<Rightarrow> bool" where
  one_slice: "L = {unat m} \<Longrightarrow> S = {0} \<Longrightarrow> single_level_view (view_descriptor fmt ty' m 1 0 1) layers (L, S) ty"
| run_of_slices: "L = {unat m} \<Longrightarrow> S = extent (unat layers) a s \<Longrightarrow> extent_ok (unat layers) a s \<Longrightarrow>
     ty \<noteq> WMTTextureType3D \<Longrightarrow>
     single_level_view (view_descriptor fmt ty' m 1 a (or_rest layers a s)) layers (L, S) ty"

lemmas single_level_intros = one_slice run_of_slices

lemma single_level_view_region:
  assumes "single_level_view d layers R (ti_type tex)" "texture_shape tex mips layers" "\<forall>l \<in> fst R. l < unat mips"
  shows "view_ok d (unat mips) (slices tex) \<and> covers d R"
proof -
  have t: "0 < unat mips" "unat mips < 16" "0 < slices tex" "slices tex < 4096"
    "ti_type tex \<noteq> WMTTextureType3D \<Longrightarrow> slices tex = unat layers"
    using assms(2) by (auto simp: texture_shape_def slices_def)
  from assms(1) show ?thesis
  proof cases
    case (one_slice L m S fmt ty')
    then show ?thesis using one_subresource [OF _ t(2,3,4), of m] assms(3) by simp
  next
    case (run_of_slices L m S a s fmt ty')
    then show ?thesis using one_level_of_slices [OF _ t(2), of m layers a s] assms(3) t by simp
  qed
qed

lemma extent_single: "extent_ok (Suc 0) a s \<Longrightarrow> extent (Suc 0) a s = {0}"
  by (auto simp: extent_ok_def extent_def)

lemma normalize_uav_single:
  assumes "normalize_uav layers ty fmt dim = Returns (dim', d)" "uav_region_ok M (unat layers) dim"
  shows "single_level_view d layers (uav_region (unat layers) dim) ty"
  using assms by (cases dim) (auto simp: Let_def if_Returns bindO_Returns intro: single_level_intros)

lemma normalize_rtv_single:
  assumes "normalize_rtv layers ty fmt dim = Returns (dim', d, x, y)" "rtv_region_ok M (unat layers) dim"
    and "ty = WMTTextureType2DMultisample \<longrightarrow> layers = 1"
  shows "single_level_view d layers (rtv_region (unat layers) dim) ty"
  using assms by (cases dim)
    (auto simp: Let_def if_Returns bindO_Returns extent_single split: if_splits intro!: single_level_intros)

lemma normalize_dsv_single:
  assumes "normalize_dsv layers ty fmt dim = Returns (dim', d, x)" "dsv_region_ok M (unat layers) dim"
    and "ty = WMTTextureType2DMultisample \<longrightarrow> layers = 1"
  shows "single_level_view d layers (dsv_region (unat layers) dim) ty"
  using assms by (cases dim)
    (auto simp: Let_def if_Returns bindO_Returns extent_single split: if_splits intro!: single_level_intros)

lemma InitializeUAV_region:
  assumes made: "InitializeAndNormalizeUAV mips layers tex v = Returns (v', d)"
    and tex: "texture_shape tex mips layers"
    and ok: "uav_region_ok (unat mips) (unat layers) (ViewDimension v)"
  shows "view_ok d (unat mips) (slices tex) \<and> covers d (uav_region (unat layers) (ViewDimension v))"
proof (rule single_level_view_region [OF _ tex])
  show "\<forall>l \<in> fst (uav_region (unat layers) (ViewDimension v)). l < unat mips"
    using ok by (cases "ViewDimension v") simp_all
  show "single_level_view d layers (uav_region (unat layers) (ViewDimension v)) (ti_type tex)"
    using made normalize_uav_single [OF _ ok]
    by (auto simp: InitializeAndNormalizeUAV_def Let_def bindO_Returns split: prod.splits if_splits)
qed

lemma InitializeRTV_region:
  assumes made: "InitializeAndNormalizeRTV mips layers tex v = Returns (v', att, d)"
    and tex: "texture_shape tex mips layers"
    and ok: "rtv_region_ok (unat mips) (unat layers) (ViewDimension v)"
  shows "view_ok d (unat mips) (slices tex) \<and> covers d (rtv_region (unat layers) (ViewDimension v))"
proof (rule single_level_view_region [OF _ tex])
  have one: "ti_type tex = WMTTextureType2DMultisample \<longrightarrow> layers = 1"
    using tex by (auto simp: texture_shape_def)
  show "\<forall>l \<in> fst (rtv_region (unat layers) (ViewDimension v)). l < unat mips"
    using ok tex by (cases "ViewDimension v") (simp_all add: texture_shape_def)
  show "single_level_view d layers (rtv_region (unat layers) (ViewDimension v)) (ti_type tex)"
    using made normalize_rtv_single [OF _ ok one]
    by (auto simp: InitializeAndNormalizeRTV_def Let_def bindO_Returns split: prod.splits if_splits)
qed

lemma InitializeDSV_region:
  assumes made: "InitializeAndNormalizeDSV mips layers tex v = Returns (v', att, d)"
    and tex: "texture_shape tex mips layers"
    and ok: "dsv_region_ok (unat mips) (unat layers) (ViewDimension v)"
  shows "view_ok d (unat mips) (slices tex) \<and> covers d (dsv_region (unat layers) (ViewDimension v))"
proof (rule single_level_view_region [OF _ tex])
  have one: "ti_type tex = WMTTextureType2DMultisample \<longrightarrow> layers = 1"
    using tex by (auto simp: texture_shape_def)
  show "\<forall>l \<in> fst (dsv_region (unat layers) (ViewDimension v)). l < unat mips"
    using ok tex by (cases "ViewDimension v") (simp_all add: texture_shape_def)
  show "single_level_view d layers (dsv_region (unat layers) (ViewDimension v)) (ti_type tex)"
    using made normalize_dsv_single [OF _ ok one]
    by (auto simp: InitializeAndNormalizeDSV_def Let_def bindO_Returns split: prod.splits if_splits)
qed

subsection \<open>Conflicts between descriptions\<close>

lemma covers_overlap:
  assumes "view_ok d M A" "view_ok d' M A" "covers d R" "covers d' R'"
    and "getPlanarCount (vd_format d) = getPlanarCount (vd_format d')"
  shows "overlapWith (subset_of_view d M A ign) (subset_of_view d' M A ign')
       = Some (view_planes d ign \<inter> view_planes d' ign' \<noteq> {} \<and> fst R \<inter> fst R' \<noteq> {} \<and> snd R \<inter> snd R' \<noteq> {})"
proof -
  have "(\<exists>p s l. touches d ign p s l \<and> touches d' ign' p s l) \<longleftrightarrow>
      (\<exists>p. p \<in> view_planes d ign \<inter> view_planes d' ign') \<and> (\<exists>l. l \<in> fst R \<inter> fst R') \<and> (\<exists>s. s \<in> snd R \<inter> snd R')"
    using assms(3,4) unfolding touches_def covers_def by blast
  moreover have "share_subresource d ign d' ign' \<longleftrightarrow> (\<exists>p s l. touches d ign p s l \<and> touches d' ign' p s l)"
    by (simp add: share_subresource_def)
  moreover have "overlapWith (subset_of_view d M A ign) (subset_of_view d' M A ign') = Some (share_subresource d ign d' ign')"
    using overlap_range_encoding [OF assms(1,2,5) refl] overlap_bitmask_encoding [OF assms(1,2,5) refl] by blast
  ultimately show ?thesis by (simp only: ex_in_conv)
qed

text \<open>C16: The subset a shader resource view and a render target view of one texture are stored with answer the
  hazard test exactly: it reports a conflict when the two D3D11 descriptions name a common level, a common
  slice and a common plane, and only then, for every pair of view dimensions, with the counts that mean the
  rest of the texture.\<close>

theorem described_views_conflict_exactly:
  assumes tex: "texture_shape tex mips layers"
    and srv: "InitializeAndNormalizeSRV mips layers tex v = Returns (v', d)"
      "srv_region_ok (unat mips) (unat layers) (ViewDimension v)"
    and rtv: "InitializeAndNormalizeRTV mips layers tex r = Returns (r', att, d')"
      "rtv_region_ok (unat mips) (unat layers) (ViewDimension r)"
    and planes: "getPlanarCount (vd_format d) = getPlanarCount (vd_format d')"
  shows "overlapWith (subset_of_view d (unat mips) (slices tex) 0) (subset_of_view d' (unat mips) (slices tex) 0)
       = Some (view_planes d 0 \<inter> view_planes d' 0 \<noteq> {}
           \<and> fst (srv_region (unat mips) (unat layers) (ViewDimension v)) \<inter> fst (rtv_region (unat layers) (ViewDimension r)) \<noteq> {}
           \<and> snd (srv_region (unat mips) (unat layers) (ViewDimension v)) \<inter> snd (rtv_region (unat layers) (ViewDimension r)) \<noteq> {})"
  using InitializeSRV_region [OF srv(1) tex srv(2)] InitializeRTV_region [OF rtv(1) tex rtv(2)] planes
  by (intro covers_overlap) blast+

definition sample_texture :: wmt_texture_info where
  "sample_texture = \<lparr> ti_pixel_format = WMTPixelFormatRGBA8Unorm, ti_width = 64, ti_height = 64, ti_array_length = 8,
     ti_type = WMTTextureType2DArray, ti_mipmap_level_count = 5, ti_usage = 5, ti_depth = 1, ti_sample_count = 1,
     ti_options = 16 \<rparr>"

lemma sample_texture_shape: "texture_shape sample_texture 5 8"
  by (simp add: texture_shape_def sample_texture_def arrayLength_def texture_info.defs)

lemma described_views_conflict_exactly_witness:
  "let v = \<lparr> vd_Format = DXGI_FORMAT_R8G8B8A8_UNORM, ViewDimension = SRV_TEXTURE2DARRAY 2 (-1) 3 (-1) 0 \<rparr>;
       r = \<lparr> vd_Format = DXGI_FORMAT_R8G8B8A8_UNORM, ViewDimension = RTV_TEXTURE2DARRAY 2 0 4 0 \<rparr>;
       d = view_descriptor WMTPixelFormatRGBA8Unorm WMTTextureType2DArray 2 3 3 5;
       d' = view_descriptor WMTPixelFormatRGBA8Unorm WMTTextureType2DArray 2 1 0 4
   in overlapWith (subset_of_view d 5 8 0) (subset_of_view d' 5 8 0) = Some True"
proof -
  let ?v = "\<lparr> vd_Format = DXGI_FORMAT_R8G8B8A8_UNORM, ViewDimension = SRV_TEXTURE2DARRAY 2 (-1) 3 (-1) 0 \<rparr>"
  let ?r = "\<lparr> vd_Format = DXGI_FORMAT_R8G8B8A8_UNORM, ViewDimension = RTV_TEXTURE2DARRAY 2 0 4 0 \<rparr>"
  let ?d = "view_descriptor WMTPixelFormatRGBA8Unorm WMTTextureType2DArray 2 3 3 5"
  let ?d' = "view_descriptor WMTPixelFormatRGBA8Unorm WMTTextureType2DArray 2 1 0 4"
  obtain v' where srv: "InitializeAndNormalizeSRV 5 8 sample_texture ?v = Returns (v', ?d)"
    by (simp add: InitializeAndNormalizeSRV_def MTLQueryDXGIFormat_def query_tables sample_texture_def
        FixDepthStencilFormat_def or_rest_def Let_def)
  obtain r' att where rtv: "InitializeAndNormalizeRTV 5 8 sample_texture ?r = Returns (r', att, ?d')"
    by (simp add: InitializeAndNormalizeRTV_def MTLQueryDXGIFormat_def query_tables sample_texture_def or_rest_def Let_def)
  have "srv_region_ok (unat (5 :: u32)) (unat (8 :: u32)) (ViewDimension ?v)"
    "rtv_region_ok (unat (5 :: u32)) (unat (8 :: u32)) (ViewDimension ?r)"
    by (simp_all add: extent_ok_def)
  note conflict = described_views_conflict_exactly [OF sample_texture_shape srv this(1) rtv this(2)]
  have "slices sample_texture = 8"
    by (simp add: slices_def sample_texture_def arrayLength_def texture_info.defs)
  moreover have "0 \<in> view_planes ?d 0 \<inter> view_planes ?d' 0"
    by (simp add: view_planes_def view_descriptor_def getPlanarCount_def getPlanarMask_def)
  then have "view_planes ?d 0 \<inter> view_planes ?d' 0 \<noteq> {}" by blast
  ultimately show ?thesis
    using conflict by (simp add: extent_def view_descriptor_def)
qed

lemma view_planes_ignored: "p \<in> view_planes d ign \<longleftrightarrow> p \<in> view_planes d 0 \<and> \<not> bit ign p"
  using bit_imp_le_length [of "getPlanarMask (vd_format d)" p] by (auto simp: view_planes_def bit_simps)

text \<open>C21: A read-only plane of a depth-stencil view does not conflict: the view is stored with the planes its
  flags leave writable, so that a shader resource view of the same texture conflicts with it exactly when
  the two have a common level and slice and a common plane that the flags (two bits of them) do not make
  read-only. Depth can be sampled while it is bound for testing, and stencil while depth is written.\<close>

theorem read_only_planes_exempt:
  assumes tex: "texture_shape tex mips layers"
    and srv: "InitializeAndNormalizeSRV mips layers tex v = Returns (v', d)"
      "srv_region_ok (unat mips) (unat layers) (ViewDimension v)"
    and dsv: "InitializeAndNormalizeDSV mips layers tex w = Returns (w', att, d')"
      "dsv_region_ok (unat mips) (unat layers) (ViewDimension w)"
    and planes: "getPlanarCount (vd_format d) = getPlanarCount (vd_format d')"
  shows "dsv_Flags w' = dsv_Flags w AND 3
       \<and> overlapWith (subset_of_view d (unat mips) (slices tex) 0)
           (subset_of_view d' (unat mips) (slices tex) (dsv_Flags w'))
         = Some ((\<exists>p. p \<in> view_planes d 0 \<and> p \<in> view_planes d' 0 \<and> \<not> bit (dsv_Flags w AND 3) p)
             \<and> fst (srv_region (unat mips) (unat layers) (ViewDimension v)) \<inter> fst (dsv_region (unat layers) (ViewDimension w)) \<noteq> {}
             \<and> snd (srv_region (unat mips) (unat layers) (ViewDimension v)) \<inter> snd (dsv_region (unat layers) (ViewDimension w)) \<noteq> {})"
proof -
  have flags: "dsv_Flags w' = dsv_Flags w AND 3"
    using dsv(1) by (auto simp: InitializeAndNormalizeDSV_def Let_def bindO_Returns split: prod.splits if_splits)
  have "view_planes d 0 \<inter> view_planes d' (dsv_Flags w') \<noteq> {}
      \<longleftrightarrow> (\<exists>p. p \<in> view_planes d 0 \<and> p \<in> view_planes d' 0 \<and> \<not> bit (dsv_Flags w AND 3) p)"
    unfolding flags by (auto simp only: view_planes_ignored [of _ d' "dsv_Flags w AND 3"] Int_iff ex_in_conv [symmetric])
  then show ?thesis
    using covers_overlap [of d "unat mips" "slices tex" d' _ _ 0 "dsv_Flags w'"] planes flags
      InitializeSRV_region [OF srv(1) tex srv(2)] InitializeDSV_region [OF dsv(1) tex dsv(2)]
    by (simp only:)
qed

lemma read_only_planes_exempt_witness:
  "let d = view_descriptor WMTPixelFormatR32X8X32 WMTTextureType2D 0 1 0 1;
       d' = view_descriptor WMTPixelFormatDepth32Float_Stencil8 WMTTextureType2D 0 1 0 1
   in overlapWith (subset_of_view d 1 1 0) (subset_of_view d' 1 1 1) = Some False
      \<and> overlapWith (subset_of_view d 1 1 0) (subset_of_view d' 1 1 2) = Some True"
proof -
  let ?tex = "sample_texture\<lparr> ti_pixel_format := WMTPixelFormatDepth32Float_Stencil8, ti_type := WMTTextureType2D,
    ti_array_length := 1, ti_mipmap_level_count := 1 \<rparr>"
  let ?v = "\<lparr> vd_Format = DXGI_FORMAT_R32_FLOAT_X8X24_TYPELESS, ViewDimension = SRV_TEXTURE2D 0 1 0 \<rparr>"
  let ?w = "\<lambda>f. \<lparr> vd_Format = DXGI_FORMAT_D32_FLOAT_S8X24_UINT, ViewDimension = DSV_TEXTURE2D 0, dsv_Flags = f \<rparr>"
  let ?d = "view_descriptor WMTPixelFormatR32X8X32 WMTTextureType2D 0 1 0 1"
  let ?d' = "view_descriptor WMTPixelFormatDepth32Float_Stencil8 WMTTextureType2D 0 1 0 1"
  have tex: "texture_shape ?tex 1 1" "slices ?tex = 1"
    by (simp_all add: texture_shape_def slices_def sample_texture_def arrayLength_def texture_info.defs)
  obtain v' where srv: "InitializeAndNormalizeSRV 1 1 ?tex ?v = Returns (v', ?d)"
    by (simp add: InitializeAndNormalizeSRV_def MTLQueryDXGIFormat_def query_tables sample_texture_def
        FixDepthStencilFormat_def or_rest_def Let_def)
  have dsv: "\<exists>w' att. InitializeAndNormalizeDSV 1 1 ?tex (?w f) = Returns (w', att, ?d')" for f
    by (simp add: InitializeAndNormalizeDSV_def MTLQueryDXGIFormat_def query_tables sample_texture_def Let_def)
  have ok: "srv_region_ok (unat (1 :: u32)) (unat (1 :: u32)) (ViewDimension ?v)"
    "dsv_region_ok (unat (1 :: u32)) (unat (1 :: u32)) (ViewDimension (?w f))" for f
    by (simp_all add: extent_ok_def)
  have planes: "view_planes ?d 0 = {0}" "view_planes ?d' 0 = {0, 1}" "getPlanarCount (vd_format ?d) = getPlanarCount (vd_format ?d')"
  proof -
    have cm: "getPlanarCount (vd_format ?d) = 2" "getPlanarCount (vd_format ?d') = 2"
      "getPlanarMask (vd_format ?d) = 1" "getPlanarMask (vd_format ?d') = 3"
      by (simp_all add: view_descriptor_def getPlanarCount_def getPlanarMask_def)
    have two: "p < 2 \<longleftrightarrow> p = 0 \<or> p = Suc 0" for p :: nat by auto
    show "view_planes ?d 0 = {0}" "view_planes ?d' 0 = {0, 1}" "getPlanarCount (vd_format ?d) = getPlanarCount (vd_format ?d')"
      unfolding view_planes_def cm by (auto simp: two bit_Suc bit_0)
  qed
  obtain w1 att1 where w1: "InitializeAndNormalizeDSV 1 1 ?tex (?w 1) = Returns (w1, att1, ?d')" using dsv by blast
  obtain w2 att2 where w2: "InitializeAndNormalizeDSV 1 1 ?tex (?w 2) = Returns (w2, att2, ?d')" using dsv by blast
  note c1 = read_only_planes_exempt [OF tex(1) srv ok(1) w1 ok(2) planes(3)]
    and c2 = read_only_planes_exempt [OF tex(1) srv ok(1) w2 ok(2) planes(3)]
  have f: "dsv_Flags w1 = 1" "dsv_Flags w2 = 2"
    using conjunct1 [OF c1] conjunct1 [OF c2] by simp_all
  have "overlapWith (subset_of_view ?d 1 1 0) (subset_of_view ?d' 1 1 1) = Some False"
    using conjunct2 [OF c1] unfolding f planes(1,2) tex(2) by simp
  moreover have "overlapWith (subset_of_view ?d 1 1 0) (subset_of_view ?d' 1 1 2) = Some True"
    using conjunct2 [OF c2] unfolding f planes(1,2) tex(2) by (simp add: extent_def bit_0)
  ultimately show ?thesis by (simp add: Let_def)
qed

end
