(* ===== verification/TextureCreation.thy ===== *)
theory TextureCreation
  imports ViewRegions
begin

text \<open>
  The Metal description of a D3D11 texture (\<open>CreateMTLTextureDescriptorInternal\<close> and its three callers in
  src/src/d3d11/d3d11_resource_helper.cpp) and the views a device texture makes of itself
  (src/src/d3d11/d3d11_texture_device.cpp). The main results: a texture that is created has the shape the
  views rely on, the view of an entire resource succeeds and covers every level and slice, and an
  unspecified level count gives the full chain of a 1D or 2D texture.
\<close>

subsection \<open>\<open>CreateMTLTextureDescriptorInternal\<close>\<close>

abbreviation D3D11_RESOURCE_DIMENSION_TEXTURE1D :: u32 where "D3D11_RESOURCE_DIMENSION_TEXTURE1D \<equiv> 2"
abbreviation D3D11_RESOURCE_DIMENSION_TEXTURE2D :: u32 where "D3D11_RESOURCE_DIMENSION_TEXTURE2D \<equiv> 3"
abbreviation D3D11_RESOURCE_DIMENSION_TEXTURE3D :: u32 where "D3D11_RESOURCE_DIMENSION_TEXTURE3D \<equiv> 4"
abbreviation WMTTextureUsageShaderRead :: u32 where "WMTTextureUsageShaderRead \<equiv> 1"
abbreviation WMTTextureUsageShaderWrite :: u32 where "WMTTextureUsageShaderWrite \<equiv> 2"
abbreviation WMTTextureUsagePixelFormatView :: u32 where "WMTTextureUsagePixelFormatView \<equiv> 16"
abbreviation WMTTextureUsageShaderAtomic :: u32 where "WMTTextureUsageShaderAtomic \<equiv> 32"
abbreviation WMTResourceStorageModeShared :: u32 where "WMTResourceStorageModeShared \<equiv> 0"
abbreviation WMTResourceCPUCacheModeWriteCombined :: u32 where "WMTResourceCPUCacheModeWriteCombined \<equiv> 1"
abbreviation WMTResourceStorageModeManaged :: u32 where "WMTResourceStorageModeManaged \<equiv> 16"
abbreviation WMTResourceHazardTrackingModeUntracked :: u32 where "WMTResourceHazardTrackingModeUntracked \<equiv> 256"

text \<open>The format of a depth-stencil target, and the usage and options of the texture.\<close>

definition depth_stencil_format :: "u32 \<Rightarrow> u32 \<Rightarrow> format_desc \<Rightarrow> format_desc" where
  "depth_stencil_format BindFlags fmt f =
     (if BindFlags AND D3D11_BIND_DEPTH_STENCIL \<noteq> 0 then
        if fmt \<in> {DXGI_FORMAT_R32_TYPELESS, DXGI_FORMAT_D32_FLOAT} then f\<lparr> PixelFormat := WMTPixelFormatDepth32Float \<rparr>
        else if fmt \<in> {DXGI_FORMAT_R16_TYPELESS, DXGI_FORMAT_D16_UNORM} then f\<lparr> PixelFormat := WMTPixelFormatDepth16Unorm \<rparr>
        else f
      else f)"

definition metal_usage_of :: "metal_caps \<Rightarrow> u32 \<Rightarrow> format_desc \<Rightarrow> u32" where
  "metal_usage_of caps BindFlags f =
     WMTTextureUsageShaderRead
     OR (if BindFlags AND (D3D11_BIND_RENDER_TARGET OR D3D11_BIND_DEPTH_STENCIL) \<noteq> 0 then WMTTextureUsageRenderTarget else 0)
     OR (if BindFlags AND D3D11_BIND_UNORDERED_ACCESS \<noteq> 0 then
           WMTTextureUsageShaderRead OR WMTTextureUsageShaderWrite
           OR (if PixelFormat f = WMTPixelFormatR32Uint \<or> PixelFormat f = WMTPixelFormatR32Sint
                  \<or> (PixelFormat f = WMTPixelFormatRG32Uint \<and> supportsApple8 caps)
               then WMTTextureUsageShaderAtomic else 0)
         else 0)
     OR (if Flag f AND MTL_DXGI_FORMAT_TYPELESS \<noteq> 0 then WMTTextureUsagePixelFormatView else 0)
     OR (if Flag f AND (MTL_DXGI_FORMAT_DEPTH_PLANER OR MTL_DXGI_FORMAT_STENCIL_PLANER) \<noteq> 0
         then WMTTextureUsageRenderTarget else 0)"

definition options_of_usage :: "u32 \<Rightarrow> u32" where
  "options_of_usage Usage =
     (if Usage = D3D11_USAGE_DEFAULT then WMTResourceStorageModeManaged
      else if Usage = D3D11_USAGE_IMMUTABLE then WMTResourceStorageModeManaged OR WMTResourceHazardTrackingModeUntracked
      else if Usage = D3D11_USAGE_DYNAMIC then WMTResourceStorageModeShared OR WMTResourceCPUCacheModeWriteCombined
      else if Usage = D3D11_USAGE_STAGING then WMTResourceStorageModeShared
      else 0)"

text \<open>Type, array length and sample count.\<close>

definition metal_texture_type :: "metal_caps \<Rightarrow> u32 \<Rightarrow> u32 \<Rightarrow> u32 \<Rightarrow> u32 \<Rightarrow> (u32 \<times> u32 \<times> u32) outcome" where
  "metal_texture_type caps Dimension ArraySize Samples MiscFlags =
     (if Dimension = D3D11_RESOURCE_DIMENSION_TEXTURE1D then
        Returns (if ArraySize > 1 then (WMTTextureType2DArray, ArraySize, 1) else (WMTTextureType2D, 1, 1))
      else if Dimension = D3D11_RESOURCE_DIMENSION_TEXTURE2D then
        if MiscFlags AND D3D11_RESOURCE_MISC_TEXTURECUBE \<noteq> 0 then
          Returns (if ArraySize div 6 > 1 then (WMTTextureTypeCubeArray, ArraySize div 6, 1) else (WMTTextureTypeCube, 1, 1))
        else if Samples > 1 then
          if \<not> supportsTextureSampleCount caps (ucast Samples) then Fails E_INVALIDARG
          else Returns (if ArraySize > 1 then (WMTTextureType2DMultisampleArray, ArraySize, Samples)
                        else (WMTTextureType2DMultisample, 1, Samples))
        else Returns (if ArraySize > 1 then (WMTTextureType2DArray, ArraySize, 1) else (WMTTextureType2D, 1, 1))
      else if Dimension = D3D11_RESOURCE_DIMENSION_TEXTURE3D then Returns (WMTTextureType3D, 1, 1)
      else Fails E_FAIL)"

definition CreateMTLTextureDescriptorInternal ::
    "metal_caps \<Rightarrow> u32 \<Rightarrow> u32 \<Rightarrow> u32 \<Rightarrow> u32 \<Rightarrow> u32 \<Rightarrow> u32 \<Rightarrow> u32 \<Rightarrow> u32 \<Rightarrow> u32 \<Rightarrow> u32 \<Rightarrow> u32 \<Rightarrow> wmt_texture_info outcome" where
  "CreateMTLTextureDescriptorInternal caps Dimension Width Height Depth ArraySize Samples BindFlags MiscFlags Usage
       MipLevels fmt =
     (if Width = 0 \<or> Height = 0 \<or> Depth = 0 \<or> ArraySize = 0 \<or> Samples = 0 then Fails E_INVALIDARG
      else let traits = GetDXGIFormatTraits fmt in
      if classification traits = Mask then Fails E_FAIL
      else if ft_flags traits AND DXGI_FORMAT_TRAIT_VIDEO \<noteq> 0 then Fails E_FAIL
      else let (hr, metal_format) = MTLQueryDXGIFormat fmt in
      if hr \<noteq> S_OK then Fails E_FAIL
      else let shared_flag = D3D11_RESOURCE_MISC_SHARED OR D3D11_RESOURCE_MISC_SHARED_KEYEDMUTEX in
      if MiscFlags AND shared_flag = shared_flag then Fails E_INVALIDARG
      else let metal_format = depth_stencil_format BindFlags fmt metal_format in
      if BindFlags AND (D3D11_BIND_CONSTANT_BUFFER OR D3D11_BIND_VERTEX_BUFFER OR D3D11_BIND_INDEX_BUFFER
                        OR D3D11_BIND_STREAM_OUTPUT) \<noteq> 0 then Fails E_FAIL
      else bindO (metal_texture_type caps Dimension ArraySize Samples MiscFlags) (\<lambda>(ty, array_length, sample_count).
        Returns \<lparr> ti_pixel_format = ORIGINAL_FORMAT (PixelFormat metal_format), ti_width = Width, ti_height = Height,
          ti_array_length = array_length, ti_type = ty,
          ti_mipmap_level_count = take_bit 8 (if MipLevels = 0 then 32 - clz32 (Width OR Height) else MipLevels),
          ti_usage = metal_usage_of caps BindFlags metal_format, ti_depth = Depth,
          ti_sample_count = take_bit 8 sample_count, ti_options = options_of_usage Usage \<rparr>))"

fun metal_descriptor :: "metal_caps \<Rightarrow> texture_desc \<Rightarrow> wmt_texture_info outcome" where
  "metal_descriptor caps (Tex1D d) =
     CreateMTLTextureDescriptorInternal caps D3D11_RESOURCE_DIMENSION_TEXTURE1D (t1_Width d) 1 1 (t1_ArraySize d) 1
       (t1_BindFlags d) (t1_MiscFlags d) (t1_Usage d) (t1_MipLevels d) (t1_Format d)"
| "metal_descriptor caps (Tex2D d) =
     CreateMTLTextureDescriptorInternal caps D3D11_RESOURCE_DIMENSION_TEXTURE2D (t2_Width d) (t2_Height d) 1
       (t2_ArraySize d) (fst (t2_SampleDesc d)) (t2_BindFlags d) (t2_MiscFlags d) (t2_Usage d) (t2_MipLevels d) (t2_Format d)"
| "metal_descriptor caps (Tex3D d) =
     CreateMTLTextureDescriptorInternal caps D3D11_RESOURCE_DIMENSION_TEXTURE3D (t3_Width d) (t3_Height d) (t3_Depth d)
       1 1 (t3_BindFlags d) (t3_MiscFlags d) (t3_Usage d) (t3_MipLevels d) (t3_Format d)"

text \<open>The description handed out has the level count of the texture.\<close>

definition CreateMTLTextureDescriptor :: "metal_caps \<Rightarrow> texture_desc \<Rightarrow> (texture_desc \<times> wmt_texture_info) outcome" where
  "CreateMTLTextureDescriptor caps d =
     bindO (metal_descriptor caps d) (\<lambda>info. Returns (set_MipLevels (ti_mipmap_level_count info) d, info))"

subsection \<open>Views of a device texture\<close>

record device_texture =
  dt_desc :: texture_desc
  dt_info :: wmt_texture_info

text \<open>The array size of the four calls: the depth of a 3D texture.\<close>

fun view_array_size :: "texture_desc \<Rightarrow> u32" where
  "view_array_size (Tex1D d) = t1_ArraySize d"
| "view_array_size (Tex2D d) = t2_ArraySize d"
| "view_array_size (Tex3D d) = t3_Depth d"

text \<open>What a view holds: its final description, the descriptor it is made with, its subset and the pass of a
  target. A null \<open>ppView\<close> asks only whether the call would succeed. An invalid argument stands for every
  failure of the description.\<close>

record 'd texture_view_object =
  tvo_desc :: 'd
  tvo_descriptor :: texture_view_descriptor
  tvo_subset :: subset_state
  tvo_attachment :: "pass_attachment_desc option"

fun invalid_on_failure :: "'a outcome \<Rightarrow> 'a outcome" where
  "invalid_on_failure (Fails _) = Fails E_INVALIDARG"
| "invalid_on_failure r = r"

definition subset_of_descriptor :: "wmt_texture_info \<Rightarrow> texture_view_descriptor \<Rightarrow> u32 \<Rightarrow> subset_state" where
  "subset_of_descriptor info d ignored = subset_of_view d (unat (ti_mipmap_level_count info)) (slices info) ignored"

definition CreateShaderResourceView ::
    "device_texture \<Rightarrow> srv_dim1 view_desc option \<Rightarrow> bool \<Rightarrow> srv_dim1 view_desc texture_view_object outcome" where
  "CreateShaderResourceView t pDesc ppView =
     bindO (invalid_on_failure (given_or_entire (desc_Format (dt_desc t)) (ExtractEntireSRV (dt_desc t)) pDesc)) (\<lambda>finalDesc.
     bindO (InitializeAndNormalizeSRV (desc_MipLevels (dt_desc t)) (view_array_size (dt_desc t)) (dt_info t) finalDesc)
       (\<lambda>(v, d).
         if \<not> ppView then Fails S_FALSE
         else Returns \<lparr> tvo_desc = v, tvo_descriptor = d, tvo_subset = subset_of_descriptor (dt_info t) d 0,
                        tvo_attachment = None \<rparr>))"

definition CreateUnorderedAccessView ::
    "device_texture \<Rightarrow> uav_dim1 view_desc option \<Rightarrow> bool \<Rightarrow> uav_dim1 view_desc texture_view_object outcome" where
  "CreateUnorderedAccessView t pDesc ppView =
     bindO (invalid_on_failure (given_or_entire (desc_Format (dt_desc t)) (ExtractEntireUAV (dt_desc t)) pDesc)) (\<lambda>finalDesc.
     bindO (InitializeAndNormalizeUAV (desc_MipLevels (dt_desc t)) (view_array_size (dt_desc t)) (dt_info t) finalDesc)
       (\<lambda>(v, d).
         if \<not> ppView then Fails S_FALSE
         else Returns \<lparr> tvo_desc = v, tvo_descriptor = d, tvo_subset = subset_of_descriptor (dt_info t) d 0,
                        tvo_attachment = None \<rparr>))"

text \<open>Render target and depth-stencil views are created with the usage of a render target; the subset is of the
  descriptor as normalised.\<close>

definition CreateRenderTargetView ::
    "device_texture \<Rightarrow> rtv_dim1 view_desc option \<Rightarrow> bool \<Rightarrow> rtv_dim1 view_desc texture_view_object outcome" where
  "CreateRenderTargetView t pDesc ppView =
     bindO (invalid_on_failure (given_or_entire (desc_Format (dt_desc t)) (ExtractEntireRTV (dt_desc t)) pDesc)) (\<lambda>finalDesc.
     if desc_BindFlags (dt_desc t) AND D3D11_BIND_RENDER_TARGET = 0 then Fails E_INVALIDARG
     else bindO (InitializeAndNormalizeRTV (desc_MipLevels (dt_desc t)) (view_array_size (dt_desc t)) (dt_info t) finalDesc)
       (\<lambda>(v, att, d).
         if ti_usage (dt_info t) AND WMTTextureUsageRenderTarget = 0 then Fails E_FAIL
         else if \<not> ppView then Fails S_FALSE
         else Returns \<lparr> tvo_desc = v, tvo_descriptor = d\<lparr> intendedUsage := WMTTextureUsageRenderTarget \<rparr>,
                        tvo_subset = subset_of_descriptor (dt_info t) d 0, tvo_attachment = Some att \<rparr>))"

definition CreateDepthStencilView ::
    "u32 \<Rightarrow> device_texture \<Rightarrow> dsv_desc option \<Rightarrow> bool \<Rightarrow> dsv_desc texture_view_object outcome" where
  "CreateDepthStencilView junk t pDesc ppView =
     bindO (invalid_on_failure (given_or_entire (desc_Format (dt_desc t)) (ExtractEntireDSV junk (dt_desc t)) pDesc)) (\<lambda>finalDesc.
     bindO (InitializeAndNormalizeDSV (desc_MipLevels (dt_desc t)) (view_array_size (dt_desc t)) (dt_info t) finalDesc)
       (\<lambda>(v, att, d).
         if \<not> ppView then Fails S_FALSE
         else Returns \<lparr> tvo_desc = v, tvo_descriptor = d\<lparr> intendedUsage := WMTTextureUsageRenderTarget \<rparr>,
                        tvo_subset = subset_of_descriptor (dt_info t) d (dsv_Flags v AND 3), tvo_attachment = Some att \<rparr>))"

subsection \<open>The number of levels\<close>

lemma leading_zeros:
  fixes x :: u32
  assumes "x \<noteq> 0" "n \<le> 32" "take_bit n x = x"
  defines "k \<equiv> length (takeWhile (\<lambda>i. \<not> bit x i) (rev [0..<n]))"
  shows "k < n \<and> 2 ^ (n - k - 1) \<le> unat x \<and> unat x < 2 ^ (n - k)"
  using assms(1-3) unfolding k_def
proof (induction n)
  case 0
  then show ?case by simp
next
  case (Suc n)
  show ?case
  proof (cases "bit x n")
    case True
    have "unat (take_bit (Suc n) x) < 2 ^ Suc n"
      unfolding unsigned_take_bit_eq by (rule take_bit_nat_less_exp)
    moreover have "bit (unat x) n" using True by (simp add: bit_unsigned_iff)
    then have "2 ^ n \<le> unat x"
      by (metis bit_nat_def even_zero div_less not_le)
    ultimately show ?thesis using True Suc.prems by simp
  next
    case False
    have "take_bit n x = x"
    proof (rule bit_word_eqI)
      fix i assume "i < LENGTH(32)"
      have "bit x i \<Longrightarrow> i < Suc n" using Suc.prems(3) by (metis bit_take_bit_iff)
      then show "bit (take_bit n x) i = bit x i"
        using False by (auto simp: bit_take_bit_iff less_Suc_eq)
    qed
    with Suc.IH Suc.prems False show ?thesis by (simp add: Suc_diff_le)
  qed
qed

lemma clz32_bounds:
  assumes "x \<noteq> 0"
  shows "unat (32 - clz32 x) \<in> {1..32}" "2 ^ (unat (32 - clz32 x) - 1) \<le> unat x" "unat x < 2 ^ unat (32 - clz32 x)"
proof -
  let ?k = "length (takeWhile (\<lambda>i. \<not> bit x i) (rev [0..<32]))"
  have "take_bit 32 x = x" by (simp add: take_bit_word_eq_self)
  with leading_zeros [OF assms, of 32]
  have k: "?k < 32" "2 ^ (32 - ?k - 1) \<le> unat x" "unat x < 2 ^ (32 - ?k)" by simp_all
  have "unat (clz32 x) = ?k"
    using k(1) by (simp add: clz32_def unat_of_nat take_bit_eq_mod)
  moreover from this k(1) have "unat (32 - clz32 x) = 32 - ?k"
    by (subst unat_sub) (simp_all add: word_le_nat_alt)
  ultimately show "unat (32 - clz32 x) \<in> {1..32}" "2 ^ (unat (32 - clz32 x) - 1) \<le> unat x"
    "unat x < 2 ^ unat (32 - clz32 x)"
    using k by simp_all
qed

lemma drop_bit_1:
  fixes x :: u32
  shows "max 1 (drop_bit n x) = 1 \<longleftrightarrow> unat x < 2 ^ Suc n"
proof -
  have "unat (drop_bit n x) = unat x div 2 ^ n"
    unfolding unat_drop_bit_eq by (simp add: drop_bit_eq_div)
  moreover have "unat x div 2 ^ n \<le> 1 \<longleftrightarrow> unat x < 2 ^ Suc n"
    using div_less_iff_less_mult [of "2 ^ n" "unat x" 2] by (simp add: less_Suc_eq_le numeral_2_eq_2)
  moreover have "max 1 (drop_bit n x) = 1 \<longleftrightarrow> unat (drop_bit n x) \<le> 1"
    by (auto simp: max_def word_le_nat_alt intro: antisym)
  ultimately show ?thesis by simp
qed

lemma unat_or_less: "unat (a OR b :: u32) < 2 ^ n \<longleftrightarrow> unat a < 2 ^ n \<and> unat b < 2 ^ n"
proof -
  have "unat x < 2 ^ n \<longleftrightarrow> (\<forall>i \<ge> n. \<not> bit x i)" for x :: u32
  proof -
    have "unat x < 2 ^ n \<longleftrightarrow> take_bit n (unat x) = unat x" by (rule take_bit_nat_eq_self_iff [symmetric])
    also have "\<dots> \<longleftrightarrow> take_bit n x = x" by (simp add: unsigned_take_bit_eq [symmetric] word_unat_eq_iff)
    also have "\<dots> \<longleftrightarrow> (\<forall>i \<ge> n. \<not> bit x i)"
    proof
      assume "take_bit n x = x"
      then show "\<forall>i \<ge> n. \<not> bit x i" by (metis bit_take_bit_iff not_less)
    next
      assume "\<forall>i \<ge> n. \<not> bit x i"
      then show "take_bit n x = x" by (intro bit_word_eqI) (metis bit_take_bit_iff not_less)
    qed
    finally show ?thesis .
  qed
  then show ?thesis by (auto simp: bit_or_iff)
qed

lemma mip_extent_1: "level < 32 \<Longrightarrow> mip_extent x level = Returns (max 1 (drop_bit (unat level) x))"
  by (simp add: mip_extent_Returns)

lemma flat_level_1:
  assumes flat: "\<And>t. d \<noteq> Tex3D t" and level: "level < 32"
  shows "GetMipmapSize d level = Returns (1, 1, 1) \<longleftrightarrow> unat (desc_Width d OR TextureDescHeight d) < 2 ^ Suc (unat level)"
proof -
  have "(1 :: nat) \<le> 2 ^ unat level" by simp
  then have "Suc 0 < 2 * 2 ^ unat level" by linarith
  then show ?thesis
    using flat level unfolding unat_or_less GetMipmapSize_Returns
    by (cases d) (auto simp: drop_bit_1 [unfolded eq_commute [of "max _ _" 1]])
qed

lemma automatic_level_count:
  assumes made: "CreateMTLTextureDescriptor caps d = Returns (d', info)" and auto_levels: "desc_MipLevels d = 0"
    and flat: "\<And>t. d \<noteq> Tex3D t"
  defines "n \<equiv> 32 - clz32 (desc_Width d OR TextureDescHeight d)"
  shows "d' = set_MipLevels n d" "ti_mipmap_level_count info = n" "desc_Width d OR TextureDescHeight d \<noteq> 0"
proof -
  have d': "d' = set_MipLevels (ti_mipmap_level_count info) d" and info: "metal_descriptor caps d = Returns info"
    using made by (auto simp: CreateMTLTextureDescriptor_def bindO_Returns)
  have W: "desc_Width d \<noteq> 0" "ti_mipmap_level_count info = take_bit 8 n"
    using info auto_levels flat by (cases d; auto simp: n_def CreateMTLTextureDescriptorInternal_def Let_def bindO_Returns
        split: prod.splits if_splits)+
  then show nz: "desc_Width d OR TextureDescHeight d \<noteq> 0" by (auto simp: or_eq_0_iff)
  have "take_bit 8 n = n"
    using clz32_bounds(1) [OF nz, folded n_def] by (simp add: word_unat_eq_iff take_bit_eq_mod unat_mod)
  then show "ti_mipmap_level_count info = n" "d' = set_MipLevels n d" using W(2) d' by simp_all
qed

lemma unat_sub_2: "2 \<le> unat n \<Longrightarrow> unat (n - 2 :: u32) = unat n - 2"
  by (subst unat_sub) (simp_all add: word_le_nat_alt)

text \<open>C23: A 1D or 2D texture created with no level count gets exactly the full chain: the last level is a single
  texel and the level before it is not, and the description handed out has that count.\<close>

theorem full_mip_chain:
  assumes made: "CreateMTLTextureDescriptor caps d = Returns (d', info)" and auto_levels: "desc_MipLevels d = 0"
    and flat: "\<And>t. d \<noteq> Tex3D t"
  shows "desc_MipLevels d' = ti_mipmap_level_count info \<and> 0 < desc_MipLevels d' \<and> desc_MipLevels d' \<le> 32
       \<and> GetMipmapSize d' (desc_MipLevels d' - 1) = Returns (1, 1, 1)
       \<and> (1 < desc_MipLevels d' \<longrightarrow> GetMipmapSize d' (desc_MipLevels d' - 2) \<noteq> Returns (1, 1, 1))"
proof -
  let ?x = "desc_Width d OR TextureDescHeight d"
  define n where "n = 32 - clz32 ?x"
  note auto_count = automatic_level_count [OF made auto_levels flat, folded n_def]
  note bounds = clz32_bounds [OF auto_count(3), folded n_def]
  have sizes: "desc_MipLevels d' = n" "desc_Width d' = desc_Width d" "TextureDescHeight d' = TextureDescHeight d"
    "\<And>t. d' \<noteq> Tex3D t"
    using flat by (cases d; simp add: auto_count(1))+
  note all_1 = flat_level_1 [OF sizes(4), unfolded sizes(2,3)]
  have pos: "0 < unat n" "unat n \<le> 32" using bounds(1) by simp_all
  then have "unat (n - 1) = unat n - 1" by (subst unat_sub) (simp_all add: word_le_nat_alt)
  moreover have "unat n - 1 < 32" using pos by linarith
  ultimately have n1: "unat (n - 1) = unat n - 1" "n - 1 < 32" "0 < n" "n \<le> 32"
    using pos by (simp_all add: word_le_nat_alt word_less_nat_alt)
  have "GetMipmapSize d' (n - 1) = Returns (1, 1, 1)"
    using bounds(1,3) n1 all_1 [of "n - 1"] by simp
  moreover have "GetMipmapSize d' (n - 2) \<noteq> Returns (1, 1, 1)" if "1 < n"
  proof -
    have two: "2 \<le> unat n" using that by (simp add: word_less_nat_alt)
    moreover have "unat n - 2 < 32" using pos by linarith
    ultimately have "n - 2 < 32" "Suc (unat (n - 2)) = unat n - 1"
      by (simp_all add: word_less_nat_alt unat_sub_2)
    then show ?thesis using bounds(2) all_1 [of "n - 2"] by simp
  qed
  ultimately show ?thesis using n1 auto_count(2) sizes(1) by simp
qed

lemma full_mip_chain_witness:
  "\<exists>d' info. CreateMTLTextureDescriptor sample_caps (Tex2D (texture2d 300 20 0 1 DXGI_FORMAT_R8G8B8A8_UNORM)) = Returns (d', info)
     \<and> 0 < desc_MipLevels d' \<and> GetMipmapSize d' (desc_MipLevels d' - 1) = Returns (1, 1, 1)"
proof -
  let ?d = "Tex2D (texture2d 300 20 0 1 DXGI_FORMAT_R8G8B8A8_UNORM)"
  have "case CreateMTLTextureDescriptor sample_caps ?d of Returns _ \<Rightarrow> True | _ \<Rightarrow> False" by code_simp
  then obtain d' info where made: "CreateMTLTextureDescriptor sample_caps ?d = Returns (d', info)"
    by (auto split: outcome.splits)
  have "desc_MipLevels ?d = 0" by (simp add: texture2d_def)
  from full_mip_chain [OF made this] show ?thesis using made by blast
qed

text \<open>The depth of a 3D texture is not counted: a 1x1x8 texture gets one level, whose depth is 8.\<close>

definition texture3d :: "u32 \<Rightarrow> u32 \<Rightarrow> u32 \<Rightarrow> u32 \<Rightarrow> u32 \<Rightarrow> texture3d_desc1" where
  "texture3d width height depth mips fmt =
     \<lparr> t3_Width = width, t3_Height = height, t3_Depth = depth, t3_MipLevels = mips, t3_Format = fmt,
       t3_Usage = D3D11_USAGE_DEFAULT, t3_BindFlags = 8, t3_CPUAccessFlags = 0, t3_MiscFlags = 0,
       t3_TextureLayout = D3D11_TEXTURE_LAYOUT_UNDEFINED \<rparr>"

lemma mip_chain_ignores_depth:
  "case CreateMTLTextureDescriptor sample_caps (Tex3D (texture3d 1 1 8 0 DXGI_FORMAT_R8G8B8A8_UNORM)) of
     Returns (d', info) \<Rightarrow> desc_MipLevels d' = 1 \<and> GetMipmapSize d' 0 = Returns (1, 1, 8)
   | _ \<Rightarrow> False"
  by code_simp

subsection \<open>The shape of a created texture\<close>

text \<open>The limits of D3D11: dimensions of 16384, 2048 slices, 15 levels; a cube has whole cubes and one sample, a
  multisampled texture one level.\<close>

definition desc_limits :: "texture_desc \<Rightarrow> bool" where
  "desc_limits d \<longleftrightarrow> unat (desc_Width d) < 2 ^ 15 \<and> unat (TextureDescHeight d) < 2 ^ 15
     \<and> unat (TextureDescArraySize d) \<le> 2048 \<and> unat (desc_MipLevels d) \<le> 15
     \<and> (case d of Tex2D t \<Rightarrow>
          (t2_MiscFlags t AND D3D11_RESOURCE_MISC_TEXTURECUBE \<noteq> 0 \<longrightarrow>
             6 dvd unat (t2_ArraySize t) \<and> fst (t2_SampleDesc t) = 1)
          \<and> (fst (t2_SampleDesc t) \<noteq> 1 \<longrightarrow> t2_MipLevels t = 1)
        | _ \<Rightarrow> True)"

lemma metal_descriptor_Returns:
  assumes "metal_descriptor caps d = Returns info"
  obtains f where "MTLQueryDXGIFormat (desc_Format d) = (S_OK, f)"
    "ti_mipmap_level_count info = take_bit 8 (if desc_MipLevels d = 0 then 32 - clz32 (desc_Width d OR TextureDescHeight d) else desc_MipLevels d)"
    "ti_width info = desc_Width d" "ti_height info = TextureDescHeight d" "desc_Width d \<noteq> 0"
    "TextureDescArraySize d \<noteq> 0" "TextureDescSampleCount d \<noteq> 0"
    "ti_usage info = metal_usage_of caps (desc_BindFlags d) (depth_stencil_format (desc_BindFlags d) (desc_Format d) f)"
  using assms by (cases d)
    (auto simp: CreateMTLTextureDescriptorInternal_def Let_def bindO_Returns split: prod.splits if_splits)

lemma level_count_bounds:
  assumes "metal_descriptor caps d = Returns info" "desc_limits d"
  shows "0 < unat (ti_mipmap_level_count info)" "unat (ti_mipmap_level_count info) < 16"
proof -
  obtain f where m: "ti_mipmap_level_count info = take_bit 8 (if desc_MipLevels d = 0 then 32 - clz32 (desc_Width d OR TextureDescHeight d) else desc_MipLevels d)"
    and W: "desc_Width d \<noteq> 0"
    using assms(1) by (rule metal_descriptor_Returns)
  define n where "n = (if desc_MipLevels d = 0 then 32 - clz32 (desc_Width d OR TextureDescHeight d) else desc_MipLevels d)"
  have "0 < unat n \<and> unat n < 16"
  proof (cases "desc_MipLevels d = 0")
    case True
    have "desc_Width d OR TextureDescHeight d \<noteq> 0" using W by (auto simp: or_eq_0_iff)
    note b = clz32_bounds [OF this]
    have "unat (desc_Width d OR TextureDescHeight d) < 2 ^ 15"
      unfolding unat_or_less using assms(2) by (simp add: desc_limits_def)
    with b(2) have "(2 :: nat) ^ (unat n - 1) < 2 ^ 15" unfolding n_def True by simp
    from power_less_imp_less_exp [OF _ this] have "unat n - 1 < 15" by simp
    moreover have "1 \<le> unat n" using b(1) unfolding n_def True by simp
    ultimately show ?thesis by linarith
  next
    case False
    then show ?thesis using assms(2) by (simp add: n_def desc_limits_def unat_gt_0)
  qed
  moreover from this have "take_bit 8 n = n"
    by (simp add: word_unat_eq_iff take_bit_eq_mod unat_mod)
  ultimately show "0 < unat (ti_mipmap_level_count info)" "unat (ti_mipmap_level_count info) < 16"
    unfolding m n_def [symmetric] by simp_all
qed

text \<open>The array length Metal counts in cubes is the slices of the description again.\<close>

lemma not_1_less: "layers \<noteq> 0 \<Longrightarrow> \<not> 1 < layers \<Longrightarrow> layers = 1" for layers :: u32
  by unat_arith

lemma whole_cubes:
  fixes layers :: u32
  assumes "6 dvd unat layers" "unat layers \<le> 2048" "layers \<noteq> 0"
  shows "layers div 6 * 6 = layers" "\<not> 1 < layers div 6 \<Longrightarrow> layers = 6"
proof -
  obtain k where k: "unat layers = 6 * k" using assms(1) by blast
  then have d: "unat (layers div 6) = k" by (simp add: unat_div)
  have "k \<le> 2048" using k assms(2) by linarith
  then have "unat (layers div 6) * unat (6 :: u32) < 2 ^ 32" unfolding d by simp
  from unat_mult_32 [OF this] have "unat (layers div 6 * 6) = 6 * k" unfolding d by simp
  then show "layers div 6 * 6 = layers" by (simp only: word_unat_eq_iff k)
  assume "\<not> 1 < layers div 6"
  then have "k \<le> 1" using d by (simp add: not_less word_le_nat_alt)
  moreover have "0 < unat layers" using assms(3) by (simp add: unat_gt_0)
  then have "k \<noteq> 0" using k by (intro notI) simp
  ultimately have "unat layers = 6" using k by simp
  then show "layers = 6" by (simp add: word_unat_eq_iff)
qed

definition metal_layers :: "u32 \<Rightarrow> u32 \<Rightarrow> u32" where
  "metal_layers ty array_length =
     (if ty = WMTTextureTypeCubeArray \<or> ty = WMTTextureTypeCube then array_length * 6 else array_length)"

lemma metal_type_layers:
  assumes made: "metal_texture_type caps dimension layers samples misc = Returns (ty, array_length, count)"
    and layers: "layers \<noteq> 0" "unat layers \<le> 2048"
    and cube: "dimension = D3D11_RESOURCE_DIMENSION_TEXTURE2D \<Longrightarrow> misc AND D3D11_RESOURCE_MISC_TEXTURECUBE \<noteq> 0 \<Longrightarrow> 6 dvd unat layers"
    and volume: "dimension = D3D11_RESOURCE_DIMENSION_TEXTURE3D \<Longrightarrow> layers = 1"
  shows "metal_layers ty array_length = layers
     \<and> (ty \<in> {WMTTextureType2D, WMTTextureType2DMultisample, WMTTextureType3D} \<longrightarrow> layers = 1)
     \<and> (ty = WMTTextureType3D \<longleftrightarrow> dimension = D3D11_RESOURCE_DIMENSION_TEXTURE3D)"
proof -
  note one = not_1_less [OF layers(1)]
  consider "dimension = D3D11_RESOURCE_DIMENSION_TEXTURE1D" | "dimension = D3D11_RESOURCE_DIMENSION_TEXTURE2D"
    | "dimension = D3D11_RESOURCE_DIMENSION_TEXTURE3D"
    using made by (fastforce simp: metal_texture_type_def split: if_splits)
  then show ?thesis
  proof cases
    case 1
    then show ?thesis
      using made one by (cases "1 < layers") (simp_all add: metal_texture_type_def metal_layers_def)
  next
    case 2
    show ?thesis
    proof (cases "misc AND D3D11_RESOURCE_MISC_TEXTURECUBE \<noteq> 0")
      case True
      note whole = whole_cubes [OF cube [OF 2 True] layers(2,1)]
      show ?thesis
        using made 2 True whole by (cases "1 < layers div 6") (simp_all add: metal_texture_type_def metal_layers_def)
    next
      case False
      then show ?thesis
        using made 2 one
        by (cases "1 < layers"; cases "1 < samples"; simp add: metal_texture_type_def metal_layers_def split: if_splits)
    qed
  next
    case 3
    then show ?thesis using made volume by (simp add: metal_texture_type_def metal_layers_def)
  qed
qed

abbreviation desc_dimension :: "texture_desc \<Rightarrow> u32" where
  "desc_dimension d \<equiv> (case d of Tex1D _ \<Rightarrow> D3D11_RESOURCE_DIMENSION_TEXTURE1D
    | Tex2D _ \<Rightarrow> D3D11_RESOURCE_DIMENSION_TEXTURE2D | Tex3D _ \<Rightarrow> D3D11_RESOURCE_DIMENSION_TEXTURE3D)"

text \<open>What the creation of a texture tells of its description and of Metal's.\<close>

lemma created_texture:
  assumes made: "CreateMTLTextureDescriptor caps d = Returns (d', info)" and limits: "desc_limits d"
  obtains f count where "d' = set_MipLevels (ti_mipmap_level_count info) d"
    "MTLQueryDXGIFormat (desc_Format d) = (S_OK, f)"
    "metal_texture_type caps (desc_dimension d) (TextureDescArraySize d) (TextureDescSampleCount d) (desc_MiscFlags d)
       = Returns (ti_type info, ti_array_length info, count)"
    "TextureDescArraySize d \<noteq> 0" "TextureDescSampleCount d \<noteq> 0" "ti_mipmap_level_count info \<noteq> 0"
    "unat (ti_mipmap_level_count info) < 16"
    "TextureDescSampleCount d \<noteq> 1 \<Longrightarrow> ti_mipmap_level_count info = 1"
    "ti_usage info = metal_usage_of caps (desc_BindFlags d) (depth_stencil_format (desc_BindFlags d) (desc_Format d) f)"
proof -
  have d': "d' = set_MipLevels (ti_mipmap_level_count info) d" and info: "metal_descriptor caps d = Returns info"
    using made by (auto simp: CreateMTLTextureDescriptor_def bindO_Returns)
  obtain f where f: "MTLQueryDXGIFormat (desc_Format d) = (S_OK, f)"
    "ti_mipmap_level_count info = take_bit 8 (if desc_MipLevels d = 0 then 32 - clz32 (desc_Width d OR TextureDescHeight d) else desc_MipLevels d)"
    "TextureDescArraySize d \<noteq> 0" "TextureDescSampleCount d \<noteq> 0"
    "ti_usage info = metal_usage_of caps (desc_BindFlags d) (depth_stencil_format (desc_BindFlags d) (desc_Format d) f)"
    using info by (rule metal_descriptor_Returns)
  obtain count where ty: "metal_texture_type caps (desc_dimension d) (TextureDescArraySize d) (TextureDescSampleCount d)
      (desc_MiscFlags d) = Returns (ti_type info, ti_array_length info, count)"
    using info by (cases d) (auto simp: CreateMTLTextureDescriptorInternal_def Let_def bindO_Returns
        split: prod.splits if_splits)
  have single: "ti_mipmap_level_count info = 1" if "TextureDescSampleCount d \<noteq> 1"
  proof -
    have "desc_MipLevels d = 1" using that limits by (cases d) (simp_all add: desc_limits_def)
    then show ?thesis by (simp add: f(2))
  qed
  from level_count_bounds [OF info limits] show thesis
    by (intro that [of f count] d' f(1,3-5) ty single) (simp_all add: unat_gt_0)
qed

lemma created_layers:
  assumes made: "CreateMTLTextureDescriptor caps d = Returns (d', info)" and limits: "desc_limits d"
  shows "arrayLength (texture_info.truncate info) = TextureDescArraySize d
     \<and> (ti_type info \<in> {WMTTextureType2D, WMTTextureType2DMultisample, WMTTextureType3D} \<longrightarrow> TextureDescArraySize d = 1)
     \<and> (ti_type info = WMTTextureType3D \<longleftrightarrow> desc_dimension d = D3D11_RESOURCE_DIMENSION_TEXTURE3D)"
proof -
  obtain count where ty: "metal_texture_type caps (desc_dimension d) (TextureDescArraySize d) (TextureDescSampleCount d)
      (desc_MiscFlags d) = Returns (ti_type info, ti_array_length info, count)" and pos: "TextureDescArraySize d \<noteq> 0"
    using made limits by (rule created_texture)
  have "unat (TextureDescArraySize d) \<le> 2048" using limits by (simp add: desc_limits_def)
  moreover have "6 dvd unat (TextureDescArraySize d)"
    if "desc_dimension d = D3D11_RESOURCE_DIMENSION_TEXTURE2D" "desc_MiscFlags d AND D3D11_RESOURCE_MISC_TEXTURECUBE \<noteq> 0"
    using that limits by (cases d) (simp_all add: desc_limits_def)
  moreover have "TextureDescArraySize d = 1" if "desc_dimension d = D3D11_RESOURCE_DIMENSION_TEXTURE3D"
    using that by (cases d) simp_all
  ultimately have "metal_layers (ti_type info) (ti_array_length info) = TextureDescArraySize d
     \<and> (ti_type info \<in> {WMTTextureType2D, WMTTextureType2DMultisample, WMTTextureType3D} \<longrightarrow> TextureDescArraySize d = 1)
     \<and> (ti_type info = WMTTextureType3D \<longleftrightarrow> desc_dimension d = D3D11_RESOURCE_DIMENSION_TEXTURE3D)"
    by (rule metal_type_layers [OF ty pos])
  moreover have "arrayLength (texture_info.truncate info) = metal_layers (ti_type info) (ti_array_length info)"
    by (simp add: arrayLength_def metal_layers_def texture_info.defs)
  ultimately show ?thesis by simp
qed

lemma desc_of_set_MipLevels [simp]:
  "desc_MipLevels (set_MipLevels n d) = n" "desc_Format (set_MipLevels n d) = desc_Format d"
  "desc_BindFlags (set_MipLevels n d) = desc_BindFlags d" "view_array_size (set_MipLevels n d) = view_array_size d"
  by (cases d; simp)+

lemma created_shape:
  assumes made: "CreateMTLTextureDescriptor caps d = Returns (d', info)" and limits: "desc_limits d"
  shows "texture_shape info (desc_MipLevels d') (view_array_size d')"
proof -
  have d': "d' = set_MipLevels (ti_mipmap_level_count info) d"
    and levels: "ti_mipmap_level_count info \<noteq> 0" "unat (ti_mipmap_level_count info) < 16"
    and pos: "TextureDescArraySize d \<noteq> 0"
    by (rule created_texture [OF made limits], assumption)+
  have "unat (TextureDescArraySize d) \<le> 2048" using limits by (simp add: desc_limits_def)
  moreover note layers = created_layers [OF made limits]
  moreover have "view_array_size d' = TextureDescArraySize d" if "ti_type info \<noteq> WMTTextureType3D"
    using that layers by (cases d) (simp_all add: d')
  ultimately show ?thesis
    using levels pos by (simp add: texture_shape_def unat_gt_0 d')
qed

subsection \<open>The view of an entire texture\<close>

lemma or_rest_all [simp]: "or_rest n 0 n = n"
  by (simp add: or_rest_def)

lemma extent_all: "n \<noteq> 0 \<Longrightarrow> extent (unat n) 0 n = {0..<unat n} \<and> extent_ok (unat n) 0 n"
  by (auto simp: extent_def extent_ok_def unat_gt_0)

lemma entire_srv_normalizes:
  assumes ty: "metal_texture_type caps (desc_dimension d) (TextureDescArraySize d) (TextureDescSampleCount d) (desc_MiscFlags d) = Returns (ty, array_length, count)"
    and limits: "desc_limits d" and pos: "TextureDescArraySize d \<noteq> 0" "TextureDescSampleCount d \<noteq> 0" "M \<noteq> 0"
    and single: "TextureDescSampleCount d \<noteq> 1 \<Longrightarrow> M = 1"
    and entire: "ExtractEntireSRV (set_MipLevels M d) = Returns v"
  shows "(\<exists>x. normalize_srv M (view_array_size d) ty fmt (ViewDimension v) = Returns x)
     \<and> srv_region_ok (unat M) (unat (view_array_size d)) (ViewDimension v)
     \<and> srv_region (unat M) (unat (view_array_size d)) (ViewDimension v) = ({0..<unat M}, {0..<unat (TextureDescArraySize d)})"
proof (cases d)
  case (Tex1D t)
  then show ?thesis
    using ty entire pos not_1_less [of "t1_ArraySize t"] extent_all [of M] extent_all [of "t1_ArraySize t"]
    by (cases "1 < t1_ArraySize t") (auto simp: metal_texture_type_def Let_def)
next
  case (Tex3D t)
  then show ?thesis
    using ty entire pos extent_all [of M] by (auto simp: metal_texture_type_def)
next
  case (Tex2D t)
  note D = Tex2D and one = not_1_less [OF pos(1)]
  have small: "unat (t2_ArraySize t) \<le> 2048" using limits D by (simp add: desc_limits_def)
  have v: "v = \<lparr> vd_Format = t2_Format t, ViewDimension =
       (if fst (t2_SampleDesc t) = 1 then
          if t2_ArraySize t = 1 then SRV_TEXTURE2D 0 M 0
          else if t2_MiscFlags t AND D3D11_RESOURCE_MISC_TEXTURECUBE \<noteq> 0 then
            (if t2_ArraySize t div 6 > 1 then SRV_TEXTURECUBEARRAY 0 M 0 (t2_ArraySize t div 6) else SRV_TEXTURECUBE 0 M)
          else SRV_TEXTURE2DARRAY 0 M 0 (t2_ArraySize t) 0
        else if t2_ArraySize t = 1 then SRV_TEXTURE2DMS
        else SRV_TEXTURE2DMSARRAY 0 (t2_ArraySize t)) \<rparr>"
    using entire D by (simp add: Let_def cong: if_cong)
  show ?thesis
  proof (cases "t2_MiscFlags t AND D3D11_RESOURCE_MISC_TEXTURECUBE \<noteq> 0")
    case cube: True
    then have six: "6 dvd unat (t2_ArraySize t)" and s1: "fst (t2_SampleDesc t) = 1"
      using limits D by (simp_all add: desc_limits_def)
    note whole = whole_cubes [OF six small] 
    have nz: "t2_ArraySize t \<noteq> 0" "t2_ArraySize t \<noteq> 1" using pos(1) six D by auto
    have u: "unat (t2_ArraySize t div 6) = unat (t2_ArraySize t) div 6" by (simp add: unat_div)
    have ge: "6 \<le> unat (t2_ArraySize t)" using six nz(1) by (auto elim!: dvdE simp: unat_gt_0 [symmetric])
    show ?thesis
    proof (cases "1 < t2_ArraySize t div 6")
      case True
      have "NOT (t2_ArraySize t div 6) \<noteq> 0"
      proof
        assume "NOT (t2_ArraySize t div 6) = 0"
        then have "t2_ArraySize t div 6 = -1" by (metis bit.compl_zero bit.double_compl)
        then have "unat (t2_ArraySize t) div 6 = unat (-1 :: u32)" using u by simp
        then show False using small by (simp add: unsigned_minus_1_eq_mask mask_eq_exp_minus_1)
      qed
      moreover have "0 < unat (t2_ArraySize t) div 6" using ge by simp
      ultimately show ?thesis
        using ty True cube D v s1 nz extent_all [OF pos(3)] whole six u
        by (simp add: metal_texture_type_def dvd_mult_div_cancel)
    next
      case False
      then show ?thesis
        using ty cube D v s1 nz extent_all [OF pos(3)] whole(2) [OF nz(1) False]
        by (simp add: metal_texture_type_def)
    qed
  next
    case False
    show ?thesis
    proof (cases "fst (t2_SampleDesc t) = 1")
      case True
      then show ?thesis
        using ty False D v one pos extent_all [OF pos(3)] extent_all [of "t2_ArraySize t"]
        by (cases "1 < t2_ArraySize t") (auto simp: metal_texture_type_def)
    next
      case multi: False
      then have "1 < fst (t2_SampleDesc t)" "M = 1" using not_1_less [of "fst (t2_SampleDesc t)"] pos(2) single D by auto
      then show ?thesis
        using ty False multi D v one pos extent_all [of "t2_ArraySize t"]
        by (cases "1 < t2_ArraySize t") (auto simp: metal_texture_type_def split: if_splits)
    qed
  qed
qed

lemma entire_rtv_normalizes:
  assumes ty: "metal_texture_type caps (desc_dimension d) (TextureDescArraySize d) (TextureDescSampleCount d) (desc_MiscFlags d) = Returns (ty, array_length, count)"
    and limits: "desc_limits d" and pos: "TextureDescArraySize d \<noteq> 0" "TextureDescSampleCount d \<noteq> 0" "M \<noteq> 0"
    and entire: "ExtractEntireRTV (set_MipLevels M d) = Returns v"
  shows "(\<exists>x. normalize_rtv (view_array_size d) ty fmt (ViewDimension v) = Returns x)
     \<and> rtv_region_ok (unat M) (unat (view_array_size d)) (ViewDimension v)
     \<and> rtv_region (unat (view_array_size d)) (ViewDimension v) = ({0}, {0..<unat (TextureDescArraySize d)})"
proof -
  have M: "0 < unat M" using pos(3) by (simp add: unat_gt_0)
  show ?thesis
proof (cases d)
  case (Tex1D t)
  show ?thesis
  proof (cases "1 < t1_ArraySize t")
    case True
    then have "v = \<lparr> vd_Format = t1_Format t, ViewDimension = RTV_TEXTURE1DARRAY 0 0 (t1_ArraySize t) \<rparr>"
      "ty = WMTTextureType2DArray"
      using ty entire Tex1D by (auto simp: metal_texture_type_def)
    then show ?thesis using M Tex1D pos(1) extent_all [of "t1_ArraySize t"] by (simp add: Let_def)
  next
    case False
    then have "t1_ArraySize t = 1" using not_1_less pos(1) Tex1D by simp
    then have "v = \<lparr> vd_Format = t1_Format t, ViewDimension = RTV_TEXTURE1D 0 \<rparr>" "ty = WMTTextureType2D"
      using ty entire Tex1D by (simp_all add: metal_texture_type_def)
    then show ?thesis using M Tex1D \<open>t1_ArraySize t = 1\<close> by simp
  qed
next
  case (Tex3D t)
  have "v = \<lparr> vd_Format = t3_Format t, ViewDimension = RTV_TEXTURE3D 0 0 (t3_Depth t) \<rparr>" "ty = WMTTextureType3D"
    using ty entire Tex3D by (simp_all add: metal_texture_type_def)
  then show ?thesis using M Tex3D by (simp add: Let_def shr32_def)
next
  case (Tex2D t)
  note D = Tex2D and one = not_1_less [OF pos(1)]
  have v: "v = \<lparr> vd_Format = t2_Format t, ViewDimension =
       (if fst (t2_SampleDesc t) = 1 then
          if t2_ArraySize t = 1 then RTV_TEXTURE2D 0 0 else RTV_TEXTURE2DARRAY 0 0 (t2_ArraySize t) 0
        else if t2_ArraySize t = 1 then RTV_TEXTURE2DMS
        else RTV_TEXTURE2DMSARRAY 0 (t2_ArraySize t)) \<rparr>"
    using entire D by (simp add: Let_def cong: if_cong)
  show ?thesis
  proof (cases "fst (t2_SampleDesc t) = 1")
    case True
    have "any_2d ty"
      using ty D True
      by (cases "t2_MiscFlags t AND D3D11_RESOURCE_MISC_TEXTURECUBE = 0"; cases "1 < t2_ArraySize t"; cases "1 < t2_ArraySize t div 6")
        (simp_all add: metal_texture_type_def)
    then show ?thesis
      using D v pos M True extent_all [of "t2_ArraySize t"]
      by (cases "t2_ArraySize t = 1") (auto simp: Let_def)
  next
    case False
    then have "1 < fst (t2_SampleDesc t)" "t2_MiscFlags t AND D3D11_RESOURCE_MISC_TEXTURECUBE = 0"
      using not_1_less [of "fst (t2_SampleDesc t)"] pos(2) limits D by (auto simp: desc_limits_def)
    then show ?thesis
      using ty False D v one pos M extent_all [of "t2_ArraySize t"]
      by (cases "1 < t2_ArraySize t") (auto simp: metal_texture_type_def Let_def split: if_splits)
  qed
qed
qed

lemma entire_format:
  "ExtractEntireSRV d = Returns v \<Longrightarrow> vd_Format v = desc_Format d"
  "ExtractEntireRTV d = Returns r \<Longrightarrow> vd_Format r = desc_Format d"
  by (cases d; auto)+

lemma entire_exists: "\<exists>v. ExtractEntireSRV d = Returns v" "\<exists>r. ExtractEntireRTV d = Returns r"
  by (cases d; simp)+

lemma covers_usage [simp]: "covers (d\<lparr> intendedUsage := u \<rparr>) = covers d"
  by (simp add: covers_def fun_eq_iff)

lemma render_target_usage:
  assumes "BindFlags AND D3D11_BIND_RENDER_TARGET \<noteq> 0"
  shows "metal_usage_of caps BindFlags f AND WMTTextureUsageRenderTarget \<noteq> 0"
proof -
  have "BindFlags AND (D3D11_BIND_RENDER_TARGET OR D3D11_BIND_DEPTH_STENCIL) \<noteq> 0"
    using assms by (auto simp: bit.conj_disj_distrib or_eq_0_iff simp del: or_numerals)
  then show ?thesis
    by (auto simp: metal_usage_of_def bit.conj_disj_distrib2 or_eq_0_iff simp del: or_numerals)
qed

text \<open>C22: Within the limits of D3D11 every texture that can be created has a view of itself: called without a
  description, \<open>CreateShaderResourceView\<close> succeeds and its descriptor covers every level and slice, and so does
  \<open>CreateRenderTargetView\<close> for a texture with the render target bind flag, whose view covers the first level
  of every slice; the check for a missing Metal usage never fires. This holds for every dimension, for arrays,
  cubes and cube arrays, and multisampled textures.\<close>

theorem entire_views_cover:
  assumes made: "CreateMTLTextureDescriptor caps d = Returns (d', info)" and limits: "desc_limits d"
  shows "(\<exists>view. CreateShaderResourceView \<lparr> dt_desc = d', dt_info = info \<rparr> None True = Returns view
            \<and> covers (tvo_descriptor view) ({0..<unat (desc_MipLevels d')}, {0..<slices info}))
     \<and> (desc_BindFlags d AND D3D11_BIND_RENDER_TARGET \<noteq> 0 \<longrightarrow>
          (\<exists>view. CreateRenderTargetView \<lparr> dt_desc = d', dt_info = info \<rparr> None True = Returns view
             \<and> covers (tvo_descriptor view) ({0}, {0..<slices info})))"
proof -
  let ?M = "ti_mipmap_level_count info" and ?A = "view_array_size d"
  obtain f count where d': "d' = set_MipLevels ?M d" and f: "MTLQueryDXGIFormat (desc_Format d) = (S_OK, f)"
    and ty: "metal_texture_type caps (desc_dimension d) (TextureDescArraySize d) (TextureDescSampleCount d) (desc_MiscFlags d)
       = Returns (ti_type info, ti_array_length info, count)"
    and pos: "TextureDescArraySize d \<noteq> 0" "TextureDescSampleCount d \<noteq> 0" "?M \<noteq> 0"
    and single: "TextureDescSampleCount d \<noteq> 1 \<Longrightarrow> ?M = 1"
    and usage: "ti_usage info = metal_usage_of caps (desc_BindFlags d) (depth_stencil_format (desc_BindFlags d) (desc_Format d) f)"
    using created_texture [OF made limits] by metis
  have shape: "texture_shape info ?M ?A" using created_shape [OF made limits] by (simp add: d')
  have A: "slices info = unat (TextureDescArraySize d)"
    using created_layers [OF made limits] by (simp add: slices_def)
  obtain v r where v: "ExtractEntireSRV d' = Returns v" and r: "ExtractEntireRTV d' = Returns r"
    using entire_exists by blast
  note srv = entire_srv_normalizes [OF ty limits pos single v [unfolded d']]
  note rtv = entire_rtv_normalizes [OF ty limits pos r [unfolded d']]
  have formats: "vd_Format v = desc_Format d" "vd_Format r = desc_Format d"
    using entire_format v r d' by auto
  obtain v' dv where nv: "InitializeAndNormalizeSRV ?M ?A info v = Returns (v', dv)"
    using srv [of "PixelFormat (FixDepthStencilFormat info f)"] f formats(1)
    by (auto simp: InitializeAndNormalizeSRV_def bindO_Returns)
  obtain r' att dr where nr: "InitializeAndNormalizeRTV ?M ?A info r = Returns (r', att, dr)"
    using rtv [of "PixelFormat f"] f formats(2)
    by (auto simp: InitializeAndNormalizeRTV_def bindO_Returns)
  have "covers dv ({0..<unat ?M}, {0..<slices info})"
    using InitializeSRV_region [OF nv shape] srv by (simp add: A)
  moreover have "covers dr ({0}, {0..<slices info})"
    using InitializeRTV_region [OF nr shape] rtv by (simp add: A)
  ultimately show ?thesis
    using v r nv nr usage render_target_usage [of "desc_BindFlags d"]
    by (simp add: CreateShaderResourceView_def CreateRenderTargetView_def given_or_entire_def d')
qed

lemma entire_views_cover_witness:
  "\<exists>d' info view.
     CreateMTLTextureDescriptor sample_caps (Tex2D (texture2d 300 20 0 12 DXGI_FORMAT_R8G8B8A8_UNORM\<lparr> t2_BindFlags := 0x28 \<rparr>))
       = Returns (d', info)
     \<and> CreateRenderTargetView \<lparr> dt_desc = d', dt_info = info \<rparr> None True = Returns view
     \<and> covers (tvo_descriptor view) ({0}, {0..<slices info})"
proof -
  let ?d = "Tex2D (texture2d 300 20 0 12 DXGI_FORMAT_R8G8B8A8_UNORM\<lparr> t2_BindFlags := 0x28 \<rparr>)"
  have "case CreateMTLTextureDescriptor sample_caps ?d of Returns _ \<Rightarrow> True | _ \<Rightarrow> False" by code_simp
  then obtain d' info where made: "CreateMTLTextureDescriptor sample_caps ?d = Returns (d', info)"
    by (auto split: outcome.splits)
  have "desc_limits ?d" by (simp add: desc_limits_def texture2d_def)
  moreover have "desc_BindFlags ?d AND D3D11_BIND_RENDER_TARGET \<noteq> 0" by code_simp
  ultimately show ?thesis using entire_views_cover [OF made] made by blast
qed

end
