(* ===== verification/Spec2Isabelle.thy ===== *)
theory Spec2Isabelle
  imports Hazards CommandQueue CommandList RingBump Subresource Residency Formats Statistics Queries EncoderPass
    RootBlob DxilParser DrawFlush TextureCreation
begin

text \<open>
  DXMT: Direct3D 10, 11 and 12 on Metal. The D3D front ends (src/src/d3d10, d3d11, d3d12, dxgi) turn API
  calls into commands of the common runtime (src/src/dxmt); the runtime records them in chunks, encodes
  the chunks into Metal command buffers on a thread of its own, and tracks the resources the commands
  touch. Shaders arrive as DXBC or DXIL containers, which are parsed (src/libs, src/src/airconv) and
  translated to AIR. This development models the runtime's bookkeeping, where a mistake is a data race, a
  lost command or memory reused too early, and the parsers of application-supplied blobs, where a
  mistake is a read out of bounds.

  The parts and how they interact.

  Recording. The application thread emits commands into the current chunk of the command queue
  (CommandQueue: src/src/dxmt/dxmt_command_queue.hpp and .cpp, util_cpu_fence.hpp), whose list is the
  intrusive list of CommandList (dxmt_command_list.hpp). The encode thread runs the commands of a
  committed chunk, which append encoders to the encoder list of the encoding context; the finish thread
  waits for the GPU and recycles the chunk. CommandQueue is a step relation over the four actors with its
  invariant; the properties say that commands are executed in order and once, that a slot of the ring of
  chunks is never recorded into while it is in use, that the coherent sequence id is never ahead of the GPU
  and that a blocked commit returns.

  Synchronisation. Every encoder updates a fence; an access to a resource adds the fences it has to wait
  for (AccessTracker: the trackers of dxmt_deptrack.hpp and .cpp, over the sets of FenceSet). When a pass
  ends, FenceLocality (collectAndSimplifyWaits) drops the waits others imply. Hazards composes the two and
  states the end-to-end property: conflicting accesses are ordered by the waits that remain. Residency
  (dxmt_residency.hpp) does the same for the declarations of use to Metal.

  Encoder list. EncoderList models checkEncoderRelation and the loops of flushCommands
  (dxmt_context.cpp) which reorder and merge encoders. EncoderOrder proves that no merge or swap puts work in
  front of work it depends on, in the terms of the fences; EncoderPass gives the passes a meaning
  (contents of attachments, load and store actions, bound argument buffers) and proves that a merged pass
  refines the passes it replaces. The cases where it does not are stated as error properties.

  Memory and views. RingBump (dxmt_ring_bump_allocator.hpp) is the allocator of staging
  and argument memory, for any block allocator; Textures (dxmt_texture.hpp and .cpp) the table of view keys, the
  lazily made views and the pool of renamed allocations; Subresource (dxmt_subresource.hpp) the overlap
  test of views; FormatTables, PixelFormats and Formats the tables of dxmt_format.cpp; Queries
  (dxmt_occlusion_query.hpp and its use in dxmt_context.cpp) the visibility
  and timestamp counters across chunks; Statistics (dxmt_statistics.hpp) the frame statistics.

  Direct3D 11 bindings. BindingSet (dxmt_binding_set.hpp over the bitset of util_bit.hpp) is a table of slots with
  its dirty, bound and hazard bits; it refines a partial map with a set of hazardous slots, and the loops that
  unbind while they iterate are shown to visit the slots they should. ContextState holds the state of a context
  (d3d11_context_state.hpp, the views of d3d11_view.hpp) and the calls that end an encoder and start the next; Bindings the
  Set calls of d3d11_context_impl.cpp with their validation and hazard resolution. BindingHazards is a step
  relation over these calls with its invariant: no shader resource overlaps an output of its pipeline. What
  the constructors of views and shaders fixed is the environment, a parameter.

  Pending buffer updates. PendingUpdates models the queue UpdateSubresource1 fills and every flush of it;
  PendingCopies gives copies a meaning as partial maps from offsets to bytes and proves that the segments a
  batch keeps have the overlay of the updates it replaces, so that a flush does what the updates in order would
  do, and that the loop over all buffers ends. DrawFlush models the flush before a draw or a dispatch
  and proves that nothing bound is left waiting, constant buffers excepted, which are the subject of an error property.

  Direct3D 11 textures and views. TextureDescs holds the descriptions of textures, their level sizes and subresource
  numbers (src/src/d3d11/d3d11_resource_helper.cpp, d3d11_enumerable.cpp); LinearLayout the layout of a level in a linear
  buffer and the size of a shared heap; ViewDescs the descriptions of views and of the view of a whole resource;
  TextureViews the normalisation of a description to a Metal view descriptor (d3d11_resource_view_helper.cpp).
  ViewRegions says which levels and slices a description names and proves that the descriptors stand for exactly those, so
  that the overlap test of Subresource, on which the hazards of Bindings rest, decides whether two descriptions meet.
  TextureCreation models the Metal description of a new texture and the Create...View calls of
  d3d11_texture_device.cpp: level chains are full, and the view of a whole texture exists and covers it. An outcome is
  a value, a failing HRESULT, or undefined behaviour of C++ (a shift by the width of its operand, a division by zero).
  What the device answers (sample counts, alignments, GPU family) is the parameter caps.

  Blobs. ByteParsing is the parser vocabulary: a read outside the span is a failure of its own, so that
  safety is the absence of that failure, and the collection in_bounds_intro proves it combinator by
  combinator. DxilContainer models the container, DxilParts its signatures, hashes, names, sources and
  resource definitions, RuntimeData, RuntimeTables and RuntimeProps the runtime data (RDAT) with its tables and what
  an accepted one guarantees, PipelineValidation the pipeline state validation (PSV0), and DxilParser composes them
  as Parser::parse does; the width of size_t is a parameter W, 64 or 32, since the 32-bit build parses the
  same blobs. Bitstream models the bit reader and the parser of LLVM bitstreams
  (src/libs/DXILParser/DXILParser.cpp), BitstreamBlocks their guarantees; RootSignature models
  src/src/d3d12/d3d12_root_signature.cpp, RootBlob proves that its serializer and parser are inverse, by
  way of the layout of a blob as a list of words.

  Groups of lemmas. Each component theory has its invariant with one preservation lemma per operation
  and an induction over runs; the collections word_nat, fence_simps, in_bounds_intro and parse_simps carry
  the automation. A locale states an interface where a client uses one: the machine with an invariant
  (Prelude, interpreted on the command queue), the sets of slots behind the trackers (FenceSet) and the block
  allocator behind the ring (RingBump, interpreted on the host allocator).

  Bounds and fuel. Machine words keep their width where the code can overflow (fences, cursors, sizes,
  offsets of queries, root costs, record counts); sequence numbers of the command queue and bit offsets are
  natural numbers, since 64 bits do not wrap in a run. The walks over a linked list take fuel; the
  properties hold for any fuel above the length of the list, so that the walk is shown to end. The loop of parseBlock terminates because each round
  consumes at least one bit; it has no fuel. The loops that flush every pending update are while_option, with a proof
  that they return.

  Not modelled. Metal, Wine, COM and the C++ runtime are outside the sources or plumbing: what Metal does is a
  parameter (block allocators, images, counters) with named hypotheses, reference counts and virtual
  dispatch are left out. The rest of the D3D front ends (d3d10, dxgi, buffer views, staging and dynamic
  resources, draws, copies and queries of d3d11, d3d12 other than root signatures), the
  shader translators (airconv, DXBCParser, the LLVM half of DXILParser), the window system layer
  (winemetal), nvapi, nvngx, the presenter, shader cache, capture, configuration and logging are not
  modelled yet, or are I/O and glue with no state of their own.
\<close>

end
